(* ===== verification/ENIL_Prelude.thy ===== *)
theory ENIL_Prelude
  imports Complex_Main "HOL-Library.Word" "HOL-Library.Sublist"
begin

text \<open>
  Shared ground of the development: bytes and C strings, decimal and hexadecimal printing
  as \<open>snprintf\<close> does it, \<open>strtoll\<close>, big-endian reads, the conversions between C integer
  widths, and the collections of facts the component theories add to.

  A C string is a \<^typ>\<open>string\<close> (a list of 8-bit characters).  A buffer that the code hands to a
  \<open>str*\<close> function is read up to its first NUL, which is \<open>cstr\<close> here.  A null pointer is
  \<^const>\<open>None\<close>.  Allocation is taken to succeed except where a theory models an allocator.
\<close>

named_theorems enil_step \<open>one-step unfoldings of the code's operations\<close>
named_theorems enil_inv \<open>invariant preservation, one fact per operation\<close>

type_synonym byte = "8 word"

section \<open>Characters and bytes\<close>

definition NUL :: char where
  "NUL = CHR 0x00"

definition byte_of :: "char \<Rightarrow> byte" where
  "byte_of c = word_of_nat (of_char c)"

definition char_of_byte :: "byte \<Rightarrow> char" where
  "char_of_byte b = char_of (unat b)"

abbreviation bytes_of :: "string \<Rightarrow> byte list" where
  "bytes_of \<equiv> map byte_of"

abbreviation string_of :: "byte list \<Rightarrow> string" where
  "string_of \<equiv> map char_of_byte"

lemma of_char_less [simp]: "(of_char c :: nat) < 256"
  by (metis of_char_of nat_of_char_less_256)

lemma unat_byte_of [simp]: "unat (byte_of c) = of_char c"
  by (simp add: byte_of_def unsigned_of_nat take_bit_nat_eq_self)

lemma char_of_byte_of [simp]: "char_of_byte (byte_of c) = c"
  by (simp add: char_of_byte_def)

lemma byte_of_char_of [simp]: "byte_of (char_of_byte b) = b"
proof -
  have "unat b < 256"
    using unsigned_less [of b, where ?'a = nat] by simp
  then have "of_char (char_of (unat b) :: char) = unat b"
    by (simp add: of_char_of)
  then show ?thesis
    by (simp add: byte_of_def char_of_byte_def)
qed

lemma string_of_bytes_of [simp]: "string_of (bytes_of s) = s"
  by (induction s) simp_all

lemma bytes_of_string_of [simp]: "bytes_of (string_of s) = s"
  by (induction s) simp_all

lemma byte_of_inject [simp]: "byte_of c = byte_of d \<longleftrightarrow> c = d"
  by (metis char_of_byte_of)

section \<open>C strings\<close>

text \<open>The string a \<open>char *\<close> denotes: everything before the first NUL.\<close>

definition cstr :: "string \<Rightarrow> string" where
  "cstr s = takeWhile (\<lambda>c. c \<noteq> NUL) s"

definition no_nul :: "string \<Rightarrow> bool" where
  "no_nul s \<longleftrightarrow> list_all (\<lambda>c. c \<noteq> NUL) s"

lemma no_nul_simps [simp]:
  "no_nul []"
  "no_nul (c # s) \<longleftrightarrow> c \<noteq> NUL \<and> no_nul s"
  "no_nul (s @ t) \<longleftrightarrow> no_nul s \<and> no_nul t"
  by (simp_all add: no_nul_def)

lemma cstr_no_nul [simp]: "no_nul s \<Longrightarrow> cstr s = s"
  by (simp add: cstr_def no_nul_def takeWhile_eq_all_conv list_all_iff)

lemma no_nul_cstr [simp]: "no_nul (cstr s)"
  by (induction s) (simp_all add: cstr_def)

lemma cstr_append_NUL: "no_nul s \<Longrightarrow> cstr (s @ NUL # t) = s"
  by (induction s) (simp_all add: cstr_def)

lemma length_cstr [simp]: "length (cstr s) \<le> length s"
  by (simp add: cstr_def length_takeWhile_le)

text \<open>\<open>strncmp (s, lit, strlen (lit)) == 0\<close> for a literal without NUL.\<close>

definition has_prefix :: "string \<Rightarrow> string \<Rightarrow> bool" where
  "has_prefix s lit \<longleftrightarrow> take (length lit) s = lit"

lemma has_prefix_append [simp]: "has_prefix (lit @ s) lit"
  by (simp add: has_prefix_def)

lemma has_prefix_iff: "has_prefix s lit \<longleftrightarrow> prefix lit s"
  by (metis has_prefix_def prefix_def take_is_prefix append_eq_conv_conj)

text \<open>\<open>p && *p\<close>: a pointer that is not null and not the empty string.\<close>

definition nonempty :: "string option \<Rightarrow> bool" where
  "nonempty p \<longleftrightarrow> (case p of None \<Rightarrow> False | Some s \<Rightarrow> s \<noteq> [])"

lemma nonempty_simps [simp]:
  "\<not> nonempty None" "nonempty (Some s) \<longleftrightarrow> s \<noteq> []"
  by (simp_all add: nonempty_def)

section \<open>Machine integers\<close>

definition INT_MAX :: int where "INT_MAX = 2147483647"
definition INT_MIN :: int where "INT_MIN = -2147483648"
definition LLONG_MAX :: int where "LLONG_MAX = 9223372036854775807"
definition LLONG_MIN :: int where "LLONG_MIN = -9223372036854775808"

text \<open>A floating value cast to an integer type drops its fraction (towards zero).  The value is an
  unbounded integer here; in C the cast is undefined when it does not fit the type.\<close>

definition trunc :: "real \<Rightarrow> int" where
  "trunc x = (if 0 \<le> x then \<lfloor>x\<rfloor> else \<lceil>x\<rceil>)"

lemma trunc_of_int [simp]: "trunc (of_int n) = n"
  by (simp add: trunc_def)

lemma trunc_numeral [simp]:
  "trunc 0 = 0" "trunc 1 = 1" "trunc (numeral k) = numeral k" "trunc (- numeral k) = - numeral k"
  by (simp_all add: trunc_def)

text \<open>The low 32 bits read as a signed value, and the low 8 bits.\<close>

definition wrap32 :: "int \<Rightarrow> int" where
  "wrap32 n = sint (word_of_int n :: 32 word)"

lemma wrap32_id: "INT_MIN \<le> n \<Longrightarrow> n \<le> INT_MAX \<Longrightarrow> wrap32 n = n"
  by (simp add: wrap32_def INT_MIN_def INT_MAX_def sint_sbintrunc' signed_take_bit_int_eq_self)

definition be32 :: "byte \<Rightarrow> byte \<Rightarrow> byte \<Rightarrow> byte \<Rightarrow> nat" where
  "be32 a b c d = unat a * 2 ^ 24 + unat b * 2 ^ 16 + unat c * 2 ^ 8 + unat d"

lemma unat_byte_less [simp]: "unat (b :: byte) < 256"
  using unsigned_less [of b, where ?'a = nat] by simp

lemma be32_less: "be32 a b c d < 2 ^ 32"
  using unat_byte_less [of a] unat_byte_less [of b] unat_byte_less [of c] unat_byte_less [of d]
  by (simp add: be32_def del: unat_byte_less)

section \<open>Decimal and hexadecimal text\<close>

definition digit_char :: "nat \<Rightarrow> char" where
  "digit_char d = char_of (48 + d)"

definition is_digit :: "char \<Rightarrow> bool" where
  "is_digit c \<longleftrightarrow> 48 \<le> (of_char c :: nat) \<and> (of_char c :: nat) \<le> 57"

definition digit_val :: "char \<Rightarrow> nat" where
  "digit_val c = of_char c - 48"

lemma of_char_digit [simp]: "d < 10 \<Longrightarrow> of_char (digit_char d) = 48 + d"
  by (simp add: digit_char_def of_char_of)

lemma digit_char_simps [simp]:
  "d < 10 \<Longrightarrow> is_digit (digit_char d)" "d < 10 \<Longrightarrow> digit_val (digit_char d) = d"
  by (simp_all add: is_digit_def digit_val_def)

text \<open>\<open>%lu\<close>, \<open>%d\<close> and \<open>%lld\<close> of \<open>snprintf\<close>.\<close>

fun show_nat :: "nat \<Rightarrow> string" where
  "show_nat n = (if n < 10 then [digit_char n] else show_nat (n div 10) @ [digit_char (n mod 10)])"

declare show_nat.simps [simp del]

definition show_int :: "int \<Rightarrow> string" where
  "show_int n = (if n < 0 then CHR ''-'' # show_nat (nat (- n)) else show_nat (nat n))"

fun read_nat :: "nat \<Rightarrow> string \<Rightarrow> nat" where
  "read_nat acc [] = acc"
| "read_nat acc (c # s) = read_nat (10 * acc + digit_val c) s"

lemma read_nat_append: "read_nat acc (s @ t) = read_nat (read_nat acc s) t"
  by (induction s arbitrary: acc) simp_all

lemma show_nat_nonempty [simp]: "show_nat n \<noteq> []"
  by (subst show_nat.simps) simp

lemma show_nat_digits: "list_all is_digit (show_nat n)"
proof (induction n rule: show_nat.induct)
  case (1 n)
  then show ?case by (subst show_nat.simps) simp
qed

lemma read_show_nat: "read_nat 0 (show_nat n) = n"
proof (induction n rule: show_nat.induct)
  case (1 n)
  then show ?case
    by (cases "n < 10") (simp_all add: show_nat.simps [of n] read_nat_append)
qed

lemma show_nat_inject [simp]: "show_nat m = show_nat n \<longleftrightarrow> m = n"
  by (metis read_show_nat)

lemma length_show_nat: "n < 10 ^ k \<Longrightarrow> 0 < k \<Longrightarrow> length (show_nat n) \<le> k"
proof (induction n arbitrary: k rule: show_nat.induct)
  case (1 n)
  show ?case
  proof (cases "n < 10")
    case True
    with "1.prems" show ?thesis by (simp add: show_nat.simps [of n])
  next
    case False
    with "1.prems" obtain j where k: "k = Suc j"
      by (cases k) simp_all
    from False "1.prems"(1) k have "n div 10 < 10 ^ j" by simp
    moreover from this False have "0 < j"
      by (cases j) simp_all
    ultimately have "length (show_nat (n div 10)) \<le> j"
      using "1.IH" False by blast
    with False k show ?thesis by (simp add: show_nat.simps [of n])
  qed
qed

lemma show_nat_no_sign: "hd (show_nat n) \<noteq> CHR ''-''"
proof -
  have "is_digit (hd (show_nat n))"
    using show_nat_digits [of n] by (cases "show_nat n") simp_all
  then show ?thesis by (auto simp: is_digit_def)
qed

lemma is_digit_not_NUL: "is_digit c \<Longrightarrow> c \<noteq> NUL"
  by (auto simp: is_digit_def NUL_def)

lemma no_nul_show_nat [simp]: "no_nul (show_nat n)"
  using show_nat_digits [of n] by (auto simp: no_nul_def list_all_iff is_digit_not_NUL)

lemma no_nul_show_int [simp]: "no_nul (show_int n)"
  by (simp add: show_int_def NUL_def)

lemma show_int_inject: "show_int m = show_int n \<longleftrightarrow> m = n"
proof
  assume eq: "show_int m = show_int n"
  show "m = n"
  proof (cases "m < 0 \<longleftrightarrow> n < 0")
    case True
    with eq show ?thesis by (auto simp: show_int_def split: if_splits)
  next
    case False
    with eq have "hd (show_nat (nat m)) = CHR ''-'' \<or> hd (show_nat (nat n)) = CHR ''-''"
      by (auto simp: show_int_def split: if_splits) (metis list.sel(1))+
    then show ?thesis by (simp add: show_nat_no_sign)
  qed
qed simp

definition hex_upper :: "nat \<Rightarrow> char" where
  "hex_upper d = ''0123456789ABCDEF'' ! d"

definition hex_lower :: "nat \<Rightarrow> char" where
  "hex_lower d = ''0123456789abcdef'' ! d"

definition hex_val :: "char \<Rightarrow> nat" where
  "hex_val c = (if is_digit c then digit_val c else (of_char c :: nat) - 55)"

lemma less_16_cases:
  "d < (16 :: nat) \<Longrightarrow> d \<in> {0, 1, 2, 3, 4, 5, 6, 7, 8, 9, 10, 11, 12, 13, 14, 15}"
  by (simp add: numeral_eq_Suc less_Suc_eq)

lemma hex_val_upper [simp]: "d < 16 \<Longrightarrow> hex_val (hex_upper d) = d"
  by (drule less_16_cases) (auto simp: hex_upper_def hex_val_def is_digit_def digit_val_def)

section \<open>strtoll in base ten\<close>

definition is_space :: "char \<Rightarrow> bool" where
  "is_space c \<longleftrightarrow> c = CHR '' '' \<or> (9 \<le> (of_char c :: nat) \<and> (of_char c :: nat) \<le> 13)"

text \<open>
  \<open>strtoll (s, &end, 10)\<close>: the value, what \<open>end\<close> points at, and whether \<open>errno\<close> became
  \<open>ERANGE\<close>.  Without a digit nothing is converted and \<open>end = s\<close>.
\<close>

definition strtoll10 :: "string \<Rightarrow> int \<times> string \<times> bool" where
  "strtoll10 s =
     (let t = dropWhile is_space s;
          neg = (t \<noteq> [] \<and> hd t = CHR ''-'');
          u = (if t \<noteq> [] \<and> (hd t = CHR ''-'' \<or> hd t = CHR ''+'') then tl t else t);
          ds = takeWhile is_digit u;
          n = int (read_nat 0 ds);
          v = (if neg then - n else n)
      in if ds = [] then (0, s, False)
         else if LLONG_MAX < v then (LLONG_MAX, dropWhile is_digit u, True)
         else if v < LLONG_MIN then (LLONG_MIN, dropWhile is_digit u, True)
         else (v, dropWhile is_digit u, False))"

lemma is_digit_not_space: "is_digit c \<Longrightarrow> \<not> is_space c"
  by (auto simp: is_digit_def is_space_def)

lemma strtoll10_show_int:
  assumes "LLONG_MIN \<le> n" and "n \<le> LLONG_MAX"
  shows "strtoll10 (show_int n) = (n, [], False)"
proof -
  have all: "takeWhile is_digit (show_nat k) = show_nat k" "dropWhile is_digit (show_nat k) = []" for k
    using show_nat_digits [of k] by (simp_all add: takeWhile_eq_all_conv list_all_iff)
  have nosp: "dropWhile is_space (show_nat k) = show_nat k" for k
    using show_nat_digits [of k] by (cases "show_nat k") (simp_all add: is_digit_not_space)
  have sign: "hd (show_nat k) \<noteq> CHR ''+''" for k
    using show_nat_digits [of k] by (cases "show_nat k") (auto simp: is_digit_def)
  show ?thesis
    using assms
    by (auto simp: strtoll10_def show_int_def Let_def all nosp sign show_nat_no_sign
        read_show_nat is_space_def)
qed

lemma strtoll10_range: "LLONG_MIN \<le> fst (strtoll10 s) \<and> fst (strtoll10 s) \<le> LLONG_MAX"
  by (simp add: strtoll10_def Let_def LLONG_MIN_def LLONG_MAX_def)

section \<open>Lists\<close>

lemma take_drop_split: "n \<le> length xs \<Longrightarrow> take n xs @ drop n xs = xs"
  by simp

text \<open>\<open>strrchr (s, c)\<close> splits at the last occurrence: what is before it and what is after it.\<close>

definition split_last :: "'a \<Rightarrow> 'a list \<Rightarrow> ('a list \<times> 'a list) option" where
  "split_last c s =
     (if c \<in> set s
      then Some (rev (tl (dropWhile (\<lambda>x. x \<noteq> c) (rev s))), rev (takeWhile (\<lambda>x. x \<noteq> c) (rev s)))
      else None)"

lemma split_last_append: "c \<notin> set t \<Longrightarrow> split_last c (s @ c # t) = Some (s, t)"
proof -
  assume c: "c \<notin> set t"
  then have "dropWhile (\<lambda>x. x \<noteq> c) (rev t @ c # rev s) = c # rev s"
    and "takeWhile (\<lambda>x. x \<noteq> c) (rev t @ c # rev s) = rev t"
    by (auto simp: dropWhile_append takeWhile_append)
  then show ?thesis by (simp add: split_last_def)
qed

lemma split_last_Some:
  assumes "split_last c s = Some (a, b)"
  shows "s = a @ c # b \<and> c \<notin> set b"
proof -
  from assms have "c \<in> set s" by (simp add: split_last_def split: if_splits)
  then obtain u v where "s = u @ c # v" and "c \<notin> set v"
    by (meson split_list_last)
  with assms show ?thesis by (simp add: split_last_append)
qed

end
