(* ===== verification/ENIL_StrBuf.thy ===== *)
theory ENIL_StrBuf
  imports ENIL_Prelude
begin

text \<open>
  The growable byte buffer and the HTML, JavaScript and URL escapers of
  \<open>source/shared/enil_strbuf.c\<close>.  The heap block is kept as a list of \<open>cap\<close> characters, so a
  write past it would be visible; \<open>malloc\<close>/\<open>realloc\<close> are a parameter that gives a block of the
  asked size or fails.  \<open>contents\<close> is the abstraction (the bytes before \<open>len\<close>), and every
  appender is proved to append its escaped text to it.
\<close>

section \<open>The allocator the code calls\<close>

text \<open>
  \<open>M n\<close> is the block \<open>malloc (n)\<close> returns, with whatever bytes it holds, or \<open>None\<close>.  The only
  thing the code relies on is the size of a returned block.
\<close>

type_synonym heap_alloc = "nat \<Rightarrow> char list option"

definition sized :: "heap_alloc \<Rightarrow> bool" where
  "sized M \<longleftrightarrow> (\<forall>n blk. M n = Some blk \<longrightarrow> length blk = n)"

definition never_fails :: "heap_alloc \<Rightarrow> bool" where
  "never_fails M \<longleftrightarrow> (\<forall>n. M n \<noteq> None)"

definition zeroed :: heap_alloc where
  "zeroed n = Some (replicate n NUL)"

lemma zeroed_sized [simp]: "sized zeroed" and zeroed_never_fails [simp]: "never_fails zeroed"
  by (auto simp: zeroed_def sized_def never_fails_def)

section \<open>The buffer\<close>

record ENILStrBuf =
  buf :: "char list option"
  len :: nat
  cap :: nat

definition esb_init :: "heap_alloc \<Rightarrow> ENILStrBuf \<times> bool" where
  "esb_init M = (case M 1024 of
       None \<Rightarrow> (\<lparr>buf = None, len = 0, cap = 0\<rparr>, False)
     | Some blk \<Rightarrow> (\<lparr>buf = Some (blk[0 := NUL]), len = 0, cap = 1024\<rparr>, True))"

text \<open>\<open>while (ncap <= b->len + need) ncap *= 2\<close>; \<open>ncap\<close> is never 0 where the loop starts.\<close>

function grow_cap :: "nat \<Rightarrow> nat \<Rightarrow> nat" where
  "grow_cap ncap target =
     (if ncap \<le> target \<and> 0 < ncap then grow_cap (ncap * 2) target else ncap)"
  by pat_completeness auto
termination
  by (relation "measure (\<lambda>(n, t). Suc t - n)") auto

declare grow_cap.simps [simp del]

definition esb_grow :: "heap_alloc \<Rightarrow> ENILStrBuf \<Rightarrow> nat \<Rightarrow> ENILStrBuf \<times> bool" where
  "esb_grow M b need = (case buf b of
       None \<Rightarrow> (b, False)
     | Some blk \<Rightarrow>
         if len b + need < cap b then (b, True)
         else let ncap = grow_cap (if cap b \<noteq> 0 then cap b * 2 else 1024) (len b + need)
              in case M ncap of
                   None \<Rightarrow> (b, False)
                 | Some fresh \<Rightarrow>
                     (b\<lparr>buf := Some (blk @ drop (length blk) fresh), cap := ncap\<rparr>, True))"

text \<open>\<open>memcpy (blk + off, xs, |xs|)\<close>.\<close>

definition write_at :: "nat \<Rightarrow> char list \<Rightarrow> char list \<Rightarrow> char list" where
  "write_at off xs blk = take off blk @ xs @ drop (off + length xs) blk"

definition esb_append :: "heap_alloc \<Rightarrow> ENILStrBuf \<Rightarrow> string option \<Rightarrow> nat \<Rightarrow> ENILStrBuf" where
  "esb_append M b s n = (case s of
       None \<Rightarrow> b
     | Some src \<Rightarrow>
         (case esb_grow M b (n + 1) of
            (b', False) \<Rightarrow> b'
          | (b', True) \<Rightarrow>
              b'\<lparr>buf := map_option
                    (\<lambda>blk. (write_at (len b') (take n src) blk)[len b' + n := NUL]) (buf b'),
                 len := len b' + n\<rparr>))"

definition esb_append_str :: "heap_alloc \<Rightarrow> ENILStrBuf \<Rightarrow> string option \<Rightarrow> ENILStrBuf" where
  "esb_append_str M b s = (case s of
       None \<Rightarrow> b
     | Some t \<Rightarrow> esb_append M b (Some (cstr t)) (length (cstr t)))"

text \<open>\<open>ESB_LIT\<close>: a literal, with its length known.\<close>

definition esb_lit :: "heap_alloc \<Rightarrow> ENILStrBuf \<Rightarrow> string \<Rightarrow> ENILStrBuf" where
  "esb_lit M b s = esb_append M b (Some s) (length s)"

text \<open>\<open>t[16]\<close> holds every decimal \<open>int\<close>, so \<open>snprintf\<close> never truncates here.\<close>

definition esb_int :: "heap_alloc \<Rightarrow> ENILStrBuf \<Rightarrow> int \<Rightarrow> ENILStrBuf" where
  "esb_int M b v = (let t = show_int v in
     if 0 < length t then esb_append M b (Some t) (length t) else b)"

section \<open>Escapers\<close>

definition html_entity :: "bool \<Rightarrow> char \<Rightarrow> string option" where
  "html_entity br c =
     (if c = CHR ''&'' then Some ''&amp;''
      else if c = CHR ''<'' then Some ''&lt;''
      else if c = CHR ''>'' then Some ''&gt;''
      else if c = CHR 0x22 then Some ''&quot;''
      else if c = CHR 0x0A \<and> br then Some ''<br>''
      else None)"

text \<open>
  The single pass: \<open>i\<close> is the read index, \<open>run\<close> the start of the run of plain characters not
  yet copied.
\<close>

function html_loop ::
  "heap_alloc \<Rightarrow> (char \<Rightarrow> string option) \<Rightarrow> string \<Rightarrow> nat \<Rightarrow> nat \<Rightarrow> nat \<Rightarrow> ENILStrBuf \<Rightarrow> ENILStrBuf" where
  "html_loop M ent s n i run b =
     (if i < n then
        (case ent (s ! i) of
           None \<Rightarrow> html_loop M ent s n (Suc i) run b
         | Some e \<Rightarrow>
             let b1 = (if run < i then esb_append M b (Some (drop run s)) (i - run) else b);
                 b2 = esb_append M b1 (Some e) (length e)
             in html_loop M ent s n (Suc i) (Suc i) b2)
      else if run < n then esb_append M b (Some (drop run s)) (n - run)
      else b)"
  by pat_completeness auto
termination
  by (relation "measure (\<lambda>(M, ent, s, n, i, run, b). n - i)") auto

declare html_loop.simps [simp del]

definition esb_html_core ::
  "heap_alloc \<Rightarrow> ENILStrBuf \<Rightarrow> string option \<Rightarrow> nat \<Rightarrow> bool \<Rightarrow> ENILStrBuf" where
  "esb_html_core M b s n br = (case s of
       None \<Rightarrow> b
     | Some t \<Rightarrow> if n = 0 then b else html_loop M (html_entity br) t n 0 0 b)"

definition esb_html :: "heap_alloc \<Rightarrow> ENILStrBuf \<Rightarrow> string option \<Rightarrow> ENILStrBuf" where
  "esb_html M b s = (case s of None \<Rightarrow> b
     | Some t \<Rightarrow> esb_html_core M b (Some (cstr t)) (length (cstr t)) False)"

definition esb_html_n :: "heap_alloc \<Rightarrow> ENILStrBuf \<Rightarrow> string option \<Rightarrow> nat \<Rightarrow> ENILStrBuf" where
  "esb_html_n M b s n = esb_html_core M b s n False"

definition esb_html_br :: "heap_alloc \<Rightarrow> ENILStrBuf \<Rightarrow> string option \<Rightarrow> ENILStrBuf" where
  "esb_html_br M b s = (case s of None \<Rightarrow> b
     | Some t \<Rightarrow> esb_html_core M b (Some (cstr t)) (length (cstr t)) True)"

definition esb_html_br_n :: "heap_alloc \<Rightarrow> ENILStrBuf \<Rightarrow> string option \<Rightarrow> nat \<Rightarrow> ENILStrBuf" where
  "esb_html_br_n M b s n = esb_html_core M b s n True"

definition js_escape_of :: "char \<Rightarrow> string option" where
  "js_escape_of c =
     (if c = CHR 0x5C then Some [CHR 0x5C, CHR 0x5C]
      else if c = CHR 0x22 then Some [CHR 0x5C, CHR 0x22]
      else if c = CHR 0x0A then Some [CHR 0x5C, CHR ''n'']
      else if c = CHR 0x0D then Some [CHR 0x5C, CHR ''r'']
      else None)"

text \<open>\<open>esb_js\<close> walks the string by pointer; the run logic is that of the HTML pass.\<close>

definition esb_js :: "heap_alloc \<Rightarrow> ENILStrBuf \<Rightarrow> string option \<Rightarrow> ENILStrBuf" where
  "esb_js M b s = (case s of
       None \<Rightarrow> b
     | Some t \<Rightarrow> if cstr t = [] then b
                 else html_loop M js_escape_of (cstr t) (length (cstr t)) 0 0 b)"

definition is_url_unreserved :: "char \<Rightarrow> bool" where
  "is_url_unreserved c \<longleftrightarrow>
     (let n = of_char c :: nat in
      (65 \<le> n \<and> n \<le> 90) \<or> (97 \<le> n \<and> n \<le> 122) \<or> (48 \<le> n \<and> n \<le> 57) \<or>
      c = CHR ''-'' \<or> c = CHR ''_'' \<or> c = CHR ''.'' \<or> c = CHR ''~'')"

fun url_loop :: "heap_alloc \<Rightarrow> bool \<Rightarrow> string \<Rightarrow> ENILStrBuf \<Rightarrow> ENILStrBuf" where
  "url_loop M keep_slash [] b = b"
| "url_loop M keep_slash (c # s) b =
     url_loop M keep_slash s
       (if is_url_unreserved c \<or> (keep_slash \<and> c = CHR ''/'')
        then esb_append M b (Some [c]) 1
        else esb_append M b
               (Some [CHR ''%'', hex_upper (of_char c div 16), hex_upper (of_char c mod 16)]) 3)"

definition esb_url_core :: "heap_alloc \<Rightarrow> ENILStrBuf \<Rightarrow> string option \<Rightarrow> bool \<Rightarrow> ENILStrBuf" where
  "esb_url_core M b s keep_slash =
     (case s of None \<Rightarrow> b | Some t \<Rightarrow> url_loop M keep_slash (cstr t) b)"

definition esb_url :: "heap_alloc \<Rightarrow> ENILStrBuf \<Rightarrow> string option \<Rightarrow> ENILStrBuf" where
  "esb_url M b s = esb_url_core M b s False"

definition esb_url_path :: "heap_alloc \<Rightarrow> ENILStrBuf \<Rightarrow> string option \<Rightarrow> ENILStrBuf" where
  "esb_url_path M b s = esb_url_core M b s True"

section \<open>Invariant and abstraction\<close>

definition wf_buf :: "ENILStrBuf \<Rightarrow> bool" where
  "wf_buf b \<longleftrightarrow> (case buf b of
       None \<Rightarrow> len b = 0 \<and> cap b = 0
     | Some blk \<Rightarrow> length blk = cap b \<and> len b < cap b \<and> blk ! len b = NUL)"

definition contents :: "ENILStrBuf \<Rightarrow> string" where
  "contents b = (case buf b of None \<Rightarrow> [] | Some blk \<Rightarrow> take (len b) blk)"

text \<open>A live buffer under an allocator that does not fail: where appending always works.\<close>

definition ready :: "heap_alloc \<Rightarrow> ENILStrBuf \<Rightarrow> bool" where
  "ready M b \<longleftrightarrow> sized M \<and> never_fails M \<and> wf_buf b \<and> buf b \<noteq> None"

lemma grow_cap_gt: "0 < n \<Longrightarrow> t < grow_cap n t"
proof (induction n t rule: grow_cap.induct)
  case (1 n t)
  then show ?case by (subst grow_cap.simps) auto
qed

lemma grow_cap_bound: "0 < n \<Longrightarrow> grow_cap n t \<le> max n (2 * t)"
proof (induction n t rule: grow_cap.induct)
  case (1 n t)
  then show ?case by (subst grow_cap.simps) auto
qed

lemma esb_init_wf [enil_inv]: "sized M \<Longrightarrow> wf_buf (fst (esb_init M))"
  by (auto simp: esb_init_def wf_buf_def sized_def split: option.splits)

lemma esb_init_ready: "sized M \<Longrightarrow> never_fails M \<Longrightarrow>
    snd (esb_init M) \<and> ready M (fst (esb_init M)) \<and> contents (fst (esb_init M)) = []"
  by (auto simp: esb_init_def wf_buf_def ready_def contents_def sized_def never_fails_def
      split: option.splits)

text \<open>Growing keeps the bytes, and makes room: after a success \<open>len + need < cap\<close>.\<close>

lemma esb_grow_False: "esb_grow M b need = (b', False) \<Longrightarrow> b' = b"
  by (auto simp: esb_grow_def Let_def split: option.splits if_splits)

lemma esb_grow_True:
  assumes "wf_buf b" and "sized M" and "esb_grow M b need = (b', True)"
  obtains blk where "buf b' = Some blk" and "length blk = cap b'" and "len b' = len b"
    and "len b + need < cap b'" and "contents b' = contents b"
proof -
  from assms(3) obtain blk0 where blk0: "buf b = Some blk0"
    by (auto simp: esb_grow_def split: option.splits)
  with assms(1) have l0: "length blk0 = cap b" "len b < cap b"
    by (auto simp: wf_buf_def)
  show ?thesis
  proof (cases "len b + need < cap b")
    case True
    with assms(3) blk0 have "b' = b" by (simp add: esb_grow_def)
    with blk0 l0 True show ?thesis by (intro that) auto
  next
    case False
    define n where "n = grow_cap (cap b * 2) (len b + need)"
    have n: "len b + need < n" unfolding n_def using l0 by (intro grow_cap_gt) simp
    from assms(3) blk0 False l0 obtain fresh where "M n = Some fresh"
      and b': "b' = b\<lparr>buf := Some (blk0 @ drop (length blk0) fresh), cap := n\<rparr>"
      by (auto simp: esb_grow_def Let_def n_def split: option.splits)
    with assms(2) have "length fresh = n" by (simp add: sized_def)
    with b' n l0 False show ?thesis
      by (intro that [of "blk0 @ drop (length blk0) fresh"]) (auto simp: contents_def blk0)
  qed
qed

lemma esb_grow_succeeds: "ready M b \<Longrightarrow> snd (esb_grow M b need)"
proof -
  assume r: "ready M b"
  then have M: "\<exists>f. M n = Some f" for n by (simp add: ready_def never_fails_def)
  from r obtain blk where blk: "buf b = Some blk" by (auto simp: ready_def)
  obtain f where "M (grow_cap (if cap b \<noteq> 0 then cap b * 2 else 1024) (len b + need)) = Some f"
    using M by blast
  with blk show ?thesis by (simp add: esb_grow_def Let_def)
qed

lemma esb_append_cases:
  assumes "wf_buf b" and "sized M" and "n \<le> length src"
  shows "(esb_append M b (Some src) n = b \<and> \<not> snd (esb_grow M b (n + 1))) \<or>
         (wf_buf (esb_append M b (Some src) n) \<and> buf (esb_append M b (Some src) n) \<noteq> None \<and>
          contents (esb_append M b (Some src) n) = contents b @ take n src \<and>
          len (esb_append M b (Some src) n) = len b + n)"
proof (cases "esb_grow M b (n + 1)")
  case (Pair b' okay)
  show ?thesis
  proof (cases okay)
    case False
    with Pair show ?thesis by (simp add: esb_append_def esb_grow_False)
  next
    case True
    with Pair assms(1,2) obtain blk where blk: "buf b' = Some blk" "length blk = cap b'"
      "len b' = len b" "len b + (n + 1) < cap b'" "contents b' = contents b"
      by (auto elim: esb_grow_True)
    let ?w = "(write_at (len b) (take n src) blk)[len b + n := NUL]"
    have lw: "length ?w = cap b'" using blk assms(3) by (simp add: write_at_def)
    have "take (len b + n) ?w = take (len b) blk @ take n src"
      using blk assms(3) by (simp add: write_at_def)
    moreover have "?w ! (len b + n) = NUL"
      using lw blk by (intro nth_list_update_eq) simp
    ultimately show ?thesis
      using Pair True blk lw by (auto simp: esb_append_def wf_buf_def contents_def)
  qed
qed

lemma esb_append_wf [enil_inv]:
  "wf_buf b \<Longrightarrow> sized M \<Longrightarrow> n \<le> length src \<Longrightarrow> wf_buf (esb_append M b (Some src) n)"
  using esb_append_cases [of b M n src] by auto

lemma esb_append_ready:
  assumes "ready M b" and "n \<le> length src"
  shows "ready M (esb_append M b (Some src) n)"
    and "contents (esb_append M b (Some src) n) = contents b @ take n src"
  using esb_append_cases [of b M n src] esb_grow_succeeds [OF assms(1), of "n + 1"] assms
  by (auto simp: ready_def)

lemma esb_append_null [simp]: "esb_append M b None n = b"
  by (simp add: esb_append_def)

lemma esb_append_dead [simp]: "buf b = None \<Longrightarrow> esb_append M b s n = b"
  by (simp add: esb_append_def esb_grow_def split: option.splits)

lemma esb_lit_ready:
  assumes "ready M b"
  shows "ready M (esb_lit M b s)" and "contents (esb_lit M b s) = contents b @ s"
  using esb_append_ready [OF assms, of "length s" s] by (simp_all add: esb_lit_def)

section \<open>Appending as an interface\<close>

text \<open>
  What the renderers rely on: a buffer with a readable text to which pieces are put at the end.
\<close>

locale text_sink =
  fixes view :: "'b \<Rightarrow> string"
    and ok :: "'b \<Rightarrow> bool"
    and put :: "'b \<Rightarrow> string \<Rightarrow> 'b"
  assumes ok_put: "ok b \<Longrightarrow> ok (put b s)"
    and view_put: "ok b \<Longrightarrow> view (put b s) = view b @ s"
begin

lemma ok_puts: "ok b \<Longrightarrow> ok (foldl put b ss)"
  by (induction ss arbitrary: b) (simp_all add: ok_put)

lemma view_puts: "ok b \<Longrightarrow> view (foldl put b ss) = view b @ concat ss"
  by (induction ss arbitrary: b) (simp_all add: ok_put view_put)

lemma view_puts_map: "ok b \<Longrightarrow> view (foldl (\<lambda>b x. put b (f x)) b xs) = view b @ concat (map f xs)"
  by (induction xs arbitrary: b) (simp_all add: ok_put view_put)

lemma ok_puts_map: "ok b \<Longrightarrow> ok (foldl (\<lambda>b x. put b (f x)) b xs)"
  by (induction xs arbitrary: b) (simp_all add: ok_put)

end

interpretation sb: text_sink contents "ready M" "esb_lit M" for M
  by unfold_locales (simp_all add: esb_lit_ready)

section \<open>Escaping as an interface\<close>

definition escape :: "(char \<Rightarrow> string option) \<Rightarrow> string \<Rightarrow> string" where
  "escape ent s = concat (map (\<lambda>c. case ent c of None \<Rightarrow> [c] | Some e \<Rightarrow> e) s)"

lemma escape_simps [simp]:
  "escape ent [] = []"
  "escape ent (c # s) = (case ent c of None \<Rightarrow> [c] | Some e \<Rightarrow> e) @ escape ent s"
  "escape ent (s @ t) = escape ent s @ escape ent t"
  by (simp_all add: escape_def)

lemma escape_plain: "\<forall>c \<in> set s. ent c = None \<Longrightarrow> escape ent s = s"
  by (induction s) simp_all

text \<open>Reads back one escaped unit at a time; the fuel is the number of units.\<close>

fun unescape :: "(string \<Rightarrow> (char \<times> string) option) \<Rightarrow> nat \<Rightarrow> string \<Rightarrow> string option" where
  "unescape dec fuel [] = Some []"
| "unescape dec 0 (c # s) = None"
| "unescape dec (Suc fuel) (c # s) =
     (case dec (c # s) of None \<Rightarrow> None | Some (d, r) \<Rightarrow> map_option ((#) d) (unescape dec fuel r))"

locale escaper =
  fixes ent :: "char \<Rightarrow> string option"
    and dec :: "string \<Rightarrow> (char \<times> string) option"
  assumes dec_plain: "ent c = None \<Longrightarrow> dec (c # r) = Some (c, r)"
    and dec_ent: "ent c = Some e \<Longrightarrow> dec (e @ r) = Some (c, r)"
    and ent_nonempty: "ent c = Some e \<Longrightarrow> e \<noteq> []"
begin

lemma unescape_escape: "length s \<le> fuel \<Longrightarrow> unescape dec fuel (escape ent s) = Some s"
proof (induction s arbitrary: fuel)
  case Nil
  show ?case by simp
next
  case (Cons c s)
  then obtain f where fuel: "fuel = Suc f" and "length s \<le> f"
    by (cases fuel) simp_all
  then have IH: "unescape dec f (escape ent s) = Some s" by (simp add: Cons.IH)
  show ?case
  proof (cases "ent c")
    case None
    with fuel IH show ?thesis by (simp add: dec_plain)
  next
    case (Some e)
    then obtain d r where "e = d # r" using ent_nonempty by (cases e) auto
    with Some fuel IH dec_ent [OF Some, of "escape ent s"] show ?thesis by simp
  qed
qed

lemma escape_inject: "escape ent s = escape ent t \<longleftrightarrow> s = t"
  by (metis unescape_escape max.cobounded1 max.cobounded2 option.inject)

end

text \<open>How a browser reads the five entities, and how JavaScript reads a string literal's body.\<close>

definition html_dec :: "bool \<Rightarrow> string \<Rightarrow> (char \<times> string) option" where
  "html_dec br s =
     (if has_prefix s ''&amp;'' then Some (CHR ''&'', drop 5 s)
      else if has_prefix s ''&lt;'' then Some (CHR ''<'', drop 4 s)
      else if has_prefix s ''&gt;'' then Some (CHR ''>'', drop 4 s)
      else if has_prefix s ''&quot;'' then Some (CHR 0x22, drop 6 s)
      else if br \<and> has_prefix s ''<br>'' then Some (CHR 0x0A, drop 4 s)
      else case s of [] \<Rightarrow> None | c # r \<Rightarrow> Some (c, r))"

fun js_dec :: "string \<Rightarrow> (char \<times> string) option" where
  "js_dec [] = None"
| "js_dec (c # s) =
     (if c = CHR 0x5C then
        (case s of [] \<Rightarrow> None
         | d # r \<Rightarrow> Some (if d = CHR ''n'' then CHR 0x0A else if d = CHR ''r'' then CHR 0x0D else d, r))
      else Some (c, s))"

interpretation html: escaper "html_entity br" "html_dec br" for br
  by unfold_locales
    (auto simp: html_entity_def html_dec_def has_prefix_def split: if_splits)

interpretation js: escaper js_escape_of js_dec
  by unfold_locales (auto simp: js_escape_of_def split: if_splits)

text \<open>The single pass computes \<open>escape\<close>.\<close>

lemma html_loop_ready:
  assumes "ready M b" and "run \<le> i" and "i \<le> n" and "n \<le> length s"
    and "\<forall>k. run \<le> k \<and> k < i \<longrightarrow> ent (s ! k) = None"
  shows "ready M (html_loop M ent s n i run b) \<and>
    contents (html_loop M ent s n i run b) = contents b @ escape ent (take (n - run) (drop run s))"
  using assms
proof (induction M ent s n i run b rule: html_loop.induct)
  case (1 M ent s n i run b)
  have plain: "escape ent (take (j - run) (drop run s)) = take (j - run) (drop run s)"
    if "\<forall>k. run \<le> k \<and> k < j \<longrightarrow> ent (s ! k) = None" "j \<le> length s" for j
    using that by (intro escape_plain) (auto simp: in_set_conv_nth)
  show ?case
  proof (cases "i < n")
    case False
    with "1.prems" have i: "i = n" by simp
    from False have step: "html_loop M ent s n i run b =
        (if run < n then esb_append M b (Some (drop run s)) (n - run) else b)"
      by (subst html_loop.simps) simp
    from "1.prems" i plain [of n] esb_append_ready [OF "1.prems"(1), of "n - run" "drop run s"]
    show ?thesis unfolding step by auto
  next
    case True
    note step = html_loop.simps [of M ent s n i run b]
    show ?thesis
    proof (cases "ent (s ! i)")
      case None
      with True "1.prems" have "\<forall>k. run \<le> k \<and> k < Suc i \<longrightarrow> ent (s ! k) = None"
        by (auto simp: less_Suc_eq)
      with True None "1.IH"(1) "1.prems" step show ?thesis by simp
    next
      case (Some e)
      define b1 where "b1 = (if run < i then esb_append M b (Some (drop run s)) (i - run) else b)"
      define b2 where "b2 = esb_append M b1 (Some e) (length e)"
      have b1: "ready M b1" "contents b1 = contents b @ take (i - run) (drop run s)"
        using esb_append_ready [OF "1.prems"(1), of "i - run" "drop run s"] "1.prems"
        by (auto simp: b1_def)
      have b2: "ready M b2" "contents b2 = contents b1 @ e"
        using esb_append_ready [OF b1(1), of "length e" e] by (simp_all add: b2_def)
      have IH: "ready M (html_loop M ent s n (Suc i) (Suc i) b2) \<and>
          contents (html_loop M ent s n (Suc i) (Suc i) b2) =
          contents b2 @ escape ent (take (n - Suc i) (drop (Suc i) s))"
        using "1.IH"(2) [OF True Some b1_def b2_def] b2 True "1.prems" by simp
      have "take (n - run) (drop run s) =
          take (i - run) (drop run s) @ s ! i # take (n - Suc i) (drop (Suc i) s)"
      proof -
        have "take (n - run) (drop run s) = take (i - run) (drop run s) @ take (n - i) (drop i s)"
          using True "1.prems" take_add [of "i - run" "n - i" "drop run s"] by simp
        moreover have "drop i s = s ! i # drop (Suc i) s"
          using True "1.prems" by (intro Cons_nth_drop_Suc [symmetric]) simp
        moreover have "n - i = Suc (n - Suc i)" using True by simp
        ultimately show ?thesis by simp
      qed
      then have "escape ent (take (n - run) (drop run s)) =
          take (i - run) (drop run s) @ e @ escape ent (take (n - Suc i) (drop (Suc i) s))"
        using plain [of i] "1.prems" Some by simp
      with IH b2 b1 True Some step show ?thesis
        by (simp add: Let_def b1_def [symmetric] b2_def [symmetric])
    qed
  qed
qed

lemma esb_html_core_ready:
  assumes "ready M b" and "n \<le> length s"
  shows "ready M (esb_html_core M b (Some s) n br)"
    and "contents (esb_html_core M b (Some s) n br) = contents b @ escape (html_entity br) (take n s)"
  using html_loop_ready [OF assms(1), of 0 0 n s "html_entity br"] assms
  by (auto simp: esb_html_core_def)

lemma esb_html_ready:
  assumes "ready M b"
  shows "ready M (esb_html M b (Some s))"
    and "contents (esb_html M b (Some s)) = contents b @ escape (html_entity False) (cstr s)"
  using esb_html_core_ready [OF assms, of "length (cstr s)" "cstr s" False]
  by (simp_all add: esb_html_def)

lemma esb_html_br_ready:
  assumes "ready M b"
  shows "ready M (esb_html_br M b (Some s))"
    and "contents (esb_html_br M b (Some s)) = contents b @ escape (html_entity True) (cstr s)"
  using esb_html_core_ready [OF assms, of "length (cstr s)" "cstr s" True]
  by (simp_all add: esb_html_br_def)

lemma esb_html_br_n_ready:
  assumes "ready M b" and "n \<le> length s"
  shows "ready M (esb_html_br_n M b (Some s) n)"
    and "contents (esb_html_br_n M b (Some s) n) = contents b @ escape (html_entity True) (take n s)"
  using esb_html_core_ready [OF assms, of True] by (simp_all add: esb_html_br_n_def)

lemma esb_js_ready:
  assumes "ready M b"
  shows "ready M (esb_js M b (Some s))"
    and "contents (esb_js M b (Some s)) = contents b @ escape js_escape_of (cstr s)"
  using html_loop_ready [OF assms, of 0 0 "length (cstr s)" "cstr s" js_escape_of] assms
  by (auto simp: esb_js_def)

lemma esb_append_str_ready:
  assumes "ready M b"
  shows "ready M (esb_append_str M b (Some s))"
    and "contents (esb_append_str M b (Some s)) = contents b @ cstr s"
  using esb_append_ready [OF assms, of "length (cstr s)" "cstr s"] by (simp_all add: esb_append_str_def)

lemma esb_int_ready:
  assumes "ready M b"
  shows "ready M (esb_int M b v)" and "contents (esb_int M b v) = contents b @ show_int v"
  using esb_append_ready [OF assms, of "length (show_int v)" "show_int v"] assms
  by (auto simp: esb_int_def Let_def)

definition url_unit :: "bool \<Rightarrow> char \<Rightarrow> string" where
  "url_unit keep_slash c =
     (if is_url_unreserved c \<or> (keep_slash \<and> c = CHR ''/'') then [c]
      else [CHR ''%'', hex_upper (of_char c div 16), hex_upper (of_char c mod 16)])"

lemma url_loop_ready:
  "ready M b \<Longrightarrow> ready M (url_loop M ks s b) \<and>
     contents (url_loop M ks s b) = contents b @ concat (map (url_unit ks) s)"
proof (induction s arbitrary: b)
  case Nil
  then show ?case by simp
next
  case (Cons c s)
  define b' where "b' = (if is_url_unreserved c \<or> (ks \<and> c = CHR ''/'')
      then esb_append M b (Some [c]) 1
      else esb_append M b
        (Some [CHR ''%'', hex_upper (of_char c div 16), hex_upper (of_char c mod 16)]) 3)"
  have "ready M b'" and "contents b' = contents b @ url_unit ks c"
    using esb_append_ready [OF Cons.prems, of 1 "[c]"] esb_append_ready [OF Cons.prems, of 3
      "[CHR ''%'', hex_upper (of_char c div 16), hex_upper (of_char c mod 16)]"]
    by (auto simp: b'_def url_unit_def)
  with Cons.IH [of b'] show ?case by (simp add: b'_def)
qed

lemma esb_url_core_ready:
  assumes "ready M b"
  shows "ready M (esb_url_core M b (Some s) ks)"
    and "contents (esb_url_core M b (Some s) ks) = contents b @ concat (map (url_unit ks) (cstr s))"
  using url_loop_ready [OF assms] by (simp_all add: esb_url_core_def)

lemmas ready_facts =
  esb_append_ready esb_lit_ready esb_html_core_ready esb_html_ready esb_html_br_ready
  esb_html_br_n_ready esb_js_ready esb_append_str_ready esb_int_ready esb_url_core_ready

section \<open>Properties\<close>

lemma esb_grow_cap:
  assumes "wf_buf b" and "esb_grow M b need = (b', okay)"
  shows "cap b' \<le> max (cap b) (max 1024 (2 * (len b + need)))"
proof -
  have 1: "grow_cap 1024 t \<le> max 1024 (2 * t)" for t by (simp add: grow_cap_bound)
  have 2: "grow_cap (cap b * 2) t \<le> max (cap b * 2) (2 * t)" if "cap b \<noteq> 0" for t
    using that by (simp add: grow_cap_bound)
  from assms show ?thesis
    using 1 [of "len b + need"] 2 [of "len b + need"]
    by (auto simp: esb_grow_def Let_def split: option.splits if_splits)
qed

text \<open>An append through \<open>esb_append\<close> either adds exactly the \<open>n\<close> source bytes after the bytes
  already there, or (when the buffer is dead or \<open>realloc\<close> fails) leaves the buffer as it was; in
  both cases the length is below the block's size, the terminating NUL is in place, and the
  capacity is at most twice what was needed, so it cannot overflow \<open>size_t\<close> before the text does.\<close>

theorem esb_append_exact:
  assumes "wf_buf b" and "sized M" and "n \<le> length src"
  shows "wf_buf (esb_append M b (Some src) n) \<and>
    (esb_append M b (Some src) n = b \<or>
     contents (esb_append M b (Some src) n) = contents b @ take n src) \<and>
    cap (esb_append M b (Some src) n) \<le> max (cap b) (max 1024 (2 * (len b + n + 1))) \<and>
    (buf b \<noteq> None \<longrightarrow> never_fails M \<longrightarrow>
     contents (esb_append M b (Some src) n) = contents b @ take n src)"
proof (intro conjI impI)
  show "wf_buf (esb_append M b (Some src) n)"
    using assms by (rule esb_append_wf)
  show "esb_append M b (Some src) n = b \<or>
        contents (esb_append M b (Some src) n) = contents b @ take n src"
    using esb_append_cases [OF assms] by blast
  show "cap (esb_append M b (Some src) n) \<le> max (cap b) (max 1024 (2 * (len b + n + 1)))"
    using esb_grow_cap [OF assms(1), of M "n + 1"]
    by (cases "esb_grow M b (n + 1)") (auto simp: esb_append_def split: bool.splits)
  assume "buf b \<noteq> None" and "never_fails M"
  then show "contents (esb_append M b (Some src) n) = contents b @ take n src"
    using esb_append_ready(2) [of M b n src] assms by (simp add: ready_def)
qed

theorem esb_append_exact_witness:
  "contents (esb_append zeroed (fst (esb_init zeroed)) (Some ''abc'') 2) = ''ab''"
proof -
  have i: "wf_buf (fst (esb_init zeroed))" "buf (fst (esb_init zeroed)) \<noteq> None"
    "contents (fst (esb_init zeroed)) = []"
    using esb_init_ready [of zeroed] by (simp_all add: ready_def)
  show ?thesis
    using esb_append_exact [OF i(1) zeroed_sized, of 2 "''abc''"] i by simp
qed

lemma escape_chars:
  assumes "d \<in> set (escape ent s)"
  shows "(ent d = None \<and> d \<in> set s) \<or> (\<exists>c e. ent c = Some e \<and> d \<in> set e)"
  using assms by (induction s) (auto split: option.splits)

lemma escape_html_chars:
  "d \<in> set (escape (html_entity False) s) \<Longrightarrow> d \<notin> {CHR ''<'', CHR ''>'', CHR 0x22}"
  by (drule escape_chars) (auto simp: html_entity_def split: if_splits)

text \<open>C13: While memory can be allocated, \<open>esb_html\<close> appends text in which no \<open><\<close>, \<open>>\<close> or double quote occurs, so it can
  neither open a tag nor leave a quoted attribute, and a reader of HTML entities gets back exactly
  the string that was given.\<close>

theorem esb_html_safe:
  assumes "ready M b"
  shows "\<exists>out. contents (esb_html M b (Some s)) = contents b @ out \<and>
      set out \<inter> {CHR ''<'', CHR ''>'', CHR 0x22} = {} \<and>
      unescape (html_dec False) (length s) out = Some (cstr s)"
proof (intro exI conjI)
  show "contents (esb_html M b (Some s)) = contents b @ escape (html_entity False) (cstr s)"
    using assms by (rule esb_html_ready)
  show "set (escape (html_entity False) (cstr s)) \<inter> {CHR ''<'', CHR ''>'', CHR 0x22} = {}"
    using escape_html_chars by blast
  show "unescape (html_dec False) (length s) (escape (html_entity False) (cstr s)) = Some (cstr s)"
    by (rule html.unescape_escape) simp
qed

theorem esb_html_safe_witness:
  "\<exists>out. contents (esb_html zeroed (fst (esb_init zeroed)) (Some ''a<b'')) =
      contents (fst (esb_init zeroed)) @ out \<and>
      set out \<inter> {CHR ''<'', CHR ''>'', CHR 0x22} = {} \<and>
      unescape (html_dec False) 3 out = Some (cstr ''a<b'')"
proof -
  have "ready zeroed (fst (esb_init zeroed))"
    using esb_init_ready [of zeroed] by simp
  from esb_html_safe [OF this, of "''a<b''"] show ?thesis by (simp add: numeral_3_eq_3)
qed

text \<open>How JavaScript finds the end of a double-quoted literal: what follows the closing quote.\<close>

fun js_scan :: "string \<Rightarrow> string option" where
  "js_scan [] = None"
| "js_scan (c # s) =
     (if c = CHR 0x22 then Some s
      else if c = CHR 0x0A \<or> c = CHR 0x0D then None
      else if c = CHR 0x5C then (case s of [] \<Rightarrow> None | d # r \<Rightarrow> js_scan r)
      else js_scan s)"

lemma js_scan_escape: "js_scan (escape js_escape_of s @ CHR 0x22 # rest) = Some rest"
  by (induction s) (auto simp: js_escape_of_def)

text \<open>\<open>esb_js\<close> appends text that stays inside a double-quoted JavaScript literal: scanning it
  from just after the opening quote ends exactly at the quote the caller appends, whatever the
  string holds, and the literal's value is the string.\<close>

theorem esb_js_contained:
  assumes "ready M b"
  shows "\<exists>out. contents (esb_js M b (Some s)) = contents b @ out \<and>
      (\<forall>rest. js_scan (out @ CHR 0x22 # rest) = Some rest) \<and>
      unescape js_dec (length s) out = Some (cstr s)"
proof (intro exI conjI)
  show "contents (esb_js M b (Some s)) = contents b @ escape js_escape_of (cstr s)"
    using assms by (rule esb_js_ready)
  show "\<forall>rest. js_scan (escape js_escape_of (cstr s) @ CHR 0x22 # rest) = Some rest"
    by (simp add: js_scan_escape)
  show "unescape js_dec (length s) (escape js_escape_of (cstr s)) = Some (cstr s)"
    by (rule js.unescape_escape) simp
qed

theorem esb_js_contained_witness:
  "\<exists>out. contents (esb_js zeroed (fst (esb_init zeroed)) (Some [CHR 0x22, CHR 0x5C])) =
      contents (fst (esb_init zeroed)) @ out \<and>
      (\<forall>rest. js_scan (out @ CHR 0x22 # rest) = Some rest) \<and>
      unescape js_dec 2 out = Some (cstr [CHR 0x22, CHR 0x5C])"
proof -
  have "ready zeroed (fst (esb_init zeroed))"
    using esb_init_ready [of zeroed] by simp
  from esb_js_contained [OF this, of "[CHR 0x22, CHR 0x5C]"] show ?thesis by (simp add: numeral_2_eq_2)
qed

text \<open>Percent-decoding.\<close>

fun url_decode :: "string \<Rightarrow> string option" where
  "url_decode [] = Some []"
| "url_decode (c # s) =
     (if c = CHR ''%'' then
        (case s of h # l # r \<Rightarrow> map_option ((#) (char_of (hex_val h * 16 + hex_val l))) (url_decode r)
         | _ \<Rightarrow> None)
      else map_option ((#) c) (url_decode s))"

lemma url_decode_units: "url_decode (concat (map (url_unit ks) s)) = Some s"
proof (induction s)
  case Nil
  show ?case by simp
next
  case (Cons c s)
  have hex: "char_of (hex_val (hex_upper (of_char c div 16)) * 16 +
      hex_val (hex_upper (of_char c mod 16))) = c"
  proof -
    have "(of_char c :: nat) div 16 < 16" using of_char_less [of c] by arith
    then show ?thesis by simp
  qed
  have "is_url_unreserved c \<or> (ks \<and> c = CHR ''/'') \<Longrightarrow> c \<noteq> CHR ''%''"
    by (auto simp: is_url_unreserved_def Let_def)
  with Cons hex show ?case by (auto simp: url_unit_def)
qed

lemma hex_upper_unreserved: "d < 16 \<Longrightarrow> is_url_unreserved (hex_upper d)"
  by (drule less_16_cases) (auto simp: hex_upper_def is_url_unreserved_def)

lemma url_unit_chars:
  "d \<in> set (url_unit ks c) \<Longrightarrow> is_url_unreserved d \<or> d = CHR ''%'' \<or> (ks \<and> d = CHR ''/'')"
proof -
  have "(of_char c :: nat) div 16 < 16" using of_char_less [of c] by arith
  moreover assume "d \<in> set (url_unit ks c)"
  ultimately show ?thesis
    by (auto simp: url_unit_def hex_upper_unreserved split: if_splits)
qed

text \<open>\<open>esb_url\<close> and \<open>esb_url_path\<close> append only unreserved characters and percent escapes
  (the path form also \<open>/\<close>), and percent-decoding gives the string back.\<close>

theorem esb_url_decodes:
  assumes "ready M b"
  shows "\<exists>out. contents (esb_url_core M b (Some s) ks) = contents b @ out \<and>
      (\<forall>d \<in> set out. is_url_unreserved d \<or> d = CHR ''%'' \<or> (ks \<and> d = CHR ''/'')) \<and>
      url_decode out = Some (cstr s)"
proof (intro exI conjI)
  show "contents (esb_url_core M b (Some s) ks) = contents b @ concat (map (url_unit ks) (cstr s))"
    using assms by (rule esb_url_core_ready)
  show "\<forall>d \<in> set (concat (map (url_unit ks) (cstr s))).
      is_url_unreserved d \<or> d = CHR ''%'' \<or> (ks \<and> d = CHR ''/'')"
    by (auto dest: url_unit_chars)
  show "url_decode (concat (map (url_unit ks) (cstr s))) = Some (cstr s)"
    by (rule url_decode_units)
qed

theorem esb_url_decodes_witness:
  "\<exists>out. contents (esb_url_core zeroed (fst (esb_init zeroed)) (Some ''/a b'') True) =
      contents (fst (esb_init zeroed)) @ out \<and>
      (\<forall>d \<in> set out. is_url_unreserved d \<or> d = CHR ''%'' \<or> (True \<and> d = CHR ''/'')) \<and>
      url_decode out = Some (cstr ''/a b'')"
proof -
  have "ready zeroed (fst (esb_init zeroed))"
    using esb_init_ready [of zeroed] by simp
  then show ?thesis by (rule esb_url_decodes)
qed

end
