(* ===== verification/ENIL_Json.thy ===== *)
theory ENIL_Json
  imports ENIL_Prelude
begin

text \<open>
  The JSON library (cJSON, a separate package) as the code sees it, and the two small layers the
  code puts over it: the typed field readers of \<open>source/shared/enil_api_json.c\<close> and the request
  dispatcher of \<open>source/shared/enil_api_call.c\<close>.

  cJSON is a parameter: \<open>'j cjson\<close> is the record of its operations on an abstract item type, and
  every definition that calls it takes such a record.  The locale \<open>cjson_laws\<close> states the
  documented behaviour some results rely on; \<open>tree\<close> is an implementation by plain JSON trees,
  on which the locale is interpreted and the witnesses evaluate.
\<close>

section \<open>The library's interface\<close>

text \<open>
  \<open>children\<close> is the \<open>child\<close>/\<open>next\<close> chain, each item with its \<open>string\<close> (empty for array items).
  \<open>getItem\<close> compares names without case, \<open>getItemCS\<close> with case; both give the first match.
\<close>

record 'j cjson =
  isObject :: "'j \<Rightarrow> bool"
  isArray :: "'j \<Rightarrow> bool"
  isString :: "'j \<Rightarrow> bool"
  isNumber :: "'j \<Rightarrow> bool"
  isBool :: "'j \<Rightarrow> bool"
  isTrue :: "'j \<Rightarrow> bool"
  isNull :: "'j \<Rightarrow> bool"
  valuestring :: "'j \<Rightarrow> string"
  valuedouble :: "'j \<Rightarrow> real"
  children :: "'j \<Rightarrow> (string \<times> 'j) list"
  getItem :: "'j \<Rightarrow> string \<Rightarrow> 'j option"
  getItemCS :: "'j \<Rightarrow> string \<Rightarrow> 'j option"
  mkObject :: 'j
  mkArray :: 'j
  mkString :: "string \<Rightarrow> 'j"
  mkNumber :: "real \<Rightarrow> 'j"
  mkBool :: "bool \<Rightarrow> 'j"
  addItem :: "'j \<Rightarrow> string \<Rightarrow> 'j \<Rightarrow> 'j"
  addElem :: "'j \<Rightarrow> 'j \<Rightarrow> 'j"
  deleteCS :: "'j \<Rightarrow> string \<Rightarrow> 'j"
  replaceCS :: "'j \<Rightarrow> string \<Rightarrow> 'j \<Rightarrow> 'j"
  sameItem :: "'j \<Rightarrow> 'j \<Rightarrow> bool"
  parseText :: "string \<Rightarrow> 'j option"
  printText :: "'j \<Rightarrow> string"

text \<open>The accessors on a pointer that may be null: null in, null (or false) out.\<close>

definition jget :: "('j, 'x) cjson_scheme \<Rightarrow> 'j option \<Rightarrow> string \<Rightarrow> 'j option" where
  "jget J v k = (case v of None \<Rightarrow> None | Some j \<Rightarrow> getItemCS J j k)"

definition jgeti :: "('j, 'x) cjson_scheme \<Rightarrow> 'j option \<Rightarrow> string \<Rightarrow> 'j option" where
  "jgeti J v k = (case v of None \<Rightarrow> None | Some j \<Rightarrow> getItem J j k)"

definition jis :: "('j \<Rightarrow> bool) \<Rightarrow> 'j option \<Rightarrow> bool" where
  "jis P v = (case v of None \<Rightarrow> False | Some j \<Rightarrow> P j)"

definition jkids :: "('j, 'x) cjson_scheme \<Rightarrow> 'j option \<Rightarrow> (string \<times> 'j) list" where
  "jkids J v = (case v of None \<Rightarrow> [] | Some j \<Rightarrow> children J j)"

text \<open>The \<open>valuestring\<close> of a string item (\<open>cJSON_GetStringValue\<close>), else null.\<close>

definition jstr :: "('j, 'x) cjson_scheme \<Rightarrow> 'j option \<Rightarrow> string option" where
  "jstr J v = (case v of None \<Rightarrow> None | Some j \<Rightarrow> if isString J j then Some (valuestring J j) else None)"

lemma jget_simps [simp]: "jget J None k = None" "jget J (Some j) k = getItemCS J j k"
  by (simp_all add: jget_def)

lemma jgeti_simps [simp]: "jgeti J None k = None" "jgeti J (Some j) k = getItem J j k"
  by (simp_all add: jgeti_def)

lemma jis_simps [simp]: "\<not> jis P None" "jis P (Some j) = P j"
  by (simp_all add: jis_def)

lemma jkids_simps [simp]: "jkids J None = []" "jkids J (Some j) = children J j"
  by (simp_all add: jkids_def)

lemma jstr_simps [simp]:
  "jstr J None = None" "jstr J (Some j) = (if isString J j then Some (valuestring J j) else None)"
  by (simp_all add: jstr_def)

section \<open>The documented behaviour\<close>

text \<open>Removing and replacing the first item of a name.\<close>

fun del1 :: "string \<Rightarrow> (string \<times> 'j) list \<Rightarrow> (string \<times> 'j) list" where
  "del1 k [] = []"
| "del1 k ((k', v) # kvs) = (if k' = k then kvs else (k', v) # del1 k kvs)"

fun rep1 :: "string \<Rightarrow> 'j \<Rightarrow> (string \<times> 'j) list \<Rightarrow> (string \<times> 'j) list" where
  "rep1 k v [] = []"
| "rep1 k v ((k', w) # kvs) = (if k' = k then (k', v) # kvs else (k', w) # rep1 k v kvs)"

lemma map_of_del1_other [simp]: "k \<noteq> k' \<Longrightarrow> map_of (del1 k kvs) k' = map_of kvs k'"
  by (induction k kvs rule: del1.induct) auto

lemma set_del1: "set (del1 k kvs) \<subseteq> set kvs"
  by (induction k kvs rule: del1.induct) auto

lemma distinct_del1: "distinct (map fst kvs) \<Longrightarrow> distinct (map fst (del1 k kvs))"
  by (induction k kvs rule: del1.induct) (use set_del1 in force)+

lemma map_of_del1_same: "distinct (map fst kvs) \<Longrightarrow> map_of (del1 k kvs) k = None"
proof (induction k kvs rule: del1.induct)
  case (2 k k' v kvs)
  then show ?case by (auto simp: map_of_eq_None_iff)
qed simp

lemma map_of_rep1: "map_of (rep1 k v kvs) k' =
    (if k' = k \<and> k \<in> fst ` set kvs then Some v else map_of kvs k')"
  by (induction k v kvs rule: rep1.induct) force+

lemma map_fst_rep1 [simp]: "map fst (rep1 k v kvs) = map fst kvs"
  by (induction k v kvs rule: rep1.induct) auto

locale cjson_laws =
  fixes J :: "'j cjson"
  assumes object_new: "isObject J (mkObject J)" "children J (mkObject J) = []"
    and array_new: "isArray J (mkArray J)" "children J (mkArray J) = []"
    and string_new: "isString J (mkString J s)" "valuestring J (mkString J s) = s"
      "\<not> isObject J (mkString J s)" "\<not> isBool J (mkString J s)" "\<not> isNumber J (mkString J s)"
      "\<not> isNull J (mkString J s)" "\<not> isArray J (mkString J s)"
    and number_new: "isNumber J (mkNumber J x)" "valuedouble J (mkNumber J x) = x"
      "\<not> isString J (mkNumber J x)" "\<not> isBool J (mkNumber J x)"
    and bool_new: "isBool J (mkBool J b)" "isTrue J (mkBool J b) = b"
      "\<not> isString J (mkBool J b)" "\<not> isNumber J (mkBool J b)"
    and add_item: "isObject J j \<Longrightarrow> isObject J (addItem J j k v)"
      "isObject J j \<Longrightarrow> children J (addItem J j k v) = children J j @ [(k, v)]"
    and add_elem: "isArray J j \<Longrightarrow> isArray J (addElem J j v)"
      "isArray J j \<Longrightarrow> children J (addElem J j v) = children J j @ [([], v)]"
    and get_cs: "isObject J j \<Longrightarrow> getItemCS J j k = map_of (children J j) k"
    and delete_cs: "isObject J j \<Longrightarrow> isObject J (deleteCS J j k)"
      "isObject J j \<Longrightarrow> children J (deleteCS J j k) = del1 k (children J j)"
    and replace_cs: "isObject J j \<Longrightarrow> isObject J (replaceCS J j k v)"
      "isObject J j \<Longrightarrow> children J (replaceCS J j k v) = rep1 k v (children J j)"
    and same_item: "sameItem J v v"
begin

lemma get_add:
  assumes "isObject J j"
  shows "getItemCS J (addItem J j k v) k' =
    (case getItemCS J j k' of Some w \<Rightarrow> Some w | None \<Rightarrow> if k = k' then Some v else None)"
  using assms by (simp add: get_cs add_item map_add_def split: option.splits)

lemma get_new: "getItemCS J (mkObject J) k = None"
  by (simp add: get_cs object_new)

lemmas fresh = object_new array_new string_new number_new bool_new add_item get_add get_new

end

section \<open>JSON trees\<close>

text \<open>
  A plain implementation of the interface.  Text is a further parameter of it: parsing and printing
  are given by the caller (\<open>tree parse print\<close>).
\<close>

datatype json =
    JNull
  | JBool bool
  | JNum real
  | JStr string
  | JArr "json list"
  | JObj "(string \<times> json) list"

fun lower_char :: "char \<Rightarrow> char" where
  "lower_char c = (let n = of_char c :: nat in if 65 \<le> n \<and> n \<le> 90 then char_of (n + 32) else c)"

fun kids :: "json \<Rightarrow> (string \<times> json) list" where
  "kids (JObj kvs) = kvs"
| "kids (JArr js) = map (Pair []) js"
| "kids _ = []"

definition tree :: "(string \<Rightarrow> json option) \<Rightarrow> (json \<Rightarrow> string) \<Rightarrow> json cjson" where
  "tree p q =
    \<lparr>isObject = (\<lambda>j. case j of JObj _ \<Rightarrow> True | _ \<Rightarrow> False),
     isArray = (\<lambda>j. case j of JArr _ \<Rightarrow> True | _ \<Rightarrow> False),
     isString = (\<lambda>j. case j of JStr _ \<Rightarrow> True | _ \<Rightarrow> False),
     isNumber = (\<lambda>j. case j of JNum _ \<Rightarrow> True | _ \<Rightarrow> False),
     isBool = (\<lambda>j. case j of JBool _ \<Rightarrow> True | _ \<Rightarrow> False),
     isTrue = (\<lambda>j. j = JBool True),
     isNull = (\<lambda>j. j = JNull),
     valuestring = (\<lambda>j. case j of JStr s \<Rightarrow> s | _ \<Rightarrow> []),
     valuedouble = (\<lambda>j. case j of JNum x \<Rightarrow> x | _ \<Rightarrow> 0),
     children = kids,
     getItem = (\<lambda>j k. map_option snd (find (\<lambda>(k', v). map lower_char k' = map lower_char k) (kids j))),
     getItemCS = (\<lambda>j k. case j of JObj kvs \<Rightarrow> map_of kvs k | _ \<Rightarrow> None),
     mkObject = JObj [],
     mkArray = JArr [],
     mkString = JStr,
     mkNumber = JNum,
     mkBool = JBool,
     addItem = (\<lambda>j k v. case j of JObj kvs \<Rightarrow> JObj (kvs @ [(k, v)]) | _ \<Rightarrow> j),
     addElem = (\<lambda>j v. case j of JArr js \<Rightarrow> JArr (js @ [v]) | _ \<Rightarrow> j),
     deleteCS = (\<lambda>j k. case j of JObj kvs \<Rightarrow> JObj (del1 k kvs) | _ \<Rightarrow> j),
     replaceCS = (\<lambda>j k v. case j of JObj kvs \<Rightarrow> JObj (rep1 k v kvs) | _ \<Rightarrow> j),
     sameItem = (=),
     parseText = p,
     printText = q\<rparr>"

interpretation tree: cjson_laws "tree p q" for p q
  by unfold_locales
    (auto simp: tree_def split: json.splits)

lemma tree_simps [simp]:
  "isObject (tree p q) (JObj kvs)" "getItemCS (tree p q) (JObj kvs) k = map_of kvs k"
  "isString (tree p q) (JStr s)" "valuestring (tree p q) (JStr s) = s"
  "isNumber (tree p q) (JNum x)" "valuedouble (tree p q) (JNum x) = x"
  "\<not> isNumber (tree p q) (JStr s)" "\<not> isString (tree p q) (JNum x)"
  "\<not> isObject (tree p q) (JStr s)" "\<not> isObject (tree p q) (JArr js)"
  "isArray (tree p q) (JArr js)" "\<not> isArray (tree p q) (JObj kvs)"
  "isBool (tree p q) (JBool b)" "isTrue (tree p q) (JBool b) = b"
  "\<not> isString (tree p q) (JBool b)" "\<not> isString (tree p q) (JObj kvs)"
  "children (tree p q) j = kids j" "parseText (tree p q) = p" "printText (tree p q) = q"
  "getItem (tree p q) j k = map_option snd (find (\<lambda>(k', v). map lower_char k' = map lower_char k) (kids j))"
  by (simp_all add: tree_def)

section \<open>Typed field readers (enil_api_json.c)\<close>

text \<open>
  A reader returns 0 and writes its out parameter, or returns -1: \<open>Some\<close> of what it writes, or
  \<open>None\<close>.  The out pointers of the code's calls are never null.
\<close>

definition enil_json_dup_string ::
  "('j, 'x) cjson_scheme \<Rightarrow> 'j option \<Rightarrow> string option \<Rightarrow> string option" where
  "enil_json_dup_string J obj key =
     (case (obj, key) of
        (Some j, Some k) \<Rightarrow> jstr J (getItemCS J j k)
      | _ \<Rightarrow> None)"

definition enil_json_dup_string_opt ::
  "('j, 'x) cjson_scheme \<Rightarrow> 'j option \<Rightarrow> string option \<Rightarrow> string option option" where
  "enil_json_dup_string_opt J obj key =
     (case (obj, key) of
        (Some j, Some k) \<Rightarrow> Some (jstr J (getItemCS J j k))
      | _ \<Rightarrow> None)"

definition enil_json_get_int ::
  "('j, 'x) cjson_scheme \<Rightarrow> 'j option \<Rightarrow> string option \<Rightarrow> int option" where
  "enil_json_get_int J obj key =
     (case (obj, key) of
        (Some j, Some k) \<Rightarrow>
          (let item = getItemCS J j k in
           if \<not> jis (isNumber J) item then None else Some (trunc (valuedouble J (the item))))
      | _ \<Rightarrow> None)"

definition enil_json_get_bool ::
  "('j, 'x) cjson_scheme \<Rightarrow> 'j option \<Rightarrow> string option \<Rightarrow> bool option" where
  "enil_json_get_bool J obj key =
     (case (obj, key) of
        (Some j, Some k) \<Rightarrow>
          (let item = getItemCS J j k in
           if \<not> jis (isBool J) item then None else Some (jis (isTrue J) item))
      | _ \<Rightarrow> None)"

definition enil_json_coerce_int64 :: "('j, 'x) cjson_scheme \<Rightarrow> 'j option \<Rightarrow> int" where
  "enil_json_coerce_int64 J item =
     (case item of
        None \<Rightarrow> 0
      | Some j \<Rightarrow>
          if isNumber J j then trunc (valuedouble J j)
          else if isString J j then fst (strtoll10 (valuestring J j))
          else 0)"

definition enil_json_get_int64 ::
  "('j, 'x) cjson_scheme \<Rightarrow> 'j option \<Rightarrow> string option \<Rightarrow> int option" where
  "enil_json_get_int64 J obj key =
     (case (obj, key) of
        (Some j, Some k) \<Rightarrow>
          (let item = getItemCS J j k in
           if \<not> jis (isNumber J) item \<and> \<not> jis (isString J) item then None
           else Some (enil_json_coerce_int64 J item))
      | _ \<Rightarrow> None)"

text \<open>
  The field table of a struct drives its teardown.  A struct is a map from field offsets to values;
  the second result is the list of offsets whose storage is released.
\<close>

datatype enil_field_type_t = ENIL_F_STR | ENIL_F_INT | ENIL_F_BOOL | ENIL_F_I64 | ENIL_F_JSON

datatype 'j field_val = PStr "string option" | PJson "'j option" | PScalar int

record enil_field_t =
  fkey :: string
  offset :: nat
  ftype :: enil_field_type_t

fun enil_field_free_all ::
  "(nat \<Rightarrow> 'j field_val) \<Rightarrow> enil_field_t list \<Rightarrow> (nat \<Rightarrow> 'j field_val) \<times> nat list" where
  "enil_field_free_all base [] = (base, [])"
| "enil_field_free_all base (f # fs) =
     (case (ftype f, base (offset f)) of
        (ENIL_F_STR, PStr p) \<Rightarrow>
          (let (b, r) = enil_field_free_all (base(offset f := PStr None)) fs
           in (b, (if p \<noteq> None then [offset f] else []) @ r))
      | (ENIL_F_JSON, PJson (Some p)) \<Rightarrow>
          (let (b, r) = enil_field_free_all (base(offset f := PJson None)) fs
           in (b, offset f # r))
      | _ \<Rightarrow> enil_field_free_all base fs)"

section \<open>Request dispatcher (enil_api_call.c)\<close>

record ENILLineResponse =
  status :: int
  body :: "string option"

datatype enil_http_method_t = ENIL_HTTP_GET | ENIL_HTTP_POST

record enil_endpoint_t =
  ename :: string
  emethod :: enil_http_method_t
  epath :: string
  needs_hmac :: bool
  needs_auth :: bool

text \<open>\<open>data\<close> is detached from the envelope, so it survives the envelope's release.\<close>

definition enil_api_unwrap_ok :: "('j, 'x) cjson_scheme \<Rightarrow> ENILLineResponse \<Rightarrow> 'j option" where
  "enil_api_unwrap_ok J r =
     (if status r \<noteq> 200 then None
      else case Option.bind (body r) (parseText J) of
             None \<Rightarrow> None
           | Some env \<Rightarrow>
               if jstr J (getItem J env ''message'') \<noteq> Some ''OK'' then None
               else getItem J env ''data'')"

text \<open>
  \<open>post\<close> is \<open>enil_line_post\<close>: path, body, access token (null where there is none).  The result is
  what the parser wrote and the calls that reached the transport.
\<close>

definition enil_api_call ::
  "('j, 'x) cjson_scheme \<Rightarrow> (string \<Rightarrow> string \<Rightarrow> string option \<Rightarrow> ENILLineResponse) \<Rightarrow>
   enil_endpoint_t option \<Rightarrow> string option \<Rightarrow> 'req \<Rightarrow> ('req \<Rightarrow> 'j option) option \<Rightarrow>
   ('j \<Rightarrow> 'out option) option \<Rightarrow> 'out option \<times> (string \<times> string \<times> string option) list" where
  "enil_api_call J post endpoint access_token req build_fn parse_fn =
     (case (endpoint, parse_fn) of
        (Some ep, Some parse) \<Rightarrow>
          if needs_auth ep \<and> access_token = None then (None, [])
          else
            (case (case build_fn of None \<Rightarrow> Some ''[]'' | Some build \<Rightarrow> map_option (printText J) (build req)) of
               None \<Rightarrow> (None, [])
             | Some text \<Rightarrow>
                 if emethod ep \<noteq> ENIL_HTTP_POST then (None, [])
                 else
                   (case enil_api_unwrap_ok J (post (epath ep) text access_token) of
                      None \<Rightarrow> (None, [(epath ep, text, access_token)])
                    | Some data \<Rightarrow> (parse data, [(epath ep, text, access_token)])))
      | _ \<Rightarrow> (None, []))"

end
