(* ===== verification/ENIL_Base64.thy ===== *)
theory ENIL_Base64
  imports ENIL_Prelude
begin

text \<open>
  \<open>source/shared/enil_b64.c\<close>: base64 on top of OpenSSL's \<open>EVP_EncodeBlock\<close> and
  \<open>EVP_DecodeBlock\<close>, which are parameters.  The file's own job is to correct the length that
  \<open>EVP_DecodeBlock\<close> reports (it counts the zero bytes that padding decodes to) and to reject
  partial groups.  The locale \<open>evp_codec\<close> states what is documented of the two functions and
  carries the client lemmas; \<open>rfc_encode\<close>/\<open>rfc_decode\<close> implement it.
\<close>

section \<open>The module\<close>

text \<open>
  \<open>decode\<close> is \<open>EVP_DecodeBlock\<close>: the block of \<open>3 * (n / 4)\<close> bytes it writes, or \<open>None\<close> where it
  returns a negative number.  The results here are the bytes written and the corrected count.
\<close>

definition evp_decode_exact ::
  "(string \<Rightarrow> byte list option) \<Rightarrow> string \<Rightarrow> nat \<Rightarrow> (byte list \<times> int) option" where
  "evp_decode_exact decode inp n4 =
     (if n4 = 0 then Some ([], 0)
      else case decode (take n4 inp) of
             None \<Rightarrow> None
           | Some out \<Rightarrow>
               Some (out, int (length out)
                 - (if inp ! (n4 - 1) = CHR ''='' then 1 else 0)
                 - (if inp ! (n4 - 2) = CHR ''='' then 1 else 0)))"

definition enil_b64_encode :: "(byte list \<Rightarrow> string) \<Rightarrow> byte list \<Rightarrow> string" where
  "enil_b64_encode encode data = encode data"

text \<open>The room \<open>enil_b64_encode\<close> allocates for the text and its NUL.\<close>

definition b64_out_cap :: "nat \<Rightarrow> nat" where
  "b64_out_cap n = ((n + 2) div 3) * 4 + 1"

definition enil_b64_decode ::
  "(string \<Rightarrow> byte list option) \<Rightarrow> string option \<Rightarrow> (byte list \<times> int) option" where
  "enil_b64_decode decode inp =
     (let s = (case inp of None \<Rightarrow> [] | Some t \<Rightarrow> cstr t); n = length s
      in evp_decode_exact decode s (n - n mod 4))"

definition enil_b64_decode_alloc ::
  "(string \<Rightarrow> byte list option) \<Rightarrow> string option \<Rightarrow> byte list option" where
  "enil_b64_decode_alloc decode inp =
     (let s = (case inp of None \<Rightarrow> [] | Some t \<Rightarrow> cstr t); n = length s
      in if n mod 4 \<noteq> 0 then None
         else case evp_decode_exact decode s n of
                None \<Rightarrow> None
              | Some (out, k) \<Rightarrow> if k < 0 then None else Some (take (nat k) out))"

section \<open>What OpenSSL documents\<close>

definition b64_pad :: "nat \<Rightarrow> nat" where
  "b64_pad n = (3 - n mod 3) mod 3"

locale evp_codec =
  fixes encode :: "byte list \<Rightarrow> string"
    and decode :: "string \<Rightarrow> byte list option"
  assumes encode_length: "length (encode d) = 4 * ((length d + 2) div 3)"
    and encode_text: "no_nul (encode d)"
    and encode_last: "d \<noteq> [] \<Longrightarrow>
      (encode d ! (length (encode d) - 1) = CHR ''='' \<longleftrightarrow> 1 \<le> b64_pad (length d))"
    and encode_last2: "d \<noteq> [] \<Longrightarrow>
      (encode d ! (length (encode d) - 2) = CHR ''='' \<longleftrightarrow> b64_pad (length d) = 2)"
    and decode_encode: "decode (encode d) = Some (d @ replicate (b64_pad (length d)) 0)"
begin

lemma pad_cases: "b64_pad n \<in> {0, 1, 2}"
proof -
  have "b64_pad n < 3" by (simp add: b64_pad_def)
  then show ?thesis by auto
qed

lemma evp_decode_exact_encode:
  "\<exists>out. evp_decode_exact decode (encode d) (length (encode d)) = Some (out, int (length d)) \<and>
         take (length d) out = d"
proof (cases "d = []")
  case True
  then show ?thesis by (simp add: evp_decode_exact_def encode_length)
next
  case False
  then have pos: "length (encode d) \<noteq> 0"
    by (cases d) (simp_all add: encode_length div_eq_0_iff)
  have "b64_pad (length d) \<in> {0, 1, 2}" by (rule pad_cases)
  then show ?thesis
    using pos encode_last [OF False] encode_last2 [OF False]
    by (auto simp: evp_decode_exact_def decode_encode)
qed

lemma decode_alloc_encode:
  "enil_b64_decode_alloc decode (Some (enil_b64_encode encode d)) = Some d"
proof -
  obtain out where "evp_decode_exact decode (encode d) (length (encode d)) = Some (out, int (length d))"
    and "take (length d) out = d"
    using evp_decode_exact_encode [of d] by blast
  then show ?thesis
    by (simp add: enil_b64_decode_alloc_def enil_b64_encode_def encode_text encode_length)
qed

lemma decode_encode_prefix:
  "\<exists>out. enil_b64_decode decode (Some (enil_b64_encode encode d)) = Some (out, int (length d)) \<and>
         take (length d) out = d"
  using evp_decode_exact_encode [of d]
  by (simp add: enil_b64_decode_def enil_b64_encode_def encode_text encode_length)

lemma encode_inject: "enil_b64_encode encode d = enil_b64_encode encode e \<longleftrightarrow> d = e"
  by (metis decode_alloc_encode option.inject)

lemma encode_fits: "length (enil_b64_encode encode d) < b64_out_cap (length d)"
  by (simp add: enil_b64_encode_def b64_out_cap_def encode_length)

end

section \<open>RFC 4648\<close>

definition b64_char :: "nat \<Rightarrow> char" where
  "b64_char n = ''ABCDEFGHIJKLMNOPQRSTUVWXYZabcdefghijklmnopqrstuvwxyz0123456789+/'' ! n"

definition b64_val :: "char \<Rightarrow> nat option" where
  "b64_val c = (let n = of_char c :: nat in
     if 65 \<le> n \<and> n \<le> 90 then Some (n - 65)
     else if 97 \<le> n \<and> n \<le> 122 then Some (n - 71)
     else if 48 \<le> n \<and> n \<le> 57 then Some (n + 4)
     else if c = CHR ''+'' then Some 62
     else if c = CHR ''/'' then Some 63
     else if c = CHR ''='' then Some 0
     else None)"

definition quad :: "nat \<Rightarrow> nat list" where
  "quad n = [n div 262144 mod 64, n div 4096 mod 64, n div 64 mod 64, n mod 64]"

definition triple :: "nat \<Rightarrow> byte list" where
  "triple n = [word_of_nat (n div 65536), word_of_nat (n div 256), word_of_nat n]"

definition join3 :: "byte \<Rightarrow> byte \<Rightarrow> byte \<Rightarrow> nat" where
  "join3 a b c = unat a * 65536 + unat b * 256 + unat c"

fun rfc_encode :: "byte list \<Rightarrow> string" where
  "rfc_encode [] = []"
| "rfc_encode [a] = map b64_char (take 2 (quad (join3 a 0 0))) @ ''==''"
| "rfc_encode [a, b] = map b64_char (take 3 (quad (join3 a b 0))) @ ''=''"
| "rfc_encode (a # b # c # d) = map b64_char (quad (join3 a b c)) @ rfc_encode d"

fun rfc_decode :: "string \<Rightarrow> byte list option" where
  "rfc_decode [] = Some []"
| "rfc_decode (a # b # c # d # r) =
     (case (b64_val a, b64_val b, b64_val c, b64_val d, rfc_decode r) of
        (Some i, Some j, Some k, Some l, Some out) \<Rightarrow>
          Some (triple (i * 262144 + j * 4096 + k * 64 + l) @ out)
      | _ \<Rightarrow> None)"
| "rfc_decode _ = None"

lemma less_64_cases: "n < (64::nat) \<Longrightarrow> b64_val (b64_char n) = Some n \<and> b64_char n \<noteq> CHR ''='' \<and> b64_char n \<noteq> NUL"
  by (simp add: numeral_eq_Suc less_Suc_eq)
    (elim disjE; simp add: b64_char_def b64_val_def NUL_def Let_def)

lemma b64_pad_eq [simp]: "b64_val CHR ''='' = Some 0"
  by (simp add: b64_val_def)

lemma quad_join:
  fixes n :: nat
  assumes "n < 2 ^ 24"
  shows "(n div 262144 mod 64) * 262144 + (n div 4096 mod 64) * 4096 + (n div 64 mod 64) * 64 + n mod 64 = n"
proof -
  define a b c where "a = n div 64" and "b = a div 64" and "c = b div 64"
  have "n div 4096 = b" "n div 262144 = c"
    by (simp_all add: a_def b_def c_def div_mult2_eq [symmetric])
  moreover have "c < 64" using assms by (simp add: a_def b_def c_def div_mult2_eq [symmetric])
  moreover have "n = 64 * a + n mod 64" "a = 64 * b + a mod 64" "b = 64 * c + b mod 64"
    by (simp_all add: a_def b_def c_def)
  ultimately show ?thesis unfolding a_def [symmetric] by simp
qed

lemma join3_less: "join3 a b c < 2 ^ 24"
  using unat_byte_less [of a] unat_byte_less [of b] unat_byte_less [of c]
  by (simp add: join3_def del: unat_byte_less)

lemma triple_join3: "triple (join3 a b c) = [a, b, c]"
proof -
  have b: "unat a < 256" "unat b < 256" "unat c < 256" by simp_all
  have w: "(word_of_nat n :: byte) = word_of_nat (n mod 256)" for n
    by (simp add: word_of_nat_eq_iff take_bit_eq_mod)
  have g: "k < 256 \<Longrightarrow> (m * 256 + k) div 256 = m \<and> (m * 256 + k) mod 256 = k" for m k :: nat
    by simp
  have j: "join3 a b c = (unat a * 256 + unat b) * 256 + unat c" by (simp add: join3_def)
  have 1: "join3 a b c div 256 = unat a * 256 + unat b" "join3 a b c mod 256 = unat c"
    unfolding j using g [OF b(3), of "unat a * 256 + unat b"] by simp_all
  then have 2: "join3 a b c div 256 mod 256 = unat b" using b by simp
  have "join3 a b c div 65536 = join3 a b c div 256 div 256" by (simp add: div_mult2_eq [symmetric])
  with 1 b have 3: "join3 a b c div 65536 = unat a" by simp
  show ?thesis
    unfolding triple_def 3 using w [of "join3 a b c"] w [of "join3 a b c div 256"]
    by (simp add: 1 2)
qed

lemma eq_sign_not_NUL [simp]: "CHR ''='' \<noteq> NUL"
  by (simp add: NUL_def)

lemma rfc_no_nul: "no_nul (rfc_encode d)"
  by (induction d rule: rfc_encode.induct)
    (simp_all add: quad_def less_64_cases numeral_2_eq_2 numeral_3_eq_3)

lemma rfc_length: "length (rfc_encode d) = 4 * ((length d + 2) div 3)"
proof (induction d rule: rfc_encode.induct)
  case (4 a b c d)
  have "(length d + 5) div 3 = Suc ((length d + 2) div 3)" by presburger
  with 4 show ?case by (simp add: quad_def add.commute)
qed (simp_all add: quad_def)

lemma rfc_decode_quad:
  assumes "n < 2 ^ 24" and "b64_val x = Some (n div 64 mod 64)" and "b64_val y = Some (n mod 64)"
  shows "rfc_decode (b64_char (n div 262144 mod 64) # b64_char (n div 4096 mod 64) # x # y # r) =
    map_option ((@) (triple n)) (rfc_decode r)"
proof -
  have "b64_val (b64_char (n div 262144 mod 64)) = Some (n div 262144 mod 64)"
    and "b64_val (b64_char (n div 4096 mod 64)) = Some (n div 4096 mod 64)"
    by (simp_all add: less_64_cases)
  with assms(2,3) have "rfc_decode (b64_char (n div 262144 mod 64) # b64_char (n div 4096 mod 64) # x # y # r) =
      map_option ((@) (triple (n div 262144 mod 64 * 262144 + n div 4096 mod 64 * 4096 + n div 64 mod 64 * 64 + n mod 64)))
        (rfc_decode r)"
    by (simp split: option.split)
  then show ?thesis unfolding quad_join [OF assms(1)] .
qed

lemma take_quad:
  "take 2 (quad n) = [n div 262144 mod 64, n div 4096 mod 64]"
  "take 3 (quad n) = [n div 262144 mod 64, n div 4096 mod 64, n div 64 mod 64]"
  by (simp_all add: quad_def numeral_2_eq_2 numeral_3_eq_3)

text \<open>The text of one group of three, two or one bytes, for its 24-bit value.\<close>

lemma rfc_encode_shape:
  "rfc_encode [a] = [b64_char (join3 a 0 0 div 262144 mod 64), b64_char (join3 a 0 0 div 4096 mod 64),
     CHR ''='', CHR ''='']"
  "rfc_encode [a, b] = [b64_char (join3 a b 0 div 262144 mod 64), b64_char (join3 a b 0 div 4096 mod 64),
     b64_char (join3 a b 0 div 64 mod 64), CHR ''='']"
  "rfc_encode (a # b # c # d) = b64_char (join3 a b c div 262144 mod 64) #
     b64_char (join3 a b c div 4096 mod 64) # b64_char (join3 a b c div 64 mod 64) #
     b64_char (join3 a b c mod 64) # rfc_encode d"
  by (simp_all only: rfc_encode.simps take_quad list.map append.simps)
    (simp_all only: quad_def list.map append.simps)

lemma b64_char_mod [simp]:
  "b64_val (b64_char (n mod 64)) = Some (n mod 64)" "b64_char (n mod 64) \<noteq> CHR ''=''"
  using less_64_cases [of "n mod 64"] by simp_all

lemma b64_pad_simps [simp]:
  "b64_pad 0 = 0" "b64_pad (Suc 0) = 2" "b64_pad (Suc (Suc 0)) = 1"
  "b64_pad (Suc (Suc (Suc n))) = b64_pad n"
  by (simp_all add: b64_pad_def mod_Suc)

lemma rfc_decode_encode: "rfc_decode (rfc_encode d) = Some (d @ replicate (b64_pad (length d)) 0)"
proof (induction d rule: rfc_encode.induct)
  case 1
  show ?case by simp
next
  case (2 a)
  have "join3 a 0 0 div 64 mod 64 = 0" "join3 a 0 0 mod 64 = 0"
    by (simp_all add: join3_def)
  then have "rfc_decode (rfc_encode [a]) = map_option ((@) [a, 0, 0]) (rfc_decode [])"
    unfolding rfc_encode_shape
    by (subst rfc_decode_quad [OF join3_less]) (simp_all only: b64_pad_eq triple_join3)
  then show ?case by (simp add: numeral_2_eq_2)
next
  case (3 a b)
  have "join3 a b 0 mod 64 = 0"
    by (simp add: join3_def)
  then have "rfc_decode (rfc_encode [a, b]) = map_option ((@) [a, b, 0]) (rfc_decode [])"
    unfolding rfc_encode_shape
    by (subst rfc_decode_quad [OF join3_less]) (simp_all only: b64_pad_eq b64_char_mod triple_join3)
  then show ?case by simp
next
  case (4 a b c d)
  have "rfc_decode (rfc_encode (a # b # c # d)) = map_option ((@) [a, b, c]) (rfc_decode (rfc_encode d))"
    unfolding rfc_encode_shape
    by (subst rfc_decode_quad [OF join3_less]) (simp_all only: b64_char_mod triple_join3)
  with "4.IH" show ?case by simp
qed

text \<open>The last two characters of the text are those of the last group.\<close>

lemma rfc_ends:
  "d \<noteq> [] \<Longrightarrow>
   (rfc_encode d ! (length (rfc_encode d) - 1) = CHR ''='' \<longleftrightarrow> 1 \<le> b64_pad (length d)) \<and>
   (rfc_encode d ! (length (rfc_encode d) - 2) = CHR ''='' \<longleftrightarrow> b64_pad (length d) = 2)"
proof (induction d rule: rfc_encode.induct)
  case 1
  then show ?case by simp
next
  case (2 a)
  show ?case unfolding rfc_encode_shape by simp
next
  case (3 a b)
  show ?case unfolding rfc_encode_shape by simp
next
  case (4 a b c d)
  show ?case
  proof (cases "d = []")
    case True
    then show ?thesis unfolding rfc_encode_shape by simp
  next
    case False
    then have l: "4 \<le> length (rfc_encode d)" by (cases d) (simp_all add: rfc_length)
    have nth: "rfc_encode (a # b # c # d) ! (length (rfc_encode (a # b # c # d)) - k) =
        rfc_encode d ! (length (rfc_encode d) - k)" if "0 < k" "k \<le> 2" for k
      using l that unfolding rfc_encode_shape by (simp add: Suc_diff_le)
    show ?thesis using "4.IH" [OF False] nth [of 1] nth [of 2] by simp
  qed
qed

interpretation rfc4648: evp_codec rfc_encode rfc_decode
proof unfold_locales
  fix d :: "byte list"
  show "length (rfc_encode d) = 4 * ((length d + 2) div 3)" by (rule rfc_length)
  show "no_nul (rfc_encode d)" by (rule rfc_no_nul)
  show "rfc_decode (rfc_encode d) = Some (d @ replicate (b64_pad (length d)) 0)"
    by (rule rfc_decode_encode)
next
  fix d :: "byte list"
  assume d: "d \<noteq> []"
  show "rfc_encode d ! (length (rfc_encode d) - 1) = CHR ''='' \<longleftrightarrow> 1 \<le> b64_pad (length d)"
    using rfc_ends [OF d] by (rule conjunct1)
  show "rfc_encode d ! (length (rfc_encode d) - 2) = CHR ''='' \<longleftrightarrow> b64_pad (length d) = 2"
    using rfc_ends [OF d] by (rule conjunct2)
qed

section \<open>Properties\<close>

text \<open>C18: Over any \<open>EVP_EncodeBlock\<close>/\<open>EVP_DecodeBlock\<close> that behave as documented, decoding what
  \<open>enil_b64_encode\<close> wrote gives exactly the bytes back (the zero bytes of the padding are cut off),
  through the allocating decoder and through the tolerant one, and the text with its NUL fits the
  room the encoder allocates.\<close>

theorem enil_b64_roundtrip:
  assumes "evp_codec encode decode"
  shows "enil_b64_decode_alloc decode (Some (enil_b64_encode encode d)) = Some d \<and>
    (\<exists>out. enil_b64_decode decode (Some (enil_b64_encode encode d)) = Some (out, int (length d)) \<and>
           take (length d) out = d) \<and>
    length (enil_b64_encode encode d) < b64_out_cap (length d)"
  using evp_codec.decode_alloc_encode [OF assms] evp_codec.decode_encode_prefix [OF assms]
    evp_codec.encode_fits [OF assms]
  by blast

theorem enil_b64_roundtrip_witness:
  "enil_b64_decode_alloc rfc_decode (Some (enil_b64_encode rfc_encode [1, 2])) = Some [1, 2]"
  using enil_b64_roundtrip [OF rfc4648.evp_codec_axioms, of "[1, 2]"] by blast

end
