(* ===== verification/ENIL_Crypto.thy ===== *)
theory ENIL_Crypto
  imports ENIL_Prelude
begin

unbundle bit_operations_syntax

text \<open>
  \<open>source/shared/enil_crypto.c\<close>: the encrypt-then-MAC channel for attachments.  HMAC-SHA256,
  AES-256-CTR and the random generator are OpenSSL's and are parameters (\<open>hmac key text\<close>,
  \<open>ctr key counter text\<close>, \<open>rand n\<close>; \<open>None\<close> where the library reports a failure).  The locale
  \<open>openssl\<close> states what is used of them.
\<close>

definition ENIL_CRYPTO_FILE_NONCE_LEN :: nat where "ENIL_CRYPTO_FILE_NONCE_LEN = 12"
definition ENIL_CRYPTO_HKDF_FILE_LEN :: nat where "ENIL_CRYPTO_HKDF_FILE_LEN = 76"
definition ENIL_CRYPTO_FILE_KM_LEN :: nat where "ENIL_CRYPTO_FILE_KM_LEN = 32"
definition ENIL_CRYPTO_FILE_TAG_LEN :: nat where "ENIL_CRYPTO_FILE_TAG_LEN = 32"

section \<open>Key derivation\<close>

definition kInfo :: "byte list" where
  "kInfo = bytes_of ''FileEncryption''"

text \<open>
  The expand loop: \<open>t_prev\<close> is empty before the first round, \<open>written\<close> counts the bytes copied to the
  output, and each round copies at most 32.
\<close>

function hkdf_loop ::
  "(byte list \<Rightarrow> byte list \<Rightarrow> byte list) \<Rightarrow> byte list \<Rightarrow> nat \<Rightarrow> byte \<Rightarrow> byte list \<Rightarrow> nat \<Rightarrow> byte list \<Rightarrow> byte list" where
  "hkdf_loop hmac prk out_len counter t_prev written out =
     (if written < out_len then
        (let block = t_prev @ kInfo @ [counter];
             t = hmac prk block;
             to_copy = (if 32 < out_len - written then 32 else out_len - written)
         in hkdf_loop hmac prk out_len (counter + 1) t (written + to_copy) (out @ take to_copy t))
      else out)"
  by pat_completeness auto
termination
  by (relation "measure (\<lambda>(h, p, n, c, t, w, out). n - w)") auto

declare hkdf_loop.simps [simp del]

definition file_hkdf ::
  "(byte list \<Rightarrow> byte list \<Rightarrow> byte list) \<Rightarrow> byte list \<Rightarrow> nat \<Rightarrow> byte list" where
  "file_hkdf hmac ikm out_len = hkdf_loop hmac (hmac (replicate 32 0) ikm) out_len 1 [] 0 []"

definition file_derive_keys ::
  "(byte list \<Rightarrow> byte list \<Rightarrow> byte list) \<Rightarrow> byte list \<Rightarrow> byte list \<times> byte list \<times> byte list" where
  "file_derive_keys hmac km =
     (let out = file_hkdf hmac km ENIL_CRYPTO_HKDF_FILE_LEN
      in (take 32 out, take 32 (drop 32 out), take ENIL_CRYPTO_FILE_NONCE_LEN (drop 64 out)))"

section \<open>Encryption and decryption\<close>

definition file_ctr_crypt ::
  "(byte list \<Rightarrow> byte list \<Rightarrow> byte list \<Rightarrow> byte list option) \<Rightarrow>
   byte list \<Rightarrow> byte list \<Rightarrow> byte list \<Rightarrow> byte list option" where
  "file_ctr_crypt ctr enc_key nonce inp =
     ctr enc_key (nonce @ replicate (16 - ENIL_CRYPTO_FILE_NONCE_LEN) 0) inp"

text \<open>\<open>Some (ciphertext @ tag)\<close>, or \<open>None\<close> for the return value -1.\<close>

definition enil_crypto_file_encrypt_with_km ::
  "(byte list \<Rightarrow> byte list \<Rightarrow> byte list) \<Rightarrow>
   (byte list \<Rightarrow> byte list \<Rightarrow> byte list \<Rightarrow> byte list option) \<Rightarrow>
   byte list option \<Rightarrow> nat \<Rightarrow> byte list option \<Rightarrow> byte list option" where
  "enil_crypto_file_encrypt_with_km hmac ctr plain plain_len km =
     (case km of
        None \<Rightarrow> None
      | Some k \<Rightarrow>
          if plain = None \<and> plain_len > 0 then None
          else
            (let (enc_key, mac_key, nonce) = file_derive_keys hmac (take ENIL_CRYPTO_FILE_KM_LEN k);
                 text = (case plain of None \<Rightarrow> [] | Some p \<Rightarrow> take plain_len p)
             in case file_ctr_crypt ctr enc_key nonce text of
                  None \<Rightarrow> None
                | Some cipher \<Rightarrow> Some (cipher @ hmac mac_key cipher)))"

definition enil_crypto_file_encrypt ::
  "(byte list \<Rightarrow> byte list \<Rightarrow> byte list) \<Rightarrow>
   (byte list \<Rightarrow> byte list \<Rightarrow> byte list \<Rightarrow> byte list option) \<Rightarrow> (nat \<Rightarrow> byte list option) \<Rightarrow>
   byte list option \<Rightarrow> nat \<Rightarrow> (byte list \<times> byte list) option" where
  "enil_crypto_file_encrypt hmac ctr rand plain plain_len =
     (case rand ENIL_CRYPTO_FILE_KM_LEN of
        None \<Rightarrow> None
      | Some km \<Rightarrow>
          map_option (Pair km) (enil_crypto_file_encrypt_with_km hmac ctr plain plain_len (Some km)))"

definition enil_crypto_file_decrypt ::
  "(byte list \<Rightarrow> byte list \<Rightarrow> byte list) \<Rightarrow>
   (byte list \<Rightarrow> byte list \<Rightarrow> byte list \<Rightarrow> byte list option) \<Rightarrow>
   byte list option \<Rightarrow> byte list option \<Rightarrow> byte list option" where
  "enil_crypto_file_decrypt hmac ctr km enc =
     (case (km, enc) of
        (Some k, Some e) \<Rightarrow>
          if length e < ENIL_CRYPTO_FILE_TAG_LEN then None
          else
            (let ct_len = length e - ENIL_CRYPTO_FILE_TAG_LEN;
                 (enc_key, mac_key, nonce) = file_derive_keys hmac k
             in if hmac mac_key (take ct_len e) \<noteq> drop ct_len e then None
                else file_ctr_crypt ctr enc_key nonce (take ct_len e))
      | _ \<Rightarrow> None)"

section \<open>What is used of OpenSSL\<close>

locale openssl =
  fixes hmac :: "byte list \<Rightarrow> byte list \<Rightarrow> byte list"
    and ctr :: "byte list \<Rightarrow> byte list \<Rightarrow> byte list \<Rightarrow> byte list option"
  assumes hmac_length: "length (hmac k m) = 32"
    and ctr_length: "ctr k iv m = Some c \<Longrightarrow> length c = length m"
    and ctr_inverse: "ctr k iv m = Some c \<Longrightarrow> ctr k iv c = Some m"
begin

lemma hkdf_step:
  "w < n \<Longrightarrow> hkdf_loop hmac prk n i t w out =
     hkdf_loop hmac prk n (i + 1) (hmac prk (t @ kInfo @ [i])) (w + min (n - w) 32)
       (out @ take (min (n - w) 32) (hmac prk (t @ kInfo @ [i])))"
  by (subst hkdf_loop.simps) (auto simp: Let_def min_def)

lemma hkdf_stop: "n \<le> w \<Longrightarrow> hkdf_loop hmac prk n i t w out = out"
  by (subst hkdf_loop.simps) simp

lemma hkdf_76:
  "file_hkdf hmac ikm 76 =
     (let prk = hmac (replicate 32 0) ikm;
          t1 = hmac prk (kInfo @ [1]);
          t2 = hmac prk (t1 @ kInfo @ [2]);
          t3 = hmac prk (t2 @ kInfo @ [3])
      in t1 @ t2 @ take 12 t3)"
  by (simp add: file_hkdf_def Let_def hkdf_step hkdf_stop hmac_length)

lemma derive_lengths:
  assumes "file_derive_keys hmac km = (ek, mk, nonce)"
  shows "length ek = 32 \<and> length mk = 32 \<and> length nonce = 12"
  using assms
  by (auto simp: file_derive_keys_def ENIL_CRYPTO_HKDF_FILE_LEN_def ENIL_CRYPTO_FILE_NONCE_LEN_def
      hkdf_76 Let_def hmac_length)

lemma encrypt_length:
  "enil_crypto_file_encrypt_with_km hmac ctr (Some p) (length p) (Some k) = Some e \<Longrightarrow>
   length e = length p + 32"
  by (auto simp: enil_crypto_file_encrypt_with_km_def file_ctr_crypt_def hmac_length
      split: option.splits prod.splits dest!: ctr_length)

lemma decrypt_encrypt:
  assumes "enil_crypto_file_encrypt_with_km hmac ctr (Some p) (length p) (Some k) = Some e"
    and "length k = 32"
  shows "enil_crypto_file_decrypt hmac ctr (Some k) (Some e) = Some p"
proof -
  obtain ek mk nonce where keys: "file_derive_keys hmac k = (ek, mk, nonce)"
    by (cases "file_derive_keys hmac k")
  with assms obtain c where c: "file_ctr_crypt ctr ek nonce p = Some c" and e: "e = c @ hmac mk c"
    by (auto simp: enil_crypto_file_encrypt_with_km_def ENIL_CRYPTO_FILE_KM_LEN_def
        split: option.splits)
  from c have "file_ctr_crypt ctr ek nonce c = Some p"
    unfolding file_ctr_crypt_def by (rule ctr_inverse)
  with e keys show ?thesis
    by (simp add: enil_crypto_file_decrypt_def ENIL_CRYPTO_FILE_TAG_LEN_def hmac_length)
qed

text \<open>Nothing is decrypted before its tag is checked, and the tag is the last 32 bytes.\<close>

lemma decrypt_authentic:
  assumes "enil_crypto_file_decrypt hmac ctr (Some k) (Some e) = Some p"
    and "file_derive_keys hmac k = (ek, mk, nonce)"
  shows "\<exists>c. e = c @ hmac mk c \<and> file_ctr_crypt ctr ek nonce c = Some p"
proof -
  let ?c = "take (length e - 32) e"
  from assms have "hmac mk ?c = drop (length e - 32) e" and "file_ctr_crypt ctr ek nonce ?c = Some p"
    by (auto simp: enil_crypto_file_decrypt_def ENIL_CRYPTO_FILE_TAG_LEN_def Let_def split: if_splits)
  then show ?thesis by (metis append_take_drop_id)
qed

text \<open>What decrypts was produced by the encryptor from that plaintext.\<close>

lemma decrypt_only_encrypted:
  assumes "enil_crypto_file_decrypt hmac ctr (Some k) (Some e) = Some p" and "length k = 32"
  shows "enil_crypto_file_encrypt_with_km hmac ctr (Some p) (length p) (Some k) = Some e"
proof -
  obtain ek mk nonce where keys: "file_derive_keys hmac k = (ek, mk, nonce)"
    by (cases "file_derive_keys hmac k")
  with decrypt_authentic [OF assms(1)] obtain c where "e = c @ hmac mk c"
    and c: "file_ctr_crypt ctr ek nonce c = Some p" by blast
  moreover from c have "file_ctr_crypt ctr ek nonce p = Some c"
    unfolding file_ctr_crypt_def by (rule ctr_inverse)
  ultimately show ?thesis
    using keys assms(2) by (simp add: enil_crypto_file_encrypt_with_km_def ENIL_CRYPTO_FILE_KM_LEN_def)
qed

end

text \<open>A stream cipher and a keyed checksum that satisfy the interface, for concrete evaluation.\<close>

definition sum_hmac :: "byte list \<Rightarrow> byte list \<Rightarrow> byte list" where
  "sum_hmac k m = replicate 32 (sum_list k + sum_list m)"

definition xor_ctr :: "byte list \<Rightarrow> byte list \<Rightarrow> byte list \<Rightarrow> byte list option" where
  "xor_ctr k iv m = Some (map (\<lambda>x. x XOR (sum_list k + sum_list iv)) m)"

interpretation xor_openssl: openssl sum_hmac xor_ctr
  by unfold_locales
    (auto simp: sum_hmac_def xor_ctr_def xor.assoc comp_def)

section \<open>Properties\<close>

text \<open>C7: With a 32-byte key the attachment cipher is authenticated both ways: decrypting an
  encrypted plaintext gives it back, and, conversely, whatever decrypts successfully is byte for byte
  what the encryptor makes of that plaintext (ciphertext followed by its own 32-byte tag), so a change
  of any byte of ciphertext or tag that still decrypts would be a valid encryption itself.\<close>

theorem enil_crypto_file_authenticated:
  assumes "openssl hmac ctr" and "length k = 32"
  shows "enil_crypto_file_decrypt hmac ctr (Some k) (Some e) = Some p \<longleftrightarrow>
    enil_crypto_file_encrypt_with_km hmac ctr (Some p) (length p) (Some k) = Some e"
  using openssl.decrypt_encrypt [OF assms(1) _ assms(2)]
    openssl.decrypt_only_encrypted [OF assms(1) _ assms(2)]
  by blast

theorem enil_crypto_file_authenticated_witness:
  "\<exists>e. enil_crypto_file_encrypt_with_km sum_hmac xor_ctr (Some [1, 2]) (length [1, 2 :: byte])
      (Some (replicate 32 7)) = Some e \<and>
    enil_crypto_file_decrypt sum_hmac xor_ctr (Some (replicate 32 7)) (Some e) = Some [1, 2]"
proof -
  obtain e where e: "enil_crypto_file_encrypt_with_km sum_hmac xor_ctr (Some [1, 2]) (length [1, 2 :: byte])
      (Some (replicate 32 7)) = Some e"
    by (cases "file_derive_keys sum_hmac (take ENIL_CRYPTO_FILE_KM_LEN (replicate 32 7))")
      (simp add: enil_crypto_file_encrypt_with_km_def file_ctr_crypt_def xor_ctr_def)
  moreover have "length (replicate 32 (7 :: byte)) = 32" by simp
  ultimately show ?thesis
    using enil_crypto_file_authenticated [OF xor_openssl.openssl_axioms] by blast
qed

text \<open>RFC 5869's expand step: \<open>T(i) = HMAC (PRK, T(i-1) || info || i)\<close>, \<open>T(0)\<close> empty.\<close>

fun hkdf_T :: "(byte list \<Rightarrow> byte list \<Rightarrow> byte list) \<Rightarrow> byte list \<Rightarrow> nat \<Rightarrow> byte list" where
  "hkdf_T hmac prk 0 = []"
| "hkdf_T hmac prk (Suc i) = hmac prk (hkdf_T hmac prk i @ kInfo @ [word_of_nat (Suc i)])"

lemma hkdf_T_123:
  "hkdf_T hmac prk 1 = hmac prk (kInfo @ [1])"
  "hkdf_T hmac prk 2 = hmac prk (hkdf_T hmac prk 1 @ kInfo @ [2])"
  "hkdf_T hmac prk 3 = hmac prk (hkdf_T hmac prk 2 @ kInfo @ [3])"
  by (simp_all add: numeral_2_eq_2 numeral_3_eq_3)

text \<open>The derived material is that of RFC 5869 with a zero salt: encryption key, MAC key and nonce
  are the consecutive 32, 32 and 12 bytes of \<open>T(1) || T(2) || T(3)\<close>.\<close>

theorem file_derive_keys_rfc5869:
  assumes "openssl hmac ctr"
  shows "(let prk = hmac (replicate 32 0) km; T = hkdf_T hmac prk in
      file_derive_keys hmac km = (T 1, T 2, take 12 (T 3)))"
  using openssl.hmac_length [OF assms]
  by (simp add: Let_def file_derive_keys_def ENIL_CRYPTO_HKDF_FILE_LEN_def
      ENIL_CRYPTO_FILE_NONCE_LEN_def openssl.hkdf_76 [OF assms] hkdf_T_123)

theorem file_derive_keys_rfc5869_witness:
  "file_derive_keys sum_hmac [5] =
     (hkdf_T sum_hmac (sum_hmac (replicate 32 0) [5]) 1, hkdf_T sum_hmac (sum_hmac (replicate 32 0) [5]) 2,
      take 12 (hkdf_T sum_hmac (sum_hmac (replicate 32 0) [5]) 3))"
  using file_derive_keys_rfc5869 [OF xor_openssl.openssl_axioms, of "[5]"] by (simp only: Let_def)

end
