(* ===== verification/ENIL_Image.thy ===== *)
theory ENIL_Image
  imports ENIL_Prelude
begin

text \<open>
  The image checks that decide whether a downloaded file is complete:
  \<open>source/shared/enil_png.c\<close>, \<open>source/shared/enil_jpeg.c\<close> and the path guard of
  \<open>source/shared/enil_asset_cache.c\<close>.  A file is its list of bytes; \<open>rerr\<close> says that the read
  after the last byte fails with an error instead of end of file.  zlib's \<open>crc32\<close> (the running
  checksum, extended by a buffer) is a parameter; the locale \<open>zlib\<close> has the law used of it.
\<close>

type_synonym crc_fun = "32 word \<Rightarrow> byte list \<Rightarrow> 32 word"

section \<open>PNG\<close>

definition png_signature :: "byte list" where
  "png_signature = [137, 80, 78, 71, 13, 10, 26, 10]"

definition read_be32 :: "byte list \<Rightarrow> nat" where
  "read_be32 p = be32 (p ! 0) (p ! 1) (p ! 2) (p ! 3)"

definition valid_depth :: "nat \<Rightarrow> nat \<Rightarrow> bool" where
  "valid_depth color depth \<longleftrightarrow>
     (color = 0 \<and> (depth = 1 \<or> depth = 2 \<or> depth = 4 \<or> depth = 8 \<or> depth = 16)) \<or>
     (color = 3 \<and> (depth = 1 \<or> depth = 2 \<or> depth = 4 \<or> depth = 8)) \<or>
     ((color = 2 \<or> color = 4 \<or> color = 6) \<and> (depth = 8 \<or> depth = 16))"

text \<open>The header chunk's 13 bytes: the dimensions, or \<open>None\<close> where the code gives up.\<close>

definition png_ihdr :: "byte list \<Rightarrow> (nat \<times> nat) option" where
  "png_ihdr b =
     (let x = read_be32 b; y = read_be32 (drop 4 b); depth = unat (b ! 8); color = unat (b ! 9)
      in if x = 0 \<or> y = 0 \<or> nat INT_MAX < x \<or> nat INT_MAX < y \<or> \<not> valid_depth color depth \<or>
            b ! 10 \<noteq> 0 \<or> b ! 11 \<noteq> 0 \<or> 1 < unat (b ! 12)
         then None else Some (x, y))"

text \<open>The inner loop: a chunk's data is read in pieces of at most 8192 bytes.\<close>

function png_data ::
  "crc_fun \<Rightarrow> bool \<Rightarrow> nat \<Rightarrow> 32 word \<Rightarrow> nat \<times> nat \<Rightarrow> byte list \<Rightarrow>
   (32 word \<times> (nat \<times> nat) \<times> byte list) option" where
  "png_data crc32 ihdr remaining crc wh s =
     (if remaining = 0 then Some (crc, wh, s)
      else let n = (if remaining < 8192 then remaining else 8192)
           in if length s < n then None
              else case (if ihdr then png_ihdr (take n s) else Some wh) of
                     None \<Rightarrow> None
                   | Some wh' \<Rightarrow> png_data crc32 ihdr (remaining - n) (crc32 crc (take n s)) wh' (drop n s))"
  by pat_completeness auto
termination
  by (relation "measure (\<lambda>(c, i, r, k, wh, s). r)") auto

declare png_data.simps [simp del]

definition IHDR :: "byte list" where "IHDR = bytes_of ''IHDR''"
definition IDAT :: "byte list" where "IDAT = bytes_of ''IDAT''"
definition IEND :: "byte list" where "IEND = bytes_of ''IEND''"

lemma chunk_names [simp]:
  "IHDR \<noteq> IDAT" "IHDR \<noteq> IEND" "IDAT \<noteq> IEND" "IDAT \<noteq> IHDR" "IEND \<noteq> IHDR" "IEND \<noteq> IDAT"
  "length IHDR = 4" "length IDAT = 4" "length IEND = 4"
  by (simp_all add: IHDR_def IDAT_def IEND_def)

lemma png_data_shrinks:
  "png_data crc32 ihdr r crc wh s = Some (c, wh', t) \<Longrightarrow> length t \<le> length s"
proof (induction crc32 ihdr r crc wh s rule: png_data.induct)
  case (1 crc32 ihdr r crc wh s)
  define n where "n = (if r < 8192 then r else 8192)"
  show ?case
  proof (cases "r = 0")
    case True
    with "1.prems" show ?thesis by (subst (asm) png_data.simps) simp
  next
    case False
    with "1.prems" n_def obtain x2 where x2: "\<not> length s < n"
      "(if ihdr then png_ihdr (take n s) else Some wh) = Some x2"
      "png_data crc32 ihdr (r - n) (crc32 crc (take n s)) x2 (drop n s) = Some (c, wh', t)"
      by (subst (asm) png_data.simps) (auto simp: Let_def split: option.splits if_splits)
    from "1.IH" [OF False n_def x2(1,2,3)] show ?thesis by simp
  qed
qed

function png_chunks ::
  "crc_fun \<Rightarrow> bool \<Rightarrow> bool \<Rightarrow> bool \<Rightarrow> nat \<times> nat \<Rightarrow> byte list \<Rightarrow> (nat \<times> nat) option" where
  "png_chunks crc32 rerr seen_header seen_data wh s =
     (if length s < 8 then None
      else let len = read_be32 s; ctype = take 4 (drop 4 s);
               ihdr = (ctype = IHDR); idat = (ctype = IDAT); iend = (ctype = IEND)
           in if nat INT_MAX < len \<or> (\<not> seen_header \<and> \<not> ihdr) then None
              else if ihdr \<and> (seen_header \<or> len \<noteq> 13) then None
              else if iend \<and> (len \<noteq> 0 \<or> \<not> seen_data) then None
              else case png_data crc32 ihdr len (crc32 0 ctype) wh (drop 8 s) of
                     None \<Rightarrow> None
                   | Some (crc, wh', r) \<Rightarrow>
                       if length r < 4 \<or> read_be32 r \<noteq> unat crc then None
                       else if iend then (if drop 4 r = [] \<and> \<not> rerr then Some wh' else None)
                       else png_chunks crc32 rerr (seen_header \<or> ihdr) (seen_data \<or> (idat \<and> len \<noteq> 0))
                              wh' (drop 4 r))"
  by pat_completeness auto
termination
proof (relation "measure (\<lambda>(c, e, h, d, wh, s). length s)", goal_cases)
  case 1
  show ?case by simp
next
  case (2 crc32 rerr sh sd wh s len ct ih id ie p crc q wh' r)
  then have "length r \<le> length (drop 8 s)" by (auto dest: png_data_shrinks)
  with 2 show ?case by simp
qed

declare png_chunks.simps [simp del]

text \<open>\<open>Some (w, h)\<close> for a return of 1; otherwise both out parameters are left 0.\<close>

definition enil_png_info ::
  "crc_fun \<Rightarrow> bool \<Rightarrow> byte list option \<Rightarrow> (nat \<times> nat) option" where
  "enil_png_info crc32 rerr file =
     (case file of
        None \<Rightarrow> None
      | Some s \<Rightarrow>
          if length s < 8 \<or> take 8 s \<noteq> png_signature then None
          else png_chunks crc32 rerr False False (0, 0) (drop 8 s))"

section \<open>JPEG\<close>

text \<open>Reading up to and including the next \<open>FF\<close>: skipping to it in entropy data.\<close>

definition next_ff :: "bool \<Rightarrow> byte list \<Rightarrow> byte list option" where
  "next_ff scan s =
     (if scan then (case dropWhile (\<lambda>c. c \<noteq> 0xff) s of [] \<Rightarrow> None | _ # r \<Rightarrow> Some r)
      else (case s of [] \<Rightarrow> None | c # r \<Rightarrow> if c \<noteq> 0xff then None else Some r))"

definition restart_marker :: "byte \<Rightarrow> bool" where
  "restart_marker m \<longleftrightarrow> 0xd0 \<le> m \<and> m \<le> 0xd7"

text \<open>
  One round of the marker loop: find \<open>FF\<close> (in entropy data, skip to it), skip fill bytes, read the
  marker and its segment.  \<open>None\<close> is a jump to \<open>done\<close> with \<open>ok = 0\<close>; otherwise whether the end of the
  image was reached, the code's flags \<open>scan\<close> and \<open>seen_scan\<close> and the rest of the file.
\<close>

definition jpeg_round ::
  "bool \<Rightarrow> bool \<Rightarrow> byte list \<Rightarrow> (bool \<times> bool \<times> bool \<times> byte list) option" where
  "jpeg_round scan seen_scan s =
     (case next_ff scan s of
        None \<Rightarrow> None
      | Some r \<Rightarrow>
          (case dropWhile (\<lambda>c. c = 0xff) r of
             [] \<Rightarrow> None
           | marker # r1 \<Rightarrow>
               if scan \<and> (marker = 0 \<or> restart_marker marker) then Some (False, scan, seen_scan, r1)
               else if marker = 0xd9 then (if seen_scan then Some (True, False, seen_scan, r1) else None)
               else if marker = 0 \<or> marker = 0xd8 \<or> restart_marker marker then None
               else if marker \<noteq> 1 then
                 (case r1 of
                    hi # lo # r2 \<Rightarrow>
                      (let seg = unat hi * 256 + unat lo
                       in if seg < 2 \<or> length r2 < seg - 2 then None
                          else Some (False, marker = 0xda, seen_scan \<or> marker = 0xda, drop (seg - 2) r2))
                  | _ \<Rightarrow> None)
               else Some (False, False, seen_scan, r1)))"

text \<open>What a round reads: a fixed nonempty piece, decided by that piece alone.\<close>

definition reads_exactly :: "('a list \<Rightarrow> ('b \<times> 'a list) option) \<Rightarrow> 'a list \<Rightarrow> 'b \<Rightarrow> 'a list \<Rightarrow> bool" where
  "reads_exactly f p x r \<longleftrightarrow>
     p \<noteq> [] \<and> (\<forall>r'. f (p @ r') = Some (x, r')) \<and> (\<forall>w. strict_prefix w p \<longrightarrow> f w = None)"

lemma strict_prefix_append_cases:
  "strict_prefix w (p @ q) \<Longrightarrow> strict_prefix w p \<or> (\<exists>v. w = p @ v \<and> strict_prefix v q)"
  by (auto simp: strict_prefix_def prefix_append)

lemma next_ff_reads:
  assumes "next_ff scan s = Some r"
  shows "\<exists>p. s = p @ r \<and> p \<noteq> [] \<and> last p = 0xff \<and> (\<forall>r'. next_ff scan (p @ r') = Some r') \<and>
    (\<forall>w. strict_prefix w p \<longrightarrow> next_ff scan w = None)"
proof (cases scan)
  case True
  let ?a = "takeWhile (\<lambda>c. c \<noteq> (0xff :: byte)) s"
  from assms True have d: "dropWhile (\<lambda>c. c \<noteq> 0xff) s = 0xff # r"
    by (auto simp: next_ff_def dropWhile_eq_Cons_conv split: list.splits)
  have s: "s = (?a @ [0xff]) @ r"
    using takeWhile_dropWhile_id [of "\<lambda>c. c \<noteq> (0xff :: byte)" s] unfolding d by simp
  have a: "\<forall>x \<in> set ?a. x \<noteq> 0xff" by (auto dest: set_takeWhileD)
  have "next_ff scan ((?a @ [0xff]) @ r') = Some r'" for r'
    using True a by (simp add: next_ff_def dropWhile_append)
  moreover have "next_ff scan w = None" if "strict_prefix w (?a @ [0xff])" for w
  proof -
    from that have "prefix w ?a" by (auto simp: strict_prefix_def prefix_append prefix_Cons)
    with a have "\<forall>x \<in> set w. x \<noteq> 0xff" by (meson set_mono_prefix subsetD)
    with True show ?thesis by (simp add: next_ff_def dropWhile_eq_Nil_conv [THEN iffD2])
  qed
  ultimately show ?thesis using s by (intro exI [of _ "?a @ [0xff]"]) simp
next
  case False
  with assms have "s = [0xff] @ r" by (auto simp: next_ff_def split: list.splits if_splits)
  with False show ?thesis
    by (intro exI [of _ "[0xff]"]) (auto simp: next_ff_def strict_prefix_def prefix_Cons)
qed

abbreviation round_of :: "bool \<Rightarrow> bool \<Rightarrow> byte list \<Rightarrow> ((bool \<times> bool \<times> bool) \<times> byte list) option" where
  "round_of scan seen s \<equiv> map_option (\<lambda>(x, y, z, r). ((x, y, z), r)) (jpeg_round scan seen s)"

text \<open>The part after \<open>FF\<close>: fill bytes, then the marker with what it needs.\<close>

lemma fill_bytes:
  assumes "dropWhile (\<lambda>c. c = 0xff) r = (m :: byte) # r1"
  shows "\<exists>f. r = f @ m # r1 \<and> (\<forall>x \<in> set f. x = 0xff) \<and> m \<noteq> 0xff"
proof -
  from assms have "r = takeWhile (\<lambda>c. c = 0xff) r @ m # r1" "m \<noteq> 0xff"
    by (simp_all add: dropWhile_eq_Cons_conv)
  moreover have "\<forall>x \<in> set (takeWhile (\<lambda>c. c = 0xff) r). x = 0xff" by (auto dest: set_takeWhileD)
  ultimately show ?thesis by blast
qed

lemma marker_after_fill:
  assumes "\<forall>x \<in> set f. x = (0xff :: byte)" and "m \<noteq> 0xff"
  shows "dropWhile (\<lambda>c. c = 0xff) (f @ m # r) = m # r \<and>
    (\<forall>w. prefix w f \<longrightarrow> dropWhile (\<lambda>c. c = 0xff) w = [])"
  using assms by (auto simp: dropWhile_append3 dest: set_mono_prefix)

text \<open>The end of a round: after the marker, nothing or a segment of a known length.\<close>

definition segment :: "bool \<Rightarrow> bool \<Rightarrow> byte list \<Rightarrow> (bool \<times> bool \<times> bool \<times> byte list) option" where
  "segment sos seen r1 =
     (case r1 of
        hi # lo # r2 \<Rightarrow>
          (let seg = unat hi * 256 + unat lo
           in if seg < 2 \<or> length r2 < seg - 2 then None
              else Some (False, sos, seen \<or> sos, drop (seg - 2) r2))
      | _ \<Rightarrow> None)"

lemma segment_reads:
  assumes "segment sos seen r1 = Some (x, y, z, r)"
  shows "\<exists>p. r1 = p @ r \<and> (\<forall>r'. segment sos seen (p @ r') = Some (x, y, z, r')) \<and>
    (\<forall>w. strict_prefix w p \<longrightarrow> segment sos seen w = None)"
proof -
  obtain hi lo r2 where r1: "r1 = hi # lo # r2"
    using assms by (auto simp: segment_def split: list.splits)
  define n where "n = unat hi * 256 + unat lo - 2"
  have seg: "segment sos seen (hi # lo # v) =
      (if unat hi * 256 + unat lo < 2 \<or> length v < n then None else Some (False, sos, seen \<or> sos, drop n v))" for v
    by (simp add: segment_def n_def Let_def)
  from assms have ok: "\<not> unat hi * 256 + unat lo < 2" "n \<le> length r2" "r = drop n r2"
    "x = False" "y = sos" "z = (seen \<or> sos)"
    unfolding r1 seg by (auto split: if_splits)
  have "segment sos seen w = None" if "strict_prefix w (hi # lo # take n r2)" for w
  proof -
    consider "w = []" | "w = [hi]" | v where "w = hi # lo # v" "strict_prefix v (take n r2)"
      using \<open>strict_prefix w (hi # lo # take n r2)\<close> by (auto simp: strict_prefix_def prefix_Cons)
    then show ?thesis
    proof cases
      case (3 v)
      then have "length v < n" using prefix_length_less [OF 3(2)] ok(2) by simp
      then show ?thesis unfolding 3(1) seg by simp
    qed (simp_all add: segment_def)
  qed
  with ok show ?thesis
    by (intro exI [of _ "hi # lo # take n r2"]) (simp add: r1 seg)
qed

lemma jpeg_round_reads:
  assumes "jpeg_round scan seen s = Some (x, y, z, r)"
  shows "\<exists>p. s = p @ r \<and> reads_exactly (round_of scan seen) p (x, y, z) r"
proof -
  obtain q where q: "next_ff scan s = Some q"
    using assms by (auto simp: jpeg_round_def split: option.splits)
  obtain m r1 where m: "dropWhile (\<lambda>c. c = 0xff) q = m # r1"
    using assms q by (auto simp: jpeg_round_def split: list.splits)
  obtain u where u: "s = u @ q" "u \<noteq> []" "\<And>r'. next_ff scan (u @ r') = Some r'"
    "\<And>w. strict_prefix w u \<Longrightarrow> next_ff scan w = None"
    using next_ff_reads [OF q] by blast
  obtain f where f: "q = f @ m # r1" "\<forall>x \<in> set f. x = 0xff" "m \<noteq> 0xff"
    using fill_bytes [OF m] by blast
  define tail where "tail r1 =
     (if scan \<and> (m = 0 \<or> restart_marker m) then Some (False, scan, seen, r1)
      else if m = 0xd9 then (if seen then Some (True, False, seen, r1) else None)
      else if m = 0 \<or> m = 0xd8 \<or> restart_marker m then None
      else if m \<noteq> 1 then segment (m = 0xda) seen r1
      else Some (False, False, seen, r1))" for r1 :: "byte list"
  have round: "jpeg_round scan seen (u @ f @ m # v) = tail v" for v
    using u(3) marker_after_fill [OF f(2,3)] by (simp add: jpeg_round_def tail_def segment_def)
  have short: "jpeg_round scan seen w = None" if "prefix w (u @ f)" for w
  proof (cases "strict_prefix w u")
    case True
    then show ?thesis using u(4) by (simp add: jpeg_round_def)
  next
    case False
    with that obtain v where "w = u @ v" "prefix v f"
      by (auto simp: prefix_append strict_prefix_def)
    moreover from this have "dropWhile (\<lambda>c. c = 0xff) v = []"
      using marker_after_fill [OF f(2,3)] by blast
    ultimately show ?thesis
      using u(3) by (simp add: jpeg_round_def dropWhile_eq_Nil_conv [THEN iffD2])
  qed
  have "tail r1 = Some (x, y, z, r)"
    using assms round [of r1] by (simp add: u(1) f(1))
  then have "\<exists>p. r1 = p @ r \<and> (\<forall>r'. tail (p @ r') = Some (x, y, z, r')) \<and> (\<forall>w. strict_prefix w p \<longrightarrow> tail w = None)"
    using segment_reads [of "m = 0xda" seen r1 x y z r]
    by (auto simp: tail_def split: if_splits)
  then obtain p where p: "r1 = p @ r" "\<And>r'. tail (p @ r') = Some (x, y, z, r')"
    "\<And>w. strict_prefix w p \<Longrightarrow> tail w = None"
    by blast
  have "jpeg_round scan seen w = None" if w: "strict_prefix w (u @ f @ m # p)" for w
  proof (cases "prefix w (u @ f)")
    case True
    then show ?thesis by (rule short)
  next
    case False
    from w have "prefix w ((u @ f) @ m # p)" "w \<noteq> (u @ f) @ m # p" by (simp_all add: strict_prefix_def)
    with False obtain v where "w = (u @ f) @ m # v" "strict_prefix v p"
      by (auto simp: prefix_append prefix_Cons strict_prefix_def)
    then show ?thesis using round [of v] p(3) by simp
  qed
  then show ?thesis
    using u(1,2) f(1) p(1) p(2) round
    by (intro exI [of _ "u @ f @ m # p"]) (simp add: reads_exactly_def)
qed

lemma jpeg_round_shrinks: "jpeg_round scan seen s = Some (x, y, z, r) \<Longrightarrow> length r < length s"
  by (auto dest!: jpeg_round_reads simp: reads_exactly_def)

function jpeg_loop :: "bool \<Rightarrow> bool \<Rightarrow> byte list \<Rightarrow> bool" where
  "jpeg_loop scan seen_scan s =
     (case jpeg_round scan seen_scan s of
        None \<Rightarrow> False
      | Some (finished, scan', seen', r) \<Rightarrow> if finished then True else jpeg_loop scan' seen' r)"
  by pat_completeness auto
termination
  by (relation "measure (\<lambda>(a, b, s). length s)") (auto dest: jpeg_round_shrinks)

declare jpeg_loop.simps [simp del]

lemma jpeg_finish_marker:
  "jpeg_round scan seen s = Some (True, y, z, r) \<Longrightarrow> \<exists>p. s = p @ [0xff, 0xd9] @ r"
proof -
  assume rd: "jpeg_round scan seen s = Some (True, y, z, r)"
  then obtain q where q: "next_ff scan s = Some q"
    by (auto simp: jpeg_round_def split: option.splits)
  from rd q have m: "dropWhile (\<lambda>c. c = 0xff) q = 0xd9 # r"
    by (auto simp: jpeg_round_def Let_def split: list.splits if_splits)
  obtain u where u: "s = u @ q" "u \<noteq> []" "last u = 0xff"
    using next_ff_reads [OF q] by blast
  obtain f where f: "q = f @ 0xd9 # r" "\<forall>x \<in> set f. x = 0xff"
    using fill_bytes [OF m] by blast
  have "last (u @ f) = 0xff" using u f by (simp add: last_append)
  then have "u @ f = butlast (u @ f) @ [0xff]"
    using u(2) by (metis append_butlast_last_id append_is_Nil_conv)
  then have "s = butlast (u @ f) @ [0xff, 0xd9] @ r"
    unfolding u(1) f(1) by (metis append.assoc append_Cons append_Nil)
  then show ?thesis ..
qed

lemma jpeg_loop_reads:
  "jpeg_loop scan seen s \<Longrightarrow>
   \<exists>p r. s = p @ [0xff, 0xd9] @ r \<and> (\<forall>r'. jpeg_loop scan seen (p @ [0xff, 0xd9] @ r')) \<and>
     (\<forall>w. strict_prefix w (p @ [0xff, 0xd9]) \<longrightarrow> \<not> jpeg_loop scan seen w)"
proof (induction scan seen s rule: jpeg_loop.induct)
  case (1 scan seen s)
  obtain fin sc se r where rd: "jpeg_round scan seen s = Some (fin, sc, se, r)"
    and more: "\<not> fin \<Longrightarrow> jpeg_loop sc se r"
    using "1.prems" by (subst (asm) jpeg_loop.simps) (auto split: option.splits if_splits)
  obtain p where p: "s = p @ r" "\<And>r'. jpeg_round scan seen (p @ r') = Some (fin, sc, se, r')"
    "\<And>w. strict_prefix w p \<Longrightarrow> jpeg_round scan seen w = None"
    using jpeg_round_reads [OF rd] by (auto simp: reads_exactly_def)
  have short: "\<not> jpeg_loop scan seen w" if "strict_prefix w p" for w
    using p(3) [OF that] by (subst jpeg_loop.simps) simp
  show ?case
  proof (cases fin)
    case True
    have all: "jpeg_loop scan seen (p @ r')" for r'
      using p(2) [of r'] True by (subst jpeg_loop.simps) simp
    from p(2) [of "[]"] True have "jpeg_round scan seen (p @ []) = Some (True, sc, se, [])" by simp
    from jpeg_finish_marker [OF this] obtain u where "p @ [] = u @ [0xff, 0xd9] @ []" by blast
    then have u: "p = u @ [0xff, 0xd9]" by simp
    show ?thesis
      using all short p(1) unfolding u by (intro exI [of _ u] exI [of _ r]) auto
  next
    case False
    then have next_round: "jpeg_loop scan seen (p @ v) = jpeg_loop sc se v" for v
      using p(2) [of v] by (subst jpeg_loop.simps) simp
    from "1.IH" [OF rd refl refl refl False more [OF False]] obtain u v
      where u: "r = u @ [0xff, 0xd9] @ v" "\<And>r'. jpeg_loop sc se (u @ [0xff, 0xd9] @ r')"
      "\<And>w. strict_prefix w (u @ [0xff, 0xd9]) \<Longrightarrow> \<not> jpeg_loop sc se w"
      by blast
    have "\<not> jpeg_loop scan seen w" if "strict_prefix w (p @ u @ [0xff, 0xd9])" for w
      using strict_prefix_append_cases [OF that] short u(3) next_round by auto
    then show ?thesis
      using u(1,2) p(1) next_round by (intro exI [of _ "p @ u"] exI [of _ v]) simp
  qed
qed

definition enil_jpeg_complete :: "byte list option \<Rightarrow> bool" where
  "enil_jpeg_complete file =
     (case file of
        Some (a # b # s) \<Rightarrow> a = 0xff \<and> b = 0xd8 \<and> jpeg_loop False False s
      | _ \<Rightarrow> False)"

section \<open>Cached sticker paths\<close>

text \<open>
  The path that is opened, when the guard lets it through: below \<open>purchases/\<close>, without \<open>../\<close>, and
  not truncated in \<open>path[2048]\<close>.
\<close>

definition asset_path :: "string option \<Rightarrow> string option \<Rightarrow> string option" where
  "asset_path dir relative =
     (case (dir, relative) of
        (Some d, Some r) \<Rightarrow>
          if \<not> has_prefix r ''purchases/'' \<or> sublist ''../'' r then None
          else (let path = d @ ''/'' @ r in
                if 0 < length path \<and> length path < 2048 then Some path else None)
      | _ \<Rightarrow> None)"

definition enil_asset_cache_png ::
  "crc_fun \<Rightarrow> bool \<Rightarrow> (string \<Rightarrow> byte list option) \<Rightarrow>
   string option \<Rightarrow> string option \<Rightarrow> (nat \<times> nat) option" where
  "enil_asset_cache_png crc32 rerr files dir relative =
     (case asset_path dir relative of
        None \<Rightarrow> None
      | Some path \<Rightarrow> enil_png_info crc32 rerr (files path))"

section \<open>The checksum\<close>

text \<open>A chunk as the format lays it out: length, type, data and the checksum of type and data.\<close>

definition be32_bytes :: "nat \<Rightarrow> byte list" where
  "be32_bytes n = [word_of_nat (n div 2 ^ 24), word_of_nat (n div 2 ^ 16), word_of_nat (n div 2 ^ 8), word_of_nat n]"

definition png_chunk :: "crc_fun \<Rightarrow> byte list \<Rightarrow> byte list \<Rightarrow> byte list" where
  "png_chunk crc32 t d =
     be32_bytes (length d) @ t @ d @ be32_bytes (unat (crc32 (crc32 0 t) d))"

lemma length_be32_bytes [simp]: "length (be32_bytes n) = 4"
  by (simp add: be32_bytes_def)

lemma read_be32_simps: "read_be32 (a # b # c # d # s) = be32 a b c d"
  by (simp add: read_be32_def)

lemma read_be32_bytes:
  assumes "n < 2 ^ 32"
  shows "read_be32 (be32_bytes n @ s) = n"
proof -
  define p q r where "p = n div 256" and "q = p div 256" and "r = q div 256"
  have "n div 2 ^ 8 = p" "n div 2 ^ 16 = q" "n div 2 ^ 24 = r"
    by (simp_all add: p_def q_def r_def div_mult2_eq [symmetric])
  moreover have "r < 256" using assms by (simp add: p_def q_def r_def div_mult2_eq [symmetric])
  moreover have "n = 256 * p + n mod 256" "p = 256 * q + p mod 256" "q = 256 * r + q mod 256"
    by (simp_all add: p_def q_def r_def)
  ultimately show ?thesis
    by (simp add: be32_bytes_def read_be32_simps be32_def unsigned_of_nat take_bit_eq_mod)
qed

lemma be32_bytes_be32: "be32_bytes (be32 a b c d) = [a, b, c, d]"
proof -
  have l: "unat a < 256" "unat b < 256" "unat c < 256" "unat d < 256" by simp_all
  define p q where "p = unat a * 256 + unat b" and "q = p * 256 + unat c"
  have e: "be32 a b c d = q * 256 + unat d" by (simp add: be32_def p_def q_def)
  have g: "(m * 256 + k) div 256 = m" if "k < 256" for m k :: nat
    using that by simp
  have 1: "be32 a b c d div 256 = q" unfolding e by (rule g [OF l(4)])
  have 2: "q div 256 = p" "p div 256 = unat a"
    unfolding q_def p_def by (rule g [OF l(3)], rule g [OF l(2)])
  have d: "be32 a b c d div 2 ^ 8 = q" "be32 a b c d div 2 ^ 16 = p" "be32 a b c d div 2 ^ 24 = unat a"
    using 1 2 div_mult2_eq [of "be32 a b c d" 256 256] div_mult2_eq [of "be32 a b c d" 65536 256]
    by simp_all
  have "unat (word_of_nat (m * 256 + unat x) :: byte) = unat x" for m and x :: byte
    by (simp add: unsigned_of_nat take_bit_eq_mod del: of_nat_add of_nat_mult)
  then have w: "(word_of_nat (m * 256 + unat x) :: byte) = x" for m and x :: byte
    by (simp add: word_unat_eq_iff del: of_nat_add of_nat_mult)
  have bs: "(word_of_nat (unat a) :: byte) = a" "(word_of_nat p :: byte) = b"
    "(word_of_nat q :: byte) = c" "(word_of_nat (be32 a b c d) :: byte) = d"
    unfolding e by (simp, unfold p_def q_def, (rule w)+)
  show ?thesis unfolding be32_bytes_def d bs ..
qed

lemma be32_bytes_read: "4 \<le> length s \<Longrightarrow> be32_bytes (read_be32 s) = take 4 s"
  unfolding read_be32_def be32_bytes_be32
  by (rule nth_equalityI) (auto simp: numeral_eq_Suc less_Suc_eq)

text \<open>Chunks that may stand between the header and the end, and their bytes in the file.\<close>

definition inner_chunk :: "byte list \<times> byte list \<Rightarrow> bool" where
  "inner_chunk c \<longleftrightarrow> length (fst c) = 4 \<and> fst c \<noteq> IHDR \<and> fst c \<noteq> IEND \<and> length (snd c) \<le> nat INT_MAX"

definition png_layout :: "crc_fun \<Rightarrow> (byte list \<times> byte list) list \<Rightarrow> byte list" where
  "png_layout crc32 cs = concat (map (\<lambda>(t, d). png_chunk crc32 t d) cs)"

definition has_data :: "(byte list \<times> byte list) list \<Rightarrow> bool" where
  "has_data cs \<longleftrightarrow> list_ex (\<lambda>(t, d). t = IDAT \<and> d \<noteq> []) cs"

lemma inner_chunk_simps [simp]:
  "inner_chunk (t, d) \<longleftrightarrow> length t = 4 \<and> t \<noteq> IHDR \<and> t \<noteq> IEND \<and> length d \<le> nat INT_MAX"
  by (simp add: inner_chunk_def)

lemma png_layout_simps [simp]:
  "png_layout crc32 [] = []"
  "png_layout crc32 ((t, d) # cs) = png_chunk crc32 t d @ png_layout crc32 cs"
  by (simp_all add: png_layout_def)

lemma has_data_simps [simp]:
  "has_data [] = False"
  "has_data ((t, d) # cs) \<longleftrightarrow> (t = IDAT \<and> d \<noteq> []) \<or> has_data cs"
  by (simp_all add: has_data_def)

locale zlib =
  fixes crc32 :: crc_fun
  assumes crc_empty: "crc32 c [] = c"
    and crc_append: "crc32 c (a @ b) = crc32 (crc32 c a) b"
begin

text \<open>The chunked read computes the checksum of the whole data, whatever the piece size.\<close>

lemma png_data_plain:
  "png_data crc32 False r c wh s =
     (if length s < r then None else Some (crc32 c (take r s), wh, drop r s))"
proof (induction r arbitrary: c s rule: less_induct)
  case (less r)
  define n where "n = (if r < 8192 then r else 8192)"
  show ?case
  proof (cases "r = 0")
    case True
    then show ?thesis by (subst png_data.simps) (simp add: crc_empty)
  next
    case False
    then have n: "0 < n" "n \<le> r" by (auto simp: n_def)
    have rec: "png_data crc32 False r c wh s =
        (if length s < n then None
         else png_data crc32 False (r - n) (crc32 c (take n s)) wh (drop n s))"
      using False by (subst png_data.simps) (simp add: n_def Let_def)
    have "take r s = take n s @ take (r - n) (drop n s)"
      using n by (metis le_add_diff_inverse take_add)
    then have "crc32 (crc32 c (take n s)) (take (r - n) (drop n s)) = crc32 c (take r s)"
      by (simp add: crc_append)
    with n show ?thesis unfolding rec using less [of "r - n"] by auto
  qed
qed

lemma png_data_eq:
  assumes "ihdr \<Longrightarrow> r = 13"
  shows "png_data crc32 ihdr r c wh s =
     (if length s < r then None
      else map_option (\<lambda>wh'. (crc32 c (take r s), wh', drop r s))
             (if ihdr then png_ihdr (take r s) else Some wh))"
proof (cases ihdr)
  case True
  then show ?thesis
    using assms by (subst png_data.simps) (simp add: png_data.simps [of _ _ 0] split: option.split)
next
  case False
  then show ?thesis by (simp add: png_data_plain)
qed

text \<open>What one round of the loop makes of a chunk, and that every accepted round reads one.\<close>

lemma png_chunks_chunk:
  assumes "length t = 4" and "length d \<le> nat INT_MAX"
  shows "png_chunks crc32 rerr sh sd wh (png_chunk crc32 t d @ s) =
    (if (\<not> sh \<and> t \<noteq> IHDR) \<or> (t = IHDR \<and> (sh \<or> length d \<noteq> 13)) \<or> (t = IEND \<and> (d \<noteq> [] \<or> \<not> sd))
     then None
     else case (if t = IHDR then png_ihdr d else Some wh) of
            None \<Rightarrow> None
          | Some wh' \<Rightarrow>
              if t = IEND then (if s = [] \<and> \<not> rerr then Some wh' else None)
              else png_chunks crc32 rerr (sh \<or> t = IHDR) (sd \<or> (t = IDAT \<and> d \<noteq> [])) wh' s)"
proof -
  let ?s = "png_chunk crc32 t d @ s"
  have small: "length d < 2 ^ 32" using assms(2) by (simp add: INT_MAX_def)
  have r: "read_be32 ?s = length d"
    using read_be32_bytes [OF small] by (simp add: png_chunk_def)
  have ty: "take 4 (drop 4 ?s) = t"
    using assms(1) by (simp add: png_chunk_def)
  have dr: "drop 8 ?s = d @ be32_bytes (unat (crc32 (crc32 0 t) d)) @ s"
    using assms(1) by (simp add: png_chunk_def)
  have cr: "read_be32 (be32_bytes (unat c) @ v) = unat c" for c :: "32 word" and v
    using unsigned_less [of c, where ?'a = nat] by (simp add: read_be32_bytes)
  note cr = cr cr [of _ "[]", unfolded append_Nil2]
  have dd: "png_data crc32 (t = IHDR) (length d) c wh (d @ u) =
      map_option (\<lambda>wh'. (crc32 c d, wh', u)) (if t = IHDR then png_ihdr d else Some wh)"
    if "t = IHDR \<longrightarrow> length d = 13" for c u
    using png_data_eq [OF that [THEN mp], where s = "d @ u"] by simp
  have l8: "\<not> length ?s < 8" using assms(1) by (simp add: png_chunk_def)
  show ?thesis
  proof (cases "(\<not> sh \<and> t \<noteq> IHDR) \<or> (t = IHDR \<and> (sh \<or> length d \<noteq> 13)) \<or> (t = IEND \<and> (d \<noteq> [] \<or> \<not> sd))")
    case True
    then show ?thesis
      unfolding png_chunks.simps [of _ _ _ _ _ ?s] r ty Let_def using l8 by auto
  next
    case False
    then have "t = IHDR \<longrightarrow> length d = 13" by blast
    note dd = dd [OF this]
    show ?thesis
    proof (cases "if t = IHDR then png_ihdr d else Some wh")
      case None
      then show ?thesis
        unfolding png_chunks.simps [of _ _ _ _ _ ?s] r ty dr Let_def dd using l8 False assms(2)
        by auto
    next
      case (Some w)
      then show ?thesis
        unfolding png_chunks.simps [of _ _ _ _ _ ?s] r ty dr Let_def dd using l8 False assms(2)
        by (auto simp: cr)
    qed
  qed
qed

lemma png_chunks_reads_chunk:
  assumes "png_chunks crc32 rerr sh sd wh s = Some res"
  shows "\<exists>t d u. s = png_chunk crc32 t d @ u \<and> length t = 4 \<and> length d \<le> nat INT_MAX"
proof -
  define len t where "len = read_be32 s" and "t = take 4 (drop 4 s)"
  note unf = png_chunks.simps [of crc32 rerr sh sd wh s, folded len_def t_def, unfolded Let_def]
  have l8: "8 \<le> length s" and len: "len \<le> nat INT_MAX" and h: "t = IHDR \<Longrightarrow> len = 13"
    using assms unfolding unf by (auto split: if_splits)
  obtain c wh' r where d: "png_data crc32 (t = IHDR) len (crc32 0 t) wh (drop 8 s) = Some (c, wh', r)"
    and r: "4 \<le> length r" "read_be32 r = unat c"
    using assms unfolding unf by (auto split: if_splits option.splits simp: not_less)
  from d png_data_eq [OF h, where c = "crc32 0 t" and wh = wh and s = "drop 8 s"]
  have e: "len \<le> length (drop 8 s)" "c = crc32 (crc32 0 t) (take len (drop 8 s))" "r = drop len (drop 8 s)"
    by (auto split: if_splits)
  have "s = take 4 s @ t @ drop 8 s"
    unfolding t_def using l8 by (metis append_take_drop_id drop_drop numeral_Bit0)
  also have "\<dots> = be32_bytes len @ t @ take len (drop 8 s) @ take 4 r @ drop 4 r"
    using l8 e(3) by (simp add: len_def be32_bytes_read del: drop_drop)
  also have "take 4 r = be32_bytes (unat c)"
    using r by (metis be32_bytes_read)
  finally have "s = png_chunk crc32 t (take len (drop 8 s)) @ drop 4 r"
    using e by (simp add: png_chunk_def)
  moreover have "length t = 4" using l8 by (simp add: t_def)
  ultimately show ?thesis using len by force
qed

lemma png_body_accepts:
  "list_all inner_chunk cs \<Longrightarrow> sd \<or> has_data cs \<Longrightarrow>
   png_chunks crc32 False True sd wh (png_layout crc32 cs @ png_chunk crc32 IEND []) = Some wh"
proof (induction cs arbitrary: sd)
  case Nil
  then show ?case using png_chunks_chunk [of IEND "[]" False True sd wh "[]"] by simp
next
  case (Cons c cs)
  obtain t d where c: "c = (t, d)" by force
  with Cons.prems have p: "length t = 4" "length d \<le> nat INT_MAX" "t \<noteq> IHDR" "t \<noteq> IEND"
    and "list_all inner_chunk cs" and "(sd \<or> (t = IDAT \<and> d \<noteq> [])) \<or> has_data cs"
    by auto
  with Cons.IH show ?case
    unfolding c by (simp add: png_chunks_chunk)
qed

lemma png_body_only:
  "png_chunks crc32 rerr True sd wh s = Some res \<Longrightarrow>
   \<not> rerr \<and> res = wh \<and>
   (\<exists>cs. s = png_layout crc32 cs @ png_chunk crc32 IEND [] \<and> list_all inner_chunk cs \<and> (sd \<or> has_data cs))"
proof (induction "length s" arbitrary: s sd rule: less_induct)
  case less
  from png_chunks_reads_chunk [OF less.prems] obtain t d u
    where s: "s = png_chunk crc32 t d @ u" and t: "length t = 4" and d: "length d \<le> nat INT_MAX"
    by blast
  note prem = less.prems [unfolded s png_chunks_chunk [OF t d]]
  then have nh: "t \<noteq> IHDR" by (auto split: if_splits)
  show ?case
  proof (cases "t = IEND")
    case True
    with prem show ?thesis
      unfolding s by (intro conjI exI [of _ "[]"]) (auto split: if_splits)
  next
    case False
    have "length u < length s" using t by (simp add: s png_chunk_def)
    moreover have "png_chunks crc32 rerr True (sd \<or> (t = IDAT \<and> d \<noteq> [])) wh u = Some res"
      using prem nh False by (simp split: if_splits)
    ultimately obtain cs where cs: "\<not> rerr" "res = wh"
      "u = png_layout crc32 cs @ png_chunk crc32 IEND []" "list_all inner_chunk cs"
      "(sd \<or> (t = IDAT \<and> d \<noteq> [])) \<or> has_data cs"
      using less.hyps by blast
    with nh False t d show ?thesis
      unfolding s by (intro conjI exI [of _ "(t, d) # cs"]) auto
  qed
qed

lemma png_info_iff:
  "enil_png_info crc32 rerr file = Some wh \<longleftrightarrow>
   \<not> rerr \<and> (\<exists>ihdr cs. file = Some (png_signature @ png_chunk crc32 IHDR ihdr @
       png_layout crc32 cs @ png_chunk crc32 IEND []) \<and>
     length ihdr = 13 \<and> png_ihdr ihdr = Some wh \<and> list_all inner_chunk cs \<and> has_data cs)"
    (is "?L \<longleftrightarrow> ?R")
proof
  assume ?L
  then obtain s where f: "file = Some (png_signature @ s)"
    and p: "png_chunks crc32 rerr False False (0, 0) s = Some wh"
    by (auto simp: enil_png_info_def split: option.splits if_splits) (metis append_take_drop_id)
  from png_chunks_reads_chunk [OF p] obtain t d u
    where s: "s = png_chunk crc32 t d @ u" and t: "length t = 4" and d: "length d \<le> nat INT_MAX"
    by blast
  note p = p [unfolded s png_chunks_chunk [OF t d]]
  then have "t = IHDR" "length d = 13" by (auto split: if_splits)
  moreover from p this obtain w where "png_ihdr d = Some w" "png_chunks crc32 rerr True False w u = Some wh"
    by (auto split: if_splits option.splits)
  moreover from png_body_only [OF this(2)] have "\<not> rerr" "wh = w"
    "\<exists>cs. u = png_layout crc32 cs @ png_chunk crc32 IEND [] \<and> list_all inner_chunk cs \<and> has_data cs"
    by auto
  ultimately show ?R unfolding f s by auto
next
  assume ?R
  then obtain ihdr cs where r: "\<not> rerr" "file = Some (png_signature @ png_chunk crc32 IHDR ihdr @
       png_layout crc32 cs @ png_chunk crc32 IEND [])" "length ihdr = 13" "png_ihdr ihdr = Some wh"
     "list_all inner_chunk cs" "has_data cs"
    by blast
  from r(1,3-6) show ?L
    unfolding r(2) enil_png_info_def
    by (simp add: png_signature_def png_chunks_chunk png_body_accepts INT_MAX_def)
qed

end

text \<open>The CRC-32 of the format, bit by bit.\<close>

definition crc_bit :: "32 word \<Rightarrow> 32 word" where
  "crc_bit c = (if bit c 0 then Bit_Operations.xor (drop_bit 1 c) 0xEDB88320 else drop_bit 1 c)"

definition crc_byte :: "32 word \<Rightarrow> byte \<Rightarrow> 32 word" where
  "crc_byte c b = (crc_bit ^^ 8) (Bit_Operations.xor c (ucast b))"

definition crc32_ref :: crc_fun where
  "crc32_ref c s = not (foldl crc_byte (not c) s)"

interpretation crc: zlib crc32_ref
  by unfold_locales (simp_all add: crc32_ref_def)

section \<open>Properties\<close>

text \<open>C12: A PNG is accepted exactly when the whole file is the signature, one 13-byte IHDR with sane
  dimensions and format, any chunks in between with at least one that is a nonempty IDAT, and an empty
  IEND as the very last bytes, every chunk with the right CRC and nothing read with an error; the
  dimensions reported are those of the header.  So no truncated or damaged download passes.\<close>

theorem enil_png_info_accepts_exactly:
  assumes "zlib crc32"
  shows "enil_png_info crc32 rerr file = Some (w, h) \<longleftrightarrow>
   \<not> rerr \<and> (\<exists>ihdr cs. file = Some (png_signature @ png_chunk crc32 IHDR ihdr @
       png_layout crc32 cs @ png_chunk crc32 IEND []) \<and>
     length ihdr = 13 \<and> png_ihdr ihdr = Some (w, h) \<and> list_all inner_chunk cs \<and> has_data cs)"
  by (rule zlib.png_info_iff [OF assms])

theorem enil_png_info_accepts_exactly_witness:
  "enil_png_info crc32_ref False
     (Some (png_signature @ png_chunk crc32_ref IHDR [0, 0, 0, 2, 0, 0, 0, 3, 8, 6, 0, 0, 0] @
       png_layout crc32_ref [(IDAT, [7])] @ png_chunk crc32_ref IEND [])) = Some (2, 3)"
proof -
  have "png_ihdr [0, 0, 0, 2, 0, 0, 0, 3, 8, 6, 0, 0, 0] = Some (2, 3)"
    by (simp add: png_ihdr_def read_be32_def be32_def valid_depth_def INT_MAX_def)
  moreover have "list_all inner_chunk [(IDAT, [7])]" "has_data [(IDAT, [7])]"
    by (simp_all add: INT_MAX_def)
  ultimately have ok: "\<exists>ihdr cs. Some (png_signature @ png_chunk crc32_ref IHDR [0, 0, 0, 2, 0, 0, 0, 3, 8, 6, 0, 0, 0] @
       png_layout crc32_ref [(IDAT, [7])] @ png_chunk crc32_ref IEND []) =
     Some (png_signature @ png_chunk crc32_ref IHDR ihdr @ png_layout crc32_ref cs @ png_chunk crc32_ref IEND []) \<and>
     length ihdr = 13 \<and> png_ihdr ihdr = Some (2, 3) \<and> list_all inner_chunk cs \<and> has_data cs"
    by (intro exI [of _ "[0, 0, 0, 2, 0, 0, 0, 3, 8, 6, 0, 0, 0]"] exI [of _ "[(IDAT, [7])]"] conjI refl)
      simp_all
  show ?thesis
    by (rule enil_png_info_accepts_exactly [OF crc.zlib_axioms, THEN iffD2], rule conjI [OF _ ok]) simp
qed

text \<open>C17: An accepted JPEG ends its image with an EOI marker at a definite place: whatever follows is
  ignored, and every file that stops before that place is rejected, so a truncated download never
  passes for complete.\<close>

theorem enil_jpeg_complete_detects_truncation:
  assumes "enil_jpeg_complete (Some s)"
  shows "\<exists>p r. s = p @ [0xff, 0xd9] @ r \<and> prefix [0xff, 0xd8] p \<and>
    (\<forall>r'. enil_jpeg_complete (Some (p @ [0xff, 0xd9] @ r'))) \<and>
    (\<forall>w. strict_prefix w (p @ [0xff, 0xd9]) \<longrightarrow> \<not> enil_jpeg_complete (Some w))"
proof -
  obtain t where s: "s = 0xff # 0xd8 # t" and l: "jpeg_loop False False t"
    using assms by (auto simp: enil_jpeg_complete_def split: list.splits)
  obtain p r where p: "t = p @ [0xff, 0xd9] @ r" "\<And>r'. jpeg_loop False False (p @ [0xff, 0xd9] @ r')"
    "\<And>w. strict_prefix w (p @ [0xff, 0xd9]) \<Longrightarrow> \<not> jpeg_loop False False w"
    using jpeg_loop_reads [OF l] by blast
  have "\<not> enil_jpeg_complete (Some w)" if "strict_prefix w ((0xff # 0xd8 # p) @ [0xff, 0xd9])" for w
  proof -
    consider "w = []" | "w = [0xff]" | v where "w = 0xff # 0xd8 # v" "strict_prefix v (p @ [0xff, 0xd9])"
      using \<open>strict_prefix w _\<close> by (auto simp: strict_prefix_def prefix_Cons)
    then show ?thesis using p(3) by cases (simp_all add: enil_jpeg_complete_def)
  qed
  then show ?thesis
    using p(1,2) by (intro exI [of _ "0xff # 0xd8 # p"] exI [of _ r])
      (simp add: s enil_jpeg_complete_def prefix_def)
qed

theorem enil_jpeg_complete_detects_truncation_witness:
  "\<not> enil_jpeg_complete (Some [0xff, 0xd8, 0xff, 0xda, 0, 2, 5, 0xff]) \<and>
   (\<exists>p r. [0xff, 0xd8, 0xff, 0xda, 0, 2, 5, 0xff, 0xd9, 1 :: byte] = p @ [0xff, 0xd9] @ r \<and>
     prefix [0xff, 0xd8] p)"
proof -
  have unfolded: "jpeg_loop False False [0xff, 0xda, 0, 2, 5, 0xff, 0xd9, 1]"
    "\<not> jpeg_loop False False [0xff, 0xda, 0, 2, 5, 0xff]"
    by (simp_all add: jpeg_loop.simps jpeg_round_def next_ff_def restart_marker_def)
  then have "enil_jpeg_complete (Some [0xff, 0xd8, 0xff, 0xda, 0, 2, 5, 0xff, 0xd9, 1])"
    by (simp add: enil_jpeg_complete_def)
  note accepted = enil_jpeg_complete_detects_truncation [OF this]
  have "\<not> enil_jpeg_complete (Some [0xff, 0xd8, 0xff, 0xda, 0, 2, 5, 0xff])"
    using unfolded(2) by (simp add: enil_jpeg_complete_def)
  with accepted show ?thesis by blast
qed

end
