(* ===== verification/ENIL_Thrift.thy ===== *)
theory ENIL_Thrift
  imports ENIL_Json ENIL_Base64
begin

text \<open>
  \<open>source/shared/enil_thrift.c\<close>: the adapter between JSON values and Compact Thrift bytes.

  The record \<open>thrift\<close> carries what the file uses from elsewhere: cJSON, the parsed schema, the two
  OpenSSL base64 functions and the memory image of a double.  The output buffer is the list of its
  bytes, and \<open>None\<close> a write that returned 0 (\<open>enil_thrift_encode\<close> then frees the buffer).  The
  \<open>Reader\<close> is the code's.  Both recursions end because every nested call is one level deeper and
  gives up beyond level 40; the field loop of \<open>read_struct\<close> has fuel for one round per remaining
  byte and one more, and \<open>struct_loop_enough\<close> shows that more fuel changes nothing.
\<close>

unbundle bit_operations_syntax

definition MAX_WIRE_SIZE :: nat where "MAX_WIRE_SIZE = 8388608"

record 'j thrift =
  lib :: "'j cjson"
  schema :: "'j option"
  evp_encode :: "byte list \<Rightarrow> string"
  evp_decode :: "string \<Rightarrow> byte list option"
  double_bits :: "real \<Rightarrow> 64 word"
  bits_double :: "64 word \<Rightarrow> real"

section \<open>The schema\<close>

definition array_item :: "'j thrift \<Rightarrow> 'j option \<Rightarrow> nat \<Rightarrow> 'j option" where
  "array_item T a i = (let ks = jkids (lib T) a in if i < length ks then Some (snd (ks ! i)) else None)"

definition json_string :: "'j thrift \<Rightarrow> 'j option \<Rightarrow> string" where
  "json_string T v = (case v of None \<Rightarrow> [] | Some j \<Rightarrow> if isString (lib T) j then valuestring (lib T) j else [])"

definition schema_kind :: "'j thrift \<Rightarrow> 'j option \<Rightarrow> string" where
  "schema_kind T t = json_string T (if jis (isArray (lib T)) t then array_item T t 0 else t)"

definition schema_fields :: "'j thrift \<Rightarrow> 'j option \<Rightarrow> 'j option" where
  "schema_fields T t = jget (lib T) (schema T) (json_string T t)"

text \<open>cJSON's \<open>valueint\<close>: the number saturated to an \<open>int\<close>.\<close>

definition json_int :: "'j thrift \<Rightarrow> 'j option \<Rightarrow> int" where
  "json_int T v = (case v of None \<Rightarrow> 0
     | Some j \<Rightarrow> let x = valuedouble (lib T) j in
         if of_int INT_MAX \<le> x then INT_MAX else if x \<le> of_int INT_MIN then INT_MIN else trunc x)"

definition compact_type_of :: "string \<Rightarrow> nat" where
  "compact_type_of s =
     (if s = ''bool'' then 1 else if s = ''byte'' then 3 else if s = ''i16'' then 4
      else if s = ''i32'' then 5 else if s = ''i64'' then 6 else if s = ''double'' then 7
      else if s = ''string'' \<or> s = ''binary'' then 8 else if s = ''list'' then 9
      else if s = ''set'' then 10 else if s = ''map'' then 11 else 12)"

definition compact_type :: "'j thrift \<Rightarrow> 'j option \<Rightarrow> nat" where
  "compact_type T t = compact_type_of (schema_kind T t)"

section \<open>Writing\<close>

definition append_bytes :: "byte list \<Rightarrow> byte list \<Rightarrow> byte list option" where
  "append_bytes b p =
     (if MAX_WIRE_SIZE < length p \<or> MAX_WIRE_SIZE - length p < length b then None else Some (b @ p))"

definition write_byte :: "byte list \<Rightarrow> byte \<Rightarrow> byte list option" where
  "write_byte b c = append_bytes b [c]"

function write_varint :: "byte list \<Rightarrow> 64 word \<Rightarrow> byte list option" where
  "write_varint b n =
     (let c = ucast (n AND 127) :: byte; n' = drop_bit 7 n
      in case write_byte b (c OR (if n' \<noteq> 0 then 128 else 0)) of
           None \<Rightarrow> None
         | Some b' \<Rightarrow> if n' \<noteq> 0 then write_varint b' n' else Some b')"
  by pat_completeness auto
termination
proof (relation "measure (\<lambda>(b, n). unat n)", goal_cases)
  case 1
  show ?case by simp
next
  case (2 b n c n' b')
  have "unat n' = unat n div 128"
    using 2(2) by (simp add: drop_bit_eq_div unat_div)
  moreover have "unat n' \<noteq> 0"
    using 2(4) by (simp add: unat_eq_0)
  ultimately show ?case by (simp add: div_less_dividend)
qed

declare write_varint.simps [simp del]

definition zigzag_encode :: "int \<Rightarrow> 64 word" where
  "zigzag_encode n = push_bit 1 (word_of_int n) XOR (if n < 0 then - 1 else 0)"

definition json_integer :: "'j thrift \<Rightarrow> 'j \<Rightarrow> int option" where
  "json_integer T v =
     (if isString (lib T) v
      then (case strtoll10 (valuestring (lib T) v) of
              (n, rest, erange) \<Rightarrow>
                if \<not> erange \<and> rest \<noteq> valuestring (lib T) v \<and> rest = [] then Some n else None)
      else if isNumber (lib T) v \<and> -9007199254740991 \<le> valuedouble (lib T) v \<and>
              valuedouble (lib T) v \<le> 9007199254740991
      then (let n = trunc (valuedouble (lib T) v)
            in if of_int n = valuedouble (lib T) v then Some n else None)
      else None)"

text \<open>A loop over a list that stops at the first failure.\<close>

fun each :: "('a \<Rightarrow> 's \<Rightarrow> 's option) \<Rightarrow> 'a list \<Rightarrow> 's \<Rightarrow> 's option" where
  "each f [] s = Some s"
| "each f (x # xs) s = (case f x s of None \<Rightarrow> None | Some s' \<Rightarrow> each f xs s')"

lemma each_cong [fundef_cong]:
  "xs = ys \<Longrightarrow> s = t \<Longrightarrow> (\<And>x u. x \<in> set ys \<Longrightarrow> f x u = g x u) \<Longrightarrow> each f xs s = each g ys t"
proof -
  assume "xs = ys" "s = t" "\<And>x u. x \<in> set ys \<Longrightarrow> f x u = g x u"
  then show ?thesis
    by (induction ys arbitrary: xs s t) (auto split: option.split)
qed

definition pair_byte :: "nat \<Rightarrow> nat \<Rightarrow> byte" where
  "pair_byte hi lo = push_bit 4 (word_of_nat hi) OR word_of_nat lo"

text \<open>
  \<open>write_struct T b fs v depth\<close> and \<open>write_value T b t v depth\<close>.  The state of the field loop is the
  buffer, \<open>last\<close> and \<open>index\<close>.  A field whose value is absent or null is skipped.
\<close>

function write_struct :: "'j thrift \<Rightarrow> byte list \<Rightarrow> 'j option \<Rightarrow> 'j \<Rightarrow> nat \<Rightarrow> byte list option"
  and write_value :: "'j thrift \<Rightarrow> byte list \<Rightarrow> 'j option \<Rightarrow> 'j \<Rightarrow> nat \<Rightarrow> byte list option" where
  "write_struct T b fs v depth =
     (if 40 < depth \<or> fs = None \<or> (\<not> isObject (lib T) v \<and> \<not> isArray (lib T) v) then None
      else case each (\<lambda>(k, f) (b, lst, index).
          (let id = json_int T (array_item T (Some f) 0);
               code = compact_type T (array_item T (Some f) 2);
               delta = id - lst;
               val = (if isArray (lib T) v then array_item T (Some v) index
                      else getItemCS (lib T) v (json_string T (array_item T (Some f) 1)))
           in case val of
                None \<Rightarrow> Some (b, lst, index + 1)
              | Some x \<Rightarrow>
                  if isNull (lib T) x then Some (b, lst, index + 1)
                  else if code = 1 \<and> \<not> isBool (lib T) x then None
                  else let code' = (if code = 1 then (if isTrue (lib T) x then 1 else 2) else code);
                           short = (0 < delta \<and> delta < 16)
                       in case write_byte b (pair_byte (if short then nat delta else 0) code') of
                            None \<Rightarrow> None
                          | Some b1 \<Rightarrow>
                              (case (if short then Some b1 else write_varint b1 (zigzag_encode id)) of
                                 None \<Rightarrow> None
                               | Some b2 \<Rightarrow>
                                   (case (if 2 < code' then write_value T b2 (array_item T (Some f) 2) x (depth + 1)
                                          else Some b2) of
                                      None \<Rightarrow> None
                                    | Some b3 \<Rightarrow> Some (b3, id, index + 1)))))
        (jkids (lib T) fs) (b, 0, 0 :: nat) of
             None \<Rightarrow> None
           | Some (b', _) \<Rightarrow> write_byte b' 0)"
| "write_value T b t v depth =
     (let code = compact_type T t in
      if 40 < depth then None
      else if code = 1 then
        (if isBool (lib T) v then write_byte b (if isTrue (lib T) v then 1 else 2) else None)
      else if 3 \<le> code \<and> code \<le> 6 then
        (case json_integer T v of
           None \<Rightarrow> None
         | Some n \<Rightarrow>
             if (code = 3 \<and> (n < -128 \<or> 127 < n)) \<or> (code = 4 \<and> (n < -32768 \<or> 32767 < n)) \<or>
                (code = 5 \<and> (n < INT_MIN \<or> INT_MAX < n)) then None
             else if code = 3 then write_byte b (word_of_int n)
             else write_varint b (zigzag_encode n))
      else if code = 7 then
        (if isNumber (lib T) v
         then each (\<lambda>i b. write_byte b (ucast (drop_bit (i * 8) (double_bits T (valuedouble (lib T) v)))))
                [0..<8] b
         else None)
      else if code = 8 then
        (if \<not> isString (lib T) v then None
         else if schema_kind T t \<noteq> ''binary'' then
           (let s = json_string T (Some v)
            in case write_varint b (word_of_nat (length s)) of
                 None \<Rightarrow> None
               | Some b' \<Rightarrow> append_bytes b' (bytes_of s))
         else
           (case enil_b64_decode_alloc (evp_decode T) (Some (json_string T (Some v))) of
              None \<Rightarrow> None
            | Some bytes \<Rightarrow>
                (case write_varint b (word_of_nat (length bytes)) of
                   None \<Rightarrow> None
                 | Some b' \<Rightarrow> append_bytes b' bytes)))
      else if code = 9 \<or> code = 10 then
        (let items = children (lib T) v; count = length items; ct = compact_type T (array_item T t 1)
         in if \<not> isArray (lib T) v then None
            else case write_byte b (pair_byte (if count < 15 then count else 15) ct) of
                   None \<Rightarrow> None
                 | Some b1 \<Rightarrow>
                     (case (if 15 \<le> count then write_varint b1 (word_of_nat count) else Some b1) of
                        None \<Rightarrow> None
                      | Some b2 \<Rightarrow>
                          each (\<lambda>(k, x) b. write_value T b (array_item T t 1) x (depth + 1)) items b2))
      else if code = 11 then
        (let items = children (lib T) v; count = length items
         in if \<not> isObject (lib T) v then None
            else case write_varint b (word_of_nat count) of
                   None \<Rightarrow> None
                 | Some b1 \<Rightarrow>
                     (case (if count \<noteq> 0
                            then write_byte b1 (pair_byte (compact_type T (array_item T t 1))
                                                  (compact_type T (array_item T t 2)))
                            else Some b1) of
                        None \<Rightarrow> None
                      | Some b2 \<Rightarrow>
                          each (\<lambda>(k, x) b.
                              case write_value T b (array_item T t 1) (mkString (lib T) k) (depth + 1) of
                                None \<Rightarrow> None
                              | Some b' \<Rightarrow> write_value T b' (array_item T t 2) x (depth + 1))
                            items b2))
      else write_struct T b (schema_fields T t) v (depth + 1))"
  by pat_completeness auto
termination
  by (relation "measure (\<lambda>x. case x of Inl (T, b, fs, v, d) \<Rightarrow> 42 - d | Inr (T, b, t, v, d) \<Rightarrow> 42 - d)") auto

declare write_struct.simps [simp del] write_value.simps [simp del]

text \<open>\<open>snprintf (name, 160, ...)\<close> keeps 159 characters.\<close>

definition message_name :: "string \<Rightarrow> string \<Rightarrow> string" where
  "message_name method ending = take 159 (method @ ending)"

definition enil_thrift_encode :: "'j thrift \<Rightarrow> string \<Rightarrow> 'j \<Rightarrow> byte list \<Rightarrow> byte list option" where
  "enil_thrift_encode T method args out =
     (case jget (lib T) (schema T) (message_name method ''_args'') of
        None \<Rightarrow> None
      | Some fs \<Rightarrow>
          (case write_byte out 0x82 of None \<Rightarrow> None | Some b1 \<Rightarrow>
          (case write_byte b1 0x21 of None \<Rightarrow> None | Some b2 \<Rightarrow>
          (case write_varint b2 0 of None \<Rightarrow> None | Some b3 \<Rightarrow>
          (case write_varint b3 (word_of_nat (length method)) of None \<Rightarrow> None | Some b4 \<Rightarrow>
          (case append_bytes b4 (bytes_of method) of None \<Rightarrow> None | Some b5 \<Rightarrow>
            write_struct T b5 (Some fs) args 0))))))"

section \<open>Reading\<close>

record Reader =
  r_p :: "byte list"
  r_n :: nat
  r_pos :: nat
  r_bad :: bool
  r_strict_strings :: bool

definition read_byte :: "Reader \<Rightarrow> Reader \<times> nat" where
  "read_byte r =
     (if r_n r \<le> r_pos r then (r\<lparr>r_bad := True\<rparr>, 0)
      else (r\<lparr>r_pos := r_pos r + 1\<rparr>, unat (r_p r ! r_pos r)))"

text \<open>The loop of \<open>read_varint\<close> with \<open>i\<close> bytes read into \<open>n\<close> so far.\<close>

function varint_loop :: "Reader \<Rightarrow> nat \<Rightarrow> 64 word \<Rightarrow> Reader \<times> 64 word" where
  "varint_loop r i n =
     (if i < 10 then
        (case read_byte r of
           (r1, c) \<Rightarrow>
             let r2 = (if i = 9 \<and> 1 < c then r1\<lparr>r_bad := True\<rparr> else r1);
                 n' = n OR push_bit (i * 7) (word_of_nat c AND 127)
             in if c < 128 then (r2, n') else varint_loop r2 (i + 1) n')
      else (r\<lparr>r_bad := True\<rparr>, 0))"
  by pat_completeness auto
termination
  by (relation "measure (\<lambda>(r, i, n). 10 - i)") auto

declare varint_loop.simps [simp del]

definition read_varint :: "Reader \<Rightarrow> Reader \<times> 64 word" where
  "read_varint r = varint_loop r 0 0"

definition zigzag_decode :: "64 word \<Rightarrow> int" where
  "zigzag_decode n = sint (drop_bit 1 n XOR - (n AND 1))"

definition set_bad :: "Reader \<Rightarrow> Reader" where
  "set_bad r = r\<lparr>r_bad := True\<rparr>"

text \<open>A loop that stops when the body says so (\<open>False\<close>); the number bounds the rounds.\<close>

fun rounds :: "nat \<Rightarrow> ('s \<Rightarrow> 's \<times> bool) \<Rightarrow> 's \<Rightarrow> 's" where
  "rounds 0 f s = s"
| "rounds (Suc k) f s = (case f s of (s', again) \<Rightarrow> if again then rounds k f s' else s')"

lemma rounds_cong [fundef_cong]:
  "k = l \<Longrightarrow> s = t \<Longrightarrow> (\<And>u. f u = g u) \<Longrightarrow> rounds k f s = rounds l g t"
proof -
  assume "k = l" "s = t" and "\<And>u. f u = g u"
  moreover from this(3) have "f = g" by blast
  ultimately show ?thesis by simp
qed

text \<open>The schema entry of a field number: its type and its name.\<close>

definition field_entry :: "'j thrift \<Rightarrow> 'j option \<Rightarrow> int \<Rightarrow> 'j option \<times> string option" where
  "field_entry T fs fid =
     (case find (\<lambda>(k, f). json_int T (array_item T (Some f) 0) = fid) (jkids (lib T) fs) of
        None \<Rightarrow> (None, None)
      | Some (k, f) \<Rightarrow> (array_item T (Some f) 2, Some (json_string T (array_item T (Some f) 1))))"

text \<open>\<open>snprintf ("%.0f", x)\<close>: to the nearest integer, ties to even.\<close>

definition round_half_even :: "real \<Rightarrow> int" where
  "round_half_even x =
     (let f = \<lfloor>x\<rfloor>; d = x - of_int f
      in if d < 1 / 2 then f else if 1 / 2 < d then f + 1 else if even f then f else f + 1)"

definition show_real0 :: "real \<Rightarrow> string" where
  "show_real0 x = (if x < 0 then CHR ''-'' # show_nat (nat (round_half_even (- x)))
                   else show_nat (nat (round_half_even x)))"

text \<open>The eight bytes of a double, least significant first.\<close>

fun read_double_bits :: "nat \<Rightarrow> Reader \<Rightarrow> 64 word \<Rightarrow> Reader \<times> 64 word" where
  "read_double_bits 0 r bits = (r, bits)"
| "read_double_bits (Suc k) r bits =
     (case read_byte r of
        (r', c) \<Rightarrow> read_double_bits k r' (bits OR push_bit ((7 - k) * 8) (word_of_nat c)))"

text \<open>\<open>r->n - r->pos\<close> is never negative, and so \<open>nat\<close> subtraction is the code's.\<close>

definition rest_len :: "Reader \<Rightarrow> nat" where
  "rest_len r = r_n r - r_pos r"

definition rest_bytes :: "Reader \<Rightarrow> byte list" where
  "rest_bytes r = drop (r_pos r) (r_p r)"

definition cstr_bytes :: "byte list \<Rightarrow> string" where
  "cstr_bytes p = cstr (string_of p)"

function read_struct :: "'j thrift \<Rightarrow> Reader \<Rightarrow> 'j option \<Rightarrow> nat \<Rightarrow> Reader \<times> 'j"
  and read_value :: "'j thrift \<Rightarrow> Reader \<Rightarrow> 'j option \<Rightarrow> nat \<Rightarrow> nat \<Rightarrow> bool \<Rightarrow> Reader \<times> 'j option" where
  "read_struct T r fs depth =
     (if 40 < depth then (set_bad r, mkObject (lib T))
      else case rounds (rest_len r + 1)
          (\<lambda>(r, o', lst).
             if r_bad r then ((r, o', lst), False)
             else case read_byte r of
               (r1, h) \<Rightarrow>
                 if h = 0 then ((r1, o', lst), False)
                 else case (if h div 16 \<noteq> 0 then (r1, lst + int (h div 16))
                            else case read_varint r1 of (r2, z) \<Rightarrow> (r2, wrap32 (zigzag_decode z))) of
                   (r2, fid) \<Rightarrow>
                     if fid < -32768 \<or> 32767 < fid then ((set_bad r2, o', fid), False)
                     else case field_entry T fs fid of
                       (t, name) \<Rightarrow>
                         (case read_value T r2 t (h mod 16) (depth + 1) True of
                            (r3, None) \<Rightarrow> ((set_bad r3, o', fid), False)
                          | (r3, Some v) \<Rightarrow>
                              (let nm = (case name of Some s \<Rightarrow> s | None \<Rightarrow> show_int fid)
                               in if jgeti (lib T) (Some o') nm \<noteq> None then ((set_bad r3, o', fid), False)
                                  else ((r3, addItem (lib T) o' nm v, fid), True))))
          (r, mkObject (lib T), 0) of
             (r', o', _) \<Rightarrow> (r', o'))"
| "read_value T r t code depth field =
     (if 40 < depth then (set_bad r, None)
      else if t \<noteq> None \<and> schema_kind T t \<noteq> ''_any'' \<and> code \<noteq> compact_type T t \<and>
              \<not> (compact_type T t = 1 \<and> code = 2) then (set_bad r, None)
      else if code = 1 \<or> code = 2 then
        (case (if field then (r, code) else read_byte r) of
           (r1, c) \<Rightarrow>
             (if c \<noteq> 1 \<and> c \<noteq> 2 then set_bad r1 else r1, Some (mkBool (lib T) (c = 1))))
      else if 3 \<le> code \<and> code \<le> 6 then
        (case (if code = 3 then (case read_byte r of (r1, c) \<Rightarrow> (r1, sint (word_of_nat c :: byte)))
               else (case read_varint r of (r1, z) \<Rightarrow> (r1, zigzag_decode z))) of
           (r1, n) \<Rightarrow>
             (r1, Some (if code = 6 then mkString (lib T) (show_int n) else mkNumber (lib T) (of_int n))))
      else if code = 7 then
        (case read_double_bits 8 r 0 of
           (r1, bits) \<Rightarrow> (r1, Some (mkNumber (lib T) (bits_double T bits))))
      else if code = 8 then
        (case read_varint r of
           (r1, n) \<Rightarrow>
             if rest_len r1 < unat n \<or> MAX_WIRE_SIZE < unat n then (set_bad r1, None)
             else let p = take (unat n) (rest_bytes r1); r2 = r1\<lparr>r_pos := r_pos r1 + unat n\<rparr>
                  in if schema_kind T t = ''binary''
                     then (r2, Some (mkString (lib T) (enil_b64_encode (evp_encode T) p)))
                     else if (t \<noteq> None \<or> r_strict_strings r1) \<and> 0 \<in> set p then (set_bad r1, None)
                     else (r2, Some (mkString (lib T) (cstr_bytes p))))
      else if code = 12 then
        (case read_struct T r (schema_fields T t) (depth + 1) of (r1, j) \<Rightarrow> (r1, Some j))
      else if 9 \<le> code \<and> code \<le> 11 then
        (case (if code = 11 then
                 (case read_varint r of
                    (r1, n) \<Rightarrow>
                      (case (if n \<noteq> 0 then read_byte r1 else (r1, 0)) of
                         (r2, vt) \<Rightarrow> (r2, unat n, vt div 16, vt mod 16, mkObject (lib T))))
               else
                 (case read_byte r of
                    (r1, vt) \<Rightarrow>
                      (case (if vt div 16 = 15 then read_varint r1 else (r1, word_of_nat (vt div 16))) of
                         (r2, n) \<Rightarrow> (r2, unat n, 0, vt mod 16, mkArray (lib T))))) of
           (r1, n, kt, vt, o1) \<Rightarrow>
             if 100000 < n \<or> rest_len r1 < n then (set_bad r1, Some o1)
             else
               (case rounds n
                   (\<lambda>(r, o').
                      if r_bad r then ((r, o'), False)
                      else if code = 11 then
                        (case read_value T r (array_item T t 1) kt (depth + 1) False of
                           (r2, k) \<Rightarrow>
                         (case read_value T r2 (array_item T t 2) vt (depth + 1) False of
                            (r3, v) \<Rightarrow>
                         (case (k, v) of
                            (Some k', Some v') \<Rightarrow>
                              if isString (lib T) k'
                              then ((r3, addItem (lib T) o' (json_string T (Some k')) v'), True)
                              else if isNumber (lib T) k'
                              then ((r3, addItem (lib T) o' (take 39 (show_real0 (valuedouble (lib T) k'))) v'), True)
                              else ((set_bad r3, o'), True)
                          | _ \<Rightarrow> ((set_bad r3, o'), False))))
                      else
                        (case read_value T r (array_item T t 1) vt (depth + 1) False of
                           (r3, None) \<Rightarrow> ((set_bad r3, o'), False)
                         | (r3, Some v) \<Rightarrow> ((r3, addElem (lib T) o' v), True)))
                   (r1, o1) of
                  (r', o') \<Rightarrow> (r', Some o')))
      else (set_bad r, None))"
  by pat_completeness auto
termination
  by (relation "measure (\<lambda>x. case x of Inl (T, r, fs, d) \<Rightarrow> 42 - d | Inr (T, r, t, c, d, f) \<Rightarrow> 42 - d)") auto

declare read_struct.simps [simp del] read_value.simps [simp del]

text \<open>
  \<open>raw\<close> says that the caller passed \<open>exception\<close>, which then becomes the returned flag (if the code
  gets that far; it is 0 before).
\<close>

definition decode_message ::
  "'j thrift \<Rightarrow> string \<Rightarrow> byte list option \<Rightarrow> bool \<Rightarrow> 'j option \<times> bool" where
  "decode_message T method data raw =
     (case data of
        None \<Rightarrow> (None, False)
      | Some p \<Rightarrow>
          if MAX_WIRE_SIZE < length p then (None, False)
          else
            (case read_byte \<lparr>r_p = p, r_n = length p, r_pos = 0, r_bad = False, r_strict_strings = raw\<rparr> of
               (r1, b0) \<Rightarrow>
             if b0 \<noteq> 0x82 then (None, False)
             else case read_byte r1 of
               (r2, mt) \<Rightarrow>
             if mt mod 32 \<noteq> 1 \<or> (mt div 32 \<noteq> 2 \<and> \<not> (raw \<and> mt div 32 = 3)) then (None, False)
             else let exc = (raw \<and> mt div 32 = 3) in
               case read_varint r2 of
               (r3, seq) \<Rightarrow>
             if seq \<noteq> 0 then (None, exc)
             else case read_varint r3 of
               (r4, n) \<Rightarrow>
             if unat n \<noteq> length method \<or> rest_len r4 < unat n \<or>
                take (unat n) (rest_bytes r4) \<noteq> bytes_of method then (None, exc)
             else case read_struct T (r4\<lparr>r_pos := r_pos r4 + unat n\<rparr>)
                    (if raw then None else jget (lib T) (schema T) (message_name method ''_result'')) 0 of
               (r5, j) \<Rightarrow>
             let r6 = (if r_pos r5 < r_n r5 \<and> r_n r5 - r_pos r5 = 1 \<and> r_p r5 ! r_pos r5 = 0
                       then r5\<lparr>r_pos := r_pos r5 + 1\<rparr> else r5)
             in if r_bad r6 \<or> r_pos r6 \<noteq> r_n r6 then (None, exc) else (Some j, exc)))"

definition enil_thrift_decode :: "'j thrift \<Rightarrow> string \<Rightarrow> byte list option \<Rightarrow> 'j option" where
  "enil_thrift_decode T method data = fst (decode_message T method data False)"

definition enil_thrift_decode_raw ::
  "'j thrift \<Rightarrow> string \<Rightarrow> byte list option \<Rightarrow> bool \<Rightarrow> 'j option \<times> bool" where
  "enil_thrift_decode_raw T method data exception =
     (if exception then decode_message T method data True else (None, False))"

end
