(* ===== verification/ENIL_Thrift_Reader.thy ===== *)
theory ENIL_Thrift_Reader
  imports ENIL_Thrift
begin

text \<open>
  Facts about the primitives and the reader of \<open>ENIL_Thrift\<close>: a variable-length integer is read
  back as written, zigzag coding is inverted, no read goes past the end or clears \<open>bad\<close>, and the
  field loop's fuel never runs out.
\<close>

section \<open>Variable-length integers\<close>

function varint :: "64 word \<Rightarrow> byte list" where
  "varint n =
     (if drop_bit 7 n \<noteq> 0 then (ucast (n AND 127) OR 128) # varint (drop_bit 7 n)
      else [ucast (n AND 127)])"
  by pat_completeness auto
termination
proof (relation "measure unat", goal_cases)
  case (2 n)
  have "unat (drop_bit 7 n) = unat n div 128"
    by (simp add: drop_bit_eq_div unat_div)
  moreover have "unat (drop_bit 7 n) \<noteq> 0"
    using 2 by (simp add: unat_eq_0)
  ultimately show ?case by (simp add: div_less_dividend)
qed simp

declare varint.simps [simp del]

lemma append_bytes_eq:
  "append_bytes b p = (if length b + length p \<le> MAX_WIRE_SIZE then Some (b @ p) else None)"
  by (auto simp: append_bytes_def)

lemma write_varint_eq:
  "write_varint b n = append_bytes b (varint n)"
proof (induction b n rule: write_varint.induct)
  case (1 b n)
  show ?case
  proof (cases "drop_bit 7 n = 0")
    case True
    then show ?thesis
      by (simp add: write_varint.simps [of b n] varint.simps [of n] write_byte_def Let_def split: option.split)
  next
    case False
    then have "0 < length (varint (drop_bit 7 n))" by (subst varint.simps) simp
    with False 1 [OF refl refl _ False] show ?thesis
      by (simp add: write_varint.simps [of b n] varint.simps [of n] write_byte_def append_bytes_eq Let_def)
  qed
qed

text \<open>The bytes a reader has ahead of it.\<close>

definition ahead :: "Reader \<Rightarrow> byte list \<Rightarrow> bool" where
  "ahead r bs \<longleftrightarrow> r_n r = length (r_p r) \<and> prefix bs (rest_bytes r)"

definition advance :: "Reader \<Rightarrow> nat \<Rightarrow> Reader" where
  "advance r k = r\<lparr>r_pos := r_pos r + k\<rparr>"

lemma advance_simps [simp]:
  "advance r 0 = r" "advance (advance r j) k = advance r (j + k)"
  "r_p (advance r k) = r_p r" "r_n (advance r k) = r_n r" "r_bad (advance r k) = r_bad r"
  "r_pos (advance r k) = r_pos r + k" "r_strict_strings (advance r k) = r_strict_strings r"
  by (simp_all add: advance_def add.assoc)

lemma rest_bytes_advance: "rest_bytes (advance r k) = drop k (rest_bytes r)"
  by (simp add: rest_bytes_def add.commute)

lemma ahead_append: "ahead r (a @ b) \<Longrightarrow> ahead r a \<and> ahead (advance r (length a)) b"
  by (auto simp: ahead_def rest_bytes_advance prefix_def)

lemma ahead_Cons: "ahead r (c # bs) \<Longrightarrow> ahead (advance r 1) bs"
  using ahead_append [of r "[c]" bs] by simp

lemma ahead_rest_len: "ahead r bs \<Longrightarrow> length bs \<le> rest_len r"
  by (auto simp: ahead_def rest_len_def rest_bytes_def dest: prefix_length_le)

lemma ahead_take: "ahead r (bs @ u) \<Longrightarrow> take (length bs) (rest_bytes r) = bs"
  by (auto simp: ahead_def prefix_def)

lemma read_byte_ahead: "ahead r (c # bs) \<Longrightarrow> read_byte r = (advance r 1, unat c)"
proof -
  assume a: "ahead r (c # bs)"
  then obtain t where t: "drop (r_pos r) (r_p r) = c # t" and n: "r_n r = length (r_p r)"
    by (auto simp: ahead_def rest_bytes_def prefix_def)
  from t have "r_pos r < length (r_p r)" by (metis drop_all list.discI not_le)
  moreover from this t have "r_p r ! r_pos r = c" by (simp add: nth_via_drop)
  ultimately show ?thesis by (simp add: read_byte_def n advance_def)
qed

lemma bit_nat_ge: "bit (n :: nat) k \<Longrightarrow> 2 ^ k \<le> n"
  by (metis bit_take_bit_iff less_irrefl not_le take_bit_nat_eq_self)

lemma varint_byte:
  fixes m :: "64 word"
  shows "unat (ucast (m AND 127) :: byte) < 128"
    and "128 \<le> unat (ucast (m AND 127) OR 128 :: byte)"
    and "word_of_nat (unat (ucast (m AND 127) :: byte)) AND 127 = m AND 127"
    and "word_of_nat (unat (ucast (m AND 127) OR 128 :: byte)) AND 127 = m AND 127"
proof -
  have m127: "(127 :: 64 word) = mask 7" "(127 :: byte) = mask 7" by (simp_all add: mask_eq_exp_minus_1)
  have t: "ucast (m AND 127) = (take_bit 7 (ucast m) :: byte)"
    unfolding m127 by (rule bit_eqI) (auto simp: bit_simps)
  show "unat (ucast (m AND 127) :: byte) < 128"
    unfolding t unsigned_take_bit_eq using take_bit_nat_less_exp [of 7 "unat (ucast m :: byte)"] by simp
  have "bit (ucast (m AND 127) OR 128 :: byte) 7"
    by (simp add: bit_simps)
  then have "bit (unat (ucast (m AND 127) OR 128 :: byte)) 7" by (simp add: bit_unsigned_iff)
  from bit_nat_ge [OF this] show "128 \<le> unat (ucast (m AND 127) OR 128 :: byte)" by simp
  have u: "word_of_nat (unat (x :: byte)) = (ucast x :: 64 word)" for x by simp
  have e: "bit (128 :: int) k \<longleftrightarrow> k = 7" for k
    using bit_exp_iff [where ?'a = int, of 7 k] by auto
  show "word_of_nat (unat (ucast (m AND 127) :: byte)) AND 127 = m AND 127"
    unfolding u m127 by (rule bit_eqI) (auto simp: bit_simps)
  show "word_of_nat (unat (ucast (m AND 127) OR 128 :: byte)) AND 127 = m AND 127"
    unfolding u m127 by (rule bit_eqI) (auto simp: bit_simps e)
qed

lemma varint_step:
  fixes n :: "64 word"
  shows "take_bit k n OR push_bit k (drop_bit k n AND 127) = take_bit (k + 7) n"
proof -
  have m127: "(127 :: 64 word) = mask 7" by (simp add: mask_eq_exp_minus_1)
  show ?thesis unfolding m127 by (rule bit_eqI) (auto simp: bit_simps)
qed

lemma drop_bit_big: "64 \<le> k \<Longrightarrow> drop_bit k (n :: 64 word) = 0"
  by (rule bit_eqI) (auto simp: bit_simps dest: bit_imp_le_length)

lemma varint_loop_reads:
  assumes "ahead r (varint (drop_bit (i * 7) n) @ u)" and "i < 10"
  shows "varint_loop r i (take_bit (i * 7) n) = (advance r (length (varint (drop_bit (i * 7) n))), n)"
  using assms
proof (induction "10 - i" arbitrary: r i)
  case 0
  then show ?case by simp
next
  case (Suc k)
  let ?m = "drop_bit (i * 7) n"
  have next_bits: "drop_bit 7 ?m = drop_bit ((i + 1) * 7) n" by (simp add: add.commute)
  show ?case
  proof (cases "drop_bit 7 ?m = 0")
    case True
    then have v: "varint ?m = [ucast (?m AND 127)]" by (simp add: varint.simps [of ?m])
    have rb: "read_byte r = (advance r 1, unat (ucast (?m AND 127) :: byte))"
      using Suc.prems(1) unfolding v by (intro read_byte_ahead) simp
    have all: "take_bit (i * 7 + 7) n = n"
      using bits_ident [of "i * 7 + 7" n] True next_bits by (simp add: add.commute)
    have "\<not> 1 < unat (ucast (?m AND 127) :: byte)" if "i = 9"
    proof -
      have "unat ?m = unat n div 2 ^ 63" unfolding that by (simp add: drop_bit_eq_div unat_div)
      moreover have "unat n < 2 ^ 64" using unsigned_less [of n, where ?'a = nat] by simp
      ultimately have "unat ?m < 2" by (simp add: div_less_iff_less_mult)
      then have "unat ?m = unat (0 :: 64 word) \<or> unat ?m = unat (1 :: 64 word)" by auto
      then have "?m = 0 \<or> ?m = 1" by (simp only: word_unat_eq_iff)
      then show ?thesis by auto
    qed
    moreover have "take_bit (i * 7) n OR push_bit (i * 7)
        (word_of_nat (unat (ucast (?m AND 127) :: byte)) AND 127) = n"
      unfolding varint_byte(3) varint_step by (rule all)
    ultimately show ?thesis
      unfolding v varint_loop.simps [of r] rb using Suc.prems(2) varint_byte(1) [of ?m]
      by (auto simp: Let_def)
  next
    case False
    then have v: "varint ?m = (ucast (?m AND 127) OR 128) # varint (drop_bit ((i + 1) * 7) n)"
      by (subst varint.simps) (simp only: next_bits simp_thms if_True)
    have i: "i < 9"
    proof (rule ccontr)
      assume "\<not> i < 9"
      then have "drop_bit ((i + 1) * 7) n = 0" by (intro drop_bit_big) simp
      with False next_bits show False by simp
    qed
    note a = Suc.prems(1) [unfolded v append_Cons]
    have "varint_loop (advance r 1) (i + 1) (take_bit ((i + 1) * 7) n) =
        (advance (advance r 1) (length (varint (drop_bit ((i + 1) * 7) n))), n)"
      by (rule Suc.hyps(1)) (use Suc.hyps(2) i ahead_Cons [OF a] in simp_all)
    moreover have "take_bit (i * 7) n OR push_bit (i * 7)
        (word_of_nat (unat (ucast (?m AND 127) OR 128 :: byte)) AND 127) = take_bit ((i + 1) * 7) n"
      unfolding varint_byte(4) varint_step by (simp add: add.commute)
    ultimately show ?thesis
      unfolding v varint_loop.simps [of r] read_byte_ahead [OF a]
      using i varint_byte(2) [of ?m] by (simp add: Let_def)
  qed
qed

lemma read_varint_reads:
  "ahead r (varint n @ u) \<Longrightarrow> read_varint r = (advance r (length (varint n)), n)"
  using varint_loop_reads [of r 0 n u] by (simp add: read_varint_def)

lemma zigzag_word:
  fixes w :: "64 word"
  defines "z \<equiv> push_bit 1 w XOR (if bit w 63 then - 1 else 0)"
  shows "drop_bit 1 z XOR - (z AND 1) = w"
proof -
  define p where "p = push_bit 1 w"
  have p: "bit p j \<longleftrightarrow> 1 \<le> j \<and> j < 64 \<and> bit w (j - 1)" for j
    unfolding p_def by (simp only: bit_push_bit_iff) (simp add: bit_simps)
  have e: "even p" using p [of 0] by (simp add: bit_0)
  have m: "- (z AND 1) = (if bit w 63 then - 1 else 0)"
    using e unfolding z_def p_def [symmetric] by (simp add: and_one_eq mod_2_eq_odd even_xor_iff)
  show ?thesis
  proof (rule bit_word_eqI)
    fix k assume k: "k < LENGTH(64)"
    show "bit (drop_bit 1 z XOR - (z AND 1)) k = bit w k"
      unfolding m unfolding z_def p_def [symmetric]
      using k p [of "Suc k"] by (cases "k = 63") (auto simp: bit_simps)
  qed
qed

lemma zigzag_decode_encode:
  assumes "LLONG_MIN \<le> n" and "n \<le> LLONG_MAX"
  shows "zigzag_decode (zigzag_encode n) = n"
proof -
  let ?w = "word_of_int n :: 64 word"
  have s: "sint ?w = n"
    using assms by (simp add: sint_sbintrunc' signed_take_bit_int_eq_self LLONG_MIN_def LLONG_MAX_def)
  then have "bit ?w 63 \<longleftrightarrow> n < 0"
    using bit_last_iff [of ?w] by simp
  then show ?thesis
    using zigzag_word [of ?w] s by (simp only: zigzag_encode_def zigzag_decode_def)
qed

section \<open>The reader's invariant\<close>

text \<open>How a reader may change: only forward, never past the end, and bad stays bad.\<close>

definition later :: "Reader \<Rightarrow> Reader \<Rightarrow> bool" where
  "later r r' \<longleftrightarrow> r_p r' = r_p r \<and> r_n r' = r_n r \<and> r_strict_strings r' = r_strict_strings r \<and>
     r_pos r \<le> r_pos r' \<and> (r_pos r \<le> r_n r \<longrightarrow> r_pos r' \<le> r_n r) \<and> (r_bad r \<longrightarrow> r_bad r')"

lemma later_refl [simp, intro]: "later r r"
  by (simp add: later_def)

lemma later_trans [trans]: "later r s \<Longrightarrow> later s t \<Longrightarrow> later r t"
  by (auto simp: later_def)

lemma later_set_bad [simp]: "later r (set_bad s) \<longleftrightarrow> later r (s\<lparr>r_bad := True\<rparr>)"
  by (simp add: set_bad_def)

lemma later_bad [intro]: "later r s \<Longrightarrow> later r (s\<lparr>r_bad := True\<rparr>)"
  by (auto simp: later_def)

lemma later_bad_self [simp]: "later r (r\<lparr>r_bad := True\<rparr>)"
  by (rule later_bad) simp

lemma later_skip [intro]: "later r s \<Longrightarrow> k \<le> rest_len s \<Longrightarrow> later r (s\<lparr>r_pos := r_pos s + k\<rparr>)"
  by (auto simp: later_def rest_len_def)

lemma read_byte_later: "read_byte r = (r', c) \<Longrightarrow> later r r'"
  by (auto simp: read_byte_def later_def split: if_splits)

lemma varint_loop_later: "varint_loop r i n = (r', m) \<Longrightarrow> later r r'"
proof (induction r i n rule: varint_loop.induct)
  case (1 r i n)
  obtain r1 c where rb: "read_byte r = (r1, c)" by force
  then have l: "later r r1" "later r (r1\<lparr>r_bad := True\<rparr>)" by (auto dest: read_byte_later)
  show ?case
    using "1.prems" "1.IH" [OF _ rb [symmetric] refl refl] l
    by (subst (asm) varint_loop.simps) (auto simp: rb Let_def split: if_splits intro: later_trans)
qed

lemma read_varint_later: "read_varint r = (r', m) \<Longrightarrow> later r r'"
  by (auto simp: read_varint_def dest: varint_loop_later)

lemma read_double_bits_later: "read_double_bits k r b = (r', m) \<Longrightarrow> later r r'"
  by (induction k r b rule: read_double_bits.induct)
    (auto split: prod.splits dest!: read_byte_later intro: later_trans)

lemma rounds_inv: "I s \<Longrightarrow> (\<And>u. I u \<Longrightarrow> I (fst (f u))) \<Longrightarrow> I (rounds k f s)"
proof (induction k arbitrary: s)
  case (Suc k)
  then show ?case using Suc.prems(2) [of s] by (cases "f s") auto
qed simp

lemma later_byte_value:
  "(if c then (r, x) else read_byte r) = (r', y) \<Longrightarrow> later r r'"
  "(if c then read_byte r else (r, x)) = (r', y) \<Longrightarrow> later r r'"
  "(if c then read_varint r else (r, z)) = (r', w) \<Longrightarrow> later r r'"
  by (auto split: if_splits dest: read_byte_later read_varint_later)

lemmas later_reads = read_byte_later read_varint_later read_double_bits_later later_byte_value

text \<open>One round of the two loops, as the code runs it.\<close>

definition struct_round ::
  "'j thrift \<Rightarrow> 'j option \<Rightarrow> nat \<Rightarrow> Reader \<times> 'j \<times> int \<Rightarrow> (Reader \<times> 'j \<times> int) \<times> bool" where
  "struct_round T fs depth = (\<lambda>(r, o', lst).
             if r_bad r then ((r, o', lst), False)
             else case read_byte r of
               (r1, h) \<Rightarrow>
                 if h = 0 then ((r1, o', lst), False)
                 else case (if h div 16 \<noteq> 0 then (r1, lst + int (h div 16))
                            else case read_varint r1 of (r2, z) \<Rightarrow> (r2, wrap32 (zigzag_decode z))) of
                   (r2, fid) \<Rightarrow>
                     if fid < -32768 \<or> 32767 < fid then ((set_bad r2, o', fid), False)
                     else case field_entry T fs fid of
                       (t, name) \<Rightarrow>
                         (case read_value T r2 t (h mod 16) (depth + 1) True of
                            (r3, None) \<Rightarrow> ((set_bad r3, o', fid), False)
                          | (r3, Some v) \<Rightarrow>
                              (let nm = (case name of Some s \<Rightarrow> s | None \<Rightarrow> show_int fid)
                               in if jgeti (lib T) (Some o') nm \<noteq> None then ((set_bad r3, o', fid), False)
                                  else ((r3, addItem (lib T) o' nm v, fid), True))))"

definition items_round ::
  "'j thrift \<Rightarrow> 'j option \<Rightarrow> nat \<Rightarrow> nat \<Rightarrow> nat \<Rightarrow> nat \<Rightarrow> Reader \<times> 'j \<Rightarrow> (Reader \<times> 'j) \<times> bool" where
  "items_round T t code kt vt depth = (\<lambda>(r, o').
                      if r_bad r then ((r, o'), False)
                      else if code = 11 then
                        (case read_value T r (array_item T t 1) kt (depth + 1) False of
                           (r2, k) \<Rightarrow>
                         (case read_value T r2 (array_item T t 2) vt (depth + 1) False of
                            (r3, v) \<Rightarrow>
                         (case (k, v) of
                            (Some k', Some v') \<Rightarrow>
                              if isString (lib T) k'
                              then ((r3, addItem (lib T) o' (json_string T (Some k')) v'), True)
                              else if isNumber (lib T) k'
                              then ((r3, addItem (lib T) o' (take 39 (show_real0 (valuedouble (lib T) k'))) v'), True)
                              else ((set_bad r3, o'), True)
                          | _ \<Rightarrow> ((set_bad r3, o'), False))))
                      else
                        (case read_value T r (array_item T t 1) vt (depth + 1) False of
                           (r3, None) \<Rightarrow> ((set_bad r3, o'), False)
                         | (r3, Some v) \<Rightarrow> ((r3, addElem (lib T) o' v), True)))"

lemma read_struct_eq:
  "read_struct T r fs depth =
     (if 40 < depth then (set_bad r, mkObject (lib T))
      else case rounds (rest_len r + 1) (struct_round T fs depth) (r, mkObject (lib T), 0) of
             (r', o', _) \<Rightarrow> (r', o'))"
  unfolding struct_round_def by (rule read_struct.simps)

lemma struct_round_later:
  assumes "\<And>r t code field r' v. read_value T r t code (depth + 1) field = (r', v) \<Longrightarrow> later r r'"
  shows "later (fst u) (fst (fst (struct_round T fs depth u)))"
proof (cases u)
  case (fields r o' lst)
  obtain r1 h where rb: "read_byte r = (r1, h)" by force
  obtain r2 fid where rf: "(if h div 16 \<noteq> 0 then (r1, lst + int (h div 16))
      else case read_varint r1 of (r2, z) \<Rightarrow> (r2, wrap32 (zigzag_decode z))) = (r2, fid)" by force
  obtain t name where fe: "field_entry T fs fid = (t, name)" by force
  obtain r3 v where rv: "read_value T r2 t (h mod 16) (depth + 1) True = (r3, v)" by force
  have 1: "later r r1" using rb by (rule read_byte_later)
  have 2: "later r r2"
    using 1 rf by (auto split: if_splits prod.splits dest: read_varint_later intro: later_trans)
  have "later r r3" using 2 assms [OF rv] by (rule later_trans)
  with 1 2 show ?thesis
    unfolding fields struct_round_def
    by (auto simp: rb rf [simplified] fe rv [simplified] Let_def split: option.split)
qed

lemma items_round_later:
  assumes "\<And>r t code field r' v. read_value T r t code (depth + 1) field = (r', v) \<Longrightarrow> later r r'"
  shows "later (fst u) (fst (fst (items_round T t code kt vt depth u)))"
proof (cases u)
  case (Pair r o')
  obtain r2 k where k: "read_value T r (array_item T t 1) kt (depth + 1) False = (r2, k)" by force
  obtain r3 v where v: "read_value T r2 (array_item T t 2) vt (depth + 1) False = (r3, v)" by force
  obtain r4 w where w: "read_value T r (array_item T t 1) vt (depth + 1) False = (r4, w)" by force
  have "later r r3" using assms [OF k] assms [OF v] by (rule later_trans)
  with assms [OF w] show ?thesis
    unfolding Pair items_round_def by (auto simp: k [simplified] v [simplified] w [simplified] split: option.split)
qed

lemma rounds_later:
  assumes "\<And>u. later (fst u) (fst (fst (f u)))"
  shows "later (fst s) (fst (rounds k f s))"
  by (rule rounds_inv) (auto intro: later_trans assms)

text \<open>The header of a list, set or map: the count and the types of its items.\<close>

definition items_head :: "'j thrift \<Rightarrow> Reader \<Rightarrow> nat \<Rightarrow> Reader \<times> nat \<times> nat \<times> nat \<times> 'j" where
  "items_head T r code =
     (if code = 11 then
        (case read_varint r of
           (r1, n) \<Rightarrow>
             (case (if n \<noteq> 0 then read_byte r1 else (r1, 0)) of
                (r2, vt) \<Rightarrow> (r2, unat n, vt div 16, vt mod 16, mkObject (lib T))))
      else
        (case read_byte r of
           (r1, vt) \<Rightarrow>
             (case (if vt div 16 = 15 then read_varint r1 else (r1, word_of_nat (vt div 16))) of
                (r2, n) \<Rightarrow> (r2, unat n, 0, vt mod 16, mkArray (lib T)))))"

lemma items_head_later: "items_head T r code = (r', x) \<Longrightarrow> later r r'"
  by (auto simp: items_head_def split: if_splits prod.splits dest!: later_reads intro: later_trans)

definition type_agrees :: "'j thrift \<Rightarrow> 'j option \<Rightarrow> nat \<Rightarrow> bool" where
  "type_agrees T t code \<longleftrightarrow>
     \<not> (t \<noteq> None \<and> schema_kind T t \<noteq> ''_any'' \<and> code \<noteq> compact_type T t \<and>
        \<not> (compact_type T t = 1 \<and> code = 2))"

text \<open>\<open>read_value\<close>, one equation per branch.\<close>

lemma read_value_refuses:
  "40 < depth \<or> \<not> type_agrees T t code \<or> code = 0 \<or> 12 < code \<Longrightarrow>
   read_value T r t code depth field = (set_bad r, None)"
  by (subst read_value.simps) (auto simp: type_agrees_def)

lemma read_value_bool:
  assumes "\<not> 40 < depth" and "type_agrees T t code" and "code = 1 \<or> code = 2"
  shows "read_value T r t code depth field =
      (case (if field then (r, code) else read_byte r) of
         (r1, c) \<Rightarrow> (if c \<noteq> 1 \<and> c \<noteq> 2 then set_bad r1 else r1, Some (mkBool (lib T) (c = 1))))"
  using assms(3) unfolding read_value.simps [of T r t code depth field]
    if_not_P [OF assms(1)] if_not_P [OF assms(2) [unfolded type_agrees_def]] by (simp only: if_True)

lemma read_value_int:
  assumes "\<not> 40 < depth" and "type_agrees T t code" and "3 \<le> code \<and> code \<le> 6"
  shows "read_value T r t code depth field =
      (case (if code = 3 then (case read_byte r of (r1, c) \<Rightarrow> (r1, sint (word_of_nat c :: byte)))
             else (case read_varint r of (r1, z) \<Rightarrow> (r1, zigzag_decode z))) of
         (r1, n) \<Rightarrow>
           (r1, Some (if code = 6 then mkString (lib T) (show_int n) else mkNumber (lib T) (of_int n))))"
proof -
  have c: "\<not> (code = 1 \<or> code = 2)" using assms(3) by auto
  show ?thesis
    unfolding read_value.simps [of T r t code depth field] if_not_P [OF assms(1)]
      if_not_P [OF assms(2) [unfolded type_agrees_def]] if_not_P [OF c] if_P [OF assms(3)] ..
qed

lemma read_value_other:
  assumes "\<not> 40 < depth" and "type_agrees T t code" and "7 \<le> code"
  shows "read_value T r t code depth field =
      (if code = 7 then
         (case read_double_bits 8 r 0 of (r1, bits) \<Rightarrow> (r1, Some (mkNumber (lib T) (bits_double T bits))))
       else if code = 8 then
        (case read_varint r of
         (r1, n) \<Rightarrow>
           if rest_len r1 < unat n \<or> MAX_WIRE_SIZE < unat n then (set_bad r1, None)
           else let p = take (unat n) (rest_bytes r1); r2 = r1\<lparr>r_pos := r_pos r1 + unat n\<rparr>
                in if schema_kind T t = ''binary''
                   then (r2, Some (mkString (lib T) (enil_b64_encode (evp_encode T) p)))
                   else if (t \<noteq> None \<or> r_strict_strings r1) \<and> 0 \<in> set p then (set_bad r1, None)
                   else (r2, Some (mkString (lib T) (cstr_bytes p))))
       else if code = 12 then
         (case read_struct T r (schema_fields T t) (depth + 1) of (r1, j) \<Rightarrow> (r1, Some j))
       else if 9 \<le> code \<and> code \<le> 11 then
         (case items_head T r code of
            (r1, n, kt, vt, o1) \<Rightarrow>
              if 100000 < n \<or> rest_len r1 < n then (set_bad r1, Some o1)
              else (case rounds n (items_round T t code kt vt depth) (r1, o1) of (r', o') \<Rightarrow> (r', Some o')))
       else (set_bad r, None))"
proof -
  have c: "\<not> (code = 1 \<or> code = 2)" "\<not> (3 \<le> code \<and> code \<le> 6)" using assms(3) by auto
  show ?thesis
    unfolding read_value.simps [of T r t code depth field] if_not_P [OF assms(1)]
      if_not_P [OF assms(2) [unfolded type_agrees_def]] if_not_P [OF c(1)] if_not_P [OF c(2)]
      items_head_def items_round_def ..
qed

lemma read_later:
  "later r (fst (read_struct T r fs depth)) \<and> later r (fst (read_value T r t code depth field))"
proof (induction "42 - depth" arbitrary: depth r fs t code field rule: less_induct)
  case less
  have IH: "depth \<le> 40 \<Longrightarrow> read_value T r t code (depth + 1) field = (r', v) \<Longrightarrow> later r r'"
    "depth \<le> 40 \<Longrightarrow> read_struct T r fs (depth + 1) = (r', j) \<Longrightarrow> later r r'"
    for r r' t code field v fs j
    using less [of "depth + 1" r fs t code field] by auto
  have "later r (fst (read_struct T r fs depth))"
  proof (cases "40 < depth")
    case False
    then have d: "depth \<le> 40" by simp
    have "later (fst (r, mkObject (lib T), 0 :: int))
        (fst (rounds (rest_len r + 1) (struct_round T fs depth) (r, mkObject (lib T), 0)))"
      by (rule rounds_later, rule struct_round_later, rule IH(1) [OF d])
    with False show ?thesis by (auto simp: read_struct_eq split: prod.splits)
  qed (auto simp: read_struct_eq)
  moreover have "later r (fst (read_value T r t code depth field))"
  proof (cases "40 < depth \<or> \<not> type_agrees T t code \<or> code = 0")
    case True
    then show ?thesis using read_value_refuses [of depth T t code] by auto
  next
    case False
    then have ok: "\<not> 40 < depth" "type_agrees T t code" and d: "depth \<le> 40" by auto
    have items: "later r1 (fst (rounds n (items_round T t code kt vt depth) (r1, o1)))" for r1 o1 n kt vt
      using rounds_later [of "items_round T t code kt vt depth" "(r1, o1)"]
        items_round_later [of T depth] IH(1) [OF d] by simp
    consider "code = 1 \<or> code = 2" | "3 \<le> code \<and> code \<le> 6" | "7 \<le> code"
      using False by fastforce
    then show ?thesis
    proof cases
      case 1
      show ?thesis
        unfolding read_value_bool [OF ok 1]
        by (auto split: prod.splits dest: later_reads)
    next
      case 2
      show ?thesis
        unfolding read_value_int [OF ok 2]
        by (auto split: prod.splits if_splits dest: later_reads)
    next
      case 3
      obtain r1 j where st: "read_struct T r (schema_fields T t) (depth + 1) = (r1, j)" by force
      obtain r2 n where vi: "read_varint r = (r2, n)" by force
      obtain r3 bits where db: "read_double_bits 8 r 0 = (r3, bits)" by force
      obtain r4 c kt vt o1 where hd: "items_head T r code = (r4, c, kt, vt, o1)"
        by (rule prod_cases5)
      obtain r5 o2 where ro: "rounds c (items_round T t code kt vt depth) (r4, o1) = (r5, o2)" by force
      have "later r r1" "later r r2" "later r r3" "later r r4" "later r4 r5"
        using IH(2) [OF d st] read_varint_later [OF vi] read_double_bits_later [OF db]
          items_head_later [OF hd] items [of r4 c kt vt o1] by (simp_all add: ro)
      moreover from this have "later r r5" by (blast intro: later_trans)
      ultimately show ?thesis
        unfolding read_value_other [OF ok 3] st vi db hd ro prod.case Let_def
        by (auto simp: not_less)
    qed
  qed
  ultimately show ?case ..
qed

lemma read_value_later: "read_value T r t code depth field = (r', v) \<Longrightarrow> later r r'"
  using read_later [THEN conjunct2, of r T t code depth field] by (simp only: fst_conv)

lemma read_struct_later: "read_struct T r fs depth = (r', j) \<Longrightarrow> later r r'"
  using read_later [THEN conjunct1, of r T fs depth] by (simp only: fst_conv)

section \<open>Fuel\<close>

lemma rounds_stops:
  fixes mu :: "'s \<Rightarrow> nat"
  assumes "\<And>u. snd (f u) \<Longrightarrow> mu (fst (f u)) < mu u" and "mu s < k"
  shows "\<exists>u. f u = (rounds k f s, False)"
  using assms(2)
proof (induction k arbitrary: s)
  case (Suc k)
  obtain s' b where f: "f s = (s', b)" by force
  show ?case
  proof (cases b)
    case True
    with f assms(1) [of s] Suc.prems have "mu s' < k" by simp
    with Suc.IH f True show ?thesis by simp
  next
    case False
    with f show ?thesis by (intro exI [of _ s]) simp
  qed
qed simp

lemma rounds_enough:
  fixes mu :: "'s \<Rightarrow> nat"
  assumes "\<And>u. snd (f u) \<Longrightarrow> mu (fst (f u)) < mu u" and "mu s < k" and "mu s < l"
  shows "rounds k f s = rounds l f s"
  using assms(2,3)
proof (induction k arbitrary: s l)
  case (Suc k)
  then obtain m where l: "l = Suc m" by (cases l) auto
  obtain s' b where f: "f s = (s', b)" by force
  show ?case
  proof (cases b)
    case True
    with f assms(1) [of s] Suc.prems l have "mu s' < k" "mu s' < m" by simp_all
    then have "rounds k f s' = rounds m f s'" by (rule Suc.IH)
    with f True l show ?thesis by simp
  next
    case False
    with f l show ?thesis by simp
  qed
qed simp

text \<open>A round of the field loop that goes on has read at least the field's header byte.\<close>

lemma struct_round_reads:
  assumes "snd (struct_round T fs depth u)"
  shows "rest_len (fst (fst (struct_round T fs depth u))) < rest_len (fst u)"
proof (cases u)
  case (fields r o' lst)
  obtain r1 h where rb: "read_byte r = (r1, h)" by force
  obtain r2 fid where rf: "(if h div 16 \<noteq> 0 then (r1, lst + int (h div 16))
      else case read_varint r1 of (r2, z) \<Rightarrow> (r2, wrap32 (zigzag_decode z))) = (r2, fid)" by force
  obtain t name where fe: "field_entry T fs fid = (t, name)" by force
  obtain r3 v where rv: "read_value T r2 t (h mod 16) (depth + 1) True = (r3, v)" by force
  have 2: "later r1 r2"
    using rf by (auto split: if_splits prod.splits dest: read_varint_later)
  have 3: "later r1 r3" using 2 read_value_later [OF rv] by (rule later_trans)
  have sr: "struct_round T fs depth u = (if r_bad r then ((r, o', lst), False)
      else if h = 0 then ((r1, o', lst), False)
      else if fid < - 32768 \<or> 32767 < fid then ((set_bad r2, o', fid), False)
      else case v of None \<Rightarrow> ((set_bad r3, o', fid), False)
        | Some v \<Rightarrow> (let nm = (case name of Some s \<Rightarrow> s | None \<Rightarrow> show_int fid)
            in if jgeti (lib T) (Some o') nm \<noteq> None then ((set_bad r3, o', fid), False)
               else ((r3, addItem (lib T) o' nm v, fid), True)))"
    unfolding fields struct_round_def prod.case rb rf fe rv by (rule refl)
  have go: "h \<noteq> 0" and res: "fst (fst (struct_round T fs depth u)) = r3"
    using assms unfolding sr Let_def by (auto split: option.splits if_splits)
  from go rb have "r_pos r < r_n r" "r1 = r\<lparr>r_pos := r_pos r + 1\<rparr>"
    by (auto simp: read_byte_def split: if_splits)
  with 3 show ?thesis
    unfolding res by (auto simp: fields rest_len_def later_def)
qed

lemma struct_loop_enough:
  "rest_len r < k \<Longrightarrow>
   rounds k (struct_round T fs depth) (r, j, i) = rounds (rest_len r + 1) (struct_round T fs depth) (r, j, i)"
  by (rule rounds_enough [where mu = "\<lambda>u. rest_len (fst u)"]) (auto dest: struct_round_reads)

section \<open>Properties\<close>

text \<open>A signed 64-bit integer written as a zigzag varint is read back unchanged wherever it stands
  in a message, and the reader moves exactly past it.\<close>

theorem enil_thrift_integer_roundtrip:
  assumes "write_varint b (zigzag_encode n) = Some b'" and "LLONG_MIN \<le> n" and "n \<le> LLONG_MAX"
  shows "\<exists>z. read_varint \<lparr>r_p = b' @ u, r_n = length (b' @ u), r_pos = length b, r_bad = False,
        r_strict_strings = s\<rparr> =
      (\<lparr>r_p = b' @ u, r_n = length (b' @ u), r_pos = length b', r_bad = False, r_strict_strings = s\<rparr>, z) \<and>
    zigzag_decode z = n"
proof -
  let ?v = "varint (zigzag_encode n)"
  let ?r = "\<lparr>r_p = b' @ u, r_n = length (b' @ u), r_pos = length b, r_bad = False, r_strict_strings = s\<rparr>"
  have b': "b' = b @ ?v"
    using assms(1) by (simp add: write_varint_eq append_bytes_eq split: if_splits)
  then have "ahead ?r (?v @ u)" by (simp add: ahead_def rest_bytes_def)
  from read_varint_reads [OF this] have "read_varint ?r = (advance ?r (length ?v), zigzag_encode n)" .
  with zigzag_decode_encode [OF assms(2,3)] b' show ?thesis by (simp add: advance_def)
qed

theorem enil_thrift_integer_roundtrip_witness:
  "\<exists>z. read_varint \<lparr>r_p = [7, 1, 0], r_n = 3, r_pos = 1, r_bad = False, r_strict_strings = True\<rparr> =
      (\<lparr>r_p = [7, 1, 0], r_n = 3, r_pos = 2, r_bad = False, r_strict_strings = True\<rparr>, z) \<and>
    zigzag_decode z = - 1"
proof -
  have "write_varint [7] (zigzag_encode (- 1)) = Some [7, 1]"
    by (simp add: write_varint.simps zigzag_encode_def write_byte_def append_bytes_def MAX_WIRE_SIZE_def)
  from enil_thrift_integer_roundtrip [OF this, of "[0]" True] show ?thesis
    by (simp add: LLONG_MIN_def LLONG_MAX_def numeral_2_eq_2 numeral_3_eq_3)
qed

text \<open>C16: Decoding is memory safe: whatever bytes arrive and whatever the schema says, the reader never
  leaves the message (\<open>pos\<close> stays at most \<open>n\<close>, and only grows), never changes the message, and an
  error once noted is never forgotten.\<close>

theorem enil_thrift_reader_bounded:
  assumes "r_pos r \<le> r_n r" and "read_struct T r fs depth = (r', j)"
  shows "r_pos r' \<le> r_n r' \<and> r_pos r \<le> r_pos r' \<and> r_p r' = r_p r \<and> r_n r' = r_n r \<and> (r_bad r \<longrightarrow> r_bad r')"
  using read_struct_later [OF assms(2)] assms(1) by (auto simp: later_def)

theorem enil_thrift_reader_bounded_witness:
  "r_bad (fst (read_struct \<lparr>lib = tree (\<lambda>s. None) (\<lambda>j. []), schema = None, evp_encode = rfc_encode,
      evp_decode = rfc_decode, double_bits = (\<lambda>x. 0), bits_double = (\<lambda>b. 0)\<rparr>
    \<lparr>r_p = [0x18], r_n = 1, r_pos = 0, r_bad = True, r_strict_strings = True\<rparr> None 0))"
proof -
  let ?T = "\<lparr>lib = tree (\<lambda>s. None) (\<lambda>j. []), schema = None, evp_encode = rfc_encode,
      evp_decode = rfc_decode, double_bits = (\<lambda>x. 0), bits_double = (\<lambda>b. 0)\<rparr>"
  let ?r = "\<lparr>r_p = [0x18], r_n = 1, r_pos = 0, r_bad = True, r_strict_strings = True\<rparr>"
  obtain r' j where rd: "read_struct ?T ?r None 0 = (r', j)" by force
  have "r_pos ?r \<le> r_n ?r" by simp
  from enil_thrift_reader_bounded [OF this rd] show ?thesis unfolding rd by simp
qed

text \<open>The field loop of \<open>read_struct\<close> always ends by itself: with one round for each remaining byte
  and one more it stops at a round that says so, and no larger bound would change the result.\<close>

theorem enil_thrift_struct_loop_ends:
  "(\<exists>u. struct_round T fs depth u =
       (rounds (rest_len r + 1) (struct_round T fs depth) (r, o', lst), False)) \<and>
   rounds (rest_len r + 1 + k) (struct_round T fs depth) (r, o', lst) =
   rounds (rest_len r + 1) (struct_round T fs depth) (r, o', lst)"
proof (rule conjI)
  show "\<exists>u. struct_round T fs depth u =
       (rounds (rest_len r + 1) (struct_round T fs depth) (r, o', lst), False)"
    by (rule rounds_stops [where mu = "\<lambda>u. rest_len (fst u)"]) (auto dest: struct_round_reads)
  show "rounds (rest_len r + 1 + k) (struct_round T fs depth) (r, o', lst) =
      rounds (rest_len r + 1) (struct_round T fs depth) (r, o', lst)"
    by (rule struct_loop_enough) simp
qed

end
