(* ===== verification/ENIL_Thrift_Roundtrip.thy ===== *)
theory ENIL_Thrift_Roundtrip
  imports ENIL_Thrift_Reader
begin

text \<open>
  What \<open>write_struct\<close>/\<open>write_value\<close> write, \<open>read_struct\<close>/\<open>read_value\<close> read back: for JSON trees, any
  schema and any OpenSSL base64 that behaves as documented.
\<close>

section \<open>Round trips\<close>

text \<open>
  The values the adapter is meant for, at nesting level \<open>d\<close>: what each schema type expects, with
  \<open>i64\<close> as decimal text, binary as base64, and an object's members in schema order.
\<close>

definition entry_id :: "'j thrift \<Rightarrow> string \<times> 'j \<Rightarrow> int" where
  "entry_id T e = json_int T (array_item T (Some (snd e)) 0)"

definition entry_name :: "'j thrift \<Rightarrow> string \<times> 'j \<Rightarrow> string" where
  "entry_name T e = json_string T (array_item T (Some (snd e)) 1)"

definition entry_type :: "'j thrift \<Rightarrow> string \<times> 'j \<Rightarrow> 'j option" where
  "entry_type T e = array_item T (Some (snd e)) 2"

definition picked :: "'j thrift \<Rightarrow> (string \<times> json) list \<Rightarrow> (string \<times> 'j) list \<Rightarrow> (string \<times> json) list" where
  "picked T kvs fl = concat (map (\<lambda>e. case map_of kvs (entry_name T e) of
      None \<Rightarrow> [] | Some x \<Rightarrow> [(entry_name T e, x)]) fl)"

definition fields_ok :: "'j thrift \<Rightarrow> (string \<times> 'j) list \<Rightarrow> bool" where
  "fields_ok T fl \<longleftrightarrow> distinct (map (entry_id T) fl) \<and>
     distinct (map (\<lambda>e. map lower_char (entry_name T e)) fl) \<and>
     (\<forall>e \<in> set fl. -32768 \<le> entry_id T e \<and> entry_id T e \<le> 32767)"

inductive wire :: "json thrift \<Rightarrow> nat \<Rightarrow> json option \<Rightarrow> json \<Rightarrow> bool" for T where
  wire_bool: "d \<le> 40 \<Longrightarrow> compact_type T t = 1 \<Longrightarrow> wire T d t (JBool b)"
| wire_int: "d \<le> 40 \<Longrightarrow>
    (compact_type T t = 3 \<and> -128 \<le> n \<and> n \<le> 127) \<or> (compact_type T t = 4 \<and> -32768 \<le> n \<and> n \<le> 32767) \<or>
    (compact_type T t = 5 \<and> INT_MIN \<le> n \<and> n \<le> INT_MAX) \<Longrightarrow> wire T d t (JNum (of_int n))"
| wire_i64: "d \<le> 40 \<Longrightarrow> compact_type T t = 6 \<Longrightarrow> LLONG_MIN \<le> n \<Longrightarrow> n \<le> LLONG_MAX \<Longrightarrow>
    wire T d t (JStr (show_int n))"
| wire_double: "d \<le> 40 \<Longrightarrow> compact_type T t = 7 \<Longrightarrow> bits_double T (double_bits T x) = x \<Longrightarrow>
    wire T d t (JNum x)"
| wire_string: "d \<le> 40 \<Longrightarrow> compact_type T t = 8 \<Longrightarrow> schema_kind T t \<noteq> ''binary'' \<Longrightarrow> no_nul s \<Longrightarrow>
    wire T d t (JStr s)"
| wire_binary: "d \<le> 40 \<Longrightarrow> schema_kind T t = ''binary'' \<Longrightarrow> wire T d t (JStr (evp_encode T bytes))"
| wire_list: "d \<le> 40 \<Longrightarrow> compact_type T t = 9 \<or> compact_type T t = 10 \<Longrightarrow> length xs \<le> 100000 \<Longrightarrow>
    (\<forall>x \<in> set xs. wire T (d + 1) (array_item T t 1) x) \<Longrightarrow> wire T d t (JArr xs)"
| wire_map: "d \<le> 40 \<Longrightarrow> compact_type T t = 11 \<Longrightarrow> length kvs \<le> 100000 \<Longrightarrow>
    (\<forall>kx \<in> set kvs. wire T (d + 1) (array_item T t 1) (JStr (fst kx)) \<and>
       wire T (d + 1) (array_item T t 2) (snd kx)) \<Longrightarrow> wire T d t (JObj kvs)"
| wire_struct: "d < 40 \<Longrightarrow> compact_type T t = 12 \<Longrightarrow> schema_fields T t = Some fs \<Longrightarrow>
    fields_ok T (jkids (lib T) (Some fs)) \<Longrightarrow> kvs = picked T kvs (jkids (lib T) (Some fs)) \<Longrightarrow>
    (\<forall>e \<in> set (jkids (lib T) (Some fs)). \<forall>x. map_of kvs (entry_name T e) = Some x \<longrightarrow>
       wire T (d + 2) (entry_type T e) x) \<Longrightarrow> wire T d t (JObj kvs)"

text \<open>The bytes \<open>w\<close> that a successful write appended are read back as \<open>v\<close>, by any reader there.\<close>

definition reads_back :: "json thrift \<Rightarrow> nat \<Rightarrow> json option \<Rightarrow> json \<Rightarrow> byte list \<Rightarrow> bool" where
  "reads_back T d t v w \<longleftrightarrow> w \<noteq> [] \<and>
     (\<forall>r u. ahead r (w @ u) \<longrightarrow> \<not> r_bad r \<longrightarrow>
        read_value T r t (compact_type T t) d False = (advance r (length w), Some v))"

definition round_trips :: "json thrift \<Rightarrow> nat \<Rightarrow> json option \<Rightarrow> json \<Rightarrow> bool" where
  "round_trips T d t v \<longleftrightarrow>
     (\<forall>b b'. write_value T b t v d = Some b' \<longrightarrow> (\<exists>w. b' = b @ w \<and> reads_back T d t v w))"

lemma round_tripsI:
  assumes "\<And>b b'. write_value T b t v d = Some b' \<Longrightarrow> b' = b @ w" and "w \<noteq> []"
    and "\<And>r u. ahead r (w @ u) \<Longrightarrow> \<not> r_bad r \<Longrightarrow>
      read_value T r t (compact_type T t) d False = (advance r (length w), Some v)"
  shows "round_trips T d t v"
  using assms unfolding round_trips_def reads_back_def by blast

lemma read_value_field:
  "3 \<le> code \<Longrightarrow> read_value T r t code d field = read_value T r t code d False"
  by (subst (1 2) read_value.simps) auto

lemma type_agrees_self [simp]: "type_agrees T t (compact_type T t)"
  by (simp add: type_agrees_def)

lemma type_agrees_eq [simp]: "compact_type T t = c \<Longrightarrow> type_agrees T t c"
  by (simp add: type_agrees_def)

lemma tree_makers [simp]:
  "mkObject (tree p q) = JObj []" "mkArray (tree p q) = JArr []" "mkString (tree p q) = JStr"
  "mkNumber (tree p q) = JNum" "mkBool (tree p q) = JBool"
  "addItem (tree p q) (JObj kvs) k v = JObj (kvs @ [(k, v)])"
  "addElem (tree p q) (JArr js) v = JArr (js @ [v])"
  "isNull (tree p q) v = (v = JNull)" "\<not> isArray (tree p q) (JStr s)"
  by (simp_all add: tree_def)

lemma compact_type_range: "compact_type T t \<in> {1, 3, 4, 5, 6, 7, 8, 9, 10, 11, 12}"
  by (simp add: compact_type_def compact_type_of_def)

lemma unat_pair_byte: "hi < 16 \<Longrightarrow> lo < 16 \<Longrightarrow> unat (pair_byte hi lo) = hi * 16 + lo"
  by (drule less_16_cases, drule less_16_cases) (auto simp: pair_byte_def)

lemma pair_byte_div_mod:
  "hi < 16 \<Longrightarrow> lo < 16 \<Longrightarrow> unat (pair_byte hi lo) div 16 = hi \<and> unat (pair_byte hi lo) mod 16 = lo"
  by (simp add: unat_pair_byte)

lemma append_bytes_Some: "append_bytes b x = Some b' \<longleftrightarrow> b' = b @ x \<and> length b + length x \<le> MAX_WIRE_SIZE"
  by (auto simp: append_bytes_eq)

lemma write_byte_Some: "write_byte b c = Some b' \<longleftrightarrow> b' = b @ [c] \<and> length b < MAX_WIRE_SIZE"
  by (auto simp: write_byte_def append_bytes_Some)

lemma write_varint_Some:
  "write_varint b n = Some b' \<longleftrightarrow> b' = b @ varint n \<and> length b + length (varint n) \<le> MAX_WIRE_SIZE"
  by (simp add: write_varint_eq append_bytes_Some)

lemmas write_Some = append_bytes_Some write_byte_Some write_varint_Some

lemma varint_nonempty [simp]: "varint n \<noteq> []"
  by (subst varint.simps) simp

lemma unat_small: "n \<le> MAX_WIRE_SIZE \<Longrightarrow> unat (word_of_nat n :: 64 word) = n"
  by (simp add: MAX_WIRE_SIZE_def unsigned_of_nat take_bit_nat_eq_self)

lemma rt_bool:
  assumes "d \<le> 40" and "compact_type T t = 1" and "lib T = tree p q"
  shows "round_trips T d t (JBool x)"
proof (rule round_tripsI [where w = "[if x then 1 else 2]"])
  fix r u
  assume "ahead r ([if x then 1 else 2] @ u)"
  then have "read_byte r = (advance r 1, if x then 1 else 2)"
    using read_byte_ahead [of r "if x then 1 else 2" u] by simp
  then show "read_value T r t (compact_type T t) d False =
      (advance r (length [if x then 1 else (2 :: byte)]), Some (JBool x))"
    using assms by (subst read_value_bool) auto
qed (use assms in \<open>auto simp: write_value.simps write_byte_Some\<close>)

lemma rt_byte:
  assumes "d \<le> 40" and "compact_type T t = 3" and "lib T = tree p q" and "json_integer T v = Some n"
    and "-128 \<le> n \<and> n \<le> 127" and "v = JNum (of_int n)"
  shows "round_trips T d t v"
proof (rule round_tripsI [where w = "[word_of_int n]"])
  fix r u
  assume "ahead r ([word_of_int n] @ u)"
  then have "read_byte r = (advance r 1, unat (word_of_int n :: byte))"
    using read_byte_ahead [of r "word_of_int n" u] by simp
  moreover have "sint (word_of_int n :: byte) = n"
    using assms(5) by (simp add: sint_sbintrunc' signed_take_bit_int_eq_self)
  ultimately show "read_value T r t (compact_type T t) d False =
      (advance r (length [word_of_int n :: byte]), Some v)"
    using assms by (subst read_value_int) auto
qed (use assms in \<open>auto simp: write_value.simps write_byte_Some\<close>)

lemma rt_varint:
  assumes "d \<le> 40" and "compact_type T t \<in> {4, 5, 6}" and "lib T = tree p q" and "json_integer T v = Some n"
    and "LLONG_MIN \<le> n" and "n \<le> LLONG_MAX"
    and "v = (if compact_type T t = 6 then JStr (show_int n) else JNum (of_int n))"
  shows "round_trips T d t v"
proof (rule round_tripsI [where w = "varint (zigzag_encode n)"])
  fix r u
  assume "ahead r (varint (zigzag_encode n) @ u)"
  from read_varint_reads [OF this] show "read_value T r t (compact_type T t) d False =
      (advance r (length (varint (zigzag_encode n))), Some v)"
    using assms by (subst read_value_int) (auto simp: zigzag_decode_encode)
next
  fix b b'
  assume w: "write_value T b t v d = Some b'"
  have "compact_type T t \<noteq> 1" "3 \<le> compact_type T t \<and> compact_type T t \<le> 6" "compact_type T t \<noteq> 3"
    using assms(2) by auto
  with w assms(1,4) show "b' = b @ varint (zigzag_encode n)"
    by (auto simp: write_value.simps [of T b t v d] Let_def write_varint_Some split: if_splits)
qed simp

lemma rt_int:
  assumes d: "d \<le> 40" and J: "lib T = tree p q"
    and n: "(compact_type T t = 3 \<and> -128 \<le> n \<and> n \<le> 127) \<or>
      (compact_type T t = 4 \<and> -32768 \<le> n \<and> n \<le> 32767) \<or>
      (compact_type T t = 5 \<and> INT_MIN \<le> n \<and> n \<le> INT_MAX)"
  shows "round_trips T d t (JNum (of_int n))"
proof -
  have small: "-9007199254740991 \<le> n" "n \<le> 9007199254740991" "LLONG_MIN \<le> n" "n \<le> LLONG_MAX"
    using n by (auto simp: INT_MIN_def INT_MAX_def LLONG_MIN_def LLONG_MAX_def)
  then have j: "json_integer T (JNum (of_int n)) = Some n"
    using of_int_le_iff [of "-9007199254740991" n, where ?'a = real]
      of_int_le_iff [of n 9007199254740991, where ?'a = real]
    by (simp add: json_integer_def J)
  from n show ?thesis
    using rt_byte [OF d _ J j _ refl] rt_varint [OF d _ J j small(3,4)] by auto
qed

lemma rt_i64:
  assumes "d \<le> 40" and J: "lib T = tree p q" and "compact_type T t = 6"
    and n: "LLONG_MIN \<le> n" "n \<le> LLONG_MAX"
  shows "round_trips T d t (JStr (show_int n))"
proof -
  have "json_integer T (JStr (show_int n)) = Some n"
    by (simp add: json_integer_def J strtoll10_show_int [OF n]) (simp add: show_int_def show_nat_nonempty [symmetric] del: show_nat_nonempty)
  with assms show ?thesis by (intro rt_varint [where n = n]) auto
qed

lemma read_double_bits_ahead:
  "ahead r (map (\<lambda>i. ucast (drop_bit (i * 8) bits)) [k..<8] @ u) \<Longrightarrow> k \<le> 8 \<Longrightarrow>
   read_double_bits (8 - k) r (take_bit (k * 8) bits) = (advance r (8 - k), bits)"
proof (induction "8 - k" arbitrary: k r)
  case 0
  then have "k = 8" by simp
  then show ?case by (simp add: take_bit_length_eq [where ?'a = 64, simplified])
next
  case (Suc m)
  then have k: "k < 8" "8 - k = Suc (8 - (k + 1))" "[k..<8] = k # [k + 1..<8]"
    by (simp_all add: upt_conv_Cons)
  note a = Suc.prems(1) [unfolded k(3) list.map append_Cons]
  have step: "take_bit (k * 8) bits OR push_bit ((7 - (8 - (k + 1))) * 8)
      (word_of_nat (unat (ucast (drop_bit (k * 8) bits) :: byte))) = take_bit ((k + 1) * 8) bits"
  proof -
    have "7 - (8 - (k + 1)) = k" using k(1) by simp
    then show ?thesis by (intro bit_eqI) (auto simp: bit_simps)
  qed
  have "read_double_bits (8 - (k + 1)) (advance r 1) (take_bit ((k + 1) * 8) bits) =
      (advance (advance r 1) (8 - (k + 1)), bits)"
    by (rule Suc.hyps(1)) (use Suc.hyps(2) k(1) ahead_Cons [OF a] in simp_all)
  then show ?case
    unfolding k(2) read_double_bits.simps read_byte_ahead [OF a] prod.case step by simp
qed

lemma rt_double:
  assumes "d \<le> 40" and J: "lib T = tree p q" and "compact_type T t = 7"
    and x: "bits_double T (double_bits T x) = x"
  shows "round_trips T d t (JNum x)"
proof -
  let ?bits = "double_bits T x"
  let ?w = "map (\<lambda>i. ucast (drop_bit (i * 8) ?bits) :: byte) [0..<8]"
  have ws: "each (\<lambda>i b. write_byte b (f i)) is b = Some b' \<Longrightarrow> b' = b @ map f is" for f :: "nat \<Rightarrow> byte" and b b' "is"
    by (induction "is" arbitrary: b) (fastforce simp: write_byte_Some split: option.splits)+
  show ?thesis
  proof (rule round_tripsI [where w = ?w])
    fix r u
    assume "ahead r (?w @ u)"
    from read_double_bits_ahead [OF this] have "read_double_bits 8 r 0 = (advance r 8, ?bits)" by simp
    then show "read_value T r t (compact_type T t) d False = (advance r (length ?w), Some (JNum x))"
      using assms by (subst read_value_other) auto
  next
    fix b b'
    assume "write_value T b t (JNum x) d = Some b'"
    then have "each (\<lambda>i b. write_byte b (ucast (drop_bit (i * 8) ?bits))) [0..<8] b = Some b'"
      using assms by (simp add: write_value.simps del: upt.simps upt_rec_numeral split: if_splits)
    then show "b' = b @ ?w" by (rule ws)
  qed simp
qed

lemma byte_of_0: "byte_of c = 0 \<longleftrightarrow> c = NUL"
proof -
  have "byte_of NUL = 0" by (simp add: byte_of_def NUL_def)
  then show ?thesis by (metis byte_of_inject)
qed

lemma bytes_of_no_zero: "no_nul s \<Longrightarrow> 0 \<notin> set (bytes_of s)"
  by (auto simp: no_nul_def list_all_iff byte_of_0 image_iff dest: sym)

lemma cstr_bytes_of: "no_nul s \<Longrightarrow> cstr_bytes (bytes_of s) = s"
  by (simp add: cstr_bytes_def del: map_map)

text \<open>Counted bytes: what \<open>string\<close> and \<open>binary\<close> values are on the wire.\<close>

lemma counted_ahead:
  assumes a: "ahead r ((varint (word_of_nat (length p)) @ p) @ u)" and l: "length p \<le> MAX_WIRE_SIZE"
  defines "r1 \<equiv> advance r (length (varint (word_of_nat (length p))))"
  shows "read_varint r = (r1, word_of_nat (length p)) \<and>
    unat (word_of_nat (length p) :: 64 word) = length p \<and>
    length p \<le> rest_len r1 \<and> take (length p) (rest_bytes r1) = p"
proof -
  from a have a1: "ahead r (varint (word_of_nat (length p)) @ p @ u)" by simp
  then have "ahead r1 (p @ u)" unfolding r1_def using ahead_append by blast
  then show ?thesis
    using read_varint_reads [OF a1] unat_small [OF l] ahead_rest_len [of r1 "p @ u"] ahead_take [of r1 p u]
    by (simp add: r1_def)
qed

lemma rt_string:
  assumes "d \<le> 40" and J: "lib T = tree p q" and "compact_type T t = 8"
    and k: "schema_kind T t \<noteq> ''binary''" and s: "no_nul s"
  shows "round_trips T d t (JStr s)"
  unfolding round_trips_def
proof (intro allI impI)
  fix b b'
  assume w: "write_value T b t (JStr s) d = Some b'"
  let ?p = "bytes_of s"
  have "b' = b @ varint (word_of_nat (length ?p)) @ ?p" and l: "length ?p \<le> MAX_WIRE_SIZE"
    using w assms by (auto simp: write_value.simps json_string_def write_Some Let_def split: option.splits)
  moreover have "read_value T r t (compact_type T t) d False =
      (advance r (length (varint (word_of_nat (length ?p)) @ ?p)), Some (JStr s))"
    if "ahead r ((varint (word_of_nat (length ?p)) @ ?p) @ u)" for r u
    using counted_ahead [OF that l] assms bytes_of_no_zero [OF s] l cstr_bytes_of [OF s]
    by (subst read_value_other) (simp_all add: Let_def advance_def)
  ultimately show "\<exists>w. b' = b @ w \<and> reads_back T d t (JStr s) w"
    using varint_nonempty unfolding reads_back_def append_is_Nil_conv
    by (intro exI [of _ "varint (word_of_nat (length ?p)) @ ?p"]) blast
qed

lemma rt_binary:
  assumes "d \<le> 40" and J: "lib T = tree p q" and k: "schema_kind T t = ''binary''"
    and evp: "evp_codec (evp_encode T) (evp_decode T)"
  shows "round_trips T d t (JStr (evp_encode T p0))"
  unfolding round_trips_def
proof (intro allI impI)
  fix b b'
  assume w: "write_value T b t (JStr (evp_encode T p0)) d = Some b'"
  have c: "compact_type T t = 8" using k by (simp add: compact_type_def compact_type_of_def)
  have dec: "enil_b64_decode_alloc (evp_decode T) (Some (evp_encode T p0)) = Some p0"
    using evp_codec.decode_alloc_encode [OF evp, of p0] by (simp add: enil_b64_encode_def)
  have "b' = b @ varint (word_of_nat (length p0)) @ p0" and l: "length p0 \<le> MAX_WIRE_SIZE"
    using w assms c dec by (auto simp: write_value.simps json_string_def write_Some Let_def split: option.splits)
  moreover have "read_value T r t (compact_type T t) d False =
      (advance r (length (varint (word_of_nat (length p0)) @ p0)), Some (JStr (evp_encode T p0)))"
    if "ahead r ((varint (word_of_nat (length p0)) @ p0) @ u)" for r u
    using counted_ahead [OF that l] assms c l
    by (subst read_value_other) (simp_all add: Let_def enil_b64_encode_def advance_def)
  ultimately show "\<exists>w. b' = b @ w \<and> reads_back T d t (JStr (evp_encode T p0)) w"
    using varint_nonempty unfolding reads_back_def append_is_Nil_conv
    by (intro exI [of _ "varint (word_of_nat (length p0)) @ p0"]) blast
qed

text \<open>Loops: the pieces written for the items, and reading them back one by one.\<close>

lemma each_pieces:
  assumes "\<And>x b b'. x \<in> set xs \<Longrightarrow> f x b = Some b' \<Longrightarrow> \<exists>w. b' = b @ w \<and> R x w"
    and "each f xs b = Some b'"
  shows "\<exists>ws. b' = b @ concat ws \<and> list_all2 R xs ws"
  using assms
proof (induction xs arbitrary: b)
  case Nil
  then show ?case by (intro exI [of _ "[]"]) simp
next
  case (Cons x xs)
  then obtain b1 where b1: "f x b = Some b1" "each f xs b1 = Some b'"
    by (auto split: option.splits)
  obtain w where w: "b1 = b @ w" "R x w" using Cons.prems(1) b1(1) by fastforce
  obtain ws where ws: "b' = b1 @ concat ws" "list_all2 R xs ws"
    using Cons.IH [OF _ b1(2)] Cons.prems(1) by fastforce
  with w show ?case by (intro exI [of _ "w # ws"]) simp
qed

lemma pieces_length:
  assumes "list_all2 R xs ws" and "\<And>x w. R x w \<Longrightarrow> w \<noteq> []"
  shows "length xs \<le> length (concat ws)"
  using assms(1)
proof (induction xs ws)
  case (Cons x xs w ws)
  then have "1 \<le> length w" using assms(2) by (simp add: Suc_le_eq)
  with Cons.IH show ?case by simp
qed simp

lemma list_round_reads:
  assumes J: "lib T = tree p q" and c: "code \<noteq> 11"
    and "list_all2 (reads_back T (d + 1) (array_item T t 1)) xs ws"
    and "ahead r (concat ws @ u)" and "\<not> r_bad r"
  shows "rounds (length xs) (items_round T t code kt (compact_type T (array_item T t 1)) d) (r, JArr ys) =
    (advance r (length (concat ws)), JArr (ys @ xs))"
  using assms(3-)
proof (induction xs arbitrary: ws r ys)
  case Nil
  then show ?case by simp
next
  case (Cons x xs)
  then obtain w ws' where ws: "ws = w # ws'" and w: "reads_back T (d + 1) (array_item T t 1) x w"
    and ws': "list_all2 (reads_back T (d + 1) (array_item T t 1)) xs ws'"
    by (auto simp: list_all2_Cons1)
  from Cons.prems(2) ws have a: "ahead r (w @ concat ws' @ u)" by simp
  then have "read_value T r (array_item T t 1) (compact_type T (array_item T t 1)) (d + 1) False =
      (advance r (length w), Some x)"
    using w Cons.prems(3) by (auto simp: reads_back_def)
  then have "items_round T t code kt (compact_type T (array_item T t 1)) d (r, JArr ys) =
      ((advance r (length w), JArr (ys @ [x])), True)"
    using c Cons.prems(3) by (simp add: items_round_def J)
  then show ?case
    using Cons.IH [OF ws', of "advance r (length w)" "ys @ [x]"] ahead_append [OF a] Cons.prems(3)
    by (simp add: ws)
qed

definition pair_back :: "json thrift \<Rightarrow> nat \<Rightarrow> json option \<Rightarrow> string \<times> json \<Rightarrow> byte list \<Rightarrow> bool" where
  "pair_back T d t kx w \<longleftrightarrow> (\<exists>a b. w = a @ b \<and> reads_back T d (array_item T t 1) (JStr (fst kx)) a \<and>
     reads_back T d (array_item T t 2) (snd kx) b)"

lemma map_round_reads:
  assumes J: "lib T = tree p q"
    and "list_all2 (pair_back T (d + 1) t) kvs ws" and "ahead r (concat ws @ u)" and "\<not> r_bad r"
  shows "rounds (length kvs) (items_round T t 11 (compact_type T (array_item T t 1))
      (compact_type T (array_item T t 2)) d) (r, JObj ys) =
    (advance r (length (concat ws)), JObj (ys @ kvs))"
  using assms(2-)
proof (induction kvs arbitrary: ws r ys)
  case Nil
  then show ?case by simp
next
  case (Cons kx kvs)
  then obtain w ws' where ws: "ws = w # ws'" and w: "pair_back T (d + 1) t kx w"
    and ws': "list_all2 (pair_back T (d + 1) t) kvs ws'"
    by (auto simp: list_all2_Cons1)
  from w obtain wk wx where wkx: "w = wk @ wx"
    and k: "reads_back T (d + 1) (array_item T t 1) (JStr (fst kx)) wk"
    and x: "reads_back T (d + 1) (array_item T t 2) (snd kx) wx"
    by (auto simp: pair_back_def)
  from Cons.prems(2) ws wkx have a: "ahead r (wk @ wx @ concat ws' @ u)" by simp
  have 1: "read_value T r (array_item T t 1) (compact_type T (array_item T t 1)) (d + 1) False =
      (advance r (length wk), Some (JStr (fst kx)))"
    using k a Cons.prems(3) by (auto simp: reads_back_def)
  have 2: "read_value T (advance r (length wk)) (array_item T t 2) (compact_type T (array_item T t 2)) (d + 1) False =
      (advance r (length w), Some (snd kx))"
    using x ahead_append [OF a] Cons.prems(3) wkx by (auto simp: reads_back_def)
  from 1 2 have "items_round T t 11 (compact_type T (array_item T t 1))
      (compact_type T (array_item T t 2)) d (r, JObj ys) = ((advance r (length w), JObj (ys @ [kx])), True)"
    using Cons.prems(3) by (simp add: items_round_def J json_string_def)
  then show ?case
    using Cons.IH [OF ws', of "advance r (length w)" "ys @ [kx]"] Cons.prems(2,3)
      ahead_append [of r w "concat ws' @ u"]
    by (simp add: ws)
qed

lemma rt_list:
  assumes d: "d \<le> 40" and J: "lib T = tree p q" and c: "compact_type T t = 9 \<or> compact_type T t = 10"
    and n: "length xs \<le> 100000" and rt: "\<forall>x \<in> set xs. round_trips T (d + 1) (array_item T t 1) x"
  shows "round_trips T d t (JArr xs)"
  unfolding round_trips_def
proof (intro allI impI)
  fix b b'
  assume w: "write_value T b t (JArr xs) d = Some b'"
  let ?et = "array_item T t 1"
  let ?ct = "compact_type T ?et"
  let ?h = "pair_byte (if length xs < 15 then length xs else 15) ?ct"
  let ?m = "if 15 \<le> length xs then varint (word_of_nat (length xs)) else []"
  have nc: "compact_type T t \<noteq> 1" "\<not> (3 \<le> compact_type T t \<and> compact_type T t \<le> 6)"
    "compact_type T t \<noteq> 7" "compact_type T t \<noteq> 8" "compact_type T t \<noteq> 11" "compact_type T t \<noteq> 12"
    using c by auto
  have "each (\<lambda>(k, x) b. write_value T b ?et x (d + 1)) (map (Pair ([] :: string)) xs) (b @ [?h] @ ?m) = Some b'"
    using w d nc c by (auto simp: write_value.simps [of T b] J write_Some Let_def split: option.splits if_splits)
  from each_pieces [where R = "\<lambda>(k, x). reads_back T (d + 1) ?et x", OF _ this] rt
  obtain ws where ws: "b' = (b @ [?h] @ ?m) @ concat ws"
    and "list_all2 (\<lambda>(k, x). reads_back T (d + 1) ?et x) (map (Pair ([] :: string)) xs) ws"
    by (fastforce simp: round_trips_def)
  then have all: "list_all2 (reads_back T (d + 1) ?et) xs ws" by (simp add: list_all2_map1)
  then have len: "length xs \<le> length (concat ws)"
    by (rule pieces_length) (auto simp: reads_back_def)
  have ct: "?ct < 16" using compact_type_range [of T ?et] by auto
  have h: "unat ?h div 16 = (if length xs < 15 then length xs else 15) \<and> unat ?h mod 16 = ?ct"
    using ct by (intro pair_byte_div_mod) auto
  have small: "unat (word_of_nat (length xs) :: 64 word) = length xs"
    using n by (intro unat_small) (simp add: MAX_WIRE_SIZE_def)
  let ?w = "[?h] @ ?m @ concat ws"
  have "read_value T r t (compact_type T t) d False = (advance r (length ?w), Some (JArr xs))"
    if a: "ahead r (?w @ u)" and ok: "\<not> r_bad r" for r u
  proof -
    let ?r1 = "advance r (length ([?h] @ ?m))"
    from a have a1: "ahead r (?h # ?m @ concat ws @ u)" by simp
    have a2: "ahead (advance r 1) (?m @ concat ws @ u)" using ahead_Cons [OF a1] .
    have a3: "ahead ?r1 (concat ws @ u)" using ahead_append [OF a2] by simp
    have hd: "items_head T r (compact_type T t) = (?r1, length xs, 0, ?ct, JArr [])"
    proof (cases "length xs < 15")
      case True
      then have "unat ?h div 16 = length xs" "unat ?h mod 16 = ?ct" using h by auto
      with True show ?thesis
        using nc(5) read_byte_ahead [OF a1] small by (simp add: items_head_def J)
    next
      case False
      then have "unat ?h div 16 = 15" "unat ?h mod 16 = ?ct" using h by auto
      moreover have "read_varint (advance r 1) = (?r1, word_of_nat (length xs))"
        using a2 False read_varint_reads [of "advance r 1" "word_of_nat (length xs)" "concat ws @ u"] by simp
      ultimately show ?thesis
        using False nc(5) read_byte_ahead [OF a1] small by (simp add: items_head_def J)
    qed
    have rd: "rounds (length xs) (items_round T t (compact_type T t) 0 ?ct d) (?r1, JArr []) =
        (advance ?r1 (length (concat ws)), JArr xs)"
      using list_round_reads [OF J nc(5) all a3] ok by simp
    have "length xs \<le> rest_len ?r1" using ahead_rest_len [OF a3] len by simp
    with n have fits: "\<not> (100000 < length xs \<or> rest_len ?r1 < length xs)" by simp
    have "9 \<le> compact_type T t \<and> compact_type T t \<le> 11" "7 \<le> compact_type T t" using c by auto
    with d nc show ?thesis
      by (subst read_value_other) (simp_all only: hd prod.case fits rd if_False if_True not_less type_agrees_self, simp_all)
  qed
  then have "reads_back T d t (JArr xs) ?w" unfolding reads_back_def by blast
  with ws show "\<exists>w. b' = b @ w \<and> reads_back T d t (JArr xs) w"
    by (intro exI [of _ ?w]) simp
qed

lemma rt_map:
  assumes d: "d \<le> 40" and J: "lib T = tree p q" and c: "compact_type T t = 11"
    and n: "length kvs \<le> 100000"
    and rt: "\<forall>kx \<in> set kvs. round_trips T (d + 1) (array_item T t 1) (JStr (fst kx)) \<and>
      round_trips T (d + 1) (array_item T t 2) (snd kx)"
  shows "round_trips T d t (JObj kvs)"
  unfolding round_trips_def
proof (intro allI impI)
  fix b b'
  assume w: "write_value T b t (JObj kvs) d = Some b'"
  let ?kt = "compact_type T (array_item T t 1)"
  let ?vt = "compact_type T (array_item T t 2)"
  let ?n = "varint (word_of_nat (length kvs))"
  let ?h = "if kvs = [] then [] else [pair_byte ?kt ?vt]"
  have "each (\<lambda>(k, x) b.
        case write_value T b (array_item T t 1) (JStr k) (d + 1) of None \<Rightarrow> None
        | Some b' \<Rightarrow> write_value T b' (array_item T t 2) x (d + 1)) kvs ((b @ ?n) @ ?h) = Some b'"
    using w d c by (auto simp: write_value.simps [of T b] J write_Some Let_def split: option.splits if_splits)
  moreover have "\<exists>w. b' = b @ w \<and> pair_back T (d + 1) t kx w"
    if kx: "kx \<in> set kvs" and wr: "(\<lambda>(k, x) b.
        case write_value T b (array_item T t 1) (JStr k) (d + 1) of None \<Rightarrow> None
        | Some b' \<Rightarrow> write_value T b' (array_item T t 2) x (d + 1)) kx b = Some b'" for kx b b'
  proof -
    obtain b1 where "write_value T b (array_item T t 1) (JStr (fst kx)) (d + 1) = Some b1"
      "write_value T b1 (array_item T t 2) (snd kx) (d + 1) = Some b'"
      using wr by (cases kx) (auto split: option.splits)
    with rt kx obtain w1 w2 where "b1 = b @ w1" "reads_back T (d + 1) (array_item T t 1) (JStr (fst kx)) w1"
      "b' = b1 @ w2" "reads_back T (d + 1) (array_item T t 2) (snd kx) w2"
      unfolding round_trips_def by metis
    then show ?thesis unfolding pair_back_def by force
  qed
  ultimately obtain ws where ws: "b' = ((b @ ?n) @ ?h) @ concat ws"
    and all: "list_all2 (pair_back T (d + 1) t) kvs ws"
    using each_pieces [where xs = kvs and R = "pair_back T (d + 1) t"] by blast
  from all have len: "length kvs \<le> length (concat ws)"
    by (rule pieces_length) (auto simp: pair_back_def reads_back_def)
  have small: "unat (word_of_nat (length kvs) :: 64 word) = length kvs"
    using n by (intro unat_small) (simp add: MAX_WIRE_SIZE_def)
  have kv: "?kt < 16" "?vt < 16"
    using compact_type_range [of T "array_item T t 1"] compact_type_range [of T "array_item T t 2"] by auto
  let ?w = "?n @ ?h @ concat ws"
  have "read_value T r t (compact_type T t) d False = (advance r (length ?w), Some (JObj kvs))"
    if a: "ahead r (?w @ u)" and ok: "\<not> r_bad r" for r u
  proof -
    let ?r1 = "advance r (length ?n)"
    let ?r2 = "advance ?r1 (length ?h)"
    from a have a1: "ahead r (?n @ ?h @ concat ws @ u)" by simp
    have a2: "ahead ?r1 (?h @ concat ws @ u)" using ahead_append [OF a1] by blast
    have a3: "ahead ?r2 (concat ws @ u)" using ahead_append [OF a2] by blast
    have rd: "rounds (length kvs) (items_round T t 11 ?kt ?vt d) (?r2, JObj []) =
        (advance ?r2 (length (concat ws)), JObj kvs)"
      using map_round_reads [OF J all a3] ok by simp
    have fits: "\<not> (100000 < length kvs \<or> rest_len ?r2 < length kvs)"
      using ahead_rest_len [OF a3] len n by simp
    have nz: "(word_of_nat (length kvs) :: 64 word) \<noteq> 0 \<longleftrightarrow> kvs \<noteq> []"
      using small by (metis length_0_conv unat_eq_0)
    have ty: "9 \<le> (11 :: nat) \<and> (11 :: nat) \<le> 11" "7 \<le> compact_type T t" using c by auto
    show ?thesis
    proof (cases "kvs = []")
      case True
      have "items_head T r 11 = (?r1, 0, 0, 0, JObj [])"
        using read_varint_reads [OF a1] nz small True by (simp add: items_head_def J)
      with d c ty rd True fits show ?thesis
        using all by (subst read_value_other) simp_all
    next
      case False
      have rb: "read_byte ?r1 = (?r2, unat (pair_byte ?kt ?vt))"
        using a2 False read_byte_ahead [of ?r1] by simp
      have "items_head T r 11 = (?r2, length kvs, ?kt, ?vt, JObj [])"
        using read_varint_reads [OF a1] nz small False rb pair_byte_div_mod [OF kv]
        by (simp add: items_head_def J)
      with d c ty rd fits show ?thesis
        by (subst read_value_other) simp_all
    qed
  qed
  then have "reads_back T d t (JObj kvs) ?w" unfolding reads_back_def append_is_Nil_conv by simp
  with ws show "\<exists>w. b' = b @ w \<and> reads_back T d t (JObj kvs) w"
    by (intro exI [of _ ?w]) simp
qed

text \<open>One field: the header bytes and, for everything but a boolean, the value.\<close>

definition field_head :: "int \<Rightarrow> int \<Rightarrow> nat \<Rightarrow> byte list" where
  "field_head lst fid code =
     (let delta = fid - lst; short = (0 < delta \<and> delta < 16)
      in pair_byte (if short then nat delta else 0) code # (if short then [] else varint (zigzag_encode fid)))"

definition field_code :: "json thrift \<Rightarrow> string \<times> json \<Rightarrow> json \<Rightarrow> nat" where
  "field_code T e x = (if compact_type T (entry_type T e) = 1 then (if x = JBool True then 1 else 2)
     else compact_type T (entry_type T e))"

definition field_back :: "json thrift \<Rightarrow> nat \<Rightarrow> string \<times> json \<Rightarrow> json \<Rightarrow> byte list \<Rightarrow> bool" where
  "field_back T d e x w \<longleftrightarrow>
     (\<forall>r u. ahead r (w @ u) \<longrightarrow> \<not> r_bad r \<longrightarrow>
        read_value T r (entry_type T e) (field_code T e x) d True = (advance r (length w), Some x))"

text \<open>What the field loop wrote for a list of schema entries, starting after field \<open>lst\<close>.\<close>

inductive fields_written ::
  "json thrift \<Rightarrow> nat \<Rightarrow> (string \<times> json) list \<Rightarrow> int \<Rightarrow> (string \<times> json) list \<Rightarrow> byte list \<Rightarrow> bool"
  for T d kvs where
  fw_nil: "fields_written T d kvs lst [] []"
| fw_skip: "map_of kvs (entry_name T e) = None \<Longrightarrow> fields_written T d kvs lst fl w \<Longrightarrow>
    fields_written T d kvs lst (e # fl) w"
| fw_field: "map_of kvs (entry_name T e) = Some x \<Longrightarrow> field_back T d e x w1 \<Longrightarrow>
    1 \<le> field_code T e x \<Longrightarrow> field_code T e x < 16 \<Longrightarrow>
    fields_written T d kvs (entry_id T e) fl w2 \<Longrightarrow>
    fields_written T d kvs lst (e # fl) (field_head lst (entry_id T e) (field_code T e x) @ w1 @ w2)"

lemma field_head_reads:
  assumes "ahead r (field_head lst fid code @ u)" and "1 \<le> code" and "code < 16"
    and "-32768 \<le> fid" and "fid \<le> 32767"
  shows "\<exists>h. read_byte r = (advance r 1, h) \<and> h \<noteq> 0 \<and> h mod 16 = code \<and>
    (if h div 16 \<noteq> 0 then (advance r 1, lst + int (h div 16))
     else case read_varint (advance r 1) of (r2, z) \<Rightarrow> (r2, wrap32 (zigzag_decode z))) =
    (advance r (length (field_head lst fid code)), fid)"
proof -
  let ?delta = "fid - lst"
  show ?thesis
  proof (cases "0 < ?delta \<and> ?delta < 16")
    case True
    then have h: "field_head lst fid code = [pair_byte (nat ?delta) code]"
      by (simp add: field_head_def)
    from True assms have "nat ?delta < 16" by auto
    from pair_byte_div_mod [OF this assms(3)] True assms(1,2) read_byte_ahead [of r _ u]
    show ?thesis unfolding h
      by (intro exI [of _ "unat (pair_byte (nat ?delta) code)"]) auto
  next
    case False
    then have h: "field_head lst fid code = pair_byte 0 code # varint (zigzag_encode fid)"
      by (auto simp: field_head_def)
    have a: "ahead r (pair_byte 0 code # varint (zigzag_encode fid) @ u)" using assms(1) h by simp
    have "wrap32 fid = fid" using assms(4,5) by (intro wrap32_id) (simp_all add: INT_MIN_def INT_MAX_def)
    moreover have "zigzag_decode (zigzag_encode fid) = fid"
      using assms(4,5) by (intro zigzag_decode_encode) (simp_all add: LLONG_MIN_def LLONG_MAX_def)
    ultimately show ?thesis
      using pair_byte_div_mod [of 0 code] assms(2,3) read_byte_ahead [OF a]
        read_varint_reads [OF ahead_Cons [OF a]] unfolding h
      by (intro exI [of _ "unat (pair_byte 0 code)"]) auto
  qed
qed

lemma field_entry_found:
  assumes "distinct (map (entry_id T) fl)" and "e \<in> set fl" and "jkids (lib T) fs = fl"
  shows "field_entry T fs (entry_id T e) = (entry_type T e, Some (entry_name T e))"
proof -
  from assms(2) obtain a b where fl: "fl = a @ e # b" by (meson split_list)
  with assms(1) have "\<forall>x \<in> set a. entry_id T x \<noteq> entry_id T e" by (auto simp: image_iff)
  then have "find (\<lambda>(k, f). json_int T (array_item T (Some f) 0) = entry_id T e) fl = Some e"
    unfolding fl by (induction a) (auto simp: entry_id_def split: prod.splits)
  then show ?thesis
    unfolding field_entry_def assms(3) by (cases e) (simp add: entry_type_def entry_name_def)
qed

lemma fields_read:
  assumes "fields_written T (d + 1) kvs lst fl2 w" and J: "lib T = tree p q"
    and "jkids (lib T) fs = fl1 @ fl2" and "fields_ok T (fl1 @ fl2)"
    and "ahead r (w @ 0 # u)" and "\<not> r_bad r" and "rest_len r < k"
  shows "\<exists>i. rounds k (struct_round T fs d) (r, JObj (picked T kvs fl1), lst) =
    (advance r (length w + 1), JObj (picked T kvs (fl1 @ fl2)), i)"
  using assms
proof (induction arbitrary: fl1 r k)
  case (fw_nil lst)
  then obtain k' where k: "k = Suc k'" by (cases k) auto
  have "read_byte r = (advance r 1, 0)" using read_byte_ahead [of r 0 u] fw_nil.prems(4) by simp
  then show ?case using fw_nil.prems(5) by (simp add: k struct_round_def)
next
  case (fw_skip e lst fl w)
  have "picked T kvs (fl1 @ [e]) = picked T kvs fl1"
    using fw_skip.hyps(1) by (simp add: picked_def)
  then show ?case
    using fw_skip.IH [of "fl1 @ [e]" r k] fw_skip.prems by simp
next
  case (fw_field e x w1 fl w2 lst)
  let ?hd = "field_head lst (entry_id T e) (field_code T e x)"
  have e: "e \<in> set (fl1 @ e # fl)" by simp
  have rng: "-32768 \<le> entry_id T e" "entry_id T e \<le> 32767" and dist: "distinct (map (entry_id T) (fl1 @ e # fl))"
    and names: "distinct (map (\<lambda>e. map lower_char (entry_name T e)) (fl1 @ e # fl))"
    using fw_field.prems(3) by (auto simp: fields_ok_def)
  have a: "ahead r (?hd @ w1 @ w2 @ 0 # u)" using fw_field.prems(4) by simp
  obtain h where h: "read_byte r = (advance r 1, h)" "h \<noteq> 0" "h mod 16 = field_code T e x"
    and rd: "(if h div 16 \<noteq> 0 then (advance r 1, lst + int (h div 16))
     else case read_varint (advance r 1) of (r2, z) \<Rightarrow> (r2, wrap32 (zigzag_decode z))) =
      (advance r (length ?hd), entry_id T e)"
    using field_head_reads [OF a fw_field.hyps(3,4) rng] by blast
  have a2: "ahead (advance r (length ?hd)) (w1 @ w2 @ 0 # u)" using ahead_append [OF a] by blast
  let ?r3 = "advance r (length ?hd + length w1)"
  have rv: "read_value T (advance r (length ?hd)) (entry_type T e) (field_code T e x) (d + 1) True = (?r3, Some x)"
    using fw_field.hyps(2) [unfolded field_back_def, rule_format, OF a2] fw_field.prems(5) by simp
  have fe: "field_entry T fs (entry_id T e) = (entry_type T e, Some (entry_name T e))"
    using field_entry_found [OF dist e fw_field.prems(2)] .
  have fresh: "find (\<lambda>(k', v). map lower_char k' = map lower_char (entry_name T e)) (picked T kvs fl1) = None"
  proof -
    have "map lower_char (entry_name T e) \<notin> (\<lambda>e. map lower_char (entry_name T e)) ` set fl1"
      using names by auto
    then show ?thesis by (auto simp: find_None_iff picked_def image_iff split: option.splits)
  qed
  have pk: "picked T kvs (fl1 @ [e]) = picked T kvs fl1 @ [(entry_name T e, x)]"
    using fw_field.hyps(1) by (simp add: picked_def)
  have rnd: "struct_round T fs d (r, JObj (picked T kvs fl1), lst) =
      ((?r3, JObj (picked T kvs (fl1 @ [e])), entry_id T e), True)"
    unfolding struct_round_def prod.case h(1) rd fe h(3) rv
    using h(2) rng fw_field.prems(5) fresh by (simp add: J pk Let_def)
  obtain k' where k: "k = Suc k'" using fw_field.prems(6) by (cases k) auto
  have "rest_len ?r3 < rest_len r"
    using struct_round_reads [of T fs d "(r, JObj (picked T kvs fl1), lst)"] rnd by simp
  then have k': "rest_len ?r3 < k'" using fw_field.prems(6) k by simp
  have a3: "ahead ?r3 (w2 @ 0 # u)" using ahead_append [OF a2] by simp
  have "\<exists>i. rounds k' (struct_round T fs d) (?r3, JObj (picked T kvs (fl1 @ [e])), entry_id T e) =
      (advance ?r3 (length w2 + 1), JObj (picked T kvs ((fl1 @ [e]) @ fl)), i)"
    using fw_field.IH [OF J, of "fl1 @ [e]" ?r3 k'] fw_field.prems a3 k' by simp
  then show ?case by (simp add: k rnd add.assoc)
qed

text \<open>The field loop of \<open>write_struct\<close>.\<close>

definition write_field ::
  "'j thrift \<Rightarrow> 'j \<Rightarrow> nat \<Rightarrow> string \<times> 'j \<Rightarrow> byte list \<times> int \<times> nat \<Rightarrow> (byte list \<times> int \<times> nat) option" where
  "write_field T v depth = (\<lambda>(k, f) (b, lst, index).
          (let id = json_int T (array_item T (Some f) 0);
               code = compact_type T (array_item T (Some f) 2);
               delta = id - lst;
               val = (if isArray (lib T) v then array_item T (Some v) index
                      else getItemCS (lib T) v (json_string T (array_item T (Some f) 1)))
           in case val of
                None \<Rightarrow> Some (b, lst, index + 1)
              | Some x \<Rightarrow>
                  if isNull (lib T) x then Some (b, lst, index + 1)
                  else if code = 1 \<and> \<not> isBool (lib T) x then None
                  else let code' = (if code = 1 then (if isTrue (lib T) x then 1 else 2) else code);
                           short = (0 < delta \<and> delta < 16)
                       in case write_byte b (pair_byte (if short then nat delta else 0) code') of
                            None \<Rightarrow> None
                          | Some b1 \<Rightarrow>
                              (case (if short then Some b1 else write_varint b1 (zigzag_encode id)) of
                                 None \<Rightarrow> None
                               | Some b2 \<Rightarrow>
                                   (case (if 2 < code' then write_value T b2 (array_item T (Some f) 2) x (depth + 1)
                                          else Some b2) of
                                      None \<Rightarrow> None
                                    | Some b3 \<Rightarrow> Some (b3, id, index + 1)))))"

lemma write_struct_eq:
  "write_struct T b fs v depth =
     (if 40 < depth \<or> fs = None \<or> (\<not> isObject (lib T) v \<and> \<not> isArray (lib T) v) then None
      else case each (write_field T v depth) (jkids (lib T) fs) (b, 0, 0) of
             None \<Rightarrow> None
           | Some (b', _) \<Rightarrow> write_byte b' 0)"
  unfolding write_field_def by (rule write_struct.simps)

lemma field_back_value:
  assumes rb: "reads_back T d (entry_type T e) x w" and c: "3 \<le> compact_type T (entry_type T e)"
  shows "field_back T d e x w"
proof -
  have "field_code T e x = compact_type T (entry_type T e)" using c by (simp add: field_code_def)
  moreover have "read_value T r (entry_type T e) (compact_type T (entry_type T e)) d True =
      read_value T r (entry_type T e) (compact_type T (entry_type T e)) d False" for r
    by (rule read_value_field [OF c])
  ultimately show ?thesis using rb by (simp add: field_back_def reads_back_def)
qed

lemma field_back_bool:
  assumes "d \<le> 40" and "compact_type T (entry_type T e) = 1" and "lib T = tree p q"
  shows "field_back T d e (JBool x) []"
proof -
  have "type_agrees T (entry_type T e) (field_code T e (JBool x))"
    using assms(2) by (simp add: field_code_def type_agrees_def)
  with assms show ?thesis
    by (auto simp: field_back_def read_value_bool field_code_def)
qed

lemma wire_bool_shape: "wire T d t x \<Longrightarrow> compact_type T t = 1 \<Longrightarrow> d \<le> 40 \<and> (\<exists>y. x = JBool y)"
  by (induction rule: wire.induct) (auto simp: compact_type_def compact_type_of_def)

lemma wire_not_null: "\<not> wire T d t JNull"
proof -
  have "wire T d t x \<Longrightarrow> x \<noteq> JNull" for x by (induction rule: wire.induct) auto
  then show ?thesis by blast
qed

lemma write_field_obj:
  assumes "lib T = tree p q"
  shows "write_field T (JObj kvs) d e (b, lst, i) =
    (case map_of kvs (entry_name T e) of
       None \<Rightarrow> Some (b, lst, i + 1)
     | Some x \<Rightarrow>
         let code = compact_type T (entry_type T e); code' = (if code = 1 then if x = JBool True then 1 else 2 else code);
             delta = entry_id T e - lst; short = (0 < delta \<and> delta < 16)
         in if x = JNull then Some (b, lst, i + 1)
            else if code = 1 \<and> \<not> isBool (lib T) x then None
            else case write_byte b (pair_byte (if short then nat delta else 0) code') of
                   None \<Rightarrow> None
                 | Some b1 \<Rightarrow>
                     (case (if short then Some b1 else write_varint b1 (zigzag_encode (entry_id T e))) of
                        None \<Rightarrow> None
                      | Some b2 \<Rightarrow>
                          (case (if 2 < code' then write_value T b2 (entry_type T e) x (d + 1) else Some b2) of
                             None \<Rightarrow> None
                           | Some b3 \<Rightarrow> Some (b3, entry_id T e, i + 1))))"
proof -
  obtain k f where e: "e = (k, f)" by force
  have "isTrue (lib T) x = (x = JBool True)" for x by (simp add: assms tree_def)
  then show ?thesis
    unfolding e write_field_def entry_name_def entry_id_def entry_type_def Let_def snd_conv prod.case
    by (cases "map_of kvs (json_string T (array_item T (Some f) 1))") (simp_all add: assms)
qed

lemma field_head_written:
  "(case write_byte b (pair_byte (if 0 < fid - lst \<and> fid - lst < 16 then nat (fid - lst) else 0) code) of
      None \<Rightarrow> None
    | Some b1 \<Rightarrow> (case (if 0 < fid - lst \<and> fid - lst < 16 then Some b1 else write_varint b1 (zigzag_encode fid)) of
         None \<Rightarrow> None | Some b2 \<Rightarrow> g b2)) = Some y \<Longrightarrow> g (b @ field_head lst fid code) = Some y"
  by (cases "0 < fid - lst \<and> fid - lst < 16")
    (auto simp: field_head_def write_Some Let_def split: option.splits)

lemma write_field_step:
  assumes J: "lib T = tree p q"
    and wr: "write_field T (JObj kvs) d e (b, lst, i) = Some (b', lst', i')"
    and x: "map_of kvs (entry_name T e) = Some x"
    and wx: "wire T (d + 1) (entry_type T e) x" and rt: "round_trips T (d + 1) (entry_type T e) x"
  shows "\<exists>w1. b' = b @ field_head lst (entry_id T e) (field_code T e x) @ w1 \<and> lst' = entry_id T e \<and>
    field_back T (d + 1) e x w1"
proof -
  let ?t = "entry_type T e"
  let ?hd = "field_head lst (entry_id T e) (field_code T e x)"
  have nn: "x \<noteq> JNull" using wx wire_not_null by blast
  have bool: "\<not> (compact_type T ?t = 1 \<and> \<not> isBool (lib T) x)"
    using wire_bool_shape [OF wx] J by auto
  from wr have "(case (if 2 < field_code T e x then write_value T (b @ ?hd) ?t x (d + 1) else Some (b @ ?hd)) of
      None \<Rightarrow> None | Some b3 \<Rightarrow> Some (b3, entry_id T e, i + 1)) = Some (b', lst', i')"
    unfolding write_field_obj [OF J] x option.case Let_def if_not_P [OF nn] if_not_P [OF bool]
      field_code_def [symmetric]
    by (rule field_head_written)
  then have l: "lst' = entry_id T e"
    and w: "(if 2 < field_code T e x then write_value T (b @ ?hd) ?t x (d + 1) else Some (b @ ?hd)) = Some b'"
    by (auto split: option.splits)
  show ?thesis
  proof (cases "compact_type T ?t = 1")
    case True
    then obtain y where y: "x = JBool y" "d + 1 \<le> 40" using wire_bool_shape [OF wx] by blast
    have "\<not> 2 < field_code T e x" using True by (simp add: field_code_def)
    with w l field_back_bool [OF y(2) True J, of y] y(1) show ?thesis
      by (intro exI [of _ "[]"]) simp
  next
    case False
    then have c: "3 \<le> compact_type T ?t" using compact_type_range [of T ?t] by auto
    with False have "2 < field_code T e x" by (simp add: field_code_def)
    with w have "write_value T (b @ ?hd) ?t x (d + 1) = Some b'" by simp
    with rt obtain w' where "b' = (b @ ?hd) @ w'" "reads_back T (d + 1) ?t x w'"
      unfolding round_trips_def by blast
    with l field_back_value [OF _ c] show ?thesis by (intro exI [of _ w']) auto
  qed
qed

lemma fields_write:
  assumes J: "lib T = tree p q"
    and "each (write_field T (JObj kvs) d) fl (b, lst, i) = Some (b', lst', i')"
    and "\<forall>e \<in> set fl. \<forall>x. map_of kvs (entry_name T e) = Some x \<longrightarrow>
      wire T (d + 1) (entry_type T e) x \<and> round_trips T (d + 1) (entry_type T e) x"
  shows "\<exists>w. b' = b @ w \<and> fields_written T (d + 1) kvs lst fl w"
  using assms(2,3)
proof (induction fl arbitrary: b lst i)
  case Nil
  then show ?case by (auto intro: fw_nil)
next
  case (Cons e fl)
  obtain b1 lst1 i1 where st: "write_field T (JObj kvs) d e (b, lst, i) = Some (b1, lst1, i1)"
    and re: "each (write_field T (JObj kvs) d) fl (b1, lst1, i1) = Some (b', lst', i')"
    using Cons.prems(1) by (auto split: option.splits)
  obtain w where w: "b' = b1 @ w" "fields_written T (d + 1) kvs lst1 fl w"
    using Cons.IH [OF re] Cons.prems(2) by auto
  show ?case
  proof (cases "map_of kvs (entry_name T e)")
    case None
    then have "b1 = b \<and> lst1 = lst"
      using st by (cases e) (auto simp: write_field_def J entry_name_def)
    with w None show ?thesis by (auto intro: fw_skip)
  next
    case (Some x)
    with Cons.prems(2) have wx: "wire T (d + 1) (entry_type T e) x" "round_trips T (d + 1) (entry_type T e) x"
      by auto
    obtain w1 where w1: "b1 = b @ field_head lst (entry_id T e) (field_code T e x) @ w1"
      "lst1 = entry_id T e" "field_back T (d + 1) e x w1"
      using write_field_step [OF J st Some wx] by blast
    have "1 \<le> field_code T e x" "field_code T e x < 16"
      using compact_type_range [of T "entry_type T e"] by (auto simp: field_code_def)
    from fw_field [OF Some w1(3) this] w w1 show ?thesis by auto
  qed
qed

text \<open>A whole struct, as an argument, a result or a nested value.\<close>

definition wire_object :: "json thrift \<Rightarrow> nat \<Rightarrow> json \<Rightarrow> (string \<times> json) list \<Rightarrow> bool" where
  "wire_object T d fs kvs \<longleftrightarrow> d \<le> 40 \<and> fields_ok T (jkids (lib T) (Some fs)) \<and>
     kvs = picked T kvs (jkids (lib T) (Some fs)) \<and>
     (\<forall>e \<in> set (jkids (lib T) (Some fs)). \<forall>x. map_of kvs (entry_name T e) = Some x \<longrightarrow>
        wire T (d + 1) (entry_type T e) x)"

lemma struct_round_trip:
  assumes J: "lib T = tree p q" and "d \<le> 40"
    and fl: "fl = jkids (lib T) (Some fs)" and ok: "fields_ok T fl" and kvs: "kvs = picked T kvs fl"
    and rt: "\<forall>e \<in> set fl. \<forall>x. map_of kvs (entry_name T e) = Some x \<longrightarrow>
        wire T (d + 1) (entry_type T e) x \<and> round_trips T (d + 1) (entry_type T e) x"
    and w: "write_struct T b (Some fs) (JObj kvs) d = Some b'"
  shows "\<exists>w. b' = b @ w \<and> w \<noteq> [] \<and> (\<forall>r u. ahead r (w @ u) \<longrightarrow> \<not> r_bad r \<longrightarrow>
    read_struct T r (Some fs) d = (advance r (length w), JObj kvs))"
proof -
  obtain b1 l1 i1 where ea: "each (write_field T (JObj kvs) d) fl (b, 0, 0) = Some (b1, l1, i1)"
    and b': "b' = b1 @ [0]"
    using w \<open>d \<le> 40\<close> by (auto simp: write_struct_eq fl write_byte_Some split: option.splits if_splits)
  obtain w1 where w1: "b1 = b @ w1" "fields_written T (d + 1) kvs 0 fl w1"
    using fields_write [OF J ea rt] by blast
  have "read_struct T r (Some fs) d = (advance r (length (w1 @ [0])), JObj kvs)"
    if "ahead r ((w1 @ [0]) @ u)" and "\<not> r_bad r" for r u
  proof -
    have "ahead r (w1 @ 0 # u)" using that(1) by simp
    from fields_read [OF w1(2) J, of "Some fs" "[]", OF _ _ this that(2), of "rest_len r + 1"] ok kvs
    obtain i where "rounds (rest_len r + 1) (struct_round T (Some fs) d) (r, JObj [], 0) =
        (advance r (length w1 + 1), JObj kvs, i)"
      by (auto simp: fl picked_def simp del: rounds.simps)
    then show ?thesis
      using \<open>d \<le> 40\<close> by (simp add: read_struct_eq J del: rounds.simps)
  qed
  with b' w1(1) show ?thesis by (intro exI [of _ "w1 @ [0]"]) simp
qed

lemma wire_round_trips:
  assumes "wire T d t v" and J: "lib T = tree p q" and evp: "evp_codec (evp_encode T) (evp_decode T)"
  shows "round_trips T d t v"
  using assms(1)
proof (induction rule: wire.induct)
  case (wire_struct d t fs kvs)
  let ?fl = "jkids (lib T) (Some fs)"
  show ?case
    unfolding round_trips_def
  proof (intro allI impI)
    fix b b'
    assume "write_value T b t (JObj kvs) d = Some b'"
    then have w: "write_struct T b (Some fs) (JObj kvs) (d + 1) = Some b'"
      using wire_struct.hyps(1-3) by (simp add: write_value.simps)
    have "\<forall>e \<in> set ?fl. \<forall>x. map_of kvs (entry_name T e) = Some x \<longrightarrow>
        wire T (d + 1 + 1) (entry_type T e) x \<and> round_trips T (d + 1 + 1) (entry_type T e) x"
      using wire_struct.IH by simp
    from struct_round_trip [OF J _ refl wire_struct.hyps(4,5) this w] wire_struct.hyps(1)
    obtain w where w: "b' = b @ w" "w \<noteq> []" "\<And>r u. ahead r (w @ u) \<Longrightarrow> \<not> r_bad r \<Longrightarrow>
        read_struct T r (Some fs) (d + 1) = (advance r (length w), JObj kvs)"
      by auto
    have "read_value T r t (compact_type T t) d False = (advance r (length w), Some (JObj kvs))"
      if "ahead r (w @ u)" "\<not> r_bad r" for r u
      using w(3) [OF that] wire_struct.hyps(1-3) by (subst read_value_other) simp_all
    with w show "\<exists>w. b' = b @ w \<and> reads_back T d t (JObj kvs) w"
      unfolding reads_back_def by blast
  qed
next
  case (wire_bool d t b)
  then show ?case by (rule rt_bool [OF _ _ J])
next
  case (wire_int d t n)
  then show ?case by (rule rt_int [OF _ J])
next
  case (wire_i64 d t n)
  then show ?case by (rule rt_i64 [OF _ J])
next
  case (wire_double d t x)
  then show ?case by (rule rt_double [OF _ J])
next
  case (wire_string d t s)
  then show ?case by (rule rt_string [OF _ J])
next
  case (wire_binary d t bytes)
  then show ?case by (rule rt_binary [OF _ J _ evp])
next
  case (wire_list d t xs)
  then show ?case by (intro rt_list [OF _ J]) auto
next
  case (wire_map d t kvs)
  then show ?case by (intro rt_map [OF _ J]) auto
qed

section \<open>Messages\<close>

text \<open>The bytes of a reply that carries the result struct \<open>w\<close>.\<close>

definition reply_message :: "string \<Rightarrow> byte list \<Rightarrow> byte list" where
  "reply_message method w =
     [0x82, 0x41] @ varint 0 @ varint (word_of_nat (length method)) @ bytes_of method @ w"

lemma decode_reply:
  assumes J: "lib T = tree p q" and evp: "evp_codec (evp_encode T) (evp_decode T)"
    and fs: "jget (lib T) (schema T) (message_name method ''_result'') = Some fs"
    and obj: "wire_object T 0 fs kvs"
    and w: "write_struct T [] (Some fs) (JObj kvs) 0 = Some w"
    and tail: "tail = [] \<or> tail = [0]"
    and size: "length (reply_message method w @ tail) \<le> MAX_WIRE_SIZE"
  shows "enil_thrift_decode T method (Some (reply_message method w @ tail)) = Some (JObj kvs)"
proof -
  let ?m = "reply_message method w @ tail"
  let ?vm = "varint (word_of_nat (length (bytes_of method)))"
  define r0 where "r0 = \<lparr>r_p = ?m, r_n = length ?m, r_pos = 0, r_bad = False, r_strict_strings = False\<rparr>"
  define r1 where "r1 = advance r0 1"
  define r2 where "r2 = advance (advance r0 1) 1"
  define r3 where "r3 = advance r2 (length (varint 0))"
  define r4 where "r4 = advance r3 (length ?vm)"
  define r5 where "r5 = advance r4 (length method)"
  define r6 where "r6 = advance r5 (length w)"
  have lm: "length (bytes_of method) \<le> MAX_WIRE_SIZE" using size by (simp add: reply_message_def)
  have rt: "\<forall>e \<in> set (jkids (lib T) (Some fs)). \<forall>x. map_of kvs (entry_name T e) = Some x \<longrightarrow>
        wire T (0 + 1) (entry_type T e) x \<and> round_trips T (0 + 1) (entry_type T e) x"
    using obj wire_round_trips [OF _ J evp] by (auto simp: wire_object_def)
  have w': "ahead r (w @ u) \<Longrightarrow> \<not> r_bad r \<Longrightarrow>
      read_struct T r (Some fs) 0 = (advance r (length w), JObj kvs)" for r u
    using struct_round_trip [OF J _ refl _ _ rt w] obj by (auto simp: wire_object_def)
  have a0: "ahead r0 (0x82 # 0x41 # varint 0 @ ?vm @ bytes_of method @ w @ tail)"
    by (simp add: ahead_def rest_bytes_def reply_message_def r0_def)
  note a1 = ahead_Cons [OF a0]
  have a2: "ahead r2 (varint 0 @ (?vm @ bytes_of method) @ w @ tail)"
    using ahead_Cons [OF a1] by (simp add: r2_def)
  have a3: "ahead r3 ((?vm @ bytes_of method) @ w @ tail)"
    using ahead_append [OF a2] by (simp add: r3_def)
  have a5: "ahead r5 (w @ tail)"
    using ahead_append [OF a3] by (simp add: r4_def r5_def)
  have a6: "ahead r6 tail"
    using ahead_append [OF a5] by (simp add: r6_def)
  have ok: "\<not> r_bad r5" "\<not> r_bad r6" by (simp_all add: r0_def r2_def r3_def r4_def r5_def r6_def)
  have e6: "r_n r6 = r_pos r6 + length tail"
    by (simp add: r0_def r2_def r3_def r4_def r5_def r6_def reply_message_def)
  have steps: "read_byte r0 = (advance r0 1, 0x82)" "read_byte (advance r0 1) = (r2, 0x41)"
    "read_varint r2 = (r3, 0)"
    using read_byte_ahead [OF a0] read_byte_ahead [OF a1] read_varint_reads [OF a2]
    by (simp_all add: r2_def r3_def)
  have cnt: "read_varint r3 = (r4, word_of_nat (length (bytes_of method)))"
    "unat (word_of_nat (length (bytes_of method)) :: 64 word) = length method"
    "\<not> rest_len r4 < length method" "take (length method) (rest_bytes r4) = bytes_of method"
    using counted_ahead [OF a3 lm] by (simp_all add: r4_def)
  have r5: "r4\<lparr>r_pos := r_pos r4 + length method\<rparr> = r5" by (simp add: r5_def advance_def)
  have st: "read_struct T r5 (Some fs) 0 = (r6, JObj kvs)"
    using w' [OF a5 ok(1)] by (simp add: r6_def)
  have last: "r_p r6 ! r_pos r6 = 0" if "tail = [0]"
    using a6 that nth_via_drop [of "r_pos r6" "r_p r6"] by (auto simp: ahead_def rest_bytes_def prefix_def)
  let ?r7 = "if r_pos r6 < r_n r6 \<and> r_n r6 - r_pos r6 = 1 \<and> r_p r6 ! r_pos r6 = 0
    then r6\<lparr>r_pos := r_pos r6 + 1\<rparr> else r6"
  have fin: "\<not> (r_bad ?r7 \<or> r_pos ?r7 \<noteq> r_n ?r7)"
    using tail e6 ok(2) last by auto
  have sz: "\<not> MAX_WIRE_SIZE < length ?m" using size by simp
  show ?thesis
    unfolding enil_thrift_decode_def decode_message_def option.case r0_def [symmetric]
    using sz fin
    by (simp add: steps [unfolded r1_def [symmetric]] cnt [unfolded length_map] r5 fs st Let_def)
qed

section \<open>What a write does to the buffer\<close>

definition extends :: "byte list \<Rightarrow> byte list option \<Rightarrow> bool" where
  "extends b res \<longleftrightarrow> (\<forall>b'. res = Some b' \<longrightarrow>
     prefix b b' \<and> (length b \<le> MAX_WIRE_SIZE \<longrightarrow> length b' \<le> MAX_WIRE_SIZE))"

lemma extends_simps [simp]: "extends b None" "extends b (Some b)" "extends b (write_byte b c)"
  "extends b (write_varint b n)" "extends b (append_bytes b x)"
  by (auto simp: extends_def write_Some)

lemma extends_if [intro]: "extends b x \<Longrightarrow> extends b y \<Longrightarrow> extends b (if c then x else y)"
  by simp

lemma extends_bind [intro]:
  "extends b m \<Longrightarrow> (\<And>b1. extends b1 (f b1)) \<Longrightarrow>
   extends b (case m of None \<Rightarrow> None | Some b1 \<Rightarrow> f b1)"
  by (auto simp: extends_def split: option.split intro: prefix_order.trans)

lemma extends_with:
  "(\<And>x. extends b (f x)) \<Longrightarrow>
   extends b (case enil_b64_decode_alloc D S of None \<Rightarrow> None | Some x \<Rightarrow> f x)"
  "(\<And>n. extends b (g n)) \<Longrightarrow> extends b (case json_integer T v of None \<Rightarrow> None | Some n \<Rightarrow> g n)"
  "(\<And>k y. extends b (h k y b)) \<Longrightarrow> extends b ((case kx of (k, y) \<Rightarrow> h k y) b)"
  by (simp_all split: option.split prod.split)

lemma extends_each [intro]:
  assumes "\<And>x b. extends b (f x b)"
  shows "extends b (each f xs b)"
proof (induction xs arbitrary: b)
  case (Cons x xs)
  show ?case unfolding each.simps by (rule extends_bind [OF assms Cons.IH])
qed simp

lemma each_field_extends:
  assumes "\<And>e b lst i. extends b (map_option fst (f e (b, lst, i)))"
  shows "extends b (map_option fst (each f fl (b, lst, i)))"
proof (induction fl arbitrary: b lst i)
  case (Cons e fl)
  show ?case
  proof (cases "f e (b, lst, i)")
    case (Some u)
    obtain b1 l1 i1 where u: "u = (b1, l1, i1)" by (cases u)
    have "extends b (Some b1)" using assms [of b e lst i] Some u by simp
    then show ?thesis
      using Cons.IH [of b1 l1 i1] Some u by (auto simp: extends_def intro: prefix_order.trans)
  qed simp
qed simp

lemma extends_fst:
  "extends b (map_option fst None)" "extends b (map_option fst (Some (b, x)))"
  "(\<And>x. extends b (map_option fst (f x))) \<Longrightarrow>
   extends b (map_option fst (case val of None \<Rightarrow> Some (b, y) | Some x \<Rightarrow> f x))"
  by (simp_all split: option.split)

lemma extends_fst_if:
  "extends b (map_option fst u) \<Longrightarrow> extends b (map_option fst w) \<Longrightarrow> extends b (map_option fst (if c then u else w))"
  by simp

lemma extends_fst_bind:
  "extends b m \<Longrightarrow> (\<And>b1. extends b1 (map_option fst (g b1))) \<Longrightarrow>
   extends b (map_option fst (case m of None \<Rightarrow> None | Some b1 \<Rightarrow> g b1))"
  using extends_bind [of b m "\<lambda>b1. map_option fst (g b1)"] by (cases m) auto

lemma write_field_extends:
  assumes "\<And>b t v. extends b (write_value T b t v (depth + 1))"
  shows "extends b (map_option fst (write_field T v depth e (b, lst, i)))"
proof -
  obtain k f where e: "e = (k, f)" by force
  show ?thesis
    unfolding write_field_def Let_def e prod.case
    by (rule extends_fst extends_simps assms | rule extends_fst_if extends_if | rule extends_fst_bind)+
qed

lemma write_extends:
  "extends b (write_struct T b fs v depth) \<and> extends b (write_value T b t v depth)"
proof (induction "42 - depth" arbitrary: depth b fs t v rule: less_induct)
  case less
  have IH: "depth \<le> 40 \<Longrightarrow> extends b (write_value T b t v (depth + 1))"
    "depth \<le> 40 \<Longrightarrow> extends b (write_struct T b fs v (depth + 1))" for b t v fs
    using less [of "depth + 1" b fs v t] by auto
  show ?case
  proof (cases "depth \<le> 40")
    case False
    then show ?thesis by (simp add: write_struct.simps write_value.simps)
  next
    case True
    note IH = IH [OF True]
    have "extends b (case each (write_field T v depth) (jkids (lib T) fs) (b, 0, 0) of
        None \<Rightarrow> None | Some (b', _) \<Rightarrow> write_byte b' 0)"
    proof -
      have "extends b (map_option fst (each (write_field T v depth) (jkids (lib T) fs) (b, 0, 0)))"
        by (rule each_field_extends, rule write_field_extends, rule IH(1))
      then have "extends b (case map_option fst (each (write_field T v depth) (jkids (lib T) fs) (b, 0, 0)) of
          None \<Rightarrow> None | Some b' \<Rightarrow> write_byte b' 0)"
        by (rule extends_bind) simp
      then show ?thesis
        by (cases "each (write_field T v depth) (jkids (lib T) fs) (b, 0, 0)") auto
    qed
    then have 1: "extends b (write_struct T b fs v depth)" by (simp add: write_struct_eq)
    have "extends b (write_value T b t v depth)"
      unfolding write_value.simps [of T b t v depth] Let_def
      by (rule extends_with extends_simps IH | rule extends_if extends_each | rule extends_bind)+
    with 1 show ?thesis ..
  qed
qed

section \<open>Properties\<close>

text \<open>C9: A reply whose result struct the encoder wrote is decoded to exactly the values that went in:
  for every schema, every object the schema describes (in schema order, 64-bit numbers as decimal text,
  binary as base64, nesting within the depth limit), and also when the server appends the one redundant
  STOP the decoder tolerates.\<close>

theorem enil_thrift_reply_roundtrip:
  assumes "lib T = tree p q" and "evp_codec (evp_encode T) (evp_decode T)"
    and "jget (lib T) (schema T) (message_name method ''_result'') = Some fs"
    and "wire_object T 0 fs kvs"
    and "write_struct T [] (Some fs) (JObj kvs) 0 = Some w"
    and "tail = [] \<or> tail = [0]"
    and "length (reply_message method w @ tail) \<le> MAX_WIRE_SIZE"
  shows "enil_thrift_decode T method (Some (reply_message method w @ tail)) = Some (JObj kvs)"
  using assms by (rule decode_reply)

definition demo_fields :: json where
  "demo_fields = JArr [JArr [JNum 0, JStr ''success'', JStr ''string''], JArr [JNum 1, JStr ''count'', JStr ''i64'']]"

definition demo_thrift :: "json thrift" where
  "demo_thrift = \<lparr>lib = tree (\<lambda>s. None) (\<lambda>j. []), schema = Some (JObj [(''m_result'', demo_fields)]),
     evp_encode = rfc_encode, evp_decode = rfc_decode, double_bits = (\<lambda>x. 0), bits_double = (\<lambda>b. 0)\<rparr>"

lemma demo_items [simp]:
  "lib demo_thrift = tree (\<lambda>s. None) (\<lambda>j. [])"
  "array_item demo_thrift (Some (JArr xs)) i = (if i < length xs then Some (xs ! i) else None)"
  "json_string demo_thrift (Some (JStr s)) = s"
  "json_int demo_thrift (Some (JNum 0)) = 0" "json_int demo_thrift (Some (JNum 1)) = 1"
  by (simp_all add: demo_thrift_def array_item_def json_string_def json_int_def INT_MIN_def INT_MAX_def)

lemma demo_types [simp]: "schema_kind demo_thrift (Some (JStr s)) = s"
  "compact_type demo_thrift (Some (JStr s)) = compact_type_of s"
  by (simp_all add: schema_kind_def compact_type_def)

theorem enil_thrift_reply_roundtrip_witness:
  "enil_thrift_decode demo_thrift ''m''
     (Some (reply_message ''m'' [0x08, 0, 1, 65, 0x16, 13, 0] @ [0])) =
   Some (JObj [(''success'', JStr ''A''), (''count'', JStr ''-7'')])"
proof -
  let ?kvs = "[(''success'', JStr ''A''), (''count'', JStr ''-7'')]"
  have m7: "show_int (- 7) = ''-7''" by code_simp
  have entries: "entry_id demo_thrift (k, JArr [JNum x, JStr n, JStr t]) = json_int demo_thrift (Some (JNum x))"
    "entry_name demo_thrift (k, JArr [JNum x, JStr n, JStr t]) = n"
    "entry_type demo_thrift (k, JArr [JNum x, JStr n, JStr t]) = Some (JStr t)" for k x n t
    by (simp_all add: entry_id_def entry_name_def entry_type_def)
  have fs: "jkids (lib demo_thrift) (Some demo_fields) =
      [([], JArr [JNum 0, JStr ''success'', JStr ''string'']), ([], JArr [JNum 1, JStr ''count'', JStr ''i64''])]"
    by (simp add: demo_fields_def)
  have strs: "wire demo_thrift 1 (Some (JStr ''string'')) (JStr ''A'')"
    "wire demo_thrift 1 (Some (JStr ''i64'')) (JStr ''-7'')"
    using wire_string [of 1 demo_thrift "Some (JStr ''string'')" "''A''"]
      wire_i64 [of 1 demo_thrift "Some (JStr ''i64'')" "- 7"]
    by (simp_all add: compact_type_of_def NUL_def LLONG_MIN_def LLONG_MAX_def m7)
  have obj: "wire_object demo_thrift 0 demo_fields ?kvs"
    using strs unfolding wire_object_def fs
    by (simp add: fields_ok_def entries picked_def)
  have byteA: "byte_of CHR ''A'' = 65" by (simp add: byte_of_def)
  have j7: "json_integer demo_thrift (JStr ''-7'') = Some (- 7)"
    unfolding m7 [symmetric] json_integer_def
    using strtoll10_show_int [of "- 7"] by (simp add: LLONG_MIN_def LLONG_MAX_def) (simp add: m7)
  have w: "write_struct demo_thrift [] (Some demo_fields) (JObj ?kvs) 0 = Some [0x08, 0, 1, 65, 0x16, 13, 0]"
    unfolding write_struct_eq fs
    by (simp add: write_field_obj [OF demo_items(1)] entries Let_def compact_type_of_def write_value.simps j7 byteA
        write_varint.simps zigzag_encode_def write_byte_def append_bytes_def MAX_WIRE_SIZE_def pair_byte_def)
  have "jget (lib demo_thrift) (schema demo_thrift) (message_name ''m'' ''_result'') = Some demo_fields"
    by (simp add: demo_thrift_def message_name_def)
  moreover have "length (reply_message ''m'' [0x08, 0, 1, 65, 0x16, 13, 0] @ [0]) \<le> MAX_WIRE_SIZE"
    by (simp add: reply_message_def varint.simps MAX_WIRE_SIZE_def)
  moreover have "evp_codec (evp_encode demo_thrift) (evp_decode demo_thrift)"
    using rfc4648.evp_codec_axioms by (simp add: demo_thrift_def)
  ultimately show ?thesis
    using enil_thrift_reply_roundtrip [OF demo_items(1) _ _ obj w] by blast
qed

text \<open>An encoded call is what was in the buffer, then the protocol header with the method's name, and
  never more than the wire limit: encoding only appends, whatever the arguments.\<close>

theorem enil_thrift_encode_appends:
  assumes "enil_thrift_encode T method args out = Some b'"
  shows "prefix (out @ [0x82, 0x21, 0] @ varint (word_of_nat (length method)) @ bytes_of method) b' \<and>
    length b' \<le> MAX_WIRE_SIZE"
proof -
  let ?h = "out @ [0x82, 0x21, 0] @ varint (word_of_nat (length method)) @ bytes_of method"
  have v0: "varint 0 = [0]" by (simp add: varint.simps)
  obtain fs where "write_struct T ?h (Some fs) args 0 = Some b'" and "length ?h \<le> MAX_WIRE_SIZE"
    using assms by (auto simp: enil_thrift_encode_def write_Some v0 split: option.splits)
  with write_extends [of ?h T "Some fs" args 0] show ?thesis by (auto simp: extends_def)
qed

theorem enil_thrift_encode_appends_witness:
  "\<exists>b'. enil_thrift_encode \<lparr>lib = tree (\<lambda>s. None) (\<lambda>j. []), schema = Some (JObj [(''m_args'', JArr [])]),
     evp_encode = rfc_encode, evp_decode = rfc_decode, double_bits = (\<lambda>x. 0), bits_double = (\<lambda>b. 0)\<rparr>
     ''m'' (JObj []) [] = Some b' \<and> prefix [0x82, 0x21, 0] b'"
proof -
  let ?T = "\<lparr>lib = tree (\<lambda>s. None) (\<lambda>j. []), schema = Some (JObj [(''m_args'', JArr [])]),
     evp_encode = rfc_encode, evp_decode = rfc_decode, double_bits = (\<lambda>x. 0), bits_double = (\<lambda>b. 0)\<rparr>"
  have "enil_thrift_encode ?T ''m'' (JObj []) [] = Some [0x82, 0x21, 0, 1, byte_of CHR ''m'', 0]"
    by (simp add: enil_thrift_encode_def message_name_def write_struct_eq write_varint.simps write_byte_def
        append_bytes_def MAX_WIRE_SIZE_def)
  from enil_thrift_encode_appends [OF this] this show ?thesis
    by (auto simp: prefix_def)
qed

end
