(* ===== verification/ENIL_Identity.thy ===== *)
theory ENIL_Identity
  imports ENIL_Json
begin

text \<open>
  \<open>source/shared/enil_identity.c\<close>: the client identity a saved login is bound to, its JSON form
  and the per-thread binding.  A failed parse leaves the out parameter zeroed (\<open>no_identity\<close>).
\<close>

section \<open>Profiles\<close>

record enil_identity_t =
  profile_id :: string
  transport :: string
  application :: string
  user_agent :: string
  system_name :: string
  model_name :: string
  gateway_version :: string
  auto_login_required :: bool

definition TAB :: char where "TAB = CHR 0x09"

definition no_identity :: enil_identity_t where
  "no_identity = \<lparr>profile_id = [], transport = [], application = [], user_agent = [],
     system_name = [], model_name = [], gateway_version = [], auto_login_required = False\<rparr>"

definition legacy_chrome_identity :: enil_identity_t where
  "legacy_chrome_identity = \<lparr>profile_id = ''chrome'', transport = ''chrome-gateway'',
     application = ''CHROMEOS'' @ [TAB] @ ''3.7.2'' @ [TAB] @ ''Chrome_OS'',
     user_agent = ''Mozilla/5.0 (Macintosh; Intel Mac OS X 10_15_7) '' @
       ''AppleWebKit/537.36 (KHTML, like Gecko) Chrome/145.0.0.0 Safari/537.36'',
     system_name = ''CHROMEOS'', model_name = ''CHROME'', gateway_version = ''3.7.2'',
     auto_login_required = False\<rparr>"

definition windows_identity :: enil_identity_t where
  "windows_identity = \<lparr>profile_id = ''desktopwin'', transport = ''native-thrift'',
     application = ''DESKTOPWIN'' @ [TAB] @ ''9.7.0.3556'' @ [TAB] @ ''WINDOWS'' @ [TAB] @ ''10.0.0-NT-x64'',
     user_agent = ''Line/9.7.0.3556'', system_name = ''DESKTOPWIN'', model_name = ''DESKTOPWIN'',
     gateway_version = ''3.7.2'', auto_login_required = True\<rparr>"

definition android_identity :: enil_identity_t where
  "android_identity = \<lparr>profile_id = ''android'', transport = ''native-thrift'',
     application = ''ANDROIDSECONDARY'' @ [TAB] @ ''26.6.2'' @ [TAB] @ ''Android OS'' @ [TAB] @ ''16'',
     user_agent = ''Line/26.6.2'', system_name = ''Pixel Tablet'', model_name = ''Pixel Tablet'',
     gateway_version = ''3.7.2'', auto_login_required = True\<rparr>"

definition enil_identity_default :: "string option \<Rightarrow> enil_identity_t option" where
  "enil_identity_default profile =
     (case profile of
        None \<Rightarrow> None
      | Some p \<Rightarrow>
          if p = ''chrome'' then Some legacy_chrome_identity
          else if p = ''desktopwin'' then Some windows_identity
          else if p = ''android'' then Some android_identity
          else None)"

section \<open>JSON\<close>

definition allowed_char :: "bool \<Rightarrow> char \<Rightarrow> bool" where
  "allowed_char allow_tabs c \<longleftrightarrow>
     \<not> (((of_char c :: nat) < 32 \<and> \<not> (allow_tabs \<and> c = TAB)) \<or> (of_char c :: nat) = 127)"

definition read_string :: "'j cjson \<Rightarrow> 'j \<Rightarrow> string \<Rightarrow> nat \<Rightarrow> bool \<Rightarrow> string option" where
  "read_string J json key cap allow_tabs =
     (case jstr J (getItemCS J json key) of
        None \<Rightarrow> None
      | Some s \<Rightarrow>
          if length s = 0 \<or> cap \<le> length s then None
          else if \<not> list_all (allowed_char allow_tabs) s then None
          else Some s)"

text \<open>Everything before and including the first tab (\<open>strchr\<close>, \<open>prefix_length\<close>).\<close>

definition app_prefix :: "string \<Rightarrow> string option" where
  "app_prefix s = (if TAB \<in> set s then Some (takeWhile (\<lambda>c. c \<noteq> TAB) s @ [TAB]) else None)"

definition enil_identity_parse :: "'j cjson \<Rightarrow> 'j option \<Rightarrow> bool \<times> enil_identity_t" where
  "enil_identity_parse J json =
     (case json of
        None \<Rightarrow> (True, legacy_chrome_identity)
      | Some j \<Rightarrow>
          if \<not> isObject J j then (False, no_identity)
          else
            (let version = getItemCS J j ''schemaVersion''; tr = jstr J (getItemCS J j ''transport'')
             in if \<not> jis (isNumber J) version \<or> \<not> jis (\<lambda>v. valuedouble J v = 1) version \<or>
                   (tr \<noteq> Some ''chrome-gateway'' \<and> tr \<noteq> Some ''native-thrift'') then (False, no_identity)
                else
                  (let auto_login = getItemCS J j ''autoLoginIsRequired''
                   in if auto_login \<noteq> None \<and> \<not> jis (isBool J) auto_login then (False, no_identity)
                      else
                        (case (read_string J j ''profileId'' 16 False, read_string J j ''application'' 160 True,
                               read_string J j ''userAgent'' 256 False, read_string J j ''systemName'' 64 False,
                               read_string J j ''modelName'' 64 False, read_string J j ''gatewayVersion'' 32 False) of
                           (Some profile, Some app, Some ua, Some sys, Some model, Some gw) \<Rightarrow>
                             (case enil_identity_default (Some profile) of
                                None \<Rightarrow> (False, no_identity)
                              | Some known \<Rightarrow>
                                  if the tr \<noteq> transport known \<and>
                                     \<not> (profile = ''desktopwin'' \<and> the tr = ''chrome-gateway'')
                                  then (False, no_identity)
                                  else (case app_prefix (application known) of
                                          None \<Rightarrow> (False, no_identity)
                                        | Some pre \<Rightarrow>
                                            if \<not> has_prefix app pre then (False, no_identity)
                                            else (True, \<lparr>profile_id = profile, transport = the tr, application = app,
                                                   user_agent = ua, system_name = sys, model_name = model,
                                                   gateway_version = gw,
                                                   auto_login_required = jis (isTrue J) auto_login\<rparr>)))
                         | _ \<Rightarrow> (False, no_identity)))))"

definition enil_identity_to_json :: "'j cjson \<Rightarrow> enil_identity_t option \<Rightarrow> 'j option" where
  "enil_identity_to_json J identity =
     (case identity of
        None \<Rightarrow> None
      | Some v \<Rightarrow>
          Some (addItem J (addItem J (addItem J (addItem J (addItem J (addItem J (addItem J (addItem J (addItem J
            (mkObject J)
            ''schemaVersion'' (mkNumber J 1))
            ''transport'' (mkString J (transport v)))
            ''profileId'' (mkString J (profile_id v)))
            ''application'' (mkString J (application v)))
            ''userAgent'' (mkString J (user_agent v)))
            ''systemName'' (mkString J (system_name v)))
            ''modelName'' (mkString J (model_name v)))
            ''gatewayVersion'' (mkString J (gateway_version v)))
            ''autoLoginIsRequired'' (mkBool J (auto_login_required v))))"

section \<open>The binding of a thread\<close>

text \<open>
  What each thread has bound.  \<open>key_ready\<close> is the outcome of creating the key; the outcomes of the
  two \<open>pthread_setspecific\<close> calls and of \<open>malloc\<close> are arguments.
\<close>

record 't identity_binding =
  key_ready :: bool
  current :: "'t \<Rightarrow> enil_identity_t option"

definition enil_identity_current :: "'t identity_binding \<Rightarrow> 't \<Rightarrow> enil_identity_t option" where
  "enil_identity_current B t = (if key_ready B then current B t else None)"

definition enil_identity_bind ::
  "bool \<Rightarrow> bool \<Rightarrow> bool \<Rightarrow> 't identity_binding \<Rightarrow> 't \<Rightarrow> enil_identity_t option \<Rightarrow> 't identity_binding \<times> bool" where
  "enil_identity_bind clear_ok alloc_ok set_ok B t identity =
     (if \<not> key_ready B then (B, False)
      else if \<not> clear_ok then (B, False)
      else
        (let B1 = B\<lparr>current := (current B)(t := None)\<rparr>;
             copy = (if alloc_ok then identity else None)
         in if identity \<noteq> None \<and> copy = None then (B1, False)
            else if \<not> set_ok then (B1, False)
            else (B1\<lparr>current := (current B1)(t := copy)\<rparr>, True)))"

section \<open>Properties\<close>

text \<open>What the fixed-size fields of the C struct can hold and \<open>read_string\<close> lets through.\<close>

definition fits :: "nat \<Rightarrow> bool \<Rightarrow> string \<Rightarrow> bool" where
  "fits cap tabs s \<longleftrightarrow> 0 < length s \<and> length s < cap \<and> list_all (allowed_char tabs) s"

definition well_formed :: "enil_identity_t \<Rightarrow> bool" where
  "well_formed v \<longleftrightarrow>
     fits 16 False (profile_id v) \<and> fits 160 True (application v) \<and> fits 256 False (user_agent v) \<and>
     fits 64 False (system_name v) \<and> fits 64 False (model_name v) \<and> fits 32 False (gateway_version v) \<and>
     (\<exists>known pre. enil_identity_default (Some (profile_id v)) = Some known \<and>
        app_prefix (application known) = Some pre \<and> has_prefix (application v) pre \<and>
        (transport v = transport known \<or> (profile_id v = ''desktopwin'' \<and> transport v = ''chrome-gateway'')))"

lemma default_transport:
  "enil_identity_default p = Some known \<Longrightarrow> transport known = ''chrome-gateway'' \<or> transport known = ''native-thrift''"
  by (auto simp: enil_identity_default_def legacy_chrome_identity_def windows_identity_def android_identity_def
      split: option.splits if_splits)

lemma default_native:
  "enil_identity_default (Some p) = Some known \<Longrightarrow> transport known = ''native-thrift'' \<longleftrightarrow> p \<noteq> ''chrome''"
  by (auto simp: enil_identity_default_def legacy_chrome_identity_def windows_identity_def android_identity_def
      split: if_splits)

lemma read_string_fits: "read_string J j k n t = Some s \<Longrightarrow> fits n t s"
  by (auto simp: read_string_def fits_def split: option.splits if_splits)

lemma parse_well_formed:
  "enil_identity_parse J (Some j) = (True, v) \<Longrightarrow> well_formed v"
  by (auto simp: enil_identity_parse_def well_formed_def Let_def
      split: if_splits option.splits dest!: read_string_fits)

lemma read_string_of:
  "getItemCS J j k = Some (mkString J s) \<Longrightarrow> isString J (mkString J s) \<Longrightarrow> valuestring J (mkString J s) = s \<Longrightarrow>
   fits n t s \<Longrightarrow> read_string J j k n t = Some s"
  by (simp add: read_string_def fits_def)

lemma legacy_well_formed: "well_formed legacy_chrome_identity"
  by (simp add: well_formed_def fits_def legacy_chrome_identity_def enil_identity_default_def allowed_char_def
      TAB_def app_prefix_def has_prefix_def)

lemma identity_of_json:
  assumes "cjson_laws J" and "well_formed v" and "enil_identity_to_json J (Some v) = Some j"
  shows "enil_identity_parse J (Some j) = (True, v)"
proof -
  note obj = cjson_laws.object_new [OF assms(1)] cjson_laws.add_item [OF assms(1)]
  note make = cjson_laws.string_new [OF assms(1)] cjson_laws.number_new [OF assms(1)]
    cjson_laws.bool_new [OF assms(1)]
  have j: "isObject J j" "children J j =
      [(''schemaVersion'', mkNumber J 1), (''transport'', mkString J (transport v)),
       (''profileId'', mkString J (profile_id v)), (''application'', mkString J (application v)),
       (''userAgent'', mkString J (user_agent v)), (''systemName'', mkString J (system_name v)),
       (''modelName'', mkString J (model_name v)), (''gatewayVersion'', mkString J (gateway_version v)),
       (''autoLoginIsRequired'', mkBool J (auto_login_required v))]"
    using assms(3) by (auto simp: enil_identity_to_json_def obj)
  note get = cjson_laws.get_cs [OF assms(1) j(1), unfolded j(2)]
  obtain known pre where w: "fits 16 False (profile_id v)" "fits 160 True (application v)"
      "fits 256 False (user_agent v)" "fits 64 False (system_name v)" "fits 64 False (model_name v)"
      "fits 32 False (gateway_version v)"
    and k: "enil_identity_default (Some (profile_id v)) = Some known" "app_prefix (application known) = Some pre"
      "has_prefix (application v) pre"
    and t: "transport v = transport known \<or> (profile_id v = ''desktopwin'' \<and> transport v = ''chrome-gateway'')"
    using assms(2) by (auto simp: well_formed_def)
  have strings: "read_string J j ''profileId'' 16 False = Some (profile_id v)"
    "read_string J j ''application'' 160 True = Some (application v)"
    "read_string J j ''userAgent'' 256 False = Some (user_agent v)"
    "read_string J j ''systemName'' 64 False = Some (system_name v)"
    "read_string J j ''modelName'' 64 False = Some (model_name v)"
    "read_string J j ''gatewayVersion'' 32 False = Some (gateway_version v)"
    using w by (simp_all add: read_string_of get make)
  have tr: "jstr J (getItemCS J j ''transport'') = Some (transport v)" by (simp add: get make)
  have tk: "transport v = ''chrome-gateway'' \<or> transport v = ''native-thrift''"
    using t default_transport [OF k(1)] by auto
  show ?thesis
    using j(1) t tk
    by (auto simp: enil_identity_parse_def strings tr k Let_def) (auto simp: get make)
qed

text \<open>A saved identity survives its JSON form: for every JSON library that behaves as documented,
  parsing what \<open>enil_identity_to_json\<close> built gives back exactly the identity, provided it is one the
  parser would accept at all (known profile, matching transport, fields within their buffers).\<close>

theorem enil_identity_json_roundtrip:
  assumes "cjson_laws J" and "well_formed v" and "enil_identity_to_json J (Some v) = Some j"
  shows "enil_identity_parse J (Some j) = (True, v)"
  using assms by (rule identity_of_json)

theorem enil_identity_json_roundtrip_witness:
  "\<exists>j. enil_identity_to_json (tree (\<lambda>_. None) (\<lambda>_. [])) (Some android_identity) = Some j \<and>
       enil_identity_parse (tree (\<lambda>_. None) (\<lambda>_. [])) (Some j) = (True, android_identity)"
proof -
  have "well_formed android_identity"
    by (simp add: well_formed_def fits_def android_identity_def enil_identity_default_def allowed_char_def
        TAB_def app_prefix_def has_prefix_def)
  then show ?thesis
    using enil_identity_json_roundtrip [OF tree.cjson_laws_axioms, of android_identity "\<lambda>_. None" "\<lambda>_. []"]
    by (simp add: enil_identity_to_json_def)
qed

text \<open>C19: Only what is safe to send is accepted: a parsed identity fits its fixed-size fields with no
  control characters (so no header can be split), carries the application prefix of its profile, and
  an Android (native) login is never routed through the Chrome gateway, nor a Chrome one through the
  native protocol; everything else yields the zeroed identity and an error.\<close>

theorem enil_identity_parse_safe:
  "(case enil_identity_parse J json of
      (False, v) \<Rightarrow> v = no_identity
    | (True, v) \<Rightarrow>
        well_formed v \<and> (profile_id v = ''android'' \<longrightarrow> transport v = ''native-thrift'') \<and>
        (profile_id v = ''chrome'' \<longrightarrow> transport v = ''chrome-gateway''))"
proof -
  obtain b v where r: "enil_identity_parse J json = (b, v)" by force
  show ?thesis
  proof (cases b)
    case False
    with r show ?thesis
      by (auto simp: enil_identity_parse_def Let_def split: option.splits if_splits)
  next
    case True
    have wf: "well_formed v"
    proof (cases json)
      case None
      with r True have "v = legacy_chrome_identity" by (simp add: enil_identity_parse_def)
      then show ?thesis by (simp add: legacy_well_formed)
    next
      case (Some j)
      with r True parse_well_formed [of J j v] show ?thesis by simp
    qed
    then obtain known where k: "enil_identity_default (Some (profile_id v)) = Some known"
      "transport v = transport known \<or> (profile_id v = ''desktopwin'' \<and> transport v = ''chrome-gateway'')"
      by (auto simp: well_formed_def)
    then have "profile_id v = ''android'' \<Longrightarrow> transport v = ''native-thrift''"
      "profile_id v = ''chrome'' \<Longrightarrow> transport v = ''chrome-gateway''"
      by (auto simp: enil_identity_default_def legacy_chrome_identity_def android_identity_def)
    with r True wf show ?thesis by simp
  qed
qed

theorem enil_identity_parse_safe_witness:
  "\<exists>v. enil_identity_parse (tree (\<lambda>_. None) (\<lambda>_. [])) None = (True, v) \<and> well_formed v \<and>
     profile_id v = ''chrome'' \<and> transport v = ''chrome-gateway''"
proof -
  have "enil_identity_parse (tree (\<lambda>_. None) (\<lambda>_. [])) None = (True, legacy_chrome_identity)"
    by (simp add: enil_identity_parse_def)
  moreover have "profile_id legacy_chrome_identity = ''chrome''"
    by (simp add: legacy_chrome_identity_def)
  ultimately show ?thesis
    using enil_identity_parse_safe [of "tree (\<lambda>_. None) (\<lambda>_. [])" None] by simp
qed

end
