(* ===== verification/ENIL_Health.thy ===== *)
theory ENIL_Health
  imports ENIL_Prelude
begin

text \<open>
  \<open>source/shared/enil_health.c\<close> and \<open>enil_atomic.h\<close>: the sticky failure gate.  The worker flag is
  global, a LINE flag belongs to one account's health object, and a thread acts on the object it has
  bound.  \<open>health_state\<close> is the heap of health objects with every thread's binding; each operation
  takes the thread that runs it.  Status rows posted for the user are the list \<open>posts\<close>.
\<close>

section \<open>Atomic flags\<close>

text \<open>
  Each round of \<open>enil_atomic_exchange\<close> loads the cell and then compares and swaps; between the two
  another thread may have written.  The list has, for each round, the value at the load and at the
  swap; the result is the previous value, the value stored, and the rounds not needed.
\<close>

fun enil_atomic_exchange :: "(int \<times> int) list \<Rightarrow> int \<Rightarrow> (int \<times> int) option" where
  "enil_atomic_exchange [] new = None"
| "enil_atomic_exchange ((previous, now) # rest) new =
     (if now = previous then Some (previous, new) else enil_atomic_exchange rest new)"

lemma enil_atomic_exchange_atomic:
  "enil_atomic_exchange rs new = Some (previous, stored) \<Longrightarrow>
   stored = new \<and> (previous, previous) \<in> set rs"
  by (induction rs new rule: enil_atomic_exchange.induct) (auto split: if_splits)

section \<open>The gate\<close>

datatype enil_err_source_t = ENIL_ERR_NONE | ENIL_ERR_WORKER | ENIL_ERR_LINE

record enil_health =
  line_failed :: bool
  account_id :: string

datatype status_post =
    StatusError string string
  | StatusDone string string

record ('t, 'h) health_state =
  worker_failed :: bool
  objects :: "'h \<Rightarrow> enil_health option"
  bound :: "'t \<Rightarrow> 'h option"
  posts :: "status_post list"

text \<open>\<open>None\<close> for a thread with nothing bound, and for one whose object was freed.\<close>

definition current_health :: "('t, 'h) health_state \<Rightarrow> 't \<Rightarrow> 'h option" where
  "current_health S t = bound S t"

definition enil_health_bind :: "('t, 'h) health_state \<Rightarrow> 't \<Rightarrow> 'h option \<Rightarrow> ('t, 'h) health_state" where
  "enil_health_bind S t h = S\<lparr>bound := (bound S)(t := h)\<rparr>"

text \<open>\<open>h\<close> is the address \<open>calloc\<close> gave (\<open>None\<close>: it failed).\<close>

definition enil_health_create ::
  "('t, 'h) health_state \<Rightarrow> 'h option \<Rightarrow> string option \<Rightarrow> ('t, 'h) health_state \<times> 'h option" where
  "enil_health_create S h account =
     (case h of
        None \<Rightarrow> (S, None)
      | Some a \<Rightarrow>
          (S\<lparr>objects := (objects S)(a \<mapsto>
               \<lparr>line_failed = False, account_id = (case account of None \<Rightarrow> [] | Some s \<Rightarrow> take 63 (cstr s))\<rparr>)\<rparr>, Some a))"

definition enil_health_destroy :: "('t, 'h) health_state \<Rightarrow> 't \<Rightarrow> 'h option \<Rightarrow> ('t, 'h) health_state" where
  "enil_health_destroy S t h =
     (case h of
        None \<Rightarrow> S
      | Some a \<Rightarrow>
          (let S1 = (if current_health S t = Some a then enil_health_bind S t None else S)
           in S1\<lparr>objects := (objects S1)(a := None)\<rparr>))"

definition post :: "status_post \<Rightarrow> ('t, 'h) health_state \<Rightarrow> ('t, 'h) health_state" where
  "post p S = S\<lparr>posts := posts S @ [p]\<rparr>"

definition worker_set_failure :: "('t, 'h) health_state \<Rightarrow> ('t, 'h) health_state" where
  "worker_set_failure S = post (StatusError ''error.worker'' ''Worker Error'') (S\<lparr>worker_failed := True\<rparr>)"

definition worker_clear_failure :: "('t, 'h) health_state \<Rightarrow> ('t, 'h) health_state" where
  "worker_clear_failure S =
     (let S1 = S\<lparr>worker_failed := False\<rparr>
      in if worker_failed S then post (StatusDone ''error.worker'' ''Reconnecting'') S1 else S1)"

definition set_line :: "('t, 'h) health_state \<Rightarrow> 'h \<Rightarrow> bool \<Rightarrow> ('t, 'h) health_state" where
  "set_line S a v = S\<lparr>objects := (objects S)(a := map_option (line_failed_update (\<lambda>_. v)) (objects S a))\<rparr>"

definition line_of :: "('t, 'h) health_state \<Rightarrow> 'h \<Rightarrow> bool" where
  "line_of S a = (case objects S a of None \<Rightarrow> False | Some h \<Rightarrow> line_failed h)"

definition line_set_failure :: "('t, 'h) health_state \<Rightarrow> 't \<Rightarrow> ('t, 'h) health_state" where
  "line_set_failure S t =
     (case current_health S t of
        None \<Rightarrow> S
      | Some a \<Rightarrow> post (StatusError ''error.line'' ''LINE Error'') (set_line S a True))"

definition line_clear_failure :: "('t, 'h) health_state \<Rightarrow> 't \<Rightarrow> ('t, 'h) health_state" where
  "line_clear_failure S t =
     (case current_health S t of
        None \<Rightarrow> S
      | Some a \<Rightarrow>
          (let S1 = set_line S a False
           in if line_of S a then post (StatusDone ''error.line'' ''Reconnecting'') S1 else S1))"

definition enil_health_set_failure ::
  "('t, 'h) health_state \<Rightarrow> 't \<Rightarrow> enil_err_source_t \<Rightarrow> ('t, 'h) health_state" where
  "enil_health_set_failure S t src =
     (if src = ENIL_ERR_WORKER then worker_set_failure S
      else if src = ENIL_ERR_LINE then line_set_failure S t else S)"

definition enil_health_clear_failure ::
  "('t, 'h) health_state \<Rightarrow> 't \<Rightarrow> enil_err_source_t \<Rightarrow> ('t, 'h) health_state" where
  "enil_health_clear_failure S t src =
     (if src = ENIL_ERR_WORKER then worker_clear_failure S
      else if src = ENIL_ERR_LINE then line_clear_failure S t else S)"

definition enil_health_is_failed :: "('t, 'h) health_state \<Rightarrow> 't \<Rightarrow> enil_err_source_t \<Rightarrow> bool" where
  "enil_health_is_failed S t src =
     (if src = ENIL_ERR_WORKER then worker_failed S
      else if src = ENIL_ERR_LINE then
        (case current_health S t of None \<Rightarrow> False | Some a \<Rightarrow> line_of S a)
      else False)"

definition enil_health_any_failed :: "('t, 'h) health_state \<Rightarrow> 't \<Rightarrow> bool" where
  "enil_health_any_failed S t =
     (worker_failed S \<or> (case current_health S t of None \<Rightarrow> False | Some a \<Rightarrow> line_of S a))"

section \<open>Runs\<close>

text \<open>
  The operations of all threads, in the order in which they take effect; each acts on the shared state as
  written above, at once.  Nothing restricts the order, the addresses or the bindings.
\<close>

datatype ('t, 'h) health_op =
    HealthCreate "'h option" "string option"
  | HealthDestroy 't "'h option"
  | HealthBind 't "'h option"
  | SetFailure 't enil_err_source_t
  | ClearFailure 't enil_err_source_t

fun health_do :: "('t, 'h) health_op \<Rightarrow> ('t, 'h) health_state \<Rightarrow> ('t, 'h) health_state" where
  "health_do (HealthCreate a account) S = fst (enil_health_create S a account)"
| "health_do (HealthDestroy t a) S = enil_health_destroy S t a"
| "health_do (HealthBind t a) S = enil_health_bind S t a"
| "health_do (SetFailure t src) S = enil_health_set_failure S t src"
| "health_do (ClearFailure t src) S = enil_health_clear_failure S t src"

definition health_run :: "('t, 'h) health_op list \<Rightarrow> ('t, 'h) health_state \<Rightarrow> ('t, 'h) health_state" where
  "health_run ops S = fold health_do ops S"

text \<open>The state just before the \<open>i\<close>-th operation.\<close>

abbreviation health_before :: "('t, 'h) health_op list \<Rightarrow> nat \<Rightarrow> ('t, 'h) health_state \<Rightarrow> ('t, 'h) health_state" where
  "health_before ops i S \<equiv> health_run (take i ops) S"

text \<open>The \<open>i\<close>-th operation raises, or lifts, the LINE flag of the account whose object is \<open>a\<close>.\<close>

definition raises_line :: "('t, 'h) health_state \<Rightarrow> ('t, 'h) health_op list \<Rightarrow> 'h \<Rightarrow> nat \<Rightarrow> bool" where
  "raises_line S ops a i \<longleftrightarrow> (\<exists>t. ops ! i = SetFailure t ENIL_ERR_LINE \<and> bound (health_before ops i S) t = Some a)"

definition lifts_line :: "('t, 'h) health_state \<Rightarrow> ('t, 'h) health_op list \<Rightarrow> 'h \<Rightarrow> nat \<Rightarrow> bool" where
  "lifts_line S ops a i \<longleftrightarrow> (\<exists>t. ops ! i = ClearFailure t ENIL_ERR_LINE \<and> bound (health_before ops i S) t = Some a)"

definition raises_worker :: "('t, 'h) health_op list \<Rightarrow> nat \<Rightarrow> bool" where
  "raises_worker ops i \<longleftrightarrow> (\<exists>t. ops ! i = SetFailure t ENIL_ERR_WORKER)"

definition lifts_worker :: "('t, 'h) health_op list \<Rightarrow> nat \<Rightarrow> bool" where
  "lifts_worker ops i \<longleftrightarrow> (\<exists>t. ops ! i = ClearFailure t ENIL_ERR_WORKER)"

text \<open>Of \<open>n\<close> operations one raises and none after it lifts; or, raised at the start, none lifts.\<close>

definition stands :: "bool \<Rightarrow> (nat \<Rightarrow> bool) \<Rightarrow> (nat \<Rightarrow> bool) \<Rightarrow> nat \<Rightarrow> bool" where
  "stands before raises lifts n \<longleftrightarrow>
     (\<exists>i < n. raises i \<and> (\<forall>j < n. i < j \<longrightarrow> \<not> lifts j)) \<or> (before \<and> (\<forall>j < n. \<not> lifts j))"

text \<open>The account's object is neither created anew nor destroyed during the run.\<close>

definition object_kept :: "('t, 'h) health_op list \<Rightarrow> 'h \<Rightarrow> bool" where
  "object_kept ops a \<longleftrightarrow> (\<forall>t account. HealthCreate (Some a) account \<notin> set ops \<and> HealthDestroy t (Some a) \<notin> set ops)"

lemmas health_ops = enil_health_create_def enil_health_bind_def enil_health_destroy_def
  enil_health_set_failure_def enil_health_clear_failure_def worker_set_failure_def worker_clear_failure_def
  line_set_failure_def line_clear_failure_def set_line_def post_def current_health_def Let_def

lemma stands_0: "stands before raises lifts 0 = before"
  by (simp add: stands_def)

lemma stands_Suc:
  assumes "\<not> (raises n \<and> lifts n)"
  shows "stands before raises lifts (Suc n) \<longleftrightarrow> raises n \<or> (\<not> lifts n \<and> stands before raises lifts n)"
  using assms unfolding stands_def less_Suc_eq by (metis less_asym less_irrefl)

lemma stands_cong:
  assumes "\<And>i. i < n \<Longrightarrow> raises i = raises' i" and "\<And>i. i < n \<Longrightarrow> lifts i = lifts' i"
  shows "stands before raises lifts n = stands before raises' lifts' n"
  using assms unfolding stands_def by metis

lemma run_snoc: "health_run (ops @ [op]) S = health_do op (health_run ops S)"
  by (simp add: health_run_def)

lemma line_do:
  assumes "objects S a \<noteq> None" and "object_kept [op] a"
  shows "objects (health_do op S) a \<noteq> None"
    and "line_of (health_do op S) a \<longleftrightarrow>
      (\<exists>t. op = SetFailure t ENIL_ERR_LINE \<and> bound S t = Some a) \<or>
      (\<not> (\<exists>t. op = ClearFailure t ENIL_ERR_LINE \<and> bound S t = Some a) \<and> line_of S a)"
  using assms by (cases op; auto simp: health_ops line_of_def object_kept_def split: option.splits if_splits)+

lemma worker_do:
  "worker_failed (health_do op S) \<longleftrightarrow>
     (\<exists>t. op = SetFailure t ENIL_ERR_WORKER) \<or> (\<not> (\<exists>t. op = ClearFailure t ENIL_ERR_WORKER) \<and> worker_failed S)"
  by (cases op; auto simp: health_ops split: option.splits if_splits)

lemma worker_run: "worker_failed (health_run ops S) = stands (worker_failed S) (raises_worker ops) (lifts_worker ops) (length ops)"
proof (induction ops rule: rev_induct)
  case (snoc op ops)
  have "stands (worker_failed S) (raises_worker (ops @ [op])) (lifts_worker (ops @ [op])) (length ops) =
      stands (worker_failed S) (raises_worker ops) (lifts_worker ops) (length ops)"
    by (rule stands_cong) (simp_all add: raises_worker_def lifts_worker_def nth_append)
  moreover have "raises_worker (ops @ [op]) (length ops) = (\<exists>t. op = SetFailure t ENIL_ERR_WORKER)"
    "lifts_worker (ops @ [op]) (length ops) = (\<exists>t. op = ClearFailure t ENIL_ERR_WORKER)"
    by (simp_all add: raises_worker_def lifts_worker_def)
  ultimately show ?case
    unfolding run_snoc worker_do snoc length_append list.size add_Suc_right add_0_right by (subst stands_Suc) auto
qed (simp add: stands_0 health_run_def)

lemma line_run:
  assumes "objects S a \<noteq> None" and "object_kept ops a"
  shows "objects (health_run ops S) a \<noteq> None \<and>
    line_of (health_run ops S) a = stands (line_of S a) (raises_line S ops a) (lifts_line S ops a) (length ops)"
  using assms(2)
proof (induction ops rule: rev_induct)
  case (snoc op ops)
  then have kept: "object_kept [op] a" "object_kept ops a" by (auto simp: object_kept_def)
  note ih = snoc.IH [OF kept(2)]
  have "stands (line_of S a) (raises_line S (ops @ [op]) a) (lifts_line S (ops @ [op]) a) (length ops) =
      stands (line_of S a) (raises_line S ops a) (lifts_line S ops a) (length ops)"
    by (rule stands_cong) (simp_all add: raises_line_def lifts_line_def nth_append)
  moreover have "raises_line S (ops @ [op]) a (length ops) = (\<exists>t. op = SetFailure t ENIL_ERR_LINE \<and> bound (health_run ops S) t = Some a)"
    "lifts_line S (ops @ [op]) a (length ops) = (\<exists>t. op = ClearFailure t ENIL_ERR_LINE \<and> bound (health_run ops S) t = Some a)"
    by (simp_all add: raises_line_def lifts_line_def)
  ultimately show ?case
    unfolding run_snoc line_do(2) [OF conjunct1 [OF ih] kept(1)] length_append list.size add_Suc_right add_0_right
    using ih line_do(1) [OF conjunct1 [OF ih] kept(1)] by (subst stands_Suc) auto
qed (simp add: stands_0 health_run_def assms)

text \<open>C14: A failure stands until it is lifted by one it concerns, and concerns no other account.  After any
  sequence of gate operations by any threads, an account's gate is failed exactly when a thread bound to that
  account's health object reported a LINE failure and no thread bound to it at that time has cleared LINE since (or it
  was failed at the start and none has); the worker's gate is failed exactly when some thread reported a worker
  failure and none has cleared it since.  The checks of every thread bound to the account answer that.  It is
  stated of an object that exists and is neither destroyed nor created anew at the same address during the
  sequence; that callers bind live objects only is not checked by the code.\<close>

theorem health_gate_stands:
  assumes "objects S a \<noteq> None" and "object_kept ops a"
  defines "S' \<equiv> health_run ops S"
    and "line \<equiv> stands (line_of S a) (raises_line S ops a) (lifts_line S ops a) (length ops)"
    and "worker \<equiv> stands (worker_failed S) (raises_worker ops) (lifts_worker ops) (length ops)"
  shows "(\<forall>t. bound S' t = Some a \<longrightarrow>
      enil_health_is_failed S' t ENIL_ERR_LINE = line \<and> enil_health_any_failed S' t = (worker \<or> line)) \<and>
    (\<forall>t. enil_health_is_failed S' t ENIL_ERR_WORKER = worker)"
  using line_run [OF assms(1,2)] worker_run [of ops S]
  by (simp_all add: S'_def line_def worker_def enil_health_is_failed_def enil_health_any_failed_def current_health_def)

text \<open>Two accounts: thread 1 reports a failure of the first, and thread 2, of the second, clears its own.\<close>

definition fresh_health :: "(nat, nat) health_state" where
  "fresh_health = \<lparr>worker_failed = False, objects = [7 \<mapsto> \<lparr>line_failed = False, account_id = ''u1''\<rparr>,
     8 \<mapsto> \<lparr>line_failed = False, account_id = ''u2''\<rparr>], bound = (\<lambda>_. None), posts = []\<rparr>"

definition two_accounts :: "(nat, nat) health_op list" where
  "two_accounts = [HealthBind 1 (Some 7), HealthBind 2 (Some 8), HealthBind 3 (Some 7), SetFailure 1 ENIL_ERR_LINE, ClearFailure 2 ENIL_ERR_LINE]"

theorem health_gate_stands_witness:
  "enil_health_is_failed (health_run two_accounts fresh_health) 3 ENIL_ERR_LINE \<and>
   \<not> enil_health_is_failed (health_run two_accounts fresh_health) 2 ENIL_ERR_LINE"
proof -
  have live: "objects fresh_health 7 \<noteq> None" "objects fresh_health 8 \<noteq> None" "object_kept two_accounts 7" "object_kept two_accounts 8"
    by (auto simp: fresh_health_def object_kept_def two_accounts_def)
  have bind: "bound (health_run two_accounts fresh_health) 3 = Some 7" "bound (health_run two_accounts fresh_health) 2 = Some 8"
    by (simp_all add: health_run_def two_accounts_def fresh_health_def health_ops)
  have five: "i = 0 \<or> i = 1 \<or> i = 2 \<or> i = 3 \<or> i = 4" if "i < 5" for i :: nat using that by auto
  have "raises_line fresh_health two_accounts 7 3" and "\<not> lifts_line fresh_health two_accounts 7 4"
    by (simp_all add: raises_line_def lifts_line_def two_accounts_def fresh_health_def health_run_def health_ops eval_nat_numeral)
  then have "stands (line_of fresh_health 7) (raises_line fresh_health two_accounts 7) (lifts_line fresh_health two_accounts 7) 5"
    using five unfolding stands_def by (intro disjI1 exI [of _ 3]) fastforce
  moreover have "\<not> raises_line fresh_health two_accounts 8 i" if "i < 5" for i
    using five [OF that]
    by (elim disjE) (simp_all add: raises_line_def two_accounts_def fresh_health_def health_run_def health_ops eval_nat_numeral)
  then have "\<not> stands (line_of fresh_health 8) (raises_line fresh_health two_accounts 8) (lifts_line fresh_health two_accounts 8) 5"
    unfolding stands_def by (auto simp: line_of_def fresh_health_def)
  moreover have "length two_accounts = 5" by (simp add: two_accounts_def)
  ultimately show ?thesis
    using health_gate_stands [OF live(1,3)] health_gate_stands [OF live(2,4)] bind by simp
qed

end
