(* ===== verification/ENIL_Sse.thy ===== *)
theory ENIL_Sse
  imports ENIL_Json ENIL_Identity
begin

text \<open>
  \<open>source/shared/enil_sse.c\<close>: the event client and the Chrome event stream.

  One record holds the client (\<open>ENILSSEClient\<close>), the parser on the thread's stack
  (\<open>ENILSSEState\<close>) and \<open>world\<close>, everything the event callback and the database change.  The record
  \<open>sse_env\<close> carries what is called: the callback, saving the cursor, the health gate, the clock and
  \<open>realloc\<close>.  A callback may also ask the client to stop or reconnect (it runs while other threads
  may do so); the requests of other threads between two network events are the events \<open>Kick\<close> and
  \<open>Request_stop\<close> of the transfer.
\<close>

definition SSE_IDLE_TIMEOUT :: int where "SSE_IDLE_TIMEOUT = 45"
definition SSE_MAX_EVENT_SIZE :: nat where "SSE_MAX_EVENT_SIZE = 8388608"
definition SSE_MAX_LINE_SIZE :: nat where "SSE_MAX_LINE_SIZE = SSE_MAX_EVENT_SIZE + 7"

definition LF :: char where "LF = CHR 0x0A"
definition CR :: char where "CR = CHR 0x0D"

record 'w sse =
  local_rev :: int
  stop :: bool
  reconnect :: bool
  interrupt :: bool
  delivery_failed :: bool
  last_activity :: int
  line_buf :: string
  line_cap :: nat
  event_type :: string
  data_buf :: string
  data_cap :: nat
  has_data :: bool
  world :: 'w

record 'w callback_result =
  cb_world :: 'w
  cb_saved :: bool
  cb_stop :: bool
  cb_kick :: bool

record ('w, 'j) sse_env =
  js :: "'j cjson"
  fn :: "(string \<Rightarrow> string \<Rightarrow> 'w \<Rightarrow> 'w callback_result) option"
  set_local_rev :: "(int \<Rightarrow> 'w \<Rightarrow> 'w \<times> bool) option"
  any_failed :: "'w \<Rightarrow> bool"
  set_failure :: "'w \<Rightarrow> 'w"
  realloc_ok :: "nat \<Rightarrow> bool"
  now :: "'w \<Rightarrow> int"

section \<open>Buffers\<close>

text \<open>\<open>while (grown < needed) grown *= 2\<close>; \<open>grown\<close> starts at 256 or the old capacity, never at 0.\<close>

function double_until :: "nat \<Rightarrow> nat \<Rightarrow> nat" where
  "double_until grown needed =
     (if grown < needed \<and> 0 < grown then double_until (grown * 2) needed else grown)"
  by pat_completeness auto
termination
  by (relation "measure (\<lambda>(g, n). n - g)") auto

declare double_until.simps [simp del]

text \<open>
  The buffer with its capacity after the append; \<open>None\<close> where the code jumps to \<open>failed\<close>.  The two
  buffers of the state go through \<open>append_line\<close> and \<open>append_data\<close>.
\<close>

definition append_sse :: "(nat \<Rightarrow> bool) \<Rightarrow> string \<times> nat \<Rightarrow> string \<Rightarrow> nat \<Rightarrow> (string \<times> nat) option" where
  "append_sse alloc bufcap text limit =
     (case bufcap of
        (b, cap) \<Rightarrow>
          if limit - length b < length text then None
          else let needed = length b + length text + 1 in
            if cap < needed then
              (let grown = double_until (if cap \<noteq> 0 then cap else 256) needed;
                   grown' = (if limit + 1 < grown then limit + 1 else grown)
               in if alloc grown' then Some (b @ text, grown') else None)
            else Some (b @ text, cap))"

definition sse_fail :: "('w, 'j) sse_env \<Rightarrow> 'w sse \<Rightarrow> 'w sse" where
  "sse_fail E s = s\<lparr>delivery_failed := True, world := set_failure E (world s)\<rparr>"

definition append_line :: "('w, 'j) sse_env \<Rightarrow> 'w sse \<Rightarrow> string \<Rightarrow> 'w sse \<times> bool" where
  "append_line E s text =
     (case append_sse (realloc_ok E) (line_buf s, line_cap s) text SSE_MAX_LINE_SIZE of
        None \<Rightarrow> (sse_fail E s, False)
      | Some (b, cap) \<Rightarrow> (s\<lparr>line_buf := b, line_cap := cap\<rparr>, True))"

definition append_data :: "('w, 'j) sse_env \<Rightarrow> 'w sse \<Rightarrow> string \<Rightarrow> 'w sse \<times> bool" where
  "append_data E s text =
     (case append_sse (realloc_ok E) (data_buf s, data_cap s) text SSE_MAX_EVENT_SIZE of
        None \<Rightarrow> (sse_fail E s, False)
      | Some (b, cap) \<Rightarrow> (s\<lparr>data_buf := b, data_cap := cap\<rparr>, True))"

section \<open>Events\<close>

definition enil_sse_event_revision :: "'j cjson \<Rightarrow> string option \<Rightarrow> string option \<Rightarrow> int" where
  "enil_sse_event_revision J type data =
     (case (type, data) of
        (Some ty, Some d) \<Rightarrow>
          (case parseText J d of
             None \<Rightarrow> 0
           | Some json \<Rightarrow>
               (let item = (if ty = ''fullSync'' then getItem J json ''nextRevision'' else getItem J json ''revision'');
                    rev = enil_json_coerce_int64 J item
                in if 0 < rev then rev else 0))
      | _ \<Rightarrow> 0)"

definition enil_sse_save_local_rev :: "('w, 'j) sse_env \<Rightarrow> 'w sse \<Rightarrow> int \<Rightarrow> 'w sse \<times> bool" where
  "enil_sse_save_local_rev E s revision =
     (if revision \<le> local_rev s then (s, True)
      else case set_local_rev E of
             None \<Rightarrow> (s\<lparr>local_rev := revision\<rparr>, True)
           | Some save \<Rightarrow>
               (case save revision (world s) of
                  (w, False) \<Rightarrow> (s\<lparr>world := w\<rparr>, False)
                | (w, True) \<Rightarrow> (s\<lparr>world := w, local_rev := revision\<rparr>, True)))"

definition call_back :: "('w, 'j) sse_env \<Rightarrow> 'w sse \<Rightarrow> string \<Rightarrow> string \<Rightarrow> 'w sse \<times> bool" where
  "call_back E s type data =
     (case fn E of
        None \<Rightarrow> (s, True)
      | Some f \<Rightarrow>
          (let r = f type data (world s)
           in (s\<lparr>world := cb_world r, stop := stop s \<or> cb_stop r, reconnect := reconnect s \<or> cb_kick r\<rparr>,
               cb_saved r)))"

definition dispatch_event :: "('w, 'j) sse_env \<Rightarrow> 'w sse \<Rightarrow> 'w sse" where
  "dispatch_event E s =
     (if event_type s = [] \<and> \<not> has_data s then s
      else
        (let type = (if event_type s \<noteq> [] then event_type s else ''message''); data = data_buf s
         in case call_back E s type data of
              (s1, ok) \<Rightarrow>
                if \<not> ok \<or> any_failed E (world s1) \<or> stop s1 then s1\<lparr>delivery_failed := True\<rparr>
                else
                  (let s2 = (if type = ''fullSync'' then s1\<lparr>stop := True\<rparr>
                             else case enil_sse_save_local_rev E s1
                                         (enil_sse_event_revision (js E) (Some type) (Some data)) of
                                    (s', saved) \<Rightarrow> if saved then s' else s'\<lparr>delivery_failed := True\<rparr>);
                       s3 = (if type = ''reconnect'' then s2\<lparr>reconnect := True\<rparr> else s2)
                   in s3\<lparr>event_type := [], data_buf := [], has_data := False\<rparr>)))"

text \<open>\<open>val\<close>: the field's value without one leading space.\<close>

definition field_value :: "string \<Rightarrow> nat \<Rightarrow> string" where
  "field_value line n = (let v = drop n line in if v \<noteq> [] \<and> hd v = CHR '' '' then tl v else v)"

definition process_line :: "('w, 'j) sse_env \<Rightarrow> 'w sse \<Rightarrow> 'w sse" where
  "process_line E s =
     (if line_buf s = [] then dispatch_event E s
      else
        (let line = cstr (line_buf s)
         in if has_prefix line ''event:'' then
              (let val = field_value line 6
               in if 64 \<le> length val then sse_fail E s else s\<lparr>event_type := val\<rparr>)
            else if has_prefix line ''data:'' then
              (let val = field_value line 5
               in case (if has_data s then append_data E s [LF] else (s, True)) of
                    (s1, False) \<Rightarrow> s1
                  | (s1, True) \<Rightarrow>
                      (case append_data E s1 val of
                         (s2, False) \<Rightarrow> s2
                       | (s2, True) \<Rightarrow> s2\<lparr>has_data := True\<rparr>))
            else s))"

section \<open>The transfer's callbacks\<close>

text \<open>The loop of \<open>write_cb\<close> over the received characters; \<open>False\<close> where it returns 0.\<close>

definition strip_cr :: "string \<Rightarrow> string" where
  "strip_cr l = (if l \<noteq> [] \<and> last l = CR then butlast l else l)"

definition end_of_line :: "('w, 'j) sse_env \<Rightarrow> 'w sse \<Rightarrow> 'w sse" where
  "end_of_line E s = (process_line E (s\<lparr>line_buf := strip_cr (line_buf s)\<rparr>))\<lparr>line_buf := []\<rparr>"

fun write_loop :: "('w, 'j) sse_env \<Rightarrow> string \<Rightarrow> 'w sse \<Rightarrow> 'w sse \<times> bool" where
  "write_loop E [] s = (s, True)"
| "write_loop E (c # cs) s =
     (if c = LF then
        (let s1 = end_of_line E s
         in if stop s1 \<or> reconnect s1 \<or> delivery_failed s1 then (s1, False) else write_loop E cs s1)
      else
        (case append_line E s [c] of
           (s1, False) \<Rightarrow> (s1, False)
         | (s1, True) \<Rightarrow> write_loop E cs s1))"

definition write_cb :: "('w, 'j) sse_env \<Rightarrow> string \<Rightarrow> 'w sse \<Rightarrow> 'w sse \<times> nat" where
  "write_cb E chunk s =
     (let s0 = (if chunk \<noteq> [] then s\<lparr>last_activity := now E (world s)\<rparr> else s)
      in case write_loop E chunk s0 of
           (s1, False) \<Rightarrow> (s1, 0)
         | (s1, True) \<Rightarrow> (s1, if reconnect s1 \<or> stop s1 then 0 else length chunk))"

text \<open>\<open>True\<close> for a return of 1, which aborts the transfer.\<close>

definition progress_cb :: "('w, 'j) sse_env \<Rightarrow> 'w sse \<Rightarrow> 'w sse \<times> bool" where
  "progress_cb E s =
     (if stop s \<or> reconnect s then (s, True)
      else if last_activity s \<noteq> 0 \<and> SSE_IDLE_TIMEOUT < now E (world s) - last_activity s
      then (s\<lparr>reconnect := True\<rparr>, True)
      else (s, False))"

definition enil_sse_kick :: "'w sse \<Rightarrow> 'w sse" where
  "enil_sse_kick s = s\<lparr>reconnect := True, interrupt := True\<rparr>"

definition enil_sse_request_stop :: "'w sse \<Rightarrow> 'w sse" where
  "enil_sse_request_stop s = s\<lparr>stop := True, interrupt := True\<rparr>"

section \<open>The thread\<close>

text \<open>
  \<open>curl_easy_perform\<close> as the client sees it: the callbacks it makes in order, with the requests of
  other threads and the passing of time in between, until a callback aborts it or the events end
  (the server closed the stream or the transfer failed).
\<close>

datatype 'w transfer_event = Chunk string | Progress | Kick | Request_stop | Elapse "'w \<Rightarrow> 'w"

fun perform :: "('w, 'j) sse_env \<Rightarrow> 'w transfer_event list \<Rightarrow> 'w sse \<Rightarrow> 'w sse" where
  "perform E [] s = s"
| "perform E (Chunk cs # es) s =
     (case write_cb E cs s of (s1, n) \<Rightarrow> if n \<noteq> length cs then s1 else perform E es s1)"
| "perform E (Progress # es) s =
     (case progress_cb E s of (s1, abort) \<Rightarrow> if abort then s1 else perform E es s1)"
| "perform E (Kick # es) s = perform E es (enil_sse_kick s)"
| "perform E (Request_stop # es) s = perform E es (enil_sse_request_stop s)"
| "perform E (Elapse f # es) s = perform E es (s\<lparr>world := f (world s)\<rparr>)"

text \<open>The request: \<open>url[2048]\<close> truncates, \<open>escape\<close> is \<open>curl_easy_escape\<close> (null on failure).\<close>

definition ENIL_LINE_GATEWAY :: string where
  "ENIL_LINE_GATEWAY = ''https://line-chrome-gw.line-apps.com''"

definition ENIL_LINE_ORIGIN :: string where
  "ENIL_LINE_ORIGIN = ''chrome-extension://ophjlpahpchlmihnnnihgmmeilfjmjjc''"

definition sse_url ::
  "(string \<Rightarrow> string option) \<Rightarrow> enil_identity_t \<Rightarrow> int \<Rightarrow> string option \<Rightarrow> string" where
  "sse_url escape identity revision partials =
     take 2047 (ENIL_LINE_GATEWAY @ ''/api/operation/receive'' @ ''?version='' @ gateway_version identity @
       ''&localRev='' @ show_int revision @ ''&lastPartialFullSyncs='' @
       (case escape (case partials of Some p \<Rightarrow> p | None \<Rightarrow> ''{}'') of Some e \<Rightarrow> e | None \<Rightarrow> ''%7B%7D''))"

definition sse_headers :: "enil_identity_t \<Rightarrow> string list \<Rightarrow> string \<Rightarrow> string list" where
  "sse_headers identity language_headers token =
     [''Accept: text/event-stream'', ''Cache-Control: no-cache'', ''Pragma: no-cache'',
      take 63 (''X-Line-Chrome-Version: '' @ gateway_version identity),
      take 191 (''X-Line-Application: '' @ application identity)] @ language_headers @
     [''Origin: '' @ ENIL_LINE_ORIGIN, ''X-Line-Access: '' @ token, ''Cookie: lct='' @ token]"

text \<open>
  One round of the thread's loop.  \<open>curl\<close> says that a handle could be made; \<open>sync\<close> is
  \<open>lastPartialFullSyncs\<close> of the saved session.  The result says what the loop does next.
\<close>

datatype sse_next = Leave_loop | Again_now | Again_after nat

definition sse_round ::
  "('w, 'j) sse_env \<Rightarrow> bool \<Rightarrow> 'w transfer_event list \<Rightarrow> 'w sse \<Rightarrow> 'w sse \<times> sse_next" where
  "sse_round E curl events s =
     (if stop s then (s, Leave_loop)
      else if any_failed E (world s) then (s, Leave_loop)
      else
        (let s0 = s\<lparr>line_buf := [], line_cap := 0, event_type := [], data_buf := [], data_cap := 0, has_data := False\<rparr>
         in if \<not> curl then (s0, Again_after 5)
            else
              (let s1 = perform E events (s0\<lparr>last_activity := now E (world s0), delivery_failed := False\<rparr>)
               in if stop s1 then (s1, Leave_loop)
                  else if reconnect s1 then (s1\<lparr>reconnect := False\<rparr>, Again_now)
                  else (s1, Again_after 2))))"

text \<open>
  \<open>sse_thread\<close>: bind the identity, hand a native login to the poller, otherwise run rounds.  Each
  element of the list is what one round meets; the result is \<open>None\<close> while the thread still runs.
\<close>

fun sse_loop :: "('w, 'j) sse_env \<Rightarrow> (bool \<times> 'w transfer_event list) list \<Rightarrow> 'w sse \<Rightarrow> 'w sse \<times> bool" where
  "sse_loop E [] s = (s, False)"
| "sse_loop E ((curl, events) # rs) s =
     (case sse_round E curl events s of
        (s1, Leave_loop) \<Rightarrow> (s1, True)
      | (s1, _) \<Rightarrow> sse_loop E rs s1)"

definition sse_thread ::
  "('w, 'j) sse_env \<Rightarrow> enil_identity_t option \<Rightarrow> ('w sse \<Rightarrow> 'w sse) \<Rightarrow>
   (bool \<times> 'w transfer_event list) list \<Rightarrow> 'w sse \<Rightarrow> 'w sse \<times> bool" where
  "sse_thread E identity native_poll rounds s =
     (case identity of
        None \<Rightarrow> (s\<lparr>world := set_failure E (world s)\<rparr>, True)
      | Some v \<Rightarrow> if transport v = ''native-thrift'' then (native_poll s, True) else sse_loop E rounds s)"

text \<open>A new client, and starting it (\<open>created\<close>: \<open>pthread_create\<close> succeeded).\<close>

definition enil_sse_create :: "string option \<Rightarrow> int \<Rightarrow> 'w \<Rightarrow> 'w sse option" where
  "enil_sse_create access_token revision w =
     (case access_token of
        None \<Rightarrow> None
      | Some _ \<Rightarrow> Some \<lparr>local_rev = revision, stop = False, reconnect = False, interrupt = False,
          delivery_failed = False, last_activity = 0, line_buf = [], line_cap = 0, event_type = [],
          data_buf = [], data_cap = 0, has_data = False, world = w\<rparr>)"

definition enil_sse_start :: "'w sse option \<Rightarrow> bool \<Rightarrow> bool \<Rightarrow> 'w sse option \<times> bool" where
  "enil_sse_start c has_fn created =
     (case c of
        None \<Rightarrow> (None, False)
      | Some s \<Rightarrow> if \<not> has_fn then (Some s, False) else (Some (s\<lparr>stop := False\<rparr>), created))"

section \<open>Lemmas\<close>

text \<open>The clock stamp plays no part in parsing.\<close>

definition stamp :: "int \<Rightarrow> 'w sse \<Rightarrow> 'w sse" where
  "stamp t s = s\<lparr>last_activity := t\<rparr>"

lemma stamp_simps [simp]:
  "local_rev (stamp t s) = local_rev s" "stop (stamp t s) = stop s" "reconnect (stamp t s) = reconnect s"
  "delivery_failed (stamp t s) = delivery_failed s" "line_buf (stamp t s) = line_buf s"
  "line_cap (stamp t s) = line_cap s" "event_type (stamp t s) = event_type s"
  "data_buf (stamp t s) = data_buf s" "data_cap (stamp t s) = data_cap s" "has_data (stamp t s) = has_data s"
  "world (stamp t s) = world s" "stamp t (stamp u s) = stamp t s"
  by (simp_all add: stamp_def)

lemma append_line_stamp: "append_line E (stamp t s) text = map_prod (stamp t) id (append_line E s text)"
  by (auto simp: append_line_def sse_fail_def stamp_def split: option.splits)

lemma append_data_stamp: "append_data E (stamp t s) text = map_prod (stamp t) id (append_data E s text)"
  by (auto simp: append_data_def sse_fail_def stamp_def split: option.splits)

lemma save_stamp:
  "enil_sse_save_local_rev E (stamp t s) r = map_prod (stamp t) id (enil_sse_save_local_rev E s r)"
  by (auto simp: enil_sse_save_local_rev_def stamp_def split: option.splits prod.splits bool.splits)

lemma call_back_stamp: "call_back E (stamp t s) ty d = map_prod (stamp t) id (call_back E s ty d)"
  by (auto simp: call_back_def stamp_def Let_def split: option.splits)

text \<open>\<open>dispatch_event\<close> in terms of what its two calls gave.\<close>

definition event_name :: "'w sse \<Rightarrow> string" where
  "event_name s = (if event_type s \<noteq> [] then event_type s else ''message'')"

definition clear_event :: "'w sse \<Rightarrow> 'w sse" where
  "clear_event s = s\<lparr>event_type := [], data_buf := [], has_data := False\<rparr>"

lemma dispatch_event_eq:
  assumes "call_back E s (event_name s) (data_buf s) = (s1, ok)"
    and "enil_sse_save_local_rev E s1
      (enil_sse_event_revision (js E) (Some (event_name s)) (Some (data_buf s))) = (s2, saved)"
  shows "dispatch_event E s =
    (if event_type s = [] \<and> \<not> has_data s then s
     else if \<not> ok \<or> any_failed E (world s1) \<or> stop s1 then s1\<lparr>delivery_failed := True\<rparr>
     else if event_name s = ''fullSync'' then clear_event (s1\<lparr>stop := True\<rparr>)
     else
       (let s3 = (if saved then s2 else s2\<lparr>delivery_failed := True\<rparr>)
        in clear_event (if event_name s = ''reconnect'' then s3\<lparr>reconnect := True\<rparr> else s3)))"
  unfolding dispatch_event_def Let_def event_name_def [symmetric] assms prod.case clear_event_def
  by simp

lemma dispatch_event_stamp: "dispatch_event E (stamp t s) = stamp t (dispatch_event E s)"
proof -
  obtain s1 ok where c: "call_back E s (event_name s) (data_buf s) = (s1, ok)" by force
  obtain s2 saved where v: "enil_sse_save_local_rev E s1 (enil_sse_event_revision (js E)
      (Some (event_name s)) (Some (data_buf s))) = (s2, saved)" by force
  have n: "event_name (stamp t s) = event_name s" by (simp add: event_name_def)
  have c': "call_back E (stamp t s) (event_name (stamp t s)) (data_buf (stamp t s)) = (stamp t s1, ok)"
    using c by (simp add: n call_back_stamp)
  have v': "enil_sse_save_local_rev E (stamp t s1) (enil_sse_event_revision (js E)
      (Some (event_name (stamp t s))) (Some (data_buf (stamp t s)))) = (stamp t s2, saved)"
    using v by (simp add: n save_stamp)
  show ?thesis
    unfolding dispatch_event_eq [OF c v] dispatch_event_eq [OF c' v'] n
    by (simp add: clear_event_def stamp_def Let_def)
qed

lemma process_line_stamp: "process_line E (stamp t s) = stamp t (process_line E s)"
proof -
  have f: "(stamp t s)\<lparr>event_type := x\<rparr> = stamp t (s\<lparr>event_type := x\<rparr>)"
    "(stamp t s)\<lparr>has_data := b\<rparr> = stamp t (s\<lparr>has_data := b\<rparr>)" "sse_fail E (stamp t s) = stamp t (sse_fail E s)"
    for s :: "'a sse" and b x
    by (simp_all add: stamp_def sse_fail_def)
  show ?thesis
    unfolding process_line_def Let_def stamp_simps dispatch_event_stamp append_data_stamp
    by (auto simp: f append_data_stamp split: prod.splits bool.splits)
qed

lemma end_of_line_stamp: "end_of_line E (stamp t s) = stamp t (end_of_line E s)"
proof -
  have f: "(stamp t s)\<lparr>line_buf := x\<rparr> = stamp t (s\<lparr>line_buf := x\<rparr>)" for s :: "'a sse" and x
    by (simp add: stamp_def)
  show ?thesis by (simp add: end_of_line_def f process_line_stamp)
qed

lemma write_loop_stamp: "write_loop E cs (stamp t s) = map_prod (stamp t) id (write_loop E cs s)"
  by (induction cs arbitrary: s)
    (auto simp: end_of_line_stamp append_line_stamp Let_def split: prod.splits bool.splits)

lemma write_loop_append:
  "write_loop E (a @ b) s =
    (case write_loop E a s of (s1, False) \<Rightarrow> (s1, False) | (s1, True) \<Rightarrow> write_loop E b s1)"
  by (induction a arbitrary: s) (auto simp: Let_def split: prod.splits bool.splits)

lemma append_line_flags:
  "append_line E s text = (s1, ok) \<Longrightarrow> stop s1 = stop s \<and> reconnect s1 = reconnect s"
  by (auto simp: append_line_def sse_fail_def split: option.splits prod.splits)

lemma write_loop_flags:
  "write_loop E cs s = (s1, True) \<Longrightarrow> \<not> stop s \<Longrightarrow> \<not> reconnect s \<Longrightarrow> \<not> stop s1 \<and> \<not> reconnect s1"
  by (induction cs arbitrary: s)
    (auto simp: Let_def split: if_splits prod.splits bool.splits dest: append_line_flags)

text \<open>Receiving in pieces: what \<open>perform\<close> does with chunks, apart from the stamp.\<close>

lemma write_cb_eq:
  assumes "write_loop E c s = (s1, ok)"
  shows "write_cb E c s =
    (if c = [] then s1 else stamp (now E (world s)) s1,
     if ok \<and> \<not> reconnect s1 \<and> \<not> stop s1 then length c else 0)"
proof (cases "c = []")
  case True
  with assms show ?thesis by (auto simp: write_cb_def Let_def)
next
  case False
  have "write_loop E c (s\<lparr>last_activity := now E (world s)\<rparr>) = (stamp (now E (world s)) s1, ok)"
    using write_loop_stamp [of E c "now E (world s)" s] assms by (simp add: stamp_def)
  with False show ?thesis by (cases ok) (auto simp: write_cb_def Let_def)
qed

lemma perform_chunks:
  assumes "\<not> stop s" and "\<not> reconnect s"
  shows "stamp 0 (perform E (map Chunk chunks) s) = stamp 0 (fst (write_loop E (concat chunks) s))"
  using assms
proof (induction chunks arbitrary: s)
  case Nil
  then show ?case by simp
next
  case (Cons c cs)
  obtain s1 ok where w: "write_loop E c s = (s1, ok)" by force
  define s2 where "s2 = (if c = [] then s1 else stamp (now E (world s)) s1)"
  have s2: "stamp 0 s2 = stamp 0 s1" "stop s2 = stop s1" "reconnect s2 = reconnect s1" by (simp_all add: s2_def)
  show ?case
  proof (cases ok)
    case False
    then have "c \<noteq> []" using w by auto
    with False have "perform E (map Chunk (c # cs)) s = s2"
      using write_cb_eq [OF w] by (simp add: s2_def)
    with False w s2 show ?thesis by (simp add: write_loop_append)
  next
    case True
    with w Cons.prems have fl: "\<not> stop s1" "\<not> reconnect s1"
      using write_loop_flags [of E c s s1] by simp_all
    with True have "perform E (map Chunk (c # cs)) s = perform E (map Chunk cs) s2"
      using write_cb_eq [OF w] by (simp add: s2_def)
    also have "stamp 0 \<dots> = stamp 0 (fst (write_loop E (concat cs) s2))"
      using Cons.IH [of s2] fl s2 by simp
    also have "\<dots> = stamp 0 (fst (write_loop E (concat cs) s1))"
      by (auto simp: s2_def write_loop_stamp)
    finally show ?thesis using w True by (simp add: write_loop_append)
  qed
qed

text \<open>Buffers within their limits, with room for the terminating NUL.\<close>

definition sse_bounded :: "'w sse \<Rightarrow> bool" where
  "sse_bounded s \<longleftrightarrow>
     length (line_buf s) \<le> SSE_MAX_LINE_SIZE \<and> length (data_buf s) \<le> SSE_MAX_EVENT_SIZE \<and>
     line_cap s \<le> SSE_MAX_LINE_SIZE + 1 \<and> data_cap s \<le> SSE_MAX_EVENT_SIZE + 1 \<and>
     length (event_type s) < 64 \<and>
     (line_buf s \<noteq> [] \<longrightarrow> length (line_buf s) < line_cap s) \<and>
     (data_buf s \<noteq> [] \<longrightarrow> length (data_buf s) < data_cap s)"

lemma double_until_ge: "0 < g \<Longrightarrow> n \<le> double_until g n"
proof (induction g n rule: double_until.induct)
  case (1 g n)
  then show ?case by (subst double_until.simps) auto
qed

lemma append_sse_bounds:
  assumes "append_sse alloc (b, cap) text limit = Some (b', cap')"
    and "length b \<le> limit" and "cap \<le> limit + 1"
  shows "b' = b @ text \<and> length b' \<le> limit \<and> cap' \<le> limit + 1 \<and> length b' < cap'"
proof -
  let ?n = "length b + length text + 1"
  have l: "length b + length text \<le> limit"
    using assms(1,2) by (auto simp: append_sse_def split: if_splits)
  have "?n \<le> double_until (if cap \<noteq> 0 then cap else 256) ?n" by (rule double_until_ge) simp
  with assms l show ?thesis
    by (auto simp: append_sse_def Let_def split: if_splits)
qed

lemma append_line_bounded [enil_inv]:
  "append_line E s text = (s1, ok) \<Longrightarrow> sse_bounded s \<Longrightarrow> sse_bounded s1"
  by (auto simp: append_line_def sse_fail_def sse_bounded_def split: option.splits dest!: append_sse_bounds)

lemma append_data_bounded [enil_inv]:
  "append_data E s text = (s1, ok) \<Longrightarrow> sse_bounded s \<Longrightarrow> sse_bounded s1"
  by (auto simp: append_data_def sse_fail_def sse_bounded_def split: option.splits dest!: append_sse_bounds)

lemma call_back_bounded [enil_inv]:
  "call_back E s ty d = (s1, ok) \<Longrightarrow> sse_bounded s \<Longrightarrow> sse_bounded s1"
  by (auto simp: call_back_def sse_bounded_def Let_def split: option.splits)

lemma save_bounded [enil_inv]:
  "enil_sse_save_local_rev E s r = (s1, ok) \<Longrightarrow> sse_bounded s \<Longrightarrow> sse_bounded s1"
  by (auto simp: enil_sse_save_local_rev_def sse_bounded_def split: option.splits prod.splits bool.splits if_splits)

lemma bounded_flags [simp]:
  "sse_bounded (s\<lparr>delivery_failed := b\<rparr>) = sse_bounded s" "sse_bounded (s\<lparr>stop := b\<rparr>) = sse_bounded s"
  "sse_bounded (s\<lparr>reconnect := b\<rparr>) = sse_bounded s" "sse_bounded (s\<lparr>has_data := b\<rparr>) = sse_bounded s"
  "sse_bounded (s\<lparr>interrupt := b\<rparr>) = sse_bounded s" "sse_bounded (s\<lparr>world := w\<rparr>) = sse_bounded s"
  "sse_bounded (s\<lparr>last_activity := t\<rparr>) = sse_bounded s" "sse_bounded (sse_fail E s) = sse_bounded s"
  by (simp_all add: sse_bounded_def sse_fail_def)

lemma bounded_clear: "sse_bounded s \<Longrightarrow> sse_bounded (s\<lparr>event_type := [], data_buf := [], has_data := b\<rparr>)"
  "sse_bounded s \<Longrightarrow> sse_bounded (s\<lparr>event_type := [], data_buf := []\<rparr>)"
  "sse_bounded s \<Longrightarrow> sse_bounded (s\<lparr>line_buf := []\<rparr>)"
  by (auto simp: sse_bounded_def)

lemma dispatch_bounded [enil_inv]: "sse_bounded s \<Longrightarrow> sse_bounded (dispatch_event E s)"
proof -
  assume b: "sse_bounded s"
  obtain s1 ok where c: "call_back E s (event_name s) (data_buf s) = (s1, ok)" by force
  obtain s2 saved where v: "enil_sse_save_local_rev E s1 (enil_sse_event_revision (js E)
      (Some (event_name s)) (Some (data_buf s))) = (s2, saved)" by force
  have "sse_bounded s1" "sse_bounded s2"
    using call_back_bounded [OF c b] save_bounded [OF v] by simp_all
  then show ?thesis
    unfolding dispatch_event_eq [OF c v] Let_def clear_event_def using b
    by (simp add: bounded_clear)
qed

lemma process_line_bounded [enil_inv]: "sse_bounded s \<Longrightarrow> sse_bounded (process_line E s)"
  unfolding process_line_def Let_def
  by (auto simp: dispatch_bounded split: prod.split bool.split dest!: append_data_bounded)
    (auto simp: sse_bounded_def not_le)

lemma strip_cr_bounded: "sse_bounded s \<Longrightarrow> sse_bounded (s\<lparr>line_buf := strip_cr (line_buf s)\<rparr>)"
  by (auto simp: sse_bounded_def strip_cr_def)

lemma end_of_line_bounded [enil_inv]: "sse_bounded s \<Longrightarrow> sse_bounded (end_of_line E s)"
  unfolding end_of_line_def by (intro bounded_clear process_line_bounded strip_cr_bounded)

lemma write_loop_bounded [enil_inv]: "sse_bounded s \<Longrightarrow> sse_bounded (fst (write_loop E cs s))"
proof (induction cs arbitrary: s)
  case (Cons c cs)
  obtain s1 ok where a: "append_line E s [c] = (s1, ok)" by force
  from Cons a show ?case
    by (cases ok) (auto simp: Let_def end_of_line_bounded dest: append_line_bounded)
qed simp

lemma stamp_bounded [simp]: "sse_bounded (stamp t s) = sse_bounded s"
  by (simp add: stamp_def)

lemma write_cb_bounded [enil_inv]: "sse_bounded s \<Longrightarrow> sse_bounded (fst (write_cb E cs s))"
proof -
  assume b: "sse_bounded s"
  obtain s1 ok where w: "write_loop E cs s = (s1, ok)" by force
  with write_loop_bounded [OF b, of E cs] show ?thesis by (simp add: write_cb_eq [OF w])
qed

lemma perform_bounded [enil_inv]: "sse_bounded s \<Longrightarrow> sse_bounded (perform E es s)"
proof (induction E es s rule: perform.induct)
  case (2 E cs es s)
  then show ?case using write_cb_bounded [of s E cs] by (cases "write_cb E cs s") auto
next
  case (3 E es s)
  then show ?case by (auto simp: progress_cb_def)
qed (simp_all add: enil_sse_kick_def enil_sse_request_stop_def)

text \<open>The cursor.\<close>

lemma save_cursor:
  "enil_sse_save_local_rev E s r = (s1, ok) \<Longrightarrow>
   local_rev s \<le> local_rev s1 \<and> (ok \<longrightarrow> local_rev s1 = max (local_rev s) r) \<and> (\<not> ok \<longrightarrow> local_rev s1 = local_rev s)"
  by (auto simp: enil_sse_save_local_rev_def split: option.splits prod.splits bool.splits if_splits)

lemma call_back_cursor: "call_back E s ty d = (s1, ok) \<Longrightarrow> local_rev s1 = local_rev s \<and> delivery_failed s1 = delivery_failed s"
  by (auto simp: call_back_def Let_def split: option.splits)

lemma save_failed: "enil_sse_save_local_rev E s r = (s1, ok) \<Longrightarrow> delivery_failed s1 = delivery_failed s"
  by (auto simp: enil_sse_save_local_rev_def split: option.splits prod.splits bool.splits if_splits)

lemma dispatch_cursor: "local_rev s \<le> local_rev (dispatch_event E s)"
proof -
  obtain s1 ok where c: "call_back E s (event_name s) (data_buf s) = (s1, ok)" by force
  obtain s2 saved where v: "enil_sse_save_local_rev E s1 (enil_sse_event_revision (js E)
      (Some (event_name s)) (Some (data_buf s))) = (s2, saved)" by force
  show ?thesis
    unfolding dispatch_event_eq [OF c v] Let_def clear_event_def
    using call_back_cursor [OF c] save_cursor [OF v] by simp
qed

lemma append_cursor:
  "append_line E s x = (s1, ok) \<Longrightarrow> local_rev s1 = local_rev s"
  "append_data E s x = (s1, ok) \<Longrightarrow> local_rev s1 = local_rev s"
  by (auto simp: append_line_def append_data_def sse_fail_def split: option.splits)

lemma process_line_cursor: "local_rev s \<le> local_rev (process_line E s)"
  unfolding process_line_def Let_def
  by (auto simp: dispatch_cursor sse_fail_def split: prod.split bool.split dest!: append_cursor)

lemma end_of_line_cursor: "local_rev s \<le> local_rev (end_of_line E s)"
  using process_line_cursor [of "s\<lparr>line_buf := strip_cr (line_buf s)\<rparr>" E] by (simp add: end_of_line_def)

lemma write_loop_cursor: "local_rev s \<le> local_rev (fst (write_loop E cs s))"
proof (induction cs arbitrary: s)
  case (Cons c cs)
  obtain s1 ok where a: "append_line E s [c] = (s1, ok)" by force
  from Cons.IH [of s1] Cons.IH [of "end_of_line E s"] end_of_line_cursor [of s E] append_cursor(1) [OF a] a
  show ?case by (cases ok) (auto simp: Let_def)
qed simp

lemma perform_cursor: "local_rev s \<le> local_rev (perform E es s)"
proof (induction E es s rule: perform.induct)
  case (2 E cs es s)
  obtain s1 ok where w: "write_loop E cs s = (s1, ok)" by force
  have "local_rev s \<le> local_rev (fst (write_cb E cs s))"
    using write_loop_cursor [of s E cs] by (simp add: w write_cb_eq [OF w])
  with 2 show ?case by (cases "write_cb E cs s") auto
next
  case (3 E es s)
  then show ?case by (auto simp: progress_cb_def)
qed (simp_all add: enil_sse_kick_def enil_sse_request_stop_def)

text \<open>A whole event as the server sends it.\<close>

definition wire_field :: "string \<Rightarrow> string \<Rightarrow> string" where
  "wire_field name val = name @ '': '' @ val @ [LF]"

definition wire_event :: "string \<Rightarrow> string list \<Rightarrow> string" where
  "wire_event type ds = wire_field ''event'' type @ concat (map (wire_field ''data'') ds) @ [LF]"

fun join_lines :: "string list \<Rightarrow> string" where
  "join_lines [] = []"
| "join_lines [d] = d"
| "join_lines (d # ds) = d @ LF # join_lines ds"

definition plain_text :: "string \<Rightarrow> bool" where
  "plain_text t \<longleftrightarrow> no_nul t \<and> LF \<notin> set t \<and> (t \<noteq> [] \<longrightarrow> last t \<noteq> CR)"

lemma append_sse_ok:
  assumes "\<And>n. alloc n" and "length b + length text \<le> limit"
  shows "\<exists>cap'. append_sse alloc (b, cap) text limit = Some (b @ text, cap')"
  using assms by (auto simp: append_sse_def Let_def)

text \<open>A line's characters are collected as they come.\<close>

lemma write_loop_line:
  assumes "\<And>n. realloc_ok E n" and "LF \<notin> set l" and "length (line_buf s) + length l \<le> SSE_MAX_LINE_SIZE"
  shows "\<exists>cap. write_loop E (l @ rest) s = write_loop E rest (s\<lparr>line_buf := line_buf s @ l, line_cap := cap\<rparr>)"
  using assms(2,3)
proof (induction l arbitrary: s)
  case Nil
  then show ?case by (intro exI [of _ "line_cap s"]) simp
next
  case (Cons c l)
  obtain cap where cap: "append_sse (realloc_ok E) (line_buf s, line_cap s) [c] SSE_MAX_LINE_SIZE = Some (line_buf s @ [c], cap)"
    using append_sse_ok [of "realloc_ok E" "line_buf s" "[c]" SSE_MAX_LINE_SIZE "line_cap s"] assms(1) Cons.prems(2) by auto
  let ?s = "s\<lparr>line_buf := line_buf s @ [c], line_cap := cap\<rparr>"
  have "write_loop E ((c # l) @ rest) s = write_loop E (l @ rest) ?s"
    using Cons.prems(1) cap by (auto simp: append_line_def)
  moreover obtain cap' where "write_loop E (l @ rest) ?s = write_loop E rest (?s\<lparr>line_buf := line_buf ?s @ l, line_cap := cap'\<rparr>)"
    using Cons.IH [of ?s] Cons.prems by auto
  ultimately show ?case by (intro exI [of _ cap']) simp
qed

definition quiet :: "'w sse \<Rightarrow> bool" where
  "quiet s \<longleftrightarrow> \<not> stop s \<and> \<not> reconnect s \<and> \<not> delivery_failed s \<and> line_buf s = []"

lemma strip_cr_plain: "plain_text v \<Longrightarrow> v \<noteq> [] \<Longrightarrow> strip_cr (p @ v) = p @ v"
  by (simp add: strip_cr_def plain_text_def)

lemma strip_cr_prefix: "plain_text v \<Longrightarrow> strip_cr (name @ '': '' @ v) = name @ '': '' @ v"
  by (cases "v = []") (auto simp: strip_cr_def plain_text_def CR_def)

lemma lf_names [simp]: "LF \<noteq> CHR '':''" "LF \<noteq> CHR '' ''" "LF \<notin> set ''event''" "LF \<notin> set ''data''"
  "NUL \<noteq> CHR '':''" "NUL \<noteq> CHR '' ''" "no_nul ''event''" "no_nul ''data''" "no_nul [LF]"
  by (simp_all add: LF_def NUL_def)

lemma wire_event_line:
  assumes E: "\<And>n. realloc_ok E n" and s: "quiet s" and t: "plain_text type" "length type < 64"
  shows "\<exists>cap. write_loop E (wire_field ''event'' type @ rest) s =
    write_loop E rest (s\<lparr>event_type := type, line_cap := cap\<rparr>)"
proof -
  have lf: "LF \<notin> set (''event: '' @ type)" using t by (auto simp: plain_text_def LF_def)
  have len: "length (line_buf s) + length (''event: '' @ type) \<le> SSE_MAX_LINE_SIZE"
    using s t by (simp add: quiet_def SSE_MAX_LINE_SIZE_def SSE_MAX_EVENT_SIZE_def)
  obtain cap where w: "write_loop E ((''event: '' @ type) @ LF # rest) s =
      write_loop E (LF # rest) (s\<lparr>line_buf := line_buf s @ ''event: '' @ type, line_cap := cap\<rparr>)"
    using write_loop_line [OF E lf len, of "LF # rest"] by blast
  have c: "cstr (''event: '' @ type) = ''event: '' @ type"
    using t by (intro cstr_no_nul) (simp add: plain_text_def NUL_def)
  have e: "end_of_line E (s\<lparr>line_buf := ''event: '' @ type, line_cap := cap\<rparr>) =
      s\<lparr>event_type := type, line_cap := cap\<rparr>"
    using strip_cr_prefix [OF t(1), of "''event''"] c t(2) s
    by (simp add: end_of_line_def process_line_def has_prefix_def field_value_def quiet_def)
  show ?thesis
    using w e s by (intro exI [of _ cap]) (simp add: wire_field_def quiet_def)
qed

lemma wire_data_line:
  assumes E: "\<And>n. realloc_ok E n" and s: "quiet s" and d: "plain_text d"
    and len: "length (data_buf s) + length d + 1 \<le> SSE_MAX_EVENT_SIZE"
  shows "\<exists>cap dcap. write_loop E (wire_field ''data'' d @ rest) s =
    write_loop E rest (s\<lparr>line_cap := cap, data_cap := dcap, has_data := True,
      data_buf := (if has_data s then data_buf s @ LF # d else data_buf s @ d)\<rparr>)"
proof -
  have lf: "LF \<notin> set (''data: '' @ d)" using d by (auto simp: plain_text_def LF_def)
  have ll: "length (line_buf s) + length (''data: '' @ d) \<le> SSE_MAX_LINE_SIZE"
    using s len by (simp add: quiet_def SSE_MAX_LINE_SIZE_def)
  obtain cap where w: "write_loop E ((''data: '' @ d) @ LF # rest) s =
      write_loop E (LF # rest) (s\<lparr>line_buf := line_buf s @ ''data: '' @ d, line_cap := cap\<rparr>)"
    using write_loop_line [OF E lf ll, of "LF # rest"] by blast
  have c: "cstr (''data: '' @ d) = ''data: '' @ d"
    using d by (intro cstr_no_nul) (simp add: plain_text_def NUL_def)
  let ?s = "s\<lparr>line_buf := ''data: '' @ d, line_cap := cap\<rparr>"
  obtain dcap where dcap: "append_sse (realloc_ok E) (data_buf s, data_cap s) d SSE_MAX_EVENT_SIZE = Some (data_buf s @ d, dcap)"
    using append_sse_ok [of "realloc_ok E" "data_buf s" d SSE_MAX_EVENT_SIZE "data_cap s"] E len by auto
  obtain dcap1 where dcap1: "append_sse (realloc_ok E) (data_buf s, data_cap s) [LF] SSE_MAX_EVENT_SIZE = Some (data_buf s @ [LF], dcap1)"
    using append_sse_ok [of "realloc_ok E" "data_buf s" "[LF]" SSE_MAX_EVENT_SIZE "data_cap s"] E len by auto
  obtain dcap2 where dcap2: "append_sse (realloc_ok E) (data_buf s @ [LF], dcap1) d SSE_MAX_EVENT_SIZE = Some (data_buf s @ LF # d, dcap2)"
    using append_sse_ok [of "realloc_ok E" "data_buf s @ [LF]" d SSE_MAX_EVENT_SIZE dcap1] E len by auto
  let ?dcap = "if has_data s then dcap2 else dcap"
  have e: "end_of_line E ?s = s\<lparr>line_cap := cap, data_cap := ?dcap, has_data := True,
      data_buf := (if has_data s then data_buf s @ LF # d else data_buf s @ d)\<rparr>"
    using strip_cr_prefix [OF d, of "''data''"] c s dcap dcap1 dcap2
    by (simp add: end_of_line_def process_line_def has_prefix_def field_value_def quiet_def append_data_def)
  show ?thesis
    using w e s by (intro exI [of _ cap] exI [of _ ?dcap]) (simp add: wire_field_def quiet_def)
qed

lemma has_data_same: "has_data s \<Longrightarrow> s\<lparr>has_data := True\<rparr> = s"
  by (cases s) simp

lemma wire_data_lines:
  assumes E: "\<And>n. realloc_ok E n" and "quiet s" and "\<forall>d \<in> set ds. plain_text d" and "has_data s"
    and "length (data_buf s) + sum_list (map (\<lambda>d. length d + 1) ds) \<le> SSE_MAX_EVENT_SIZE"
  shows "\<exists>cap dcap. write_loop E (concat (map (wire_field ''data'') ds) @ rest) s =
    write_loop E rest (s\<lparr>line_cap := cap, data_cap := dcap,
      data_buf := data_buf s @ concat (map (\<lambda>d. LF # d) ds)\<rparr>)"
  using assms(2-)
proof (induction ds arbitrary: s)
  case Nil
  then show ?case by (intro exI [of _ "line_cap s"] exI [of _ "data_cap s"]) simp
next
  case (Cons d ds)
  obtain cap dcap where w: "write_loop E (wire_field ''data'' d @ concat (map (wire_field ''data'') ds) @ rest) s =
      write_loop E (concat (map (wire_field ''data'') ds) @ rest)
        (s\<lparr>line_cap := cap, data_cap := dcap, has_data := True, data_buf := data_buf s @ LF # d\<rparr>)"
    using wire_data_line [OF E Cons.prems(1), of d "concat (map (wire_field ''data'') ds) @ rest"] Cons.prems
    by auto
  let ?s = "s\<lparr>line_cap := cap, data_cap := dcap, has_data := True, data_buf := data_buf s @ LF # d\<rparr>"
  obtain cap' dcap' where "write_loop E (concat (map (wire_field ''data'') ds) @ rest) ?s =
      write_loop E rest (?s\<lparr>line_cap := cap', data_cap := dcap',
        data_buf := data_buf ?s @ concat (map (\<lambda>d. LF # d) ds)\<rparr>)"
    using Cons.IH [of ?s] Cons.prems by (auto simp: quiet_def)
  with w have "write_loop E (concat (map (wire_field ''data'') (d # ds)) @ rest) s =
      write_loop E rest (s\<lparr>line_cap := cap', data_cap := dcap',
        data_buf := data_buf s @ concat (map (\<lambda>d. LF # d) (d # ds))\<rparr>)"
    by (simp add: has_data_same [OF Cons.prems(3)])
  then show ?case by blast
qed

lemma join_lines_Cons: "join_lines (d # ds) = d @ concat (map (\<lambda>d. LF # d) ds)"
  by (induction ds arbitrary: d) auto

lemma wire_event_parsed:
  assumes E: "\<And>n. realloc_ok E n" and s: "quiet s" "event_type s = []" "\<not> has_data s" "data_buf s = []"
    and t: "plain_text type" "length type < 64" and d: "\<forall>d \<in> set ds. plain_text d"
    and len: "sum_list (map (\<lambda>d. length d + 1) ds) \<le> SSE_MAX_EVENT_SIZE"
  shows "\<exists>cap dcap. write_loop E (wire_event type ds @ rest) s =
    write_loop E (LF # rest) (s\<lparr>event_type := type, line_cap := cap, data_cap := dcap,
      has_data := ds \<noteq> [], data_buf := join_lines ds\<rparr>)"
proof -
  let ?tail = "concat (map (wire_field ''data'') ds) @ LF # rest"
  obtain cap where 1: "write_loop E (wire_field ''event'' type @ ?tail) s =
      write_loop E ?tail (s\<lparr>event_type := type, line_cap := cap\<rparr>)"
    using wire_event_line [OF E s(1) t, of ?tail] by blast
  let ?s1 = "s\<lparr>event_type := type, line_cap := cap\<rparr>"
  show ?thesis
  proof (cases ds)
    case Nil
    have "s\<lparr>event_type := type, line_cap := cap\<rparr> = s\<lparr>event_type := type, line_cap := cap, data_cap := data_cap s,
        has_data := ds \<noteq> [], data_buf := join_lines ds\<rparr>"
      using s Nil by (intro sse.equality) simp_all
    note same = this
    have "write_loop E (wire_event type ds @ rest) s = write_loop E (LF # rest) (s\<lparr>event_type := type, line_cap := cap\<rparr>)"
      using 1 Nil by (simp add: wire_event_def del: write_loop.simps)
    then show ?thesis by (subst (asm) same) blast
  next
    case (Cons x xs)
    let ?tail' = "concat (map (wire_field ''data'') xs) @ LF # rest"
    have q: "quiet ?s1" using s(1) by (simp add: quiet_def)
    obtain cap1 dcap1 where 2: "write_loop E (wire_field ''data'' x @ ?tail') ?s1 =
        write_loop E ?tail' (?s1\<lparr>line_cap := cap1, data_cap := dcap1, has_data := True, data_buf := x\<rparr>)"
      using wire_data_line [OF E q, of x ?tail'] s d len Cons by auto
    let ?s2 = "?s1\<lparr>line_cap := cap1, data_cap := dcap1, has_data := True, data_buf := x\<rparr>"
    have q2: "quiet ?s2" using s(1) by (simp add: quiet_def)
    obtain cap2 dcap2 where 3: "write_loop E ?tail' ?s2 =
        write_loop E (LF # rest) (?s2\<lparr>line_cap := cap2, data_cap := dcap2,
          data_buf := data_buf ?s2 @ concat (map (\<lambda>d. LF # d) xs)\<rparr>)"
      using wire_data_lines [OF E q2, of xs "LF # rest"] d len Cons by auto
    show ?thesis
    proof -
      have "?s2\<lparr>line_cap := cap2, data_cap := dcap2, data_buf := data_buf ?s2 @ concat (map (\<lambda>d. LF # d) xs)\<rparr> =
          s\<lparr>event_type := type, line_cap := cap2, data_cap := dcap2, has_data := ds \<noteq> [], data_buf := join_lines ds\<rparr>"
        unfolding Cons join_lines_Cons by (intro sse.equality) simp_all
      with 1 2 3 have "write_loop E (wire_event type ds @ rest) s = write_loop E (LF # rest)
          (s\<lparr>event_type := type, line_cap := cap2, data_cap := dcap2, has_data := ds \<noteq> [], data_buf := join_lines ds\<rparr>)"
        by (simp add: wire_event_def Cons del: write_loop.simps)
      then show ?thesis by blast
    qed
  qed
qed

section \<open>Properties\<close>

text \<open>C10: How the network cuts the stream does not matter: receiving it in any pieces leaves the client,
  the parser, the cursor and everything the callback did exactly as receiving it at once does (only the
  time stamp of the last byte may differ).\<close>

theorem sse_chunking_irrelevant:
  assumes "\<not> stop s" and "\<not> reconnect s" and "concat chunks = concat chunks'"
  shows "stamp 0 (perform E (map Chunk chunks) s) = stamp 0 (perform E (map Chunk chunks') s)"
  using perform_chunks [OF assms(1,2), of E chunks] perform_chunks [OF assms(1,2), of E chunks'] assms(3)
  by simp

definition demo_sse_env :: "(string list, json) sse_env" where
  "demo_sse_env = \<lparr>js = tree (\<lambda>_. Some (JObj [(''revision'', JNum 9)])) (\<lambda>_. []),
     fn = Some (\<lambda>ty d w. \<lparr>cb_world = w @ [ty @ ''='' @ d], cb_saved = True, cb_stop = False, cb_kick = False\<rparr>),
     set_local_rev = None, any_failed = (\<lambda>_. False), set_failure = (\<lambda>w. w), realloc_ok = (\<lambda>_. True), now = (\<lambda>_. 100)\<rparr>"

definition demo_sse :: "string list sse" where
  "demo_sse = the (enil_sse_create (Some ''token'') 5 [])"

lemma demo_sse_quiet: "quiet demo_sse" "event_type demo_sse = []" "\<not> has_data demo_sse" "data_buf demo_sse = []"
  "world demo_sse = []" "local_rev demo_sse = 5"
  by (simp_all add: demo_sse_def enil_sse_create_def quiet_def)

theorem sse_chunking_irrelevant_witness:
  "stamp 0 (perform demo_sse_env [Chunk ''da'', Chunk ''ta:''] demo_sse) =
   stamp 0 (perform demo_sse_env [Chunk ''data:''] demo_sse)"
  using sse_chunking_irrelevant [of demo_sse "[''da'', ''ta:'']" "[''data:'']" demo_sse_env] demo_sse_quiet
  by (simp add: quiet_def del: perform.simps)

text \<open>C15: An event sent as the protocol lays it out reaches the callback exactly once, with its type and its data
  lines joined by newlines, and what follows depends on the answers alone.  When the callback does not save it, asks
  to stop, or leaves a gate failed, the delivery has failed and the cursor stays.  When it is accepted, a
  fullSync stops the client and moves no cursor; any other event with a revision above the cursor is saved once,
  with that revision, and the cursor becomes the revision exactly when the save succeeds, and otherwise the delivery
  has failed; an older event saves nothing.  The client reconnects when the callback asks for it or the event is a
  reconnect.  Assumed: allocation succeeds, the parser is between two events, the type is of 1 to 63 characters,
  type and data have no line breaks or NUL, and the data fit the event limit.\<close>

theorem sse_event_delivered:
  assumes "\<forall>n. realloc_ok E n" and "quiet s" and "event_type s = []" and "\<not> has_data s" and "data_buf s = []"
    and "plain_text type" and "type \<noteq> []" and "length type < 64"
    and "\<forall>d \<in> set ds. plain_text d" and "sum_list (map (\<lambda>d. length d + 1) ds) \<le> SSE_MAX_EVENT_SIZE"
    and "fn E = Some f"
  shows "let r = f type (join_lines ds) (world s);
      rev = enil_sse_event_revision (js E) (Some type) (Some (join_lines ds));
      (w, ok) = (case set_local_rev E of None \<Rightarrow> (cb_world r, True) | Some save \<Rightarrow> save rev (cb_world r));
      (s', more) = write_loop E (wire_event type ds) s
    in more = (\<not> stop s' \<and> \<not> reconnect s' \<and> \<not> delivery_failed s') \<and> line_buf s' = [] \<and>
      (if \<not> cb_saved r \<or> any_failed E (cb_world r) \<or> cb_stop r
       then delivery_failed s' \<and> world s' = cb_world r \<and> local_rev s' = local_rev s
       else event_type s' = [] \<and> data_buf s' = [] \<and> \<not> has_data s' \<and>
         (if type = ''fullSync'' then stop s' \<and> \<not> delivery_failed s' \<and> world s' = cb_world r \<and> local_rev s' = local_rev s
          else \<not> stop s' \<and> reconnect s' = (cb_kick r \<or> type = ''reconnect'') \<and>
            (if rev \<le> local_rev s then \<not> delivery_failed s' \<and> world s' = cb_world r \<and> local_rev s' = local_rev s
             else delivery_failed s' = (\<not> ok) \<and> world s' = w \<and> local_rev s' = (if ok then rev else local_rev s))))"
proof -
  let ?r = "enil_sse_event_revision (js E) (Some type) (Some (join_lines ds))" and ?c = "f type (join_lines ds) (world s)"
  obtain w ok where save: "(case set_local_rev E of None \<Rightarrow> (cb_world ?c, True) | Some save \<Rightarrow> save ?r (cb_world ?c)) = (w, ok)"
    by fastforce
  obtain cap dcap where parsed: "write_loop E (wire_event type ds @ []) s =
    write_loop E [LF] (s\<lparr>event_type := type, line_cap := cap, data_cap := dcap,
      has_data := ds \<noteq> [], data_buf := join_lines ds\<rparr>)"
    using wire_event_parsed [of E s type ds "[]"] assms(1-6,8-10) by blast
  let ?s = "s\<lparr>event_type := type, line_cap := cap, data_cap := dcap, has_data := ds \<noteq> [], data_buf := join_lines ds\<rparr>"
  let ?s1 = "?s\<lparr>world := cb_world ?c, stop := cb_stop ?c, reconnect := cb_kick ?c\<rparr>"
  have n: "event_name ?s = type" using assms(7) by (simp add: event_name_def)
  have q: "\<not> stop s" "\<not> reconnect s" "\<not> delivery_failed s" "line_buf s = []"
    using assms(2) by (simp_all add: quiet_def)
  have c: "call_back E ?s (event_name ?s) (data_buf ?s) = (?s1, cb_saved ?c)"
    unfolding n using q assms(11) by (simp add: call_back_def Let_def)
  define t saved where "t = (if ?r \<le> local_rev s then ?s1 else ?s1\<lparr>world := w, local_rev := (if ok then ?r else local_rev s)\<rparr>)"
    and "saved \<longleftrightarrow> ?r \<le> local_rev s \<or> ok"
  have v: "enil_sse_save_local_rev E ?s1 (enil_sse_event_revision (js E) (Some (event_name ?s)) (Some (data_buf ?s))) = (t, saved)"
    unfolding n using save by (cases ok) (auto simp: t_def saved_def enil_sse_save_local_rev_def split: option.splits)
  have d: "dispatch_event E ?s =
    (if \<not> cb_saved ?c \<or> any_failed E (cb_world ?c) \<or> cb_stop ?c then ?s1\<lparr>delivery_failed := True\<rparr>
     else if type = ''fullSync'' then clear_event (?s1\<lparr>stop := True\<rparr>)
     else let s3 = (if saved then t else t\<lparr>delivery_failed := True\<rparr>)
       in clear_event (if type = ''reconnect'' then s3\<lparr>reconnect := True\<rparr> else s3))"
    unfolding dispatch_event_eq [OF c v] n using assms(7) by simp
  have same: "?s\<lparr>line_buf := strip_cr (line_buf ?s)\<rparr> = ?s"
    using q(4) by (intro sse.equality) (simp_all add: strip_cr_def)
  have "process_line E ?s = dispatch_event E ?s" using q(4) by (simp add: process_line_def)
  then have "end_of_line E ?s = (dispatch_event E ?s)\<lparr>line_buf := []\<rparr>"
    unfolding end_of_line_def same by simp
  then have run: "write_loop E (wire_event type ds) s =
      (let s1 = (dispatch_event E ?s)\<lparr>line_buf := []\<rparr> in (s1, \<not> stop s1 \<and> \<not> reconnect s1 \<and> \<not> delivery_failed s1))"
    using parsed by (simp add: Let_def)
  show ?thesis
    unfolding run save Let_def prod.case d
    using q by (auto simp: t_def saved_def clear_event_def)
qed

text \<open>A database that is written by the save: the event is received, saved, and only then the cursor moves.\<close>

theorem sse_event_delivered_witness:
  "let E = demo_sse_env\<lparr>set_local_rev := Some (\<lambda>r w. (w @ [''saved''], True))\<rparr>;
       (s', more) = write_loop E (wire_event ''message'' [''{'', ''}'']) demo_sse
   in more \<and> world s' = [''message='' @ ''{'' @ [LF] @ ''}'', ''saved''] \<and> event_type s' = [] \<and> data_buf s' = [] \<and>
     \<not> has_data s' \<and> local_rev s' = 9"
proof -
  let ?E = "demo_sse_env\<lparr>set_local_rev := Some (\<lambda>r w. (w @ [''saved''], True))\<rparr>"
  have r: "enil_sse_event_revision (js demo_sse_env) (Some ''message'') (Some (join_lines [''{'', ''}''])) = 9"
    by (simp add: enil_sse_event_revision_def demo_sse_env_def enil_json_coerce_int64_def lower_char.simps Let_def)
  obtain s' more where run: "write_loop ?E (wire_event ''message'' [''{'', ''}'']) demo_sse = (s', more)" by fastforce
  have fn: "fn ?E = Some (\<lambda>ty d w. \<lparr>cb_world = w @ [ty @ ''='' @ d], cb_saved = True, cb_stop = False, cb_kick = False\<rparr>)"
    "set_local_rev ?E = Some (\<lambda>r w. (w @ [''saved''], True))" "\<And>w. \<not> any_failed ?E w" "js ?E = js demo_sse_env"
    by (simp_all add: demo_sse_env_def)
  have ok: "\<forall>n. realloc_ok ?E n" "plain_text ''message''" "''message'' \<noteq> []" "length ''message'' < 64"
    "\<forall>d \<in> set [''{'', ''}'']. plain_text d" "sum_list (map (\<lambda>d. length d + 1) [''{'', ''}'']) \<le> SSE_MAX_EVENT_SIZE"
    by (simp_all add: demo_sse_env_def plain_text_def NUL_def LF_def CR_def SSE_MAX_EVENT_SIZE_def)
  have "join_lines [''{'', ''}''] = ''{'' @ [LF] @ ''}''" by simp
  then show ?thesis
    using sse_event_delivered [OF ok(1) demo_sse_quiet(1-4) ok(2-6) fn(1)] demo_sse_quiet(5,6) r
    unfolding Let_def run fn by (simp add: demo_sse_env_def)
qed

text \<open>Memory is bounded: however much the server sends and in whatever order kicks, stops and idle
  checks come, neither buffer ever holds more than its limit (8 MiB of event data, 7 more for a line),
  the allocations stay at most one byte above, the event type fits its 64-byte field, and every buffer
  has room for its terminating NUL.\<close>

theorem sse_buffers_bounded:
  assumes "sse_bounded s"
  shows "sse_bounded (perform E es s)"
  using assms by (rule perform_bounded)

theorem sse_buffers_bounded_witness:
  "sse_bounded (perform demo_sse_env [Chunk ''data: x'', Progress, Kick] demo_sse)"
  by (rule sse_buffers_bounded)
    (simp add: sse_bounded_def demo_sse_def enil_sse_create_def SSE_MAX_LINE_SIZE_def SSE_MAX_EVENT_SIZE_def)

text \<open>C11: The cursor only follows acknowledged events: dispatching moves it only when the callback accepted
  the event, no failure gate is set, no stop was requested, the event is not a full sync and (with a
  database) the new value was saved first; it then is the event's own, larger revision.  A failed
  delivery leaves it alone, so the event is requested again.\<close>

theorem sse_cursor_acknowledged:
  "(local_rev (dispatch_event E s) \<noteq> local_rev s \<longrightarrow>
     (\<exists>s1. call_back E s (event_name s) (data_buf s) = (s1, True) \<and> \<not> any_failed E (world s1) \<and> \<not> stop s1 \<and>
        event_name s \<noteq> ''fullSync'' \<and> local_rev s < local_rev (dispatch_event E s) \<and>
        local_rev (dispatch_event E s) = enil_sse_event_revision (js E) (Some (event_name s)) (Some (data_buf s)) \<and>
        (\<forall>save. set_local_rev E = Some save \<longrightarrow> snd (save (local_rev (dispatch_event E s)) (world s1))))) \<and>
   (delivery_failed (dispatch_event E s) \<and> \<not> delivery_failed s \<longrightarrow> local_rev (dispatch_event E s) = local_rev s)"
proof -
  let ?r = "enil_sse_event_revision (js E) (Some (event_name s)) (Some (data_buf s))"
  obtain s1 ok where c: "call_back E s (event_name s) (data_buf s) = (s1, ok)" by force
  obtain s2 saved where v: "enil_sse_save_local_rev E s1 ?r = (s2, saved)" by force
  note cc = call_back_cursor [OF c] and vv = save_cursor [OF v] save_failed [OF v]
  have moved: "\<forall>save. set_local_rev E = Some save \<longrightarrow> snd (save ?r (world s1))" if "local_rev s2 \<noteq> local_rev s1"
    using v that by (auto simp: enil_sse_save_local_rev_def split: if_splits prod.splits bool.splits)
  show ?thesis
    unfolding dispatch_event_eq [OF c v] Let_def clear_event_def
    using cc vv moved by (auto simp: c max_def split: if_splits)
qed

definition demo_event :: "string list sse" where
  "demo_event = demo_sse\<lparr>event_type := ''message'', data_buf := ''{}'', has_data := True\<rparr>"

theorem sse_cursor_acknowledged_witness:
  "local_rev demo_event = 5 \<and> local_rev (dispatch_event demo_sse_env demo_event) = 9 \<and>
   \<not> any_failed demo_sse_env (world (fst (call_back demo_sse_env demo_event ''message'' ''{}'')))"
proof -
  have r: "enil_sse_event_revision (js demo_sse_env) (Some ''message'') (Some ''{}'') = 9"
    by (simp add: enil_sse_event_revision_def demo_sse_env_def enil_json_coerce_int64_def lower_char.simps Let_def)
  have moved: "local_rev (dispatch_event demo_sse_env demo_event) = 9" "local_rev demo_event = 5"
    using r by (simp_all add: dispatch_event_def demo_event_def demo_sse_def enil_sse_create_def demo_sse_env_def
        call_back_def enil_sse_save_local_rev_def Let_def)
  have "event_name demo_event = ''message''" "data_buf demo_event = ''{}''"
    by (simp_all add: event_name_def demo_event_def)
  with moved sse_cursor_acknowledged [of demo_sse_env demo_event] show ?thesis by auto
qed

text \<open>Over a whole transfer the cursor never goes back, and the idle watchdog cannot be missed: a
  progress check more than 45 seconds after the last byte aborts the transfer and asks for a reconnect,
  and one within the window lets it run.\<close>

theorem sse_cursor_monotone_watchdog:
  "local_rev s \<le> local_rev (perform E es s) \<and>
   (\<not> stop s \<and> \<not> reconnect s \<and> last_activity s \<noteq> 0 \<longrightarrow>
      snd (progress_cb E s) = (45 < now E (world s) - last_activity s) \<and>
      reconnect (fst (progress_cb E s)) = (45 < now E (world s) - last_activity s))"
  using perform_cursor [of s E es] by (auto simp: progress_cb_def SSE_IDLE_TIMEOUT_def)

theorem sse_cursor_monotone_watchdog_witness:
  "local_rev (demo_sse\<lparr>last_activity := 30\<rparr>) \<le> 5 \<and>
   snd (progress_cb demo_sse_env (demo_sse\<lparr>last_activity := 30\<rparr>))"
  using sse_cursor_monotone_watchdog [of "demo_sse\<lparr>last_activity := 30\<rparr>" demo_sse_env "[]"]
  by (simp add: demo_sse_def enil_sse_create_def demo_sse_env_def)

end
