(* ===== verification/ENIL_NativePoll.thy ===== *)
theory ENIL_NativePoll
  imports ENIL_Sse
begin

text \<open>
  \<open>source/shared/enil_native_poll.c\<close>: the long poll of native (Thrift) accounts.  It shares the
  client state, the event callback and the cursor with the SSE client.  A record \<open>native_env\<close> gives
  what the loop calls: the session file, the transport (during whose call other threads may stop or
  kick the client) and the passing of a second.  \<open>poll_round\<close> is one turn of the \<open>while\<close> loop,
  \<open>native_poll\<close> the loop with a bound on the number of turns.
\<close>

section \<open>The environment\<close>

record 'w post_result =
  pr_world :: 'w
  pr_response :: ENILLineResponse
  pr_stop :: bool
  pr_kick :: bool

record ('w, 'j) native_env =
  client :: "('w, 'j) sse_env"
  continue_identity :: "'w \<Rightarrow> 'w \<times> bool"
  session_read :: "'w \<Rightarrow> 'j option"
  session_patch :: "'j \<Rightarrow> 'w \<Rightarrow> 'w \<times> bool"
  post_sync :: "string \<Rightarrow> string \<Rightarrow> 'w \<Rightarrow> 'w post_result"
  one_second :: "'w \<Rightarrow> 'w \<times> bool \<times> bool"

abbreviation jlib :: "('w, 'j) native_env \<Rightarrow> 'j cjson" where
  "jlib N \<equiv> js (client N)"

section \<open>Delivering one event\<close>

definition native_dispatch :: "('w, 'j) sse_env \<Rightarrow> 'w sse \<Rightarrow> string \<Rightarrow> 'j \<Rightarrow> 'w sse \<times> bool" where
  "native_dispatch E s type data =
     (let json = printText (js E) data
      in case call_back E s type json of
           (s1, ok) \<Rightarrow>
             if \<not> ok \<or> any_failed E (world s1) \<or> stop s1 then (s1, False)
             else if type \<noteq> ''fullSync'' then
               enil_sse_save_local_rev E s1 (enil_sse_event_revision (js E) (Some type) (Some json))
             else (s1, True))"

text \<open>\<open>for (op = v->child; op && ok; op = op->next)\<close>\<close>

fun dispatch_ops :: "('w, 'j) sse_env \<Rightarrow> 'w sse \<Rightarrow> 'j list \<Rightarrow> 'w sse \<times> bool" where
  "dispatch_ops E s [] = (s, True)"
| "dispatch_ops E s (op # ops) =
     (case native_dispatch E s ''message'' op of
        (s1, True) \<Rightarrow> dispatch_ops E s1 ops
      | (s1, False) \<Rightarrow> (s1, False))"

section \<open>The request\<close>

definition sync_request :: "'j cjson \<Rightarrow> 'j option \<Rightarrow> int \<Rightarrow> 'j" where
  "sync_request J saved revision =
     (let saved_or_0 = (\<lambda>k. case jget J saved k of Some v \<Rightarrow> v | None \<Rightarrow> mkString J ''0'');
          req = addItem J (mkObject J) ''lastRevision'' (mkString J (show_int revision));
          req = addItem J req ''count'' (mkNumber J 100);
          req = addItem J req ''lastGlobalRevision'' (saved_or_0 ''nativeGlobalRevision'');
          req = addItem J req ''lastIndividualRevision'' (saved_or_0 ''nativeIndividualRevision'');
          req = (case jget J saved ''lastPartialFullSyncs'' of
                   None \<Rightarrow> req
                 | Some v \<Rightarrow> addItem J req ''lastPartialFullSyncs'' v)
      in addElem J (mkArray J) req)"

section \<open>Handling a response\<close>

text \<open>The secondary cursors a successful response carries, as a patch of the session.\<close>

definition cursor_patch :: "'j cjson \<Rightarrow> 'j option \<Rightarrow> 'j" where
  "cursor_patch J ops =
     (let patch = (case jget J (jget J ops ''globalEvents'') ''lastRevision'' of
                     None \<Rightarrow> mkObject J
                   | Some v \<Rightarrow> addItem J (mkObject J) ''nativeGlobalRevision'' v)
      in case jget J (jget J ops ''individualEvents'') ''lastRevision'' of
           None \<Rightarrow> patch
         | Some v \<Rightarrow> addItem J patch ''nativeIndividualRevision'' v)"

text \<open>
  Lines 112 to 133: the operations in order, then the partial sync, then the secondary cursors; each
  stage only when the ones before it succeeded.  The last component is \<open>hasMoreOps\<close>.
\<close>

definition handle_ops :: "('w, 'j) native_env \<Rightarrow> 'j option \<Rightarrow> 'w sse \<Rightarrow> 'w sse \<times> bool \<times> bool" where
  "handle_ops N data s =
     (let J = jlib N; ops = jget J data ''operationResponse''
      in case dispatch_ops (client N) s (map snd (jkids J (jget J ops ''operations''))) of
           (s1, False) \<Rightarrow> (s1, False, False)
         | (s1, True) \<Rightarrow>
             (case (case jget J data ''partialFullSyncResponse'' of
                      None \<Rightarrow> (s1, True)
                    | Some v \<Rightarrow> native_dispatch (client N) s1 ''partialFullSync'' v) of
                (s2, False) \<Rightarrow> (s2, False, False)
              | (s2, True) \<Rightarrow>
                  (let patch = cursor_patch J ops; has_more = jis (isTrue J) (jget J ops ''hasMoreOps'')
                   in if children J patch = [] then (s2, True, has_more)
                      else case session_patch N patch (world s2) of
                             (w, saved) \<Rightarrow> (s2\<lparr>world := w\<rparr>, saved, has_more))))"

definition retry_delay :: "nat \<Rightarrow> nat" where
  "retry_delay failures = (if failures < 5 then 2 ^ failures else 30)"

text \<open>\<open>for (i = 0; i < delay && !stop && !reconnect; i++) sleep(1)\<close>\<close>

fun pause :: "('w, 'j) native_env \<Rightarrow> nat \<Rightarrow> 'w sse \<Rightarrow> 'w sse" where
  "pause N 0 s = s"
| "pause N (Suc i) s =
     (if stop s \<or> reconnect s then s
      else case one_second N (world s) of
             (w, st, kick) \<Rightarrow>
               pause N i (s\<lparr>world := w, stop := stop s \<or> st, reconnect := reconnect s \<or> kick\<rparr>))"

section \<open>The loop\<close>

datatype poll_next = Poll_ends | Poll_again nat

text \<open>A response was received, it is not idle, cancelled or an error document: lines 101 to 156.\<close>

definition poll_response ::
  "('w, 'j) native_env \<Rightarrow> nat \<Rightarrow> ENILLineResponse \<Rightarrow> 'w sse \<Rightarrow> 'w sse \<times> poll_next" where
  "poll_response N failures r s =
     (let J = jlib N;
          json = (if status r = 200 then Option.bind (body r) (parseText J) else None);
          data = jget J json ''data''
      in case (data, jget J data ''fullSyncResponse'') of
           (Some _, Some v) \<Rightarrow> (fst (native_dispatch (client N) s ''fullSync'' v), Poll_ends)
         | _ \<Rightarrow>
             (case (if data = None then (s, False, False) else handle_ops N data s) of
                (s1, ok, has_more) \<Rightarrow>
                  (let failures' = (if ok then 0 else failures + 1);
                       delay = (if ok then (if has_more then 0 else 1) else retry_delay failures')
                   in if 5 \<le> failures' then (s1\<lparr>world := set_failure (client N) (world s1)\<rparr>, Poll_ends)
                      else (pause N delay s1, Poll_again failures'))))"

definition poll_round :: "('w, 'j) native_env \<Rightarrow> nat \<Rightarrow> 'w sse \<Rightarrow> 'w sse \<times> poll_next" where
  "poll_round N failures s =
     (let s0 = s\<lparr>reconnect := False, interrupt := False\<rparr>
      in if stop s0 then (s0, Poll_ends)
         else case continue_identity N (world s0) of
           (w, False) \<Rightarrow> (s0\<lparr>world := w\<rparr>, Poll_ends)
         | (w, True) \<Rightarrow>
             (let J = jlib N; saved = session_read N w
              in case jstr J (jget J saved ''accessToken'') of
                   None \<Rightarrow> (s0\<lparr>world := w\<rparr>, Poll_ends)
                 | Some token \<Rightarrow>
                     (let p = post_sync N (printText J (sync_request J saved (local_rev s0))) token w;
                          r = pr_response p;
                          s1 = s0\<lparr>world := pr_world p, stop := pr_stop p, reconnect := pr_kick p,
                            interrupt := pr_stop p \<or> pr_kick p\<rparr>
                      in if status r = 204 \<or> reconnect s1 \<or> stop s1 then
                           (s1, Poll_again (if status r = 204 \<and> \<not> reconnect s1 \<and> \<not> stop s1 then 0 else failures))
                         else if status r = 400 \<and> body r \<noteq> None then
                           (case Option.bind (body r) (parseText J) of
                              None \<Rightarrow> (s1, Poll_ends)
                            | Some json \<Rightarrow> (fst (native_dispatch (client N) s1 ''talkException'' json), Poll_ends))
                         else poll_response N failures r s1)))"

text \<open>The loop, for at most \<open>fuel\<close> turns; the flag tells that it has ended by itself.\<close>

fun native_poll :: "('w, 'j) native_env \<Rightarrow> nat \<Rightarrow> nat \<Rightarrow> 'w sse \<Rightarrow> 'w sse \<times> bool" where
  "native_poll N 0 failures s = (s, False)"
| "native_poll N (Suc fuel) failures s =
     (if stop s \<or> any_failed (client N) (world s) then (s, True)
      else case poll_round N failures s of
             (s1, Poll_ends) \<Rightarrow> (s1, True)
           | (s1, Poll_again failures') \<Rightarrow> native_poll N fuel failures' s1)"

section \<open>The cursor\<close>

text \<open>The cursor an operation asks for.\<close>

definition op_rev :: "'j cjson \<Rightarrow> 'j \<Rightarrow> int" where
  "op_rev J op = enil_sse_event_revision J (Some ''message'') (Some (printText J op))"

lemma native_dispatch_cursor:
  assumes "native_dispatch E s ty d = (s', ok)"
  shows "local_rev s \<le> local_rev s'" and "\<not> ok \<Longrightarrow> local_rev s' = local_rev s"
    and "ty = ''fullSync'' \<Longrightarrow> local_rev s' = local_rev s"
    and "ok \<Longrightarrow> ty = ''message'' \<Longrightarrow> local_rev s' = max (local_rev s) (op_rev (js E) d)"
  using assms
  by (auto simp: native_dispatch_def op_rev_def Let_def dest!: call_back_cursor save_cursor split: prod.splits if_splits)

text \<open>
  What the callback answers to an operation, whether the operation is taken, and the save of its cursor; a
  client without a callback takes everything.
\<close>

definition op_answer :: "('w, 'j) sse_env \<Rightarrow> 'w \<Rightarrow> 'j \<Rightarrow> 'w callback_result" where
  "op_answer E w op =
     (case fn E of
        None \<Rightarrow> \<lparr>cb_world = w, cb_saved = True, cb_stop = False, cb_kick = False\<rparr>
      | Some f \<Rightarrow> f ''message'' (printText (js E) op) w)"

definition op_taken :: "('w, 'j) sse_env \<Rightarrow> 'w \<Rightarrow> 'j \<Rightarrow> bool" where
  "op_taken E w op \<longleftrightarrow>
     cb_saved (op_answer E w op) \<and> \<not> any_failed E (cb_world (op_answer E w op)) \<and> \<not> cb_stop (op_answer E w op)"

definition op_saved :: "('w, 'j) sse_env \<Rightarrow> int \<Rightarrow> 'w \<Rightarrow> 'j \<Rightarrow> 'w \<times> bool" where
  "op_saved E cursor w op =
     (let w1 = cb_world (op_answer E w op); r = op_rev (js E) op
      in if r \<le> cursor then (w1, True) else case set_local_rev E of None \<Rightarrow> (w1, True) | Some save \<Rightarrow> save r w1)"

text \<open>From the world \<open>w\<close> to \<open>w'\<close> an operation is acknowledged, or refused.\<close>

definition acknowledged :: "('w, 'j) sse_env \<Rightarrow> int \<Rightarrow> 'w \<Rightarrow> 'j \<Rightarrow> 'w \<Rightarrow> bool" where
  "acknowledged E cursor w op w' \<longleftrightarrow> op_taken E w op \<and> op_saved E cursor w op = (w', True)"

definition refused :: "('w, 'j) sse_env \<Rightarrow> int \<Rightarrow> 'w \<Rightarrow> 'j \<Rightarrow> 'w \<Rightarrow> bool" where
  "refused E cursor w op w' \<longleftrightarrow>
     (\<not> op_taken E w op \<and> w' = cb_world (op_answer E w op)) \<or> (op_taken E w op \<and> op_saved E cursor w op = (w', False))"

definition cursor_after :: "'j cjson \<Rightarrow> 'j list \<Rightarrow> int \<Rightarrow> int" where
  "cursor_after J ops cursor = fold (\<lambda>op r. max r (op_rev J op)) ops cursor"

lemma native_dispatch_judged:
  assumes "native_dispatch E s ''message'' op = (s', ok)" and "\<not> stop s"
  shows "if ok then acknowledged E (local_rev s) (world s) op (world s') \<and> \<not> stop s'
    else refused E (local_rev s) (world s) op (world s')"
proof -
  have c: "call_back E s ''message'' (printText (js E) op) =
      (s\<lparr>world := cb_world (op_answer E (world s) op), stop := cb_stop (op_answer E (world s) op),
         reconnect := reconnect s \<or> cb_kick (op_answer E (world s) op)\<rparr>, cb_saved (op_answer E (world s) op))"
    using assms(2) by (auto simp: call_back_def op_answer_def Let_def split: option.split)
  show ?thesis
    using assms by (auto simp: native_dispatch_def c Let_def acknowledged_def refused_def op_taken_def op_saved_def op_rev_def
        enil_sse_save_local_rev_def split: if_splits option.splits prod.splits bool.splits)
qed

lemma native_dispatch_refused:
  "native_dispatch E s ''message'' op = (s', False) \<Longrightarrow> dispatch_ops E s (op # ops) = (s', False)"
  by simp

lemma dispatch_ops_prefix:
  assumes "dispatch_ops E s ops = (s', ok)" and "\<not> stop s"
  shows "\<exists>n ws. ws 0 = world s \<and> n \<le> length ops \<and>
     (\<forall>i < n. acknowledged E (cursor_after (js E) (take i ops) (local_rev s)) (ws i) (ops ! i) (ws (Suc i))) \<and>
     local_rev s' = cursor_after (js E) (take n ops) (local_rev s) \<and>
     (if ok then n = length ops \<and> world s' = ws n
      else n < length ops \<and> refused E (local_rev s') (ws n) (ops ! n) (world s') \<and>
        (\<forall>others. dispatch_ops E s (take (Suc n) ops @ others) = (s', False)))"
  using assms
proof (induction ops arbitrary: s)
  case Nil
  then show ?case by (intro exI [of _ 0] exI [of _ "\<lambda>_. world s"]) (auto simp: cursor_after_def)
next
  case (Cons op ops)
  obtain s1 ok1 where d: "native_dispatch E s ''message'' op = (s1, ok1)" by force
  note j = native_dispatch_judged [OF d Cons.prems(2)]
  show ?case
  proof (cases ok1)
    case True
    with Cons.prems d have "dispatch_ops E s1 ops = (s', ok)" by simp
    with j True obtain n ws where n: "ws 0 = world s1" "n \<le> length ops"
      "\<forall>i < n. acknowledged E (cursor_after (js E) (take i ops) (local_rev s1)) (ws i) (ops ! i) (ws (Suc i))"
      "local_rev s' = cursor_after (js E) (take n ops) (local_rev s1)"
      "if ok then n = length ops \<and> world s' = ws n
       else n < length ops \<and> refused E (local_rev s') (ws n) (ops ! n) (world s') \<and>
        (\<forall>others. dispatch_ops E s1 (take (Suc n) ops @ others) = (s', False))"
      using Cons.IH [of s1] by auto
    have rev: "cursor_after (js E) xs (local_rev s1) = cursor_after (js E) (op # xs) (local_rev s)" for xs
      using native_dispatch_cursor(4) [OF d] True by (simp add: cursor_after_def)
    let ?ws = "\<lambda>i. case i of 0 \<Rightarrow> world s | Suc k \<Rightarrow> ws k"
    have "\<forall>i < Suc n. acknowledged E (cursor_after (js E) (take i (op # ops)) (local_rev s)) (?ws i) ((op # ops) ! i) (?ws (Suc i))"
    proof (intro allI impI)
      fix i assume "i < Suc n"
      then show "acknowledged E (cursor_after (js E) (take i (op # ops)) (local_rev s)) (?ws i) ((op # ops) ! i) (?ws (Suc i))"
        using j True n(1,3) rev by (cases i) (simp_all add: cursor_after_def)
    qed
    then show ?thesis
      using n d True rev by (intro exI [of _ "Suc n"] exI [of _ ?ws]) auto
  next
    case False
    with Cons.prems d have "s' = s1" "\<not> ok" by simp_all
    then show ?thesis
      using d False j native_dispatch_cursor(2) [OF d]
      by (intro exI [of _ 0] exI [of _ "\<lambda>_. world s"]) (auto simp: cursor_after_def)
  qed
qed

lemma dispatch_ops_cursor: "dispatch_ops E s ops = (s', ok) \<Longrightarrow> local_rev s \<le> local_rev s'"
  by (induction ops arbitrary: s)
    (auto split: prod.splits bool.splits dest: native_dispatch_cursor(1) intro: order_trans)

lemma handle_ops_cursor: "local_rev s \<le> local_rev (fst (handle_ops N data s))"
proof -
  obtain s1 ok where d: "dispatch_ops (client N) s
      (map snd (jkids (jlib N) (jget (jlib N) (jget (jlib N) data ''operationResponse'') ''operations''))) = (s1, ok)"
    by force
  note 1 = dispatch_ops_cursor [OF d]
  show ?thesis
    unfolding handle_ops_def Let_def d
    by (auto simp: 1 split: bool.splits option.splits prod.splits dest!: native_dispatch_cursor(1)
        intro: order_trans [OF 1])
qed

lemma pause_cursor [simp]: "local_rev (pause N n s) = local_rev s"
  by (induction N n s rule: pause.induct) (auto split: prod.splits)

lemma native_dispatch_from: "r \<le> local_rev s \<Longrightarrow> r \<le> local_rev (fst (native_dispatch E s ty d))"
  by (metis native_dispatch_cursor(1) order_trans prod.collapse)

lemma poll_response_from:
  assumes "v \<le> local_rev s"
  shows "v \<le> local_rev (fst (poll_response N failures r s))"
proof -
  obtain s1 ok m where h: "handle_ops N (jget (jlib N)
      (if status r = 200 then Option.bind (body r) (parseText (jlib N)) else None) ''data'') s = (s1, ok, m)"
    by (cases rule: prod_cases3)
  with handle_ops_cursor [of s N] assms have "v \<le> local_rev s1"
    by (metis fst_conv order_trans)
  with assms h show ?thesis
    by (auto simp: poll_response_def Let_def native_dispatch_from split: option.splits)
qed

lemma poll_round_cursor: "local_rev s \<le> local_rev (fst (poll_round N failures s))"
  by (auto simp: poll_round_def Let_def split: prod.splits bool.splits option.splits
      intro!: native_dispatch_from poll_response_from)

lemma native_poll_cursor: "local_rev s \<le> local_rev (fst (native_poll N fuel failures s))"
proof (induction N fuel failures s rule: native_poll.induct)
  case (2 N fuel failures s)
  obtain s1 x where r: "poll_round N failures s = (s1, x)" by force
  with poll_round_cursor [of s N failures] have "local_rev s \<le> local_rev s1" by simp
  with 2 r show ?case by (auto split: poll_next.splits intro: order_trans)
qed simp

section \<open>Giving up\<close>

text \<open>
  A connection that only fails: on the states \<open>G\<close>, no gate is set, the session has a token, a request
  brings neither a reply, nor idleness, nor an error document, and nobody stops or kicks the client.
\<close>

definition dead_line :: "('w, 'j) native_env \<Rightarrow> ('w \<Rightarrow> bool) \<Rightarrow> bool" where
  "dead_line N G \<longleftrightarrow>
     (\<forall>w. G w \<longrightarrow> \<not> any_failed (client N) w \<and>
        (\<exists>w' token. continue_identity N w = (w', True) \<and>
           jstr (jlib N) (jget (jlib N) (session_read N w') ''accessToken'') = Some token \<and>
           (\<forall>t. G (pr_world (post_sync N t token w')) \<and> \<not> pr_stop (post_sync N t token w') \<and>
              \<not> pr_kick (post_sync N t token w') \<and> status (pr_response (post_sync N t token w')) \<notin> {200, 204, 400})) \<and>
        (\<exists>w'. one_second N w = (w', False, False) \<and> G w'))"

lemma dead_pause:
  assumes "dead_line N G" and "G (world s)" and "\<not> stop s" and "\<not> reconnect s"
  shows "G (world (pause N n s)) \<and> \<not> stop (pause N n s)"
  using assms(2-4)
proof (induction n arbitrary: s)
  case (Suc n)
  obtain w' where "one_second N (world s) = (w', False, False)" "G w'"
    using assms(1) Suc.prems(1) by (auto simp: dead_line_def)
  with Suc show ?case by simp
qed simp

lemma dead_round:
  assumes "dead_line N G" and "G (world s)" and "\<not> stop s" and "poll_round N f s = (s', x)"
  shows "(f < 4 \<longrightarrow> x = Poll_again (Suc f) \<and> G (world s') \<and> \<not> stop s') \<and>
    (4 \<le> f \<longrightarrow> x = Poll_ends \<and> (\<exists>w. G w \<and> world s' = set_failure (client N) w)) \<and> local_rev s' = local_rev s"
proof -
  obtain w token where c: "continue_identity N (world s) = (w, True)"
    "jstr (jlib N) (jget (jlib N) (session_read N w) ''accessToken'') = Some token"
    "\<And>t. G (pr_world (post_sync N t token w)) \<and> \<not> pr_stop (post_sync N t token w) \<and>
       \<not> pr_kick (post_sync N t token w) \<and> status (pr_response (post_sync N t token w)) \<notin> {200, 204, 400}"
    using assms(1,2) unfolding dead_line_def by blast
  define p where "p = post_sync N (printText (jlib N) (sync_request (jlib N) (session_read N w) (local_rev s))) token w"
  have p: "G (pr_world p)" "\<not> pr_stop p" "\<not> pr_kick p" "status (pr_response p) \<noteq> 200"
    "status (pr_response p) \<noteq> 204" "status (pr_response p) \<noteq> 400"
    using c(3) unfolding p_def by auto
  define s1 where "s1 = s\<lparr>world := pr_world p, stop := False, reconnect := False, interrupt := False\<rparr>"
  have "poll_round N f s = poll_response N f (pr_response p) s1"
    using assms(3) c p by (simp add: poll_round_def Let_def p_def [symmetric] s1_def)
  also have "\<dots> = (if 4 \<le> f then (s1\<lparr>world := set_failure (client N) (world s1)\<rparr>, Poll_ends)
      else (pause N (retry_delay (Suc f)) s1, Poll_again (Suc f)))"
    using p by (simp add: poll_response_def Let_def)
  finally have "(s', x) = \<dots>" using assms(4) by simp
  moreover have "G (world s1)" "\<not> stop s1" "\<not> reconnect s1" "local_rev s1 = local_rev s"
    using p by (simp_all add: s1_def)
  ultimately show ?thesis
    using dead_pause [OF assms(1), of s1] by (auto split: if_splits)
qed

lemma dead_polls:
  assumes "dead_line N G" and "G (world s)" and "\<not> stop s" and "f + k = 4"
  shows "snd (native_poll N (Suc k) f s) \<and> \<not> snd (native_poll N k f s) \<and>
    (\<exists>w. G w \<and> world (fst (native_poll N (Suc k) f s)) = set_failure (client N) w) \<and>
    local_rev (fst (native_poll N (Suc k) f s)) = local_rev s"
  using assms(2-)
proof (induction k arbitrary: f s)
  case 0
  obtain s' x where r: "poll_round N f s = (s', x)" by force
  have "\<not> any_failed (client N) (world s)" using assms(1) 0(1) by (auto simp: dead_line_def)
  then show ?case using dead_round [OF assms(1) 0(1,2) r] 0 r by auto
next
  case (Suc k)
  obtain s' x where r: "poll_round N f s = (s', x)" by force
  have "\<not> any_failed (client N) (world s)" using assms(1) Suc.prems(1) by (auto simp: dead_line_def)
  moreover have "x = Poll_again (Suc f)" "G (world s')" "\<not> stop s'" "local_rev s' = local_rev s"
    using dead_round [OF assms(1) Suc.prems(1,2) r] Suc.prems(3) by auto
  ultimately show ?case
    using Suc.IH [of s' "Suc f"] Suc.prems r by simp
qed

section \<open>Properties\<close>

text \<open>C20: Operations are acknowledged in order and never past a refused one.  Delivering a batch to a client that is
  not stopped acknowledges a prefix of it, each operation once and in the world the one before it left: the callback
  saved it, no gate was failed after it, it did not ask to stop, and a revision above the cursor was written by the
  save.  The cursor becomes the largest revision of that prefix (and never goes back).  The delivery succeeds exactly
  when the prefix is the whole batch; otherwise the next operation was refused, by the callback, a gate, a stop or a
  failed save, and the result is the same whatever operations come after it.\<close>

theorem native_ops_acknowledged:
  assumes "dispatch_ops E s ops = (s', ok)" and "\<not> stop s"
  shows "\<exists>n ws. ws 0 = world s \<and> n \<le> length ops \<and>
     (\<forall>i < n. acknowledged E (cursor_after (js E) (take i ops) (local_rev s)) (ws i) (ops ! i) (ws (Suc i))) \<and>
     local_rev s' = cursor_after (js E) (take n ops) (local_rev s) \<and>
     (if ok then n = length ops \<and> world s' = ws n
      else n < length ops \<and> refused E (local_rev s') (ws n) (ops ! n) (world s') \<and>
        (\<forall>others. dispatch_ops E s (take (Suc n) ops @ others) = (s', False)))"
  by (rule dispatch_ops_prefix [OF assms])

definition demo_ops_env :: "(nat, json) sse_env" where
  "demo_ops_env = \<lparr>js = tree (\<lambda>t. if t = ''7'' then Some (JObj [(''revision'', JNum 7)]) else None)
       (\<lambda>j. if j = JBool True then ''7'' else ''x''),
     fn = Some (\<lambda>ty d w. \<lparr>cb_world = Suc w, cb_saved = (d = ''7''), cb_stop = False, cb_kick = False\<rparr>),
     set_local_rev = None, any_failed = (\<lambda>_. False), set_failure = (\<lambda>w. w), realloc_ok = (\<lambda>_. True), now = (\<lambda>_. 0)\<rparr>"

definition demo_poller :: "nat sse" where
  "demo_poller = the (enil_sse_create (Some ''token'') 5 0)"

theorem native_ops_acknowledged_witness:
  "\<exists>s'. dispatch_ops demo_ops_env demo_poller [JBool True, JBool False, JBool True] = (s', False) \<and>
     refused demo_ops_env 7 1 (JBool False) (world s') \<and> local_rev s' = 7 \<and>
     dispatch_ops demo_ops_env demo_poller [JBool True, JBool False, JNull] = (s', False)"
proof -
  have r: "enil_sse_event_revision (js demo_ops_env) (Some ''message'') (Some ''7'') = 7"
    by (simp add: enil_sse_event_revision_def demo_ops_env_def enil_json_coerce_int64_def lower_char.simps Let_def)
  let ?s1 = "demo_poller\<lparr>world := 1, local_rev := 7\<rparr>" and ?s2 = "demo_poller\<lparr>world := 2, local_rev := 7\<rparr>"
  have d: "native_dispatch demo_ops_env demo_poller ''message'' (JBool True) = (?s1, True)"
    "native_dispatch demo_ops_env ?s1 ''message'' (JBool False) = (?s2, False)"
    using r by (simp_all add: native_dispatch_def call_back_def demo_ops_env_def demo_poller_def
        enil_sse_create_def enil_sse_save_local_rev_def Let_def)
  then have run: "dispatch_ops demo_ops_env demo_poller [JBool True, JBool False, JBool True] = (?s2, False)"
    by simp
  let ?ops = "[JBool True, JBool False, JBool True]"
  have going: "\<not> stop demo_poller" by (simp add: demo_poller_def enil_sse_create_def)
  have answer: "cb_saved (op_answer demo_ops_env w op) = (op = JBool True)" "cb_world (op_answer demo_ops_env w op) = Suc w"
    "op_taken demo_ops_env w op = (op = JBool True)" for w op
    by (simp_all add: op_taken_def op_answer_def demo_ops_env_def)
  from native_ops_acknowledged [OF run going] obtain n ws where n: "ws 0 = world demo_poller"
    "\<forall>i < n. acknowledged demo_ops_env (cursor_after (js demo_ops_env) (take i ?ops) (local_rev demo_poller)) (ws i) (?ops ! i) (ws (Suc i))"
    "n < length ?ops" "refused demo_ops_env (local_rev ?s2) (ws n) (?ops ! n) (world ?s2)"
    "\<forall>others. dispatch_ops demo_ops_env demo_poller (take (Suc n) ?ops @ others) = (?s2, False)"
    by auto
  have first: "ws (Suc 0) = 1" if "0 < n"
    using n(1,2) that answer by (fastforce simp: acknowledged_def op_saved_def Let_def demo_ops_env_def demo_poller_def enil_sse_create_def
        split: if_splits)
  have "n \<noteq> 0"
    using n(1,4) answer by (cases n) (auto simp: refused_def op_saved_def Let_def demo_ops_env_def demo_poller_def
        enil_sse_create_def split: if_splits)
  moreover have "\<not> 1 < n" using n(2) answer by (auto simp: acknowledged_def dest!: spec [of _ 1])
  ultimately have one: "n = 1" by simp
  then have "refused demo_ops_env 7 1 (JBool False) (world ?s2)" using n(4) first by simp
  moreover have "dispatch_ops demo_ops_env demo_poller [JBool True, JBool False, JNull] = (?s2, False)"
    using n(5) one by (auto dest!: spec [of _ "[JNull]"])
  ultimately show ?thesis using run by auto
qed

text \<open>C21: A connection that only fails is given up after exactly five requests: the poller has not ended
  after four, ends after the fifth with a LINE failure raised, and has kept its cursor.\<close>

theorem native_poll_gives_up:
  assumes "dead_line N G" and "G (world s)" and "\<not> stop s"
  shows "snd (native_poll N 5 0 s) \<and> \<not> snd (native_poll N 4 0 s) \<and>
    (\<exists>w. G w \<and> world (fst (native_poll N 5 0 s)) = set_failure (client N) w) \<and>
    local_rev (fst (native_poll N 5 0 s)) = local_rev s"
  using dead_polls [OF assms, of 0 4] by (simp add: eval_nat_numeral)

text \<open>The demonstration's world counts requests, seconds and raised failures.\<close>

definition demo_dead :: "(nat \<times> nat \<times> nat, json) native_env" where
  "demo_dead = \<lparr>client = \<lparr>js = tree (\<lambda>_. None) (\<lambda>_. []), fn = None, set_local_rev = None,
       any_failed = (\<lambda>(a, b, c). 0 < c), set_failure = (\<lambda>(a, b, c). (a, b, Suc c)), realloc_ok = (\<lambda>_. True), now = (\<lambda>_. 0)\<rparr>,
     continue_identity = (\<lambda>w. (w, True)), session_read = (\<lambda>w. Some (JObj [(''accessToken'', JStr ''t'')])),
     session_patch = (\<lambda>p w. (w, True)),
     post_sync = (\<lambda>t tok (a, b, c). \<lparr>pr_world = (Suc a, b, c), pr_response = \<lparr>status = 0, body = None\<rparr>,
        pr_stop = False, pr_kick = False\<rparr>),
     one_second = (\<lambda>(a, b, c). ((a, Suc b, c), False, False))\<rparr>"

theorem native_poll_gives_up_witness:
  "snd (native_poll demo_dead 5 0 (the (enil_sse_create (Some ''t'') 5 (0, 0, 0)))) \<and>
   \<not> snd (native_poll demo_dead 4 0 (the (enil_sse_create (Some ''t'') 5 (0, 0, 0))))"
proof -
  have "dead_line demo_dead (\<lambda>(a, b, c). c = 0)"
    by (auto simp: dead_line_def demo_dead_def)
  from native_poll_gives_up [OF this, of "the (enil_sse_create (Some ''t'') 5 (0, 0, 0))"] show ?thesis
    by (simp add: enil_sse_create_def)
qed

text \<open>C22: The cursor is safe over a whole poll: however many rounds run and whatever the servers, the
  callback and the other threads do, it never goes back; and a round whose reply asks for a full sync
  ends the poll with the cursor as it was and without storing any of the reply's secondary cursors.\<close>

theorem native_poll_cursor_safe:
  "local_rev s \<le> local_rev (fst (native_poll N fuel failures s)) \<and>
   (\<forall>t json d v. parseText (jlib N) t = Some json \<and> getItemCS (jlib N) json ''data'' = Some d \<and>
      getItemCS (jlib N) d ''fullSyncResponse'' = Some v \<longrightarrow>
      local_rev (fst (poll_response N failures \<lparr>status = 200, body = Some t\<rparr> s)) = local_rev s \<and>
      poll_response N failures \<lparr>status = 200, body = Some t\<rparr> s =
        (fst (native_dispatch (client N) s ''fullSync'' v), Poll_ends))"
  using native_poll_cursor [of s N fuel failures] native_dispatch_cursor(3) [of "client N" s "''fullSync''"]
  by (auto simp: poll_response_def Let_def) (metis prod.collapse)

definition demo_resync :: "(nat \<times> nat \<times> nat, json) native_env" where
  "demo_resync = demo_dead\<lparr>client := (client demo_dead)\<lparr>js := tree
     (\<lambda>t. Some (JObj [(''data'', JObj [(''fullSyncResponse'', JNull)])])) (\<lambda>_. [])\<rparr>\<rparr>"

theorem native_poll_cursor_safe_witness:
  "local_rev (fst (poll_response demo_resync 0 \<lparr>status = 200, body = Some ''r''\<rparr>
     (the (enil_sse_create (Some ''t'') 5 (0, 0, 0))))) = 5"
proof -
  let ?s = "the (enil_sse_create (Some ''t'') 5 (0, 0, 0)) :: (nat \<times> nat \<times> nat) sse"
  have "parseText (jlib demo_resync) ''r'' = Some (JObj [(''data'', JObj [(''fullSyncResponse'', JNull)])]) \<and>
    getItemCS (jlib demo_resync) (JObj [(''data'', JObj [(''fullSyncResponse'', JNull)])]) ''data'' =
      Some (JObj [(''fullSyncResponse'', JNull)]) \<and>
    getItemCS (jlib demo_resync) (JObj [(''fullSyncResponse'', JNull)]) ''fullSyncResponse'' = Some JNull"
    by (simp add: demo_resync_def demo_dead_def)
  from native_poll_cursor_safe [of ?s demo_resync 0 0, THEN conjunct2, rule_format, OF this]
  have "local_rev (fst (poll_response demo_resync 0 \<lparr>status = 200, body = Some ''r''\<rparr> ?s)) = local_rev ?s"
    by (rule conjunct1)
  also have "local_rev ?s = 5" by (simp add: enil_sse_create_def)
  finally show ?thesis .
qed

end
