(* ===== verification/ENIL_MessageFormat.thy ===== *)
theory ENIL_MessageFormat
  imports ENIL_StrBuf ENIL_Json
begin

text \<open>
  \<open>source/shared/enil_message_format.c\<close>: message text to HTML, with the stored emoji (sticon) images in
  the place of their markers, and the marker search of \<open>enil_line.c\<close> that gives an outgoing message
  its spans.  Database lookups are parameters; \<open>show_g\<close> is \<open>snprintf\<close>'s \<open>%g\<close>, and a \<open>double\<close> is a
  real number.  A text is a C string: its byte past the end is NUL.
\<close>

section \<open>UTF-16 positions in UTF-8 text\<close>

definition byte_at :: "string \<Rightarrow> nat \<Rightarrow> nat" where
  "byte_at s i = (if i < length s then of_char (s ! i) else 0)"

text \<open>The lead byte: how many bytes, and its payload.\<close>

definition utf8_lead :: "nat \<Rightarrow> (nat \<times> nat) option" where
  "utf8_lead c =
     (if c < 0x80 then Some (1, c)
      else if 0xc2 \<le> c \<and> c \<le> 0xdf then Some (2, c mod 32)
      else if 0xe0 \<le> c \<and> c \<le> 0xef then Some (3, c mod 16)
      else if 0xf0 \<le> c \<and> c \<le> 0xf4 then Some (4, c mod 8)
      else None)"

text \<open>\<open>(c & 0xc0) == 0x80\<close> and \<open>cp = (cp << 6) | (c & 63)\<close>, for each continuation byte.\<close>

fun utf8_rest :: "string \<Rightarrow> nat \<Rightarrow> nat \<Rightarrow> nat option" where
  "utf8_rest s 0 cp = Some cp"
| "utf8_rest s (Suc k) cp =
     (let c = byte_at s 0
      in if \<not> (128 \<le> c \<and> c < 192) then None else utf8_rest (drop 1 s) k (cp * 64 + c mod 64))"

definition utf8_char :: "string \<Rightarrow> (nat \<times> nat) option" where
  "utf8_char s =
     (case utf8_lead (byte_at s 0) of
        None \<Rightarrow> None
      | Some (n, cp0) \<Rightarrow>
          (case utf8_rest (drop 1 s) (n - 1) cp0 of
             None \<Rightarrow> None
           | Some cp \<Rightarrow>
               if (n = 3 \<and> cp < 0x800) \<or> (n = 4 \<and> cp < 0x10000) \<or> (0xd800 \<le> cp \<and> cp \<le> 0xdfff) \<or> 0x10ffff < cp
               then None else Some (n, cp)))"

lemma utf8_char_advances: "utf8_char s = Some (n, cp) \<Longrightarrow> 0 < n"
  by (auto simp: utf8_char_def utf8_lead_def split: option.splits if_splits)

function utf16_loop :: "string \<Rightarrow> int \<Rightarrow> nat \<Rightarrow> int \<Rightarrow> nat option" where
  "utf16_loop text target p units =
     (if units < target \<and> byte_at text p \<noteq> 0 then
        (case utf8_char (drop p text) of
           None \<Rightarrow> None
         | Some (n, cp) \<Rightarrow> utf16_loop text target (p + n) (units + (if 0xffff < cp then 2 else 1)))
      else if units \<noteq> target then None
      else Some p)"
  by pat_completeness auto
termination
  by (relation "measure (\<lambda>(t, g, p, u). length t - p)")
    (auto simp: byte_at_def dest: utf8_char_advances split: if_splits)

declare utf16_loop.simps [simp del]

definition utf16_boundary :: "string \<Rightarrow> int \<Rightarrow> nat option" where
  "utf16_boundary text target = utf16_loop text target 0 0"

section \<open>Spans\<close>

definition marker_span :: "string \<Rightarrow> nat \<Rightarrow> nat \<Rightarrow> nat \<Rightarrow> bool" where
  "marker_span text n s e =
     (if e \<le> s \<or> n < e then False
      else if e - s = 1 \<and> text ! s = CHR ''$'' then True
      else if e - s < 3 \<or> text ! s \<noteq> CHR ''('' \<or> text ! (e - 1) \<noteq> CHR '')'' then False
      else list_all (\<lambda>i. text ! i \<notin> {CHR ''('', CHR '')'', CHR 0x0A, CHR 0x0D}) [s + 1 ..< e - 1])"

definition resource_span :: "'j cjson \<Rightarrow> string \<Rightarrow> nat \<Rightarrow> 'j \<Rightarrow> (nat \<times> nat) option" where
  "resource_span J text n r =
     (case (jgeti J (Some r) ''S'', jgeti J (Some r) ''E'') of
        (Some s, Some e) \<Rightarrow>
          if \<not> isNumber J s \<or> \<not> isNumber J e \<or>
             \<not> (0 \<le> valuedouble J s \<and> valuedouble J s \<le> of_int INT_MAX) \<or>
             \<not> (valuedouble J s < valuedouble J e \<and> valuedouble J e \<le> of_int INT_MAX) then None
          else
            (let a = trunc (valuedouble J s); b = trunc (valuedouble J e)
             in if of_int a \<noteq> valuedouble J s \<or> of_int b \<noteq> valuedouble J e then None
                else
                  (let bytes = (if marker_span text n (nat a) (nat b) then Some (nat a, nat b) else None)
                   in if jis (isTrue J) (jgeti J (Some r) ''byte_offsets'') then bytes
                      else case (utf16_boundary text a, utf16_boundary text b) of
                             (Some x, Some y) \<Rightarrow> if marker_span text n x y then Some (x, y) else bytes
                           | _ \<Rightarrow> bytes))
      | _ \<Rightarrow> None)"

definition run_is_blank :: "string \<Rightarrow> nat \<Rightarrow> bool" where
  "run_is_blank s n = list_all (\<lambda>c. c \<in> {CHR '' '', CHR 0x09, CHR 0x0A, CHR 0x0D}) (take n s)"

section \<open>Images\<close>

text \<open>
  \<open>(int)cJSON_GetNumberValue\<close>: NaN for what is not a number, whose conversion is not defined in C;
  the code only asks whether the result is positive, and 0 stands for it here.
\<close>

definition number_int :: "'j cjson \<Rightarrow> 'j option \<Rightarrow> int" where
  "number_int J v = (case v of None \<Rightarrow> 0 | Some j \<Rightarrow> if isNumber J j then trunc (valuedouble J j) else 0)"

definition resolve_resource :: "'j cjson \<Rightarrow> 'j \<Rightarrow> (string \<times> int \<times> int) option" where
  "resolve_resource J r =
     (case jstr J (jgeti J (Some r) ''image_path'') of
        None \<Rightarrow> None
      | Some path \<Rightarrow>
          if cstr path = [] then None
          else Some (take 511 (cstr path), number_int J (jgeti J (Some r) ''image_width''),
                 number_int J (jgeti J (Some r) ''image_height'')))"

definition image_box :: "(real \<Rightarrow> string) \<Rightarrow> int \<Rightarrow> int \<Rightarrow> real \<Rightarrow> string" where
  "image_box show_g width height divisor =
     take 95
       (if 0 < width \<and> 0 < height then
          (let w = show_int (trunc (of_int width / divisor + 1 / 2));
               h = show_int (trunc (of_int height / divisor + 1 / 2)); q = [CHR 0x22]
           in '' width='' @ q @ w @ q @ '' height='' @ q @ h @ q @
              '' style='' @ q @ ''width:'' @ w @ ''px;height:'' @ h @ ''px'' @ q)
        else '' style='' @ [CHR 0x22] @ ''zoom:'' @ show_g (1 / divisor) @ [CHR 0x22])"

definition append_sticon_img ::
  "heap_alloc \<Rightarrow> (real \<Rightarrow> string) \<Rightarrow> ENILStrBuf \<Rightarrow> string \<Rightarrow> int \<Rightarrow> int \<Rightarrow> real \<Rightarrow> string \<Rightarrow> nat \<Rightarrow> ENILStrBuf" where
  "append_sticon_img M show_g b path width height divisor marker marker_len =
     (if cstr path = [] \<or> divisor \<le> 0 then b
      else
        (let b = esb_append_str M b
               (Some (''<img class='' @ [CHR 0x22] @ ''enil-sticon-inline'' @ [CHR 0x22] @ '' src='' @ [CHR 0x22]));
             b = esb_html_br M b (Some path);
             b = esb_append_str M b (Some ([CHR 0x22] @ '' alt='' @ [CHR 0x22]));
             b = esb_html_br_n M b (Some marker) marker_len;
             b = esb_append_str M b (Some [CHR 0x22]);
             b = esb_append_str M b (Some (image_box show_g width height divisor))
         in esb_append_str M b (Some ''>'')))"

section \<open>The formatter\<close>

definition ENIL_STICON_SCALE_DIV :: real where "ENIL_STICON_SCALE_DIV = 6"
definition ENIL_STICON_JUMBO_SCALE_DIV :: real where "ENIL_STICON_JUMBO_SCALE_DIV = 3"

text \<open>The validating pass: cursor, \<open>jumbo\<close> and \<open>count\<close>; \<open>None\<close> when a span is invalid or overlaps.\<close>

fun check_spans ::
  "'j cjson \<Rightarrow> string \<Rightarrow> 'j list \<Rightarrow> nat \<Rightarrow> bool \<Rightarrow> nat \<Rightarrow> (nat \<times> bool \<times> nat) option" where
  "check_spans J text [] cursor jumbo n = Some (cursor, jumbo, n)"
| "check_spans J text (r # rs) cursor jumbo n =
     (case resource_span J text (length text) r of
        None \<Rightarrow> None
      | Some (start, stop) \<Rightarrow>
          if start < cursor then None
          else
            (let img = jstr J (jgeti J (Some r) ''image_path'');
                 plain = \<not> run_is_blank (drop cursor text) (start - cursor) \<or> img = None \<or> cstr (the img) = []
             in check_spans J text rs stop (jumbo \<and> \<not> plain) (Suc n)))"

text \<open>The second pass, over spans known to be valid.\<close>

fun render_spans ::
  "heap_alloc \<Rightarrow> (real \<Rightarrow> string) \<Rightarrow> 'j cjson \<Rightarrow> string \<Rightarrow> real \<Rightarrow> 'j list \<Rightarrow> nat \<Rightarrow> ENILStrBuf \<Rightarrow> nat \<times> ENILStrBuf" where
  "render_spans M show_g J text divisor [] cursor b = (cursor, b)"
| "render_spans M show_g J text divisor (r # rs) cursor b =
     (case resource_span J text (length text) r of
        None \<Rightarrow> (cursor, b)
      | Some (start, stop) \<Rightarrow>
          (let b = esb_html_br_n M b (Some (drop cursor text)) (start - cursor);
               b = (case resolve_resource J r of
                      Some (path, w, h) \<Rightarrow>
                        append_sticon_img M show_g b path w h divisor (drop start text) (stop - start)
                    | None \<Rightarrow> esb_html_br_n M b (Some (drop start text)) (stop - start))
           in render_spans M show_g J text divisor rs stop b))"

definition format_text_html ::
  "heap_alloc \<Rightarrow> (real \<Rightarrow> string) \<Rightarrow> 'j cjson \<Rightarrow> string option \<Rightarrow> 'j option \<Rightarrow> string option" where
  "format_text_html M show_g J text0 resources =
     (case text0 of
        None \<Rightarrow> Some []
      | Some text1 \<Rightarrow>
          if cstr text1 = [] then Some []
          else
            (let text = cstr text1; rs = map snd (jkids J resources)
             in case esb_init M of
                  (b, False) \<Rightarrow> None
                | (b, True) \<Rightarrow>
                    (case check_spans J text rs 0 True 0 of
                       Some (cursor, jumbo, Suc n) \<Rightarrow>
                         (let jumbo = (jumbo \<and> run_is_blank (drop cursor text) (length text - cursor));
                              divisor = (if jumbo then ENIL_STICON_JUMBO_SCALE_DIV else ENIL_STICON_SCALE_DIV)
                          in case render_spans M show_g J text divisor rs 0 b of
                               (cursor, b) \<Rightarrow>
                                 Some (contents (esb_html_br_n M b (Some (drop cursor text)) (length text - cursor))))
                     | _ \<Rightarrow> Some (contents (esb_html_br M b (Some text))))))"

definition enil_message_text_html ::
  "heap_alloc \<Rightarrow> (real \<Rightarrow> string) \<Rightarrow> 'j cjson \<Rightarrow> (string \<Rightarrow> 'j option) \<Rightarrow> string option \<Rightarrow> string option \<Rightarrow> string option" where
  "enil_message_text_html M show_g J enil_db_get_message_sticons message_id text =
     (case message_id of
        None \<Rightarrow> format_text_html M show_g J text None
      | Some m \<Rightarrow>
          if cstr m = [] then format_text_html M show_g J text None
          else format_text_html M show_g J text (enil_db_get_message_sticons m))"

section \<open>Outgoing previews\<close>

record ENILLineSticonResource =
  res_package_id :: string
  res_sticon_id :: string
  res_S :: int
  res_E :: int
  res_version :: string
  res_resource_type :: string

text \<open>\<open>while (scan < text_end)\<close>: the first position from \<open>scan\<close> on that holds the marker.\<close>

function find_marker :: "string \<Rightarrow> string \<Rightarrow> nat \<Rightarrow> nat" where
  "find_marker text marker scan =
     (if scan < length text then
        (if length marker \<le> length text - scan \<and> take (length marker) (drop scan text) = marker then scan
         else find_marker text marker (scan + 1))
      else scan)"
  by pat_completeness auto
termination
  by (relation "measure (\<lambda>(t, m, s). length t - s)") auto

declare find_marker.simps [simp del]

definition sticon_marker :: "string option \<Rightarrow> string" where
  "sticon_marker alt =
     (case alt of None \<Rightarrow> ''$'' | Some a \<Rightarrow> if cstr a = [] then ''$'' else ''('' @ cstr a @ '')'')"

text \<open>
  One item per resource: package, sticon, alternative text, resource type and version.
\<close>

type_synonym sticon_item = "string \<times> string \<times> string option \<times> string option \<times> string option"

fun sticon_scan :: "string \<Rightarrow> sticon_item list \<Rightarrow> nat \<Rightarrow> ENILLineSticonResource list" where
  "sticon_scan text [] scan = []"
| "sticon_scan text ((pkg, sid, alt, rtype, version) # items) scan =
     (let marker = sticon_marker alt; scan = find_marker text marker scan; s = wrap32 (int scan)
      in \<lparr>res_package_id = pkg, res_sticon_id = sid, res_S = s, res_E = wrap32 (s + wrap32 (int (length marker))),
          res_version = (case version of None \<Rightarrow> [] | Some v \<Rightarrow> v),
          res_resource_type = (case rtype of None \<Rightarrow> ''STATIC'' | Some t \<Rightarrow> t)\<rparr> #
         sticon_scan text items (if scan < length text then scan + length marker else scan))"

definition enil_line_build_sticon_resources ::
  "string option \<Rightarrow> sticon_item list option \<Rightarrow> ENILLineSticonResource list option" where
  "enil_line_build_sticon_resources text items =
     (case (text, items) of
        (Some t, Some (i # is)) \<Rightarrow> Some (sticon_scan (cstr t) (i # is) 0)
      | _ \<Rightarrow> None)"

text \<open>\<open>image_info pkg sid\<close> is the database lookup: the path and the dimensions it wrote (else \<open>[]\<close>, 0, 0).\<close>

definition preview_row :: "'j cjson \<Rightarrow> ENILLineSticonResource option \<Rightarrow> string \<times> int \<times> int \<Rightarrow> 'j" where
  "preview_row J sp img =
     (case img of
        (path, w, h) \<Rightarrow>
          (let row = (case sp of
                        None \<Rightarrow> mkObject J
                      | Some x \<Rightarrow> addItem J (addItem J (addItem J (mkObject J)
                          ''S'' (mkNumber J (of_int (res_S x)))) ''E'' (mkNumber J (of_int (res_E x))))
                          ''byte_offsets'' (mkBool J True));
               row = addItem J row ''image_path'' (mkString J path);
               row = addItem J row ''image_width'' (mkNumber J (of_int w))
           in addItem J row ''image_height'' (mkNumber J (of_int h))))"

definition enil_message_text_html_for_sticons ::
  "heap_alloc \<Rightarrow> (real \<Rightarrow> string) \<Rightarrow> 'j cjson \<Rightarrow> (string \<Rightarrow> string \<Rightarrow> string \<times> int \<times> int) \<Rightarrow>
   string option \<Rightarrow> (string \<times> string \<times> string option) list \<Rightarrow> string option" where
  "enil_message_text_html_for_sticons M show_g J image_info text items =
     (let spans = enil_line_build_sticon_resources text
            (Some (map (\<lambda>(p, s, a). (p, s, a, None, None)) items));
          span_of = (\<lambda>i. map_option (\<lambda>xs. xs ! i) spans);
          rows = map (\<lambda>(i, p, s, a). preview_row J (span_of i) (image_info p s)) (zip [0..<length items] items);
          resources = foldl (addElem J) (mkArray J) rows
      in format_text_html M show_g J text (Some resources))"

text \<open>The sticker lookup: scoped to the package first, then by sticker alone.\<close>

definition enil_message_sticker_image_info ::
  "(string \<Rightarrow> string \<Rightarrow> (string \<times> int \<times> int) option) \<Rightarrow> (string \<Rightarrow> (string \<times> int \<times> int) option) \<Rightarrow>
   string option \<Rightarrow> string option \<Rightarrow> (string \<times> int \<times> int) option" where
  "enil_message_sticker_image_info by_package by_id sticker_id package_id =
     (case sticker_id of
        None \<Rightarrow> None
      | Some sid \<Rightarrow>
          if cstr sid = [] then None
          else
            (case (case package_id of
                     None \<Rightarrow> None
                   | Some pkg \<Rightarrow> if cstr pkg = [] then None else by_package pkg sid) of
               Some info \<Rightarrow> Some info
             | None \<Rightarrow> by_id sid))"

section \<open>Positions: the code's decoder against Unicode\<close>

text \<open>A scalar value, its UTF-8 bytes, and its number of UTF-16 code units.\<close>

definition scalar :: "nat \<Rightarrow> bool" where
  "scalar cp \<longleftrightarrow> 0 < cp \<and> cp \<le> 0x10ffff \<and> \<not> (0xd800 \<le> cp \<and> cp \<le> 0xdfff)"

definition utf8 :: "nat \<Rightarrow> string" where
  "utf8 cp = map char_of
     (if cp < 0x80 then [cp]
      else if cp < 0x800 then [0xc0 + cp div 64, 0x80 + cp mod 64]
      else if cp < 0x10000 then [0xe0 + cp div 4096, 0x80 + cp div 64 mod 64, 0x80 + cp mod 64]
      else [0xf0 + cp div 262144, 0x80 + cp div 4096 mod 64, 0x80 + cp div 64 mod 64, 0x80 + cp mod 64])"

definition utf16_units :: "nat \<Rightarrow> nat" where
  "utf16_units cp = (if 0xffff < cp then 2 else 1)"

lemma byte_at_simps [simp]:
  "byte_at [] i = 0" "byte_at (c # s) 0 = of_char c" "byte_at (c # s) (Suc i) = byte_at s i"
  by (simp_all add: byte_at_def)

lemma byte_at_drop: "byte_at (drop p s) 0 = byte_at s p"
  by (simp add: byte_at_def)

lemma byte_at_pos: "0 < byte_at s 0 \<Longrightarrow> \<exists>c r. s = c # r \<and> of_char c = byte_at s 0"
  by (cases s) auto

lemma char_of_byte_at: "of_char c = (n :: nat) \<Longrightarrow> char_of n = c"
  by auto

lemma utf8_rest_sound:
  "utf8_rest s k cp = Some cp' \<Longrightarrow>
     \<exists>bs r. s = map char_of bs @ r \<and> length bs = k \<and> (\<forall>b \<in> set bs. 128 \<le> b \<and> b < 192) \<and>
       cp' = foldl (\<lambda>a b. a * 64 + b mod 64) cp bs"
proof (induction s k cp rule: utf8_rest.induct)
  case (2 s k cp)
  then have c: "128 \<le> byte_at s 0" "byte_at s 0 < 192"
    and rec: "utf8_rest (drop 1 s) k (cp * 64 + byte_at s 0 mod 64) = Some cp'"
    by (auto simp: Let_def split: if_splits)
  obtain bs r where bs: "drop 1 s = map char_of bs @ r" "length bs = k" "\<forall>b \<in> set bs. 128 \<le> b \<and> b < 192"
    "cp' = foldl (\<lambda>a b. a * 64 + b mod 64) (cp * 64 + byte_at s 0 mod 64) bs"
    using 2(1) [OF refl _ rec] c by auto
  obtain d t where d: "s = d # t" "of_char d = byte_at s 0" using byte_at_pos [of s] c by auto
  then have "s = map char_of (byte_at s 0 # bs) @ r" using bs(1) char_of_byte_at [OF d(2)] by simp
  with bs c show ?case
    by (intro exI [of _ "byte_at s 0 # bs"] exI [of _ r]) simp
qed simp

lemma base64_digits:
  assumes "(y :: nat) < 64"
  shows "(x * 64 + y) div 64 = x" and "(x * 64 + y) mod 64 = y"
  using assms by simp_all

lemma base64_three: "(x :: nat) < 16 \<Longrightarrow> y < 64 \<Longrightarrow> z < 64 \<Longrightarrow> (x * 64 + y) * 64 + z < 0x10000"
  by (simp add: distrib_right)

lemma div_powers_64: "(n :: nat) div 4096 = n div 64 div 64" "n div 262144 = n div 64 div 64 div 64"
  by (simp_all add: div_mult2_eq [symmetric])

lemma mod_sub: "k * m \<le> (b :: nat) \<Longrightarrow> b < Suc k * m \<Longrightarrow> b mod m = b - k * m"
proof -
  assume "k * m \<le> b" and b: "b < Suc k * m"
  then obtain r where r: "b = k * m + r" using le_Suc_ex by blast
  with b have "r < m" by simp
  with r show ?thesis by simp
qed

lemma mod_64_cont: "128 \<le> (b :: nat) \<Longrightarrow> b < 192 \<Longrightarrow> b mod 64 = b - 128"
  using mod_sub [of 2 64 b] by simp

lemma utf8_lead_cases:
  assumes "utf8_lead b0 = Some (n, cp0)"
  obtains "n = 1" "b0 < 0x80" "cp0 = b0" | "n = 2" "0xc2 \<le> b0" "b0 \<le> 0xdf" "cp0 = b0 - 192"
    | "n = 3" "0xe0 \<le> b0" "b0 \<le> 0xef" "cp0 = b0 - 224" | "n = 4" "0xf0 \<le> b0" "b0 \<le> 0xf4" "cp0 = b0 - 240"
  using assms mod_sub [of 6 32 b0] mod_sub [of 14 16 b0] mod_sub [of 30 8 b0]
  unfolding utf8_lead_def by (simp split: if_split_asm)

lemma utf8_char_sound:
  assumes "utf8_char s = Some (n, cp)" and "byte_at s 0 \<noteq> 0"
  shows "scalar cp \<and> n = length (utf8 cp) \<and> prefix (utf8 cp) s"
proof -
  define b0 where "b0 = byte_at s 0"
  obtain cp0 where lead: "utf8_lead b0 = Some (n, cp0)" and rest: "utf8_rest (drop 1 s) (n - 1) cp0 = Some cp"
    and ok: "\<not> (n = 3 \<and> cp < 0x800)" "\<not> (n = 4 \<and> cp < 0x10000)" "\<not> (0xd800 \<le> cp \<and> cp \<le> 0xdfff)" "cp \<le> 0x10ffff"
    using assms(1) by (auto simp: utf8_char_def b0_def split: option.splits if_splits)
  obtain bs r where bs: "drop 1 s = map char_of bs @ r" "length bs = n - 1" "\<forall>b \<in> set bs. 128 \<le> b \<and> b < 192"
    "cp = foldl (\<lambda>a b. a * 64 + b mod 64) cp0 bs"
    using utf8_rest_sound [OF rest] by blast
  obtain d t where d: "s = d # t" "of_char d = b0"
    using byte_at_pos [of s] assms(2) by (auto simp: b0_def)
  then have s: "s = char_of b0 # map char_of bs @ r" and b0: "b0 \<noteq> 0"
    using bs(1) char_of_byte_at [OF d(2)] assms(2) by (simp_all add: b0_def)
  from lead have "utf8 cp = char_of b0 # map char_of bs \<and> 0 < cp"
  proof (cases rule: utf8_lead_cases)
    case 1
    with bs b0 show ?thesis by (simp add: utf8_def)
  next
    case 2
    then have "length bs = Suc 0" using bs(2) by simp
    then obtain b1 where b1: "bs = [b1]" "128 \<le> b1" "b1 < 192"
      using bs(3) by (auto simp: length_Suc_conv)
    have cp: "cp = (b0 - 192) * 64 + (b1 - 128)" using bs(4) b1 2 mod_64_cont [of b1] by simp
    have "cp div 64 = b0 - 192" "cp mod 64 = b1 - 128"
      unfolding cp by (rule base64_digits, use b1 in linarith)+
    moreover have "0x80 \<le> cp" "cp < 0x800" using cp 2 b1 by linarith+
    ultimately show ?thesis using b1 2 by (simp add: utf8_def)
  next
    case 3
    then have "length bs = Suc (Suc 0)" using bs(2) by simp
    then obtain b1 b2 where b: "bs = [b1, b2]" "128 \<le> b1" "b1 < 192" "128 \<le> b2" "b2 < 192"
      using bs(3) by (auto simp: length_Suc_conv)
    have cp: "cp = ((b0 - 224) * 64 + (b1 - 128)) * 64 + (b2 - 128)"
      using bs(4) b 3 mod_64_cont [of b1] mod_64_cont [of b2] by simp
    have "cp div 64 = (b0 - 224) * 64 + (b1 - 128)" "cp mod 64 = b2 - 128"
      unfolding cp by (rule base64_digits, use b in linarith)+
    moreover from this have "cp div 64 div 64 = b0 - 224" "cp div 64 mod 64 = b1 - 128"
      by (simp only:, intro base64_digits, use b in linarith)+
    moreover have small: "cp < 0x10000" unfolding cp by (rule base64_three) (use 3 b in linarith)+
    moreover have "utf8 cp = map char_of [0xe0 + cp div 64 div 64, 0x80 + cp div 64 mod 64, 0x80 + cp mod 64]"
      "0 < cp"
      using 3(1) ok(1) small by (simp_all add: utf8_def div_powers_64)
    moreover have "0xe0 + (b0 - 224) = b0" "0x80 + (b1 - 128) = b1" "0x80 + (b2 - 128) = b2"
      using b 3(2) by simp_all
    ultimately show ?thesis by (simp only: b(1) list.map simp_thms)
  next
    case 4
    then have "length bs = Suc (Suc (Suc 0))" using bs(2) by simp
    then obtain b1 b2 b3 where b: "bs = [b1, b2, b3]" "128 \<le> b1" "b1 < 192" "128 \<le> b2" "b2 < 192" "128 \<le> b3" "b3 < 192"
      using bs(3) by (auto simp: length_Suc_conv)
    have cp: "cp = (((b0 - 240) * 64 + (b1 - 128)) * 64 + (b2 - 128)) * 64 + (b3 - 128)"
      using bs(4) b 4 mod_64_cont [of b1] mod_64_cont [of b2] mod_64_cont [of b3] by simp
    have "cp div 64 = ((b0 - 240) * 64 + (b1 - 128)) * 64 + (b2 - 128)" "cp mod 64 = b3 - 128"
      unfolding cp by (rule base64_digits, use b in linarith)+
    moreover from this have "cp div 64 div 64 = (b0 - 240) * 64 + (b1 - 128)" "cp div 64 mod 64 = b2 - 128"
      by (simp only:, intro base64_digits, use b in linarith)+
    moreover from this have "cp div 64 div 64 div 64 = b0 - 240" "cp div 64 div 64 mod 64 = b1 - 128"
      by (simp only:, intro base64_digits, use b in linarith)+
    moreover have "utf8 cp = map char_of [0xf0 + cp div 64 div 64 div 64, 0x80 + cp div 64 div 64 mod 64,
        0x80 + cp div 64 mod 64, 0x80 + cp mod 64]" "0 < cp"
      using 4(1) ok(2) by (simp_all add: utf8_def div_powers_64)
    moreover have "0xf0 + (b0 - 240) = b0" "0x80 + (b1 - 128) = b1" "0x80 + (b2 - 128) = b2" "0x80 + (b3 - 128) = b3"
      using b 4(2) by simp_all
    ultimately show ?thesis by (simp only: b(1) list.map simp_thms)
  qed
  then show ?thesis
    using s bs(2) lead ok by (auto simp: scalar_def utf8_lead_def split: if_splits)
qed

lemma utf8_lead_values:
  "2 \<le> x \<Longrightarrow> x < 32 \<Longrightarrow> utf8_lead (0xc0 + x) = Some (2, x)"
  "x < 16 \<Longrightarrow> utf8_lead (0xe0 + x) = Some (3, x)"
  "x \<le> 4 \<Longrightarrow> utf8_lead (0xf0 + x) = Some (4, x)"
  using mod_sub [of 6 32 "0xc0 + x"] mod_sub [of 14 16 "0xe0 + x"] mod_sub [of 30 8 "0xf0 + x"]
  by (simp_all add: utf8_lead_def)

lemma of_char_small [simp]: "(n :: nat) < 256 \<Longrightarrow> of_char (char_of n :: char) = n"
  by simp

lemma utf8_rest_value:
  "y < 64 \<Longrightarrow> utf8_rest (char_of (0x80 + y) # s) (Suc k) cp = utf8_rest s k (cp * 64 + y)"
  using mod_64_cont [of "0x80 + y"] by (simp add: Let_def)

lemma utf8_char_complete:
  assumes "scalar cp"
  shows "utf8_char (utf8 cp @ r) = Some (length (utf8 cp), cp)"
proof -
  have ok: "0 < cp" "cp \<le> 0x10ffff" "\<not> (0xd800 \<le> cp \<and> cp \<le> 0xdfff)" using assms by (auto simp: scalar_def)
  note parts = utf8_char_def utf8_rest_value numeral_2_eq_2 [symmetric]
  have m: "cp mod 64 < 64" "cp div 64 mod 64 < 64" "cp div 64 div 64 mod 64 < 64" by simp_all
  have j1: "cp div 64 * 64 + cp mod 64 = cp" by simp
  have j2: "(cp div 64 div 64 * 64 + cp div 64 mod 64) * 64 + cp mod 64 = cp" by simp
  have j3: "((cp div 64 div 64 div 64 * 64 + cp div 64 div 64 mod 64) * 64 + cp div 64 mod 64) * 64 + cp mod 64 = cp"
    by simp
  consider "cp < 0x80" | "0x80 \<le> cp" "cp < 0x800" | "0x800 \<le> cp" "cp < 0x10000" | "0x10000 \<le> cp"
    by linarith
  then show ?thesis
  proof cases
    case 1
    then show ?thesis using ok by (simp add: utf8_char_def utf8_def utf8_lead_def)
  next
    case 2
    then have x: "2 \<le> cp div 64" "cp div 64 < 32" by (simp_all add: less_mult_imp_div_less div_le_mono [of 128 cp 64, simplified])
    have u: "utf8 cp = [char_of (0xc0 + cp div 64), char_of (0x80 + cp mod 64)]" using 2 by (simp add: utf8_def)
    have "byte_at (utf8 cp @ r) 0 = 0xc0 + cp div 64" using x by (simp add: u)
    moreover have "utf8_rest (drop 1 (utf8 cp @ r)) (2 - 1) (cp div 64) = Some cp"
      using utf8_rest_value [OF m(1), of r 0 "cp div 64"] j1 by (simp add: u)
    ultimately show ?thesis using ok 2 utf8_lead_values(1) [OF x] by (simp add: utf8_char_def u)
  next
    case 3
    then have x: "cp div 64 div 64 < 16" by (simp add: div_mult2_eq [symmetric] less_mult_imp_div_less)
    have u: "utf8 cp = [char_of (0xe0 + cp div 64 div 64), char_of (0x80 + cp div 64 mod 64), char_of (0x80 + cp mod 64)]"
      using 3 by (simp add: utf8_def div_powers_64)
    have "byte_at (utf8 cp @ r) 0 = 0xe0 + cp div 64 div 64" using x by (simp add: u)
    moreover have "utf8_rest (drop 1 (utf8 cp @ r)) (3 - 1) (cp div 64 div 64) = Some cp"
      using utf8_rest_value [OF m(2), of "char_of (0x80 + cp mod 64) # r" 1 "cp div 64 div 64"]
        utf8_rest_value [OF m(1), of r 0 "cp div 64 div 64 * 64 + cp div 64 mod 64"] j2
      by (simp add: u numeral_2_eq_2 del: utf8_rest.simps(2))
    ultimately show ?thesis using ok 3 utf8_lead_values(2) [OF x] by (simp add: utf8_char_def u)
  next
    case 4
    have "cp < 5 * 262144" using ok(2) by simp
    then have x: "cp div 64 div 64 div 64 \<le> 4" by (simp add: div_mult2_eq [symmetric] less_mult_imp_div_less less_Suc_eq_le [symmetric])
    have u: "utf8 cp = [char_of (0xf0 + cp div 64 div 64 div 64), char_of (0x80 + cp div 64 div 64 mod 64),
        char_of (0x80 + cp div 64 mod 64), char_of (0x80 + cp mod 64)]"
      using 4 by (simp add: utf8_def div_powers_64)
    have "byte_at (utf8 cp @ r) 0 = 0xf0 + cp div 64 div 64 div 64" using x by (simp add: u)
    moreover have "utf8_rest (drop 1 (utf8 cp @ r)) (4 - 1) (cp div 64 div 64 div 64) = Some cp"
      using utf8_rest_value [OF m(3), of "char_of (0x80 + cp div 64 mod 64) # char_of (0x80 + cp mod 64) # r" 2 "cp div 64 div 64 div 64"]
        utf8_rest_value [OF m(2), of "char_of (0x80 + cp mod 64) # r" 1 "cp div 64 div 64 div 64 * 64 + cp div 64 div 64 mod 64"]
        utf8_rest_value [OF m(1), of r 0 "(cp div 64 div 64 div 64 * 64 + cp div 64 div 64 mod 64) * 64 + cp div 64 mod 64"] j3
      by (simp add: u numeral_2_eq_2 numeral_3_eq_3 del: utf8_rest.simps(2))
    ultimately show ?thesis using ok 4 utf8_lead_values(3) [OF x] by (simp add: utf8_char_def u)
  qed
qed

lemma utf8_first: "scalar cp \<Longrightarrow> utf8 cp \<noteq> [] \<and> byte_at (utf8 cp @ r) 0 \<noteq> 0"
  by (auto simp: utf8_def scalar_def less_mult_imp_div_less)

text \<open>Valid text up to a position, and how many UTF-16 units it has.\<close>

definition units_upto :: "string \<Rightarrow> nat \<Rightarrow> nat \<Rightarrow> bool" where
  "units_upto text p units \<longleftrightarrow> p \<le> length text \<and>
     (\<exists>cps. (\<forall>c \<in> set cps. scalar c) \<and> take p text = concat (map utf8 cps) \<and>
        units = sum_list (map utf16_units cps))"

lemma units_upto_0: "units_upto text 0 0"
  unfolding units_upto_def by (intro conjI exI [of _ "[]"]) simp_all

lemma utf16_loop_sound:
  assumes "utf16_loop text target p (int u) = Some q" and "units_upto text p u"
  shows "\<exists>v. target = int v \<and> units_upto text q v"
  using assms
proof (induction "text" target p "int u" arbitrary: u rule: utf16_loop.induct)
  case (1 t target p)
  show ?case
  proof (cases "int u < target \<and> byte_at t p \<noteq> 0")
    case False
    with "1.prems" show ?thesis
      by (subst (asm) utf16_loop.simps) (auto split: if_splits)
  next
    case True
    then obtain n cp where c: "utf8_char (drop p t) = Some (n, cp)"
      and rec: "utf16_loop t target (p + n) (int u + (if 0xffff < cp then 2 else 1)) = Some q"
      using "1.prems"(1) by (subst (asm) utf16_loop.simps) (auto split: option.splits)
    have s: "scalar cp" "n = length (utf8 cp)" "prefix (utf8 cp) (drop p t)"
      using utf8_char_sound [OF c] True by (auto simp: byte_at_drop)
    then obtain r where r: "drop p t = utf8 cp @ r" by (auto simp: prefix_def)
    obtain cps where cps: "\<forall>c \<in> set cps. scalar c" "take p t = concat (map utf8 cps)"
      "u = sum_list (map utf16_units cps)" and p: "p \<le> length t"
      using "1.prems"(2) by (auto simp: units_upto_def)
    have eq: "int u + (if 0xffff < cp then 2 else 1) = int (u + utf16_units cp)" by (simp add: utf16_units_def)
    have "take (p + n) t = concat (map utf8 (cps @ [cp]))"
      using cps(2) r s(2) by (simp add: take_add)
    moreover have "p + n \<le> length t" using arg_cong [OF r, of length] p s(2) by simp
    ultimately have "units_upto t (p + n) (u + utf16_units cp)"
      unfolding units_upto_def using cps(1,3) s(1) by (intro conjI exI [of _ "cps @ [cp]"]) simp_all
    moreover have "utf16_loop t target (p + n) (int (u + utf16_units cp)) = Some q" using rec by (simp only: eq)
    ultimately show ?thesis using "1.hyps" [OF True c refl eq] by blast
  qed
qed

lemma utf16_loop_complete:
  assumes "\<forall>c \<in> set cps. scalar c" and "drop p text = concat (map utf8 cps) @ r"
  shows "utf16_loop text (int (u + sum_list (map utf16_units cps))) p (int u) =
    Some (p + length (concat (map utf8 cps)))"
  using assms
proof (induction cps arbitrary: p u)
  case Nil
  then show ?case by (subst utf16_loop.simps) simp
next
  case (Cons cp cps)
  have c: "utf8_char (drop p text) = Some (length (utf8 cp), cp)"
    using utf8_char_complete [of cp "concat (map utf8 cps) @ r"] Cons.prems by simp
  have b: "byte_at text p \<noteq> 0"
    using utf8_first [of cp "concat (map utf8 cps) @ r"] Cons.prems byte_at_drop [of p "text"] by simp
  have d: "drop (p + length (utf8 cp)) text = concat (map utf8 cps) @ r"
    using arg_cong [OF Cons.prems(2), of "drop (length (utf8 cp))"] by (simp add: add.commute)
  have "utf16_loop text (int (u + sum_list (map utf16_units (cp # cps)))) p (int u) =
      utf16_loop text (int (u + utf16_units cp + sum_list (map utf16_units cps))) (p + length (utf8 cp))
        (int (u + utf16_units cp))"
    using c b by (subst utf16_loop.simps) (auto simp: utf16_units_def add.assoc)
  also have "\<dots> = Some (p + length (utf8 cp) + length (concat (map utf8 cps)))"
    using Cons.prems(1) d by (intro Cons.IH) simp_all
  finally show ?case by (simp add: add.assoc)
qed

lemma utf16_boundary_units: "utf16_boundary text target = Some p \<longleftrightarrow> (\<exists>v. target = int v \<and> units_upto text p v)"
proof
  assume "utf16_boundary text target = Some p"
  then show "\<exists>v. target = int v \<and> units_upto text p v"
    using utf16_loop_sound [of "text" target 0 0 p] units_upto_0 by (simp add: utf16_boundary_def)
next
  assume "\<exists>v. target = int v \<and> units_upto text p v"
  then obtain cps where "p \<le> length text" "\<forall>c \<in> set cps. scalar c" "take p text = concat (map utf8 cps)"
    "target = int (sum_list (map utf16_units cps))"
    by (auto simp: units_upto_def)
  moreover from this have "length (concat (map utf8 cps)) = p" by (metis length_take min.absorb2)
  ultimately show "utf16_boundary text target = Some p"
    using utf16_loop_complete [of cps 0 "text" "drop p text" 0] append_take_drop_id [of p "text"]
    by (simp add: utf16_boundary_def)
qed

section \<open>What the formatter writes\<close>

abbreviation html_text :: "string \<Rightarrow> string" where
  "html_text \<equiv> escape (html_entity True)"

definition is_marker :: "string \<Rightarrow> bool" where
  "is_marker m \<longleftrightarrow> m = ''$'' \<or>
     (\<exists>a. m = ''('' @ a @ '')'' \<and> a \<noteq> [] \<and> set a \<inter> {CHR ''('', CHR '')'', CHR 0x0A, CHR 0x0D} = {})"

definition img_html :: "(real \<Rightarrow> string) \<Rightarrow> string \<Rightarrow> int \<Rightarrow> int \<Rightarrow> real \<Rightarrow> string \<Rightarrow> string" where
  "img_html show_g path w h divisor marker =
     ''<img class='' @ [CHR 0x22] @ ''enil-sticon-inline'' @ [CHR 0x22] @ '' src='' @ [CHR 0x22] @ html_text path @
     [CHR 0x22] @ '' alt='' @ [CHR 0x22] @ html_text marker @ [CHR 0x22] @ cstr (image_box show_g w h divisor) @ ''>''"

text \<open>What stands for a resource: its image, or the marker itself when it has none.\<close>

definition shown :: "(real \<Rightarrow> string) \<Rightarrow> 'j cjson \<Rightarrow> real \<Rightarrow> 'j \<Rightarrow> string \<Rightarrow> string" where
  "shown show_g J divisor r m =
     (case resolve_resource J r of
        None \<Rightarrow> html_text m
      | Some (path, w, h) \<Rightarrow> img_html show_g path w h divisor m)"

lemma cstr_Cons: "c \<noteq> NUL \<Longrightarrow> cstr (c # s) = c # cstr s"
  by (simp add: cstr_def)

lemma cstr_Nil: "cstr [] = []"
  by (simp add: cstr_def)

lemma no_nul_take: "no_nul s \<Longrightarrow> no_nul (take n s)"
  by (auto simp: no_nul_def list_all_iff dest: in_set_takeD)

lemma append_sticon_img_ready:
  assumes "ready M b" and "no_nul path" and "path \<noteq> []" and "0 < divisor" and "n \<le> length marker"
  shows "ready M (append_sticon_img M show_g b path w h divisor marker n)"
    and "contents (append_sticon_img M show_g b path w h divisor marker n) =
      contents b @ img_html show_g path w h divisor (take n marker)"
proof -
  have c: "cstr path = path" using assms(2) by simp
  show "ready M (append_sticon_img M show_g b path w h divisor marker n)"
    "contents (append_sticon_img M show_g b path w h divisor marker n) =
      contents b @ img_html show_g path w h divisor (take n marker)"
    using assms by (simp_all add: append_sticon_img_def Let_def c ready_facts cstr_Cons cstr_Nil NUL_def img_html_def)
qed

lemma resolve_path:
  "resolve_resource J r = Some (path, w, h) \<Longrightarrow> no_nul path \<and> path \<noteq> []"
  by (auto simp: resolve_resource_def no_nul_take split: option.splits if_splits)

lemma marker_span_bounds: "marker_span t n s e \<Longrightarrow> s < e \<and> e \<le> n"
  by (simp add: marker_span_def split: if_splits)

lemma marker_span_marker:
  assumes "marker_span t (length t) s e"
  shows "is_marker (take (e - s) (drop s t))"
proof -
  have b: "s < e" "e \<le> length t" using marker_span_bounds [OF assms] by auto
  define m where "m = take (e - s) (drop s t)"
  have nth: "m ! i = t ! (s + i)" if "i < e - s" for i using that b by (simp add: m_def)
  have len: "length m = e - s" using b by (simp add: m_def)
  consider "e - s = 1" "t ! s = CHR ''$''" | "3 \<le> e - s" "t ! s = CHR ''(''" "t ! (e - 1) = CHR '')''"
    "\<forall>i \<in> set [s + 1 ..< e - 1]. t ! i \<notin> {CHR ''('', CHR '')'', CHR 0x0A, CHR 0x0D}"
    using assms b by (auto simp: marker_span_def list_all_iff split: if_splits)
  then have "is_marker m"
  proof cases
    case 1
    then have "m = [m ! 0]" using len by (cases m) auto
    with 1 nth [of 0] show ?thesis by (simp add: is_marker_def)
  next
    case 2
    define a where "a = take (e - s - 2) (tl m)"
    have "m = m ! 0 # tl m" using len 2(1) by (cases m) auto
    moreover have "tl m = a @ [m ! (e - s - 1)]"
      using len 2(1) by (intro nth_equalityI) (auto simp: a_def nth_append nth_tl less_Suc_eq_le,
          rule arg_cong [of _ _ "(!) m"], linarith)
    moreover have "m ! 0 = CHR ''(''" "m ! (e - s - 1) = CHR '')''"
      using nth [of 0] nth [of "e - s - 1"] 2 b by simp_all
    moreover have "length a = e - s - 2" using len 2(1) by (simp add: a_def)
    moreover have "x \<notin> {CHR ''('', CHR '')'', CHR 0x0A, CHR 0x0D}" if "x \<in> set a" for x
    proof -
      obtain i where i: "i < e - s - 2" "x = a ! i" using \<open>x \<in> set a\<close> \<open>length a = e - s - 2\<close>
        by (auto simp: in_set_conv_nth)
      then have "x = t ! (s + 1 + i)" using len 2(1) nth [of "Suc i"] by (simp add: a_def nth_tl)
      with 2(4) i 2(1) show ?thesis by auto
    qed
    ultimately show ?thesis
      using 2(1) unfolding is_marker_def by (intro disjI2 exI [of _ a]) force
  qed
  then show ?thesis by (simp add: m_def)
qed

lemma resource_span_marker:
  "resource_span J t n r = Some (s, e) \<Longrightarrow> marker_span t n s e"
  by (auto simp: resource_span_def Let_def split: option.splits if_splits)

text \<open>A segment: the text before a marker, the marker, and the resource it stands for.\<close>

type_synonym 'j segment = "string \<times> string \<times> 'j"

definition seg_text :: "'j segment list \<Rightarrow> string" where
  "seg_text segs = concat (map (\<lambda>(l, m, r). l @ m) segs)"

definition seg_html :: "(real \<Rightarrow> string) \<Rightarrow> 'j cjson \<Rightarrow> real \<Rightarrow> 'j segment list \<Rightarrow> string" where
  "seg_html show_g J divisor segs = concat (map (\<lambda>(l, m, r). html_text l @ shown show_g J divisor r m) segs)"

definition segs_for :: "'j segment list \<Rightarrow> 'j list \<Rightarrow> bool" where
  "segs_for segs rs \<longleftrightarrow> map (\<lambda>(l, m, r). r) segs = rs \<and> (\<forall>(l, m, r) \<in> set segs. is_marker m)"

lemma render_valid:
  assumes "check_spans J t rs cursor j n = Some (cursor', j', n')" and "ready M b" and "cursor \<le> length t"
    and "0 < divisor"
  shows "\<exists>segs b'. render_spans M show_g J t divisor rs cursor b = (cursor', b') \<and> ready M b' \<and>
    segs_for segs rs \<and> drop cursor t = seg_text segs @ drop cursor' t \<and>
    contents b' = contents b @ seg_html show_g J divisor segs \<and> cursor' \<le> length t \<and> n' = n + length rs"
  using assms(1-3)
proof (induction rs arbitrary: cursor j n b)
  case Nil
  then show ?case by (intro exI [of _ "[]"]) (simp add: segs_for_def seg_text_def seg_html_def)
next
  case (Cons r rs)
  obtain start stop where sp: "resource_span J t (length t) r = Some (start, stop)" "cursor \<le> start"
    using Cons.prems(1) by (auto split: option.splits if_splits)
  then obtain j1 where rec: "check_spans J t rs stop j1 (Suc n) = Some (cursor', j', n')"
    using Cons.prems(1) by (auto simp: Let_def split: if_splits)
  have mk: "marker_span t (length t) start stop" by (rule resource_span_marker [OF sp(1)])
  have le: "start < stop" "stop \<le> length t" using marker_span_bounds [OF mk] by auto
  define l where "l = take (start - cursor) (drop cursor t)"
  define m where "m = take (stop - start) (drop start t)"
  define b1 where "b1 = esb_html_br_n M b (Some (drop cursor t)) (start - cursor)"
  have b1: "ready M b1" "contents b1 = contents b @ html_text l"
    using esb_html_br_n_ready [OF Cons.prems(2), of "start - cursor" "drop cursor t"] sp(2) le
    by (simp_all add: b1_def l_def)
  define b2 where "b2 = (case resolve_resource J r of
      Some (path, w, h) \<Rightarrow> append_sticon_img M show_g b1 path w h divisor (drop start t) (stop - start)
    | None \<Rightarrow> esb_html_br_n M b1 (Some (drop start t)) (stop - start))"
  have b2: "ready M b2 \<and> contents b2 = contents b1 @ shown show_g J divisor r m"
  proof (cases "resolve_resource J r")
    case None
    then show ?thesis
      using esb_html_br_n_ready [OF b1(1), of "stop - start" "drop start t"] le
      by (simp add: b2_def shown_def m_def)
  next
    case (Some p)
    then obtain path w h where p: "resolve_resource J r = Some (path, w, h)" by (cases p) auto
    show ?thesis
      using append_sticon_img_ready [OF b1(1), of path divisor "stop - start" "drop start t" show_g w h]
        resolve_path [OF p] assms(4) le
      by (simp add: b2_def shown_def m_def p)
  qed
  obtain segs b' where IH: "render_spans M show_g J t divisor rs stop b2 = (cursor', b')" "ready M b'"
    "segs_for segs rs" "drop stop t = seg_text segs @ drop cursor' t"
    "contents b' = contents b2 @ seg_html show_g J divisor segs" "cursor' \<le> length t" "n' = Suc n + length rs"
    using Cons.IH [OF rec conjunct1 [OF b2] le(2)] by blast
  have "drop cursor t = l @ drop start t"
    using sp(2) take_drop_split [of "start - cursor" "drop cursor t"]
    by (simp add: l_def) (metis append_take_drop_id drop_drop le_add_diff_inverse2)
  moreover have "drop start t = m @ drop stop t"
    using le(1) by (simp add: m_def) (metis append_take_drop_id drop_drop le_add_diff_inverse2 less_imp_le)
  ultimately have "drop cursor t = l @ m @ drop stop t" by simp
  moreover have "is_marker m" using marker_span_marker [OF mk] by (simp add: m_def)
  moreover have "render_spans M show_g J t divisor (r # rs) cursor b = (cursor', b')"
    using sp(1) IH(1) by (simp add: b1_def [symmetric] b2_def [symmetric])
  ultimately show ?case
    using IH(2-) b2 b1(2)
    by (intro exI [of _ "(l, m, r) # segs"] exI [of _ b'])
      (simp add: segs_for_def seg_text_def seg_html_def del: render_spans.simps)
qed

lemma check_count:
  "check_spans J t rs cursor j n = Some (c', j', n') \<Longrightarrow> n' = n + length rs"
proof (induction rs arbitrary: cursor j n)
  case (Cons r rs)
  then obtain stop j1 where "check_spans J t rs stop j1 (Suc n) = Some (c', j', n')"
    by (auto simp: Let_def split: option.splits if_splits)
  from Cons.IH [OF this] show ?case by simp
qed simp

lemma format_text_html_eq:
  assumes "sized M" and "never_fails M" and "cstr t \<noteq> []"
  shows "if check_spans J (cstr t) (map snd (jkids J res)) 0 True 0 = None \<or> jkids J res = []
    then format_text_html M show_g J (Some t) res = Some (html_text (cstr t))
    else \<exists>segs last divisor. divisor \<in> {3, 6} \<and> segs_for segs (map snd (jkids J res)) \<and>
      cstr t = seg_text segs @ last \<and>
      format_text_html M show_g J (Some t) res = Some (seg_html show_g J divisor segs @ html_text last)"
proof -
  let ?rs = "map snd (jkids J res)" and ?t = "cstr t"
  obtain b where b: "esb_init M = (b, True)" "ready M b" "contents b = []"
    using esb_init_ready [OF assms(1,2)] by (metis (full_types) prod.collapse)
  show ?thesis
  proof (cases "check_spans J ?t ?rs 0 True 0")
    case None
    then show ?thesis
      using b esb_html_br_ready [OF b(2), of ?t] assms(3) by (simp add: format_text_html_def Let_def)
  next
    case (Some q)
    then obtain c j n where q: "check_spans J ?t ?rs 0 True 0 = Some (c, j, n)" by (cases q) auto
    from check_count [OF q] have n: "n = length ?rs" by simp
    show ?thesis
    proof (cases "jkids J res = []")
      case True
      with q n show ?thesis
        using b esb_html_br_ready [OF b(2), of ?t] assms(3) by (simp add: format_text_html_def Let_def)
    next
      case False
      then have "n \<noteq> 0" using n by simp
      then obtain k where k: "n = Suc k" by (cases n) auto
      define d where "d = (if j \<and> run_is_blank (drop c ?t) (length ?t - c)
        then ENIL_STICON_JUMBO_SCALE_DIV else ENIL_STICON_SCALE_DIV)"
      have d: "0 < d" "d \<in> {3, 6}" by (auto simp: d_def ENIL_STICON_JUMBO_SCALE_DIV_def ENIL_STICON_SCALE_DIV_def)
      obtain segs b' where r: "render_spans M show_g J ?t d ?rs 0 b = (c, b')" "ready M b'"
        "segs_for segs ?rs" "drop 0 ?t = seg_text segs @ drop c ?t"
        "contents b' = contents b @ seg_html show_g J d segs" "c \<le> length ?t"
        using render_valid [OF q b(2) _ d(1), of show_g] by auto
      have "format_text_html M show_g J (Some t) res =
          Some (contents (esb_html_br_n M b' (Some (drop c ?t)) (length ?t - c)))"
        using assms(3) b(1) q r(1) by (simp add: format_text_html_def Let_def k d_def [symmetric])
      also have "\<dots> = Some (seg_html show_g J d segs @ html_text (drop c ?t))"
        using esb_html_br_n_ready [OF r(2), of "length ?t - c" "drop c ?t"] r(5) b(3) by simp
      finally have "format_text_html M show_g J (Some t) res = Some (seg_html show_g J d segs @ html_text (drop c ?t))" .
      then have "\<exists>segs last divisor. divisor \<in> {3, 6} \<and> segs_for segs ?rs \<and> ?t = seg_text segs @ last \<and>
          format_text_html M show_g J (Some t) res = Some (seg_html show_g J divisor segs @ html_text last)"
        using d(2) r(3,4) by auto
      with q False show ?thesis by simp
    qed
  qed
qed

section \<open>Where the markers are\<close>

lemma find_marker_from:
  "scan \<le> find_marker t m scan \<and>
   (find_marker t m scan < length t \<longrightarrow> take (length m) (drop (find_marker t m scan) t) = m \<and>
      find_marker t m scan + length m \<le> length t)"
proof (induction t m scan rule: find_marker.induct)
  case (1 t m scan)
  then show ?case by (subst (1 2 3 4) find_marker.simps) auto
qed

lemma find_marker_le: "scan \<le> length t \<Longrightarrow> find_marker t m scan \<le> length t"
proof (induction t m scan rule: find_marker.induct)
  case (1 t m scan)
  then show ?case by (subst find_marker.simps) auto
qed

definition item_marker :: "sticon_item \<Rightarrow> string" where
  "item_marker = (\<lambda>(p, s, alt, rt, v). sticon_marker alt)"

definition holds_marker :: "string \<Rightarrow> sticon_item \<Rightarrow> ENILLineSticonResource \<Rightarrow> bool" where
  "holds_marker t i x \<longleftrightarrow> res_S x \<le> int (length t) \<and> res_E x = res_S x + int (length (item_marker i)) \<and>
     (res_S x < int (length t) \<longrightarrow>
        take (length (item_marker i)) (drop (nat (res_S x)) t) = item_marker i \<and> res_E x \<le> int (length t))"

lemma sticon_scan_spans:
  assumes "\<forall>i \<in> set items. int (length t) + int (length (item_marker i)) \<le> INT_MAX" and "scan \<le> length t"
  shows "list_all2 (holds_marker t) items (sticon_scan t items scan) \<and>
    (\<forall>x \<in> set (sticon_scan t items scan). int scan \<le> res_S x) \<and>
    sorted_wrt (\<lambda>x y. res_S x < int (length t) \<longrightarrow> res_E x \<le> res_S y) (sticon_scan t items scan)"
  using assms
proof (induction t items scan rule: sticon_scan.induct)
  case (2 t pkg sid alt rtype version items scan)
  let ?i = "(pkg, sid, alt, rtype, version)"
  define m where "m = sticon_marker alt"
  define k where "k = find_marker t m scan"
  have small: "int (length t) + int (length m) \<le> INT_MAX" using "2.prems"(1) by (auto simp: item_marker_def m_def)
  have k: "scan \<le> k" "k \<le> length t" "k < length t \<Longrightarrow> take (length m) (drop k t) = m \<and> k + length m \<le> length t"
    using find_marker_from [of scan t m] find_marker_le [OF "2.prems"(2), of m] by (auto simp: k_def)
  have w: "wrap32 (int k) = int k" "wrap32 (int (length m)) = int (length m)"
    "wrap32 (int k + int (length m)) = int k + int (length m)"
    using small k(2) by (simp_all add: wrap32_id INT_MAX_def INT_MIN_def)
  define nxt where "nxt = (if k < length t then k + length m else k)"
  have IH: "list_all2 (holds_marker t) items (sticon_scan t items nxt) \<and>
    (\<forall>x \<in> set (sticon_scan t items nxt). int nxt \<le> res_S x) \<and>
    sorted_wrt (\<lambda>x y. res_S x < int (length t) \<longrightarrow> res_E x \<le> res_S y) (sticon_scan t items nxt)"
    using "2.IH" [OF m_def k_def refl] "2.prems"(1) k unfolding nxt_def by auto
  define x where "x = \<lparr>res_package_id = pkg, res_sticon_id = sid, res_S = int k, res_E = int k + int (length m),
    res_version = (case version of None \<Rightarrow> [] | Some v \<Rightarrow> v),
    res_resource_type = (case rtype of None \<Rightarrow> ''STATIC'' | Some ty \<Rightarrow> ty)\<rparr>"
  have step: "sticon_scan t (?i # items) scan = x # sticon_scan t items nxt"
    using w by (simp add: Let_def m_def [symmetric] k_def [symmetric] nxt_def x_def)
  have "holds_marker t ?i x" using k by (auto simp: holds_marker_def item_marker_def m_def [symmetric] x_def)
  with IH k show ?case unfolding step by (force simp: x_def nxt_def)
qed simp

section \<open>Properties\<close>

text \<open>C23: The position decoder agrees with Unicode: it accepts position \<open>target\<close> at byte offset \<open>p\<close>
  exactly when the text up to \<open>p\<close> is the UTF-8 encoding of scalar values that take \<open>target\<close> UTF-16 code
  units; so malformed or overlong bytes, lone surrogates, positions past the end and positions inside a
  surrogate pair are all refused.\<close>

theorem utf16_boundary_unicode:
  "utf16_boundary text target = Some p \<longleftrightarrow>
     p \<le> length text \<and> (\<exists>cps. (\<forall>c \<in> set cps. scalar c) \<and> take p text = concat (map utf8 cps) \<and>
       target = int (sum_list (map utf16_units cps)))"
  by (auto simp: utf16_boundary_units units_upto_def)

theorem utf16_boundary_unicode_witness:
  "utf16_boundary (utf8 0x1f600 @ ''$'') 2 = Some (length (utf8 0x1f600)) \<and>
   utf16_boundary (utf8 0x1f600 @ ''$'') 1 = None"
proof
  show "utf16_boundary (utf8 0x1f600 @ ''$'') 2 = Some (length (utf8 0x1f600))"
    unfolding utf16_boundary_unicode [of "utf8 0x1f600 @ ''$''" 2 "length (utf8 0x1f600)"]
    by (intro conjI exI [of _ "[0x1f600]"]) (simp_all add: scalar_def utf16_units_def)
  have "utf8_char (utf8 0x1f600 @ ''$'') = Some (length (utf8 0x1f600), 0x1f600)"
    by (rule utf8_char_complete) (simp add: scalar_def)
  moreover have "byte_at (utf8 0x1f600 @ ''$'') 0 \<noteq> 0"
    using utf8_first [of "0x1f600" "''$''"] by (simp add: scalar_def)
  moreover have "utf16_loop t 1 p 2 = None" for t p
    by (subst utf16_loop.simps) simp
  ultimately show "utf16_boundary (utf8 0x1f600 @ ''$'') 1 = None"
    unfolding utf16_boundary_def by (subst utf16_loop.simps) simp
qed

text \<open>C24: While memory can be allocated, no message text is lost and nothing of it becomes markup: the HTML of a message is the escaped
  text when its stored spans are invalid, overlapping or absent; otherwise the text is cut, in order, into
  plain pieces and one marker (a dollar sign or a parenthesised label) per stored resource, the plain
  pieces are escaped, and each marker is its image tag, or itself escaped when there is no image.\<close>

theorem message_html_faithful:
  assumes "sized M" and "never_fails M" and "cstr t \<noteq> []"
  shows "if check_spans J (cstr t) (map snd (jkids J res)) 0 True 0 = None \<or> jkids J res = []
    then format_text_html M show_g J (Some t) res = Some (html_text (cstr t))
    else \<exists>segs last divisor. divisor \<in> {3, 6} \<and> segs_for segs (map snd (jkids J res)) \<and>
      cstr t = seg_text segs @ last \<and>
      format_text_html M show_g J (Some t) res = Some (seg_html show_g J divisor segs @ html_text last)"
  by (rule format_text_html_eq [OF assms])

theorem message_html_faithful_witness:
  "format_text_html zeroed (\<lambda>_. []) (tree (\<lambda>_. None) (\<lambda>_. [])) (Some ''a<b'')
     (Some (JArr [JObj [(''S'', JNum 0), (''E'', JNum 1)]])) = Some ''a&lt;b''"
proof -
  let ?J = "tree (\<lambda>_. None) (\<lambda>_. [])" and ?r = "JObj [(''S'', JNum 0), (''E'', JNum 1)]"
  have t: "cstr ''a<b'' = ''a<b''" by (simp add: cstr_Cons cstr_Nil NUL_def)
  have "trunc 0 = 0" "trunc 1 = 1" by (simp_all add: trunc_def)
  moreover have "\<not> marker_span ''a<b'' (length ''a<b'') 0 (Suc 0)" by (simp add: marker_span_def)
  moreover have "utf16_boundary ''a<b'' 1 = Some 1" "utf16_boundary ''a<b'' 0 = Some 0"
    by (simp_all add: utf16_boundary_def utf16_loop.simps byte_at_def utf8_char_def utf8_lead_def)
  ultimately have "check_spans ?J ''a<b'' [?r] 0 True 0 = None"
    by (simp add: resource_span_def INT_MAX_def Let_def lower_char.simps)
  with message_html_faithful [of zeroed "''a<b''" ?J "Some (JArr [?r])" "\<lambda>_. []"] t show ?thesis
    by (simp add: html_entity_def)
qed

text \<open>The spans of an outgoing message point at its markers: one span per resource, each as long as the
  resource's marker; a span that starts inside the text holds exactly that marker, and a later span
  never starts before the end of an earlier one (texts and markers within the range of \<open>int\<close>).\<close>

theorem sticon_spans_hold_markers:
  assumes "enil_line_build_sticon_resources (Some t) (Some items) = Some spans"
    and "\<forall>i \<in> set items. int (length (cstr t)) + int (length (item_marker i)) \<le> INT_MAX"
  shows "list_all2 (holds_marker (cstr t)) items spans \<and>
    sorted_wrt (\<lambda>x y. res_S x < int (length (cstr t)) \<longrightarrow> res_E x \<le> res_S y) spans"
  using assms sticon_scan_spans [of items "cstr t" 0]
  by (auto simp: enil_line_build_sticon_resources_def split: list.splits)

theorem sticon_spans_hold_markers_witness:
  "\<exists>x y. enil_line_build_sticon_resources (Some ''(hi) $'')
     (Some [(''p'', ''1'', Some ''hi'', None, None), (''p'', ''2'', None, None, None)]) = Some [x, y] \<and>
     res_S x = 0 \<and> res_E x = 4 \<and> res_S y = 5 \<and> res_E y = 6"
proof -
  let ?items = "[(''p'', ''1'', Some ''hi'', None, None), (''p'', ''2'', None, None, None)] :: sticon_item list"
  have t: "cstr ''(hi) $'' = ''(hi) $''" "cstr ''hi'' = ''hi''" by (simp_all add: cstr_Cons cstr_Nil NUL_def)
  then have m: "map item_marker ?items = [''(hi)'', ''$'']" by (simp add: item_marker_def sticon_marker_def)
  have f: "find_marker ''(hi) $'' ''(hi)'' 0 = 0" "find_marker ''(hi) $'' ''$'' (Suc (Suc (Suc (Suc 0)))) = 5"
    by (simp_all add: find_marker.simps)
  have "wrap32 0 = 0" "wrap32 4 = 4" "wrap32 5 = 5" "wrap32 1 = 1" by (simp_all add: wrap32_id INT_MAX_def INT_MIN_def)
  then obtain x y where xy: "enil_line_build_sticon_resources (Some ''(hi) $'') (Some ?items) = Some [x, y]"
    "res_S x = 0" "res_S y = 5"
    using f t by (simp add: enil_line_build_sticon_resources_def sticon_marker_def Let_def)
  have "\<forall>i \<in> set ?items. int (length (cstr ''(hi) $'')) + int (length (item_marker i)) \<le> INT_MAX"
    using m t by (simp add: INT_MAX_def)
  from sticon_spans_hold_markers [OF xy(1) this] have "res_E x = 4" "res_E y = 6"
    using xy m by (simp_all add: holds_marker_def)
  with xy show ?thesis by auto
qed

end
