(* ===== verification/ENIL_Http.thy ===== *)
theory ENIL_Http
  imports ENIL_Identity
begin

text \<open>
  \<open>source/shared/enil_http.c\<close>: the libcurl wrapper.  libcurl is not modelled: a handle is the record of
  the options the code sets on it, and what a transfer brings is a \<open>curl_result\<close> given by the
  environment.  The file system is a map from paths to contents.
\<close>

section \<open>Handles and transfers\<close>

datatype curl_code = CURLE_OK | CURLE_OPERATION_TIMEDOUT | CURLE_ABORTED_BY_CALLBACK | CURLE_OTHER nat

text \<open>\<open>pretransfer_ready\<close>: the connection was set up; \<open>uploaded\<close>: bytes of the body sent.\<close>

record curl_result =
  rc :: curl_code
  http_status :: int
  received :: string
  uploaded :: nat
  pretransfer_ready :: bool

text \<open>The options of a handle; \<open>opt_cancellable\<close> stands for the progress callback with its flag.\<close>

record curl_handle =
  opt_url :: string
  opt_user_agent :: "string option"
  opt_headers :: "string list"
  opt_post :: "string option"
  opt_nosignal :: bool
  opt_connect_timeout :: nat
  opt_timeout_ms :: nat
  opt_low_speed_time :: nat
  opt_follow :: bool
  opt_cancellable :: bool
  opt_cainfo :: "string option"

definition ENIL_HTTP_TIMEOUT_SECONDS :: nat where "ENIL_HTTP_TIMEOUT_SECONDS = 120"
definition ENIL_HTTP_STALL_SECONDS :: nat where "ENIL_HTTP_STALL_SECONDS = 30"

section \<open>Response buffers\<close>

text \<open>\<open>bdata\<close> is the text before the terminating NUL; \<open>size\<close> is its length.\<close>

record ENILBuf =
  bdata :: "string option"
  bsize :: nat

definition empty_buf :: ENILBuf where
  "empty_buf = \<lparr>bdata = None, bsize = 0\<rparr>"

definition write_cb :: "(nat \<Rightarrow> bool) \<Rightarrow> ENILBuf \<Rightarrow> string \<Rightarrow> ENILBuf \<times> nat" where
  "write_cb realloc b chunk =
     (if \<not> realloc (bsize b + length chunk + 1) then (b, 0)
      else (\<lparr>bdata = Some (take (bsize b) (case bdata b of None \<Rightarrow> [] | Some d \<Rightarrow> d) @ chunk),
             bsize = bsize b + length chunk\<rparr>, length chunk))"

definition enil_buf_free :: "ENILBuf \<Rightarrow> ENILBuf" where
  "enil_buf_free b = \<lparr>bdata = None, bsize = 0\<rparr>"

text \<open>What a transfer leaves in its buffer: libcurl calls \<open>write_cb\<close> only with bytes.\<close>

definition buffered :: "curl_result \<Rightarrow> string option" where
  "buffered r = (if received r = [] then None else Some (received r))"

lemma write_cb_chunks:
  assumes "\<And>n. realloc n" and "\<forall>c \<in> set cs. c \<noteq> []" and "bsize b = length (case bdata b of None \<Rightarrow> [] | Some d \<Rightarrow> d)"
  shows "foldl (\<lambda>b c. fst (write_cb realloc b c)) b cs =
    (if cs = [] then b
     else \<lparr>bdata = Some ((case bdata b of None \<Rightarrow> [] | Some d \<Rightarrow> d) @ concat cs), bsize = bsize b + length (concat cs)\<rparr>)"
  using assms(2,3)
proof (induction cs arbitrary: b)
  case (Cons c cs)
  define b1 where "b1 = fst (write_cb realloc b c)"
  have b1: "b1 = \<lparr>bdata = Some ((case bdata b of None \<Rightarrow> [] | Some d \<Rightarrow> d) @ c), bsize = bsize b + length c\<rparr>"
    using assms(1) Cons.prems by (simp add: b1_def write_cb_def)
  show ?case using Cons.IH [of b1] Cons.prems b1 by (simp add: b1_def [symmetric])
qed simp

text \<open>So however the response is cut into chunks, the buffer holds \<open>buffered\<close>.\<close>

lemma write_cb_buffered:
  assumes "\<And>n. realloc n" and "\<forall>c \<in> set cs. c \<noteq> []" and "received r = concat cs"
  shows "bdata (foldl (\<lambda>b c. fst (write_cb realloc b c)) empty_buf cs) = buffered r"
  using assms write_cb_chunks [of realloc cs empty_buf] by (auto simp: empty_buf_def buffered_def)

section \<open>Cancellation\<close>

text \<open>Each thread may have a flag bound; the flags' values are read atomically.\<close>

definition enil_http_bind_cancel :: "('t \<Rightarrow> 'f option) \<Rightarrow> 't \<Rightarrow> 'f option \<Rightarrow> ('t \<Rightarrow> 'f option)" where
  "enil_http_bind_cancel keys t cancel = keys(t := cancel)"

definition enil_http_cancel_flag :: "('t \<Rightarrow> 'f option) \<Rightarrow> 't \<Rightarrow> 'f option" where
  "enil_http_cancel_flag keys t = keys t"

definition enil_http_cancelled :: "('t \<Rightarrow> 'f option) \<Rightarrow> ('f \<Rightarrow> bool) \<Rightarrow> 't \<Rightarrow> bool" where
  "enil_http_cancelled keys raised t =
     (case enil_http_cancel_flag keys t of None \<Rightarrow> False | Some f \<Rightarrow> raised f)"

definition download_cancel :: "'f option \<Rightarrow> ('f \<Rightarrow> bool) \<Rightarrow> bool" where
  "download_cancel ctx raised = (case ctx of None \<Rightarrow> False | Some f \<Rightarrow> raised f)"

section \<open>Making handles\<close>

definition enil_cainfo_set :: "string option \<Rightarrow> string option" where
  "enil_cainfo_set path = path"

text \<open>\<open>init\<close>: \<open>curl_easy_init\<close> succeeded.\<close>

definition enil_curl_new_raw :: "string option \<Rightarrow> bool \<Rightarrow> curl_handle option" where
  "enil_curl_new_raw s_cainfo init =
     (if \<not> init then None
      else Some \<lparr>opt_url = [], opt_user_agent = None, opt_headers = [], opt_post = None, opt_nosignal = True,
        opt_connect_timeout = 15, opt_timeout_ms = 1000 * ENIL_HTTP_TIMEOUT_SECONDS, opt_low_speed_time = 0,
        opt_follow = False, opt_cancellable = False,
        opt_cainfo = (case s_cainfo of None \<Rightarrow> None | Some p \<Rightarrow> if cstr p = [] then None else Some p)\<rparr>)"

definition enil_curl_new :: "string option \<Rightarrow> bool \<Rightarrow> curl_handle option" where
  "enil_curl_new s_cainfo init = enil_curl_new_raw s_cainfo init"

definition apply_download_cancel :: "('t \<Rightarrow> 'f option) \<Rightarrow> 't \<Rightarrow> curl_handle \<Rightarrow> curl_handle" where
  "apply_download_cancel keys t c =
     (let c = c\<lparr>opt_low_speed_time := ENIL_HTTP_STALL_SECONDS\<rparr>
      in if enil_http_cancel_flag keys t = None then c else c\<lparr>opt_cancellable := True\<rparr>)"

definition with_identity :: "enil_identity_t option \<Rightarrow> curl_handle \<Rightarrow> curl_handle" where
  "with_identity idn c = (case idn of None \<Rightarrow> c | Some i \<Rightarrow> c\<lparr>opt_user_agent := Some (user_agent i)\<rparr>)"

section \<open>Fetching\<close>

text \<open>
  \<open>transfer\<close> is \<open>curl_easy_perform\<close> with the status read after it.  Both results are the value
  returned and the transfer made, if there was one.
\<close>

definition enil_curl_get ::
  "('t \<Rightarrow> 'f option) \<Rightarrow> ('f \<Rightarrow> bool) \<Rightarrow> 't \<Rightarrow> enil_identity_t option \<Rightarrow> string option \<Rightarrow> bool \<Rightarrow>
   (curl_handle \<Rightarrow> curl_result) \<Rightarrow> string option \<Rightarrow> string option \<times> curl_handle option" where
  "enil_curl_get keys raised t idn s_cainfo init transfer url =
     (case url of
        None \<Rightarrow> (None, None)
      | Some u \<Rightarrow>
          if enil_http_cancelled keys raised t then (None, None)
          else case enil_curl_new s_cainfo init of
            None \<Rightarrow> (None, None)
          | Some c0 \<Rightarrow>
              (let c = apply_download_cancel keys t ((with_identity idn c0)\<lparr>opt_url := u, opt_follow := True\<rparr>);
                   r = transfer c
               in if rc r \<noteq> CURLE_OK then (None, Some c)
                  else if http_status r \<noteq> 200 then (None, Some c)
                  else (buffered r, Some c)))"

text \<open>
  The library calls of a download: \<open>mkstemp\<close>'s letters (\<open>None\<close>: it failed), \<open>fdopen\<close>,
  \<open>curl_easy_init\<close>, the transfer (what it wrote to the file is \<open>received\<close>), \<open>fclose\<close> and \<open>rename\<close>.
\<close>

record download_calls =
  dl_letters :: "string option"
  dl_fdopen :: bool
  dl_init :: bool
  dl_transfer :: "curl_handle \<Rightarrow> curl_result"
  dl_fclose :: bool
  dl_rename :: bool

type_synonym files = "string \<Rightarrow> string option"

definition temporary_path :: "string \<Rightarrow> string \<Rightarrow> string" where
  "temporary_path dest letters = dest @ ''.download-'' @ letters"

text \<open>The result (0 or -1 in C), the files after it, and the transfer made.\<close>

definition enil_curl_download_file_validated ::
  "('t \<Rightarrow> 'f option) \<Rightarrow> ('f \<Rightarrow> bool) \<Rightarrow> 't \<Rightarrow> enil_identity_t option \<Rightarrow> string option \<Rightarrow> download_calls \<Rightarrow> files \<Rightarrow>
   string option \<Rightarrow> string option \<Rightarrow> (string \<Rightarrow> bool) option \<Rightarrow> bool \<times> files \<times> curl_handle option" where
  "enil_curl_download_file_validated keys raised t idn s_cainfo D fs url dest_path validate =
     (case (url, dest_path) of
        (Some u, Some dest) \<Rightarrow>
          if enil_http_cancelled keys raised t then (False, fs, None)
          else
            (case dl_letters D of
               None \<Rightarrow> (False, fs(temporary_path dest ''XXXXXX'' := None), None)
             | Some letters \<Rightarrow>
                 (let tmp = temporary_path dest letters; opened = fs(tmp \<mapsto> [])
                  in if \<not> dl_fdopen D then (False, opened(tmp := None), None)
                     else case enil_curl_new_raw s_cainfo (dl_init D) of
                       None \<Rightarrow> (False, opened(tmp := None), None)
                     | Some c0 \<Rightarrow>
                         (let c = apply_download_cancel keys t
                                    ((with_identity idn c0)\<lparr>opt_url := u, opt_follow := True\<rparr>);
                              r = dl_transfer D c; written = opened(tmp \<mapsto> received r)
                          in if rc r \<noteq> CURLE_OK \<or> http_status r \<noteq> 200 then (False, written(tmp := None), Some c)
                             else if \<not> dl_fclose D then (False, written(tmp := None), Some c)
                             else if (case validate of None \<Rightarrow> True | Some v \<Rightarrow> v (received r)) \<and> dl_rename D
                             then (True, (written(tmp := None))(dest \<mapsto> received r), Some c)
                             else (False, written(tmp := None), Some c))))
      | _ \<Rightarrow> (False, fs, None))"

definition enil_curl_download_file ::
  "('t \<Rightarrow> 'f option) \<Rightarrow> ('f \<Rightarrow> bool) \<Rightarrow> 't \<Rightarrow> enil_identity_t option \<Rightarrow> string option \<Rightarrow> download_calls \<Rightarrow> files \<Rightarrow>
   string option \<Rightarrow> string option \<Rightarrow> bool \<times> files \<times> curl_handle option" where
  "enil_curl_download_file keys raised t idn s_cainfo D fs url dest_path =
     enil_curl_download_file_validated keys raised t idn s_cainfo D fs url dest_path None"

section \<open>Properties\<close>

text \<open>C25: A download is published whole or not at all: with a temporary name that \<open>mkstemp\<close> found free, the
  file system after the call differs from the one before only in the destination, and only when the
  transfer completed with HTTP 200, the file closed without error and the content was accepted; then the
  destination is exactly what was received.  In every other case nothing has changed, so a failed or
  rejected download neither damages an existing file nor leaves a temporary one.\<close>

theorem download_atomic:
  assumes "fs (temporary_path dest (case dl_letters D of None \<Rightarrow> ''XXXXXX'' | Some l \<Rightarrow> l)) = None"
  shows "case enil_curl_download_file_validated keys raised t idn ca D fs (Some u) (Some dest) validate of
      (ok, fs', sent) \<Rightarrow>
        if ok then \<exists>c. sent = Some c \<and> opt_url c = u \<and> rc (dl_transfer D c) = CURLE_OK \<and>
            http_status (dl_transfer D c) = 200 \<and> dl_fclose D \<and>
            (case validate of None \<Rightarrow> True | Some v \<Rightarrow> v (received (dl_transfer D c))) \<and>
            fs' = fs(dest \<mapsto> received (dl_transfer D c))
        else fs' = fs"
proof -
  have clean: "fs(x := y, x := None) = fs" if "fs x = None" for x y
    using that by (simp add: fun_upd_idem)
  show ?thesis
  proof (cases "dl_letters D")
    case None
    with assms show ?thesis
      by (simp add: enil_curl_download_file_validated_def fun_upd_idem)
  next
    case (Some letters)
    with assms show ?thesis
      by (auto simp: enil_curl_download_file_validated_def Let_def fun_upd_idem enil_curl_new_raw_def
          apply_download_cancel_def with_identity_def split: option.splits)
  qed
qed

definition demo_download :: download_calls where
  "demo_download = \<lparr>dl_letters = Some ''a1b2c3'', dl_fdopen = True, dl_init = True,
     dl_transfer = (\<lambda>c. \<lparr>rc = CURLE_OK, http_status = 200, received = ''png'', uploaded = 0, pretransfer_ready = True\<rparr>),
     dl_fclose = True, dl_rename = True\<rparr>"

theorem download_atomic_witness:
  "fst (snd (enil_curl_download_file_validated (\<lambda>t :: nat. None :: nat option) (\<lambda>f. False) 0 None None demo_download
      [''/c/a'' \<mapsto> ''old''] (Some ''https://x'') (Some ''/c/a'') (Some (\<lambda>s. s = ''png'')))) ''/c/a'' = Some ''png''"
proof -
  let ?r = "enil_curl_download_file_validated (\<lambda>t :: nat. None :: nat option) (\<lambda>f. False) 0 None None demo_download
      [''/c/a'' \<mapsto> ''old''] (Some ''https://x'') (Some ''/c/a'') (Some (\<lambda>s. s = ''png''))"
  have "([''/c/a'' \<mapsto> ''old''] :: files) (temporary_path ''/c/a''
      (case dl_letters demo_download of None \<Rightarrow> ''XXXXXX'' | Some l \<Rightarrow> l)) = None"
    by (simp add: temporary_path_def demo_download_def)
  note atomic = download_atomic [where fs = "[''/c/a'' \<mapsto> ''old'']" and dest = "''/c/a''" and D = demo_download
      and keys = "\<lambda>t :: nat. None :: nat option" and raised = "\<lambda>f. False" and t = 0 and idn = None and ca = None
      and u = "''https://x''" and validate = "Some (\<lambda>s. s = ''png'')", OF this]
  have "fst ?r"
    by (simp add: enil_curl_download_file_validated_def demo_download_def enil_http_cancelled_def
        enil_http_cancel_flag_def enil_curl_new_raw_def Let_def)
  with atomic show ?thesis
    by (auto simp: demo_download_def split: prod.splits)
qed

end
