(* ===== verification/ENIL_Worker.thy ===== *)
theory ENIL_Worker
  imports ENIL_Http ENIL_Health ENIL_Json
begin

text \<open>
  \<open>source/shared/enil_worker.c\<close>: the client of the user's own worker, which signs requests and does the
  end-to-end cryptography.  The state \<open>net\<close> holds the health gates, the worker's credentials and the
  list of the transfers made so far; \<open>net_env\<close> answers a transfer from that list, so the servers may
  behave in any way over time.  Allocation succeeds.
\<close>

section \<open>The network\<close>

record ('t, 'h) net =
  gates :: "('t, 'h) health_state"
  g_worker_url :: "string option"
  g_worker_secret :: "string option"
  wire :: "curl_handle list"

record 'j net_env =
  njson :: "'j cjson"
  answer :: "curl_handle list \<Rightarrow> curl_result"
  curl_init :: "curl_handle list \<Rightarrow> bool"
  s_cainfo :: "string option"
  language_headers :: "string list"

text \<open>A cancel flag: null, or a cell whose value depends on what has happened.\<close>

type_synonym cancel_flag = "(curl_handle list \<Rightarrow> bool) option"

definition raised :: "cancel_flag \<Rightarrow> ('t, 'h) net \<Rightarrow> bool" where
  "raised cancel S = (case cancel of None \<Rightarrow> False | Some f \<Rightarrow> f (wire S))"

definition transfer :: "'j net_env \<Rightarrow> curl_handle \<Rightarrow> ('t, 'h) net \<Rightarrow> curl_result \<times> ('t, 'h) net" where
  "transfer E c S = (let S' = S\<lparr>wire := wire S @ [c]\<rparr> in (answer E (wire S'), S'))"

definition fail_gate :: "'t \<Rightarrow> enil_err_source_t \<Rightarrow> ('t, 'h) net \<Rightarrow> ('t, 'h) net" where
  "fail_gate t src S = S\<lparr>gates := enil_health_set_failure (gates S) t src\<rparr>"

section \<open>Credentials\<close>

definition dup_or_null :: "string option \<Rightarrow> string option" where
  "dup_or_null s = (case s of None \<Rightarrow> None | Some x \<Rightarrow> if cstr x = [] then None else Some (cstr x))"

definition enil_worker_set_credentials ::
  "'t \<Rightarrow> string option \<Rightarrow> string option \<Rightarrow> ('t, 'h) net \<Rightarrow> ('t, 'h) net" where
  "enil_worker_set_credentials t url secret S =
     S\<lparr>g_worker_url := dup_or_null url, g_worker_secret := dup_or_null secret,
       gates := enil_health_clear_failure (gates S) t ENIL_ERR_WORKER\<rparr>"

definition worker_credentials_copy :: "('t, 'h) net \<Rightarrow> string \<Rightarrow> (string \<times> string) option" where
  "worker_credentials_copy S path =
     (case (g_worker_url S, g_worker_secret S) of
        (Some url, Some secret) \<Rightarrow> Some (url @ path, ''X-Worker-Secret: '' @ secret)
      | _ \<Rightarrow> None)"

section \<open>One request\<close>

definition worker_cancel :: "cancel_flag \<Rightarrow> ('t, 'h) net \<Rightarrow> bool" where
  "worker_cancel ctx S = (case ctx of None \<Rightarrow> False | Some f \<Rightarrow> f (wire S))"

definition worker_handle :: "curl_handle \<Rightarrow> string \<Rightarrow> string \<Rightarrow> string \<Rightarrow> bool \<Rightarrow> curl_handle" where
  "worker_handle c url secret_hdr json_body cancellable =
     c\<lparr>opt_url := url, opt_post := Some json_body, opt_headers := [''Content-Type: application/json'', secret_hdr],
       opt_nosignal := True, opt_connect_timeout := 15, opt_timeout_ms := 30000, opt_cancellable := cancellable\<rparr>"

definition worker_post ::
  "'j net_env \<Rightarrow> 't \<Rightarrow> string \<Rightarrow> string \<Rightarrow> cancel_flag \<Rightarrow> ('t, 'h) net \<Rightarrow> string option \<times> ('t, 'h) net" where
  "worker_post E t path json_body cancel S =
     (if raised cancel S then (None, S)
      else if enil_health_is_failed (gates S) t ENIL_ERR_WORKER then (None, S)
      else case worker_credentials_copy S path of
        None \<Rightarrow> (None, S)
      | Some (url, secret_hdr) \<Rightarrow>
          (case enil_curl_new (s_cainfo E) (curl_init E (wire S)) of
             None \<Rightarrow> (None, S)
           | Some c \<Rightarrow>
               (case transfer E (worker_handle c url secret_hdr json_body (cancel \<noteq> None)) S of
                  (r, S1) \<Rightarrow>
                    if raised cancel S1 then (None, S1)
                    else if rc r \<noteq> CURLE_OK then (None, fail_gate t ENIL_ERR_WORKER S1)
                    else if http_status r = 401 \<or> http_status r = 403 then (None, fail_gate t ENIL_ERR_WORKER S1)
                    else if 500 \<le> http_status r \<and> http_status r < 600 then (None, fail_gate t ENIL_ERR_WORKER S1)
                    else if http_status r < 200 \<or> 300 \<le> http_status r then (None, fail_gate t ENIL_ERR_WORKER S1)
                    else (buffered r, S1))))"

section \<open>Calls\<close>

definition parse_restore_state :: "'j cjson \<Rightarrow> string option \<Rightarrow> 'j option" where
  "parse_restore_state J s =
     (case s of None \<Rightarrow> Some (mkObject J) | Some x \<Rightarrow> if cstr x = [] then Some (mkObject J) else parseText J x)"

definition worker_call ::
  "'j net_env \<Rightarrow> 't \<Rightarrow> string \<Rightarrow> 'j \<Rightarrow> ('t, 'h) net \<Rightarrow> 'j option \<times> ('t, 'h) net" where
  "worker_call E t path req S =
     (case worker_post E t path (printText (njson E) req) None S of
        (None, S1) \<Rightarrow> (None, S1)
      | (Some resp, S1) \<Rightarrow> (parseText (njson E) resp, S1))"

definition worker_take_restore_state :: "'j cjson \<Rightarrow> 'j \<Rightarrow> string option" where
  "worker_take_restore_state J resp = map_option (printText J) (getItem J resp ''workerRestoreState'')"

record ENILWorkerEncryptResult =
  ciphertext :: string
  wr_restore_state :: string

definition extract_encrypt_result :: "'j cjson \<Rightarrow> 'j \<Rightarrow> ENILWorkerEncryptResult option" where
  "extract_encrypt_result J resp =
     (case (jstr J (getItem J resp ''ciphertext''), getItem J resp ''workerRestoreState'') of
        (Some c, Some r) \<Rightarrow> Some \<lparr>ciphertext = c, wr_restore_state = printText J r\<rparr>
      | _ \<Rightarrow> None)"

text \<open>Adding a string: a null string is not added (\<open>cJSON_CreateString\<close> fails).\<close>

definition add_str :: "'j cjson \<Rightarrow> string \<Rightarrow> string option \<Rightarrow> 'j \<Rightarrow> 'j" where
  "add_str J k v o' = (case v of None \<Rightarrow> o' | Some s \<Rightarrow> addItem J o' k (mkString J s))"

definition add_int :: "'j cjson \<Rightarrow> string \<Rightarrow> int \<Rightarrow> 'j \<Rightarrow> 'j" where
  "add_int J k v o' = addItem J o' k (mkNumber J (of_int v))"

record ENILWorkerEncryptUserParams =
  eu_restore_state :: "string option"
  eu_private_key :: "string option"
  eu_private_key_id :: int
  eu_peer_mid :: "string option"
  eu_peer_public_key :: "string option"
  eu_peer_key_id :: int
  eu_from_mid :: "string option"
  eu_to_mid :: "string option"
  eu_sender_key_id :: int
  eu_content_type :: int
  eu_sequence_number :: int
  eu_plaintext :: "string option"

definition encrypt_user_request :: "'j cjson \<Rightarrow> 'j \<Rightarrow> ENILWorkerEncryptUserParams \<Rightarrow> 'j" where
  "encrypt_user_request J restore p =
     (let req = addItem J (mkObject J) ''workerRestoreState'' restore;
          req = add_str J ''privateKey'' (eu_private_key p) req;
          req = add_int J ''privateKeyId'' (eu_private_key_id p) req;
          req = add_str J ''peerMid'' (Some (case eu_peer_mid p of None \<Rightarrow> [] | Some m \<Rightarrow> m)) req;
          req = add_str J ''peerPublicKey'' (eu_peer_public_key p) req;
          req = add_int J ''peerKeyId'' (eu_peer_key_id p) req;
          req = add_str J ''to'' (eu_to_mid p) req;
          req = add_str J ''from'' (eu_from_mid p) req;
          req = add_int J ''senderKeyId'' (eu_sender_key_id p) req;
          req = add_int J ''receiverKeyId'' (eu_peer_key_id p) req;
          req = add_int J ''contentType'' (eu_content_type p) req;
          req = add_int J ''sequenceNumber'' (eu_sequence_number p) req
      in add_str J ''plaintext'' (eu_plaintext p) req)"

definition enil_worker_encrypt_user ::
  "'j net_env \<Rightarrow> 't \<Rightarrow> ENILWorkerEncryptUserParams option \<Rightarrow> ('t, 'h) net \<Rightarrow>
   ENILWorkerEncryptResult option \<times> ('t, 'h) net" where
  "enil_worker_encrypt_user E t p S =
     (case p of
        None \<Rightarrow> (None, S)
      | Some p \<Rightarrow>
          (case parse_restore_state (njson E) (eu_restore_state p) of
             None \<Rightarrow> (None, S)
           | Some restore \<Rightarrow>
               (case worker_call E t ''/e2ee/encrypt-user-v2'' (encrypt_user_request (njson E) restore p) S of
                  (resp, S1) \<Rightarrow> (Option.bind resp (extract_encrypt_result (njson E)), S1))))"

record 'j ENILWorkerEncryptGroupParams =
  eg_restore_state :: "string option"
  eg_group_mid :: "string option"
  eg_group_key :: "'j option"
  eg_my_private_key :: "string option"
  eg_my_private_key_id :: int
  eg_sender_mid :: "string option"
  eg_sender_key_id :: int
  eg_group_key_id :: int
  eg_creator_public_key :: "string option"
  eg_sender_public_key :: "string option"
  eg_from_mid :: "string option"
  eg_to_mid :: "string option"
  eg_content_type :: int
  eg_sequence_number :: int
  eg_plaintext :: "string option"

definition encrypt_group_request :: "'j cjson \<Rightarrow> 'j \<Rightarrow> 'j \<Rightarrow> 'j ENILWorkerEncryptGroupParams \<Rightarrow> 'j" where
  "encrypt_group_request J restore key p =
     (let req = addItem J (mkObject J) ''workerRestoreState'' restore;
          req = add_str J ''groupMid'' (eg_group_mid p) req;
          req = addItem J req ''groupKey'' key;
          req = add_str J ''myPrivateKey'' (eg_my_private_key p) req;
          req = add_int J ''myPrivateKeyId'' (eg_my_private_key_id p) req;
          req = add_str J ''senderMid'' (eg_sender_mid p) req;
          req = add_int J ''senderKeyId'' (eg_sender_key_id p) req;
          req = add_int J ''groupKeyId'' (eg_group_key_id p) req;
          req = add_str J ''creatorPublicKey'' (eg_creator_public_key p) req;
          req = add_str J ''senderPublicKey'' (eg_sender_public_key p) req;
          req = add_str J ''to'' (eg_to_mid p) req;
          req = add_str J ''from'' (eg_from_mid p) req;
          req = add_int J ''contentType'' (eg_content_type p) req;
          req = add_int J ''sequenceNumber'' (eg_sequence_number p) req
      in add_str J ''plaintext'' (eg_plaintext p) req)"

definition enil_worker_encrypt_group ::
  "'j net_env \<Rightarrow> 't \<Rightarrow> 'j ENILWorkerEncryptGroupParams option \<Rightarrow> ('t, 'h) net \<Rightarrow>
   ENILWorkerEncryptResult option \<times> ('t, 'h) net" where
  "enil_worker_encrypt_group E t p S =
     (case p of
        None \<Rightarrow> (None, S)
      | Some p \<Rightarrow>
          (case (eg_group_key p, parse_restore_state (njson E) (eg_restore_state p)) of
             (Some key, Some restore) \<Rightarrow>
               (case worker_call E t ''/e2ee/encrypt-group-v2'' (encrypt_group_request (njson E) restore key p) S of
                  (resp, S1) \<Rightarrow> (Option.bind resp (extract_encrypt_result (njson E)), S1))
           | _ \<Rightarrow> (None, S)))"

text \<open>The keys and the restore state of a new group.\<close>

definition enil_worker_create_group_key ::
  "'j net_env \<Rightarrow> 't \<Rightarrow> string option \<Rightarrow> string option \<Rightarrow> int \<Rightarrow> 'j option \<Rightarrow> ('t, 'h) net \<Rightarrow>
   (string \<times> 'j) option \<times> ('t, 'h) net" where
  "enil_worker_create_group_key E t restore_state my_private_key my_private_key_id members S =
     (case (my_private_key, members, parse_restore_state (njson E) restore_state) of
        (Some key, Some ms, Some restore) \<Rightarrow>
          (let J = njson E;
               req = addItem J (mkObject J) ''workerRestoreState'' restore;
               req = add_str J ''myPrivateKey'' (Some key) req;
               req = add_int J ''myPrivateKeyId'' my_private_key_id req;
               req = addItem J req ''members'' ms
           in case worker_call E t ''/e2ee/create-group-key'' req S of
                (None, S1) \<Rightarrow> (None, S1)
              | (Some resp, S1) \<Rightarrow>
                  (case (getItem J resp ''encryptedKeys'', worker_take_restore_state J resp) of
                     (Some keys, Some state) \<Rightarrow> if isArray J keys then (Some (state, keys), S1) else (None, S1)
                   | _ \<Rightarrow> (None, S1)))
      | _ \<Rightarrow> (None, S))"

record ENILWorkerKeygenResult =
  kg_key_id :: int
  kg_public_key :: string
  kg_restore_state :: string

definition enil_worker_keygen ::
  "'j net_env \<Rightarrow> 't \<Rightarrow> string option \<Rightarrow> ('t, 'h) net \<Rightarrow> ENILWorkerKeygenResult option \<times> ('t, 'h) net" where
  "enil_worker_keygen E t restore_state S =
     (case parse_restore_state (njson E) restore_state of
        None \<Rightarrow> (None, S)
      | Some restore \<Rightarrow>
          (let J = njson E
           in case worker_call E t ''/keygen'' (addItem J (mkObject J) ''workerRestoreState'' restore) S of
                (None, S1) \<Rightarrow> (None, S1)
              | (Some resp, S1) \<Rightarrow>
                  (case (enil_json_get_int J (Some resp) (Some ''keyId''), enil_json_dup_string J (Some resp) (Some ''publicKey''),
                     worker_take_restore_state J resp) of
                     (Some i, Some k, Some state) \<Rightarrow>
                       (Some \<lparr>kg_key_id = i, kg_public_key = k, kg_restore_state = state\<rparr>, S1)
                   | _ \<Rightarrow> (None, S1))))"

definition enil_worker_unwrap_keychain ::
  "'j net_env \<Rightarrow> 't \<Rightarrow> string option \<Rightarrow> int \<Rightarrow> string option \<Rightarrow> string option \<Rightarrow> ('t, 'h) net \<Rightarrow>
   ('j \<times> string) option \<times> ('t, 'h) net" where
  "enil_worker_unwrap_keychain E t restore_state qr_key_id peer_public_key encrypted_keychain S =
     (case (peer_public_key, encrypted_keychain, parse_restore_state (njson E) restore_state) of
        (Some pk, Some chain, Some restore) \<Rightarrow>
          (let J = njson E;
               req = addItem J (mkObject J) ''workerRestoreState'' restore;
               req = add_int J ''qrKeyId'' qr_key_id req;
               req = add_str J ''peerPublicKey'' (Some pk) req;
               req = add_str J ''encryptedKeyChain'' (Some chain) req
           in case worker_call E t ''/e2ee/unwrap-keychain'' req S of
                (None, S1) \<Rightarrow> (None, S1)
              | (Some resp, S1) \<Rightarrow>
                  (case (getItem J resp ''keys'', worker_take_restore_state J resp) of
                     (Some keys, Some state) \<Rightarrow> if isArray J keys then (Some (keys, state), S1) else (None, S1)
                   | _ \<Rightarrow> (None, S1)))
      | _ \<Rightarrow> (None, S))"

definition enil_worker_decrypt_ex ::
  "'j net_env \<Rightarrow> 't \<Rightarrow> string option \<Rightarrow> 'j option \<Rightarrow> cancel_flag \<Rightarrow> ('t, 'h) net \<Rightarrow> 'j option \<times> ('t, 'h) net" where
  "enil_worker_decrypt_ex E t path payload cancel S =
     (case (path, payload) of
        (Some p, Some j) \<Rightarrow>
          (case worker_post E t p (printText (njson E) j) cancel S of
             (None, S1) \<Rightarrow> (None, S1)
           | (Some resp, S1) \<Rightarrow> (parseText (njson E) resp, S1))
      | _ \<Rightarrow> (None, S))"

definition enil_worker_decrypt ::
  "'j net_env \<Rightarrow> 't \<Rightarrow> string option \<Rightarrow> 'j option \<Rightarrow> ('t, 'h) net \<Rightarrow> 'j option \<times> ('t, 'h) net" where
  "enil_worker_decrypt E t path payload S = enil_worker_decrypt_ex E t path payload None S"

definition sign_request :: "'j cjson \<Rightarrow> string \<Rightarrow> string \<Rightarrow> string \<Rightarrow> 'j" where
  "sign_request J path txt access_token =
     (let req = addItem J (mkObject J) ''path'' (mkString J path);
          req = addItem J req ''body'' (mkString J txt)
      in addItem J req ''accessToken'' (mkString J access_token))"

definition enil_worker_sign ::
  "'j net_env \<Rightarrow> 't \<Rightarrow> string option \<Rightarrow> string option \<Rightarrow> string option \<Rightarrow> ('t, 'h) net \<Rightarrow> string option \<times> ('t, 'h) net" where
  "enil_worker_sign E t path txt access_token S =
     (case (path, txt, access_token) of
        (Some p, Some b, Some a) \<Rightarrow>
          (case worker_call E t ''/sign'' (sign_request (njson E) p b a) S of
             (None, S1) \<Rightarrow> (None, S1)
           | (Some resp, S1) \<Rightarrow> (enil_json_dup_string (njson E) (Some resp) (Some ''hmac''), S1))
      | _ \<Rightarrow> (None, S))"

section \<open>Properties\<close>

lemma fail_gate_wire [simp]: "wire (fail_gate t src S) = wire S"
  by (simp add: fail_gate_def)

lemma worker_fail_gate [simp]: "worker_failed (gates (fail_gate t ENIL_ERR_WORKER S))"
  by (simp add: fail_gate_def enil_health_set_failure_def worker_set_failure_def post_def)

lemma worker_is_failed [simp]: "enil_health_is_failed G t ENIL_ERR_WORKER = worker_failed G"
  by (simp add: enil_health_is_failed_def)

text \<open>The outcomes of a request that was sent.\<close>

definition worker_fault :: "curl_result \<Rightarrow> bool" where
  "worker_fault r \<longleftrightarrow> rc r \<noteq> CURLE_OK \<or> http_status r < 200 \<or> 300 \<le> http_status r"

definition worker_outcome :: "'j net_env \<Rightarrow> 't \<Rightarrow> cancel_flag \<Rightarrow> ('t, 'h) net \<Rightarrow> string option \<times> ('t, 'h) net" where
  "worker_outcome E t cancel S1 =
     (if raised cancel S1 then (None, S1)
      else if worker_fault (answer E (wire S1)) then (None, fail_gate t ENIL_ERR_WORKER S1)
      else (buffered (answer E (wire S1)), S1))"

lemma worker_post_cases:
  obtains "worker_post E t path txt cancel S = (None, S)"
  | c where "worker_post E t path txt cancel S = worker_outcome E t cancel (S\<lparr>wire := wire S @ [c]\<rparr>)"
      "\<not> worker_failed (gates S)" "opt_post c = Some txt" "\<exists>url. g_worker_url S = Some url \<and> opt_url c = url @ path"
proof (cases "raised cancel S \<or> worker_failed (gates S)")
  case True
  then have "worker_post E t path txt cancel S = (None, S)" by (cases "raised cancel S") (simp_all add: worker_post_def)
  then show ?thesis by (rule that(1))
next
  case False
  show ?thesis
  proof (cases "worker_credentials_copy S path")
    case None
    with False show ?thesis using that(1) by (simp add: worker_post_def)
  next
    case (Some p)
    obtain url secret where p: "p = (url, secret)" by force
    show ?thesis
    proof (cases "enil_curl_new (s_cainfo E) (curl_init E (wire S))")
      case None
      with False Some p show ?thesis using that(1) by (simp add: worker_post_def)
    next
      case (Some c)
      define h where "h = worker_handle c url secret txt (cancel \<noteq> None)"
      have "opt_post h = Some txt" "\<exists>url. g_worker_url S = Some url \<and> opt_url h = url @ path"
        using \<open>worker_credentials_copy S path = Some p\<close> p
        by (auto simp: h_def worker_handle_def worker_credentials_copy_def split: option.splits)
      moreover have "worker_post E t path txt cancel S = worker_outcome E t cancel (S\<lparr>wire := wire S @ [h]\<rparr>)"
        using False Some \<open>worker_credentials_copy S path = Some p\<close> p
        by (simp add: worker_post_def transfer_def Let_def worker_outcome_def worker_fault_def h_def)
      ultimately show ?thesis using that(2) False by blast
    qed
  qed
qed

lemma raised_fail_gate [simp]: "raised cancel (fail_gate t src S) = raised cancel S"
  by (simp add: raised_def split: option.splits)

lemma worker_outcome_wire: "worker_outcome E t cancel S1 = (x, S') \<Longrightarrow> wire S' = wire S1"
  by (auto simp: worker_outcome_def split: if_splits)

text \<open>A worker request makes at most one transfer.\<close>

lemma worker_post_wire:
  assumes "worker_post E t path txt cancel S = (x, S')"
  shows "(wire S' = wire S \<and> x = None \<and> S' = S) \<or> (\<exists>c. wire S' = wire S @ [c])"
proof (cases rule: worker_post_cases [of E t path "txt" cancel S])
  case (2 c)
  then have "worker_outcome E t cancel (S\<lparr>wire := wire S @ [c]\<rparr>) = (x, S')" using assms by simp
  from worker_outcome_wire [OF this] show ?thesis by auto
qed (use assms in simp)

lemma worker_call_wire:
  "worker_call E t path req S = (x, S') \<Longrightarrow> (wire S' = wire S \<and> x = None \<and> S' = S) \<or> (\<exists>c. wire S' = wire S @ [c])"
  by (auto simp: worker_call_def split: prod.splits option.splits dest!: worker_post_wire)

lemma decrypt_ex_wire:
  "enil_worker_decrypt_ex E t path payload cancel S = (x, S') \<Longrightarrow>
     (wire S' = wire S \<and> x = None \<and> S' = S) \<or> (\<exists>c. wire S' = wire S @ [c])"
  by (auto simp: enil_worker_decrypt_ex_def split: prod.splits option.splits dest!: worker_post_wire)

lemma worker_post_closed: "worker_failed (gates S) \<Longrightarrow> worker_post E t path txt cancel S = (None, S)"
  by (simp add: worker_post_def)

lemma worker_post_sent:
  assumes "worker_post E t path txt cancel S = (x, S')" and "wire S' \<noteq> wire S"
  shows "if raised cancel S' then x = None \<and> gates S' = gates S
    else if worker_fault (answer E (wire S')) then x = None \<and> worker_failed (gates S')
    else x = buffered (answer E (wire S')) \<and> gates S' = gates S"
proof (cases rule: worker_post_cases [of E t path "txt" cancel S])
  case (2 c)
  then have "worker_outcome E t cancel (S\<lparr>wire := wire S @ [c]\<rparr>) = (x, S')" using assms by simp
  then show ?thesis by (auto simp: worker_outcome_def split: if_splits)
qed (use assms in simp)

lemma worker_post_some:
  assumes "worker_post E t path txt cancel S = (Some resp, S')"
  shows "\<exists>c. wire S' = wire S @ [c] \<and> opt_post c = Some txt \<and> buffered (answer E (wire S')) = Some resp \<and>
    gates S' = gates S \<and> \<not> worker_failed (gates S)"
proof (cases rule: worker_post_cases [of E t path "txt" cancel S])
  case (2 c)
  then have "worker_outcome E t cancel (S\<lparr>wire := wire S @ [c]\<rparr>) = (Some resp, S')" using assms by simp
  then show ?thesis using 2(2,3) by (auto simp: worker_outcome_def split: if_splits)
qed (use assms in simp)

lemma worker_sign_some:
  assumes "enil_worker_sign E t (Some p) (Some b) (Some a) S = (Some h, S')"
  shows "\<exists>w resp j. wire S' = wire S @ [w] \<and> opt_post w = Some (printText (njson E) (sign_request (njson E) p b a)) \<and>
    buffered (answer E (wire S')) = Some resp \<and> parseText (njson E) resp = Some j \<and>
    enil_json_dup_string (njson E) (Some j) (Some ''hmac'') = Some h \<and> gates S' = gates S \<and> \<not> worker_failed (gates S)"
  using assms
  by (auto simp: enil_worker_sign_def worker_call_def split: prod.splits option.splits dest!: worker_post_some)

lemma worker_sign_wire:
  "enil_worker_sign E t p b a S = (None, S') \<Longrightarrow> wire S' = wire S \<or> (\<exists>c. wire S' = wire S @ [c])"
  by (auto simp: enil_worker_sign_def split: prod.splits option.splits dest!: worker_call_wire)

text \<open>The worker gate is sticky and complete.  While the gate is closed no request is sent and none
  succeeds.  A request that was sent (and not cancelled meanwhile) either completed with a 2xx status, in
  which case its body is returned and the gate is left alone, or returns nothing and closes the gate, so
  the next request, whatever it is, is not sent; a cancelled one returns nothing and leaves the gate alone.\<close>

theorem worker_gate_sticky:
  assumes "worker_post E t path txt cancel S = (x, S')"
  shows "(worker_failed (gates S) \<longrightarrow> x = None \<and> S' = S) \<and>
    (wire S' \<noteq> wire S \<longrightarrow>
       (if raised cancel S' then x = None \<and> gates S' = gates S
        else if worker_fault (answer E (wire S')) then
          x = None \<and> (\<forall>u path2 txt2 cancel2. worker_post E u path2 txt2 cancel2 S' = (None, S'))
        else x = buffered (answer E (wire S')) \<and> gates S' = gates S))"
proof (intro conjI impI)
  assume "worker_failed (gates S)"
  with assms show "x = None" "S' = S" by (simp_all add: worker_post_closed)
next
  assume "wire S' \<noteq> wire S"
  from worker_post_sent [OF assms this]
  show "if raised cancel S' then x = None \<and> gates S' = gates S
        else if worker_fault (answer E (wire S')) then
          x = None \<and> (\<forall>u path2 txt2 cancel2. worker_post E u path2 txt2 cancel2 S' = (None, S'))
        else x = buffered (answer E (wire S')) \<and> gates S' = gates S"
    by (auto simp: worker_post_closed split: if_splits)
qed

definition demo_net :: "(nat, nat) net" where
  "demo_net = \<lparr>gates = \<lparr>worker_failed = False, objects = (\<lambda>_. None), bound = (\<lambda>_. None), posts = []\<rparr>,
     g_worker_url = Some ''https://w'', g_worker_secret = Some ''s'', wire = []\<rparr>"

definition demo_net_env :: "(curl_handle list \<Rightarrow> int \<times> string) \<Rightarrow> json net_env" where
  "demo_net_env reply = \<lparr>njson = tree (\<lambda>t. Some (JObj [(''hmac'', JStr t)])) (\<lambda>_. ''{}''),
     answer = (\<lambda>w. \<lparr>rc = CURLE_OK, http_status = fst (reply w), received = snd (reply w), uploaded = 0, pretransfer_ready = True\<rparr>),
     curl_init = (\<lambda>_. True), s_cainfo = None, language_headers = []\<rparr>"

theorem worker_gate_sticky_witness:
  "let S' = snd (worker_post (demo_net_env (\<lambda>_. (503, []))) 0 ''/sign'' ''{}'' None demo_net)
   in wire S' \<noteq> [] \<and> worker_post (demo_net_env (\<lambda>_. (200, ''ok''))) 1 ''/keygen'' ''{}'' None demo_net \<noteq> (None, demo_net) \<and>
      worker_post (demo_net_env (\<lambda>_. (503, []))) 1 ''/keygen'' ''{}'' None S' = (None, S')"
proof -
  let ?E = "demo_net_env (\<lambda>_. (503, []))"
  obtain x S' where p: "worker_post ?E 0 ''/sign'' ''{}'' None demo_net = (x, S')" by force
  then have w: "wire S' \<noteq> wire demo_net" and f: "worker_fault (answer ?E (wire S'))" "\<not> raised None S'"
    by (auto simp: worker_post_def demo_net_def demo_net_env_def raised_def worker_credentials_copy_def
        enil_curl_new_def enil_curl_new_raw_def transfer_def Let_def worker_fault_def)
  then have "worker_post ?E 1 ''/keygen'' ''{}'' None S' = (None, S')"
    using worker_gate_sticky [OF p] by simp
  moreover have "fst (worker_post (demo_net_env (\<lambda>_. (200, ''ok''))) 1 ''/keygen'' ''{}'' None demo_net) = Some ''ok''"
    by (simp add: worker_post_def demo_net_def demo_net_env_def raised_def worker_credentials_copy_def
        enil_curl_new_def enil_curl_new_raw_def transfer_def Let_def buffered_def)
  ultimately show ?thesis using p w by (auto simp: demo_net_def Let_def)
qed

end
