(* ===== verification/ENIL_Transport.thy ===== *)
theory ENIL_Transport
  imports ENIL_Worker ENIL_Thrift ENIL_Base64
begin

text \<open>
  How a LINE request leaves the program: the routing of \<open>enil_line_post_ex\<close> (\<open>enil_line.c\<close>), the signed
  Chrome gateway (\<open>enil_chrome_gateway.c\<close>) and the native Thrift transport (\<open>enil_native.c\<close>), over the
  network state of the worker client.  The session's answers during a native request are a record.
\<close>

section \<open>Languages\<close>

text \<open>\<open>True\<close> is Japanese, the other language is English.\<close>

definition enil_line_set_language :: "string option \<Rightarrow> bool \<Rightarrow> bool" where
  "enil_line_set_language language ja =
     (case language of None \<Rightarrow> ja | Some l \<Rightarrow> if cstr l = [] then ja else cstr l = ''ja'')"

definition enil_line_language :: "bool \<Rightarrow> string" where
  "enil_line_language ja = (if ja then ''ja'' else ''en'')"

definition enil_line_language_headers :: "bool \<Rightarrow> string list" where
  "enil_line_language_headers ja =
     [if ja then ''Accept-Language: ja-JP'' else ''Accept-Language: en-US'',
      if ja then ''X-LAL: ja_JP'' else ''X-LAL: en_US'']"

section \<open>Chrome gateway\<close>

definition make_header :: "string \<Rightarrow> string \<Rightarrow> string" where
  "make_header name val = name @ '': '' @ val"

definition cancel_xferinfo :: "cancel_flag \<Rightarrow> ('t, 'h) net \<Rightarrow> bool" where
  "cancel_xferinfo clientp S = (case clientp of None \<Rightarrow> False | Some f \<Rightarrow> f (wire S))"

definition gateway_origin :: string where "gateway_origin = ''https://line-chrome-gw.line-apps.com''"
definition extension_origin :: string where
  "extension_origin = ''chrome-extension://ophjlpahpchlmihnnnihgmmeilfjmjjc''"

definition no_response :: ENILLineResponse where
  "no_response = \<lparr>status = 0, body = None\<rparr>"

definition gateway_handle ::
  "curl_handle \<Rightarrow> string list \<Rightarrow> enil_identity_t \<Rightarrow> string \<Rightarrow> string \<Rightarrow> string \<Rightarrow> string \<Rightarrow> string list \<Rightarrow> int \<Rightarrow> bool \<Rightarrow>
   curl_handle" where
  "gateway_handle c languages idn path txt access_token hmac extra timeout_ms cancellable =
     c\<lparr>opt_url := take 511 (gateway_origin @ path), opt_user_agent := Some (user_agent idn), opt_post := Some txt,
       opt_headers :=
         [''Accept: application/json, text/plain, */*''] @ languages @
         [''Content-Type: application/json'',
          take 63 (''X-Line-Chrome-Version: '' @ gateway_version idn),
          take 191 (''X-Line-Application: '' @ application idn),
          ''Origin: '' @ extension_origin, make_header ''X-Hmac'' hmac] @
         (if access_token \<noteq> [] then [make_header ''X-Line-Access'' access_token, ''Cookie: lct='' @ access_token] else []) @
         extra,
       opt_timeout_ms := (if 0 < timeout_ms then nat timeout_ms else opt_timeout_ms c),
       opt_cancellable := cancellable\<rparr>"

definition key_lookup_path :: string where
  "key_lookup_path = ''/api/talk/thrift/Talk/TalkService/getE2EEPublicKey''"

definition gateway_outcome ::
  "'t \<Rightarrow> string \<Rightarrow> curl_result \<Rightarrow> ('t, 'h) net \<Rightarrow> ENILLineResponse \<times> ('t, 'h) net" where
  "gateway_outcome t path r S =
     (if rc r = CURLE_ABORTED_BY_CALLBACK then (no_response, S)
      else if rc r \<noteq> CURLE_OK then (no_response, fail_gate t ENIL_ERR_LINE S)
      else
        (let st = http_status r; empty = \<lparr>status = st, body = None\<rparr>
         in if st = 401 \<or> st = 403 then (empty, fail_gate t ENIL_ERR_LINE S)
            else if 500 \<le> st \<and> st < 600 then (empty, fail_gate t ENIL_ERR_LINE S)
            else if st = 400 \<and> path = key_lookup_path then (empty, S)
            else if st \<noteq> 0 \<and> (st < 200 \<or> 300 \<le> st) then (empty, fail_gate t ENIL_ERR_LINE S)
            else (\<lparr>status = st, body = buffered r\<rparr>, S)))"

definition enil_chrome_gateway_post ::
  "'j net_env \<Rightarrow> 't \<Rightarrow> enil_identity_t \<Rightarrow> string \<Rightarrow> string \<Rightarrow> string \<Rightarrow> string list \<Rightarrow> int \<Rightarrow> cancel_flag \<Rightarrow>
   ('t, 'h) net \<Rightarrow> ENILLineResponse \<times> ('t, 'h) net" where
  "enil_chrome_gateway_post E t idn path txt access_token extra timeout_ms cancel S =
     (case enil_worker_sign E t (Some path) (Some txt) (Some access_token) S of
        (None, S1) \<Rightarrow> (no_response, S1)
      | (Some hmac, S1) \<Rightarrow>
          (case enil_curl_new (s_cainfo E) (curl_init E (wire S1)) of
             None \<Rightarrow> (no_response, S1)
           | Some c \<Rightarrow>
               (case transfer E (gateway_handle c (language_headers E) idn path txt access_token hmac extra
                       timeout_ms (cancel \<noteq> None)) S1 of
                  (r, S2) \<Rightarrow> gateway_outcome t path r S2)))"

section \<open>Native transport\<close>

text \<open>
  The session while a request runs, after the transfers made so far: \<open>enil_session_bound_access_token\<close>
  (whether its login is still the bound one, and the token if one is bound) and
  \<open>enil_session_accept_next_access\<close>.
\<close>

record session_link =
  bound_token :: "curl_handle list \<Rightarrow> bool \<times> string option"
  accept_next :: "curl_handle list \<Rightarrow> string \<Rightarrow> string \<Rightarrow> bool"

definition current_login :: "session_link \<Rightarrow> ('t, 'h) net \<Rightarrow> bool" where
  "current_login L S = fst (bound_token L (wire S))"

definition json_field :: "'j cjson \<Rightarrow> 'j option \<Rightarrow> string \<Rightarrow> string option" where
  "json_field J o' key = jstr J (jget J o' key)"

definition append_header :: "string list \<Rightarrow> string \<Rightarrow> string option \<Rightarrow> string list" where
  "append_header hs name val = (case val of None \<Rightarrow> hs | Some v \<Rightarrow> hs @ [name @ '': '' @ v])"

definition cancel_request :: "cancel_flag \<Rightarrow> ('t, 'h) net \<Rightarrow> bool" where
  "cancel_request p S = (case p of None \<Rightarrow> False | Some f \<Rightarrow> f (wire S))"

definition idle_poll_timeout :: "curl_result \<Rightarrow> nat \<Rightarrow> bool" where
  "idle_poll_timeout r request_size \<longleftrightarrow>
     received r = [] \<and> (http_status r = 0 \<or> http_status r = 200) \<and> pretransfer_ready r \<and> uploaded r = request_size"

text \<open>Lines 84 to 129: the method, its arguments, the endpoint, whether LEGY encrypts it, and \<open>contacts\<close>.\<close>

record 'j native_call =
  nc_method :: string
  nc_args :: 'j
  nc_endpoint :: string
  nc_encrypted :: bool
  nc_contacts :: bool

definition native_route :: "'j thrift \<Rightarrow> string \<Rightarrow> 'j \<Rightarrow> 'j native_call option" where
  "native_route T path args =
     (case split_last (CHR ''/'') path of
        None \<Rightarrow> None
      | Some (dir, method) \<Rightarrow>
          (let J = lib T;
               call = \<lparr>nc_method = method, nc_args = args, nc_endpoint = ''/S4'', nc_encrypted = True, nc_contacts = False\<rparr>;
               routed =
                 (if path = ''/api/auth/tokenRefresh'' then
                    Some (call\<lparr>nc_args := addElem J (mkArray J) args, nc_method := ''refresh'',
                      nc_endpoint := ''/EXT/auth/tokenrefresh/v1'', nc_encrypted := False\<rparr>)
                  else if path = ''/native/sync'' then Some (call\<lparr>nc_endpoint := ''/SYNC4''\<rparr>)
                  else if has_prefix path ''/api/shop/thrift/ShopService/ShopService/'' then
                    Some (call\<lparr>nc_endpoint := ''/TSHOP4'', nc_encrypted := False\<rparr>)
                  else if \<not> has_prefix path ''/api/talk/thrift/Talk/TalkService/'' then None
                  else Some call)
           in case routed of
                None \<Rightarrow> None
              | Some c \<Rightarrow>
                  if nc_method c = ''getContactsV2'' then
                    (case jget J (array_item T (Some (nc_args c)) 0) ''targetUserMids'' of
                       None \<Rightarrow> None
                     | Some mids \<Rightarrow>
                         if \<not> isArray J mids then None
                         else Some (c\<lparr>nc_args := addElem J (mkArray J) mids, nc_method := ''getContacts'', nc_contacts := True\<rparr>))
                  else if nc_method c = ''sendChatRemoved'' then
                    (if \<not> isArray J (nc_args c) \<or> length (children J (nc_args c)) \<noteq> 4 then None
                     else Some (c\<lparr>nc_args := foldl (addElem J) (mkArray J) (take 3 (map snd (children J (nc_args c))))\<rparr>))
                  else Some c))"

definition native_handle ::
  "curl_handle \<Rightarrow> string \<Rightarrow> enil_identity_t \<Rightarrow> string list \<Rightarrow> string \<Rightarrow> int \<Rightarrow> bool \<Rightarrow> curl_handle" where
  "native_handle c url idn headers request timeout_ms cancellable =
     c\<lparr>opt_url := url, opt_user_agent := Some (user_agent idn), opt_headers := headers, opt_post := Some request,
       opt_connect_timeout := 15, opt_timeout_ms := (if 0 < timeout_ms then nat timeout_ms else 60000),
       opt_nosignal := True, opt_cancellable := cancellable\<rparr>"

text \<open>Lines 134 to 171: the bytes to send, the URL, the headers and (when encrypted) the reply key.\<close>

definition native_prepare ::
  "'j net_env \<Rightarrow> 'j thrift \<Rightarrow> 't \<Rightarrow> enil_identity_t \<Rightarrow> 'j native_call \<Rightarrow> byte list \<Rightarrow> string \<Rightarrow> cancel_flag \<Rightarrow>
   ('t, 'h) net \<Rightarrow> (string \<times> string \<times> string list \<times> string) option \<times> ('t, 'h) net" where
  "native_prepare E T t idn call request token cancel S =
     (let J = lib T;
          common = (\<lambda>hs. append_header (append_header (append_header hs
              ''Content-Type'' (Some ''application/x-thrift'')) ''Accept'' (Some ''application/x-thrift''))
              ''X-Line-Application'' (Some (application idn)) @ language_headers E)
      in if nc_encrypted call then
           (let payload = addItem J (mkObject J) ''path'' (mkString J (nc_endpoint call));
                payload = addItem J payload ''body'' (mkString J (enil_b64_encode (evp_encode T) request));
                payload = addItem J payload ''accessToken'' (mkString J token)
            in case enil_worker_decrypt_ex E t (Some ''/transport/legy/encode'') (Some payload) cancel S of
                 (encoded, S1) \<Rightarrow>
                   (case (json_field J encoded ''body'', json_field J encoded ''key'', json_field J encoded ''xLcs'') of
                      (Some b, Some key, Some lcs) \<Rightarrow>
                        if raised cancel S1 then (None, S1)
                        else
                          (case enil_b64_decode_alloc (evp_decode T) (Some b) of
                             None \<Rightarrow> (None, S1)
                           | Some w \<Rightarrow>
                               (Some (string_of w, ''https://gf.line.naver.jp/enc'',
                                  common [''X-LE: 7'', ''X-LAP: 5'', ''X-LPV: 1'', ''X-LCS: '' @ lcs, ''X-LHM: POST''], key), S1))
                    | _ \<Rightarrow> (None, S1)))
         else
           (Some (string_of request,
              (if nc_method call = ''refresh'' then ''https://legy.line-apps.com/EXT/auth/tokenrefresh/v1''
               else ''https://legy.line-apps.com/TSHOP4''),
              common (if token \<noteq> [] then [''X-Line-Access: '' @ token] else []), []), S))"

text \<open>Lines 206 to 239: the plain reply, or the status and state where the request ends.\<close>

definition native_unwrap ::
  "'j net_env \<Rightarrow> 'j thrift \<Rightarrow> 't \<Rightarrow> session_link \<Rightarrow> 'j native_call \<Rightarrow> string \<Rightarrow> string \<Rightarrow> curl_result \<Rightarrow> cancel_flag \<Rightarrow>
   ('t, 'h) net \<Rightarrow> (int + byte list option) \<times> ('t, 'h) net" where
  "native_unwrap E T t L call token key r cancel S =
     (let J = lib T
      in if \<not> nc_encrypted call then (Inr (map_option bytes_of (buffered r)), S)
         else
           (let payload = addItem J (mkObject J) ''key'' (mkString J key);
                payload = addItem J payload ''body'' (mkString J (enil_b64_encode (evp_encode T) (bytes_of (received r))))
            in case enil_worker_decrypt_ex E t (Some ''/transport/legy/decode'') (Some payload) cancel S of
                 (decoded, S1) \<Rightarrow>
                   (case json_field J decoded ''body'' of
                      None \<Rightarrow> (Inl 200, S1)
                    | Some b \<Rightarrow>
                        (let st = jget J decoded ''status'' in
                         if jis (isNumber J) st \<and> json_int T st \<noteq> 200 then (Inl (json_int T st), S1)
                         else if \<not> current_login L S1 then (Inl 200, S1)
                         else
                           (case json_field J (jget J decoded ''headers'') ''x-line-next-access'' of
                              Some nxt \<Rightarrow>
                                if \<not> accept_next L (wire S1) token nxt then (Inl 200, fail_gate t ENIL_ERR_LINE S1)
                                else (case enil_b64_decode_alloc (evp_decode T) (Some b) of
                                        None \<Rightarrow> (Inl 200, S1) | Some w \<Rightarrow> (Inr (Some w), S1))
                            | None \<Rightarrow>
                                (case enil_b64_decode_alloc (evp_decode T) (Some b) of
                                   None \<Rightarrow> (Inl 200, S1) | Some w \<Rightarrow> (Inr (Some w), S1)))))))"

text \<open>Lines 266 to 280: a list of contacts as a map from their identifiers.\<close>

definition wrap_contacts :: "'j cjson \<Rightarrow> 'j \<Rightarrow> 'j" where
  "wrap_contacts J data =
     addItem J (mkObject J) ''contacts''
       (foldl (\<lambda>m item. case json_field J (Some item) ''mid'' of
            None \<Rightarrow> m
          | Some mid \<Rightarrow> addItem J m mid (addItem J (mkObject J) ''contact'' item))
        (mkObject J) (map snd (children J data)))"

text \<open>Lines 243 to 284: the reply as the gateway would have sent it.\<close>

definition native_reply ::
  "'j thrift \<Rightarrow> 't \<Rightarrow> 'j native_call \<Rightarrow> byte list option \<Rightarrow> ('t, 'h) net \<Rightarrow> ENILLineResponse \<times> ('t, 'h) net" where
  "native_reply T t call plain S =
     (let J = lib T; none = \<lparr>status = 200, body = None\<rparr>
      in case enil_thrift_decode T (nc_method call) plain of
           None \<Rightarrow> (none, S)
         | Some reply \<Rightarrow>
             (case jget J (Some reply) ''e'' of
                Some e \<Rightarrow>
                  (let code = jget J (Some e) ''code''
                   in (\<lparr>status = 400, body = Some (printText J e)\<rparr>,
                       if jis (isNumber J) code \<and> json_int T code \<in> {1, 14, 117} then fail_gate t ENIL_ERR_LINE S else S))
              | None \<Rightarrow>
                  (case (case jget J (Some reply) ''success'' of
                           Some d \<Rightarrow> Some d
                         | None \<Rightarrow> if nc_method call \<noteq> ''sendChatChecked'' \<and> nc_method call \<noteq> ''sendChatRemoved'' then None
                                   else Some (mkObject J)) of
                     None \<Rightarrow> (none, S)
                   | Some d \<Rightarrow>
                       (let d = (if nc_contacts call then wrap_contacts J d else d);
                            envelope = addItem J (addItem J (mkObject J) ''message'' (mkString J ''OK'')) ''data'' d
                        in (\<lparr>status = 200, body = Some (printText J envelope)\<rparr>, S)))))"

definition native_done :: "'t \<Rightarrow> ENILLineResponse \<times> ('t, 'h) net \<Rightarrow> ENILLineResponse \<times> ('t, 'h) net" where
  "native_done t = (\<lambda>(out, S). (out, if status out = 401 \<or> status out = 403 then fail_gate t ENIL_ERR_LINE S else S))"

definition enil_native_post ::
  "'j net_env \<Rightarrow> 'j thrift \<Rightarrow> 't \<Rightarrow> session_link \<Rightarrow> enil_identity_t option \<Rightarrow> string option \<Rightarrow> string option \<Rightarrow>
   string option \<Rightarrow> int \<Rightarrow> cancel_flag \<Rightarrow> ('t, 'h) net \<Rightarrow> ENILLineResponse \<times> ('t, 'h) net" where
  "enil_native_post E T t L idn path txt token timeout_ms cancel S =
     (case (idn, path, txt, token) of
        (Some idn, Some path, Some txt, Some token0) \<Rightarrow>
          if transport idn \<noteq> ''native-thrift'' \<or> raised cancel S then (no_response, S)
          else if \<not> current_login L S then (no_response, S)
          else
            (let token = (case snd (bound_token L (wire S)) of None \<Rightarrow> token0 | Some b \<Rightarrow> b)
             in case Option.bind (parseText (lib T) txt) (native_route T path) of
                  None \<Rightarrow> (no_response, S)
                | Some call \<Rightarrow>
                    (case enil_thrift_encode T (nc_method call) (nc_args call) [] of
                       None \<Rightarrow> (no_response, S)
                     | Some request \<Rightarrow>
                         (case native_prepare E T t idn call request token cancel S of
                            (None, S1) \<Rightarrow> (no_response, S1)
                          | (Some (bytes, url, headers, key), S1) \<Rightarrow>
                              (case enil_curl_new (s_cainfo E) (curl_init E (wire S1)) of
                                 None \<Rightarrow> (no_response, S1)
                               | Some c \<Rightarrow>
                                   if \<not> current_login L S1 then (no_response, S1)
                                   else
                                     (case transfer E (native_handle c url idn headers bytes timeout_ms (cancel \<noteq> None)) S1 of
                                        (r, S2) \<Rightarrow>
                                          if rc r \<noteq> CURLE_OK then
                                            native_done t (\<lparr>status = (if rc r = CURLE_OPERATION_TIMEDOUT \<and> nc_method call = ''sync'' \<and>
                                              idle_poll_timeout r (length bytes) then 204 else http_status r), body = None\<rparr>, S2)
                                          else if http_status r \<noteq> 200 then
                                            native_done t (\<lparr>status = http_status r, body = None\<rparr>, S2)
                                          else
                                            (case native_unwrap E T t L call token key r cancel S2 of
                                               (Inl st, S3) \<Rightarrow> native_done t (\<lparr>status = st, body = None\<rparr>, S3)
                                             | (Inr plain, S3) \<Rightarrow>
                                                 if nc_method call \<noteq> ''refresh'' \<and> \<not> current_login L S3
                                                 then native_done t (\<lparr>status = 200, body = None\<rparr>, S3)
                                                 else native_done t (native_reply T t call plain S3)))))))
      | _ \<Rightarrow> (no_response, S))"

section \<open>Routing\<close>

definition enil_line_post_ex ::
  "'j net_env \<Rightarrow> 'j thrift \<Rightarrow> 't \<Rightarrow> session_link \<Rightarrow> enil_identity_t option \<Rightarrow> string option \<Rightarrow> string option \<Rightarrow>
   string option \<Rightarrow> string list \<Rightarrow> int \<Rightarrow> cancel_flag \<Rightarrow> ('t, 'h) net \<Rightarrow> ENILLineResponse \<times> ('t, 'h) net" where
  "enil_line_post_ex E T t L idn path txt access_token extra timeout_ms cancel S =
     (case (idn, path, txt, access_token) of
        (Some i, Some p, Some b, Some a) \<Rightarrow>
          if enil_health_is_failed (gates S) t ENIL_ERR_LINE then (no_response, S)
          else if transport i = ''native-thrift'' then enil_native_post E T t L idn path txt access_token timeout_ms cancel S
          else if transport i = ''chrome-gateway'' then enil_chrome_gateway_post E t i p b a extra timeout_ms cancel S
          else (no_response, S)
      | _ \<Rightarrow> (no_response, S))"

definition enil_line_post ::
  "'j net_env \<Rightarrow> 'j thrift \<Rightarrow> 't \<Rightarrow> session_link \<Rightarrow> enil_identity_t option \<Rightarrow> string option \<Rightarrow> string option \<Rightarrow>
   string option \<Rightarrow> ('t, 'h) net \<Rightarrow> ENILLineResponse \<times> ('t, 'h) net" where
  "enil_line_post E T t L idn path txt access_token S =
     enil_line_post_ex E T t L idn path txt access_token [] 0 None S"

definition enil_line_response_free :: "ENILLineResponse \<Rightarrow> ENILLineResponse" where
  "enil_line_response_free r = \<lparr>status = 0, body = None\<rparr>"

section \<open>Properties\<close>

text \<open>When an outcome counts against the account: not an abort, not 2xx, not the one tolerated 400.\<close>

definition line_fault :: "string \<Rightarrow> curl_result \<Rightarrow> bool" where
  "line_fault path r \<longleftrightarrow>
     (if rc r = CURLE_OK then
        http_status r \<noteq> 0 \<and> (http_status r < 200 \<or> 300 \<le> http_status r) \<and>
        \<not> (http_status r = 400 \<and> path = key_lookup_path)
      else rc r \<noteq> CURLE_ABORTED_BY_CALLBACK)"

lemma gateway_outcome_judged:
  "gateway_outcome t path r S =
    (\<lparr>status = (if rc r = CURLE_OK then http_status r else 0),
      body = (if rc r = CURLE_OK \<and> (http_status r = 0 \<or> 200 \<le> http_status r \<and> http_status r < 300) then buffered r else None)\<rparr>,
     if line_fault path r then fail_gate t ENIL_ERR_LINE S else S)"
  by (auto simp: gateway_outcome_def line_fault_def no_response_def Let_def)

text \<open>The request for a signature: to the worker in use, with its secret, for this path, body and token.\<close>

definition asks_signature ::
  "'j net_env \<Rightarrow> ('t, 'h) net \<Rightarrow> string \<Rightarrow> string \<Rightarrow> string \<Rightarrow> curl_handle \<Rightarrow> bool" where
  "asks_signature E S path txt token w \<longleftrightarrow>
     (\<exists>url secret. g_worker_url S = Some url \<and> g_worker_secret S = Some secret \<and> opt_url w = url @ ''/sign'' \<and>
        ''X-Worker-Secret: '' @ secret \<in> set (opt_headers w) \<and>
        opt_post w = Some (printText (njson E) (sign_request (njson E) path txt token)))"

lemma worker_post_request:
  assumes "worker_post E t path txt cancel S = (x, S')"
  shows "wire S' = wire S \<or>
    (\<exists>w url secret. wire S' = wire S @ [w] \<and> g_worker_url S = Some url \<and> g_worker_secret S = Some secret \<and> opt_url w = url @ path \<and>
       ''X-Worker-Secret: '' @ secret \<in> set (opt_headers w) \<and> opt_post w = Some txt)"
  using assms
  by (auto simp: worker_post_def worker_credentials_copy_def transfer_def worker_handle_def Let_def fail_gate_def
      split: if_splits option.splits)

lemma sign_request_sent:
  assumes "enil_worker_sign E t (Some path) (Some txt) (Some token) S = (sig, S')"
  shows "wire S' = wire S \<or> (\<exists>w. wire S' = wire S @ [w] \<and> asks_signature E S path txt token w)"
proof -
  obtain x S1 where post: "worker_post E t ''/sign'' (printText (njson E) (sign_request (njson E) path txt token)) None S = (x, S1)" by fastforce
  then have "S' = S1" using assms by (auto simp: enil_worker_sign_def worker_call_def split: option.splits)
  then show ?thesis using worker_post_request [OF post] unfolding asks_signature_def by metis
qed

text \<open>C40: A Chrome request reaches LINE only with the worker's signature of that request.  Either nothing is returned and
  nothing was sent but perhaps one request to the worker for a signature; or that request, for this path, body and
  access token, was followed by one request to LINE: to this path on the gateway (the address is cut at 511 characters),
  with this body, the signature the worker answered as its \<open>X-Hmac\<close> header and this token as \<open>X-Line-Access\<close>
  and cookie.  What comes back is judged completely: the status of LINE's reply is returned, with its body exactly for a
  2xx (or statusless) reply, and the account's gate is closed exactly for the outcomes that count against the account.\<close>

theorem gateway_signed_and_judged:
  assumes "enil_chrome_gateway_post E t idn path txt token extra timeout_ms cancel S = (out, S')"
  shows "(out = no_response \<and> (wire S' = wire S \<or> (\<exists>w. wire S' = wire S @ [w] \<and> asks_signature E S path txt token w))) \<or>
    (\<exists>w g h resp j hs. wire S' = wire S @ [w, g] \<and> asks_signature E S path txt token w \<and>
       buffered (answer E (wire S @ [w])) = Some resp \<and> parseText (njson E) resp = Some j \<and>
       enil_json_dup_string (njson E) (Some j) (Some ''hmac'') = Some h \<and>
       opt_url g = take 511 (''https://line-chrome-gw.line-apps.com'' @ path) \<and> opt_post g = Some txt \<and>
       opt_headers g = hs @ [''X-Hmac: '' @ h] @ (if token \<noteq> [] then [''X-Line-Access: '' @ token, ''Cookie: lct='' @ token] else []) @ extra \<and>
       (let r = answer E (wire S') in
        out = (if rc r \<noteq> CURLE_OK then no_response
               else \<lparr>status = http_status r,
                 body = if http_status r = 0 \<or> (200 \<le> http_status r \<and> http_status r < 300) then buffered r else None\<rparr>) \<and>
        gates S' = (if line_fault path r then enil_health_set_failure (gates S) t ENIL_ERR_LINE else gates S)))"
proof -
  obtain sig S1 where sig: "enil_worker_sign E t (Some path) (Some txt) (Some token) S = (sig, S1)" by force
  note asked = sign_request_sent [OF sig]
  show ?thesis
  proof (cases sig)
    case None
    with assms sig asked show ?thesis by (auto simp: enil_chrome_gateway_post_def)
  next
    case (Some h)
    then obtain w resp j where w: "wire S1 = wire S @ [w]"
      "buffered (answer E (wire S1)) = Some resp" "parseText (njson E) resp = Some j"
      "enil_json_dup_string (njson E) (Some j) (Some ''hmac'') = Some h" "gates S1 = gates S"
      using worker_sign_some [of E t path "txt" token S h S1] sig by blast
    with asked have asks: "asks_signature E S path txt token w" by auto
    show ?thesis
    proof (cases "enil_curl_new (s_cainfo E) (curl_init E (wire S1))")
      case None
      with assms sig Some w asks show ?thesis by (auto simp: enil_chrome_gateway_post_def)
    next
      case (Some c)
      define g where "g = gateway_handle c (language_headers E) idn path txt token h extra timeout_ms (cancel \<noteq> None)"
      have g: "opt_post g = Some txt" "opt_url g = take 511 (''https://line-chrome-gw.line-apps.com'' @ path)"
        "\<exists>hs. opt_headers g = hs @ [''X-Hmac: '' @ h] @ (if token \<noteq> [] then [''X-Line-Access: '' @ token, ''Cookie: lct='' @ token] else []) @ extra"
        by (simp_all add: g_def gateway_handle_def gateway_origin_def make_header_def)
      have S': "gateway_outcome t path (answer E (wire S1 @ [g])) (S1\<lparr>wire := wire S1 @ [g]\<rparr>) = (out, S')"
        using assms sig Some \<open>sig = Some h\<close> by (simp add: enil_chrome_gateway_post_def transfer_def Let_def g_def)
      then have wire: "wire S' = wire S @ [w, g]"
        using w(1) by (auto simp: gateway_outcome_judged split: if_splits)
      with S' w have "let r = answer E (wire S') in
          out = (if rc r \<noteq> CURLE_OK then no_response
               else \<lparr>status = http_status r,
                 body = if http_status r = 0 \<or> (200 \<le> http_status r \<and> http_status r < 300) then buffered r else None\<rparr>) \<and>
          gates S' = (if line_fault path r then enil_health_set_failure (gates S) t ENIL_ERR_LINE else gates S)"
        by (auto simp: gateway_outcome_judged fail_gate_def no_response_def Let_def)
      with g w wire asks show ?thesis by (intro disjI2) metis
    qed
  qed
qed

lemma raised_wire: "wire S' = wire S \<Longrightarrow> raised c S' = raised c S"
  by (simp add: raised_def split: option.splits)

lemma decrypt_ex_extends:
  "\<exists>new. wire (snd (enil_worker_decrypt_ex E t path payload cancel S)) = wire S @ new \<and> length new \<le> 1"
  using decrypt_ex_wire [of E t path payload cancel S] by (cases "enil_worker_decrypt_ex E t path payload cancel S") auto

lemma native_prepare_wire:
  "\<exists>new. wire (snd (native_prepare E T t idn call request token cancel S)) = wire S @ new \<and> length new \<le> 1"
proof (cases "nc_encrypted call")
  case True
  define payload where "payload = addItem (lib T) (addItem (lib T) (addItem (lib T) (mkObject (lib T)) ''path'' (mkString (lib T) (nc_endpoint call)))
      ''body'' (mkString (lib T) (enil_b64_encode (evp_encode T) request))) ''accessToken'' (mkString (lib T) token)"
  obtain e S1 where d: "enil_worker_decrypt_ex E t (Some ''/transport/legy/encode'') (Some payload) cancel S = (e, S1)" by force
  have "wire (snd (native_prepare E T t idn call request token cancel S)) = wire S1"
    using True by (simp add: native_prepare_def Let_def payload_def [symmetric] d split: option.splits)
  then show ?thesis
    using decrypt_ex_extends [of E t "Some ''/transport/legy/encode''" "Some payload" cancel S] by (simp add: d)
next
  case False
  then show ?thesis by (simp add: native_prepare_def Let_def)
qed

lemma native_unwrap_wire:
  "\<exists>new. wire (snd (native_unwrap E T t L call token key r cancel S)) = wire S @ new \<and> length new \<le> 1"
proof (cases "nc_encrypted call")
  case True
  define payload where "payload = addItem (lib T) (addItem (lib T) (mkObject (lib T)) ''key'' (mkString (lib T) key))
      ''body'' (mkString (lib T) (enil_b64_encode (evp_encode T) (bytes_of (received r))))"
  obtain e S1 where d: "enil_worker_decrypt_ex E t (Some ''/transport/legy/decode'') (Some payload) cancel S = (e, S1)" by force
  have "wire (snd (native_unwrap E T t L call token key r cancel S)) = wire S1"
    using True by (simp add: native_unwrap_def Let_def payload_def [symmetric] d split: option.splits)
  then show ?thesis
    using decrypt_ex_extends [of E t "Some ''/transport/legy/decode''" "Some payload" cancel S] by (simp add: d)
next
  case False
  then show ?thesis by (simp add: native_unwrap_def Let_def)
qed

text \<open>The shape of a reply, whatever it holds.\<close>

lemma native_reply_shape:
  obtains (quiet) "wire (snd (native_reply T t call plain S)) = wire S"
    "status (fst (native_reply T t call plain S)) \<in> {200, 400}"
proof -
  have "wire (snd (native_reply T t call plain S)) = wire S \<and> status (fst (native_reply T t call plain S)) \<in> {200, 400}"
  proof (cases "enil_thrift_decode T (nc_method call) plain")
    case None
    then show ?thesis by (simp add: native_reply_def)
  next
    case (Some reply)
    note decoded = this
    show ?thesis
    proof (cases "jget (lib T) (Some reply) ''e''")
      case (Some e)
      with decoded show ?thesis by (simp add: native_reply_def Let_def)
    next
      case None
      then show ?thesis
        by (simp add: native_reply_def decoded Let_def split del: if_split split: option.split)
    qed
  qed
  with quiet show thesis by blast
qed

lemma native_reply_wire [simp]: "wire (snd (native_reply T t call plain S)) = wire S"
  by (rule native_reply_shape)

lemma native_done_wire [simp]: "wire (snd (native_done t x)) = wire (snd x)" "fst (native_done t x) = fst x"
  by (simp_all add: native_done_def split: prod.splits)

text \<open>What happens after the transfer to LINE.\<close>

definition native_finish ::
  "'j net_env \<Rightarrow> 'j thrift \<Rightarrow> 't \<Rightarrow> session_link \<Rightarrow> 'j native_call \<Rightarrow> string \<Rightarrow> string \<Rightarrow> string \<Rightarrow> cancel_flag \<Rightarrow>
   curl_result \<Rightarrow> ('t, 'h) net \<Rightarrow> ENILLineResponse \<times> ('t, 'h) net" where
  "native_finish E T t L call token bytes key cancel r S2 =
     (if rc r \<noteq> CURLE_OK then
        native_done t (\<lparr>status = (if rc r = CURLE_OPERATION_TIMEDOUT \<and> nc_method call = ''sync'' \<and>
          idle_poll_timeout r (length bytes) then 204 else http_status r), body = None\<rparr>, S2)
      else if http_status r \<noteq> 200 then native_done t (\<lparr>status = http_status r, body = None\<rparr>, S2)
      else
        (case native_unwrap E T t L call token key r cancel S2 of
           (Inl st, S3) \<Rightarrow> native_done t (\<lparr>status = st, body = None\<rparr>, S3)
         | (Inr plain, S3) \<Rightarrow>
             if nc_method call \<noteq> ''refresh'' \<and> \<not> current_login L S3
             then native_done t (\<lparr>status = 200, body = None\<rparr>, S3)
             else native_done t (native_reply T t call plain S3)))"

lemma native_reply_status: "status (fst (native_reply T t call plain S)) \<in> {200, 400}"
  by (rule native_reply_shape)

lemma native_finish_result:
  "(\<exists>post. wire (snd (native_finish E T t L call token bytes key cancel r S2)) = wire S2 @ post \<and> length post \<le> 1) \<and>
   (body (fst (native_finish E T t L call token bytes key cancel r S2)) \<noteq> None \<longrightarrow> rc r = CURLE_OK \<and> http_status r = 200 \<and>
      status (fst (native_finish E T t L call token bytes key cancel r S2)) \<in> {200, 400})"
proof (cases "rc r = CURLE_OK \<and> http_status r = 200")
  case False
  then show ?thesis by (auto simp: native_finish_def)
next
  case True
  obtain x S3 where u: "native_unwrap E T t L call token key r cancel S2 = (x, S3)" by force
  have w: "\<exists>post. wire S3 = wire S2 @ post \<and> length post \<le> 1"
    using native_unwrap_wire [of E T t L call token key r cancel S2] by (simp add: u)
  show ?thesis
    using True w native_reply_status [of T t call _ S3] by (cases x) (auto simp: native_finish_def u)
qed

lemma enil_native_post_cases:
  assumes "enil_native_post E T t L idn path txt token timeout_ms cancel S = (out, S')"
  obtains (none) "out = no_response" "S' = S"
  | (prepared) new i where "out = no_response" "wire S' = wire S @ new" "length new \<le> 1" "fst (bound_token L (wire S))"
      "idn = Some i" "transport i = ''native-thrift''"
  | (sent) pre c i call tok bytes key where "length pre \<le> 1" "fst (bound_token L (wire S))" "idn = Some i"
      "transport i = ''native-thrift''" "fst (bound_token L (wire S @ pre))" "opt_user_agent c = Some (user_agent i)"
      "\<exists>S2. wire S2 = wire S @ pre @ [c] \<and>
        (out, S') = native_finish E T t L call tok bytes key cancel (answer E (wire S @ pre @ [c])) S2"
proof -
  show thesis
  proof (cases "\<exists>i p b k. idn = Some i \<and> path = Some p \<and> txt = Some b \<and> token = Some k \<and>
      transport i = ''native-thrift'' \<and> \<not> raised cancel S \<and> current_login L S")
    case False
    with assms have "out = no_response \<and> S' = S"
      by (auto simp: enil_native_post_def split: option.splits if_splits)
    with none show ?thesis by blast
  next
    case True
    then obtain i p b k where a: "idn = Some i" "path = Some p" "txt = Some b" "token = Some k"
      "transport i = ''native-thrift''" "\<not> raised cancel S" "current_login L S" by blast
    define tok where "tok = (case snd (bound_token L (wire S)) of None \<Rightarrow> k | Some b \<Rightarrow> b)"
    note start = assms [unfolded enil_native_post_def a option.case prod.case Let_def tok_def [symmetric]]
    show ?thesis
    proof (cases "Option.bind (parseText (lib T) b) (native_route T p)")
      case None
      with start a none show ?thesis by simp
    next
      case (Some call)
      show ?thesis
      proof (cases "enil_thrift_encode T (nc_method call) (nc_args call) []")
        case None
        with start a Some none show ?thesis by simp
      next
        case (Some request)
        obtain x S1 where prep: "native_prepare E T t i call request tok cancel S = (x, S1)" by force
        obtain pre where pre: "wire S1 = wire S @ pre" "length pre \<le> 1"
          using native_prepare_wire [of E T t i call request tok cancel S] by (auto simp: prep)
        have live: "fst (bound_token L (wire S))" using a(7) by (simp add: current_login_def)
        show ?thesis
        proof (cases x)
          case None
          with start a Some \<open>Option.bind _ _ = Some call\<close> prep pre live prepared show ?thesis by simp
        next
          case (Some y)
          obtain bytes url headers key where y: "y = (bytes, url, headers, key)" by (cases y)
          note step = start a \<open>Option.bind _ _ = Some call\<close> \<open>enil_thrift_encode _ _ _ _ = Some request\<close> prep Some y
          show ?thesis
          proof (cases "enil_curl_new (s_cainfo E) (curl_init E (wire S1))")
            case None
            with step pre live prepared show ?thesis by simp
          next
            case (Some c0)
            define c where "c = native_handle c0 url i headers bytes timeout_ms (cancel \<noteq> None)"
            show ?thesis
            proof (cases "current_login L S1")
              case False
              with step Some pre live prepared show ?thesis by simp
            next
              case True
              have "(out, S') = native_finish E T t L call tok bytes key cancel (answer E (wire S @ pre @ [c])) (S1\<lparr>wire := wire S @ pre @ [c]\<rparr>)"
                using step Some True pre(1) by (simp add: transfer_def Let_def c_def native_finish_def)
              moreover have "fst (bound_token L (wire S @ pre))" using True pre(1) by (simp add: current_login_def)
              moreover have "opt_user_agent c = Some (user_agent i)" by (simp add: c_def native_handle_def)
              ultimately show ?thesis
                using sent [OF pre(2) live a(1,5), of c call tok bytes key]
                by (metis net.select_convs(4) net.surjective net.update_convs(4))
            qed
          qed
        qed
      qed
    qed
  qed
qed

text \<open>A native request is made only for the bound native identity under a live login, and only a
  complete reply counts: it makes at most three transfers; none unless the identity is native and its login
  current; when a body comes back, one of them was the LINE request, sent as that identity after the login
  was checked again, and it completed with HTTP 200 (the body then has status 200, or 400 for an exception
  document).\<close>

theorem native_post_guarded:
  assumes "enil_native_post E T t L idn path txt token timeout_ms cancel S = (out, S')"
  shows "\<exists>new. wire S' = wire S @ new \<and> length new \<le> 3 \<and>
    (new \<noteq> [] \<longrightarrow> fst (bound_token L (wire S)) \<and> (\<exists>i. idn = Some i \<and> transport i = ''native-thrift'')) \<and>
    (body out \<noteq> None \<longrightarrow>
       (\<exists>pre c post i. new = pre @ c # post \<and> idn = Some i \<and> opt_user_agent c = Some (user_agent i) \<and>
          fst (bound_token L (wire S @ pre)) \<and> rc (answer E (wire S @ pre @ [c])) = CURLE_OK \<and>
          http_status (answer E (wire S @ pre @ [c])) = 200 \<and> status out \<in> {200, 400}))"
  using assms
proof (cases rule: enil_native_post_cases)
  case none
  then show ?thesis by (simp add: no_response_def)
next
  case (prepared new i)
  then show ?thesis by (intro exI [of _ new]) (auto simp: no_response_def)
next
  case (sent pre c i call tok bytes key)
  then obtain S2 where S2: "wire S2 = wire S @ pre @ [c]"
    "native_finish E T t L call tok bytes key cancel (answer E (wire S @ pre @ [c])) S2 = (out, S')" by auto
  let ?r = "answer E (wire S @ pre @ [c])"
  obtain post where "wire S' = wire S2 @ post" "length post \<le> 1"
    "body out \<noteq> None \<longrightarrow> rc ?r = CURLE_OK \<and> http_status ?r = 200 \<and> status out \<in> {200, 400}"
    using native_finish_result [of E T t L call tok bytes key cancel ?r S2] S2(2) by auto
  with sent S2(1) show ?thesis
    by (intro exI [of _ "pre @ c # post"]) auto
qed

text \<open>Routing respects every gate: with no identity bound, or the account's gate closed, a request sends
  nothing and changes nothing; and when the worker's gate is closed, no Chrome request is sent either.\<close>

theorem line_post_gated:
  "(idn = None \<or> enil_health_is_failed (gates S) t ENIL_ERR_LINE \<longrightarrow>
      enil_line_post_ex E T t L idn path txt token extra timeout_ms cancel S = (no_response, S)) \<and>
   (worker_failed (gates S) \<and> idn = Some i \<and> transport i = ''chrome-gateway'' \<longrightarrow>
      enil_line_post_ex E T t L idn path txt token extra timeout_ms cancel S = (no_response, S))"
  by (auto simp: enil_line_post_ex_def enil_chrome_gateway_post_def enil_worker_sign_def worker_call_def
      worker_post_closed split: option.splits)

section \<open>Witnesses\<close>

theorem gateway_signed_and_judged_witness:
  "let E = demo_net_env (\<lambda>w. if length w = 1 then (200, ''sig'') else (503, ''down''));
       (out, S') = enil_chrome_gateway_post E 0 legacy_chrome_identity ''/p'' ''[]'' ''tok'' [] 0 None demo_net
   in out = \<lparr>status = 503, body = None\<rparr> \<and> length (wire S') = 2 \<and> asks_signature E demo_net ''/p'' ''[]'' ''tok'' (hd (wire S')) \<and>
      opt_url (last (wire S')) = ''https://line-chrome-gw.line-apps.com/p'' \<and>
      {''X-Hmac: sig'', ''X-Line-Access: tok''} \<subseteq> set (opt_headers (last (wire S')))"
proof -
  let ?E = "demo_net_env (\<lambda>w. if length w = 1 then (200, ''sig'') else (503, ''down''))"
  obtain out S' where p: "enil_chrome_gateway_post ?E 0 legacy_chrome_identity ''/p'' ''[]'' ''tok'' [] 0 None demo_net = (out, S')"
    by force
  have out: "out = \<lparr>status = 503, body = None\<rparr>" "wire demo_net = []"
    using p by (auto simp: enil_chrome_gateway_post_def enil_worker_sign_def worker_call_def worker_post_def demo_net_def
        demo_net_env_def raised_def worker_credentials_copy_def enil_curl_new_def enil_curl_new_raw_def transfer_def
        Let_def buffered_def gateway_outcome_judged enil_json_dup_string_def jget_def jstr_def tree_def split: if_splits)
  then have "out \<noteq> no_response" by (simp add: no_response_def)
  with gateway_signed_and_judged [OF p] out obtain w g h resp j hs where sent: "wire S' = [w, g]" "asks_signature ?E demo_net ''/p'' ''[]'' ''tok'' w"
    "buffered (answer ?E [w]) = Some resp" "parseText (njson ?E) resp = Some j"
    "enil_json_dup_string (njson ?E) (Some j) (Some ''hmac'') = Some h"
    "opt_url g = take 511 (''https://line-chrome-gw.line-apps.com'' @ ''/p'')"
    "opt_headers g = hs @ [''X-Hmac: '' @ h] @ (if ''tok'' \<noteq> [] then [''X-Line-Access: '' @ ''tok'', ''Cookie: lct='' @ ''tok''] else []) @ []"
    by auto
  have "resp = ''sig''" using sent(3) by (simp add: demo_net_env_def buffered_def split: if_splits)
  with sent(4) have "j = JObj [(''hmac'', JStr ''sig'')]" by (simp add: demo_net_env_def tree_def)
  with sent(5) have "h = ''sig''" by (simp add: demo_net_env_def tree_def enil_json_dup_string_def jget_def jstr_def)
  then show ?thesis unfolding Let_def p prod.case using out sent by simp
qed

definition demo_thrift :: "json thrift" where
  "demo_thrift = \<lparr>lib = tree (\<lambda>t. Some (JArr [])) (\<lambda>_. ''{}''),
     schema = Some (JObj [(''m_args'', JArr []), (''m_result'', JArr [JArr [JNum 0, JStr ''success'', JStr ''string'']])]),
     evp_encode = (\<lambda>_. []), evp_decode = (\<lambda>_. None), double_bits = (\<lambda>x. 0), bits_double = (\<lambda>b. 0)\<rparr>"

lemma demo_encode: "enil_thrift_encode demo_thrift ''m'' (JArr []) [] = Some [0x82, 0x21, 0, 1, 109, 0]"
  by (simp add: enil_thrift_encode_def demo_thrift_def tree_def message_name_def write_byte_def write_varint.simps
      append_bytes_def MAX_WIRE_SIZE_def write_struct.simps byte_of_def)

lemma rounds_once: "0 < k \<Longrightarrow> rounds k f s = (case f s of (s', again) \<Rightarrow> if again then rounds (k - 1) f s' else s')"
  by (cases k) (auto split: prod.splits)

lemma demo_lib: "lib demo_thrift = tree (\<lambda>t. Some (JArr [])) (\<lambda>_. ''{}'')" by (simp add: demo_thrift_def)

lemma demo_field: "field_entry demo_thrift (Some (JArr [JArr [JNum 0, JStr ''success'', JStr ''string'']])) 0 = (Some (JStr ''string''), Some ''success'')"
  by (simp add: field_entry_def demo_lib array_item_def json_int_def json_string_def tree_def INT_MIN_def INT_MAX_def)

abbreviation demo_reader :: "nat \<Rightarrow> Reader" where
  "demo_reader k \<equiv> \<lparr>r_p = [0x82, 0x41, 0, 1, 109, 8, 0, 1, 65, 0], r_n = 10, r_pos = k, r_bad = False, r_strict_strings = False\<rparr>"

lemma demo_value: "read_value demo_thrift (demo_reader 7) (Some (JStr ''string'')) 8 (Suc 0) True = (demo_reader 9, Some (JStr ''A''))"
  by (simp add: read_value.simps [of demo_thrift _ _ 8] schema_kind_def compact_type_def demo_lib read_varint_def varint_loop.simps read_byte_def
     rest_len_def rest_bytes_def MAX_WIRE_SIZE_def cstr_bytes_def compact_type_of_def json_string_def char_of_byte_def tree_def array_item_def) code_simp

lemma demo_struct: "read_struct demo_thrift (demo_reader 5) (Some (JArr [JArr [JNum 0, JStr ''success'', JStr ''string'']])) 0 = (demo_reader 10, JObj [(''success'', JStr ''A'')])"
  by (simp add: read_struct.simps [of demo_thrift] rounds_once rest_len_def read_byte_def read_varint_def varint_loop.simps zigzag_decode_def wrap32_def demo_field demo_value Let_def jgeti_def demo_lib tree_def)

lemma demo_schema: "jget (lib demo_thrift) (schema demo_thrift) ''m_result'' = Some (JArr [JArr [JNum 0, JStr ''success'', JStr ''string'']])"
  by (simp add: demo_thrift_def tree_def)

lemma demo_decode: "enil_thrift_decode demo_thrift ''m'' (Some [0x82, 0x41, 0, 1, 109, 8, 0, 1, 65, 0]) = Some (JObj [(''success'', JStr ''A'')])"
  by (simp add: enil_thrift_decode_def decode_message_def message_name_def MAX_WIRE_SIZE_def read_byte_def
    read_varint_def varint_loop.simps rest_len_def rest_bytes_def byte_of_def demo_schema)
    (simp add: demo_struct [simplified numeral_nat])

definition demo_session :: session_link where
  "demo_session = \<lparr>bound_token = (\<lambda>w. (True, None)), accept_next = (\<lambda>w tok nxt. True)\<rparr>"

definition demo_reply :: string where
  "demo_reply = string_of [0x82, 0x41, 0, 1, 109, 8, 0, 1, 65, 0]"

lemma demo_reply_bytes: "bytes_of demo_reply = [0x82, 0x41, 0, 1, 109, 8, 0, 1, 65, 0]" "demo_reply \<noteq> []"
  unfolding demo_reply_def by (rule bytes_of_string_of) simp

theorem native_post_guarded_witness:
  "let E = demo_net_env (\<lambda>w. (200, demo_reply));
       (out, S') = enil_native_post E demo_thrift 0 demo_session (Some windows_identity)
         (Some ''/api/shop/thrift/ShopService/ShopService/m'') (Some ''[]'') (Some ''tok'') 0 None demo_net
   in out = \<lparr>status = 200, body = Some ''{}''\<rparr> \<and> wire S' \<noteq> []"
proof -
  let ?E = "demo_net_env (\<lambda>w. (200, demo_reply))"
  let ?p = "''/api/shop/thrift/ShopService/ShopService/m''"
  obtain out S' where p: "enil_native_post ?E demo_thrift 0 demo_session (Some windows_identity)
      (Some ?p) (Some ''[]'') (Some ''tok'') 0 None demo_net = (out, S')" by force
  have route: "native_route demo_thrift ?p (JArr []) =
      Some \<lparr>nc_method = ''m'', nc_args = JArr [], nc_endpoint = ''/TSHOP4'', nc_encrypted = False, nc_contacts = False\<rparr>"
    by (simp add: native_route_def Let_def) code_simp?
  have parse: "parseText (lib demo_thrift) ''[]'' = Some (JArr [])" by (simp add: demo_lib tree_def)
  have out: "out = \<lparr>status = 200, body = Some ''{}''\<rparr>"
    using p by (simp add: enil_native_post_def windows_identity_def demo_net_def demo_net_env_def raised_def current_login_def
        demo_session_def parse route demo_encode native_prepare_def enil_curl_new_def enil_curl_new_raw_def transfer_def
        Let_def native_unwrap_def buffered_def native_done_def native_reply_def demo_reply_bytes
        demo_decode demo_lib tree_def)
  with native_post_guarded [OF p] show ?thesis unfolding Let_def p prod.case by auto
qed

theorem line_post_gated_witness:
  "enil_line_post_ex (demo_net_env (\<lambda>w. (200, ''sig''))) demo_thrift 0 demo_session (Some legacy_chrome_identity)
     (Some ''/p'') (Some ''[]'') (Some ''tok'') [] 0 None
     (demo_net\<lparr>gates := (gates demo_net)\<lparr>worker_failed := True\<rparr>\<rparr>) =
   (no_response, demo_net\<lparr>gates := (gates demo_net)\<lparr>worker_failed := True\<rparr>\<rparr>)"
proof -
  let ?S = "demo_net\<lparr>gates := (gates demo_net)\<lparr>worker_failed := True\<rparr>\<rparr>"
  have "worker_failed (gates ?S) \<and> Some legacy_chrome_identity = Some legacy_chrome_identity \<and>
      transport legacy_chrome_identity = ''chrome-gateway''"
    by (simp add: demo_net_def legacy_chrome_identity_def)
  then show ?thesis
    using line_post_gated [where S = ?S and idn = "Some legacy_chrome_identity" and i = legacy_chrome_identity] by blast
qed

end
