(* ===== verification/ENIL_Session.thy ===== *)
theory ENIL_Session
  imports ENIL_Identity
begin

text \<open>
  \<open>source/shared/enil_session.c\<close>: the saved login \<open>session.json\<close>, its typed view \<open>session_t\<close>, the
  binding of a thread to one login, and the merging of concurrent updates.  The state holds the files
  and each thread's bindings; every operation that writes a document runs under the session lock
  (the others touch only their own thread, or rename one file away), so a run of the program is a sequence of
  them; the system calls of a write, between which others may read, are listed one by one.  The outcomes of the system calls an operation
  makes are its environment, so any of them may fail.  Allocation succeeds.
\<close>

section \<open>State and environment\<close>

record SessionBinding =
  bpath :: string
  blogin_id :: "string option"

record 't session_world =
  sfiles :: "string \<Rightarrow> string option"
  sbinding :: "'t \<Rightarrow> SessionBinding option"
  sident :: "'t identity_binding"

record write_calls =
  wc_letters :: "string option"
  wc_fdopen :: bool
  wc_write :: bool
  wc_fclose :: bool
  wc_rename :: bool

record retire_calls =
  rt_letters :: "string option"
  rt_rename :: bool

text \<open>
  \<open>pretty\<close> is \<open>cJSON_Print\<close>, \<open>of_i64\<close> the conversion of a \<open>long long\<close> to a double and \<open>strtod10\<close> is
  \<open>strtod\<close>.  \<open>rd_ok\<close> says that a file that exists can be read, \<open>acc_ok\<close> that \<open>access\<close> and \<open>lstat\<close> do not
  fail but for a missing file, \<open>dir_ok\<close> that a directory can be flushed.  \<open>ident_ok\<close> gives the outcomes
  of the calls in the successive \<open>enil_identity_bind\<close> of one operation.
\<close>

record 'j session_env =
  sj :: "'j cjson"
  pretty :: "'j \<Rightarrow> string"
  of_i64 :: "int \<Rightarrow> real"
  strtod10 :: "string \<Rightarrow> real"
  rand16 :: "byte list option"
  rd_ok :: "string \<Rightarrow> bool"
  acc_ok :: "string \<Rightarrow> bool"
  regular :: "string \<Rightarrow> bool"
  dir_ok :: "string \<Rightarrow> bool"
  wr :: write_calls
  rt :: retire_calls
  binding_ready :: bool
  spec_ok :: "SessionBinding option \<Rightarrow> bool"
  ident_ok :: "nat \<Rightarrow> bool \<times> bool \<times> bool"

section \<open>Files\<close>

definition parent_directory :: "string \<Rightarrow> string" where
  "parent_directory path =
     (case split_last (CHR ''/'') path of
        None \<Rightarrow> ''.''
      | Some (dir, _) \<Rightarrow> if dir = [] then ''/'' else dir)"

definition sync_parent_directory :: "'j session_env \<Rightarrow> string \<Rightarrow> bool" where
  "sync_parent_directory E path = dir_ok E (parent_directory path)"

definition hex_digit :: "nat \<Rightarrow> char" where
  "hex_digit n = ''0123456789abcdef'' ! n"

definition enil_session_new_id :: "'j session_env \<Rightarrow> string option" where
  "enil_session_new_id E =
     (case rand16 E of
        None \<Rightarrow> None
      | Some bs \<Rightarrow> Some (concat (map (\<lambda>b. [hex_digit (unat b div 16), hex_digit (unat b mod 16)]) bs)))"

definition enil_session_read :: "'j session_env \<Rightarrow> 't session_world \<Rightarrow> string option \<Rightarrow> 'j option" where
  "enil_session_read E W path =
     (case path of
        None \<Rightarrow> None
      | Some p \<Rightarrow>
          if \<not> rd_ok E p then None
          else (case sfiles W p of None \<Rightarrow> None | Some buf \<Rightarrow> parseText (sj E) (cstr buf)))"

definition remove_file :: "string \<Rightarrow> 't session_world \<Rightarrow> 't session_world" where
  "remove_file p W = W\<lparr>sfiles := (sfiles W)(p := None)\<rparr>"

definition put_file :: "string \<Rightarrow> string \<Rightarrow> 't session_world \<Rightarrow> 't session_world" where
  "put_file p s W = W\<lparr>sfiles := (sfiles W)(p \<mapsto> s)\<rparr>"

text \<open>
  The system calls that change files, in their order.  Another process, or this one after a crash, may see the
  files after any of them.  A file that is being written holds any beginning of its text, one character more
  at a time; where the write fails in between, it is removed again.
\<close>

datatype file_call = Make string | Fill string string | Unlink string | Rename string string

fun do_call :: "file_call \<Rightarrow> 't session_world \<Rightarrow> 't session_world" where
  "do_call (Make p) W = put_file p [] W"
| "do_call (Fill p s) W = put_file p s W"
| "do_call (Unlink p) W = remove_file p W"
| "do_call (Rename p q) W = (case sfiles W p of None \<Rightarrow> W | Some s \<Rightarrow> put_file q s (remove_file p W))"

definition do_calls :: "file_call list \<Rightarrow> 't session_world \<Rightarrow> 't session_world" where
  "do_calls calls W = fold do_call calls W"

definition write_steps :: "'j session_env \<Rightarrow> string \<Rightarrow> 'j \<Rightarrow> file_call list" where
  "write_steps E path r =
     (case wc_letters (wr E) of
        None \<Rightarrow> []
      | Some letters \<Rightarrow>
          (let tmp = path @ ''.tmp.'' @ letters; text = pretty E r;
               filling = map (\<lambda>n. Fill tmp (take n text)) [0..<Suc (length text)]
           in if \<not> wc_fdopen (wr E) then [Make tmp, Unlink tmp]
              else if wc_write (wr E) \<and> wc_fclose (wr E) \<and> wc_rename (wr E) then Make tmp # filling @ [Rename tmp path]
              else Make tmp # filling @ [Unlink tmp]))"

definition write_done :: "'j session_env \<Rightarrow> bool" where
  "write_done E \<longleftrightarrow>
     wc_letters (wr E) \<noteq> None \<and> wc_fdopen (wr E) \<and> wc_write (wr E) \<and> wc_fclose (wr E) \<and> wc_rename (wr E)"

definition session_write_locked ::
  "'j session_env \<Rightarrow> 't session_world \<Rightarrow> string option \<Rightarrow> 'j option \<Rightarrow> 't session_world \<times> bool" where
  "session_write_locked E W path doc =
     (case (path, doc) of
        (Some p, Some r) \<Rightarrow> (do_calls (write_steps E p r) W, write_done E \<and> sync_parent_directory E p)
      | _ \<Rightarrow> (W, False))"

definition enil_session_write ::
  "'j session_env \<Rightarrow> 't session_world \<Rightarrow> string option \<Rightarrow> 'j option \<Rightarrow> 't session_world \<times> bool" where
  "enil_session_write E W path doc = session_write_locked E W path doc"

definition retire_steps :: "'j session_env \<Rightarrow> string \<Rightarrow> file_call list" where
  "retire_steps E path =
     (case rt_letters (rt E) of
        None \<Rightarrow> []
      | Some letters \<Rightarrow>
          (let retired = path @ ''.retired.'' @ letters
           in [Make retired, if rt_rename (rt E) then Rename path retired else Unlink retired]))"

definition enil_session_retire_file ::
  "'j session_env \<Rightarrow> 't session_world \<Rightarrow> string option \<Rightarrow> 't session_world \<times> bool" where
  "enil_session_retire_file E W path =
     (case path of
        None \<Rightarrow> (W, False)
      | Some p \<Rightarrow>
          if \<not> acc_ok E p then (W, False)
          else if sfiles W p = None then (W, True)
          else (do_calls (retire_steps E p) W, rt_letters (rt E) \<noteq> None \<and> rt_rename (rt E) \<and> sync_parent_directory E p))"

text \<open>What all the calls come to.\<close>

lemma do_calls_append: "do_calls (xs @ ys) W = do_calls ys (do_calls xs W)"
  by (simp add: do_calls_def)

lemma put_put: "put_file p s (put_file p u W) = put_file p s W"
  by (simp add: put_file_def)

lemma fill_all: "do_calls (map (\<lambda>n. Fill p (take n s)) [0..<Suc k]) W = put_file p (take k s) W"
  by (induction k) (simp_all add: do_calls_def put_put)

lemma make_fill:
  "do_calls (Make p # map (\<lambda>n. Fill p (take n s)) [0..<Suc (length s)] @ calls) W = do_calls calls (put_file p s W)"
proof -
  have "do_calls (Make p # xs) W = do_calls xs (put_file p [] W)" for xs by (simp add: do_calls_def)
  then show ?thesis by (simp only: do_calls_append fill_all take_all order_refl put_put)
qed

lemma last_calls:
  "do_calls [Make p, Unlink p] W = remove_file p (put_file p [] W)" "do_calls [] W = W" "do_calls [Unlink p] W = remove_file p W"
  "do_calls [Rename p q] (put_file p s W) = put_file q s (remove_file p (put_file p s W))"
  by (simp_all add: do_calls_def put_file_def)

lemma session_write_locked_eq [code]:
  "session_write_locked E W path doc =
     (case (path, doc) of
        (Some p, Some r) \<Rightarrow>
          (case wc_letters (wr E) of
             None \<Rightarrow> (W, False)
           | Some letters \<Rightarrow>
               (let tmp = p @ ''.tmp.'' @ letters; opened = put_file tmp [] W; written = put_file tmp (pretty E r) opened
                in if \<not> wc_fdopen (wr E) then (remove_file tmp opened, False)
                   else if \<not> wc_write (wr E) then (remove_file tmp written, False)
                   else if \<not> wc_fclose (wr E) then (remove_file tmp written, False)
                   else if \<not> wc_rename (wr E) then (remove_file tmp written, False)
                   else (put_file p (pretty E r) (remove_file tmp written), sync_parent_directory E p)))
      | _ \<Rightarrow> (W, False))"
  by (simp add: session_write_locked_def write_steps_def write_done_def Let_def make_fill last_calls put_put del: upt.simps split: option.split)

lemma enil_session_retire_file_eq [code]:
  "enil_session_retire_file E W path =
     (case path of
        None \<Rightarrow> (W, False)
      | Some p \<Rightarrow>
          if \<not> acc_ok E p then (W, False)
          else
            (case sfiles W p of
               None \<Rightarrow> (W, True)
             | Some s \<Rightarrow>
                 (case rt_letters (rt E) of
                    None \<Rightarrow> (W, False)
                  | Some letters \<Rightarrow>
                      (let retired = p @ ''.retired.'' @ letters; made = put_file retired [] W
                       in if \<not> rt_rename (rt E) then (remove_file retired made, False)
                          else (put_file retired s (remove_file p made), sync_parent_directory E p)))))"
  by (auto simp: enil_session_retire_file_def retire_steps_def do_calls_def Let_def put_file_def split: option.split)

definition enil_session_activate ::
  "'j session_env \<Rightarrow> 't session_world \<Rightarrow> string option \<Rightarrow> 'j option \<Rightarrow> 't session_world \<times> bool" where
  "enil_session_activate E W path doc =
     (if path = None \<or> \<not> jis (isObject (sj E)) doc then (W, False)
      else
        (case session_write_locked E W path doc of
           (W1, ok) \<Rightarrow>
             (if ok then fst (enil_session_retire_file E W1 (Some (the path @ ''.refresh-pending''))) else W1, ok)))"

section \<open>Login identifiers\<close>

text \<open>The doc as it is left, and the identifier.\<close>

definition add_login_id :: "'j session_env \<Rightarrow> 'j option \<Rightarrow> 'j option \<times> string option" where
  "add_login_id E doc =
     (let J = sj E
      in case jget J doc ''loginId'' of
           Some item \<Rightarrow>
             (doc, if isString J item \<and> valuestring J item \<noteq> [] then Some (valuestring J item) else None)
         | None \<Rightarrow>
             (case doc of
                None \<Rightarrow> (doc, None)
              | Some r \<Rightarrow>
                  if \<not> isObject J r then (doc, None)
                  else (case enil_session_new_id E of
                          None \<Rightarrow> (doc, None)
                        | Some i \<Rightarrow> (Some (addItem J r ''loginId'' (mkString J i)), Some i))))"

definition enil_session_login_id ::
  "'j session_env \<Rightarrow> 't session_world \<Rightarrow> string option \<Rightarrow> 't session_world \<times> string option" where
  "enil_session_login_id E W path =
     (if path = None then (W, None)
      else
        (let doc = enil_session_read E W path; existed = jgeti (sj E) doc ''loginId'' \<noteq> None
         in case add_login_id E doc of
              (doc', None) \<Rightarrow> (W, None)
            | (doc', Some i) \<Rightarrow>
                if existed then (W, Some i)
                else (case session_write_locked E W path doc' of (W1, ok) \<Rightarrow> (W1, if ok then Some i else None))))"

section \<open>Bindings\<close>

definition current_binding :: "'j session_env \<Rightarrow> 't session_world \<Rightarrow> 't \<Rightarrow> SessionBinding option" where
  "current_binding E W t = (if binding_ready E then sbinding W t else None)"

definition set_binding ::
  "'j session_env \<Rightarrow> 't session_world \<Rightarrow> 't \<Rightarrow> SessionBinding option \<Rightarrow> 't session_world \<times> bool" where
  "set_binding E W t b =
     (if \<not> binding_ready E \<or> \<not> spec_ok E b then (W, False)
      else (W\<lparr>sbinding := (sbinding W)(t := b)\<rparr>, True))"

text \<open>The \<open>n\<close>-th \<open>enil_identity_bind\<close> of an operation.\<close>

definition bind_ident ::
  "'j session_env \<Rightarrow> nat \<Rightarrow> 't session_world \<Rightarrow> 't \<Rightarrow> enil_identity_t option \<Rightarrow> 't session_world \<times> bool" where
  "bind_ident E n W t i =
     (case ident_ok E n of
        (a, b, c) \<Rightarrow> (case enil_identity_bind a b c (sident W) t i of (B, ok) \<Rightarrow> (W\<lparr>sident := B\<rparr>, ok)))"

definition binding_matches ::
  "'j session_env \<Rightarrow> enil_identity_t option \<Rightarrow> SessionBinding option \<Rightarrow> 'j option \<Rightarrow> bool" where
  "binding_matches E identity binding doc =
     (let J = sj E; i = jget J doc ''loginId''
      in case (binding, identity) of
           (Some b, Some idn) \<Rightarrow>
             if \<not> jis (isObject J) doc then False
             else if (blogin_id b \<noteq> None \<or> i \<noteq> None) \<and> \<not> (blogin_id b \<noteq> None \<and> jstr J i = blogin_id b) then False
             else (case enil_identity_parse J (jget J doc ''clientIdentity'') of
                     (ok, saved) \<Rightarrow> ok \<and> idn = saved)
         | _ \<Rightarrow> False)"

definition thread_matches :: "'j session_env \<Rightarrow> 't session_world \<Rightarrow> 't \<Rightarrow> 'j option \<Rightarrow> bool" where
  "thread_matches E W t doc =
     binding_matches E (enil_identity_current (sident W) t) (current_binding E W t) doc"

definition enil_session_bind_identity ::
  "'j session_env \<Rightarrow> 't session_world \<Rightarrow> 't \<Rightarrow> string option \<Rightarrow> 't session_world \<times> bool" where
  "enil_session_bind_identity E W t path =
     (case set_binding E W t None of
        (W1, False) \<Rightarrow> (W1, False)
      | (W1, True) \<Rightarrow>
     (case bind_ident E 0 W1 t None of
        (W2, False) \<Rightarrow> (W2, False)
      | (W2, True) \<Rightarrow>
     (let J = sj E; doc = enil_session_read E W2 path
      in if \<not> jis (isObject J) doc then (W2, False)
         else
           (let i = jget J doc ''loginId''
            in case enil_identity_parse J (jget J doc ''clientIdentity'') of
                 (ok, identity) \<Rightarrow>
                   if ok \<and> (i = None \<or> (jstr J i \<noteq> None \<and> jstr J i \<noteq> Some [])) then
                     (case bind_ident E 1 W2 t (Some identity) of
                        (W3, False) \<Rightarrow> (fst (bind_ident E 2 W3 t None), False)
                      | (W3, True) \<Rightarrow>
                          (case set_binding E W3 t (Some \<lparr>bpath = the path, blogin_id = jstr J i\<rparr>) of
                             (W4, False) \<Rightarrow> (fst (bind_ident E 2 W4 t None), False)
                           | (W4, True) \<Rightarrow> (W4, True)))
                   else (fst (bind_ident E 2 W2 t None), False)))))"

definition enil_session_continue_identity ::
  "'j session_env \<Rightarrow> 't session_world \<Rightarrow> 't \<Rightarrow> string option \<Rightarrow> 't session_world \<times> bool" where
  "enil_session_continue_identity E W t path =
     (case path of
        None \<Rightarrow> (W, False)
      | Some p \<Rightarrow>
          (case current_binding E W t of
             None \<Rightarrow> enil_session_bind_identity E W t path
           | Some b \<Rightarrow>
               if bpath b \<noteq> p then (W, False)
               else (W, thread_matches E W t (enil_session_read E W path))))"

text \<open>1, 0 or -1, with the token.\<close>

definition enil_session_bound_access_token ::
  "'j session_env \<Rightarrow> 't session_world \<Rightarrow> 't \<Rightarrow> int \<times> string option" where
  "enil_session_bound_access_token E W t =
     (case current_binding E W t of
        None \<Rightarrow> (0, None)
      | Some b \<Rightarrow>
          (let doc = enil_session_read E W (Some (bpath b));
               token = (if thread_matches E W t doc then jstr (sj E) (jget (sj E) doc ''accessToken'') else None)
           in case token of
                Some s \<Rightarrow> if s \<noteq> [] then (1, Some s) else (- 1, None)
              | None \<Rightarrow> (- 1, None)))"

definition enil_session_accept_next_access ::
  "'j session_env \<Rightarrow> 't session_world \<Rightarrow> 't \<Rightarrow> string option \<Rightarrow> string option \<Rightarrow> 't session_world \<times> bool" where
  "enil_session_accept_next_access E W t previous nxt =
     (case (current_binding E W t, previous, nxt) of
        (Some b, Some prev, Some n) \<Rightarrow>
          if n = [] \<or> CHR 0x0D \<in> set n \<or> CHR 0x0A \<in> set n then (W, False)
          else
            (let J = sj E; doc = enil_session_read E W (Some (bpath b))
             in if \<not> thread_matches E W t doc then (W, False)
                else
                  (case jstr J (jget J doc ''accessToken'') of
                     None \<Rightarrow> (W, False)
                   | Some token \<Rightarrow>
                       if token = prev
                       then session_write_locked E W (Some (bpath b))
                              (map_option (\<lambda>r. replaceCS J r ''accessToken'' (mkString J n)) doc)
                       else (W, True)))
      | _ \<Rightarrow> (W, False))"

section \<open>Starting a login\<close>

definition enil_session_prepare_login ::
  "'j session_env \<Rightarrow> 't session_world \<Rightarrow> string option \<Rightarrow> string option \<Rightarrow> string option \<Rightarrow> 't session_world \<times> bool" where
  "enil_session_prepare_login E W path profile reauth_session_path =
     (case path of
        None \<Rightarrow> (W, False)
      | Some p \<Rightarrow>
          if acc_ok E p \<and> sfiles W p \<noteq> None then (W, False)
          else
            (let J = sj E;
                 source = (case reauth_session_path of
                     None \<Rightarrow> (case enil_identity_default profile of None \<Rightarrow> None | Some i \<Rightarrow> Some (i, None))
                   | Some r \<Rightarrow>
                       (let doc = enil_session_read E W (Some r)
                        in if \<not> jis (isObject J) doc then None
                           else case enil_identity_parse J (jget J doc ''clientIdentity'') of
                                  (ok, i) \<Rightarrow> if ok then Some (i, jget J doc ''certificate'') else None))
             in case source of
                  None \<Rightarrow> (W, False)
                | Some (identity, certificate) \<Rightarrow>
                    (case enil_identity_to_json J (Some identity) of
                       None \<Rightarrow> (W, False)
                     | Some json \<Rightarrow>
                         (let doc = addItem J (mkObject J) ''clientIdentity'' json;
                              doc = (case certificate of None \<Rightarrow> doc | Some c \<Rightarrow> addItem J doc ''certificate'' c)
                          in case add_login_id E (Some doc) of
                               (_, None) \<Rightarrow> (W, False)
                             | (doc', Some i) \<Rightarrow> enil_session_write E W path doc'))))"

section \<open>Remembered certificates\<close>

definition login_certificate_path :: "'j session_env \<Rightarrow> string option \<Rightarrow> 'j option \<Rightarrow> string option" where
  "login_certificate_path E path doc =
     (let J = sj E in
      if path = None \<or> \<not> jis (isObject J) doc then None
      else case enil_identity_parse J (jget J doc ''clientIdentity'') of
        (ok, identity) \<Rightarrow>
          if \<not> ok then None
          else case split_last (CHR ''/'') (the path) of
                 None \<Rightarrow> None
               | Some (dir, _) \<Rightarrow>
                   (case split_last (CHR ''/'') dir of
                      None \<Rightarrow> None
                    | Some (up, _) \<Rightarrow> Some (up @ ''/'' @ ''.qr-certificate-'' @ profile_id identity @ ''.json'')))"

text \<open>The session document as it is left.\<close>

definition enil_session_load_login_certificate ::
  "'j session_env \<Rightarrow> 't session_world \<Rightarrow> string option \<Rightarrow> 'j option \<Rightarrow> 'j option \<times> bool" where
  "enil_session_load_login_certificate E W path doc =
     (case login_certificate_path E path doc of
        None \<Rightarrow> (doc, False)
      | Some file \<Rightarrow>
          if \<not> acc_ok E file then (doc, False)
          else if sfiles W file = None then (doc, True)
          else if \<not> regular E file then (doc, False)
          else
            (let J = sj E; val = jget J (enil_session_read E W (Some file)) ''certificate''
             in if \<not> jis (isString J) val then (doc, False)
                else (map_option (\<lambda>r. addItem J (deleteCS J r ''certificate'') ''certificate'' (the val)) doc, True)))"

definition enil_session_save_login_certificate ::
  "'j session_env \<Rightarrow> 't session_world \<Rightarrow> string option \<Rightarrow> 'j option \<Rightarrow> 't session_world \<times> bool" where
  "enil_session_save_login_certificate E W path doc =
     (let J = sj E; val = jget J doc ''certificate''
      in case login_certificate_path E path doc of
           None \<Rightarrow> (W, False)
         | Some file \<Rightarrow>
             (case val of
                None \<Rightarrow> (W, True)
              | Some v \<Rightarrow>
                  if isString J v \<and> valuestring J v = [] then (W, True)
                  else if \<not> isString J v then (W, False)
                  else enil_session_write E W (Some file)
                         (Some (addItem J (mkObject J) ''certificate'' (mkString J (valuestring J v))))))"

end
