(* ===== verification/ENIL_SessionData.thy ===== *)
theory ENIL_SessionData
  imports ENIL_Session
begin

text \<open>
  The rest of \<open>source/shared/enil_session.c\<close>: the typed view \<open>session_t\<close> of a saved login, its JSON form,
  the three-way merge by which concurrent updates are saved, the queue of partial syncs and the
  preferences.
\<close>

section \<open>Fields by name\<close>

text \<open>
  \<open>cJSON_GetObjectItem\<close> and \<open>cJSON_DeleteItemFromObject\<close> compare names without case.  Deleting removes
  the first match, which is the first item of exactly its name.
\<close>

definition same_name :: "string \<Rightarrow> string \<Rightarrow> bool" where
  "same_name a b \<longleftrightarrow> map lower_char a = map lower_char b"

definition delete_ci :: "'j cjson \<Rightarrow> 'j \<Rightarrow> string \<Rightarrow> 'j" where
  "delete_ci J doc key =
     (case find (\<lambda>(k, v). same_name k key) (children J doc) of None \<Rightarrow> doc | Some (k, v) \<Rightarrow> deleteCS J doc k)"

definition dup_str_field :: "'j cjson \<Rightarrow> 'j \<Rightarrow> string \<Rightarrow> string option" where
  "dup_str_field J doc key = jstr J (getItem J doc key)"

definition set_str_field :: "'j cjson \<Rightarrow> string \<Rightarrow> string option \<Rightarrow> 'j \<Rightarrow> 'j" where
  "set_str_field J key val doc =
     (case val of None \<Rightarrow> delete_ci J doc key | Some v \<Rightarrow> addItem J (delete_ci J doc key) key (mkString J v))"

definition set_i64_str_field :: "'j cjson \<Rightarrow> string \<Rightarrow> int \<Rightarrow> 'j \<Rightarrow> 'j" where
  "set_i64_str_field J key val doc = addItem J (delete_ci J doc key) key (mkString J (show_int val))"

definition set_i64_num_field :: "'j session_env \<Rightarrow> string \<Rightarrow> int \<Rightarrow> 'j \<Rightarrow> 'j" where
  "set_i64_num_field E key val doc = addItem (sj E) (delete_ci (sj E) doc key) key (mkNumber (sj E) (of_i64 E val))"

definition set_obj_field :: "'j cjson \<Rightarrow> string \<Rightarrow> 'j option \<Rightarrow> 'j \<Rightarrow> 'j" where
  "set_obj_field J key val doc =
     (case val of None \<Rightarrow> delete_ci J doc key | Some v \<Rightarrow> addItem J (delete_ci J doc key) key v)"

section \<open>The typed session\<close>

record 'j session_t =
  clientIdentity :: enil_identity_t
  snapshot :: "'j option"
  accessToken :: "string option"
  refreshToken :: "string option"
  refreshJournalId :: "string option"
  mid :: "string option"
  displayName :: "string option"
  regionCode :: "string option"
  certificate :: "string option"
  e2eeLoginPublicKey :: "string option"
  e2eeVersion :: "string option"
  e2eeHashKeyChain :: "string option"
  durationUntilRefreshInSec :: int
  tokenIssueTimeEpochSec :: int
  e2eeLatestKeyId :: int
  e2eeSequenceNumber :: int
  reqSeq :: int
  needsReauth :: bool
  e2eeKeys :: "'j option"
  e2eeLoginMetaData :: "'j option"
  encryptedAccessTokens :: "'j option"
  workerRestoreState :: "'j option"
  refreshApiRetryPolicy :: "'j option"
  lastPartialFullSyncs :: "'j option"

text \<open>The struct it fills matters only when it returns 1.\<close>

definition enil_session_parse :: "'j session_env \<Rightarrow> 'j option \<Rightarrow> 'j session_t option" where
  "enil_session_parse E doc =
     (case doc of
        None \<Rightarrow> None
      | Some r \<Rightarrow>
          (let J = sj E; str = dup_str_field J r; i64 = (\<lambda>k. enil_json_coerce_int64 J (getItem J r k))
           in case enil_identity_parse J (getItemCS J r ''clientIdentity'') of
                (ok, identity) \<Rightarrow>
                  if \<not> ok then None
                  else if str ''accessToken'' = None then None
                  else
                    Some \<lparr>clientIdentity = identity, snapshot = Some r, accessToken = str ''accessToken'',
                      refreshToken = str ''refreshToken'', refreshJournalId = str ''refreshJournalId'',
                      mid = str ''mid'', displayName = str ''displayName'', regionCode = str ''regionCode'',
                      certificate = str ''certificate'', e2eeLoginPublicKey = str ''e2eeLoginPublicKey'',
                      e2eeVersion = str ''e2eeVersion'', e2eeHashKeyChain = str ''e2eeHashKeyChain'',
                      durationUntilRefreshInSec = i64 ''durationUntilRefreshInSec'',
                      tokenIssueTimeEpochSec = i64 ''tokenIssueTimeEpochSec'',
                      e2eeLatestKeyId = i64 ''e2eeLatestKeyId'', e2eeSequenceNumber = i64 ''e2eeSequenceNumber'',
                      reqSeq = i64 ''reqSeq'', needsReauth = jis (isTrue J) (getItem J r ''needsReauth''),
                      e2eeKeys = getItem J r ''e2eeKeys'', e2eeLoginMetaData = getItem J r ''e2eeLoginMetaData'',
                      encryptedAccessTokens = getItem J r ''encryptedAccessTokens'',
                      workerRestoreState = getItem J r ''workerRestoreState'',
                      refreshApiRetryPolicy = getItem J r ''refreshApiRetryPolicy'',
                      lastPartialFullSyncs = getItem J r ''lastPartialFullSyncs''\<rparr>))"

definition enil_session_load :: "'j session_env \<Rightarrow> 't session_world \<Rightarrow> string option \<Rightarrow> 'j session_t option" where
  "enil_session_load E W path = enil_session_parse E (enil_session_read E W path)"

definition enil_session_to_json :: "'j session_env \<Rightarrow> 'j session_t option \<Rightarrow> 'j option" where
  "enil_session_to_json E session =
     (case session of
        None \<Rightarrow> None
      | Some s \<Rightarrow>
          (let J = sj E; doc = (case snapshot s of None \<Rightarrow> mkObject J | Some r \<Rightarrow> r)
           in case enil_identity_to_json J (Some (clientIdentity s)) of
                None \<Rightarrow> None
              | Some identity \<Rightarrow>
                  (let doc = addItem J (delete_ci J doc ''clientIdentity'') ''clientIdentity'' identity;
                       doc = set_str_field J ''certificate'' (certificate s) doc;
                       doc = set_obj_field J ''e2eeKeys'' (e2eeKeys s) doc;
                       doc = set_i64_num_field E ''e2eeLatestKeyId'' (e2eeLatestKeyId s) doc;
                       doc = set_obj_field J ''e2eeLoginMetaData'' (e2eeLoginMetaData s) doc;
                       doc = set_str_field J ''e2eeLoginPublicKey'' (e2eeLoginPublicKey s) doc;
                       doc = set_str_field J ''e2eeVersion'' (e2eeVersion s) doc;
                       doc = set_str_field J ''e2eeHashKeyChain'' (e2eeHashKeyChain s) doc;
                       doc = set_str_field J ''mid'' (mid s) doc;
                       doc = set_str_field J ''displayName'' (displayName s) doc;
                       doc = set_str_field J ''regionCode'' (regionCode s) doc;
                       doc = set_obj_field J ''encryptedAccessTokens'' (encryptedAccessTokens s) doc;
                       doc = set_str_field J ''accessToken'' (accessToken s) doc;
                       doc = set_str_field J ''refreshToken'' (refreshToken s) doc;
                       doc = set_str_field J ''refreshJournalId'' (refreshJournalId s) doc;
                       doc = set_i64_str_field J ''durationUntilRefreshInSec'' (durationUntilRefreshInSec s) doc;
                       doc = set_i64_str_field J ''tokenIssueTimeEpochSec'' (tokenIssueTimeEpochSec s) doc;
                       doc = set_i64_num_field E ''reqSeq'' (reqSeq s) doc;
                       doc = set_i64_num_field E ''e2eeSequenceNumber'' (e2eeSequenceNumber s) doc;
                       doc = set_obj_field J ''workerRestoreState'' (workerRestoreState s) doc;
                       doc = set_obj_field J ''refreshApiRetryPolicy'' (refreshApiRetryPolicy s) doc;
                       doc = set_obj_field J ''lastPartialFullSyncs'' (lastPartialFullSyncs s) doc;
                       doc = delete_ci J doc ''needsReauth''
                   in Some (if needsReauth s then addItem J doc ''needsReauth'' (mkBool J True) else doc))))"

section \<open>Saving\<close>

text \<open>The first loop of \<open>enil_session_save\<close>, over the fields of the new document, and the second.\<close>

definition copy_changed :: "'j cjson \<Rightarrow> 'j \<Rightarrow> 'j \<Rightarrow> (string \<times> 'j) list \<Rightarrow> 'j" where
  "copy_changed J baseline cur items =
     foldl (\<lambda>c (k, item).
       if (case getItemCS J baseline k of None \<Rightarrow> False | Some old \<Rightarrow> sameItem J old item) then c
       else addItem J (deleteCS J c k) k item) cur items"

definition drop_removed :: "'j cjson \<Rightarrow> 'j \<Rightarrow> 'j \<Rightarrow> (string \<times> 'j) list \<Rightarrow> 'j" where
  "drop_removed J nxt cur items =
     foldl (\<lambda>c (k, item). if getItem J nxt k = None then deleteCS J c k else c) cur items"

text \<open>Whether two documents belong to different logins.\<close>

definition login_superseded :: "'j cjson \<Rightarrow> 'j option \<Rightarrow> 'j option \<Rightarrow> bool" where
  "login_superseded J before now \<longleftrightarrow>
     (before \<noteq> None \<or> now \<noteq> None) \<and>
     (jstr J before = None \<or> jstr J before = Some [] \<or> jstr J now = None \<or> \<not> sameItem J (the before) (the now))"

definition enil_session_save ::
  "'j session_env \<Rightarrow> 't session_world \<Rightarrow> string option \<Rightarrow> 'j session_t \<Rightarrow> 't session_world \<times> bool" where
  "enil_session_save E W path session =
     (let J = sj E
      in case enil_session_to_json E (Some session) of
           None \<Rightarrow> (W, False)
         | Some nxt \<Rightarrow>
             (let baseline = (case snapshot session of
                    None \<Rightarrow> None
                  | Some snap \<Rightarrow> enil_session_to_json E (enil_session_parse E (Some snap)));
                  cur = enil_session_read E W path
              in case (cur, baseline) of
                   (Some c, Some b) \<Rightarrow>
                     if \<not> isObject J c then (W, False)
                     else if login_superseded J (getItemCS J b ''loginId'') (getItemCS J c ''loginId'') then (W, False)
                     else session_write_locked E W path
                            (Some (drop_removed J nxt (copy_changed J b c (children J nxt)) (children J b)))
                 | _ \<Rightarrow> (W, False)))"

definition enil_session_patch ::
  "'j session_env \<Rightarrow> 't session_world \<Rightarrow> string option \<Rightarrow> 'j option \<Rightarrow> 't session_world \<times> bool" where
  "enil_session_patch E W path patch =
     (let J = sj E
      in case enil_session_read E W path of
           None \<Rightarrow> (W, False)
         | Some r \<Rightarrow>
             session_write_locked E W path
               (Some (foldl (\<lambda>c (k, item). addItem J (deleteCS J c k) k item) r (jkids J patch))))"

section \<open>Reading single values\<close>

definition enil_session_validate ::
  "'j session_env \<Rightarrow> 't session_world \<Rightarrow> string option \<Rightarrow> (string \<times> string option) option" where
  "enil_session_validate E W path =
     (case enil_session_load E W path of
        None \<Rightarrow> None
      | Some s \<Rightarrow>
          (case accessToken s of
             None \<Rightarrow> None
           | Some token \<Rightarrow>
               if token = [] then None
               else Some (token, case mid s of None \<Rightarrow> None | Some m \<Rightarrow> if m = [] then None else Some m)))"

definition enil_session_get_token_refresh_eta :: "'j session_env \<Rightarrow> 't session_world \<Rightarrow> string option \<Rightarrow> int" where
  "enil_session_get_token_refresh_eta E W path =
     (case enil_session_load E W path of
        None \<Rightarrow> 0
      | Some s \<Rightarrow>
          (let issued = tokenIssueTimeEpochSec s; duration = durationUntilRefreshInSec s; eta = issued + duration - 30
           in if issued \<le> 0 \<or> duration \<le> 0 then 0 else if 0 < eta then eta else 0))"

definition policy_double :: "'j session_env \<Rightarrow> 'j \<Rightarrow> string \<Rightarrow> real \<Rightarrow> real" where
  "policy_double E obj key fallback =
     (let J = sj E; item = getItem J obj key
      in if jis (isNumber J) item then valuedouble J (the item)
         else if jis (isString J) item then strtod10 E (valuestring J (the item))
         else fallback)"

text \<open>Whether a policy is present, and the four values; \<open>None\<close> when they are not written.\<close>

definition enil_session_get_refresh_retry_policy ::
  "'j session_env \<Rightarrow> 't session_world \<Rightarrow> string option \<Rightarrow> bool \<times> (int \<times> int \<times> real \<times> real) option" where
  "enil_session_get_refresh_retry_policy E W path =
     (case enil_session_load E W path of
        None \<Rightarrow> (False, None)
      | Some s \<Rightarrow>
          (let J = sj E in
           case refreshApiRetryPolicy s of
             None \<Rightarrow> (False, Some (1000, 32000, 2, 1 / 5))
           | Some p \<Rightarrow>
               if \<not> isObject J p then (False, Some (1000, 32000, 2, 1 / 5))
               else
                 (let i = enil_json_coerce_int64 J (getItem J p ''initialDelayInMillis'');
                      m = enil_json_coerce_int64 J (getItem J p ''maxDelayInMillis'')
                  in (True, Some (if i \<le> 0 then 1000 else i, if m \<le> 0 then 32000 else m,
                        policy_double E p ''multiplier'' 2, policy_double E p ''jitterRate'' (1 / 5))))))"

definition enil_session_get_partial_full_syncs_json ::
  "'j session_env \<Rightarrow> 't session_world \<Rightarrow> string option \<Rightarrow> string" where
  "enil_session_get_partial_full_syncs_json E W path =
     (case enil_session_load E W path of
        None \<Rightarrow> ''{}''
      | Some s \<Rightarrow>
          (case lastPartialFullSyncs s of
             None \<Rightarrow> ''{}''
           | Some m \<Rightarrow> if isObject (sj E) m then printText (sj E) m else ''{}''))"

definition enil_session_set_reauth_needed ::
  "'j session_env \<Rightarrow> 't session_world \<Rightarrow> string option \<Rightarrow> 't session_world \<times> bool" where
  "enil_session_set_reauth_needed E W path =
     (case enil_session_load E W path of
        None \<Rightarrow> (W, False)
      | Some s \<Rightarrow> enil_session_save E W path (s\<lparr>needsReauth := True\<rparr>))"

definition enil_session_has_reauth_needed :: "'j session_env \<Rightarrow> 't session_world \<Rightarrow> string option \<Rightarrow> bool" where
  "enil_session_has_reauth_needed E W path =
     (case enil_session_load E W path of None \<Rightarrow> False | Some s \<Rightarrow> needsReauth s)"

definition enil_session_get_sse_enabled :: "'j session_env \<Rightarrow> 't session_world \<Rightarrow> string option \<Rightarrow> bool" where
  "enil_session_get_sse_enabled E W path =
     (case enil_session_read E W path of
        None \<Rightarrow> True
      | Some r \<Rightarrow>
          (let item = getItem (sj E) r ''sseEnabled''
           in if jis (isBool (sj E)) item then jis (isTrue (sj E)) item else True))"

definition enil_session_set_sse_enabled ::
  "'j session_env \<Rightarrow> 't session_world \<Rightarrow> string option \<Rightarrow> bool \<Rightarrow> 't session_world \<times> bool" where
  "enil_session_set_sse_enabled E W path enabled =
     (if path = None then (W, False)
      else enil_session_patch E W path
             (Some (addItem (sj E) (mkObject (sj E)) ''sseEnabled'' (mkBool (sj E) enabled))))"

section \<open>Partial syncs\<close>

text \<open>The map, and whether it changed; \<open>None\<close> is the result -1.\<close>

definition merge_partial_timestamp :: "'j cjson \<Rightarrow> 'j \<Rightarrow> string \<Rightarrow> int \<Rightarrow> ('j \<times> bool) option" where
  "merge_partial_timestamp J m key val =
     (if val \<le> enil_json_coerce_int64 J (getItemCS J m key) then Some (m, False)
      else if getItem J m key \<noteq> None then
        (if getItemCS J m key = None then None else Some (replaceCS J m key (mkString J (show_int val)), True))
      else Some (addItem J m key (mkString J (show_int val)), True))"

text \<open>The document with the map in it, and the map.  The code updates the map in place: \<open>put_map\<close>.\<close>

definition partial_map :: "'j cjson \<Rightarrow> 'j \<Rightarrow> string \<Rightarrow> ('j \<times> 'j) option" where
  "partial_map J doc name =
     (case getItemCS J doc name of
        None \<Rightarrow> Some (addItem J doc name (mkObject J), mkObject J)
      | Some m \<Rightarrow> if isObject J m then Some (doc, m) else None)"

definition put_map :: "'j cjson \<Rightarrow> string \<Rightarrow> 'j \<Rightarrow> 'j \<Rightarrow> 'j" where
  "put_map J name m doc = replaceCS J doc name m"

text \<open>The pending map, whether work is needed and whether the map changed.\<close>

fun queue_syncs ::
  "'j cjson \<Rightarrow> 'j \<Rightarrow> (string \<times> 'j) list \<Rightarrow> 'j \<Rightarrow> bool \<Rightarrow> bool \<Rightarrow> ('j \<times> bool \<times> bool) option" where
  "queue_syncs J completed [] pending needed changed = Some (pending, needed, changed)"
| "queue_syncs J completed ((k, item) # items) pending needed changed =
     (let incoming = enil_json_coerce_int64 J (Some item)
      in if incoming \<le> enil_json_coerce_int64 J (getItemCS J completed k)
         then queue_syncs J completed items pending needed changed
         else (case merge_partial_timestamp J pending k incoming of
                 None \<Rightarrow> None
               | Some (pending', merged) \<Rightarrow> queue_syncs J completed items pending' True (changed \<or> merged)))"

definition enil_session_update_partial_full_syncs ::
  "'j session_env \<Rightarrow> 't session_world \<Rightarrow> 't \<Rightarrow> string option \<Rightarrow> 'j option \<Rightarrow> 't session_world \<times> int" where
  "enil_session_update_partial_full_syncs E W t path target_categories =
     (let J = sj E; doc = enil_session_read E W path; binding = current_binding E W t
      in if path = None \<or> \<not> jis (isObject J) target_categories then (W, - 1)
         else if \<not> jis (isObject J) doc \<or>
                 (binding \<noteq> None \<and> (bpath (the binding) \<noteq> the path \<or> \<not> thread_matches E W t doc)) then (W, - 1)
         else
           (case partial_map J (the doc) ''pendingPartialFullSyncs'' of
              None \<Rightarrow> (W, - 1)
            | Some (doc1, pending) \<Rightarrow>
           (case partial_map J doc1 ''lastPartialFullSyncs'' of
              None \<Rightarrow> (W, - 1)
            | Some (doc2, completed) \<Rightarrow>
           (case queue_syncs J completed (jkids J target_categories) pending False False of
              None \<Rightarrow> (W, - 1)
            | Some (pending', needed, changed) \<Rightarrow>
                if changed then
                  (case session_write_locked E W path (Some (put_map J ''pendingPartialFullSyncs'' pending' doc2)) of
                     (W1, False) \<Rightarrow> (W1, - 1)
                   | (W1, True) \<Rightarrow> (W1, if needed then 1 else 0))
                else (W, if needed then 1 else 0)))))"

text \<open>The completed and the pending map.\<close>

fun acknowledge_syncs :: "'j cjson \<Rightarrow> (string \<times> 'j) list \<Rightarrow> 'j \<Rightarrow> 'j \<Rightarrow> ('j \<times> 'j) option" where
  "acknowledge_syncs J [] completed pending = Some (completed, pending)"
| "acknowledge_syncs J ((k, item) # items) completed pending =
     (let val = enil_json_coerce_int64 J (Some item)
      in case merge_partial_timestamp J completed k val of
           None \<Rightarrow> None
         | Some (completed', _) \<Rightarrow>
             (let queued = getItemCS J pending k
              in acknowledge_syncs J items completed'
                   (if queued \<noteq> None \<and> enil_json_coerce_int64 J queued \<le> val then deleteCS J pending k else pending)))"

definition enil_session_complete_partial_full_syncs ::
  "'j session_env \<Rightarrow> 't session_world \<Rightarrow> string option \<Rightarrow> 'j option \<Rightarrow> 't session_world \<times> bool" where
  "enil_session_complete_partial_full_syncs E W path snap =
     (let J = sj E; doc = enil_session_read E W path; requests = jget J snap ''pendingPartialFullSyncs'';
          before = jget J snap ''loginId''; now = jget J doc ''loginId''
      in if path = None \<or> \<not> jis (isObject J) snap then (W, False)
         else if \<not> jis (isObject J) doc \<or>
                 ((before \<noteq> None \<or> now \<noteq> None) \<and>
                  (jstr J before = None \<or> jstr J now = None \<or> \<not> sameItem J (the before) (the now))) then (W, False)
         else if requests = None \<or> (jis (isObject J) requests \<and> jkids J requests = []) then (W, True)
         else if \<not> jis (isObject J) requests then (W, False)
         else
           (case partial_map J (the doc) ''pendingPartialFullSyncs'' of
              None \<Rightarrow> (W, False)
            | Some (doc1, pending) \<Rightarrow>
           (case partial_map J doc1 ''lastPartialFullSyncs'' of
              None \<Rightarrow> (W, False)
            | Some (doc2, completed) \<Rightarrow>
           (case acknowledge_syncs J (jkids J requests) completed pending of
              None \<Rightarrow> (W, False)
            | Some (completed', pending') \<Rightarrow>
                (let doc3 = put_map J ''pendingPartialFullSyncs'' pending' (put_map J ''lastPartialFullSyncs'' completed' doc2);
                     doc4 = (if children J pending' = [] then deleteCS J doc3 ''pendingPartialFullSyncs'' else doc3)
                 in session_write_locked E W path (Some doc4))))))"

definition enil_session_reset_partial_full_syncs ::
  "'j session_env \<Rightarrow> 't session_world \<Rightarrow> string option \<Rightarrow> 't session_world \<times> bool" where
  "enil_session_reset_partial_full_syncs E W path =
     (case enil_session_load E W path of
        None \<Rightarrow> (W, False)
      | Some s \<Rightarrow>
          (case lastPartialFullSyncs s of
             None \<Rightarrow> (W, False)
           | Some m \<Rightarrow>
               if isObject (sj E) m \<and> children (sj E) m = [] then (W, False)
               else enil_session_save E W path (s\<lparr>lastPartialFullSyncs := Some (mkObject (sj E))\<rparr>)))"

end
