(* ===== verification/ENIL_SessionFacts.thy ===== *)
theory ENIL_SessionFacts
  imports ENIL_SessionData
begin

text \<open>
  Facts about the documents of \<open>enil_session.c\<close>: lookups without case, setting fields, and the typed view's
  JSON form.
\<close>

section \<open>Names without case\<close>

declare lower_char.simps [simp del]

text \<open>The documented behaviour of the lookups without case, and of comparing two strings.\<close>

locale cjson_name_laws = cjson_laws J for J :: "'j cjson" +
  assumes get_ci: "isObject J j \<Longrightarrow> getItem J j k = map_option snd (find (\<lambda>(k', v). same_name k' k) (children J j))"
    and same_string: "isString J a \<Longrightarrow> isString J b \<Longrightarrow> sameItem J a b \<longleftrightarrow> valuestring J a = valuestring J b"

interpretation tree_names: cjson_name_laws "tree p q" for p q
proof
  show "getItem (tree p q) j k = map_option snd (find (\<lambda>(k', v). same_name k' k) (children (tree p q) j))" for j k
    by (simp add: same_name_def)
  show "isString (tree p q) a \<Longrightarrow> isString (tree p q) b \<Longrightarrow>
      sameItem (tree p q) a b \<longleftrightarrow> valuestring (tree p q) a = valuestring (tree p q) b" for a b
    by (cases a; cases b) (auto simp: tree_def)
qed

text \<open>An object whose names differ by more than case.\<close>

definition clean_doc :: "'j cjson \<Rightarrow> 'j \<Rightarrow> bool" where
  "clean_doc J doc \<longleftrightarrow> isObject J doc \<and> distinct (map (\<lambda>(k, v). map lower_char k) (children J doc))"

lemma same_name_sym: "same_name a b = same_name b a"
  by (auto simp: same_name_def)

lemma same_name_refl [simp]: "same_name a a"
  by (simp add: same_name_def)

lemma find_Some_same:
  "find (\<lambda>(k, v). same_name k key) kvs = Some (k, v) \<Longrightarrow> same_name k key \<and> (k, v) \<in> set kvs"
  by (induction kvs) (auto split: if_splits)

lemma find_None_same:
  "find (\<lambda>(k, v). same_name k key) kvs = None \<Longrightarrow> (k, v) \<in> set kvs \<Longrightarrow> \<not> same_name k key"
  by (induction kvs) (auto split: if_splits)

lemma find_append: "find P (xs @ ys) = (case find P xs of None \<Rightarrow> find P ys | Some x \<Rightarrow> Some x)"
  by (induction xs) auto

lemma lower_set_del1: "set (map f (del1 k kvs)) \<subseteq> set (map f kvs)"
  using set_del1 [of k kvs] by auto

lemma distinct_lower_del1:
  "distinct (map (\<lambda>(k, v). map lower_char k) kvs) \<Longrightarrow> distinct (map (\<lambda>(k, v). map lower_char k) (del1 k kvs))"
  by (induction k kvs rule: del1.induct) (use set_del1 in force)+

lemma find_del1_other:
  "\<not> same_name k key \<Longrightarrow> find (\<lambda>(k', v). same_name k' key) (del1 k kvs) = find (\<lambda>(k', v). same_name k' key) kvs"
  by (induction k kvs rule: del1.induct) auto

lemma lower_in: "(k, v) \<in> set kvs \<Longrightarrow> map lower_char k \<in> set (map (\<lambda>(k, v). map lower_char k) kvs)"
  by (induction kvs) auto

lemma find_del1_same:
  assumes "distinct (map (\<lambda>(k, v). map lower_char k) kvs)" and "(k, v) \<in> set kvs" and "same_name k key"
  shows "find (\<lambda>(k', v). same_name k' key) (del1 k kvs) = None"
  using assms
proof (induction k kvs rule: del1.induct)
  case (2 k k' w kvs)
  have new: "map lower_char k' \<notin> set (map (\<lambda>(k, v). map lower_char k) kvs)" using 2(2) by simp
  show ?case
  proof (cases "k' = k")
    case True
    have "\<not> same_name k'' key" if "(k'', u) \<in> set kvs" for k'' u
      using lower_in [OF that] new 2(4) True by (metis same_name_def)
    then show ?thesis using True by (auto simp: find_None_iff)
  next
    case False
    have mem: "(k, v) \<in> set kvs" using 2(3) False by auto
    then have "\<not> same_name k' key" using lower_in [OF mem] new 2(4) by (metis same_name_def)
    moreover have "distinct (map (\<lambda>(k, v). map lower_char k) kvs)" using 2(2) by simp
    ultimately show ?thesis using 2(1) [OF False] mem 2(4) False by simp
  qed
qed simp

context cjson_name_laws
begin

lemma delete_ci_clean: "clean_doc J doc \<Longrightarrow> clean_doc J (delete_ci J doc key)"
  by (auto simp: clean_doc_def delete_ci_def delete_cs distinct_lower_del1 split: option.splits)

lemma get_delete_ci:
  assumes "clean_doc J doc"
  shows "getItem J (delete_ci J doc key) k = (if same_name key k then None else getItem J doc k)"
proof (cases "find (\<lambda>(k, v). same_name k key) (children J doc)")
  case None
  then have "find (\<lambda>(k', v). same_name k' k) (children J doc) = None" if "same_name key k"
    using that by (auto simp: find_None_iff same_name_def)
  with None assms show ?thesis by (auto simp: delete_ci_def clean_doc_def get_ci)
next
  case (Some kv)
  obtain k0 v0 where kv: "kv = (k0, v0)" by (cases kv)
  with Some have k0: "same_name k0 key" "(k0, v0) \<in> set (children J doc)"
    using find_Some_same [of key "children J doc" k0 v0] by auto
  then have "same_name k0 k \<longleftrightarrow> same_name key k" by (simp add: same_name_def)
  moreover from assms have "isObject J doc" by (simp add: clean_doc_def)
  ultimately show ?thesis
    using Some kv k0 assms find_del1_same [of "children J doc" k0 v0 k] find_del1_other [of k0 k "children J doc"]
    by (auto simp: delete_ci_def get_ci delete_cs clean_doc_def)
qed

lemma get_cs_delete_ci:
  assumes "clean_doc J doc"
  shows "getItemCS J (delete_ci J doc key) k = (if same_name key k then None else getItemCS J doc k)"
proof -
  have obj: "isObject J doc" "isObject J (delete_ci J doc key)" "clean_doc J (delete_ci J doc key)"
    using assms delete_ci_clean [OF assms, of key] by (auto simp: clean_doc_def)
  show ?thesis
  proof (cases "same_name key k")
    case True
    then have "getItem J (delete_ci J doc key) k = None" using get_delete_ci [OF assms] by simp
    then have "k \<notin> fst ` set (children J (delete_ci J doc key))"
      using obj(2) by (force simp: get_ci find_None_iff)
    with True obj(2) show ?thesis by (simp add: get_cs map_of_eq_None_iff)
  next
    case False
    then have "k0 \<noteq> k" if "find (\<lambda>(k, v). same_name k key) (children J doc) = Some (k0, v0)" for k0 v0
      using find_Some_same [OF that] by (auto simp: same_name_def)
    with False obj(1) show ?thesis
      by (auto simp: delete_ci_def get_cs delete_cs split: option.splits)
  qed
qed

lemma add_clean:
  assumes "clean_doc J doc" and "getItem J doc key = None"
  shows "clean_doc J (addItem J doc key v)"
  using assms by (auto simp: clean_doc_def add_item get_ci find_None_iff same_name_def)

lemma get_add_ci:
  assumes "isObject J doc"
  shows "getItem J (addItem J doc key v) k =
    (case getItem J doc k of Some w \<Rightarrow> Some w | None \<Rightarrow> if same_name key k then Some v else None)"
  using assms by (auto simp: get_ci add_item find_append split: option.splits)

text \<open>Setting a field: delete it without case and add it.\<close>

lemma set_field_clean: "clean_doc J doc \<Longrightarrow> clean_doc J (addItem J (delete_ci J doc key) key v)"
  by (intro add_clean delete_ci_clean) (simp_all add: get_delete_ci)

lemma get_set_field:
  assumes "clean_doc J doc"
  shows "getItem J (addItem J (delete_ci J doc key) key v) k = (if same_name key k then Some v else getItem J doc k)"
    and "getItemCS J (addItem J (delete_ci J doc key) key v) k =
      (if key = k then Some v else if same_name key k then None else getItemCS J doc k)"
proof -
  have "isObject J (delete_ci J doc key)" using delete_ci_clean [OF assms, of key] by (simp add: clean_doc_def)
  then show "getItem J (addItem J (delete_ci J doc key) key v) k = (if same_name key k then Some v else getItem J doc k)"
    and "getItemCS J (addItem J (delete_ci J doc key) key v) k =
      (if key = k then Some v else if same_name key k then None else getItemCS J doc k)"
    using assms by (auto simp: get_add_ci get_add get_delete_ci get_cs_delete_ci split: option.splits)
qed

lemma set_obj_clean: "clean_doc J doc \<Longrightarrow> clean_doc J (set_obj_field J key v doc)"
  by (auto simp: set_obj_field_def set_field_clean delete_ci_clean split: option.splits)

lemma get_set_obj:
  assumes "clean_doc J doc"
  shows "getItem J (set_obj_field J key v doc) k = (if same_name key k then v else getItem J doc k)"
    and "getItemCS J (set_obj_field J key v doc) k =
      (if same_name key k then if key = k then v else None else getItemCS J doc k)"
  using assms by (auto simp: set_obj_field_def get_set_field get_delete_ci get_cs_delete_ci split: option.splits)

lemma new_clean [simp]: "clean_doc J (mkObject J)"
  by (simp add: clean_doc_def object_new)

text \<open>Setting several fields in turn: the last one of a name counts.\<close>

lemma set_all_fields:
  assumes "clean_doc J doc"
  shows "clean_doc J (foldl (\<lambda>d (k, v). set_obj_field J k v d) doc fs)"
    and "getItem J (foldl (\<lambda>d (k, v). set_obj_field J k v d) doc fs) key =
      (case find (\<lambda>(k, v). same_name k key) (rev fs) of None \<Rightarrow> getItem J doc key | Some (k, v) \<Rightarrow> v)"
    and "getItemCS J (foldl (\<lambda>d (k, v). set_obj_field J k v d) doc fs) key =
      (case find (\<lambda>(k, v). same_name k key) (rev fs) of
         None \<Rightarrow> getItemCS J doc key | Some (k, v) \<Rightarrow> if k = key then v else None)"
proof -
  have "clean_doc J (foldl (\<lambda>d (k, v). set_obj_field J k v d) doc fs) \<and>
    getItem J (foldl (\<lambda>d (k, v). set_obj_field J k v d) doc fs) key =
      (case find (\<lambda>(k, v). same_name k key) (rev fs) of None \<Rightarrow> getItem J doc key | Some (k, v) \<Rightarrow> v) \<and>
    getItemCS J (foldl (\<lambda>d (k, v). set_obj_field J k v d) doc fs) key =
      (case find (\<lambda>(k, v). same_name k key) (rev fs) of
         None \<Rightarrow> getItemCS J doc key | Some (k, v) \<Rightarrow> if k = key then v else None)"
    using assms
  proof (induction fs arbitrary: doc)
    case (Cons f fs)
    obtain k v where f: "f = (k, v)" by (cases f)
    from Cons.prems have c: "clean_doc J (set_obj_field J k v doc)" by (rule set_obj_clean)
    show ?case
      using Cons.IH [OF c] get_set_obj [OF Cons.prems, of k v key]
      by (simp add: f find_append split: option.splits)
  qed simp
  then show "clean_doc J (foldl (\<lambda>d (k, v). set_obj_field J k v d) doc fs)"
    and "getItem J (foldl (\<lambda>d (k, v). set_obj_field J k v d) doc fs) key =
      (case find (\<lambda>(k, v). same_name k key) (rev fs) of None \<Rightarrow> getItem J doc key | Some (k, v) \<Rightarrow> v)"
    and "getItemCS J (foldl (\<lambda>d (k, v). set_obj_field J k v d) doc fs) key =
      (case find (\<lambda>(k, v). same_name k key) (rev fs) of
         None \<Rightarrow> getItemCS J doc key | Some (k, v) \<Rightarrow> if k = key then v else None)"
    by blast+
qed

end

section \<open>The typed view\<close>

text \<open>What \<open>enil_session_to_json\<close> sets, as pairs of a name and the item it gets (none: it is deleted).\<close>

definition session_fields :: "'j session_env \<Rightarrow> 'j \<Rightarrow> 'j session_t \<Rightarrow> (string \<times> 'j option) list" where
  "session_fields E identity s =
     (let str = map_option (mkString (sj E)); num = (\<lambda>n. Some (mkNumber (sj E) (of_i64 E n)));
          dec = (\<lambda>n. Some (mkString (sj E) (show_int n)))
      in [(''clientIdentity'', Some identity), (''certificate'', str (certificate s)), (''e2eeKeys'', e2eeKeys s),
          (''e2eeLatestKeyId'', num (e2eeLatestKeyId s)), (''e2eeLoginMetaData'', e2eeLoginMetaData s),
          (''e2eeLoginPublicKey'', str (e2eeLoginPublicKey s)), (''e2eeVersion'', str (e2eeVersion s)),
          (''e2eeHashKeyChain'', str (e2eeHashKeyChain s)), (''mid'', str (mid s)),
          (''displayName'', str (displayName s)), (''regionCode'', str (regionCode s)),
          (''encryptedAccessTokens'', encryptedAccessTokens s), (''accessToken'', str (accessToken s)),
          (''refreshToken'', str (refreshToken s)), (''refreshJournalId'', str (refreshJournalId s)),
          (''durationUntilRefreshInSec'', dec (durationUntilRefreshInSec s)),
          (''tokenIssueTimeEpochSec'', dec (tokenIssueTimeEpochSec s)), (''reqSeq'', num (reqSeq s)),
          (''e2eeSequenceNumber'', num (e2eeSequenceNumber s)), (''workerRestoreState'', workerRestoreState s),
          (''refreshApiRetryPolicy'', refreshApiRetryPolicy s), (''lastPartialFullSyncs'', lastPartialFullSyncs s),
          (''needsReauth'', if needsReauth s then Some (mkBool (sj E) True) else None)])"

lemma set_as_obj:
  "set_str_field J k v = set_obj_field J k (map_option (mkString J) v)"
  "set_i64_str_field J k n = set_obj_field J k (Some (mkString J (show_int n)))"
  "set_i64_num_field E k n = set_obj_field (sj E) k (Some (mkNumber (sj E) (of_i64 E n)))"
  by (auto simp: set_str_field_def set_i64_str_field_def set_i64_num_field_def set_obj_field_def split: option.splits)

lemma set_as_obj_always:
  "addItem J (delete_ci J d k) k v = set_obj_field J k (Some v) d"
  "(if b then set_obj_field J k (Some v) d else delete_ci J d k) = set_obj_field J k (if b then Some v else None) d"
  by (auto simp: set_obj_field_def)

lemma to_json_fields:
  assumes "enil_identity_to_json (sj E) (Some (clientIdentity s)) = Some identity"
  shows "enil_session_to_json E (Some s) =
    Some (foldl (\<lambda>d (k, v). set_obj_field (sj E) k v d) (case snapshot s of None \<Rightarrow> mkObject (sj E) | Some r \<Rightarrow> r)
      (session_fields E identity s))"
  unfolding enil_session_to_json_def session_fields_def Let_def
  by (simp only: assms option.case foldl.simps prod.case set_as_obj set_as_obj_always)

definition session_keys :: "string list" where
  "session_keys = [''clientIdentity'', ''certificate'', ''e2eeKeys'', ''e2eeLatestKeyId'', ''e2eeLoginMetaData'',
     ''e2eeLoginPublicKey'', ''e2eeVersion'', ''e2eeHashKeyChain'', ''mid'', ''displayName'', ''regionCode'',
     ''encryptedAccessTokens'', ''accessToken'', ''refreshToken'', ''refreshJournalId'',
     ''durationUntilRefreshInSec'', ''tokenIssueTimeEpochSec'', ''reqSeq'', ''e2eeSequenceNumber'',
     ''workerRestoreState'', ''refreshApiRetryPolicy'', ''lastPartialFullSyncs'', ''needsReauth'', ''loginId'']"

lemma lower_chars:
  "lower_char CHR ''2'' = CHR ''2''"
  "lower_char CHR ''A'' = CHR ''a''"
  "lower_char CHR ''C'' = CHR ''c''"
  "lower_char CHR ''D'' = CHR ''d''"
  "lower_char CHR ''E'' = CHR ''e''"
  "lower_char CHR ''F'' = CHR ''f''"
  "lower_char CHR ''H'' = CHR ''h''"
  "lower_char CHR ''I'' = CHR ''i''"
  "lower_char CHR ''J'' = CHR ''j''"
  "lower_char CHR ''K'' = CHR ''k''"
  "lower_char CHR ''L'' = CHR ''l''"
  "lower_char CHR ''M'' = CHR ''m''"
  "lower_char CHR ''N'' = CHR ''n''"
  "lower_char CHR ''P'' = CHR ''p''"
  "lower_char CHR ''R'' = CHR ''r''"
  "lower_char CHR ''S'' = CHR ''s''"
  "lower_char CHR ''T'' = CHR ''t''"
  "lower_char CHR ''U'' = CHR ''u''"
  "lower_char CHR ''V'' = CHR ''v''"
  "lower_char CHR ''a'' = CHR ''a''"
  "lower_char CHR ''b'' = CHR ''b''"
  "lower_char CHR ''c'' = CHR ''c''"
  "lower_char CHR ''d'' = CHR ''d''"
  "lower_char CHR ''e'' = CHR ''e''"
  "lower_char CHR ''f'' = CHR ''f''"
  "lower_char CHR ''g'' = CHR ''g''"
  "lower_char CHR ''h'' = CHR ''h''"
  "lower_char CHR ''i'' = CHR ''i''"
  "lower_char CHR ''k'' = CHR ''k''"
  "lower_char CHR ''l'' = CHR ''l''"
  "lower_char CHR ''m'' = CHR ''m''"
  "lower_char CHR ''n'' = CHR ''n''"
  "lower_char CHR ''o'' = CHR ''o''"
  "lower_char CHR ''p'' = CHR ''p''"
  "lower_char CHR ''q'' = CHR ''q''"
  "lower_char CHR ''r'' = CHR ''r''"
  "lower_char CHR ''s'' = CHR ''s''"
  "lower_char CHR ''t'' = CHR ''t''"
  "lower_char CHR ''u'' = CHR ''u''"
  "lower_char CHR ''w'' = CHR ''w''"
  "lower_char CHR ''y'' = CHR ''y''"
  by code_simp+

lemma lower_keys:
  "map lower_char ''clientIdentity'' = ''clientidentity''"
  "map lower_char ''certificate'' = ''certificate''"
  "map lower_char ''e2eeKeys'' = ''e2eekeys''"
  "map lower_char ''e2eeLatestKeyId'' = ''e2eelatestkeyid''"
  "map lower_char ''e2eeLoginMetaData'' = ''e2eeloginmetadata''"
  "map lower_char ''e2eeLoginPublicKey'' = ''e2eeloginpublickey''"
  "map lower_char ''e2eeVersion'' = ''e2eeversion''"
  "map lower_char ''e2eeHashKeyChain'' = ''e2eehashkeychain''"
  "map lower_char ''mid'' = ''mid''"
  "map lower_char ''displayName'' = ''displayname''"
  "map lower_char ''regionCode'' = ''regioncode''"
  "map lower_char ''encryptedAccessTokens'' = ''encryptedaccesstokens''"
  "map lower_char ''accessToken'' = ''accesstoken''"
  "map lower_char ''refreshToken'' = ''refreshtoken''"
  "map lower_char ''refreshJournalId'' = ''refreshjournalid''"
  "map lower_char ''durationUntilRefreshInSec'' = ''durationuntilrefreshinsec''"
  "map lower_char ''tokenIssueTimeEpochSec'' = ''tokenissuetimeepochsec''"
  "map lower_char ''reqSeq'' = ''reqseq''"
  "map lower_char ''e2eeSequenceNumber'' = ''e2eesequencenumber''"
  "map lower_char ''workerRestoreState'' = ''workerrestorestate''"
  "map lower_char ''refreshApiRetryPolicy'' = ''refreshapiretrypolicy''"
  "map lower_char ''lastPartialFullSyncs'' = ''lastpartialfullsyncs''"
  "map lower_char ''needsReauth'' = ''needsreauth''"
  "map lower_char ''loginId'' = ''loginid''"
  by (simp_all add: lower_chars)

lemma same_keys0: "same_name a b \<longleftrightarrow> map lower_char a = map lower_char b"
  by (simp add: same_name_def)

lemma same_session_keys:
  "list_all (\<lambda>a. list_all (\<lambda>b. same_name a b = (a = b)) session_keys) session_keys"
  unfolding session_keys_def list.pred_inject same_keys0 lower_keys by simp

lemmas same_keys = same_session_keys [unfolded session_keys_def list.pred_inject]

lemma map_fst_session_fields: "map fst (session_fields E identity s) = butlast session_keys"
  by (simp add: session_fields_def session_keys_def Let_def)

text \<open>What a session can hold that its JSON form keeps.\<close>

definition storable :: "'j session_env \<Rightarrow> 'j session_t \<Rightarrow> bool" where
  "storable E s \<longleftrightarrow>
     well_formed (clientIdentity s) \<and> accessToken s \<noteq> None \<and>
     (\<forall>n \<in> {durationUntilRefreshInSec s, tokenIssueTimeEpochSec s}. LLONG_MIN \<le> n \<and> n \<le> LLONG_MAX) \<and>
     (\<forall>n \<in> {e2eeLatestKeyId s, e2eeSequenceNumber s, reqSeq s}. trunc (of_i64 E n) = n)"

lemma session_roundtrip:
  assumes L: "cjson_name_laws (sj E)" and "storable E s"
    and clean: "case snapshot s of None \<Rightarrow> True | Some r \<Rightarrow> clean_doc (sj E) r"
    and j: "enil_session_to_json E (Some s) = Some j"
  shows "enil_session_parse E (Some j) = Some (s\<lparr>snapshot := Some j\<rparr>)"
proof -
  note L0 = cjson_name_laws.axioms(1) [OF L]
  obtain identity where i: "enil_identity_to_json (sj E) (Some (clientIdentity s)) = Some identity"
    by (simp add: enil_identity_to_json_def)
  define base where "base = (case snapshot s of None \<Rightarrow> mkObject (sj E) | Some r \<Rightarrow> r)"
  have cb: "clean_doc (sj E) base"
    using clean cjson_name_laws.new_clean [OF L] by (simp add: base_def split: option.splits)
  have j': "j = foldl (\<lambda>d (k, v). set_obj_field (sj E) k v d) base (session_fields E identity s)"
    using j to_json_fields [OF i] by (simp add: base_def)
  note get = cjson_name_laws.set_all_fields (2,3) [OF L cb, of "session_fields E identity s", folded j']
  have idn: "enil_identity_parse (sj E) (Some identity) = (True, clientIdentity s)"
    using identity_of_json [OF L0 _ i] assms(2) by (simp add: storable_def)
  note make = cjson_laws.string_new [OF L0] cjson_laws.number_new [OF L0] cjson_laws.bool_new [OF L0]
  have str: "jstr (sj E) (map_option (mkString (sj E)) x) = x" for x
    by (cases x) (simp_all add: make)
  have i64: "enil_json_coerce_int64 (sj E) (Some (mkString (sj E) (show_int n))) = n" if "LLONG_MIN \<le> n" "n \<le> LLONG_MAX" for n
    using that strtoll10_show_int [of n] by (simp add: enil_json_coerce_int64_def make)
  have num: "enil_json_coerce_int64 (sj E) (Some (mkNumber (sj E) (of_i64 E n))) = n" if "trunc (of_i64 E n) = n" for n
    using that by (simp add: enil_json_coerce_int64_def make)
  have flag: "jis (isTrue (sj E)) (if b then Some (mkBool (sj E) True) else None) = b" for b
    by (simp add: make)
  have look: "getItem (sj E) j ''certificate'' = map_option (mkString (sj E)) (certificate s)"
    "getItem (sj E) j ''e2eeLoginPublicKey'' = map_option (mkString (sj E)) (e2eeLoginPublicKey s)"
    "getItem (sj E) j ''e2eeVersion'' = map_option (mkString (sj E)) (e2eeVersion s)"
    "getItem (sj E) j ''e2eeHashKeyChain'' = map_option (mkString (sj E)) (e2eeHashKeyChain s)"
    "getItem (sj E) j ''mid'' = map_option (mkString (sj E)) (mid s)"
    "getItem (sj E) j ''displayName'' = map_option (mkString (sj E)) (displayName s)"
    "getItem (sj E) j ''regionCode'' = map_option (mkString (sj E)) (regionCode s)"
    "getItem (sj E) j ''accessToken'' = map_option (mkString (sj E)) (accessToken s)"
    "getItem (sj E) j ''refreshToken'' = map_option (mkString (sj E)) (refreshToken s)"
    "getItem (sj E) j ''refreshJournalId'' = map_option (mkString (sj E)) (refreshJournalId s)"
    "getItem (sj E) j ''e2eeKeys'' = e2eeKeys s"
    "getItem (sj E) j ''e2eeLoginMetaData'' = e2eeLoginMetaData s"
    "getItem (sj E) j ''encryptedAccessTokens'' = encryptedAccessTokens s"
    "getItem (sj E) j ''workerRestoreState'' = workerRestoreState s"
    "getItem (sj E) j ''refreshApiRetryPolicy'' = refreshApiRetryPolicy s"
    "getItem (sj E) j ''lastPartialFullSyncs'' = lastPartialFullSyncs s"
    "getItem (sj E) j ''e2eeLatestKeyId'' = Some (mkNumber (sj E) (of_i64 E (e2eeLatestKeyId s)))"
    "getItem (sj E) j ''reqSeq'' = Some (mkNumber (sj E) (of_i64 E (reqSeq s)))"
    "getItem (sj E) j ''e2eeSequenceNumber'' = Some (mkNumber (sj E) (of_i64 E (e2eeSequenceNumber s)))"
    "getItem (sj E) j ''durationUntilRefreshInSec'' = Some (mkString (sj E) (show_int (durationUntilRefreshInSec s)))"
    "getItem (sj E) j ''tokenIssueTimeEpochSec'' = Some (mkString (sj E) (show_int (tokenIssueTimeEpochSec s)))"
    "getItem (sj E) j ''needsReauth'' = (if needsReauth s then Some (mkBool (sj E) True) else None)"
    "getItemCS (sj E) j ''clientIdentity'' = Some identity"
    unfolding get by (simp_all add: session_fields_def Let_def same_keys)
  show ?thesis
    using assms(2)
    by (simp add: enil_session_parse_def Let_def dup_str_field_def look str i64 num flag idn storable_def)
qed

end
