(* ===== verification/ENIL_SessionMerge.thy ===== *)
theory ENIL_SessionMerge
  imports ENIL_SessionFacts
begin

text \<open>
  What the operations of \<open>enil_session.c\<close> that write guarantee: saving is a three-way merge, a superseded
  login is never written to, and the timestamps of partial syncs never go back.
\<close>

section \<open>Writing\<close>

text \<open>\<open>mkstemp\<close> creates a file that did not exist.\<close>

definition fresh_temp :: "'j session_env \<Rightarrow> 't session_world \<Rightarrow> string \<Rightarrow> bool" where
  "fresh_temp E W p \<longleftrightarrow> (\<forall>l. wc_letters (wr E) = Some l \<longrightarrow> sfiles W (p @ ''.tmp.'' @ l) = None)"

lemma write_locked_cases:
  assumes "session_write_locked E W (Some p) (Some r) = (W', ok)" and "fresh_temp E W p"
  obtains (kept) "W' = W" "\<not> ok" | (written) "W' = put_file p (pretty E r) W" "ok = sync_parent_directory E p"
proof -
  have undo: "remove_file x (put_file x u (put_file x v W)) = W" "remove_file x (put_file x u W) = W"
    if "sfiles W x = None" for x u v
    using that by (auto simp: remove_file_def put_file_def fun_upd_idem)
  show thesis
    using assms kept written
    by (auto simp: session_write_locked_eq fresh_temp_def Let_def undo split: option.splits if_splits)
qed

section \<open>Merging\<close>

text \<open>One field of a three-way merge: a change against the baseline wins, the rest stays as it is.\<close>

definition three_way :: "('j \<Rightarrow> 'j \<Rightarrow> bool) \<Rightarrow> 'j option \<Rightarrow> 'j option \<Rightarrow> 'j option \<Rightarrow> 'j option" where
  "three_way same base nxt cur =
     (case nxt of
        Some v \<Rightarrow> (case base of Some old \<Rightarrow> if same old v then cur else Some v | None \<Rightarrow> Some v)
      | None \<Rightarrow> if base = None then cur else None)"

context cjson_laws
begin

lemma put_one:
  assumes "isObject J c" and "distinct (map fst (children J c))"
  shows "isObject J (addItem J (deleteCS J c k) k v)"
    "distinct (map fst (children J (addItem J (deleteCS J c k) k v)))"
    "getItemCS J (addItem J (deleteCS J c k) k v) k' = (if k' = k then Some v else getItemCS J c k')"
proof -
  have d: "isObject J (deleteCS J c k)" "children J (deleteCS J c k) = del1 k (children J c)"
    using assms(1) by (simp_all add: delete_cs)
  have none: "map_of (del1 k (children J c)) k = None" using assms(2) by (rule map_of_del1_same)
  show "isObject J (addItem J (deleteCS J c k) k v)" using d by (simp add: add_item)
  show "distinct (map fst (children J (addItem J (deleteCS J c k) k v)))"
    using none distinct_del1 [OF assms(2), of k] d by (auto simp: add_item map_of_eq_None_iff)
  show "getItemCS J (addItem J (deleteCS J c k) k v) k' = (if k' = k then Some v else getItemCS J c k')"
    using none d assms(1) by (auto simp: get_add get_cs split: option.splits)
qed

lemma copy_changed_gets:
  assumes "isObject J c" and "distinct (map fst (children J c))" and "distinct (map fst items)"
  shows "isObject J (copy_changed J b c items) \<and> distinct (map fst (children J (copy_changed J b c items))) \<and>
    getItemCS J (copy_changed J b c items) k =
      (case map_of items k of
         None \<Rightarrow> getItemCS J c k
       | Some item \<Rightarrow> if (case getItemCS J b k of None \<Rightarrow> False | Some old \<Rightarrow> sameItem J old item)
                    then getItemCS J c k else Some item)"
  using assms
proof (induction items arbitrary: c)
  case (Cons it items)
  obtain k0 v where it: "it = (k0, v)" by (cases it)
  define c' where "c' = (if (case getItemCS J b k0 of None \<Rightarrow> False | Some old \<Rightarrow> sameItem J old v) then c
      else addItem J (deleteCS J c k0) k0 v)"
  have c': "isObject J c'" "distinct (map fst (children J c'))"
    using put_one [OF Cons.prems(1,2)] Cons.prems(1,2) by (auto simp: c'_def)
  have step: "copy_changed J b c (it # items) = copy_changed J b c' items"
    by (simp add: copy_changed_def it c'_def)
  have "k0 \<notin> fst ` set items" and d: "distinct (map fst items)" using Cons.prems(3) by (auto simp: it)
  then have none: "map_of items k0 = None" by (simp add: map_of_eq_None_iff)
  note ih = Cons.IH [OF c' d]
  show ?case
  proof (cases "k = k0")
    case True
    then have "getItemCS J c' k = (if (case getItemCS J b k of None \<Rightarrow> False | Some old \<Rightarrow> sameItem J old v)
        then getItemCS J c k else Some v)"
      using put_one(3) [OF Cons.prems(1,2), of k0 v k] by (simp add: c'_def)
    with ih none True show ?thesis unfolding it step [unfolded it] by simp
  next
    case False
    then have g: "getItemCS J c' k = getItemCS J c k"
      using put_one(3) [OF Cons.prems(1,2), of k0 v k] by (simp add: c'_def)
    from ih [unfolded g] False show ?thesis unfolding it step [unfolded it] by simp
  qed
qed (simp add: copy_changed_def)

lemma drop_removed_gets:
  assumes "isObject J c" and "distinct (map fst (children J c))"
  shows "getItemCS J (drop_removed J nxt c items) k =
      (if k \<in> fst ` set items \<and> getItem J nxt k = None then None else getItemCS J c k)"
  using assms
proof (induction items arbitrary: c)
  case (Cons it items)
  obtain k0 v where it: "it = (k0, v)" by (cases it)
  define c' where "c' = (if getItem J nxt k0 = None then deleteCS J c k0 else c)"
  have c': "isObject J c'" "distinct (map fst (children J c'))"
    using Cons.prems by (auto simp: c'_def delete_cs distinct_del1)
  have g: "getItemCS J c' k = (if k = k0 \<and> getItem J nxt k0 = None then None else getItemCS J c k)"
    using Cons.prems c'(1) by (auto simp: c'_def get_cs delete_cs map_of_del1_same)
  have "drop_removed J nxt c (it # items) = drop_removed J nxt c' items"
    by (simp add: drop_removed_def it c'_def)
  moreover have "k \<in> fst ` set (it # items) \<longleftrightarrow> k = k0 \<or> k \<in> fst ` set items" by (simp add: it)
  ultimately show ?case using Cons.IH [OF c'] g by (cases "k = k0") auto
qed (simp add: drop_removed_def)

end


lemma find_same_names:
  assumes "map fst xs = map fst ys"
  shows "(case find (\<lambda>(k', v). same_name k' k) xs of None \<Rightarrow> None | Some (k', v) \<Rightarrow> Some k') =
    (case find (\<lambda>(k', v). same_name k' k) ys of None \<Rightarrow> None | Some (k', v) \<Rightarrow> Some k')"
  using assms
proof (induction xs arbitrary: ys)
  case (Cons x xs)
  then obtain y zs where "ys = y # zs" "fst x = fst y" "map fst xs = map fst zs" by auto
  with Cons.IH [of zs] show ?case by (cases x; cases y) auto
qed simp

text \<open>The documents of a save: the new one and the baseline differ from the snapshot in the same names.\<close>

lemma saved_documents:
  assumes L: "cjson_name_laws (sj E)" and snap: "snapshot s = Some snap" "clean_doc (sj E) snap"
    and p: "enil_session_parse E (Some snap) = Some o'"
  obtains base nxt where "enil_session_to_json E (Some o') = Some base" "enil_session_to_json E (Some s) = Some nxt"
    "clean_doc (sj E) base" "clean_doc (sj E) nxt"
    "getItemCS (sj E) base ''loginId'' = getItemCS (sj E) snap ''loginId''"
    "\<And>k. getItemCS (sj E) base k \<noteq> None \<Longrightarrow> getItemCS (sj E) nxt k = None \<Longrightarrow> getItem (sj E) nxt k = None"
proof -
  obtain i1 where i1: "enil_identity_to_json (sj E) (Some (clientIdentity o')) = Some i1"
    by (simp add: enil_identity_to_json_def)
  obtain i2 where i2: "enil_identity_to_json (sj E) (Some (clientIdentity s)) = Some i2"
    by (simp add: enil_identity_to_json_def)
  have o': "snapshot o' = Some snap"
    using p by (auto simp: enil_session_parse_def Let_def split: option.splits prod.splits if_splits)
  define base where "base = foldl (\<lambda>d (k, v). set_obj_field (sj E) k v d) snap (session_fields E i1 o')"
  define nxt where "nxt = foldl (\<lambda>d (k, v). set_obj_field (sj E) k v d) snap (session_fields E i2 s)"
  note base = cjson_name_laws.set_all_fields [OF L snap(2), of "session_fields E i1 o'", folded base_def]
  note nxt = cjson_name_laws.set_all_fields [OF L snap(2), of "session_fields E i2 s", folded nxt_def]
  have login: "find (\<lambda>(k, v). same_name k ''loginId'') (rev (session_fields E i1 o')) = None"
    by (simp add: session_fields_def Let_def same_keys)
  have names: "map fst (rev (session_fields E i1 o')) = map fst (rev (session_fields E i2 s))"
    by (simp add: rev_map [symmetric] map_fst_session_fields)
  have "getItem (sj E) nxt k = None" if b: "getItemCS (sj E) base k \<noteq> None" and n: "getItemCS (sj E) nxt k = None" for k
  proof (cases "find (\<lambda>(k', v). same_name k' k) (rev (session_fields E i1 o'))")
    case None
    then have "find (\<lambda>(k', v). same_name k' k) (rev (session_fields E i2 s)) = None"
      using find_same_names [OF names, of k] by (auto split: option.splits)
    with None b n show ?thesis using base(3) [of k] nxt(3) [of k] by simp
  next
    case (Some kv)
    obtain k' v where kv: "kv = (k', v)" by (cases kv)
    then obtain v' where v': "find (\<lambda>(k', v). same_name k' k) (rev (session_fields E i2 s)) = Some (k', v')"
      using find_same_names [OF names, of k] Some by (auto split: option.splits)
    have "k' = k" using b base(3) [of k] Some kv by (auto split: if_splits)
    with n v' nxt(2,3) [of k] show ?thesis by simp
  qed
  then show thesis
    using that [of base nxt] to_json_fields [OF i1] to_json_fields [OF i2] o' snap(1) base(1) nxt(1)
      base(3) [of "''loginId''"] login
    by (simp add: base_def nxt_def)
qed

lemma distinct_lower_fst:
  "distinct (map (\<lambda>(k, v). map lower_char k) kvs) \<Longrightarrow> distinct (map fst kvs)"
proof (induction kvs)
  case (Cons a kvs)
  then show ?case by (cases a) (use lower_in in force)
qed simp

text \<open>What a save does: nothing, or one write of the merged document.\<close>

lemma saved_merge:
  assumes L: "cjson_name_laws (sj E)" and snap: "snapshot s = Some snap" "clean_doc (sj E) snap"
    and cur: "enil_session_read E W (Some p) = Some c" "distinct (map fst (children (sj E) c))"
    and save: "enil_session_save E W (Some p) s = (W', ok)"
  shows "(W' = W \<and> \<not> ok) \<or>
    (\<exists>base nxt doc.
       enil_session_to_json E (enil_session_parse E (Some snap)) = Some base \<and>
       enil_session_to_json E (Some s) = Some nxt \<and>
       \<not> login_superseded (sj E) (getItemCS (sj E) snap ''loginId'') (getItemCS (sj E) c ''loginId'') \<and>
       session_write_locked E W (Some p) (Some doc) = (W', ok) \<and>
       (\<forall>k. getItemCS (sj E) doc k =
          three_way (sameItem (sj E)) (getItemCS (sj E) base k) (getItemCS (sj E) nxt k) (getItemCS (sj E) c k)))"
proof (cases "enil_session_parse E (Some snap)")
  case None
  with save snap cur show ?thesis
    by (auto simp: enil_session_save_def Let_def enil_session_to_json_def split: option.splits)
next
  case (Some o')
  note L0 = cjson_name_laws.axioms(1) [OF L]
  obtain base nxt where docs: "enil_session_to_json E (Some o') = Some base" "enil_session_to_json E (Some s) = Some nxt"
    "clean_doc (sj E) base" "clean_doc (sj E) nxt"
    "getItemCS (sj E) base ''loginId'' = getItemCS (sj E) snap ''loginId''"
    "\<And>k. getItemCS (sj E) base k \<noteq> None \<Longrightarrow> getItemCS (sj E) nxt k = None \<Longrightarrow> getItem (sj E) nxt k = None"
    using saved_documents [OF L snap Some] by metis
  show ?thesis
  proof (cases "isObject (sj E) c \<and>
      \<not> login_superseded (sj E) (getItemCS (sj E) base ''loginId'') (getItemCS (sj E) c ''loginId'')")
    case False
    then have "enil_session_save E W (Some p) s = (W, False)"
      by (auto simp: enil_session_save_def Let_def snap cur Some docs(1,2))
    with save show ?thesis by simp
  next
    case True
    define doc where "doc = drop_removed (sj E) nxt (copy_changed (sj E) base c (children (sj E) nxt)) (children (sj E) base)"
    have w: "session_write_locked E W (Some p) (Some doc) = (W', ok)"
      using save snap cur Some docs True by (simp add: enil_session_save_def Let_def doc_def)
    have nn: "distinct (map fst (children (sj E) nxt))" "isObject (sj E) nxt" "isObject (sj E) base"
      using docs(3,4) distinct_lower_fst by (auto simp: clean_doc_def)
    note copied = cjson_laws.copy_changed_gets [OF L0 _ cur(2) nn(1), of base]
    have "getItemCS (sj E) doc k =
        three_way (sameItem (sj E)) (getItemCS (sj E) base k) (getItemCS (sj E) nxt k) (getItemCS (sj E) c k)" for k
    proof -
      have "getItemCS (sj E) doc k =
          (if k \<in> fst ` set (children (sj E) base) \<and> getItem (sj E) nxt k = None then None
           else getItemCS (sj E) (copy_changed (sj E) base c (children (sj E) nxt)) k)"
        using cjson_laws.drop_removed_gets [OF L0] copied True unfolding doc_def by blast
      also have "k \<in> fst ` set (children (sj E) base) \<longleftrightarrow> getItemCS (sj E) base k \<noteq> None"
        using nn(3) by (auto simp: cjson_laws.get_cs [OF L0] map_of_eq_None_iff)
      finally have d: "getItemCS (sj E) doc k =
          (if getItemCS (sj E) base k \<noteq> None \<and> getItem (sj E) nxt k = None then None
           else getItemCS (sj E) (copy_changed (sj E) base c (children (sj E) nxt)) k)" .
      have g: "getItemCS (sj E) nxt k = map_of (children (sj E) nxt) k" using nn(2) by (simp add: cjson_laws.get_cs [OF L0])
      have some: "getItem (sj E) nxt k \<noteq> None" if "getItemCS (sj E) nxt k = Some v" for v
        using that nn(2) by (auto simp: cjson_laws.get_cs [OF L0] cjson_name_laws.get_ci [OF L] find_None_iff
            dest!: map_of_SomeD)
      show ?thesis
        using copied [of k, folded g] True docs(6) [of k] some d
        by (cases "getItemCS (sj E) nxt k"; cases "getItemCS (sj E) base k") (auto simp: three_way_def)
    qed
    then show ?thesis
      using w docs Some True by (metis (no_types, lifting))
  qed
qed

section \<open>Properties\<close>

text \<open>C26: Saving a session is a three-way merge under its own login: a save either leaves the files alone, or
  replaces only the session file, by a document in which every field the caller changed since it loaded has
  the caller's value, every field it removed is gone, and every other field still has the value another
  operation has put there meanwhile (a rotated token, say).  It reports success only then, and never writes
  when the file belongs to another login.\<close>

theorem session_save_merges:
  assumes L: "cjson_name_laws (sj E)" and snap: "snapshot s = Some snap" "clean_doc (sj E) snap"
    and cur: "enil_session_read E W (Some p) = Some c" "distinct (map fst (children (sj E) c))"
    and fresh: "fresh_temp E W p"
    and save: "enil_session_save E W (Some p) s = (W', ok)"
  shows "(W' = W \<and> \<not> ok) \<or>
    (\<exists>base nxt doc.
       enil_session_to_json E (enil_session_parse E (Some snap)) = Some base \<and>
       enil_session_to_json E (Some s) = Some nxt \<and>
       \<not> login_superseded (sj E) (getItemCS (sj E) snap ''loginId'') (getItemCS (sj E) c ''loginId'') \<and>
       W' = put_file p (pretty E doc) W \<and> ok = sync_parent_directory E p \<and>
       (\<forall>k. getItemCS (sj E) doc k =
          three_way (sameItem (sj E)) (getItemCS (sj E) base k) (getItemCS (sj E) nxt k) (getItemCS (sj E) c k)))"
  using saved_merge [OF L snap cur save] write_locked_cases [OF _ fresh] by blast

text \<open>C27: A login that was replaced is never touched: once the session file belongs to another login, every
  write started under the old one fails and changes nothing: saving a session loaded before, completing or
  queueing partial syncs, and accepting a rotated token; and the old login's thread neither continues nor
  gets the new login's token.\<close>

theorem superseded_login_untouched:
  assumes L: "cjson_name_laws (sj E)" and cur: "enil_session_read E W (Some p) = Some c"
    and new: "jstr (sj E) (getItemCS (sj E) c ''loginId'') = Some new"
    and snap: "snapshot s = Some snap" "clean_doc (sj E) snap" "jstr (sj E) (getItemCS (sj E) snap ''loginId'') \<noteq> Some new"
    and bound: "current_binding E W t = Some b" "bpath b = p" "blogin_id b \<noteq> Some new"
  shows "enil_session_save E W (Some p) s = (W, False) \<and>
    enil_session_complete_partial_full_syncs E W (Some p) (Some snap) = (W, False) \<and>
    enil_session_update_partial_full_syncs E W t (Some p) categories = (W, - 1) \<and>
    enil_session_accept_next_access E W t previous nxt = (W, False) \<and>
    enil_session_continue_identity E W t (Some p) = (W, False) \<and>
    enil_session_bound_access_token E W t = (- 1, None)"
proof -
  have no: "\<not> thread_matches E W t (Some c)"
    using new bound by (auto simp: thread_matches_def binding_matches_def Let_def split: option.splits if_splits)
  have other: "\<not> sameItem (sj E) x y" if "jstr (sj E) (Some x) = Some v" "jstr (sj E) (Some y) = Some w" "v \<noteq> w" for x y v w
    using that cjson_name_laws.same_string [OF L, of x y] by (auto split: if_splits)
  obtain now where now: "getItemCS (sj E) c ''loginId'' = Some now" "jstr (sj E) (Some now) = Some new"
    using new by (cases "getItemCS (sj E) c ''loginId''") auto
  have old: "jstr (sj E) before = None \<or> \<not> sameItem (sj E) (the before) now" if "jstr (sj E) before \<noteq> Some new" for before
    using that other [of "the before" _ now new] now by (cases before) auto
  have save: "enil_session_save E W (Some p) s = (W, False)"
  proof (cases "enil_session_parse E (Some snap)")
    case None
    then show ?thesis
      by (auto simp: enil_session_save_def Let_def enil_session_to_json_def snap(1) cur split: option.splits)
  next
    case (Some o')
    obtain base nxt where docs: "enil_session_to_json E (Some o') = Some base" "enil_session_to_json E (Some s) = Some nxt"
      "getItemCS (sj E) base ''loginId'' = getItemCS (sj E) snap ''loginId''"
      using saved_documents [OF L snap(1,2) Some] by metis
    have "login_superseded (sj E) (getItemCS (sj E) base ''loginId'') (getItemCS (sj E) c ''loginId'')"
      using old [OF snap(3)] now by (auto simp: login_superseded_def docs(3))
    then show ?thesis
      by (auto simp: enil_session_save_def Let_def snap(1) cur Some docs(1,2))
  qed
  have complete: "enil_session_complete_partial_full_syncs E W (Some p) (Some snap) = (W, False)"
    using old [OF snap(3)] now by (auto simp: enil_session_complete_partial_full_syncs_def Let_def cur)
  have "enil_session_update_partial_full_syncs E W t (Some p) categories = (W, - 1)"
    using no bound by (auto simp: enil_session_update_partial_full_syncs_def Let_def cur)
  moreover have "enil_session_accept_next_access E W t previous nxt = (W, False)"
    using no bound by (auto simp: enil_session_accept_next_access_def Let_def cur split: option.splits)
  moreover have "enil_session_continue_identity E W t (Some p) = (W, False)"
    using no bound by (simp add: enil_session_continue_identity_def cur)
  moreover have "enil_session_bound_access_token E W t = (- 1, None)"
    using no bound by (simp add: enil_session_bound_access_token_def Let_def cur)
  ultimately show ?thesis using save complete by blast
qed

section \<open>Partial syncs\<close>

definition stamp :: "'j cjson \<Rightarrow> 'j option \<Rightarrow> string \<Rightarrow> int" where
  "stamp J m k = enil_json_coerce_int64 J (jget J m k)"

definition fits_i64 :: "int \<Rightarrow> bool" where
  "fits_i64 n \<longleftrightarrow> LLONG_MIN \<le> n \<and> n \<le> LLONG_MAX"

context cjson_name_laws
begin

lemma no_ci_no_cs: "isObject J m \<Longrightarrow> getItem J m k = None \<Longrightarrow> getItemCS J m k = None"
  by (force simp: get_cs get_ci find_None_iff map_of_eq_None_iff)

lemma stamp_new: "fits_i64 v \<Longrightarrow> enil_json_coerce_int64 J (Some (mkString J (show_int v))) = v"
  using strtoll10_show_int [of v] by (simp add: enil_json_coerce_int64_def string_new fits_i64_def)

lemma merge_stamp:
  assumes "merge_partial_timestamp J m key v = Some (m', ch)" and "isObject J m" and "fits_i64 v"
  shows "isObject J m' \<and> stamp J (Some m') k = (if k = key then max (stamp J (Some m) key) v else stamp J (Some m) k) \<and>
    (\<not> ch \<longrightarrow> m' = m)"
proof (cases "v \<le> stamp J (Some m) key")
  case True
  with assms(1,2) show ?thesis by (auto simp: merge_partial_timestamp_def stamp_def)
next
  case False
  then have nle: "\<not> v \<le> enil_json_coerce_int64 J (getItemCS J m key)" by (simp add: stamp_def)
  have ch: "ch" using assms(1) nle by (auto simp: merge_partial_timestamp_def split: if_splits)
  show ?thesis
  proof (cases "getItem J m key = None")
    case True
    then have m': "m' = addItem J m key (mkString J (show_int v))"
      using assms(1) nle by (auto simp: merge_partial_timestamp_def)
    with m' ch assms(2,3) nle stamp_new [OF assms(3)] no_ci_no_cs [OF assms(2) True] show ?thesis
      by (auto simp: stamp_def add_item get_add max_def split: option.splits)
  next
    case False
    then obtain x where x: "getItemCS J m key = Some x" and m': "m' = replaceCS J m key (mkString J (show_int v))"
      using assms(1) nle by (auto simp: merge_partial_timestamp_def split: if_splits)
    have "key \<in> fst ` set (children J m)" using x assms(2) by (force simp: get_cs dest: map_of_SomeD)
    with m' ch assms(2,3) nle stamp_new [OF assms(3)] show ?thesis
      by (auto simp: stamp_def get_cs replace_cs map_of_rep1 max_def)
  qed
qed

text \<open>Queueing keeps every pending stamp and every new request that is not yet completed.\<close>

lemma queue_syncs_stamps:
  assumes "queue_syncs J completed items pending n ch = Some (pending', n', ch')" and "isObject J pending"
    and "\<forall>(k, item) \<in> set items. fits_i64 (enil_json_coerce_int64 J (Some item))"
  shows "isObject J pending' \<and> (\<forall>k. stamp J (Some pending) k \<le> stamp J (Some pending') k) \<and>
    (\<forall>(k, item) \<in> set items. stamp J (Some completed) k < enil_json_coerce_int64 J (Some item) \<longrightarrow>
       enil_json_coerce_int64 J (Some item) \<le> stamp J (Some pending') k) \<and>
    (n' \<longleftrightarrow> n \<or> (\<exists>(k, item) \<in> set items. stamp J (Some completed) k < enil_json_coerce_int64 J (Some item))) \<and>
    (ch \<longrightarrow> ch') \<and> (\<not> ch' \<longrightarrow> pending' = pending)"
  using assms
proof (induction items arbitrary: pending n ch)
  case (Cons it items)
  obtain k item where it: "it = (k, item)" by (cases it)
  let ?v = "enil_json_coerce_int64 J (Some item)"
  have fit: "fits_i64 ?v" "\<forall>(k, item) \<in> set items. fits_i64 (enil_json_coerce_int64 J (Some item))"
    using Cons.prems(3) by (auto simp: it)
  show ?case
  proof (cases "?v \<le> stamp J (Some completed) k")
    case True
    with Cons.prems(1) have "queue_syncs J completed items pending n ch = Some (pending', n', ch')"
      by (simp add: it stamp_def Let_def)
    from Cons.IH [OF this Cons.prems(2) fit(2)] True show ?thesis by (auto simp: it)
  next
    case False
    then obtain p1 m where m: "merge_partial_timestamp J pending k ?v = Some (p1, m)"
      and rest: "queue_syncs J completed items p1 True (ch \<or> m) = Some (pending', n', ch')"
      using Cons.prems(1) by (auto simp: it stamp_def Let_def split: option.splits)
    note one = merge_stamp [OF m Cons.prems(2) fit(1)]
    then have "isObject J p1" by blast
    note ih = Cons.IH [OF rest this fit(2)]
    have up: "stamp J (Some pending) k' \<le> stamp J (Some p1) k'" "?v \<le> stamp J (Some p1) k" for k'
      using one by auto
    have "stamp J (Some pending) k' \<le> stamp J (Some pending') k'" for k'
      using ih up(1) order_trans by blast
    moreover have "?v \<le> stamp J (Some pending') k" using ih up(2) order_trans by blast
    moreover have "\<not> ch' \<longrightarrow> pending' = pending" using ih one by blast
    ultimately show ?thesis using ih False by (auto simp: it)
  qed
qed simp

text \<open>Completing raises the completed stamps, and drops a pending one only when it is covered.\<close>

lemma acknowledge_syncs_stamps:
  assumes "acknowledge_syncs J items completed pending = Some (completed', pending')"
    and "isObject J completed" and "isObject J pending"
    and "\<forall>(k, item) \<in> set items. fits_i64 (enil_json_coerce_int64 J (Some item))"
  shows "isObject J completed' \<and> isObject J pending' \<and>
    (\<forall>k. stamp J (Some completed) k \<le> stamp J (Some completed') k) \<and>
    (\<forall>(k, item) \<in> set items. enil_json_coerce_int64 J (Some item) \<le> stamp J (Some completed') k) \<and>
    (\<forall>k. (\<forall>item. (k, item) \<in> set items \<longrightarrow> enil_json_coerce_int64 J (Some item) < stamp J (Some pending) k) \<longrightarrow>
       getItemCS J pending' k = getItemCS J pending k)"
  using assms
proof (induction items arbitrary: completed pending)
  case (Cons it items)
  obtain k item where it: "it = (k, item)" by (cases it)
  let ?v = "enil_json_coerce_int64 J (Some item)"
  define p1 where "p1 = (if getItemCS J pending k \<noteq> None \<and> stamp J (Some pending) k \<le> ?v then deleteCS J pending k else pending)"
  have fit: "fits_i64 ?v" "\<forall>(k, item) \<in> set items. fits_i64 (enil_json_coerce_int64 J (Some item))"
    using Cons.prems(4) by (auto simp: it)
  obtain c1 ch where m: "merge_partial_timestamp J completed k ?v = Some (c1, ch)"
    and rest: "acknowledge_syncs J items c1 p1 = Some (completed', pending')"
    using Cons.prems(1) by (auto simp: it stamp_def Let_def p1_def split: option.splits if_splits)
  note one = merge_stamp [OF m Cons.prems(2) fit(1)]
  have p1: "isObject J p1" using Cons.prems(3) by (simp add: p1_def delete_cs)
  from one have "isObject J c1" by blast
  note ih = Cons.IH [OF rest this p1 fit(2)]
  have up: "stamp J (Some completed) k' \<le> stamp J (Some c1) k'" "?v \<le> stamp J (Some c1) k" for k'
    using one by auto
  have "stamp J (Some completed) k' \<le> stamp J (Some completed') k'" for k'
    using ih up(1) order_trans by blast
  moreover have "?v \<le> stamp J (Some completed') k" using ih up(2) order_trans by blast
  moreover have "getItemCS J pending' k' = getItemCS J pending k'"
    if "\<forall>item. (k', item) \<in> set (it # items) \<longrightarrow> enil_json_coerce_int64 J (Some item) < stamp J (Some pending) k'" for k'
  proof -
    have same: "getItemCS J p1 k' = getItemCS J pending k'"
    proof (cases "k' = k")
      case True
      then have "?v < stamp J (Some pending) k" using that by (auto simp: it)
      then show ?thesis by (simp add: p1_def)
    next
      case False
      then show ?thesis using Cons.prems(3) by (simp add: p1_def get_cs delete_cs)
    qed
    then have "stamp J (Some p1) k' = stamp J (Some pending) k'" by (simp add: stamp_def)
    with ih that same show ?thesis by simp
  qed
  ultimately show ?case using ih by (auto simp: it)
qed simp

end

text \<open>The stamps a session document holds.\<close>

definition doc_stamp :: "'j cjson \<Rightarrow> 'j \<Rightarrow> string \<Rightarrow> string \<Rightarrow> int" where
  "doc_stamp J doc name k = stamp J (getItemCS J doc name) k"

context cjson_laws
begin

lemma partial_map_facts:
  assumes "partial_map J doc name = Some (doc1, m)" and "isObject J doc" and "distinct (map fst (children J doc))"
  shows "isObject J m" "isObject J doc1" "distinct (map fst (children J doc1))" "getItemCS J doc1 name = Some m"
    "\<And>k. doc_stamp J doc1 n k = doc_stamp J doc n k" "\<And>k. doc_stamp J doc name k = stamp J (Some m) k"
    "\<And>k. k \<noteq> name \<Longrightarrow> getItemCS J doc1 k = getItemCS J doc k"
proof -
  have new: "stamp J (Some (mkObject J)) k = 0" "stamp J None k = 0" for k
    by (simp_all add: stamp_def get_new enil_json_coerce_int64_def)
  have all: "isObject J m \<and> isObject J doc1 \<and> distinct (map fst (children J doc1)) \<and> getItemCS J doc1 name = Some m \<and>
    (\<forall>n k. doc_stamp J doc1 n k = doc_stamp J doc n k) \<and> (\<forall>k. doc_stamp J doc name k = stamp J (Some m) k) \<and>
    (\<forall>k. k \<noteq> name \<longrightarrow> getItemCS J doc1 k = getItemCS J doc k)"
  proof (cases "getItemCS J doc name")
    case None
    then have m: "doc1 = addItem J doc name (mkObject J)" "m = mkObject J"
      using assms(1) by (auto simp: partial_map_def)
    have "name \<notin> set (map fst (children J doc))"
      using None assms(2) by (simp add: get_cs map_of_eq_None_iff)
    moreover have "getItemCS J doc1 k = (if k = name then Some m else getItemCS J doc k)" for k
      using None assms(2) by (auto simp: m get_add split: option.splits)
    ultimately show ?thesis using assms(2,3) None
      by (auto simp: m object_new add_item doc_stamp_def new)
  next
    case (Some x)
    with assms show ?thesis by (auto simp: partial_map_def doc_stamp_def split: if_splits)
  qed
  then show "isObject J m" "isObject J doc1" "distinct (map fst (children J doc1))" "getItemCS J doc1 name = Some m"
    "\<And>k. doc_stamp J doc1 n k = doc_stamp J doc n k" "\<And>k. doc_stamp J doc name k = stamp J (Some m) k"
    "\<And>k. k \<noteq> name \<Longrightarrow> getItemCS J doc1 k = getItemCS J doc k"
    by auto
qed

lemma put_map_get:
  assumes "isObject J doc" and "getItemCS J doc name = Some m"
  shows "isObject J (put_map J name m' doc)" "map fst (children J (put_map J name m' doc)) = map fst (children J doc)"
    "getItemCS J (put_map J name m' doc) k = (if k = name then Some m' else getItemCS J doc k)"
proof -
  have "name \<in> fst ` set (children J doc)" using assms by (force simp: get_cs dest: map_of_SomeD)
  then show "getItemCS J (put_map J name m' doc) k = (if k = name then Some m' else getItemCS J doc k)"
    using assms(1) by (auto simp: put_map_def get_cs replace_cs map_of_rep1)
qed (use assms(1) in \<open>simp_all add: put_map_def replace_cs\<close>)

end

text \<open>Both maps of a session document.\<close>

lemma both_maps:
  assumes L: "cjson_laws J" and "partial_map J c ''pendingPartialFullSyncs'' = Some (d1, pending)"
    and "partial_map J d1 ''lastPartialFullSyncs'' = Some (d2, completed)"
    and "isObject J c" and "distinct (map fst (children J c))"
  shows "isObject J pending" "isObject J completed" "isObject J d2" "distinct (map fst (children J d2))"
    "getItemCS J d2 ''pendingPartialFullSyncs'' = Some pending" "getItemCS J d2 ''lastPartialFullSyncs'' = Some completed"
    "\<And>n k. doc_stamp J d2 n k = doc_stamp J c n k"
    "\<And>k. doc_stamp J c ''pendingPartialFullSyncs'' k = stamp J (Some pending) k"
    "\<And>k. doc_stamp J c ''lastPartialFullSyncs'' k = stamp J (Some completed) k"
proof -
  note a = cjson_laws.partial_map_facts [OF L assms(2,4,5)]
  note b = cjson_laws.partial_map_facts [OF L assms(3) a(2,3)]
  show "isObject J pending" "isObject J completed" "isObject J d2" "distinct (map fst (children J d2))"
    "getItemCS J d2 ''pendingPartialFullSyncs'' = Some pending" "getItemCS J d2 ''lastPartialFullSyncs'' = Some completed"
    using a(1,4) b(1,2,3,4) b(7) [of "''pendingPartialFullSyncs''"] by simp_all
  show "doc_stamp J d2 n k = doc_stamp J c n k" for n k using a(5) b(5) by simp
  show "doc_stamp J c ''pendingPartialFullSyncs'' k = stamp J (Some pending) k" for k using a(6) by simp
  show "doc_stamp J c ''lastPartialFullSyncs'' k = stamp J (Some completed) k" for k using a(5) b(6) by simp
qed

text \<open>What queueing and completing leave, as conditions on the old and the new document.\<close>

definition queued :: "'j cjson \<Rightarrow> 'j \<Rightarrow> 'j \<Rightarrow> 'j \<Rightarrow> bool" where
  "queued J requests c doc \<longleftrightarrow>
     (\<forall>k. doc_stamp J doc ''lastPartialFullSyncs'' k = doc_stamp J c ''lastPartialFullSyncs'' k) \<and>
     (\<forall>k. doc_stamp J c ''pendingPartialFullSyncs'' k \<le> doc_stamp J doc ''pendingPartialFullSyncs'' k) \<and>
     (\<forall>(k, item) \<in> set (children J requests).
        doc_stamp J c ''lastPartialFullSyncs'' k < enil_json_coerce_int64 J (Some item) \<longrightarrow>
        enil_json_coerce_int64 J (Some item) \<le> doc_stamp J doc ''pendingPartialFullSyncs'' k)"

definition acknowledged :: "'j cjson \<Rightarrow> 'j \<Rightarrow> 'j \<Rightarrow> 'j \<Rightarrow> bool" where
  "acknowledged J requests c doc \<longleftrightarrow>
     (\<forall>k. doc_stamp J c ''lastPartialFullSyncs'' k \<le> doc_stamp J doc ''lastPartialFullSyncs'' k) \<and>
     (\<forall>(k, item) \<in> set (children J requests).
        enil_json_coerce_int64 J (Some item) \<le> doc_stamp J doc ''lastPartialFullSyncs'' k) \<and>
     (\<forall>k. (\<forall>item. (k, item) \<in> set (children J requests) \<longrightarrow>
            enil_json_coerce_int64 J (Some item) < doc_stamp J c ''pendingPartialFullSyncs'' k) \<longrightarrow>
          doc_stamp J doc ''pendingPartialFullSyncs'' k = doc_stamp J c ''pendingPartialFullSyncs'' k)"

lemma update_queues:
  assumes L: "cjson_name_laws (sj E)" and cur: "enil_session_read E W (Some p) = Some c" "distinct (map fst (children (sj E) c))"
    and fresh: "fresh_temp E W p"
    and fits: "\<forall>(k, item) \<in> set (children (sj E) requests). fits_i64 (enil_json_coerce_int64 (sj E) (Some item))"
    and run: "enil_session_update_partial_full_syncs E W t (Some p) (Some requests) = (W', r)" "0 \<le> r"
  shows "(\<exists>doc. (W' = W \<and> (\<forall>n k. doc_stamp (sj E) doc n k = doc_stamp (sj E) c n k) \<or> W' = put_file p (pretty E doc) W) \<and>
      queued (sj E) requests c doc) \<and>
    (r = 1 \<longleftrightarrow> (\<exists>(k, item) \<in> set (children (sj E) requests).
       doc_stamp (sj E) c ''lastPartialFullSyncs'' k < enil_json_coerce_int64 (sj E) (Some item)))"
proof -
  note L0 = cjson_name_laws.axioms(1) [OF L]
  from run cur obtain d1 pending d2 completed pending' needed changed
    where c: "isObject (sj E) c" and maps: "partial_map (sj E) c ''pendingPartialFullSyncs'' = Some (d1, pending)"
      "partial_map (sj E) d1 ''lastPartialFullSyncs'' = Some (d2, completed)"
    and q: "queue_syncs (sj E) completed (children (sj E) requests) pending False False = Some (pending', needed, changed)"
    and w: "(if changed then
          (case session_write_locked E W (Some p) (Some (put_map (sj E) ''pendingPartialFullSyncs'' pending' d2)) of
             (W1, False) \<Rightarrow> (W1, - 1) | (W1, True) \<Rightarrow> (W1, if needed then 1 else 0))
        else (W, if needed then 1 else 0)) = (W', r)"
    by (auto simp: enil_session_update_partial_full_syncs_def Let_def split: option.splits prod.splits if_splits)
  note m = both_maps [OF L0 maps c cur(2)]
  note st = cjson_name_laws.queue_syncs_stamps [OF L q m(1) fits]
  define doc where "doc = put_map (sj E) ''pendingPartialFullSyncs'' pending' d2"
  note get = cjson_laws.put_map_get(3) [OF L0 m(3,5), of pending', folded doc_def]
  have last: "doc_stamp (sj E) doc ''lastPartialFullSyncs'' k = doc_stamp (sj E) c ''lastPartialFullSyncs'' k" for k
    using m(7) by (simp add: doc_stamp_def get)
  have pend: "doc_stamp (sj E) doc ''pendingPartialFullSyncs'' k = stamp (sj E) (Some pending') k" for k
    by (simp add: doc_stamp_def get)
  have "queued (sj E) requests c doc"
    using st by (auto simp: queued_def last pend m(8,9))
  moreover have "W' = W \<and> (\<forall>n k. doc_stamp (sj E) doc n k = doc_stamp (sj E) c n k) \<or> W' = put_file p (pretty E doc) W"
  proof (cases changed)
    case False
    then have "pending' = pending" using st by simp
    then have "doc_stamp (sj E) doc n k = doc_stamp (sj E) c n k" for n k
      using m(7) [of n k] m(8) by (cases "n = ''pendingPartialFullSyncs''") (simp_all add: pend, simp add: doc_stamp_def get)
    with w False show ?thesis by simp
  next
    case True
    with w run(2) have "session_write_locked E W (Some p) (Some doc) = (W', True)"
      by (auto simp: doc_def split: prod.splits bool.splits)
    then show ?thesis using fresh by (auto elim: write_locked_cases)
  qed
  moreover have "r = 1 \<longleftrightarrow> needed"
    using w run(2) by (auto split: if_splits prod.splits bool.splits)
  moreover have "needed \<longleftrightarrow> (\<exists>(k, item) \<in> set (children (sj E) requests).
      doc_stamp (sj E) c ''lastPartialFullSyncs'' k < enil_json_coerce_int64 (sj E) (Some item))"
    using st by (simp add: m(9))
  ultimately show ?thesis by blast
qed

lemma complete_acknowledges:
  assumes L: "cjson_name_laws (sj E)" and cur: "enil_session_read E W (Some p) = Some c" "distinct (map fst (children (sj E) c))"
    and fresh: "fresh_temp E W p"
    and fits: "\<forall>(k, item) \<in> set (children (sj E) requests). fits_i64 (enil_json_coerce_int64 (sj E) (Some item))"
    and req: "getItemCS (sj E) snap ''pendingPartialFullSyncs'' = Some requests" "children (sj E) requests \<noteq> []"
    and run: "enil_session_complete_partial_full_syncs E W (Some p) (Some snap) = (W', True)"
  shows "\<exists>doc. W' = put_file p (pretty E doc) W \<and> acknowledged (sj E) requests c doc"
proof -
  note L0 = cjson_name_laws.axioms(1) [OF L]
  from run cur req obtain d1 pending d2 completed pending' completed'
    where c: "isObject (sj E) c" and maps: "partial_map (sj E) c ''pendingPartialFullSyncs'' = Some (d1, pending)"
      "partial_map (sj E) d1 ''lastPartialFullSyncs'' = Some (d2, completed)"
    and q: "acknowledge_syncs (sj E) (children (sj E) requests) completed pending = Some (completed', pending')"
    and w: "session_write_locked E W (Some p) (Some
        (let d3 = put_map (sj E) ''pendingPartialFullSyncs'' pending' (put_map (sj E) ''lastPartialFullSyncs'' completed' d2)
         in if children (sj E) pending' = [] then deleteCS (sj E) d3 ''pendingPartialFullSyncs'' else d3)) = (W', True)"
    by (auto simp: enil_session_complete_partial_full_syncs_def Let_def split: option.splits prod.splits if_splits)
  note m = both_maps [OF L0 maps c cur(2)]
  note st = cjson_name_laws.acknowledge_syncs_stamps [OF L q m(2,1) fits]
  note p3 = cjson_laws.put_map_get [OF L0 m(3,6), of completed']
  define d3 where "d3 = put_map (sj E) ''pendingPartialFullSyncs'' pending' (put_map (sj E) ''lastPartialFullSyncs'' completed' d2)"
  have "getItemCS (sj E) (put_map (sj E) ''lastPartialFullSyncs'' completed' d2) ''pendingPartialFullSyncs'' = Some pending"
    using m(5) p3(3) by simp
  note p4 = cjson_laws.put_map_get [OF L0 p3(1) this, of pending', folded d3_def]
  define doc where "doc = (if children (sj E) pending' = [] then deleteCS (sj E) d3 ''pendingPartialFullSyncs'' else d3)"
  have zero: "stamp (sj E) (Some pending') k = 0" if "children (sj E) pending' = []" for k
    using that st by (simp add: stamp_def cjson_laws.get_cs [OF L0] enil_json_coerce_int64_def)
  have d3: "distinct (map fst (children (sj E) d3))" using m(4) p3(2) p4(2) by simp
  have last: "doc_stamp (sj E) doc ''lastPartialFullSyncs'' k = stamp (sj E) (Some completed') k" for k
    using p3(3) p4(1,3) by (simp add: doc_stamp_def doc_def cjson_laws.get_cs [OF L0] cjson_laws.delete_cs [OF L0])
  have gone: "getItemCS (sj E) (deleteCS (sj E) d3 ''pendingPartialFullSyncs'') ''pendingPartialFullSyncs'' = None"
    using d3 p4(1) by (simp add: cjson_laws.get_cs [OF L0] cjson_laws.delete_cs [OF L0] map_of_del1_same)
  have pend: "doc_stamp (sj E) doc ''pendingPartialFullSyncs'' k = stamp (sj E) (Some pending') k" for k
    using p4(3) zero gone by (simp add: doc_stamp_def doc_def) (simp add: stamp_def enil_json_coerce_int64_def)
  have "acknowledged (sj E) requests c doc"
    using st by (auto simp: acknowledged_def last pend m(8,9)) (simp add: stamp_def)
  moreover have "W' = put_file p (pretty E doc) W"
    using w fresh unfolding Let_def d3_def [symmetric] doc_def [symmetric] by (auto elim: write_locked_cases)
  ultimately show ?thesis by blast
qed

text \<open>C28: No requested sync is lost and no stamp goes back.  Queueing a notification leaves a session whose
  completed stamps are as they were and whose pending stamps cover both the old ones and every new request
  that is not completed yet; it reports 1 exactly when there is such a request.  Completing a sync raises the
  completed stamps to those of the snapshot it started from, lowers none, and keeps every pending request
  that is newer than that snapshot.\<close>

theorem partial_syncs_never_lost:
  assumes "cjson_name_laws (sj E)" and "enil_session_read E W (Some p) = Some c" and "distinct (map fst (children (sj E) c))"
    and "fresh_temp E W p"
    and "\<forall>(k, item) \<in> set (children (sj E) requests). fits_i64 (enil_json_coerce_int64 (sj E) (Some item))"
  shows
    "(\<forall>W' r. enil_session_update_partial_full_syncs E W t (Some p) (Some requests) = (W', r) \<and> 0 \<le> r \<longrightarrow>
      (\<exists>doc. (W' = W \<and> (\<forall>n k. doc_stamp (sj E) doc n k = doc_stamp (sj E) c n k) \<or> W' = put_file p (pretty E doc) W) \<and>
         queued (sj E) requests c doc) \<and>
      (r = 1 \<longleftrightarrow> (\<exists>(k, item) \<in> set (children (sj E) requests).
         doc_stamp (sj E) c ''lastPartialFullSyncs'' k < enil_json_coerce_int64 (sj E) (Some item)))) \<and>
    (\<forall>W' snap. getItemCS (sj E) snap ''pendingPartialFullSyncs'' = Some requests \<and> children (sj E) requests \<noteq> [] \<and>
       enil_session_complete_partial_full_syncs E W (Some p) (Some snap) = (W', True) \<longrightarrow>
       (\<exists>doc. W' = put_file p (pretty E doc) W \<and> acknowledged (sj E) requests c doc))"
  using update_queues [OF assms] complete_acknowledges [OF assms] by blast

text \<open>C29: A session survives its JSON form: parsing what \<open>enil_session_to_json\<close> built gives back every field,
  for a session that can be stored at all (an identity the parser accepts, an access token, integers that fit
  their encoding), whatever other fields its snapshot carries.\<close>

theorem session_json_roundtrip:
  assumes "cjson_name_laws (sj E)" and "storable E s"
    and "case snapshot s of None \<Rightarrow> True | Some r \<Rightarrow> clean_doc (sj E) r"
    and "enil_session_to_json E (Some s) = Some j"
  shows "enil_session_parse E (Some j) = Some (s\<lparr>snapshot := Some j\<rparr>)"
  using assms by (rule session_roundtrip)

section \<open>Witnesses\<close>

definition demo_doc :: "string \<Rightarrow> string \<Rightarrow> json" where
  "demo_doc token login = JObj [(''accessToken'', JStr token), (''loginId'', JStr login),
     (''pendingPartialFullSyncs'', JObj [(''1'', JStr ''5'')])]"

definition demo_io :: "json \<Rightarrow> json session_env" where
  "demo_io cur = \<lparr>sj = tree (\<lambda>s. Some cur) (\<lambda>_. ''{}''),
     pretty = (\<lambda>d. case d of JObj kvs \<Rightarrow>
        if map_of kvs ''accessToken'' = Some (JStr ''new'') \<and> map_of kvs ''mid'' = Some (JStr ''u1'') then ''good'' else ''other'' | _ \<Rightarrow> []),
     of_i64 = of_int, strtod10 = (\<lambda>_. 0), rand16 = None, rd_ok = (\<lambda>_. True), acc_ok = (\<lambda>_. True),
     regular = (\<lambda>_. True), dir_ok = (\<lambda>_. True),
     wr = \<lparr>wc_letters = Some ''a'', wc_fdopen = True, wc_write = True, wc_fclose = True, wc_rename = True\<rparr>,
     rt = \<lparr>rt_letters = Some ''a'', rt_rename = True\<rparr>, binding_ready = True, spec_ok = (\<lambda>_. True),
     ident_ok = (\<lambda>_. (True, True, True))\<rparr>"

definition demo_world :: "nat session_world" where
  "demo_world = \<lparr>sfiles = [''/s'' \<mapsto> ''old''],
     sbinding = (\<lambda>t. Some \<lparr>bpath = ''/s'', blogin_id = Some ''L1''\<rparr>),
     sident = \<lparr>key_ready = True, current = (\<lambda>t. Some legacy_chrome_identity)\<rparr>\<rparr>"

definition demo_session :: "json session_t" where
  "demo_session = \<lparr>clientIdentity = legacy_chrome_identity, snapshot = Some (demo_doc ''old'' ''L1''),
     accessToken = Some ''old'', refreshToken = None, refreshJournalId = None, mid = Some ''u1'', displayName = None,
     regionCode = None, certificate = None, e2eeLoginPublicKey = None, e2eeVersion = None, e2eeHashKeyChain = None,
     durationUntilRefreshInSec = 0, tokenIssueTimeEpochSec = 0, e2eeLatestKeyId = 0, e2eeSequenceNumber = 0,
     reqSeq = 0, needsReauth = False, e2eeKeys = None, e2eeLoginMetaData = None, encryptedAccessTokens = None,
     workerRestoreState = None, refreshApiRetryPolicy = None, lastPartialFullSyncs = None\<rparr>"

lemma demo_facts:
  "cjson_name_laws (sj (demo_io c))" "clean_doc (sj (demo_io c)) (demo_doc token login)"
  "enil_session_read (demo_io c) demo_world (Some ''/s'') = Some c" "fresh_temp (demo_io c) demo_world ''/s''"
  "distinct (map fst (children (sj (demo_io c)) (demo_doc token login)))"
  by (simp_all add: demo_io_def tree_names.cjson_name_laws_axioms clean_doc_def demo_doc_def lower_char.simps
      enil_session_read_def demo_world_def fresh_temp_def)

lemma demo_io_simps [simp]:
  "sj (demo_io c) = tree (\<lambda>s. Some c) (\<lambda>_. ''{}'')" "of_i64 (demo_io c) = of_int" "dir_ok (demo_io c) = (\<lambda>_. True)"
  "wr (demo_io c) = \<lparr>wc_letters = Some ''a'', wc_fdopen = True, wc_write = True, wc_fclose = True, wc_rename = True\<rparr>"
  "binding_ready (demo_io c)"
  by (simp_all add: demo_io_def)

lemma demo_parse:
  "enil_session_parse (demo_io c) (Some (demo_doc ''old'' ''L1'')) = Some (demo_session\<lparr>mid := None\<rparr>)"
  by (simp add: enil_session_parse_def Let_def dup_str_field_def demo_doc_def demo_session_def lower_char.simps
      enil_identity_parse_def enil_json_coerce_int64_def)

lemma demo_snap:
  "snapshot demo_session = Some (demo_doc ''old'' ''L1'')" "snapshot (demo_session\<lparr>mid := None\<rparr>) = Some (demo_doc ''old'' ''L1'')"
  by (simp_all add: demo_session_def)

lemma demo_saves:
  "\<exists>W'. enil_session_save (demo_io (demo_doc ''new'' ''L1'')) demo_world (Some ''/s'') demo_session = (W', True)"
proof -
  let ?E = "demo_io (demo_doc ''new'' ''L1'')"
  obtain base nxt where docs: "enil_session_to_json ?E (Some (demo_session\<lparr>mid := None\<rparr>)) = Some base"
    "enil_session_to_json ?E (Some demo_session) = Some nxt"
    "getItemCS (sj ?E) base ''loginId'' = getItemCS (sj ?E) (demo_doc ''old'' ''L1'') ''loginId''"
    using saved_documents [OF demo_facts(1) demo_snap(1) demo_facts(2) demo_parse, where ?c1 = "demo_doc ''new'' ''L1''"] by metis
  have login: "getItemCS (sj ?E) (demo_doc token l) ''loginId'' = Some (JStr l)" "isObject (sj ?E) (demo_doc token l)" for token l
    by (simp_all add: demo_doc_def)
  have "\<not> login_superseded (sj ?E) (getItemCS (sj ?E) base ''loginId'') (getItemCS (sj ?E) (demo_doc ''new'' ''L1'') ''loginId'')"
    unfolding docs(3) login by (simp add: login_superseded_def tree_def)
  then show ?thesis
    unfolding enil_session_save_def Let_def docs(2) demo_snap(1) option.case demo_parse docs(1) demo_facts(3)
    using login(2) by (simp add: session_write_locked_eq Let_def sync_parent_directory_def)
qed

theorem session_save_merges_witness:
  "\<exists>W'. enil_session_save (demo_io (demo_doc ''new'' ''L1'')) demo_world (Some ''/s'') demo_session = (W', True) \<and>
     sfiles W' ''/s'' = Some ''good''"
proof -
  let ?E = "demo_io (demo_doc ''new'' ''L1'')"
  obtain W' where run: "enil_session_save ?E demo_world (Some ''/s'') demo_session = (W', True)"
    using demo_saves by blast
  obtain base nxt doc where docs:
    "enil_session_to_json ?E (enil_session_parse ?E (Some (demo_doc ''old'' ''L1''))) = Some base"
    "enil_session_to_json ?E (Some demo_session) = Some nxt" "W' = put_file ''/s'' (pretty ?E doc) demo_world"
    and get: "\<And>k. getItemCS (sj ?E) doc k =
      three_way (sameItem (sj ?E)) (getItemCS (sj ?E) base k) (getItemCS (sj ?E) nxt k) (getItemCS (sj ?E) (demo_doc ''new'' ''L1'') k)"
    using session_save_merges [OF demo_facts(1) demo_snap(1) demo_facts(2,3,5,4) run] by auto
  obtain i1 where i1: "enil_identity_to_json (sj ?E) (Some (clientIdentity (demo_session\<lparr>mid := None\<rparr>))) = Some i1"
    by (simp add: enil_identity_to_json_def)
  obtain i2 where i2: "enil_identity_to_json (sj ?E) (Some (clientIdentity demo_session)) = Some i2"
    by (simp add: enil_identity_to_json_def)
  note sets = cjson_name_laws.set_all_fields(3) [OF demo_facts(1) [of "demo_doc ''new'' ''L1''"] demo_facts(2) [of "demo_doc ''new'' ''L1''"]]
  have base: "base = foldl (\<lambda>d (k, v). set_obj_field (sj ?E) k v d) (demo_doc ''old'' ''L1'') (session_fields ?E i1 (demo_session\<lparr>mid := None\<rparr>))"
    using docs(1) unfolding demo_parse to_json_fields [OF i1] demo_snap option.case by simp
  have nxt: "nxt = foldl (\<lambda>d (k, v). set_obj_field (sj ?E) k v d) (demo_doc ''old'' ''L1'') (session_fields ?E i2 demo_session)"
    using docs(2) unfolding to_json_fields [OF i2] demo_snap option.case by simp
  have b: "getItemCS (sj ?E) base ''accessToken'' = Some (JStr ''old'')" "getItemCS (sj ?E) base ''mid'' = None"
    unfolding base sets by (simp_all add: session_fields_def Let_def same_keys demo_session_def tree_def)
  have n: "getItemCS (sj ?E) nxt ''accessToken'' = Some (JStr ''old'')" "getItemCS (sj ?E) nxt ''mid'' = Some (JStr ''u1'')"
    unfolding nxt sets by (simp_all add: session_fields_def Let_def same_keys demo_session_def tree_def)
  have "getItemCS (sj ?E) doc ''accessToken'' = Some (JStr ''new'')" "getItemCS (sj ?E) doc ''mid'' = Some (JStr ''u1'')"
    using get [of "''accessToken''"] get [of "''mid''"] b n by (simp_all add: three_way_def demo_doc_def tree_def)
  then have "pretty ?E doc = ''good''"
    by (auto simp: demo_io_def tree_def split: json.splits)
  then show ?thesis using run docs(3) by (auto simp: put_file_def)
qed

theorem superseded_login_untouched_witness:
  "let E = demo_io (demo_doc ''new'' ''L2'')
   in enil_session_save E demo_world (Some ''/s'') demo_session = (demo_world, False) \<and>
      enil_session_accept_next_access E demo_world 0 (Some ''new'') (Some ''stolen'') = (demo_world, False) \<and>
      enil_session_bound_access_token E demo_world 0 = (- 1, None)"
proof -
  let ?E = "demo_io (demo_doc ''new'' ''L2'')"
  have login: "jstr (sj ?E) (getItemCS (sj ?E) (demo_doc token l) ''loginId'') = Some l" for token l
    by (simp add: demo_doc_def)
  have other: "jstr (sj ?E) (getItemCS (sj ?E) (demo_doc ''old'' ''L1'') ''loginId'') \<noteq> Some ''L2''"
    unfolding login by simp
  have bound: "current_binding ?E demo_world 0 = Some \<lparr>bpath = ''/s'', blogin_id = Some ''L1''\<rparr>"
    by (simp add: current_binding_def demo_world_def)
  show ?thesis
    unfolding Let_def
    using superseded_login_untouched [OF demo_facts(1,3) login demo_snap(1) demo_facts(2) other bound,
        of requests "Some ''new''" "Some ''stolen''" for requests] by simp
qed

lemma demo_numbers:
  "enil_json_coerce_int64 (tree p q) (Some (JStr ''5'')) = 5" "enil_json_coerce_int64 (tree p q) (Some (JStr ''7'')) = 7"
  "enil_json_coerce_int64 (tree p q) None = 0"
  by (simp_all add: enil_json_coerce_int64_def) code_simp+

theorem partial_syncs_never_lost_witness:
  "\<exists>W' r. enil_session_update_partial_full_syncs (demo_io (demo_doc ''new'' ''L1'')) demo_world 0 (Some ''/s'')
       (Some (JObj [(''1'', JStr ''5''), (''2'', JStr ''7'')])) = (W', r) \<and> r = 1 \<and>
     (\<exists>doc. sfiles W' ''/s'' = Some (pretty (demo_io (demo_doc ''new'' ''L1'')) doc) \<and>
        7 \<le> doc_stamp (tree (\<lambda>s. Some (demo_doc ''new'' ''L1'')) (\<lambda>_. ''{}'')) doc ''pendingPartialFullSyncs'' ''2'')"
proof -
  let ?E = "demo_io (demo_doc ''new'' ''L1'')" and ?req = "JObj [(''1'', JStr ''5''), (''2'', JStr ''7'')]"
  obtain W' r where run: "enil_session_update_partial_full_syncs ?E demo_world 0 (Some ''/s'') (Some ?req) = (W', r)" by force
  have kids: "children (sj ?E) ?req = [(''1'', JStr ''5''), (''2'', JStr ''7'')]" by simp
  have match: "thread_matches ?E demo_world 0 (Some (demo_doc ''new'' ''L1''))"
    by (simp add: thread_matches_def binding_matches_def Let_def current_binding_def demo_world_def demo_doc_def
        enil_identity_current_def enil_identity_parse_def)
  have ran: "(W', r) = (put_file ''/s'' ''other'' demo_world, 1)"
    unfolding run [symmetric] enil_session_update_partial_full_syncs_def Let_def demo_facts(3)
    using match
    by (simp add: demo_doc_def partial_map_def tree_def merge_partial_timestamp_def demo_numbers [unfolded tree_def]
        lower_char.simps put_map_def session_write_locked_eq Let_def sync_parent_directory_def current_binding_def
        demo_world_def put_file_def remove_file_def demo_io_def)
  then have eval: "W' \<noteq> demo_world" "r = 1"
    by (auto simp: put_file_def demo_world_def dest: fun_upd_eqD)
  have fits: "\<forall>(k, item) \<in> set (children (sj ?E) ?req). fits_i64 (enil_json_coerce_int64 (sj ?E) (Some item))"
    by (simp add: demo_numbers fits_i64_def LLONG_MIN_def LLONG_MAX_def)
  note P = partial_syncs_never_lost [OF demo_facts(1,3,5,4) fits, of 0]
  obtain doc where "W' = put_file ''/s'' (pretty ?E doc) demo_world" "queued (sj ?E) ?req (demo_doc ''new'' ''L1'') doc"
    using P run eval by force
  moreover have "doc_stamp (sj ?E) (demo_doc ''new'' ''L1'') ''lastPartialFullSyncs'' ''2'' = 0"
    by (simp add: doc_stamp_def stamp_def demo_doc_def demo_numbers)
  ultimately show ?thesis
    using run eval(2) by (auto simp: queued_def demo_numbers put_file_def)
qed

theorem session_json_roundtrip_witness:
  "\<exists>j. enil_session_to_json (demo_io JNull) (Some demo_session) = Some j \<and>
     enil_session_parse (demo_io JNull) (Some j) = Some (demo_session\<lparr>snapshot := Some j\<rparr>)"
proof -
  obtain i where i: "enil_identity_to_json (sj (demo_io JNull)) (Some (clientIdentity demo_session)) = Some i"
    by (simp add: enil_identity_to_json_def)
  obtain j where j: "enil_session_to_json (demo_io JNull) (Some demo_session) = Some j"
    using to_json_fields [OF i] by blast
  have "storable (demo_io JNull) demo_session"
    using legacy_well_formed by (simp add: storable_def demo_session_def LLONG_MIN_def LLONG_MAX_def trunc_def)
  moreover have "case snapshot demo_session of None \<Rightarrow> True | Some r \<Rightarrow> clean_doc (sj (demo_io JNull)) r"
    using demo_facts(2) by (simp add: demo_snap del: demo_io_simps)
  ultimately show ?thesis using session_json_roundtrip [OF demo_facts(1) _ _ j] j by blast
qed

end
