(* ===== verification/ENIL_SessionRun.thy ===== *)
theory ENIL_SessionRun
  imports ENIL_SessionMerge
begin

text \<open>
  Runs of the session store: any interleaving of the operations of \<open>enil_session.c\<close> by any threads, each
  with its own outcomes of the system calls.  The invariant is that every file holds a whole document and
  that a thread keeps its login until it binds another.
\<close>

section \<open>Operations and runs\<close>

datatype 'j session_op =
    Bind "string option"
  | Continue "string option"
  | Save "string option" "'j session_t"
  | Patch "string option" "'j option"
  | Write "string option" "'j option"
  | Activate "string option" "'j option"
  | Retire "string option"
  | LoginId "string option"
  | Prepare "string option" "string option" "string option"
  | SaveCertificate "string option" "'j option"
  | QueueSyncs "string option" "'j option"
  | CompleteSyncs "string option" "'j option"
  | ResetSyncs "string option"
  | SetReauth "string option"
  | SetSse "string option" bool
  | AcceptNext "string option" "string option"

fun run_op :: "'j session_env \<Rightarrow> 't session_world \<Rightarrow> 't \<Rightarrow> 'j session_op \<Rightarrow> 't session_world" where
  "run_op E W t (Bind p) = fst (enil_session_bind_identity E W t p)"
| "run_op E W t (Continue p) = fst (enil_session_continue_identity E W t p)"
| "run_op E W t (Save p s) = fst (enil_session_save E W p s)"
| "run_op E W t (Patch p j) = fst (enil_session_patch E W p j)"
| "run_op E W t (Write p j) = fst (enil_session_write E W p j)"
| "run_op E W t (Activate p j) = fst (enil_session_activate E W p j)"
| "run_op E W t (Retire p) = fst (enil_session_retire_file E W p)"
| "run_op E W t (LoginId p) = fst (enil_session_login_id E W p)"
| "run_op E W t (Prepare p profile r) = fst (enil_session_prepare_login E W p profile r)"
| "run_op E W t (SaveCertificate p j) = fst (enil_session_save_login_certificate E W p j)"
| "run_op E W t (QueueSyncs p j) = fst (enil_session_update_partial_full_syncs E W t p j)"
| "run_op E W t (CompleteSyncs p j) = fst (enil_session_complete_partial_full_syncs E W p j)"
| "run_op E W t (ResetSyncs p) = fst (enil_session_reset_partial_full_syncs E W p)"
| "run_op E W t (SetReauth p) = fst (enil_session_set_reauth_needed E W p)"
| "run_op E W t (SetSse p b) = fst (enil_session_set_sse_enabled E W p b)"
| "run_op E W t (AcceptNext previous nxt) = fst (enil_session_accept_next_access E W t previous nxt)"

text \<open>\<open>mkstemp\<close> gives names that no file has.\<close>

definition fresh_names :: "'j session_env \<Rightarrow> 't session_world \<Rightarrow> bool" where
  "fresh_names E W \<longleftrightarrow> (\<forall>p. fresh_temp E W p) \<and> (\<forall>p l. rt_letters (rt E) = Some l \<longrightarrow> sfiles W (p @ ''.retired.'' @ l) = None)"

lemma fresh_names_temp [simp]: "fresh_names E W \<Longrightarrow> fresh_temp E W p"
  by (simp add: fresh_names_def)

inductive session_run ::
  "('j \<Rightarrow> string) \<Rightarrow> 't session_world \<Rightarrow> ('t \<times> 'j session_op) list \<Rightarrow> 't session_world \<Rightarrow> bool" for pr where
  idle: "session_run pr W [] W"
| step: "pretty E = pr \<Longrightarrow> fresh_names E W \<Longrightarrow> session_run pr (run_op E W t op) tr W' \<Longrightarrow>
    session_run pr W ((t, op) # tr) W'"

inductive_cases session_run_nilE: "session_run pr W [] W'"
inductive_cases session_run_consE: "session_run pr W ((t, op) # tr) W'"

section \<open>Each operation\<close>

definition whole :: "('j \<Rightarrow> string) \<Rightarrow> 't session_world \<Rightarrow> bool" where
  "whole pr W \<longleftrightarrow> (\<forall>p s. sfiles W p = Some s \<longrightarrow> (\<exists>doc. s = pr doc))"

text \<open>What an operation on files may do: the bindings stay, and the files stay whole.\<close>

definition only_files :: "'j session_env \<Rightarrow> 't session_world \<Rightarrow> 't session_world \<Rightarrow> bool" where
  "only_files E W W' \<longleftrightarrow>
     sbinding W' = sbinding W \<and> sident W' = sident W \<and> (whole (pretty E) W \<longrightarrow> whole (pretty E) W')"

lemma only_files_refl [simp]: "only_files E W W"
  by (simp add: only_files_def)

lemma only_files_trans: "only_files E W W1 \<Longrightarrow> only_files E W1 W2 \<Longrightarrow> only_files E W W2"
  by (auto simp: only_files_def)

named_theorems session_ops \<open>what each operation does to the store\<close>

lemma write_locked_only [session_ops]:
  assumes "\<And>p. fresh_temp E W p"
  shows "only_files E W (fst (session_write_locked E W path doc))"
proof (cases "path = None \<or> doc = None")
  case True
  then show ?thesis by (auto simp: session_write_locked_eq split: option.splits)
next
  case False
  then obtain p r where pr: "path = Some p" "doc = Some r" by auto
  obtain W' ok where w: "session_write_locked E W (Some p) (Some r) = (W', ok)" by force
  then show ?thesis
    by (rule write_locked_cases [OF _ assms]) (auto simp: pr w only_files_def whole_def put_file_def)
qed

lemma retire_only [session_ops]: "only_files E W (fst (enil_session_retire_file E W path))"
  by (auto simp: enil_session_retire_file_eq only_files_def whole_def put_file_def remove_file_def Let_def
      split: option.splits)

lemma file_ops_only [session_ops]:
  assumes fresh: "\<And>p. fresh_temp E W p"
  shows "only_files E W (fst (enil_session_write E W path doc))"
    "only_files E W (fst (enil_session_save E W path s))"
    "only_files E W (fst (enil_session_patch E W path doc))"
    "only_files E W (fst (enil_session_prepare_login E W path profile reauth))"
    "only_files E W (fst (enil_session_save_login_certificate E W path doc))"
    "only_files E W (fst (enil_session_accept_next_access E W t previous nxt))"
proof -
  note w = write_locked_only [OF fresh]
  show saved: "only_files E W (fst (enil_session_write E W path doc))" for path doc
    by (simp add: enil_session_write_def w)
  show "only_files E W (fst (enil_session_save E W path s))"
    by (auto simp: enil_session_save_def Let_def w split: option.splits)
  show "only_files E W (fst (enil_session_patch E W path doc))"
    by (auto simp: enil_session_patch_def Let_def w split: option.splits)
  show "only_files E W (fst (enil_session_prepare_login E W path profile reauth))"
    by (auto simp: enil_session_prepare_login_def Let_def saved split: option.splits prod.splits)
  show "only_files E W (fst (enil_session_save_login_certificate E W path doc))"
    by (auto simp: enil_session_save_login_certificate_def Let_def saved split: option.splits)
  show "only_files E W (fst (enil_session_accept_next_access E W t previous nxt))"
    by (auto simp: enil_session_accept_next_access_def Let_def w split: option.splits)
qed

lemma other_ops_only [session_ops]:
  assumes fresh: "\<And>p. fresh_temp E W p"
  shows "only_files E W (fst (enil_session_activate E W path doc))"
    "only_files E W (fst (enil_session_login_id E W path))"
    "only_files E W (fst (enil_session_update_partial_full_syncs E W t path doc))"
    "only_files E W (fst (enil_session_complete_partial_full_syncs E W path doc))"
    "only_files E W (fst (enil_session_reset_partial_full_syncs E W path))"
    "only_files E W (fst (enil_session_set_reauth_needed E W path))"
    "only_files E W (fst (enil_session_set_sse_enabled E W path b))"
proof -
  have w: "only_files E W W1" if "session_write_locked E W path doc = (W1, ok)" for path doc W1 ok
    using write_locked_only [OF fresh, of path doc] by (simp add: that)
  show "only_files E W (fst (enil_session_activate E W path doc))"
    by (auto simp: enil_session_activate_def split: prod.splits dest!: w intro: only_files_trans retire_only)
  show "only_files E W (fst (enil_session_login_id E W path))"
    by (auto simp: enil_session_login_id_def Let_def split: prod.splits option.splits dest!: w)
  show "only_files E W (fst (enil_session_update_partial_full_syncs E W t path doc))"
    by (auto simp: enil_session_update_partial_full_syncs_def Let_def split: prod.splits option.splits bool.splits dest!: w)
  show "only_files E W (fst (enil_session_complete_partial_full_syncs E W path doc))"
    by (auto simp: enil_session_complete_partial_full_syncs_def Let_def write_locked_only [OF fresh] split: prod.splits option.splits)
  show "only_files E W (fst (enil_session_reset_partial_full_syncs E W path))"
    by (auto simp: enil_session_reset_partial_full_syncs_def file_ops_only [OF fresh] split: option.splits)
  show "only_files E W (fst (enil_session_set_reauth_needed E W path))"
    by (auto simp: enil_session_set_reauth_needed_def file_ops_only [OF fresh] split: option.splits)
  show "only_files E W (fst (enil_session_set_sse_enabled E W path b))"
    by (auto simp: enil_session_set_sse_enabled_def file_ops_only [OF fresh])
qed

text \<open>Binding touches no file, and no other thread.\<close>

definition own_thread :: "'t \<Rightarrow> 't session_world \<Rightarrow> 't session_world \<Rightarrow> bool" where
  "own_thread t W W' \<longleftrightarrow> sfiles W' = sfiles W \<and> (\<forall>u. u \<noteq> t \<longrightarrow> sbinding W' u = sbinding W u \<and> current (sident W') u = current (sident W) u)"

lemma own_thread_refl [simp]: "own_thread t W W"
  by (simp add: own_thread_def)

lemma own_thread_trans: "own_thread t W W1 \<Longrightarrow> own_thread t W1 W2 \<Longrightarrow> own_thread t W W2"
  by (auto simp: own_thread_def)

lemma set_binding_own: "own_thread t W (fst (set_binding E W t b))"
  by (simp add: set_binding_def own_thread_def)

lemma bind_ident_own: "own_thread t W (fst (bind_ident E n W t i))"
  by (auto simp: bind_ident_def enil_identity_bind_def own_thread_def Let_def split: prod.splits)

lemma bind_own: "own_thread t W (fst (enil_session_bind_identity E W t path))"
proof -
  have s: "own_thread t W W1" if "set_binding E W t b = (W1, ok)" for W W1 b ok
    using set_binding_own [of t W E b] by (simp add: that)
  have i: "own_thread t W W1" if "bind_ident E n W t x = (W1, ok)" for W W1 n x ok
    using bind_ident_own [of t W E n x] by (simp add: that)
  show ?thesis
    by (auto simp: enil_session_bind_identity_def Let_def split: prod.splits bool.splits dest!: s i)
      (blast intro: own_thread_trans bind_ident_own)+
qed

lemma continue_bound: "sbinding W t \<noteq> None \<Longrightarrow> fst (enil_session_continue_identity E W t path) = W"
  by (auto simp: enil_session_continue_identity_def current_binding_def enil_session_bind_identity_def set_binding_def
      split: option.splits)

lemma continue_own: "own_thread t W (fst (enil_session_continue_identity E W t path))"
  using bind_own [of t W E path] by (auto simp: enil_session_continue_identity_def split: option.splits)

section \<open>In the middle of an operation\<close>

text \<open>The calls an operation can make: none, a write, a retirement, or an activation's both.\<close>

definition call_sequence :: "'j session_env \<Rightarrow> file_call list \<Rightarrow> bool" where
  "call_sequence E calls \<longleftrightarrow>
     calls = [] \<or> (\<exists>p doc. calls = write_steps E p doc) \<or> (\<exists>p. calls = retire_steps E p) \<or>
     (\<exists>p doc. calls = write_steps E p doc @ retire_steps E (p @ ''.refresh-pending''))"

text \<open>Such calls that take the files from those of \<open>W\<close> to those of \<open>W'\<close>.\<close>

definition calls_between :: "'j session_env \<Rightarrow> 't session_world \<Rightarrow> 't session_world \<Rightarrow> file_call list \<Rightarrow> bool" where
  "calls_between E W W' calls \<longleftrightarrow> call_sequence E calls \<and> sfiles (do_calls calls W) = sfiles W'"

lemma no_calls: "sfiles W' = sfiles W \<Longrightarrow> \<exists>calls. calls_between E W W' calls"
  by (intro exI [of _ "[]"]) (simp add: calls_between_def call_sequence_def do_calls_def)

lemma write_calls: "\<exists>calls. calls_between E W (fst (session_write_locked E W path doc)) calls"
proof (cases "path = None \<or> doc = None")
  case True
  then show ?thesis by (intro no_calls) (auto simp: session_write_locked_def split: option.splits)
next
  case False
  then obtain p r where "path = Some p" "doc = Some r" by auto
  then show ?thesis
    by (intro exI [of _ "write_steps E p r"]) (auto simp: calls_between_def call_sequence_def session_write_locked_def)
qed

lemma retire_calls: "\<exists>calls. calls_between E W (fst (enil_session_retire_file E W path)) calls"
proof (cases path)
  case (Some p)
  then show ?thesis
    using no_calls [of W W E]
    by (cases "acc_ok E p \<and> sfiles W p \<noteq> None")
      (auto simp: calls_between_def call_sequence_def enil_session_retire_file_def do_calls_def intro: exI [of _ "retire_steps E p"])
qed (intro no_calls, simp add: enil_session_retire_file_def)

lemma activate_calls: "\<exists>calls. calls_between E W (fst (enil_session_activate E W path doc)) calls"
proof (cases "path = None \<or> \<not> jis (isObject (sj E)) doc")
  case True
  then show ?thesis by (intro no_calls) (simp add: enil_session_activate_def)
next
  case False
  then obtain p r where pr: "path = Some p" "doc = Some r" by (cases doc) auto
  let ?W1 = "do_calls (write_steps E p r) W" and ?q = "p @ ''.refresh-pending''"
  have w: "session_write_locked E W (Some p) (Some r) = (?W1, write_done E \<and> sync_parent_directory E p)" by (simp add: session_write_locked_def)
  show ?thesis
  proof (cases "write_done E \<and> sync_parent_directory E p \<and> acc_ok E ?q \<and> sfiles ?W1 ?q \<noteq> None")
    case True
    then have "fst (enil_session_activate E W path doc) = do_calls (write_steps E p r @ retire_steps E ?q) W"
      using False pr by (auto simp: enil_session_activate_def w enil_session_retire_file_def do_calls_append)
    then show ?thesis by (intro exI [of _ "write_steps E p r @ retire_steps E ?q"]) (auto simp: calls_between_def call_sequence_def)
  next
    case no: False
    then have "fst (enil_session_activate E W path doc) = ?W1"
      using False pr by (auto simp: enil_session_activate_def w enil_session_retire_file_def)
    then show ?thesis by (intro exI [of _ "write_steps E p r"]) (auto simp: calls_between_def call_sequence_def)
  qed
qed

lemma op_calls: "\<exists>calls. calls_between E W (run_op E W t op) calls"
proof -
  have same: "\<exists>calls. calls_between E W W calls" by (simp add: no_calls)
  have w: "\<exists>calls. calls_between E W W1 calls" if "session_write_locked E W path doc = (W1, ok)" for path doc W1 ok
    using write_calls [of E W path doc] by (simp add: that)
  have own: "\<exists>calls. calls_between E W (run_op E W t op) calls" if "\<exists>p. op = Bind p \<or> op = Continue p"
    using that bind_own [of t W E] continue_own [of t W E] by (intro no_calls) (auto simp: own_thread_def)
  note saved = enil_session_save_def enil_session_patch_def enil_session_write_def enil_session_prepare_login_def
    enil_session_save_login_certificate_def enil_session_accept_next_access_def
  note others = enil_session_login_id_def enil_session_update_partial_full_syncs_def enil_session_complete_partial_full_syncs_def
    enil_session_reset_partial_full_syncs_def enil_session_set_reauth_needed_def enil_session_set_sse_enabled_def
  show ?thesis
    by (cases op) (use own in \<open>auto simp: saved others Let_def write_calls retire_calls activate_calls same
      split: option.splits prod.splits bool.splits dest!: w\<close>)
qed

text \<open>The names of the files that are written before they are renamed, and of files put aside.\<close>

definition temporary :: "string \<Rightarrow> bool" where
  "temporary q \<longleftrightarrow> (\<exists>p l. q = p @ ''.tmp.'' @ l \<or> q = p @ ''.retired.'' @ l)"

text \<open>
  A state \<open>M\<close> between \<open>W\<close> and \<open>W'\<close>: every file is as before or as after, but for a new file with a temporary
  name.
\<close>

definition in_between :: "'t session_world \<Rightarrow> 't session_world \<Rightarrow> 't session_world \<Rightarrow> bool" where
  "in_between W W' M \<longleftrightarrow>
     (\<forall>q. sfiles M q = sfiles W q \<or> sfiles M q = sfiles W' q \<or> (temporary q \<and> sfiles W q = None))"

fun touches :: "file_call \<Rightarrow> string set" where
  "touches (Make p) = {p}"
| "touches (Fill p s) = {p}"
| "touches (Unlink p) = {p}"
| "touches (Rename p q) = {p, q}"

lemma untouched: "q \<notin> (\<Union>c \<in> set calls. touches c) \<Longrightarrow> sfiles (do_calls calls W) q = sfiles W q"
proof (induction calls arbitrary: W)
  case (Cons c calls)
  have "sfiles (do_call c W) q = sfiles W q"
    using Cons.prems by (cases c) (auto simp: put_file_def remove_file_def split: option.split)
  then show ?case using Cons by (simp add: do_calls_def)
qed (simp add: do_calls_def)

text \<open>Calls on one new temporary file, and then a last one.\<close>

lemma one_switch:
  assumes "\<And>c. c \<in> set calls \<Longrightarrow> touches c = {tmp}" and "temporary tmp" and "sfiles W tmp = None"
  shows "in_between W (do_calls (calls @ [final]) W) (do_calls (take k (calls @ [final])) W)"
proof (cases "k \<le> length calls")
  case True
  then have "sfiles (do_calls (take k (calls @ [final])) W) q = sfiles W q" if "q \<noteq> tmp" for q
    using that assms(1) by (intro untouched) (auto dest: in_set_takeD)
  then show ?thesis using assms(2,3) unfolding in_between_def by metis
next
  case False
  then show ?thesis by (simp add: in_between_def)
qed

lemma write_in_between:
  assumes "fresh_temp E W p"
  shows "in_between W (do_calls (write_steps E p doc) W) (do_calls (take k (write_steps E p doc)) W)"
proof (cases "wc_letters (wr E)")
  case None
  then show ?thesis by (simp add: write_steps_def in_between_def)
next
  case (Some l)
  let ?tmp = "p @ ''.tmp.'' @ l" and ?fill = "map (\<lambda>n. Fill (p @ ''.tmp.'' @ l) (take n (pretty E doc))) [0..<Suc (length (pretty E doc))]"
  have new: "temporary ?tmp" "sfiles W ?tmp = None" using assms Some by (auto simp: temporary_def fresh_temp_def)
  have "\<exists>calls final. write_steps E p doc = calls @ [final] \<and> (\<forall>c \<in> set calls. touches c = {?tmp})"
  proof (cases "wc_fdopen (wr E)")
    case False
    then show ?thesis using Some by (intro exI [of _ "[Make ?tmp]"]) (simp add: write_steps_def Let_def)
  next
    case True
    then show ?thesis using Some
      by (intro exI [of _ "Make ?tmp # ?fill"]) (auto simp: write_steps_def Let_def simp del: upt.simps)
  qed
  then show ?thesis using one_switch [OF _ new] by (metis (no_types, lifting))
qed

lemma retire_in_between:
  assumes "\<forall>l. rt_letters (rt E) = Some l \<longrightarrow> sfiles W (p @ ''.retired.'' @ l) = None"
  shows "in_between W (do_calls (retire_steps E p) W) (do_calls (take k (retire_steps E p)) W)"
proof (cases "rt_letters (rt E)")
  case None
  then show ?thesis by (simp add: retire_steps_def in_between_def)
next
  case (Some l)
  let ?q = "p @ ''.retired.'' @ l"
  have new: "temporary ?q" "sfiles W ?q = None" using assms Some by (auto simp: temporary_def)
  have "retire_steps E p = [Make ?q] @ [if rt_rename (rt E) then Rename p ?q else Unlink ?q]"
    using Some by (simp add: retire_steps_def Let_def)
  then show ?thesis by (simp only:) (rule one_switch [OF _ new], simp)
qed

lemma write_touches:
  "\<forall>l. x \<noteq> p \<and> x \<noteq> p @ ''.tmp.'' @ l \<Longrightarrow> sfiles (do_calls (take n (write_steps E p doc)) W) x = sfiles W x"
  by (rule untouched) (auto simp: write_steps_def Let_def split: option.splits if_splits dest!: in_set_takeD)

lemma retire_touches:
  "\<forall>l. x \<noteq> p \<and> x \<noteq> p @ ''.retired.'' @ l \<Longrightarrow> sfiles (do_calls (take n (retire_steps E p)) W) x = sfiles W x"
  by (rule untouched) (auto simp: retire_steps_def Let_def split: option.splits if_splits dest!: in_set_takeD)

lemma calls_in_between:
  assumes "fresh_names E W" and "call_sequence E calls"
  shows "in_between W (do_calls calls W) (do_calls (take k calls) W)"
proof -
  consider "calls = []" | p doc where "calls = write_steps E p doc" | p where "calls = retire_steps E p"
    | p doc where "calls = write_steps E p doc @ retire_steps E (p @ ''.refresh-pending'')"
    using assms(2) by (auto simp: call_sequence_def)
  then show ?thesis
  proof cases
    case 4
    let ?w = "write_steps E p doc" and ?q = "p @ ''.refresh-pending''"
    let ?W1 = "do_calls ?w W" and ?r = "retire_steps E ?q"
    let ?W2 = "do_calls ?r ?W1"
    have names: "?q @ ''.retired.'' @ l \<noteq> p" "?q \<noteq> p" "?q \<noteq> p @ ''.tmp.'' @ l" "?q @ ''.retired.'' @ l \<noteq> p @ ''.tmp.'' @ m" for l m
      by auto
    have kept: "sfiles (do_calls (take n ?r) ?W1) x = sfiles ?W1 x" "sfiles ?W2 x = sfiles ?W1 x"
      if "\<forall>l. x \<noteq> ?q \<and> x \<noteq> ?q @ ''.retired.'' @ l" for x n
      using retire_touches [OF that, of n E ?W1] retire_touches [OF that, of "length ?r" E ?W1] by simp_all
    have early: "sfiles (do_calls (take n ?w) W) x = sfiles W x" "sfiles ?W1 x = sfiles W x"
      if "\<forall>l. x \<noteq> p \<and> x \<noteq> p @ ''.tmp.'' @ l" for x n
      using write_touches [OF that, of n E doc W] write_touches [OF that, of "length ?w" E doc W] by simp_all
    have w: "in_between W ?W1 (do_calls (take n ?w) W)" for n using assms(1) by (simp add: write_in_between)
    have "sfiles ?W1 (?q @ ''.retired.'' @ l) = None" if "rt_letters (rt E) = Some l" for l
    proof -
      have "sfiles ?W1 (?q @ ''.retired.'' @ l) = sfiles W (?q @ ''.retired.'' @ l)" by (rule early(2)) (use names in auto)
      also have "\<dots> = None" using assms(1) that unfolding fresh_names_def by blast
      finally show ?thesis .
    qed
    then have r: "in_between ?W1 ?W2 (do_calls (take n ?r) ?W1)" for n by (intro retire_in_between) blast
    show ?thesis
    proof (cases "k \<le> length ?w")
      case True
      have "sfiles (do_calls (take k ?w) W) x = sfiles W x \<or> sfiles (do_calls (take k ?w) W) x = sfiles ?W2 x \<or> (temporary x \<and> sfiles W x = None)" for x
      proof (cases "\<forall>l. x \<noteq> ?q \<and> x \<noteq> ?q @ ''.retired.'' @ l")
        case True
        then show ?thesis using w [of k] kept(2) [of x] unfolding in_between_def by metis
      next
        case False
        then have "\<forall>l. x \<noteq> p \<and> x \<noteq> p @ ''.tmp.'' @ l" using names by auto
        then show ?thesis using early(1) by simp
      qed
      then show ?thesis using True 4 by (simp add: in_between_def do_calls_append)
    next
      case False
      let ?M = "do_calls (take (k - length ?w) ?r) ?W1"
      have "sfiles ?M x = sfiles W x \<or> sfiles ?M x = sfiles ?W2 x \<or> (temporary x \<and> sfiles W x = None)" for x
      proof (cases "\<forall>l. x \<noteq> p \<and> x \<noteq> p @ ''.tmp.'' @ l")
        case True
        then have "sfiles ?W1 x = sfiles W x" by (rule early(2))
        then show ?thesis using r [of "k - length ?w"] unfolding in_between_def by metis
      next
        case False
        then have "\<forall>l. x \<noteq> ?q \<and> x \<noteq> ?q @ ''.retired.'' @ l" using names by auto
        then show ?thesis using kept by simp
      qed
      then show ?thesis using False 4 by (simp add: in_between_def do_calls_append)
    qed
  next
    case 1
    then show ?thesis by (simp add: in_between_def)
  next
    case 2
    then show ?thesis using assms(1) by (simp add: write_in_between)
  next
    case 3
    have "\<forall>l. rt_letters (rt E) = Some l \<longrightarrow> sfiles W (p @ ''.retired.'' @ l) = None"
      using assms(1) unfolding fresh_names_def by blast
    then show ?thesis unfolding 3 by (rule retire_in_between)
  qed
qed

section \<open>The invariant\<close>

definition rebinds :: "'j session_op \<Rightarrow> bool" where
  "rebinds op \<longleftrightarrow> (case op of Bind _ \<Rightarrow> True | _ \<Rightarrow> False)"

lemma run_op_keeps:
  assumes "fresh_names E W"
  shows "whole (pretty E) W \<Longrightarrow> whole (pretty E) (run_op E W t op)"
    and "sbinding W u \<noteq> None \<Longrightarrow> u \<noteq> t \<or> \<not> rebinds op \<Longrightarrow>
      sbinding (run_op E W t op) u = sbinding W u \<and> current (sident (run_op E W t op)) u = current (sident W) u"
proof -
  have files: "only_files E W (run_op E W t op)" if "\<not> (\<exists>p. op = Bind p \<or> op = Continue p)"
    using that assms by (cases op) (auto intro: session_ops)
  have own: "own_thread t W (run_op E W t op)" if "\<exists>p. op = Bind p \<or> op = Continue p"
    using that by (auto intro: bind_own continue_own)
  show "whole (pretty E) W \<Longrightarrow> whole (pretty E) (run_op E W t op)"
    by (cases "\<exists>p. op = Bind p \<or> op = Continue p") (use files own in \<open>auto simp: only_files_def own_thread_def whole_def\<close>)
  show "sbinding W u \<noteq> None \<Longrightarrow> u \<noteq> t \<or> \<not> rebinds op \<Longrightarrow>
      sbinding (run_op E W t op) u = sbinding W u \<and> current (sident (run_op E W t op)) u = current (sident W) u"
  proof (cases "\<exists>p. op = Bind p \<or> op = Continue p")
    case False
    then show ?thesis using files by (simp add: only_files_def)
  next
    case True
    assume u: "sbinding W u \<noteq> None" "u \<noteq> t \<or> \<not> rebinds op"
    show ?thesis
    proof (cases "u = t")
      case True
      with u \<open>\<exists>p. _\<close> obtain p where "op = Continue p" by (auto simp: rebinds_def)
      with u True continue_bound [of W t E p] show ?thesis by simp
    next
      case False
      with own [OF True] show ?thesis by (simp add: own_thread_def)
    qed
  qed
qed

lemma run_keeps:
  assumes "session_run pr W tr W'" and "whole pr W"
  shows "whole pr W' \<and>
    (\<forall>t. sbinding W t \<noteq> None \<and> (\<forall>op. (t, op) \<in> set tr \<longrightarrow> \<not> rebinds op) \<longrightarrow>
       sbinding W' t = sbinding W t \<and> current (sident W') t = current (sident W) t)"
  using assms
proof (induction rule: session_run.induct)
  case (step E W t op tr W')
  note keep = run_op_keeps [where t = t and op = op, OF step.hyps(2), unfolded step.hyps(1)]
  from step.IH [OF keep(1) [OF step.prems]] have ih: "whole pr W'"
    "\<And>u. sbinding (run_op E W t op) u \<noteq> None \<Longrightarrow> (\<forall>op. (u, op) \<in> set tr \<longrightarrow> \<not> rebinds op) \<Longrightarrow>
       sbinding W' u = sbinding (run_op E W t op) u \<and> current (sident W') u = current (sident (run_op E W t op)) u"
    by blast+
  have "sbinding W' u = sbinding W u \<and> current (sident W') u = current (sident W) u"
    if u: "sbinding W u \<noteq> None" "\<forall>op'. (u, op') \<in> set ((t, op) # tr) \<longrightarrow> \<not> rebinds op'" for u
  proof -
    have "u \<noteq> t \<or> \<not> rebinds op" using u(2) by auto
    from keep(2) [OF u(1) this] ih(2) [of u] u show ?thesis by auto
  qed
  with ih(1) show ?case by blast
qed simp

text \<open>C30: The store survives any interleaving.  Whatever operations any threads run, and whichever of their
  system calls fail, every file holds a whole document after each operation; and in the middle of the next
  operation, after any number of its system calls (also halfway through writing a file), every file holds exactly
  what it held before the operation or what it will hold after it, except a new file under a temporary name.  So a
  session file is never seen half written, and a crash at any point leaves it whole.  An operation in progress keeps
  its login and client identity until its own thread starts another.  Assumed: operations that write run one at
  a time (they hold the session lock), and mkstemp gives new names.\<close>

theorem session_store_invariant:
  assumes "session_run pr W tr W'" and "whole pr W"
  shows "whole pr W' \<and>
    (\<forall>t. sbinding W t \<noteq> None \<and> (\<forall>op. (t, op) \<in> set tr \<longrightarrow> \<not> rebinds op) \<longrightarrow>
       sbinding W' t = sbinding W t \<and> current (sident W') t = current (sident W) t) \<and>
    (\<forall>E t op. pretty E = pr \<and> fresh_names E W' \<longrightarrow>
       (\<exists>calls. calls_between E W' (run_op E W' t op) calls) \<and>
       (\<forall>calls n. calls_between E W' (run_op E W' t op) calls \<longrightarrow>
          in_between W' (run_op E W' t op) (do_calls (take n calls) W') \<and>
          (\<forall>q s. sfiles (do_calls (take n calls) W') q = Some s \<longrightarrow> (\<exists>doc. s = pr doc) \<or> (temporary q \<and> sfiles W' q = None))))"
proof -
  have run: "whole pr W' \<and>
    (\<forall>t. sbinding W t \<noteq> None \<and> (\<forall>op. (t, op) \<in> set tr \<longrightarrow> \<not> rebinds op) \<longrightarrow>
       sbinding W' t = sbinding W t \<and> current (sident W') t = current (sident W) t)"
    by (rule run_keeps [OF assms])
  have middle: "in_between W' (run_op E W' t op) (do_calls (take n calls) W') \<and>
      (\<forall>q s. sfiles (do_calls (take n calls) W') q = Some s \<longrightarrow> (\<exists>doc. s = pr doc) \<or> (temporary q \<and> sfiles W' q = None))"
    if E: "pretty E = pr" "fresh_names E W'" and calls: "calls_between E W' (run_op E W' t op) calls"
    for E t op calls n
  proof -
    have M: "in_between W' (run_op E W' t op) (do_calls (take n calls) W')"
      using calls_in_between [OF E(2), of calls n] calls by (simp add: calls_between_def in_between_def)
    moreover have "whole pr (run_op E W' t op)" using run_op_keeps(1) [of E W' t op] E run by simp
    ultimately show ?thesis using run unfolding in_between_def whole_def by metis
  qed
  then have "\<forall>E t op. pretty E = pr \<and> fresh_names E W' \<longrightarrow>
      (\<exists>calls. calls_between E W' (run_op E W' t op) calls) \<and>
      (\<forall>calls n. calls_between E W' (run_op E W' t op) calls \<longrightarrow>
         in_between W' (run_op E W' t op) (do_calls (take n calls) W') \<and>
         (\<forall>q s. sfiles (do_calls (take n calls) W') q = Some s \<longrightarrow> (\<exists>doc. s = pr doc) \<or> (temporary q \<and> sfiles W' q = None)))"
    using op_calls by (intro allI impI conjI; elim conjE; fast)
  with run show ?thesis by blast
qed

definition demo_start :: "nat session_world" where
  "demo_start = demo_world\<lparr>sfiles := [''/s'' \<mapsto> ''other'']\<rparr>"

theorem session_store_invariant_witness:
  "\<exists>W'. session_run (pretty (demo_io JNull)) demo_start [(1, Bind (Some ''/s'')), (2, Write (Some ''/t'') (Some (JObj [])))] W' \<and>
     whole (pretty (demo_io JNull)) W' \<and> sbinding W' 0 = sbinding demo_start 0 \<and> sfiles W' ''/t'' = Some ''other'' \<and>
     (\<exists>calls. calls_between (demo_io JNull) W' (run_op (demo_io JNull) W' 2 (Write (Some ''/t'') (Some JNull))) calls \<and>
        in_between W' (run_op (demo_io JNull) W' 2 (Write (Some ''/t'') (Some JNull))) (do_calls (take 2 calls) W'))"
proof -
  let ?E = "demo_io JNull"
  define W1 where "W1 = run_op ?E demo_start 1 (Bind (Some ''/s''))"
  define W2 where "W2 = run_op ?E W1 2 (Write (Some ''/t'') (Some (JObj [])))"
  have files: "sfiles W1 = sfiles demo_start" using bind_own [of 1 demo_start ?E "Some ''/s''"] by (simp add: W1_def own_thread_def)
  have fresh: "fresh_names ?E demo_start" "fresh_names ?E W1"
    using files by (auto simp: fresh_names_def fresh_temp_def demo_start_def)
  have run: "session_run (pretty ?E) demo_start [(1, Bind (Some ''/s'')), (2, Write (Some ''/t'') (Some (JObj [])))] W2"
    using session_run.step [OF refl fresh(1), of 1 "Bind (Some ''/s'')"]
      session_run.step [OF refl fresh(2), of 2 "Write (Some ''/t'') (Some (JObj []))"] session_run.idle
    by (metis W1_def W2_def)
  have "pretty ?E (JObj []) = ''other''" by (simp add: demo_io_def)
  then have whole: "whole (pretty ?E) demo_start" unfolding whole_def demo_start_def by (auto split: if_splits) metis
  have after: "sfiles W2 = (sfiles demo_start)(''/t'' \<mapsto> ''other'')"
    unfolding W2_def run_op.simps enil_session_write_def session_write_locked_eq
    by (rule ext) (use files in \<open>simp add: Let_def put_file_def remove_file_def demo_io_def demo_start_def sync_parent_directory_def\<close>)
  then have new: "fresh_names ?E W2" by (auto simp: fresh_names_def fresh_temp_def demo_start_def)
  note inv = session_store_invariant [OF run whole]
  obtain calls where "calls_between ?E W2 (run_op ?E W2 2 (Write (Some ''/t'') (Some JNull))) calls"
    using inv new by blast
  moreover from this have "in_between W2 (run_op ?E W2 2 (Write (Some ''/t'') (Some JNull))) (do_calls (take 2 calls) W2)"
    using inv new by blast
  moreover have "sbinding demo_start 0 \<noteq> None" by (simp add: demo_start_def demo_world_def)
  then have "sbinding W2 0 = sbinding demo_start 0" using inv by auto
  ultimately show ?thesis using run inv after by (intro exI [of _ W2]) auto
qed

end
