(* ===== verification/ENIL_TalkTypes.thy ===== *)
theory ENIL_TalkTypes
  imports ENIL_Json
begin

text \<open>
  The structs of \<open>source/shared/enil_api_types.h\<close> that mirror LINE's server data, and the parsers
  that fill them (\<open>source/shared/enil_talkserv.c\<close>; messages and operations are parsed in
  \<open>source/shared/enil_db.c\<close>).  A parser clears its struct, fills the fields it finds and returns
  0 or -1: the struct, or \<open>None\<close>.  A field the reader does not find keeps its cleared value.
  The struct fields carry a prefix of their struct's name, since a record's selectors are global.
\<close>

section \<open>Optional fields\<close>

definition str_field :: "'j cjson \<Rightarrow> 'j \<Rightarrow> string \<Rightarrow> string option" where
  "str_field J j k = (case enil_json_dup_string_opt J (Some j) (Some k) of None \<Rightarrow> None | Some s \<Rightarrow> s)"

definition int_field :: "'j cjson \<Rightarrow> 'j \<Rightarrow> string \<Rightarrow> int" where
  "int_field J j k = (case enil_json_get_int J (Some j) (Some k) of None \<Rightarrow> 0 | Some n \<Rightarrow> n)"

definition i64_field :: "'j cjson \<Rightarrow> 'j \<Rightarrow> string \<Rightarrow> int" where
  "i64_field J j k = (case enil_json_get_int64 J (Some j) (Some k) of None \<Rightarrow> 0 | Some n \<Rightarrow> n)"

definition bool_field :: "'j cjson \<Rightarrow> 'j \<Rightarrow> string \<Rightarrow> bool" where
  "bool_field J j k = (case enil_json_get_bool J (Some j) (Some k) of None \<Rightarrow> False | Some b \<Rightarrow> b)"

text \<open>An item kept only when it has the wanted kind.\<close>

definition keep_if :: "('j \<Rightarrow> bool) \<Rightarrow> 'j option \<Rightarrow> 'j option" where
  "keep_if P v = (if jis P v then v else None)"

lemma keep_if_simps [simp]:
  "keep_if P None = None" "keep_if P (Some j) = (if P j then Some j else None)"
  by (simp_all add: keep_if_def)

section \<open>Profile\<close>

record 'j talk_profile_t =
  pf_mid :: string
  pf_user_id :: "string option"
  pf_region_code :: "string option"
  pf_display_name :: "string option"
  pf_status_message :: "string option"
  pf_allow_search_by_user_id :: bool
  pf_allow_search_by_email :: bool
  pf_picture_path :: "string option"
  pf_status_message_content_metadata :: "string option"
  pf_nft_profile :: bool
  pf_profile_id :: "string option"
  pf_profile_type :: int
  pf_created_time_millis :: int
  pf_raw :: 'j

definition talk_get_profile_parse :: "'j cjson \<Rightarrow> 'j \<Rightarrow> 'j talk_profile_t option" where
  "talk_get_profile_parse J data =
     (if \<not> isObject J data then None
      else case enil_json_dup_string J (Some data) (Some ''mid'') of
             None \<Rightarrow> None
           | Some mid \<Rightarrow>
               Some \<lparr>pf_mid = mid,
                     pf_user_id = str_field J data ''userid'',
                     pf_region_code = str_field J data ''regionCode'',
                     pf_display_name = str_field J data ''displayName'',
                     pf_status_message = str_field J data ''statusMessage'',
                     pf_allow_search_by_user_id = bool_field J data ''allowSearchByUserid'',
                     pf_allow_search_by_email = bool_field J data ''allowSearchByEmail'',
                     pf_picture_path = str_field J data ''picturePath'',
                     pf_status_message_content_metadata =
                       map_option (printText J) (keep_if (isObject J) (getItemCS J data ''statusMessageContentMetadata'')),
                     pf_nft_profile = bool_field J data ''nftProfile'',
                     pf_profile_id = str_field J data ''profileId'',
                     pf_profile_type = int_field J data ''profileType'',
                     pf_created_time_millis = i64_field J data ''createdTimeMillis'',
                     pf_raw = data\<rparr>)"

section \<open>Contacts\<close>

record 'j talk_contact_t =
  co_mid :: string
  co_display_name :: "string option"
  co_display_name_overridden :: "string option"
  co_status_message :: "string option"
  co_picture_path :: "string option"
  co_registered :: bool
  co_raw :: "'j option"

text \<open>
  An entry comes with its name in the map, its \<open>string\<close>.  An entry without a \<open>contact\<close> object is
  an unregistered user, of whom only the mid is known.
\<close>

definition parse_contact_entry :: "'j cjson \<Rightarrow> string \<times> 'j \<Rightarrow> 'j talk_contact_t" where
  "parse_contact_entry J entry =
     (case getItem J (snd entry) ''contact'' of
        Some contact \<Rightarrow>
          if isObject J contact
          then \<lparr>co_mid = fst entry,
                co_display_name = str_field J contact ''displayName'',
                co_display_name_overridden = str_field J contact ''displayNameOverridden'',
                co_status_message = str_field J contact ''statusMessage'',
                co_picture_path = str_field J contact ''picturePath'',
                co_registered = True, co_raw = Some (snd entry)\<rparr>
          else \<lparr>co_mid = fst entry, co_display_name = None, co_display_name_overridden = None,
                co_status_message = None, co_picture_path = None, co_registered = False, co_raw = None\<rparr>
      | None \<Rightarrow> \<lparr>co_mid = fst entry, co_display_name = None, co_display_name_overridden = None,
                co_status_message = None, co_picture_path = None, co_registered = False, co_raw = None\<rparr>)"

section \<open>Chats\<close>

record 'j talk_chat_t =
  ch_chatMid :: string
  ch_createdTime :: int
  ch_notificationDisabled :: bool
  ch_favoriteTimestamp :: int
  ch_chatName :: "string option"
  ch_picturePath :: "string option"
  ch_type :: int
  ch_creatorMid :: "string option"
  ch_invitationTicket :: "string option"
  ch_isInvited :: bool
  ch_raw :: 'j

definition group_extra :: "'j cjson \<Rightarrow> 'j \<Rightarrow> 'j option" where
  "group_extra J entry =
     keep_if (isObject J) (jget J (keep_if (isObject J) (getItemCS J entry ''extra'')) ''groupExtra'')"

definition parse_chat_entry :: "'j cjson \<Rightarrow> 'j \<Rightarrow> 'j talk_chat_t option" where
  "parse_chat_entry J entry =
     (case enil_json_dup_string J (Some entry) (Some ''chatMid'') of
        None \<Rightarrow> None
      | Some mid \<Rightarrow>
          Some \<lparr>ch_chatMid = mid,
                ch_createdTime = i64_field J entry ''createdTime'',
                ch_notificationDisabled = bool_field J entry ''notificationDisabled'',
                ch_favoriteTimestamp = i64_field J entry ''favoriteTimestamp'',
                ch_chatName = str_field J entry ''chatName'',
                ch_picturePath = str_field J entry ''picturePath'',
                ch_type = int_field J entry ''type'',
                ch_creatorMid = Option.bind (group_extra J entry) (\<lambda>g. str_field J g ''creatorMid''),
                ch_invitationTicket = Option.bind (group_extra J entry) (\<lambda>g. str_field J g ''invitationTicket''),
                ch_isInvited = False,
                ch_raw = entry\<rparr>)"

text \<open>The strings of an array; any other item of it is skipped.\<close>

definition dup_string_array :: "'j cjson \<Rightarrow> 'j option \<Rightarrow> string list" where
  "dup_string_array J arr =
     (if \<not> jis (isArray J) arr then []
      else map (\<lambda>(k, v). valuestring J v) (filter (\<lambda>(k, v). isString J v) (jkids J arr)))"

record 'j talk_get_all_chat_mids_t =
  am_memberChatMids :: "string list"
  am_invitedChatMids :: "string list"
  am_raw :: 'j

section \<open>Message boxes\<close>

record 'j talk_message_box_t =
  mb_id :: string
  mb_midType :: int
  mb_lastDeliveredMessageId :: "string option"
  mb_lastDeliveredTime :: int
  mb_lastSeenMessageId :: "string option"
  mb_unreadCount :: int
  mb_raw :: 'j

definition parse_message_box_entry :: "'j cjson \<Rightarrow> 'j \<Rightarrow> 'j talk_message_box_t option" where
  "parse_message_box_entry J entry =
     (case enil_json_dup_string J (Some entry) (Some ''id'') of
        None \<Rightarrow> None
      | Some i \<Rightarrow>
          let ldi = keep_if (isObject J) (getItemCS J entry ''lastDeliveredMessageId'') in
          Some \<lparr>mb_id = i,
                mb_midType = int_field J entry ''midType'',
                mb_lastDeliveredMessageId = Option.bind ldi (\<lambda>l. str_field J l ''messageId''),
                mb_lastDeliveredTime = (case ldi of None \<Rightarrow> 0 | Some l \<Rightarrow> i64_field J l ''deliveredTime''),
                mb_lastSeenMessageId = str_field J entry ''lastSeenMessageId'',
                mb_unreadCount = i64_field J entry ''unreadCount'',
                mb_raw = entry\<rparr>)"

section \<open>Messages\<close>

text \<open>
  One struct serves received messages and requests to send one, so every text may be missing.  A
  parsed message always has its id and its \<open>raw\<close> item.
\<close>

record 'j talk_message_t =
  m_id :: "string option"
  m_from_mid :: "string option"
  m_to_mid :: "string option"
  m_toType :: int
  m_sessionId :: int
  m_createdTime :: int
  m_contentType :: int
  m_hasContent :: bool
  m_text :: "string option"
  m_relatedMessageId :: "string option"
  m_messageRelationType :: int
  m_relatedMessageServiceCode :: int
  m_contentMetadata :: "'j option"
  m_chunks :: "'j option"
  m_chat_id :: "string option"
  m_raw :: "'j option"

definition talk_message_parse :: "'j cjson \<Rightarrow> 'j option \<Rightarrow> string option \<Rightarrow> 'j talk_message_t option" where
  "talk_message_parse J ent chat_id =
     (case ent of
        None \<Rightarrow> None
      | Some entry \<Rightarrow>
          (case enil_json_dup_string J (Some entry) (Some ''id'') of
             None \<Rightarrow> None
           | Some i \<Rightarrow>
               Some \<lparr>m_id = Some i,
                     m_from_mid = str_field J entry ''from'',
                     m_to_mid = str_field J entry ''to'',
                     m_toType = int_field J entry ''toType'',
                     m_sessionId = int_field J entry ''sessionId'',
                     m_createdTime = i64_field J entry ''createdTime'',
                     m_contentType = int_field J entry ''contentType'',
                     m_hasContent = bool_field J entry ''hasContent'',
                     m_text = str_field J entry ''text'',
                     m_relatedMessageId = str_field J entry ''relatedMessageId'',
                     m_messageRelationType = int_field J entry ''messageRelationType'',
                     m_relatedMessageServiceCode = int_field J entry ''relatedMessageServiceCode'',
                     m_contentMetadata = keep_if (isObject J) (getItemCS J entry ''contentMetadata''),
                     m_chunks = keep_if (isArray J) (getItemCS J entry ''chunks''),
                     m_chat_id = chat_id,
                     m_raw = Some entry\<rparr>))"

section \<open>Operations\<close>

text \<open>The list both the enum and its names are generated from.\<close>

definition ENIL_OP_LIST :: "(int \<times> string) list" where
  "ENIL_OP_LIST =
  [(0, ''END_OF_OPERATION''),
   (1, ''UPDATE_PROFILE''),
   (2, ''NOTIFIED_UPDATE_PROFILE''),
   (3, ''REGISTER_USERID''),
   (4, ''ADD_CONTACT''),
   (5, ''NOTIFIED_ADD_CONTACT''),
   (6, ''BLOCK_CONTACT''),
   (7, ''UNBLOCK_CONTACT''),
   (8, ''NOTIFIED_RECOMMEND_CONTACT''),
   (9, ''CREATE_GROUP''),
   (10, ''UPDATE_GROUP''),
   (11, ''NOTIFIED_UPDATE_GROUP''),
   (12, ''INVITE_INTO_GROUP''),
   (13, ''NOTIFIED_INVITE_INTO_GROUP''),
   (14, ''LEAVE_GROUP''),
   (15, ''NOTIFIED_LEAVE_GROUP''),
   (16, ''ACCEPT_GROUP_INVITATION''),
   (17, ''NOTIFIED_ACCEPT_GROUP_INVITATION''),
   (18, ''KICKOUT_FROM_GROUP''),
   (19, ''NOTIFIED_KICKOUT_FROM_GROUP''),
   (20, ''CREATE_ROOM''),
   (21, ''INVITE_INTO_ROOM''),
   (22, ''NOTIFIED_INVITE_INTO_ROOM''),
   (23, ''LEAVE_ROOM''),
   (24, ''NOTIFIED_LEAVE_ROOM''),
   (25, ''SEND_MESSAGE''),
   (26, ''RECEIVE_MESSAGE''),
   (27, ''SEND_MESSAGE_RECEIPT''),
   (28, ''RECEIVE_MESSAGE_RECEIPT''),
   (29, ''SEND_CONTENT_RECEIPT''),
   (30, ''RECEIVE_ANNOUNCEMENT''),
   (31, ''CANCEL_INVITATION_GROUP''),
   (32, ''NOTIFIED_CANCEL_INVITATION_GROUP''),
   (33, ''NOTIFIED_UNREGISTER_USER''),
   (34, ''REJECT_GROUP_INVITATION''),
   (35, ''NOTIFIED_REJECT_GROUP_INVITATION''),
   (36, ''UPDATE_SETTINGS''),
   (37, ''NOTIFIED_REGISTER_USER''),
   (38, ''INVITE_VIA_EMAIL''),
   (39, ''NOTIFIED_REQUEST_RECOVERY''),
   (40, ''SEND_CHAT_CHECKED''),
   (41, ''SEND_CHAT_REMOVED''),
   (42, ''NOTIFIED_FORCE_SYNC''),
   (43, ''SEND_CONTENT''),
   (44, ''SEND_MESSAGE_MYHOME''),
   (45, ''NOTIFIED_UPDATE_CONTENT_PREVIEW''),
   (46, ''REMOVE_ALL_MESSAGES''),
   (47, ''NOTIFIED_UPDATE_PURCHASES''),
   (48, ''DUMMY''),
   (49, ''UPDATE_CONTACT''),
   (50, ''NOTIFIED_RECEIVED_CALL''),
   (51, ''CANCEL_CALL''),
   (52, ''NOTIFIED_REDIRECT''),
   (53, ''NOTIFIED_CHANNEL_SYNC''),
   (54, ''FAILED_SEND_MESSAGE''),
   (55, ''NOTIFIED_READ_MESSAGE''),
   (56, ''FAILED_EMAIL_CONFIRMATION''),
   (58, ''NOTIFIED_CHAT_CONTENT''),
   (59, ''NOTIFIED_PUSH_NOTICENTER_ITEM''),
   (60, ''NOTIFIED_JOIN_CHAT''),
   (61, ''NOTIFIED_LEAVE_CHAT''),
   (62, ''NOTIFIED_TYPING''),
   (63, ''FRIEND_REQUEST_ACCEPTED''),
   (64, ''DESTROY_MESSAGE''),
   (65, ''NOTIFIED_DESTROY_MESSAGE''),
   (66, ''UPDATE_PUBLICKEYCHAIN''),
   (67, ''NOTIFIED_UPDATE_PUBLICKEYCHAIN''),
   (68, ''NOTIFIED_BLOCK_CONTACT''),
   (69, ''NOTIFIED_UNBLOCK_CONTACT''),
   (70, ''UPDATE_GROUPPREFERENCE''),
   (71, ''NOTIFIED_PAYMENT_EVENT''),
   (72, ''REGISTER_E2EE_PUBLICKEY''),
   (73, ''NOTIFIED_E2EE_KEY_EXCHANGE_REQ''),
   (74, ''NOTIFIED_E2EE_KEY_EXCHANGE_RESP''),
   (75, ''NOTIFIED_E2EE_MESSAGE_RESEND_REQ''),
   (76, ''NOTIFIED_E2EE_MESSAGE_RESEND_RESP''),
   (77, ''NOTIFIED_E2EE_KEY_UPDATE''),
   (78, ''NOTIFIED_BUDDY_UPDATE_PROFILE''),
   (79, ''NOTIFIED_UPDATE_LINEAT_TABS''),
   (80, ''UPDATE_ROOM''),
   (81, ''NOTIFIED_BEACON_DETECTED''),
   (82, ''UPDATE_EXTENDED_PROFILE''),
   (83, ''ADD_FOLLOW''),
   (84, ''NOTIFIED_ADD_FOLLOW''),
   (85, ''DELETE_FOLLOW''),
   (86, ''NOTIFIED_DELETE_FOLLOW''),
   (87, ''UPDATE_TIMELINE_SETTINGS''),
   (88, ''NOTIFIED_FRIEND_REQUEST''),
   (89, ''UPDATE_RINGBACK_TONE''),
   (90, ''NOTIFIED_POSTBACK''),
   (91, ''RECEIVE_READ_WATERMARK''),
   (92, ''NOTIFIED_MESSAGE_DELIVERED''),
   (93, ''NOTIFIED_UPDATE_CHAT_BAR''),
   (94, ''NOTIFIED_CHATAPP_INSTALLED''),
   (95, ''NOTIFIED_CHATAPP_UPDATED''),
   (96, ''NOTIFIED_CHATAPP_NEW_MARK''),
   (97, ''NOTIFIED_CHATAPP_DELETED''),
   (98, ''NOTIFIED_CHATAPP_SYNC''),
   (99, ''NOTIFIED_UPDATE_MESSAGE''),
   (100, ''UPDATE_CHATROOMBGM''),
   (101, ''NOTIFIED_UPDATE_CHATROOMBGM''),
   (102, ''UPDATE_RINGTONE''),
   (118, ''UPDATE_USER_SETTINGS''),
   (119, ''NOTIFIED_UPDATE_STATUS_BAR''),
   (120, ''CREATE_CHAT''),
   (121, ''UPDATE_CHAT''),
   (122, ''NOTIFIED_UPDATE_CHAT''),
   (123, ''INVITE_INTO_CHAT''),
   (124, ''NOTIFIED_INVITE_INTO_CHAT''),
   (125, ''CANCEL_CHAT_INVITATION''),
   (126, ''NOTIFIED_CANCEL_CHAT_INVITATION''),
   (127, ''DELETE_SELF_FROM_CHAT''),
   (128, ''NOTIFIED_DELETE_SELF_FROM_CHAT''),
   (129, ''ACCEPT_CHAT_INVITATION''),
   (130, ''NOTIFIED_ACCEPT_CHAT_INVITATION''),
   (131, ''REJECT_CHAT_INVITATION''),
   (132, ''DELETE_OTHER_FROM_CHAT''),
   (133, ''NOTIFIED_DELETE_OTHER_FROM_CHAT''),
   (134, ''NOTIFIED_CONTACT_CALENDAR_EVENT''),
   (135, ''NOTIFIED_CONTACT_CALENDAR_EVENT_ALL''),
   (136, ''UPDATE_THINGS_OPERATIONS''),
   (137, ''SEND_CHAT_HIDDEN''),
   (138, ''CHAT_META_SYNC_ALL''),
   (139, ''SEND_REACTION''),
   (140, ''NOTIFIED_SEND_REACTION''),
   (141, ''NOTIFIED_UPDATE_PROFILE_CONTENT''),
   (142, ''FAILED_DELIVERY_MESSAGE''),
   (143, ''SEND_ENCRYPTED_E2EE_KEY_REQUESTED''),
   (144, ''CHANNEL_PAAK_AUTHENTICATION_REQUESTED''),
   (145, ''UPDATE_PIN_STATE''),
   (146, ''NOTIFIED_PREMIUMBACKUP_STATE_CHANGED''),
   (147, ''CREATE_MULTI_PROFILE''),
   (148, ''MULTI_PROFILE_STATUS_CHANGED''),
   (149, ''DELETE_MULTI_PROFILE''),
   (150, ''UPDATE_PROFILE_MAPPING''),
   (151, ''DELETE_PROFILE_MAPPING''),
   (152, ''NOTIFIED_DESTROY_NOTICENTER_PUSH''),
   (153, ''FORCE_KEY_BACKUP_HEADER_VALIDATION'')]"

definition enil_op_type_name :: "int \<Rightarrow> string" where
  "enil_op_type_name t = (case map_of ENIL_OP_LIST t of Some s \<Rightarrow> s | None \<Rightarrow> ''UNKNOWN'')"

record 'j talk_operation_t =
  op_revision :: int
  op_type :: int
  op_reqSeq :: int
  op_createdTime :: int
  op_param1 :: "string option"
  op_param2 :: "string option"
  op_param3 :: "string option"
  op_message :: "'j talk_message_t option"
  op_raw :: 'j

text \<open>A message of a one-to-one chat (\<open>toType\<close> 0) addressed to this account belongs to its sender's chat.\<close>

definition operation_chat_id :: "'j cjson \<Rightarrow> 'j \<Rightarrow> string option \<Rightarrow> string option" where
  "operation_chat_id J msg my_mid =
     (let from_mid = jstr J (getItem J msg ''from'');
          to_mid = jstr J (getItem J msg ''to'');
          to_type = (case getItem J msg ''toType'' of
                       Some t \<Rightarrow> if isNumber J t then trunc (valuedouble J t) else 0
                     | None \<Rightarrow> 0)
      in if to_type = 0
         then (if my_mid \<noteq> None \<and> to_mid \<noteq> None \<and> to_mid = my_mid then from_mid else to_mid)
         else to_mid)"

definition talk_operation_parse :: "'j cjson \<Rightarrow> 'j option \<Rightarrow> string option \<Rightarrow> 'j talk_operation_t option" where
  "talk_operation_parse J rt my_mid =
     (case rt of
        None \<Rightarrow> None
      | Some r \<Rightarrow>
          Some \<lparr>op_revision = i64_field J r ''revision'',
                op_type = int_field J r ''type'',
                op_reqSeq = int_field J r ''reqSeq'',
                op_createdTime = i64_field J r ''createdTime'',
                op_param1 = str_field J r ''param1'',
                op_param2 = str_field J r ''param2'',
                op_param3 = str_field J r ''param3'',
                op_message =
                  (case keep_if (isObject J) (getItemCS J r ''message'') of
                     None \<Rightarrow> None
                   | Some msg \<Rightarrow> talk_message_parse J (Some msg) (operation_chat_id J msg my_mid)),
                op_raw = r\<rparr>)"

section \<open>End-to-end keys\<close>

record 'j talk_e2ee_public_key_t =
  pk_keyId :: int
  pk_publicKey :: string
  pk_e2eeVersion :: int
  pk_expired :: bool
  pk_createdTime :: int
  pk_renewalCount :: int
  pk_raw :: 'j

definition talk_negotiate_e2ee_public_key_parse :: "'j cjson \<Rightarrow> 'j \<Rightarrow> 'j talk_e2ee_public_key_t option" where
  "talk_negotiate_e2ee_public_key_parse J data =
     (if \<not> isObject J data then None
      else case keep_if (isObject J) (getItemCS J data ''publicKey'') of
             None \<Rightarrow> None
           | Some pub_key \<Rightarrow>
               (case enil_json_dup_string J (Some pub_key) (Some ''keyData'') of
                  None \<Rightarrow> None
                | Some key_data \<Rightarrow>
                    if i64_field J pub_key ''keyId'' = 0 then None
                    else Some \<lparr>pk_keyId = i64_field J pub_key ''keyId'',
                               pk_publicKey = key_data,
                               pk_e2eeVersion = int_field J data ''e2eeVersion'',
                               pk_expired = bool_field J data ''expired'',
                               pk_createdTime = i64_field J data ''createdTime'',
                               pk_renewalCount = int_field J data ''renewalCount'',
                               pk_raw = data\<rparr>))"

record 'j talk_e2ee_group_shared_key_t =
  gk_keyVersion :: int
  gk_groupKeyId :: int
  gk_creator :: "string option"
  gk_creatorKeyId :: int
  gk_receiver :: "string option"
  gk_receiverKeyId :: int
  gk_encryptedSharedKey :: "string option"
  gk_allowedTypes :: "'j option"
  gk_specVersion :: int
  gk_raw :: 'j

definition talk_e2ee_group_shared_key_parse ::
  "'j cjson \<Rightarrow> 'j option \<Rightarrow> 'j talk_e2ee_group_shared_key_t option" where
  "talk_e2ee_group_shared_key_parse J dat =
     (case keep_if (isObject J) dat of
        None \<Rightarrow> None
      | Some data \<Rightarrow>
          let out = \<lparr>gk_keyVersion = int_field J data ''keyVersion'',
                     gk_groupKeyId = i64_field J data ''groupKeyId'',
                     gk_creator = str_field J data ''creator'',
                     gk_creatorKeyId = i64_field J data ''creatorKeyId'',
                     gk_receiver = str_field J data ''receiver'',
                     gk_receiverKeyId = i64_field J data ''receiverKeyId'',
                     gk_encryptedSharedKey = str_field J data ''encryptedSharedKey'',
                     gk_allowedTypes = keep_if (isArray J) (getItemCS J data ''allowedTypes''),
                     gk_specVersion = int_field J data ''specVersion'',
                     gk_raw = data\<rparr>
          in if gk_creator out = None \<or> gk_groupKeyId out = 0 then None else Some out)"

section \<open>Tokens\<close>

record talk_refresh_api_retry_policy_t =
  rp_initialDelayInMillis :: int
  rp_maxDelayInMillis :: int
  rp_multiplier :: real
  rp_jitterRate :: real

record 'j talk_token_v3_issue_result_t =
  tv_accessToken :: string
  tv_refreshToken :: "string option"
  tv_durationUntilRefreshInSec :: int
  tv_tokenIssueTimeEpochSec :: int
  tv_loginSessionId :: "string option"
  tv_refreshApiRetryPolicy :: talk_refresh_api_retry_policy_t
  tv_raw :: 'j

text \<open>\<open>strtod\<close> is the platform's, a parameter; the result is what is written, 0 when nothing is.\<close>

definition token_v3_get_double :: "'j cjson \<Rightarrow> (string \<Rightarrow> real) \<Rightarrow> 'j \<Rightarrow> string \<Rightarrow> real" where
  "token_v3_get_double J strtod j k =
     (case getItemCS J j k of
        None \<Rightarrow> 0
      | Some item \<Rightarrow>
          if isNumber J item then valuedouble J item
          else if isString J item then strtod (valuestring J item)
          else 0)"

definition talk_token_v3_issue_result_parse ::
  "'j cjson \<Rightarrow> (string \<Rightarrow> real) \<Rightarrow> 'j option \<Rightarrow> 'j talk_token_v3_issue_result_t option" where
  "talk_token_v3_issue_result_parse J strtod dat =
     (case keep_if (isObject J) dat of
        None \<Rightarrow> None
      | Some data \<Rightarrow>
          (case enil_json_dup_string J (Some data) (Some ''accessToken'') of
             None \<Rightarrow> None
           | Some token \<Rightarrow>
               Some \<lparr>tv_accessToken = token,
                     tv_refreshToken = str_field J data ''refreshToken'',
                     tv_durationUntilRefreshInSec = i64_field J data ''durationUntilRefreshInSec'',
                     tv_tokenIssueTimeEpochSec = i64_field J data ''tokenIssueTimeEpochSec'',
                     tv_loginSessionId = str_field J data ''loginSessionId'',
                     tv_refreshApiRetryPolicy =
                       (case keep_if (isObject J) (getItemCS J data ''refreshApiRetryPolicy'') of
                          None \<Rightarrow> \<lparr>rp_initialDelayInMillis = 0, rp_maxDelayInMillis = 0, rp_multiplier = 0, rp_jitterRate = 0\<rparr>
                        | Some policy \<Rightarrow>
                            \<lparr>rp_initialDelayInMillis = i64_field J policy ''initialDelayInMillis'',
                             rp_maxDelayInMillis = i64_field J policy ''maxDelayInMillis'',
                             rp_multiplier = token_v3_get_double J strtod policy ''multiplier'',
                             rp_jitterRate = token_v3_get_double J strtod policy ''jitterRate''\<rparr>),
                     tv_raw = data\<rparr>))"

section \<open>Media flow\<close>

record 'j talk_media_flow_t =
  mf_flowMap :: 'j
  mf_cacheTtlMillis :: int
  mf_raw :: 'j

definition talk_determine_media_message_flow_parse :: "'j cjson \<Rightarrow> 'j \<Rightarrow> 'j talk_media_flow_t option" where
  "talk_determine_media_message_flow_parse J data =
     (if \<not> isObject J data then None
      else case keep_if (isObject J) (getItemCS J data ''flowMap'') of
             None \<Rightarrow> None
           | Some flow_map \<Rightarrow>
               Some \<lparr>mf_flowMap = flow_map, mf_cacheTtlMillis = i64_field J data ''cacheTtlMillis'', mf_raw = data\<rparr>)"

section \<open>Owned products\<close>

record 'j sticker_package_t =
  sk_id :: "string option"
  sk_name :: "string option"
  sk_latestVersion :: "string option"
  sk_grantedByDefault :: bool
  sk_authorId :: "string option"
  sk_installedTime :: int
  sk_validUntil :: "string option"
  sk_validFor :: int
  sk_availability :: int
  sk_canAutoDownload :: bool
  sk_promotionType :: int
  sk_stickerResourceType :: int
  sk_stickerSize :: int
  sk_suggestVersion :: "string option"
  sk_defaultDisplayOnKeyboard :: bool
  sk_availableForPhotoEdit :: bool
  sk_stickerIdRanges :: "'j option"
  sk_isPurchased :: bool
  sk_raw :: 'j

record 'j sticon_package_t =
  sc_id :: "string option"
  sc_name :: "string option"
  sc_latestVersion :: "string option"
  sc_grantedByDefault :: bool
  sc_authorId :: "string option"
  sc_installedTime :: int
  sc_validUntil :: "string option"
  sc_validFor :: int
  sc_availability :: int
  sc_canAutoDownload :: bool
  sc_promotionType :: int
  sc_sticonResourceType :: int
  sc_suggestVersion :: "string option"
  sc_availableForPhotoEdit :: bool
  sc_applicationVersionRange :: "'j option"
  sc_isPurchased :: bool
  sc_raw :: 'j

text \<open>The object under a name, looked up without case, and its fields: cleared values without one.\<close>

definition sub_object :: "'j cjson \<Rightarrow> 'j option \<Rightarrow> string \<Rightarrow> 'j option" where
  "sub_object J j k = keep_if (isObject J) (jgeti J j k)"

definition sub_int :: "'j cjson \<Rightarrow> 'j option \<Rightarrow> string \<Rightarrow> int" where
  "sub_int J j k = (case j of None \<Rightarrow> 0 | Some i \<Rightarrow> int_field J i k)"

definition sub_bool :: "'j cjson \<Rightarrow> 'j option \<Rightarrow> string \<Rightarrow> bool" where
  "sub_bool J j k = (case j of None \<Rightarrow> False | Some i \<Rightarrow> bool_field J i k)"

definition parse_sticker_package_entry :: "'j cjson \<Rightarrow> 'j \<Rightarrow> 'j sticker_package_t" where
  "parse_sticker_package_entry J product =
     (let promo = sub_object J (Some product) ''promotionInfo'';
          type_sum = sub_object J (Some product) ''productTypeSummary'';
          stk_sum = sub_object J type_sum ''stickerSummary''
      in \<lparr>sk_id = str_field J product ''id'',
          sk_name = str_field J product ''name'',
          sk_latestVersion = str_field J product ''latestVersion'',
          sk_grantedByDefault = bool_field J product ''grantedByDefault'',
          sk_authorId = str_field J product ''authorId'',
          sk_installedTime = enil_json_coerce_int64 J (getItem J product ''installedTime''),
          sk_validUntil = str_field J product ''validUntil'',
          sk_validFor = int_field J product ''validFor'',
          sk_availability = int_field J product ''availability'',
          sk_canAutoDownload = bool_field J product ''canAutoDownload'',
          sk_promotionType = sub_int J promo ''promotionType'',
          sk_stickerResourceType = sub_int J stk_sum ''stickerResourceType'',
          sk_stickerSize = sub_int J stk_sum ''stickerSize'',
          sk_suggestVersion = Option.bind stk_sum (\<lambda>s. str_field J s ''suggestVersion''),
          sk_defaultDisplayOnKeyboard = sub_bool J stk_sum ''defaultDisplayOnKeyboard'',
          sk_availableForPhotoEdit = sub_bool J stk_sum ''availableForPhotoEdit'',
          sk_stickerIdRanges = keep_if (isArray J) (jgeti J stk_sum ''stickerIdRanges''),
          sk_isPurchased = True,
          sk_raw = product\<rparr>)"

definition parse_sticon_package_entry :: "'j cjson \<Rightarrow> 'j \<Rightarrow> 'j sticon_package_t" where
  "parse_sticon_package_entry J product =
     (let promo = sub_object J (Some product) ''promotionInfo'';
          type_sum = sub_object J (Some product) ''productTypeSummary'';
          sti_sum = sub_object J type_sum ''sticonSummary''
      in \<lparr>sc_id = str_field J product ''id'',
          sc_name = str_field J product ''name'',
          sc_latestVersion = str_field J product ''latestVersion'',
          sc_grantedByDefault = bool_field J product ''grantedByDefault'',
          sc_authorId = str_field J product ''authorId'',
          sc_installedTime = enil_json_coerce_int64 J (getItem J product ''installedTime''),
          sc_validUntil = str_field J product ''validUntil'',
          sc_validFor = int_field J product ''validFor'',
          sc_availability = int_field J product ''availability'',
          sc_canAutoDownload = bool_field J product ''canAutoDownload'',
          sc_promotionType = sub_int J promo ''promotionType'',
          sc_sticonResourceType = sub_int J sti_sum ''sticonResourceType'',
          sc_suggestVersion = Option.bind sti_sum (\<lambda>s. str_field J s ''suggestVersion''),
          sc_availableForPhotoEdit = sub_bool J sti_sum ''availableForPhotoEdit'',
          sc_applicationVersionRange = sub_object J (Some product) ''applicationVersionRange'',
          sc_isPurchased = True,
          sc_raw = product\<rparr>)"

section \<open>The table of operation names\<close>

text \<open>No value and no name occurs twice, so the generated \<open>switch\<close> is the table.\<close>

lemma op_values_distinct: "distinct (map fst ENIL_OP_LIST)"
  by (simp add: ENIL_OP_LIST_def)

section \<open>Kinds of mids\<close>

datatype enil_mid_kind_t = ENIL_MID_UNKNOWN | ENIL_MID_USER | ENIL_MID_GROUP | ENIL_MID_ROOM | ENIL_MID_SQUARE

definition enil_mid_kind :: "string \<Rightarrow> enil_mid_kind_t" where
  "enil_mid_kind mid =
     (case mid of
        [] \<Rightarrow> ENIL_MID_UNKNOWN
      | c # _ \<Rightarrow>
          (let l = lower_char c
           in if l = CHR ''u'' then ENIL_MID_USER else if l = CHR ''c'' then ENIL_MID_GROUP
              else if l = CHR ''r'' then ENIL_MID_ROOM else if l = CHR ''s'' then ENIL_MID_SQUARE else ENIL_MID_UNKNOWN))"

definition enil_mid_is_one_to_one :: "string \<Rightarrow> bool" where
  "enil_mid_is_one_to_one mid \<longleftrightarrow> enil_mid_kind mid = ENIL_MID_USER"

definition enil_mid_to_type :: "string \<Rightarrow> int" where
  "enil_mid_to_type mid = (if enil_mid_is_one_to_one mid then 0 else 2)"

end
