(* ===== verification/ENIL_Talk.thy ===== *)
theory ENIL_Talk
  imports ENIL_TalkTypes
begin

text \<open>
  The TalkService and ShopService calls of \<open>source/shared/enil_talkserv.c\<close>: the JSON each one sends,
  how it reads the answer, how batches and pages are put together, and what counts as a failure.
  A call threads a world \<open>'w\<close> through the transport (\<open>enil_line_post\<close>, the field \<open>line_post\<close>),
  since the answers of a server depend on what happened before.  0 with an out parameter is \<open>Some\<close>,
  -1 is \<open>None\<close>.
\<close>

record ('w, 'j) talk_env =
  tj :: "'j cjson"
  line_post :: "string \<Rightarrow> string \<Rightarrow> string option \<Rightarrow> 'w \<Rightarrow> ENILLineResponse \<times> 'w"
  line_language :: string

definition SYNC_REASON_OPERATION :: int where "SYNC_REASON_OPERATION = 3"

definition BATCH_SIZE :: nat where "BATCH_SIZE = 100"

section \<open>Building JSON\<close>

definition array_of :: "'j cjson \<Rightarrow> 'j list \<Rightarrow> 'j" where
  "array_of J js = foldl (addElem J) (mkArray J) js"

definition object_of :: "'j cjson \<Rightarrow> (string \<times> 'j) list \<Rightarrow> 'j" where
  "object_of J kvs = foldl (\<lambda>j (k, v). addItem J j k v) (mkObject J) kvs"

text \<open>An optional string member, present only when the pointer is not null.\<close>

definition opt_str :: "'j cjson \<Rightarrow> string \<Rightarrow> string option \<Rightarrow> (string \<times> 'j) list" where
  "opt_str J k v = (case v of None \<Rightarrow> [] | Some s \<Rightarrow> [(k, mkString J s)])"

text \<open>
  The cast \<open>(double)\<close> of a 64-bit integer: exact up to 53 bits, beyond them the nearest multiple of
  the unit in the last place, ties to even.
\<close>

fun excess_bits :: "nat \<Rightarrow> nat" where
  "excess_bits n = (if n < 2 ^ 53 then 0 else Suc (excess_bits (n div 2)))"

declare excess_bits.simps [simp del]

definition double_of_int :: "int \<Rightarrow> real" where
  "double_of_int n =
     (let m = nat \<bar>n\<bar>; u = 2 ^ excess_bits m; q = m div u; r = m mod u;
          q' = (if u < 2 * r \<or> (u = 2 * r \<and> odd q) then q + 1 else q)
      in of_int (sgn n * int (q' * u)))"

lemma double_of_int_exact: "\<bar>n\<bar> < 2 ^ 53 \<Longrightarrow> double_of_int n = of_int n"
  by (simp add: double_of_int_def Let_def excess_bits.simps [of "nat \<bar>n\<bar>"] nat_less_iff flip: of_int_mult)
    (simp add: sgn_mult_abs)

definition num :: "'j cjson \<Rightarrow> int \<Rightarrow> 'j" where
  "num J n = mkNumber J (of_int n)"

section \<open>One call\<close>

text \<open>Print the parameters, post them, unwrap the OK envelope.\<close>

definition rpc :: "('w, 'j) talk_env \<Rightarrow> string \<Rightarrow> 'j \<Rightarrow> string \<Rightarrow> 'w \<Rightarrow> 'j option \<times> 'w" where
  "rpc E path params token W =
     (let (r, W') = line_post E path (printText (tj E) params) (Some token) W
      in (enil_api_unwrap_ok (tj E) r, W'))"

text \<open>The typed dispatcher over the same transport: the world moves on with the call it made, if any.\<close>

definition typed_call ::
  "('w, 'j) talk_env \<Rightarrow> enil_endpoint_t \<Rightarrow> string option \<Rightarrow> 'req \<Rightarrow> ('req \<Rightarrow> 'j option) \<Rightarrow>
   ('j \<Rightarrow> 'out option) \<Rightarrow> 'w \<Rightarrow> 'out option \<times> 'w" where
  "typed_call E ep token req build parse W =
     (let (out, calls) = enil_api_call (tj E) (\<lambda>p b t. fst (line_post E p b t W)) (Some ep) token req (Some build) (Some parse)
      in (out, foldl (\<lambda>V (p, b, t). snd (line_post E p b t V)) W calls))"

text \<open>Every endpoint of this file is a signed, authenticated POST.\<close>

definition talk_endpoint :: "string \<Rightarrow> enil_endpoint_t" where
  "talk_endpoint method =
     \<lparr>ename = ''TalkService.'' @ method, emethod = ENIL_HTTP_POST,
      epath = ''/api/talk/thrift/Talk/TalkService/'' @ method, needs_hmac = True, needs_auth = True\<rparr>"

section \<open>Profile\<close>

definition TALK_GET_PROFILE :: enil_endpoint_t where
  "TALK_GET_PROFILE = talk_endpoint ''getProfile''"

definition talk_get_profile_build :: "'j cjson \<Rightarrow> int option \<Rightarrow> 'j option" where
  "talk_get_profile_build J req = Some (array_of J [num J (case req of None \<Rightarrow> 0 | Some sync_reason \<Rightarrow> sync_reason)])"

definition talk_get_profile ::
  "('w, 'j) talk_env \<Rightarrow> string option \<Rightarrow> int option \<Rightarrow> 'w \<Rightarrow> 'j talk_profile_t option \<times> 'w" where
  "talk_get_profile E token req W =
     typed_call E TALK_GET_PROFILE token req (talk_get_profile_build (tj E)) (talk_get_profile_parse (tj E)) W"

section \<open>Contacts\<close>

definition get_all_contact_ids :: "('w, 'j) talk_env \<Rightarrow> string \<Rightarrow> 'w \<Rightarrow> 'j option \<times> 'w" where
  "get_all_contact_ids E token W =
     (let (r, W') = line_post E ''/api/talk/thrift/Talk/TalkService/getAllContactIds'' ''[3]'' (Some token) W
      in (keep_if (isArray (tj E)) (enil_api_unwrap_ok (tj E) r), W'))"

text \<open>The request for the mids of one batch; \<open>talk_get_contact_by_mid\<close> sends the same with one mid.\<close>

definition contacts_request :: "'j cjson \<Rightarrow> 'j list \<Rightarrow> 'j" where
  "contacts_request J mids =
     array_of J [object_of J [(''targetUserMids'', array_of J mids), (''neededContactCalendarEvents'', mkArray J)],
                 num J SYNC_REASON_OPERATION]"

definition fetch_contacts_batch :: "('w, 'j) talk_env \<Rightarrow> 'j list \<Rightarrow> nat \<Rightarrow> string \<Rightarrow> 'w \<Rightarrow> 'j option \<times> 'w" where
  "fetch_contacts_batch E all_ids start token W =
     (let end' = (if start + BATCH_SIZE < length all_ids then start + BATCH_SIZE else length all_ids)
      in rpc E ''/api/talk/thrift/Talk/TalkService/getContactsV2''
           (contacts_request (tj E) (take (end' - start) (drop start all_ids))) token W)"

text \<open>The entries of one answer; a failed or malformed batch contributes nothing.\<close>

definition batch_contacts :: "'j cjson \<Rightarrow> 'j option \<Rightarrow> 'j talk_contact_t list" where
  "batch_contacts J data = map (parse_contact_entry J) (jkids J (sub_object J data ''contacts''))"

function contacts_loop ::
  "('w, 'j) talk_env \<Rightarrow> 'j list \<Rightarrow> string \<Rightarrow> nat \<Rightarrow> 'w \<Rightarrow> 'j talk_contact_t list \<times> 'w" where
  "contacts_loop E all_ids token i W =
     (if i < length all_ids
      then (let (data, W1) = fetch_contacts_batch E all_ids i token W;
                (rest, W2) = contacts_loop E all_ids token (i + BATCH_SIZE) W1
            in (batch_contacts (tj E) data @ rest, W2))
      else ([], W))"
  by auto

termination contacts_loop
  by (relation "measure (\<lambda>(_, all_ids, _, i, _). length all_ids - i)") (simp_all add: BATCH_SIZE_def)

declare contacts_loop.simps [simp del]

definition talk_get_contacts ::
  "('w, 'j) talk_env \<Rightarrow> string option \<Rightarrow> 'w \<Rightarrow> 'j talk_contact_t list option \<times> 'w" where
  "talk_get_contacts E access_token W =
     (case access_token of
        None \<Rightarrow> (None, W)
      | Some token \<Rightarrow>
          (case get_all_contact_ids E token W of
             (None, W1) \<Rightarrow> (None, W1)
           | (Some ids, W1) \<Rightarrow>
               (let (cs, W2) = contacts_loop E (map snd (children (tj E) ids)) token 0 W1 in (Some cs, W2))))"

text \<open>The name under which a map holds the item found for \<open>k\<close>; the lookup ignores case.\<close>

definition item_name :: "'j cjson \<Rightarrow> 'j \<Rightarrow> string \<Rightarrow> string" where
  "item_name J m k = fst (the (find (\<lambda>(k', v). map lower_char k' = map lower_char k) (children J m)))"

definition talk_get_contact_by_mid ::
  "('w, 'j) talk_env \<Rightarrow> string option \<Rightarrow> string option \<Rightarrow> 'w \<Rightarrow> 'j talk_contact_t option \<times> 'w" where
  "talk_get_contact_by_mid E access_token mid W =
     (case (access_token, mid) of
        (Some token, Some m) \<Rightarrow>
          if m = [] then (None, W)
          else
            (let J = tj E;
                 (data, W') = rpc E ''/api/talk/thrift/Talk/TalkService/getContactsV2'' (contacts_request J [mkString J m]) token W
             in (case sub_object J data ''contacts'' of
                   None \<Rightarrow> None
                 | Some cmap \<Rightarrow>
                     (case sub_object J (Some cmap) m of
                        None \<Rightarrow> None
                      | Some entry \<Rightarrow> Some (parse_contact_entry J (item_name J cmap m, entry))), W'))
      | _ \<Rightarrow> (None, W))"

section \<open>Chats\<close>

record talk_get_all_chat_mids_req_t =
  withMemberChats :: bool
  withInvitedChats :: bool

definition talk_get_all_chat_mids ::
  "('w, 'j) talk_env \<Rightarrow> string option \<Rightarrow> talk_get_all_chat_mids_req_t option \<Rightarrow> 'w \<Rightarrow>
   'j talk_get_all_chat_mids_t option \<times> 'w" where
  "talk_get_all_chat_mids E access_token req W =
     (case (access_token, req) of
        (Some token, Some q) \<Rightarrow>
          (let J = tj E;
               opts = object_of J [(''withMemberChats'', mkBool J (withMemberChats q)), (''withInvitedChats'', mkBool J (withInvitedChats q))];
               (dat, W') = rpc E ''/api/talk/thrift/Talk/TalkService/getAllChatMids'' (array_of J [opts, num J SYNC_REASON_OPERATION]) token W
           in (case keep_if (isObject J) dat of
                 None \<Rightarrow> None
               | Some data \<Rightarrow>
                   Some \<lparr>am_memberChatMids = dup_string_array J (getItem J data ''memberChatMids''),
                         am_invitedChatMids = dup_string_array J (getItem J data ''invitedChatMids''),
                         am_raw = data\<rparr>, W'))
      | _ \<Rightarrow> (None, W))"

definition chats_request :: "'j cjson \<Rightarrow> string list \<Rightarrow> 'j" where
  "chats_request J mids =
     array_of J [object_of J [(''chatMids'', array_of J (map (mkString J) mids)),
                              (''withMembers'', mkBool J True), (''withInvitees'', mkBool J True)],
                 num J SYNC_REASON_OPERATION]"

definition fetch_chats_batch :: "('w, 'j) talk_env \<Rightarrow> string list \<Rightarrow> nat \<Rightarrow> nat \<Rightarrow> string \<Rightarrow> 'w \<Rightarrow> 'j option \<times> 'w" where
  "fetch_chats_batch E mids start end' token W =
     rpc E ''/api/talk/thrift/Talk/TalkService/getChats'' (chats_request (tj E) (take (end' - start) (drop start mids))) token W"

text \<open>Every item of an array through a parser, or nothing when one is rejected.\<close>

fun parse_all :: "('a \<Rightarrow> 'b option) \<Rightarrow> 'a list \<Rightarrow> 'b list option" where
  "parse_all f [] = Some []"
| "parse_all f (x # xs) =
     (case f x of None \<Rightarrow> None | Some y \<Rightarrow> (case parse_all f xs of None \<Rightarrow> None | Some ys \<Rightarrow> Some (y # ys)))"

text \<open>The chats of one answer; \<open>None\<close> for an answer that is not a complete list.\<close>

definition batch_chats :: "'j cjson \<Rightarrow> 'j option \<Rightarrow> 'j talk_chat_t list option" where
  "batch_chats J dat =
     (case keep_if (isObject J) dat of
        None \<Rightarrow> None
      | Some data \<Rightarrow>
          (case keep_if (isArray J) (getItem J data ''chats'') of
             None \<Rightarrow> None
           | Some arr \<Rightarrow> parse_all (parse_chat_entry J) (map snd (children J arr))))"

function chats_loop ::
  "('w, 'j) talk_env \<Rightarrow> string list \<Rightarrow> string \<Rightarrow> nat \<Rightarrow> 'j talk_chat_t list \<Rightarrow> 'w \<Rightarrow> 'j talk_chat_t list option \<times> 'w" where
  "chats_loop E mids token i arr W =
     (if i < length mids
      then (let end' = (if i + BATCH_SIZE < length mids then i + BATCH_SIZE else length mids);
                (data, W1) = fetch_chats_batch E mids i end' token W
            in case batch_chats (tj E) data of
                 None \<Rightarrow> (None, W1)
               | Some cs \<Rightarrow> chats_loop E mids token (i + BATCH_SIZE) (arr @ cs) W1)
      else (Some arr, W))"
  by auto

termination chats_loop
  by (relation "measure (\<lambda>(_, mids, _, i, _, _). length mids - i)") (simp_all add: BATCH_SIZE_def)

declare chats_loop.simps [simp del]

definition talk_get_chats ::
  "('w, 'j) talk_env \<Rightarrow> string option \<Rightarrow> string list option \<Rightarrow> 'w \<Rightarrow> 'j talk_chat_t list option \<times> 'w" where
  "talk_get_chats E access_token chat_mids W =
     (case access_token of
        None \<Rightarrow> (None, W)
      | Some token \<Rightarrow>
          (case chat_mids of
             None \<Rightarrow> (Some [], W)
           | Some mids \<Rightarrow> if mids = [] then (Some [], W) else chats_loop E mids token 0 [] W))"

section \<open>Message boxes\<close>

definition build_message_boxes_body :: "'j cjson \<Rightarrow> string option \<Rightarrow> 'j" where
  "build_message_boxes_body J min_chat_id =
     array_of J
       [object_of J
          ([(''activeOnly'', mkBool J True), (''unreadOnly'', mkBool J False),
            (''messageBoxCountLimit'', num J (int BATCH_SIZE)), (''withUnreadCount'', mkBool J True),
            (''lastMessagesPerMessageBoxCount'', num J 1)] @ opt_str J ''minChatId'' min_chat_id),
        num J SYNC_REASON_OPERATION]"

text \<open>One page: whether more follow, and its boxes; \<open>None\<close> when the answer is not a complete page.\<close>

definition read_page :: "'j cjson \<Rightarrow> 'j option \<Rightarrow> (bool \<times> 'j talk_message_box_t list) option" where
  "read_page J dat =
     (case dat of
        None \<Rightarrow> None
      | Some data \<Rightarrow>
          (case keep_if (isArray J) (getItem J data ''messageBoxes'') of
             None \<Rightarrow> None
           | Some boxes \<Rightarrow>
               map_option (Pair (jis (isTrue J) (getItem J data ''hasNext'')))
                 (parse_all (parse_message_box_entry J) (map snd (children J boxes)))))"

text \<open>
  The id of the last box of a page, the next page's \<open>minChatId\<close>, is read again from the item, this
  time without case.
\<close>

definition page_last_id :: "'j cjson \<Rightarrow> 'j option \<Rightarrow> string option" where
  "page_last_id J dat =
     (case jkids J (jgeti J dat ''messageBoxes'') of
        [] \<Rightarrow> None
      | boxes \<Rightarrow> jstr J (getItem J (snd (last boxes)) ''id''))"

text \<open>
  What the loop does with a page: \<open>Inl\<close> of the result it ends with, or \<open>Inr\<close> of the next cursor.
  A page that promises more but is empty, or that ends at its own cursor, makes the whole call fail:
  a partial list must not pass for the complete one.
\<close>

definition after_page ::
  "'j cjson \<Rightarrow> string option \<Rightarrow> 'j talk_message_box_t list \<Rightarrow> 'j option \<Rightarrow> (bool \<times> 'j talk_message_box_t list) option \<Rightarrow>
   'j talk_message_box_t list option + string \<times> 'j talk_message_box_t list" where
  "after_page J min_chat_id arr data page =
     (case page of
        None \<Rightarrow> Inl None
      | Some (has_next, bs) \<Rightarrow>
          (let arr' = arr @ bs in
           if \<not> has_next then Inl (Some arr')
           else if bs = [] \<or> min_chat_id = Some (mb_id (last arr')) then Inl None
           else case page_last_id J data of None \<Rightarrow> Inl None | Some i \<Rightarrow> Inr (i, arr')))"

partial_function (option) boxes_loop ::
  "('w, 'j) talk_env \<Rightarrow> string \<Rightarrow> string option \<Rightarrow> 'j talk_message_box_t list \<Rightarrow> 'w \<Rightarrow>
   ('j talk_message_box_t list option \<times> 'w) option" where
  "boxes_loop E token min_chat_id arr W =
     (let (data, W1) = rpc E ''/api/talk/thrift/Talk/TalkService/getMessageBoxes'' (build_message_boxes_body (tj E) min_chat_id) token W
      in case after_page (tj E) min_chat_id arr data (read_page (tj E) data) of
           Inl out \<Rightarrow> Some (out, W1)
         | Inr next_page \<Rightarrow> boxes_loop E token (Some (fst next_page)) (snd next_page) W1)"

text \<open>The outer option is whether the call returns at all.\<close>

definition talk_get_message_boxes ::
  "('w, 'j) talk_env \<Rightarrow> string option \<Rightarrow> 'w \<Rightarrow> ('j talk_message_box_t list option \<times> 'w) option" where
  "talk_get_message_boxes E access_token W =
     (case access_token of None \<Rightarrow> Some (None, W) | Some token \<Rightarrow> boxes_loop E token None [] W)"

end
