(* ===== verification/ENIL_TalkSend.thy ===== *)
theory ENIL_TalkSend
  imports ENIL_Talk
begin

text \<open>
  The rest of \<open>source/shared/enil_talkserv.c\<close>: recent messages and read ranges, the body of
  \<open>sendMessage\<close>, read receipts and leaving a chat, the owned products, the operation revision, the
  end-to-end keys and the media flow.
\<close>

section \<open>Messages\<close>

definition talk_get_recent_messages ::
  "('w, 'j) talk_env \<Rightarrow> string option \<Rightarrow> string option \<Rightarrow> int \<Rightarrow> 'w \<Rightarrow> 'j talk_message_t list option \<times> 'w" where
  "talk_get_recent_messages E access_token chat_id count W =
     (case (access_token, chat_id) of
        (Some token, Some c) \<Rightarrow>
          (let J = tj E;
               (dat, W') = rpc E ''/api/talk/thrift/Talk/TalkService/getRecentMessagesV2''
                             (array_of J [mkString J c, num J count]) token W
           in (map_option (\<lambda>data. List.map_filter (\<lambda>(k, entry). talk_message_parse J (Some entry) (Some c)) (children J data))
                 (keep_if (isArray J) dat), W'))
      | _ \<Rightarrow> (None, W))"

text \<open>Null and empty mids are left out; with none left nothing is sent.\<close>

definition talk_get_message_read_range ::
  "('w, 'j) talk_env \<Rightarrow> string option \<Rightarrow> string option list option \<Rightarrow> 'w \<Rightarrow> 'j option \<times> 'w" where
  "talk_get_message_read_range E access_token chat_mids W =
     (case (access_token, chat_mids) of
        (Some token, Some mids) \<Rightarrow>
          (let J = tj E; wanted = List.map_filter (\<lambda>m. if nonempty m then m else None) mids
           in if wanted = [] then (None, W)
              else
                (let (data, W') = rpc E ''/api/talk/thrift/Talk/TalkService/getMessageReadRange''
                                    (array_of J [array_of J (map (mkString J) wanted), num J 1]) token W
                 in (keep_if (isArray J) data, W')))
      | _ \<Rightarrow> (None, W))"

record 'j talk_send_message_req_t =
  sr_reqSeq :: int
  sr_message :: "'j talk_message_t"

text \<open>The message object of the request; \<open>createdTime\<close> goes as text, so it keeps all its digits.\<close>

definition send_message_object :: "'j cjson \<Rightarrow> 'j talk_message_t \<Rightarrow> 'j" where
  "send_message_object J m =
     object_of J
       (opt_str J ''from'' (m_from_mid m) @ opt_str J ''to'' (m_to_mid m)
        @ [(''toType'', num J (m_toType m))]
        @ opt_str J ''id'' (m_id m)
        @ [(''createdTime'', mkString J (show_int (m_createdTime m))),
           (''sessionId'', num J (m_sessionId m)), (''contentType'', num J (m_contentType m))]
        @ opt_str J ''text'' (m_text m)
        @ [(''contentMetadata'', case m_contentMetadata m of Some j \<Rightarrow> j | None \<Rightarrow> mkObject J)]
        @ (case m_chunks m of None \<Rightarrow> [] | Some j \<Rightarrow> [(''chunks'', j)])
        @ [(''hasContent'', mkBool J (m_hasContent m))]
        @ opt_str J ''relatedMessageId'' (m_relatedMessageId m)
        @ (if m_messageRelationType m = 0 then [] else [(''messageRelationType'', num J (m_messageRelationType m))])
        @ (if m_relatedMessageServiceCode m = 0 then []
           else [(''relatedMessageServiceCode'', num J (m_relatedMessageServiceCode m))]))"

definition talk_send_message_body_build :: "'j cjson \<Rightarrow> 'j talk_send_message_req_t option \<Rightarrow> string option" where
  "talk_send_message_body_build J req =
     (case req of
        None \<Rightarrow> None
      | Some q \<Rightarrow>
          Some (printText J (array_of J [mkNumber J (double_of_int (sr_reqSeq q)), send_message_object J (sr_message q)])))"

definition talk_send_message_response_parse :: "'j cjson \<Rightarrow> 'j option \<Rightarrow> 'j talk_message_t option" where
  "talk_send_message_response_parse J data = talk_message_parse J data None"

section \<open>Owned products\<close>

text \<open>The body is formatted into 128 bytes: longer text is cut.\<close>

definition product_request :: "string \<Rightarrow> string \<Rightarrow> string" where
  "product_request shop lang =
     take 127 (''[\"'' @ shop @ ''\",0,1000,{\"language\":\"'' @ lang @ ''\",\"country\":\"JP\"}]'')"

definition fetch_owned_product_list :: "('w, 'j) talk_env \<Rightarrow> string \<Rightarrow> string \<Rightarrow> 'w \<Rightarrow> 'j option \<times> 'w" where
  "fetch_owned_product_list E token shop W =
     (let J = tj E;
          (r, W') = line_post E ''/api/shop/thrift/ShopService/ShopService/getOwnedProductSummaries''
                      (product_request shop (line_language E)) (Some token) W
      in (if status r \<noteq> 200 then None
          else case Option.bind (body r) (parseText J) of
                 None \<Rightarrow> None
               | Some rt \<Rightarrow>
                   keep_if (isArray J)
                     (getItem J (case getItem J rt ''data'' of Some data \<Rightarrow> data | None \<Rightarrow> rt) ''productList''), W'))"

text \<open>A product without an id is dropped; a failed fetch is an empty list.\<close>

definition package_rows :: "'j cjson \<Rightarrow> ('j \<Rightarrow> 'p) \<Rightarrow> ('p \<Rightarrow> string option) \<Rightarrow> 'j option \<Rightarrow> 'p list" where
  "package_rows J parse pid lst =
     filter (\<lambda>p. pid p \<noteq> None) (map parse (filter (isObject J) (map snd (jkids J lst))))"

definition sticker_package_fetch_all ::
  "('w, 'j) talk_env \<Rightarrow> string option \<Rightarrow> 'w \<Rightarrow> 'j sticker_package_t list option \<times> 'w" where
  "sticker_package_fetch_all E access_token W =
     (case access_token of
        None \<Rightarrow> (None, W)
      | Some token \<Rightarrow>
          (let (lst, W') = fetch_owned_product_list E token ''stickershop'' W
           in (Some (package_rows (tj E) (parse_sticker_package_entry (tj E)) sk_id lst), W')))"

definition sticon_package_fetch_all ::
  "('w, 'j) talk_env \<Rightarrow> string option \<Rightarrow> 'w \<Rightarrow> 'j sticon_package_t list option \<times> 'w" where
  "sticon_package_fetch_all E access_token W =
     (case access_token of
        None \<Rightarrow> (None, W)
      | Some token \<Rightarrow>
          (let (lst, W') = fetch_owned_product_list E token ''sticonshop'' W
           in (Some (package_rows (tj E) (parse_sticon_package_entry (tj E)) sc_id lst), W')))"

section \<open>The operation revision\<close>

definition TalkService_getLastOpRevision :: "('w, 'j) talk_env \<Rightarrow> string option \<Rightarrow> 'w \<Rightarrow> int \<times> 'w" where
  "TalkService_getLastOpRevision E access_token W =
     (case access_token of
        None \<Rightarrow> (-1, W)
      | Some token \<Rightarrow>
          (let (r, W') = line_post E ''/api/talk/thrift/Talk/TalkService/getLastOpRevision'' ''[]'' (Some token) W;
               data = enil_api_unwrap_ok (tj E) r
           in (if jis (isString (tj E)) data \<or> jis (isNumber (tj E)) data then enil_json_coerce_int64 (tj E) data else -1, W')))"

section \<open>Calls without a result\<close>

definition post_void_rpc :: "('w, 'j) talk_env \<Rightarrow> string \<Rightarrow> 'j \<Rightarrow> string \<Rightarrow> 'w \<Rightarrow> bool \<times> 'w" where
  "post_void_rpc E path params token W =
     (let J = tj E; (r, W') = line_post E path (printText J params) (Some token) W
      in (status r = 200 \<and> jstr J (jgeti J (Option.bind (body r) (parseText J)) ''message'') = Some ''OK'', W'))"

definition talk_send_chat_checked ::
  "('w, 'j) talk_env \<Rightarrow> string option \<Rightarrow> string option \<Rightarrow> string option \<Rightarrow> 'w \<Rightarrow> bool \<times> 'w" where
  "talk_send_chat_checked E access_token chat_mid message_id W =
     (case (access_token, chat_mid, message_id) of
        (Some token, Some c, Some m) \<Rightarrow>
          post_void_rpc E ''/api/talk/thrift/Talk/TalkService/sendChatChecked''
            (array_of (tj E) [num (tj E) 0, mkString (tj E) c, mkString (tj E) m]) token W
      | _ \<Rightarrow> (False, W))"

definition talk_send_chat_removed ::
  "('w, 'j) talk_env \<Rightarrow> string option \<Rightarrow> int \<Rightarrow> string option \<Rightarrow> string option \<Rightarrow> int \<Rightarrow> 'w \<Rightarrow> bool \<times> 'w" where
  "talk_send_chat_removed E access_token req_seq chat_mid last_read_id last_read_time W =
     (case (access_token, chat_mid) of
        (Some token, Some c) \<Rightarrow>
          post_void_rpc E ''/api/talk/thrift/Talk/TalkService/sendChatRemoved''
            (array_of (tj E) [mkNumber (tj E) (double_of_int req_seq), mkString (tj E) c,
                              mkString (tj E) (case last_read_id of None \<Rightarrow> [] | Some m \<Rightarrow> m),
                              mkNumber (tj E) (double_of_int last_read_time)]) token W
      | _ \<Rightarrow> (False, W))"

section \<open>End-to-end keys\<close>

definition TALK_NEGOTIATE_E2EE_PUBLIC_KEY :: enil_endpoint_t where
  "TALK_NEGOTIATE_E2EE_PUBLIC_KEY = talk_endpoint ''negotiateE2EEPublicKey''"

definition talk_negotiate_e2ee_public_key_build :: "'j cjson \<Rightarrow> string \<Rightarrow> 'j option" where
  "talk_negotiate_e2ee_public_key_build J peer_mid = Some (array_of J [mkString J peer_mid])"

definition talk_negotiate_e2ee_public_key ::
  "('w, 'j) talk_env \<Rightarrow> string option \<Rightarrow> string option \<Rightarrow> 'w \<Rightarrow> 'j talk_e2ee_public_key_t option \<times> 'w" where
  "talk_negotiate_e2ee_public_key E token peer_mid W =
     (case peer_mid of
        None \<Rightarrow> (None, W)
      | Some peer \<Rightarrow>
          typed_call E TALK_NEGOTIATE_E2EE_PUBLIC_KEY token peer (talk_negotiate_e2ee_public_key_build (tj E))
            (talk_negotiate_e2ee_public_key_parse (tj E)) W)"

definition TalkService_getE2EEPublicKey ::
  "('w, 'j) talk_env \<Rightarrow> string option \<Rightarrow> int \<Rightarrow> string option \<Rightarrow> 'w \<Rightarrow> string option \<times> 'w" where
  "TalkService_getE2EEPublicKey E mid key_id access_token W =
     (case (mid, access_token) of
        (Some m, Some token) \<Rightarrow>
          (let J = tj E;
               (data, W') = rpc E ''/api/talk/thrift/Talk/TalkService/getE2EEPublicKey''
                              (array_of J [mkString J m, num J 1, mkNumber J (double_of_int key_id)]) token W
           in (jstr J (jgeti J data ''keyData''), W'))
      | _ \<Rightarrow> (None, W))"

record talk_group_shared_key_req_t =
  gr_group_mid :: string
  gr_group_key_id :: int
  gr_with_key_id :: bool

definition talk_group_shared_key_build :: "'j cjson \<Rightarrow> talk_group_shared_key_req_t \<Rightarrow> 'j option" where
  "talk_group_shared_key_build J req =
     Some (array_of J ([num J 1, mkString J (gr_group_mid req)] @
                       (if gr_with_key_id req then [mkNumber J (double_of_int (gr_group_key_id req))] else [])))"

definition talk_group_shared_key_parse_fn :: "'j cjson \<Rightarrow> 'j \<Rightarrow> 'j talk_e2ee_group_shared_key_t option" where
  "talk_group_shared_key_parse_fn J data = talk_e2ee_group_shared_key_parse J (Some data)"

definition TALK_GET_LAST_E2EE_GROUP_SHARED_KEY :: enil_endpoint_t where
  "TALK_GET_LAST_E2EE_GROUP_SHARED_KEY = talk_endpoint ''getLastE2EEGroupSharedKey''"

definition TALK_GET_E2EE_GROUP_SHARED_KEY :: enil_endpoint_t where
  "TALK_GET_E2EE_GROUP_SHARED_KEY = talk_endpoint ''getE2EEGroupSharedKey''"

definition TALK_REGISTER_E2EE_GROUP_KEY :: enil_endpoint_t where
  "TALK_REGISTER_E2EE_GROUP_KEY = talk_endpoint ''registerE2EEGroupKey''"

definition talk_get_last_e2ee_group_shared_key ::
  "('w, 'j) talk_env \<Rightarrow> string option \<Rightarrow> string option \<Rightarrow> 'w \<Rightarrow> 'j talk_e2ee_group_shared_key_t option \<times> 'w" where
  "talk_get_last_e2ee_group_shared_key E access_token group_mid W =
     (case (access_token, group_mid) of
        (Some token, Some g) \<Rightarrow>
          typed_call E TALK_GET_LAST_E2EE_GROUP_SHARED_KEY access_token
            \<lparr>gr_group_mid = g, gr_group_key_id = 0, gr_with_key_id = False\<rparr>
            (talk_group_shared_key_build (tj E)) (talk_group_shared_key_parse_fn (tj E)) W
      | _ \<Rightarrow> (None, W))"

definition talk_get_e2ee_group_shared_key ::
  "('w, 'j) talk_env \<Rightarrow> string option \<Rightarrow> string option \<Rightarrow> int \<Rightarrow> 'w \<Rightarrow> 'j talk_e2ee_group_shared_key_t option \<times> 'w" where
  "talk_get_e2ee_group_shared_key E access_token group_mid group_key_id W =
     (case (access_token, group_mid) of
        (Some token, Some g) \<Rightarrow>
          typed_call E TALK_GET_E2EE_GROUP_SHARED_KEY access_token
            \<lparr>gr_group_mid = g, gr_group_key_id = group_key_id, gr_with_key_id = True\<rparr>
            (talk_group_shared_key_build (tj E)) (talk_group_shared_key_parse_fn (tj E)) W
      | _ \<Rightarrow> (None, W))"

text \<open>The member shares as three parallel arrays; one incomplete share refuses them all.\<close>

definition share_entry :: "'j cjson \<Rightarrow> 'j \<Rightarrow> (string \<times> real \<times> string) option" where
  "share_entry J item =
     (case (getItem J item ''mid'', getItem J item ''keyId'', getItem J item ''encryptedKey'') of
        (Some m, Some k, Some e) \<Rightarrow>
          if isString J m \<and> isNumber J k \<and> isString J e
          then Some (valuestring J m, valuedouble J k, valuestring J e) else None
      | _ \<Rightarrow> None)"

definition talk_register_e2ee_group_key_build :: "'j cjson \<Rightarrow> string \<times> 'j \<Rightarrow> 'j option" where
  "talk_register_e2ee_group_key_build J req =
     (case parse_all (share_entry J) (map snd (children J (snd req))) of
        None \<Rightarrow> None
      | Some shares \<Rightarrow>
          Some (array_of J [num J 1, mkString J (fst req),
                            array_of J (map (\<lambda>(m, k, e). mkString J m) shares),
                            array_of J (map (\<lambda>(m, k, e). mkNumber J k) shares),
                            array_of J (map (\<lambda>(m, k, e). mkString J e) shares)]))"

definition talk_register_e2ee_group_key ::
  "('w, 'j) talk_env \<Rightarrow> string option \<Rightarrow> string option \<Rightarrow> 'j option \<Rightarrow> 'w \<Rightarrow> 'j talk_e2ee_group_shared_key_t option \<times> 'w" where
  "talk_register_e2ee_group_key E access_token group_mid enc_keys W =
     (case (access_token, group_mid, enc_keys) of
        (Some token, Some g, Some keys) \<Rightarrow>
          typed_call E TALK_REGISTER_E2EE_GROUP_KEY access_token (g, keys)
            (talk_register_e2ee_group_key_build (tj E)) (talk_group_shared_key_parse_fn (tj E)) W
      | _ \<Rightarrow> (None, W))"

section \<open>Media flow\<close>

definition TALK_DETERMINE_MEDIA_MESSAGE_FLOW :: enil_endpoint_t where
  "TALK_DETERMINE_MEDIA_MESSAGE_FLOW = talk_endpoint ''determineMediaMessageFlow''"

definition talk_determine_media_message_flow_build :: "'j cjson \<Rightarrow> string \<Rightarrow> 'j option" where
  "talk_determine_media_message_flow_build J chat_mid = Some (array_of J [object_of J [(''chatMid'', mkString J chat_mid)]])"

definition talk_determine_media_message_flow ::
  "('w, 'j) talk_env \<Rightarrow> string option \<Rightarrow> string option \<Rightarrow> 'w \<Rightarrow> 'j talk_media_flow_t option \<times> 'w" where
  "talk_determine_media_message_flow E access_token chat_mid W =
     (case (access_token, chat_mid) of
        (Some token, Some c) \<Rightarrow>
          typed_call E TALK_DETERMINE_MEDIA_MESSAGE_FLOW access_token c
            (talk_determine_media_message_flow_build (tj E)) (talk_determine_media_message_flow_parse (tj E)) W
      | _ \<Rightarrow> (None, W))"

end
