(* ===== verification/ENIL_TalkFacts.thy ===== *)
theory ENIL_TalkFacts
  imports ENIL_TalkSend
begin

text \<open>
  What the TalkService calls guarantee: a sent message reads back as it was written, chats are
  fetched in full or not at all, the message boxes are the complete list of the server's pages and
  the paging ends with a server that pages in order, and what the parsers accept is well formed.
\<close>

section \<open>Objects and arrays built from lists\<close>

context cjson_laws
begin

lemma foldl_add:
  "isObject J j \<Longrightarrow> isObject J (foldl (\<lambda>j (k, v). addItem J j k v) j kvs) \<and>
     children J (foldl (\<lambda>j (k, v). addItem J j k v) j kvs) = children J j @ kvs"
  by (induction kvs arbitrary: j) (auto simp: add_item)

lemma object_of: "isObject J (object_of J kvs)" "children J (object_of J kvs) = kvs"
  using foldl_add [OF object_new(1), of kvs] by (simp_all add: object_of_def object_new)

lemma get_object_of: "getItemCS J (object_of J kvs) k = map_of kvs k"
  by (simp add: get_cs object_of)

lemma foldl_elem:
  "isArray J j \<Longrightarrow> isArray J (foldl (addElem J) j js) \<and>
     children J (foldl (addElem J) j js) = children J j @ map (Pair []) js"
  by (induction js arbitrary: j) (auto simp: add_elem)

lemma array_of: "isArray J (array_of J js)" "children J (array_of J js) = map (Pair []) js"
  using foldl_elem [OF array_new(1), of js] by (simp_all add: array_of_def array_new)

end

lemma map_of_opt_str:
  "map_of (opt_str J k v) k' = (if k = k' then map_option (mkString J) v else None)"
  by (simp add: opt_str_def split: option.splits)

section \<open>A sent message reads back\<close>

text \<open>The request of a message, member by member.\<close>

lemma send_members:
  assumes J: "cjson_laws J"
  shows "getItemCS J (send_message_object J m) ''id'' = map_option (mkString J) (m_id m)"
    "getItemCS J (send_message_object J m) ''from'' = map_option (mkString J) (m_from_mid m)"
    "getItemCS J (send_message_object J m) ''to'' = map_option (mkString J) (m_to_mid m)"
    "getItemCS J (send_message_object J m) ''toType'' = Some (num J (m_toType m))"
    "getItemCS J (send_message_object J m) ''sessionId'' = Some (num J (m_sessionId m))"
    "getItemCS J (send_message_object J m) ''createdTime'' = Some (mkString J (show_int (m_createdTime m)))"
    "getItemCS J (send_message_object J m) ''contentType'' = Some (num J (m_contentType m))"
    "getItemCS J (send_message_object J m) ''hasContent'' = Some (mkBool J (m_hasContent m))"
    "getItemCS J (send_message_object J m) ''text'' = map_option (mkString J) (m_text m)"
    "getItemCS J (send_message_object J m) ''relatedMessageId'' = map_option (mkString J) (m_relatedMessageId m)"
    "getItemCS J (send_message_object J m) ''messageRelationType'' =
       (if m_messageRelationType m = 0 then None else Some (num J (m_messageRelationType m)))"
    "getItemCS J (send_message_object J m) ''relatedMessageServiceCode'' =
       (if m_relatedMessageServiceCode m = 0 then None else Some (num J (m_relatedMessageServiceCode m)))"
    "getItemCS J (send_message_object J m) ''contentMetadata'' =
       Some (case m_contentMetadata m of Some j \<Rightarrow> j | None \<Rightarrow> mkObject J)"
    "getItemCS J (send_message_object J m) ''chunks'' = m_chunks m"
  using J
  by (simp_all add: send_message_object_def cjson_laws.get_object_of map_of_opt_str map_add_def
      split: option.splits)

lemma str_field_of: "getItemCS J j k = map_option (mkString J) v \<Longrightarrow> cjson_laws J \<Longrightarrow> str_field J j k = v"
  by (cases v) (simp_all add: str_field_def enil_json_dup_string_opt_def cjson_laws.string_new)

lemma int_field_of: "getItemCS J j k = Some (num J n) \<Longrightarrow> cjson_laws J \<Longrightarrow> int_field J j k = n"
  by (simp add: int_field_def enil_json_get_int_def num_def cjson_laws.number_new)

lemma int_field_absent: "getItemCS J j k = None \<Longrightarrow> int_field J j k = 0"
  by (simp add: int_field_def enil_json_get_int_def)

lemma bool_field_of: "getItemCS J j k = Some (mkBool J b) \<Longrightarrow> cjson_laws J \<Longrightarrow> bool_field J j k = b"
  by (simp add: bool_field_def enil_json_get_bool_def cjson_laws.bool_new)

lemma i64_field_of:
  "getItemCS J j k = Some (mkString J (show_int n)) \<Longrightarrow> cjson_laws J \<Longrightarrow> LLONG_MIN \<le> n \<Longrightarrow> n \<le> LLONG_MAX \<Longrightarrow>
   i64_field J j k = n"
  by (simp add: i64_field_def enil_json_get_int64_def enil_json_coerce_int64_def cjson_laws.string_new strtoll10_show_int)

text \<open>What a sent message looks like when it is read: its metadata is never missing.\<close>

definition as_received :: "'j cjson \<Rightarrow> string option \<Rightarrow> 'j talk_message_t \<Rightarrow> 'j talk_message_t" where
  "as_received J c m =
     m\<lparr>m_contentMetadata := Some (case m_contentMetadata m of Some j \<Rightarrow> j | None \<Rightarrow> mkObject J),
       m_chat_id := c, m_raw := Some (send_message_object J m)\<rparr>"

text \<open>What a request may hold: a 64-bit time, an object as metadata and an array as chunks.\<close>

definition sendable :: "'j cjson \<Rightarrow> 'j talk_message_t \<Rightarrow> bool" where
  "sendable J m \<longleftrightarrow>
     m_id m \<noteq> None \<and> LLONG_MIN \<le> m_createdTime m \<and> m_createdTime m \<le> LLONG_MAX \<and>
     (case m_contentMetadata m of None \<Rightarrow> True | Some j \<Rightarrow> isObject J j) \<and>
     (case m_chunks m of None \<Rightarrow> True | Some j \<Rightarrow> isArray J j)"

lemma sent_message_parses:
  assumes J: "cjson_laws J" and ok: "sendable J m"
  shows "talk_message_parse J (Some (send_message_object J m)) c = Some (as_received J c m)"
proof -
  note f = send_members [OF J, of m]
  obtain i where i: "m_id m = Some i" using ok by (auto simp: sendable_def)
  have dup: "enil_json_dup_string J (Some (send_message_object J m)) (Some ''id'') = Some i"
    by (simp add: enil_json_dup_string_def f(1) i cjson_laws.string_new [OF J])
  have rel: "int_field J (send_message_object J m) ''messageRelationType'' = m_messageRelationType m"
    by (cases "m_messageRelationType m = 0") (simp_all add: f int_field_absent int_field_of [OF _ J])
  have svc: "int_field J (send_message_object J m) ''relatedMessageServiceCode'' = m_relatedMessageServiceCode m"
    by (cases "m_relatedMessageServiceCode m = 0") (simp_all add: f int_field_absent int_field_of [OF _ J])
  have meta: "keep_if (isObject J) (getItemCS J (send_message_object J m) ''contentMetadata'') =
      Some (case m_contentMetadata m of Some j \<Rightarrow> j | None \<Rightarrow> mkObject J)"
    using ok by (simp add: f sendable_def cjson_laws.object_new [OF J] split: option.splits)
  have chunks: "keep_if (isArray J) (getItemCS J (send_message_object J m) ''chunks'') = m_chunks m"
    using ok by (simp add: f sendable_def keep_if_def split: option.splits)
  have time: "i64_field J (send_message_object J m) ''createdTime'' = m_createdTime m"
    using ok by (intro i64_field_of [OF f(6) J]) (simp_all add: sendable_def)
  show ?thesis
    unfolding talk_message_parse_def option.case dup meta chunks rel svc time
      str_field_of [OF f(2) J] str_field_of [OF f(3) J] str_field_of [OF f(9) J] str_field_of [OF f(10) J]
      int_field_of [OF f(4) J] int_field_of [OF f(5) J] int_field_of [OF f(7) J] bool_field_of [OF f(8) J]
    by (simp add: as_received_def i)
qed

text \<open>C37: A message built for sending and answered back by the server parses to the same message: every
  text, number, flag, the metadata and the encrypted chunks survive, absent optional members stay
  absent, and the 64-bit creation time keeps all its digits because it travels as text.\<close>

theorem send_message_roundtrip:
  assumes "cjson_laws J" and "sendable J m"
  shows "talk_send_message_body_build J (Some \<lparr>sr_reqSeq = n, sr_message = m\<rparr>) =
           Some (printText J (array_of J [mkNumber J (double_of_int n), send_message_object J m])) \<and>
         talk_send_message_response_parse J (Some (send_message_object J m)) = Some (as_received J None m)"
  using assms by (simp add: talk_send_message_body_build_def talk_send_message_response_parse_def sent_message_parses)


section \<open>Batches\<close>

text \<open>The mids cut into requests of at most \<open>BATCH_SIZE\<close>.\<close>

function chunks :: "'a list \<Rightarrow> 'a list list" where
  "chunks xs = (if xs = [] then [] else take BATCH_SIZE xs # chunks (drop BATCH_SIZE xs))"
  by auto

termination chunks
  by (relation "measure length") (simp_all add: BATCH_SIZE_def)

declare chunks.simps [simp del]

lemma chunks_nil [simp]: "chunks [] = []"
  by (simp add: chunks.simps)

lemma concat_chunks: "concat (chunks xs) = xs"
proof (induction xs rule: chunks.induct)
  case (1 xs)
  then show ?case by (subst chunks.simps) simp
qed

lemma chunk_sizes: "list_all (\<lambda>b. b \<noteq> [] \<and> length b \<le> BATCH_SIZE) (chunks xs)"
proof (induction xs rule: chunks.induct)
  case (1 xs)
  then show ?case by (subst chunks.simps) (simp add: BATCH_SIZE_def)
qed

text \<open>All the batches of a list asked one after the other, whatever comes back.\<close>

fun ask :: "('b \<Rightarrow> 'w \<Rightarrow> 'a \<times> 'w) \<Rightarrow> 'b list \<Rightarrow> 'w \<Rightarrow> 'a list \<times> 'w" where
  "ask f [] W = ([], W)"
| "ask f (b # bs) W = (let (a, W1) = f b W; (as, W2) = ask f bs W1 in (a # as, W2))"

definition ask_chats :: "('w, 'j) talk_env \<Rightarrow> string \<Rightarrow> string list \<Rightarrow> 'w \<Rightarrow> 'j option \<times> 'w" where
  "ask_chats E token mids W =
     rpc E ''/api/talk/thrift/Talk/TalkService/getChats'' (chats_request (tj E) mids) token W"

definition ask_contacts :: "('w, 'j) talk_env \<Rightarrow> string \<Rightarrow> 'j list \<Rightarrow> 'w \<Rightarrow> 'j option \<times> 'w" where
  "ask_contacts E token mids W =
     rpc E ''/api/talk/thrift/Talk/TalkService/getContactsV2'' (contacts_request (tj E) mids) token W"

lemma parse_all_Some: "parse_all f xs = Some ys \<longleftrightarrow> map f xs = map Some ys"
proof (induction xs arbitrary: ys)
  case (Cons x xs)
  show ?case
  proof (cases ys)
    case Nil
    then show ?thesis by (simp split: option.splits)
  next
    case c: (Cons z zs)
    show ?thesis using Cons.IH [of zs] by (simp add: c split: option.splits) auto
  qed
qed auto

lemma fetch_chats_is_ask:
  "fetch_chats_batch E mids i (if i + BATCH_SIZE < length mids then i + BATCH_SIZE else length mids) token W =
   ask_chats E token (take BATCH_SIZE (drop i mids)) W"
  by (simp add: fetch_chats_batch_def ask_chats_def min_def)

lemma fetch_contacts_is_ask:
  "fetch_contacts_batch E ids i token W = ask_contacts E token (take BATCH_SIZE (drop i ids)) W"
  by (simp add: fetch_contacts_batch_def ask_contacts_def min_def Let_def)

lemma chunks_from:
  "i < length xs \<Longrightarrow> chunks (drop i xs) = take BATCH_SIZE (drop i xs) # chunks (drop (i + BATCH_SIZE) xs)"
  by (subst chunks.simps) (simp add: add.commute)

lemma contacts_loop_asks:
  "contacts_loop E ids token i W =
     (let (ds, W') = ask (ask_contacts E token) (chunks (drop i ids)) W in (concat (map (batch_contacts (tj E)) ds), W'))"
proof (induction E ids token i W rule: contacts_loop.induct)
  case (1 E ids token i W)
  show ?case
  proof (cases "i < length ids")
    case True
    obtain d W1 where d: "ask_contacts E token (take BATCH_SIZE (drop i ids)) W = (d, W1)" by fastforce
    obtain ds W2 where ds: "ask (ask_contacts E token) (chunks (drop (i + BATCH_SIZE) ids)) W1 = (ds, W2)" by fastforce
    from 1 [OF True refl] d ds fetch_contacts_is_ask [of E ids i token W]
    have "contacts_loop E ids token (i + BATCH_SIZE) W1 = (concat (map (batch_contacts (tj E)) ds), W2)" by simp
    with True d ds show ?thesis
      by (simp add: contacts_loop.simps [of E ids token i] fetch_contacts_is_ask chunks_from)
  next
    case False
    then show ?thesis by (simp add: contacts_loop.simps [of E ids token i])
  qed
qed

lemma chats_loop_asks:
  "fst (chats_loop E mids token i arr W) = Some cs \<longleftrightarrow>
     (\<exists>css. map (batch_chats (tj E)) (fst (ask (ask_chats E token) (chunks (drop i mids)) W)) = map Some css \<and>
            cs = arr @ concat css)"
proof (induction E mids token i arr W rule: chats_loop.induct)
  case (1 E mids token i arr W)
  show ?case
  proof (cases "i < length mids")
    case True
    obtain d W1 where d: "ask_chats E token (take BATCH_SIZE (drop i mids)) W = (d, W1)" by fastforce
    obtain ds W2 where ds: "ask (ask_chats E token) (chunks (drop (i + BATCH_SIZE) mids)) W1 = (ds, W2)" by fastforce
    show ?thesis
    proof (cases "batch_chats (tj E) d")
      case None
      with True d ds show ?thesis
        by (simp add: chats_loop.simps [of E mids token i] fetch_chats_is_ask chunks_from Let_def del: if_split)
          (auto simp: Cons_eq_map_conv)
    next
      case (Some here)
      have "fst (chats_loop E mids token (i + BATCH_SIZE) (arr @ here) W1) = Some cs \<longleftrightarrow>
          (\<exists>css. map (batch_chats (tj E)) ds = map Some css \<and> cs = arr @ here @ concat css)"
        using 1 [OF True refl _ refl Some] d ds fetch_chats_is_ask [of E mids i token W] by simp
      moreover have "(\<exists>css. map (batch_chats (tj E)) (d # ds) = map Some css \<and> cs = arr @ concat css) \<longleftrightarrow>
          (\<exists>css. map (batch_chats (tj E)) ds = map Some css \<and> cs = arr @ here @ concat css)"
        by (auto simp: Some Cons_eq_map_conv)
      ultimately show ?thesis using True d ds Some
        by (simp add: chats_loop.simps [of E mids token i] fetch_chats_is_ask chunks_from Let_def del: if_split)
    qed
  next
    case False
    then show ?thesis by (auto simp: chats_loop.simps [of E mids token i])
  qed
qed

text \<open>Fetching chats is all or nothing: the mids are asked for in batches of at most 100 that make up the
  whole list in order, and the call succeeds exactly when every batch is answered with a complete list
  of well-formed chats; the result is then all of them.  Contacts are asked for in the same batches,
  and there a failed batch only contributes nothing.\<close>

theorem batched_lookups:
  "(fst (talk_get_chats E (Some token) (Some mids) W) = Some cs \<longleftrightarrow>
      (\<exists>css. map (batch_chats (tj E)) (fst (ask (ask_chats E token) (chunks mids) W)) = map Some css \<and> cs = concat css)) \<and>
   contacts_loop E ids token 0 W =
     (let (ds, W') = ask (ask_contacts E token) (chunks ids) W in (concat (map (batch_contacts (tj E)) ds), W')) \<and>
   concat (chunks mids) = mids \<and> concat (chunks ids) = ids \<and>
   list_all (\<lambda>b. b \<noteq> [] \<and> length b \<le> BATCH_SIZE) (chunks mids)"
proof -
  have "fst (talk_get_chats E (Some token) (Some mids) W) = Some cs \<longleftrightarrow>
      fst (chats_loop E mids token 0 [] W) = Some cs"
    by (cases "mids = []") (simp_all add: talk_get_chats_def chats_loop.simps [of E "[]"])
  then show ?thesis
    by (simp add: chats_loop_asks contacts_loop_asks concat_chunks chunk_sizes)
qed

section \<open>Pages\<close>

abbreviation ask_page :: "('w, 'j) talk_env \<Rightarrow> string \<Rightarrow> string option \<Rightarrow> 'w \<Rightarrow> 'j option \<times> 'w" where
  "ask_page E token cur W \<equiv>
     rpc E ''/api/talk/thrift/Talk/TalkService/getMessageBoxes'' (build_message_boxes_body (tj E) cur) token W"

text \<open>
  The server's pages from a cursor on: each page but the last promises more and is followed by the
  page at its last box, the last page promises no more.
\<close>

inductive pages_from ::
  "('w, 'j) talk_env \<Rightarrow> string \<Rightarrow> string option \<Rightarrow> 'w \<Rightarrow> 'j talk_message_box_t list list \<Rightarrow> 'w \<Rightarrow> bool"
  for E :: "('w, 'j) talk_env" and token :: string where
  last_page:
    "ask_page E token cur W = (data, W1) \<Longrightarrow> read_page (tj E) data = Some (False, bs) \<Longrightarrow>
     pages_from E token cur W [bs] W1"
| more_pages:
    "ask_page E token cur W = (data, W1) \<Longrightarrow> read_page (tj E) data = Some (True, bs) \<Longrightarrow>
     bs \<noteq> [] \<Longrightarrow> cur \<noteq> Some (mb_id (last bs)) \<Longrightarrow> page_last_id (tj E) data = Some i \<Longrightarrow>
     pages_from E token (Some i) W1 bss W2 \<Longrightarrow> pages_from E token cur W (bs # bss) W2"

inductive_simps pages_from_unfold: "pages_from E token cur W bss W'"

lemma pages_from_step:
  assumes "ask_page E token cur W = (data, W1)"
  shows "pages_from E token cur W bss W' \<longleftrightarrow>
    (case read_page (tj E) data of
       None \<Rightarrow> False
     | Some (has_next, bs) \<Rightarrow>
         if has_next
         then bs \<noteq> [] \<and> cur \<noteq> Some (mb_id (last bs)) \<and>
           (\<exists>i rest. page_last_id (tj E) data = Some i \<and> bss = bs # rest \<and> pages_from E token (Some i) W1 rest W')
         else bss = [bs] \<and> W' = W1)"
  by (subst pages_from_unfold) (use assms in \<open>auto split: option.splits\<close>)

text \<open>A server that pages in order: every next cursor is further on, up to a bound.\<close>

definition pages_in_order :: "('w, 'j) talk_env \<Rightarrow> string \<Rightarrow> (string \<Rightarrow> nat) \<Rightarrow> nat \<Rightarrow> bool" where
  "pages_in_order E token rank bound \<longleftrightarrow>
     (\<forall>cur W data W1 bs i. ask_page E token cur W = (data, W1) \<longrightarrow> read_page (tj E) data = Some (True, bs) \<longrightarrow>
        page_last_id (tj E) data = Some i \<longrightarrow>
        rank i < bound \<and> (case cur of None \<Rightarrow> True | Some c \<Rightarrow> rank c < rank i))"

lemma boxes_loop_pages:
  assumes ord: "pages_in_order E token rank bound"
  shows "\<exists>out W'. boxes_loop E token cur arr W = Some (out, W') \<and>
    (\<forall>bs. out = Some bs \<longleftrightarrow> (\<exists>bss. pages_from E token cur W bss W' \<and> bs = arr @ concat bss))"
proof (induction "case cur of None \<Rightarrow> Suc bound | Some c \<Rightarrow> bound - rank c" arbitrary: cur arr W rule: less_induct)
  case less
  obtain data W1 where d: "ask_page E token cur W = (data, W1)" by fastforce
  show ?case
  proof (cases "after_page (tj E) cur arr data (read_page (tj E) data)")
    case (Inl out)
    have run: "boxes_loop E token cur arr W = Some (out, W1)"
      by (subst boxes_loop.simps) (simp add: d Inl)
    have "out = Some bs \<longleftrightarrow> (\<exists>bss. pages_from E token cur W bss W1 \<and> bs = arr @ concat bss)" for bs
      using Inl by (auto simp: pages_from_step [OF d] after_page_def Let_def last_append split: option.splits if_splits)
    with run show ?thesis by blast
  next
    case (Inr nx)
    obtain i arr' where nx: "nx = (i, arr')" by fastforce
    from Inr nx obtain here where rd: "read_page (tj E) data = Some (True, here)" and ne: "here \<noteq> []"
      and cur: "cur \<noteq> Some (mb_id (last here))" and i: "page_last_id (tj E) data = Some i" and arr': "arr' = arr @ here"
      by (auto simp: after_page_def Let_def last_append split: if_splits option.splits)
    from ord d rd i have far: "rank i < bound" and up: "case cur of None \<Rightarrow> True | Some c \<Rightarrow> rank c < rank i"
      unfolding pages_in_order_def by blast+
    have "(case Some i of None \<Rightarrow> Suc bound | Some c \<Rightarrow> bound - rank c) < (case cur of None \<Rightarrow> Suc bound | Some c \<Rightarrow> bound - rank c)"
      using far up by (cases cur) auto
    from less [OF this, of arr' W1] obtain out W' where
      run: "boxes_loop E token (Some i) arr' W1 = Some (out, W')"
      and iff: "\<And>bs. out = Some bs \<longleftrightarrow> (\<exists>bss. pages_from E token (Some i) W1 bss W' \<and> bs = arr' @ concat bss)"
      by blast
    have "boxes_loop E token cur arr W = Some (out, W')"
      by (subst boxes_loop.simps) (simp add: d Inr nx run)
    moreover have "out = Some bs \<longleftrightarrow> (\<exists>bss. pages_from E token cur W bss W' \<and> bs = arr @ concat bss)" for bs
      using iff [of bs] by (auto simp: pages_from_step [OF d] rd ne cur i arr')
    ultimately show ?thesis by blast
  qed
qed

text \<open>C38: With a server that pages in order the paging of the message boxes ends, and what it returns is the
  complete list: exactly the boxes of all the server's pages in order, down to the page that promises no
  more.  A page that fails, is malformed, or promises more without moving on makes the call fail: a
  partial list never passes for the whole.\<close>

theorem message_boxes_complete:
  assumes "pages_in_order E token rank bound"
  shows "\<exists>out W'. talk_get_message_boxes E (Some token) W = Some (out, W') \<and>
    (\<forall>bs. out = Some bs \<longleftrightarrow> (\<exists>bss. pages_from E token None W bss W' \<and> bs = concat bss))"
  using boxes_loop_pages [OF assms, of None "[]" W] by (simp add: talk_get_message_boxes_def)


section \<open>What the parsers accept\<close>

lemma keep_if_iff: "keep_if P v = Some j \<longleftrightarrow> v = Some j \<and> P j"
  by (cases v) auto

lemma keep_if_kind: "case keep_if P v of None \<Rightarrow> True | Some j \<Rightarrow> P j"
  by (simp add: keep_if_iff split: option.splits)

definition message_ok :: "'j cjson \<Rightarrow> 'j talk_message_t \<Rightarrow> bool" where
  "message_ok J m \<longleftrightarrow>
     m_id m \<noteq> None \<and> m_raw m \<noteq> None \<and>
     (case m_contentMetadata m of None \<Rightarrow> True | Some j \<Rightarrow> isObject J j) \<and>
     (case m_chunks m of None \<Rightarrow> True | Some j \<Rightarrow> isArray J j)"

lemma parsed_message_ok: "talk_message_parse J ent c = Some m \<Longrightarrow> message_ok J m \<and> m_chat_id m = c"
  by (auto simp: talk_message_parse_def message_ok_def keep_if_iff split: option.splits)

text \<open>The identifier a parser wants to see in an object.\<close>

definition has_id :: "'j cjson \<Rightarrow> 'j \<Rightarrow> bool" where
  "has_id J j \<longleftrightarrow> isObject J j \<and> jstr J (getItemCS J j ''id'') \<noteq> None"

text \<open>
  The chat of a message: the receiver, who is a group or the other side of a conversation; but for a message
  of a conversation that is addressed to the account itself, the sender.  A message belongs to a conversation when its
  \<open>toType\<close> is zero, missing, or no number.
\<close>

definition in_conversation :: "'j cjson \<Rightarrow> 'j \<Rightarrow> bool" where
  "in_conversation J msg \<longleftrightarrow>
     (case getItem J msg ''toType'' of None \<Rightarrow> True | Some t \<Rightarrow> if isNumber J t then trunc (valuedouble J t) = 0 else True)"

definition chat_of :: "'j cjson \<Rightarrow> string option \<Rightarrow> 'j \<Rightarrow> string option" where
  "chat_of J my_mid msg =
     (case (jstr J (getItem J msg ''to''), my_mid) of
        (Some to_mid, Some me) \<Rightarrow> if in_conversation J msg \<and> to_mid = me then jstr J (getItem J msg ''from'') else Some to_mid
      | (to_mid, _) \<Rightarrow> to_mid)"

lemma operation_chat: "operation_chat_id J msg my_mid = chat_of J my_mid msg"
  by (auto simp: operation_chat_id_def chat_of_def in_conversation_def Let_def split: option.splits if_splits)

lemma operation_message:
  "map_option op_message (talk_operation_parse J r my_mid) =
     map_option (\<lambda>j. case getItemCS J j ''message'' of
         None \<Rightarrow> None
       | Some msg \<Rightarrow> if has_id J msg then talk_message_parse J (Some msg) (chat_of J my_mid msg) else None) r"
  by (auto simp: talk_operation_parse_def operation_chat keep_if_iff has_id_def talk_message_parse_def enil_json_dup_string_def
      split: option.splits)

lemma message_of_object:
  "has_id J msg \<Longrightarrow> talk_message_parse J (Some msg) c = Some m \<Longrightarrow> m_id m = jstr J (getItemCS J msg ''id'') \<and> m_raw m = Some msg \<and> m_chat_id m = c"
  by (auto simp: talk_message_parse_def enil_json_dup_string_def split: option.splits)

lemma message_parses: "has_id J msg \<Longrightarrow> talk_message_parse J (Some msg) c \<noteq> None"
  by (auto simp: talk_message_parse_def enil_json_dup_string_def has_id_def split: option.splits)

lemma rows_with_id:
  assumes "\<And>j. pid (parse j) = jstr J (getItemCS J j ''id'')" and "\<And>j. raw (parse j) = j"
  shows "map raw (package_rows J parse pid lst) = filter (has_id J) (map snd (jkids J lst))"
proof -
  have "filter (\<lambda>p. pid p \<noteq> None) (map parse xs) = map parse (filter (\<lambda>j. jstr J (getItemCS J j ''id'') \<noteq> None) xs)" for xs
    using assms(1) by (induction xs) simp_all
  moreover have "map (raw \<circ> parse) xs = xs" for xs using assms(2) by (simp add: map_idI)
  ultimately show ?thesis
    by (simp add: package_rows_def has_id_def [abs_def] conj_commute)
qed

text \<open>C39: Whatever JSON arrives, the parsers accept exactly what is well formed, and file it where it belongs.  An
  operation has a message exactly when its message item is an object with a string for an id; the message then has that
  id, that item as raw form, an object or nothing as metadata and an array or nothing as chunks, and its chat is
  the receiver, except that a message of a conversation addressed to this account belongs to the sender's chat.  A
  negotiated key is accepted exactly when its publicKey object has key data and a key id other than 0, and a group key
  exactly when it has a creator and a group key id other than 0; they then carry those.  The owned products become one row for each
  object with an id, in the order of the list, and no other.\<close>

theorem parsed_structs_typed:
  "(case talk_operation_parse J r my_mid of
      None \<Rightarrow> r = None
    | Some oper \<Rightarrow>
        (case (op_message oper, jget J r ''message'') of
           (None, None) \<Rightarrow> True
         | (None, Some msg) \<Rightarrow> \<not> has_id J msg
         | (Some m, None) \<Rightarrow> False
         | (Some m, Some msg) \<Rightarrow> has_id J msg \<and> message_ok J m \<and> m_id m = jstr J (getItemCS J msg ''id'') \<and> m_raw m = Some msg \<and>
             m_chat_id m =
               (if in_conversation J msg \<and> my_mid \<noteq> None \<and> jstr J (getItem J msg ''to'') = my_mid
                then jstr J (getItem J msg ''from'') else jstr J (getItem J msg ''to'')))) \<and>
   (let pub = (if isObject J data then keep_if (isObject J) (getItemCS J data ''publicKey'') else None);
        material = jstr J (jget J pub ''keyData''); key_id = (case pub of None \<Rightarrow> 0 | Some p \<Rightarrow> i64_field J p ''keyId'')
    in case talk_negotiate_e2ee_public_key_parse J data of
         None \<Rightarrow> material = None \<or> key_id = 0
       | Some k \<Rightarrow> material = Some (pk_publicKey k) \<and> key_id = pk_keyId k \<and> key_id \<noteq> 0 \<and> pk_raw k = data) \<and>
   (let creator = (if isObject J data then jstr J (getItemCS J data ''creator'') else None); key_id = i64_field J data ''groupKeyId''
    in case talk_e2ee_group_shared_key_parse J (Some data) of
         None \<Rightarrow> creator = None \<or> key_id = 0
       | Some k \<Rightarrow> creator \<noteq> None \<and> gk_creator k = creator \<and> gk_groupKeyId k = key_id \<and> key_id \<noteq> 0 \<and> gk_raw k = data) \<and>
   map sk_raw (package_rows J (parse_sticker_package_entry J) sk_id lst) = filter (has_id J) (map snd (jkids J lst)) \<and>
   map sc_raw (package_rows J (parse_sticon_package_entry J) sc_id lst) = filter (has_id J) (map snd (jkids J lst))"
proof (intro conjI)
  show "case talk_operation_parse J r my_mid of
      None \<Rightarrow> r = None
    | Some oper \<Rightarrow>
        (case (op_message oper, jget J r ''message'') of
           (None, None) \<Rightarrow> True
         | (None, Some msg) \<Rightarrow> \<not> has_id J msg
         | (Some m, None) \<Rightarrow> False
         | (Some m, Some msg) \<Rightarrow> has_id J msg \<and> message_ok J m \<and> m_id m = jstr J (getItemCS J msg ''id'') \<and> m_raw m = Some msg \<and>
             m_chat_id m =
               (if in_conversation J msg \<and> my_mid \<noteq> None \<and> jstr J (getItem J msg ''to'') = my_mid
                then jstr J (getItem J msg ''from'') else jstr J (getItem J msg ''to'')))"
  proof (cases r)
    case None
    then show ?thesis by (simp add: talk_operation_parse_def)
  next
    case (Some j)
    then obtain oper where oper: "talk_operation_parse J r my_mid = Some oper" by (simp add: talk_operation_parse_def)
    have m: "op_message oper = (case getItemCS J j ''message'' of None \<Rightarrow> None
        | Some msg \<Rightarrow> if has_id J msg then talk_message_parse J (Some msg) (chat_of J my_mid msg) else None)"
      using operation_message [of J r my_mid] oper Some by simp
    have chat: "chat_of J my_mid msg = (if in_conversation J msg \<and> my_mid \<noteq> None \<and> jstr J (getItem J msg ''to'') = my_mid
        then jstr J (getItem J msg ''from'') else jstr J (getItem J msg ''to''))" for msg
      by (auto simp: chat_of_def split: option.splits)
    show ?thesis
    proof (cases "\<exists>msg. getItemCS J j ''message'' = Some msg \<and> has_id J msg")
      case False
      then show ?thesis using m unfolding oper by (auto simp: Some split: option.splits)
    next
      case True
      then obtain msg where msg: "getItemCS J j ''message'' = Some msg" "has_id J msg" by blast
      then obtain x where x: "talk_message_parse J (Some msg) (chat_of J my_mid msg) = Some x" using message_parses [of J msg] by auto
      show ?thesis
        using m msg x parsed_message_ok [OF x] message_of_object [OF msg(2) x] unfolding oper by (simp add: Some chat)
    qed
  qed
qed (auto simp: talk_negotiate_e2ee_public_key_parse_def talk_e2ee_group_shared_key_parse_def Let_def keep_if_iff
      parse_sticker_package_entry_def parse_sticon_package_entry_def enil_json_dup_string_def str_field_def enil_json_dup_string_opt_def
      intro!: rows_with_id split: option.splits)

section \<open>Witnesses\<close>

definition demo_message :: "json talk_message_t" where
  "demo_message =
     \<lparr>m_id = Some ''local-1'', m_from_mid = Some ''u1'', m_to_mid = Some ''u2'', m_toType = 0, m_sessionId = 0,
      m_createdTime = 9007199254740993, m_contentType = 0, m_hasContent = False, m_text = Some ''hi'',
      m_relatedMessageId = None, m_messageRelationType = 3, m_relatedMessageServiceCode = 0,
      m_contentMetadata = None, m_chunks = Some (JArr [JStr ''c'']), m_chat_id = None, m_raw = None\<rparr>"

theorem send_message_roundtrip_witness:
  "talk_send_message_response_parse (tree (\<lambda>_. None) (\<lambda>_. []))
     (Some (send_message_object (tree (\<lambda>_. None) (\<lambda>_. [])) demo_message)) =
   Some (as_received (tree (\<lambda>_. None) (\<lambda>_. [])) None demo_message)"
proof -
  have "sendable (tree (\<lambda>_. None) (\<lambda>_. [])) demo_message"
    by (simp add: sendable_def demo_message_def LLONG_MIN_def LLONG_MAX_def)
  then show ?thesis
    using send_message_roundtrip [OF tree.cjson_laws_axioms, of "\<lambda>_. None" "\<lambda>_. []" demo_message 0] by blast
qed

text \<open>A server of two pages: the first box \<open>a\<close>, then the last box \<open>b\<close>.\<close>

definition demo_page :: "bool \<Rightarrow> string \<Rightarrow> json" where
  "demo_page has_next i =
     JObj [(''message'', JStr ''OK''),
           (''data'', JObj [(''messageBoxes'', JArr [JObj [(''id'', JStr i)]]), (''hasNext'', JBool has_next)])]"

definition demo_cursor :: "json \<Rightarrow> string" where
  "demo_cursor j =
     (case j of JArr (JObj kvs # _) \<Rightarrow> (case map_of kvs ''minChatId'' of Some (JStr s) \<Rightarrow> s | _ \<Rightarrow> []) | _ \<Rightarrow> [])"

definition demo_talk :: "(nat, json) talk_env" where
  "demo_talk =
     \<lparr>tj = tree (\<lambda>s. Some (if s = [] then demo_page True ''a'' else demo_page False ''b'')) demo_cursor,
      line_post = (\<lambda>path text token n. (\<lparr>status = 200, body = Some text\<rparr>, Suc n)), line_language = ''en''\<rparr>"

lemma demo_reply:
  "ask_page demo_talk token cur n =
     (Some (if cur = None \<or> cur = Some []
        then JObj [(''messageBoxes'', JArr [JObj [(''id'', JStr ''a'')]]), (''hasNext'', JBool True)]
        else JObj [(''messageBoxes'', JArr [JObj [(''id'', JStr ''b'')]]), (''hasNext'', JBool False)]), Suc n)"
  by (cases cur)
    (simp_all add: rpc_def demo_talk_def enil_api_unwrap_ok_def demo_cursor_def build_message_boxes_body_def array_of_def object_of_def
      opt_str_def num_def tree_def demo_page_def)

lemma demo_page_last:
  "page_last_id (tj demo_talk) (Some (JObj [(''messageBoxes'', JArr [JObj [(''id'', JStr i)]]), (''hasNext'', JBool b)])) = Some i"
  by (simp add: page_last_id_def demo_talk_def tree_def)

lemma demo_read_page:
  "map_option fst (read_page (tj demo_talk) (Some (JObj [(''messageBoxes'', JArr [JObj [(''id'', JStr i)]]), (''hasNext'', JBool b)]))) = Some b"
  by (simp add: read_page_def demo_talk_def tree_def parse_message_box_entry_def enil_json_dup_string_def Let_def)

lemma demo_in_order: "pages_in_order demo_talk token length 2"
  unfolding pages_in_order_def demo_reply
  by (auto simp: demo_page_last split: if_splits dest: arg_cong [of _ _ "map_option fst"] simp add: demo_read_page split: option.splits)

theorem message_boxes_complete_witness:
  "\<exists>out W'. talk_get_message_boxes demo_talk (Some ''t'') 0 = Some (out, W') \<and>
    (\<forall>bs. out = Some bs \<longleftrightarrow> (\<exists>bss. pages_from demo_talk ''t'' None 0 bss W' \<and> bs = concat bss))"
  by (rule message_boxes_complete [OF demo_in_order])

text \<open>Two messages of the account \<open>u1\<close>: one it received from \<open>u2\<close> and one it sent to \<open>u3\<close>.\<close>

definition demo_operation :: "string \<Rightarrow> string \<Rightarrow> json" where
  "demo_operation sender receiver =
     JObj [(''message'', JObj [(''id'', JStr ''1''), (''from'', JStr sender), (''to'', JStr receiver), (''toType'', JNum 0)])]"

theorem parsed_structs_typed_witness:
  "let J = tree (\<lambda>_. None) (\<lambda>_. []); chat = (\<lambda>a b. map_option m_chat_id (Option.bind (talk_operation_parse J (Some (demo_operation a b)) (Some ''u1'')) op_message))
   in chat ''u2'' ''u1'' = Some (Some ''u2'') \<and> chat ''u1'' ''u3'' = Some (Some ''u3'')"
proof -
  define J where "J = tree (\<lambda>_. None) (\<lambda>_. [])"
  let ?msg = "\<lambda>a b. JObj [(''id'', JStr ''1''), (''from'', JStr a), (''to'', JStr b), (''toType'', JNum 0)]"
  have item: "jget J (Some (demo_operation a b)) ''message'' = Some (?msg a b)" for a b
    by (simp add: J_def demo_operation_def tree_def)
  have parts: "has_id J (?msg a b)" "in_conversation J (?msg a b)" "jstr J (getItem J (?msg a b) ''to'') = Some b"
    "jstr J (getItem J (?msg a b) ''from'') = Some a" for a b
    by (simp_all add: J_def has_id_def in_conversation_def tree_def jstr_def trunc_def lower_char.simps)
  have "map_option m_chat_id (Option.bind (talk_operation_parse J (Some (demo_operation a b)) (Some ''u1'')) op_message) =
      Some (if b = ''u1'' then Some a else Some b)" for a b
  proof -
    obtain oper where oper: "talk_operation_parse J (Some (demo_operation a b)) (Some ''u1'') = Some oper"
      by (simp add: talk_operation_parse_def)
    note typed = conjunct1 [OF parsed_structs_typed [where J = J and r = "Some (demo_operation a b)" and my_mid = "Some ''u1''"],
        unfolded oper item option.case parts]
    then show ?thesis by (cases "op_message oper") (simp_all add: oper parts)
  qed
  from this [of "''u2''" "''u1''"] this [of "''u1''" "''u3''"] show ?thesis by (simp add: Let_def J_def [symmetric])
qed

end
