(* ===== verification/ENIL_Table.thy ===== *)
theory ENIL_Table
  imports ENIL_TalkTypes
begin

text \<open>
  What \<open>source/shared/enil_db.c\<close> relies on of SQLite, and its metadata-driven row access.  A table with
  a primary key is the list of its rows in insertion order, each under its key; the statements the
  code prepares are the operations below, each with the number of rows it changed.  The second part
  is the generic binding and reading of a struct through its field table.
\<close>

section \<open>Tables with a primary key\<close>

type_synonym ('k, 'r) table = "('k \<times> 'r) list"

abbreviation keyed :: "('k, 'r) table \<Rightarrow> bool" where
  "keyed t \<equiv> distinct (map fst t)"

text \<open>\<open>INSERT OR IGNORE\<close>, \<open>INSERT OR REPLACE\<close>, \<open>UPDATE ... WHERE\<close>, \<open>DELETE ... WHERE\<close>.\<close>

definition insert_ignore :: "'k \<Rightarrow> 'r \<Rightarrow> ('k, 'r) table \<Rightarrow> ('k, 'r) table \<times> nat" where
  "insert_ignore k r t = (if k \<in> set (map fst t) then (t, 0) else (t @ [(k, r)], 1))"

definition insert_replace :: "'k \<Rightarrow> 'r \<Rightarrow> ('k, 'r) table \<Rightarrow> ('k, 'r) table \<times> nat" where
  "insert_replace k r t = (filter (\<lambda>(k', _). k' \<noteq> k) t @ [(k, r)], 1)"

definition update_where :: "('k \<Rightarrow> 'r \<Rightarrow> bool) \<Rightarrow> ('r \<Rightarrow> 'r) \<Rightarrow> ('k, 'r) table \<Rightarrow> ('k, 'r) table \<times> nat" where
  "update_where P f t = (map (\<lambda>(k, r). (k, if P k r then f r else r)) t, length (filter (\<lambda>(k, r). P k r) t))"

definition delete_where :: "('k \<Rightarrow> 'r \<Rightarrow> bool) \<Rightarrow> ('k, 'r) table \<Rightarrow> ('k, 'r) table \<times> nat" where
  "delete_where P t = (filter (\<lambda>(k, r). \<not> P k r) t, length (filter (\<lambda>(k, r). P k r) t))"

text \<open>\<open>INSERT ... ON CONFLICT DO UPDATE\<close>: a new row, or the present one changed in place.\<close>

definition insert_update :: "'k \<Rightarrow> 'r \<Rightarrow> ('r \<Rightarrow> 'r) \<Rightarrow> ('k, 'r) table \<Rightarrow> ('k, 'r) table \<times> nat" where
  "insert_update k r f t =
     (if k \<in> set (map fst t) then update_where (\<lambda>k' _. k' = k) f t else (t @ [(k, r)], 1))"

lemma key_in_iff: "k \<in> fst ` set t \<longleftrightarrow> (\<exists>r. map_of t k = Some r)"
  by (metis map_of_eq_None_iff not_None_eq)

lemma lookup_insert_ignore:
  "map_of (fst (insert_ignore k r t)) k' = (case map_of t k' of Some x \<Rightarrow> Some x | None \<Rightarrow> if k' = k then Some r else None)"
  by (auto simp: insert_ignore_def map_add_def key_in_iff split: option.splits)

lemma lookup_filter_key: "map_of (filter (\<lambda>(k', _). k' \<noteq> k) t) k' = (if k' = k then None else map_of t k')"
  by (induction t) auto

lemma lookup_insert_replace: "map_of (fst (insert_replace k r t)) k' = (if k' = k then Some r else map_of t k')"
  by (auto simp: insert_replace_def map_add_def lookup_filter_key split: option.splits)

lemma lookup_update_where:
  "map_of (fst (update_where P f t)) k = map_option (\<lambda>r. if P k r then f r else r) (map_of t k)"
  by (induction t) (auto simp: update_where_def)

lemma lookup_delete_where:
  "keyed t \<Longrightarrow> map_of (fst (delete_where P t)) k =
     (case map_of t k of None \<Rightarrow> None | Some r \<Rightarrow> if P k r then None else Some r)"
  by (induction t) (auto simp: delete_where_def key_in_iff split: option.splits)

lemma lookup_insert_update:
  "map_of (fst (insert_update k r f t)) k' =
     (if k' = k then Some (case map_of t k of None \<Rightarrow> r | Some x \<Rightarrow> f x) else map_of t k')"
  by (auto simp: insert_update_def lookup_update_where map_add_def key_in_iff split: option.splits)

lemma keyed_insert_ignore: "keyed t \<Longrightarrow> keyed (fst (insert_ignore k r t))"
  by (simp add: insert_ignore_def)

lemma keyed_filter: "keyed t \<Longrightarrow> keyed (filter P t)"
  by (induction t) auto

lemma keyed_insert_replace: "keyed t \<Longrightarrow> keyed (fst (insert_replace k r t))"
  by (auto simp: insert_replace_def keyed_filter)

lemma keyed_update_where: "keyed t \<Longrightarrow> keyed (fst (update_where P f t))"
  by (simp add: update_where_def comp_def case_prod_unfold)

lemma keyed_delete_where: "keyed t \<Longrightarrow> keyed (fst (delete_where P t))"
  by (simp add: delete_where_def keyed_filter)

lemma keyed_insert_update: "keyed t \<Longrightarrow> keyed (fst (insert_update k r f t))"
  by (simp add: insert_update_def keyed_update_where)

lemmas lookups = lookup_insert_ignore lookup_insert_replace lookup_update_where lookup_insert_update
lemmas keyeds = keyed_insert_ignore keyed_insert_replace keyed_update_where keyed_delete_where keyed_insert_update

section \<open>Column values\<close>

datatype sval = SNull | SText string | SInt int

definition bind_text_or_null :: "string option \<Rightarrow> sval" where
  "bind_text_or_null s = (case s of None \<Rightarrow> SNull | Some t \<Rightarrow> SText t)"

text \<open>SQLite converts between the storage classes when a column is read.\<close>

fun column_text :: "sval \<Rightarrow> string option" where
  "column_text SNull = None"
| "column_text (SText s) = Some s"
| "column_text (SInt n) = Some (show_int n)"

fun column_int64 :: "sval \<Rightarrow> int" where
  "column_int64 SNull = 0"
| "column_int64 (SText s) = fst (strtoll10 s)"
| "column_int64 (SInt n) = n"

definition column_int :: "sval \<Rightarrow> int" where
  "column_int v = wrap32 (column_int64 v)"

definition dup_or_null :: "string option \<Rightarrow> string option" where
  "dup_or_null s = (if nonempty s then s else None)"

definition dup_or_empty :: "string option \<Rightarrow> string option" where
  "dup_or_empty s = (case s of None \<Rightarrow> Some [] | Some t \<Rightarrow> Some t)"

section \<open>Binding and reading by field table\<close>

text \<open>A struct is the map of its fields by offset, as in the field tables' teardown.\<close>

definition bind_field :: "'j cjson \<Rightarrow> (nat \<Rightarrow> 'j field_val) \<Rightarrow> enil_field_t \<Rightarrow> sval" where
  "bind_field J base f =
     (case (ftype f, base (offset f)) of
        (ENIL_F_STR, PStr p) \<Rightarrow> bind_text_or_null p
      | (ENIL_F_INT, PScalar n) \<Rightarrow> SInt (wrap32 n)
      | (ENIL_F_BOOL, PScalar n) \<Rightarrow> SInt (wrap32 n)
      | (ENIL_F_I64, PScalar n) \<Rightarrow> SInt n
      | (ENIL_F_JSON, PJson j) \<Rightarrow> bind_text_or_null (map_option (printText J) j)
      | _ \<Rightarrow> SNull)"

definition bind_fields :: "'j cjson \<Rightarrow> (nat \<Rightarrow> 'j field_val) \<Rightarrow> enil_field_t list \<Rightarrow> sval list" where
  "bind_fields J base fs = map (bind_field J base) fs"

definition read_field :: "'j cjson \<Rightarrow> bool \<Rightarrow> enil_field_t \<Rightarrow> sval \<Rightarrow> 'j field_val" where
  "read_field J empty_as_null f v =
     (case ftype f of
        ENIL_F_STR \<Rightarrow> PStr (if empty_as_null then dup_or_null (column_text v) else dup_or_empty (column_text v))
      | ENIL_F_INT \<Rightarrow> PScalar (column_int v)
      | ENIL_F_BOOL \<Rightarrow> PScalar (column_int v)
      | ENIL_F_I64 \<Rightarrow> PScalar (column_int64 v)
      | ENIL_F_JSON \<Rightarrow> PJson (Option.bind (dup_or_null (column_text v)) (parseText J)))"

fun read_fields ::
  "'j cjson \<Rightarrow> bool \<Rightarrow> enil_field_t list \<Rightarrow> sval list \<Rightarrow> (nat \<Rightarrow> 'j field_val) \<Rightarrow> (nat \<Rightarrow> 'j field_val)" where
  "read_fields J e [] vs base = base"
| "read_fields J e (f # fs) [] base = base"
| "read_fields J e (f # fs) (v # vs) base = read_fields J e fs vs (base(offset f := read_field J e f v))"

text \<open>A field holds a value of its declared kind, in the range of its C type, and its JSON prints and parses back.\<close>

definition field_ok :: "'j cjson \<Rightarrow> (nat \<Rightarrow> 'j field_val) \<Rightarrow> enil_field_t \<Rightarrow> bool" where
  "field_ok J base f \<longleftrightarrow>
     (case (ftype f, base (offset f)) of
        (ENIL_F_STR, PStr p) \<Rightarrow> True
      | (ENIL_F_INT, PScalar n) \<Rightarrow> INT_MIN \<le> n \<and> n \<le> INT_MAX
      | (ENIL_F_BOOL, PScalar n) \<Rightarrow> INT_MIN \<le> n \<and> n \<le> INT_MAX
      | (ENIL_F_I64, PScalar n) \<Rightarrow> True
      | (ENIL_F_JSON, PJson j) \<Rightarrow>
          (case j of None \<Rightarrow> True | Some v \<Rightarrow> printText J v \<noteq> [] \<and> parseText J (printText J v) = Some v)
      | _ \<Rightarrow> False)"

text \<open>What a stored field reads back as: the empty text becomes null.\<close>

definition stored_field :: "'j field_val \<Rightarrow> 'j field_val" where
  "stored_field v = (case v of PStr p \<Rightarrow> PStr (dup_or_null p) | _ \<Rightarrow> v)"

lemma read_bind_field: "field_ok J base f \<Longrightarrow> read_field J True f (bind_field J base f) = stored_field (base (offset f))"
  by (auto simp: field_ok_def read_field_def bind_field_def stored_field_def bind_text_or_null_def dup_or_null_def
      column_int_def wrap32_id split: enil_field_type_t.splits field_val.splits option.splits)

lemma read_fields_other: "o' \<notin> offset ` set fs \<Longrightarrow> read_fields J e fs vs base o' = base o'"
  by (induction J e fs vs base rule: read_fields.induct) auto

lemma read_bind_fields:
  assumes "distinct (map offset fs)" and "list_all (field_ok J base) fs" and "f \<in> set fs"
  shows "read_fields J True fs (bind_fields J base fs) b (offset f) = stored_field (base (offset f))"
  using assms
proof (induction fs arbitrary: b)
  case (Cons g gs)
  show ?case
  proof (cases "f = g")
    case True
    with Cons.prems show ?thesis by (simp add: bind_fields_def read_fields_other read_bind_field)
  next
    case False
    with Cons show ?thesis by (simp add: bind_fields_def)
  qed
qed simp

section \<open>The field tables\<close>

text \<open>\<open>offsetof\<close> in the 64-bit layout; only that the offsets of a table differ matters.\<close>

definition fld :: "string \<Rightarrow> nat \<Rightarrow> enil_field_type_t \<Rightarrow> enil_field_t" where
  "fld k n t = \<lparr>fkey = k, offset = n, ftype = t\<rparr>"

lemma fld_simps [simp]: "fkey (fld k n t) = k" "offset (fld k n t) = n" "ftype (fld k n t) = t"
  by (simp_all add: fld_def)

definition talk_profile_fields :: "enil_field_t list" where
  "talk_profile_fields =
     [fld ''mid'' 0 ENIL_F_STR, fld ''userid'' 8 ENIL_F_STR, fld ''regionCode'' 16 ENIL_F_STR,
      fld ''displayName'' 24 ENIL_F_STR, fld ''statusMessage'' 32 ENIL_F_STR,
      fld ''allowSearchByUserid'' 40 ENIL_F_BOOL, fld ''allowSearchByEmail'' 44 ENIL_F_BOOL,
      fld ''picturePath'' 48 ENIL_F_STR, fld ''statusMessageContentMetadata'' 56 ENIL_F_STR,
      fld ''nftProfile'' 64 ENIL_F_BOOL, fld ''profileId'' 72 ENIL_F_STR, fld ''profileType'' 80 ENIL_F_INT,
      fld ''createdTimeMillis'' 88 ENIL_F_I64]"

definition talk_contact_fields :: "enil_field_t list" where
  "talk_contact_fields =
     [fld ''mid'' 0 ENIL_F_STR, fld ''displayName'' 8 ENIL_F_STR, fld ''displayNameOverridden'' 16 ENIL_F_STR,
      fld ''statusMessage'' 24 ENIL_F_STR, fld ''picturePath'' 32 ENIL_F_STR]"

definition talk_chat_fields :: "enil_field_t list" where
  "talk_chat_fields =
     [fld ''chatMid'' 0 ENIL_F_STR, fld ''createdTime'' 8 ENIL_F_I64, fld ''notificationDisabled'' 16 ENIL_F_BOOL,
      fld ''favoriteTimestamp'' 24 ENIL_F_I64, fld ''chatName'' 32 ENIL_F_STR, fld ''picturePath'' 40 ENIL_F_STR,
      fld ''type'' 48 ENIL_F_INT, fld ''creatorMid'' 56 ENIL_F_STR, fld ''invitationTicket'' 64 ENIL_F_STR,
      fld ''isInvited'' 72 ENIL_F_BOOL]"

definition sticker_package_fields :: "enil_field_t list" where
  "sticker_package_fields =
     [fld ''id'' 0 ENIL_F_STR, fld ''name'' 8 ENIL_F_STR, fld ''latestVersion'' 16 ENIL_F_STR,
      fld ''grantedByDefault'' 24 ENIL_F_BOOL, fld ''authorId'' 32 ENIL_F_STR, fld ''installedTime'' 40 ENIL_F_I64,
      fld ''validUntil'' 48 ENIL_F_STR, fld ''validFor'' 56 ENIL_F_INT, fld ''availability'' 60 ENIL_F_INT,
      fld ''canAutoDownload'' 64 ENIL_F_BOOL, fld ''promotionType'' 68 ENIL_F_INT,
      fld ''stickerResourceType'' 72 ENIL_F_INT, fld ''stickerSize'' 76 ENIL_F_INT,
      fld ''suggestVersion'' 80 ENIL_F_STR, fld ''defaultDisplayOnKeyboard'' 88 ENIL_F_BOOL,
      fld ''availableForPhotoEdit'' 92 ENIL_F_BOOL, fld ''stickerIdRanges'' 96 ENIL_F_JSON,
      fld ''isPurchased'' 104 ENIL_F_BOOL]"

definition sticon_package_fields :: "enil_field_t list" where
  "sticon_package_fields =
     [fld ''id'' 0 ENIL_F_STR, fld ''name'' 8 ENIL_F_STR, fld ''latestVersion'' 16 ENIL_F_STR,
      fld ''grantedByDefault'' 24 ENIL_F_BOOL, fld ''authorId'' 32 ENIL_F_STR, fld ''installedTime'' 40 ENIL_F_I64,
      fld ''validUntil'' 48 ENIL_F_STR, fld ''validFor'' 56 ENIL_F_INT, fld ''availability'' 60 ENIL_F_INT,
      fld ''canAutoDownload'' 64 ENIL_F_BOOL, fld ''promotionType'' 68 ENIL_F_INT,
      fld ''sticonResourceType'' 72 ENIL_F_INT, fld ''suggestVersion'' 80 ENIL_F_STR,
      fld ''availableForPhotoEdit'' 88 ENIL_F_BOOL, fld ''applicationVersionRange'' 96 ENIL_F_JSON,
      fld ''isPurchased'' 104 ENIL_F_BOOL]"

text \<open>A struct laid out by offset: the values in the order of its field table.\<close>

definition laid_out :: "enil_field_t list \<Rightarrow> 'j field_val list \<Rightarrow> (nat \<Rightarrow> 'j field_val)" where
  "laid_out fs vs n = (case map_of (zip (map offset fs) vs) n of None \<Rightarrow> PScalar 0 | Some v \<Rightarrow> v)"

definition cbool :: "bool \<Rightarrow> int" where
  "cbool b = (if b then 1 else 0)"

definition profile_base :: "'j talk_profile_t \<Rightarrow> (nat \<Rightarrow> 'j field_val)" where
  "profile_base p = laid_out talk_profile_fields
     [PStr (Some (pf_mid p)), PStr (pf_user_id p), PStr (pf_region_code p), PStr (pf_display_name p),
      PStr (pf_status_message p), PScalar (cbool (pf_allow_search_by_user_id p)),
      PScalar (cbool (pf_allow_search_by_email p)), PStr (pf_picture_path p),
      PStr (pf_status_message_content_metadata p), PScalar (cbool (pf_nft_profile p)), PStr (pf_profile_id p),
      PScalar (pf_profile_type p), PScalar (pf_created_time_millis p)]"

definition contact_base :: "'j talk_contact_t \<Rightarrow> (nat \<Rightarrow> 'j field_val)" where
  "contact_base c = laid_out talk_contact_fields
     [PStr (Some (co_mid c)), PStr (co_display_name c), PStr (co_display_name_overridden c),
      PStr (co_status_message c), PStr (co_picture_path c)]"

definition chat_base :: "'j talk_chat_t \<Rightarrow> (nat \<Rightarrow> 'j field_val)" where
  "chat_base c = laid_out talk_chat_fields
     [PStr (Some (ch_chatMid c)), PScalar (ch_createdTime c), PScalar (cbool (ch_notificationDisabled c)),
      PScalar (ch_favoriteTimestamp c), PStr (ch_chatName c), PStr (ch_picturePath c), PScalar (ch_type c),
      PStr (ch_creatorMid c), PStr (ch_invitationTicket c), PScalar (cbool (ch_isInvited c))]"

definition sticker_package_base :: "'j sticker_package_t \<Rightarrow> (nat \<Rightarrow> 'j field_val)" where
  "sticker_package_base p = laid_out sticker_package_fields
     [PStr (sk_id p), PStr (sk_name p), PStr (sk_latestVersion p), PScalar (cbool (sk_grantedByDefault p)),
      PStr (sk_authorId p), PScalar (sk_installedTime p), PStr (sk_validUntil p), PScalar (sk_validFor p),
      PScalar (sk_availability p), PScalar (cbool (sk_canAutoDownload p)), PScalar (sk_promotionType p),
      PScalar (sk_stickerResourceType p), PScalar (sk_stickerSize p), PStr (sk_suggestVersion p),
      PScalar (cbool (sk_defaultDisplayOnKeyboard p)), PScalar (cbool (sk_availableForPhotoEdit p)),
      PJson (sk_stickerIdRanges p), PScalar (cbool (sk_isPurchased p))]"

definition sticon_package_base :: "'j sticon_package_t \<Rightarrow> (nat \<Rightarrow> 'j field_val)" where
  "sticon_package_base p = laid_out sticon_package_fields
     [PStr (sc_id p), PStr (sc_name p), PStr (sc_latestVersion p), PScalar (cbool (sc_grantedByDefault p)),
      PStr (sc_authorId p), PScalar (sc_installedTime p), PStr (sc_validUntil p), PScalar (sc_validFor p),
      PScalar (sc_availability p), PScalar (cbool (sc_canAutoDownload p)), PScalar (sc_promotionType p),
      PScalar (sc_sticonResourceType p), PStr (sc_suggestVersion p), PScalar (cbool (sc_availableForPhotoEdit p)),
      PJson (sc_applicationVersionRange p), PScalar (cbool (sc_isPurchased p))]"

end
