(* ===== verification/ENIL_Db.thy ===== *)
theory ENIL_Db
  imports ENIL_Table ENIL_TalkSend
begin

text \<open>
  \<open>source/shared/enil_db.c\<close>, first part: the tables, how a statement runs, and the rows of profiles,
  contacts, chats, message boxes, read marks and products.

  SQLite is modelled by what the SQL of the file means on the tables: a statement either changes them
  as a whole or fails and changes nothing.  \<open>fault n\<close> is the error code of the \<open>n\<close>-th statement (0 for
  success), so every result below is for every pattern of failures.  A savepoint or transaction keeps
  a copy of the tables to go back to; going back is taken to succeed.
\<close>

section \<open>Result codes\<close>

definition SQLITE_OK :: int where "SQLITE_OK = 0"
definition SQLITE_ERROR :: int where "SQLITE_ERROR = 1"
definition SQLITE_NOMEM :: int where "SQLITE_NOMEM = 7"

section \<open>The tables\<close>

text \<open>\<open>messages_v2\<close>; the key is \<open>id\<close>.\<close>

record message_row =
  r_from :: "string option"
  r_to :: "string option"
  r_toType :: int
  r_sessionId :: int
  r_createdTime :: int
  r_contentType :: int
  r_hasContent :: int
  r_text :: "string option"
  r_contentMetadata :: "string option"
  r_chunks :: "string option"
  r_relatedMessageId :: "string option"
  r_messageRelationType :: int
  r_relatedMessageServiceCode :: int
  r_raw_json :: "string option"
  r_chat_id :: string
  r_decrypt_status :: int
  r_replace_json :: "string option"
  r_sticker_id :: "string option"
  r_sticker_pkg_id :: "string option"
  r_sticon_ownership :: "string option"
  r_enc_km :: "string option"
  r_media_path :: "string option"
  r_media_sid :: "string option"
  r_media_oid :: "string option"
  r_media_obs_pop :: "string option"
  r_media_e2ee_version :: "string option"
  r_media_plain_size :: int
  r_orig_width :: int
  r_orig_height :: int
  r_thumb_path :: "string option"
  r_thumb_width :: int
  r_thumb_height :: int
  r_is_deleted :: int
  r_reactions_json :: "string option"

text \<open>\<open>message_boxes_v2\<close>; the key is the chat's mid.\<close>

record box_row =
  b_midType :: "int option"
  b_lastDeliveredMessageId :: "string option"
  b_lastDeliveredTime :: "int option"
  b_lastSeenMessageId :: "string option"
  b_unreadCount :: "int option"
  b_peerLastReadTime :: "int option"
  b_peerLastReaderMid :: "string option"
  b_raw_json :: "string option"

definition empty_box :: box_row where
  "empty_box = \<lparr>b_midType = None, b_lastDeliveredMessageId = None, b_lastDeliveredTime = None, b_lastSeenMessageId = None,
     b_unreadCount = None, b_peerLastReadTime = None, b_peerLastReaderMid = None, b_raw_json = None\<rparr>"

text \<open>\<open>stickers_v2\<close> and \<open>sticons_v2\<close>, which has no option and hash; the key is the item id and its package.\<close>

record item_row =
  i_option :: "string option"
  i_hash :: "string option"
  i_image_path :: "string option"
  i_thumb_path :: "string option"
  i_image_width :: "int option"
  i_image_height :: "int option"
  i_thumb_width :: "int option"
  i_thumb_height :: "int option"
  i_alt_text :: "string option"

definition empty_item :: item_row where
  "empty_item = \<lparr>i_option = None, i_hash = None, i_image_path = None, i_thumb_path = None, i_image_width = None,
     i_image_height = None, i_thumb_width = None, i_thumb_height = None, i_alt_text = None\<rparr>"

text \<open>The tables filled through field tables hold their columns in that order, then \<open>raw_json\<close>.\<close>

record tables =
  accounts :: "(string, sval list) table"
  contacts :: "(string, sval list) table"
  chats :: "(string, sval list) table"
  boxes :: "(string, box_row) table"
  readers :: "(string \<times> string, int) table"
  messages :: "(string, message_row) table"
  message_sticons :: "(string \<times> int, string \<times> string) table"
  message_sticon_packages :: "(string \<times> string, unit) table"
  sticker_packages :: "(string, sval list) table"
  sticon_packages :: "(string, sval list) table"
  stickers :: "(string \<times> string, item_row) table"
  sticons :: "(string \<times> string, item_row) table"
  talk_exceptions :: "sval list list"
  sse_events :: "sval list list"
  db_meta :: "(string, sval) table"

text \<open>
  The connection: the tables, the copies of the open savepoints, what \<open>sqlite3_changes\<close> reports, and
  the number of statements run so far.
\<close>

record db =
  tbl :: tables
  marks :: "tables list"
  changed :: nat
  clock :: nat

record 'j db_env =
  dj :: "'j cjson"
  fault :: "nat \<Rightarrow> int"
  newest_first :: "(string \<times> message_row) list \<Rightarrow> (string \<times> message_row) list"

section \<open>Running statements\<close>

text \<open>Prepare, bind, step and finalize one writing statement (\<open>step_done\<close>, \<open>enil_db_exec\<close>).\<close>

definition exec_stmt :: "'j db_env \<Rightarrow> (tables \<Rightarrow> tables \<times> nat) \<Rightarrow> db \<Rightarrow> int \<times> db" where
  "exec_stmt E f D =
     (let rc = fault E (clock D); D' = D\<lparr>clock := Suc (clock D)\<rparr>
      in if rc \<noteq> SQLITE_OK then (rc, D')
         else (SQLITE_OK, D'\<lparr>tbl := fst (f (tbl D)), changed := snd (f (tbl D))\<rparr>))"

text \<open>A reading statement: the first value of the result, or \<open>None\<close> on a failure.\<close>

definition query :: "'j db_env \<Rightarrow> (tables \<Rightarrow> 'a) \<Rightarrow> db \<Rightarrow> 'a option \<times> db" where
  "query E q D =
     (let D' = D\<lparr>clock := Suc (clock D)\<rparr>
      in if fault E (clock D) \<noteq> SQLITE_OK then (None, D') else (Some (q (tbl D)), D'))"

text \<open>\<open>SAVEPOINT\<close> (and \<open>BEGIN\<close>), \<open>RELEASE\<close> (and \<open>COMMIT\<close>), \<open>ROLLBACK TO\<close>, \<open>ROLLBACK\<close>.\<close>

definition savepoint :: "'j db_env \<Rightarrow> db \<Rightarrow> int \<times> db" where
  "savepoint E D =
     (let rc = fault E (clock D); D' = D\<lparr>clock := Suc (clock D)\<rparr>
      in if rc \<noteq> SQLITE_OK then (rc, D') else (SQLITE_OK, D'\<lparr>marks := tbl D # marks D\<rparr>))"

definition release :: "'j db_env \<Rightarrow> db \<Rightarrow> int \<times> db" where
  "release E D =
     (let rc = fault E (clock D); D' = D\<lparr>clock := Suc (clock D)\<rparr>
      in if rc \<noteq> SQLITE_OK then (rc, D') else (SQLITE_OK, D'\<lparr>marks := tl (marks D)\<rparr>))"

definition rollback_to :: "db \<Rightarrow> db" where
  "rollback_to D = D\<lparr>tbl := (case marks D of [] \<Rightarrow> tbl D | T # _ \<Rightarrow> T)\<rparr>"

definition rollback :: "db \<Rightarrow> db" where
  "rollback D = D\<lparr>tbl := (case marks D of [] \<Rightarrow> tbl D | T # _ \<Rightarrow> T), marks := tl (marks D)\<rparr>"

text \<open>\<open>BEGIN\<close> fails inside a transaction.\<close>

definition begin_transaction :: "'j db_env \<Rightarrow> db \<Rightarrow> int \<times> db" where
  "begin_transaction E D =
     (if marks D \<noteq> [] then (SQLITE_ERROR, D\<lparr>clock := Suc (clock D)\<rparr>) else savepoint E D)"

section \<open>Scalars\<close>

definition db_scalar_text :: "'j db_env \<Rightarrow> (tables \<Rightarrow> sval option) \<Rightarrow> db \<Rightarrow> string option \<times> db" where
  "db_scalar_text E q D =
     (let (v, D') = query E q D
      in (case Option.bind v id of None \<Rightarrow> None | Some c \<Rightarrow> dup_or_null (column_text c), D'))"

definition db_scalar_i64 :: "'j db_env \<Rightarrow> (tables \<Rightarrow> sval option) \<Rightarrow> int \<Rightarrow> db \<Rightarrow> int \<times> db" where
  "db_scalar_i64 E q dflt D =
     (let (v, D') = query E q D
      in (case Option.bind v id of None \<Rightarrow> dflt | Some SNull \<Rightarrow> dflt | Some c \<Rightarrow> column_int64 c, D'))"

text \<open>The cursor of the operation stream; the column has text affinity, so the number is stored as text.\<close>

definition local_rev_key :: string where "local_rev_key = ''localRev''"

definition enil_db_set_local_rev :: "'j db_env \<Rightarrow> int \<Rightarrow> db \<Rightarrow> int \<times> db" where
  "enil_db_set_local_rev E local_rev D =
     (if local_rev < 0 then (SQLITE_ERROR, D)
      else exec_stmt E (\<lambda>T. let (m, n) = insert_replace local_rev_key (SText (show_int local_rev)) (db_meta T)
                            in (T\<lparr>db_meta := m\<rparr>, n)) D)"

definition enil_db_get_local_rev :: "'j db_env \<Rightarrow> db \<Rightarrow> int \<times> db" where
  "enil_db_get_local_rev E D =
     (let (rev', D') = db_scalar_i64 E (\<lambda>T. map_of (db_meta T) local_rev_key) 0 D
      in (if 0 < rev' then rev' else 0, D'))"

definition enil_db_has_local_rev :: "'j db_env \<Rightarrow> db \<Rightarrow> bool \<times> db" where
  "enil_db_has_local_rev E D =
     (let (v, D') = db_scalar_text E (\<lambda>T. map_of (db_meta T) local_rev_key) D in (v \<noteq> None, D'))"

text \<open>A probe that cannot be answered counts as present, so no useless network fetch follows.\<close>

definition row_exists :: "'j db_env \<Rightarrow> (tables \<Rightarrow> string \<Rightarrow> bool) \<Rightarrow> string option \<Rightarrow> db \<Rightarrow> bool \<times> db" where
  "row_exists E q key D =
     (if \<not> nonempty key then (True, D)
      else let (v, D') = query E (\<lambda>T. q T (the key)) D in (case v of None \<Rightarrow> True | Some b \<Rightarrow> b, D'))"

definition enil_db_chat_exists :: "'j db_env \<Rightarrow> string option \<Rightarrow> db \<Rightarrow> bool \<times> db" where
  "enil_db_chat_exists E = row_exists E (\<lambda>T k. k \<in> set (map fst (chats T)))"

definition enil_db_message_box_exists :: "'j db_env \<Rightarrow> string option \<Rightarrow> db \<Rightarrow> bool \<times> db" where
  "enil_db_message_box_exists E = row_exists E (\<lambda>T k. k \<in> set (map fst (boxes T)))"

definition enil_db_contact_exists :: "'j db_env \<Rightarrow> string option \<Rightarrow> db \<Rightarrow> bool \<times> db" where
  "enil_db_contact_exists E = row_exists E (\<lambda>T k. k \<in> set (map fst (contacts T)))"

section \<open>Rows written through field tables\<close>

text \<open>The row \<open>upsert_fields_with_raw\<close> inserts: the fields, the extra columns, the raw JSON text.\<close>

definition row_with_raw ::
  "'j db_env \<Rightarrow> (nat \<Rightarrow> 'j field_val) \<Rightarrow> enil_field_t list \<Rightarrow> sval list \<Rightarrow> 'j option \<Rightarrow> sval list" where
  "row_with_raw E base fs extra raw =
     bind_fields (dj E) base fs @ extra @ [bind_text_or_null (map_option (printText (dj E)) raw)]"

definition upsert_fields_with_raw ::
  "'j db_env \<Rightarrow> (tables \<Rightarrow> (string, sval list) table) \<Rightarrow> ((string, sval list) table \<Rightarrow> tables \<Rightarrow> tables) \<Rightarrow> string \<Rightarrow>
   (nat \<Rightarrow> 'j field_val) \<Rightarrow> enil_field_t list \<Rightarrow> sval list \<Rightarrow> 'j option \<Rightarrow> db \<Rightarrow> int \<times> db" where
  "upsert_fields_with_raw E get put key base fs extra raw D =
     exec_stmt E (\<lambda>T. let (t, n) = insert_replace key (row_with_raw E base fs extra raw) (get T) in (put t T, n)) D"

definition enil_db_talk_profile_upsert :: "'j db_env \<Rightarrow> 'j talk_profile_t \<Rightarrow> db \<Rightarrow> int \<times> db" where
  "enil_db_talk_profile_upsert E p D =
     upsert_fields_with_raw E accounts (\<lambda>t T. T\<lparr>accounts := t\<rparr>) (pf_mid p) (profile_base p) talk_profile_fields []
       (Some (pf_raw p)) D"

text \<open>The first account row read back; the struct is cleared before.\<close>

definition enil_db_talk_profile_get :: "'j db_env \<Rightarrow> db \<Rightarrow> (nat \<Rightarrow> 'j field_val) option \<times> db" where
  "enil_db_talk_profile_get E D =
     (let (v, D') = query E (\<lambda>T. case accounts T of [] \<Rightarrow> None | (k, row) # _ \<Rightarrow> Some row) D
      in (map_option (\<lambda>row. read_fields (dj E) True talk_profile_fields row (\<lambda>_. PScalar 0)) (Option.bind v id), D'))"

definition enil_db_talk_contact_upsert :: "'j db_env \<Rightarrow> 'j talk_contact_t \<Rightarrow> db \<Rightarrow> int \<times> db" where
  "enil_db_talk_contact_upsert E c D =
     upsert_fields_with_raw E contacts (\<lambda>t T. T\<lparr>contacts := t\<rparr>) (co_mid c) (contact_base c) talk_contact_fields
       [SInt (cbool (co_registered c))] (co_raw c) D"

definition enil_db_chat_upsert :: "'j db_env \<Rightarrow> 'j talk_chat_t \<Rightarrow> db \<Rightarrow> int \<times> db" where
  "enil_db_chat_upsert E c D =
     upsert_fields_with_raw E chats (\<lambda>t T. T\<lparr>chats := t\<rparr>) (ch_chatMid c) (chat_base c) talk_chat_fields [] (Some (ch_raw c)) D"

definition enil_db_sticker_package_upsert :: "'j db_env \<Rightarrow> 'j sticker_package_t \<Rightarrow> db \<Rightarrow> int \<times> db" where
  "enil_db_sticker_package_upsert E p D =
     (case sk_id p of
        None \<Rightarrow> (SQLITE_ERROR, D)
      | Some i \<Rightarrow>
          upsert_fields_with_raw E sticker_packages (\<lambda>t T. T\<lparr>sticker_packages := t\<rparr>) i (sticker_package_base p)
            sticker_package_fields [] (Some (sk_raw p)) D)"

definition enil_db_sticon_package_upsert :: "'j db_env \<Rightarrow> 'j sticon_package_t \<Rightarrow> db \<Rightarrow> int \<times> db" where
  "enil_db_sticon_package_upsert E p D =
     (case sc_id p of
        None \<Rightarrow> (SQLITE_ERROR, D)
      | Some i \<Rightarrow>
          upsert_fields_with_raw E sticon_packages (\<lambda>t T. T\<lparr>sticon_packages := t\<rparr>) i (sticon_package_base p)
            sticon_package_fields [] (Some (sc_raw p)) D)"

section \<open>Message boxes\<close>

definition coalesce :: "'a option \<Rightarrow> 'a option \<Rightarrow> 'a option" where
  "coalesce x y = (case x of None \<Rightarrow> y | Some _ \<Rightarrow> x)"

definition ensure_box :: "'j db_env \<Rightarrow> string \<Rightarrow> db \<Rightarrow> int \<times> db" where
  "ensure_box E k D =
     exec_stmt E (\<lambda>T. let (t, n) = insert_ignore k empty_box (boxes T) in (T\<lparr>boxes := t\<rparr>, n)) D"

definition update_box :: "'j db_env \<Rightarrow> (string \<Rightarrow> box_row \<Rightarrow> bool) \<Rightarrow> (tables \<Rightarrow> box_row \<Rightarrow> box_row) \<Rightarrow> db \<Rightarrow> int \<times> db" where
  "update_box E P f D =
     exec_stmt E (\<lambda>T. let (t, n) = update_where P (f T) (boxes T) in (T\<lparr>boxes := t\<rparr>, n)) D"

definition enil_db_message_box_upsert :: "'j db_env \<Rightarrow> 'j talk_message_box_t \<Rightarrow> db \<Rightarrow> int \<times> db" where
  "enil_db_message_box_upsert E mb D =
     (case ensure_box E (mb_id mb) D of
        (rc, D1) \<Rightarrow>
          if rc \<noteq> SQLITE_OK then (rc, D1)
          else update_box E (\<lambda>k b. k = mb_id mb)
            (\<lambda>T b. b\<lparr>b_midType := Some (mb_midType mb), b_lastDeliveredMessageId := mb_lastDeliveredMessageId mb,
                     b_lastDeliveredTime := Some (mb_lastDeliveredTime mb),
                     b_lastSeenMessageId := coalesce (mb_lastSeenMessageId mb) (b_lastSeenMessageId b),
                     b_unreadCount := Some (mb_unreadCount mb),
                     b_raw_json := Some (printText (dj E) (mb_raw mb))\<rparr>) D1)"

text \<open>
  A live message: it counts as unread (or, when it is one's own, clears the count) only if it is not
  stored yet, so a message delivered again does not count again.
\<close>

definition live_unread :: "tables \<Rightarrow> string option \<Rightarrow> bool \<Rightarrow> int option \<Rightarrow> int option" where
  "live_unread T message_id incoming unread =
     (if nonempty message_id \<and> the message_id \<notin> set (map fst (messages T))
      then Some (if incoming then (case unread of None \<Rightarrow> 0 | Some n \<Rightarrow> n) + 1 else 0)
      else unread)"

definition enil_db_message_box_upsert_live_message ::
  "'j db_env \<Rightarrow> string option \<Rightarrow> int \<Rightarrow> string option \<Rightarrow> int \<Rightarrow> bool \<Rightarrow> string option \<Rightarrow> db \<Rightarrow> int \<times> db" where
  "enil_db_message_box_upsert_live_message E chat_mid mid_type last_id last_time incoming message_id D =
     (case chat_mid of
        None \<Rightarrow> (SQLITE_ERROR, D)
      | Some c \<Rightarrow>
          (case ensure_box E c D of
             (rc, D1) \<Rightarrow>
               if rc \<noteq> SQLITE_OK then (rc, D1)
               else update_box E (\<lambda>k b. k = c)
                 (\<lambda>T b. b\<lparr>b_midType := Some mid_type, b_lastDeliveredMessageId := last_id,
                          b_lastDeliveredTime := Some last_time,
                          b_unreadCount := live_unread T message_id incoming (b_unreadCount b)\<rparr>) D1))"

definition enil_db_message_box_mark_seen :: "'j db_env \<Rightarrow> string option \<Rightarrow> string option \<Rightarrow> db \<Rightarrow> int \<times> db" where
  "enil_db_message_box_mark_seen E chat_mid message_id D =
     (case chat_mid of
        None \<Rightarrow> (SQLITE_ERROR, D)
      | Some c \<Rightarrow> update_box E (\<lambda>k b. k = c) (\<lambda>T b. b\<lparr>b_unreadCount := Some 0, b_lastSeenMessageId := message_id\<rparr>) D)"

text \<open>A peer's read mark only moves forward.\<close>

definition enil_db_message_box_set_peer_read ::
  "'j db_env \<Rightarrow> string option \<Rightarrow> string option \<Rightarrow> int \<Rightarrow> db \<Rightarrow> int \<times> db" where
  "enil_db_message_box_set_peer_read E chat_mid reader_mid read_time D =
     (if \<not> nonempty chat_mid then (SQLITE_ERROR, D)
      else update_box E
        (\<lambda>k b. k = the chat_mid \<and> (case b_peerLastReadTime b of None \<Rightarrow> True | Some t \<Rightarrow> t \<le> read_time))
        (\<lambda>T b. b\<lparr>b_peerLastReadTime := Some read_time, b_peerLastReaderMid := reader_mid\<rparr>) D)"

definition enil_db_message_box_get_peer_last_read_time :: "'j db_env \<Rightarrow> string \<Rightarrow> db \<Rightarrow> int \<times> db" where
  "enil_db_message_box_get_peer_last_read_time E chat_mid D =
     db_scalar_i64 E (\<lambda>T. map_option (\<lambda>b. case b_peerLastReadTime b of None \<Rightarrow> SNull | Some t \<Rightarrow> SInt t) (map_of (boxes T) chat_mid)) 0 D"

definition enil_db_message_box_last_delivered :: "'j db_env \<Rightarrow> string \<Rightarrow> db \<Rightarrow> string option \<times> db" where
  "enil_db_message_box_last_delivered E chat_mid D =
     db_scalar_text E (\<lambda>T. map_option (\<lambda>b. bind_text_or_null (b_lastDeliveredMessageId b)) (map_of (boxes T) chat_mid)) D"

definition enil_db_message_box_last_seen :: "'j db_env \<Rightarrow> string \<Rightarrow> db \<Rightarrow> string option \<times> db" where
  "enil_db_message_box_last_seen E chat_mid D =
     db_scalar_text E (\<lambda>T. map_option (\<lambda>b. bind_text_or_null (b_lastSeenMessageId b)) (map_of (boxes T) chat_mid)) D"

definition enil_db_message_box_unread_count :: "'j db_env \<Rightarrow> string \<Rightarrow> db \<Rightarrow> int \<times> db" where
  "enil_db_message_box_unread_count E chat_mid D =
     (let (n, D') = db_scalar_i64 E (\<lambda>T. map_option (\<lambda>b. case b_unreadCount b of None \<Rightarrow> SNull | Some t \<Rightarrow> SInt t) (map_of (boxes T) chat_mid)) 0 D
      in (if n < 0 then 0 else wrap32 n, D'))"

definition enil_db_message_box_last_delivered_time :: "'j db_env \<Rightarrow> string \<Rightarrow> db \<Rightarrow> int \<times> db" where
  "enil_db_message_box_last_delivered_time E chat_mid D =
     (let (t, D') = db_scalar_i64 E (\<lambda>T. map_option (\<lambda>b. case b_lastDeliveredTime b of None \<Rightarrow> SNull | Some t \<Rightarrow> SInt t) (map_of (boxes T) chat_mid)) 0 D
      in (if 0 < t then t else 0, D'))"

text \<open>One read mark per chat and member, replaced unless a later one is stored.\<close>

definition enil_db_message_box_set_group_reader ::
  "'j db_env \<Rightarrow> string option \<Rightarrow> string option \<Rightarrow> int \<Rightarrow> db \<Rightarrow> int \<times> db" where
  "enil_db_message_box_set_group_reader E chat_mid reader_mid read_time D =
     (if \<not> nonempty chat_mid \<or> \<not> nonempty reader_mid then (SQLITE_ERROR, D)
      else exec_stmt E (\<lambda>T.
        let k = (the chat_mid, the reader_mid)
        in if (case map_of (readers T) k of None \<Rightarrow> False | Some t \<Rightarrow> read_time < t) then (T, 0)
           else let (t, n) = insert_replace k read_time (readers T) in (T\<lparr>readers := t\<rparr>, n)) D)"

section \<open>Products and their items\<close>

text \<open>A package met in a message: only its id is known.  \<open>isPurchased\<close> is the column before \<open>raw_json\<close>.\<close>

definition enil_db_sticker_package_discover :: "'j db_env \<Rightarrow> string option \<Rightarrow> db \<Rightarrow> int \<times> db" where
  "enil_db_sticker_package_discover E pkg D =
     (if \<not> nonempty pkg then (SQLITE_ERROR, D)
      else exec_stmt E (\<lambda>T. let (t, n) = insert_ignore (the pkg) (SText (the pkg) # replicate 16 SNull @ [SInt 0, SNull]) (sticker_packages T)
                            in (T\<lparr>sticker_packages := t\<rparr>, n)) D)"

definition enil_db_sticon_package_discover :: "'j db_env \<Rightarrow> string option \<Rightarrow> db \<Rightarrow> int \<times> db" where
  "enil_db_sticon_package_discover E pkg D =
     (if \<not> nonempty pkg then (SQLITE_ERROR, D)
      else exec_stmt E (\<lambda>T. let (t, n) = insert_ignore (the pkg) (SText (the pkg) # replicate 14 SNull @ [SInt 0, SNull]) (sticon_packages T)
                            in (T\<lparr>sticon_packages := t\<rparr>, n)) D)"

definition enil_db_sticker_upsert ::
  "'j db_env \<Rightarrow> string option \<Rightarrow> string option \<Rightarrow> string option \<Rightarrow> string option \<Rightarrow> db \<Rightarrow> int \<times> db" where
  "enil_db_sticker_upsert E sticker pkg opt hsh D =
     (case (sticker, pkg) of
        (Some s, Some p) \<Rightarrow>
          exec_stmt E (\<lambda>T.
            let (t, n) = insert_update (s, p) (empty_item\<lparr>i_option := opt, i_hash := hsh\<rparr>)
                           (\<lambda>r. r\<lparr>i_option := coalesce opt (i_option r), i_hash := coalesce hsh (i_hash r)\<rparr>) (stickers T)
            in (T\<lparr>stickers := t\<rparr>, n)) D
      | _ \<Rightarrow> (SQLITE_ERROR, D))"

definition enil_db_sticon_upsert ::
  "'j db_env \<Rightarrow> string option \<Rightarrow> string option \<Rightarrow> string option \<Rightarrow> db \<Rightarrow> int \<times> db" where
  "enil_db_sticon_upsert E sticon pkg alt D =
     (case (sticon, pkg) of
        (Some s, Some p) \<Rightarrow>
          exec_stmt E (\<lambda>T.
            let (t, n) = insert_update (s, p) (empty_item\<lparr>i_alt_text := alt\<rparr>)
                           (\<lambda>r. r\<lparr>i_alt_text := coalesce alt (i_alt_text r)\<rparr>) (sticons T)
            in (T\<lparr>sticons := t\<rparr>, n)) D
      | _ \<Rightarrow> (SQLITE_ERROR, D))"

text \<open>The columns of \<open>sticon_packages_v2\<close> the code asks for by name.\<close>

definition sticon_type_column :: nat where "sticon_type_column = 11"
definition sticon_purchased_column :: nat where "sticon_purchased_column = 15"

definition enil_db_sticon_package_set_resource_type :: "'j db_env \<Rightarrow> string option \<Rightarrow> int \<Rightarrow> db \<Rightarrow> int \<times> db" where
  "enil_db_sticon_package_set_resource_type E pkg ty D =
     (if \<not> nonempty pkg then (SQLITE_ERROR, D)
      else exec_stmt E (\<lambda>T.
        let (t, n) = update_where (\<lambda>k row. k = the pkg \<and> row ! sticon_type_column = SNull)
                       (\<lambda>row. row[sticon_type_column := SInt ty]) (sticon_packages T)
        in (T\<lparr>sticon_packages := t\<rparr>, n)) D)"

definition enil_db_set_sticon_alt_text ::
  "'j db_env \<Rightarrow> string option \<Rightarrow> string option \<Rightarrow> string option \<Rightarrow> db \<Rightarrow> int \<times> db" where
  "enil_db_set_sticon_alt_text E sticon pkg alt D =
     (case (sticon, pkg) of
        (Some s, Some p) \<Rightarrow>
          if \<not> nonempty alt then (SQLITE_ERROR, D)
          else exec_stmt E (\<lambda>T.
            let (t, n) = update_where (\<lambda>k r. k = (s, p) \<and> i_alt_text r = None) (\<lambda>r. r\<lparr>i_alt_text := alt\<rparr>) (sticons T)
            in (T\<lparr>sticons := t\<rparr>, n)) D
      | _ \<Rightarrow> (SQLITE_ERROR, D))"

text \<open>Both paths of an item and their sizes in one statement; null paths withdraw them.\<close>

definition enil_db_set_sticker_asset ::
  "'j db_env \<Rightarrow> bool \<Rightarrow> string \<Rightarrow> string \<Rightarrow> string option \<Rightarrow> int \<Rightarrow> int \<Rightarrow> string option \<Rightarrow> int \<Rightarrow> int \<Rightarrow> db \<Rightarrow> int \<times> db" where
  "enil_db_set_sticker_asset E sticon item pkg img w h thumb tw th D =
     exec_stmt E (\<lambda>T.
       let set_row = (\<lambda>r. r\<lparr>i_image_path := img, i_image_width := Some w, i_image_height := Some h,
                            i_thumb_path := thumb, i_thumb_width := Some tw, i_thumb_height := Some th\<rparr>);
           upd = update_where (\<lambda>k r. k = (item, pkg)) set_row
       in if sticon then (let (t, n) = upd (sticons T) in (T\<lparr>sticons := t\<rparr>, n))
          else (let (t, n) = upd (stickers T) in (T\<lparr>stickers := t\<rparr>, n))) D"

text \<open>Whether a package still needs its meta file: 1 to expand an owned one, 2 to name known items, 0 for neither.\<close>

definition enil_db_sticon_package_meta_state :: "'j db_env \<Rightarrow> string option \<Rightarrow> db \<Rightarrow> int \<times> db" where
  "enil_db_sticon_package_meta_state E pkg D =
     (if \<not> nonempty pkg then (0, D)
      else
        (let (v, D') = query E (\<lambda>T. map_option (\<lambda>row.
                (column_int (row ! sticon_purchased_column) \<noteq> 0,
                 filter (\<lambda>((s, p), r). p = the pkg) (sticons T))) (map_of (sticon_packages T) (the pkg))) D
         in (case Option.bind v id of
               None \<Rightarrow> 0
             | Some (purchased, items) \<Rightarrow>
                 if purchased \<and> items = [] then 1
                 else if \<not> purchased \<and> list_ex (\<lambda>i. i_alt_text (snd i) = None) items then 2
                 else 0, D')))"

section \<open>Event logs\<close>

definition enil_db_talk_exception_record :: "'j db_env \<Rightarrow> int \<Rightarrow> int \<Rightarrow> string option \<Rightarrow> string option \<Rightarrow> db \<Rightarrow> int \<times> db" where
  "enil_db_talk_exception_record E received_at code reason raw_json D =
     exec_stmt E (\<lambda>T. (T\<lparr>talk_exceptions := talk_exceptions T @
       [[SInt received_at, SInt code, bind_text_or_null reason, bind_text_or_null raw_json]]\<rparr>, 1)) D"

definition enil_db_sse_event_record ::
  "'j db_env \<Rightarrow> int \<Rightarrow> string option \<Rightarrow> int \<Rightarrow> string option \<Rightarrow> int \<Rightarrow> string option \<Rightarrow> bool \<Rightarrow> string option \<Rightarrow> db \<Rightarrow> int \<times> db" where
  "enil_db_sse_event_record E received_at event_type op_type' op_name revision chat_id handled raw_json D =
     exec_stmt E (\<lambda>T. (T\<lparr>sse_events := sse_events T @
       [[SInt received_at, bind_text_or_null event_type, (if 0 \<le> op_type' then SInt op_type' else SNull),
         bind_text_or_null op_name, (if 0 < revision then SInt revision else SNull), bind_text_or_null chat_id,
         SText (if handled then ''YES'' else ''NO''), bind_text_or_null raw_json]]\<rparr>, 1)) D"

end
