(* ===== verification/ENIL_DbMessages.thy ===== *)
theory ENIL_DbMessages
  imports ENIL_Db
begin

text \<open>
  \<open>source/shared/enil_db.c\<close>, second part: the messages.  Storing a message and what is kept of a message
  already stored, the outcome of a decryption, reactions, pages of a chat, read markers and the
  deletion of a chat.
\<close>

section \<open>What is taken from a message's metadata\<close>

definition ENIL_DECRYPT_PENDING :: int where "ENIL_DECRYPT_PENDING = 0"
definition ENIL_DECRYPT_PLAINTEXT :: int where "ENIL_DECRYPT_PLAINTEXT = 1"
definition ENIL_DECRYPT_SUCCESS :: int where "ENIL_DECRYPT_SUCCESS = 2"
definition ENIL_DECRYPT_FAILED :: int where "ENIL_DECRYPT_FAILED = 3"
definition ENIL_DECRYPT_NOT_TEXT :: int where "ENIL_DECRYPT_NOT_TEXT = 4"

definition extract_replace_json_from_meta :: "'j cjson \<Rightarrow> 'j \<Rightarrow> string option" where
  "extract_replace_json_from_meta J meta =
     (if \<not> isObject J meta then None
      else case getItem J meta ''REPLACE'' of
             None \<Rightarrow> None
           | Some r \<Rightarrow> if isString J r then Some (valuestring J r)
                       else if isObject J r then Some (printText J r) else None)"

record media_meta =
  mm_sid :: "string option"
  mm_oid :: "string option"
  mm_obs_pop :: "string option"
  mm_e2ee_version :: "string option"
  mm_plain_size :: int

definition parse_media_meta :: "'j cjson \<Rightarrow> 'j \<Rightarrow> media_meta" where
  "parse_media_meta J meta =
     (if \<not> isObject J meta
      then \<lparr>mm_sid = None, mm_oid = None, mm_obs_pop = None, mm_e2ee_version = None, mm_plain_size = 0\<rparr>
      else
        (let info = Option.bind (jstr J (getItem J meta ''MEDIA_CONTENT_INFO'')) (parseText J);
             file_size = jgeti J info ''fileSize''
         in \<lparr>mm_sid = jstr J (getItem J meta ''SID''), mm_oid = jstr J (getItem J meta ''OID''),
             mm_obs_pop = jstr J (getItem J meta ''OBS_POP''), mm_e2ee_version = jstr J (getItem J meta ''e2eeVersion''),
             mm_plain_size =
               (case file_size of
                  None \<Rightarrow> 0
                | Some s \<Rightarrow> if isNumber J s \<and> 0 < valuedouble J s then trunc (valuedouble J s) else 0)\<rparr>))"

text \<open>One reaction of the wire, in the shape it is stored in.\<close>

definition reaction_entry :: "'j cjson \<Rightarrow> 'j \<Rightarrow> 'j option" where
  "reaction_entry J child =
     (case (getItem J child ''fromUserMid'', getItem J child ''reactionType'') of
        (Some mid, Some rt) \<Rightarrow>
          if \<not> isString J mid \<or> \<not> isObject J rt then None
          else
            (let predef = getItem J rt ''predefinedReactionType'';
                 paid = keep_if (isObject J) (getItem J rt ''paidReactionType'');
                 at_millis = getItem J child ''atMillis''
             in Some (object_of J
                  ([(''reactorMid'', mkString J (valuestring J mid))]
                   @ (if jis (isNumber J) predef then [(''predefinedReactionType'', mkNumber J (valuedouble J (the predef)))] else [])
                   @ opt_str J ''productId'' (jstr J (jgeti J paid ''productId''))
                   @ opt_str J ''emojiId'' (jstr J (jgeti J paid ''emojiId''))
                   @ (if nonempty (jstr J at_millis)
                      then [(''createdTime'', mkNumber J (double_of_int (fst (strtoll10 (the (jstr J at_millis))))))]
                      else if jis (isNumber J) at_millis
                      then [(''createdTime'', mkNumber J (valuedouble J (the at_millis)))] else []))))
      | _ \<Rightarrow> None)"

text \<open>The stored text and whether the message carried a list of reactions at all.\<close>

definition reactions_extract_for_storage :: "'j cjson \<Rightarrow> 'j talk_message_t \<Rightarrow> string option \<times> bool" where
  "reactions_extract_for_storage J m =
     (case keep_if (isArray J) (jgeti J (keep_if (isObject J) (m_raw m)) ''reactions'') of
        None \<Rightarrow> (None, False)
      | Some arr \<Rightarrow>
          (let entries = List.map_filter (reaction_entry J) (map snd (children J arr))
           in (if entries = [] then None else Some (printText J (array_of J entries)), True)))"

section \<open>Sticons of a message\<close>

definition clear_message_sticons :: "'j db_env \<Rightarrow> string \<Rightarrow> db \<Rightarrow> int \<times> db" where
  "clear_message_sticons E mid D =
     exec_stmt E (\<lambda>T. let (t, n) = delete_where (\<lambda>k r. fst k = mid) (message_sticons T) in (T\<lparr>message_sticons := t\<rparr>, n)) D"

definition clear_message_sticon_packages :: "'j db_env \<Rightarrow> string \<Rightarrow> db \<Rightarrow> int \<times> db" where
  "clear_message_sticon_packages E mid D =
     exec_stmt E (\<lambda>T. let (t, n) = delete_where (\<lambda>k r. fst k = mid) (message_sticon_packages T)
                      in (T\<lparr>message_sticon_packages := t\<rparr>, n)) D"

definition insert_message_sticon ::
  "'j db_env \<Rightarrow> string \<Rightarrow> int \<Rightarrow> string option \<Rightarrow> string option \<Rightarrow> db \<Rightarrow> int \<times> db" where
  "insert_message_sticon E mid ordinal pkg sid D =
     (if \<not> nonempty pkg \<or> \<not> nonempty sid then (SQLITE_OK, D)
      else exec_stmt E (\<lambda>T. let (t, n) = insert_replace (mid, ordinal) (the pkg, the sid) (message_sticons T)
                            in (T\<lparr>message_sticons := t\<rparr>, n)) D)"

definition insert_message_sticon_package :: "'j db_env \<Rightarrow> string \<Rightarrow> string option \<Rightarrow> db \<Rightarrow> int \<times> db" where
  "insert_message_sticon_package E mid pkg D =
     (if \<not> nonempty pkg then (SQLITE_OK, D)
      else exec_stmt E (\<lambda>T. let (t, n) = insert_ignore (mid, the pkg) () (message_sticon_packages T)
                            in (T\<lparr>message_sticon_packages := t\<rparr>, n)) D)"

definition store_message_sticon_packages :: "'j db_env \<Rightarrow> string \<Rightarrow> string option \<Rightarrow> db \<Rightarrow> db" where
  "store_message_sticon_packages E mid ownership D =
     (if \<not> nonempty ownership then D
      else foldl (\<lambda>D item. snd (insert_message_sticon_package E mid (jstr (dj E) (Some item)) D)) D
             (map snd (jkids (dj E) (keep_if (isArray (dj E)) (parseText (dj E) (the ownership))))))"

text \<open>The resources of a REPLACE block.\<close>

definition replace_resources :: "'j cjson \<Rightarrow> string \<Rightarrow> 'j list" where
  "replace_resources J text =
     map snd (jkids J (keep_if (isArray J) (jgeti J (jgeti J (parseText J text) ''sticon'') ''resources'')))"

definition store_message_sticon :: "'j db_env \<Rightarrow> string \<Rightarrow> nat \<times> 'j \<Rightarrow> db \<Rightarrow> db" where
  "store_message_sticon E mid res D =
     (let J = dj E;
          pkg = jstr J (getItem J (snd res) ''productId'');
          sid = jstr J (getItem J (snd res) ''sticonId'');
          D1 = snd (insert_message_sticon E mid (int (fst res)) pkg sid D);
          D2 = snd (insert_message_sticon_package E mid pkg D1)
      in if nonempty pkg \<and> nonempty sid
         then snd (enil_db_sticon_upsert E sid pkg None (snd (enil_db_sticon_package_discover E pkg D2)))
         else D2)"

definition store_message_sticons :: "'j db_env \<Rightarrow> string \<Rightarrow> string option \<Rightarrow> db \<Rightarrow> db" where
  "store_message_sticons E mid replace_json D =
     (if \<not> nonempty replace_json then D
      else (let rs = replace_resources (dj E) (the replace_json)
            in foldl (\<lambda>D r. store_message_sticon E mid r D) D (zip [0..<length rs] rs)))"

text \<open>None of these writes is checked.\<close>

definition replace_message_sticon_rows :: "'j db_env \<Rightarrow> string \<Rightarrow> string option \<Rightarrow> string option \<Rightarrow> db \<Rightarrow> db" where
  "replace_message_sticon_rows E mid replace_json ownership D =
     store_message_sticons E mid replace_json
       (store_message_sticon_packages E mid ownership
         (snd (clear_message_sticon_packages E mid (snd (clear_message_sticons E mid D)))))"

section \<open>Storing a message\<close>

definition update_message :: "'j db_env \<Rightarrow> (string \<Rightarrow> message_row \<Rightarrow> bool) \<Rightarrow> (message_row \<Rightarrow> message_row) \<Rightarrow> db \<Rightarrow> int \<times> db" where
  "update_message E P f D =
     exec_stmt E (\<lambda>T. let (t, n) = update_where P f (messages T) in (T\<lparr>messages := t\<rparr>, n)) D"

definition fill_message_replace_json :: "'j db_env \<Rightarrow> string \<Rightarrow> string option \<Rightarrow> db \<Rightarrow> int \<times> db" where
  "fill_message_replace_json E mid replace_json D =
     (if \<not> nonempty replace_json then (SQLITE_OK, D)
      else update_message E (\<lambda>k r. k = mid \<and> \<not> nonempty (r_replace_json r)) (\<lambda>r. r\<lparr>r_replace_json := replace_json\<rparr>) D)"

text \<open>The row inserted for a message; the columns not named in the statement take their defaults.\<close>

definition new_message_row :: "'j cjson \<Rightarrow> 'j talk_message_t \<Rightarrow> message_row" where
  "new_message_row J m =
     (let meta = keep_if (isObject J) (m_contentMetadata m);
          media = (if m_contentType m = 1 then map_option (parse_media_meta J) meta else None);
          sticker = (if m_contentType m = 7 then meta else None)
      in \<lparr>r_from = m_from_mid m, r_to = m_to_mid m, r_toType = m_toType m, r_sessionId = m_sessionId m,
          r_createdTime = m_createdTime m, r_contentType = m_contentType m, r_hasContent = cbool (m_hasContent m),
          r_text = m_text m, r_contentMetadata = map_option (printText J) meta,
          r_chunks = map_option (printText J) (keep_if (isArray J) (m_chunks m)),
          r_relatedMessageId = m_relatedMessageId m, r_messageRelationType = m_messageRelationType m,
          r_relatedMessageServiceCode = m_relatedMessageServiceCode m, r_raw_json = map_option (printText J) (m_raw m),
          r_chat_id = the (m_chat_id m),
          r_decrypt_status = (if nonempty (m_text m) then ENIL_DECRYPT_PLAINTEXT else ENIL_DECRYPT_PENDING),
          r_replace_json = Option.bind meta (extract_replace_json_from_meta J),
          r_sticker_id = jstr J (jgeti J sticker ''STKID''), r_sticker_pkg_id = jstr J (jgeti J sticker ''STKPKGID''),
          r_sticon_ownership = jstr J (jgeti J meta ''STICON_OWNERSHIP''),
          r_enc_km = None, r_media_path = None,
          r_media_sid = Option.bind media mm_sid, r_media_oid = Option.bind media mm_oid,
          r_media_obs_pop = Option.bind media mm_obs_pop, r_media_e2ee_version = Option.bind media mm_e2ee_version,
          r_media_plain_size = (case media of None \<Rightarrow> 0 | Some mm \<Rightarrow> mm_plain_size mm),
          r_orig_width = 0, r_orig_height = 0, r_thumb_path = None, r_thumb_width = 0, r_thumb_height = 0,
          r_is_deleted = 0, r_reactions_json = fst (reactions_extract_for_storage J m)\<rparr>)"

definition coalesce_empty :: "string option \<Rightarrow> string option \<Rightarrow> string option" where
  "coalesce_empty x y = (if nonempty x then x else y)"

text \<open>
  The two follow-up writes on a row that was already there: the reactions of the server replace the
  stored ones, and a text fills a row that has none.  Each asks \<open>sqlite3_changes\<close> whether the last
  statement changed anything; their own failures are ignored.
\<close>

definition overwrite_reactions :: "'j db_env \<Rightarrow> 'j talk_message_t \<Rightarrow> string \<Rightarrow> db \<Rightarrow> db" where
  "overwrite_reactions E m mid D =
     (case reactions_extract_for_storage (dj E) m of
        (reactions, had) \<Rightarrow>
          if had \<and> changed D = 0
          then snd (update_message E (\<lambda>k r. k = mid) (\<lambda>r. r\<lparr>r_reactions_json := reactions\<rparr>) D) else D)"

definition fill_text :: "'j db_env \<Rightarrow> 'j talk_message_t \<Rightarrow> string \<Rightarrow> db \<Rightarrow> db" where
  "fill_text E m mid D =
     (let new = new_message_row (dj E) m
      in if changed D = 0 \<and> nonempty (m_text m)
         then snd (update_message E (\<lambda>k r. k = mid \<and> \<not> nonempty (r_text r))
           (\<lambda>r. r\<lparr>r_text := m_text m, r_contentMetadata := coalesce_empty (r_contentMetadata r) (r_contentMetadata new),
                  r_chunks := coalesce_empty (r_chunks r) (r_chunks new),
                  r_raw_json := coalesce_empty (r_raw_json r) (r_raw_json new),
                  r_decrypt_status := r_decrypt_status new\<rparr>) D)
         else D)"

definition enil_db_message_upsert :: "'j db_env \<Rightarrow> 'j talk_message_t \<Rightarrow> db \<Rightarrow> int \<times> db" where
  "enil_db_message_upsert E m D =
     (if \<not> nonempty (m_id m) \<or> \<not> nonempty (m_chat_id m) then (SQLITE_ERROR, D)
      else
        (let mid = the (m_id m); new = new_message_row (dj E) m;
             (rc, D1) = exec_stmt E (\<lambda>T. let (t, n) = insert_ignore mid new (messages T) in (T\<lparr>messages := t\<rparr>, n)) D
         in if rc \<noteq> SQLITE_OK then (rc, D1)
            else
              (let D2 = fill_text E m mid (overwrite_reactions E m mid D1)
               in case r_replace_json new of
                    None \<Rightarrow> (SQLITE_OK, D2)
                  | Some rj \<Rightarrow>
                      (case fill_message_replace_json E mid (Some rj) D2 of
                         (frc, D3) \<Rightarrow>
                           if frc \<noteq> SQLITE_OK then (frc, D3)
                           else (SQLITE_OK, replace_message_sticon_rows E mid (Some rj) (r_sticon_ownership new) D3)))))"

section \<open>Decryption, media and deletion marks\<close>

definition enil_db_set_message_text :: "'j db_env \<Rightarrow> string option \<Rightarrow> string option \<Rightarrow> int \<Rightarrow> db \<Rightarrow> int \<times> db" where
  "enil_db_set_message_text E message_id txt st D =
     (case message_id of
        None \<Rightarrow> (SQLITE_ERROR, D)
      | Some i \<Rightarrow> update_message E (\<lambda>k r. k = i) (\<lambda>r. r\<lparr>r_text := txt, r_decrypt_status := st\<rparr>) D)"

definition enil_db_set_message_raw_json ::
  "'j db_env \<Rightarrow> string option \<Rightarrow> string option \<Rightarrow> string option \<Rightarrow> db \<Rightarrow> int \<times> db" where
  "enil_db_set_message_raw_json E message_id raw_json replace_json D =
     (case (message_id, raw_json) of
        (Some i, Some raw) \<Rightarrow>
          (case update_message E (\<lambda>k r. k = i) (\<lambda>r. r\<lparr>r_raw_json := Some raw, r_replace_json := replace_json\<rparr>) D of
             (rc, D1) \<Rightarrow>
               if rc \<noteq> SQLITE_OK then (rc, D1)
               else (SQLITE_OK, replace_message_sticon_rows E i replace_json
                       (jstr (dj E) (jgeti (dj E) (jgeti (dj E) (parseText (dj E) raw) ''contentMetadata'') ''STICON_OWNERSHIP'')) D1))
      | _ \<Rightarrow> (SQLITE_ERROR, D))"

definition enil_db_set_message_plaintext ::
  "'j db_env \<Rightarrow> string option \<Rightarrow> string option \<Rightarrow> string option \<Rightarrow> string option \<Rightarrow> int \<Rightarrow> db \<Rightarrow> int \<times> db" where
  "enil_db_set_message_plaintext E message_id txt raw_json replace_json st D =
     (case (message_id, raw_json) of
        (Some i, Some raw) \<Rightarrow>
          (case update_message E (\<lambda>k r. k = i)
                  (\<lambda>r. r\<lparr>r_text := txt, r_raw_json := Some raw, r_decrypt_status := st, r_replace_json := replace_json\<rparr>) D of
             (rc, D1) \<Rightarrow>
               if rc \<noteq> SQLITE_OK then (rc, D1)
               else (SQLITE_OK, replace_message_sticon_rows E i replace_json None D1))
      | _ \<Rightarrow> (SQLITE_ERROR, D))"

definition enil_db_set_message_enc_km :: "'j db_env \<Rightarrow> string option \<Rightarrow> string option \<Rightarrow> db \<Rightarrow> int \<times> db" where
  "enil_db_set_message_enc_km E message_id enc_km D =
     (case (message_id, enc_km) of
        (Some i, Some km) \<Rightarrow> update_message E (\<lambda>k r. k = i) (\<lambda>r. r\<lparr>r_enc_km := Some km, r_decrypt_status := ENIL_DECRYPT_SUCCESS\<rparr>) D
      | _ \<Rightarrow> (SQLITE_ERROR, D))"

definition enil_db_message_mark_deleted :: "'j db_env \<Rightarrow> string option \<Rightarrow> db \<Rightarrow> int \<times> db" where
  "enil_db_message_mark_deleted E message_id D =
     (case message_id of
        None \<Rightarrow> (SQLITE_ERROR, D)
      | Some i \<Rightarrow> update_message E (\<lambda>k r. k = i) (\<lambda>r. r\<lparr>r_is_deleted := 1\<rparr>) D)"

definition enil_db_set_media_info ::
  "'j db_env \<Rightarrow> string option \<Rightarrow> string option \<Rightarrow> int \<Rightarrow> int \<Rightarrow> string option \<Rightarrow> int \<Rightarrow> int \<Rightarrow> db \<Rightarrow> int \<times> db" where
  "enil_db_set_media_info E message_id media w h thumb tw th D =
     (case message_id of
        None \<Rightarrow> (SQLITE_ERROR, D)
      | Some i \<Rightarrow> update_message E (\<lambda>k r. k = i)
          (\<lambda>r. r\<lparr>r_media_path := media, r_orig_width := w, r_orig_height := h,
                 r_thumb_path := thumb, r_thumb_width := tw, r_thumb_height := th\<rparr>) D)"

text \<open>What is still to decrypt: never attempted, or failed before (a retry is harmless).\<close>

definition enil_db_get_messages_needing_decrypt :: "'j db_env \<Rightarrow> db \<Rightarrow> (string \<times> string) list option \<times> db" where
  "enil_db_get_messages_needing_decrypt E D =
     query E (\<lambda>T. List.map_filter (\<lambda>(i, r).
       if r_decrypt_status r \<in> {ENIL_DECRYPT_PENDING, ENIL_DECRYPT_FAILED} \<and> r_raw_json r \<noteq> None
       then Some (i, the (r_raw_json r)) else None) (messages T)) D"

section \<open>Reactions\<close>

text \<open>The stored list without one reactor's entry, and whether there was one.\<close>

definition drop_reactor :: "'j cjson \<Rightarrow> string \<Rightarrow> 'j list \<Rightarrow> 'j list \<times> bool" where
  "drop_reactor J reactor js =
     (let other = (\<lambda>item. jstr J (getItem J item ''reactorMid'') \<noteq> Some reactor)
      in (filter other js, list_ex (\<lambda>i. \<not> other i) js))"

definition new_reaction :: "'j cjson \<Rightarrow> string \<Rightarrow> int \<Rightarrow> string option \<Rightarrow> string option \<Rightarrow> int \<Rightarrow> 'j" where
  "new_reaction J reactor predefined product emoji created =
     object_of J
       ([(''reactorMid'', mkString J reactor)]
        @ (if 0 < predefined then [(''predefinedReactionType'', num J predefined)] else [])
        @ (if nonempty product then opt_str J ''productId'' product else [])
        @ (if nonempty emoji then opt_str J ''emojiId'' emoji else [])
        @ (if 0 < created then [(''createdTime'', mkNumber J (double_of_int created))] else []))"

definition stored_reactions :: "'j cjson \<Rightarrow> string option \<Rightarrow> 'j list" where
  "stored_reactions J txt =
     map snd (jkids J (keep_if (isArray J) (Option.bind (dup_or_null txt) (parseText J))))"

definition enil_db_message_reactions_update ::
  "'j db_env \<Rightarrow> string option \<Rightarrow> string option \<Rightarrow> bool \<Rightarrow> int \<Rightarrow> string option \<Rightarrow> string option \<Rightarrow> int \<Rightarrow> db \<Rightarrow> int \<times> db" where
  "enil_db_message_reactions_update E message_id reactor_mid is_remove predefined product emoji created D =
     (case (message_id, reactor_mid) of
        (Some i, Some reactor) \<Rightarrow>
          (let J = dj E
           in case query E (\<lambda>T. map_option r_reactions_json (map_of (messages T) i)) D of
                (None, D1) \<Rightarrow> (fault E (clock D), D1)
              | (Some None, D1) \<Rightarrow> (SQLITE_OK, D1)
              | (Some (Some txt), D1) \<Rightarrow>
                  (let (others, removed) = drop_reactor J reactor (stored_reactions J txt);
                       arr = (if is_remove then others
                              else others @ [new_reaction J reactor predefined product emoji created])
                   in if is_remove \<and> \<not> removed then (SQLITE_OK, D1)
                      else update_message E (\<lambda>k r. k = i)
                        (\<lambda>r. r\<lparr>r_reactions_json := (if arr = [] then None else Some (printText J (array_of J arr)))\<rparr>) D1))
      | _ \<Rightarrow> (SQLITE_ERROR, D))"

section \<open>Pages of a chat\<close>

text \<open>
  One page, oldest first, and whether older messages remain: the newest \<open>limit + 1\<close> rows before a time
  (0 for the newest page) are asked for, and the extra one is dropped.  \<open>newest_first\<close> is SQLite's
  \<open>ORDER BY createdTime DESC\<close>, whose order of equal times is SQLite's choice.
\<close>

definition enil_db_message_rows_get_page ::
  "'j db_env \<Rightarrow> string \<Rightarrow> int \<Rightarrow> nat \<Rightarrow> db \<Rightarrow> ((string \<times> message_row) list \<times> bool) option \<times> db" where
  "enil_db_message_rows_get_page E chat_id before limit D =
     (if limit = 0 then (None, D)
      else
        (let (v, D') = query E (\<lambda>T. take (limit + 1) (newest_first E
               (filter (\<lambda>(i, r). r_chat_id r = chat_id \<and> (before = 0 \<or> r_createdTime r < before)) (messages T)))) D
         in (map_option (\<lambda>rows. (rev (take limit rows), limit < length rows)) v, D')))"

text \<open>The last own message a peer has read.\<close>

definition last_own_before :: "'j db_env \<Rightarrow> tables \<Rightarrow> string \<Rightarrow> string \<Rightarrow> int \<Rightarrow> string option" where
  "last_own_before E T chat_id my_mid t =
     (case newest_first E (filter (\<lambda>(i, r). r_chat_id r = chat_id \<and> r_from r = Some my_mid \<and> r_is_deleted r = 0 \<and>
                                     r_createdTime r \<le> t) (messages T)) of
        [] \<Rightarrow> None
      | (i, r) # _ \<Rightarrow> Some i)"

definition enil_db_last_read_outgoing_msg_id ::
  "'j db_env \<Rightarrow> string option \<Rightarrow> string option \<Rightarrow> db \<Rightarrow> string option \<times> db" where
  "enil_db_last_read_outgoing_msg_id E chat_mid my_mid D =
     (if \<not> nonempty chat_mid \<or> \<not> nonempty my_mid then (None, D)
      else
        (let (v, D') = query E (\<lambda>T.
               case Option.bind (map_of (boxes T) (the chat_mid)) b_peerLastReadTime of
                 None \<Rightarrow> None
               | Some t \<Rightarrow> last_own_before E T (the chat_mid) (the my_mid) t) D
         in (dup_or_null (Option.bind v id), D')))"

text \<open>The members of a group with the last own message each has read; names fall back to the mid.\<close>

definition contact_name :: "tables \<Rightarrow> string \<Rightarrow> string option" where
  "contact_name T mid =
     Option.bind (map_of (contacts T) mid) (\<lambda>row. coalesce (column_text (row ! 2)) (column_text (row ! 1)))"

definition enil_db_message_box_get_group_readers ::
  "'j db_env \<Rightarrow> string option \<Rightarrow> string option \<Rightarrow> db \<Rightarrow> (string \<times> string \<times> string) list option \<times> db" where
  "enil_db_message_box_get_group_readers E chat_mid my_mid D =
     (if \<not> nonempty chat_mid \<or> \<not> nonempty my_mid then (None, D)
      else query E (\<lambda>T. List.map_filter (\<lambda>((c, reader), t).
             if c = the chat_mid \<and> reader \<noteq> the my_mid
             then (case dup_or_null (last_own_before E T c (the my_mid) t) of
                     None \<Rightarrow> None
                   | Some m \<Rightarrow> Some (reader, (case contact_name T reader of None \<Rightarrow> reader | Some n \<Rightarrow> n), m))
             else None) (readers T)) D)"

section \<open>Deleting a chat\<close>

text \<open>Five deletes in one transaction; the first failure takes everything back.\<close>

definition chat_messages :: "tables \<Rightarrow> string \<Rightarrow> string list" where
  "chat_messages T c = map fst (filter (\<lambda>(i, r). r_chat_id r = c) (messages T))"

definition chat_deletes :: "string \<Rightarrow> (tables \<Rightarrow> tables \<times> nat) list" where
  "chat_deletes c =
     [\<lambda>T. let (t, n) = delete_where (\<lambda>k r. fst k \<in> set (chat_messages T c)) (message_sticons T) in (T\<lparr>message_sticons := t\<rparr>, n),
      \<lambda>T. let (t, n) = delete_where (\<lambda>k r. fst k \<in> set (chat_messages T c)) (message_sticon_packages T) in (T\<lparr>message_sticon_packages := t\<rparr>, n),
      \<lambda>T. let (t, n) = delete_where (\<lambda>k r. r_chat_id r = c) (messages T) in (T\<lparr>messages := t\<rparr>, n),
      \<lambda>T. let (t, n) = delete_where (\<lambda>k r. k = c) (boxes T) in (T\<lparr>boxes := t\<rparr>, n),
      \<lambda>T. let (t, n) = delete_where (\<lambda>k r. k = c) (chats T) in (T\<lparr>chats := t\<rparr>, n)]"

fun exec_all :: "'j db_env \<Rightarrow> (tables \<Rightarrow> tables \<times> nat) list \<Rightarrow> db \<Rightarrow> int \<times> db" where
  "exec_all E [] D = (SQLITE_OK, D)"
| "exec_all E (f # fs) D =
     (case exec_stmt E f D of (rc, D1) \<Rightarrow> if rc \<noteq> SQLITE_OK then (rc, rollback D1) else exec_all E fs D1)"

definition enil_db_chat_delete :: "'j db_env \<Rightarrow> string option \<Rightarrow> db \<Rightarrow> int \<times> db" where
  "enil_db_chat_delete E chat_mid D =
     (case chat_mid of
        None \<Rightarrow> (SQLITE_ERROR, D)
      | Some c \<Rightarrow>
          (case begin_transaction E D of
             (rc, D1) \<Rightarrow>
               if rc \<noteq> SQLITE_OK then (rc, D1)
               else (case exec_all E (chat_deletes c) D1 of
                       (rc2, D2) \<Rightarrow> if rc2 \<noteq> SQLITE_OK then (rc2, D2) else release E D2)))"

end
