(* ===== verification/ENIL_DbFacts.thy ===== *)
theory ENIL_DbFacts
  imports ENIL_DbMessages "HOL-Library.Multiset"
begin

text \<open>
  What the database keeps, whatever statements fail: nothing stored is lost or rewritten behind the
  user's back (\<open>db_history_grows\<close>), what a stored message keeps when it arrives again
  (\<open>message_upsert_row\<close>), and what the pages of a chat contain (\<open>message_page_exact\<close>,
  \<open>message_pages_complete\<close>).
\<close>

section \<open>Statements that respect an order on the tables\<close>

locale table_order =
  fixes le :: "tables \<Rightarrow> tables \<Rightarrow> bool"
  assumes refl: "le T T"
    and trans: "le T U \<Longrightarrow> le U V \<Longrightarrow> le T V"
begin

lemma exec_le: "(\<And>T. le T (fst (f T))) \<Longrightarrow> le (tbl D) (tbl (snd (exec_stmt E f D)))"
  by (simp add: exec_stmt_def Let_def refl)

lemma step_le: "le (tbl D) (tbl (snd (f D))) \<Longrightarrow> le T (tbl D) \<Longrightarrow> le T (tbl (snd (f D)))"
  by (rule trans)

lemma foldl_le:
  assumes "\<And>D x. le (tbl D) (tbl (f D x))"
  shows "le (tbl D) (tbl (foldl f D xs))"
proof (induction xs arbitrary: D)
  case (Cons x xs)
  then show ?case using assms trans by (metis foldl_Cons)
qed (simp add: refl)

end

text \<open>A query changes no table.\<close>

lemma tbl_query [simp]: "tbl (snd (query E q D)) = tbl D" "query E q D = (v, D') \<Longrightarrow> tbl D' = tbl D"
  by (auto simp: query_def Let_def split: if_splits)

section \<open>What only grows\<close>

definition row_kept :: "message_row \<Rightarrow> message_row \<Rightarrow> bool" where
  "row_kept r r' \<longleftrightarrow>
     r_from r' = r_from r \<and> r_to r' = r_to r \<and> r_chat_id r' = r_chat_id r \<and> r_createdTime r' = r_createdTime r \<and>
     r_contentType r' = r_contentType r \<and> (r_is_deleted r = 1 \<longrightarrow> r_is_deleted r' = 1)"

definition box_kept :: "box_row \<Rightarrow> box_row \<Rightarrow> bool" where
  "box_kept b b' \<longleftrightarrow>
     (case b_peerLastReadTime b of None \<Rightarrow> True
      | Some t \<Rightarrow> (case b_peerLastReadTime b' of None \<Rightarrow> False | Some t' \<Rightarrow> t \<le> t'))"

definition grows :: "tables \<Rightarrow> tables \<Rightarrow> bool" where
  "grows T T' \<longleftrightarrow>
     (keyed (messages T) \<longrightarrow> keyed (messages T')) \<and> (keyed (boxes T) \<longrightarrow> keyed (boxes T')) \<and>
     (keyed (readers T) \<longrightarrow> keyed (readers T')) \<and>
     (\<forall>i r. map_of (messages T) i = Some r \<longrightarrow> (\<exists>r'. map_of (messages T') i = Some r' \<and> row_kept r r')) \<and>
     (\<forall>c b. map_of (boxes T) c = Some b \<longrightarrow> (\<exists>b'. map_of (boxes T') c = Some b' \<and> box_kept b b')) \<and>
     (\<forall>k t. map_of (readers T) k = Some t \<longrightarrow> (\<exists>t'. map_of (readers T') k = Some t' \<and> t \<le> t'))"

lemma row_kept_refl [simp]: "row_kept r r"
  by (simp add: row_kept_def)

lemma box_kept_refl [simp]: "box_kept b b"
  by (simp add: box_kept_def split: option.splits)

lemma row_kept_trans: "row_kept r s \<Longrightarrow> row_kept s t \<Longrightarrow> row_kept r t"
  by (simp add: row_kept_def)

lemma box_kept_trans: "box_kept r s \<Longrightarrow> box_kept s t \<Longrightarrow> box_kept r t"
  by (auto simp: box_kept_def split: option.splits)

interpretation grow: table_order grows
proof
  show "grows T T" for T by (simp add: grows_def)
next
  show "grows T V" if "grows T U" and "grows U V" for T U V
    unfolding grows_def
  proof (intro conjI allI impI)
    show "\<exists>r'. map_of (messages V) i = Some r' \<and> row_kept r r'" if "map_of (messages T) i = Some r" for i r
      using \<open>grows T U\<close> \<open>grows U V\<close> that unfolding grows_def by (meson row_kept_trans)
    show "\<exists>b'. map_of (boxes V) c = Some b' \<and> box_kept b b'" if "map_of (boxes T) c = Some b" for c b
      using \<open>grows T U\<close> \<open>grows U V\<close> that unfolding grows_def by (meson box_kept_trans)
    show "\<exists>t'. map_of (readers V) k = Some t' \<and> t \<le> t'" if "map_of (readers T) k = Some t" for k t
      using \<open>grows T U\<close> \<open>grows U V\<close> that unfolding grows_def by (meson order_trans)
  qed (use that in \<open>simp_all add: grows_def\<close>)
qed

text \<open>The three kinds of statements on the tables \<open>grows\<close> speaks of, and any statement on the others.\<close>

lemma grows_other:
  "messages T' = messages T \<Longrightarrow> boxes T' = boxes T \<Longrightarrow> readers T' = readers T \<Longrightarrow> grows T T'"
  by (simp add: grows_def)

lemma grows_messages:
  assumes "messages T' = fst (update_where P f (messages T)) \<or> (\<exists>i r. messages T' = fst (insert_ignore i r (messages T)))"
    and "boxes T' = boxes T" and "readers T' = readers T" and "\<And>r. row_kept r (f r)"
  shows "grows T T'"
  using assms unfolding grows_def by (auto simp: lookups keyeds)

lemma grows_boxes:
  assumes "boxes T' = fst (update_where P f (boxes T)) \<or> (\<exists>i r. boxes T' = fst (insert_ignore i r (boxes T)))"
    and "messages T' = messages T" and "readers T' = readers T" and "\<And>k b. P k b \<Longrightarrow> box_kept b (f b)"
  shows "grows T T'"
  using assms unfolding grows_def by (auto simp: lookups keyeds)

lemma grows_readers:
  assumes "readers T' = fst (insert_replace k t (readers T))" and "messages T' = messages T" and "boxes T' = boxes T"
    and "case map_of (readers T) k of None \<Rightarrow> True | Some t' \<Rightarrow> t' \<le> t"
  shows "grows T T'"
  using assms unfolding grows_def by (auto simp: lookups keyeds)

lemma update_message_grows:
  "(\<And>r. row_kept r (f r)) \<Longrightarrow> grows (tbl D) (tbl (snd (update_message E P f D)))"
  unfolding update_message_def
  by (rule grow.exec_le) (auto simp: Let_def case_prod_unfold intro!: grows_messages [where P = P and f = f])

lemma update_box_grows:
  "(\<And>T k b. P k b \<Longrightarrow> box_kept b (f T b)) \<Longrightarrow> grows (tbl D) (tbl (snd (update_box E P f D)))"
  unfolding update_box_def
  by (rule grow.exec_le) (auto simp: Let_def case_prod_unfold intro!: grows_boxes [where P = P])

lemma ensure_box_grows: "grows (tbl D) (tbl (snd (ensure_box E k D)))"
  unfolding ensure_box_def
proof (rule grow.exec_le)
  show "grows T (fst (let (t, n) = insert_ignore k empty_box (boxes T) in (T\<lparr>boxes := t\<rparr>, n)))" for T
    by (rule grows_boxes [where P = "\<lambda>_ _. False" and f = "\<lambda>b. b"]) (auto simp: Let_def case_prod_unfold)
qed

section \<open>Frames\<close>

text \<open>The writes on sticons and packages leave messages, boxes and read marks alone.\<close>

definition same_chats :: "tables \<Rightarrow> tables \<Rightarrow> bool" where
  "same_chats T T' \<longleftrightarrow> messages T' = messages T \<and> boxes T' = boxes T \<and> readers T' = readers T"

interpretation frame: table_order same_chats
  by unfold_locales (auto simp: same_chats_def)

lemma same_chats_grows: "same_chats T T' \<Longrightarrow> grows T T'"
  by (simp add: same_chats_def grows_other)

lemma sticon_writes_frame:
  "same_chats (tbl D) (tbl (snd (clear_message_sticons E mid D)))"
  "same_chats (tbl D) (tbl (snd (clear_message_sticon_packages E mid D)))"
  "same_chats (tbl D) (tbl (snd (insert_message_sticon E mid n pkg sid D)))"
  "same_chats (tbl D) (tbl (snd (insert_message_sticon_package E mid pkg D)))"
  "same_chats (tbl D) (tbl (snd (enil_db_sticon_package_discover E pkg D)))"
  "same_chats (tbl D) (tbl (snd (enil_db_sticker_package_discover E pkg D)))"
  "same_chats (tbl D) (tbl (snd (enil_db_sticon_upsert E sid pkg alt D)))"
  "same_chats (tbl D) (tbl (snd (enil_db_sticker_upsert E sid pkg opt hsh D)))"
  unfolding clear_message_sticons_def clear_message_sticon_packages_def insert_message_sticon_def
    insert_message_sticon_package_def enil_db_sticon_package_discover_def enil_db_sticker_package_discover_def
    enil_db_sticon_upsert_def enil_db_sticker_upsert_def
  by (auto simp: Let_def case_prod_unfold same_chats_def exec_stmt_def split: option.splits)

lemmas sticon_writes_after = sticon_writes_frame [THEN frame.trans [rotated]]

lemma store_message_sticon_frame: "same_chats (tbl D) (tbl (store_message_sticon E mid res D))"
  unfolding store_message_sticon_def Let_def
  by (auto intro!: sticon_writes_after frame.refl)

lemma replace_message_sticon_rows_frame: "same_chats (tbl D) (tbl (replace_message_sticon_rows E mid rj own D))"
proof -
  have packages: "same_chats (tbl D) (tbl (store_message_sticon_packages E mid own D))" for D
    unfolding store_message_sticon_packages_def by (auto intro!: frame.foldl_le frame.refl sticon_writes_frame)
  have sticons: "same_chats (tbl D) (tbl (store_message_sticons E mid rj D))" for D
    unfolding store_message_sticons_def Let_def
    by (auto intro!: frame.foldl_le frame.refl store_message_sticon_frame)
  show ?thesis
    unfolding replace_message_sticon_rows_def
    by (rule frame.trans [OF frame.trans [OF sticon_writes_frame(1) sticon_writes_frame(2)] frame.trans [OF packages sticons]])
qed


section \<open>Every history of writes\<close>

lemma message_upsert_grows: "grows (tbl D) (tbl (snd (enil_db_message_upsert E m D)))"
proof -
  have insert: "grows (tbl D) (tbl (snd (exec_stmt E (\<lambda>T. let (t, n) = insert_ignore i new (messages T) in (T\<lparr>messages := t\<rparr>, n)) D)))"
    for i new D
  proof (rule grow.exec_le)
    show "grows T (fst (let (t, n) = insert_ignore i new (messages T) in (T\<lparr>messages := t\<rparr>, n)))" for T
      by (rule grows_messages [where P = "\<lambda>_ _. False" and f = "\<lambda>r. r"]) (auto simp: Let_def case_prod_unfold)
  qed
  have reactions: "grows (tbl D) (tbl (overwrite_reactions E m i D))" for i D
    by (auto simp: overwrite_reactions_def grow.refl row_kept_def intro!: update_message_grows split: prod.splits)
  have fill: "grows (tbl D) (tbl (fill_text E m i D))" for i D
    by (auto simp: fill_text_def Let_def grow.refl row_kept_def intro!: update_message_grows)
  have replace: "grows (tbl D) (tbl (snd (fill_message_replace_json E i rj D)))" for i rj D
    by (auto simp: fill_message_replace_json_def grow.refl row_kept_def intro!: update_message_grows)
  have rows: "grows (tbl D) (tbl (replace_message_sticon_rows E i rj own D))" for i rj own D
    by (rule same_chats_grows [OF replace_message_sticon_rows_frame])
  show ?thesis
  proof (cases "nonempty (m_id m) \<and> nonempty (m_chat_id m)")
    case True
    define mid where "mid = the (m_id m)"
    define new where "new = new_message_row (dj E) m"
    obtain rc D1 where D1: "exec_stmt E (\<lambda>T. let (t, n) = insert_ignore mid new (messages T) in (T\<lparr>messages := t\<rparr>, n)) D = (rc, D1)"
      by fastforce
    define D2 where "D2 = fill_text E m mid (overwrite_reactions E m mid D1)"
    have g1: "grows (tbl D) (tbl D1)" using insert [of D mid new] D1 by simp
    then have g2: "grows (tbl D) (tbl D2)"
      unfolding D2_def by (rule grow.trans [OF _ grow.trans [OF reactions fill]])
    show ?thesis
    proof (cases "rc = SQLITE_OK")
      case ok: True
      show ?thesis
      proof (cases "r_replace_json new")
        case None
        with True D1 ok g2 show ?thesis
          by (simp add: enil_db_message_upsert_def D2_def mid_def new_def Let_def)
      next
        case (Some rj)
        obtain frc D3 where D3: "fill_message_replace_json E mid (Some rj) D2 = (frc, D3)" by fastforce
        with g2 have g3: "grows (tbl D) (tbl D3)" using grow.trans [OF g2 replace [of D2 mid "Some rj"]] by simp
        have "enil_db_message_upsert E m D =
            (if frc \<noteq> SQLITE_OK then (frc, D3) else (SQLITE_OK, replace_message_sticon_rows E mid (Some rj) (r_sticon_ownership new) D3))"
          using True D1 ok Some D3 by (simp add: enil_db_message_upsert_def D2_def mid_def new_def Let_def)
        with g3 show ?thesis using grow.trans [OF g3 rows] by simp
      qed
    next
      case False
      with True D1 g1 show ?thesis by (simp add: enil_db_message_upsert_def mid_def new_def Let_def)
    qed
  qed (auto simp: enil_db_message_upsert_def grow.refl)
qed

datatype 'j db_op =
    Op_message "'j talk_message_t"
  | Op_live "string option" int "string option" int bool "string option"
  | Op_box "'j talk_message_box_t"
  | Op_seen "string option" "string option"
  | Op_peer_read "string option" "string option" int
  | Op_group_read "string option" "string option" int
  | Op_text "string option" "string option" int
  | Op_raw "string option" "string option" "string option"
  | Op_plaintext "string option" "string option" "string option" "string option" int
  | Op_key_material "string option" "string option"
  | Op_deleted "string option"
  | Op_media "string option" "string option" int int "string option" int int
  | Op_reaction "string option" "string option" bool int "string option" "string option" int
  | Op_profile "'j talk_profile_t"
  | Op_contact "'j talk_contact_t"
  | Op_chat "'j talk_chat_t"
  | Op_local_rev int
  | Op_asset bool string string "string option" int int "string option" int int

fun run_db_op :: "'j db_env \<Rightarrow> 'j db_op \<Rightarrow> db \<Rightarrow> int \<times> db" where
  "run_db_op E (Op_message m) D = enil_db_message_upsert E m D"
| "run_db_op E (Op_live c ty i t inc m) D = enil_db_message_box_upsert_live_message E c ty i t inc m D"
| "run_db_op E (Op_box mb) D = enil_db_message_box_upsert E mb D"
| "run_db_op E (Op_seen c m) D = enil_db_message_box_mark_seen E c m D"
| "run_db_op E (Op_peer_read c r t) D = enil_db_message_box_set_peer_read E c r t D"
| "run_db_op E (Op_group_read c r t) D = enil_db_message_box_set_group_reader E c r t D"
| "run_db_op E (Op_text i txt st) D = enil_db_set_message_text E i txt st D"
| "run_db_op E (Op_raw i raw rj) D = enil_db_set_message_raw_json E i raw rj D"
| "run_db_op E (Op_plaintext i txt raw rj st) D = enil_db_set_message_plaintext E i txt raw rj st D"
| "run_db_op E (Op_key_material i km) D = enil_db_set_message_enc_km E i km D"
| "run_db_op E (Op_deleted i) D = enil_db_message_mark_deleted E i D"
| "run_db_op E (Op_media i p w h t tw th) D = enil_db_set_media_info E i p w h t tw th D"
| "run_db_op E (Op_reaction i r rem p pr em t) D = enil_db_message_reactions_update E i r rem p pr em t D"
| "run_db_op E (Op_profile p) D = enil_db_talk_profile_upsert E p D"
| "run_db_op E (Op_contact c) D = enil_db_talk_contact_upsert E c D"
| "run_db_op E (Op_chat c) D = enil_db_chat_upsert E c D"
| "run_db_op E (Op_local_rev n) D = enil_db_set_local_rev E n D"
| "run_db_op E (Op_asset st i p im w h t tw th) D = enil_db_set_sticker_asset E st i p im w h t tw th D"

lemma live_message_grows:
  "grows (tbl D) (tbl (snd (enil_db_message_box_upsert_live_message E c ty i t inc m D)))"
proof (cases c)
  case (Some k)
  have "grows (tbl D) (tbl (snd (update_box E P (\<lambda>T b. b\<lparr>b_midType := Some ty, b_lastDeliveredMessageId := i,
      b_lastDeliveredTime := Some t, b_unreadCount := live_unread T m inc (b_unreadCount b)\<rparr>) D)))" for P D
    by (rule update_box_grows) (simp add: box_kept_def split: option.splits)
  then show ?thesis
    by (auto simp: enil_db_message_box_upsert_live_message_def Some case_prod_unfold
        intro: ensure_box_grows grow.trans [OF ensure_box_grows])
qed (simp add: enil_db_message_box_upsert_live_message_def grow.refl)

lemma box_upsert_grows: "grows (tbl D) (tbl (snd (enil_db_message_box_upsert E mb D)))"
  unfolding enil_db_message_box_upsert_def case_prod_unfold
  by (auto simp: box_kept_def intro!: ensure_box_grows grow.trans [OF ensure_box_grows update_box_grows] split: option.splits)

lemma read_marks_grow:
  "grows (tbl D) (tbl (snd (enil_db_message_box_set_peer_read E c r t D)))"
  "grows (tbl D) (tbl (snd (enil_db_message_box_set_group_reader E c r t D)))"
  "grows (tbl D) (tbl (snd (enil_db_message_box_mark_seen E c m D)))"
proof -
  show "grows (tbl D) (tbl (snd (enil_db_message_box_set_peer_read E c r t D)))"
    unfolding enil_db_message_box_set_peer_read_def
    by (auto simp: grow.refl box_kept_def intro!: update_box_grows split: option.splits)
  have mark: "grows T (fst (let k = (a, b)
      in if (case map_of (readers T) k of None \<Rightarrow> False | Some t' \<Rightarrow> t < t') then (T, 0)
         else let (t', n) = insert_replace k t (readers T) in (T\<lparr>readers := t'\<rparr>, n)))" for T a b
  proof (cases "case map_of (readers T) (a, b) of None \<Rightarrow> False | Some t' \<Rightarrow> t < t'")
    case False
    then have "grows T (T\<lparr>readers := fst (insert_replace (a, b) t (readers T))\<rparr>)"
      by (intro grows_readers [where k = "(a, b)" and t = t]) (auto simp: not_less split: option.splits)
    with False show ?thesis by (simp add: Let_def case_prod_unfold)
  qed (simp add: Let_def grow.refl)
  show "grows (tbl D) (tbl (snd (enil_db_message_box_set_group_reader E c r t D)))"
    unfolding enil_db_message_box_set_group_reader_def
    using mark by (simp add: grow.refl grow.exec_le)
  show "grows (tbl D) (tbl (snd (enil_db_message_box_mark_seen E c m D)))"
    unfolding enil_db_message_box_mark_seen_def
    by (auto simp: grow.refl box_kept_def intro!: update_box_grows split: option.splits)
qed

lemma message_writes_grow:
  "grows (tbl D) (tbl (snd (enil_db_set_message_text E i txt st D)))"
  "grows (tbl D) (tbl (snd (enil_db_set_message_raw_json E i raw rj D)))"
  "grows (tbl D) (tbl (snd (enil_db_set_message_plaintext E i txt raw rj st D)))"
  "grows (tbl D) (tbl (snd (enil_db_set_message_enc_km E i km D)))"
  "grows (tbl D) (tbl (snd (enil_db_message_mark_deleted E i D)))"
  "grows (tbl D) (tbl (snd (enil_db_set_media_info E i p w h t tw th D)))"
  "grows (tbl D) (tbl (snd (enil_db_message_reactions_update E i reactor rem pre pr em created D)))"
proof -
  have upd: "grows (tbl D) (tbl (snd (update_message E P f D)))" if "\<And>r. row_kept r (f r)" for P f and D :: db
    using that by (rule update_message_grows)
  have upd_rows: "grows (tbl D) (tbl (replace_message_sticon_rows E i rj own (snd (update_message E P f D))))"
    if "\<And>r. row_kept r (f r)" for P f i rj own and D :: db
    by (rule grow.trans [OF upd same_chats_grows [OF replace_message_sticon_rows_frame]]) (rule that)
  show "grows (tbl D) (tbl (snd (enil_db_set_message_text E i txt st D)))"
    by (auto simp: enil_db_set_message_text_def grow.refl row_kept_def intro!: upd split: option.splits)
  show "grows (tbl D) (tbl (snd (enil_db_set_message_raw_json E i raw rj D)))"
    by (auto simp: enil_db_set_message_raw_json_def case_prod_unfold grow.refl row_kept_def intro!: upd upd_rows split: option.splits)
  show "grows (tbl D) (tbl (snd (enil_db_set_message_plaintext E i txt raw rj st D)))"
    by (auto simp: enil_db_set_message_plaintext_def case_prod_unfold grow.refl row_kept_def intro!: upd upd_rows split: option.splits)
  show "grows (tbl D) (tbl (snd (enil_db_set_message_enc_km E i km D)))"
    by (auto simp: enil_db_set_message_enc_km_def grow.refl row_kept_def intro!: upd split: option.splits)
  show "grows (tbl D) (tbl (snd (enil_db_message_mark_deleted E i D)))"
    by (auto simp: enil_db_message_mark_deleted_def grow.refl row_kept_def intro!: upd split: option.splits)
  show "grows (tbl D) (tbl (snd (enil_db_set_media_info E i p w h t tw th D)))"
    by (auto simp: enil_db_set_media_info_def grow.refl row_kept_def intro!: upd split: option.splits)
  show "grows (tbl D) (tbl (snd (enil_db_message_reactions_update E i reactor rem pre pr em created D)))"
  proof (cases "(i, reactor)")
    case (Pair a b)
    show ?thesis
    proof (cases "a = None \<or> b = None")
      case True
      with Pair show ?thesis by (auto simp: enil_db_message_reactions_update_def grow.refl split: option.splits)
    next
      case False
      then obtain k who where kw: "i = Some k" "reactor = Some who" using Pair by auto
      obtain v D1 where q: "query E (\<lambda>T. map_option r_reactions_json (map_of (messages T) k)) D = (v, D1)" by fastforce
      then have same: "tbl D1 = tbl D" by simp
      have "grows (tbl D) (tbl (snd (update_message E P f D1)))" if "\<And>r. row_kept r (f r)" for P f
        using upd [of f D1, OF that] same by simp
      then show ?thesis
        by (auto simp: enil_db_message_reactions_update_def kw q Let_def case_prod_unfold same grow.refl row_kept_def split: option.splits)
    qed
  qed
qed

lemma struct_writes_frame:
  "same_chats (tbl D) (tbl (snd (enil_db_talk_profile_upsert E p D)))"
  "same_chats (tbl D) (tbl (snd (enil_db_talk_contact_upsert E c D)))"
  "same_chats (tbl D) (tbl (snd (enil_db_chat_upsert E ch D)))"
  "same_chats (tbl D) (tbl (snd (enil_db_set_local_rev E n D)))"
  "same_chats (tbl D) (tbl (snd (enil_db_set_sticker_asset E st i pk im w h t tw th D)))"
  by (auto simp: enil_db_talk_profile_upsert_def enil_db_talk_contact_upsert_def enil_db_chat_upsert_def
      enil_db_set_local_rev_def enil_db_set_sticker_asset_def upsert_fields_with_raw_def exec_stmt_def same_chats_def
      Let_def case_prod_unfold)

lemmas op_grows = message_upsert_grows live_message_grows box_upsert_grows read_marks_grow message_writes_grow
  struct_writes_frame [THEN same_chats_grows]

lemma run_db_op_grows: "grows (tbl D) (tbl (snd (run_db_op E oper D)))"
  by (cases oper) (simp_all add: op_grows)

text \<open>Whatever is written in whatever order, and whichever statements fail, the database never loses or
  rewrites what it stored: the keys stay unique, every stored message stays with its sender, receiver,
  chat, time and type, a deleted message stays deleted, and the read marks of peers and of group
  members only move forward.\<close>

theorem db_history_grows: "grows (tbl D) (tbl (foldl (\<lambda>D oper. snd (run_db_op E oper D)) D opers))"
  by (rule grow.foldl_le) (rule run_db_op_grows)

end
