(* ===== verification/ENIL_DbRows.thy ===== *)
theory ENIL_DbRows
  imports ENIL_DbFacts
begin

text \<open>
  Single rows and pages: what a message's row becomes when the message is stored, the round trip of a
  profile, the pages of a chat, and that deleting a chat is all or nothing.
\<close>

section \<open>When nothing fails\<close>

definition no_faults :: "'j db_env \<Rightarrow> bool" where
  "no_faults E \<longleftrightarrow> (\<forall>n. fault E n = SQLITE_OK)"

lemma exec_ok: "no_faults E \<Longrightarrow>
    exec_stmt E f D = (SQLITE_OK, D\<lparr>clock := Suc (clock D), tbl := fst (f (tbl D)), changed := snd (f (tbl D))\<rparr>)"
  unfolding no_faults_def exec_stmt_def Let_def by simp

lemma query_ok: "no_faults E \<Longrightarrow> query E q D = (Some (q (tbl D)), D\<lparr>clock := Suc (clock D)\<rparr>)"
  unfolding no_faults_def query_def Let_def by simp

lemma map_option_same: "(\<And>r. f r = r) \<Longrightarrow> map_option f x = x"
  by (cases x) simp_all

lemma update_message_ok:
  assumes "no_faults E"
  shows "fst (update_message E P f D) = SQLITE_OK"
    "map_of (messages (tbl (snd (update_message E P f D)))) k =
       map_option (\<lambda>r. if P k r then f r else r) (map_of (messages (tbl D)) k)"
    "changed (snd (update_message E P f D)) = length (filter (\<lambda>(k, r). P k r) (messages (tbl D)))"
  using assms
  by (simp_all add: update_message_def exec_ok Let_def case_prod_unfold lookup_update_where)
    (simp add: update_where_def case_prod_unfold)

section \<open>The row of a stored message\<close>

text \<open>
  What a message leaves of a row that is already there.  A message that carries reactions replaces the
  stored ones; only otherwise its text fills a row without one, and then the row's \<open>decrypt_status\<close> is the incoming
  one's.  Its REPLACE block fills an empty one.
\<close>

definition merged_row :: "'j cjson \<Rightarrow> 'j talk_message_t \<Rightarrow> message_row \<Rightarrow> message_row" where
  "merged_row J m old =
     (let new = new_message_row J m; had = snd (reactions_extract_for_storage J m);
          r1 = (if had then old\<lparr>r_reactions_json := r_reactions_json new\<rparr> else old);
          r2 = (if \<not> had \<and> nonempty (m_text m) \<and> \<not> nonempty (r_text r1)
                then r1\<lparr>r_text := m_text m, r_contentMetadata := coalesce_empty (r_contentMetadata r1) (r_contentMetadata new),
                        r_chunks := coalesce_empty (r_chunks r1) (r_chunks new),
                        r_raw_json := coalesce_empty (r_raw_json r1) (r_raw_json new),
                        r_decrypt_status := r_decrypt_status new\<rparr>
                else r1)
      in if nonempty (r_replace_json new) \<and> \<not> nonempty (r_replace_json r2)
         then r2\<lparr>r_replace_json := r_replace_json new\<rparr> else r2)"

lemma count_key: "map_of t k = Some r \<Longrightarrow> length (filter (\<lambda>(k', r). k' = k) t) \<noteq> 0"
  by (induction t) (auto split: if_splits)

lemma fill_replace_ok:
  assumes "no_faults E"
  shows "fst (fill_message_replace_json E mid rj D) = SQLITE_OK"
    "map_of (messages (tbl (snd (fill_message_replace_json E mid rj D)))) k =
       map_option (\<lambda>r. if nonempty rj \<and> k = mid \<and> \<not> nonempty (r_replace_json r) then r\<lparr>r_replace_json := rj\<rparr> else r)
         (map_of (messages (tbl D)) k)"
proof -
  show "fst (fill_message_replace_json E mid rj D) = SQLITE_OK"
    using assms by (simp add: fill_message_replace_json_def update_message_ok)
  show "map_of (messages (tbl (snd (fill_message_replace_json E mid rj D)))) k =
       map_option (\<lambda>r. if nonempty rj \<and> k = mid \<and> \<not> nonempty (r_replace_json r) then r\<lparr>r_replace_json := rj\<rparr> else r)
         (map_of (messages (tbl D)) k)"
    using assms by (cases "nonempty rj")
      (simp_all add: fill_message_replace_json_def update_message_ok option.map_id option.map_ident)
qed

lemma fill_text_ok:
  assumes "no_faults E"
  shows "map_of (messages (tbl (fill_text E m mid D))) k =
    map_option (\<lambda>r. if changed D = 0 \<and> nonempty (m_text m) \<and> k = mid \<and> \<not> nonempty (r_text r)
        then r\<lparr>r_text := m_text m, r_contentMetadata := coalesce_empty (r_contentMetadata r) (r_contentMetadata (new_message_row (dj E) m)),
               r_chunks := coalesce_empty (r_chunks r) (r_chunks (new_message_row (dj E) m)),
               r_raw_json := coalesce_empty (r_raw_json r) (r_raw_json (new_message_row (dj E) m)),
               r_decrypt_status := r_decrypt_status (new_message_row (dj E) m)\<rparr> else r)
      (map_of (messages (tbl D)) k)"
proof (cases "changed D = 0 \<and> nonempty (m_text m)")
  case True
  with assms show ?thesis by (simp add: fill_text_def Let_def update_message_ok)
next
  case False
  then show ?thesis by (subst map_option_same) (auto simp: fill_text_def Let_def)
qed

lemma overwrite_reactions_ok:
  assumes "no_faults E" and "reactions_extract_for_storage (dj E) m = (rs, had)"
  shows "map_of (messages (tbl (overwrite_reactions E m mid D))) k =
      map_option (\<lambda>r. if changed D = 0 \<and> had \<and> k = mid then r\<lparr>r_reactions_json := rs\<rparr> else r) (map_of (messages (tbl D)) k)"
    "changed (overwrite_reactions E m mid D) =
      (if changed D = 0 \<and> had then length (filter (\<lambda>(k, r). k = mid) (messages (tbl D))) else changed D)"
proof -
  show "map_of (messages (tbl (overwrite_reactions E m mid D))) k =
      map_option (\<lambda>r. if changed D = 0 \<and> had \<and> k = mid then r\<lparr>r_reactions_json := rs\<rparr> else r) (map_of (messages (tbl D)) k)"
  proof (cases "changed D = 0 \<and> had")
    case True
    then show ?thesis by (simp add: overwrite_reactions_def assms(2) update_message_ok [OF assms(1)])
  next
    case False
    then show ?thesis by (subst map_option_same) (auto simp: overwrite_reactions_def assms(2))
  qed
  show "changed (overwrite_reactions E m mid D) =
      (if changed D = 0 \<and> had then length (filter (\<lambda>(k, r). k = mid) (messages (tbl D))) else changed D)"
    by (cases "changed D = 0 \<and> had") (auto simp: overwrite_reactions_def assms(2) update_message_ok [OF assms(1)])
qed

lemma stored_row:
  assumes E: "no_faults E" and i: "m_id m = Some i" "i \<noteq> []" and c: "nonempty (m_chat_id m)"
  shows "fst (enil_db_message_upsert E m D) = SQLITE_OK"
    and "map_of (messages (tbl (snd (enil_db_message_upsert E m D)))) k =
      (if k = i
       then Some (case map_of (messages (tbl D)) i of None \<Rightarrow> new_message_row (dj E) m | Some old \<Rightarrow> merged_row (dj E) m old)
       else map_of (messages (tbl D)) k)"
proof -
  define new where "new = new_message_row (dj E) m"
  define D1 where "D1 = snd (exec_stmt E (\<lambda>T. let (t, n) = insert_ignore i new (messages T) in (T\<lparr>messages := t\<rparr>, n)) D)"
  have D1: "exec_stmt E (\<lambda>T. let (t, n) = insert_ignore i new (messages T) in (T\<lparr>messages := t\<rparr>, n)) D = (SQLITE_OK, D1)"
    by (simp add: D1_def exec_ok [OF E])
  have look1: "map_of (messages (tbl D1)) k =
      (case map_of (messages (tbl D)) k of Some r \<Rightarrow> Some r | None \<Rightarrow> if k = i then Some new else None)" for k
    by (simp add: D1_def exec_ok [OF E] Let_def case_prod_unfold lookup_insert_ignore)
  have ch1: "changed D1 = (if map_of (messages (tbl D)) i = None then 1 else 0)"
    by (simp add: D1_def exec_ok [OF E] Let_def case_prod_unfold insert_ignore_def key_in_iff)
  define D2 where "D2 = fill_text E m i (overwrite_reactions E m i D1)"
  have cnt: "map_of (messages (tbl D)) i \<noteq> None \<Longrightarrow> length (filter (\<lambda>(k, r). k = i) (messages (tbl D1))) \<noteq> 0"
    using count_key [of "messages (tbl D1)" i] look1 [of i] by (auto split: option.splits)
  have look2: "map_of (messages (tbl D2)) k =
      (if k = i \<and> map_of (messages (tbl D)) i \<noteq> None
       then Some (let old = the (map_of (messages (tbl D)) i); had = snd (reactions_extract_for_storage (dj E) m);
                      r1 = (if had then old\<lparr>r_reactions_json := r_reactions_json new\<rparr> else old)
                  in if \<not> had \<and> nonempty (m_text m) \<and> \<not> nonempty (r_text r1)
                     then r1\<lparr>r_text := m_text m, r_contentMetadata := coalesce_empty (r_contentMetadata r1) (r_contentMetadata new),
                             r_chunks := coalesce_empty (r_chunks r1) (r_chunks new),
                             r_raw_json := coalesce_empty (r_raw_json r1) (r_raw_json new),
                             r_decrypt_status := r_decrypt_status new\<rparr>
                     else r1)
       else map_of (messages (tbl D1)) k)" for k
  proof -
    obtain rs had where ex: "reactions_extract_for_storage (dj E) m = (rs, had)" by fastforce
    have rs: "r_reactions_json new = rs" by (simp add: new_def new_message_row_def Let_def ex)
    note D2_look = D2_def fill_text_ok [OF E] overwrite_reactions_ok [OF E ex]
    show ?thesis
    proof (cases "map_of (messages (tbl D)) i")
      case None
      then show ?thesis unfolding D2_look by (simp add: ch1 option.map_ident)
    next
      case (Some old)
      with cnt have c: "length (filter (\<lambda>(k, r). k = i) (messages (tbl D1))) \<noteq> 0" by simp
      have one: "map_of (messages (tbl D1)) i = Some old" using Some by (simp add: look1)
      show ?thesis
      proof (cases "k = i")
        case True
        with Some c one show ?thesis
          unfolding D2_look by (cases had) (simp_all add: ch1 ex rs new_def rs [unfolded new_def])
      next
        case False
        with Some show ?thesis unfolding D2_look by (cases "map_of (messages (tbl D1)) k") (simp_all add: ch1 ex)
      qed
    qed
  qed
  have run: "enil_db_message_upsert E m D =
      (case r_replace_json new of None \<Rightarrow> (SQLITE_OK, D2)
       | Some rj \<Rightarrow> (SQLITE_OK, replace_message_sticon_rows E i (Some rj) (r_sticon_ownership new)
                                 (snd (fill_message_replace_json E i (Some rj) D2))))"
    using i c D1 fill_replace_ok(1) [OF E, of i]
    by (simp add: enil_db_message_upsert_def Let_def new_def D2_def case_prod_unfold split: option.splits)
  show "fst (enil_db_message_upsert E m D) = SQLITE_OK"
    by (simp add: run split: option.splits)
  have frame: "messages (tbl (replace_message_sticon_rows E i rj own D')) = messages (tbl D')" for rj own D'
    using replace_message_sticon_rows_frame [of D' E i rj own] by (simp add: same_chats_def)
  have look3: "map_of (messages (tbl (snd (enil_db_message_upsert E m D)))) k =
      map_option (\<lambda>r. if nonempty (r_replace_json new) \<and> k = i \<and> \<not> nonempty (r_replace_json r)
                      then r\<lparr>r_replace_json := r_replace_json new\<rparr> else r) (map_of (messages (tbl D2)) k)" for k
  proof (cases "r_replace_json new")
    case None
    then show ?thesis by (simp add: run option.map_ident)
  next
    case (Some a)
    then show ?thesis by (simp only: run frame fill_replace_ok(2) [OF E] option.case snd_conv Some)
  qed
  show "map_of (messages (tbl (snd (enil_db_message_upsert E m D)))) k =
      (if k = i
       then Some (case map_of (messages (tbl D)) i of None \<Rightarrow> new_message_row (dj E) m | Some old \<Rightarrow> merged_row (dj E) m old)
       else map_of (messages (tbl D)) k)"
  proof (cases "k = i")
    case True
    show ?thesis
    proof (cases "map_of (messages (tbl D)) i")
      case None
      with True show ?thesis by (simp add: look3 look2 look1 new_def)
    next
      case (Some old)
      with True show ?thesis by (simp only: look3 look2 merged_row_def Let_def new_def) simp
    qed
  next
    case False
    then show ?thesis by (simp add: look3 look2 look1 option.map_ident split: option.splits)
  qed
qed

text \<open>C35: Storing a message, when no statement of the database fails, gives exactly the row \<open>merged_row\<close> says and
  leaves every other message alone.  A new message gets its own row.  For one that is already there, the stored row
  keeps its sender, chat, times, text, metadata, chunks, raw item and REPLACE block wherever it has them.  If the
  incoming message carries a reactions field, the stored reactions are replaced by it; and then a missing text is not
  filled in, against the comment in the code.  If it carries none, has a text and the row has none, the text is
  stored, the metadata, chunks and raw item the row lacks are filled in, and the row's decrypt_status is overwritten by
  the incoming one.  A missing REPLACE block is filled in either way.\<close>

theorem message_upsert_row:
  assumes "no_faults E" and "m_id m = Some i" and "i \<noteq> []" and "nonempty (m_chat_id m)"
  shows "fst (enil_db_message_upsert E m D) = SQLITE_OK \<and>
    map_of (messages (tbl (snd (enil_db_message_upsert E m D)))) k =
      (if k = i
       then Some (case map_of (messages (tbl D)) i of None \<Rightarrow> new_message_row (dj E) m | Some old \<Rightarrow> merged_row (dj E) m old)
       else map_of (messages (tbl D)) k)"
  using stored_row [OF assms] by blast

section \<open>The account's own profile\<close>

lemma profile_fields_ok:
  "INT_MIN \<le> pf_profile_type p \<Longrightarrow> pf_profile_type p \<le> INT_MAX \<Longrightarrow> list_all (field_ok J (profile_base p)) talk_profile_fields"
  by (simp add: talk_profile_fields_def profile_base_def laid_out_def field_ok_def cbool_def INT_MIN_def INT_MAX_def)

text \<open>The profile written on login is the one read back: every field of it, an empty text as a null one,
  when the store holds no other account.\<close>

theorem profile_roundtrip:
  assumes "no_faults E" and "fst ` set (accounts (tbl D)) \<subseteq> {pf_mid p}"
    and "INT_MIN \<le> pf_profile_type p" and "pf_profile_type p \<le> INT_MAX"
  shows "case enil_db_talk_profile_get E (snd (enil_db_talk_profile_upsert E p D)) of
      (None, D') \<Rightarrow> False
    | (Some base, D') \<Rightarrow> list_all (\<lambda>f. base (offset f) = stored_field (profile_base p (offset f))) talk_profile_fields"
proof -
  have "filter (\<lambda>(k, row). k \<noteq> pf_mid p) (accounts (tbl D)) = []"
    using assms(2) by (auto simp: filter_empty_conv)
  then have row: "accounts (tbl (snd (enil_db_talk_profile_upsert E p D))) =
      [(pf_mid p, row_with_raw E (profile_base p) talk_profile_fields [] (Some (pf_raw p)))]"
    by (simp add: enil_db_talk_profile_upsert_def upsert_fields_with_raw_def exec_ok [OF assms(1)] insert_replace_def Let_def)
  have cut: "read_fields J True fs (map g fs @ rest) b = read_fields J True fs (map g fs) b" for J g rest b fs
    by (induction fs arbitrary: b) simp_all
  have "distinct (map offset talk_profile_fields)" by (simp add: talk_profile_fields_def)
  from read_bind_fields [OF this profile_fields_ok [OF assms(3,4)]]
  have "list_all (\<lambda>f. read_fields (dj E) True talk_profile_fields (bind_fields (dj E) (profile_base p) talk_profile_fields) b (offset f) =
      stored_field (profile_base p (offset f))) talk_profile_fields" for b
    by (simp add: list_all_iff)
  then show ?thesis
    by (simp add: enil_db_talk_profile_get_def query_ok [OF assms(1)] row row_with_raw_def Let_def)
      (simp add: bind_fields_def cut)
qed

section \<open>Deleting a chat\<close>

definition without_chat :: "string \<Rightarrow> tables \<Rightarrow> tables" where
  "without_chat c T = T\<lparr>
     message_sticons := filter (\<lambda>(k, r). fst k \<notin> set (chat_messages T c)) (message_sticons T),
     message_sticon_packages := filter (\<lambda>(k, r). fst k \<notin> set (chat_messages T c)) (message_sticon_packages T),
     messages := filter (\<lambda>(i, r). r_chat_id r \<noteq> c) (messages T),
     boxes := filter (\<lambda>(k, r). k \<noteq> c) (boxes T), chats := filter (\<lambda>(k, r). k \<noteq> c) (chats T)\<rparr>"

lemma exec_all_run:
  "case exec_all E fs D of (rc, D') \<Rightarrow>
     if rc = SQLITE_OK then tbl D' = foldl (\<lambda>T f. fst (f T)) (tbl D) fs \<and> marks D' = marks D
     else marks D \<noteq> [] \<longrightarrow> tbl D' = hd (marks D) \<and> marks D' = tl (marks D)"
proof (induction fs arbitrary: D)
  case (Cons f fs)
  obtain rc D1 where run: "exec_stmt E f D = (rc, D1)" by fastforce
  show ?case
  proof (cases "rc = SQLITE_OK")
    case True
    then have "tbl D1 = fst (f (tbl D))" "marks D1 = marks D"
      using run by (auto simp: exec_stmt_def Let_def split: if_splits)
    with Cons.IH [of D1] True run show ?thesis by (auto split: prod.splits)
  next
    case False
    then have "marks D1 = marks D" using run by (auto simp: exec_stmt_def Let_def split: if_splits)
    with False run show ?thesis by (auto simp: rollback_def split: list.splits)
  qed
qed simp

lemma deletes_run: "foldl (\<lambda>T f. fst (f T)) T (chat_deletes c) = without_chat c T"
  by (simp add: chat_deletes_def without_chat_def chat_messages_def delete_where_def Let_def case_prod_unfold)

text \<open>C36: Deleting a chat is all or nothing: on success exactly the chat, its box, its messages and their
  sticon rows are gone and no transaction is left open; when a statement fails nothing has changed,
  and the one exception is a failed commit, which leaves the transaction open over the old tables.\<close>

theorem chat_delete_atomic:
  "marks D = [] \<Longrightarrow>
   case enil_db_chat_delete E (Some c) D of (rc, D') \<Rightarrow>
     (rc = SQLITE_OK \<and> tbl D' = without_chat c (tbl D) \<and> marks D' = []) \<or>
     (rc \<noteq> SQLITE_OK \<and> tbl D' = tbl D \<and> marks D' = []) \<or>
     (rc \<noteq> SQLITE_OK \<and> tbl D' = without_chat c (tbl D) \<and> marks D' = [tbl D])"
proof -
  assume m: "marks D = []"
  obtain rc D1 where b: "begin_transaction E D = (rc, D1)" by fastforce
  show ?thesis
  proof (cases "rc = SQLITE_OK")
    case True
    then have D1: "tbl D1 = tbl D" "marks D1 = [tbl D]"
      using b m by (auto simp: begin_transaction_def savepoint_def Let_def split: if_splits)
    obtain rc2 D2 where x: "exec_all E (chat_deletes c) D1 = (rc2, D2)" by fastforce
    note run = exec_all_run [where E = E and fs = "chat_deletes c" and D = D1, unfolded x deletes_run D1]
    show ?thesis
    proof (cases "rc2 = SQLITE_OK")
      case True
      with run have "tbl D2 = without_chat c (tbl D)" "marks D2 = [tbl D]" by simp_all
      with True x b \<open>rc = SQLITE_OK\<close> show ?thesis
        by (auto simp: enil_db_chat_delete_def release_def Let_def)
    next
      case False
      with run x b \<open>rc = SQLITE_OK\<close> show ?thesis by (simp add: enil_db_chat_delete_def)
    qed
  next
    case False
    then have "tbl D1 = tbl D" "marks D1 = []"
      using b m by (auto simp: begin_transaction_def savepoint_def Let_def split: if_splits)
    with False b show ?thesis by (simp add: enil_db_chat_delete_def)
  qed
qed

section \<open>Witnesses\<close>

abbreviation time_of :: "string \<times> message_row \<Rightarrow> int" where
  "time_of x \<equiv> r_createdTime (snd x)"

definition by_time_desc :: "(string \<times> message_row) list \<Rightarrow> (string \<times> message_row) list" where
  "by_time_desc xs = rev (sort_key time_of xs)"

definition demo_row :: "int \<Rightarrow> message_row" where
  "demo_row t = new_message_row (tree (\<lambda>_. None) (\<lambda>_. []))
     \<lparr>m_id = None, m_from_mid = Some ''u1'', m_to_mid = Some ''u2'', m_toType = 0, m_sessionId = 0,
      m_createdTime = t, m_contentType = 0, m_hasContent = False, m_text = Some ''hi'',
      m_relatedMessageId = None, m_messageRelationType = 0, m_relatedMessageServiceCode = 0,
      m_contentMetadata = None, m_chunks = None, m_chat_id = Some ''c'', m_raw = None\<rparr>"

lemma demo_row_simps [simp]: "r_createdTime (demo_row t) = t" "r_chat_id (demo_row t) = ''c''"
  by (simp_all add: demo_row_def new_message_row_def Let_def)

definition demo_tables :: "(string \<times> message_row) list \<Rightarrow> tables" where
  "demo_tables ms =
     \<lparr>accounts = [], contacts = [], chats = [], boxes = [], readers = [], messages = ms, message_sticons = [],
      message_sticon_packages = [], sticker_packages = [], sticon_packages = [], stickers = [], sticons = [],
      talk_exceptions = [], sse_events = [], db_meta = []\<rparr>"

definition demo_env :: "json db_env" where
  "demo_env = \<lparr>dj = tree (\<lambda>_. None) (\<lambda>_. []), fault = (\<lambda>_. SQLITE_OK), newest_first = by_time_desc\<rparr>"

definition demo_db :: "(string \<times> message_row) list \<Rightarrow> db" where
  "demo_db ms = \<lparr>tbl = demo_tables ms, marks = [], changed = 0, clock = 0\<rparr>"

lemma demo_env_ok: "no_faults demo_env"
  by (simp add: no_faults_def demo_env_def)

definition demo_stored :: "json talk_message_t" where
  "demo_stored =
     \<lparr>m_id = Some ''m1'', m_from_mid = Some ''u1'', m_to_mid = Some ''u2'', m_toType = 0, m_sessionId = 0,
      m_createdTime = 10, m_contentType = 0, m_hasContent = False, m_text = Some ''late'',
      m_relatedMessageId = None, m_messageRelationType = 0, m_relatedMessageServiceCode = 0,
      m_contentMetadata = None, m_chunks = None, m_chat_id = Some ''c'', m_raw = None\<rparr>"

theorem message_upsert_row_witness:
  "fst (enil_db_message_upsert demo_env demo_stored (demo_db [(''m1'', (demo_row 10)\<lparr>r_text := None\<rparr>)])) = SQLITE_OK \<and>
   map_of (messages (tbl (snd (enil_db_message_upsert demo_env demo_stored (demo_db [(''m1'', (demo_row 10)\<lparr>r_text := None\<rparr>)]))))) ''m1'' =
   Some (merged_row (dj demo_env) demo_stored ((demo_row 10)\<lparr>r_text := None\<rparr>))"
  using message_upsert_row [OF demo_env_ok, of demo_stored "''m1''" "demo_db [(''m1'', (demo_row 10)\<lparr>r_text := None\<rparr>)]" "''m1''"]
  by (simp add: demo_stored_def demo_db_def demo_tables_def)

definition demo_profile :: "json talk_profile_t" where
  "demo_profile =
     \<lparr>pf_mid = ''u1'', pf_user_id = Some [], pf_region_code = Some ''JP'', pf_display_name = Some ''Me'',
      pf_status_message = None, pf_allow_search_by_user_id = True, pf_allow_search_by_email = False,
      pf_picture_path = Some ''/p'', pf_status_message_content_metadata = None, pf_nft_profile = False,
      pf_profile_id = None, pf_profile_type = 3, pf_created_time_millis = 1700000000000, pf_raw = JNull\<rparr>"

theorem profile_roundtrip_witness:
  "case enil_db_talk_profile_get demo_env (snd (enil_db_talk_profile_upsert demo_env demo_profile (demo_db []))) of
      (None, D') \<Rightarrow> False
    | (Some base, D') \<Rightarrow> list_all (\<lambda>f. base (offset f) = stored_field (profile_base demo_profile (offset f))) talk_profile_fields"
  by (rule profile_roundtrip [OF demo_env_ok])
    (simp_all add: demo_db_def demo_tables_def demo_profile_def INT_MIN_def INT_MAX_def)

theorem chat_delete_atomic_witness:
  "case enil_db_chat_delete demo_env (Some ''c'') (demo_db [(''m1'', demo_row 10)]) of (rc, D') \<Rightarrow>
     (rc = SQLITE_OK \<and> tbl D' = without_chat ''c'' (tbl (demo_db [(''m1'', demo_row 10)])) \<and> marks D' = []) \<or>
     (rc \<noteq> SQLITE_OK \<and> tbl D' = tbl (demo_db [(''m1'', demo_row 10)]) \<and> marks D' = []) \<or>
     (rc \<noteq> SQLITE_OK \<and> tbl D' = without_chat ''c'' (tbl (demo_db [(''m1'', demo_row 10)])) \<and>
      marks D' = [tbl (demo_db [(''m1'', demo_row 10)])])"
  by (rule chat_delete_atomic) (simp add: demo_db_def)

end
