(* ===== verification/ENIL_DbPages.thy ===== *)
theory ENIL_DbPages
  imports ENIL_DbRows
begin

text \<open>
  The pages of a chat, as \<open>source/shared/enil_account.c\<close> asks for them: the newest page first, then
  always the page before the oldest message shown.
\<close>

section \<open>Asking for pages\<close>

text \<open>\<open>enil_account_chat_page_html\<close>: the rows shown, whether there are older ones, the oldest time.\<close>

definition page_size_or_default :: "int \<Rightarrow> nat" where
  "page_size_or_default n = (if n \<le> 0 then 40 else nat n)"

definition oldest_time :: "(string \<times> message_row) list \<Rightarrow> int" where
  "oldest_time rows = (case rows of [] \<Rightarrow> 0 | (i, r) # _ \<Rightarrow> r_createdTime r)"

definition account_first_page :: "'j db_env \<Rightarrow> string \<Rightarrow> int \<Rightarrow> db \<Rightarrow> ((string \<times> message_row) list \<times> bool \<times> int) \<times> db" where
  "account_first_page E chat_id page_size D =
     (if chat_id = [] then (([], False, 0), D)
      else (case enil_db_message_rows_get_page E chat_id 0 (page_size_or_default page_size) D of
              (None, D') \<Rightarrow> (([], False, 0), D')
            | (Some (rows, has_more), D') \<Rightarrow> ((rows, has_more, oldest_time rows), D')))"

text \<open>\<open>enil_account_prepend_messages_js\<close>: the page before a time, if there is one.\<close>

definition account_older_page ::
  "'j db_env \<Rightarrow> string \<Rightarrow> int \<Rightarrow> int \<Rightarrow> db \<Rightarrow> ((string \<times> message_row) list \<times> bool \<times> int) \<times> db" where
  "account_older_page E chat_id before page_size D =
     (if chat_id = [] \<or> before \<le> 0 then (([], False, before), D)
      else (case enil_db_message_rows_get_page E chat_id before (page_size_or_default page_size) D of
              (None, D') \<Rightarrow> (([], False, before), D')
            | (Some (rows, has_more), D') \<Rightarrow>
                if rows = [] then (([], False, before), D') else ((rows, has_more, oldest_time rows), D')))"

text \<open>A reader that scrolls up: at most \<open>n\<close> more pages, while the last one said there are older messages.\<close>

fun scroll_up ::
  "'j db_env \<Rightarrow> string \<Rightarrow> int \<Rightarrow> nat \<Rightarrow> (string \<times> message_row) list \<times> bool \<times> int \<Rightarrow> db \<Rightarrow> (string \<times> message_row) list \<times> bool \<times> db" where
  "scroll_up E chat_id page_size 0 (rows, has_more, oldest) D = (rows, has_more, D)"
| "scroll_up E chat_id page_size (Suc n) (rows, has_more, oldest) D =
     (if \<not> has_more then (rows, has_more, D)
      else (case account_older_page E chat_id oldest page_size D of
              ((older, more', oldest'), D') \<Rightarrow> scroll_up E chat_id page_size n (older @ rows, more', oldest') D'))"

definition read_whole_chat :: "'j db_env \<Rightarrow> string \<Rightarrow> int \<Rightarrow> nat \<Rightarrow> db \<Rightarrow> (string \<times> message_row) list \<times> bool \<times> db" where
  "read_whole_chat E chat_id page_size n D =
     (case account_first_page E chat_id page_size D of (p, D') \<Rightarrow> scroll_up E chat_id page_size n p D')"

section \<open>Newest first\<close>

text \<open>What \<open>ORDER BY createdTime DESC\<close> promises: the same rows, the newest first.\<close>

locale newest_order =
  fixes ord :: "(string \<times> message_row) list \<Rightarrow> (string \<times> message_row) list"
  assumes same_rows: "mset (ord xs) = mset xs"
    and newest: "sorted_wrt (\<lambda>x y. time_of y \<le> time_of x) (ord xs)"
begin

lemma set_ord: "set (ord xs) = set xs"
  by (metis same_rows set_mset_mset)

lemma strictly:
  assumes "distinct (map time_of xs)"
  shows "sorted_wrt (\<lambda>x y. time_of y < time_of x) (ord xs)"
proof -
  have "mset (map time_of (ord xs)) = mset (map time_of xs)" using same_rows [of xs] by simp
  with assms have "distinct (map time_of (ord xs))" by (metis mset_eq_imp_distinct_iff)
  with newest [of xs] show ?thesis
    by (induction "ord xs" arbitrary: xs rule: measure_induct_rule [of length])
      (auto simp: sorted_wrt_iff_nth_less distinct_conv_nth order_less_le)
qed

end

interpretation sqlite_order: newest_order by_time_desc
proof
  show "mset (by_time_desc xs) = mset xs" for xs by (simp add: by_time_desc_def)
  have "sorted_wrt (\<lambda>x y. time_of x \<le> time_of y) (sort_key time_of xs)" for xs
    using sorted_sort_key [of time_of xs] by (simp add: sorted_map)
  then show "sorted_wrt (\<lambda>x y. time_of y \<le> time_of x) (by_time_desc xs)" for xs
    by (simp add: by_time_desc_def sorted_wrt_rev)
qed

lemma strictly_sorted_unique:
  assumes "sorted_wrt (\<lambda>x y. f y < (f x :: int)) xs" "sorted_wrt (\<lambda>x y. f y < f x) ys" "set xs = set ys"
  shows "xs = ys"
  using assms
proof (induction xs arbitrary: ys)
  case (Cons x xs)
  then obtain y ys' where ys: "ys = y # ys'" by (cases ys) auto
  have "x = y"
  proof (rule ccontr)
    assume "x \<noteq> y"
    with Cons.prems ys have "x \<in> set ys'" "y \<in> set xs" by auto
    with Cons.prems ys have "f x < f y" "f y < f x" by auto
    then show False by simp
  qed
  moreover have "x \<notin> set xs" "y \<notin> set ys'" using Cons.prems ys by auto
  ultimately have "set xs = set ys'" using Cons.prems(3) ys by auto
  with Cons ys \<open>x = y\<close> show ?case by simp
qed simp

section \<open>Every message exactly once\<close>

definition chat_rows :: "string \<Rightarrow> tables \<Rightarrow> (string \<times> message_row) list" where
  "chat_rows chat_id T = filter (\<lambda>(i, r). r_chat_id r = chat_id) (messages T)"

definition older_than :: "int \<Rightarrow> (string \<times> message_row) list \<Rightarrow> (string \<times> message_row) list" where
  "older_than t rows = filter (\<lambda>x. t = 0 \<or> time_of x < t) rows"

lemma get_page_ok:
  "no_faults E \<Longrightarrow> 0 < limit \<Longrightarrow>
   enil_db_message_rows_get_page E c before limit D =
     (Some (rev (take limit (newest_first E (older_than before (chat_rows c (tbl D))))),
            limit < length (newest_first E (older_than before (chat_rows c (tbl D))))), D\<lparr>clock := Suc (clock D)\<rparr>)"
  by (simp add: enil_db_message_rows_get_page_def query_ok older_than_def chat_rows_def case_prod_unfold conj_ac)

text \<open>The rows before a time, newest first, and what is older than the last of the first \<open>n\<close> of them.\<close>

context newest_order
begin

lemma before_strictly:
  "distinct (map time_of rows) \<Longrightarrow> sorted_wrt (\<lambda>x y. time_of y < time_of x) (ord (older_than t rows))"
  by (rule strictly) (simp add: older_than_def distinct_map_filter)

lemma last_shown:
  assumes "0 < n" and "n \<le> length (ord (older_than b rows))"
  shows "oldest_time (rev (take n (ord (older_than b rows)))) = time_of (ord (older_than b rows) ! (n - 1))"
proof -
  obtain m where m: "n = Suc m" using assms(1) by (cases n) auto
  have "rev (take (Suc m) (ord (older_than b rows))) = ord (older_than b rows) ! m # rev (take m (ord (older_than b rows)))"
    using assms(2) by (simp add: m take_Suc_conv_app_nth)
  then show ?thesis by (simp add: m oldest_time_def case_prod_unfold)
qed

lemma rest_is_older:
  assumes times: "distinct (map time_of rows)" and n: "0 < n" "n \<le> length (ord (older_than b rows))" and t: "t = oldest_time (rev (take n (ord (older_than b rows))))" "t \<noteq> 0"
  shows "ord (older_than t rows) = drop n (ord (older_than b rows))"
proof (rule strictly_sorted_unique [where f = time_of])
  show "sorted_wrt (\<lambda>x y. time_of y < time_of x) (ord (older_than t rows))" by (rule before_strictly [OF times])
  show "sorted_wrt (\<lambda>x y. time_of y < time_of x) (drop n (ord (older_than b rows)))"
    by (rule sorted_wrt_drop [OF before_strictly [OF times]])
  have t': "t = time_of (ord (older_than b rows) ! (n - 1))" using last_shown [OF n] t by simp
  have "ord (older_than b rows) ! (n - 1) \<in> set (ord (older_than b rows))" using n by simp
  then have tb: "b = 0 \<or> t < b" by (auto simp: t' set_ord older_than_def)
  have last: "n - 1 < length (ord (older_than b rows))" using n by linarith
  have idx: "time_of (ord (older_than b rows) ! i) < t \<longleftrightarrow> n \<le> i" if "i < length (ord (older_than b rows))" for i
    using sorted_wrt_nth_less [OF before_strictly [OF times], of "n - 1" i b] sorted_wrt_nth_less [OF before_strictly [OF times], of i "n - 1" b]
      n last that by (cases "i < n - 1"; cases "i = n - 1") (auto simp: t' not_less)
  have "set (drop n (ord (older_than b rows))) = {x \<in> set (ord (older_than b rows)). time_of x < t}"
  proof (intro set_eqI iffI)
    fix x assume "x \<in> set (drop n (ord (older_than b rows)))"
    then obtain j where j: "j < length (ord (older_than b rows)) - n" "x = ord (older_than b rows) ! (n + j)" by (auto simp: in_set_conv_nth)
    then show "x \<in> {x \<in> set (ord (older_than b rows)). time_of x < t}" using idx [of "n + j"] by simp
  next
    fix x assume x: "x \<in> {x \<in> set (ord (older_than b rows)). time_of x < t}"
    then obtain i where i: "i < length (ord (older_than b rows))" "x = ord (older_than b rows) ! i" by (auto simp: in_set_conv_nth)
    with x idx have "n \<le> i" by auto
    then have "x = drop n (ord (older_than b rows)) ! (i - n)" "i - n < length (drop n (ord (older_than b rows)))" using i by auto
    then show "x \<in> set (drop n (ord (older_than b rows)))" by (metis nth_mem)
  qed
  also have "\<dots> = set (ord (older_than t rows))" using tb t(2) by (auto simp: set_ord older_than_def)
  finally show "set (ord (older_than t rows)) = set (drop n (ord (older_than b rows)))" by simp
qed

end


lemma scroll_complete:
  assumes E: "no_faults E" and ord: "newest_order (newest_first E)" and c: "c \<noteq> []"
    and times: "distinct (map time_of (chat_rows c (tbl D)))" "\<forall>x \<in> set (chat_rows c (tbl D)). 0 < time_of x"
    and L: "L = newest_first E (chat_rows c (tbl D))" and k: "0 < k" "k \<le> length L" and n: "length L - k \<le> n"
  shows "\<exists>j. scroll_up E c ps n (rev (take k L), k < length L, oldest_time (rev (take k L))) D = (rev L, False, D\<lparr>clock := j\<rparr>)"
  using times L k n
proof (induction n arbitrary: k D)
  case 0
  then show ?case by (intro exI [of _ "clock D"]) simp
next
  case (Suc n)
  note ord_facts = newest_order.last_shown [OF ord] newest_order.rest_is_older [OF ord] newest_order.set_ord [OF ord] newest_order.same_rows [OF ord]
  let ?rows = "chat_rows c (tbl D)"
  have L0: "L = newest_first E (older_than 0 ?rows)" using Suc.prems by (simp add: older_than_def)
  show ?case
  proof (cases "k < length L")
    case False
    with Suc.prems show ?thesis by (intro exI [of _ "clock D"]) simp
  next
    case True
    define t where "t = oldest_time (rev (take k L))"
    have "t = time_of (L ! (k - 1))"
      using ord_facts(1) [of k 0 ?rows] Suc.prems(4,5) by (simp add: t_def L0)
    moreover have "L ! (k - 1) \<in> set ?rows"
      using Suc.prems(4,5) ord_facts(3) [of ?rows] Suc.prems(3) nth_mem [of "k - 1" L] by simp
    ultimately have t0: "0 < t" using Suc.prems(2) by simp
    then have rest: "newest_first E (older_than t ?rows) = drop k L"
      using ord_facts(2) [of ?rows k 0 t] Suc.prems by (simp add: t_def L0)
    define m where "m = page_size_or_default ps"
    have m: "0 < m" by (simp add: m_def page_size_or_default_def)
    define k' where "k' = min (k + m) (length L)"
    have k': "0 < k'" "k' \<le> length L" "length L - k' \<le> n" "k < k'" using Suc.prems True m by (auto simp: k'_def)
    define D' where "D' = D\<lparr>clock := Suc (clock D)\<rparr>"
    have page: "enil_db_message_rows_get_page E c t m D = (Some (rev (take m (drop k L)), m < length (drop k L)), D')"
      using get_page_ok [OF E m, of c t D] by (simp only: rest D'_def)
    have rows: "rev (take m (drop k L)) @ rev (take k L) = rev (take k' L)"
      by (simp add: k'_def take_add min_def flip: rev_append)
    have "oldest_time (rev (take m (drop k L))) = oldest_time (rev (take m (drop k L)) @ rev (take k L))"
      using True m by (auto simp: oldest_time_def split: list.splits)
    then have old: "oldest_time (rev (take m (drop k L))) = oldest_time (rev (take k' L))" by (simp only: rows)
    have more: "m < length (drop k L) \<longleftrightarrow> k' < length L" using True by (auto simp: k'_def)
    have ne: "rev (take m (drop k L)) \<noteq> []" using True m by simp
    have "account_older_page E c t ps D = ((rev (take m (drop k L)), k' < length L, oldest_time (rev (take k' L))), D')"
      using c t0 ne by (simp add: account_older_page_def m_def [symmetric] page old more [unfolded length_drop])
    then have "scroll_up E c ps (Suc n) (rev (take k L), k < length L, t) D =
        scroll_up E c ps n (rev (take k' L), k' < length L, oldest_time (rev (take k' L))) D'"
      using True by (simp add: rows)
    moreover have "\<exists>j. scroll_up E c ps n (rev (take k' L), k' < length L, oldest_time (rev (take k' L))) D' = (rev L, False, D'\<lparr>clock := j\<rparr>)"
      using Suc.prems by (intro Suc.IH k') (simp_all add: D'_def)
    ultimately show ?thesis by (simp add: t_def D'_def)
  qed
qed


lemma whole_chat:
  assumes E: "no_faults E" and ord: "newest_order (newest_first E)" and c: "c \<noteq> []"
    and times: "distinct (map time_of (chat_rows c (tbl D)))" "\<forall>x \<in> set (chat_rows c (tbl D)). 0 < time_of x"
    and n: "length (chat_rows c (tbl D)) \<le> n"
  shows "\<exists>j. read_whole_chat E c ps n D = (rev (newest_first E (chat_rows c (tbl D))), False, D\<lparr>clock := j\<rparr>)"
proof -
  note ord_facts = newest_order.last_shown [OF ord] newest_order.rest_is_older [OF ord] newest_order.set_ord [OF ord] newest_order.same_rows [OF ord]
  define L where "L = newest_first E (chat_rows c (tbl D))"
  have len: "length L = length (chat_rows c (tbl D))" using ord_facts(4) mset_eq_length unfolding L_def by blast
  define m where "m = page_size_or_default ps"
  have m: "0 < m" by (simp add: m_def page_size_or_default_def)
  have "older_than 0 xs = xs" for xs by (simp add: older_than_def)
  then have page: "account_first_page E c ps D =
      ((rev (take m L), m < length L, oldest_time (rev (take m L))), D\<lparr>clock := Suc (clock D)\<rparr>)"
    using get_page_ok [OF E m, of c 0 D] c by (simp add: account_first_page_def m_def [symmetric] L_def [symmetric])
  show ?thesis
  proof (cases "L = []")
    case True
    have "scroll_up E c ps n ([], False, t) D' = ([], False, D')" for t D' by (cases n) simp_all
    with True page show ?thesis
      by (intro exI [of _ "Suc (clock D)"]) (simp add: read_whole_chat_def L_def [symmetric])
  next
    case False
    define k where "k = min m (length L)"
    have k: "0 < k" "k \<le> length L" "length L - k \<le> n" using False m n len by (auto simp: k_def)
    have t: "take m L = take k L" "m < length L \<longleftrightarrow> k < length L" by (auto simp: k_def min_def)
    have "\<exists>j. scroll_up E c ps n (rev (take k L), k < length L, oldest_time (rev (take k L))) (D\<lparr>clock := Suc (clock D)\<rparr>) =
        (rev L, False, D\<lparr>clock := Suc (clock D), clock := j\<rparr>)"
      by (rule scroll_complete [OF E ord c _ _ _ k]) (use times in \<open>simp_all add: L_def\<close>)
    then show ?thesis by (simp add: read_whole_chat_def page t L_def [symmetric])
  qed
qed

text \<open>Scrolling up through a chat shows every message of it exactly once, the oldest first, and ends by
  saying that there are no older ones: for every page size, when the messages of the chat have
  different, positive times, with as many steps as the chat has messages.\<close>

theorem chat_pages_complete:
  assumes "no_faults E" and "newest_order (newest_first E)" and "c \<noteq> []"
    and "distinct (map time_of (chat_rows c (tbl D)))" and "\<forall>x \<in> set (chat_rows c (tbl D)). 0 < time_of x"
    and "length (chat_rows c (tbl D)) \<le> n"
  shows "case read_whole_chat E c ps n D of (rows, has_more, D') \<Rightarrow>
    mset rows = mset (chat_rows c (tbl D)) \<and> sorted_wrt (\<lambda>x y. time_of x < time_of y) rows \<and> \<not> has_more \<and> tbl D' = tbl D"
proof -
  obtain j where "read_whole_chat E c ps n D = (rev (newest_first E (chat_rows c (tbl D))), False, D\<lparr>clock := j\<rparr>)"
    using whole_chat [OF assms] by blast
  then show ?thesis using newest_order.same_rows [OF assms(2)] newest_order.strictly [OF assms(2) assms(4)] by (simp add: sorted_wrt_rev)
qed

section \<open>Witnesses\<close>

lemma demo_env_ordered: "newest_order (newest_first demo_env)"
  using sqlite_order.newest_order_axioms by (simp add: demo_env_def)

theorem chat_pages_complete_witness:
  "case read_whole_chat demo_env ''c'' 1 2 (demo_db [(''m1'', demo_row 10), (''m2'', demo_row 20)]) of (rows, has_more, D') \<Rightarrow>
    mset rows = mset [(''m1'', demo_row 10), (''m2'', demo_row 20)] \<and> sorted_wrt (\<lambda>x y. time_of x < time_of y) rows \<and> \<not> has_more \<and>
    tbl D' = tbl (demo_db [(''m1'', demo_row 10), (''m2'', demo_row 20)])"
  using chat_pages_complete [OF demo_env_ok demo_env_ordered, of "''c''" "demo_db [(''m1'', demo_row 10), (''m2'', demo_row 20)]" 2 1]
  by (simp add: chat_rows_def demo_db_def demo_tables_def)

text \<open>With equal times the row after the page boundary is never shown: the second page asks for older times only.\<close>

lemma equal_times_lost:
  "fst (read_whole_chat demo_env ''c'' 1 n (demo_db [(''m1'', demo_row 10), (''m2'', demo_row 10)])) = [(''m2'', demo_row 10)]"
proof -
  let ?D = "demo_db [(''m1'', demo_row 10), (''m2'', demo_row 10)]"
  have rows: "chat_rows ''c'' (tbl ?D) = [(''m1'', demo_row 10), (''m2'', demo_row 10)]" for j
    by (simp add: chat_rows_def demo_db_def demo_tables_def)
  have first: "account_first_page demo_env ''c'' 1 ?D = (([(''m2'', demo_row 10)], True, 10), ?D\<lparr>clock := Suc (clock ?D)\<rparr>)"
    using get_page_ok [OF demo_env_ok, of 1 "''c''" 0 ?D]
    by (simp add: account_first_page_def page_size_or_default_def rows older_than_def demo_env_def by_time_desc_def oldest_time_def)
  have again: "account_older_page demo_env ''c'' 10 1 (?D\<lparr>clock := j\<rparr>) = (([], False, 10), ?D\<lparr>clock := Suc j\<rparr>)" for j
    using get_page_ok [OF demo_env_ok, of 1 "''c''" 10 "?D\<lparr>clock := j\<rparr>"]
    by (simp add: account_older_page_def page_size_or_default_def rows older_than_def demo_env_def by_time_desc_def)
  have stop: "scroll_up demo_env ''c'' 1 n (rs, False, t) D = (rs, False, D)" for n rs t D
    by (cases n) simp_all
  show ?thesis
    by (cases n) (simp_all add: read_whole_chat_def first again stop)
qed

end
