(* ===== verification/ENIL_E2ee.thy ===== *)
theory ENIL_E2ee
  imports ENIL_TalkSend ENIL_Base64
begin

text \<open>
  The end-to-end decryption of \<open>source/shared/enil_sync.c\<close>: the key ids and the ciphertext in a
  message's chunks, the caches of public and group keys, and the request made of the worker for a
  user message and for a group message.  The worker call (\<open>enil_worker_decrypt\<close>) and the TalkService
  transport move a world \<open>'w\<close>; memory is not exhausted.
\<close>

record ('w, 'j) e2ee_env =
  et :: "('w, 'j) talk_env"
  evp_decode :: "string \<Rightarrow> byte list option"
  evp_encode :: "byte list \<Rightarrow> string"
  worker_decrypt :: "string \<Rightarrow> 'j \<Rightarrow> 'w \<Rightarrow> 'j option \<times> 'w"

section \<open>Chunks\<close>

definition wrap64 :: "int \<Rightarrow> int" where
  "wrap64 n = sint (word_of_int n :: 64 word)"

text \<open>
  A chunk read as a big-endian number, with the wrap-around of \<open>long long\<close>.  \<open>enil_b64_decode\<close> is not
  told the size of the buffer; \<open>key_id_overrun\<close> says that it writes past its end.
\<close>

definition KEY_ID_ROOM :: nat where "KEY_ID_ROOM = 32"

definition parse_key_id :: "(string \<Rightarrow> byte list option) \<Rightarrow> string option \<Rightarrow> int" where
  "parse_key_id decode chunk =
     (case chunk of
        None \<Rightarrow> 0
      | Some c \<Rightarrow>
          (case enil_b64_decode decode (Some c) of
             None \<Rightarrow> 0
           | Some (out, n) \<Rightarrow>
               if n \<le> 0 then 0
               else foldl (\<lambda>acc b. wrap64 (acc * 256 + int (unat b))) 0 (take (min (nat n) KEY_ID_ROOM) out)))"

definition key_id_overrun :: "(string \<Rightarrow> byte list option) \<Rightarrow> string \<Rightarrow> bool" where
  "key_id_overrun decode c =
     (case enil_b64_decode decode (Some c) of None \<Rightarrow> False | Some (out, n) \<Rightarrow> KEY_ID_ROOM < length out)"

definition is_unsupported_location_message :: "'j cjson \<Rightarrow> 'j \<Rightarrow> bool" where
  "is_unsupported_location_message J msg \<longleftrightarrow> enil_json_coerce_int64 J (getItem J msg ''contentType'') = 15"

text \<open>
  The ciphertext buffer as the writes made to it, each at an offset from its start: a failed decode
  returns -1, writes nothing, and the next chunk is written relative to that -1.
\<close>

type_synonym buf_writes = "(int \<times> byte list) list"

definition decode_at :: "(string \<Rightarrow> byte list option) \<Rightarrow> string \<Rightarrow> int \<Rightarrow> buf_writes \<Rightarrow> int \<times> buf_writes" where
  "decode_at decode c off ws =
     (case enil_b64_decode decode (Some c) of None \<Rightarrow> (-1, ws) | Some (out, n) \<Rightarrow> (n, (off, out) # ws))"

definition cell :: "buf_writes \<Rightarrow> int \<Rightarrow> byte" where
  "cell ws i =
     (case filter (\<lambda>(off, bs). off \<le> i \<and> i < off + int (length bs)) ws of
        [] \<Rightarrow> 0
      | (off, bs) # _ \<Rightarrow> bs ! nat (i - off))"

definition cipher_room :: "string \<Rightarrow> string \<Rightarrow> string \<Rightarrow> nat" where
  "cipher_room c0 c1 c2 = (length c0 + length c1 + length c2) * 3 div 4 + 4"

text \<open>Version 1 takes the chunks in order, version 2 swaps the last two.\<close>

definition cipher_writes :: "(string \<Rightarrow> byte list option) \<Rightarrow> string \<Rightarrow> string \<Rightarrow> string \<Rightarrow> int \<Rightarrow> (int \<times> int \<times> int) \<times> buf_writes" where
  "cipher_writes decode c0 c1 c2 version =
     (case decode_at decode c0 0 [] of
        (n0, ws0) \<Rightarrow>
          if version = 1
          then (case decode_at decode c1 n0 ws0 of
                  (n1, ws1) \<Rightarrow> (case decode_at decode c2 (n0 + n1) ws1 of (n2, ws2) \<Rightarrow> ((n0, n1, n2), ws2)))
          else (case decode_at decode c2 n0 ws0 of
                  (n2, ws2) \<Rightarrow> (case decode_at decode c1 (n0 + n2) ws2 of (n1, ws1) \<Rightarrow> ((n0, n1, n2), ws1))))"

definition build_ciphertext :: "('w, 'j) e2ee_env \<Rightarrow> 'j \<Rightarrow> int \<Rightarrow> string option" where
  "build_ciphertext E chunks version =
     (let J = tj (et E); kids = map snd (children J chunks)
      in if \<not> isArray J chunks \<or> length kids < 3 then None
         else (case (jstr J (Some (kids ! 0)), jstr J (Some (kids ! 1)), jstr J (Some (kids ! 2))) of
                 (Some c0, Some c1, Some c2) \<Rightarrow>
                   (case cipher_writes (evp_decode E) c0 c1 c2 version of
                      ((n0, n1, n2), ws) \<Rightarrow>
                        if n0 < 0 \<or> n1 < 0 \<or> n2 < 0 then None
                        else Some (enil_b64_encode (evp_encode E) (map (cell ws) [0..n0 + n1 + n2 - 1])))
               | _ \<Rightarrow> None))"

section \<open>Keys\<close>

definition find_private_key :: "'j cjson \<Rightarrow> 'j option \<Rightarrow> int \<Rightarrow> string option" where
  "find_private_key J keys key_id =
     Option.bind
       (List.find (\<lambda>entry.
          (case getItem J entry ''keyId'' of
             None \<Rightarrow> 0
           | Some k \<Rightarrow> if isNumber J k then trunc (valuedouble J k) else 0) = key_id \<and>
          jis (isString J) (getItem J entry ''exportedKey''))
        (map snd (jkids J (keep_if (isArray J) keys))))
       (\<lambda>entry. jstr J (getItem J entry ''exportedKey''))"

text \<open>
  Both caches are one scheme: the first stored answer for the key, else ask and keep what is found.
  No cache (a null pointer) always asks.
\<close>

definition memo_get ::
  "('k \<Rightarrow> 'w \<Rightarrow> 'v option \<times> 'w) \<Rightarrow> 'k \<Rightarrow> ('k \<times> 'v) list option \<Rightarrow> 'w \<Rightarrow> 'v option \<times> ('k \<times> 'v) list option \<times> 'w" where
  "memo_get fetch k c W =
     (case Option.bind c (\<lambda>t. map_of t k) of
        Some v \<Rightarrow> (Some v, c, W)
      | None \<Rightarrow>
          (case fetch k W of
             (None, W') \<Rightarrow> (None, c, W')
           | (Some v, W') \<Rightarrow> (Some v, map_option (\<lambda>t. t @ [(k, v)]) c, W')))"

type_synonym pubkey_cache = "((string \<times> int) \<times> string) list"
type_synonym 'j group_key_cache = "((string \<times> int) \<times> 'j talk_e2ee_group_shared_key_t) list"

definition fetch_pubkey :: "('w, 'j) e2ee_env \<Rightarrow> string \<Rightarrow> string \<times> int \<Rightarrow> 'w \<Rightarrow> string option \<times> 'w" where
  "fetch_pubkey E token k W = TalkService_getE2EEPublicKey (et E) (Some (fst k)) (snd k) (Some token) W"

definition fetch_group_key ::
  "('w, 'j) e2ee_env \<Rightarrow> string \<Rightarrow> string \<times> int \<Rightarrow> 'w \<Rightarrow> 'j talk_e2ee_group_shared_key_t option \<times> 'w" where
  "fetch_group_key E token k W = talk_get_e2ee_group_shared_key (et E) (Some token) (Some (fst k)) (snd k) W"

definition pubkey_cache_get ::
  "('w, 'j) e2ee_env \<Rightarrow> pubkey_cache option \<Rightarrow> string \<Rightarrow> int \<Rightarrow> string \<Rightarrow> 'w \<Rightarrow> string option \<times> pubkey_cache option \<times> 'w" where
  "pubkey_cache_get E c mid key_id token W = memo_get (fetch_pubkey E token) (mid, key_id) c W"

text \<open>A hit hands out a deep copy, which has the same value (its allocations are taken to succeed).\<close>

definition group_key_cache_get ::
  "('w, 'j) e2ee_env \<Rightarrow> 'j group_key_cache option \<Rightarrow> string \<Rightarrow> string \<Rightarrow> int \<Rightarrow> 'w \<Rightarrow>
   'j talk_e2ee_group_shared_key_t option \<times> 'j group_key_cache option \<times> 'w" where
  "group_key_cache_get E c token group_mid group_key_id W = memo_get (fetch_group_key E token) (group_mid, group_key_id) c W"

section \<open>Decrypting one message\<close>

text \<open>What a decryption leaves behind, and what it yields.\<close>

record ('w, 'j) e2ee_state =
  pub_cache :: "pubkey_cache option"
  grp_cache :: "'j group_key_cache option"
  restore :: "'j option"
  restore_changed :: bool
  world :: 'w

record decrypted =
  plain :: "string option"
  key_material :: "string option"
  replace_json :: "string option"

definition not_decrypted :: decrypted where
  "not_decrypted = \<lparr>plain = None, key_material = None, replace_json = None\<rparr>"

text \<open>The parts of a message both kinds need: chunks, metadata, sender, receiver and a known version.\<close>

definition sealed_parts :: "'j cjson \<Rightarrow> 'j \<Rightarrow> ('j \<times> 'j \<times> string \<times> string \<times> int) option" where
  "sealed_parts J msg =
     (case (keep_if (\<lambda>c. isArray J c \<and> 5 \<le> length (children J c)) (getItem J msg ''chunks''),
            keep_if (isObject J) (getItem J msg ''contentMetadata''),
            jstr J (getItem J msg ''from''), jstr J (getItem J msg ''to'')) of
        (Some chunks, Some meta, Some from_mid, Some to_mid) \<Rightarrow>
          (let version = wrap32 (enil_json_coerce_int64 J (getItem J meta ''e2eeVersion''))
           in if version \<noteq> 1 \<and> version \<noteq> 2 then None else Some (chunks, meta, from_mid, to_mid, version))
      | _ \<Rightarrow> None)"

definition chunk_key_id :: "('w, 'j) e2ee_env \<Rightarrow> 'j \<Rightarrow> nat \<Rightarrow> int" where
  "chunk_key_id E chunks n =
     parse_key_id (evp_decode E) (jstr (tj (et E)) (Some (map snd (children (tj (et E)) chunks) ! n)))"

definition with_content_type :: "'j cjson \<Rightarrow> 'j \<Rightarrow> (string \<times> 'j) list" where
  "with_content_type J msg =
     (case getItem J msg ''contentType'' of None \<Rightarrow> [] | Some c \<Rightarrow> [(''contentType'', mkNumber J (valuedouble J c))])"

definition with_restore :: "'j option \<Rightarrow> (string \<times> 'j) list" where
  "with_restore r = (case r of None \<Rightarrow> [] | Some j \<Rightarrow> [(''workerRestoreState'', j)])"

text \<open>Ask the worker and read its answer; a new restore state replaces the old one.\<close>

definition ask_worker ::
  "('w, 'j) e2ee_env \<Rightarrow> string \<Rightarrow> (string \<times> 'j) list \<Rightarrow> ('w, 'j) e2ee_state \<Rightarrow> decrypted \<times> ('w, 'j) e2ee_state" where
  "ask_worker E path payload S =
     (let J = tj (et E)
      in case worker_decrypt E path (object_of J (payload @ with_restore (restore S))) (world S) of
           (None, W) \<Rightarrow> (not_decrypted, S\<lparr>world := W\<rparr>)
         | (Some response, W) \<Rightarrow>
             (let p = getItem J response ''payload'';
                  S1 = S\<lparr>world := W\<rparr>;
                  km = jstr J (jgeti J p ''keyMaterial'')
              in (\<lparr>plain = jstr J (jgeti J p ''text''), key_material = (if nonempty km then km else None),
                   replace_json = map_option (printText J) (jgeti J p ''REPLACE'')\<rparr>,
                  (case getItem J response ''workerRestoreState'' of
                     None \<Rightarrow> S1
                   | Some new_state \<Rightarrow> S1\<lparr>restore := Some new_state, restore_changed := True\<rparr>))))"

definition user_payload ::
  "('w, 'j) e2ee_env \<Rightarrow> 'j \<Rightarrow> string \<Rightarrow> int \<Rightarrow> string \<Rightarrow> string \<Rightarrow> int \<Rightarrow> int \<Rightarrow> string \<Rightarrow> string \<Rightarrow> int \<Rightarrow> int \<Rightarrow> string \<Rightarrow> (string \<times> 'j) list" where
  "user_payload E msg private_key private_key_id peer_public_key peer_mid peer_key_id version to_mid from_mid
     sender_key_id receiver_key_id ciphertext =
     (let J = tj (et E); n = (\<lambda>i. mkNumber J (double_of_int i))
      in [(''privateKey'', mkString J private_key), (''privateKeyId'', n private_key_id),
          (''peerPublicKey'', mkString J peer_public_key), (''peerMid'', mkString J peer_mid), (''peerKeyId'', n peer_key_id)] @
         (if version = 2
          then [(''to'', mkString J to_mid), (''from'', mkString J from_mid), (''senderKeyId'', n sender_key_id),
                (''receiverKeyId'', n receiver_key_id)] @ with_content_type J msg
          else []) @
         [(''ciphertext'', mkString J ciphertext)])"

definition decrypt_user_message ::
  "('w, 'j) e2ee_env \<Rightarrow> 'j \<Rightarrow> string option \<Rightarrow> string \<Rightarrow> 'j option \<Rightarrow> ('w, 'j) e2ee_state \<Rightarrow> decrypted \<times> ('w, 'j) e2ee_state" where
  "decrypt_user_message E msg my_mid token keys S =
     (case sealed_parts (tj (et E)) msg of
        None \<Rightarrow> (not_decrypted, S)
      | Some (chunks, meta, from_mid, to_mid, version) \<Rightarrow>
          (let sender_key_id = chunk_key_id E chunks 3; receiver_key_id = chunk_key_id E chunks 4;
               from_me = (my_mid = Some from_mid);
               private_key_id = (if from_me then sender_key_id else receiver_key_id);
               peer_key_id = (if from_me then receiver_key_id else sender_key_id);
               peer_mid = (if from_me then to_mid else from_mid)
           in case find_private_key (tj (et E)) keys private_key_id of
                None \<Rightarrow> (not_decrypted, S)
              | Some private_key \<Rightarrow>
                  (case pubkey_cache_get E (pub_cache S) peer_mid peer_key_id token (world S) of
                     (None, c, W) \<Rightarrow> (not_decrypted, S\<lparr>pub_cache := c, world := W\<rparr>)
                   | (Some peer_public_key, c, W) \<Rightarrow>
                       (let S1 = S\<lparr>pub_cache := c, world := W\<rparr>
                        in case build_ciphertext E chunks version of
                             None \<Rightarrow> (not_decrypted, S1)
                           | Some ciphertext \<Rightarrow>
                               ask_worker E (if version = 1 then ''/e2ee/decrypt-user-v1'' else ''/e2ee/decrypt-user-v2'')
                                 (user_payload E msg private_key private_key_id peer_public_key peer_mid peer_key_id version
                                    to_mid from_mid sender_key_id receiver_key_id ciphertext) S1))))"

definition group_payload ::
  "('w, 'j) e2ee_env \<Rightarrow> 'j \<Rightarrow> string \<Rightarrow> 'j talk_e2ee_group_shared_key_t \<Rightarrow> string \<Rightarrow> string \<Rightarrow> int \<Rightarrow> int \<Rightarrow> string \<Rightarrow> string \<Rightarrow> string \<Rightarrow> int \<Rightarrow> (string \<times> 'j) list" where
  "group_payload E msg my_private_key gk group_mid from_mid sender_key_id group_key_id creator_pub sender_pub ciphertext version =
     (let J = tj (et E); n = (\<lambda>i. mkNumber J (double_of_int i))
      in [(''myPrivateKey'', mkString J my_private_key), (''myPrivateKeyId'', n (gk_receiverKeyId gk)),
          (''groupMid'', mkString J group_mid), (''groupKey'', gk_raw gk), (''senderMid'', mkString J from_mid),
          (''senderKeyId'', n sender_key_id), (''groupKeyId'', n group_key_id), (''creatorPublicKey'', mkString J creator_pub),
          (''senderPublicKey'', mkString J sender_pub), (''ciphertext'', mkString J ciphertext)] @
         (if version = 2
          then [(''to'', mkString J group_mid), (''from'', mkString J from_mid)] @ with_content_type J msg
          else []))"

definition decrypt_group_message ::
  "('w, 'j) e2ee_env \<Rightarrow> 'j \<Rightarrow> string \<Rightarrow> 'j option \<Rightarrow> ('w, 'j) e2ee_state \<Rightarrow> decrypted \<times> ('w, 'j) e2ee_state" where
  "decrypt_group_message E msg token keys S =
     (case sealed_parts (tj (et E)) msg of
        None \<Rightarrow> (not_decrypted, S)
      | Some (chunks, meta, from_mid, group_mid, version) \<Rightarrow>
          (let sender_key_id = chunk_key_id E chunks 3; group_key_id = chunk_key_id E chunks 4
           in case group_key_cache_get E (grp_cache S) token group_mid group_key_id (world S) of
                (None, g, W) \<Rightarrow> (not_decrypted, S\<lparr>grp_cache := g, world := W\<rparr>)
              | (Some gk, g, W) \<Rightarrow>
                  (let S1 = S\<lparr>grp_cache := g, world := W\<rparr>
                   in case (find_private_key (tj (et E)) keys (gk_receiverKeyId gk), gk_creator gk) of
                        (Some my_private_key, Some creator) \<Rightarrow>
                          (case pubkey_cache_get E (pub_cache S1) creator (gk_creatorKeyId gk) token (world S1) of
                             (creator_pub, c1, W1) \<Rightarrow>
                               (case pubkey_cache_get E c1 from_mid sender_key_id token W1 of
                                  (sender_pub, c2, W2) \<Rightarrow>
                                    (let S2 = S1\<lparr>pub_cache := c2, world := W2\<rparr>
                                     in case (creator_pub, sender_pub, build_ciphertext E chunks version) of
                                          (Some cp, Some sp, Some ciphertext) \<Rightarrow>
                                            ask_worker E (if version = 1 then ''/e2ee/decrypt-group-v1'' else ''/e2ee/decrypt-group-v2'')
                                              (group_payload E msg my_private_key gk group_mid from_mid sender_key_id group_key_id
                                                 cp sp ciphertext version) S2
                                        | _ \<Rightarrow> (not_decrypted, S2))))
                      | _ \<Rightarrow> (not_decrypted, S1))))"

end
