(* ===== verification/ENIL_E2eeFacts.thy ===== *)
theory ENIL_E2eeFacts
  imports ENIL_E2ee
begin

text \<open>
  What the decryption of \<open>ENIL_E2ee\<close> guarantees: the caches change no answer and save every repeated
  question (\<open>key_caches_transparent\<close>), and the ciphertext is put together inside its buffer from the
  chunks in the order of its version (\<open>ciphertext_in_bounds\<close>).
\<close>

section \<open>Caches\<close>

text \<open>A cache in front of a server: a hit asks nothing, a miss asks once and keeps an answer.\<close>

locale lookup_cache =
  fixes get :: "'c \<Rightarrow> 'k \<Rightarrow> 'w \<Rightarrow> 'v option \<times> 'c \<times> 'w"
    and look :: "'c \<Rightarrow> 'k \<Rightarrow> 'v option"
    and fetch :: "'k \<Rightarrow> 'w \<Rightarrow> 'v option \<times> 'w"
  assumes hit: "look c k = Some v \<Longrightarrow> get c k W = (Some v, c, W)"
    and miss: "look c k = None \<Longrightarrow>
      fst (get c k W) = fst (fetch k W) \<and> snd (snd (get c k W)) = snd (fetch k W) \<and>
      look (fst (snd (get c k W))) k' = (if k' = k then fst (fetch k W) else look c k')"

fun run_gets :: "('c \<Rightarrow> 'k \<Rightarrow> 'w \<Rightarrow> 'v option \<times> 'c \<times> 'w) \<Rightarrow> 'c \<Rightarrow> 'k list \<Rightarrow> 'w \<Rightarrow> 'v option list \<times> 'w" where
  "run_gets get c [] W = ([], W)"
| "run_gets get c (k # ks) W =
     (case get c k W of (v, c', W') \<Rightarrow> (case run_gets get c' ks W' of (vs, W'') \<Rightarrow> (v # vs, W'')))"

text \<open>The questions that remain when every answered key is remembered.\<close>

fun asked :: "('k \<Rightarrow> 'v option) \<Rightarrow> 'k set \<Rightarrow> 'k list \<Rightarrow> 'k list" where
  "asked A seen [] = []"
| "asked A seen (k # ks) =
     (if k \<in> seen then asked A seen ks else k # asked A (if A k = None then seen else insert k seen) ks)"

lemma asked_once: "A k \<noteq> None \<Longrightarrow> length (filter ((=) k) (asked A seen ks)) \<le> (if k \<in> seen then 0 else 1)"
proof (induction A seen ks rule: asked.induct)
  case (2 A seen k' ks)
  then show ?case by (cases "k' \<in> seen"; cases "A k' = None"; cases "k = k'") (auto split: if_splits)
qed simp

context lookup_cache
begin

lemma run_static:
  assumes static: "\<And>k W. fst (fetch k W) = A k" and seen: "\<And>k. look c k = (if k \<in> seen then A k else None)"
    and answered: "\<And>k. k \<in> seen \<Longrightarrow> A k \<noteq> None"
  shows "run_gets get c ks W = (map A ks, foldl (\<lambda>W k. snd (fetch k W)) W (asked A seen ks))"
  using seen answered
proof (induction ks arbitrary: c seen W)
  case (Cons k ks)
  show ?case
  proof (cases "k \<in> seen")
    case True
    then obtain v where v: "A k = Some v" using Cons.prems(2) by fastforce
    with True Cons.prems(1) have "get c k W = (Some v, c, W)" by (intro hit) simp
    with True v Cons.IH [OF Cons.prems] show ?thesis by simp
  next
    case False
    obtain r c' W' where get: "get c k W = (r, c', W')" by (cases "get c k W") auto
    have none: "look c k = None" using False Cons.prems(1) by simp
    have r: "r = A k" "W' = snd (fetch k W)" using miss [OF none, of W k] get static by auto
    have c': "look c' k' = (if k' = k then A k else look c k')" for k'
      using miss [OF none, of W k'] get static by auto
    define seen' where "seen' = (if A k = None then seen else insert k seen)"
    have "run_gets get c' ks W' = (map A ks, foldl (\<lambda>W k. snd (fetch k W)) W' (asked A seen' ks))"
      using Cons.prems False by (intro Cons.IH) (auto simp: c' seen'_def split: if_splits)
    with False get r show ?thesis by (simp add: seen'_def)
  qed
qed simp

end

definition pubkey_get :: "('w, 'j) e2ee_env \<Rightarrow> string \<Rightarrow> pubkey_cache \<Rightarrow> string \<times> int \<Rightarrow> 'w \<Rightarrow> string option \<times> pubkey_cache \<times> 'w" where
  "pubkey_get E token c k W =
     (case pubkey_cache_get E (Some c) (fst k) (snd k) token W of (v, c', W') \<Rightarrow> (v, the c', W'))"

definition group_key_get ::
  "('w, 'j) e2ee_env \<Rightarrow> string \<Rightarrow> 'j group_key_cache \<Rightarrow> string \<times> int \<Rightarrow> 'w \<Rightarrow>
   'j talk_e2ee_group_shared_key_t option \<times> 'j group_key_cache \<times> 'w" where
  "group_key_get E token c k W =
     (case group_key_cache_get E (Some c) token (fst k) (snd k) W of (v, c', W') \<Rightarrow> (v, the c', W'))"

lemma memo_hit: "map_of c k = Some v \<Longrightarrow> memo_get fetch k (Some c) W = (Some v, Some c, W)"
  by (simp add: memo_get_def)

lemma memo_miss:
  "map_of c k = None \<Longrightarrow>
   memo_get fetch k (Some c) W =
     (fst (fetch k W), Some (case fst (fetch k W) of None \<Rightarrow> c | Some v \<Rightarrow> c @ [(k, v)]), snd (fetch k W))"
  by (cases "fetch k W") (simp add: memo_get_def split: option.splits)

lemma map_of_snoc: "map_of (c @ [(k, v)]) k' = (case map_of c k' of None \<Rightarrow> if k' = k then Some v else None | Some x \<Rightarrow> Some x)"
  by (auto simp: map_add_def split: option.splits)

interpretation pubkeys: lookup_cache "pubkey_get E token" map_of "fetch_pubkey E token" for E token
  by unfold_locales
    (auto simp: pubkey_get_def pubkey_cache_get_def memo_hit memo_miss map_of_snoc simp del: map_of_append split: option.splits)

interpretation group_keys: lookup_cache "group_key_get E token" map_of "fetch_group_key E token" for E token
  by unfold_locales
    (auto simp: group_key_get_def group_key_cache_get_def memo_hit memo_miss map_of_snoc simp del: map_of_append split: option.splits)

text \<open>C6: The key caches of a decryption phase are transparent: when the server's answer for a user and key
  id (or group and key id) never changes, every look-up returns exactly that answer, and the questions
  put to the server are those of the first look-ups only: no key that has an answer is asked for twice.\<close>

theorem key_caches_transparent:
  assumes "\<And>k W. fst (fetch_pubkey E token k W) = A k" and "\<And>k W. fst (fetch_group_key E token k W) = B k"
  shows "run_gets (pubkey_get E token) [] ks W = (map A ks, foldl (\<lambda>W k. snd (fetch_pubkey E token k W)) W (asked A {} ks)) \<and>
    run_gets (group_key_get E token) [] gs W = (map B gs, foldl (\<lambda>W k. snd (fetch_group_key E token k W)) W (asked B {} gs)) \<and>
    (A k \<noteq> None \<longrightarrow> length (filter ((=) k) (asked A {} ks)) \<le> 1) \<and>
    (B k \<noteq> None \<longrightarrow> length (filter ((=) k) (asked B {} gs)) \<le> 1)"
  using pubkeys.run_static [of E token A "[]" "{}" ks W, OF assms(1)] group_keys.run_static [of E token B "[]" "{}" gs W, OF assms(2)]
    asked_once [of A k "{}" ks] asked_once [of B k "{}" gs] by simp

section \<open>The ciphertext\<close>

text \<open>\<open>EVP_DecodeBlock\<close> writes three bytes for every four characters.\<close>

definition blocks_of_three :: "(string \<Rightarrow> byte list option) \<Rightarrow> bool" where
  "blocks_of_three decode \<longleftrightarrow> (\<forall>s out. decode s = Some out \<longrightarrow> length out = 3 * (length s div 4))"

lemma decoded_size:
  assumes "blocks_of_three decode" and "enil_b64_decode decode (Some c) = Some (out, n)"
  shows "length out = 3 * (length (cstr c) div 4)" and "0 \<le> n" and "n \<le> int (length out)"
proof -
  define m where "m = length (cstr c) - length (cstr c) mod 4"
  have dec: "evp_decode_exact decode (cstr c) m = Some (out, n)"
    using assms(2) by (simp add: enil_b64_decode_def m_def Let_def)
  have m4: "m = 4 * (length (cstr c) div 4)" unfolding m_def by (rule minus_mod_eq_mult_div)
  have "length out = 3 * (length (cstr c) div 4) \<and> 0 \<le> n \<and> n \<le> int (length out)"
  proof (cases "m = 0")
    case True
    with dec m4 show ?thesis by (auto simp: evp_decode_exact_def)
  next
    case False
    then obtain out' where o: "decode (take m (cstr c)) = Some out'" "out = out'"
      "n = int (length out') - (if cstr c ! (m - 1) = CHR ''='' then 1 else 0) - (if cstr c ! (m - 2) = CHR ''='' then 1 else 0)"
      using dec by (auto simp: evp_decode_exact_def split: option.splits)
    have len: "length out = 3 * (length (cstr c) div 4)"
      using assms(1) o m4 by (auto simp: blocks_of_three_def min_def)
    have "0 < length (cstr c) div 4" using False m4 by simp
    with len o show ?thesis by auto
  qed
  then show "length out = 3 * (length (cstr c) div 4)" and "0 \<le> n" and "n \<le> int (length out)" by auto
qed

definition chunk_bytes :: "(string \<Rightarrow> byte list option) \<Rightarrow> string \<Rightarrow> byte list" where
  "chunk_bytes decode c = (case enil_b64_decode decode (Some c) of None \<Rightarrow> [] | Some (out, n) \<Rightarrow> take (nat n) out)"

lemma cells_of_three:
  assumes "0 \<le> a" "a \<le> int (length o0)" "0 \<le> b" "b \<le> int (length o1)" "0 \<le> c" "c \<le> int (length o2)"
  shows "map (cell [(a + b, o2), (a, o1), (0, o0)]) [0..a + b + c - 1] = take (nat a) o0 @ take (nat b) o1 @ take (nat c) o2"
proof (rule nth_equalityI)
  show "length (map (cell [(a + b, o2), (a, o1), (0, o0)]) [0..a + b + c - 1]) = length (take (nat a) o0 @ take (nat b) o1 @ take (nat c) o2)"
    using assms by (simp add: nat_add_distrib)
next
  fix i assume "i < length (map (cell [(a + b, o2), (a, o1), (0, o0)]) [0..a + b + c - 1])"
  then have i: "int i < a + b + c" using assms by simp
  have get: "map (cell [(a + b, o2), (a, o1), (0, o0)]) [0..a + b + c - 1] ! i = cell [(a + b, o2), (a, o1), (0, o0)] (int i)"
    using i by (simp add: nth_upto)
  have len: "length (take (nat a) o0) = nat a" "length (take (nat b) o1) = nat b" using assms by simp_all
  consider "int i < a" | "a \<le> int i" "int i < a + b" | "a + b \<le> int i" by linarith
  then show "map (cell [(a + b, o2), (a, o1), (0, o0)]) [0..a + b + c - 1] ! i = (take (nat a) o0 @ take (nat b) o1 @ take (nat c) o2) ! i"
  proof cases
    case 1
    then have "i < length o0" "i < nat a" using assms by linarith+
    with 1 assms show ?thesis unfolding get by (simp add: cell_def nth_append len del: length_take)
  next
    case 2
    then have "i - nat a < nat b" "i - nat a < length o1" "nat (int i - a) = i - nat a" "nat a \<le> i" using assms by linarith+
    with 2 assms show ?thesis unfolding get by (simp add: cell_def nth_append len del: length_take)
  next
    case 3
    then have "i - nat a - nat b < nat c" "i - nat a - nat b < length o2" "nat (int i - (a + b)) = i - nat a - nat b" "nat a \<le> i"
      "nat b \<le> i - nat a" using i assms by linarith+
    with 3 i assms show ?thesis unfolding get by (simp add: cell_def nth_append len del: length_take)
  qed
qed

lemma three_quarters:
  fixes x y z a b c :: nat
  assumes "4 * x \<le> a" and "4 * y \<le> b" and "4 * z \<le> c"
  shows "3 * x + 3 * y + 3 * z \<le> (a + b + c) * 3 div 4 + (4 :: nat)"
proof -
  have "3 * (4 * x) + 3 * (4 * y) + 3 * (4 * z) \<le> 3 * a + 3 * b + 3 * c"
    using assms by (intro add_mono mult_left_mono) simp_all
  then have "(3 * x + 3 * y + 3 * z) * 4 \<le> (a + b + c) * 3" by (simp add: algebra_simps)
  then have "(3 * x + 3 * y + 3 * z) * 4 div 4 \<le> (a + b + c) * 3 div 4" by (rule div_le_mono)
  then have "3 * x + 3 * y + 3 * z \<le> (a + b + c) * 3 div 4" by simp
  then show ?thesis by (rule trans_le_add1)
qed

lemma three_decodes_fit:
  assumes d: "blocks_of_three decode"
    and w0: "decode_at decode c0 0 [] = (n0, ws0)" and w1: "decode_at decode c1 n0 ws0 = (n1, ws1)"
    and w2: "decode_at decode c2 (n0 + n1) ws1 = (n2, ws2)" and ok: "0 \<le> n0" "0 \<le> n1" "0 \<le> n2"
  shows "list_all (\<lambda>(off, bs). 0 \<le> off \<and> off + int (length bs) \<le> int (cipher_room c0 c1 c2)) ws2 \<and>
    map (cell ws2) [0..n0 + n1 + n2 - 1] = chunk_bytes decode c0 @ chunk_bytes decode c1 @ chunk_bytes decode c2"
proof -
  obtain o0 where o0: "enil_b64_decode decode (Some c0) = Some (o0, n0)" "ws0 = [(0, o0)]"
    using w0 ok by (auto simp: decode_at_def split: option.splits)
  obtain o1 where o1: "enil_b64_decode decode (Some c1) = Some (o1, n1)" "ws1 = [(n0, o1), (0, o0)]"
    using w1 ok o0 by (auto simp: decode_at_def split: option.splits)
  obtain o2 where o2: "enil_b64_decode decode (Some c2) = Some (o2, n2)" "ws2 = [(n0 + n1, o2), (n0, o1), (0, o0)]"
    using w2 ok o1 by (auto simp: decode_at_def split: option.splits)
  note size = decoded_size [OF d o0(1)] decoded_size [OF d o1(1)] decoded_size [OF d o2(1)]
  have c: "length (cstr s) \<le> length s" for s by (simp add: length_cstr)
  have room: "3 * (length (cstr c0) div 4) + 3 * (length (cstr c1) div 4) + 3 * (length (cstr c2) div 4) \<le> cipher_room c0 c1 c2"
  proof -
    have "4 * (length (cstr s) div 4) \<le> length s" for s using c [of s] by linarith
    then show ?thesis unfolding cipher_room_def by (intro three_quarters)
  qed
  have "int (length o0) + int (length o1) + int (length o2) \<le> int (cipher_room c0 c1 c2)" using room size by linarith
  with size have "list_all (\<lambda>(off, bs). 0 \<le> off \<and> off + int (length bs) \<le> int (cipher_room c0 c1 c2)) ws2"
    by (auto simp: o2(2))
  moreover have "map (cell ws2) [0..n0 + n1 + n2 - 1] = chunk_bytes decode c0 @ chunk_bytes decode c1 @ chunk_bytes decode c2"
    using cells_of_three [of n0 o0 n1 o1 n2 o2] size ok by (simp add: o2 o1(1) o0(1) chunk_bytes_def)
  ultimately show ?thesis by blast
qed

lemma cipher_room_swap: "cipher_room c0 c2 c1 = cipher_room c0 c1 c2"
  by (simp add: cipher_room_def add.commute add.left_commute)

text \<open>C33: The ciphertext of a message whose three chunks decode is put together inside its buffer: no write
  leaves it, although every chunk is decoded in place with its padding, and the bytes are those of the
  chunks in the order of the version, 0 1 2 for version 1 and 0 2 1 otherwise.\<close>

theorem ciphertext_in_bounds:
  assumes "blocks_of_three decode" and "cipher_writes decode c0 c1 c2 version = ((n0, n1, n2), ws)"
    and "0 \<le> n0" and "0 \<le> n1" and "0 \<le> n2"
  shows "list_all (\<lambda>(off, bs). 0 \<le> off \<and> off + int (length bs) \<le> int (cipher_room c0 c1 c2)) ws \<and>
    map (cell ws) [0..n0 + n1 + n2 - 1] = chunk_bytes decode c0 @
      (if version = 1 then chunk_bytes decode c1 @ chunk_bytes decode c2 else chunk_bytes decode c2 @ chunk_bytes decode c1)"
proof (cases "version = 1")
  case True
  with assms obtain ws0 ws1 where "decode_at decode c0 0 [] = (n0, ws0)" "decode_at decode c1 n0 ws0 = (n1, ws1)"
    "decode_at decode c2 (n0 + n1) ws1 = (n2, ws)" by (auto simp: cipher_writes_def split: prod.splits)
  from three_decodes_fit [OF assms(1) this assms(3-5)] True show ?thesis by simp
next
  case False
  with assms obtain ws0 ws1 where "decode_at decode c0 0 [] = (n0, ws0)" "decode_at decode c2 n0 ws0 = (n2, ws1)"
    "decode_at decode c1 (n0 + n2) ws1 = (n1, ws)" by (auto simp: cipher_writes_def split: prod.splits)
  from three_decodes_fit [OF assms(1) this assms(3) assms(5) assms(4)] False show ?thesis
    by (simp add: cipher_room_swap add.commute add.left_commute)
qed

text \<open>When the first chunk does not decode, the next one is written from one byte before the buffer.\<close>

lemma malformed_chunk_underruns:
  assumes "enil_b64_decode decode (Some c0) = None" and "enil_b64_decode decode (Some c1) = Some (out, n)"
  shows "(-1, out) \<in> set (snd (cipher_writes decode c0 c1 c2 1))"
  using assms by (auto simp: cipher_writes_def decode_at_def split: option.splits)

section \<open>Witnesses\<close>

text \<open>A decoder that reads the characters themselves, three for every four.\<close>

definition demo_decode :: "string \<Rightarrow> byte list option" where
  "demo_decode s = Some (replicate (3 * (length s div 4)) 7)"

theorem ciphertext_in_bounds_witness:
  "list_all (\<lambda>(off, bs). 0 \<le> off \<and> off + int (length bs) \<le> int (cipher_room ''AAAA'' ''BBB='' ''CCCCCCCC''))
     (snd (cipher_writes demo_decode ''AAAA'' ''BBB='' ''CCCCCCCC'' 2))"
proof -
  have "cipher_writes demo_decode ''AAAA'' ''BBB='' ''CCCCCCCC'' 2 =
      ((3, 2, 6), snd (cipher_writes demo_decode ''AAAA'' ''BBB='' ''CCCCCCCC'' 2))"
    by (simp add: cipher_writes_def decode_at_def enil_b64_decode_def evp_decode_exact_def demo_decode_def cstr_def NUL_def)
  from ciphertext_in_bounds [OF _ this] show ?thesis by (simp add: blocks_of_three_def demo_decode_def)
qed

definition demo_e2ee :: "(nat, json) e2ee_env" where
  "demo_e2ee =
     \<lparr>et = \<lparr>tj = tree (\<lambda>_. Some (JObj [(''message'', JStr ''OK''), (''data'', JObj [(''keyData'', JStr ''k'')])])) (\<lambda>_. []),
             line_post = (\<lambda>path txt token n. (\<lparr>status = 200, body = Some txt\<rparr>, Suc n)), line_language = ''en''\<rparr>,
      evp_decode = demo_decode, evp_encode = (\<lambda>_. []), worker_decrypt = (\<lambda>_ _ n. (None, n))\<rparr>"

lemma demo_pubkey: "fetch_pubkey demo_e2ee token k W = (Some ''k'', Suc W)"
  by (simp add: fetch_pubkey_def TalkService_getE2EEPublicKey_def rpc_def demo_e2ee_def enil_api_unwrap_ok_def tree_def)

lemma demo_group_key: "fst (fetch_group_key demo_e2ee token k W) = fst (fetch_group_key demo_e2ee token k 0)"
  by (simp add: fetch_group_key_def talk_get_e2ee_group_shared_key_def demo_e2ee_def typed_call_def case_prod_unfold Let_def)

theorem key_caches_transparent_witness:
  "snd (run_gets (pubkey_get demo_e2ee ''t'') [] [(''u1'', 1), (''u2'', 1), (''u1'', 1)] 0) = 2"
  using key_caches_transparent [of demo_e2ee "''t''" "\<lambda>_. Some ''k''" "\<lambda>k. fst (fetch_group_key demo_e2ee ''t'' k 0)"
      "[(''u1'', 1), (''u2'', 1), (''u1'', 1)]" 0 "[]", OF _ demo_group_key]
  by (simp add: demo_pubkey)

end
