(* ===== verification/ENIL_DbReads.thy ===== *)
theory ENIL_DbReads
  imports ENIL_DbMessages "HOL-Library.Char_ord" "HOL-Library.List_Lexorder" "HOL-Library.Product_Lexorder"
begin

text \<open>
  \<open>source/shared/enil_db.c\<close>, third part: what is read back.  The rows of a \<open>SELECT\<close> are lists of column
  values in the order of its projection, read into a struct through its field table
  (\<open>enil_db_collect\<close>), into JSON (\<open>row_to_cjson\<close>), or into the named columns below.  The collation
  \<open>LOCALIZED\<close> comes from the platform, so the order it gives is a parameter.
\<close>

section \<open>Expressions of SQL\<close>

fun scoalesce :: "sval list \<Rightarrow> sval" where
  "scoalesce [] = SNull"
| "scoalesce (v # vs) = (if v = SNull then scoalesce vs else v)"

definition nullif_empty :: "sval \<Rightarrow> sval" where
  "nullif_empty v = (if v = SText [] then SNull else v)"

text \<open>A column of the row a \<open>LEFT JOIN\<close> found, null when it found none.\<close>

definition joined :: "sval list option \<Rightarrow> nat \<Rightarrow> sval" where
  "joined row n = (case row of None \<Rightarrow> SNull | Some vs \<Rightarrow> if n < length vs then vs ! n else SNull)"

definition opt_int :: "int option \<Rightarrow> sval" where
  "opt_int n = (case n of None \<Rightarrow> SNull | Some i \<Rightarrow> SInt i)"

definition text_of :: "string option \<Rightarrow> string" where
  "text_of s = (case s of None \<Rightarrow> [] | Some t \<Rightarrow> t)"

text \<open>\<open>LIKE\<close>: \<open>%\<close> is any text, \<open>_\<close> any character, letters without case.\<close>

function like :: "string \<Rightarrow> string \<Rightarrow> bool" where
  "like [] s = (s = [])"
| "like (p # ps) s =
     (if p = CHR ''%'' then (if like ps s then True else if s = [] then False else like (p # ps) (tl s))
      else if s = [] then False
      else (p = CHR ''_'' \<or> lower_char p = lower_char (hd s)) \<and> like ps (tl s))"
  by pat_completeness auto
termination by (relation "measure (\<lambda>(p, s). length p + length s)") auto

section \<open>Rows as structs and as JSON\<close>

definition enil_db_collect :: "'j db_env \<Rightarrow> enil_field_t list \<Rightarrow> bool \<Rightarrow> sval list list \<Rightarrow> (nat \<Rightarrow> 'j field_val) list" where
  "enil_db_collect E fs empty_as_null rows =
     map (\<lambda>vs. read_fields (dj E) empty_as_null fs vs (\<lambda>_. PScalar 0)) rows"

type_synonym enil_col_t = "string \<times> enil_field_type_t"

definition row_to_cjson :: "'j cjson \<Rightarrow> enil_col_t list \<Rightarrow> sval list \<Rightarrow> 'j" where
  "row_to_cjson J cols vals =
     object_of J (map (\<lambda>((k, t), v). (k,
       if t = ENIL_F_I64 then mkNumber J (double_of_int (column_int64 v))
       else if t = ENIL_F_STR \<or> t = ENIL_F_JSON then mkString J (text_of (column_text v))
       else mkNumber J (of_int (column_int v)))) (zip cols vals))"

definition rows_to_cjson_array :: "'j cjson \<Rightarrow> enil_col_t list \<Rightarrow> sval list list \<Rightarrow> 'j" where
  "rows_to_cjson_array J cols rows = array_of J (map (row_to_cjson J cols) rows)"

section \<open>Contacts, boxes and the chat list\<close>

definition contact_registered_column :: nat where "contact_registered_column = 5"

definition enil_db_talk_contact_get_all ::
  "'j db_env \<Rightarrow> (sval list list \<Rightarrow> sval list list) \<Rightarrow> db \<Rightarrow> (nat \<Rightarrow> 'j field_val) list option \<times> db" where
  "enil_db_talk_contact_get_all E localized D =
     (let (v, D') = query E (\<lambda>T. localized (map snd (filter (\<lambda>(k, row). column_int (joined (Some row) contact_registered_column) = 1) (contacts T)))) D
      in (map_option (enil_db_collect E talk_contact_fields True) v, D'))"

definition talk_message_box_fields :: "enil_field_t list" where
  "talk_message_box_fields =
     [fld ''id'' 0 ENIL_F_STR, fld ''midType'' 8 ENIL_F_INT, fld ''lastDeliveredMessageId'' 16 ENIL_F_STR,
      fld ''lastDeliveredTime'' 24 ENIL_F_I64, fld ''lastSeenMessageId'' 32 ENIL_F_STR, fld ''unreadCount'' 40 ENIL_F_I64]"

definition enil_db_message_box_get_all :: "'j db_env \<Rightarrow> db \<Rightarrow> (nat \<Rightarrow> 'j field_val) list option \<times> db" where
  "enil_db_message_box_get_all E D =
     (let (v, D') = query E (\<lambda>T. map (\<lambda>(k, b).
             [SText k, opt_int (b_midType b), bind_text_or_null (b_lastDeliveredMessageId b), opt_int (b_lastDeliveredTime b),
              bind_text_or_null (b_lastSeenMessageId b), opt_int (b_unreadCount b)]) (boxes T)) D
      in (map_option (enil_db_collect E talk_message_box_fields True) v, D'))"

definition chat_summary_fields :: "enil_field_t list" where
  "chat_summary_fields =
     [fld ''chatMid'' 0 ENIL_F_STR, fld ''type'' 8 ENIL_F_INT, fld ''displayName'' 16 ENIL_F_STR,
      fld ''unreadCount'' 24 ENIL_F_I64, fld ''lastDeliveredTime'' 32 ENIL_F_I64, fld ''isInvited'' 40 ENIL_F_BOOL]"

text \<open>One row of the chat list: the box, with the chat's or the contact's name, or the id itself.\<close>

definition chat_summary_select :: "tables \<Rightarrow> string \<times> box_row \<Rightarrow> sval list" where
  "chat_summary_select T kb =
     (case kb of (k, b) \<Rightarrow>
        let c = map_of (chats T) k; f = map_of (contacts T) k
        in [SText k, SInt (if take 1 k = ''c'' \<or> take 1 k = ''r'' then 0 else 1),
            scoalesce [nullif_empty (joined c 4), nullif_empty (joined f 2), nullif_empty (joined f 1), SText k],
            opt_int (b_unreadCount b), opt_int (b_lastDeliveredTime b), scoalesce [joined c 9, SInt 0]])"

text \<open>Most recent first, boxes without a time last, equal times by id.\<close>

definition by_recency :: "(string \<times> box_row) list \<Rightarrow> (string \<times> box_row) list" where
  "by_recency = sort_key (\<lambda>(k, b). (case b_lastDeliveredTime b of None \<Rightarrow> (1 :: nat, 0) | Some t \<Rightarrow> (0, - t), k))"

definition enil_db_chat_summary_get_all :: "'j db_env \<Rightarrow> db \<Rightarrow> (nat \<Rightarrow> 'j field_val) list option \<times> db" where
  "enil_db_chat_summary_get_all E D =
     (let (v, D') = query E (\<lambda>T. map (chat_summary_select T) (by_recency (boxes T))) D
      in (map_option (enil_db_collect E chat_summary_fields True) v, D'))"

definition enil_db_chat_summary_get_one :: "'j db_env \<Rightarrow> string \<Rightarrow> db \<Rightarrow> (nat \<Rightarrow> 'j field_val) option \<times> db" where
  "enil_db_chat_summary_get_one E chat_mid D =
     (let (v, D') = query E (\<lambda>T. map_option (\<lambda>b. chat_summary_select T (chat_mid, b)) (map_of (boxes T) chat_mid)) D
      in (map_option (\<lambda>vs. read_fields (dj E) True chat_summary_fields vs (\<lambda>_. PScalar 0)) (Option.bind v id), D'))"

text \<open>A page of the roster: the same rows, from an offset.\<close>

definition enil_db_roster_count :: "'j db_env \<Rightarrow> bool \<Rightarrow> db \<Rightarrow> nat option \<times> db" where
  "enil_db_roster_count E want_contacts D =
     query E (\<lambda>T. if want_contacts
       then length (filter (\<lambda>(k, row). column_int (joined (Some row) contact_registered_column) = 1) (contacts T))
       else length (boxes T)) D"

definition enil_db_roster_page ::
  "'j db_env \<Rightarrow> (sval list list \<Rightarrow> sval list list) \<Rightarrow> bool \<Rightarrow> int \<Rightarrow> int \<Rightarrow> db \<Rightarrow> (nat \<Rightarrow> 'j field_val) list option \<times> db" where
  "enil_db_roster_page E localized want_contacts from_row limit D =
     (if from_row < 0 \<or> limit < 1 \<or> 32 < limit then (None, D)
      else
        (let (v, D') = query E (\<lambda>T. take (nat limit) (drop (nat from_row)
               (if want_contacts
                then localized (map snd (filter (\<lambda>(k, row). column_int (joined (Some row) contact_registered_column) = 1) (contacts T)))
                else map (chat_summary_select T) (by_recency (boxes T))))) D
         in (map_option (enil_db_collect E (if want_contacts then talk_contact_fields else chat_summary_fields) True) v, D')))"

section \<open>Messages\<close>

definition message_by_id_cols :: "enil_col_t list" where
  "message_by_id_cols =
     [(''message_id'', ENIL_F_STR), (''sender_name'', ENIL_F_STR), (''chat_id'', ENIL_F_STR), (''created_at'', ENIL_F_I64),
      (''text'', ENIL_F_STR), (''content_type'', ENIL_F_INT), (''media_path'', ENIL_F_STR), (''from_mid'', ENIL_F_STR),
      (''orig_width'', ENIL_F_INT), (''orig_height'', ENIL_F_INT), (''thumb_path'', ENIL_F_STR), (''thumb_width'', ENIL_F_INT),
      (''thumb_height'', ENIL_F_INT), (''sticker_id'', ENIL_F_STR), (''sticker_pkg_id'', ENIL_F_STR),
      (''reactions_json'', ENIL_F_STR), (''is_deleted'', ENIL_F_INT), (''decrypt_status'', ENIL_F_INT)]"

definition sender_name :: "tables \<Rightarrow> message_row \<Rightarrow> sval" where
  "sender_name T r =
     (let c = Option.bind (r_from r) (map_of (contacts T))
      in scoalesce [joined c 2, joined c 1, bind_text_or_null (r_from r), SText []])"

definition message_by_id_select :: "tables \<Rightarrow> string \<Rightarrow> message_row \<Rightarrow> sval list" where
  "message_by_id_select T i r =
     (let txt = (\<lambda>s. SText (text_of s))
      in [SText i, sender_name T r, SText (r_chat_id r), SInt (r_createdTime r), txt (r_text r), SInt (r_contentType r),
          txt (r_media_path r), txt (r_from r), SInt (r_orig_width r), SInt (r_orig_height r), txt (r_thumb_path r),
          SInt (r_thumb_width r), SInt (r_thumb_height r), txt (r_sticker_id r), txt (r_sticker_pkg_id r),
          bind_text_or_null (r_reactions_json r), SInt (r_is_deleted r), SInt (r_decrypt_status r)])"

definition enil_db_get_message_by_id :: "'j db_env \<Rightarrow> string option \<Rightarrow> db \<Rightarrow> 'j option \<times> db" where
  "enil_db_get_message_by_id E message_id D =
     (case message_id of
        None \<Rightarrow> (None, D)
      | Some i \<Rightarrow>
          (let (v, D') = query E (\<lambda>T. map_option (message_by_id_select T i) (map_of (messages T) i)) D
           in (map_option (row_to_cjson (dj E) message_by_id_cols) (Option.bind v id), D')))"

text \<open>Messages decrypted before their REPLACE block was kept: the text has an ownership list and no REPLACE.\<close>

definition needs_replace :: "message_row \<Rightarrow> bool" where
  "needs_replace r \<longleftrightarrow> r_decrypt_status r = ENIL_DECRYPT_SUCCESS \<and>
     (case r_raw_json r of None \<Rightarrow> False
      | Some raw \<Rightarrow> like ''%STICON_OWNERSHIP%'' raw \<and> \<not> like (''%'' @ [CHR 0x22] @ ''REPLACE'' @ [CHR 0x22] @ ''%'') raw)"

definition enil_db_get_messages_needing_replace :: "'j db_env \<Rightarrow> db \<Rightarrow> (string \<times> string) list option \<times> db" where
  "enil_db_get_messages_needing_replace E D =
     query E (\<lambda>T. List.map_filter (\<lambda>(i, r). if needs_replace r then Some (i, text_of (r_raw_json r)) else None) (messages T)) D"

text \<open>The sticons of a message in order, with the span its REPLACE block gives each.\<close>

record sticon_ref =
  sr_package :: string
  sr_sticon :: string
  sr_image :: string
  sr_width :: int
  sr_height :: int
  sr_span :: "(real \<times> real) option"

definition resource_at :: "'j cjson \<Rightarrow> 'j option \<Rightarrow> int \<Rightarrow> 'j option" where
  "resource_at J whole n =
     (let rs = map snd (jkids J (jgeti J (jgeti J whole ''sticon'') ''resources''))
      in if 0 \<le> n \<and> nat n < length rs then Some (rs ! nat n) else None)"

definition resource_range :: "'j cjson \<Rightarrow> 'j option \<Rightarrow> (real \<times> real) option" where
  "resource_range J res =
     (case (jgeti J res ''S'', jgeti J res ''E'') of
        (Some s, Some e) \<Rightarrow> if isNumber J s \<and> isNumber J e then Some (valuedouble J s, valuedouble J e) else None
      | _ \<Rightarrow> None)"

definition enil_db_get_message_sticons :: "'j db_env \<Rightarrow> string option \<Rightarrow> db \<Rightarrow> sticon_ref list option \<times> db" where
  "enil_db_get_message_sticons E message_id D =
     (case message_id of
        None \<Rightarrow> (None, D)
      | Some i \<Rightarrow>
          query E (\<lambda>T.
            case map_of (messages T) i of
              None \<Rightarrow> []
            | Some r \<Rightarrow>
                (let whole = parseText (dj E) (text_of (r_replace_json r))
                 in map (\<lambda>((m, ordinal), (p, s)).
                      (let item = map_of (sticons T) (s, p)
                       in \<lparr>sr_package = p, sr_sticon = s, sr_image = text_of (Option.bind item i_image_path),
                           sr_width = column_int (opt_int (Option.bind item i_image_width)),
                           sr_height = column_int (opt_int (Option.bind item i_image_height)),
                           sr_span = resource_range (dj E) (resource_at (dj E) whole ordinal)\<rparr>))
                    (sort_key (\<lambda>((m, ordinal), x). ordinal) (filter (\<lambda>((m, ordinal), x). m = i) (message_sticons T))))) D)"

text \<open>The media of an image message.\<close>

record media_entry =
  me_message_id :: string
  me_chat_id :: string
  me_media_path :: string
  me_sid :: string
  me_oid :: string
  me_obs_pop :: string
  me_e2ee_version :: string
  me_plain_size :: int
  me_enc_km :: "string option"

definition media_row_from_stmt :: "string \<Rightarrow> message_row \<Rightarrow> media_entry" where
  "media_row_from_stmt i r =
     \<lparr>me_message_id = i, me_chat_id = r_chat_id r, me_media_path = text_of (r_media_path r), me_sid = text_of (r_media_sid r),
      me_oid = text_of (r_media_oid r), me_obs_pop = text_of (r_media_obs_pop r),
      me_e2ee_version = text_of (r_media_e2ee_version r), me_plain_size = r_media_plain_size r,
      me_enc_km = dup_or_null (r_enc_km r)\<rparr>"

definition enil_db_get_messages_needing_media :: "'j db_env \<Rightarrow> db \<Rightarrow> media_entry list option \<times> db" where
  "enil_db_get_messages_needing_media E D =
     query E (\<lambda>T. map (\<lambda>(i, r). media_row_from_stmt i r) (filter (\<lambda>(i, r). r_contentType r = 1) (messages T))) D"

definition enil_db_get_message_media_info :: "'j db_env \<Rightarrow> string option \<Rightarrow> db \<Rightarrow> media_entry option \<times> db" where
  "enil_db_get_message_media_info E message_id D =
     (case message_id of
        None \<Rightarrow> (None, D)
      | Some i \<Rightarrow>
          (let (v, D') = query E (\<lambda>T. map_option (media_row_from_stmt i) (map_of (messages T) i)) D in (Option.bind v id, D')))"

definition message_has_plaintext :: "'j db_env \<Rightarrow> string option \<Rightarrow> db \<Rightarrow> bool \<times> db" where
  "message_has_plaintext E message_id D =
     (case message_id of
        None \<Rightarrow> (False, D)
      | Some i \<Rightarrow>
          (let (v, D') = query E (\<lambda>T. case map_of (messages T) i of None \<Rightarrow> False | Some r \<Rightarrow> nonempty (r_text r)) D
           in (v = Some True, D')))"

text \<open>The single reader of a group a pushed read receipt names.\<close>

definition enil_db_message_box_get_group_reader ::
  "'j db_env \<Rightarrow> string option \<Rightarrow> string option \<Rightarrow> string option \<Rightarrow> db \<Rightarrow> (string \<times> string \<times> string) option option \<times> db" where
  "enil_db_message_box_get_group_reader E chat_mid reader_mid my_mid D =
     (if \<not> nonempty chat_mid \<or> \<not> nonempty reader_mid \<or> \<not> nonempty my_mid then (None, D)
      else query E (\<lambda>T.
        Option.bind (map_of (readers T) (the chat_mid, the reader_mid)) (\<lambda>t.
          map_option (\<lambda>m. (the reader_mid, (case contact_name T (the reader_mid) of None \<Rightarrow> the reader_mid | Some n \<Rightarrow> n), m))
            (dup_or_null (last_own_before E T (the chat_mid) (the my_mid) t)))) D)"

section \<open>Stickers and sticons\<close>

definition sticker_option_column :: nat where "sticker_option_column = 11"
definition sticker_purchased_column :: nat where "sticker_purchased_column = 17"
definition package_version_column :: nat where "package_version_column = 2"

record download_item =
  di_id :: string
  di_package :: string
  di_shop :: string
  di_option :: string
  di_hash :: string
  di_resource_type :: string

definition enil_db_get_stickers_needing_download :: "'j db_env \<Rightarrow> int \<Rightarrow> db \<Rightarrow> download_item list option \<times> db" where
  "enil_db_get_stickers_needing_download E purchased D =
     query E (\<lambda>T. map (\<lambda>((s, p), r). \<lparr>di_id = s, di_package = p, di_shop = ''stickershop'', di_option = text_of (i_option r),
                                        di_hash = text_of (i_hash r), di_resource_type = []\<rparr>)
       (sort_key (\<lambda>((s, p), r). (p, s)) (filter (\<lambda>((s, p), r). i_image_path r = None \<and>
          (case map_of (sticker_packages T) p of None \<Rightarrow> False | Some row \<Rightarrow> row ! sticker_purchased_column = SInt purchased)) (stickers T)))) D"

definition enil_db_get_sticons_needing_download :: "'j db_env \<Rightarrow> int \<Rightarrow> db \<Rightarrow> download_item list option \<times> db" where
  "enil_db_get_sticons_needing_download E purchased D =
     query E (\<lambda>T. map (\<lambda>((s, p), r). \<lparr>di_id = s, di_package = p, di_shop = ''sticonshop'', di_option = [], di_hash = [],
            di_resource_type = (if joined (map_of (sticon_packages T) p) sticon_type_column = SInt 2 then ''ANIMATION'' else [])\<rparr>)
       (sort_key (\<lambda>((s, p), r). (p, s)) (filter (\<lambda>((s, p), r). i_image_path r = None \<and>
          (case map_of (sticon_packages T) p of None \<Rightarrow> False | Some row \<Rightarrow> row ! sticon_purchased_column = SInt purchased)) (sticons T)))) D"

definition pkg_id_list :: "string list \<Rightarrow> string list" where
  "pkg_id_list ids = filter (\<lambda>i. i \<noteq> []) ids"

definition enil_db_sticon_packages_needing_meta :: "'j db_env \<Rightarrow> db \<Rightarrow> string list option \<times> db" where
  "enil_db_sticon_packages_needing_meta E D =
     query E (\<lambda>T. pkg_id_list (map fst (filter (\<lambda>(p, row).
       row ! sticon_purchased_column = SInt 1 \<and> list_all (\<lambda>((s, q), r). q \<noteq> p) (sticons T)) (sticon_packages T)))) D"

definition enil_db_sticon_packages_needing_alt :: "'j db_env \<Rightarrow> db \<Rightarrow> string list option \<times> db" where
  "enil_db_sticon_packages_needing_alt E D =
     query E (\<lambda>T. pkg_id_list (remdups (List.map_filter (\<lambda>((s, p), r).
       if i_alt_text r = None \<and> (case map_of (sticon_packages T) p of None \<Rightarrow> False | Some row \<Rightarrow> row ! sticon_purchased_column = SInt 0)
       then Some p else None) (sticons T)))) D"

text \<open>The path and size of an item, cut to the caller's buffer.\<close>

definition image_info :: "nat \<Rightarrow> item_row option \<Rightarrow> (string \<times> int \<times> int) option" where
  "image_info buf_size item =
     Option.bind item (\<lambda>r. map_option (\<lambda>path. (take (buf_size - 1) path, column_int (opt_int (i_image_width r)),
        column_int (opt_int (i_image_height r)))) (i_image_path r))"

definition enil_db_get_sticker_image_info :: "'j db_env \<Rightarrow> nat \<Rightarrow> string option \<Rightarrow> db \<Rightarrow> (string \<times> int \<times> int) option \<times> db" where
  "enil_db_get_sticker_image_info E buf_size sticker_id D =
     (case sticker_id of
        None \<Rightarrow> (None, D)
      | Some i \<Rightarrow>
          (let (v, D') = query E (\<lambda>T. case filter (\<lambda>((s, p), r). s = i) (stickers T) @ filter (\<lambda>((s, p), r). s = i) (sticons T) of
                             [] \<Rightarrow> None | (k, r) # _ \<Rightarrow> image_info buf_size (Some r)) D
           in (Option.bind v id, D')))"

definition enil_db_get_sticker_image_info_for_package ::
  "'j db_env \<Rightarrow> nat \<Rightarrow> string option \<Rightarrow> string option \<Rightarrow> db \<Rightarrow> (string \<times> int \<times> int) option \<times> db" where
  "enil_db_get_sticker_image_info_for_package E buf_size package_id sticker_id D =
     (case (package_id, sticker_id) of
        (Some p, Some i) \<Rightarrow>
          (let (v, D') = query E (\<lambda>T. coalesce (image_info buf_size (map_of (stickers T) (i, p)))
                                               (image_info buf_size (map_of (sticons T) (i, p)))) D
           in (Option.bind v id, D'))
      | _ \<Rightarrow> (None, D))"

record ENILStickerMeta =
  sm_version :: "string option"
  sm_option :: "string option"
  sm_hash :: "string option"
  sm_resource_type :: int

definition enil_db_get_sticker_meta :: "'j db_env \<Rightarrow> string option \<Rightarrow> string option \<Rightarrow> db \<Rightarrow> ENILStickerMeta option \<times> db" where
  "enil_db_get_sticker_meta E package_id sticker_id D =
     (case (package_id, sticker_id) of
        (Some p, Some i) \<Rightarrow>
          (let (v, D') = query E (\<lambda>T.
                 case (map_of (stickers T) (i, p), map_of (sticker_packages T) p) of
                   (Some r, Some row) \<Rightarrow>
                     Some \<lparr>sm_version = column_text (row ! package_version_column), sm_option = i_option r, sm_hash = i_hash r,
                           sm_resource_type = column_int (row ! sticker_option_column)\<rparr>
                 | _ \<Rightarrow>
                     (case (map_of (sticons T) (i, p), map_of (sticon_packages T) p) of
                        (Some r, Some row) \<Rightarrow>
                          Some \<lparr>sm_version = column_text (row ! package_version_column), sm_option = None, sm_hash = None,
                                sm_resource_type = column_int (row ! sticon_type_column)\<rparr>
                      | _ \<Rightarrow> None)) D
           in (Option.bind v id, D'))
      | _ \<Rightarrow> (None, D))"

text \<open>One path and its size of a sticker or sticon.\<close>

definition set_path_dims ::
  "'j db_env \<Rightarrow> bool \<Rightarrow> (item_row \<Rightarrow> item_row) \<Rightarrow> string option \<Rightarrow> string option \<Rightarrow> db \<Rightarrow> int \<times> db" where
  "set_path_dims E sticon set_row item pkg D =
     (case (item, pkg) of
        (Some i, Some p) \<Rightarrow>
          exec_stmt E (\<lambda>T.
            if sticon then (let (t, n) = update_where (\<lambda>k r. k = (i, p)) set_row (sticons T) in (T\<lparr>sticons := t\<rparr>, n))
            else (let (t, n) = update_where (\<lambda>k r. k = (i, p)) set_row (stickers T) in (T\<lparr>stickers := t\<rparr>, n))) D
      | _ \<Rightarrow> (SQLITE_ERROR, D))"

definition image_row :: "string option \<Rightarrow> int \<Rightarrow> int \<Rightarrow> item_row \<Rightarrow> item_row" where
  "image_row path w h r = r\<lparr>i_image_path := path, i_image_width := Some w, i_image_height := Some h\<rparr>"

definition thumb_row :: "string option \<Rightarrow> int \<Rightarrow> int \<Rightarrow> item_row \<Rightarrow> item_row" where
  "thumb_row path w h r = r\<lparr>i_thumb_path := path, i_thumb_width := Some w, i_thumb_height := Some h\<rparr>"

definition enil_db_set_sticker_image_path ::
  "'j db_env \<Rightarrow> string option \<Rightarrow> string option \<Rightarrow> string option \<Rightarrow> int \<Rightarrow> int \<Rightarrow> db \<Rightarrow> int \<times> db" where
  "enil_db_set_sticker_image_path E item pkg path w h D = set_path_dims E False (image_row path w h) item pkg D"

definition enil_db_set_sticker_thumb_path ::
  "'j db_env \<Rightarrow> string option \<Rightarrow> string option \<Rightarrow> string option \<Rightarrow> int \<Rightarrow> int \<Rightarrow> db \<Rightarrow> int \<times> db" where
  "enil_db_set_sticker_thumb_path E item pkg path w h D = set_path_dims E False (thumb_row path w h) item pkg D"

definition enil_db_set_sticon_image_path ::
  "'j db_env \<Rightarrow> string option \<Rightarrow> string option \<Rightarrow> string option \<Rightarrow> int \<Rightarrow> int \<Rightarrow> db \<Rightarrow> int \<times> db" where
  "enil_db_set_sticon_image_path E item pkg path w h D = set_path_dims E True (image_row path w h) item pkg D"

definition enil_db_set_sticon_thumb_path ::
  "'j db_env \<Rightarrow> string option \<Rightarrow> string option \<Rightarrow> string option \<Rightarrow> int \<Rightarrow> int \<Rightarrow> db \<Rightarrow> int \<times> db" where
  "enil_db_set_sticon_thumb_path E item pkg path w h D = set_path_dims E True (thumb_row path w h) item pkg D"

end
