(* ===== verification/ENIL_SyncAssets.thy ===== *)
theory ENIL_SyncAssets
  imports ENIL_DbReads ENIL_E2ee ENIL_Image ENIL_Crypto
begin

text \<open>
  The files of \<open>source/shared/enil_sync.c\<close> (and the repair of \<open>enil_asset_cache.c\<close>): sticker and sticon
  images, package metadata, message media and avatars.  The file system, the network and the image
  library move a world \<open>'w\<close>; the threads of a download batch share nothing but their own files, so
  they run one after the other here.  Progress reports are not modelled.
\<close>

record ('w, 'j) sync_env =
  e2 :: "('w, 'j) e2ee_env"
  dbe :: "'j db_env"
  session_path :: string
  load_session :: "'w \<Rightarrow> ('j option \<times> 'j option) option"
  save_restore_state :: "'j \<Rightarrow> 'w \<Rightarrow> 'w"
  delete_item :: "'j \<Rightarrow> string \<Rightarrow> 'j"
  put_item :: "'j \<Rightarrow> string \<Rightarrow> 'j \<Rightarrow> 'j"
  make_dir :: "string \<Rightarrow> 'w \<Rightarrow> 'w"
  write_file :: "string \<Rightarrow> string \<Rightarrow> 'w \<Rightarrow> 'w"
  file_bytes :: "string \<Rightarrow> 'w \<Rightarrow> int option"
  png_size :: "string \<Rightarrow> 'w \<Rightarrow> (int \<times> int) option"
  image_size :: "string \<Rightarrow> 'w \<Rightarrow> (int \<times> int) option"
  thumb_generate :: "string \<Rightarrow> string \<Rightarrow> 'w \<Rightarrow> (int \<times> int \<times> int \<times> int) option \<times> 'w"
  curl_get :: "string \<Rightarrow> 'w \<Rightarrow> string option \<times> 'w"
  curl_download_file :: "string \<Rightarrow> string \<Rightarrow> 'w \<Rightarrow> bool \<times> 'w"
  curl_download_png :: "string \<Rightarrow> string \<Rightarrow> 'w \<Rightarrow> bool \<times> 'w"
  obs_download :: "media_entry \<Rightarrow> string \<Rightarrow> 'w \<Rightarrow> bool \<times> 'w"
  cancelled :: "'w \<Rightarrow> bool"
  has_identity :: bool

abbreviation sj :: "('w, 'j) sync_env \<Rightarrow> 'j cjson" where
  "sj S \<equiv> dj (dbe S)"

section \<open>Paths\<close>

text \<open>\<open>snprintf\<close> into a buffer of \<open>n\<close> bytes.\<close>

definition fit :: "nat \<Rightarrow> string \<Rightarrow> string" where
  "fit n s = take (n - 1) s"

text \<open>Everything before the last slash (\<open>strrchr\<close>).\<close>

definition before_slash :: "string \<Rightarrow> string option" where
  "before_slash s =
     (if CHR ''/'' \<in> set s then Some (rev (tl (dropWhile (\<lambda>c. c \<noteq> CHR ''/'') (rev s)))) else None)"

definition set_account_dir :: "('w, 'j) sync_env \<Rightarrow> string" where
  "set_account_dir S =
     (case before_slash (session_path S) of None \<Rightarrow> [] | Some d \<Rightarrow> if 1024 \<le> length d then [] else d)"

section \<open>PNG files\<close>

definition download_png_if_missing :: "('w, 'j) sync_env \<Rightarrow> string \<Rightarrow> string \<Rightarrow> bool \<Rightarrow> 'w \<Rightarrow> int \<times> 'w" where
  "download_png_if_missing S url path optional W =
     (if png_size S path W \<noteq> None then (0, W)
      else (case curl_download_png S url path W of (ok, W') \<Rightarrow> (if ok then 1 else if optional then 0 else -1, W')))"

text \<open>A job and what it found: the relative paths with their sizes, or an error.\<close>

record sticker_job =
  job_error :: bool
  image_rel :: string
  thumb_rel :: string
  image_dims :: "int \<times> int"
  thumb_dims :: "int \<times> int"

definition job_failed :: sticker_job where
  "job_failed = \<lparr>job_error = True, image_rel = [], thumb_rel = [], image_dims = (0, 0), thumb_dims = (0, 0)\<rparr>"

definition dims_of :: "(int \<times> int) option \<Rightarrow> int \<times> int" where
  "dims_of d = (case d of None \<Rightarrow> (0, 0) | Some x \<Rightarrow> x)"

definition sticker_cdn :: string where "sticker_cdn = ''https://stickershop.line-scdn.net/''"

definition run_stickershop_download :: "('w, 'j) sync_env \<Rightarrow> string \<Rightarrow> download_item \<Rightarrow> 'w \<Rightarrow> sticker_job \<times> 'w" where
  "run_stickershop_download S pkg_dir i W =
     (let base = fit 512 (if di_hash i \<noteq> []
                  then sticker_cdn @ ''stickershop/v2/sticker/'' @ di_id i @ ''/'' @ di_hash i @ ''/android''
                  else sticker_cdn @ ''stickershop/v1/sticker/'' @ di_id i @ ''/android'');
          rel = (\<lambda>tag. fit 512 (''purchases/'' @ di_package i @ ''/'' @ di_id i @ tag @ ''.png''));
          dest = (\<lambda>tag. fit 1600 (pkg_dir @ ''/'' @ di_id i @ tag @ ''.png''))
      in case download_png_if_missing S (fit 640 (base @ ''/sticker.png'')) (dest []) False W of
           (r, W1) \<Rightarrow>
             if r < 0 then (job_failed, W1)
             else
               (let thumb = dims_of (png_size S (dest []) W1);
                    is_anim = (di_option i = ''A'' \<or> di_option i = ''AS''); is_popup = (di_option i = ''P'' \<or> di_option i = ''PS'');
                    tag = (if is_anim then ''_anim'' else ''_popup'')
                in if \<not> is_anim \<and> \<not> is_popup
                   then (\<lparr>job_error = False, image_rel = rel [], thumb_rel = rel [], image_dims = thumb, thumb_dims = thumb\<rparr>, W1)
                   else (case download_png_if_missing S
                                (fit 640 (base @ ''/'' @ (if is_anim then ''sticker_animation.png'' else ''sticker_popup.png''))) (dest tag) False W1 of
                           (r2, W2) \<Rightarrow>
                             if r2 < 0 then (job_failed, W2)
                             else (\<lparr>job_error = False, image_rel = rel tag, thumb_rel = rel [],
                                    image_dims = dims_of (png_size S (dest tag) W2), thumb_dims = thumb\<rparr>, W2))))"

definition run_sticonshop_download :: "('w, 'j) sync_env \<Rightarrow> string \<Rightarrow> download_item \<Rightarrow> 'w \<Rightarrow> sticker_job \<times> 'w" where
  "run_sticonshop_download S pkg_dir i W =
     (let url = (\<lambda>tag. fit 640 (sticker_cdn @ ''sticonshop/v1/sticon/'' @ di_package i @ ''/android/'' @ di_id i @ tag @ ''.png''));
          rel = (\<lambda>tag. fit 512 (''purchases/'' @ di_package i @ ''/'' @ di_id i @ tag @ ''.png''));
          dest = (\<lambda>tag. fit 1600 (pkg_dir @ ''/'' @ di_id i @ tag @ ''.png''))
      in case download_png_if_missing S (url []) (dest []) False W of
           (r, W1) \<Rightarrow>
             if r < 0 then (job_failed, W1)
             else
               (let thumb = dims_of (png_size S (dest []) W1);
                    W2 = (if di_resource_type i = ''ANIMATION''
                          then snd (download_png_if_missing S (url ''_animation'') (dest ''_anim'') True W1) else W1)
                in case png_size S (dest ''_anim'') W2 of
                     Some d \<Rightarrow> (\<lparr>job_error = False, image_rel = rel ''_anim'', thumb_rel = rel [], image_dims = d, thumb_dims = thumb\<rparr>, W2)
                   | None \<Rightarrow> (\<lparr>job_error = False, image_rel = rel [], thumb_rel = rel [], image_dims = thumb, thumb_dims = thumb\<rparr>, W2)))"

definition sticker_download_thread :: "('w, 'j) sync_env \<Rightarrow> string \<Rightarrow> download_item \<Rightarrow> 'w \<Rightarrow> sticker_job \<times> 'w" where
  "sticker_download_thread S stk_dir i W =
     (let pkg_dir = fit 1280 (stk_dir @ ''/'' @ di_package i); W1 = make_dir S pkg_dir W
      in if di_shop i = ''stickershop'' then run_stickershop_download S pkg_dir i W1 else run_sticonshop_download S pkg_dir i W1)"

text \<open>Write the result back; an incomplete one counts as an error and the row stays pending.\<close>

definition job_complete :: "sticker_job \<Rightarrow> bool" where
  "job_complete j \<longleftrightarrow> \<not> job_error j \<and> image_rel j \<noteq> [] \<and> thumb_rel j \<noteq> [] \<and> 0 < fst (image_dims j) \<and> 0 < snd (image_dims j) \<and>
     0 < fst (thumb_dims j) \<and> 0 < snd (thumb_dims j)"

definition apply_sticker_job :: "('w, 'j) sync_env \<Rightarrow> download_item \<Rightarrow> sticker_job \<Rightarrow> db \<Rightarrow> (int \<times> nat) \<times> db" where
  "apply_sticker_job S i j D =
     (if \<not> job_complete j then ((0, 1), D)
      else (case enil_db_set_sticker_asset (dbe S) (di_shop i = ''sticonshop'') (di_id i) (di_package i)
                   (Some (image_rel j)) (fst (image_dims j)) (snd (image_dims j))
                   (Some (thumb_rel j)) (fst (thumb_dims j)) (snd (thumb_dims j)) D of
              (rc, D') \<Rightarrow> ((if rc \<noteq> SQLITE_OK then -1 else 0, 0), D')))"

definition STICKER_CDN_BATCH_SIZE :: nat where "STICKER_CDN_BATCH_SIZE = 10"

fun run_jobs :: "('w, 'j) sync_env \<Rightarrow> string \<Rightarrow> download_item list \<Rightarrow> 'w \<Rightarrow> (download_item \<times> sticker_job) list \<times> 'w" where
  "run_jobs S stk_dir [] W = ([], W)"
| "run_jobs S stk_dir (i # is) W =
     (case sticker_download_thread S stk_dir i W of (j, W1) \<Rightarrow>
        (case run_jobs S stk_dir is W1 of (js, W2) \<Rightarrow> ((i, j) # js, W2)))"

fun apply_jobs :: "('w, 'j) sync_env \<Rightarrow> (download_item \<times> sticker_job) list \<Rightarrow> nat \<Rightarrow> db \<Rightarrow> int \<times> db" where
  "apply_jobs S [] errors D = (int errors, D)"
| "apply_jobs S ((i, j) # js) errors D =
     (case apply_sticker_job S i j D of ((r, e), D1) \<Rightarrow> if r < 0 then (-1, D1) else apply_jobs S js (errors + e) D1)"

text \<open>Batch after batch until nothing is left or the transfer is cancelled; -1 when the database fails.\<close>

function download_batches :: "('w, 'j) sync_env \<Rightarrow> string \<Rightarrow> download_item list \<Rightarrow> nat \<Rightarrow> db \<Rightarrow> 'w \<Rightarrow> int \<times> db \<times> 'w" where
  "download_batches S stk_dir pending errors D W =
     (if pending = [] \<or> cancelled S W then (int errors, D, W)
      else if \<not> has_identity S then (int (errors + length pending), D, W)
      else (case run_jobs S stk_dir (take STICKER_CDN_BATCH_SIZE pending) W of
              (js, W1) \<Rightarrow>
                (case apply_jobs S js errors D of
                   (r, D1) \<Rightarrow> if r < 0 then (-1, D1, W1)
                     else download_batches S stk_dir (drop STICKER_CDN_BATCH_SIZE pending) (nat r) D1 W1)))"
  by pat_completeness auto
termination by (relation "measure (\<lambda>(S, stk_dir, pending, errors, D, W). length pending)") (auto simp: STICKER_CDN_BATCH_SIZE_def)

declare download_batches.simps [simp del]

definition download_sticker_list :: "('w, 'j) sync_env \<Rightarrow> download_item list option \<Rightarrow> db \<Rightarrow> 'w \<Rightarrow> int \<times> db \<times> 'w" where
  "download_sticker_list S pending D W =
     (case pending of
        None \<Rightarrow> (-1, D, W)
      | Some items \<Rightarrow>
          if items = [] then (0, D, W)
          else if set_account_dir S = [] then (-1, D, W)
          else (let stk_dir = fit 1024 (set_account_dir S @ ''/purchases'')
                in download_batches S stk_dir items 0 D (make_dir S stk_dir W)))"

definition run_sticker_downloads :: "('w, 'j) sync_env \<Rightarrow> bool \<Rightarrow> bool \<Rightarrow> db \<Rightarrow> 'w \<Rightarrow> int \<times> db \<times> 'w" where
  "run_sticker_downloads S purchased sticon D W =
     (case (if sticon then enil_db_get_sticons_needing_download (dbe S) (cbool purchased) D
            else enil_db_get_stickers_needing_download (dbe S) (cbool purchased) D) of
        (pending, D1) \<Rightarrow> download_sticker_list S pending D1 W)"

section \<open>Savepoints\<close>

text \<open>One statement after the other while they succeed.\<close>

fun while_ok :: "(db \<Rightarrow> int \<times> db) list \<Rightarrow> db \<Rightarrow> int \<times> db" where
  "while_ok [] D = (SQLITE_OK, D)"
| "while_ok (f # fs) D = (case f D of (rc, D1) \<Rightarrow> if rc \<noteq> SQLITE_OK then (rc, D1) else while_ok fs D1)"

text \<open>A savepoint around a group of statements, released when all succeed, else rolled back and released.\<close>

definition in_savepoint :: "'j db_env \<Rightarrow> (db \<Rightarrow> int \<times> db) \<Rightarrow> db \<Rightarrow> int \<times> db" where
  "in_savepoint E group_of D =
     (case savepoint E D of
        (rc, D1) \<Rightarrow>
          if rc \<noteq> SQLITE_OK then (rc, D1)
          else
            (case group_of D1 of
               (rc2, D2) \<Rightarrow>
                 (case (if rc2 = SQLITE_OK then release E D2 else (rc2, D2)) of
                    (rc3, D3) \<Rightarrow> if rc3 \<noteq> SQLITE_OK then (rc3, rollback D3) else (SQLITE_OK, D3))))"

section \<open>Package metadata\<close>

definition save_sticon_meta_file :: "('w, 'j) sync_env \<Rightarrow> string \<Rightarrow> string \<Rightarrow> 'w \<Rightarrow> 'w" where
  "save_sticon_meta_file S package_id meta_body W =
     (case before_slash (session_path S) of
        None \<Rightarrow> W
      | Some d \<Rightarrow>
          if 1024 \<le> length d then W
          else (let purchases = fit 1280 (d @ ''/purchases''); package = fit 1536 (purchases @ ''/'' @ package_id)
                in write_file S (fit 1600 (package @ ''/meta.json'')) meta_body (make_dir S package (make_dir S purchases W))))"

text \<open>The writes a package's \<open>meta.json\<close> asks for: its type, then each sticon, new ones only when expanding.\<close>

definition sticon_meta_writes :: "('w, 'j) sync_env \<Rightarrow> string \<Rightarrow> bool \<Rightarrow> 'j \<Rightarrow> (db \<Rightarrow> int \<times> db) list" where
  "sticon_meta_writes S pkg_id expand meta =
     (let J = sj S; rt = jstr J (getItem J meta ''sticonResourceType'');
          alt_map = getItem J meta ''altTexts'';
          orders = map snd (jkids J (keep_if (isArray J) (getItem J meta ''orders'')))
      in (if rt = Some ''ANIMATION'' then [enil_db_sticon_package_set_resource_type (dbe S) (Some pkg_id) 2]
          else if rt = Some ''STATIC'' then [enil_db_sticon_package_set_resource_type (dbe S) (Some pkg_id) 1] else []) @
         List.map_filter (\<lambda>item.
           (case jstr J (Some item) of
              None \<Rightarrow> None
            | Some sticon_id \<Rightarrow>
                if sticon_id = [] then None
                else (let alt = jstr J (jgeti J alt_map sticon_id)
                      in if expand then Some (enil_db_sticon_upsert (dbe S) (Some sticon_id) (Some pkg_id) alt)
                         else if nonempty alt then Some (enil_db_set_sticon_alt_text (dbe S) (Some sticon_id) (Some pkg_id) alt)
                         else None))) orders)"

text \<open>0, -1 when the file cannot be had, -2 when the database fails.\<close>

definition sync_sticonshop_meta :: "('w, 'j) sync_env \<Rightarrow> string option \<Rightarrow> bool \<Rightarrow> db \<Rightarrow> 'w \<Rightarrow> int \<times> db \<times> 'w" where
  "sync_sticonshop_meta S pkg_id expand D W =
     (if \<not> nonempty pkg_id then (-1, D, W)
      else
        (case curl_get S (fit 256 (sticker_cdn @ ''sticonshop/v1/product/'' @ the pkg_id @ ''/android/meta.json'')) W of
           (None, W1) \<Rightarrow> (-1, D, W1)
         | (Some meta_body, W1) \<Rightarrow>
             (case keep_if (isObject (sj S)) (parseText (sj S) meta_body) of
                None \<Rightarrow> (-1, D, W1)
              | Some meta \<Rightarrow>
                  (let W2 = save_sticon_meta_file S (the pkg_id) meta_body W1
                   in case in_savepoint (dbe S) (while_ok (sticon_meta_writes S (the pkg_id) expand meta)) D of
                        (rc, D1) \<Rightarrow> (if rc = SQLITE_OK then 0 else -2, D1, W2)))))"

section \<open>Message media\<close>

definition media_size_matches :: "('w, 'j) sync_env \<Rightarrow> string \<Rightarrow> int \<Rightarrow> string option \<Rightarrow> 'w \<Rightarrow> bool" where
  "media_size_matches S path expected enc_km W =
     (if expected = 0 then True
      else (case file_bytes S path W of
              None \<Rightarrow> False
            | Some n \<Rightarrow> 0 \<le> n \<and> (n = expected \<or>
                (nonempty enc_km \<and> int ENIL_CRYPTO_FILE_TAG_LEN < expected \<and> n = expected - int ENIL_CRYPTO_FILE_TAG_LEN))))"

definition media_paths :: "string \<Rightarrow> media_entry \<Rightarrow> string \<times> string \<times> string \<times> string \<times> string \<times> string" where
  "media_paths account_dir m =
     (let media_dir = fit 1280 (account_dir @ ''/media''); chat_dir = fit 1536 (media_dir @ ''/'' @ me_chat_id m)
      in (media_dir, chat_dir, fit 1600 (chat_dir @ ''/'' @ me_message_id m @ ''.jpg''),
          fit 512 (''media/'' @ me_chat_id m @ ''/'' @ me_message_id m @ ''.jpg''),
          fit 1600 (chat_dir @ ''/'' @ me_message_id m @ ''_t.jpg''),
          fit 512 (''media/'' @ me_chat_id m @ ''/'' @ me_message_id m @ ''_t.jpg'')))"

text \<open>The stored sizes of a complete pair.\<close>

definition finish_media ::
  "('w, 'j) sync_env \<Rightarrow> media_entry \<Rightarrow> string \<Rightarrow> string \<Rightarrow> int \<times> int \<times> int \<times> int \<Rightarrow> db \<Rightarrow> 'w \<Rightarrow> int \<times> db \<times> 'w" where
  "finish_media S m rel_path rel_thumb dims D W =
     (case dims of (ow, oh, tw, th) \<Rightarrow>
        if ow \<le> 0 \<or> oh \<le> 0 \<or> tw \<le> 0 \<or> th \<le> 0 then (1, D, W)
        else (case enil_db_set_media_info (dbe S) (Some (me_message_id m)) (Some rel_path) ow oh (Some rel_thumb) tw th D of
                (rc, D1) \<Rightarrow> (if rc = SQLITE_OK then 0 else -1, D1, W)))"

text \<open>-1 when the database fails, 1 for an unavailable attachment, 0 for a complete image and thumbnail.\<close>

definition download_media_entry :: "('w, 'j) sync_env \<Rightarrow> string \<Rightarrow> media_entry \<Rightarrow> db \<Rightarrow> 'w \<Rightarrow> int \<times> db \<times> 'w" where
  "download_media_entry S account_dir m D W =
     (if account_dir = [] then (1, D, W)
      else
        (case media_paths account_dir m of (media_dir, chat_dir, dest, rel_path, thumb_dest, rel_thumb) \<Rightarrow>
           let W1 = make_dir S chat_dir (make_dir S media_dir W);
               expected = (if 0 < me_plain_size m then me_plain_size m else 0);
               valid = (\<lambda>V. if media_size_matches S dest expected (me_enc_km m) V then image_size S dest V else None)
           in case (valid W1, image_size S thumb_dest W1) of
                (Some (ow, oh), Some (tw, th)) \<Rightarrow> finish_media S m rel_path rel_thumb (ow, oh, tw, th) D W1
              | (original, _) \<Rightarrow>
                  (case enil_db_set_media_info (dbe S) (Some (me_message_id m)) None 0 0 None 0 0 D of
                     (rc, D1) \<Rightarrow>
                       if rc \<noteq> SQLITE_OK then (-1, D1, W1)
                       else
                         (case (if original \<noteq> None then (True, W1) else obs_download S m dest W1) of
                            (got, W2) \<Rightarrow>
                              if \<not> got \<or> valid W2 = None then (1, D1, W2)
                              else (case thumb_generate S dest thumb_dest W2 of
                                      (None, W3) \<Rightarrow> (1, D1, W3)
                                    | (Some dims, W3) \<Rightarrow> finish_media S m rel_path rel_thumb dims D1 W3)))))"

section \<open>Avatars\<close>

definition refresh_avatar_for_mid :: "('w, 'j) sync_env \<Rightarrow> string \<Rightarrow> string option \<Rightarrow> 'w \<Rightarrow> 'w" where
  "refresh_avatar_for_mid S mid picture_path W =
     (if mid = [] \<or> \<not> nonempty picture_path then W
      else (case before_slash (fit 1024 (session_path S)) of
              None \<Rightarrow> W
            | Some d \<Rightarrow>
                (let avatars = fit 1088 (d @ ''/avatars'')
                 in snd (curl_download_file S (fit 512 (''https://profile.line-scdn.net/'' @ the picture_path))
                           (fit 1200 (avatars @ ''/'' @ mid @ ''.jpg'')) (make_dir S avatars W)))))"

section \<open>Repairing the cache\<close>

text \<open>A row whose files are not what it says goes back to pending; a row without paths is pending already.\<close>

definition cached_png :: "('w, 'j) sync_env \<Rightarrow> string \<Rightarrow> string option \<Rightarrow> 'w \<Rightarrow> (int \<times> int) option" where
  "cached_png S dir rel W = (case asset_path (Some dir) rel of None \<Rightarrow> None | Some path \<Rightarrow> png_size S path W)"

definition row_intact :: "('w, 'j) sync_env \<Rightarrow> string \<Rightarrow> 'w \<Rightarrow> item_row \<Rightarrow> bool" where
  "row_intact S dir W r =
     (case (cached_png S dir (i_image_path r) W, if i_thumb_path r = i_image_path r then cached_png S dir (i_image_path r) W
                                                 else cached_png S dir (i_thumb_path r) W) of
        (Some (iw, ih), Some (tw, th)) \<Rightarrow>
          iw = column_int (opt_int (i_image_width r)) \<and> ih = column_int (opt_int (i_image_height r)) \<and>
          tw = column_int (opt_int (i_thumb_width r)) \<and> th = column_int (opt_int (i_thumb_height r))
      | _ \<Rightarrow> False)"

definition pending_row :: "item_row \<Rightarrow> item_row" where
  "pending_row r = r\<lparr>i_image_path := None, i_thumb_path := None, i_image_width := Some 0, i_image_height := Some 0,
     i_thumb_width := Some 0, i_thumb_height := Some 0\<rparr>"

definition damaged_keys :: "('w, 'j) sync_env \<Rightarrow> string \<Rightarrow> 'w \<Rightarrow> (string \<times> string, item_row) table \<Rightarrow> (string \<times> string) list" where
  "damaged_keys S dir W t =
     map fst (filter (\<lambda>(k, r). (i_image_path r \<noteq> None \<or> i_thumb_path r \<noteq> None) \<and> \<not> row_intact S dir W r) t)"

definition reconcile_table ::
  "('w, 'j) sync_env \<Rightarrow> string \<Rightarrow> 'w \<Rightarrow> (tables \<Rightarrow> (string \<times> string, item_row) table) \<Rightarrow>
   ((string \<times> string, item_row) table \<Rightarrow> tables \<Rightarrow> tables) \<Rightarrow> db \<Rightarrow> int \<times> db" where
  "reconcile_table S dir W get put D =
     (case query (dbe S) (\<lambda>T. damaged_keys S dir W (get T)) D of
        (None, D1) \<Rightarrow> (-1, D1)
      | (Some keys, D1) \<Rightarrow>
          (case while_ok (map (\<lambda>k. exec_stmt (dbe S) (\<lambda>T.
                   let (t, n) = update_where (\<lambda>k' r. k' = k) pending_row (get T) in (put t T, n))) keys) D1 of
             (rc, D2) \<Rightarrow> (if rc \<noteq> SQLITE_OK then -1 else 0, D2)))"

definition enil_asset_cache_reconcile :: "('w, 'j) sync_env \<Rightarrow> string \<Rightarrow> 'w \<Rightarrow> db \<Rightarrow> int \<times> db" where
  "enil_asset_cache_reconcile S dir W D =
     (case reconcile_table S dir W stickers (\<lambda>t T. T\<lparr>stickers := t\<rparr>) D of
        (rc, D1) \<Rightarrow> if rc \<noteq> 0 then (rc, D1) else reconcile_table S dir W sticons (\<lambda>t T. T\<lparr>sticons := t\<rparr>) D1)"

end
