(* ===== verification/ENIL_Sync.thy ===== *)
theory ENIL_Sync
  imports ENIL_SyncAssets
begin

text \<open>
  The live stream in \<open>source/shared/enil_sync.c\<close>: what one server event does to the database, from the
  parsed operation to the message with its decryption and its assets.  The result is the SQLite code,
  whether the operation is one the client acts on, the database and the world.
\<close>

section \<open>Packages and chats of a message\<close>

text \<open>The writes that record the stickers and sticons a message mentions.\<close>

definition content_type_is :: "'j cjson \<Rightarrow> 'j \<Rightarrow> int \<Rightarrow> bool" where
  "content_type_is J m n \<longleftrightarrow>
     (case getItem J m ''contentType'' of None \<Rightarrow> False | Some c \<Rightarrow> isNumber J c \<and> trunc (valuedouble J c) = n)"

definition sticker_writes :: "'j db_env \<Rightarrow> 'j \<Rightarrow> (db \<Rightarrow> int \<times> db) list" where
  "sticker_writes E meta =
     (let J = dj E; pkg = jstr J (getItem J meta ''STKPKGID''); stk = jstr J (getItem J meta ''STKID'')
      in if nonempty pkg \<and> nonempty stk
         then [enil_db_sticker_package_discover E pkg,
               enil_db_sticker_upsert E stk pkg (jstr J (getItem J meta ''STKOPT'')) (jstr J (getItem J meta ''STKHASH''))]
         else [])"

definition ownership_ids :: "'j cjson \<Rightarrow> 'j \<Rightarrow> string list" where
  "ownership_ids J meta =
     (case jstr J (getItem J meta ''STICON_OWNERSHIP'') of
        None \<Rightarrow> []
      | Some txt \<Rightarrow> List.map_filter (\<lambda>item. jstr J (Some item)) (map snd (jkids J (keep_if (isArray J) (parseText J txt)))))"

definition replace_refs :: "'j cjson \<Rightarrow> 'j \<Rightarrow> (string option \<times> string option) list" where
  "replace_refs J meta =
     (case jstr J (getItem J meta ''REPLACE'') of
        None \<Rightarrow> []
      | Some txt \<Rightarrow> map (\<lambda>res. (jstr J (getItem J res ''productId''), jstr J (getItem J res ''sticonId''))) (replace_resources J txt))"

definition sticon_writes :: "'j db_env \<Rightarrow> 'j \<Rightarrow> (db \<Rightarrow> int \<times> db) list" where
  "sticon_writes E meta =
     map (\<lambda>i. enil_db_sticon_package_discover E (Some i)) (filter (\<lambda>i. i \<noteq> []) (ownership_ids (dj E) meta)) @
     concat (map (\<lambda>(p, s). if nonempty p \<and> nonempty s
                           then [enil_db_sticon_package_discover E p, enil_db_sticon_upsert E s p None] else [])
       (replace_refs (dj E) meta))"

definition scan_writes :: "'j db_env \<Rightarrow> 'j \<Rightarrow> (db \<Rightarrow> int \<times> db) list" where
  "scan_writes E m =
     (case keep_if (isObject (dj E)) (getItem (dj E) m ''contentMetadata'') of
        None \<Rightarrow> []
      | Some meta \<Rightarrow>
          if content_type_is (dj E) m 7 then sticker_writes E meta
          else if content_type_is (dj E) m 0 then sticon_writes E meta else [])"

definition scan_messages_for_stickers :: "'j db_env \<Rightarrow> 'j list \<Rightarrow> db \<Rightarrow> int \<times> db" where
  "scan_messages_for_stickers E msgs D = while_ok (concat (map (scan_writes E) msgs)) D"

definition upsert_chat_for_message :: "'j db_env \<Rightarrow> 'j option \<Rightarrow> string \<Rightarrow> string option \<Rightarrow> db \<Rightarrow> int \<times> db" where
  "upsert_chat_for_message E msg chat_id my_mid D =
     (case msg of
        None \<Rightarrow> (SQLITE_ERROR, D)
      | Some m \<Rightarrow>
          (let J = dj E; from_mid = jstr J (getItem J m ''from''); msg_id = jstr J (getItem J m ''id'');
               incoming = (case (my_mid, from_mid) of (Some me, Some f) \<Rightarrow> f \<noteq> me | _ \<Rightarrow> False)
           in enil_db_message_box_upsert_live_message E (Some chat_id) 0 msg_id
                (case jstr J (getItem J m ''createdTime'') of None \<Rightarrow> 0 | Some t \<Rightarrow> fst (strtoll10 t)) incoming msg_id D))"

section \<open>Decrypting\<close>

text \<open>Store the outcome; a REPLACE block goes into the message's metadata and its raw text too.\<close>

definition with_replace :: "('w, 'j) sync_env \<Rightarrow> 'j \<Rightarrow> 'j \<Rightarrow> string \<Rightarrow> 'j" where
  "with_replace S msg meta rj =
     put_item S msg ''contentMetadata'' (addItem (sj S) (delete_item S meta ''REPLACE'') ''REPLACE'' (mkString (sj S) rj))"

definition store_decrypted :: "('w, 'j) sync_env \<Rightarrow> string \<Rightarrow> 'j \<Rightarrow> 'j \<Rightarrow> decrypted \<Rightarrow> db \<Rightarrow> (int \<times> db) \<times> 'j" where
  "store_decrypted S i msg meta d D =
     (case plain d of
        Some p \<Rightarrow>
          (case replace_json d of
             Some rj \<Rightarrow>
               (let msg' = with_replace S msg meta rj
                in (enil_db_set_message_plaintext (dbe S) (Some i) (Some p) (Some (printText (sj S) msg')) (Some rj) ENIL_DECRYPT_SUCCESS D, msg'))
           | None \<Rightarrow> (enil_db_set_message_text (dbe S) (Some i) (Some p) ENIL_DECRYPT_SUCCESS D, msg))
      | None \<Rightarrow>
          (case key_material d of
             Some km \<Rightarrow> (enil_db_set_message_enc_km (dbe S) (Some i) (Some km) D, msg)
           | None \<Rightarrow> (enil_db_set_message_text (dbe S) (Some i) None ENIL_DECRYPT_FAILED D, msg)))"

text \<open>A message that can be decrypted: five chunks, metadata with a version.\<close>

definition sealed_meta :: "'j cjson \<Rightarrow> 'j \<Rightarrow> 'j option" where
  "sealed_meta J msg =
     (if jis (\<lambda>c. isArray J c \<and> 5 \<le> length (children J c)) (getItem J msg ''chunks'')
      then keep_if (\<lambda>m. isObject J m \<and> getItem J m ''e2eeVersion'' \<noteq> None) (getItem J msg ''contentMetadata'') else None)"

definition is_user_message :: "'j cjson \<Rightarrow> 'j \<Rightarrow> bool" where
  "is_user_message J msg \<longleftrightarrow>
     (case getItem J msg ''toType'' of None \<Rightarrow> True | Some t \<Rightarrow> isNumber J t \<longrightarrow> trunc (valuedouble J t) = 0)"

definition decrypt_message ::
  "('w, 'j) sync_env \<Rightarrow> 'j \<Rightarrow> string option \<Rightarrow> string \<Rightarrow> 'j option \<Rightarrow> ('w, 'j) e2ee_state \<Rightarrow> decrypted \<times> ('w, 'j) e2ee_state" where
  "decrypt_message S msg my_mid token keys X =
     (if is_user_message (sj S) msg then decrypt_user_message (e2 S) msg my_mid token keys X
      else decrypt_group_message (e2 S) msg token keys X)"

definition keep_restore :: "('w, 'j) sync_env \<Rightarrow> ('w, 'j) e2ee_state \<Rightarrow> 'w" where
  "keep_restore S X =
     (case restore X of None \<Rightarrow> world X | Some r \<Rightarrow> if restore_changed X then save_restore_state S r (world X) else world X)"

definition decrypt_one_message ::
  "('w, 'j) sync_env \<Rightarrow> 'j \<Rightarrow> string option \<Rightarrow> string \<Rightarrow> db \<Rightarrow> 'w \<Rightarrow> int \<times> 'j \<times> db \<times> 'w" where
  "decrypt_one_message S msg my_mid token D W =
     (case jstr (sj S) (getItem (sj S) msg ''id'') of
        None \<Rightarrow> (SQLITE_ERROR, msg, D, W)
      | Some i \<Rightarrow>
          if is_unsupported_location_message (sj S) msg
          then (case enil_db_set_message_text (dbe S) (Some i) None ENIL_DECRYPT_NOT_TEXT D of (rc, D1) \<Rightarrow> (rc, msg, D1, W))
          else
            (case sealed_meta (sj S) msg of
               None \<Rightarrow> (case enil_db_set_message_text (dbe S) (Some i) None ENIL_DECRYPT_NOT_TEXT D of (rc, D1) \<Rightarrow> (rc, msg, D1, W))
             | Some meta \<Rightarrow>
                 (case load_session S W of
                    None \<Rightarrow> (SQLITE_ERROR, msg, D, W)
                  | Some (r, keys) \<Rightarrow>
                      (case decrypt_message S msg my_mid token keys
                              \<lparr>pub_cache = None, grp_cache = None, restore = r, restore_changed = False, world = W\<rparr> of
                         (d, X) \<Rightarrow>
                           (case store_decrypted S i msg meta d D of
                              ((rc, D1), msg') \<Rightarrow> (rc, msg', D1, keep_restore S X))))))"

section \<open>Assets of one message\<close>

text \<open>The packages a message refers to, each once.\<close>

definition collect_message_sticon_pkgs :: "'j cjson \<Rightarrow> 'j \<Rightarrow> string list" where
  "collect_message_sticon_pkgs J meta =
     rev (remdups (rev (filter (\<lambda>i. i \<noteq> [])
       (ownership_ids J meta @ List.map_filter (\<lambda>res. jstr J (getItem J res ''productId''))
          (case jstr J (getItem J meta ''REPLACE'') of None \<Rightarrow> [] | Some txt \<Rightarrow> replace_resources J txt)))))"

fun fetch_metas :: "('w, 'j) sync_env \<Rightarrow> string list \<Rightarrow> db \<Rightarrow> 'w \<Rightarrow> bool \<times> db \<times> 'w" where
  "fetch_metas S [] D W = (True, D, W)"
| "fetch_metas S (p # ps) D W =
     (case enil_db_sticon_package_meta_state (dbe S) (Some p) D of
        (st, D1) \<Rightarrow>
          if st = 1 \<or> st = 2
          then (case sync_sticonshop_meta S (Some p) (st = 1) D1 W of
                  (r, D2, W2) \<Rightarrow> if r = -2 then (False, D2, W2) else fetch_metas S ps D2 W2)
          else fetch_metas S ps D1 W)"

text \<open>The images of a message's sticons that are not on disk: their rows go back to pending first.\<close>

fun pend_sticons :: "('w, 'j) sync_env \<Rightarrow> 'w \<Rightarrow> sticon_ref list \<Rightarrow> db \<Rightarrow> download_item list option \<times> db" where
  "pend_sticons S W [] D = (Some [], D)"
| "pend_sticons S W (r # rs) D =
     (if cached_png S (set_account_dir S) (Some (sr_image r)) W \<noteq> None \<or> sr_package r = [] \<or> sr_sticon r = [] then pend_sticons S W rs D
      else (case enil_db_set_sticker_asset (dbe S) True (sr_sticon r) (sr_package r) None 0 0 None 0 0 D of
              (rc, D1) \<Rightarrow>
                if rc \<noteq> SQLITE_OK then (None, D1)
                else (case pend_sticons S W rs D1 of
                        (is, D2) \<Rightarrow> (map_option ((#) \<lparr>di_id = sr_sticon r, di_package = sr_package r, di_shop = ''sticonshop'',
                                                    di_option = [], di_hash = [], di_resource_type = []\<rparr>) is, D2))))"

definition download_message_sticon_images :: "('w, 'j) sync_env \<Rightarrow> string option \<Rightarrow> db \<Rightarrow> 'w \<Rightarrow> int \<times> db \<times> 'w" where
  "download_message_sticon_images S message_id D W =
     (if \<not> nonempty message_id then (0, D, W)
      else (case enil_db_get_message_sticons (dbe S) message_id D of
              (None, D1) \<Rightarrow> (-1, D1, W)
            | (Some rows, D1) \<Rightarrow>
                if rows = [] then (0, D1, W)
                else (case pend_sticons S W rows D1 of
                        (None, D2) \<Rightarrow> (-1, D2, W)
                      | (Some items, D2) \<Rightarrow> download_sticker_list S (Some items) D2 W)))"

definition sync_one_message_sticons :: "('w, 'j) sync_env \<Rightarrow> 'j \<Rightarrow> db \<Rightarrow> 'w \<Rightarrow> int \<times> db \<times> 'w" where
  "sync_one_message_sticons S msg D W =
     (case keep_if (isObject (sj S)) (getItem (sj S) msg ''contentMetadata'') of
        None \<Rightarrow> (0, D, W)
      | Some meta \<Rightarrow>
          (case fetch_metas S (collect_message_sticon_pkgs (sj S) meta) D W of
             (ok, D1, W1) \<Rightarrow>
               if \<not> ok then (-1, D1, W1)
               else download_message_sticon_images S (jstr (sj S) (getItem (sj S) msg ''id'')) D1 W1))"

definition sync_one_message_sticker :: "('w, 'j) sync_env \<Rightarrow> 'j \<Rightarrow> db \<Rightarrow> 'w \<Rightarrow> int \<times> db \<times> 'w" where
  "sync_one_message_sticker S msg D W =
     (let J = sj S
      in case keep_if (isObject J) (getItem J msg ''contentMetadata'') of
           None \<Rightarrow> (0, D, W)
         | Some meta \<Rightarrow>
             (case (jstr J (getItem J meta ''STKPKGID''), jstr J (getItem J meta ''STKID'')) of
                (Some p, Some s) \<Rightarrow>
                  if p = [] \<or> s = [] then (0, D, W)
                  else
                    (case enil_db_get_sticker_image_info_for_package (dbe S) 512 (Some p) (Some s) D of
                       (info, D1) \<Rightarrow>
                         if (case info of None \<Rightarrow> False | Some (path, w, h) \<Rightarrow> cached_png S (set_account_dir S) (Some path) W \<noteq> None)
                         then (0, D1, W)
                         else
                           (case enil_db_set_sticker_asset (dbe S) False s p None 0 0 None 0 0 D1 of
                              (rc, D2) \<Rightarrow>
                                if rc \<noteq> SQLITE_OK then (-1, D2, W)
                                else download_sticker_list S (Some [\<lparr>di_id = s, di_package = p, di_shop = ''stickershop'',
                                       di_option = text_of (jstr J (getItem J meta ''STKOPT'')),
                                       di_hash = text_of (jstr J (getItem J meta ''STKHASH'')), di_resource_type = []\<rparr>]) D2 W))
              | _ \<Rightarrow> (0, D, W)))"

definition sync_one_message_media :: "('w, 'j) sync_env \<Rightarrow> string option \<Rightarrow> db \<Rightarrow> 'w \<Rightarrow> int \<times> db \<times> 'w" where
  "sync_one_message_media S message_id D W =
     (if \<not> nonempty message_id then (0, D, W)
      else (case enil_db_get_message_media_info (dbe S) message_id D of
              (None, D1) \<Rightarrow> (-1, D1, W)
            | (Some m, D1) \<Rightarrow> download_media_entry S (set_account_dir S) m D1 W))"

section \<open>Operations that carry no message\<close>

definition apply_op_contact_update :: "('w, 'j) sync_env \<Rightarrow> string \<Rightarrow> string option \<Rightarrow> db \<Rightarrow> 'w \<Rightarrow> int \<times> db \<times> 'w" where
  "apply_op_contact_update S token mid D W =
     (if \<not> nonempty mid then (SQLITE_ERROR, D, W)
      else (case talk_get_contact_by_mid (et (e2 S)) (Some token) mid W of
              (None, W1) \<Rightarrow> (SQLITE_ERROR, D, W1)
            | (Some c, W1) \<Rightarrow>
                (case enil_db_talk_contact_upsert (dbe S) c D of
                   (rc, D1) \<Rightarrow> (rc, D1, if rc = SQLITE_OK then refresh_avatar_for_mid S (the mid) (co_picture_path c) W1 else W1))))"

definition apply_op_chat_update :: "('w, 'j) sync_env \<Rightarrow> string \<Rightarrow> string option \<Rightarrow> db \<Rightarrow> 'w \<Rightarrow> int \<times> db \<times> 'w" where
  "apply_op_chat_update S token chat_mid D W =
     (if \<not> nonempty chat_mid then (SQLITE_ERROR, D, W)
      else (case talk_get_chats (et (e2 S)) (Some token) (Some [the chat_mid]) W of
              (None, W1) \<Rightarrow> (SQLITE_ERROR, D, W1)
            | (Some [], W1) \<Rightarrow> (SQLITE_OK, D, W1)
            | (Some (c # cs), W1) \<Rightarrow>
                (case enil_db_chat_upsert (dbe S) (c\<lparr>ch_isInvited := False\<rparr>) D of
                   (rc, D1) \<Rightarrow> (rc, D1, if rc = SQLITE_OK then refresh_avatar_for_mid S (ch_chatMid c) (ch_picturePath c) W1 else W1))))"

definition backfill_chat_metadata :: "('w, 'j) sync_env \<Rightarrow> string \<Rightarrow> string \<Rightarrow> db \<Rightarrow> 'w \<Rightarrow> db \<times> 'w" where
  "backfill_chat_metadata S token chat_id D W =
     (if chat_id = [] then (D, W)
      else if enil_mid_is_one_to_one chat_id
      then (case enil_db_contact_exists (dbe S) (Some chat_id) D of
              (known, D1) \<Rightarrow> if known then (D1, W) else snd (apply_op_contact_update S token (Some chat_id) D1 W))
      else (case enil_db_chat_exists (dbe S) (Some chat_id) D of
              (known, D1) \<Rightarrow> if known then (D1, W) else snd (apply_op_chat_update S token (Some chat_id) D1 W)))"

definition apply_op_reaction :: "'j db_env \<Rightarrow> 'j talk_operation_t \<Rightarrow> string option \<Rightarrow> db \<Rightarrow> int \<times> db" where
  "apply_op_reaction E oper my_mid D =
     (let J = dj E;
          curr = keep_if (isObject J) (jgeti J (Option.bind (dup_or_null (op_param2 oper)) (parseText J)) ''curr'');
          paid = keep_if (isObject J) (jgeti J curr ''paidReactionType'');
          pre = keep_if (isNumber J) (jgeti J curr ''predefinedReactionType'');
          reactor = (if nonempty (op_param3 oper) then op_param3 oper else my_mid)
      in if nonempty (op_param1 oper) \<and> nonempty reactor
         then enil_db_message_reactions_update E (op_param1 oper) reactor (curr = None)
                (case pre of None \<Rightarrow> 0 | Some p \<Rightarrow> trunc (valuedouble J p))
                (jstr J (jgeti J paid ''productId'')) (jstr J (jgeti J paid ''emojiId'')) (op_createdTime oper) D
         else (SQLITE_ERROR, D))"

text \<open>A read receipt: one column pair for a user chat, a row per member otherwise.\<close>

definition apply_op_read :: "'j db_env \<Rightarrow> 'j talk_operation_t \<Rightarrow> db \<Rightarrow> int \<times> db" where
  "apply_op_read E oper D =
     (case op_param1 oper of
        Some (c # cs) \<Rightarrow>
          if c = CHR ''u'' \<or> c = CHR ''U''
          then enil_db_message_box_set_peer_read E (Some (c # cs)) (op_param2 oper) (op_createdTime oper) D
          else if nonempty (op_param2 oper)
          then enil_db_message_box_set_group_reader E (Some (c # cs)) (op_param2 oper) (op_createdTime oper) D
          else (SQLITE_ERROR, D)
      | _ \<Rightarrow> (SQLITE_ERROR, D))"

section \<open>Dispatch\<close>

definition ENIL_OP_SEND_MESSAGE :: int where "ENIL_OP_SEND_MESSAGE = 25"
definition ENIL_OP_RECEIVE_MESSAGE :: int where "ENIL_OP_RECEIVE_MESSAGE = 26"
definition ENIL_OP_SEND_CHAT_CHECKED :: int where "ENIL_OP_SEND_CHAT_CHECKED = 40"
definition ENIL_OP_UPDATE_CONTACT :: int where "ENIL_OP_UPDATE_CONTACT = 49"
definition ENIL_OP_NOTIFIED_READ_MESSAGE :: int where "ENIL_OP_NOTIFIED_READ_MESSAGE = 55"
definition ENIL_OP_DESTROY_MESSAGE :: int where "ENIL_OP_DESTROY_MESSAGE = 64"
definition ENIL_OP_NOTIFIED_DESTROY_MESSAGE :: int where "ENIL_OP_NOTIFIED_DESTROY_MESSAGE = 65"
definition ENIL_OP_UPDATE_CHAT :: int where "ENIL_OP_UPDATE_CHAT = 121"
definition ENIL_OP_NOTIFIED_UPDATE_CHAT :: int where "ENIL_OP_NOTIFIED_UPDATE_CHAT = 122"
definition ENIL_OP_SEND_REACTION :: int where "ENIL_OP_SEND_REACTION = 139"
definition ENIL_OP_NOTIFIED_SEND_REACTION :: int where "ENIL_OP_NOTIFIED_SEND_REACTION = 140"

lemmas ENIL_OP_defs = ENIL_OP_SEND_MESSAGE_def ENIL_OP_RECEIVE_MESSAGE_def ENIL_OP_SEND_CHAT_CHECKED_def
  ENIL_OP_UPDATE_CONTACT_def ENIL_OP_NOTIFIED_READ_MESSAGE_def ENIL_OP_DESTROY_MESSAGE_def
  ENIL_OP_NOTIFIED_DESTROY_MESSAGE_def ENIL_OP_UPDATE_CHAT_def ENIL_OP_NOTIFIED_UPDATE_CHAT_def
  ENIL_OP_SEND_REACTION_def ENIL_OP_NOTIFIED_SEND_REACTION_def

text \<open>The unread count and the message go in together, so a redelivery after a failure counts once.\<close>

definition store_live_message :: "'j db_env \<Rightarrow> 'j option \<Rightarrow> 'j talk_message_t \<Rightarrow> string \<Rightarrow> string option \<Rightarrow> db \<Rightarrow> int \<times> db" where
  "store_live_message E msg m chat_id my_mid D =
     in_savepoint E (while_ok [upsert_chat_for_message E msg chat_id my_mid, enil_db_message_upsert E m]) D"

text \<open>A failing asset step turns the result into an error but does not stop the next.\<close>

definition asset_step ::
  "bool \<Rightarrow> (db \<Rightarrow> 'w \<Rightarrow> int \<times> db \<times> 'w) \<Rightarrow> int \<times> db \<times> 'w \<Rightarrow> int \<times> db \<times> 'w" where
  "asset_step wanted step X =
     (case X of (rc, D, W) \<Rightarrow>
        if \<not> wanted then X
        else (case step D W of (r, D1, W1) \<Rightarrow> (if r < 0 then SQLITE_ERROR else rc, D1, W1)))"

definition fetch_message_assets :: "('w, 'j) sync_env \<Rightarrow> 'j \<Rightarrow> string option \<Rightarrow> int \<times> db \<times> 'w \<Rightarrow> int \<times> db \<times> 'w" where
  "fetch_message_assets S msg message_id X =
     (let J = sj S; meta = keep_if (isObject J) (getItem J msg ''contentMetadata'');
          has_sticon = (jgeti J meta ''STICON_OWNERSHIP'' \<noteq> None \<or> jgeti J meta ''REPLACE'' \<noteq> None)
      in asset_step (content_type_is J msg 7) (sync_one_message_sticker S msg)
           (asset_step (content_type_is J msg 1) (sync_one_message_media S message_id)
             (asset_step has_sticon (sync_one_message_sticons S msg) X)))"

definition process_stored_message ::
  "('w, 'j) sync_env \<Rightarrow> string \<Rightarrow> string option \<Rightarrow> 'j \<Rightarrow> 'j talk_message_t \<Rightarrow> string \<Rightarrow> db \<Rightarrow> 'w \<Rightarrow> int \<times> db \<times> 'w" where
  "process_stored_message S token my_mid msg m chat_id D W =
     (case backfill_chat_metadata S token chat_id D W of
        (D1, W1) \<Rightarrow>
          (case scan_messages_for_stickers (dbe S) [msg] D1 of
             (rc, D2) \<Rightarrow>
               (let (rc3, msg3, D3, W3) =
                      (if rc \<noteq> SQLITE_OK then (rc, msg, D2, W1)
                       else (case message_has_plaintext (dbe S) (m_id m) D2 of
                               (has, D2') \<Rightarrow> if has then (rc, msg, D2', W1) else decrypt_one_message S msg my_mid token D2' W1));
                    (rc4, D4) = (if rc3 = SQLITE_OK then scan_messages_for_stickers (dbe S) [msg3] D3 else (rc3, D3))
                in fetch_message_assets S msg3 (m_id m) (rc4, D4, W3))))"

definition process_message_op ::
  "('w, 'j) sync_env \<Rightarrow> string \<Rightarrow> string option \<Rightarrow> 'j \<Rightarrow> 'j talk_operation_t \<Rightarrow> db \<Rightarrow> 'w \<Rightarrow> int \<times> db \<times> 'w" where
  "process_message_op S token my_mid whole oper D W =
     (case op_message oper of
        None \<Rightarrow> (SQLITE_ERROR, D, W)
      | Some m \<Rightarrow>
          if \<not> nonempty (m_chat_id m) then (SQLITE_ERROR, D, W)
          else
            (let msg = getItem (sj S) whole ''message''; chat_id = the (m_chat_id m)
             in case store_live_message (dbe S) msg m chat_id my_mid D of
                  (rc, D1) \<Rightarrow>
                    (case msg of
                       None \<Rightarrow> (rc, D1, W)
                     | Some j \<Rightarrow>
                         if rc \<noteq> SQLITE_OK then (rc, D1, W)
                         else process_stored_message S token my_mid j m chat_id D1 W)))"

definition with_world :: "'w \<Rightarrow> int \<times> db \<Rightarrow> int \<times> db \<times> 'w" where
  "with_world W X = (fst X, snd X, W)"

definition process_op ::
  "('w, 'j) sync_env \<Rightarrow> string \<Rightarrow> string option \<Rightarrow> 'j \<Rightarrow> 'j talk_operation_t \<Rightarrow> db \<Rightarrow> 'w \<Rightarrow> (int \<times> db \<times> 'w) option" where
  "process_op S token my_mid whole oper D W =
     (let t = op_type oper; E = dbe S
      in if t = ENIL_OP_NOTIFIED_READ_MESSAGE then Some (with_world W (apply_op_read E oper D))
         else if t = ENIL_OP_SEND_CHAT_CHECKED
         then Some (with_world W (if nonempty (op_param1 oper) then enil_db_message_box_mark_seen E (op_param1 oper) (op_param2 oper) D
                                  else (SQLITE_ERROR, D)))
         else if t = ENIL_OP_DESTROY_MESSAGE \<or> t = ENIL_OP_NOTIFIED_DESTROY_MESSAGE
         then Some (with_world W (if nonempty (op_param2 oper) then enil_db_message_mark_deleted E (op_param2 oper) D else (SQLITE_ERROR, D)))
         else if t = ENIL_OP_UPDATE_CONTACT then Some (apply_op_contact_update S token (op_param1 oper) D W)
         else if t = ENIL_OP_UPDATE_CHAT \<or> t = ENIL_OP_NOTIFIED_UPDATE_CHAT then Some (apply_op_chat_update S token (op_param1 oper) D W)
         else if t = ENIL_OP_SEND_REACTION \<or> t = ENIL_OP_NOTIFIED_SEND_REACTION then Some (with_world W (apply_op_reaction E oper my_mid D))
         else if t = ENIL_OP_SEND_MESSAGE \<or> t = ENIL_OP_RECEIVE_MESSAGE then Some (process_message_op S token my_mid whole oper D W)
         else None)"

definition enil_sync_process_sse_event ::
  "('w, 'j) sync_env \<Rightarrow> string \<Rightarrow> string option \<Rightarrow> string \<Rightarrow> string \<Rightarrow> db \<Rightarrow> 'w \<Rightarrow> int \<times> bool \<times> db \<times> 'w" where
  "enil_sync_process_sse_event S token my_mid event_type event_data D W =
     (if event_type \<noteq> ''message'' then (SQLITE_OK, False, D, W)
      else
        (case parseText (sj S) event_data of
           None \<Rightarrow> (SQLITE_ERROR, False, D, W)
         | Some whole \<Rightarrow>
             (case talk_operation_parse (sj S) (Some whole) my_mid of
                None \<Rightarrow> (SQLITE_ERROR, False, D, W)
              | Some oper \<Rightarrow>
                  (case process_op S token my_mid whole oper D W of
                     None \<Rightarrow> (SQLITE_OK, False, D, W)
                   | Some (rc, D1, W1) \<Rightarrow> (rc, True, D1, W1)))))"

end
