(* ===== verification/ENIL_SyncPhases.thy ===== *)
theory ENIL_SyncPhases
  imports ENIL_Sync
begin

text \<open>
  The full sync of \<open>source/shared/enil_sync.c\<close>, phase by phase: the account's profile, contacts,
  chats and boxes, recent messages, read marks, decryption, the product catalogues, downloads, and
  last the cursor of the event stream.  A result \<open>None\<close> of a phase means that it does not come back:
  the paging of boxes does not end, or a null pointer is read.
\<close>

record ('w, 'j) full_env =
  sy :: "('w, 'j) sync_env"
  localized :: "sval list list \<Rightarrow> sval list list"
  bind_identity :: "'w \<Rightarrow> bool \<times> 'w"
  acquire_obs_token :: "string \<Rightarrow> 'w \<Rightarrow> 'w"
  read_session :: "'w \<Rightarrow> 'j option"
  complete_partial_syncs :: "'j \<Rightarrow> 'w \<Rightarrow> bool \<times> 'w"
  any_failed :: "'w \<Rightarrow> bool"

abbreviation fd :: "('w, 'j) full_env \<Rightarrow> 'j db_env" where
  "fd F \<equiv> dbe (sy F)"

abbreviation ft :: "('w, 'j) full_env \<Rightarrow> ('w, 'j) talk_env" where
  "ft F \<equiv> et (e2 (sy F))"

section \<open>Transactions\<close>

text \<open>\<open>ROLLBACK\<close> goes back to the start of the transaction, past every savepoint in it.\<close>

definition rollback_all :: "db \<Rightarrow> db" where
  "rollback_all D = D\<lparr>tbl := (if marks D = [] then tbl D else last (marks D)), marks := []\<rparr>"

text \<open>\<open>BEGIN\<close>, a group of statements, \<open>COMMIT\<close>; whatever fails, \<open>ROLLBACK\<close>.\<close>

definition in_transaction :: "'j db_env \<Rightarrow> (db \<Rightarrow> int \<times> db) \<Rightarrow> db \<Rightarrow> int \<times> db" where
  "in_transaction E group_of D =
     (case begin_transaction E D of
        (rc, D1) \<Rightarrow>
          (case (if rc = SQLITE_OK then group_of D1 else (rc, D1)) of
             (rc2, D2) \<Rightarrow>
               (case (if rc2 = SQLITE_OK then release E D2 else (rc2, D2)) of
                  (rc3, D3) \<Rightarrow> if rc3 \<noteq> SQLITE_OK then (rc3, rollback_all D3) else (SQLITE_OK, D3))))"

section \<open>Events without the database\<close>

definition enil_sync_sse_talk_exception_code :: "'j cjson \<Rightarrow> string option \<Rightarrow> int" where
  "enil_sync_sse_talk_exception_code J event_data =
     (if \<not> nonempty event_data then 0
      else case keep_if (isNumber J) (jgeti J (parseText J (the event_data)) ''code'') of
             None \<Rightarrow> 0 | Some c \<Rightarrow> trunc (valuedouble J c))"

record ENILSSEMessageInfo =
  in_message_id :: string
  in_from_mid :: string
  in_to_mid :: string
  in_to_type :: int
  in_op_type :: int
  in_has_message :: bool

text \<open>The ids are cut to their buffers; false when there is none.\<close>

definition enil_sync_sse_message_info :: "'j cjson \<Rightarrow> string option \<Rightarrow> ENILSSEMessageInfo option" where
  "enil_sync_sse_message_info J event_data =
     (let part = (\<lambda>n s. fit n (if nonempty s then the s else []))
      in case Option.bind (Option.bind event_data (parseText J)) (\<lambda>whole. talk_operation_parse J (Some whole) None) of
           None \<Rightarrow> None
         | Some oper \<Rightarrow>
             (let info =
                (case op_message oper of
                   Some m \<Rightarrow>
                     \<lparr>in_message_id = part 128 (if nonempty (m_id m) then m_id m else op_param3 oper),
                      in_from_mid = part 256 (m_from_mid m), in_to_mid = part 256 (m_to_mid m),
                      in_to_type = m_toType m, in_op_type = op_type oper, in_has_message = True\<rparr>
                 | None \<Rightarrow>
                     \<lparr>in_message_id = part 128 (op_param3 oper), in_from_mid = [], in_to_mid = [],
                      in_to_type = -1, in_op_type = op_type oper, in_has_message = False\<rparr>)
              in if in_message_id info \<noteq> [] \<or> in_from_mid info \<noteq> [] \<or> in_to_mid info \<noteq> [] then Some info else None))"

section \<open>Read ranges\<close>

text \<open>The highest end time of a reader's segments.\<close>

definition read_range_max_end_time :: "'j cjson \<Rightarrow> 'j \<Rightarrow> int" where
  "read_range_max_end_time J segs =
     foldl (\<lambda>m seg. case (if isObject J seg then enil_json_get_int64 J (Some seg) (Some ''endTime'') else None) of
                      None \<Rightarrow> m | Some t \<Rightarrow> if m < t then t else m)
       0 (map snd (jkids J (keep_if (isArray J) (Some segs))))"

definition read_range_apply_one :: "'j db_env \<Rightarrow> string \<Rightarrow> string \<Rightarrow> int \<Rightarrow> db \<Rightarrow> int \<times> db" where
  "read_range_apply_one E chat_mid reader_mid end_time D =
     (if chat_mid = [] \<or> reader_mid = [] \<or> end_time \<le> 0 then (SQLITE_OK, D)
      else if lower_char (hd chat_mid) = CHR ''u''
      then enil_db_message_box_set_peer_read E (Some chat_mid) (Some reader_mid) end_time D
      else if lower_char (hd chat_mid) = CHR ''c'' \<or> lower_char (hd chat_mid) = CHR ''r''
      then enil_db_message_box_set_group_reader E (Some chat_mid) (Some reader_mid) end_time D
      else (SQLITE_OK, D))"

definition read_range_apply_data :: "'j db_env \<Rightarrow> 'j \<Rightarrow> db \<Rightarrow> int \<times> db" where
  "read_range_apply_data E data D =
     (let J = dj E
      in while_ok (concat (map (\<lambda>entry.
           (case (jstr J (getItem J entry ''chatId''), keep_if (isObject J) (getItem J entry ''ranges'')) of
              (Some chat_mid, Some ranges) \<Rightarrow>
                if chat_mid = [] then []
                else map (\<lambda>(reader, segs). read_range_apply_one E chat_mid reader (read_range_max_end_time J segs)) (children J ranges)
            | _ \<Rightarrow> [])) (map snd (jkids J (keep_if (isArray J) (Some data)))))) D)"

definition json_string_array_contains :: "string list \<Rightarrow> string \<Rightarrow> bool" where
  "json_string_array_contains arr s \<longleftrightarrow> s \<noteq> [] \<and> s \<in> set arr"

section \<open>Connecting\<close>

definition sync_phase_connecting :: "('w, 'j) full_env \<Rightarrow> string option \<Rightarrow> 'w \<Rightarrow> string option \<times> 'w" where
  "sync_phase_connecting F access_token W =
     (case bind_identity F W of
        (ok, W1) \<Rightarrow>
          if \<not> ok then (None, W1)
          else if \<not> nonempty access_token then (None, W1)
          else (access_token, acquire_obs_token F (the access_token) W1))"

section \<open>Account\<close>

definition upsert_self_contact :: "'j db_env \<Rightarrow> 'j talk_profile_t \<Rightarrow> db \<Rightarrow> int \<times> db" where
  "upsert_self_contact E p D =
     enil_db_talk_contact_upsert E
       \<lparr>co_mid = pf_mid p, co_display_name = pf_display_name p, co_display_name_overridden = None,
        co_status_message = pf_status_message p, co_picture_path = pf_picture_path p, co_registered = False, co_raw = None\<rparr> D"

text \<open>The members and invitees of the chats, each once, in the order met.\<close>

definition mid_set_add :: "string list \<Rightarrow> string \<Rightarrow> string list" where
  "mid_set_add mids mid = (if mid = [] \<or> mid \<in> set mids then mids else mids @ [mid])"

definition mid_set_add_keys :: "'j cjson \<Rightarrow> 'j option \<Rightarrow> string list \<Rightarrow> string list" where
  "mid_set_add_keys J mid_map mids = foldl mid_set_add mids (map fst (jkids J (keep_if (isObject J) mid_map)))"

definition collect_chat_member_mids :: "'j cjson \<Rightarrow> 'j \<Rightarrow> string list \<Rightarrow> string list" where
  "collect_chat_member_mids J chat_raw mids =
     (case jgeti J (getItem J chat_raw ''extra'') ''groupExtra'' of
        None \<Rightarrow> mids
      | Some ge \<Rightarrow> mid_set_add_keys J (getItem J ge ''inviteeMids'') (mid_set_add_keys J (getItem J ge ''memberMids'') mids))"

fun backfill_member_contacts :: "('w, 'j) full_env \<Rightarrow> string \<Rightarrow> string list \<Rightarrow> db \<Rightarrow> 'w \<Rightarrow> db \<times> 'w" where
  "backfill_member_contacts F token [] D W = (D, W)"
| "backfill_member_contacts F token (mid # mids) D W =
     (case enil_db_contact_exists (fd F) (Some mid) D of
        (known, D1) \<Rightarrow>
          if known then backfill_member_contacts F token mids D1 W
          else (case talk_get_contact_by_mid (ft F) (Some token) (Some mid) W of
                  (None, W1) \<Rightarrow> backfill_member_contacts F token mids D1 W1
                | (Some c, W1) \<Rightarrow>
                    (case enil_db_talk_contact_upsert (fd F) (c\<lparr>co_registered := False\<rparr>) D1 of
                       (rc, D2) \<Rightarrow> backfill_member_contacts F token mids D2
                                     (if rc = SQLITE_OK then refresh_avatar_for_mid (sy F) mid (co_picture_path c) W1 else W1))))"

definition account_profile :: "('w, 'j) full_env \<Rightarrow> string \<Rightarrow> db \<Rightarrow> 'w \<Rightarrow> bool \<times> db \<times> 'w" where
  "account_profile F token D W =
     (case talk_get_profile (ft F) (Some token) (Some SYNC_REASON_OPERATION) W of
        (None, W1) \<Rightarrow> (False, D, W1)
      | (Some p, W1) \<Rightarrow>
          (case enil_db_talk_profile_upsert (fd F) p D of
             (rc, D1) \<Rightarrow> if rc \<noteq> SQLITE_OK then (False, D1, W1) else (True, snd (upsert_self_contact (fd F) p D1), W1)))"

definition account_contacts :: "('w, 'j) full_env \<Rightarrow> string \<Rightarrow> db \<Rightarrow> 'w \<Rightarrow> bool \<times> db \<times> 'w" where
  "account_contacts F token D W =
     (case talk_get_contacts (ft F) (Some token) W of
        (None, W1) \<Rightarrow> (False, D, W1)
      | (Some cs, W1) \<Rightarrow>
          (case in_transaction (fd F) (while_ok (map (enil_db_talk_contact_upsert (fd F)) cs)) D of
             (rc, D1) \<Rightarrow> (rc = SQLITE_OK, D1, W1)))"

definition mark_invited :: "'j talk_get_all_chat_mids_t \<Rightarrow> 'j talk_chat_t \<Rightarrow> 'j talk_chat_t" where
  "mark_invited mids c = c\<lparr>ch_isInvited := (ch_chatMid c \<in> set (am_invitedChatMids mids))\<rparr>"

definition account_chats :: "('w, 'j) full_env \<Rightarrow> string \<Rightarrow> db \<Rightarrow> 'w \<Rightarrow> bool \<times> db \<times> 'w" where
  "account_chats F token D W =
     (case talk_get_all_chat_mids (ft F) (Some token) (Some \<lparr>withMemberChats = True, withInvitedChats = True\<rparr>) W of
        (None, W1) \<Rightarrow> (False, D, W1)
      | (Some mids, W1) \<Rightarrow>
          (let all_mids = am_memberChatMids mids @ am_invitedChatMids mids
           in case (if all_mids = [] then (Some [], W1) else talk_get_chats (ft F) (Some token) (Some all_mids) W1) of
                (None, W2) \<Rightarrow> (False, D, W2)
              | (Some chats_arr, W2) \<Rightarrow>
                  (case in_transaction (fd F) (while_ok (map (\<lambda>c. enil_db_chat_upsert (fd F) (mark_invited mids c)) chats_arr)) D of
                     (rc, D1) \<Rightarrow>
                       if rc \<noteq> SQLITE_OK then (False, D1, W2)
                       else (case backfill_member_contacts F token
                                    (foldl (\<lambda>acc c. collect_chat_member_mids (tj (ft F)) (ch_raw c) acc) [] chats_arr) D1 W2 of
                               (D2, W3) \<Rightarrow> (True, D2, W3)))))"

definition account_boxes ::
  "('w, 'j) full_env \<Rightarrow> string \<Rightarrow> db \<Rightarrow> 'w \<Rightarrow> ('j talk_message_box_t list option \<times> db \<times> 'w) option" where
  "account_boxes F token D W =
     (case talk_get_message_boxes (ft F) (Some token) W of
        None \<Rightarrow> None
      | Some (None, W1) \<Rightarrow> Some (None, D, W1)
      | Some (Some bs, W1) \<Rightarrow>
          (case in_transaction (fd F) (while_ok (map (enil_db_message_box_upsert (fd F)) bs)) D of
             (rc, D1) \<Rightarrow> Some (if rc = SQLITE_OK then Some bs else None, D1, W1)))"

section \<open>Avatars of everyone\<close>

definition download_if_missing :: "('w, 'j) sync_env \<Rightarrow> string \<Rightarrow> string \<Rightarrow> 'w \<Rightarrow> 'w" where
  "download_if_missing S url dest W = (if file_bytes S dest W \<noteq> None then W else snd (curl_download_file S url dest W))"

definition str_at :: "(nat \<Rightarrow> 'j field_val) \<Rightarrow> nat \<Rightarrow> string option" where
  "str_at fields_of n = (case fields_of n of PStr p \<Rightarrow> p | _ \<Rightarrow> None)"

definition profile_picture :: "(nat \<Rightarrow> 'j field_val) \<Rightarrow> string option \<times> string option" where
  "profile_picture p = (str_at p 0, str_at p 48)"

definition contact_picture :: "(nat \<Rightarrow> 'j field_val) \<Rightarrow> string option \<times> string option" where
  "contact_picture c = (str_at c 0, str_at c 32)"

definition chat_picture_column :: nat where "chat_picture_column = 5"

definition download_avatars :: "('w, 'j) full_env \<Rightarrow> db \<Rightarrow> 'w \<Rightarrow> db \<times> 'w" where
  "download_avatars F D W =
     (let S = sy F
      in case before_slash (fit 1024 (session_path S)) of
           None \<Rightarrow> (D, W)
         | Some d \<Rightarrow>
             (let avatars = fit 1088 (d @ ''/avatars'');
                  fetch = (\<lambda>V (mid, pic). if nonempty mid \<and> nonempty pic
                             then download_if_missing S (fit 512 (''https://profile.line-scdn.net/'' @ the pic))
                                    (fit 1200 (avatars @ ''/'' @ the mid @ ''.jpg'')) V
                             else V);
                  (p, D1) = enil_db_talk_profile_get (fd F) D;
                  W1 = foldl fetch (make_dir S avatars W) (case p of None \<Rightarrow> [] | Some x \<Rightarrow> [profile_picture x]);
                  (cs, D2) = enil_db_talk_contact_get_all (fd F) (localized F) D1;
                  W2 = foldl fetch W1 (case cs of None \<Rightarrow> [] | Some xs \<Rightarrow> map contact_picture xs);
                  (gs, D3) = query (fd F) (\<lambda>T. map (\<lambda>(k, row). (Some k, column_text (joined (Some row) chat_picture_column))) (chats T)) D2
              in (D3, foldl fetch W2 (case gs of None \<Rightarrow> [] | Some xs \<Rightarrow> xs))))"

definition sync_phase_account ::
  "('w, 'j) full_env \<Rightarrow> string \<Rightarrow> db \<Rightarrow> 'w \<Rightarrow> ('j talk_message_box_t list option \<times> db \<times> 'w) option" where
  "sync_phase_account F token D W =
     (case account_profile F token D W of
        (ok1, D1, W1) \<Rightarrow>
          if \<not> ok1 then Some (None, D1, W1)
          else (case account_contacts F token D1 W1 of
                  (ok2, D2, W2) \<Rightarrow>
                    if \<not> ok2 then Some (None, D2, W2)
                    else (case account_chats F token D2 W2 of
                            (ok3, D3, W3) \<Rightarrow>
                              if \<not> ok3 then Some (None, D3, W3)
                              else (case account_boxes F token D3 W3 of
                                      None \<Rightarrow> None
                                    | Some (None, D4, W4) \<Rightarrow> Some (None, D4, W4)
                                    | Some (Some bs, D4, W4) \<Rightarrow>
                                        (case download_avatars F D4 W4 of (D5, W5) \<Rightarrow> Some (Some bs, D5, W5))))))"

section \<open>Messages and read marks\<close>

definition MESSAGES_PER_CHAT :: int where "MESSAGES_PER_CHAT = 50"

text \<open>The recent messages of each box: stored together, then scanned for stickers.\<close>

fun sync_phase_messages ::
  "('w, 'j) full_env \<Rightarrow> string \<Rightarrow> 'j talk_message_box_t list \<Rightarrow> db \<Rightarrow> 'w \<Rightarrow> bool \<times> db \<times> 'w" where
  "sync_phase_messages F token [] D W = (True, D, W)"
| "sync_phase_messages F token (b # bs) D W =
     (case talk_get_recent_messages (ft F) (Some token) (Some (mb_id b)) MESSAGES_PER_CHAT W of
        (None, W1) \<Rightarrow> (False, D, W1)
      | (Some msgs, W1) \<Rightarrow>
          if msgs = [] then sync_phase_messages F token bs D W1
          else (case in_transaction (fd F) (while_ok (map (enil_db_message_upsert (fd F)) msgs)) D of
                  (rc, D1) \<Rightarrow>
                    if rc \<noteq> SQLITE_OK then (False, D1, W1)
                    else (case scan_messages_for_stickers (fd F) (List.map_filter m_raw msgs) D1 of
                            (rc2, D2) \<Rightarrow> if rc2 \<noteq> SQLITE_OK then (False, D2, W1) else sync_phase_messages F token bs D2 W1)))"

definition READ_RANGE_BATCH_SIZE :: nat where "READ_RANGE_BATCH_SIZE = 100"

function sync_phase_read_range ::
  "('w, 'j) full_env \<Rightarrow> string \<Rightarrow> string list \<Rightarrow> db \<Rightarrow> 'w \<Rightarrow> bool \<times> db \<times> 'w" where
  "sync_phase_read_range F token ids D W =
     (if ids = [] then (True, D, W)
      else (case talk_get_message_read_range (ft F) (Some token) (Some (map Some (take READ_RANGE_BATCH_SIZE ids))) W of
              (None, W1) \<Rightarrow> sync_phase_read_range F token (drop READ_RANGE_BATCH_SIZE ids) D W1
            | (Some data, W1) \<Rightarrow>
                (case in_transaction (fd F) (read_range_apply_data (fd F) data) D of
                   (rc, D1) \<Rightarrow> if rc \<noteq> SQLITE_OK then (False, D1, W1)
                     else sync_phase_read_range F token (drop READ_RANGE_BATCH_SIZE ids) D1 W1)))"
  by pat_completeness auto
termination by (relation "measure (\<lambda>(F, token, ids, D, W). length ids)") (auto simp: READ_RANGE_BATCH_SIZE_def)

declare sync_phase_read_range.simps [simp del]

section \<open>Decrypting\<close>

definition decrypt_stored ::
  "('w, 'j) sync_env \<Rightarrow> string option \<Rightarrow> string \<Rightarrow> 'j option \<Rightarrow> string \<times> string \<Rightarrow> db \<Rightarrow> ('w, 'j) e2ee_state \<Rightarrow>
   int \<times> db \<times> ('w, 'j) e2ee_state" where
  "decrypt_stored S my_mid token keys entry D X =
     (case entry of (i, raw) \<Rightarrow>
        (case parseText (sj S) raw of
           None \<Rightarrow> (SQLITE_OK, D, X)
         | Some msg \<Rightarrow>
             if is_unsupported_location_message (sj S) msg
             then (case enil_db_set_message_text (dbe S) (Some i) None ENIL_DECRYPT_NOT_TEXT D of (rc, D1) \<Rightarrow> (rc, D1, X))
             else
               (case sealed_meta (sj S) msg of
                  None \<Rightarrow> (case enil_db_set_message_text (dbe S) (Some i) None ENIL_DECRYPT_NOT_TEXT D of (rc, D1) \<Rightarrow> (rc, D1, X))
                | Some meta \<Rightarrow>
                    (case decrypt_message S msg my_mid token keys X of
                       (d, X1) \<Rightarrow> (case store_decrypted S i msg meta d D of ((rc, D1), msg') \<Rightarrow> (rc, D1, X1))))))"

text \<open>Messages decrypted before REPLACE blocks were kept: only the raw text and the sticon rows change.\<close>

definition replace_stored ::
  "('w, 'j) sync_env \<Rightarrow> string option \<Rightarrow> string \<Rightarrow> 'j option \<Rightarrow> string \<times> string \<Rightarrow> db \<Rightarrow> ('w, 'j) e2ee_state \<Rightarrow>
   int \<times> db \<times> ('w, 'j) e2ee_state" where
  "replace_stored S my_mid token keys entry D X =
     (case entry of (i, raw) \<Rightarrow>
        (case parseText (sj S) raw of
           None \<Rightarrow> (SQLITE_OK, D, X)
         | Some msg \<Rightarrow>
             (case (keep_if (\<lambda>c. isArray (sj S) c \<and> 5 \<le> length (children (sj S) c)) (getItem (sj S) msg ''chunks''),
                    keep_if (isObject (sj S)) (getItem (sj S) msg ''contentMetadata'')) of
                (Some chunks, Some meta) \<Rightarrow>
                  (case decrypt_message S msg my_mid token keys X of
                     (d, X1) \<Rightarrow>
                       (case replace_json d of
                          None \<Rightarrow> (SQLITE_OK, D, X1)
                        | Some rj \<Rightarrow>
                            (case enil_db_set_message_raw_json (dbe S) (Some i)
                                    (Some (printText (sj S) (with_replace S msg meta rj))) (Some rj) D of
                               (rc, D1) \<Rightarrow> (rc, D1, X1))))
              | _ \<Rightarrow> (SQLITE_OK, D, X))))"

text \<open>Entry after entry while the database answers.\<close>

fun each_entry :: "('a \<Rightarrow> db \<Rightarrow> 'x \<Rightarrow> int \<times> db \<times> 'x) \<Rightarrow> 'a list \<Rightarrow> db \<Rightarrow> 'x \<Rightarrow> int \<times> db \<times> 'x" where
  "each_entry f [] D X = (SQLITE_OK, D, X)"
| "each_entry f (a # as) D X =
     (case f a D X of (rc, D1, X1) \<Rightarrow> if rc \<noteq> SQLITE_OK then (rc, D1, X1) else each_entry f as D1 X1)"

definition sync_phase_decrypting ::
  "('w, 'j) sync_env \<Rightarrow> string option \<Rightarrow> string \<Rightarrow> db \<Rightarrow> 'w \<Rightarrow> bool \<times> db \<times> 'w" where
  "sync_phase_decrypting S my_mid token D W =
     (case enil_db_get_messages_needing_decrypt (dbe S) D of
        (pending, D1) \<Rightarrow>
          (case enil_db_get_messages_needing_replace (dbe S) D1 of
             (sticon_msgs, D2) \<Rightarrow>
               (case (pending, sticon_msgs) of
                  (Some ps, Some ss) \<Rightarrow>
                    (let (r, keys) = (case load_session S W of None \<Rightarrow> (None, None) | Some x \<Rightarrow> x)
                     in case each_entry (decrypt_stored S my_mid token keys) ps D2
                               \<lparr>pub_cache = Some [], grp_cache = Some [], restore = r, restore_changed = False, world = W\<rparr> of
                          (rc, D3, X1) \<Rightarrow>
                            (case (if rc \<noteq> SQLITE_OK then (rc, D3, X1) else each_entry (replace_stored S my_mid token keys) ss D3 X1) of
                               (rc2, D4, X2) \<Rightarrow> (rc2 = SQLITE_OK, D4, keep_restore S X2)))
                | _ \<Rightarrow> (False, D2, W))))"

section \<open>Product catalogues\<close>

text \<open>\<open>None\<close>: the summary has no resource type, and the null item is read.\<close>

definition sticker_option_for_item :: "'j cjson \<Rightarrow> 'j option \<Rightarrow> string option" where
  "sticker_option_for_item J item =
     map_option (\<lambda>i.
       if isString J i
       then (let s = valuestring J i
             in if s = ''ANIMATION'' then ''A'' else if s = ''ANIMATION_SOUND'' then ''AS'' else if s = ''POPUP'' then ''P''
                else if s = ''POPUP_SOUND'' then ''PS'' else if s = ''NAME_TEXT'' \<or> s = ''PER_STICKER_TEXT'' then ''T'' else ''0'')
       else (let n = trunc (valuedouble J i)
             in if n = 2 then ''A'' else if n = 4 then ''AS'' else if n = 5 then ''P'' else if n = 6 then ''PS''
                else if n = 7 \<or> n = 8 then ''T'' else ''0'')) item"

definition resource_type_item :: "'j cjson \<Rightarrow> 'j \<Rightarrow> 'j option" where
  "resource_type_item J raw =
     jgeti J (jgeti J (getItem J raw ''productTypeSummary'') ''stickerSummary'') ''stickerResourceType''"

text \<open>A package with the stickers of its ranges, all or nothing.\<close>

definition range_writes :: "'j db_env \<Rightarrow> 'j sticker_package_t \<Rightarrow> string \<Rightarrow> 'j \<Rightarrow> (db \<Rightarrow> int \<times> db) list" where
  "range_writes E p opt rng =
     (let first = enil_json_coerce_int64 (dj E) (getItem (dj E) rng ''start'');
          how_many = enil_json_coerce_int64 (dj E) (getItem (dj E) rng ''size'')
      in map (\<lambda>k. enil_db_sticker_upsert E (Some (show_int (wrap64 (first + int k)))) (sk_id p) (Some opt) None) [0..<nat how_many])"

definition store_sticker_package :: "'j db_env \<Rightarrow> 'j sticker_package_t \<Rightarrow> string \<Rightarrow> db \<Rightarrow> int \<times> db" where
  "store_sticker_package E p opt D =
     in_savepoint E (while_ok (enil_db_sticker_package_upsert E p #
       concat (map (range_writes E p opt) (map snd (jkids (dj E) (keep_if (isArray (dj E)) (sk_stickerIdRanges p))))))) D"

fun store_sticker_packages :: "'j db_env \<Rightarrow> 'j sticker_package_t list \<Rightarrow> db \<Rightarrow> (int \<times> db) option" where
  "store_sticker_packages E [] D = Some (SQLITE_OK, D)"
| "store_sticker_packages E (p # ps) D =
     (case sticker_option_for_item (dj E) (resource_type_item (dj E) (sk_raw p)) of
        None \<Rightarrow> None
      | Some opt \<Rightarrow>
          (case store_sticker_package E p opt D of
             (rc, D1) \<Rightarrow> if rc \<noteq> SQLITE_OK then Some (rc, D1) else store_sticker_packages E ps D1))"

text \<open>An unavailable meta file is left for the next sync; a failing database ends the phase.\<close>

definition expand_meta :: "('w, 'j) sync_env \<Rightarrow> bool \<Rightarrow> string option \<Rightarrow> db \<Rightarrow> 'w \<Rightarrow> int \<times> db \<times> 'w" where
  "expand_meta S expand pkg_id D W =
     (case sync_sticonshop_meta S pkg_id expand D W of
        (r, D1, W1) \<Rightarrow> (if r = -2 then SQLITE_ERROR else SQLITE_OK, D1, W1))"

definition store_sticon_package :: "('w, 'j) sync_env \<Rightarrow> 'j sticon_package_t \<Rightarrow> db \<Rightarrow> 'w \<Rightarrow> int \<times> db \<times> 'w" where
  "store_sticon_package S p D W =
     (case enil_db_sticon_package_upsert (dbe S) p D of
        (rc, D1) \<Rightarrow> if rc \<noteq> SQLITE_OK then (rc, D1, W) else expand_meta S True (sc_id p) D1 W)"

definition expand_if_remaining :: "('w, 'j) sync_env \<Rightarrow> string list \<Rightarrow> string \<Rightarrow> db \<Rightarrow> 'w \<Rightarrow> int \<times> db \<times> 'w" where
  "expand_if_remaining S remaining pkg_id D W =
     (if json_string_array_contains remaining pkg_id then expand_meta S True (Some pkg_id) D W else (SQLITE_OK, D, W))"

definition enrich_package :: "('w, 'j) sync_env \<Rightarrow> string \<Rightarrow> db \<Rightarrow> 'w \<Rightarrow> int \<times> db \<times> 'w" where
  "enrich_package S pkg_id D W = (if pkg_id = [] then (SQLITE_OK, D, W) else expand_meta S False (Some pkg_id) D W)"

text \<open>Run a step only while no error is recorded.\<close>

definition unless_failed :: "int \<Rightarrow> (db \<Rightarrow> 'w \<Rightarrow> int \<times> db \<times> 'w) \<Rightarrow> db \<Rightarrow> 'w \<Rightarrow> int \<times> db \<times> 'w" where
  "unless_failed rc step D W = (if rc \<noteq> SQLITE_OK then (rc, D, W) else step D W)"

definition list_of :: "'a list option \<Rightarrow> 'a list" where
  "list_of x = (case x of None \<Rightarrow> [] | Some xs \<Rightarrow> xs)"

definition prepare_sticons ::
  "('w, 'j) sync_env \<Rightarrow> 'j sticon_package_t list \<Rightarrow> string list \<Rightarrow> string list \<Rightarrow> int \<Rightarrow> db \<Rightarrow> 'w \<Rightarrow> bool \<times> db \<times> 'w" where
  "prepare_sticons S owned pending needs_alt rc D W =
     (case unless_failed rc (each_entry (store_sticon_package S) owned) D W of
        (rc1, D1, W1) \<Rightarrow>
          (case enil_db_sticon_packages_needing_meta (dbe S) D1 of
             (remaining, D2) \<Rightarrow>
               (case unless_failed (if remaining = None then SQLITE_ERROR else rc1)
                       (each_entry (expand_if_remaining S (list_of remaining)) pending) D2 W1 of
                  (rc2, D3, W2) \<Rightarrow>
                    (case unless_failed rc2 (each_entry (enrich_package S) needs_alt) D3 W2 of
                       (rc3, D4, W3) \<Rightarrow> (rc3 = SQLITE_OK, D4, W3)))))"

definition sync_phase_preparing :: "('w, 'j) sync_env \<Rightarrow> string \<Rightarrow> db \<Rightarrow> 'w \<Rightarrow> (bool \<times> db \<times> 'w) option" where
  "sync_phase_preparing S token D W =
     (case enil_db_sticon_packages_needing_alt (dbe S) D of
        (needs_alt, D1) \<Rightarrow>
          (case sticker_package_fetch_all (et (e2 S)) (Some token) W of
             (stk, W1) \<Rightarrow>
               (case sticon_package_fetch_all (et (e2 S)) (Some token) W1 of
                  (sti, W2) \<Rightarrow>
                    (case enil_db_sticon_packages_needing_meta (dbe S) D1 of
                       (pending, D2) \<Rightarrow>
                         (let rc = (if needs_alt = None \<or> pending = None then SQLITE_ERROR else SQLITE_OK)
                          in case (if rc \<noteq> SQLITE_OK then Some (rc, D2) else store_sticker_packages (dbe S) (list_of stk) D2) of
                               None \<Rightarrow> None
                             | Some (rc1, D3) \<Rightarrow>
                                 Some (prepare_sticons S (list_of sti) (list_of pending) (list_of needs_alt) rc1 D3 W2))))))"

section \<open>Downloading\<close>

text \<open>The number of attachments that cannot be had, or -1 when the database fails.\<close>

fun download_media_list :: "('w, 'j) sync_env \<Rightarrow> media_entry list \<Rightarrow> int \<Rightarrow> db \<Rightarrow> 'w \<Rightarrow> int \<times> db \<times> 'w" where
  "download_media_list S [] errors D W = (errors, D, W)"
| "download_media_list S (m # ms) errors D W =
     (case download_media_entry S (set_account_dir S) m D W of
        (r, D1, W1) \<Rightarrow> if r < 0 then (-1, D1, W1) else download_media_list S ms (errors + r) D1 W1)"

fun download_shops :: "('w, 'j) sync_env \<Rightarrow> (bool \<times> bool) list \<Rightarrow> int \<Rightarrow> db \<Rightarrow> 'w \<Rightarrow> int \<times> db \<times> 'w" where
  "download_shops S [] errors D W = (errors, D, W)"
| "download_shops S ((purchased, sticon) # shops) errors D W =
     (case run_sticker_downloads S purchased sticon D W of
        (r, D1, W1) \<Rightarrow> if r < 0 then (-1, D1, W1) else download_shops S shops (errors + r) D1 W1)"

definition sync_phase_downloading :: "('w, 'j) sync_env \<Rightarrow> db \<Rightarrow> 'w \<Rightarrow> int \<times> db \<times> 'w" where
  "sync_phase_downloading S D W =
     (let E = dbe S;
          (media, D1) = enil_db_get_messages_needing_media E D;
          (a, D2) = enil_db_get_stickers_needing_download E 1 D1;
          (b, D3) = enil_db_get_sticons_needing_download E 1 D2;
          (c, D4) = enil_db_get_stickers_needing_download E 0 D3;
          (d, D5) = enil_db_get_sticons_needing_download E 0 D4
      in if media = None \<or> a = None \<or> b = None \<or> c = None \<or> d = None then (-1, D5, W)
         else (case download_media_list S (the media) 0 D5 W of
                 (r, D6, W1) \<Rightarrow>
                   if r < 0 then (-1, D6, W1)
                   else download_shops S [(True, False), (True, True), (False, False), (False, True)] r D6 W1))"

definition enil_sync_attachments :: "('w, 'j) full_env \<Rightarrow> db \<Rightarrow> 'w \<Rightarrow> int \<times> db \<times> 'w" where
  "enil_sync_attachments F D W =
     (case bind_identity F W of
        (ok, W1) \<Rightarrow>
          if \<not> ok then (0, D, W1)
          else (case enil_asset_cache_reconcile (sy F) (set_account_dir (sy F)) W1 D of
                  (rc, D1) \<Rightarrow>
                    if rc \<noteq> 0 then (0, D1, W1)
                    else (case sync_phase_downloading (sy F) D1 W1 of
                            (errors, D2, W2) \<Rightarrow> (if errors < 0 then 0 else errors + 1, D2, W2))))"

section \<open>The whole sync\<close>

text \<open>Only the revision captured before anything was fetched is stored, and only at the end.\<close>

definition sync_phase_finish :: "('w, 'j) full_env \<Rightarrow> int \<Rightarrow> 'j \<Rightarrow> int \<Rightarrow> db \<Rightarrow> 'w \<Rightarrow> int \<times> db \<times> 'w" where
  "sync_phase_finish F local_rev snap attachment_errors D W =
     (if any_failed F W \<or> local_rev < 0 then (0, D, W)
      else (case enil_db_set_local_rev (fd F) local_rev D of
              (rc, D1) \<Rightarrow>
                if rc \<noteq> SQLITE_OK then (0, D1, W)
                else (case complete_partial_syncs F snap W of
                        (ok, W1) \<Rightarrow> (if ok then attachment_errors + 1 else 0, D1, W1))))"

definition sync_assets ::
  "('w, 'j) full_env \<Rightarrow> int \<Rightarrow> 'j \<Rightarrow> db \<Rightarrow> 'w \<Rightarrow> int \<times> db \<times> 'w" where
  "sync_assets F local_rev snap D W =
     (case enil_asset_cache_reconcile (sy F) (set_account_dir (sy F)) W D of
        (rc, D1) \<Rightarrow>
          if rc \<noteq> 0 then (0, D1, W)
          else (case sync_phase_downloading (sy F) D1 W of
                  (errors, D2, W1) \<Rightarrow> if errors < 0 then (0, D2, W1) else sync_phase_finish F local_rev snap errors D2 W1))"

definition sync_stored ::
  "('w, 'j) full_env \<Rightarrow> string option \<Rightarrow> string \<Rightarrow> int \<Rightarrow> 'j \<Rightarrow> 'j talk_message_box_t list \<Rightarrow> db \<Rightarrow> 'w \<Rightarrow>
   (int \<times> db \<times> 'w) option" where
  "sync_stored F my_mid token local_rev snap bs D W =
     (case sync_phase_messages F token bs D W of
        (ok1, D1, W1) \<Rightarrow>
          if \<not> ok1 then Some (0, D1, W1)
          else (case sync_phase_read_range F token (map mb_id bs) D1 W1 of
                  (ok2, D2, W2) \<Rightarrow>
                    if \<not> ok2 then Some (0, D2, W2)
                    else (case sync_phase_decrypting (sy F) my_mid token D2 W2 of
                            (ok3, D3, W3) \<Rightarrow>
                              if \<not> ok3 then Some (0, D3, W3)
                              else (case sync_phase_preparing (sy F) token D3 W3 of
                                      None \<Rightarrow> None
                                    | Some (ok4, D4, W4) \<Rightarrow>
                                        if \<not> ok4 then Some (0, D4, W4) else Some (sync_assets F local_rev snap D4 W4)))))"

definition enil_sync_all ::
  "('w, 'j) full_env \<Rightarrow> string option \<Rightarrow> string option \<Rightarrow> db \<Rightarrow> 'w \<Rightarrow> (int \<times> db \<times> 'w) option" where
  "enil_sync_all F access_token my_mid D W =
     (case sync_phase_connecting F access_token W of
        (None, W1) \<Rightarrow> Some (0, D, W1)
      | (Some token, W1) \<Rightarrow>
          (case keep_if (isObject (dj (fd F))) (read_session F W1) of
             None \<Rightarrow> Some (0, D, W1)
           | Some snap \<Rightarrow>
               (case TalkService_getLastOpRevision (ft F) (Some token) W1 of
                  (local_rev, W2) \<Rightarrow>
                    if local_rev < 0 then Some (0, D, W2)
                    else (case sync_phase_account F token D W2 of
                            None \<Rightarrow> None
                          | Some (None, D1, W3) \<Rightarrow> Some (0, D1, W3)
                          | Some (Some bs, D1, W3) \<Rightarrow> sync_stored F my_mid token local_rev snap bs D1 W3))))"

end
