(* ===== verification/ENIL_SyncKeeps.thy ===== *)
theory ENIL_SyncKeeps
  imports ENIL_Sync ENIL_DbFacts
begin

text \<open>
  What the steps of \<open>enil_sync.c\<close> that follow a stored message leave alone: a group of statements is a
  step of the connection that restores the savepoints it found and respects an order on the tables
  (\<open>moves\<close>), and all of them only change assets, decrypted texts and reactions (\<open>keeps\<close>).
\<close>

section \<open>Steps of the connection\<close>

text \<open>A group of statements that leaves the savepoints as they were and respects an order on the tables.\<close>

definition moves :: "(tables \<Rightarrow> tables \<Rightarrow> bool) \<Rightarrow> db \<Rightarrow> db \<Rightarrow> bool" where
  "moves le D D' \<longleftrightarrow> marks D' = marks D \<and> le (tbl D) (tbl D')"

lemma moves_mono: "moves le D D' \<Longrightarrow> (\<And>T U. le T U \<Longrightarrow> le' T U) \<Longrightarrow> moves le' D D'"
  by (simp add: moves_def)

lemma query_db: "query E q D = (v, D') \<Longrightarrow> D' = D\<lparr>clock := Suc (clock D)\<rparr>"
  by (cases "fault E (clock D) = SQLITE_OK") (simp_all add: query_def Let_def del: tbl_query)

context table_order begin

lemma moves_refl: "moves le D D"
  by (simp add: moves_def refl)

lemma moves_trans: "moves le D D' \<Longrightarrow> moves le D' D'' \<Longrightarrow> moves le D D''"
  using trans [of "tbl D" "tbl D'" "tbl D''"] by (simp add: moves_def)

lemma exec_moves: "exec_stmt E f D = (rc, D') \<Longrightarrow> (\<And>T. le T (fst (f T))) \<Longrightarrow> moves le D D'"
  by (auto simp: exec_stmt_def moves_def Let_def refl split: if_splits)

lemma query_moves: "query E q D = (v, D') \<Longrightarrow> moves le D D'"
  using query_db [of E q D v D'] by (simp add: moves_def refl)

lemma foldl_moves: "(\<And>D x. x \<in> set xs \<Longrightarrow> moves le D (f D x)) \<Longrightarrow> moves le D (foldl f D xs)"
proof (induction xs arbitrary: D)
  case (Cons x xs)
  have "moves le (f D x) (foldl f (f D x) xs)" by (rule Cons.IH) (use Cons.prems in auto)
  with Cons.prems [of x D] show ?case by (auto intro: moves_trans)
qed (simp add: moves_refl)

lemma while_ok_moves:
  "while_ok fs D = (rc, D') \<Longrightarrow> (\<And>f D rc D'. f \<in> set fs \<Longrightarrow> f D = (rc, D') \<Longrightarrow> moves le D D') \<Longrightarrow> moves le D D'"
proof (induction fs arbitrary: D)
  case (Cons f fs)
  obtain rc1 D1 where f: "f D = (rc1, D1)" by fastforce
  then have "moves le D D1" using Cons.prems(2) [of f D rc1 D1] by simp
  moreover have "moves le D1 D'" if "rc1 = SQLITE_OK"
  proof (rule Cons.IH)
    show "while_ok fs D1 = (rc, D')" using Cons.prems(1) f that by simp
  qed (use Cons.prems(2) in auto)
  ultimately show ?case
    using Cons.prems(1) f by (auto split: if_splits intro: moves_trans)
qed (simp add: moves_refl)

text \<open>A failing group in a savepoint is taken back as a whole.\<close>

lemma in_savepoint_moves:
  assumes "in_savepoint E g D = (rc, D')" and g: "\<And>D rc D'. g D = (rc, D') \<Longrightarrow> moves le D D'"
  shows "moves le D D'" and "rc \<noteq> SQLITE_OK \<Longrightarrow> tbl D' = tbl D"
proof -
  obtain rc1 D1 where D1: "savepoint E D = (rc1, D1)" by fastforce
  obtain rc2 D2 where D2: "g D1 = (rc2, D2)" by fastforce
  obtain rc3 D3 where D3: "(if rc2 = SQLITE_OK then release E D2 else (rc2, D2)) = (rc3, D3)" by fastforce
  have step: "marks D2 = marks D1" "le (tbl D1) (tbl D2)" using g [OF D2] by (simp_all add: moves_def)
  have opened: "tbl D1 = tbl D" "rc1 = SQLITE_OK \<Longrightarrow> marks D1 = tbl D # marks D" "rc1 \<noteq> SQLITE_OK \<Longrightarrow> marks D1 = marks D"
    using D1 by (auto simp: savepoint_def Let_def split: if_splits)
  have closed: "tbl D3 = tbl D2" "rc3 = SQLITE_OK \<Longrightarrow> marks D3 = tl (marks D2)" "rc3 \<noteq> SQLITE_OK \<Longrightarrow> marks D3 = marks D2"
    using D3 by (auto simp: release_def Let_def split: if_splits)
  have result: "(rc, D') = (if rc1 \<noteq> SQLITE_OK then (rc1, D1) else if rc3 \<noteq> SQLITE_OK then (rc3, rollback D3) else (SQLITE_OK, D3))"
    using assms(1) D1 D2 D3 by (auto simp: in_savepoint_def)
  show "rc \<noteq> SQLITE_OK \<Longrightarrow> tbl D' = tbl D"
    using result opened closed step by (auto simp: rollback_def split: if_splits)
  show "moves le D D'"
    using result opened closed step by (auto simp: rollback_def moves_def refl split: if_splits)
qed

end

section \<open>Writes that keep every chat\<close>

definition assets_only :: "tables \<Rightarrow> tables \<Rightarrow> bool" where
  "assets_only T T' \<longleftrightarrow>
     boxes T' = boxes T \<and> readers T' = readers T \<and> db_meta T' = db_meta T \<and> map fst (messages T') = map fst (messages T) \<and>
     (\<forall>i r. map_of (messages T) i = Some r \<longrightarrow> (\<exists>r'. map_of (messages T') i = Some r' \<and> row_kept r r'))"

interpretation asset: table_order assets_only
proof
  show "assets_only T T" for T by (simp add: assets_only_def)
next
  show "assets_only T V" if "assets_only T U" and "assets_only U V" for T U V
    using that unfolding assets_only_def by (metis row_kept_trans)
qed

abbreviation keeps :: "db \<Rightarrow> db \<Rightarrow> bool" where
  "keeps \<equiv> moves assets_only"

lemma assets_only_grows: "assets_only T T' \<Longrightarrow> grows T T'"
  by (auto simp: assets_only_def grows_def)

lemma assets_only_other:
  "messages T' = messages T \<Longrightarrow> boxes T' = boxes T \<Longrightarrow> readers T' = readers T \<Longrightarrow> db_meta T' = db_meta T \<Longrightarrow> assets_only T T'"
  by (simp add: assets_only_def)

lemma keys_update_where: "map fst (fst (update_where P f t)) = map fst t"
  by (simp add: update_where_def comp_def case_prod_unfold)

lemma update_message_keeps: "update_message E P f D = (rc, D') \<Longrightarrow> (\<And>r. row_kept r (f r)) \<Longrightarrow> keeps D D'"
  unfolding update_message_def
  by (erule asset.exec_moves) (auto simp: assets_only_def Let_def case_prod_unfold lookup_update_where keys_update_where)

text \<open>Statements on tables that hold no chat.\<close>

lemma other_tables_keep:
  "exec_stmt E f D = (rc, D') \<Longrightarrow>
   (\<And>T. messages (fst (f T)) = messages T \<and> boxes (fst (f T)) = boxes T \<and> readers (fst (f T)) = readers T \<and> db_meta (fst (f T)) = db_meta T) \<Longrightarrow>
   keeps D D'"
  by (erule asset.exec_moves) (simp add: assets_only_other)

lemma struct_writes_keep:
  "enil_db_talk_profile_upsert E p D = (rc, D') \<Longrightarrow> keeps D D'"
  "enil_db_talk_contact_upsert E c D = (rc, D') \<Longrightarrow> keeps D D'"
  "enil_db_chat_upsert E ch D = (rc, D') \<Longrightarrow> keeps D D'"
  "enil_db_sticker_package_upsert E sk D = (rc, D') \<Longrightarrow> keeps D D'"
  "enil_db_sticon_package_upsert E sc D = (rc, D') \<Longrightarrow> keeps D D'"
  unfolding enil_db_talk_profile_upsert_def enil_db_talk_contact_upsert_def enil_db_chat_upsert_def
    enil_db_sticker_package_upsert_def enil_db_sticon_package_upsert_def upsert_fields_with_raw_def
  by (auto simp: Let_def case_prod_unfold asset.moves_refl elim!: other_tables_keep split: option.splits)

lemma item_writes_keep:
  "enil_db_sticon_package_discover E q D = (rc, D') \<Longrightarrow> keeps D D'"
  "enil_db_sticker_package_discover E q D = (rc, D') \<Longrightarrow> keeps D D'"
  "enil_db_sticon_upsert E sid q alt D = (rc, D') \<Longrightarrow> keeps D D'"
  "enil_db_sticker_upsert E sid q opt hsh D = (rc, D') \<Longrightarrow> keeps D D'"
  "enil_db_sticon_package_set_resource_type E q ty D = (rc, D') \<Longrightarrow> keeps D D'"
  "enil_db_set_sticon_alt_text E sid q alt D = (rc, D') \<Longrightarrow> keeps D D'"
  "enil_db_set_sticker_asset E sticon i p im w h t tw th D = (rc, D') \<Longrightarrow> keeps D D'"
  unfolding enil_db_sticon_package_discover_def enil_db_sticker_package_discover_def enil_db_sticon_upsert_def
    enil_db_sticker_upsert_def enil_db_sticon_package_set_resource_type_def enil_db_set_sticon_alt_text_def
    enil_db_set_sticker_asset_def
  by (auto simp: Let_def case_prod_unfold asset.moves_refl elim!: other_tables_keep split: option.splits if_splits)

lemma sticon_row_writes_keep:
  "clear_message_sticons E mid D = (rc, D') \<Longrightarrow> keeps D D'"
  "clear_message_sticon_packages E mid D = (rc, D') \<Longrightarrow> keeps D D'"
  "insert_message_sticon E mid n q sid D = (rc, D') \<Longrightarrow> keeps D D'"
  "insert_message_sticon_package E mid q D = (rc, D') \<Longrightarrow> keeps D D'"
  unfolding clear_message_sticons_def clear_message_sticon_packages_def insert_message_sticon_def insert_message_sticon_package_def
  by (auto simp: Let_def case_prod_unfold asset.moves_refl elim!: other_tables_keep split: option.splits if_splits)

lemmas item_snd = item_writes_keep [OF surjective_pairing] sticon_row_writes_keep [OF surjective_pairing]

lemma sticon_rows_keep: "keeps D (replace_message_sticon_rows E mid rj own D)"
proof -
  have packages: "keeps D (store_message_sticon_packages E mid own D)" for D
    unfolding store_message_sticon_packages_def by (auto intro!: asset.foldl_moves asset.moves_refl item_snd)
  have one: "keeps D (store_message_sticon E mid res D)" for res D
    unfolding store_message_sticon_def Let_def by (auto intro!: item_snd intro: asset.moves_trans)
  have sticons: "keeps D (store_message_sticons E mid rj D)" for D
    unfolding store_message_sticons_def Let_def by (auto intro!: asset.foldl_moves asset.moves_refl one)
  show ?thesis
    unfolding replace_message_sticon_rows_def by (meson asset.moves_trans item_snd packages sticons)
qed

lemma message_writes_keep:
  "enil_db_set_message_text E i txt st D = (rc, D') \<Longrightarrow> keeps D D'"
  "enil_db_set_message_raw_json E i raw rj D = (rc, D') \<Longrightarrow> keeps D D'"
  "enil_db_set_message_plaintext E i txt raw rj st D = (rc, D') \<Longrightarrow> keeps D D'"
  "enil_db_set_message_enc_km E i km D = (rc, D') \<Longrightarrow> keeps D D'"
  "enil_db_message_mark_deleted E i D = (rc, D') \<Longrightarrow> keeps D D'"
  "enil_db_set_media_info E i p w h t tw th D = (rc, D') \<Longrightarrow> keeps D D'"
proof -
  have upd: "keeps D (snd (update_message E P f D))" if "\<And>r. row_kept r (f r)" for P f and D :: db
    using that by (rule update_message_keeps [OF surjective_pairing])
  have rows: "keeps D (replace_message_sticon_rows E i rj own (snd (update_message E P f D)))"
    if "\<And>r. row_kept r (f r)" for P f i rj own and D :: db
    by (rule asset.moves_trans [OF upd sticon_rows_keep]) (rule that)
  show "enil_db_set_message_text E i txt st D = (rc, D') \<Longrightarrow> keeps D D'"
    by (auto simp: enil_db_set_message_text_def asset.moves_refl row_kept_def elim!: update_message_keeps split: option.splits)
  show "enil_db_set_message_enc_km E i km D = (rc, D') \<Longrightarrow> keeps D D'"
    by (auto simp: enil_db_set_message_enc_km_def asset.moves_refl row_kept_def elim!: update_message_keeps split: option.splits)
  show "enil_db_message_mark_deleted E i D = (rc, D') \<Longrightarrow> keeps D D'"
    by (auto simp: enil_db_message_mark_deleted_def asset.moves_refl row_kept_def elim!: update_message_keeps split: option.splits)
  show "enil_db_set_media_info E i p w h t tw th D = (rc, D') \<Longrightarrow> keeps D D'"
    by (auto simp: enil_db_set_media_info_def asset.moves_refl row_kept_def elim!: update_message_keeps split: option.splits)
  show "enil_db_set_message_raw_json E i raw rj D = (rc, D') \<Longrightarrow> keeps D D'"
    by (auto simp: enil_db_set_message_raw_json_def case_prod_unfold asset.moves_refl row_kept_def intro!: upd rows
        elim!: update_message_keeps split: option.splits if_splits)
  show "enil_db_set_message_plaintext E i txt raw rj st D = (rc, D') \<Longrightarrow> keeps D D'"
    by (auto simp: enil_db_set_message_plaintext_def case_prod_unfold asset.moves_refl row_kept_def intro!: upd rows
        elim!: update_message_keeps split: option.splits if_splits)
qed

lemma reactions_keep: "enil_db_message_reactions_update E i reactor rem pre pr em created D = (rc, D') \<Longrightarrow> keeps D D'"
proof -
  assume run: "enil_db_message_reactions_update E i reactor rem pre pr em created D = (rc, D')"
  show "keeps D D'"
  proof (cases "i = None \<or> reactor = None")
    case True
    with run show ?thesis by (auto simp: enil_db_message_reactions_update_def asset.moves_refl split: option.splits)
  next
    case False
    then obtain k who where kw: "i = Some k" "reactor = Some who" by auto
    obtain v D1 where q: "query E (\<lambda>T. map_option r_reactions_json (map_of (messages T) k)) D = (v, D1)" by fastforce
    then have first: "keeps D D1" by (rule asset.query_moves)
    have upd: "keeps D D2" if "update_message E P (\<lambda>r. r\<lparr>r_reactions_json := x\<rparr>) D1 = (rc, D2)" for P x D2
      by (rule asset.moves_trans [OF first update_message_keeps [OF that]]) (simp add: row_kept_def)
    show ?thesis
      using run first upd
      by (auto simp: enil_db_message_reactions_update_def kw q Let_def case_prod_unfold split: option.splits if_splits)
  qed
qed

section \<open>The steps after a message is stored\<close>

lemma scan_write_keeps: "f \<in> set (scan_writes E m) \<Longrightarrow> f D = (rc, D') \<Longrightarrow> keeps D D'"
  by (auto simp: scan_writes_def sticker_writes_def sticon_writes_def Let_def split: option.splits if_splits
      elim!: item_writes_keep)

lemma scan_messages_keep: "scan_messages_for_stickers E msgs D = (rc, D') \<Longrightarrow> keeps D D'"
  unfolding scan_messages_for_stickers_def by (erule asset.while_ok_moves) (auto elim: scan_write_keeps)

lemma exists_keeps:
  "enil_db_contact_exists E k D = (b, D') \<Longrightarrow> keeps D D'"
  "enil_db_chat_exists E k D = (b, D') \<Longrightarrow> keeps D D'"
  by (auto simp: enil_db_contact_exists_def enil_db_chat_exists_def row_exists_def Let_def asset.moves_refl
      intro: asset.query_moves split: if_splits prod.splits)

lemma contact_update_keeps: "apply_op_contact_update S token mid D W = (rc, D', W') \<Longrightarrow> keeps D D'"
  by (auto simp: apply_op_contact_update_def asset.moves_refl elim: struct_writes_keep split: if_splits prod.splits option.splits)

lemma chat_update_keeps: "apply_op_chat_update S token mid D W = (rc, D', W') \<Longrightarrow> keeps D D'"
  by (auto simp: apply_op_chat_update_def asset.moves_refl elim: struct_writes_keep
      split: if_splits prod.splits option.splits list.splits)

lemma backfill_keeps: "backfill_chat_metadata S token c D W = (D', W') \<Longrightarrow> keeps D D'"
proof -
  assume run: "backfill_chat_metadata S token c D W = (D', W')"
  obtain k1 D1 where c1: "enil_db_contact_exists (dbe S) (Some c) D = (k1, D1)" by fastforce
  obtain k2 D2 where c2: "enil_db_chat_exists (dbe S) (Some c) D = (k2, D2)" by fastforce
  obtain r3 D3 W3 where c3: "apply_op_contact_update S token (Some c) D1 W = (r3, D3, W3)" by (metis prod_cases3)
  obtain r4 D4 W4 where c4: "apply_op_chat_update S token (Some c) D2 W = (r4, D4, W4)" by (metis prod_cases3)
  have "keeps D D1" "keeps D D2" "keeps D1 D3" "keeps D2 D4"
    using c1 c2 c3 c4 by (auto intro: exists_keeps contact_update_keeps chat_update_keeps)
  moreover from this have "keeps D D3" "keeps D D4" by (blast intro: asset.moves_trans)+
  ultimately show ?thesis
    using run c1 c2 c3 c4 by (auto simp: backfill_chat_metadata_def asset.moves_refl split: if_splits)
qed

lemma plaintext_probe_keeps: "message_has_plaintext E i D = (b, D') \<Longrightarrow> keeps D D'"
  by (auto simp: message_has_plaintext_def Let_def asset.moves_refl intro: asset.query_moves split: option.splits prod.splits)

lemma store_decrypted_keeps: "store_decrypted S i msg meta d D = ((rc, D'), msg') \<Longrightarrow> keeps D D'"
  by (auto simp: store_decrypted_def Let_def split: option.splits elim: message_writes_keep)

lemma decrypt_one_message_keeps: "decrypt_one_message S msg me token D W = (rc, msg', D', W') \<Longrightarrow> keeps D D'"
  by (auto simp: decrypt_one_message_def asset.moves_refl elim: message_writes_keep store_decrypted_keeps
      split: option.splits if_splits prod.splits)

lemma sync_sticonshop_meta_keeps: "sync_sticonshop_meta S q expand D W = (r, D', W') \<Longrightarrow> keeps D D'"
proof -
  assume run: "sync_sticonshop_meta S q expand D W = (r, D', W')"
  have one_write: "keeps D D'" if "f \<in> set (sticon_meta_writes S p expand meta)" and "f D = (rc, D')" for f p meta rc and D D' :: db
    using that by (auto simp: sticon_meta_writes_def Let_def List.map_filter_def split: option.splits if_splits
        elim!: item_writes_keep)
  have "keeps D D'" if "in_savepoint (dbe S) (while_ok (sticon_meta_writes S p expand meta)) D = (rc, D')" for p meta rc and D D' :: db
    by (rule asset.in_savepoint_moves(1) [OF that]) (auto elim: asset.while_ok_moves one_write)
  with run show ?thesis
    by (auto simp: sync_sticonshop_meta_def Let_def asset.moves_refl split: option.splits if_splits prod.splits)
qed

lemma fetch_metas_keeps: "fetch_metas S ps D W = (ok, D', W') \<Longrightarrow> keeps D D'"
proof (induction ps arbitrary: D W)
  case (Cons p ps)
  obtain st D1 where c1: "enil_db_sticon_package_meta_state (dbe S) (Some p) D = (st, D1)" by fastforce
  obtain r D2 W2 where c2: "sync_sticonshop_meta S (Some p) (st = 1) D1 W = (r, D2, W2)" by (metis prod_cases3)
  have "keeps D D1"
    using c1 by (auto simp: enil_db_sticon_package_meta_state_def Let_def asset.moves_refl intro: asset.query_moves
        split: if_splits prod.splits)
  moreover from this have "keeps D D2" using sync_sticonshop_meta_keeps [OF c2] by (blast intro: asset.moves_trans)
  ultimately show ?case
    using Cons.prems Cons.IH c1 c2 by (auto intro: asset.moves_trans split: if_splits)
qed (simp add: asset.moves_refl)

lemma pend_sticons_keeps: "pend_sticons S W rs D = (items, D') \<Longrightarrow> keeps D D'"
proof (induction rs arbitrary: D items)
  case (Cons r rs)
  obtain rc D1 where c1: "enil_db_set_sticker_asset (dbe S) True (sr_sticon r) (sr_package r) None 0 0 None 0 0 D = (rc, D1)"
    by fastforce
  then have "keeps D D1" by (rule item_writes_keep)
  then show ?case
    using Cons.prems Cons.IH c1 by (auto intro: asset.moves_trans split: if_splits prod.splits)
qed (simp add: asset.moves_refl)

lemma apply_jobs_keeps: "apply_jobs S js n D = (r, D') \<Longrightarrow> keeps D D'"
proof (induction S js n D arbitrary: r D' rule: apply_jobs.induct)
  case (2 S i j js errors D)
  obtain r1 e D1 where c1: "apply_sticker_job S i j D = ((r1, e), D1)" by (metis prod.collapse)
  then have "keeps D D1"
    by (auto simp: apply_sticker_job_def asset.moves_refl elim: item_writes_keep split: if_splits prod.splits)
  then show ?case
    using 2 c1 by (auto intro: asset.moves_trans split: if_splits)
qed (simp add: asset.moves_refl)

lemma download_batches_keeps: "download_batches S d items n D W = (r, D', W') \<Longrightarrow> keeps D D'"
proof (induction S d items n D W arbitrary: r D' W' rule: download_batches.induct)
  case (1 S d items n D W)
  obtain js W1 where j: "run_jobs S d (take STICKER_CDN_BATCH_SIZE items) W = (js, W1)" by fastforce
  obtain r1 D1 where a: "apply_jobs S js n D = (r1, D1)" by fastforce
  have "keeps D D1" using a by (rule apply_jobs_keeps)
  then show ?case
    using "1.prems" "1.IH" [OF _ _ j [symmetric] a [symmetric]] j a
    by (subst (asm) download_batches.simps) (auto simp: asset.moves_refl intro: asset.moves_trans split: if_splits)
qed

lemma download_sticker_list_keeps: "download_sticker_list S items D W = (r, D', W') \<Longrightarrow> keeps D D'"
  by (auto simp: download_sticker_list_def Let_def asset.moves_refl elim: download_batches_keeps split: option.splits if_splits)

lemma message_sticons_keep: "sync_one_message_sticons S msg D W = (r, D', W') \<Longrightarrow> keeps D D'"
proof -
  have rows: "keeps D D'" if "enil_db_get_message_sticons E i D = (v, D')" for E :: "'j db_env" and i v and D D' :: db
    using that by (auto simp: enil_db_get_message_sticons_def asset.moves_refl intro: asset.query_moves split: option.splits)
  have images: "keeps D D'" if run: "download_message_sticon_images S i D W = (r, D', W')" for i r W W' and D D' :: db
  proof -
    obtain v D1 where c1: "enil_db_get_message_sticons (dbe S) i D = (v, D1)" by fastforce
    obtain items D2 where c2: "pend_sticons S W (the v) D1 = (items, D2)" by fastforce
    obtain r3 D3 W3 where c3: "download_sticker_list S items D2 W = (r3, D3, W3)" by (metis prod_cases3)
    have k: "keeps D D1" "keeps D1 D2" "keeps D2 D3"
      using rows [OF c1] pend_sticons_keeps [OF c2] download_sticker_list_keeps [OF c3] by simp_all
    from k(1,2) have k2: "keeps D D2" by (rule asset.moves_trans)
    from k2 k(3) have k3: "keeps D D3" by (rule asset.moves_trans)
    show ?thesis
      using run c1 c2 c3 k k2 k3
      by (auto simp: download_message_sticon_images_def asset.moves_refl split: option.splits if_splits)
  qed
  assume run: "sync_one_message_sticons S msg D W = (r, D', W')"
  show ?thesis
  proof (cases "keep_if (isObject (sj S)) (getItem (sj S) msg ''contentMetadata'')")
    case (Some meta)
    obtain ok D1 W1 where c: "fetch_metas S (collect_message_sticon_pkgs (sj S) meta) D W = (ok, D1, W1)" by (metis prod_cases3)
    show ?thesis
      using run Some c fetch_metas_keeps [OF c] images asset.moves_trans
      by (auto simp: sync_one_message_sticons_def split: if_splits)
  qed (use run in \<open>auto simp: sync_one_message_sticons_def asset.moves_refl\<close>)
qed

lemma message_sticker_keeps: "sync_one_message_sticker S msg D W = (r, D', W') \<Longrightarrow> keeps D D'"
proof -
  have info: "keeps D D'" if "enil_db_get_sticker_image_info_for_package E n q s D = (v, D')"
    for E :: "'j db_env" and n q s v and D D' :: db
    using that by (auto simp: enil_db_get_sticker_image_info_for_package_def Let_def asset.moves_refl intro: asset.query_moves
        split: option.splits prod.splits)
  assume "sync_one_message_sticker S msg D W = (r, D', W')"
  then show ?thesis
    unfolding sync_one_message_sticker_def Let_def
    by (auto simp: asset.moves_refl split: option.splits if_splits prod.splits
        dest!: info item_writes_keep(7) download_sticker_list_keeps intro: asset.moves_trans)
qed

lemma finish_media_keeps: "finish_media S m p t dims D W = (r, D', W') \<Longrightarrow> keeps D D'"
  by (auto simp: finish_media_def asset.moves_refl elim: message_writes_keep split: prod.splits if_splits)

lemma media_entry_keeps: "download_media_entry S dir m D W = (r, D', W') \<Longrightarrow> keeps D D'"
  unfolding download_media_entry_def Let_def
  by (auto simp: asset.moves_refl split: option.splits if_splits prod.splits
      dest!: message_writes_keep(6) finish_media_keeps intro: asset.moves_trans)

lemma message_media_keeps: "sync_one_message_media S i D W = (r, D', W') \<Longrightarrow> keeps D D'"
proof -
  have info: "keeps D D'" if "enil_db_get_message_media_info E i D = (v, D')" for E :: "'j db_env" and i v and D D' :: db
    using that by (auto simp: enil_db_get_message_media_info_def Let_def asset.moves_refl intro: asset.query_moves
        split: option.splits prod.splits)
  assume "sync_one_message_media S i D W = (r, D', W')"
  then show ?thesis
    unfolding sync_one_message_media_def
    by (auto simp: asset.moves_refl split: option.splits if_splits prod.splits
        dest!: info media_entry_keeps intro: asset.moves_trans)
qed

lemma asset_step_keeps:
  "asset_step wanted step X = (rc, D', W') \<Longrightarrow> (\<And>D W r D' W'. step D W = (r, D', W') \<Longrightarrow> keeps D D') \<Longrightarrow> keeps (fst (snd X)) D'"
  by (auto simp: asset_step_def asset.moves_refl split: prod.splits if_splits)

lemma fetch_message_assets_keeps: "fetch_message_assets S msg i X = (rc, D', W') \<Longrightarrow> keeps (fst (snd X)) D'"
proof -
  assume run: "fetch_message_assets S msg i X = (rc, D', W')"
  define w where "w = (let J = sj S; meta = keep_if (isObject J) (getItem J msg ''contentMetadata'')
    in jgeti J meta ''STICON_OWNERSHIP'' \<noteq> None \<or> jgeti J meta ''REPLACE'' \<noteq> None)"
  obtain r1 D1 W1 where s1: "asset_step w (sync_one_message_sticons S msg) X = (r1, D1, W1)" by (metis prod_cases3)
  obtain r2 D2 W2 where s2: "asset_step (content_type_is (sj S) msg 1) (sync_one_message_media S i) (r1, D1, W1) = (r2, D2, W2)"
    by (metis prod_cases3)
  have s3: "asset_step (content_type_is (sj S) msg 7) (sync_one_message_sticker S msg) (r2, D2, W2) = (rc, D', W')"
    using run s1 s2 by (simp add: fetch_message_assets_def Let_def w_def)
  have "keeps (fst (snd X)) D1" by (rule asset_step_keeps [OF s1]) (rule message_sticons_keep)
  moreover have "keeps D1 D2" using asset_step_keeps [OF s2] message_media_keeps by fastforce
  moreover have "keeps D2 D'" using asset_step_keeps [OF s3] message_sticker_keeps by fastforce
  ultimately show ?thesis by (blast intro: asset.moves_trans)
qed

lemma process_stored_keeps: "process_stored_message S token me msg m c D W = (rc, D', W') \<Longrightarrow> keeps D D'"
proof -
  assume run: "process_stored_message S token me msg m c D W = (rc, D', W')"
  obtain D1 W1 where c1: "backfill_chat_metadata S token c D W = (D1, W1)" by fastforce
  obtain r2 D2 where c2: "scan_messages_for_stickers (dbe S) [msg] D1 = (r2, D2)" by fastforce
  obtain has D2' where c3: "message_has_plaintext (dbe S) (m_id m) D2 = (has, D2')" by fastforce
  obtain r3 msg3 D3 W3 where c4: "(if r2 \<noteq> SQLITE_OK then (r2, msg, D2, W1)
      else if has then (r2, msg, D2', W1) else decrypt_one_message S msg me token D2' W1) = (r3, msg3, D3, W3)" by (metis prod_cases4)
  obtain r4 D4 where c5: "(if r3 = SQLITE_OK then scan_messages_for_stickers (dbe S) [msg3] D3 else (r3, D3)) = (r4, D4)" by fastforce
  have k1: "keeps D D1" using c1 by (rule backfill_keeps)
  have k2: "keeps D1 D2" using c2 by (rule scan_messages_keep)
  have k3: "keeps D2 D2'" using c3 by (rule plaintext_probe_keeps)
  have k4: "keeps D2 D3"
    using c4 k3 by (auto simp: asset.moves_refl split: if_splits intro: asset.moves_trans dest: decrypt_one_message_keeps)
  have k5: "keeps D3 D4"
    using c5 by (auto simp: asset.moves_refl split: if_splits dest: scan_messages_keep)
  have "fetch_message_assets S msg3 (m_id m) (r4, D4, W3) = (rc, D', W')"
    using run c1 c2 c3 c4 c5 by (simp add: process_stored_message_def Let_def split: if_splits)
  then have k6: "keeps D4 D'" by (auto dest: fetch_message_assets_keeps)
  show ?thesis using k1 k2 k4 k5 k6 by (blast intro: asset.moves_trans)
qed

end
