(* ===== verification/ENIL_SyncFacts.thy ===== *)
theory ENIL_SyncFacts
  imports ENIL_SyncKeeps
begin

text \<open>
  What a server event may do to the database: a live message is counted once however often it is
  delivered (\<open>live_message_counted_once\<close>), and no stream of events loses or rewrites what is stored
  (\<open>event_stream_grows\<close>).
\<close>

section \<open>A live message\<close>

definition stored :: "tables \<Rightarrow> string \<Rightarrow> bool" where
  "stored T i \<longleftrightarrow> i \<in> set (map fst (messages T))"

definition unread :: "tables \<Rightarrow> string \<Rightarrow> int" where
  "unread T c = (case Option.bind (map_of (boxes T) c) b_unreadCount of None \<Rightarrow> 0 | Some n \<Rightarrow> n)"

definition any_change :: "tables \<Rightarrow> tables \<Rightarrow> bool" where
  "any_change T T' \<longleftrightarrow> True"

interpretation change: table_order any_change
  by unfold_locales (simp_all add: any_change_def)

lemma exec_marks: "exec_stmt E f D = (rc, D') \<Longrightarrow> moves any_change D D'"
  by (erule change.exec_moves) (simp add: any_change_def)

lemma live_upsert_effect:
  assumes "enil_db_message_box_upsert_live_message E (Some c) ty lid t incoming (Some i) D = (SQLITE_OK, D')" and "i \<noteq> []"
  shows "messages (tbl D') = messages (tbl D)"
    and "unread (tbl D') c = (if stored (tbl D) i then unread (tbl D) c else if incoming then unread (tbl D) c + 1 else 0)"
    and "c' \<noteq> c \<Longrightarrow> unread (tbl D') c' = unread (tbl D) c'"
proof -
  obtain rc D1 where D1: "ensure_box E c D = (rc, D1)" by fastforce
  with assms have ok: "rc = SQLITE_OK"
    by (auto simp: enil_db_message_box_upsert_live_message_def split: if_splits)
  with D1 have T1: "tbl D1 = (tbl D)\<lparr>boxes := fst (insert_ignore c empty_box (boxes (tbl D)))\<rparr>"
    by (auto simp: ensure_box_def exec_stmt_def Let_def case_prod_unfold split: if_splits)
  have T2: "tbl D' = (tbl D1)\<lparr>boxes := fst (update_where (\<lambda>k b. k = c)
      (\<lambda>b. b\<lparr>b_midType := Some ty, b_lastDeliveredMessageId := lid, b_lastDeliveredTime := Some t,
             b_unreadCount := live_unread (tbl D1) (Some i) incoming (b_unreadCount b)\<rparr>) (boxes (tbl D1)))\<rparr>"
    using assms D1 ok
    by (auto simp: enil_db_message_box_upsert_live_message_def update_box_def exec_stmt_def Let_def case_prod_unfold split: if_splits)
  show "messages (tbl D') = messages (tbl D)" using T1 T2 by simp
  show "unread (tbl D') c = (if stored (tbl D) i then unread (tbl D) c else if incoming then unread (tbl D) c + 1 else 0)"
    using assms(2)
    by (auto simp: T1 T2 unread_def stored_def live_unread_def nonempty_def lookups empty_box_def split: option.splits)
  show "c' \<noteq> c \<Longrightarrow> unread (tbl D') c' = unread (tbl D) c'"
    by (simp add: T1 T2 unread_def lookups split: option.splits)
qed

lemma keeps_same: "keeps D D' \<Longrightarrow> boxes (tbl D') = boxes (tbl D) \<and> stored (tbl D') i = stored (tbl D) i \<and> unread (tbl D') c = unread (tbl D) c"
  by (simp add: moves_def assets_only_def stored_def unread_def)

lemma follow_up_keeps:
  "keeps D (overwrite_reactions E m mid D)" "keeps D (fill_text E m mid D)"
  "keeps D (snd (fill_message_replace_json E mid rj D))"
  unfolding overwrite_reactions_def fill_text_def fill_message_replace_json_def Let_def
  by (auto simp: asset.moves_refl row_kept_def intro!: update_message_keeps [OF surjective_pairing] split: prod.splits)

text \<open>Storing a message adds its key or keeps the keys, and touches no box.\<close>

lemma message_upsert_effect:
  assumes "enil_db_message_upsert E m D = (rc, D')" and "m_id m = Some i"
  shows "marks D' = marks D" and "boxes (tbl D') = boxes (tbl D)"
    and "db_meta (tbl D') = db_meta (tbl D)"
    and "rc = SQLITE_OK \<Longrightarrow> stored (tbl D') i"
    and "rc = SQLITE_OK \<Longrightarrow> j \<noteq> i \<Longrightarrow> stored (tbl D') j = stored (tbl D) j"
proof -
  have all: "marks D' = marks D \<and> boxes (tbl D') = boxes (tbl D) \<and> db_meta (tbl D') = db_meta (tbl D) \<and>
      (rc = SQLITE_OK \<longrightarrow> stored (tbl D') i \<and> (j \<noteq> i \<longrightarrow> stored (tbl D') j = stored (tbl D) j))"
  proof (cases "nonempty (m_id m) \<and> nonempty (m_chat_id m)")
    case True
    define new where "new = new_message_row (dj E) m"
    obtain rc1 D1 where c1: "exec_stmt E (\<lambda>T. let (t, n) = insert_ignore i new (messages T) in (T\<lparr>messages := t\<rparr>, n)) D = (rc1, D1)"
      by fastforce
    have one: "marks D1 = marks D" "boxes (tbl D1) = boxes (tbl D)" "db_meta (tbl D1) = db_meta (tbl D)"
        "rc1 = SQLITE_OK \<Longrightarrow> stored (tbl D1) i" "rc1 = SQLITE_OK \<Longrightarrow> j \<noteq> i \<Longrightarrow> stored (tbl D1) j = stored (tbl D) j"
      using c1 by (auto simp: exec_stmt_def Let_def case_prod_unfold stored_def insert_ignore_def split: if_splits)
    define D2 where "D2 = fill_text E m i (overwrite_reactions E m i D1)"
    have k2: "keeps D1 D2" unfolding D2_def by (rule asset.moves_trans [OF follow_up_keeps(1) follow_up_keeps(2)])
    obtain rc3 D3 where c3: "fill_message_replace_json E i (r_replace_json new) D2 = (rc3, D3)" by fastforce
    have k3: "keeps D1 D3" using k2 follow_up_keeps(3) [of D2 E i "r_replace_json new"] c3 asset.moves_trans by fastforce
    define D4 where "D4 = replace_message_sticon_rows E i (r_replace_json new) (r_sticon_ownership new) D3"
    have k4: "keeps D1 D4" using k3 sticon_rows_keep unfolding D4_def by (rule asset.moves_trans)
    have "(rc, D') = (if rc1 \<noteq> SQLITE_OK then (rc1, D1) else case r_replace_json new of None \<Rightarrow> (SQLITE_OK, D2)
        | Some rj \<Rightarrow> if rc3 \<noteq> SQLITE_OK then (rc3, D3) else (SQLITE_OK, D4))"
      using assms True c1 c3
      by (auto simp: enil_db_message_upsert_def D2_def D4_def new_def Let_def split: option.splits if_splits)
    moreover have "marks X = marks D \<and> boxes (tbl X) = boxes (tbl D) \<and> db_meta (tbl X) = db_meta (tbl D) \<and> stored (tbl X) k = stored (tbl D1) k"
      if "keeps D1 X" for X k
      using that one by (auto simp: moves_def assets_only_def stored_def)
    ultimately show ?thesis
      using one k2 k3 k4 by (auto split: if_splits option.splits)
  qed (use assms in \<open>auto simp: enil_db_message_upsert_def SQLITE_OK_def SQLITE_ERROR_def\<close>)
  from all show "marks D' = marks D" "boxes (tbl D') = boxes (tbl D)" "db_meta (tbl D') = db_meta (tbl D)" "rc = SQLITE_OK \<Longrightarrow> stored (tbl D') i"
    "rc = SQLITE_OK \<Longrightarrow> j \<noteq> i \<Longrightarrow> stored (tbl D') j = stored (tbl D) j" by blast+
qed

lemma in_savepoint_ok:
  assumes "in_savepoint E g D = (SQLITE_OK, D')"
  obtains D1 D2 where "g D1 = (SQLITE_OK, D2)" and "tbl D1 = tbl D" and "tbl D' = tbl D2"
proof -
  obtain rc1 D1 where c1: "savepoint E D = (rc1, D1)" by fastforce
  obtain rc2 D2 where c2: "g D1 = (rc2, D2)" by fastforce
  obtain rc3 D3 where c3: "(if rc2 = SQLITE_OK then release E D2 else (rc2, D2)) = (rc3, D3)" by fastforce
  have "rc1 = SQLITE_OK" "rc3 = SQLITE_OK" "D' = D3"
    using assms c1 c2 c3 by (auto simp: in_savepoint_def split: if_splits)
  moreover from this have "rc2 = SQLITE_OK" using c3 by (auto split: if_splits)
  moreover have "tbl D1 = tbl D" using c1 by (auto simp: savepoint_def Let_def split: if_splits)
  moreover have "tbl D3 = tbl D2" using c3 by (auto simp: release_def Let_def split: if_splits)
  ultimately show thesis using that c2 by simp
qed

definition incoming_message :: "'j cjson \<Rightarrow> 'j \<Rightarrow> string option \<Rightarrow> bool" where
  "incoming_message J msg me \<longleftrightarrow>
     (case (me, jstr J (getItem J msg ''from'')) of (Some a, Some f) \<Rightarrow> f \<noteq> a | _ \<Rightarrow> False)"

lemma store_live_effect:
  assumes "store_live_message E (Some msg) m c me D = (rc, D')"
    and ids: "jstr (dj E) (getItem (dj E) msg ''id'') = Some i" "m_id m = Some i" "i \<noteq> []"
  shows "marks D' = marks D" and "rc \<noteq> SQLITE_OK \<Longrightarrow> tbl D' = tbl D"
    and "rc = SQLITE_OK \<Longrightarrow> stored (tbl D') i \<and>
      unread (tbl D') c = (if stored (tbl D) i then unread (tbl D) c
                           else if incoming_message (dj E) msg me then unread (tbl D) c + 1 else 0)"
proof -
  define g where "g = while_ok [upsert_chat_for_message E (Some msg) c me, enil_db_message_upsert E m]"
  have run: "in_savepoint E g D = (rc, D')" using assms(1) by (simp add: store_live_message_def g_def)
  have box: "moves any_change D D'" if "upsert_chat_for_message E (Some msg) c me D = (rc, D')" for D D' rc
  proof -
    have live: "moves any_change D D'" if "enil_db_message_box_upsert_live_message E a b x y z w D = (rc, D')" for a b x y z w rc D D'
      using that by (auto simp: enil_db_message_box_upsert_live_message_def ensure_box_def update_box_def change.moves_refl
        split: option.splits prod.splits if_splits dest!: exec_marks intro: change.moves_trans)
    with that show ?thesis by (auto simp: upsert_chat_for_message_def Let_def)
  qed
  have step: "moves any_change D D'" if "g D = (rc, D')" for D D' rc
    using that unfolding g_def
    by (rule change.while_ok_moves) (auto dest: box simp: moves_def any_change_def message_upsert_effect(1) [OF _ ids(2)])
  show "marks D' = marks D" using change.in_savepoint_moves(1) [OF run step] by (simp add: moves_def)
  show "rc \<noteq> SQLITE_OK \<Longrightarrow> tbl D' = tbl D" using change.in_savepoint_moves(2) [OF run] step by blast
  show "stored (tbl D') i \<and>
      unread (tbl D') c = (if stored (tbl D) i then unread (tbl D) c
                           else if incoming_message (dj E) msg me then unread (tbl D) c + 1 else 0)" if "rc = SQLITE_OK"
  proof -
    obtain D1 D2 where g: "g D1 = (SQLITE_OK, D2)" and T: "tbl D1 = tbl D" "tbl D' = tbl D2"
      using in_savepoint_ok run \<open>rc = SQLITE_OK\<close> by metis
    obtain rcx Dx where u: "upsert_chat_for_message E (Some msg) c me D1 = (rcx, Dx)" by fastforce
    from g u have ok: "rcx = SQLITE_OK" by (auto simp: g_def split: if_splits)
    with g u have m: "enil_db_message_upsert E m Dx = (SQLITE_OK, D2)"
      by (auto simp: g_def split: if_splits prod.splits)
    have u': "\<exists>ty lid t. enil_db_message_box_upsert_live_message E (Some c) ty lid t (incoming_message (dj E) msg me) (Some i) D1 = (SQLITE_OK, Dx)"
      using u ok ids(1) by (auto simp: upsert_chat_for_message_def Let_def incoming_message_def)
    then have "unread (tbl Dx) c = (if stored (tbl D1) i then unread (tbl D1) c
        else if incoming_message (dj E) msg me then unread (tbl D1) c + 1 else 0)"
      using live_upsert_effect(2) [OF _ ids(3)] by blast
    moreover have "unread (tbl D2) c = unread (tbl Dx) c"
      using message_upsert_effect(2) [OF m ids(2)] by (simp add: unread_def)
    ultimately show ?thesis
      using message_upsert_effect(4) [OF m ids(2)] T by simp
  qed
qed

section \<open>Whole events\<close>

text \<open>One delivery of an event of the stream, whatever it returns.\<close>

definition deliver :: "('w, 'j) sync_env \<Rightarrow> string \<Rightarrow> string option \<Rightarrow> string \<times> string \<Rightarrow> db \<times> 'w \<Rightarrow> db \<times> 'w" where
  "deliver S token me event X =
     (case enil_sync_process_sse_event S token me (fst event) (snd event) (fst X) (snd X) of (rc, handled, D, W) \<Rightarrow> (D, W))"

lemma message_op_effect:
  assumes "process_message_op S token me whole oper D W = (rc, D', W')"
    and "op_message oper = Some m" and "m_id m = Some i" and "i \<noteq> []" and "m_chat_id m = Some c" and "c \<noteq> []"
    and "getItem (sj S) whole ''message'' = Some msg" and "jstr (sj S) (getItem (sj S) msg ''id'') = Some i"
    and "incoming_message (sj S) msg me"
  shows "unread (tbl D') c = unread (tbl D) c + (if stored (tbl D') i \<and> \<not> stored (tbl D) i then 1 else 0)"
    and "stored (tbl D) i \<Longrightarrow> stored (tbl D') i"
proof -
  obtain rc1 D1 where c1: "store_live_message (dbe S) (Some msg) m c me D = (rc1, D1)" by fastforce
  note effect = store_live_effect [OF c1 assms(8) assms(3) assms(4)]
  have run: "(if rc1 \<noteq> SQLITE_OK then (rc1, D1, W) else process_stored_message S token me msg m c D1 W) = (rc, D', W')"
    using assms c1 by (auto simp: process_message_op_def nonempty_def Let_def)
  have "unread (tbl D') c = unread (tbl D) c + (if stored (tbl D') i \<and> \<not> stored (tbl D) i then 1 else 0) \<and>
      (stored (tbl D) i \<longrightarrow> stored (tbl D') i)"
  proof (cases "rc1 = SQLITE_OK")
    case True
    with run have "keeps D1 D'" by (auto dest: process_stored_keeps)
    then have "stored (tbl D') i = stored (tbl D1) i" "unread (tbl D') c = unread (tbl D1) c" using keeps_same by blast+
    then show ?thesis using effect(3) True assms(9) by auto
  next
    case False
    with run effect(2) show ?thesis by auto
  qed
  then show "unread (tbl D') c = unread (tbl D) c + (if stored (tbl D') i \<and> \<not> stored (tbl D) i then 1 else 0)"
    and "stored (tbl D) i \<Longrightarrow> stored (tbl D') i" by blast+
qed

lemma deliver_effect:
  assumes "deliver S token me (''message'', data) (D, W) = (D', W')"
    and "parseText (sj S) data = Some whole" and "talk_operation_parse (sj S) (Some whole) me = Some oper"
    and "op_type oper \<in> {ENIL_OP_SEND_MESSAGE, ENIL_OP_RECEIVE_MESSAGE}"
    and msg: "op_message oper = Some m" "m_id m = Some i" "i \<noteq> []" "m_chat_id m = Some c" "c \<noteq> []"
      "getItem (sj S) whole ''message'' = Some msg" "jstr (sj S) (getItem (sj S) msg ''id'') = Some i" "incoming_message (sj S) msg me"
  shows "unread (tbl D') c = unread (tbl D) c + (if stored (tbl D') i \<and> \<not> stored (tbl D) i then 1 else 0) \<and>
    (stored (tbl D) i \<longrightarrow> stored (tbl D') i)"
proof -
  have "process_op S token me whole oper D W = Some (process_message_op S token me whole oper D W)"
    using assms(4) by (auto simp: process_op_def ENIL_OP_defs)
  then obtain rc where "process_message_op S token me whole oper D W = (rc, D', W')"
    using assms(1-3) by (auto simp: deliver_def enil_sync_process_sse_event_def split: prod.splits)
  from message_op_effect [OF this msg] show ?thesis by blast
qed

text \<open>C2: A live message counts once.  However often the event of an incoming message is delivered,
  whatever statements and network calls fail in between, the unread count of its chat is the count
  before plus one if the message has been stored and unchanged if it has not.\<close>

theorem live_message_counted_once:
  assumes "parseText (sj S) data = Some whole" and "talk_operation_parse (sj S) (Some whole) me = Some oper"
    and "op_type oper \<in> {ENIL_OP_SEND_MESSAGE, ENIL_OP_RECEIVE_MESSAGE}"
    and "op_message oper = Some m" and "m_id m = Some i" and "i \<noteq> []" and "m_chat_id m = Some c" and "c \<noteq> []"
    and "getItem (sj S) whole ''message'' = Some msg" and "jstr (sj S) (getItem (sj S) msg ''id'') = Some i"
    and "incoming_message (sj S) msg me" and "\<not> stored (tbl D) i"
  shows "let D' = fst ((deliver S token me (''message'', data) ^^ n) (D, W))
         in unread (tbl D') c = unread (tbl D) c + (if stored (tbl D') i then 1 else 0)"
proof (induction n)
  case (Suc n)
  obtain D1 W1 where one: "(deliver S token me (''message'', data) ^^ n) (D, W) = (D1, W1)" by fastforce
  obtain D2 W2 where two: "deliver S token me (''message'', data) (D1, W1) = (D2, W2)" by fastforce
  from deliver_effect [OF two assms(1-11)] Suc.IH one two show ?case by auto
qed (use assms(12) in simp)

text \<open>A stream that delivers one message three times; its first delivery fails at the third statement.\<close>

definition demo_live_message :: json where
  "demo_live_message = JObj [(''id'', JStr ''m1''), (''from'', JStr ''u2''), (''to'', JStr ''u1''), (''contentType'', JNum 0)]"

definition demo_event :: json where
  "demo_event = JObj [(''type'', JNum 26), (''message'', demo_live_message)]"

definition demo_sync :: "(nat, json) sync_env" where
  "demo_sync =
     \<lparr>e2 = \<lparr>et = \<lparr>tj = tree (\<lambda>_. Some demo_event) (\<lambda>_. []),
                  line_post = (\<lambda>path body token n. (\<lparr>status = 500, body = None\<rparr>, Suc n)), line_language = ''en''\<rparr>,
            evp_decode = (\<lambda>_. None), evp_encode = (\<lambda>_. []), worker_decrypt = (\<lambda>p j n. (None, Suc n))\<rparr>,
      dbe = \<lparr>dj = tree (\<lambda>_. Some demo_event) (\<lambda>_. []), fault = (\<lambda>n. if n = 2 then SQLITE_ERROR else SQLITE_OK), newest_first = (\<lambda>xs. xs)\<rparr>,
      session_path = ''/a/session.json'', load_session = (\<lambda>_. None), save_restore_state = (\<lambda>_ n. n),
      delete_item = (\<lambda>j _. j), put_item = (\<lambda>j _ _. j), make_dir = (\<lambda>_ n. n), write_file = (\<lambda>_ _ n. n),
      file_bytes = (\<lambda>_ _. None), png_size = (\<lambda>_ _. None), image_size = (\<lambda>_ _. None), thumb_generate = (\<lambda>_ _ n. (None, n)),
      curl_get = (\<lambda>_ n. (None, n)), curl_download_file = (\<lambda>_ _ n. (False, n)), curl_download_png = (\<lambda>_ _ n. (False, n)),
      obs_download = (\<lambda>_ _ n. (False, n)), cancelled = (\<lambda>_. False), has_identity = True\<rparr>"

definition demo_empty :: db where
  "demo_empty =
     \<lparr>tbl = \<lparr>accounts = [], contacts = [], chats = [], boxes = [], readers = [], messages = [], message_sticons = [],
              message_sticon_packages = [], sticker_packages = [], sticon_packages = [], stickers = [], sticons = [],
              talk_exceptions = [], sse_events = [], db_meta = []\<rparr>,
      marks = [], changed = 0, clock = 0\<rparr>"

definition demo_oper :: "json talk_operation_t" where
  "demo_oper = the (talk_operation_parse (sj demo_sync) (Some demo_event) (Some ''u1''))"

theorem live_message_counted_once_witness:
  "let D' = fst ((deliver demo_sync ''t'' (Some ''u1'') (''message'', []) ^^ 3) (demo_empty, 0))
   in unread (tbl D') ''u2'' = unread (tbl demo_empty) ''u2'' + (if stored (tbl D') ''m1'' then 1 else 0)"
proof (rule live_message_counted_once)
  show "parseText (sj demo_sync) [] = Some demo_event" by (simp add: demo_sync_def tree_def)
  show "talk_operation_parse (sj demo_sync) (Some demo_event) (Some ''u1'') = Some demo_oper"
    by (simp add: demo_oper_def talk_operation_parse_def)
  have parsed: "op_type demo_oper = 26 \<and> map_option m_id (op_message demo_oper) = Some (Some ''m1'') \<and>
      map_option m_chat_id (op_message demo_oper) = Some (Some ''u2'')"
    by (simp add: demo_oper_def talk_operation_parse_def talk_message_parse_def operation_chat_id_def demo_event_def demo_live_message_def
        demo_sync_def tree_def keep_if_def int_field_def enil_json_get_int_def enil_json_dup_string_def jis_def jstr_def Let_def)
  then show "op_type demo_oper \<in> {ENIL_OP_SEND_MESSAGE, ENIL_OP_RECEIVE_MESSAGE}" by (simp add: ENIL_OP_defs)
  from parsed obtain m where m: "op_message demo_oper = Some m" by auto
  then show "op_message demo_oper = Some (the (op_message demo_oper))" by simp
  show "m_id (the (op_message demo_oper)) = Some ''m1''" "m_chat_id (the (op_message demo_oper)) = Some ''u2''"
    using parsed m by auto
  show "getItem (sj demo_sync) demo_event ''message'' = Some demo_live_message"
    by (simp add: demo_sync_def tree_def demo_event_def)
  show "jstr (sj demo_sync) (getItem (sj demo_sync) demo_live_message ''id'') = Some ''m1''"
    by (simp add: demo_sync_def tree_def demo_live_message_def jstr_def)
  show "incoming_message (sj demo_sync) demo_live_message (Some ''u1'')"
    by (simp add: demo_sync_def tree_def demo_live_message_def jstr_def incoming_message_def)
  show "\<not> stored (tbl demo_empty) ''m1''" by (simp add: stored_def demo_empty_def)
qed simp_all

section \<open>Streams of events\<close>

lemma moves_grows: "keeps D D' \<Longrightarrow> grows (tbl D) (tbl D')"
  by (simp add: moves_def assets_only_grows)

lemma store_live_grows: "store_live_message E msg m c me D = (rc, D') \<Longrightarrow> grows (tbl D) (tbl D')"
proof -
  assume run: "store_live_message E msg m c me D = (rc, D')"
  have box: "moves grows D D'" if "upsert_chat_for_message E msg c me D = (rc, D')" for D D' rc
  proof -
    have "moves any_change D D'" if "enil_db_message_box_upsert_live_message E a b x y z w D = (rc, D')" for a b x y z w rc D D'
      using that by (auto simp: enil_db_message_box_upsert_live_message_def ensure_box_def update_box_def change.moves_refl
        split: option.splits prod.splits if_splits dest!: exec_marks intro: change.moves_trans)
    then have "moves grows D D'" if "enil_db_message_box_upsert_live_message E a b x y z w D = (rc, D')" for a b x y z w rc D D'
      using that live_message_grows [of D E a b x y z w] by (auto simp: moves_def)
    with that show ?thesis by (auto simp: upsert_chat_for_message_def Let_def grow.moves_refl split: option.splits)
  qed
  have marks: "marks D' = marks D" if "enil_db_message_upsert E m D = (rc, D')" for D D' rc
  proof (cases "m_id m")
    case None
    with that show ?thesis by (auto simp: enil_db_message_upsert_def nonempty_def)
  qed (use that message_upsert_effect(1) in blast)
  then have msg: "moves grows D D'" if "enil_db_message_upsert E m D = (rc, D')" for D D' rc
    using that message_upsert_grows [of D E m] by (simp add: moves_def)
  have "moves grows D D'"
    using run unfolding store_live_message_def
    by (rule grow.in_savepoint_moves(1)) (erule grow.while_ok_moves, auto dest: box msg)
  then show ?thesis by (simp add: moves_def)
qed

lemma process_op_grows: "process_op S token me whole oper D W = Some (rc, D', W') \<Longrightarrow> grows (tbl D) (tbl D')"
proof -
  assume run: "process_op S token me whole oper D W = Some (rc, D', W')"
  have read: "grows (tbl D) (tbl (snd (apply_op_read (dbe S) oper D)))"
    by (auto simp: apply_op_read_def grow.refl intro: read_marks_grow split: option.splits list.splits)
  have reaction: "keeps D (snd (apply_op_reaction (dbe S) oper me D))"
    by (auto simp: apply_op_reaction_def Let_def asset.moves_refl intro: reactions_keep [OF surjective_pairing])
  have deleted: "keeps D (snd (enil_db_message_mark_deleted (dbe S) i D))" for i
    by (rule message_writes_keep(5) [OF surjective_pairing])
  have message: "grows (tbl D) (tbl D1)" if "process_message_op S token me whole oper D W = (rc1, D1, W1)" for rc1 D1 W1
    using that
    by (auto simp: process_message_op_def grow.refl Let_def split: option.splits if_splits prod.splits
        dest!: store_live_grows process_stored_keeps moves_grows intro: grow.trans)
  show ?thesis
    using run
    by (auto simp: process_op_def with_world_def Let_def grow.refl read read_marks_grow moves_grows [OF reaction] moves_grows [OF deleted]
        split: if_splits dest!: contact_update_keeps chat_update_keeps message intro: moves_grows)
qed

lemma deliver_grows: "grows (tbl (fst X)) (tbl (fst (deliver S token me event X)))"
  by (auto simp: deliver_def enil_sync_process_sse_event_def grow.refl dest: process_op_grows split: option.splits prod.splits)

text \<open>C3: Events keep history.  No stream of server events, in any order, with any failures of the
  database and the network, loses a stored message, changes its author, chat or time, undeletes it,
  loses a box, or moves a read mark back.\<close>

theorem event_stream_grows: "grows (tbl D) (tbl (fst (foldl (\<lambda>X event. deliver S token me event X) (D, W) events)))"
proof -
  have "grows (tbl (fst X)) (tbl (fst (foldl (\<lambda>X event. deliver S token me event X) X events)))" for X
  proof (induction events arbitrary: X)
    case (Cons event events)
    show ?case using grow.trans [OF deliver_grows Cons.IH] by simp
  qed (simp add: grow.refl)
  from this [of "(D, W)"] show ?thesis by simp
qed

end
