(* ===== verification/ENIL_SyncPhaseFacts.thy ===== *)
theory ENIL_SyncPhaseFacts
  imports ENIL_SyncPhases ENIL_SyncFacts
begin

text \<open>
  What a full sync guarantees, whatever fails in it: the history in the database only grows, no
  transaction stays open, and the cursor of the event stream moves only after every phase succeeded,
  to the revision read before anything was fetched (\<open>full_sync_cursor\<close>).
\<close>

section \<open>Transactions\<close>

context table_order begin

lemma in_transaction_moves:
  assumes run: "in_transaction E g D = (rc, D')" and idle: "marks D = []"
    and g: "\<And>D rc D'. g D = (rc, D') \<Longrightarrow> moves le D D'"
  shows "moves le D D'" and "rc \<noteq> SQLITE_OK \<Longrightarrow> tbl D' = tbl D"
proof -
  obtain rc1 D1 where c1: "begin_transaction E D = (rc1, D1)" by fastforce
  obtain rc2 D2 where c2: "(if rc1 = SQLITE_OK then g D1 else (rc1, D1)) = (rc2, D2)" by fastforce
  obtain rc3 D3 where c3: "(if rc2 = SQLITE_OK then release E D2 else (rc2, D2)) = (rc3, D3)" by fastforce
  have opened: "tbl D1 = tbl D" "rc1 = SQLITE_OK \<Longrightarrow> marks D1 = [tbl D]" "rc1 \<noteq> SQLITE_OK \<Longrightarrow> marks D1 = []"
    using c1 idle by (auto simp: begin_transaction_def savepoint_def Let_def split: if_splits)
  have step: "marks D2 = marks D1" "le (tbl D1) (tbl D2)" "rc1 \<noteq> SQLITE_OK \<Longrightarrow> tbl D2 = tbl D1 \<and> rc2 \<noteq> SQLITE_OK"
    using c2 g [of D1 rc2 D2] by (auto simp: moves_def refl split: if_splits)
  have closed: "tbl D3 = tbl D2" "rc3 = SQLITE_OK \<Longrightarrow> marks D3 = tl (marks D2) \<and> rc2 = SQLITE_OK" "rc3 \<noteq> SQLITE_OK \<Longrightarrow> marks D3 = marks D2"
    using c3 by (auto simp: release_def Let_def split: if_splits)
  have result: "(rc, D') = (if rc3 \<noteq> SQLITE_OK then (rc3, rollback_all D3) else (SQLITE_OK, D3))"
    using run c1 c2 c3 by (auto simp: in_transaction_def)
  show "rc \<noteq> SQLITE_OK \<Longrightarrow> tbl D' = tbl D"
    using result opened closed step by (cases "rc1 = SQLITE_OK") (auto simp: rollback_all_def split: if_splits)
  show "moves le D D'"
    using result opened closed step idle refl [of "tbl D"]
    by (cases "rc1 = SQLITE_OK") (auto simp: rollback_all_def moves_def split: if_splits)
qed

lemma each_entry_moves:
  "each_entry f as D X = (rc, D', X') \<Longrightarrow> (\<And>a D X rc D' X'. f a D X = (rc, D', X') \<Longrightarrow> moves le D D') \<Longrightarrow> moves le D D'"
proof (induction as arbitrary: D X)
  case (Cons a as)
  obtain rc1 D1 X1 where f: "f a D X = (rc1, D1, X1)" by (metis prod_cases3)
  then have one: "moves le D D1" using Cons.prems(2) by blast
  have "moves le D1 D'" if "rc1 = SQLITE_OK"
  proof (rule Cons.IH)
    show "each_entry f as D1 X1 = (rc, D', X')" using Cons.prems(1) f that by simp
  qed (use Cons.prems(2) in blast)
  with one show ?case using Cons.prems(1) f by (auto split: if_splits intro: moves_trans)
qed (simp add: moves_refl)

end

section \<open>Writes of a sync\<close>

definition history :: "tables \<Rightarrow> tables \<Rightarrow> bool" where
  "history T T' \<longleftrightarrow> grows T T' \<and> db_meta T' = db_meta T"

interpretation hist: table_order history
  by unfold_locales (auto simp: history_def intro: grow.refl grow.trans)

abbreviation extends :: "db \<Rightarrow> db \<Rightarrow> bool" where
  "extends \<equiv> moves history"

lemma keeps_extends: "keeps D D' \<Longrightarrow> extends D D'"
  by (auto simp: moves_def history_def assets_only_grows) (simp add: assets_only_def)

lemma message_upsert_extends: "enil_db_message_upsert E m D = (rc, D') \<Longrightarrow> extends D D'"
proof (cases "m_id m")
  case (Some i)
  assume run: "enil_db_message_upsert E m D = (rc, D')"
  then show ?thesis
    using message_upsert_effect [OF run Some] message_upsert_grows [of D E m] by (simp add: moves_def history_def)
qed (auto simp: enil_db_message_upsert_def nonempty_def hist.moves_refl)

text \<open>Statements on boxes and read marks: they keep the savepoints and the cursor.\<close>

definition meta_kept :: "tables \<Rightarrow> tables \<Rightarrow> bool" where
  "meta_kept T T' \<longleftrightarrow> db_meta T' = db_meta T"

interpretation meta: table_order meta_kept
  by unfold_locales (auto simp: meta_kept_def)

lemma box_writes_keep_meta:
  "ensure_box E k D = (rc, D') \<Longrightarrow> moves meta_kept D D'"
  "update_box E P f D = (rc, D') \<Longrightarrow> moves meta_kept D D'"
  "enil_db_message_box_set_group_reader E c r t D = (rc, D') \<Longrightarrow> moves meta_kept D D'"
  unfolding ensure_box_def update_box_def enil_db_message_box_set_group_reader_def
  by (auto simp: meta.moves_refl meta_kept_def Let_def case_prod_unfold elim!: meta.exec_moves split: if_splits option.splits)

lemma box_writes_extend:
  "enil_db_message_box_upsert E mb D = (rc, D') \<Longrightarrow> extends D D'"
  "enil_db_message_box_set_peer_read E c r t D = (rc, D') \<Longrightarrow> extends D D'"
  "enil_db_message_box_set_group_reader E c r t D = (rc, D') \<Longrightarrow> extends D D'"
proof -
  have both: "extends D D'" if "grows (tbl D) (tbl D')" and "moves meta_kept D D'" for D D'
    using that by (simp add: moves_def history_def meta_kept_def)
  show "extends D D'" if run: "enil_db_message_box_upsert E mb D = (rc, D')"
  proof (rule both)
    show "grows (tbl D) (tbl D')" using box_upsert_grows [of D E mb] run by simp
    show "moves meta_kept D D'"
      using run by (auto simp: enil_db_message_box_upsert_def split: prod.splits if_splits
          dest!: box_writes_keep_meta(1,2) intro: meta.moves_trans)
  qed
  show "extends D D'" if run: "enil_db_message_box_set_peer_read E c r t D = (rc, D')"
  proof (rule both)
    show "grows (tbl D) (tbl D')" using read_marks_grow(1) [of D E c r t] run by simp
    show "moves meta_kept D D'"
      using run by (auto simp: enil_db_message_box_set_peer_read_def meta.moves_refl split: if_splits dest: box_writes_keep_meta)
  qed
  show "extends D D'" if run: "enil_db_message_box_set_group_reader E c r t D = (rc, D')"
    by (rule both [OF _ box_writes_keep_meta(3) [OF run]]) (use read_marks_grow(2) [of D E c r t] run in simp)
qed

lemma read_range_extends: "read_range_apply_data E data D = (rc, D') \<Longrightarrow> extends D D'"
proof -
  have one: "extends D D'" if "read_range_apply_one E c r t D = (rc, D')" for c r t rc D D'
    using that by (auto simp: read_range_apply_one_def hist.moves_refl split: if_splits dest: box_writes_extend)
  show "read_range_apply_data E data D = (rc, D') \<Longrightarrow> extends D D'"
    unfolding read_range_apply_data_def Let_def
    by (erule hist.while_ok_moves) (auto split: option.splits if_splits dest: one)
qed

section \<open>Phases\<close>

lemma transaction_extends:
  assumes "in_transaction E (while_ok (map f xs)) D = (rc, D')" and "marks D = []"
    and "\<And>x D rc D'. f x D = (rc, D') \<Longrightarrow> extends D D'"
  shows "extends D D'"
  by (rule hist.in_transaction_moves(1) [OF assms(1,2)]) (auto elim!: hist.while_ok_moves dest: assms(3))

lemma backfill_members_extends: "backfill_member_contacts F token mids D W = (D', W') \<Longrightarrow> keeps D D'"
proof (induction F token mids D W rule: backfill_member_contacts.induct)
  case (2 F token mid mids D W)
  obtain known D1 where c1: "enil_db_contact_exists (fd F) (Some mid) D = (known, D1)" by fastforce
  obtain co W1 where c2: "talk_get_contact_by_mid (ft F) (Some token) (Some mid) W = (co, W1)" by fastforce
  obtain rc D2 where c3: "enil_db_talk_contact_upsert (fd F) ((the co)\<lparr>co_registered := False\<rparr>) D1 = (rc, D2)" by fastforce
  have k: "keeps D D1" "keeps D1 D2" using exists_keeps(1) [OF c1] struct_writes_keep(2) [OF c3] by simp_all
  then have k2: "keeps D D2" by (rule asset.moves_trans)
  show ?case
    using 2 c1 c2 c3 k k2 by (auto split: if_splits option.splits intro: asset.moves_trans)
qed (simp add: asset.moves_refl)

lemma account_steps_extend:
  assumes "marks D = []"
  shows "account_profile F token D W = (ok, D', W') \<Longrightarrow> extends D D'"
    and "account_contacts F token D W = (ok, D', W') \<Longrightarrow> extends D D'"
    and "account_chats F token D W = (ok, D', W') \<Longrightarrow> extends D D'"
    and "account_boxes F token D W = Some (bs, D', W') \<Longrightarrow> extends D D'"
proof -
  have self: "keeps D (snd (upsert_self_contact (fd F) p D))" for D p
    unfolding upsert_self_contact_def by (rule struct_writes_keep(2) [OF surjective_pairing])
  show "account_profile F token D W = (ok, D', W') \<Longrightarrow> extends D D'"
    by (auto simp: account_profile_def hist.moves_refl split: option.splits prod.splits if_splits
        dest!: struct_writes_keep(1) intro!: keeps_extends intro: asset.moves_trans self)
  show "account_contacts F token D W = (ok, D', W') \<Longrightarrow> extends D D'"
    using assms by (auto simp: account_contacts_def hist.moves_refl split: option.splits prod.splits
        elim!: transaction_extends dest: struct_writes_keep(2) intro: keeps_extends)
  show "account_boxes F token D W = Some (bs, D', W') \<Longrightarrow> extends D D'"
    using assms by (auto simp: account_boxes_def hist.moves_refl split: option.splits prod.splits
        elim!: transaction_extends dest: box_writes_extend)
  have chats: "extends D D'" if "in_transaction (fd F) (while_ok (map (\<lambda>c. enil_db_chat_upsert (fd F) (mark_invited mids c)) cs)) D = (rc, D')"
    for mids cs rc D'
    by (rule transaction_extends [OF that assms]) (auto dest: struct_writes_keep(3) intro: keeps_extends)
  show "account_chats F token D W = (ok, D', W') \<Longrightarrow> extends D D'"
    by (auto simp: account_chats_def Let_def hist.moves_refl split: option.splits prod.splits if_splits
        dest!: chats chats [where cs = "[]", simplified] backfill_members_extends keeps_extends intro: hist.moves_trans)
qed

lemma avatars_keep: "download_avatars F D W = (D', W') \<Longrightarrow> keeps D D'"
proof -
  assume run: "download_avatars F D W = (D', W')"
  obtain p D1 where c1: "enil_db_talk_profile_get (fd F) D = (p, D1)" by fastforce
  obtain cs D2 where c2: "enil_db_talk_contact_get_all (fd F) (localized F) D1 = (cs, D2)" by fastforce
  obtain gs D3 where c3: "query (fd F) (\<lambda>T. map (\<lambda>(k, row). (Some k, column_text (joined (Some row) chat_picture_column))) (chats T)) D2 = (gs, D3)"
    by fastforce
  have "keeps D D1" using c1 by (auto simp: enil_db_talk_profile_get_def Let_def intro: asset.query_moves split: prod.splits)
  moreover have "keeps D1 D2" using c2 by (auto simp: enil_db_talk_contact_get_all_def Let_def intro: asset.query_moves split: prod.splits)
  moreover have "keeps D2 D3" using c3 by (rule asset.query_moves)
  ultimately have k: "keeps D D3" by (blast intro: asset.moves_trans)
  show ?thesis
    using run c1 c2 c3 k by (auto simp: download_avatars_def Let_def asset.moves_refl split: option.splits)
qed

lemma idle: "extends D D' \<Longrightarrow> marks D = [] \<Longrightarrow> marks D' = []"
  by (simp add: moves_def)

lemma account_extends:
  assumes "sync_phase_account F token D W = Some (bs, D', W')" and "marks D = []"
  shows "extends D D'"
proof -
  obtain ok1 D1 W1 where c1: "account_profile F token D W = (ok1, D1, W1)" by (metis prod_cases3)
  have k1: "extends D D1" using account_steps_extend(1) [OF assms(2) c1] .
  obtain ok2 D2 W2 where c2: "account_contacts F token D1 W1 = (ok2, D2, W2)" by (metis prod_cases3)
  have k2: "extends D D2" using k1 account_steps_extend(2) [OF idle [OF k1 assms(2)] c2] by (rule hist.moves_trans)
  obtain ok3 D3 W3 where c3: "account_chats F token D2 W2 = (ok3, D3, W3)" by (metis prod_cases3)
  have k3: "extends D D3" using k2 account_steps_extend(3) [OF idle [OF k2 assms(2)] c3] by (rule hist.moves_trans)
  have k4: "extends D D4" if "account_boxes F token D3 W3 = Some (b, D4, W4)" for b D4 W4
    using k3 account_steps_extend(4) [OF idle [OF k3 assms(2)] that] by (rule hist.moves_trans)
  show ?thesis
    using assms(1) c1 c2 c3 k1 k2 k3 k4
    by (auto simp: sync_phase_account_def split: if_splits option.splits prod.splits
        dest!: avatars_keep keeps_extends intro: hist.moves_trans)
qed

lemma messages_extend: "sync_phase_messages F token bs D W = (ok, D', W') \<Longrightarrow> marks D = [] \<Longrightarrow> extends D D'"
proof (induction bs arbitrary: D W)
  case (Cons b bs)
  obtain msgs W1 where c1: "talk_get_recent_messages (ft F) (Some token) (Some (mb_id b)) MESSAGES_PER_CHAT W = (msgs, W1)" by fastforce
  obtain rc D1 where c2: "in_transaction (fd F) (while_ok (map (enil_db_message_upsert (fd F)) (the msgs))) D = (rc, D1)" by fastforce
  obtain rc2 D2 where c3: "scan_messages_for_stickers (fd F) (List.map_filter m_raw (the msgs)) D1 = (rc2, D2)" by fastforce
  have k1: "extends D D1" by (rule transaction_extends [OF c2 Cons.prems(2)]) (rule message_upsert_extends)
  have k2: "extends D D2" using k1 keeps_extends [OF scan_messages_keep [OF c3]] by (rule hist.moves_trans)
  have k3: "extends D D'" if "sync_phase_messages F token bs D2 W1 = (ok, D', W')"
    using k2 Cons.IH [OF that idle [OF k2 Cons.prems(2)]] by (rule hist.moves_trans)
  show ?case
    using Cons c1 c2 c3 k1 k2 k3 by (auto simp: hist.moves_refl split: option.splits if_splits)
qed (simp add: hist.moves_refl)

lemma read_ranges_extend: "sync_phase_read_range F token ids D W = (ok, D', W') \<Longrightarrow> marks D = [] \<Longrightarrow> extends D D'"
proof (induction F token ids D W rule: sync_phase_read_range.induct)
  case (1 F token ids D W)
  obtain data W1 where c1: "talk_get_message_read_range (ft F) (Some token) (Some (map Some (take READ_RANGE_BATCH_SIZE ids))) W = (data, W1)"
    by fastforce
  show ?case
  proof (cases data)
    case None
    then show ?thesis
      using "1.prems" "1.IH"(1) [of None W1] c1 by (subst (asm) sync_phase_read_range.simps) (auto simp: hist.moves_refl split: if_splits)
  next
    case (Some d)
    obtain rc D1 where c2: "in_transaction (fd F) (read_range_apply_data (fd F) d) D = (rc, D1)" by fastforce
    have k1: "extends D D1" by (rule hist.in_transaction_moves(1) [OF c2 "1.prems"(2)]) (rule read_range_extends)
    have "extends D1 D'" if "ids \<noteq> []" "rc = SQLITE_OK" "sync_phase_read_range F token (drop READ_RANGE_BATCH_SIZE ids) D1 W1 = (ok, D', W')"
      using "1.IH"(2) [of "data" W1 d rc D1] that Some c1 c2 idle [OF k1 "1.prems"(2)] by auto
    then show ?thesis
      using "1.prems"(1) Some c1 c2 k1
      by (subst (asm) sync_phase_read_range.simps) (auto simp: hist.moves_refl split: if_splits intro: hist.moves_trans)
  qed
qed

lemma decrypting_keeps: "sync_phase_decrypting S me token D W = (ok, D', W') \<Longrightarrow> keeps D D'"
proof -
  have one: "keeps D D'" if "decrypt_stored S me token keys a D X = (rc, D', X')" for keys a D X rc D' X'
    using that by (auto simp: decrypt_stored_def asset.moves_refl split: prod.splits option.splits if_splits
        dest: message_writes_keep(1) store_decrypted_keeps)
  have two: "keeps D D'" if "replace_stored S me token keys a D X = (rc, D', X')" for keys a D X rc D' X'
    using that by (auto simp: replace_stored_def asset.moves_refl split: prod.splits option.splits if_splits
        dest: message_writes_keep(2))
  assume run: "sync_phase_decrypting S me token D W = (ok, D', W')"
  obtain ps D1 where c1: "enil_db_get_messages_needing_decrypt (dbe S) D = (ps, D1)" by fastforce
  obtain ss D2 where c2: "enil_db_get_messages_needing_replace (dbe S) D1 = (ss, D2)" by fastforce
  have "keeps D D1" "keeps D1 D2"
    using c1 c2 by (auto simp: enil_db_get_messages_needing_decrypt_def enil_db_get_messages_needing_replace_def intro: asset.query_moves)
  then have k: "keeps D D2" by (rule asset.moves_trans)
  obtain r keys where ld: "(case load_session S W of None \<Rightarrow> (None, None) | Some x \<Rightarrow> x) = (r, keys)" by fastforce
  define X where "X = \<lparr>pub_cache = Some [], grp_cache = Some [], restore = r, restore_changed = False, world = W\<rparr>"
  obtain rc3 D3 X3 where c3: "each_entry (decrypt_stored S me token keys) (the ps) D2 X = (rc3, D3, X3)" by (metis prod_cases3)
  obtain rc4 D4 X4 where c4: "each_entry (replace_stored S me token keys) (the ss) D3 X3 = (rc4, D4, X4)" by (metis prod_cases3)
  have k3: "keeps D D3" by (rule asset.moves_trans [OF k asset.each_entry_moves [OF c3]]) (rule one)
  have k4: "keeps D D4" by (rule asset.moves_trans [OF k3 asset.each_entry_moves [OF c4]]) (rule two)
  show ?thesis
    using run c1 c2 ld c3 c4 k k3 k4
    by (auto simp: sync_phase_decrypting_def X_def split: option.splits if_splits prod.splits)
qed

lemma expand_meta_keeps: "expand_meta S expand p D W = (rc, D', W') \<Longrightarrow> keeps D D'"
  by (auto simp: expand_meta_def split: prod.splits dest: sync_sticonshop_meta_keeps)

lemma packages_keep: "store_sticker_packages E ps D = Some (rc, D') \<Longrightarrow> keeps D D'"
proof (induction E ps D rule: store_sticker_packages.induct)
  case (2 E p ps D)
  have one: "keeps D D'" if "f \<in> set (enil_db_sticker_package_upsert E p # concat (map (range_writes E p opt) rs))" and "f D = (rc, D')"
    for f opt rs rc D D'
    using that by (auto simp: range_writes_def Let_def dest: struct_writes_keep(4) item_writes_keep(4))
  have pkg: "keeps D D'" if "store_sticker_package E p opt D = (rc, D')" for opt rc D'
    using that unfolding store_sticker_package_def
    by (rule asset.in_savepoint_moves(1)) (erule asset.while_ok_moves, rule one)
  show ?case
  proof (cases "sticker_option_for_item (dj E) (resource_type_item (dj E) (sk_raw p))")
    case (Some opt)
    obtain rc1 D1 where c: "store_sticker_package E p opt D = (rc1, D1)" by fastforce
    with pkg have k: "keeps D D1" by blast
    show ?thesis
      using "2.prems" "2.IH" [OF Some c [symmetric]] Some c k by (auto split: if_splits intro: asset.moves_trans)
  qed (use "2.prems" in simp)
qed (simp add: asset.moves_refl)

lemma prepare_sticons_keeps: "prepare_sticons S owned pending alts rc D W = (ok, D', W') \<Longrightarrow> keeps D D'"
proof -
  assume run: "prepare_sticons S owned pending alts rc D W = (ok, D', W')"
  have un: "keeps D D'" if "unless_failed rc (each_entry f as) D W = (r, D', W')"
      and "\<And>a D W r D' W'. f a D W = (r, D', W') \<Longrightarrow> keeps D D'" for rc f as D W r D' W'
    using that by (auto simp: unless_failed_def asset.moves_refl split: if_splits elim: asset.each_entry_moves)
  obtain r1 D1 W1 where c1: "unless_failed rc (each_entry (store_sticon_package S) owned) D W = (r1, D1, W1)" by (metis prod_cases3)
  have k1: "keeps D D1"
    by (rule un [OF c1]) (auto simp: store_sticon_package_def split: prod.splits if_splits
        dest!: struct_writes_keep(5) expand_meta_keeps intro: asset.moves_trans)
  obtain rm D2 where c2: "enil_db_sticon_packages_needing_meta (dbe S) D1 = (rm, D2)" by fastforce
  have k2: "keeps D D2"
    by (rule asset.moves_trans [OF k1 asset.query_moves]) (use c2 in \<open>simp add: enil_db_sticon_packages_needing_meta_def\<close>)
  obtain r3 D3 W3 where c3: "unless_failed (if rm = None then SQLITE_ERROR else r1)
      (each_entry (expand_if_remaining S (list_of rm)) pending) D2 W1 = (r3, D3, W3)" by (metis prod_cases3)
  have "keeps D2 D3"
    by (rule un [OF c3]) (auto simp: expand_if_remaining_def asset.moves_refl split: if_splits dest: expand_meta_keeps)
  with k2 have k3: "keeps D D3" by (rule asset.moves_trans)
  obtain r4 D4 W4 where c4: "unless_failed r3 (each_entry (enrich_package S) alts) D3 W3 = (r4, D4, W4)" by (metis prod_cases3)
  have "keeps D3 D4"
    by (rule un [OF c4]) (auto simp: enrich_package_def asset.moves_refl split: if_splits dest: expand_meta_keeps)
  with k3 have "keeps D D4" by (rule asset.moves_trans)
  with run c1 c2 c3 c4 show ?thesis by (simp add: prepare_sticons_def)
qed

lemma preparing_keeps: "sync_phase_preparing S token D W = Some (ok, D', W') \<Longrightarrow> keeps D D'"
proof -
  assume run: "sync_phase_preparing S token D W = Some (ok, D', W')"
  obtain alts D1 where c1: "enil_db_sticon_packages_needing_alt (dbe S) D = (alts, D1)" by fastforce
  obtain pending D2 where c2: "enil_db_sticon_packages_needing_meta (dbe S) D1 = (pending, D2)" by fastforce
  have "keeps D D1" "keeps D1 D2"
    using c1 c2 by (auto simp: enil_db_sticon_packages_needing_alt_def enil_db_sticon_packages_needing_meta_def intro: asset.query_moves)
  then have k2: "keeps D D2" by (rule asset.moves_trans)
  obtain rc1 D3 W3 where run2: "prepare_sticons S (list_of (fst (sticon_package_fetch_all (et (e2 S)) (Some token)
        (snd (sticker_package_fetch_all (et (e2 S)) (Some token) W))))) (list_of pending) (list_of alts) rc1 D3 W3 = (ok, D', W')"
      and c3: "rc1 \<noteq> SQLITE_OK \<and> D3 = D2 \<or> store_sticker_packages (dbe S) (list_of (fst (sticker_package_fetch_all (et (e2 S)) (Some token) W))) D2 = Some (rc1, D3)"
    using run c1 c2
    by (auto simp: sync_phase_preparing_def Let_def case_prod_unfold SQLITE_OK_def SQLITE_ERROR_def split: option.splits if_splits)
  have "keeps D2 D3" using c3 packages_keep by (auto simp: asset.moves_refl)
  with k2 have "keeps D D3" by (rule asset.moves_trans)
  then show ?thesis using prepare_sticons_keeps [OF run2] by (rule asset.moves_trans)
qed

lemma reconcile_keeps: "enil_asset_cache_reconcile S dir W D = (rc, D') \<Longrightarrow> keeps D D'"
proof -
  have one: "keeps D D'" if "reconcile_table S dir W get put D = (rc, D')"
      and put: "\<And>t T. messages (put t T) = messages T \<and> boxes (put t T) = boxes T \<and> readers (put t T) = readers T \<and> db_meta (put t T) = db_meta T"
    for get put rc D D'
  proof -
    obtain ks D1 where c: "query (dbe S) (\<lambda>T. damaged_keys S dir W (get T)) D = (ks, D1)" by fastforce
    then have k: "keeps D D1" by (rule asset.query_moves)
    have fix_row: "keeps D D'" if "exec_stmt (dbe S) (\<lambda>T. let (t, n) = update_where P pending_row (get T) in (put t T, n)) D = (rc, D')"
      for P rc D D'
      using that by (rule other_tables_keep) (simp add: Let_def case_prod_unfold put)
    have "keeps D1 D2" if "while_ok (map (\<lambda>k. exec_stmt (dbe S) (\<lambda>T.
        let (t, n) = update_where (\<lambda>k' r. k' = k) pending_row (get T) in (put t T, n))) keys) D1 = (rc, D2)" for keys rc D2
    proof (rule asset.while_ok_moves [OF that])
      fix f D rc D'
      assume "f \<in> set (map (\<lambda>k. exec_stmt (dbe S) (\<lambda>T.
        let (t, n) = update_where (\<lambda>k' r. k' = k) pending_row (get T) in (put t T, n))) keys)" and f: "f D = (rc, D')"
      then obtain k where "f = exec_stmt (dbe S) (\<lambda>T. let (t, n) = update_where (\<lambda>k' r. k' = k) pending_row (get T) in (put t T, n))"
        by (metis (no_types, lifting) imageE list.set_map)
      with f show "keeps D D'" by (blast intro: fix_row)
    qed
    with that(1) c k show ?thesis
      by (auto simp: reconcile_table_def split: option.splits prod.splits if_splits intro: asset.moves_trans)
  qed
  assume run: "enil_asset_cache_reconcile S dir W D = (rc, D')"
  obtain rc1 D1 where c: "reconcile_table S dir W stickers (\<lambda>t T. T\<lparr>stickers := t\<rparr>) D = (rc1, D1)" by fastforce
  then have k: "keeps D D1" by (rule one) simp
  have "keeps D1 D2" if "reconcile_table S dir W sticons (\<lambda>t T. T\<lparr>sticons := t\<rparr>) D1 = (r, D2)" for r D2
    using that by (rule one) simp
  with run c k show ?thesis
    by (auto simp: enil_asset_cache_reconcile_def split: if_splits intro: asset.moves_trans)
qed

lemma downloading_keeps: "sync_phase_downloading S D W = (errors, D', W') \<Longrightarrow> keeps D D'"
proof -
  have media: "keeps D D'" if "download_media_list S ms n D W = (r, D', W')" for ms n D W r D' W'
    using that
  proof (induction ms arbitrary: n D W)
    case (Cons m ms)
    obtain r1 D1 W1 where c: "download_media_entry S (set_account_dir S) m D W = (r1, D1, W1)" by (metis prod_cases3)
    then have "keeps D D1" by (rule media_entry_keeps)
    with Cons c show ?case by (auto split: if_splits intro: asset.moves_trans)
  qed (simp add: asset.moves_refl)
  have shop: "keeps D D'" if "run_sticker_downloads S a b D W = (r, D', W')" for a b D W r D' W'
  proof -
    obtain items D1 where c: "(if b then enil_db_get_sticons_needing_download (dbe S) (cbool a) D
        else enil_db_get_stickers_needing_download (dbe S) (cbool a) D) = (items, D1)" by fastforce
    then have k: "keeps D D1"
      unfolding enil_db_get_sticons_needing_download_def enil_db_get_stickers_needing_download_def
      by (cases b) (simp_all only: if_True if_False asset.query_moves)
    have "download_sticker_list S items D1 W = (r, D', W')" using that unfolding run_sticker_downloads_def c case_prod_conv .
    then show ?thesis by (rule asset.moves_trans [OF k download_sticker_list_keeps])
  qed
  have shops: "keeps D D'" if "download_shops S xs n D W = (r, D', W')" for xs n D W r D' W'
    using that
  proof (induction xs arbitrary: n D W)
    case (Cons x xs)
    obtain a b where x: "x = (a, b)" by fastforce
    obtain r1 D1 W1 where c: "run_sticker_downloads S a b D W = (r1, D1, W1)" by (metis prod_cases3)
    then have "keeps D D1" by (rule shop)
    with Cons c x show ?case by (auto split: if_splits intro: asset.moves_trans)
  qed (simp add: asset.moves_refl)
  assume run: "sync_phase_downloading S D W = (errors, D', W')"
  obtain m D1 where c1: "enil_db_get_messages_needing_media (dbe S) D = (m, D1)" by fastforce
  obtain a D2 where c2: "enil_db_get_stickers_needing_download (dbe S) 1 D1 = (a, D2)" by fastforce
  obtain b D3 where c3: "enil_db_get_sticons_needing_download (dbe S) 1 D2 = (b, D3)" by fastforce
  obtain c D4 where c4: "enil_db_get_stickers_needing_download (dbe S) 0 D3 = (c, D4)" by fastforce
  obtain d D5 where c5: "enil_db_get_sticons_needing_download (dbe S) 0 D4 = (d, D5)" by fastforce
  obtain r D6 W6 where c6: "download_media_list S (the m) 0 D5 W = (r, D6, W6)" by (metis prod_cases3)
  have q: "keeps D D1" using c1 unfolding enil_db_get_messages_needing_media_def by (rule asset.query_moves)
  have q: "keeps D D2"
    using c2 unfolding enil_db_get_stickers_needing_download_def by (rule asset.moves_trans [OF q asset.query_moves])
  have q: "keeps D D3"
    using c3 unfolding enil_db_get_sticons_needing_download_def by (rule asset.moves_trans [OF q asset.query_moves])
  have q: "keeps D D4"
    using c4 unfolding enil_db_get_stickers_needing_download_def by (rule asset.moves_trans [OF q asset.query_moves])
  have k5: "keeps D D5"
    using c5 unfolding enil_db_get_sticons_needing_download_def by (rule asset.moves_trans [OF q asset.query_moves])
  have k6: "keeps D D6" using k5 media [OF c6] by (rule asset.moves_trans)
  have k7: "keeps D D'" if "download_shops S xs r D6 W6 = (errors, D', W')" for xs
    using k6 shops [OF that] by (rule asset.moves_trans)
  have "(if m = None \<or> a = None \<or> b = None \<or> c = None \<or> d = None then (-1, D5, W)
      else if r < 0 then (-1, D6, W6)
      else download_shops S [(True, False), (True, True), (False, False), (False, True)] r D6 W6) = (errors, D', W')"
    using run unfolding sync_phase_downloading_def Let_def c1 c2 c3 c4 c5 c6 case_prod_conv .
  then show ?thesis using k5 k6 k7 by (metis Pair_inject)
qed

section \<open>The cursor\<close>

definition cursor_of :: "db \<Rightarrow> sval option" where
  "cursor_of D = map_of (db_meta (tbl D)) local_rev_key"

text \<open>Every phase up to the downloads succeeded, with this many attachments unavailable.\<close>

definition phases_succeeded ::
  "('w, 'j) full_env \<Rightarrow> string option \<Rightarrow> string \<Rightarrow> db \<Rightarrow> 'w \<Rightarrow> int \<Rightarrow> db \<Rightarrow> 'w \<Rightarrow> bool" where
  "phases_succeeded F me token D W errors D' W' \<longleftrightarrow>
     (\<exists>bs D1 W1 D2 W2 D3 W3 D4 W4 D5 W5 D6.
        sync_phase_account F token D W = Some (Some bs, D1, W1) \<and>
        sync_phase_messages F token bs D1 W1 = (True, D2, W2) \<and>
        sync_phase_read_range F token (map mb_id bs) D2 W2 = (True, D3, W3) \<and>
        sync_phase_decrypting (sy F) me token D3 W3 = (True, D4, W4) \<and>
        sync_phase_preparing (sy F) token D4 W4 = Some (True, D5, W5) \<and>
        enil_asset_cache_reconcile (sy F) (set_account_dir (sy F)) W5 D5 = (0, D6) \<and>
        sync_phase_downloading (sy F) D6 W5 = (errors, D', W') \<and> 0 \<le> errors)"

text \<open>What the last phase adds: nothing, or the captured revision.\<close>

definition sync_outcome ::
  "('w, 'j) full_env \<Rightarrow> string option \<Rightarrow> string \<Rightarrow> int \<Rightarrow> db \<Rightarrow> 'w \<Rightarrow> int \<Rightarrow> db \<Rightarrow> bool" where
  "sync_outcome F me token local_rev D W r D' \<longleftrightarrow>
     (r = 0 \<and> cursor_of D' = cursor_of D) \<or>
     (\<exists>errors D1 W1. phases_succeeded F me token D W errors D1 W1 \<and> \<not> any_failed F W1 \<and>
        cursor_of D' = Some (SText (show_int local_rev)) \<and> (r = 0 \<or> r = errors + 1))"

lemma extends_cursor: "extends D D' \<Longrightarrow> cursor_of D' = cursor_of D \<and> grows (tbl D) (tbl D') \<and> marks D' = marks D"
  by (simp add: moves_def history_def cursor_of_def)

lemma finish_effect:
  assumes "sync_phase_finish F local_rev snap errors D W = (r, D', W')"
  shows "(r = 0 \<and> cursor_of D' = cursor_of D \<or> \<not> any_failed F W \<and> cursor_of D' = Some (SText (show_int local_rev)) \<and> (r = 0 \<or> r = errors + 1)) \<and>
    grows (tbl D) (tbl D') \<and> marks D' = marks D"
proof -
  obtain rc D1 where c: "enil_db_set_local_rev (fd F) local_rev D = (rc, D1)" by fastforce
  have "grows (tbl D) (tbl D1)" using struct_writes_frame(4) [of D "fd F" local_rev] c by (simp add: same_chats_grows)
  moreover have "marks D1 = marks D" "rc \<noteq> SQLITE_OK \<Longrightarrow> cursor_of D1 = cursor_of D"
      "rc = SQLITE_OK \<Longrightarrow> cursor_of D1 = Some (SText (show_int local_rev))"
    using c by (auto simp: enil_db_set_local_rev_def exec_stmt_def Let_def case_prod_unfold cursor_of_def lookup_insert_replace
        SQLITE_OK_def SQLITE_ERROR_def split: if_splits)
  ultimately show ?thesis
    using assms c by (auto simp: sync_phase_finish_def grow.refl split: if_splits prod.splits)
qed

lemma run_phases:
  assumes run: "(case sync_phase_account F token D W of None \<Rightarrow> None | Some (None, D1, W1) \<Rightarrow> Some (0, D1, W1)
      | Some (Some bs, D1, W1) \<Rightarrow> sync_stored F me token local_rev snap bs D1 W1) = Some (r, D', W')"
    and "marks D = []"
  shows "grows (tbl D) (tbl D') \<and> marks D' = [] \<and> sync_outcome F me token local_rev D W r D'"
proof -
  have stop: ?thesis if "r = 0" "extends D D'"
    using that extends_cursor [OF that(2)] assms(2) by (simp add: sync_outcome_def)
  obtain bs D1 W1 where c1: "sync_phase_account F token D W = Some (bs, D1, W1)"
    using run by (auto split: option.splits)
  have k1: "extends D D1" by (rule account_extends [OF c1 assms(2)])
  show ?thesis
  proof (cases bs)
    case None
    with run c1 k1 stop show ?thesis by auto
  next
    case (Some boxes)
    obtain ok2 D2 W2 where c2: "sync_phase_messages F token boxes D1 W1 = (ok2, D2, W2)" by (metis prod_cases3)
    have k2: "extends D D2" using k1 messages_extend [OF c2 idle [OF k1 assms(2)]] by (rule hist.moves_trans)
    obtain ok3 D3 W3 where c3: "sync_phase_read_range F token (map mb_id boxes) D2 W2 = (ok3, D3, W3)" by (metis prod_cases3)
    have k3: "extends D D3" using k2 read_ranges_extend [OF c3 idle [OF k2 assms(2)]] by (rule hist.moves_trans)
    obtain ok4 D4 W4 where c4: "sync_phase_decrypting (sy F) me token D3 W3 = (ok4, D4, W4)" by (metis prod_cases3)
    have k4: "extends D D4" using k3 keeps_extends [OF decrypting_keeps [OF c4]] by (rule hist.moves_trans)
    have stored: "sync_stored F me token local_rev snap boxes D1 W1 = Some (r, D', W')" using run c1 Some by simp
    show ?thesis
    proof (cases "ok2 \<and> ok3 \<and> ok4")
      case False
      with stored c2 c3 c4 k2 k3 k4 stop show ?thesis by (auto simp: sync_stored_def split: if_splits)
    next
      case True
      then obtain ok5 D5 W5 where c5: "sync_phase_preparing (sy F) token D4 W4 = Some (ok5, D5, W5)"
        using stored c2 c3 c4 by (auto simp: sync_stored_def split: option.splits)
      have k5: "extends D D5" using k4 keeps_extends [OF preparing_keeps [OF c5]] by (rule hist.moves_trans)
      obtain rc6 D6 where c6: "enil_asset_cache_reconcile (sy F) (set_account_dir (sy F)) W5 D5 = (rc6, D6)" by fastforce
      have k6: "extends D D6" using k5 keeps_extends [OF reconcile_keeps [OF c6]] by (rule hist.moves_trans)
      obtain errors D7 W7 where c7: "sync_phase_downloading (sy F) D6 W5 = (errors, D7, W7)" by (metis prod_cases3)
      have k7: "extends D D7" using k6 keeps_extends [OF downloading_keeps [OF c7]] by (rule hist.moves_trans)
      show ?thesis
      proof (cases "ok5 \<and> rc6 = 0 \<and> 0 \<le> errors")
        case False
        with True stored c2 c3 c4 c5 c6 c7 k5 k6 k7 stop show ?thesis
          by (auto simp: sync_stored_def sync_assets_def split: if_splits)
      next
        case good: True
        have last: "sync_phase_finish F local_rev snap errors D7 W7 = (r, D', W')"
          using True good stored c2 c3 c4 c5 c6 c7 by (auto simp: sync_stored_def sync_assets_def)
        have "sync_phase_account F token D W = Some (Some boxes, D1, W1)" using c1 Some by simp
        moreover have "sync_phase_messages F token boxes D1 W1 = (True, D2, W2)" using c2 True by simp
        moreover have "sync_phase_read_range F token (map mb_id boxes) D2 W2 = (True, D3, W3)" using c3 True by simp
        moreover have "sync_phase_decrypting (sy F) me token D3 W3 = (True, D4, W4)" using c4 True by simp
        moreover have "sync_phase_preparing (sy F) token D4 W4 = Some (True, D5, W5)" using c5 good by simp
        moreover have "enil_asset_cache_reconcile (sy F) (set_account_dir (sy F)) W5 D5 = (0, D6)" using c6 good by simp
        ultimately have "phases_succeeded F me token D W errors D7 W7"
          unfolding phases_succeeded_def using c7 good by blast
        with finish_effect [OF last] extends_cursor [OF k7] assms(2) show ?thesis
          using grow.trans [of "tbl D" "tbl D7" "tbl D'"] by (auto simp: sync_outcome_def)
      qed
    qed
  qed
qed

text \<open>C1: The full sync.  Whatever fails in it, stored history only grows and no transaction stays
  open; the cursor of the event stream changes only when every phase succeeded, and then to the
  revision read before the first fetch, so no event between is skipped; a positive result, the number
  of unavailable attachments plus one, implies all that.\<close>

theorem full_sync_cursor:
  assumes "marks D = []" and "enil_sync_all F access_token me D W = Some (r, D', W')"
  shows "grows (tbl D) (tbl D') \<and> marks D' = [] \<and>
    ((r = 0 \<and> cursor_of D' = cursor_of D) \<or>
     (\<exists>token W1 local_rev W2. sync_phase_connecting F access_token W = (Some token, W1) \<and>
        TalkService_getLastOpRevision (ft F) (Some token) W1 = (local_rev, W2) \<and> 0 \<le> local_rev \<and> sync_outcome F me token local_rev D W2 r D'))"
proof -
  obtain tok W1 where c1: "sync_phase_connecting F access_token W = (tok, W1)" by fastforce
  show ?thesis
  proof (cases "tok = None \<or> keep_if (isObject (dj (fd F))) (read_session F W1) = None")
    case True
    with assms c1 show ?thesis by (auto simp: enil_sync_all_def grow.refl split: option.splits)
  next
    case False
    then obtain token snap where tok: "tok = Some token" and snap: "keep_if (isObject (dj (fd F))) (read_session F W1) = Some snap" by auto
    obtain local_rev W2 where c2: "TalkService_getLastOpRevision (ft F) (Some token) W1 = (local_rev, W2)" by fastforce
    show ?thesis
    proof (cases "local_rev < 0")
      case True
      with assms c1 c2 tok snap show ?thesis by (auto simp: enil_sync_all_def grow.refl)
    next
      case False
      have run: "(case sync_phase_account F token D W2 of None \<Rightarrow> None | Some (None, D1, W3) \<Rightarrow> Some (0, D1, W3)
          | Some (Some bs, D1, W3) \<Rightarrow> sync_stored F me token local_rev snap bs D1 W3) = Some (r, D', W')"
        using assms(2) c1 c2 tok snap False by (simp add: enil_sync_all_def)
      have "grows (tbl D) (tbl D') \<and> marks D' = [] \<and> sync_outcome F me token local_rev D W2 r D'"
        using run_phases [OF run assms(1)] .
      with c1 c2 tok False show ?thesis by auto
    qed
  qed
qed

text \<open>A sync of an account without chats against a server at revision 7, which succeeds.\<close>

definition demo_reply_to :: "string \<Rightarrow> json option" where
  "demo_reply_to path =
     map_option (\<lambda>d. JObj [(''message'', JStr ''OK''), (''data'', d)])
       (map_of [(''/api/talk/thrift/Talk/TalkService/getLastOpRevision'', JStr ''7''),
                (''/api/talk/thrift/Talk/TalkService/getProfile'', JObj [(''mid'', JStr ''u1'')]),
                (''/api/talk/thrift/Talk/TalkService/getAllContactIds'', JArr []),
                (''/api/talk/thrift/Talk/TalkService/getAllChatMids'', JObj []),
                (''/api/talk/thrift/Talk/TalkService/getMessageBoxes'', JObj [(''messageBoxes'', JArr []), (''hasNext'', JBool False)])] path)"

definition demo_full_sync :: "(nat, json) sync_env" where
  "demo_full_sync =
     demo_sync\<lparr>e2 := (e2 demo_sync)\<lparr>et := \<lparr>tj = tree demo_reply_to (\<lambda>_. []),
                 line_post = (\<lambda>path body token n. (\<lparr>status = 200, body = Some path\<rparr>, Suc n)), line_language = ''en''\<rparr>\<rparr>,
               dbe := \<lparr>dj = tree demo_reply_to (\<lambda>_. []), fault = (\<lambda>_. SQLITE_OK), newest_first = (\<lambda>xs. xs)\<rparr>\<rparr>"

definition demo_full :: "(nat, json) full_env" where
  "demo_full =
     \<lparr>sy = demo_full_sync, localized = (\<lambda>xs. xs), bind_identity = (\<lambda>n. (True, n)), acquire_obs_token = (\<lambda>_ n. n),
      read_session = (\<lambda>_. Some (JObj [])), complete_partial_syncs = (\<lambda>_ n. (True, n)), any_failed = (\<lambda>_. False)\<rparr>"

declare boxes_loop.simps [code]

lemma demo_full_run: "map_option fst (enil_sync_all demo_full (Some ''t'') (Some ''u1'') demo_empty 0) = Some 1"
  by code_simp

theorem full_sync_cursor_witness:
  "\<exists>D' W' local_rev. enil_sync_all demo_full (Some ''t'') (Some ''u1'') demo_empty 0 = Some (1, D', W') \<and>
     grows (tbl demo_empty) (tbl D') \<and> marks D' = [] \<and> cursor_of D' = Some (SText (show_int local_rev))"
proof -
  obtain D' W' where run: "enil_sync_all demo_full (Some ''t'') (Some ''u1'') demo_empty 0 = Some (1, D', W')"
    using demo_full_run by auto
  have "marks demo_empty = []" by (simp add: demo_empty_def)
  from full_sync_cursor [OF this run] run show ?thesis by (auto simp: sync_outcome_def)
qed

end
