(* ===== verification/ENIL_LoginStore.thy ===== *)
theory ENIL_LoginStore
  imports ENIL_SessionRun
begin

text \<open>
  \<open>source/shared/enil_login_store.c\<close>: the directories of login attempts.  An attempt lives in a pending
  directory beside the accounts; a window stages it, and activation installs it as the account's login.
  Everything is files, so the state is that of the session store.  An operation runs several operations
  of the session store, whose system calls fail independently: \<open>se n\<close> is the environment of the \<open>n\<close>-th.
\<close>

section \<open>Environment\<close>

text \<open>
  \<open>lock_opens\<close> and \<open>lock_taken\<close> are the outcomes of \<open>open\<close> and \<open>flock\<close> on the lock file, \<open>dir_entries\<close>
  what \<open>readdir\<close> lists of the root (\<open>None\<close> when it cannot be opened), \<open>dir_letters\<close> the letters
  \<open>mkdtemp\<close> chooses and \<open>dir_made\<close> that \<open>mkdir\<close> makes the account's directory or finds it.
\<close>

record 'j login_env =
  se :: "nat \<Rightarrow> 'j session_env"
  lock_opens :: bool
  lock_taken :: bool
  dir_entries :: "string list option"
  dir_letters :: "string option"
  dir_made :: bool

abbreviation lj :: "'j login_env \<Rightarrow> 'j cjson" where
  "lj E \<equiv> sj (se E 0)"

section \<open>Names and paths\<close>

definition doc_string :: "'j cjson \<Rightarrow> 'j option \<Rightarrow> string \<Rightarrow> string option" where
  "doc_string J doc key = jstr J (jget J doc key)"

definition safe_name :: "string option \<Rightarrow> bool" where
  "safe_name name =
     (case name of None \<Rightarrow> False | Some n \<Rightarrow> n \<noteq> [] \<and> CHR ''/'' \<notin> set n \<and> n \<noteq> ''.'' \<and> n \<noteq> ''..'')"

definition pending_name :: "string option \<Rightarrow> bool" where
  "pending_name name \<longleftrightarrow>
     safe_name name \<and> (the name = ''.windows-login-probe'' \<or> take 14 (the name) = ''.native-login-'')"

definition join :: "string \<Rightarrow> string \<Rightarrow> string" where
  "join dir name = dir @ ''/'' @ name"

definition parent :: "string \<Rightarrow> string option" where
  "parent path =
     (case split_last (CHR ''/'') path of None \<Rightarrow> None | Some (dir, _) \<Rightarrow> if dir = [] then None else Some dir)"

definition base_name :: "string \<Rightarrow> string option" where
  "base_name path = map_option snd (split_last (CHR ''/'') path)"

definition session_file :: "string \<Rightarrow> string" where
  "session_file dir = join dir ''session.json''"

definition read_session :: "'j session_env \<Rightarrow> 't session_world \<Rightarrow> string \<Rightarrow> 'j option" where
  "read_session E W dir = enil_session_read E W (Some (session_file dir))"

definition write_session :: "'j session_env \<Rightarrow> 't session_world \<Rightarrow> string \<Rightarrow> 'j option \<Rightarrow> 't session_world \<times> bool" where
  "write_session E W dir doc = enil_session_write E W (Some (session_file dir)) doc"

definition retired :: "'j session_env \<Rightarrow> 't session_world \<Rightarrow> string \<Rightarrow> bool" where
  "retired E W dir \<longleftrightarrow> acc_ok E (join dir ''retired.json'') \<and> sfiles W (join dir ''retired.json'') \<noteq> None"

text \<open>The lock file is the one of the login itself, so a running login is not retired.  The code writes with the \<open>n\<close>-th environment.\<close>

definition retire :: "'j login_env \<Rightarrow> nat \<Rightarrow> 't session_world \<Rightarrow> string \<Rightarrow> 't session_world \<times> bool" where
  "retire E n W dir =
     (let lock = join dir ''session.lock'';
          W1 = (if lock_opens E \<and> sfiles W lock = None then put_file lock [] W else W)
      in if \<not> lock_opens E \<or> \<not> lock_taken E then (W1, False)
         else enil_session_write (se E n) W1 (Some (join dir ''retired.json''))
                (Some (addItem (lj E) (mkObject (lj E)) ''retired'' (mkBool (lj E) True))))"

section \<open>Preparing\<close>

definition enil_login_store_prepare ::
  "'j login_env \<Rightarrow> 't session_world \<Rightarrow> string \<Rightarrow> string option \<Rightarrow> string option \<Rightarrow> 't session_world \<times> bool" where
  "enil_login_store_prepare E W staging_dir profile expected_mid =
     (let J = lj E; path = session_file staging_dir
      in case parent staging_dir of
           None \<Rightarrow> (W, False)
         | Some home \<Rightarrow>
             (case expected_mid of
                None \<Rightarrow> enil_session_prepare_login (se E 0) W (Some path) profile None
              | Some expected \<Rightarrow>
                  if \<not> safe_name expected_mid then (W, False)
                  else
                    (let source = session_file (join home expected)
                     in case enil_session_login_id (se E 0) W (Some source) of
                          (W1, None) \<Rightarrow> (W1, False)
                        | (W1, Some login_id) \<Rightarrow>
                            (case enil_session_prepare_login (se E 1) W1 (Some path) profile (Some source) of
                               (W2, False) \<Rightarrow> (W2, False)
                             | (W2, True) \<Rightarrow>
                                 enil_session_patch (se E 2) W2 (Some path)
                                   (Some (addItem J (addItem J (mkObject J) ''reauthMid'' (mkString J expected))
                                      ''reauthLoginId'' (mkString J login_id)))))))"

section \<open>Recovering an attempt\<close>

text \<open>
  Whether a pending attempt \<open>prior\<close>, in the directory \<open>name\<close>, serves the window that staged \<open>staged\<close>: the same
  client identity and the same account to log in again, not yet consumed, and with something to recover.
\<close>

definition same_target :: "'j cjson \<Rightarrow> 'j option \<Rightarrow> 'j option \<Rightarrow> bool" where
  "same_target J staged prior \<longleftrightarrow>
     (let expected = doc_string J staged ''reauthMid'';
          generation = doc_string J staged ''reauthLoginId''
      in expected = doc_string J prior ''reauthMid'' \<and>
         (expected \<noteq> None \<longrightarrow> generation \<noteq> None \<and> generation = doc_string J prior ''reauthLoginId''))"

text \<open>The tests against the account's active login.\<close>

definition still_unused ::
  "'j cjson \<Rightarrow> 'j option \<Rightarrow> 'j option \<Rightarrow> string option \<Rightarrow> string \<Rightarrow> string \<Rightarrow> bool" where
  "still_unused J active prior expected account name =
     (let source = doc_string J active ''nativeLoginSource'';
          generation = doc_string J active ''loginId'';
          prior_id = doc_string J prior ''loginId''
      in if (expected = None \<and> active \<noteq> None) \<or> source = Some name \<or>
            (generation \<noteq> None \<and> generation = prior_id) then False
         else if expected = Some account \<and> active \<noteq> None
         then generation \<noteq> None \<and> generation = doc_string J prior ''reauthLoginId''
         else True)"

definition matches ::
  "'j session_env \<Rightarrow> 't session_world \<Rightarrow> 'j option \<Rightarrow> 'j option \<Rightarrow> string \<Rightarrow> string \<Rightarrow> bool" where
  "matches E W staged prior home name =
     (let J = sj E
      in if \<not> jis (isObject J) prior then False
         else case enil_identity_parse J (jgeti J staged ''clientIdentity'') of
           (wanted_ok, wanted) \<Rightarrow>
             (case enil_identity_parse J (jgeti J prior ''clientIdentity'') of
                (saved_ok, saved) \<Rightarrow>
                  if \<not> wanted_ok \<or> \<not> saved_ok \<or> wanted \<noteq> saved then False
                  else if \<not> same_target J staged prior then False
                  else
                    (case doc_string J prior ''mid'' of
                       None \<Rightarrow> True
                     | Some account \<Rightarrow>
                         safe_name (Some account) \<and>
                         still_unused J (read_session E W (join home account)) prior (doc_string J staged ''reauthMid'') account name) \<and>
                    (doc_string J prior ''accessToken'' \<noteq> None \<or>
                     jis (isTrue J) (jgeti J prior ''nativeTokenRequestStarted''))))"

text \<open>The directory whose attempt is resumed, and the directory found among the others.\<close>

definition resumed :: "'j login_env \<Rightarrow> 't session_world \<Rightarrow> string \<Rightarrow> 'j option \<Rightarrow> string option" where
  "resumed E W home staged =
     (let source = doc_string (lj E) staged ''nativeLoginSource''
      in if pending_name source \<and> \<not> retired (se E 0) W (join home (the source)) then Some (join home (the source)) else None)"

definition recovered :: "'j login_env \<Rightarrow> 't session_world \<Rightarrow> string \<Rightarrow> 'j option \<Rightarrow> string list \<Rightarrow> string option" where
  "recovered E W home staged names =
     (if jis (isTrue (lj E)) (jgeti (lj E) staged ''nativeLoginFresh'') then None
      else map_option (join home)
        (find (\<lambda>n. pending_name (Some n) \<and> \<not> retired (se E 0) W (join home n) \<and>
                matches (se E 0) W staged (read_session (se E 0) W (join home n)) home n) names))"

definition fresh_attempt :: "'j login_env \<Rightarrow> 't session_world \<Rightarrow> string \<Rightarrow> 'j option \<Rightarrow> 't session_world \<times> string option" where
  "fresh_attempt E W home staged =
     (case dir_letters E of
        None \<Rightarrow> (W, None)
      | Some letters \<Rightarrow>
          (let dir = join home (''.native-login-'' @ letters)
           in case write_session (se E 0) W dir staged of (W1, ok) \<Rightarrow> (W1, if ok then Some dir else None)))"

text \<open>The window remembers its attempt, so the next run resumes it.\<close>

definition remember_source :: "'j login_env \<Rightarrow> 't session_world \<Rightarrow> string \<Rightarrow> string \<Rightarrow> 't session_world \<times> string option" where
  "remember_source E W staging_dir dir =
     (case enil_session_patch (se E 1) W (Some (session_file staging_dir))
             (map_option (\<lambda>n. addItem (lj E) (mkObject (lj E)) ''nativeLoginSource'' (mkString (lj E) n)) (base_name dir)) of
        (W1, ok) \<Rightarrow> (W1, if ok then Some dir else None))"

definition enil_login_store_select :: "'j login_env \<Rightarrow> 't session_world \<Rightarrow> string \<Rightarrow> 't session_world \<times> string option" where
  "enil_login_store_select E W staging_dir =
     (let staged = read_session (se E 0) W staging_dir
      in case parent staging_dir of
           None \<Rightarrow> (W, None)
         | Some home \<Rightarrow>
             if \<not> jis (isObject (lj E)) staged then (W, None)
             else
               (case dir_entries E of
                  None \<Rightarrow> (W, resumed E W home staged)
                | Some names \<Rightarrow>
                    (case (case resumed E W home staged of None \<Rightarrow> recovered E W home staged names | Some d \<Rightarrow> Some d) of
                       Some dir \<Rightarrow> remember_source E W staging_dir dir
                     | None \<Rightarrow>
                         (case fresh_attempt E W home staged of
                            (W1, None) \<Rightarrow> (W1, None)
                          | (W1, Some dir) \<Rightarrow> remember_source E W1 staging_dir dir))))"

section \<open>Staging, restarting, activating\<close>

definition staged_doc :: "'j cjson \<Rightarrow> string \<Rightarrow> 'j \<Rightarrow> 'j" where
  "staged_doc J name r = addItem J (deleteCS J r ''nativeLoginSource'') ''nativeLoginSource'' (mkString J name)"

text \<open>\<open>None\<close>: the pending directory has no slash in its name, and the code would read past a null pointer.\<close>

definition enil_login_store_stage ::
  "'j login_env \<Rightarrow> 't session_world \<Rightarrow> string \<Rightarrow> string \<Rightarrow> ('t session_world \<times> bool) option" where
  "enil_login_store_stage E W staging_dir pending_dir =
     (let J = lj E
      in case enil_session_login_id (se E 0) W (Some (session_file pending_dir)) of
           (W1, i) \<Rightarrow>
             (let ready = read_session (se E 0) W1 pending_dir
              in if i = None \<or> retired (se E 0) W1 pending_dir \<or> doc_string J ready ''accessToken'' = None \<or>
                    doc_string J ready ''mid'' = None then Some (W1, False)
                 else
                   (case base_name pending_dir of
                      None \<Rightarrow> None
                    | Some name \<Rightarrow>
                        Some (write_session (se E 1) W1 staging_dir (map_option (staged_doc J name) ready)))))"

definition enil_login_store_can_restart :: "'j login_env \<Rightarrow> 't session_world \<Rightarrow> string \<Rightarrow> bool" where
  "enil_login_store_can_restart E W staging_dir =
     pending_name (doc_string (lj E) (read_session (se E 0) W staging_dir) ''nativeLoginSource'')"

definition kept_fields :: "string list" where
  "kept_fields = [''clientIdentity'', ''reauthMid'', ''reauthLoginId'', ''certificate'']"

definition restarted_doc :: "'j cjson \<Rightarrow> 'j option \<Rightarrow> 'j" where
  "restarted_doc J staged =
     addItem J
       (foldl (\<lambda>doc k. case jget J staged k of None \<Rightarrow> doc | Some v \<Rightarrow> addItem J doc k v) (mkObject J) kept_fields)
       ''nativeLoginFresh'' (mkBool J True)"

definition enil_login_store_restart :: "'j login_env \<Rightarrow> 't session_world \<Rightarrow> string \<Rightarrow> 't session_world \<times> bool" where
  "enil_login_store_restart E W staging_dir =
     (let J = lj E; staged = read_session (se E 0) W staging_dir; source = doc_string J staged ''nativeLoginSource''
      in case parent staging_dir of
           None \<Rightarrow> (W, False)
         | Some home \<Rightarrow>
             if \<not> pending_name source then (W, False)
             else
               (case retire E 0 W (join home (the source)) of
                  (W1, False) \<Rightarrow> (W1, False)
                | (W1, True) \<Rightarrow>
                    (case write_session (se E 1) W1 staging_dir (Some (restarted_doc J staged)) of
                       (W2, False) \<Rightarrow> (W2, False)
                     | (W2, True) \<Rightarrow>
                         (case enil_session_login_id (se E 2) W2 (Some (session_file staging_dir)) of
                            (W3, i) \<Rightarrow> (W3, i \<noteq> None)))))"

definition enil_login_store_activate ::
  "'j login_env \<Rightarrow> 't session_world \<Rightarrow> string \<Rightarrow> string \<Rightarrow> 't session_world \<times> bool" where
  "enil_login_store_activate E W staging_dir account_dir =
     (let J = lj E; staged = read_session (se E 0) W staging_dir;
          owner = doc_string J staged ''mid''; source = doc_string J staged ''nativeLoginSource''
      in case parent account_dir of
           None \<Rightarrow> (W, False)
         | Some home \<Rightarrow>
             if \<not> safe_name owner \<or> base_name account_dir \<noteq> owner \<or> doc_string J staged ''accessToken'' = None then (W, False)
             else if \<not> dir_made E then (W, False)
             else
               (case enil_session_activate (se E 0) W (Some (session_file account_dir)) staged of
                  (W1, False) \<Rightarrow> (W1, False)
                | (W1, True) \<Rightarrow>
                    (if pending_name source then fst (retire E 1 W1 (join home (the source))) else W1, True)))"

end
