(* ===== verification/ENIL_NativeLogin.thy ===== *)
theory ENIL_NativeLogin
  imports ENIL_LoginStore ENIL_Transport
begin

text \<open>
  \<open>source/shared/enil_native_login.c\<close>: the QR login of the native clients.  A login runs in the directory of
  one attempt; its state document is saved before and after every request, so that a run that stops can be
  taken up by the next.  The state below is the struct \<open>NativeLogin\<close>, the files, the network and what the
  user was shown.  \<open>nl_asked\<close> and \<open>nl_writes\<close> are not in the program: the methods of the requests sent so
  far, and the number of operations of the session store, whose \<open>n\<close>-th meets the system calls \<open>nl_se n\<close>.
\<close>

section \<open>State and environment\<close>

datatype login_event = Status string | Qr_url string | Pin string

record ('t, 'h, 'j) native_login =
  nl_files :: "'t session_world"
  nl_net :: "('t, 'h) net"
  nl_state :: 'j
  nl_error_code :: int
  nl_http_status :: int
  nl_curl_code :: curl_code
  nl_failed :: bool
  nl_request_error :: string
  nl_shown :: "login_event list"
  nl_asked :: "string list"
  nl_writes :: nat

text \<open>
  \<open>nl_cancel\<close> is the cancel flag, \<open>nl_time\<close> the clock and \<open>nl_escape\<close> is \<open>curl_easy_escape\<close>.  The other fields
  say which callbacks are set and how \<open>mkdir\<close>, \<open>chmod\<close>, \<open>open\<close> and \<open>flock\<close> end.
\<close>

record ('t, 'h, 'j) native_login_env =
  nl_ne :: "'j net_env"
  nl_thrift :: "'j thrift"
  nl_se :: "nat \<Rightarrow> 'j session_env"
  nl_thread :: 't
  nl_cancel :: "('t, 'h, 'j) native_login \<Rightarrow> bool"
  nl_time :: "('t, 'h, 'j) native_login \<Rightarrow> int"
  nl_escape :: "string \<Rightarrow> string option"
  nl_on_status :: bool
  nl_on_qr_url :: bool
  nl_on_pin :: bool
  nl_mkdir :: bool
  nl_chmod :: bool
  nl_lock_opens :: bool
  nl_lock_taken :: bool

abbreviation nj :: "('t, 'h, 'j) native_login_env \<Rightarrow> 'j cjson" where
  "nj E \<equiv> njson (nl_ne E)"

definition MAX_WIRE :: nat where "MAX_WIRE = 2097152"

definition LOGIN_URL :: string where "LOGIN_URL = ''https://legy.line-apps.com/acct/lgn/sq/v1''"
definition POLL_URL :: string where "POLL_URL = ''https://legy.line-apps.com/acct/lp/lgn/sq/v1''"

definition curl_number :: "curl_code \<Rightarrow> int" where
  "curl_number c = (case c of CURLE_OK \<Rightarrow> 0 | CURLE_OPERATION_TIMEDOUT \<Rightarrow> 28 | CURLE_ABORTED_BY_CALLBACK \<Rightarrow> 42 | CURLE_OTHER n \<Rightarrow> int n)"

section \<open>The state document\<close>

definition set_item :: "'j cjson \<Rightarrow> string \<Rightarrow> 'j option \<Rightarrow> 'j \<Rightarrow> 'j" where
  "set_item J key owned doc = (case owned of None \<Rightarrow> deleteCS J doc key | Some v \<Rightarrow> addItem J (deleteCS J doc key) key v)"

definition copy_field :: "'j cjson \<Rightarrow> string \<Rightarrow> 'j option \<Rightarrow> string \<Rightarrow> 'j \<Rightarrow> 'j" where
  "copy_field J name source key doc =
     (case jget J source key of None \<Rightarrow> doc | Some v \<Rightarrow> set_item J name (Some v) doc)"

definition put_state ::
  "('t, 'h, 'j) native_login_env \<Rightarrow> string \<Rightarrow> 'j option \<Rightarrow> ('t, 'h, 'j) native_login \<Rightarrow> ('t, 'h, 'j) native_login" where
  "put_state E key v S = S\<lparr>nl_state := set_item (nj E) key v (nl_state S)\<rparr>"

definition copy_state ::
  "('t, 'h, 'j) native_login_env \<Rightarrow> string \<Rightarrow> 'j option \<Rightarrow> string \<Rightarrow> ('t, 'h, 'j) native_login \<Rightarrow> ('t, 'h, 'j) native_login" where
  "copy_state E name source key S = S\<lparr>nl_state := copy_field (nj E) name source key (nl_state S)\<rparr>"

abbreviation state_str :: "('t, 'h, 'j) native_login_env \<Rightarrow> ('t, 'h, 'j) native_login \<Rightarrow> string \<Rightarrow> string option" where
  "state_str E S key \<equiv> doc_string (nj E) (Some (nl_state S)) key"

abbreviation state_true :: "('t, 'h, 'j) native_login_env \<Rightarrow> ('t, 'h, 'j) native_login \<Rightarrow> string \<Rightarrow> bool" where
  "state_true E S key \<equiv> jis (isTrue (nj E)) (getItemCS (nj E) (nl_state S) key)"

section \<open>Telling the user\<close>

definition login_status ::
  "('t, 'h, 'j) native_login_env \<Rightarrow> string \<Rightarrow> ('t, 'h, 'j) native_login \<Rightarrow> ('t, 'h, 'j) native_login" where
  "login_status E message S = (if nl_on_status E then S\<lparr>nl_shown := nl_shown S @ [Status message]\<rparr> else S)"

definition login_fail ::
  "('t, 'h, 'j) native_login_env \<Rightarrow> string \<Rightarrow> ('t, 'h, 'j) native_login \<Rightarrow> bool \<times> ('t, 'h, 'j) native_login" where
  "login_fail E message S = (False, login_status E message (S\<lparr>nl_failed := True\<rparr>))"

section \<open>Saving\<close>

text \<open>An operation of the session store, with its own system calls.\<close>

definition with_store ::
  "('t, 'h, 'j) native_login_env \<Rightarrow> ('j session_env \<Rightarrow> 't session_world \<Rightarrow> 't session_world \<times> 'a) \<Rightarrow>
   ('t, 'h, 'j) native_login \<Rightarrow> 'a \<times> ('t, 'h, 'j) native_login" where
  "with_store E op S =
     (case op (nl_se E (nl_writes S)) (nl_files S) of (W, x) \<Rightarrow> (x, S\<lparr>nl_files := W, nl_writes := nl_writes S + 1\<rparr>))"

definition login_save ::
  "('t, 'h, 'j) native_login_env \<Rightarrow> string \<Rightarrow> ('t, 'h, 'j) native_login \<Rightarrow> bool \<times> ('t, 'h, 'j) native_login" where
  "login_save E path S =
     (case with_store E (\<lambda>e W. enil_session_write e W (Some path) (Some (nl_state S))) S of
        (False, S1) \<Rightarrow> login_fail E ''Could not save login session'' S1
      | (True, S1) \<Rightarrow> (True, S1))"

section \<open>Requests\<close>

definition login_append :: "(nat \<Rightarrow> bool) \<Rightarrow> string \<Rightarrow> string \<Rightarrow> string option" where
  "login_append realloc buf chunk =
     (if MAX_WIRE < length chunk \<or> MAX_WIRE - length chunk < length buf then None
      else if \<not> realloc (length buf + length chunk + 1) then None else Some (buf @ chunk))"

definition receive :: "(nat \<Rightarrow> bool) \<Rightarrow> string \<Rightarrow> string \<Rightarrow> string \<times> nat" where
  "receive realloc buf chunk =
     (case login_append realloc buf chunk of None \<Rightarrow> (buf, 0) | Some b \<Rightarrow> (b, length chunk))"

text \<open>The arguments of a method; \<open>None\<close> when the state lacks something it needs.\<close>

definition login_request :: "'j cjson \<Rightarrow> string \<Rightarrow> 'j \<Rightarrow> 'j option" where
  "login_request J method doc =
     (if method = ''createSession'' then Some (mkArray J)
      else
        (case doc_string J (Some doc) ''authSessionId'' of
           None \<Rightarrow> None
         | Some sid \<Rightarrow>
             (let request = addItem J (mkObject J) ''authSessionId'' (mkString J sid)
              in if method = ''verifyCertificate'' then
                   Some (addElem J (mkArray J) (addItem J request ''certificate''
                     (mkString J (case doc_string J (Some doc) ''certificate'' of None \<Rightarrow> [] | Some c \<Rightarrow> c))))
                 else if method = ''qrCodeLoginV2ForSecure'' then
                   (case (doc_string J (Some doc) ''nativeQrNonce'', enil_identity_parse J (getItem J doc ''clientIdentity'')) of
                      (Some nonce, (True, i)) \<Rightarrow>
                        Some (addElem J (mkArray J)
                          (addItem J (addItem J (addItem J (addItem J request ''systemName'' (mkString J (system_name i)))
                             ''modelName'' (mkString J (model_name i))) ''autoLoginIsRequired'' (mkBool J (auto_login_required i)))
                             ''qrNonce'' (mkString J nonce)))
                    | _ \<Rightarrow> None)
                 else Some (addElem J (mkArray J) request))))"

definition login_encode :: "('t, 'h, 'j) native_login_env \<Rightarrow> string \<Rightarrow> 'j \<Rightarrow> byte list option" where
  "login_encode E method doc =
     (case login_request (nj E) method doc of None \<Rightarrow> None | Some args \<Rightarrow> enil_thrift_encode (nl_thrift E) method args [])"

text \<open>The reply, and whether it is an exception.\<close>

definition login_decode :: "('t, 'h, 'j) native_login_env \<Rightarrow> string \<Rightarrow> byte list option \<Rightarrow> 'j option \<times> bool" where
  "login_decode E method wire_bytes = enil_thrift_decode_raw (nl_thrift E) method wire_bytes True"

definition bad_session_id :: "string option \<Rightarrow> bool" where
  "bad_session_id sid =
     (case sid of None \<Rightarrow> True | Some s \<Rightarrow> 450 < length s \<or> CHR 0x0D \<in> set s \<or> CHR 0x0A \<in> set s)"

definition login_handle ::
  "string list \<Rightarrow> enil_identity_t \<Rightarrow> byte list \<Rightarrow> (string \<times> int) option \<Rightarrow> curl_handle \<Rightarrow> curl_handle" where
  "login_handle languages i request polling c =
     c\<lparr>opt_url := (if polling = None then LOGIN_URL else POLL_URL), opt_user_agent := Some (user_agent i),
       opt_headers := [''Content-Type: application/x-thrift'', ''Accept: application/x-thrift'', ''X-LPV: 1'', ''X-LHM: POST''] @
         languages @ [take 191 (''X-Line-Application: '' @ application i)] @
         (case polling of None \<Rightarrow> []
          | Some (sid, interval) \<Rightarrow> [take 511 (''X-Line-Access: '' @ sid), take 63 (''X-LST: '' @ show_int (interval * 1000))]),
       opt_post := Some (string_of request), opt_nosignal := True, opt_connect_timeout := 15,
       opt_timeout_ms := (case polling of None \<Rightarrow> 30000 | Some (sid, interval) \<Rightarrow> nat (1000 * (interval + 10))),
       opt_cancellable := True\<rparr>"

text \<open>The end of a request, after the label \<open>done\<close>: a request that failed without a word is reported.\<close>

definition call_done ::
  "('t, 'h, 'j) native_login_env \<Rightarrow> string \<Rightarrow> 'j option \<Rightarrow> ('t, 'h, 'j) native_login \<Rightarrow> 'j option \<times> ('t, 'h, 'j) native_login" where
  "call_done E method result S =
     (if result = None \<and> \<not> nl_failed S \<and> \<not> nl_cancel E S \<and> nl_error_code S < 0 then
        (let message = take 127 (''Login: '' @ method @ '' HTTP '' @ show_int (nl_http_status S) @ '', transport '' @
               show_int (curl_number (nl_curl_code S)))
         in (result, login_status E message (S\<lparr>nl_request_error := message\<rparr>)))
      else (result, S))"

text \<open>Judging a saved reply.\<close>

definition judge_reply ::
  "('t, 'h, 'j) native_login_env \<Rightarrow> string \<Rightarrow> string \<Rightarrow> bool \<Rightarrow> byte list option \<Rightarrow> ('t, 'h, 'j) native_login \<Rightarrow>
   'j option \<times> ('t, 'h, 'j) native_login" where
  "judge_reply E path method polling reply S =
     (let J = nj E
      in case login_decode E method reply of
           (None, _) \<Rightarrow> (None, snd (login_fail E ''Invalid login response; reply saved'' S))
         | (Some doc, exception) \<Rightarrow>
             (case login_save E path (put_state E ''lastNativeResponse'' (Some doc) S) of
                (False, S1) \<Rightarrow> (None, S1)
              | (True, S1) \<Rightarrow>
                  (case (if exception then Some doc else getItemCS J doc ''1'') of
                     Some error \<Rightarrow>
                       (let code = getItemCS J error (if exception then ''2'' else ''1'');
                            n = (if \<not> exception \<and> jis (isNumber J) code then json_int (nl_thrift E) code else - 1);
                            message = take 127 (''Login: '' @ method @ '' error '' @ show_int n)
                        in (None, login_status E message (S1\<lparr>nl_error_code := n, nl_request_error := message\<rparr>)))
                   | None \<Rightarrow>
                       (case getItemCS J doc ''0'' of
                          Some result \<Rightarrow> (Some result, S1)
                        | None \<Rightarrow> (if polling \<or> method = ''verifyCertificate'' then Some (mkObject J) else None, S1)))))"

text \<open>The transfer, and the raw reply saved before anything is made of it.\<close>

definition exchange ::
  "('t, 'h, 'j) native_login_env \<Rightarrow> string \<Rightarrow> string \<Rightarrow> bool \<Rightarrow> curl_handle \<Rightarrow> ('t, 'h, 'j) native_login \<Rightarrow>
   'j option \<times> ('t, 'h, 'j) native_login" where
  "exchange E path method polling c S =
     (let J = nj E
      in case transfer (nl_ne E) c (nl_net S) of
           (r, N) \<Rightarrow>
             (let S1 = S\<lparr>nl_net := N, nl_asked := nl_asked S @ [method], nl_curl_code := rc r, nl_http_status := http_status r\<rparr>;
                  reply = map_option bytes_of (buffered r);
                  raw = enil_b64_encode (evp_encode (nl_thrift E)) (case reply of None \<Rightarrow> [] | Some bs \<Rightarrow> bs);
                  S2 = put_state E ''lastNativeResponseBase64'' (Some (mkString J raw))
                         (put_state E ''lastNativeHttpStatus'' (Some (mkNumber J (of_int (http_status r))))
                           (put_state E ''lastNativeMethod'' (Some (mkString J method)) S1))
              in case login_save E path S2 of
                   (False, S3) \<Rightarrow> (None, S3)
                 | (True, S3) \<Rightarrow>
                     if rc r \<noteq> CURLE_OK \<or> http_status r \<noteq> 200 then (None, S3) else judge_reply E path method polling reply S3))"

definition login_call ::
  "('t, 'h, 'j) native_login_env \<Rightarrow> string \<Rightarrow> string \<Rightarrow> int option \<Rightarrow> ('t, 'h, 'j) native_login \<Rightarrow>
   'j option \<times> ('t, 'h, 'j) native_login" where
  "login_call E path method polling S =
     (let S0 = S\<lparr>nl_error_code := - 1, nl_http_status := 0, nl_curl_code := CURLE_OK, nl_request_error := []\<rparr>;
          sid = state_str E S0 ''authSessionId'';
          outcome =
            (if nl_cancel E S0 then (None, S0)
             else case (login_encode E method (nl_state S0), enil_identity_parse (nj E) (getItemCS (nj E) (nl_state S0) ''clientIdentity'')) of
               (Some request, (True, i)) \<Rightarrow>
                 (case enil_curl_new_raw (s_cainfo (nl_ne E)) (curl_init (nl_ne E) (wire (nl_net S0))) of
                    None \<Rightarrow> (None, S0)
                  | Some c \<Rightarrow>
                      if polling \<noteq> None \<and> bad_session_id sid then (None, S0)
                      else exchange E path method (polling \<noteq> None)
                             (login_handle (language_headers (nl_ne E)) i request (map_option (\<lambda>n. (the sid, n)) polling) c) S0)
             | _ \<Rightarrow> (None, S0))
      in case outcome of (result, S1) \<Rightarrow> call_done E method result S1)"

text \<open>The waiting between two rounds only lets time pass.\<close>

fun poll_rounds ::
  "('t, 'h, 'j) native_login_env \<Rightarrow> string \<Rightarrow> string \<Rightarrow> int \<Rightarrow> int \<Rightarrow> nat list \<Rightarrow> ('t, 'h, 'j) native_login \<Rightarrow>
   bool \<times> ('t, 'h, 'j) native_login" where
  "poll_rounds E path method count interval [] S = (False, S)"
| "poll_rounds E path method count interval (i # is) S =
     (if nl_cancel E S then (False, S)
      else
        (let S1 = (if method = ''checkQrCodeVerified''
               then login_status E (take 99 (''waiting for scan ('' @ show_int (int i + 1) @ ''/'' @ show_int count @ '')'')) S else S)
         in case login_call E path method (Some interval) S1 of
              (Some _, S2) \<Rightarrow> (True, S2)
            | (None, S2) \<Rightarrow>
                if nl_failed S2 \<or> (nl_curl_code S2 \<noteq> CURLE_OPERATION_TIMEDOUT \<and> nl_http_status S2 \<noteq> 408) then (False, S2)
                else poll_rounds E path method count interval is S2))"

definition login_poll ::
  "('t, 'h, 'j) native_login_env \<Rightarrow> string \<Rightarrow> string \<Rightarrow> int \<Rightarrow> int \<Rightarrow> ('t, 'h, 'j) native_login \<Rightarrow> bool \<times> ('t, 'h, 'j) native_login" where
  "login_poll E path method count interval S = poll_rounds E path method count interval [0..<nat count] S"

section \<open>The login's result\<close>

definition result_fields :: "'j cjson \<Rightarrow> 'j \<Rightarrow> 'j \<Rightarrow> 'j" where
  "result_fields J result doc =
     (let tokens = getItemCS J result ''3''; meta = getItemCS J result ''10'';
          doc = set_item J ''nativeLoginResult'' (Some result) doc;
          doc = copy_field J ''accessToken'' tokens ''1'' doc;
          doc = copy_field J ''refreshToken'' tokens ''2'' doc;
          doc = copy_field J ''durationUntilRefreshInSec'' tokens ''3'' doc;
          doc = copy_field J ''tokenIssueTimeEpochSec'' tokens ''6'' doc;
          doc = copy_field J ''certificate'' (Some result) ''1'' doc;
          doc = copy_field J ''mid'' (Some result) ''4'' doc;
          doc = copy_field J ''e2eeLoginMetaData'' (Some result) ''10'' doc;
          doc = copy_field J ''e2eeLoginPublicKey'' meta ''publicKey'' doc;
          doc = copy_field J ''e2eeVersion'' meta ''e2eeVersion'' doc
      in copy_field J ''e2eeHashKeyChain'' meta ''hashKeyChain'' doc)"

definition save_login_result ::
  "('t, 'h, 'j) native_login_env \<Rightarrow> string \<Rightarrow> 'j \<Rightarrow> ('t, 'h, 'j) native_login \<Rightarrow> bool \<times> ('t, 'h, 'j) native_login" where
  "save_login_result E path result S =
     (case login_save E path (S\<lparr>nl_state := result_fields (nj E) result (nl_state S)\<rparr>) of
        (False, S1) \<Rightarrow> (False, S1)
      | (True, S1) \<Rightarrow>
          if doc_string (nj E) (Some result) ''1'' = None then (True, S1)
          else (case with_store E (\<lambda>e W. enil_session_save_login_certificate e W (Some path) (Some (nl_state S1))) S1 of
                  (_, S2) \<Rightarrow> (True, S2)))"

text \<open>A reply that was saved but not yet mapped into fields; no request is made.\<close>

definition recover_login_reply ::
  "('t, 'h, 'j) native_login_env \<Rightarrow> string \<Rightarrow> ('t, 'h, 'j) native_login \<Rightarrow> bool \<times> ('t, 'h, 'j) native_login" where
  "recover_login_reply E path S =
     (if state_str E S ''lastNativeMethod'' \<noteq> Some ''qrCodeLoginV2ForSecure'' then (False, S)
      else
        (case state_str E S ''lastNativeResponseBase64'' of
           None \<Rightarrow> (False, S)
         | Some base64 \<Rightarrow>
             (case enil_b64_decode_alloc (evp_decode (nl_thrift E)) (Some base64) of
                None \<Rightarrow> (False, S)
              | Some bs \<Rightarrow>
                  if bs = [] then (False, S)
                  else
                    (let J = nj E
                     in case login_decode E ''qrCodeLoginV2ForSecure'' (Some bs) of
                          (reply, exception) \<Rightarrow>
                            (case jget J reply ''0'' of
                               Some result \<Rightarrow>
                                 if \<not> exception \<and> doc_string J (getItemCS J result ''3'') ''1'' \<noteq> None
                                 then save_login_result E path result S else (False, S)
                             | None \<Rightarrow> (False, S))))))"

section \<open>The steps of a login\<close>

text \<open>Steps in order; the first that fails ends the login (\<open>goto done\<close>).\<close>

fun login_steps :: "('s \<Rightarrow> bool \<times> 's) list \<Rightarrow> 's \<Rightarrow> bool \<times> 's" where
  "login_steps [] S = (True, S)"
| "login_steps (f # fs) S = (case f S of (False, S1) \<Rightarrow> (False, S1) | (True, S1) \<Rightarrow> login_steps fs S1)"

definition start_document ::
  "('t, 'h, 'j) native_login_env \<Rightarrow> string \<Rightarrow> ('t, 'h, 'j) native_login \<Rightarrow> bool \<times> ('t, 'h, 'j) native_login" where
  "start_document E path S =
     (let J = nj E; S1 = put_state E ''nativeTransport'' (Some (mkString J ''compact-thrift'')) S
      in if getItemCS J (nl_state S1) ''clientIdentity'' \<noteq> None then login_save E path S1
         else
           (case Option.bind (enil_identity_default (Some ''desktopwin'')) (\<lambda>i. enil_identity_to_json J (Some i)) of
              None \<Rightarrow> (False, S1)
            | Some identity \<Rightarrow>
                login_save E path (put_state E ''clientIdentity''
                  (Some (set_item J ''transport'' (Some (mkString J ''native-thrift'')) identity)) S1)))"

definition take_login_id ::
  "('t, 'h, 'j) native_login_env \<Rightarrow> string \<Rightarrow> ('t, 'h, 'j) native_login \<Rightarrow> bool \<times> ('t, 'h, 'j) native_login" where
  "take_login_id E path S =
     (case with_store E (\<lambda>e W. enil_session_login_id e W (Some path)) S of
        (None, S1) \<Rightarrow> (False, S1)
      | (Some i, S1) \<Rightarrow> (True, put_state E ''loginId'' (Some (mkString (nj E) i)) S1))"

definition prepare_key ::
  "('t, 'h, 'j) native_login_env \<Rightarrow> string \<Rightarrow> ('t, 'h, 'j) native_login \<Rightarrow> bool \<times> ('t, 'h, 'j) native_login" where
  "prepare_key E path S =
     (let J = nj E in
      if state_str E S ''e2eePublicKey'' \<noteq> None then (True, S)
      else
        (let S1 = login_status E ''Preparing login key'' S
         in case enil_worker_keygen (nl_ne E) (nl_thread E) None (nl_net S1) of
              (None, N) \<Rightarrow> login_fail E ''Login key generation failed'' (S1\<lparr>nl_net := N\<rparr>)
            | (Some key, N) \<Rightarrow>
                login_save E path
                  (put_state E ''workerRestoreState'' (parseText J (kg_restore_state key))
                    (put_state E ''e2eeKeyId'' (Some (mkNumber J (of_int (kg_key_id key))))
                      (put_state E ''e2eePublicKey'' (Some (mkString J (kg_public_key key))) (S1\<lparr>nl_net := N\<rparr>))))))"

definition create_session ::
  "('t, 'h, 'j) native_login_env \<Rightarrow> string \<Rightarrow> ('t, 'h, 'j) native_login \<Rightarrow> bool \<times> ('t, 'h, 'j) native_login" where
  "create_session E path S =
     (if state_str E S ''authSessionId'' \<noteq> None then (True, S)
      else
        (case login_call E path ''createSession'' None (login_status E ''Creating QR session'' S) of
           (result, S1) \<Rightarrow>
             if doc_string (nj E) result ''1'' = None then (False, S1)
             else login_save E path (copy_state E ''authSessionId'' result ''1'' S1)))"

definition create_qr_code ::
  "('t, 'h, 'j) native_login_env \<Rightarrow> string \<Rightarrow> ('t, 'h, 'j) native_login \<Rightarrow> bool \<times> ('t, 'h, 'j) native_login" where
  "create_qr_code E path S =
     (if state_str E S ''callbackUrl'' \<noteq> None then (True, S)
      else
        (case login_call E path ''createQrCodeForSecure'' None S of
           (result, S1) \<Rightarrow>
             if doc_string (nj E) result ''1'' = None \<or> doc_string (nj E) result ''4'' = None then (False, S1)
             else
               (let S2 = copy_state E ''callbackUrl'' result ''1'' S1;
                    S3 = copy_state E ''nativeQrNonce'' result ''4'' S2;
                    S4 = copy_state E ''longPollingMaxCount'' result ''2'' S3;
                    S5 = copy_state E ''longPollingIntervalSec'' result ''3'' S4
                in login_save E path (put_state E ''createdAt'' (Some (mkNumber (nj E) (of_int (nl_time E S5)))) S5))))"

definition poll_limit :: "('t, 'h, 'j) native_login_env \<Rightarrow> ('t, 'h, 'j) native_login \<Rightarrow> string \<Rightarrow> int \<Rightarrow> int" where
  "poll_limit E S key fallback =
     (let item = getItemCS (nj E) (nl_state S) key
      in if jis (isNumber (nj E)) item then json_int (nl_thrift E) item else fallback)"

definition poll_count :: "('t, 'h, 'j) native_login_env \<Rightarrow> ('t, 'h, 'j) native_login \<Rightarrow> int" where
  "poll_count E S = poll_limit E S ''longPollingMaxCount'' 12"

definition poll_interval :: "('t, 'h, 'j) native_login_env \<Rightarrow> ('t, 'h, 'j) native_login \<Rightarrow> int" where
  "poll_interval E S = poll_limit E S ''longPollingIntervalSec'' 30"

definition check_limits ::
  "('t, 'h, 'j) native_login_env \<Rightarrow> ('t, 'h, 'j) native_login \<Rightarrow> bool \<times> ('t, 'h, 'j) native_login" where
  "check_limits E S =
     (let count = poll_count E S; interval = poll_interval E S
      in if count < 1 \<or> 120 < count \<or> interval < 1 \<or> 180 < interval \<or> 1800 < count * interval
         then login_fail E ''Invalid QR polling limits'' S else (True, S))"

definition show_qr ::
  "('t, 'h, 'j) native_login_env \<Rightarrow> ('t, 'h, 'j) native_login \<Rightarrow> bool \<times> ('t, 'h, 'j) native_login" where
  "show_qr E S =
     (case (state_str E S ''callbackUrl'', state_str E S ''e2eePublicKey'', state_str E S ''nativeQrNonce'') of
        (Some callback, Some public_key, Some _) \<Rightarrow>
          if \<not> curl_init (nl_ne E) (wire (nl_net S)) then (False, S)
          else
            (case nl_escape E public_key of
               None \<Rightarrow> (False, S)
             | Some encoded \<Rightarrow>
                 (let qr_url = callback @ (if CHR ''?'' \<in> set callback then ''&'' else ''?'') @ ''secret='' @ encoded @ ''&e2eeVersion=1''
                  in (True, if nl_on_qr_url E \<and> \<not> nl_cancel E S then S\<lparr>nl_shown := nl_shown S @ [Qr_url qr_url]\<rparr> else S)))
      | _ \<Rightarrow> (False, S))"

definition wait_for_scan ::
  "('t, 'h, 'j) native_login_env \<Rightarrow> string \<Rightarrow> ('t, 'h, 'j) native_login \<Rightarrow> bool \<times> ('t, 'h, 'j) native_login" where
  "wait_for_scan E path S =
     (if state_true E S ''nativeScanVerified'' then (True, S)
      else
        (case login_poll E path ''checkQrCodeVerified'' (poll_count E S) (poll_interval E S) S of
           (False, S1) \<Rightarrow> (False, S1)
         | (True, S1) \<Rightarrow> login_save E path (put_state E ''nativeScanVerified'' (Some (mkBool (nj E) True)) S1)))"

text \<open>A device without a certificate the server knows confirms a PIN instead.\<close>

definition confirm_pin ::
  "('t, 'h, 'j) native_login_env \<Rightarrow> string \<Rightarrow> int \<Rightarrow> int \<Rightarrow> ('t, 'h, 'j) native_login \<Rightarrow> bool \<times> ('t, 'h, 'j) native_login" where
  "confirm_pin E path count interval S =
     (case login_call E path ''createPinCode'' None S of
        (result, S1) \<Rightarrow>
          (case doc_string (nj E) result ''1'' of
             None \<Rightarrow> (False, S1)
           | Some pin \<Rightarrow>
               (let S2 = (if nl_on_pin E then S1\<lparr>nl_shown := nl_shown S1 @ [Pin pin]\<rparr> else S1)
                in login_poll E path ''checkPinCodeVerified'' count interval
                     (login_status E ''Enter the PIN in LINE on your phone'' S2))))"

definition verify_device ::
  "('t, 'h, 'j) native_login_env \<Rightarrow> string \<Rightarrow> ('t, 'h, 'j) native_login \<Rightarrow> bool \<times> ('t, 'h, 'j) native_login" where
  "verify_device E path S =
     (if state_true E S ''nativePinVerified'' then (True, S)
      else
        (case enil_session_load_login_certificate (nl_se E (nl_writes S)) (nl_files S) (Some path) (Some (nl_state S)) of
           (doc, ok) \<Rightarrow>
             (let S1 = S\<lparr>nl_state := the doc\<rparr>
              in if \<not> ok then login_fail E ''Could not read device certificate'' S1
                 else
                   (case (case login_call E path ''verifyCertificate'' None S1 of
                            (Some _, S2) \<Rightarrow> (True, S2)
                          | (None, S2) \<Rightarrow>
                              if nl_failed S2 \<or> nl_error_code S2 \<noteq> 2 then (False, S2)
                              else confirm_pin E path (poll_count E S) (poll_interval E S) S2) of
                      (False, S3) \<Rightarrow> (False, S3)
                    | (True, S3) \<Rightarrow> login_save E path (put_state E ''nativePinVerified'' (Some (mkBool (nj E) True)) S3)))))"

definition login_prefix ::
  "('t, 'h, 'j) native_login_env \<Rightarrow> string \<Rightarrow> (('t, 'h, 'j) native_login \<Rightarrow> bool \<times> ('t, 'h, 'j) native_login) list" where
  "login_prefix E path =
     [start_document E path, take_login_id E path, prepare_key E path, create_session E path, create_qr_code E path,
      check_limits E, show_qr E, wait_for_scan E path, verify_device E path]"

text \<open>The mark is saved before the request that issues the tokens.\<close>

definition mark_token_request ::
  "('t, 'h, 'j) native_login_env \<Rightarrow> string \<Rightarrow> ('t, 'h, 'j) native_login \<Rightarrow> bool \<times> ('t, 'h, 'j) native_login" where
  "mark_token_request E path S =
     (if nl_cancel E S then (False, S)
      else login_save E path (put_state E ''nativeTokenRequestStarted'' (Some (mkBool (nj E) True)) S))"

text \<open>The keychain that comes with the tokens is opened when the worker can.\<close>

definition unwrap_keychain ::
  "('t, 'h, 'j) native_login_env \<Rightarrow> string \<Rightarrow> 'j \<Rightarrow> ('t, 'h, 'j) native_login \<Rightarrow> bool \<times> ('t, 'h, 'j) native_login" where
  "unwrap_keychain E path result S =
     (let J = nj E; meta = getItemCS J result ''10'';
          public_key = doc_string J meta ''publicKey''; keychain = doc_string J meta ''encryptedKeyChain'';
          error = doc_string J meta ''errorCode''; qr_key = getItemCS J (nl_state S) ''e2eeKeyId''
      in if public_key = None \<or> keychain = None \<or> nl_cancel E S then (True, S)
         else if error \<noteq> None \<and> error \<noteq> Some ''0'' \<and> error \<noteq> Some ''SUCCESS'' then (True, S)
         else
           (case getItemCS J (nl_state S) ''workerRestoreState'' of
              None \<Rightarrow> (True, S)
            | Some restore \<Rightarrow>
                if \<not> jis (isNumber J) qr_key then (True, S)
                else
                  (case enil_worker_unwrap_keychain (nl_ne E) (nl_thread E) (Some (printText J restore)) (json_int (nl_thrift E) qr_key)
                          public_key keychain (nl_net S) of
                     (None, N) \<Rightarrow> (True, S\<lparr>nl_net := N\<rparr>)
                   | (Some (keys, state), N) \<Rightarrow>
                       login_save E path
                         (copy_state E ''e2eeLatestKeyId'' meta ''keyId''
                           (put_state E ''workerRestoreState'' (parseText J state)
                             (put_state E ''e2eeKeys'' (Some keys) (S\<lparr>nl_net := N\<rparr>)))))))"

definition request_tokens ::
  "('t, 'h, 'j) native_login_env \<Rightarrow> string \<Rightarrow> ('t, 'h, 'j) native_login \<Rightarrow> bool \<times> ('t, 'h, 'j) native_login" where
  "request_tokens E path S =
     (case login_call E path ''qrCodeLoginV2ForSecure'' None (login_status E ''Completing login'' S) of
        (None, S1) \<Rightarrow> (False, S1)
      | (Some result, S1) \<Rightarrow>
          (case save_login_result E path result S1 of
             (False, S2) \<Rightarrow> (False, S2)
           | (True, S2) \<Rightarrow>
               if state_str E S2 ''accessToken'' = None then login_fail E ''Login reply saved; no access token found'' S2
               else unwrap_keychain E path result (login_status E ''Login succeeded. Session saved.'' S2)))"

section \<open>A run\<close>

definition already_saved :: string where
  "already_saved = ''Login session already saved. No new login requested.''"

text \<open>With the lock held and the saved document read.\<close>

definition run_document ::
  "('t, 'h, 'j) native_login_env \<Rightarrow> string \<Rightarrow> ('t, 'h, 'j) native_login \<Rightarrow> bool \<times> ('t, 'h, 'j) native_login" where
  "run_document E path S =
     (if \<not> isObject (nj E) (nl_state S) then login_fail E ''Saved login session cannot be read; no new login attempted'' S
      else if state_str E S ''accessToken'' \<noteq> None then (True, login_status E already_saved S)
      else if state_true E S ''nativeTokenRequestStarted'' then
        (case recover_login_reply E path S of
           (True, S1) \<Rightarrow> (True, login_status E already_saved S1)
         | (False, S1) \<Rightarrow> login_fail E ''Previous login reply saved. No new login attempted.'' S1)
      else if nl_cancel E S then (False, S)
      else login_steps (login_prefix E path @ [mark_token_request E path, request_tokens E path]) S)"

definition run_locked ::
  "('t, 'h, 'j) native_login_env \<Rightarrow> string \<Rightarrow> ('t, 'h, 'j) native_login \<Rightarrow> bool \<times> ('t, 'h, 'j) native_login" where
  "run_locked E directory S =
     (let path = session_file directory; e = nl_se E (nl_writes S)
      in if retired e (nl_files S) directory then login_fail E ''This login has been retired. Start a new QR.'' S
         else
           (case enil_session_read e (nl_files S) (Some path) of
              Some doc \<Rightarrow> run_document E path (S\<lparr>nl_state := doc\<rparr>)
            | None \<Rightarrow>
                if acc_ok e path \<and> sfiles (nl_files S) path \<noteq> None
                then login_fail E ''Saved login session cannot be read; no new login attempted'' S
                else run_document E path (S\<lparr>nl_state := mkObject (nj E)\<rparr>)))"

definition stopped_message :: string where
  "stopped_message = ''Login stopped. Session state saved; see log for details.''"

definition run_done ::
  "('t, 'h, 'j) native_login_env \<Rightarrow> bool \<times> ('t, 'h, 'j) native_login \<Rightarrow> bool \<times> ('t, 'h, 'j) native_login" where
  "run_done E res =
     (case res of (ok, S) \<Rightarrow>
        if \<not> ok \<and> \<not> nl_failed S \<and> \<not> nl_cancel E S
        then (ok, login_status E (if nl_request_error S \<noteq> [] then nl_request_error S else stopped_message) S) else (ok, S))"

definition enil_native_login_run ::
  "('t, 'h, 'j) native_login_env \<Rightarrow> string option \<Rightarrow> ('t, 'h, 'j) native_login \<Rightarrow> bool \<times> ('t, 'h, 'j) native_login" where
  "enil_native_login_run E directory S0 =
     (let S = S0\<lparr>nl_error_code := 0, nl_http_status := 0, nl_curl_code := CURLE_OK, nl_failed := False, nl_request_error := []\<rparr>
      in case directory of
           None \<Rightarrow> (False, S)
         | Some dir \<Rightarrow>
             if 1950 < length dir then (False, S)
             else if \<not> nl_mkdir E \<or> \<not> nl_chmod E then login_fail E ''Could not save login session'' S
             else if retired (nl_se E (nl_writes S)) (nl_files S) dir then login_fail E ''This login has been retired. Start a new QR.'' S
             else
               (let lock = join dir ''session.lock'';
                    S1 = (if nl_lock_opens E \<and> sfiles (nl_files S) lock = None then S\<lparr>nl_files := put_file lock [] (nl_files S)\<rparr> else S)
                in if \<not> nl_lock_opens E \<or> \<not> nl_lock_taken E then login_fail E ''Login is already running'' S1
                   else run_done E (run_locked E dir S1)))"

end
