(* ===== verification/ENIL_LoginFacts.thy ===== *)
theory ENIL_LoginFacts
  imports ENIL_LoginStore
begin

text \<open>
  Facts about login attempts: a consumed or abandoned attempt is never taken up again.
\<close>

section \<open>Which files an operation writes\<close>

text \<open>The names inside a directory that an operation leaves alone.\<close>

definition leaves_files :: "(string \<Rightarrow> bool) \<Rightarrow> 't session_world \<Rightarrow> 't session_world \<Rightarrow> bool" where
  "leaves_files touched W W' \<longleftrightarrow> (\<forall>q n. base_name q = Some n \<and> \<not> touched n \<longrightarrow> sfiles W' q = sfiles W q)"

lemma leaves_files_refl [simp]: "leaves_files P W W"
  by (simp add: leaves_files_def)

lemma leaves_files_trans: "leaves_files P W W1 \<Longrightarrow> leaves_files P W1 W2 \<Longrightarrow> leaves_files P W W2"
  by (simp add: leaves_files_def)

lemma leaves_files_mono: "leaves_files P W W' \<Longrightarrow> (\<And>n. P n \<Longrightarrow> Q n) \<Longrightarrow> leaves_files Q W W'"
  by (auto simp: leaves_files_def)

text \<open>\<open>mkstemp\<close> replaces its six letters by characters of a file name; all environments share the JSON library.\<close>

definition plain_calls :: "'j session_env \<Rightarrow> bool" where
  "plain_calls E \<longleftrightarrow> (\<forall>l. wc_letters (wr E) = Some l \<or> rt_letters (rt E) = Some l \<longrightarrow> CHR ''/'' \<notin> set l)"

definition login_calls :: "'j cjson \<Rightarrow> ('j \<Rightarrow> string) \<Rightarrow> 'j login_env \<Rightarrow> bool" where
  "login_calls J pr E \<longleftrightarrow> (\<forall>n. sj (se E n) = J \<and> pretty (se E n) = pr \<and> plain_calls (se E n))"

lemma login_callsD [simp]:
  assumes "login_calls J pr E"
  shows "sj (se E n) = J" and "pretty (se E n) = pr" and "plain_calls (se E n)"
  using assms by (simp_all add: login_calls_def)

lemma base_join [simp]: "CHR ''/'' \<notin> set n \<Longrightarrow> base_name (join d n) = Some n"
  by (simp add: base_name_def join_def split_last_append)

lemma base_join_more [simp]: "CHR ''/'' \<notin> set n \<Longrightarrow> CHR ''/'' \<notin> set l \<Longrightarrow> base_name (join d n @ l) = Some (n @ l)"
  using base_join [of "n @ l" d] by (simp add: join_def)

lemma join_inj [simp]: "join d n = join d m \<longleftrightarrow> n = m"
  by (simp add: join_def)

lemma file_base [simp]: "base_name (session_file d) = Some ''session.json''"
  by (simp add: session_file_def)

lemma session_file_inj [simp]: "session_file a = session_file b \<longleftrightarrow> a = b"
  by (simp add: session_file_def join_def)

lemma other_name: "CHR ''/'' \<notin> set n \<Longrightarrow> n \<noteq> ''session.json'' \<Longrightarrow> session_file a \<noteq> join d n"
  by (metis file_base base_join option.inject)

lemma write_leaves:
  assumes w: "session_write_locked E W (Some (join d n)) (Some r) = (W', ok)" and "plain_calls E" and n: "CHR ''/'' \<notin> set n"
  shows "leaves_files (\<lambda>m. take (length n) m = n) W W'"
    and "ok \<Longrightarrow> sfiles W' (join d n) = Some (pretty E r)"
    and "\<And>a. a \<noteq> d \<Longrightarrow> n = ''session.json'' \<Longrightarrow> sfiles W' (session_file a) = sfiles W (session_file a)"
proof -
  have l: "wc_letters (wr E) = Some l \<Longrightarrow> CHR ''/'' \<notin> set l" for l using assms(2) by (simp add: plain_calls_def)
  have other: "sfiles W' q = sfiles W q" if "q \<noteq> join d n" "\<And>l. CHR ''/'' \<notin> set l \<Longrightarrow> q \<noteq> join d n @ ''.tmp.'' @ l" for q
    using w that l by (auto simp: session_write_locked_eq Let_def put_file_def remove_file_def split: option.splits if_splits)
  show "leaves_files (\<lambda>m. take (length n) m = n) W W'"
    unfolding leaves_files_def
  proof (intro allI impI)
    fix q m assume q: "base_name q = Some m \<and> take (length n) m \<noteq> n"
    show "sfiles W' q = sfiles W q" by (rule other) (use q n in auto)
  qed
  show "ok \<Longrightarrow> sfiles W' (join d n) = Some (pretty E r)"
    using w by (auto simp: session_write_locked_eq Let_def put_file_def remove_file_def split: option.splits if_splits)
  show "sfiles W' (session_file a) = sfiles W (session_file a)" if "a \<noteq> d" "n = ''session.json''" for a
  proof (rule other)
    show "session_file a \<noteq> join d n" using that by (simp add: session_file_def join_def)
    show "session_file a \<noteq> join d n @ ''.tmp.'' @ l" if "CHR ''/'' \<notin> set l" for l
    proof
      assume "session_file a = join d n @ ''.tmp.'' @ l"
      then have "base_name (session_file a) = Some (n @ ''.tmp.'' @ l)" using that n base_join_more [of n "''.tmp.'' @ l" d] by simp
      then show False using \<open>n = _\<close> by simp
    qed
  qed
qed

lemma write_session_effect:
  assumes "write_session E W d doc = (W', True)" and "plain_calls E"
  obtains r where "doc = Some r" "sfiles W' (session_file d) = Some (pretty E r)"
    "\<And>a. a \<noteq> d \<Longrightarrow> sfiles W' (session_file a) = sfiles W (session_file a)"
proof -
  from assms(1) obtain r where r: "doc = Some r"
    by (auto simp: write_session_def enil_session_write_def session_write_locked_eq split: option.splits)
  have w: "session_write_locked E W (Some (join d ''session.json'')) (Some r) = (W', True)"
    using assms(1) r by (simp add: write_session_def enil_session_write_def session_file_def)
  from write_leaves [OF w assms(2)] that [OF r] show ?thesis by (simp add: session_file_def)
qed

lemma retire_leaves:
  assumes "login_calls J pr E" and "retire E n W d = (W', ok)"
  shows "sfiles W' (session_file a) = sfiles W (session_file a)" and "ok \<Longrightarrow> sfiles W' (join d ''retired.json'') \<noteq> None"
proof -
  define W1 where "W1 = (if lock_opens E \<and> sfiles W (join d ''session.lock'') = None then put_file (join d ''session.lock'') [] W else W)"
  have lock: "sfiles W1 (session_file a) = sfiles W (session_file a)"
    using other_name [of "''session.lock''" a d] by (auto simp: W1_def put_file_def)
  show "sfiles W' (session_file a) = sfiles W (session_file a)"
  proof (cases "lock_opens E \<and> lock_taken E")
    case False
    with assms(2) lock show ?thesis by (auto simp: retire_def Let_def W1_def)
  next
    case True
    with assms(2) have w: "session_write_locked (se E n) W1 (Some (join d ''retired.json''))
        (Some (addItem (lj E) (mkObject (lj E)) ''retired'' (mkBool (lj E) True))) = (W', ok)"
      by (simp add: retire_def Let_def W1_def enil_session_write_def)
    from write_leaves(1) [OF w] assms(1) lock show ?thesis by (simp add: leaves_files_def)
  qed
  show "sfiles W' (join d ''retired.json'') \<noteq> None" if ok
    using assms that write_leaves(2) [of "se E n" W1 d "''retired.json''" _ W' ok]
    by (auto simp: retire_def Let_def W1_def enil_session_write_def split: if_splits)
qed

lemma login_id_leaves:
  assumes "plain_calls E" and "enil_session_login_id E W (Some (session_file d)) = (W', i)" and "a \<noteq> d"
  shows "sfiles W' (session_file a) = sfiles W (session_file a)"
proof -
  obtain doc' j where a: "add_login_id E (enil_session_read E W (Some (session_file d))) = (doc', j)" by fastforce
  obtain W1 ok where w: "session_write_locked E W (Some (session_file d)) doc' = (W1, ok)" by fastforce
  have "W' = W \<or> W' = W1"
    using assms(2) a w by (auto simp: enil_session_login_id_def Let_def split: option.splits if_splits)
  moreover have "sfiles W1 (session_file a) = sfiles W (session_file a)"
  proof (cases doc')
    case None
    with w show ?thesis by (simp add: session_write_locked_eq)
  next
    case (Some r)
    then show ?thesis using write_leaves(3) [of E W d "''session.json''" r W1 ok] w assms(1,3) by (simp add: session_file_def)
  qed
  ultimately show ?thesis by auto
qed

lemma activate_effect:
  assumes "plain_calls E" and "enil_session_activate E W (Some (session_file d)) doc = (W', True)"
  obtains r where "doc = Some r" "sfiles W' (session_file d) = Some (pretty E r)"
proof -
  from assms(2) obtain r where r: "doc = Some r" by (cases doc) (auto simp: enil_session_activate_def)
  obtain W1 ok where w: "session_write_locked E W (Some (join d ''session.json'')) (Some r) = (W1, ok)" by fastforce
  from assms(2) r w have ok: "ok" and W': "W' = fst (enil_session_retire_file E W1 (Some (session_file d @ ''.refresh-pending'')))"
    by (auto simp: enil_session_activate_def session_file_def split: if_splits)
  have l: "CHR ''/'' \<notin> set l" if "rt_letters (rt E) = Some l" for l using assms(1) that by (simp add: plain_calls_def)
  have "sfiles W' (session_file d) = sfiles W1 (session_file d)"
    unfolding W' by (auto simp: enil_session_retire_file_eq Let_def put_file_def remove_file_def split: option.splits)
  then show ?thesis using that [OF r] write_leaves(2) [OF w assms(1) _ ok] by (simp add: session_file_def)
qed

section \<open>Consumed attempts\<close>

text \<open>What staging leaves: the document that was read from the attempt, and its copy under the staging directory.\<close>

lemma stage_effect:
  assumes "login_calls J pr E" and run: "enil_login_store_stage E W staging (join home name) = Some (W', True)"
    and name: "CHR ''/'' \<notin> set name" and other: "staging \<noteq> join home name"
  obtains saved ready where "sfiles W' (session_file (join home name)) = Some saved" "parseText J (cstr saved) = Some ready"
    "doc_string J (Some ready) ''mid'' \<noteq> None" "sfiles W' (session_file staging) = Some (pr (staged_doc J name ready))"
proof -
  note E = login_callsD [OF assms(1)]
  obtain W1 i where i: "enil_session_login_id (se E 0) W (Some (session_file (join home name))) = (W1, i)" by fastforce
  define ready where "ready = read_session (se E 0) W1 (join home name)"
  from run i name have w: "write_session (se E 1) W1 staging (map_option (staged_doc J name) ready) = (W', True)"
    and m: "doc_string J ready ''mid'' \<noteq> None"
    by (auto simp: enil_login_store_stage_def Let_def E ready_def [symmetric] split: if_splits)
  from write_session_effect [OF w E(3)] obtain r where r: "map_option (staged_doc J name) ready = Some r"
    "sfiles W' (session_file staging) = Some (pr r)" "sfiles W' (session_file (join home name)) = sfiles W1 (session_file (join home name))"
    using other by (metis E(2))
  then obtain doc where doc: "ready = Some doc" "r = staged_doc J name doc" by auto
  then obtain saved where "sfiles W1 (session_file (join home name)) = Some saved" "parseText J (cstr saved) = Some doc"
    using E(1) by (auto simp: ready_def read_session_def enil_session_read_def split: option.splits if_splits)
  with that doc r m show ?thesis by auto
qed

text \<open>What activation leaves: the staged document, as the login of the account it names.\<close>

lemma activation_effect:
  assumes "login_calls J pr E" and run: "enil_login_store_activate E W staging account = (W', True)"
  obtains doc where "read_session (se E 0) W staging = Some doc" "sfiles W' (session_file account) = Some (pr doc)"
    "doc_string J (Some doc) ''mid'' = base_name account"
proof -
  note E = login_callsD [OF assms(1)]
  obtain W1 ok where a: "enil_session_activate (se E 0) W (Some (session_file account)) (read_session (se E 0) W staging) = (W1, ok)"
    by fastforce
  from run a have ok: "ok" and m: "base_name account = doc_string J (read_session (se E 0) W staging) ''mid''"
    by (auto simp: enil_login_store_activate_def Let_def E split: option.splits if_splits bool.splits)
  from run a ok have "W' = W1 \<or> (\<exists>d. W' = fst (retire E 1 W1 d))"
    by (auto simp: enil_login_store_activate_def Let_def split: option.splits if_splits)
  then have keep: "sfiles W' (session_file account) = sfiles W1 (session_file account)"
    using retire_leaves(1) [OF assms(1)] by (metis prod.collapse)
  from a ok have a1: "enil_session_activate (se E 0) W (Some (session_file account)) (read_session (se E 0) W staging) = (W1, True)"
    by simp
  from activate_effect [OF E(3) a1] obtain doc where "read_session (se E 0) W staging = Some doc"
      "sfiles W1 (session_file account) = Some (pr doc)" by (metis E(2))
  with that keep m show ?thesis by simp
qed

text \<open>
  An account's document that still belongs to the login of an attempt: it has the login's identifier, whatever else
  has changed, or remembers the attempt.
\<close>

definition keeps_login :: "'j cjson \<Rightarrow> 'j \<Rightarrow> string \<Rightarrow> 'j \<Rightarrow> bool" where
  "keeps_login J ready name cur \<longleftrightarrow>
     (doc_string J (Some cur) ''loginId'' \<noteq> None \<and> doc_string J (Some cur) ''loginId'' = doc_string J (Some ready) ''loginId'') \<or>
     doc_string J (Some cur) ''nativeLoginSource'' = Some name"

context cjson_laws
begin

lemma staged_fields:
  assumes "isObject J r" and "distinct (map fst (children J r))"
  shows "doc_string J (Some (staged_doc J name r)) ''nativeLoginSource'' = Some name"
    and "k \<noteq> ''nativeLoginSource'' \<Longrightarrow> doc_string J (Some (staged_doc J name r)) k = doc_string J (Some r) k"
proof -
  have get: "getItemCS J (deleteCS J r ''nativeLoginSource'') k = map_of (del1 ''nativeLoginSource'' (children J r)) k" for k
    using assms(1) by (simp add: get_cs delete_cs)
  then show "doc_string J (Some (staged_doc J name r)) ''nativeLoginSource'' = Some name"
    using assms by (simp add: doc_string_def staged_doc_def get_add delete_cs map_of_del1_same fresh)
  show "doc_string J (Some (staged_doc J name r)) k = doc_string J (Some r) k" if "k \<noteq> ''nativeLoginSource''"
    using assms get that by (simp add: doc_string_def staged_doc_def get_add delete_cs get_cs map_of_del1_other split: option.splits)
qed

end

lemma consumed_does_not_match:
  assumes "login_calls J pr E" and "read_session (se E 0) W (join home account) = Some cur" and "keeps_login J ready name cur"
    and "doc_string J (Some ready) ''mid'' = Some account"
  shows "\<not> matches (se E 0) W staged (Some ready) home name"
  using assms by (auto simp: matches_def still_unused_def keeps_login_def Let_def split: prod.splits)

lemma recovered_find:
  assumes "recovered E W home staged names = Some d"
  obtains n where "d = join home n" "pending_name (Some n)" "\<not> retired (se E 0) W d"
    "matches (se E 0) W staged (read_session (se E 0) W d) home n"
  using assms that by (auto simp: recovered_def split: if_splits dest!: find_Some_iff [THEN iffD1])

text \<open>A selected directory is the one the window resumes, one it recovers, or a new one.\<close>

lemma select_cases:
  assumes "enil_login_store_select E W staging = (W', Some d)" and "parent staging = Some home"
  shows "resumed E W home (read_session (se E 0) W staging) = Some d \<or>
    (\<exists>names. dir_entries E = Some names \<and> recovered E W home (read_session (se E 0) W staging) names = Some d) \<or>
    (resumed E W home (read_session (se E 0) W staging) = None \<and> (\<exists>l. dir_letters E = Some l \<and> d = join home (''.native-login-'' @ l)))"
proof -
  have r: "d' = d" if "remember_source E V staging d' = (W', Some d)" for V d'
    using that by (auto simp: remember_source_def split: prod.splits if_splits)
  show ?thesis
    using assms by (auto simp: enil_login_store_select_def Let_def fresh_attempt_def split: option.splits if_splits prod.splits dest!: r)
qed

text \<open>C32: A login attempt is used once.  Once an attempt has been staged and activated as an account's login, that
  account keeps the login, and as long as it does, no other window recovers the attempt's directory, even when the
  attempt could not be marked as retired.  Keeping the login means that the account's session has the login's
  identifier, whatever else has changed (tokens may rotate, fields come and go), or still remembers the attempt.
  Assumed besides: the account's session can be read in that run (to the code, a session that it cannot read is no
  login), the attempt's own session file is as it was staged, the new window has not chosen this attempt itself, and
  mkdtemp does not give its name again.\<close>

theorem login_attempt_used_once:
  assumes "cjson_laws J" and "login_calls J pr E1" and "login_calls J pr E2" and "login_calls J pr E3"
    and "enil_login_store_stage E1 W staging (join home name) = Some (W1, True)" and "staging \<noteq> join home name"
    and "enil_login_store_activate E2 W1 staging (join home account) = (W2, True)"
    and "CHR ''/'' \<notin> set name" and "CHR ''/'' \<notin> set account"
    and "sfiles W1 (session_file (join home name)) = Some saved" and "parseText J (cstr saved) = Some ready"
    and "isObject J ready" and "distinct (map fst (children J ready))"
    and "parseText J (cstr (pr (staged_doc J name ready))) = Some (staged_doc J name ready)"
    and "sfiles W3 (session_file (join home name)) = sfiles W1 (session_file (join home name))"
    and "read_session (se E3 0) W3 (join home account) = Some cur" and "keeps_login J ready name cur"
    and "parent window = Some home" and "doc_string J (read_session (se E3 0) W3 window) ''nativeLoginSource'' \<noteq> Some name"
    and "dir_letters E3 \<noteq> Some (drop 14 name)"
    and "enil_login_store_select E3 W3 window = (W4, Some d)"
  shows "d \<noteq> join home name \<and>
    (\<exists>text doc. sfiles W2 (session_file (join home account)) = Some text \<and> parseText J (cstr text) = Some doc \<and>
       keeps_login J ready name doc)"
proof -
  note J3 = login_callsD [OF assms(4)]
  obtain saved' ready' where st: "sfiles W1 (session_file (join home name)) = Some saved'" "parseText J (cstr saved') = Some ready'"
      "sfiles W1 (session_file staging) = Some (pr (staged_doc J name ready'))"
    by (rule stage_effect [OF assms(2,5,8,6)])
  with assms(10,11) have staged: "sfiles W1 (session_file staging) = Some (pr (staged_doc J name ready))" by simp
  obtain doc where ac: "read_session (se E2 0) W1 staging = Some doc" "sfiles W2 (session_file (join home account)) = Some (pr doc)"
      "doc_string J (Some doc) ''mid'' = Some account"
    using activation_effect [OF assms(3,7)] base_join [OF assms(9)] by metis
  have doc: "doc = staged_doc J name ready"
    using ac(1) staged assms(14) login_callsD [OF assms(3)] by (auto simp: read_session_def enil_session_read_def split: if_splits)
  have "keeps_login J ready name (staged_doc J name ready)"
    using cjson_laws.staged_fields(1) [OF assms(1,12,13), of name] by (simp add: keeps_login_def)
  then have kept: "\<exists>text doc. sfiles W2 (session_file (join home account)) = Some text \<and> parseText J (cstr text) = Some doc \<and>
      keeps_login J ready name doc"
    using ac(2) doc assms(14) by auto
  have prior: "read_session (se E3 0) W3 (join home name) = Some ready \<or> read_session (se E3 0) W3 (join home name) = None"
    using assms(10,11,15) J3 by (simp add: read_session_def enil_session_read_def)
  have owner: "doc_string J (Some ready) ''mid'' = Some account"
    using ac(3) cjson_laws.staged_fields(2) [OF assms(1,12,13), of "''mid''" name] doc by simp
  have no_match: "\<not> matches (se E3 0) W3 staged' (read_session (se E3 0) W3 (join home name)) home name" for staged'
  proof (cases "read_session (se E3 0) W3 (join home name) = None")
    case False
    with prior have "read_session (se E3 0) W3 (join home name) = Some ready" by simp
    with consumed_does_not_match [OF assms(4,16,17) owner] show ?thesis by simp
  qed (simp add: matches_def)
  have "d \<noteq> join home name"
  proof
    assume d: "d = join home name"
    from select_cases [OF assms(21,18)] show False
    proof (elim disjE exE conjE)
      assume "resumed E3 W3 home (read_session (se E3 0) W3 window) = Some d"
      then show False using assms(19) d by (auto simp: resumed_def Let_def J3 pending_name_def safe_name_def split: if_splits option.splits)
    next
      fix names assume "recovered E3 W3 home (read_session (se E3 0) W3 window) names = Some d"
      then show False by (rule recovered_find) (use d no_match in auto)
    next
      fix l assume "dir_letters E3 = Some l" "d = join home (''.native-login-'' @ l)"
      with d assms(20) show False by auto
    qed
  qed
  with kept show ?thesis by simp
qed

text \<open>An attempt whose retirement fails, the account after its token has rotated, and a later window for the same client.\<close>

definition demo_attempt :: json where
  "demo_attempt = JObj [(''clientIdentity'', the (enil_identity_to_json (tree (\<lambda>s. None) (\<lambda>j. [])) (Some windows_identity))),
     (''loginId'', JStr ''L''), (''accessToken'', JStr ''T''), (''mid'', JStr ''u1'')]"

definition demo_window :: json where
  "demo_window = JObj [(''clientIdentity'', the (enil_identity_to_json (tree (\<lambda>s. None) (\<lambda>j. [])) (Some windows_identity)))]"

definition demo_rotated :: json where
  "demo_rotated = JObj [(''loginId'', JStr ''L''), (''accessToken'', JStr ''T2''), (''mid'', JStr ''u1'')]"

definition demo_staged :: json where
  "demo_staged = staged_doc (tree (\<lambda>s. None) (\<lambda>j. [])) ''.native-login-a'' demo_attempt"

definition demo_parse :: "string \<Rightarrow> json option" where
  "demo_parse s = (if s = ''P'' then Some demo_attempt else if s = ''S'' then Some demo_staged else if s = ''W'' then Some demo_window
     else if s = ''R'' then Some demo_rotated else None)"

definition demo_print :: "json \<Rightarrow> string" where
  "demo_print j = (if j = demo_attempt then ''P'' else if j = demo_staged then ''S'' else if j = demo_window then ''W'' else ''O'')"

definition demo_login :: "string list option \<Rightarrow> string option \<Rightarrow> json login_env" where
  "demo_login names letters =
     \<lparr>se = (\<lambda>n. \<lparr>sj = tree demo_parse demo_print, pretty = demo_print, of_i64 = of_int, strtod10 = (\<lambda>_. 0), rand16 = None,
        rd_ok = (\<lambda>_. True), acc_ok = (\<lambda>_. True), regular = (\<lambda>_. True), dir_ok = (\<lambda>_. True),
        wr = \<lparr>wc_letters = Some ''x'', wc_fdopen = True, wc_write = True, wc_fclose = True, wc_rename = True\<rparr>,
        rt = \<lparr>rt_letters = None, rt_rename = True\<rparr>, binding_ready = True, spec_ok = (\<lambda>_. True), ident_ok = (\<lambda>_. (True, True, True))\<rparr>),
      lock_opens = False, lock_taken = False, dir_entries = names, dir_letters = letters, dir_made = True\<rparr>"

definition demo_homes :: "nat session_world" where
  "demo_homes = \<lparr>sfiles = [''/a/.native-login-a/session.json'' \<mapsto> ''P'', ''/a/w/session.json'' \<mapsto> ''W''],
     sbinding = (\<lambda>_. None), sident = \<lparr>key_ready = True, current = (\<lambda>_. None)\<rparr>\<rparr>"

definition demo_found :: "json login_env" where
  "demo_found = demo_login (Some [''.native-login-a'']) (Some ''b'')"

definition demo_stage :: "(nat session_world \<times> bool) option" where
  "demo_stage = enil_login_store_stage (demo_login None None) demo_homes ''/a/s'' (join ''/a'' ''.native-login-a'')"

definition demo_activate :: "nat session_world \<times> bool" where
  "demo_activate = enil_login_store_activate (demo_login None None) (fst (the demo_stage)) ''/a/s'' (join ''/a'' ''u1'')"

definition demo_select :: "nat session_world \<Rightarrow> nat session_world \<times> string option" where
  "demo_select W = enil_login_store_select demo_found W ''/a/w''"

definition demo_later :: "nat session_world" where
  "demo_later = put_file (session_file (join ''/a'' ''u1'')) ''R'' (fst demo_activate)"

lemma demo_login_runs:
  "snd (demo_select demo_homes) = Some (join ''/a'' ''.native-login-a'')" "map_option snd demo_stage = Some True"
  "snd demo_activate" "snd (demo_select demo_later) = Some (join ''/a'' ''.native-login-b'')"
  by code_simp+

lemma demo_login_files:
  "sfiles (fst (the demo_stage)) (session_file (join ''/a'' ''.native-login-a'')) = Some ''P''"
  "sfiles demo_later (session_file (join ''/a'' ''.native-login-a'')) = Some ''P''"
  "read_session (se demo_found 0) demo_later (join ''/a'' ''u1'') = Some demo_rotated"
  "doc_string (tree demo_parse demo_print) (read_session (se demo_found 0) demo_later ''/a/w'') ''nativeLoginSource'' = None"
  "keeps_login (tree demo_parse demo_print) demo_attempt ''.native-login-a'' demo_rotated"
  by code_simp+

lemma demo_login_docs:
  "isObject (tree demo_parse demo_print) demo_attempt" "distinct (map fst (children (tree demo_parse demo_print) demo_attempt))"
  "demo_parse (cstr ''P'') = Some demo_attempt" "parent ''/a/w'' = Some ''/a''"
  "demo_parse (cstr (demo_print (staged_doc (tree demo_parse demo_print) ''.native-login-a'' demo_attempt))) =
     Some (staged_doc (tree demo_parse demo_print) ''.native-login-a'' demo_attempt)"
  by code_simp+

lemma demo_login_calls [simp]: "login_calls (tree demo_parse demo_print) demo_print (demo_login names letters)"
  by (simp add: login_calls_def demo_login_def plain_calls_def)

theorem login_attempt_used_once_witness:
  "\<exists>d. snd (demo_select demo_homes) = Some (join ''/a'' ''.native-login-a'') \<and>
     snd (demo_select demo_later) = Some d \<and> d \<noteq> join ''/a'' ''.native-login-a''"
proof -
  define W1 where "W1 = fst (the demo_stage)"
  define W2 where "W2 = fst demo_activate"
  define W4 where "W4 = fst (demo_select demo_later)"
  have runs: "demo_stage = Some (W1, True)" "demo_activate = (W2, True)"
      "demo_select demo_later = (W4, Some (join ''/a'' ''.native-login-b''))"
    unfolding W1_def W2_def W4_def using demo_login_runs(2-4)
    by (metis map_option_eq_Some option.sel prod.collapse, metis prod.collapse, metis prod.collapse)
  have "join ''/a'' ''.native-login-b'' \<noteq> join ''/a'' ''.native-login-a'' \<and>
    (\<exists>text doc. sfiles W2 (session_file (join ''/a'' ''u1'')) = Some text \<and> parseText (tree demo_parse demo_print) (cstr text) = Some doc \<and>
       keeps_login (tree demo_parse demo_print) demo_attempt ''.native-login-a'' doc)"
  proof (rule login_attempt_used_once [where J = "tree demo_parse demo_print" and pr = demo_print and W = demo_homes
        and ?E1.0 = "demo_login None None" and ?E2.0 = "demo_login None None" and ?E3.0 = demo_found
        and staging = "''/a/s''" and account = "''u1''" and saved = "''P''" and ready = demo_attempt and window = "''/a/w''"
        and ?W1.0 = W1 and ?W2.0 = W2 and ?W3.0 = demo_later and ?W4.0 = W4 and cur = demo_rotated])
    show "enil_login_store_stage (demo_login None None) demo_homes ''/a/s'' (join ''/a'' ''.native-login-a'') = Some (W1, True)"
      using runs(1) by (simp add: demo_stage_def)
    show "enil_login_store_activate (demo_login None None) W1 ''/a/s'' (join ''/a'' ''u1'') = (W2, True)"
      using runs(2) by (simp only: demo_activate_def W1_def)
    show "enil_login_store_select demo_found demo_later ''/a/w'' = (W4, Some (join ''/a'' ''.native-login-b''))"
      using runs(3) by (simp add: demo_select_def)
    show "cjson_laws (tree demo_parse demo_print)" by (rule tree.cjson_laws_axioms)
  qed (use demo_login_files [folded W1_def] demo_login_docs in \<open>simp_all add: demo_found_def\<close>,
      simp_all add: demo_login_def join_def)
  then show ?thesis using demo_login_runs by blast
qed

end
