(* ===== verification/ENIL_NativeLoginFacts.thy ===== *)
theory ENIL_NativeLoginFacts
  imports ENIL_NativeLogin ENIL_LoginFacts
begin

text \<open>
  The native login over many runs: the request that issues tokens is sent at most once for an attempt,
  and only after the mark that says so is on disk; a login that succeeds has its token on disk.
\<close>

section \<open>Documents\<close>

definition plain_doc :: "'j cjson \<Rightarrow> 'j \<Rightarrow> bool" where
  "plain_doc J d \<longleftrightarrow> isObject J d \<and> distinct (map fst (children J d))"

definition marked :: "'j cjson \<Rightarrow> 'j \<Rightarrow> bool" where
  "marked J d \<longleftrightarrow> jis (isTrue J) (getItemCS J d ''nativeTokenRequestStarted'')"

definition signed_in :: "'j cjson \<Rightarrow> 'j \<Rightarrow> bool" where
  "signed_in J d \<longleftrightarrow> doc_string J (Some d) ''accessToken'' \<noteq> None"

text \<open>What printing a document and parsing it back must keep.\<close>

definition prints_back :: "'j cjson \<Rightarrow> ('j \<Rightarrow> string) \<Rightarrow> bool" where
  "prints_back J pr \<longleftrightarrow>
     (\<forall>d d'. parseText J (cstr (pr d)) = Some d' \<longrightarrow>
        (\<not> isObject J d \<longrightarrow> \<not> isObject J d') \<and>
        (plain_doc J d \<longrightarrow> plain_doc J d' \<and> (marked J d \<longrightarrow> marked J d') \<and> (signed_in J d \<longrightarrow> signed_in J d')))"

text \<open>A run's environment: one JSON library, and \<open>access\<close> answers for what is there.\<close>

definition login_world :: "'j cjson \<Rightarrow> ('j \<Rightarrow> string) \<Rightarrow> ('t, 'h, 'j) native_login_env \<Rightarrow> bool" where
  "login_world J pr E \<longleftrightarrow> cjson_laws J \<and> prints_back J pr \<and> nj E = J \<and>
     (\<forall>n. sj (nl_se E n) = J \<and> pretty (nl_se E n) = pr \<and> plain_calls (nl_se E n) \<and> (\<forall>p. acc_ok (nl_se E n) p))"

lemma login_worldD:
  assumes "login_world J pr E"
  shows "cjson_laws J" "prints_back J pr" "njson (nl_ne E) = J" "sj (nl_se E n) = J" "pretty (nl_se E n) = pr"
    "plain_calls (nl_se E n)" "acc_ok (nl_se E n) p"
  using assms by (simp_all add: login_world_def)

context cjson_laws
begin

lemma set_item_plain: "plain_doc J d \<Longrightarrow> plain_doc J (set_item J key v d)"
proof -
  assume d: "plain_doc J d"
  then have k: "key \<notin> fst ` set (del1 key (children J d))"
    using map_of_del1_same [of "children J d" key] by (auto simp: plain_doc_def map_of_eq_None_iff)
  with d show ?thesis by (auto simp: plain_doc_def set_item_def delete_cs add_item distinct_del1 split: option.splits)
qed

lemma get_set_item:
  assumes "plain_doc J d"
  shows "getItemCS J (set_item J key v d) k = (if k = key then v else getItemCS J d k)"
  using assms
  by (auto simp: plain_doc_def set_item_def delete_cs get_cs add_item map_of_del1_same map_add_def split: option.splits)

end

section \<open>What steps keep\<close>

text \<open>The saved document says that tokens were asked for.\<close>

definition file_marked :: "'j cjson \<Rightarrow> string \<Rightarrow> 't session_world \<Rightarrow> bool" where
  "file_marked J path W \<longleftrightarrow>
     (\<exists>s. sfiles W path = Some s \<and> (\<forall>d. parseText J (cstr s) = Some d \<longrightarrow> plain_doc J d \<and> marked J d))"

text \<open>What can be read of the saved document has no name twice.\<close>

definition file_plain :: "'j cjson \<Rightarrow> string \<Rightarrow> 't session_world \<Rightarrow> bool" where
  "file_plain J path W \<longleftrightarrow>
     (\<forall>s d. sfiles W path = Some s \<longrightarrow> parseText J (cstr s) = Some d \<longrightarrow> isObject J d \<longrightarrow> plain_doc J d)"

text \<open>From \<open>S\<close> to \<open>S'\<close> only methods of \<open>P\<close> were asked for, and the mark, once in the document, stays there and in the file.\<close>

definition login_keeps ::
  "'j cjson \<Rightarrow> string \<Rightarrow> string set \<Rightarrow> ('t, 'h, 'j) native_login \<Rightarrow> ('t, 'h, 'j) native_login \<Rightarrow> bool" where
  "login_keeps J path P S S' \<longleftrightarrow>
     (\<exists>ms. nl_asked S' = nl_asked S @ ms \<and> set ms \<subseteq> P) \<and>
     (plain_doc J (nl_state S) \<longrightarrow> plain_doc J (nl_state S') \<and>
        (file_plain J path (nl_files S) \<longrightarrow> file_plain J path (nl_files S')) \<and>
        (marked J (nl_state S) \<longrightarrow> marked J (nl_state S') \<and> (file_marked J path (nl_files S) \<longrightarrow> file_marked J path (nl_files S'))))"

named_theorems login_steps_keep \<open>what the parts of a login keep\<close>

lemma keeps_refl [login_steps_keep]: "login_keeps J path P S S"
  by (simp add: login_keeps_def)

lemma keeps_trans:
  assumes "login_keeps J path P S S1" and "login_keeps J path P S1 S2"
  shows "login_keeps J path P S S2"
proof -
  obtain ms ms' where "nl_asked S1 = nl_asked S @ ms" "set ms \<subseteq> P" "nl_asked S2 = nl_asked S1 @ ms'" "set ms' \<subseteq> P"
    using assms by (auto simp: login_keeps_def)
  then have "nl_asked S2 = nl_asked S @ (ms @ ms')" "set (ms @ ms') \<subseteq> P" by auto
  then show ?thesis using assms unfolding login_keeps_def by blast
qed

lemma keeps_mono: "login_keeps J path P S S' \<Longrightarrow> P \<subseteq> Q \<Longrightarrow> login_keeps J path Q S S'"
  unfolding login_keeps_def by blast

text \<open>Fields no claim is about.\<close>

lemma keeps_fields [login_steps_keep]:
  assumes "login_keeps J path P S S1"
  shows "login_keeps J path P S (S1\<lparr>nl_net := N\<rparr>)" "login_keeps J path P S (S1\<lparr>nl_failed := b\<rparr>)"
    "login_keeps J path P S (S1\<lparr>nl_shown := es\<rparr>)" "login_keeps J path P S (S1\<lparr>nl_error_code := n\<rparr>)"
    "login_keeps J path P S (S1\<lparr>nl_http_status := n\<rparr>)" "login_keeps J path P S (S1\<lparr>nl_curl_code := c\<rparr>)"
    "login_keeps J path P S (S1\<lparr>nl_request_error := m\<rparr>)" "login_keeps J path P S (S1\<lparr>nl_writes := k\<rparr>)"
  using assms by (simp_all add: login_keeps_def)

lemma keeps_status [login_steps_keep]:
  "login_keeps J path P S S1 \<Longrightarrow> login_keeps J path P S (login_status E message S1)"
  by (simp add: login_status_def login_steps_keep)

lemma keeps_fail [login_steps_keep]:
  "login_keeps J path P S S1 \<Longrightarrow> login_keeps J path P S (snd (login_fail E message S1))"
  by (simp add: login_fail_def login_steps_keep)

lemma keeps_ask:
  "login_keeps J path P S S1 \<Longrightarrow> m \<in> P \<Longrightarrow> login_keeps J path P S (S1\<lparr>nl_asked := nl_asked S1 @ [m]\<rparr>)"
  by (auto simp: login_keeps_def)

lemma keeps_put [login_steps_keep]:
  assumes "login_world J pr E" and "login_keeps J path P S S1" and "key \<noteq> ''nativeTokenRequestStarted''"
  shows "login_keeps J path P S (put_state E key v S1)"
  using assms(2,3) cjson_laws.set_item_plain [OF login_worldD(1) [OF assms(1)], of "nl_state S1" key v]
    cjson_laws.get_set_item [OF login_worldD(1) [OF assms(1)], of "nl_state S1" key v "''nativeTokenRequestStarted''"]
  by (simp add: login_keeps_def put_state_def login_worldD(3) [OF assms(1)] marked_def)

lemma keeps_copy [login_steps_keep]:
  assumes "login_world J pr E" and "login_keeps J path P S S1" and "key \<noteq> ''nativeTokenRequestStarted''"
  shows "login_keeps J path P S (copy_state E key source k S1)"
  using keeps_put [OF assms, where v = "jget J source k"] assms(2) login_worldD(3) [OF assms(1)]
  by (auto simp: copy_state_def copy_field_def put_state_def split: option.splits)

text \<open>A write of the session file leaves it as it was or holds the document.\<close>

lemma write_locked_file:
  assumes "session_write_locked E W (Some p) (Some r) = (W', ok)"
  shows "sfiles W' p = sfiles W p \<or> sfiles W' p = Some (pretty E r)" and "ok \<Longrightarrow> sfiles W' p = Some (pretty E r)"
  using assms by (auto simp: session_write_locked_eq Let_def put_file_def remove_file_def split: option.splits if_splits)

lemma printed_marked: "prints_back J pr \<Longrightarrow> plain_doc J d \<Longrightarrow> marked J d \<Longrightarrow> sfiles W path = Some (pr d) \<Longrightarrow> file_marked J path W"
  by (auto simp: file_marked_def prints_back_def)

lemma printed_plain: "prints_back J pr \<Longrightarrow> plain_doc J d \<Longrightarrow> sfiles W path = Some (pr d) \<Longrightarrow> file_plain J path W"
  by (auto simp: file_plain_def prints_back_def)

lemma login_save_cases:
  assumes "login_world J pr E" and "login_save E path S = (b, S')"
  obtains W where "S' = S\<lparr>nl_files := W, nl_writes := nl_writes S + 1, nl_failed := nl_failed S', nl_shown := nl_shown S'\<rparr>"
    "sfiles W path = sfiles (nl_files S) path \<or> sfiles W path = Some (pr (nl_state S))" "b \<Longrightarrow> sfiles W path = Some (pr (nl_state S))"
proof -
  obtain W ok where w: "session_write_locked (nl_se E (nl_writes S)) (nl_files S) (Some path) (Some (nl_state S)) = (W, ok)" by fastforce
  note f = write_locked_file [OF w, unfolded login_worldD(5) [OF assms(1)]]
  show thesis
    by (rule that [of W]) (use assms(2) w f in
      \<open>auto simp: login_save_def with_store_def enil_session_write_def login_fail_def login_status_def split: if_splits bool.splits\<close>)
qed

lemma keeps_save [login_steps_keep]:
  assumes "login_world J pr E" and "login_keeps J path P S S1"
  shows "login_keeps J path P S (snd (login_save E path S1))"
proof -
  obtain b S2 where s: "login_save E path S1 = (b, S2)" by fastforce
  from assms(1) s obtain W where W: "S2 = S1\<lparr>nl_files := W, nl_writes := nl_writes S1 + 1, nl_failed := nl_failed S2, nl_shown := nl_shown S2\<rparr>"
    "sfiles W path = sfiles (nl_files S1) path \<or> sfiles W path = Some (pr (nl_state S1))" by (rule login_save_cases)
  have "login_keeps J path P S1 (S1\<lparr>nl_files := W\<rparr>)"
    using W(2)
  proof
    assume "sfiles W path = sfiles (nl_files S1) path"
    then show ?thesis by (simp add: login_keeps_def file_marked_def file_plain_def)
  next
    assume "sfiles W path = Some (pr (nl_state S1))"
    then show ?thesis
      using printed_marked [OF login_worldD(2) [OF assms(1)], of "nl_state S1" W path]
        printed_plain [OF login_worldD(2) [OF assms(1)], of "nl_state S1" W path] by (auto simp: login_keeps_def)
  qed
  then have "login_keeps J path P S1 S2" by (subst W(1)) (intro login_steps_keep)
  with assms(2) s show ?thesis by (simp add: keeps_trans)
qed

text \<open>The same facts about a named result, for the case splits of the steps.\<close>

lemma keeps_save' [login_steps_keep]:
  "login_save E path S1 = (b, S2) \<Longrightarrow> login_world J pr E \<Longrightarrow> login_keeps J path P S S1 \<Longrightarrow> login_keeps J path P S S2"
  using keeps_save [of J pr E path P S S1] by simp

lemma keeps_fail' [login_steps_keep]:
  "login_fail E message S1 = (b, S2) \<Longrightarrow> login_keeps J path P S S1 \<Longrightarrow> login_keeps J path P S S2"
  using keeps_fail [of J path P S S1 E message] by simp

lemma keeps_call_done:
  "call_done E method result S1 = (result', S2) \<Longrightarrow> login_keeps J path P S S1 \<Longrightarrow> login_keeps J path P S S2"
  by (auto simp: call_done_def Let_def split: if_splits intro!: keeps_status keeps_fields)

lemma keeps_judge:
  assumes "judge_reply E path method polling reply S1 = (result, S2)" and "login_world J pr E" and "login_keeps J path P S S1"
  shows "login_keeps J path P S S2"
proof (cases "fst (login_decode E method reply)")
  case None
  then have "S2 = snd (login_fail E ''Invalid login response; reply saved'' S1)"
    using assms(1) by (auto simp: judge_reply_def Let_def split: prod.splits)
  then show ?thesis using assms(3) by (simp add: keeps_fail)
next
  case (Some doc)
  then obtain exc where dec: "login_decode E method reply = (Some doc, exc)" by (cases "login_decode E method reply") auto
  have put: "login_keeps J path P S (put_state E ''lastNativeResponse'' (Some doc) S1)"
    by (rule keeps_put [OF assms(2,3)]) simp
  obtain b S3 where s: "login_save E path (put_state E ''lastNativeResponse'' (Some doc) S1) = (b, S3)" by fastforce
  have S3: "login_keeps J path P S S3" by (rule keeps_save' [OF s assms(2) put])
  have "S2 = S3 \<or> (\<exists>n m. S2 = login_status E m (S3\<lparr>nl_error_code := n, nl_request_error := m\<rparr>))"
    using assms(1) unfolding judge_reply_def dec s by (cases b) (auto simp: Let_def s split: option.splits if_splits)
  then show ?thesis using S3 by (auto intro!: keeps_status keeps_fields)
qed

lemma exchange_asks:
  assumes "exchange E path method polling c S1 = (result, S2)" and "login_world J pr E"
  shows "login_keeps J path {} (S1\<lparr>nl_asked := nl_asked S1 @ [method]\<rparr>) S2"
proof -
  obtain r N where t: "transfer (nl_ne E) c (nl_net S1) = (r, N)" by fastforce
  define S0 where "S0 = S1\<lparr>nl_asked := nl_asked S1 @ [method]\<rparr>"
  define S3 where "S3 = put_state E ''lastNativeResponseBase64'' (Some (mkString (nj E) (enil_b64_encode (evp_encode (nl_thrift E))
      (case map_option bytes_of (buffered r) of None \<Rightarrow> [] | Some bs \<Rightarrow> bs))))
    (put_state E ''lastNativeHttpStatus'' (Some (mkNumber (nj E) (of_int (http_status r))))
      (put_state E ''lastNativeMethod'' (Some (mkString (nj E) method))
        (S1\<lparr>nl_net := N, nl_asked := nl_asked S1 @ [method], nl_curl_code := rc r, nl_http_status := http_status r\<rparr>)))"
  have "login_keeps J path {} S0 (S1\<lparr>nl_net := N, nl_asked := nl_asked S1 @ [method], nl_curl_code := rc r, nl_http_status := http_status r\<rparr>)"
    by (simp add: login_keeps_def S0_def)
  then have S3: "login_keeps J path {} S0 S3"
    unfolding S3_def by (intro keeps_put [OF assms(2)]) auto
  obtain b S4 where s: "login_save E path S3 = (b, S4)" by fastforce
  have S4: "login_keeps J path {} S0 S4" by (rule keeps_save' [OF s assms(2) S3])
  have e: "exchange E path method polling c S1 =
      (case login_save E path S3 of (False, S4) \<Rightarrow> (None, S4)
       | (True, S4) \<Rightarrow> if rc r \<noteq> CURLE_OK \<or> http_status r \<noteq> 200 then (None, S4)
           else judge_reply E path method polling (map_option bytes_of (buffered r)) S4)"
    by (simp add: exchange_def Let_def t S3_def)
  from assms(1) s S4 show ?thesis
    by (auto simp: e S0_def [symmetric] split: if_splits bool.splits dest: keeps_judge [OF _ assms(2) S4])
qed

lemma call_outcome:
  fixes S :: "('t, 'h, 'j) native_login"
  defines "S0 \<equiv> S\<lparr>nl_error_code := - 1, nl_http_status := 0, nl_curl_code := CURLE_OK, nl_request_error := []\<rparr>"
  shows "\<exists>ou. login_call E path method polling S = (case ou of (r, S1) \<Rightarrow> call_done E method r S1) \<and>
    (ou = (None, S0) \<or> (\<exists>c. ou = exchange E path method (polling \<noteq> None) c S0))"
  unfolding login_call_def Let_def S0_def [symmetric]
  by (rule exI, rule conjI, rule refl) (auto split: option.split prod.split bool.split)

text \<open>A call sends its method at most once.\<close>

lemma call_asks:
  assumes "login_call E path method polling S1 = (result, S2)" and "login_world J pr E"
  shows "login_keeps J path {} S1 S2 \<or> login_keeps J path {} (S1\<lparr>nl_asked := nl_asked S1 @ [method]\<rparr>) S2"
proof -
  define S0 where "S0 = S1\<lparr>nl_error_code := - 1, nl_http_status := 0, nl_curl_code := CURLE_OK, nl_request_error := []\<rparr>"
  obtain ou where ou: "(case ou of (r, S3) \<Rightarrow> call_done E method r S3) = (result, S2)"
      "ou = (None, S0) \<or> (\<exists>c. ou = exchange E path method (polling \<noteq> None) c S0)"
    using call_outcome [of E path "method" polling S1] assms(1) unfolding S0_def [symmetric] by metis
  obtain r S3 where r: "ou = (r, S3)" by fastforce
  from ou(2) have "login_keeps J path {} S1 S3 \<or> login_keeps J path {} (S1\<lparr>nl_asked := nl_asked S1 @ [method]\<rparr>) S3"
  proof
    assume "ou = (None, S0)"
    then have "S3 = S0" using r by simp
    then show ?thesis by (simp add: S0_def login_keeps_def)
  next
    assume "\<exists>c. ou = exchange E path method (polling \<noteq> None) c S0"
    then obtain c where c: "exchange E path method (polling \<noteq> None) c S0 = (r, S3)" using r by auto
    have "login_keeps J path {} (S1\<lparr>nl_asked := nl_asked S1 @ [method]\<rparr>) (S0\<lparr>nl_asked := nl_asked S0 @ [method]\<rparr>)"
      by (simp add: S0_def login_keeps_def)
    with exchange_asks [OF c assms(2)] keeps_trans show ?thesis by blast
  qed
  with ou(1) r show ?thesis by (auto intro: keeps_call_done)
qed

lemma keeps_call:
  assumes "login_call E path method polling S1 = (result, S2)" and "login_world J pr E" and "login_keeps J path P S S1" and "method \<in> P"
  shows "login_keeps J path P S S2"
  using call_asks [OF assms(1,2)] keeps_ask [OF assms(3,4)] assms(3) keeps_mono [of J path "{}" _ S2 P] keeps_trans
  by (metis empty_subsetI)

lemma keeps_rounds:
  assumes "login_world J pr E" and "method \<in> P"
  shows "poll_rounds E path method count interval is S1 = (b, S2) \<Longrightarrow> login_keeps J path P S S1 \<Longrightarrow> login_keeps J path P S S2"
proof (induction "is" arbitrary: S1)
  case (Cons i "is")
  define S0 where "S0 = (if method = ''checkQrCodeVerified''
      then login_status E (take 99 (''waiting for scan ('' @ show_int (int i + 1) @ ''/'' @ show_int count @ '')'')) S1 else S1)"
  have S0: "login_keeps J path P S S0" using Cons.prems(2) by (simp add: S0_def keeps_status)
  obtain result S3 where c: "login_call E path method (Some interval) S0 = (result, S3)" by fastforce
  have S3: "login_keeps J path P S S3" by (rule keeps_call [OF c assms(1) S0 assms(2)])
  from Cons.prems c S3 Cons.IH [OF _ S3] show ?case
    by (auto simp: S0_def [symmetric] Let_def split: if_splits option.splits)
qed simp

lemma keeps_poll:
  "login_poll E path method count interval S1 = (b, S2) \<Longrightarrow> login_world J pr E \<Longrightarrow> login_keeps J path P S S1 \<Longrightarrow> method \<in> P \<Longrightarrow>
   login_keeps J path P S S2"
  unfolding login_poll_def by (rule keeps_rounds)

section \<open>The store's operations\<close>

lemma parsed_profile: "enil_identity_parse J json = (True, i) \<Longrightarrow> CHR ''/'' \<notin> set (profile_id i)"
  by (auto simp: enil_identity_parse_def Let_def enil_identity_default_def legacy_chrome_identity_def
      split: option.splits if_splits prod.splits)

lemma certificate_leaves:
  assumes "enil_session_save_login_certificate e W (Some path) doc = (W', ok)" and "plain_calls e"
  shows "sfiles W' (session_file d) = sfiles W (session_file d)"
proof (cases "login_certificate_path e (Some path) doc")
  case None
  with assms(1) show ?thesis by (simp add: enil_session_save_login_certificate_def Let_def)
next
  case (Some cert)
  then have "\<exists>up i. enil_identity_parse (sj e) (jget (sj e) doc ''clientIdentity'') = (True, i) \<and>
      cert = up @ ''/'' @ ''.qr-certificate-'' @ profile_id i @ ''.json''"
    by (auto simp: login_certificate_path_def Let_def split: if_splits option.splits prod.splits)
  then obtain up i where "enil_identity_parse (sj e) (jget (sj e) doc ''clientIdentity'') = (True, i)"
      and i: "cert = join up (''.qr-certificate-'' @ profile_id i @ ''.json'')"
    by (auto simp: join_def)
  then have name: "CHR ''/'' \<notin> set (profile_id i)" by (auto dest: parsed_profile)
  have "W' = W \<or> (\<exists>r ok. session_write_locked e W (Some cert) (Some r) = (W', ok))"
    using assms(1) Some by (auto simp: enil_session_save_login_certificate_def Let_def enil_session_write_def split: option.splits if_splits)
  then show ?thesis
  proof
    assume "\<exists>r ok. session_write_locked e W (Some cert) (Some r) = (W', ok)"
    then obtain r ok where w: "session_write_locked e W (Some (join up (''.qr-certificate-'' @ profile_id i @ ''.json''))) (Some r) = (W', ok)"
      using i by auto
    have "leaves_files (\<lambda>m. take (length (''.qr-certificate-'' @ profile_id i @ ''.json'')) m = ''.qr-certificate-'' @ profile_id i @ ''.json'') W W'"
      by (rule write_leaves(1) [OF w assms(2)]) (simp add: name)
    then show ?thesis unfolding leaves_files_def using file_base [of d] by force
  qed simp
qed

lemma login_id_file:
  assumes "cjson_laws J" and "prints_back J pr" and "sj e = J" and "pretty e = pr"
    and "enil_session_login_id e W (Some path) = (W', i)"
  shows "file_marked J path W \<Longrightarrow> file_marked J path W'" and "file_plain J path W \<Longrightarrow> file_plain J path W'"
proof -
  obtain doc' j where a: "add_login_id e (enil_session_read e W (Some path)) = (doc', j)" by fastforce
  obtain W1 ok where w: "session_write_locked e W (Some path) doc' = (W1, ok)" by fastforce
  have W': "W' = W \<or> (W' = W1 \<and> j \<noteq> None)"
    using assms(5) a w by (auto simp: enil_session_login_id_def Let_def assms(3) split: option.splits if_splits)
  have "sfiles W' path = sfiles W path \<or>
    (\<exists>s d r. sfiles W path = Some s \<and> parseText J (cstr s) = Some d \<and> sfiles W' path = Some (pr r) \<and>
       (r = d \<or> (isObject J d \<and> getItemCS J d ''loginId'' = None \<and> (\<exists>v. r = addItem J d ''loginId'' v))))"
  proof (cases "W' = W \<or> doc' = None")
    case True
    with W' w show ?thesis by (auto simp: session_write_locked_eq)
  next
    case False
    with W' obtain r where r: "doc' = Some r" "W' = W1" "j \<noteq> None" by auto
    from r(3) a obtain d where d: "enil_session_read e W (Some path) = Some d"
      by (cases "enil_session_read e W (Some path)") (auto simp: add_login_id_def assms(3))
    then obtain s where "sfiles W path = Some s" "parseText J (cstr s) = Some d"
      using assms(3) by (auto simp: enil_session_read_def split: if_splits option.splits)
    moreover have "r = d \<or> (isObject J d \<and> getItemCS J d ''loginId'' = None \<and> (\<exists>v. r = addItem J d ''loginId'' v))"
      using a d r(1) by (auto simp: add_login_id_def Let_def assms(3) split: option.splits if_splits)
    ultimately show ?thesis using write_locked_file(1) [of e W path r W1 ok] w r(1,2) assms(4) by auto
  qed
  then consider (same) "sfiles W' path = sfiles W path"
    | (new) s d r where "sfiles W path = Some s" "parseText J (cstr s) = Some d" "sfiles W' path = Some (pr r)"
        "r = d \<or> (isObject J d \<and> getItemCS J d ''loginId'' = None \<and> (\<exists>v. r = addItem J d ''loginId'' v))" by blast
  note how = this
  have added: "plain_doc J (addItem J d ''loginId'' v) \<and> (marked J d \<longrightarrow> marked J (addItem J d ''loginId'' v))"
    if "plain_doc J d" "getItemCS J d ''loginId'' = None" for d v
  proof -
    have "''loginId'' \<notin> fst ` set (children J d)"
      using that by (simp add: plain_doc_def cjson_laws.get_cs [OF assms(1)] map_of_eq_None_iff)
    then have "plain_doc J (addItem J d ''loginId'' v)" using that(1) by (simp add: plain_doc_def cjson_laws.add_item [OF assms(1)])
    moreover have "marked J d \<Longrightarrow> marked J (addItem J d ''loginId'' v)"
      using that by (cases "getItemCS J d ''nativeTokenRequestStarted''")
        (simp_all add: marked_def plain_doc_def cjson_laws.get_add [OF assms(1)])
    ultimately show ?thesis by simp
  qed
  show "file_marked J path W'" if m: "file_marked J path W"
    using how
  proof cases
    case (new s d r)
    then have "plain_doc J d" "marked J d" using m by (auto simp: file_marked_def)
    then have "plain_doc J r" "marked J r" using new(4) added by blast+
    then show ?thesis using printed_marked [OF assms(2) _ _ new(3)] by blast
  qed (use m in \<open>simp add: file_marked_def\<close>)
  show "file_plain J path W'" if m: "file_plain J path W"
    using how
  proof cases
    case (new s d r)
    show ?thesis
    proof (cases "isObject J d")
      case True
      then have "plain_doc J d" using m new(1,2) by (auto simp: file_plain_def)
      then have "plain_doc J r" using new(4) added by blast
      then show ?thesis by (rule printed_plain [OF assms(2) _ new(3)])
    next
      case False
      then have "r = d" using new(4) by blast
      with new(3) False assms(2) show ?thesis by (auto simp: file_plain_def prints_back_def)
    qed
  qed (use m in \<open>simp add: file_plain_def\<close>)
qed

lemma keeps_login_id:
  assumes "take_login_id E path S1 = (b, S2)" and "login_world J pr E" and "login_keeps J path P S S1"
  shows "login_keeps J path P S S2"
proof -
  obtain W i where l: "enil_session_login_id (nl_se E (nl_writes S1)) (nl_files S1) (Some path) = (W, i)" by fastforce
  note world = login_worldD [OF assms(2)]
  have "login_keeps J path P S1 (S1\<lparr>nl_files := W\<rparr>)"
    using login_id_file [OF world(1,2,4,5) l] by (simp add: login_keeps_def)
  then have W: "login_keeps J path P S (S1\<lparr>nl_files := W\<rparr>)" using assms(3) keeps_trans by blast
  have "login_keeps J path P S (S1\<lparr>nl_files := W, nl_writes := nl_writes S1 + 1\<rparr>)"
    using keeps_fields(8) [OF W, where k = "nl_writes S1 + 1"] by simp
  with assms(1) l show ?thesis
    by (auto simp: take_login_id_def with_store_def split: option.splits intro!: keeps_put [OF assms(2)])
qed

context cjson_laws
begin

lemma copy_field_plain: "plain_doc J d \<Longrightarrow> plain_doc J (copy_field J key source k d)"
  by (simp add: copy_field_def set_item_plain split: option.split)

lemma get_copy_field: "plain_doc J d \<Longrightarrow> key' \<noteq> key \<Longrightarrow> getItemCS J (copy_field J key source k d) key' = getItemCS J d key'"
  by (simp add: copy_field_def get_set_item split: option.split)

lemma result_fields_kept:
  assumes "plain_doc J d"
  shows "plain_doc J (result_fields J result d)"
    and "getItemCS J (result_fields J result d) ''nativeTokenRequestStarted'' = getItemCS J d ''nativeTokenRequestStarted''"
  using assms by (simp_all add: result_fields_def Let_def copy_field_plain set_item_plain get_copy_field get_set_item)

end

lemma keeps_result:
  assumes "save_login_result E path result S1 = (b, S2)" and "path = session_file d" and "login_world J pr E" and "login_keeps J path P S S1"
  shows "login_keeps J path P S S2"
proof -
  note world = login_worldD [OF assms(3)]
  define S3 where "S3 = S1\<lparr>nl_state := result_fields (nj E) result (nl_state S1)\<rparr>"
  have "login_keeps J path P S1 S3"
    using cjson_laws.result_fields_kept [OF world(1)] by (simp add: S3_def login_keeps_def world(3) marked_def)
  then have S3: "login_keeps J path P S S3" using assms(4) keeps_trans by blast
  obtain ok S4 where s: "login_save E path S3 = (ok, S4)" by fastforce
  have S4: "login_keeps J path P S S4" by (rule keeps_save' [OF s assms(3) S3])
  obtain W c where w: "enil_session_save_login_certificate (nl_se E (nl_writes S4)) (nl_files S4) (Some path) (Some (nl_state S4)) = (W, c)"
    by fastforce
  have "login_keeps J path P S4 (S4\<lparr>nl_files := W, nl_writes := nl_writes S4 + 1\<rparr>)"
    using certificate_leaves [OF w world(6), of d] assms(2) by (simp add: login_keeps_def file_marked_def file_plain_def)
  then have "login_keeps J path P S (S4\<lparr>nl_files := W, nl_writes := nl_writes S4 + 1\<rparr>)" using S4 keeps_trans by blast
  with assms(1) s w S4 show ?thesis
    by (auto simp: save_login_result_def S3_def [symmetric] with_store_def split: bool.splits if_splits)
qed

section \<open>The steps\<close>

definition token_method :: string where "token_method = ''qrCodeLoginV2ForSecure''"

abbreviation other_methods :: "string set" where "other_methods \<equiv> - {token_method}"

lemma keeps_start:
  assumes "start_document E path S1 = (b, S2)" and "login_world J pr E" and "login_keeps J path P S S1"
  shows "login_keeps J path P S S2"
proof -
  have put: "login_keeps J path P S (put_state E ''nativeTransport'' v S1)" for v
    by (rule keeps_put [OF assms(2,3)]) simp
  have put2: "login_keeps J path P S (put_state E ''clientIdentity'' w (put_state E ''nativeTransport'' v S1))" for v w
    by (rule keeps_put [OF assms(2) put]) simp
  show ?thesis
    using assms(1) unfolding start_document_def Let_def
    by (auto simp: put split: option.splits if_splits dest: keeps_save' [OF _ assms(2) put] keeps_save' [OF _ assms(2) put2])
qed

lemma keeps_key:
  assumes "prepare_key E path S1 = (b, S2)" and "login_world J pr E" and "login_keeps J path P S S1"
  shows "login_keeps J path P S S2"
proof (cases "state_str E S1 ''e2eePublicKey'' = None")
  case True
  define S3 where "S3 = login_status E ''Preparing login key'' S1"
  obtain key N where k: "enil_worker_keygen (nl_ne E) (nl_thread E) None (nl_net S3) = (key, N)" by fastforce
  have N: "login_keeps J path P S (S3\<lparr>nl_net := N\<rparr>)"
    unfolding S3_def by (intro keeps_fields keeps_status assms(3))
  have put: "login_keeps J path P S (put_state E ''workerRestoreState'' u (put_state E ''e2eeKeyId'' v (put_state E ''e2eePublicKey'' w (S3\<lparr>nl_net := N\<rparr>))))"
    for u v w by (intro keeps_put [OF assms(2)] N) auto
  from assms(1) True k show ?thesis
    by (cases key) (auto simp: prepare_key_def Let_def S3_def [symmetric] dest: keeps_fail' [OF _ N] keeps_save' [OF _ assms(2) put])
qed (use assms in \<open>auto simp: prepare_key_def Let_def\<close>)

lemma keeps_session:
  assumes "create_session E path S1 = (b, S2)" and "login_world J pr E" and "login_keeps J path P S S1" and "other_methods \<subseteq> P"
  shows "login_keeps J path P S S2"
proof (cases "state_str E S1 ''authSessionId'' = None")
  case True
  obtain result S3 where c: "login_call E path ''createSession'' None (login_status E ''Creating QR session'' S1) = (result, S3)" by fastforce
  have S3: "login_keeps J path P S S3"
    by (rule keeps_call [OF c assms(2) keeps_status [OF assms(3)]]) (use assms(4) in \<open>auto simp: token_method_def\<close>)
  have copy: "login_keeps J path P S (copy_state E ''authSessionId'' result ''1'' S3)"
    by (rule keeps_copy [OF assms(2) S3]) simp
  from assms(1) True c S3 show ?thesis
    by (auto simp: create_session_def split: if_splits dest: keeps_save' [OF _ assms(2) copy])
qed (use assms in \<open>auto simp: create_session_def\<close>)

lemma keeps_qr_code:
  assumes "create_qr_code E path S1 = (b, S2)" and "login_world J pr E" and "login_keeps J path P S S1" and "other_methods \<subseteq> P"
  shows "login_keeps J path P S S2"
proof (cases "state_str E S1 ''callbackUrl'' = None")
  case True
  obtain result S3 where c: "login_call E path ''createQrCodeForSecure'' None S1 = (result, S3)" by fastforce
  have S3: "login_keeps J path P S S3"
    by (rule keeps_call [OF c assms(2,3)]) (use assms(4) in \<open>auto simp: token_method_def\<close>)
  define S4 where "S4 = copy_state E ''longPollingIntervalSec'' result ''3'' (copy_state E ''longPollingMaxCount'' result ''2''
    (copy_state E ''nativeQrNonce'' result ''4'' (copy_state E ''callbackUrl'' result ''1'' S3)))"
  have "login_keeps J path P S S4" unfolding S4_def by (intro keeps_copy [OF assms(2)] S3) auto
  then have put: "login_keeps J path P S (put_state E ''createdAt'' v S4)" for v by (intro keeps_put [OF assms(2)]) auto
  from assms(1) True c S3 show ?thesis
    by (auto simp: create_qr_code_def Let_def S4_def [symmetric] split: if_splits dest: keeps_save' [OF _ assms(2) put])
qed (use assms in \<open>auto simp: create_qr_code_def\<close>)

lemma keeps_limits: "check_limits E S1 = (b, S2) \<Longrightarrow> login_keeps J path P S S1 \<Longrightarrow> login_keeps J path P S S2"
  by (auto simp: check_limits_def Let_def split: if_splits dest: keeps_fail')

lemma keeps_show_qr: "show_qr E S1 = (b, S2) \<Longrightarrow> login_keeps J path P S S1 \<Longrightarrow> login_keeps J path P S S2"
  by (auto simp: show_qr_def Let_def split: option.splits if_splits intro!: keeps_fields)

lemma keeps_scan:
  assumes "wait_for_scan E path S1 = (b, S2)" and "login_world J pr E" and "login_keeps J path P S S1" and "other_methods \<subseteq> P"
  shows "login_keeps J path P S S2"
proof -
  obtain ok S3 where p: "login_poll E path ''checkQrCodeVerified'' (poll_count E S1) (poll_interval E S1) S1 = (ok, S3)" by fastforce
  have S3: "login_keeps J path P S S3"
    by (rule keeps_poll [OF p assms(2,3)]) (use assms(4) in \<open>auto simp: token_method_def\<close>)
  have put: "login_keeps J path P S (put_state E ''nativeScanVerified'' v S3)" for v by (rule keeps_put [OF assms(2) S3]) simp
  from assms(1,3) p S3 show ?thesis
    by (cases ok) (auto simp: wait_for_scan_def split: if_splits dest: keeps_save' [OF _ assms(2) put])
qed

lemma keeps_pin:
  assumes "confirm_pin E path count interval S1 = (b, S2)" and "login_world J pr E" and "login_keeps J path P S S1" and "other_methods \<subseteq> P"
  shows "login_keeps J path P S S2"
proof -
  obtain result S3 where c: "login_call E path ''createPinCode'' None S1 = (result, S3)" by fastforce
  have S3: "login_keeps J path P S S3"
    by (rule keeps_call [OF c assms(2,3)]) (use assms(4) in \<open>auto simp: token_method_def\<close>)
  have poll: "login_keeps J path P S S5" if "login_poll E path ''checkPinCodeVerified'' count interval (login_status E m S4) = (b, S5)"
    "S4 = S3 \<or> (\<exists>es. S4 = S3\<lparr>nl_shown := es\<rparr>)" for m S4 S5
  proof (rule keeps_poll [OF that(1) assms(2)])
    show "login_keeps J path P S (login_status E m S4)" using that(2) S3 by (auto intro: keeps_status keeps_fields)
  qed (use assms(4) in \<open>auto simp: token_method_def\<close>)
  from assms(1) c S3 show ?thesis
    by (auto simp: confirm_pin_def Let_def split: option.splits if_splits dest: poll)
qed

lemma keeps_device:
  assumes "verify_device E path S1 = (b, S2)" and "login_world J pr E" and "login_keeps J path P S S1" and "other_methods \<subseteq> P"
  shows "login_keeps J path P S S2"
proof (cases "state_true E S1 ''nativePinVerified''")
  case False
  note world = login_worldD [OF assms(2)]
  obtain doc ok where l: "enil_session_load_login_certificate (nl_se E (nl_writes S1)) (nl_files S1) (Some path) (Some (nl_state S1)) = (doc, ok)"
    by fastforce
  define S3 where "S3 = S1\<lparr>nl_state := the doc\<rparr>"
  have "the doc = nl_state S1 \<or> (\<exists>v. the doc = set_item J ''certificate'' (Some v) (nl_state S1))"
    using l by (auto simp: enil_session_load_login_certificate_def Let_def set_item_def world(4) split: option.splits if_splits)
  then have "login_keeps J path P S1 S3"
    using cjson_laws.set_item_plain [OF world(1)] cjson_laws.get_set_item [OF world(1)]
    by (auto simp: S3_def login_keeps_def marked_def)
  then have S3: "login_keeps J path P S S3" using assms(3) keeps_trans by blast
  obtain result S4 where c: "login_call E path ''verifyCertificate'' None S3 = (result, S4)" by fastforce
  have S4: "login_keeps J path P S S4"
    by (rule keeps_call [OF c assms(2) S3]) (use assms(4) in \<open>auto simp: token_method_def\<close>)
  obtain pin S5 where p: "confirm_pin E path (poll_count E S1) (poll_interval E S1) S4 = (pin, S5)" by fastforce
  have S5: "login_keeps J path P S S5" by (rule keeps_pin [OF p assms(2) S4 assms(4)])
  have put: "login_keeps J path P S (put_state E ''nativePinVerified'' v S6)" if "S6 = S4 \<or> S6 = S5" for v S6
    by (rule keeps_put [OF assms(2)]) (use that S4 S5 in auto)
  from assms(1) False l c p S4 S5 show ?thesis
    by (cases result; cases pin)
      (auto simp: verify_device_def Let_def S3_def [symmetric] split: if_splits dest: keeps_fail' [OF _ S3] keeps_save' [OF _ assms(2) put])
qed (use assms in \<open>auto simp: verify_device_def Let_def\<close>)

lemma keeps_steps:
  assumes "\<And>f S1 b S2. f \<in> set fs \<Longrightarrow> f S1 = (b, S2) \<Longrightarrow> login_keeps J path P S S1 \<Longrightarrow> login_keeps J path P S S2"
  shows "login_steps fs S1 = (b, S2) \<Longrightarrow> login_keeps J path P S S1 \<Longrightarrow> login_keeps J path P S S2"
  using assms
proof (induction fs arbitrary: S1)
  case (Cons f fs)
  obtain ok S3 where f: "f S1 = (ok, S3)" by fastforce
  have S3: "login_keeps J path P S S3" using Cons.prems(3) [of f S1 ok S3] f Cons.prems(2) by simp
  have "login_keeps J path P S S2" if "login_steps fs S3 = (b, S2)"
    using that S3
  proof (rule Cons.IH)
    show "login_keeps J path P S V2" if "g \<in> set fs" "g V1 = (c, V2)" "login_keeps J path P S V1" for g V1 c V2
      using Cons.prems(3) [of g V1 c V2] that by simp
  qed
  with Cons.prems(1) f S3 show ?case by (cases ok) auto
qed simp

lemma keeps_prefix:
  assumes "login_steps (login_prefix E path) S1 = (b, S2)" and "login_world J pr E" and "login_keeps J path P S S1" and "other_methods \<subseteq> P"
  shows "login_keeps J path P S S2"
  using assms(1,3)
proof (rule keeps_steps [rotated])
  fix f S1 b S2
  assume f: "f \<in> set (login_prefix E path)" "f S1 = (b, S2)" "login_keeps J path P S S1"
  then show "login_keeps J path P S S2"
    using keeps_start [OF _ assms(2)] keeps_login_id [OF _ assms(2)] keeps_key [OF _ assms(2)] keeps_session [OF _ assms(2) _ assms(4)]
      keeps_qr_code [OF _ assms(2) _ assms(4)] keeps_limits keeps_show_qr keeps_scan [OF _ assms(2) _ assms(4)] keeps_device [OF _ assms(2) _ assms(4)]
    by (auto simp: login_prefix_def)
qed

section \<open>Saved tokens\<close>

text \<open>The saved document holds an access token.\<close>

definition file_signed_in :: "'j cjson \<Rightarrow> string \<Rightarrow> 't session_world \<Rightarrow> bool" where
  "file_signed_in J path W \<longleftrightarrow> (\<exists>s. sfiles W path = Some s \<and> (\<forall>d. parseText J (cstr s) = Some d \<longrightarrow> signed_in J d))"

lemma printed_signed_in:
  "prints_back J pr \<Longrightarrow> plain_doc J d \<Longrightarrow> signed_in J d \<Longrightarrow> sfiles W path = Some (pr d) \<Longrightarrow> file_signed_in J path W"
  by (auto simp: file_signed_in_def prints_back_def)

lemma login_save_ok:
  assumes "login_world J pr E" and "login_save E path S = (True, S')"
  shows "sfiles (nl_files S') path = Some (pr (nl_state S))" and "nl_state S' = nl_state S"
proof -
  from assms obtain W where W: "S' = S\<lparr>nl_files := W, nl_writes := nl_writes S + 1, nl_failed := nl_failed S', nl_shown := nl_shown S'\<rparr>"
    "True \<Longrightarrow> sfiles W path = Some (pr (nl_state S))" by (rule login_save_cases) blast
  show "sfiles (nl_files S') path = Some (pr (nl_state S))" by (subst W(1)) (simp add: W(2))
  show "nl_state S' = nl_state S" by (subst W(1)) simp
qed

lemma save_result_writes:
  assumes "save_login_result E path result S = (True, S')" and "path = session_file dir" and "login_world J pr E"
  shows "sfiles (nl_files S') path = Some (pr (nl_state S'))" and "nl_state S' = result_fields J result (nl_state S)"
proof -
  note world = login_worldD [OF assms(3)]
  define S3 where "S3 = S\<lparr>nl_state := result_fields (nj E) result (nl_state S)\<rparr>"
  obtain ok S4 where s: "login_save E path S3 = (ok, S4)" by fastforce
  from assms(1) s have ok by (auto simp: save_login_result_def S3_def [symmetric] split: bool.splits)
  from s \<open>ok\<close> have s1: "login_save E path S3 = (True, S4)" by simp
  note S4 = login_save_ok [OF assms(3) s1]
  obtain W c where w: "enil_session_save_login_certificate (nl_se E (nl_writes S4)) (nl_files S4) (Some path) (Some (nl_state S4)) = (W, c)"
    by fastforce
  from assms(1) s w \<open>ok\<close> have S': "S' = S4 \<or> S' = S4\<lparr>nl_files := W, nl_writes := nl_writes S4 + 1\<rparr>"
    by (auto simp: save_login_result_def S3_def [symmetric] with_store_def split: if_splits)
  then have "sfiles (nl_files S') path = sfiles (nl_files S4) path" "nl_state S' = nl_state S3"
    using certificate_leaves [OF w world(6), of dir] assms(2) S4 by auto
  then show "sfiles (nl_files S') path = Some (pr (nl_state S'))" "nl_state S' = result_fields J result (nl_state S)"
    using S4 by (simp_all add: S3_def world(3))
qed

lemma state_signed_in: "login_world J pr E \<Longrightarrow> state_str E S ''accessToken'' \<noteq> None \<longleftrightarrow> signed_in J (nl_state S)"
  by (simp add: signed_in_def login_worldD(3))

context cjson_laws
begin

lemma set_item_signed_in:
  "plain_doc J d \<Longrightarrow> key \<noteq> ''accessToken'' \<Longrightarrow> signed_in J (set_item J key v d) = signed_in J d"
  by (simp add: signed_in_def doc_string_def get_set_item)

lemma copy_signed_in:
  "plain_doc J d \<Longrightarrow> key \<noteq> ''accessToken'' \<Longrightarrow> signed_in J (copy_field J key source k d) = signed_in J d"
  by (simp add: signed_in_def doc_string_def get_copy_field)

lemma token_copied:
  assumes "plain_doc J d" and "doc_string J (getItemCS J result ''3'') ''1'' \<noteq> None"
  shows "signed_in J (result_fields J result d)"
proof -
  obtain t where t: "jget J (getItemCS J result ''3'') ''1'' = Some t" "isString J t"
    using assms(2) by (cases "jget J (getItemCS J result ''3'') ''1''") (auto simp: doc_string_def split: if_splits)
  have "signed_in J (copy_field J ''accessToken'' (getItemCS J result ''3'') ''1'' (set_item J ''nativeLoginResult'' (Some result) d))"
    using assms(1) t by (simp add: signed_in_def doc_string_def copy_field_def get_set_item set_item_plain)
  then show ?thesis
    using assms(1) by (simp add: result_fields_def Let_def copy_signed_in copy_field_plain set_item_plain)
qed

end

lemma keeps_unwrap:
  assumes "unwrap_keychain E path result S1 = (b, S2)" and "login_world J pr E" and "login_keeps J path P S S1"
  shows "login_keeps J path P S S2"
    and "b \<Longrightarrow> plain_doc J (nl_state S1) \<Longrightarrow> signed_in J (nl_state S1) \<Longrightarrow> file_signed_in J path (nl_files S1) \<Longrightarrow>
      file_signed_in J path (nl_files S2)"
proof -
  note world = login_worldD [OF assms(2)]
  define upd where "upd = (\<lambda>N keys state. copy_state E ''e2eeLatestKeyId'' (getItemCS J result ''10'') ''keyId''
     (put_state E ''workerRestoreState'' state (put_state E ''e2eeKeys'' (Some keys) (S1\<lparr>nl_net := N\<rparr>))))"
  have cases: "(b \<and> (S2 = S1 \<or> (\<exists>N. S2 = S1\<lparr>nl_net := N\<rparr>))) \<or> (\<exists>N keys state. login_save E path (upd N keys state) = (b, S2))"
    using assms(1) unfolding unwrap_keychain_def Let_def upd_def
    by (auto simp: world(3) split: if_splits option.splits prod.splits)
  have upd: "login_keeps J path P S (upd N keys state)" for N keys state
    unfolding upd_def by (intro keeps_copy [OF assms(2)] keeps_put [OF assms(2)] keeps_fields assms(3)) auto
  from cases show "login_keeps J path P S S2"
    using assms(3) upd by (auto intro: keeps_fields keeps_save' [OF _ assms(2)])
  show "file_signed_in J path (nl_files S2)"
    if b and st: "plain_doc J (nl_state S1)" "signed_in J (nl_state S1)" and f: "file_signed_in J path (nl_files S1)"
  proof (cases "\<exists>N keys state. login_save E path (upd N keys state) = (b, S2)")
    case True
    then obtain N keys state where s: "login_save E path (upd N keys state) = (b, S2)" by blast
    with \<open>b\<close> have "login_save E path (upd N keys state) = (True, S2)" by simp
    note saved = login_save_ok(1) [OF assms(2) this]
    have "plain_doc J (nl_state (upd N keys state))" "signed_in J (nl_state (upd N keys state))"
      using st by (simp_all add: upd_def copy_state_def put_state_def world(3) cjson_laws.copy_field_plain [OF world(1)]
          cjson_laws.set_item_plain [OF world(1)] cjson_laws.copy_signed_in [OF world(1)] cjson_laws.set_item_signed_in [OF world(1)])
    then show ?thesis using saved printed_signed_in [OF world(2)] by blast
  next
    case False
    with cases f show ?thesis by auto
  qed
qed

section \<open>Runs\<close>

definition token_requests :: "('t, 'h, 'j) native_login \<Rightarrow> nat" where
  "token_requests S = length (filter ((=) token_method) (nl_asked S))"

lemma keeps_requests:
  assumes "login_keeps J path P S S'" and "token_method \<notin> P"
  shows "token_requests S' = token_requests S"
proof -
  obtain ms where "nl_asked S' = nl_asked S @ ms" "set ms \<subseteq> P" using assms(1) by (auto simp: login_keeps_def)
  moreover have "filter ((=) token_method) ms = []" using assms(2) calculation(2) by (auto simp: filter_empty_conv)
  ultimately show ?thesis by (simp add: token_requests_def)
qed

lemma keeps_docs:
  assumes "login_keeps J path P S S'" and "plain_doc J (nl_state S)"
  shows "plain_doc J (nl_state S')" and "file_plain J path (nl_files S) \<Longrightarrow> file_plain J path (nl_files S')"
    and "marked J (nl_state S) \<Longrightarrow> marked J (nl_state S')"
    and "marked J (nl_state S) \<Longrightarrow> file_marked J path (nl_files S) \<Longrightarrow> file_marked J path (nl_files S')"
  using assms by (auto simp: login_keeps_def)

text \<open>A run may send the token request when the document is not marked; afterwards the file is.\<close>

definition run_safe ::
  "'j cjson \<Rightarrow> string \<Rightarrow> ('t, 'h, 'j) native_login \<Rightarrow> bool \<Rightarrow> ('t, 'h, 'j) native_login \<Rightarrow> bool" where
  "run_safe J path S ok S' \<longleftrightarrow>
     token_requests S' \<le> token_requests S + 1 \<and>
     (token_requests S' \<noteq> token_requests S \<longrightarrow> \<not> file_marked J path (nl_files S) \<and> file_marked J path (nl_files S')) \<and>
     (file_marked J path (nl_files S) \<longrightarrow> file_marked J path (nl_files S') \<and> nl_asked S' = nl_asked S) \<and>
     (file_plain J path (nl_files S) \<longrightarrow> file_plain J path (nl_files S')) \<and>
     (ok \<longrightarrow> file_signed_in J path (nl_files S'))"

lemma run_safe_from:
  "nl_asked S1 = nl_asked S \<Longrightarrow> sfiles (nl_files S1) path = sfiles (nl_files S) path \<Longrightarrow> run_safe J path S1 ok S' = run_safe J path S ok S'"
  by (simp only: run_safe_def token_requests_def file_marked_def file_plain_def file_signed_in_def)

lemma run_safe_to:
  "nl_asked S1 = nl_asked S' \<Longrightarrow> sfiles (nl_files S1) path = sfiles (nl_files S') path \<Longrightarrow> run_safe J path S ok S1 = run_safe J path S ok S'"
  by (simp only: run_safe_def token_requests_def file_marked_def file_plain_def file_signed_in_def)

lemma run_safe_idle: "run_safe J path S False S"
  by (simp add: run_safe_def)

lemma recover_effect:
  assumes "recover_login_reply E path S = (b, S')" and "path = session_file dir" and "login_world J pr E" and "plain_doc J (nl_state S)"
  shows "login_keeps J path {} S S'" and "b \<Longrightarrow> file_signed_in J path (nl_files S')"
proof -
  note world = login_worldD [OF assms(3)]
  have cases: "(\<not> b \<and> S' = S) \<or>
      (\<exists>result. doc_string J (getItemCS J result ''3'') ''1'' \<noteq> None \<and> save_login_result E path result S = (b, S'))"
    using assms(1) unfolding recover_login_reply_def Let_def world(3)
    by (auto split: if_splits option.splits prod.splits)
  then show "login_keeps J path {} S S'"
    using keeps_result [OF _ assms(2,3) keeps_refl] keeps_refl by blast
  show "file_signed_in J path (nl_files S')" if b
  proof -
    from cases that obtain result where r: "doc_string J (getItemCS J result ''3'') ''1'' \<noteq> None"
        "save_login_result E path result S = (True, S')" by auto
    note saved = save_result_writes [OF r(2) assms(2,3)]
    have "plain_doc J (nl_state S')" "signed_in J (nl_state S')"
      using cjson_laws.result_fields_kept(1) [OF world(1) assms(4)] cjson_laws.token_copied [OF world(1) assms(4) r(1)] saved(2) by simp_all
    then show ?thesis using saved(1) printed_signed_in [OF world(2)] by blast
  qed
qed

lemma request_effect:
  assumes "request_tokens E path S = (b, S')" and "path = session_file dir" and "login_world J pr E" and "plain_doc J (nl_state S)"
  shows "login_keeps J path {} S S' \<or> login_keeps J path {} (S\<lparr>nl_asked := nl_asked S @ [token_method]\<rparr>) S'"
    and "b \<Longrightarrow> file_signed_in J path (nl_files S')"
proof -
  note world = login_worldD [OF assms(3)]
  define S0 where "S0 = login_status E ''Completing login'' S"
  obtain result S1 where c: "login_call E path ''qrCodeLoginV2ForSecure'' None S0 = (result, S1)" by fastforce
  have S0: "login_keeps J path {} S S0" "login_keeps J path {} (S\<lparr>nl_asked := nl_asked S @ [token_method]\<rparr>) (S0\<lparr>nl_asked := nl_asked S0 @ [token_method]\<rparr>)"
    by (simp_all add: S0_def login_status_def login_keeps_def)
  have S1: "login_keeps J path {} S S1 \<or> login_keeps J path {} (S\<lparr>nl_asked := nl_asked S @ [token_method]\<rparr>) S1"
    using call_asks [OF c assms(3)] S0 unfolding token_method_def [symmetric] by (blast intro: keeps_trans)
  have p1: "plain_doc J (nl_state S1)" using S1 assms(4) by (auto dest: keeps_docs(1))
  have rest: "login_keeps J path {} S1 S' \<and> (b \<longrightarrow> file_signed_in J path (nl_files S'))"
  proof (cases result)
    case None
    with assms(1) c show ?thesis by (simp add: request_tokens_def S0_def [symmetric] keeps_refl)
  next
    case (Some r)
    obtain ok S2 where s: "save_login_result E path r S1 = (ok, S2)" by fastforce
    have S2: "login_keeps J path {} S1 S2" by (rule keeps_result [OF s assms(2,3) keeps_refl])
    have p2: "plain_doc J (nl_state S2)" using S2 p1 by (rule keeps_docs(1))
    show ?thesis
    proof (cases "ok \<and> signed_in J (nl_state S2)")
      case False
      with assms(1) c Some s S2 show ?thesis
        using state_signed_in [OF assms(3), of S2]
        by (cases ok) (auto simp: request_tokens_def S0_def [symmetric] login_fail_def split: if_splits intro!: keeps_status keeps_fields)
    next
      case True
      define S3 where "S3 = login_status E ''Login succeeded. Session saved.'' S2"
      have S3: "login_keeps J path {} S1 S3" "nl_state S3 = nl_state S2" "nl_files S3 = nl_files S2"
        using S2 by (simp_all add: S3_def keeps_status) (simp_all add: login_status_def)
      obtain tok where tok: "state_str E S2 ''accessToken'' = Some tok" using True state_signed_in [OF assms(3), of S2] by blast
      have u: "unwrap_keychain E path r S3 = (b, S')"
        using assms(1) c Some s True tok
        by (simp add: request_tokens_def S0_def [symmetric] S3_def [symmetric])
      have "save_login_result E path r S1 = (True, S2)" using s True by simp
      note saved = save_result_writes [OF this assms(2,3)]
      have "file_signed_in J path (nl_files S3)"
        unfolding S3(3) by (rule printed_signed_in [OF world(2) p2 _ saved(1)]) (use True in simp)
      then show ?thesis using keeps_unwrap [OF u assms(3) S3(1)] p2 True S3(2) by simp
    qed
  qed
  then show "login_keeps J path {} S S' \<or> login_keeps J path {} (S\<lparr>nl_asked := nl_asked S @ [token_method]\<rparr>) S'"
    using S1 keeps_trans by blast
  show "b \<Longrightarrow> file_signed_in J path (nl_files S')" using rest by blast
qed

lemma login_steps_append:
  "login_steps (fs @ gs) S = (case login_steps fs S of (False, S1) \<Rightarrow> (False, S1) | (True, S1) \<Rightarrow> login_steps gs S1)"
  by (induction fs arbitrary: S) (auto split: prod.splits bool.splits)

lemma keeps_safe:
  assumes "login_keeps J path other_methods S S'" and "plain_doc J (nl_state S)" and "\<not> file_marked J path (nl_files S)"
    and "ok \<Longrightarrow> file_signed_in J path (nl_files S')"
  shows "run_safe J path S ok S'"
  using keeps_requests [OF assms(1)] keeps_docs [OF assms(1,2)] assms(3,4) by (simp add: run_safe_def token_method_def)

text \<open>The mark is in the file before the tokens are asked for.\<close>

lemma mark_effect:
  assumes "mark_token_request E path S = (b, S')" and "login_world J pr E" and "plain_doc J (nl_state S)"
  shows "nl_asked S' = nl_asked S" and "file_plain J path (nl_files S) \<Longrightarrow> file_plain J path (nl_files S')"
    and "b \<Longrightarrow> plain_doc J (nl_state S') \<and> marked J (nl_state S') \<and> file_marked J path (nl_files S') \<and> file_plain J path (nl_files S')"
proof -
  note world = login_worldD [OF assms(2)]
  define S0 where "S0 = put_state E ''nativeTokenRequestStarted'' (Some (mkBool (nj E) True)) S"
  have S0: "plain_doc J (nl_state S0)" "marked J (nl_state S0)"
    using assms(3) cjson_laws.set_item_plain [OF world(1)] cjson_laws.get_set_item [OF world(1)] cjson_laws.bool_new [OF world(1)]
    by (simp_all add: S0_def put_state_def world(3) marked_def)
  obtain ok S1 where s: "login_save E path S0 = (ok, S1)" by fastforce
  have k: "login_keeps J path {} S0 S1" by (rule keeps_save' [OF s assms(2) keeps_refl])
  have S': "(S' = S \<and> \<not> b) \<or> (S' = S1 \<and> b = ok)"
    using assms(1) s by (auto simp: mark_token_request_def S0_def [symmetric] split: if_splits)
  have same: "nl_asked S0 = nl_asked S" "nl_files S0 = nl_files S" by (simp_all add: S0_def put_state_def)
  from k have "nl_asked S1 = nl_asked S0" by (simp add: login_keeps_def)
  with S' same show "nl_asked S' = nl_asked S" by auto
  show "file_plain J path (nl_files S')" if "file_plain J path (nl_files S)"
    using S' that same keeps_docs(2) [OF k S0(1)] by auto
  show "plain_doc J (nl_state S') \<and> marked J (nl_state S') \<and> file_marked J path (nl_files S') \<and> file_plain J path (nl_files S')" if b
  proof -
    from S' that s have s1: "S' = S1" "login_save E path S0 = (True, S1)" by auto
    note saved = login_save_ok [OF assms(2) s1(2)]
    show ?thesis
      using S0 saved s1(1) printed_marked [OF world(2) S0, of "nl_files S1" path] printed_plain [OF world(2) S0(1), of "nl_files S1" path] by simp
  qed
qed

lemma steps_safe:
  assumes "login_steps (login_prefix E path @ [mark_token_request E path, request_tokens E path]) S = (ok, S')"
    and "path = session_file dir" and "login_world J pr E" and "plain_doc J (nl_state S)" and "\<not> file_marked J path (nl_files S)"
  shows "run_safe J path S ok S'"
proof -
  obtain a S1 where p: "login_steps (login_prefix E path) S = (a, S1)" by fastforce
  have k1: "login_keeps J path other_methods S S1" by (rule keeps_prefix [OF p assms(3) keeps_refl order_refl])
  have d1: "plain_doc J (nl_state S1)" using k1 assms(4) by (rule keeps_docs(1))
  have r1: "token_requests S1 = token_requests S" by (rule keeps_requests [OF k1]) simp
  show ?thesis
  proof (cases a)
    case False
    with assms(1) p have "ok = False" "S' = S1" by (auto simp: login_steps_append)
    with keeps_safe [OF k1 assms(4,5)] show ?thesis by simp
  next
    case True
    obtain m S2 where mk: "mark_token_request E path S1 = (m, S2)" by fastforce
    note mark = mark_effect [OF mk assms(3) d1]
    have r2: "token_requests S2 = token_requests S" using mark(1) r1 by (simp add: token_requests_def)
    show ?thesis
    proof (cases m)
      case False
      with assms(1) p True mk have "\<not> ok" "S' = S2" by (auto simp: login_steps_append)
      with r2 mark(2) keeps_docs(2) [OF k1 assms(4)] assms(5) show ?thesis by (simp add: run_safe_def)
    next
      case True
      with mark(3) have m2: "plain_doc J (nl_state S2)" "marked J (nl_state S2)" "file_marked J path (nl_files S2)" "file_plain J path (nl_files S2)"
        by simp_all
      obtain t S3 where t: "request_tokens E path S2 = (t, S3)" by fastforce
      from assms(1) p \<open>a\<close> mk True t have S3: "ok = t" "S' = S3" by (auto simp: login_steps_append split: bool.splits)
      note req = request_effect [OF t assms(2,3) m2(1)]
      define V where "V = (if login_keeps J path {} S2 S3 then S2 else S2\<lparr>nl_asked := nl_asked S2 @ [token_method]\<rparr>)"
      have V: "login_keeps J path {} V S3" "nl_state V = nl_state S2" "nl_files V = nl_files S2" "token_requests V \<le> token_requests S + 1"
        using req(1) r2 by (auto simp: V_def token_requests_def)
      have "token_requests S3 = token_requests V" by (rule keeps_requests [OF V(1)]) simp
      moreover have "file_marked J path (nl_files S3)" "file_plain J path (nl_files S3)"
        using keeps_docs [OF V(1)] V(2,3) m2 by simp_all
      ultimately show ?thesis using V(4) assms(5) req(2) S3 by (simp add: run_safe_def)
    qed
  qed
qed

lemma document_safe:
  assumes "run_document E path S = (ok, S')" and "path = session_file dir" and "login_world J pr E"
    and "isObject J (nl_state S) \<Longrightarrow> plain_doc J (nl_state S)"
    and "file_marked J path (nl_files S) \<Longrightarrow> marked J (nl_state S)"
    and "signed_in J (nl_state S) \<Longrightarrow> file_signed_in J path (nl_files S)"
  shows "run_safe J path S ok S'"
proof -
  note world = login_worldD [OF assms(3)]
  have same: "run_safe J path S b (login_status E msg (S\<lparr>nl_failed := f\<rparr>))" "run_safe J path S b (login_status E msg S)"
    if "b \<Longrightarrow> file_signed_in J path (nl_files S)" for b msg f
    using that by (simp_all add: run_safe_def login_status_def token_requests_def)
  show ?thesis
  proof (cases "isObject J (nl_state S)")
    case False
    with assms(1) same show ?thesis by (auto simp: run_document_def world(3) login_fail_def)
  next
    case True
    note pl = assms(4) [OF True]
    show ?thesis
    proof (cases "signed_in J (nl_state S)")
      case True
      with assms(1,6) \<open>isObject J (nl_state S)\<close> same show ?thesis
        using state_signed_in [OF assms(3), of S] by (auto simp: run_document_def world(3) split: if_splits)
    next
      case out: False
      show ?thesis
      proof (cases "marked J (nl_state S)")
        case True
        obtain b S1 where r: "recover_login_reply E path S = (b, S1)" by fastforce
        note rec = recover_effect [OF r assms(2,3) pl]
        have S': "nl_asked S' = nl_asked S1" "nl_files S' = nl_files S1" "ok = b"
          using assms(1) r True out \<open>isObject J (nl_state S)\<close> state_signed_in [OF assms(3), of S]
          by (auto simp: run_document_def world(3) marked_def login_fail_def login_status_def split: if_splits bool.splits)
        have "nl_asked S1 = nl_asked S" using rec(1) by (simp add: login_keeps_def)
        then show ?thesis
          using S' rec(2) keeps_docs [OF rec(1) pl] True by (auto simp: run_safe_def token_requests_def)
      next
        case False
        then have nm: "\<not> file_marked J path (nl_files S)" using assms(5) by blast
        show ?thesis
        proof (cases "nl_cancel E S")
          case True
          with assms(1) False out \<open>isObject J (nl_state S)\<close> state_signed_in [OF assms(3), of S] have "\<not> ok" "S' = S"
            by (auto simp: run_document_def world(3) marked_def split: if_splits)
          then show ?thesis by (simp add: run_safe_def)
        next
          case go: False
          with assms(1) False out \<open>isObject J (nl_state S)\<close> state_signed_in [OF assms(3), of S]
          have "login_steps (login_prefix E path @ [mark_token_request E path, request_tokens E path]) S = (ok, S')"
            by (auto simp: run_document_def world(3) marked_def split: if_splits)
          from steps_safe [OF this assms(2,3) pl nm] show ?thesis .
        qed
      qed
    qed
  qed
qed

lemma run_locked_safe:
  assumes "run_locked E dir S = (ok, S')" and "login_world J pr E" and "file_plain J (session_file dir) (nl_files S)"
  shows "run_safe J (session_file dir) S ok S'"
proof -
  note world = login_worldD [OF assms(2)]
  let ?path = "session_file dir"
  have stop: ?thesis if "run_locked E dir S = login_fail E msg S" for msg
    using that assms(1) by (auto simp: run_safe_def login_fail_def login_status_def token_requests_def split: if_splits)
  show ?thesis
  proof (cases "retired (nl_se E (nl_writes S)) (nl_files S) dir")
    case True
    then show ?thesis by (intro stop) (simp add: run_locked_def Let_def)
  next
    case False
    show ?thesis
    proof (cases "enil_session_read (nl_se E (nl_writes S)) (nl_files S) (Some ?path)")
      case None
      show ?thesis
      proof (cases "sfiles (nl_files S) ?path = None")
        case True
        define S1 where "S1 = S\<lparr>nl_state := mkObject (nj E)\<rparr>"
        have run: "run_document E ?path S1 = (ok, S')" using assms(1) False None True by (simp add: run_locked_def Let_def S1_def)
        have "run_safe J ?path S1 ok S'"
          by (rule document_safe [OF run refl assms(2)])
            (use True in \<open>simp_all add: S1_def world(3) file_marked_def plain_doc_def signed_in_def doc_string_def
               cjson_laws.object_new [OF world(1)] cjson_laws.get_new [OF world(1)]\<close>)
        moreover have "nl_asked S1 = nl_asked S" "nl_files S1 = nl_files S" by (simp_all add: S1_def)
        ultimately show ?thesis using run_safe_from [of S1 S ?path J ok S'] by simp
      next
        case saved: False
        have "acc_ok (nl_se E (nl_writes S)) ?path" by (rule world(7))
        with saved \<open>\<not> retired _ _ _\<close> None show ?thesis by (intro stop) (simp add: run_locked_def Let_def)
      qed
    next
      case (Some doc)
      define S1 where "S1 = S\<lparr>nl_state := doc\<rparr>"
      have run: "run_document E ?path S1 = (ok, S')" using assms(1) False Some by (simp add: run_locked_def Let_def S1_def)
      obtain s where s: "sfiles (nl_files S) ?path = Some s" "parseText J (cstr s) = Some doc"
        using Some world(4) by (auto simp: enil_session_read_def split: if_splits option.splits)
      have "run_safe J ?path S1 ok S'"
      proof (rule document_safe [OF run refl assms(2)])
        show "plain_doc J (nl_state S1)" if "isObject J (nl_state S1)" using that assms(3) s by (auto simp: S1_def file_plain_def)
        show "marked J (nl_state S1)" if "file_marked J ?path (nl_files S1)" using that s by (auto simp: S1_def file_marked_def)
        show "file_signed_in J ?path (nl_files S1)" if "signed_in J (nl_state S1)" using that s by (auto simp: S1_def file_signed_in_def)
      qed
      moreover have "nl_asked S1 = nl_asked S" "nl_files S1 = nl_files S" by (simp_all add: S1_def)
      ultimately show ?thesis using run_safe_from [of S1 S ?path J ok S'] by simp
    qed
  qed
qed

lemma run_safe_one:
  assumes "enil_native_login_run E (Some dir) S = (ok, S')" and "login_world J pr E" and "file_plain J (session_file dir) (nl_files S)"
  shows "run_safe J (session_file dir) S ok S'"
proof -
  define S0 where "S0 = S\<lparr>nl_error_code := 0, nl_http_status := 0, nl_curl_code := CURLE_OK, nl_failed := False, nl_request_error := []\<rparr>"
  define lock where "lock = join dir ''session.lock''"
  define S1 where "S1 = (if nl_lock_opens E \<and> sfiles (nl_files S0) lock = None then S0\<lparr>nl_files := put_file lock [] (nl_files S0)\<rparr> else S0)"
  let ?path = "session_file dir"
  have lock: "?path \<noteq> lock" unfolding lock_def by (rule other_name) auto
  have S0: "nl_asked S0 = nl_asked S" "nl_files S0 = nl_files S" by (simp_all add: S0_def)
  have S1: "nl_asked S1 = nl_asked S" "sfiles (nl_files S1) ?path = sfiles (nl_files S) ?path"
    using lock by (simp_all add: S1_def S0 put_file_def)
  have same: "file_marked J ?path (nl_files S1) = file_marked J ?path (nl_files S)" "file_plain J ?path (nl_files S1) = file_plain J ?path (nl_files S)"
    using S1(2) by (simp_all add: file_marked_def file_plain_def)
  have idle: "run_safe J ?path S False V" if "nl_asked V = nl_asked S" "nl_files V = nl_files S0 \<or> nl_files V = nl_files S1" for V
    using run_safe_to [of V S ?path J S False] run_safe_idle [of J ?path S] that S0(2) S1(2) by auto
  obtain r V where run: "run_locked E dir S1 = (r, V)" by fastforce
  have "run_safe J ?path S1 r V"
    by (rule run_locked_safe [OF run assms(2)]) (use assms(3) same in simp)
  then have over: "run_safe J ?path S r V" using run_safe_from [of S1 S ?path J r V] S1 by simp
  have fail: "\<not> b \<and> nl_asked V' = nl_asked V \<and> nl_files V' = nl_files V" if "login_fail E msg V = (b, V')" for msg V b V'
    using that by (auto simp: login_fail_def login_status_def)
  have cases: "enil_native_login_run E (Some dir) S =
      (if 1950 < length dir then (False, S0)
       else if \<not> nl_mkdir E \<or> \<not> nl_chmod E then login_fail E ''Could not save login session'' S0
       else if retired (nl_se E (nl_writes S0)) (nl_files S0) dir then login_fail E ''This login has been retired. Start a new QR.'' S0
       else if \<not> nl_lock_opens E \<or> \<not> nl_lock_taken E then login_fail E ''Login is already running'' S1
       else run_done E (run_locked E dir S1))"
    unfolding enil_native_login_run_def Let_def S1_def lock_def S0_def by (simp only: option.case)
  have "enil_native_login_run E (Some dir) S = (False, S0) \<or> (\<exists>msg. enil_native_login_run E (Some dir) S = login_fail E msg S0) \<or>
      (\<exists>msg. enil_native_login_run E (Some dir) S = login_fail E msg S1) \<or> enil_native_login_run E (Some dir) S = run_done E (r, V)"
    unfolding cases run by (simp split: if_split) blast
  then have "(\<not> ok \<and> nl_asked S' = nl_asked S \<and> (nl_files S' = nl_files S0 \<or> nl_files S' = nl_files S1)) \<or> run_done E (r, V) = (ok, S')"
  proof (elim disjE exE)
    assume "enil_native_login_run E (Some dir) S = (False, S0)"
    with assms(1) S0(1) show ?thesis by simp
  next
    fix msg assume "enil_native_login_run E (Some dir) S = login_fail E msg S0"
    with assms(1) have "login_fail E msg S0 = (ok, S')" by simp
    from fail [OF this] S0(1) show ?thesis by simp
  next
    fix msg assume "enil_native_login_run E (Some dir) S = login_fail E msg S1"
    with assms(1) have "login_fail E msg S1 = (ok, S')" by simp
    from fail [OF this] S1(1) show ?thesis by simp
  qed (use assms(1) in simp)
  then consider "\<not> ok" "nl_asked S' = nl_asked S" "nl_files S' = nl_files S0 \<or> nl_files S' = nl_files S1"
    | "run_done E (r, V) = (ok, S')" by blast
  then show ?thesis
  proof cases
    case 1
    with idle show ?thesis by simp
  next
    case 2
    then have "ok = r" "nl_asked S' = nl_asked V" "nl_files S' = nl_files V"
      by (auto simp: run_done_def login_status_def split: if_splits)
    with over run_safe_to [of S' V ?path J S r] show ?thesis by simp
  qed
qed

definition run_again ::
  "string \<Rightarrow> ('t, 'h, 'j) native_login \<Rightarrow> ('t, 'h, 'j) native_login_env \<Rightarrow> ('t, 'h, 'j) native_login" where
  "run_again dir S E = snd (enil_native_login_run E (Some dir) S)"

text \<open>C31: The tokens of a login attempt are asked for at most once.  However often the login is run on the same
  directory, and whatever fails or is cancelled in each run, the request that issues tokens is sent at most
  once; an attempt whose saved document says that it was sent makes no request at all; and a run that
  reports success leaves a saved document with an access token, if that document parses.  The directory's
  \<open>access()\<close> is taken to answer truthfully.\<close>

theorem tokens_requested_once:
  assumes "\<forall>E \<in> set Es. login_world J pr E" and "file_plain J (session_file dir) (nl_files S)"
  shows "let S' = foldl (run_again dir) S Es in
    token_requests S' \<le> token_requests S + 1 \<and>
    (file_marked J (session_file dir) (nl_files S) \<longrightarrow> nl_asked S' = nl_asked S) \<and>
    (\<forall>E S''. login_world J pr E \<and> enil_native_login_run E (Some dir) S' = (True, S'') \<longrightarrow>
       file_signed_in J (session_file dir) (nl_files S''))"
proof -
  have runs: "file_plain J (session_file dir) (nl_files (foldl (run_again dir) S Es)) \<and>
     token_requests (foldl (run_again dir) S Es) \<le> token_requests S + 1 \<and>
     (file_marked J (session_file dir) (nl_files S) \<longrightarrow> nl_asked (foldl (run_again dir) S Es) = nl_asked S)"
    using assms
  proof (induction Es arbitrary: S)
    case (Cons E Es)
    obtain ok S1 where r: "enil_native_login_run E (Some dir) S = (ok, S1)" by fastforce
    have one: "run_safe J (session_file dir) S ok S1" by (rule run_safe_one [OF r]) (use Cons.prems in auto)
    then have "file_plain J (session_file dir) (nl_files S1)" using Cons.prems(2) by (simp add: run_safe_def)
    with Cons.IH [of S1] Cons.prems(1) have rest: "file_plain J (session_file dir) (nl_files (foldl (run_again dir) S1 Es))"
        "token_requests (foldl (run_again dir) S1 Es) \<le> token_requests S1 + 1"
        "file_marked J (session_file dir) (nl_files S1) \<longrightarrow> nl_asked (foldl (run_again dir) S1 Es) = nl_asked S1" by auto
    define V where "V = foldl (run_again dir) S1 Es"
    have V: "foldl (run_again dir) S (E # Es) = V" using r by (simp add: V_def run_again_def)
    note rest = rest [folded V_def]
    have n: "token_requests V \<le> token_requests S + 1"
    proof (cases "token_requests S1 = token_requests S")
      case True
      with rest(2) show ?thesis by simp
    next
      case False
      then have "token_requests S1 \<le> token_requests S + 1" "file_marked J (session_file dir) (nl_files S1)"
        using one unfolding run_safe_def by blast+
      with rest(3) show ?thesis by (simp add: token_requests_def)
    qed
    have "nl_asked V = nl_asked S" if "file_marked J (session_file dir) (nl_files S)"
    proof -
      from that one have "file_marked J (session_file dir) (nl_files S1)" "nl_asked S1 = nl_asked S"
        unfolding run_safe_def by blast+
      with rest(3) show ?thesis by simp
    qed
    with rest(1) n show ?case unfolding V by blast
  qed simp
  have "file_signed_in J (session_file dir) (nl_files S'')"
    if "login_world J pr E" "enil_native_login_run E (Some dir) (foldl (run_again dir) S Es) = (True, S'')" for E S''
    using run_safe_one [OF that(2,1) conjunct1 [OF runs]] by (simp add: run_safe_def)
  with runs show ?thesis unfolding Let_def by blast
qed

text \<open>Evaluation compares lengths with the size limit as binary numbers.\<close>

lemma append_bytes_code [code]:
  "append_bytes b p = (if int (length b) + int (length p) \<le> 8388608 then Some (b @ p) else None)"
  by (auto simp: append_bytes_def MAX_WIRE_SIZE_def)

text \<open>
  A login whose QR code has been scanned, on a network that loses the reply to the token request.  The first
  run sends the request and fails; the second sends nothing.
\<close>

definition demo_tree :: "json cjson" where
  "demo_tree = tree (\<lambda>s. None) (\<lambda>j. [])"

definition demo_form :: "json \<Rightarrow> string" where
  "demo_form d = (if \<not> isObject demo_tree d then ''N''
     else (if marked demo_tree d then ''M'' else ''U'') @ (if signed_in demo_tree d then ''S'' else []))"

definition demo_read :: "string \<Rightarrow> json option" where
  "demo_read s =
     (if s = ''0'' then Some (JObj [(''clientIdentity'', the (enil_identity_to_json demo_tree (Some windows_identity))),
        (''e2eePublicKey'', JStr ''k''), (''authSessionId'', JStr ''a''), (''callbackUrl'', JStr ''u''), (''nativeQrNonce'', JStr ''n''),
        (''nativeScanVerified'', JBool True), (''nativePinVerified'', JBool True)])
      else if s = ''U'' then Some (JObj [(''loginId'', JStr ''L'')])
      else if s = ''M'' then Some (JObj [(''loginId'', JStr ''L''), (''nativeTokenRequestStarted'', JBool True)])
      else if s = ''US'' then Some (JObj [(''accessToken'', JStr ''T'')])
      else if s = ''MS'' then Some (JObj [(''accessToken'', JStr ''T''), (''nativeTokenRequestStarted'', JBool True)])
      else None)"

definition demo_io_tree :: "json cjson" where
  "demo_io_tree = tree demo_read demo_form"

definition demo_lost :: "(nat, nat, json) native_login_env" where
  "demo_lost =
     \<lparr>nl_ne = \<lparr>njson = demo_io_tree,
        answer = (\<lambda>w. \<lparr>rc = CURLE_OTHER 56, http_status = 0, received = [], uploaded = 0, pretransfer_ready = True\<rparr>),
        curl_init = (\<lambda>_. True), s_cainfo = None, language_headers = []\<rparr>,
      nl_thrift = demo_thrift\<lparr>schema := Some (JObj [(''qrCodeLoginV2ForSecure_args'', JArr [])])\<rparr>,
      nl_se = (\<lambda>n. \<lparr>sj = demo_io_tree, pretty = demo_form, of_i64 = of_int, strtod10 = (\<lambda>_. 0), rand16 = None,
        rd_ok = (\<lambda>_. True), acc_ok = (\<lambda>_. True), regular = (\<lambda>_. True), dir_ok = (\<lambda>_. True),
        wr = \<lparr>wc_letters = Some ''x'', wc_fdopen = True, wc_write = True, wc_fclose = True, wc_rename = True\<rparr>,
        rt = \<lparr>rt_letters = None, rt_rename = True\<rparr>, binding_ready = True, spec_ok = (\<lambda>_. True), ident_ok = (\<lambda>_. (True, True, True))\<rparr>),
      nl_thread = 0, nl_cancel = (\<lambda>_. False), nl_time = (\<lambda>_. 0), nl_escape = Some, nl_on_status = True, nl_on_qr_url = True,
      nl_on_pin = True, nl_mkdir = True, nl_chmod = True, nl_lock_opens = True, nl_lock_taken = True\<rparr>"

definition demo_scanned :: "(nat, nat, json) native_login" where
  "demo_scanned =
     \<lparr>nl_files = demo_homes\<lparr>sfiles := [''/a/p/session.json'' \<mapsto> ''0'']\<rparr>, nl_net = demo_net, nl_state = JNull, nl_error_code = 0,
      nl_http_status = 0, nl_curl_code = CURLE_OK, nl_failed = False, nl_request_error = [], nl_shown = [], nl_asked = [], nl_writes = 0\<rparr>"

definition demo_started :: "(nat, nat, json) native_login" where
  "demo_started = demo_scanned\<lparr>nl_files := put_file (join ''/a/p'' ''session.lock'') [] (nl_files demo_scanned),
     nl_state := the (demo_read ''0'')\<rparr>"

definition demo_marked :: "bool \<times> (nat, nat, json) native_login" where
  "demo_marked = login_steps (login_prefix demo_lost (session_file ''/a/p'') @ [mark_token_request demo_lost (session_file ''/a/p'')]) demo_started"

definition demo_document :: json where
  "demo_document = JObj
     (children demo_io_tree (the (demo_read ''0'')) @ [(''nativeTransport'', JStr ''compact-thrift''), (''loginId'', JStr ''L''),
        (''nativeTokenRequestStarted'', JBool True)])"

lemma demo_prepared: "fst demo_marked" "nl_state (snd demo_marked) = demo_document" "nl_asked (snd demo_marked) = []"
  by code_simp+

lemma demo_encodes: "login_encode demo_lost token_method demo_document \<noteq> None"
  "fst (enil_identity_parse (nj demo_lost) (getItemCS (nj demo_lost) demo_document ''clientIdentity''))"
  by code_simp+

lemma demo_starts:
  "enil_native_login_run demo_lost (Some ''/a/p'') demo_scanned = run_done demo_lost (run_document demo_lost (session_file ''/a/p'') demo_started)"
proof -
  have s: "demo_scanned\<lparr>nl_error_code := 0, nl_http_status := 0, nl_curl_code := CURLE_OK, nl_failed := False, nl_request_error := []\<rparr> = demo_scanned"
    by (simp add: demo_scanned_def)
  have calls: "nl_mkdir demo_lost" "nl_chmod demo_lost" "nl_lock_opens demo_lost" "nl_lock_taken demo_lost"
    by (simp_all add: demo_lost_def)
  define S1 where "S1 = demo_scanned\<lparr>nl_files := put_file (join ''/a/p'' ''session.lock'') [] (nl_files demo_scanned)\<rparr>"
  have files: "\<not> retired (nl_se demo_lost 0) (nl_files demo_scanned) ''/a/p''" "\<not> retired (nl_se demo_lost 0) (nl_files S1) ''/a/p''"
    "sfiles (nl_files demo_scanned) (join ''/a/p'' ''session.lock'') = None"
    unfolding S1_def by code_simp+
  have read: "enil_session_read (nl_se demo_lost 0) (nl_files S1) (Some (session_file ''/a/p'')) = demo_read ''0''" "demo_read ''0'' \<noteq> None"
    unfolding S1_def by code_simp+
  have n: "nl_writes demo_scanned = 0" "nl_writes S1 = 0" by (simp_all add: S1_def demo_scanned_def)
  have "run_locked demo_lost ''/a/p'' S1 = run_document demo_lost (session_file ''/a/p'') demo_started"
    using files read by (cases "demo_read ''0''") (auto simp: run_locked_def Let_def n demo_started_def S1_def)
  then show ?thesis
    using files calls by (simp add: enil_native_login_run_def Let_def s n S1_def)
qed

lemma call_sends:
  assumes "login_world J pr E" and "login_encode E method (nl_state S) \<noteq> None"
    and "fst (enil_identity_parse (nj E) (getItemCS (nj E) (nl_state S) ''clientIdentity''))"
    and "\<And>V. \<not> nl_cancel E V" and "\<And>w. curl_init (nl_ne E) w"
  shows "nl_asked (snd (login_call E path method None S)) = nl_asked S @ [method]"
proof -
  obtain i where i: "enil_identity_parse (nj E) (getItemCS (nj E) (nl_state S) ''clientIdentity'') = (True, i)"
    using assms(3) by (cases "enil_identity_parse (nj E) (getItemCS (nj E) (nl_state S) ''clientIdentity'')") auto
  obtain rq where rq: "login_encode E method (nl_state S) = Some rq" using assms(2) by blast
  define S0 where "S0 = S\<lparr>nl_error_code := - 1, nl_http_status := 0, nl_curl_code := CURLE_OK, nl_request_error := []\<rparr>"
  obtain c where "login_call E path method None S = (case exchange E path method False c S0 of (r, S1) \<Rightarrow> call_done E method r S1)"
    using assms(4,5) i rq by (auto simp: login_call_def Let_def S0_def enil_curl_new_raw_def split: option.splits)
  moreover obtain r S1 where r: "exchange E path method False c S0 = (r, S1)" by fastforce
  moreover have "nl_asked S1 = nl_asked S @ [method]"
    using exchange_asks [OF r assms(1)] by (simp add: login_keeps_def S0_def)
  ultimately show ?thesis by (simp add: call_done_def Let_def login_status_def split: prod.splits)
qed

lemma demo_forms:
  "demo_form d \<in> {''N'', ''M'', ''U'', ''MS'', ''US''}" "demo_form d \<noteq> ''N'' \<longleftrightarrow> isObject demo_tree d"
  "demo_form d \<in> {''M'', ''MS''} \<longleftrightarrow> isObject demo_tree d \<and> marked demo_tree d"
  "demo_form d \<in> {''US'', ''MS''} \<longleftrightarrow> isObject demo_tree d \<and> signed_in demo_tree d"
  by (auto simp: demo_form_def)

lemma demo_reads:
  "parseText demo_io_tree (cstr ''N'') = None"
  "case parseText demo_io_tree (cstr ''U'') of None \<Rightarrow> True | Some d \<Rightarrow> plain_doc demo_io_tree d"
  "case parseText demo_io_tree (cstr ''M'') of None \<Rightarrow> True | Some d \<Rightarrow> plain_doc demo_io_tree d \<and> marked demo_io_tree d"
  "case parseText demo_io_tree (cstr ''US'') of None \<Rightarrow> True | Some d \<Rightarrow> plain_doc demo_io_tree d \<and> signed_in demo_io_tree d"
  "case parseText demo_io_tree (cstr ''MS'') of None \<Rightarrow> True | Some d \<Rightarrow> plain_doc demo_io_tree d \<and> marked demo_io_tree d \<and> signed_in demo_io_tree d"
  by code_simp+

lemma lost_reply:
  assumes "\<And>w. rc (answer (nl_ne E) w) \<noteq> CURLE_OK"
  shows "fst (login_call E path method None S) = None"
proof -
  have x: "fst (exchange E path method polling c S1) = None" for polling c S1
    using assms by (auto simp: exchange_def transfer_def Let_def split: prod.splits bool.splits)
  obtain ou S0 c where ou: "login_call E path method None S = (case ou of (r, S1) \<Rightarrow> call_done E method r S1)"
      "ou = (None, S0) \<or> ou = exchange E path method (None \<noteq> (None :: int option)) c S0"
    using call_outcome [of E path "method" None S] by blast
  from ou(2) x have "fst ou = None" by auto
  with ou(1) show ?thesis by (cases ou) (simp add: call_done_def Let_def)
qed

lemma demo_world: "login_world demo_io_tree demo_form demo_lost"
proof -
  have prints: "prints_back demo_io_tree demo_form"
    unfolding prints_back_def
  proof (intro allI impI)
    fix d d'
    assume d: "parseText demo_io_tree (cstr (demo_form d)) = Some d'"
    have fs: "isObject demo_io_tree = isObject demo_tree" "children demo_io_tree = children demo_tree" "isTrue demo_io_tree = isTrue demo_tree"
        "isString demo_io_tree = isString demo_tree" "valuestring demo_io_tree = valuestring demo_tree" "getItemCS demo_io_tree = getItemCS demo_tree"
      by (simp_all add: demo_io_tree_def demo_tree_def tree_def)
    have same: "plain_doc demo_io_tree = plain_doc demo_tree" "marked demo_io_tree = marked demo_tree" "signed_in demo_io_tree = signed_in demo_tree"
      by (simp_all add: fun_eq_iff plain_doc_def marked_def signed_in_def doc_string_def jstr_def fs split: option.split)
    show "(\<not> isObject demo_io_tree d \<longrightarrow> \<not> isObject demo_io_tree d') \<and>
        (plain_doc demo_io_tree d \<longrightarrow> plain_doc demo_io_tree d' \<and> (marked demo_io_tree d \<longrightarrow> marked demo_io_tree d') \<and>
           (signed_in demo_io_tree d \<longrightarrow> signed_in demo_io_tree d'))"
      using d demo_reads demo_forms [of d] unfolding same fs(1) by auto
  qed
  show ?thesis
    unfolding login_world_def
  proof (intro conjI)
    show "cjson_laws demo_io_tree" unfolding demo_io_tree_def by (rule tree.cjson_laws_axioms)
    show "prints_back demo_io_tree demo_form" by (rule prints)
  qed (simp_all add: demo_lost_def plain_calls_def)
qed

lemma demo_asks: "nl_asked (run_again ''/a/p'' demo_scanned demo_lost) = [token_method]"
proof -
  let ?path = "session_file ''/a/p''"
  define V where "V = snd demo_marked"
  have V: "demo_marked = (True, V)" "nl_state V = demo_document" "nl_asked V = []"
    using demo_prepared by (simp_all add: V_def prod_eq_iff)
  define S1 where "S1 = login_status demo_lost ''Completing login'' V"
  have S1: "nl_state S1 = demo_document" "nl_asked S1 = []" using V by (simp_all add: S1_def login_status_def)
  have never: "\<not> nl_cancel demo_lost X" "curl_init (nl_ne demo_lost) w" "rc (answer (nl_ne demo_lost) w) \<noteq> CURLE_OK" for X w
    by (simp_all add: demo_lost_def)
  obtain S2 where c: "login_call demo_lost ?path token_method None S1 = (None, S2)"
    using lost_reply [of demo_lost ?path token_method S1] never by (cases "login_call demo_lost ?path token_method None S1") auto
  have "nl_asked S2 = [token_method]"
    using call_sends [OF demo_world, of token_method S1 ?path] demo_encodes S1 never c by simp
  moreover have "request_tokens demo_lost ?path V = (False, S2)"
    using c by (simp add: request_tokens_def S1_def token_method_def)
  moreover have "run_document demo_lost ?path demo_started = request_tokens demo_lost ?path V"
  proof -
    have "isObject (nj demo_lost) (nl_state demo_started)" "state_str demo_lost demo_started ''accessToken'' = None"
      "\<not> state_true demo_lost demo_started ''nativeTokenRequestStarted''"
      by code_simp+
    moreover have "login_steps (login_prefix demo_lost ?path @ [mark_token_request demo_lost ?path, request_tokens demo_lost ?path])
        demo_started = request_tokens demo_lost ?path V"
      using V(1) login_steps_append [of "login_prefix demo_lost ?path @ [mark_token_request demo_lost ?path]"
          "[request_tokens demo_lost ?path]" demo_started]
      by (simp add: demo_marked_def split: prod.splits bool.splits)
    ultimately show ?thesis using never by (simp add: run_document_def)
  qed
  ultimately show ?thesis
    unfolding run_again_def demo_starts by (simp add: run_done_def login_status_def)
qed

lemma demo_file: "file_plain demo_io_tree (session_file ''/a/p'') (nl_files demo_scanned)"
proof -
  have "sfiles (nl_files demo_scanned) (session_file ''/a/p'') = Some ''0''" by code_simp
  moreover have "case parseText demo_io_tree (cstr ''0'') of None \<Rightarrow> True | Some d \<Rightarrow> plain_doc demo_io_tree d" by code_simp
  ultimately show ?thesis by (auto simp: file_plain_def)
qed

theorem tokens_requested_once_witness:
  "let S' = foldl (run_again ''/a/p'') demo_scanned [demo_lost, demo_lost] in token_requests S' = 1"
proof -
  define S1 where "S1 = run_again ''/a/p'' demo_scanned demo_lost"
  have run: "enil_native_login_run demo_lost (Some ''/a/p'') demo_scanned = (fst (enil_native_login_run demo_lost (Some ''/a/p'') demo_scanned), S1)"
    by (simp add: S1_def run_again_def)
  have asked: "nl_asked S1 = [token_method]" unfolding S1_def by (rule demo_asks)
  have one: "token_requests S1 \<noteq> token_requests demo_scanned" by (simp add: token_requests_def asked demo_scanned_def)
  note safe = run_safe_one [OF run demo_world demo_file, unfolded run_safe_def]
  have marked: "file_marked demo_io_tree (session_file ''/a/p'') (nl_files S1)" using safe one by blast
  have plain: "file_plain demo_io_tree (session_file ''/a/p'') (nl_files S1)" using safe demo_file by blast
  have "nl_asked (foldl (run_again ''/a/p'') S1 [demo_lost]) = nl_asked S1"
    using tokens_requested_once [of "[demo_lost]" demo_io_tree demo_form "''/a/p''" S1] demo_world marked plain by (simp add: Let_def)
  then show ?thesis by (simp add: Let_def token_requests_def asked [unfolded S1_def] S1_def)
qed
end
