(* ===== verification/ENIL_LineRefresh.thy ===== *)
theory ENIL_LineRefresh
  imports ENIL_SessionData ENIL_TalkSend ENIL_Worker
begin

text \<open>
  The access tokens in \<open>source/shared/enil_line.c\<close>: the refresh with its journal, and the token for media.
  The files and the network are one world.  The \<open>n\<close>-th operation of the session store meets the system calls
  \<open>le_se n\<close>, and \<open>le_post\<close> is \<open>enil_line_post_ex\<close> (path, body, token, extra headers, timeout), which may also
  rotate the access token in the session file.  \<open>lw_asked\<close> is not in the program: the requests so far and
  their replies.  A refresh holds its mutex throughout, so refreshes do not
  interleave.
\<close>

record ('t, 'h) line_world =
  lw_files :: "'t session_world"
  lw_net :: "('t, 'h) net"
  lw_ops :: nat
  lw_asked :: "(string \<times> ENILLineResponse) list"

record ('t, 'h, 'j) line_env =
  le_ne :: "'j net_env"
  le_thread :: 't
  le_se :: "nat \<Rightarrow> 'j session_env"
  le_post :: "string \<Rightarrow> string \<Rightarrow> string option \<Rightarrow> string list \<Rightarrow> int \<Rightarrow> ('t, 'h) line_world \<Rightarrow>
    ENILLineResponse \<times> ('t, 'h) line_world"
  le_language :: string
  le_time :: "('t, 'h) line_world \<Rightarrow> int"
  le_unlink :: bool

abbreviation lj :: "('t, 'h, 'j) line_env \<Rightarrow> 'j cjson" where
  "lj E \<equiv> njson (le_ne E)"

abbreviation line_se :: "('t, 'h, 'j) line_env \<Rightarrow> ('t, 'h) line_world \<Rightarrow> 'j session_env" where
  "line_se E W \<equiv> le_se E (lw_ops W)"

definition post :: "('t, 'h, 'j) line_env \<Rightarrow> string \<Rightarrow> string \<Rightarrow> string option \<Rightarrow> ('t, 'h) line_world \<Rightarrow>
    ENILLineResponse \<times> ('t, 'h) line_world" where
  "post E path content token W =
     (case le_post E path content token [] 0 W of (r, W1) \<Rightarrow> (r, W1\<lparr>lw_asked := lw_asked W @ [(path, r)]\<rparr>))"

text \<open>The environment of the TalkService calls.\<close>

definition talk_of :: "('t, 'h, 'j) line_env \<Rightarrow> (('t, 'h) line_world, 'j) talk_env" where
  "talk_of E = \<lparr>tj = lj E, line_post = post E, line_language = le_language E\<rparr>"

definition store :: "('t, 'h, 'j) line_env \<Rightarrow> ('j session_env \<Rightarrow> 't session_world \<Rightarrow> 't session_world \<times> 'a) \<Rightarrow>
    ('t, 'h) line_world \<Rightarrow> 'a \<times> ('t, 'h) line_world" where
  "store E op W = (case op (line_se E W) (lw_files W) of (F, x) \<Rightarrow> (x, W\<lparr>lw_files := F, lw_ops := lw_ops W + 1\<rparr>))"

definition load_session :: "('t, 'h, 'j) line_env \<Rightarrow> string \<Rightarrow> ('t, 'h) line_world \<Rightarrow> 'j session_t option" where
  "load_session E path W = enil_session_load (line_se E W) (lw_files W) (Some path)"

definition session_persist ::
  "('t, 'h, 'j) line_env \<Rightarrow> string \<Rightarrow> 'j session_t \<Rightarrow> ('t, 'h) line_world \<Rightarrow> bool \<times> ('t, 'h) line_world" where
  "session_persist E path session W = store E (\<lambda>e F. enil_session_save e F (Some path) session) W"

section \<open>The refresh journal\<close>

definition session_apply_token_v3 :: "'j cjson \<Rightarrow> 'j session_t \<Rightarrow> 'j talk_token_v3_issue_result_t \<Rightarrow> 'j session_t" where
  "session_apply_token_v3 J session t =
     session\<lparr>accessToken := Some (tv_accessToken t),
       refreshToken := (case tv_refreshToken t of None \<Rightarrow> refreshToken session | Some r \<Rightarrow> Some r),
       durationUntilRefreshInSec := tv_durationUntilRefreshInSec t, tokenIssueTimeEpochSec := tv_tokenIssueTimeEpochSec t,
       refreshApiRetryPolicy := keep_if (isObject J) (getItemCS J (tv_raw t) ''refreshApiRetryPolicy'')\<rparr>"

definition refresh_string :: "'j cjson \<Rightarrow> 'j option \<Rightarrow> string \<Rightarrow> string option" where
  "refresh_string J doc name = jstr J (jget J doc name)"

text \<open>The tokens in a reply, with or without the wrapper \<open>tokenV3IssueResult\<close>.\<close>

definition issued_tokens :: "'j cjson \<Rightarrow> 'j option \<Rightarrow> 'j option" where
  "issued_tokens J reply =
     (let tokens = jget J reply ''data''
      in if jgeti J tokens ''tokenV3IssueResult'' \<noteq> None then jget J tokens ''tokenV3IssueResult'' else tokens)"

text \<open>-1, 0, 1 with the reply and its identifier, and 2.\<close>

datatype recovery = Stop | Fresh | Replay string string | Committed

definition retire_journal ::
  "('t, 'h, 'j) line_env \<Rightarrow> string \<Rightarrow> recovery \<Rightarrow> ('t, 'h) line_world \<Rightarrow> recovery \<times> ('t, 'h) line_world" where
  "retire_journal E path next W =
     (case store E (\<lambda>e F. enil_session_retire_file e F (Some path)) W of (ok, W1) \<Rightarrow> (if ok then next else Stop, W1))"

definition recover_refresh ::
  "('t, 'h, 'j) line_env \<Rightarrow> string \<Rightarrow> 'j session_t \<Rightarrow> ('t, 'h) line_world \<Rightarrow> recovery \<times> ('t, 'h) line_world" where
  "recover_refresh E path session W =
     (let J = lj E
      in if \<not> acc_ok (line_se E W) path then (Stop, W)
         else if sfiles (lw_files W) path = None then (Fresh, W)
         else
           (let pending = enil_session_read (line_se E W) (lw_files W) (Some path);
                owner = refresh_string J pending ''loginId'';
                current = refresh_string J (snapshot session) ''loginId'';
                journal = refresh_string J pending ''refreshId''
            in if owner \<noteq> None \<and> current \<noteq> None \<and> owner \<noteq> current then retire_journal E path Fresh W
               else if journal \<noteq> None \<and> journal = refreshJournalId session then retire_journal E path Committed W
               else
                 (case (refresh_string J pending ''previousRefreshToken'', refresh_string J pending ''responseBody'') of
                    (Some previous, Some raw) \<Rightarrow>
                      if Some previous = refreshToken session then
                        (case (case journal of Some i \<Rightarrow> Some i | None \<Rightarrow> enil_session_new_id (line_se E W)) of
                           None \<Rightarrow> (Stop, W)
                         | Some i \<Rightarrow> (Replay raw i, W))
                      else
                        (let tokens = issued_tokens J (parseText J raw);
                             issued_access = refresh_string J tokens ''accessToken'';
                             issued_refresh = refresh_string J tokens ''refreshToken''
                         in retire_journal E path
                              (if (issued_access \<noteq> None \<and> issued_access = accessToken session) \<or>
                                  (issued_refresh \<noteq> None \<and> issued_refresh = refreshToken session)
                               then Committed else Fresh) W)
                  | _ \<Rightarrow> (Stop, W))))"

text \<open>cJSON's \<open>valueint\<close>.\<close>

definition value_int :: "'j cjson \<Rightarrow> 'j \<Rightarrow> int" where
  "value_int J v =
     (let x = valuedouble J v in if of_int INT_MAX \<le> x then INT_MAX else if x \<le> of_int INT_MIN then INT_MIN else trunc x)"

definition line_failure :: "('t, 'h, 'j) line_env \<Rightarrow> ('t, 'h) line_world \<Rightarrow> ('t, 'h) line_world" where
  "line_failure E W = W\<lparr>lw_net := fail_gate (le_thread E) ENIL_ERR_LINE (lw_net W)\<rparr>"

text \<open>A new request: its reply with the identifier it will be committed under, or the server's error code.\<close>

definition request_refresh ::
  "('t, 'h, 'j) line_env \<Rightarrow> 'j session_t \<Rightarrow> ('t, 'h) line_world \<Rightarrow> (int + string \<times> string) \<times> ('t, 'h) line_world" where
  "request_refresh E session W =
     (let J = lj E
      in case (enil_session_new_id (line_se E W), refreshToken session) of
           (Some i, Some token) \<Rightarrow>
             (case post E ''/api/auth/tokenRefresh'' (printText J (addItem J (mkObject J) ''refreshToken'' (mkString J token)))
                     (accessToken session) W of
                (r, W1) \<Rightarrow>
                  (case body r of
                     None \<Rightarrow> (Inl 0, W1)
                   | Some b \<Rightarrow>
                       if status r \<noteq> 200 then
                         (let code = jget J (parseText J b) ''code''
                          in (Inl (if jis (isNumber J) code then value_int J (the code) else 0), W1))
                       else (Inr (b, i), W1)))
         | _ \<Rightarrow> (Inl 0, W))"

definition journal_doc :: "'j cjson \<Rightarrow> string \<Rightarrow> string \<Rightarrow> string \<Rightarrow> string \<Rightarrow> 'j" where
  "journal_doc J login_id refresh_id previous reply =
     addItem J (addItem J (addItem J (addItem J (mkObject J) ''loginId'' (mkString J login_id))
       ''refreshId'' (mkString J refresh_id)) ''previousRefreshToken'' (mkString J previous)) ''responseBody'' (mkString J reply)"

text \<open>The reply is on disk before it is parsed; only a committed reply loses its journal.\<close>

definition commit_refresh ::
  "('t, 'h, 'j) line_env \<Rightarrow> string \<Rightarrow> string \<Rightarrow> 'j session_t \<Rightarrow> string \<Rightarrow> string \<Rightarrow> ('t, 'h) line_world \<Rightarrow>
   string option \<times> ('t, 'h) line_world" where
  "commit_refresh E path login_id session reply refresh_id W =
     (let J = lj E; pending_path = path @ ''.refresh-pending'';
          pending = journal_doc J login_id refresh_id (case refreshToken session of None \<Rightarrow> [] | Some t \<Rightarrow> t) reply
      in case store E (\<lambda>e F. enil_session_write e F (Some pending_path) (Some pending)) W of
           (False, W1) \<Rightarrow> (None, line_failure E W1)
         | (True, W1) \<Rightarrow>
             (case talk_token_v3_issue_result_parse J (strtod10 (line_se E W1)) (issued_tokens J (parseText J reply)) of
                None \<Rightarrow> (None, W1)
              | Some parsed \<Rightarrow>
                  (case session_persist E path ((session_apply_token_v3 J session parsed)\<lparr>refreshJournalId := Some refresh_id\<rparr>) W1 of
                     (False, W2) \<Rightarrow> (None, line_failure E W2)
                   | (True, W2) \<Rightarrow>
                       (Some (tv_accessToken parsed),
                        if le_unlink E then W2\<lparr>lw_files := remove_file pending_path (lw_files W2)\<rparr> else W2))))"

definition token_refresh_locked ::
  "('t, 'h, 'j) line_env \<Rightarrow> string option \<Rightarrow> ('t, 'h) line_world \<Rightarrow> (string option \<times> int) \<times> ('t, 'h) line_world" where
  "token_refresh_locked E session_path W =
     (case session_path of
        None \<Rightarrow> ((None, 0), W)
      | Some path \<Rightarrow>
          (case store E (\<lambda>e F. enil_session_login_id e F (Some path)) W of
             (None, W1) \<Rightarrow> ((None, 0), W1)
           | (Some _, W1) \<Rightarrow>
          (case store E (\<lambda>e F. enil_session_bind_identity e F (le_thread E) (Some path)) W1 of
             (False, W2) \<Rightarrow> ((None, 0), W2)
           | (True, W2) \<Rightarrow>
          (case load_session E path W2 of
             None \<Rightarrow> ((None, 0), W2)
           | Some session \<Rightarrow>
               if accessToken session = None \<or> refreshToken session = None then ((None, 0), W2)
               else
                 (case refresh_string (lj E) (snapshot session) ''loginId'' of
                    None \<Rightarrow> ((None, 0), W2)
                  | Some login_id \<Rightarrow>
                      if login_id = [] \<or> 4096 \<le> length (path @ ''.refresh-pending'') then ((None, 0), W2)
                      else
                        (case recover_refresh E (path @ ''.refresh-pending'') session W2 of
                           (Stop, W3) \<Rightarrow> ((None, 0), W3)
                         | (Committed, W3) \<Rightarrow> ((accessToken session, 0), W3)
                         | (Replay reply i, W3) \<Rightarrow>
                             (case commit_refresh E path login_id session reply i W3 of (token, W4) \<Rightarrow> ((token, 0), W4))
                         | (Fresh, W3) \<Rightarrow>
                             (case request_refresh E session W3 of
                                (Inl code, W4) \<Rightarrow> ((None, code), W4)
                              | (Inr (reply, i), W4) \<Rightarrow>
                                  (case commit_refresh E path login_id session reply i W4 of
                                     (token, W5) \<Rightarrow> ((token, 0), W5)))))))))"

definition enil_line_token_refresh ::
  "('t, 'h, 'j) line_env \<Rightarrow> string option \<Rightarrow> ('t, 'h) line_world \<Rightarrow> (string option \<times> int) \<times> ('t, 'h) line_world" where
  "enil_line_token_refresh E session_path W = token_refresh_locked E session_path W"

section \<open>The token for media\<close>

text \<open>Rows end with \<open>0x1E\<close> and fields with \<open>0x1F\<close>; the token is the first field of the second row.\<close>

definition record_token :: "string \<Rightarrow> string option" where
  "record_token data_str =
     (case dropWhile (\<lambda>c. c \<noteq> CHR 0x1E) data_str of
        [] \<Rightarrow> None
      | _ # rest \<Rightarrow>
          (let token = takeWhile (\<lambda>c. c \<noteq> CHR 0x1F \<and> c \<noteq> CHR 0x1E) rest in if token = [] then None else Some token))"

definition store_obs_token :: "'j cjson \<Rightarrow> string \<Rightarrow> 'j session_t \<Rightarrow> 'j session_t" where
  "store_obs_token J token session =
     (let tokens = (case keep_if (isObject J) (encryptedAccessTokens session) of None \<Rightarrow> mkObject J | Some t \<Rightarrow> t)
      in session\<lparr>encryptedAccessTokens := Some (addItem J (delete_ci J tokens ''2'') ''2'' (mkString J token))\<rparr>)"

definition enil_line_acquire_obs_token ::
  "('t, 'h, 'j) line_env \<Rightarrow> string option \<Rightarrow> string option \<Rightarrow> ('t, 'h) line_world \<Rightarrow> string option \<times> ('t, 'h) line_world" where
  "enil_line_acquire_obs_token E session_path access_token W =
     (case (session_path, access_token) of
        (Some path, Some token) \<Rightarrow>
          (case store E (\<lambda>e F. enil_session_continue_identity e F (le_thread E) (Some path)) W of
             (False, W1) \<Rightarrow> (None, W1)
           | (True, W1) \<Rightarrow>
          (case post E ''/api/talk/thrift/Talk/TalkService/acquireEncryptedAccessToken'' ''[2]'' (Some token) W1 of
             (r, W2) \<Rightarrow>
               (let J = lj E; root = (if status r = 200 then Option.bind (body r) (parseText J) else None);
                    msg = jstr J (jgeti J root ''message'')
                in case (if msg = Some ''OK'' then jstr J (jgeti J root ''data'') else None) of
                     None \<Rightarrow> (None, W2)
                   | Some data_str \<Rightarrow>
                       (case record_token data_str of
                          None \<Rightarrow> (None, W2)
                        | Some obs_token \<Rightarrow>
                            (case load_session E path W2 of
                               None \<Rightarrow> (Some obs_token, W2)
                             | Some session \<Rightarrow> (Some obs_token, snd (session_persist E path (store_obs_token J obs_token session) W2)))))))
      | _ \<Rightarrow> (None, W))"

end
