(* ===== verification/ENIL_LineRefreshFacts.thy ===== *)
theory ENIL_LineRefreshFacts
  imports ENIL_LineRefresh ENIL_SessionRun
begin

text \<open>
  What a refresh of tokens guarantees.  The server answers each refresh token once, so a reply that is lost
  ends the login; the code keeps a journal of the reply until the session holds its tokens.
\<close>

section \<open>The environment\<close>

definition refresh_path :: string where "refresh_path = ''/api/auth/tokenRefresh''"

abbreviation pending_of :: "string \<Rightarrow> string" where
  "pending_of path \<equiv> path @ ''.refresh-pending''"

text \<open>What is printed reads back with the same strings.\<close>

definition keeps_strings :: "'j cjson \<Rightarrow> ('j \<Rightarrow> string) \<Rightarrow> bool" where
  "keeps_strings J pr \<longleftrightarrow>
     (\<forall>d d'. parseText J (cstr (pr d)) = Some d' \<longrightarrow> (\<forall>k. refresh_string J (Some d') k = refresh_string J (Some d) k))"

text \<open>One JSON library, and a refresh request that leaves the files alone, as both transports do.\<close>

definition refresh_world :: "'j cjson \<Rightarrow> ('j \<Rightarrow> string) \<Rightarrow> ('t, 'h, 'j) line_env \<Rightarrow> bool" where
  "refresh_world J pr E \<longleftrightarrow> cjson_name_laws J \<and> keeps_strings J pr \<and> lj E = J \<and>
     (\<forall>n. sj (le_se E n) = J \<and> pretty (le_se E n) = pr) \<and>
     (\<forall>b tok hs t W. lw_files (snd (le_post E refresh_path b tok hs t W)) = lw_files W)"

lemma refresh_worldD:
  assumes "refresh_world J pr E"
  shows "cjson_name_laws J" "cjson_laws J" "keeps_strings J pr" "njson (le_ne E) = J" "sj (le_se E n) = J" "pretty (le_se E n) = pr"
    "lw_files (snd (post E refresh_path b tok W)) = lw_files W"
  using assms cjson_name_laws.axioms(1) [of J]
  by (simp_all add: refresh_world_def post_def split: prod.split) (metis snd_conv)

text \<open>A saved login: its document has an identifier and an access token, and no name twice.\<close>

definition saved_login :: "'j cjson \<Rightarrow> string \<Rightarrow> string \<Rightarrow> 'j \<Rightarrow> ('t, 'h) line_world \<Rightarrow> bool" where
  "saved_login J path s d W \<longleftrightarrow>
     sfiles (lw_files W) path = Some s \<and> parseText J (cstr s) = Some d \<and> clean_doc J d \<and>
     refresh_string J (Some d) ''loginId'' \<noteq> None \<and> refresh_string J (Some d) ''loginId'' \<noteq> Some [] \<and>
     refresh_string J (Some d) ''accessToken'' \<noteq> None"

text \<open>The journal holds the reply to this session's refresh token, under an identifier not yet committed.\<close>

definition reply_saved :: "'j cjson \<Rightarrow> string \<Rightarrow> 'j \<Rightarrow> string \<Rightarrow> ('t, 'h) line_world \<Rightarrow> bool" where
  "reply_saved J path d reply W \<longleftrightarrow>
     (\<exists>j. sfiles (lw_files W) (pending_of path) = Some j \<and>
        (\<forall>p. parseText J (cstr j) = Some p \<longrightarrow>
           refresh_string J (Some p) ''loginId'' = refresh_string J (Some d) ''loginId'' \<and>
           refresh_string J (Some p) ''refreshId'' \<noteq> None \<and>
           refresh_string J (Some p) ''refreshId'' \<noteq> dup_str_field J d ''refreshJournalId'' \<and>
           refresh_string J (Some p) ''previousRefreshToken'' = dup_str_field J d ''refreshToken'' \<and>
           refresh_string J (Some p) ''responseBody'' = Some reply))"

text \<open>The session file has the reply's access token.\<close>

definition committed :: "'j cjson \<Rightarrow> string \<Rightarrow> string \<Rightarrow> ('t, 'h) line_world \<Rightarrow> bool" where
  "committed J path reply W \<longleftrightarrow>
     refresh_string J (issued_tokens J (parseText J reply)) ''accessToken'' \<noteq> None \<and>
     (\<exists>s. sfiles (lw_files W) path = Some s \<and>
        (\<forall>d. parseText J (cstr s) = Some d \<longrightarrow>
           refresh_string J (Some d) ''accessToken'' = refresh_string J (issued_tokens J (parseText J reply)) ''accessToken''))"

text \<open>
  The run from \<open>W\<close> to \<open>W1\<close> ends with writing the journal of this reply, after the reply has come; the write
  fails, the failure is reported, and the journal is as it was before the run, or gone.
\<close>

definition journal_unwritten ::
  "('t, 'h, 'j) line_env \<Rightarrow> string \<Rightarrow> string \<Rightarrow> ('t, 'h) line_world \<Rightarrow> ('t, 'h) line_world \<Rightarrow> bool" where
  "journal_unwritten E path reply W W1 \<longleftrightarrow>
     (\<exists>V V1 l i t. lw_asked V = lw_asked W1 \<and>
        store E (\<lambda>e F. enil_session_write e F (Some (pending_of path)) (Some (journal_doc (lj E) l i t reply))) V = (False, V1) \<and>
        W1 = line_failure E V1) \<and>
     sfiles (lw_files W1) (pending_of path) \<in> {sfiles (lw_files W) (pending_of path), None}"

lemma journal_unwritten_from:
  assumes "journal_unwritten E path reply V W1" and "sfiles (lw_files V) (pending_of path) \<in> {sfiles (lw_files W) (pending_of path), None}"
  shows "journal_unwritten E path reply W W1"
  using assms unfolding journal_unwritten_def by auto

section \<open>Steps\<close>

lemma store_parts:
  assumes "store E op W = (x, W')"
  shows "op (line_se E W) (lw_files W) = (lw_files W', x)" "lw_asked W' = lw_asked W" "lw_net W' = lw_net W"
  using assms by (auto simp: store_def split: prod.splits)

lemma written_file:
  assumes "session_write_locked e F (Some p) (Some r) = (F', ok)"
  shows "sfiles F' p = sfiles F p \<or> sfiles F' p = Some (pretty e r)" and "ok \<Longrightarrow> sfiles F' p = Some (pretty e r)"
    and "\<lbrakk>q \<noteq> p; \<not> (\<exists>l. q = p @ ''.tmp.'' @ l)\<rbrakk> \<Longrightarrow> sfiles F' q = sfiles F q"
  using assms by (auto simp: session_write_locked_eq Let_def put_file_def remove_file_def split: option.splits if_splits)

lemma pending_apart:
  "pending_of p \<noteq> p" "\<not> (\<exists>l. p = pending_of p @ ''.tmp.'' @ l)" "\<not> (\<exists>l. pending_of p = p @ ''.tmp.'' @ l)"
  by auto

lemma find_distinct:
  "distinct (map (\<lambda>(k, v). map lower_char k) kvs) \<Longrightarrow> (k, v) \<in> set kvs \<Longrightarrow> find (\<lambda>(k', v). same_name k' k) kvs = Some (k, v)"
proof (induction kvs)
  case (Cons x kvs)
  show ?case
  proof (cases "x = (k, v)")
    case False
    then have "(k, v) \<in> set kvs" using Cons.prems by auto
    moreover have "map lower_char (fst x) \<notin> set (map (\<lambda>(k, v). map lower_char k) kvs)"
      using Cons.prems(1) by (cases x) (simp only: list.map prod.case distinct.simps fst_conv not_False_eq_True simp_thms)
    then have "map lower_char (fst x) \<noteq> map lower_char k" using lower_in [OF calculation] by metis
    ultimately show ?thesis using Cons.IH Cons.prems(1) by (cases x) (simp add: same_name_def)
  qed simp
qed simp

context cjson_name_laws
begin

lemma clean_get:
  assumes "clean_doc J d" and "getItemCS J d k = Some v"
  shows "getItem J d k = Some v"
  using assms find_distinct [of "children J d" k v] by (auto simp: clean_doc_def get_ci get_cs dest: map_of_SomeD)

end

text \<open>Saving the tokens of a reply: nothing happens, or one write of a document with its access token.\<close>

lemma saved_tokens:
  assumes L: "cjson_name_laws (sj e)" and d: "clean_doc (sj e) d" "refresh_string (sj e) (Some d) ''accessToken'' \<noteq> None"
    and o': "enil_session_parse e (Some d) = Some o'" and disk: "sfiles F p = Some s" "parseText (sj e) (cstr s) = Some d"
    and save: "enil_session_save e F (Some p) ((session_apply_token_v3 (sj e) o' t)\<lparr>refreshJournalId := Some i\<rparr>) = (F', ok)"
  shows "(F' = F \<and> \<not> ok) \<or>
    (\<exists>doc. session_write_locked e F (Some p) (Some doc) = (F', ok) \<and>
       refresh_string (sj e) (Some doc) ''accessToken'' = Some (tv_accessToken t))"
proof (cases "enil_session_read e F (Some p)")
  case None
  then show ?thesis using save by (auto simp: enil_session_save_def Let_def split: option.splits)
next
  case (Some c)
  then have c: "c = d" using disk by (auto simp: enil_session_read_def split: if_splits)
  let ?J = "sj e"
  define s' where "s' = (session_apply_token_v3 ?J o' t)\<lparr>refreshJournalId := Some i\<rparr>"
  note J = cjson_name_laws.axioms(1) [OF L]
  have o1: "snapshot o' = Some d"
    using o' by (auto simp: enil_session_parse_def Let_def split: option.splits prod.splits if_splits)
  have o2: "accessToken o' = dup_str_field ?J d ''accessToken''"
    using o' by (auto simp: enil_session_parse_def Let_def split: option.splits prod.splits if_splits)
  have snap: "snapshot s' = Some d" "snapshot o' = Some d" "clientIdentity s' = clientIdentity o'"
    "accessToken s' = Some (tv_accessToken t)"
    using o1 by (simp_all add: s'_def session_apply_token_v3_def)
  obtain a v where v: "getItemCS ?J d ''accessToken'' = Some v" "isString ?J v" "valuestring ?J v = a"
    using d(2) by (auto simp: refresh_string_def jstr_def split: option.splits if_splits)
  have a: "accessToken o' = Some a"
    using o2 cjson_name_laws.clean_get [OF L d(1) v(1)] v(2,3) by (simp add: dup_str_field_def jstr_def)
  have dist: "distinct (map fst (children ?J d))" using d(1) distinct_lower_fst by (auto simp: clean_doc_def)
  note merge = saved_merge [OF L snap(1) d(1) Some [unfolded c] dist save [folded s'_def]]
  show ?thesis
  proof (cases "F' = F \<and> \<not> ok")
    case False
    then obtain base nxt doc where docs: "enil_session_to_json e (enil_session_parse e (Some d)) = Some base"
        "enil_session_to_json e (Some s') = Some nxt" "session_write_locked e F (Some p) (Some doc) = (F', ok)"
        "getItemCS ?J doc ''accessToken'' = three_way (sameItem ?J) (getItemCS ?J base ''accessToken'') (getItemCS ?J nxt ''accessToken'') (getItemCS ?J d ''accessToken'')"
      using merge by blast
    obtain idn where idn: "enil_identity_to_json ?J (Some (clientIdentity o')) = Some idn"
      by (simp add: enil_identity_to_json_def)
    then have idn': "enil_identity_to_json ?J (Some (clientIdentity s')) = Some idn" using snap(3) by simp
    note sets = cjson_name_laws.set_all_fields(3) [OF L d(1)]
    have base: "base = foldl (\<lambda>d (k, v). set_obj_field ?J k v d) d (session_fields e idn o')"
      using docs(1) unfolding o' to_json_fields [OF idn] snap option.case by simp
    have nxt: "nxt = foldl (\<lambda>d (k, v). set_obj_field ?J k v d) d (session_fields e idn s')"
      using docs(2) unfolding to_json_fields [OF idn'] snap option.case by simp
    have b: "getItemCS ?J base ''accessToken'' = Some (mkString ?J a)"
      unfolding base sets by (simp add: session_fields_def Let_def same_keys a)
    have n: "getItemCS ?J nxt ''accessToken'' = Some (mkString ?J (tv_accessToken t))"
      unfolding nxt sets by (simp add: session_fields_def Let_def same_keys snap(4))
    have "refresh_string ?J (Some doc) ''accessToken'' = Some (tv_accessToken t)"
      using docs(4) b n v cjson_name_laws.same_string [OF L] cjson_laws.string_new [OF J]
      by (simp add: three_way_def refresh_string_def jstr_def)
    with docs(3) show ?thesis by blast
  qed simp
qed

section \<open>Committing a reply\<close>

lemma login_kept:
  "saved_login J path s d W \<Longrightarrow> sfiles (lw_files W') path = sfiles (lw_files W) path \<Longrightarrow> saved_login J path s d W'"
  by (simp add: saved_login_def)

lemma reply_kept:
  "reply_saved J path d reply W \<Longrightarrow> sfiles (lw_files W') (pending_of path) = sfiles (lw_files W) (pending_of path) \<Longrightarrow>
   reply_saved J path d reply W'"
  by (simp add: reply_saved_def)

lemma journal_strings:
  assumes "cjson_laws J"
  shows "refresh_string J (Some (journal_doc J l i t r)) ''loginId'' = Some l"
    "refresh_string J (Some (journal_doc J l i t r)) ''refreshId'' = Some i"
    "refresh_string J (Some (journal_doc J l i t r)) ''previousRefreshToken'' = Some t"
    "refresh_string J (Some (journal_doc J l i t r)) ''responseBody'' = Some r"
  by (simp_all add: journal_doc_def refresh_string_def jstr_def cjson_laws.get_add [OF assms] cjson_laws.add_item [OF assms]
      cjson_laws.object_new [OF assms] cjson_laws.string_new [OF assms] cjson_laws.get_new [OF assms])

lemma parse_same:
  assumes "sj e = sj e'"
  shows "enil_session_parse e doc = enil_session_parse e' doc"
  unfolding enil_session_parse_def assms ..

lemma parsed_session:
  assumes "enil_session_parse e (Some d) = Some o'"
  shows "snapshot o' = Some d" "accessToken o' = dup_str_field (sj e) d ''accessToken''"
    "refreshToken o' = dup_str_field (sj e) d ''refreshToken''" "refreshJournalId o' = dup_str_field (sj e) d ''refreshJournalId''"
  using assms by (auto simp: enil_session_parse_def Let_def split: option.splits prod.splits if_splits)

lemma journal_saves:
  assumes "refresh_world J pr E" and "enil_session_parse e (Some d) = Some o'" "sj e = J" and "refreshToken o' = Some t"
    and "refresh_string J (Some d) ''loginId'' = Some l" and "dup_str_field J d ''refreshJournalId'' \<noteq> Some i"
    and "sfiles (lw_files W) (pending_of path) = Some (pr (journal_doc J l i t reply))"
  shows "reply_saved J path d reply W"
proof -
  note world = refresh_worldD [OF assms(1)]
  have "dup_str_field J d ''refreshToken'' = Some t" using parsed_session(3) [OF assms(2)] assms(3,4) by simp
  then show ?thesis
    using assms(5-7) world(3) journal_strings [OF world(2), of l i t reply] by (auto simp: reply_saved_def keeps_strings_def)
qed

lemma token_commits:
  assumes "refresh_world J pr E" and "talk_token_v3_issue_result_parse J st (issued_tokens J (parseText J reply)) = Some t"
    and "refresh_string J (Some doc) ''accessToken'' = Some (tv_accessToken t)" and "sfiles (lw_files W) path = Some (pr doc)"
  shows "committed J path reply W"
proof -
  have "refresh_string J (issued_tokens J (parseText J reply)) ''accessToken'' = Some (tv_accessToken t)"
    using assms(2)
    by (auto simp: talk_token_v3_issue_result_parse_def keep_if_def enil_json_dup_string_def refresh_string_def
        split: option.splits if_splits)
  then show ?thesis
    using assms(3,4) refresh_worldD(3) [OF assms(1)] by (auto simp: committed_def keeps_strings_def)
qed

lemma commit_cases:
  assumes run: "commit_refresh E path lid o' reply i W = (token, W')" and world: "refresh_world J pr E"
    and login: "saved_login J path s d W" and o': "enil_session_parse e (Some d) = Some o'" "sj e = J"
    and lid: "refresh_string J (Some d) ''loginId'' = Some lid" and fresh: "dup_str_field J d ''refreshJournalId'' \<noteq> Some i"
    and old: "refreshToken o' = Some t"
  shows "lw_asked W' = lw_asked W"
    and "committed J path reply W' \<or>
      (saved_login J path s d W' \<and> token = None \<and>
       (reply_saved J path d reply W' \<or>
        (sfiles (lw_files W') (pending_of path) = sfiles (lw_files W) (pending_of path) \<and>
         journal_unwritten E path reply W W')))"
proof -
  note w = refresh_worldD [OF world]
  let ?pend = "pending_of path" and ?doc = "journal_doc J lid i t reply"
  obtain ok W1 where s1: "store E (\<lambda>e F. enil_session_write e F (Some ?pend) (Some ?doc)) W = (ok, W1)" by fastforce
  note st = store_parts [OF s1]
  have wr: "session_write_locked (line_se E W) (lw_files W) (Some ?pend) (Some ?doc) = (lw_files W1, ok)"
    using st(1) by (simp add: enil_session_write_def)
  note f1 = written_file [OF wr, unfolded w(6)]
  have same1: "sfiles (lw_files W1) path = sfiles (lw_files W) path"
    by (rule f1(3)) (use pending_apart in auto)
  have login1: "saved_login J path s d W1" by (rule login_kept [OF login same1])
  have saved1: "reply_saved J path d reply W1" if "sfiles (lw_files W1) ?pend = Some (pr ?doc)"
    by (rule journal_saves [OF world o' old lid fresh that])
  have run1: "(\<not> ok \<and> token = None \<and> W' = line_failure E W1) \<or> (ok \<and> commit_refresh E path lid o' reply i W = (token, W'))"
    using run s1 by (cases ok) (simp_all add: commit_refresh_def Let_def w(4) old)
  show "lw_asked W' = lw_asked W"
    using run s1 st(2)
    by (auto simp: commit_refresh_def Let_def w(4) old session_persist_def line_failure_def split: bool.splits option.splits prod.splits if_splits
        dest!: store_parts(2))
  show "committed J path reply W' \<or>
      (saved_login J path s d W' \<and> token = None \<and>
       (reply_saved J path d reply W' \<or>
        (sfiles (lw_files W') ?pend = sfiles (lw_files W) ?pend \<and> journal_unwritten E path reply W W')))"
  proof (cases ok)
    case False
    with run1 have r: "token = None" "W' = line_failure E W1" by auto
    then have "saved_login J path s d W'" using login1 by (simp add: saved_login_def line_failure_def)
    moreover have "reply_saved J path d reply W' \<or> sfiles (lw_files W') ?pend = sfiles (lw_files W) ?pend"
      using f1(1) saved1 r(2) by (auto simp: line_failure_def reply_saved_def)
    moreover have "journal_unwritten E path reply W W'" if "sfiles (lw_files W') ?pend = sfiles (lw_files W) ?pend"
      unfolding journal_unwritten_def using s1 False r(2) that st(2) w(4)
      by (intro conjI exI [of _ W] exI [of _ W1] exI [of _ lid] exI [of _ i] exI [of _ t]) (simp_all add: line_failure_def)
    ultimately show ?thesis using r by auto
  next
    case True
    then have saved: "reply_saved J path d reply W1" using f1(2) saved1 by simp
    show ?thesis
    proof (cases "talk_token_v3_issue_result_parse J (strtod10 (line_se E W1)) (issued_tokens J (parseText J reply))")
      case None
      then have "token = None" "W' = W1" using run s1 True by (simp_all add: commit_refresh_def Let_def w(4) old)
      then show ?thesis using login1 saved by simp
    next
      case (Some tk)
      let ?s = "(session_apply_token_v3 J o' tk)\<lparr>refreshJournalId := Some i\<rparr>"
      obtain ok2 W2 where s2: "session_persist E path ?s W1 = (ok2, W2)" by fastforce
      note st2 = store_parts [OF s2 [unfolded session_persist_def]]
      have r: "token = (if ok2 then Some (tv_accessToken tk) else None)"
          "W' = (if ok2 then (if le_unlink E then W2\<lparr>lw_files := remove_file ?pend (lw_files W2)\<rparr> else W2) else line_failure E W2)"
        using run s1 s2 True Some by (auto simp: commit_refresh_def Let_def w(4) old split: if_splits)
      have disk: "sfiles (lw_files W1) path = Some s" "parseText (sj (line_se E W1)) (cstr s) = Some d"
        "clean_doc (sj (line_se E W1)) d" "refresh_string (sj (line_se E W1)) (Some d) ''accessToken'' \<noteq> None"
        using login1 w(5) by (simp_all add: saved_login_def)
      have o1: "enil_session_parse (line_se E W1) (Some d) = Some o'"
        using o' parse_same [of e "line_se E W1"] w(5) by simp
      have "(lw_files W2 = lw_files W1 \<and> \<not> ok2) \<or>
          (\<exists>doc. session_write_locked (line_se E W1) (lw_files W1) (Some path) (Some doc) = (lw_files W2, ok2) \<and>
             refresh_string J (Some doc) ''accessToken'' = Some (tv_accessToken tk))"
        using saved_tokens [OF _ disk(3,4) o1 disk(1,2), where t = tk and i = i and F' = "lw_files W2" and ok = ok2] st2(1) w(1) by (simp add: w(5))
      then show ?thesis
      proof (elim disjE conjE exE)
        assume "lw_files W2 = lw_files W1" "\<not> ok2"
        then show ?thesis using login1 saved r by (auto simp: line_failure_def saved_login_def reply_saved_def)
      next
        fix doc
        assume d2: "session_write_locked (line_se E W1) (lw_files W1) (Some path) (Some doc) = (lw_files W2, ok2)"
          "refresh_string J (Some doc) ''accessToken'' = Some (tv_accessToken tk)"
        note f2 = written_file [OF d2(1), unfolded w(6)]
        have same2: "sfiles (lw_files W2) ?pend = sfiles (lw_files W1) ?pend"
          by (rule f2(3)) (use pending_apart in auto)
        have W': "sfiles (lw_files W') path = sfiles (lw_files W2) path"
          using r(2) by (simp add: remove_file_def line_failure_def)
        show ?thesis
        proof (cases "sfiles (lw_files W2) path = Some (pr doc)")
          case True
          then show ?thesis using token_commits [OF world Some d2(2), of W'] W' by simp
        next
          case False
          then have "\<not> ok2" "sfiles (lw_files W2) path = sfiles (lw_files W1) path" using f2(1,2) by auto
          then show ?thesis using login1 saved r same2 by (auto simp: line_failure_def saved_login_def reply_saved_def)
        qed
      qed
    qed
  qed
qed

section \<open>A run\<close>

lemma bind_keeps_files: "sfiles (fst (enil_session_bind_identity e F t p)) = sfiles F"
  using bind_own [of t F e p] by (simp add: own_thread_def)

lemma login_id_keeps:
  assumes "refresh_world J pr E" and "saved_login J path s d W"
    and "store E (\<lambda>e F. enil_session_login_id e F (Some path)) W = (i, W')"
  shows "lw_files W' = lw_files W"
proof -
  note w = refresh_worldD [OF assms(1)]
  obtain l v where v: "getItemCS J d ''loginId'' = Some v" "isString J v" "valuestring J v = l" "l \<noteq> []"
    using assms(2) by (auto simp: saved_login_def refresh_string_def jstr_def split: option.splits if_splits)
  have "getItem J d ''loginId'' = Some v" using cjson_name_laws.clean_get [OF w(1) _ v(1)] assms(2) by (simp add: saved_login_def)
  moreover have "enil_session_read (line_se E W) (lw_files W) (Some path) \<in> {None, Some d}"
    using assms(2) w(5) by (auto simp: saved_login_def enil_session_read_def)
  ultimately show ?thesis
    using store_parts(1) [OF assms(3)] v
    by (auto simp: enil_session_login_id_def Let_def add_login_id_def w(5) jgeti_def split: option.splits if_splits)
qed

lemma retired_file:
  assumes "enil_session_retire_file e F (Some q) = (F', ok)" and "p \<noteq> q" and "\<not> (\<exists>l. p = q @ ''.retired.'' @ l)"
  shows "sfiles F' p = sfiles F p"
  using assms
  by (auto simp: enil_session_retire_file_eq Let_def put_file_def remove_file_def split: option.splits if_splits)

lemma retire_keeps:
  assumes "store E (\<lambda>e F. enil_session_retire_file e F (Some (pending_of path))) W = (ok, W')"
  shows "sfiles (lw_files W') path = sfiles (lw_files W) path"
  by (rule retired_file [OF store_parts(1) [OF assms]]) auto

lemma retire_removes:
  assumes "enil_session_retire_file e F (Some q) = (F', ok)"
  shows "sfiles F' q \<in> {sfiles F q, None}"
  using assms
  by (auto simp: enil_session_retire_file_eq Let_def put_file_def remove_file_def split: option.splits if_splits)

lemma recover_steps:
  "recover_refresh E q o' W \<in> {(Stop, W), (Fresh, W)} \<or> (\<exists>next. recover_refresh E q o' W = retire_journal E q next W) \<or>
   (\<exists>raw i. recover_refresh E q o' W = (Replay raw i, W))"
  by (simp add: recover_refresh_def Let_def split: option.split) blast

lemma recover_keeps:
  assumes "recover_refresh E (pending_of path) o' W = (res, W')"
  shows "sfiles (lw_files W') path = sfiles (lw_files W) path" "lw_asked W' = lw_asked W"
    and "sfiles (lw_files W') (pending_of path) \<in> {sfiles (lw_files W) (pending_of path), None}"
proof -
  obtain ok V where v: "store E (\<lambda>e F. enil_session_retire_file e F (Some (pending_of path))) W = (ok, V)" by fastforce
  have "W' = W \<or> W' = V"
    using recover_steps [of E "pending_of path" o' W] assms by (auto simp: retire_journal_def v)
  then show "sfiles (lw_files W') path = sfiles (lw_files W) path" "lw_asked W' = lw_asked W"
      and "sfiles (lw_files W') (pending_of path) \<in> {sfiles (lw_files W) (pending_of path), None}"
    using retire_keeps [OF v] store_parts(2) [OF v] retire_removes [OF store_parts(1) [OF v]] by auto
qed

text \<open>The part of a run before the journal is looked at.\<close>

lemma run_starts:
  assumes "refresh_world J pr E" and "saved_login J path s d W" and "token_refresh_locked E (Some path) W = (out, W')"
  obtains "out = (None, 0)" "sfiles (lw_files W') = sfiles (lw_files W)" "lw_asked W' = lw_asked W"
  | W2 o' l t e where "sfiles (lw_files W2) = sfiles (lw_files W)" "lw_asked W2 = lw_asked W"
      "enil_session_parse e (Some d) = Some o'" "sj e = J" "refreshToken o' = Some t"
      "refresh_string J (Some d) ''loginId'' = Some l"
      "(case recover_refresh E (pending_of path) o' W2 of
          (Stop, W3) \<Rightarrow> ((None, 0), W3)
        | (Committed, W3) \<Rightarrow> ((accessToken o', 0), W3)
        | (Replay reply i, W3) \<Rightarrow> (case commit_refresh E path l o' reply i W3 of (token, W4) \<Rightarrow> ((token, 0), W4))
        | (Fresh, W3) \<Rightarrow>
            (case request_refresh E o' W3 of
               (Inl code, W4) \<Rightarrow> ((None, code), W4)
             | (Inr (reply, i), W4) \<Rightarrow> (case commit_refresh E path l o' reply i W4 of (token, W5) \<Rightarrow> ((token, 0), W5)))) = (out, W')"
proof -
  note w = refresh_worldD [OF assms(1)]
  obtain i W1 where s1: "store E (\<lambda>e F. enil_session_login_id e F (Some path)) W = (i, W1)" by fastforce
  obtain ok W2 where s2: "store E (\<lambda>e F. enil_session_bind_identity e F (le_thread E) (Some path)) W1 = (ok, W2)" by fastforce
  have f: "sfiles (lw_files W1) = sfiles (lw_files W)" "sfiles (lw_files W2) = sfiles (lw_files W)"
    "lw_asked W1 = lw_asked W" "lw_asked W2 = lw_asked W"
    using login_id_keeps [OF assms(1,2) s1] store_parts [OF s1] store_parts [OF s2]
      bind_keeps_files [of "line_se E W1" "lw_files W1" "le_thread E" "Some path"] by simp_all
  show thesis
  proof (cases "i = None \<or> \<not> ok \<or> load_session E path W2 = None")
    case True
    then have "out = (None, 0) \<and> (W' = W1 \<or> W' = W2)"
      using assms(3) s1 s2 by (auto simp: token_refresh_locked_def split: option.splits bool.splits)
    then show ?thesis using that(1) f by auto
  next
    case False
    then obtain o' where o': "load_session E path W2 = Some o'" by blast
    have disk: "sfiles (lw_files W2) path = Some s" "parseText J (cstr s) = Some d" using assms(2) f by (simp_all add: saved_login_def)
    have p: "enil_session_parse (line_se E W2) (Some d) = Some o'"
      using o' disk w(5) by (auto simp: load_session_def enil_session_load_def enil_session_read_def enil_session_parse_def split: if_splits)
    obtain l where l: "refresh_string J (Some d) ''loginId'' = Some l" using assms(2) by (auto simp: saved_login_def)
    show ?thesis
    proof (cases "accessToken o' = None \<or> refreshToken o' = None \<or> l = [] \<or> 4096 \<le> length (pending_of path)")
      case True
      then have "out = (None, 0) \<and> W' = W2"
        using assms(3) s1 s2 False o' l parsed_session(1) [OF p] w(4)
        by (auto simp: token_refresh_locked_def split: option.splits bool.splits if_splits)
      then show ?thesis using that(1) f by auto
    next
      case go: False
      then obtain t where t: "refreshToken o' = Some t" by (cases "refreshToken o'") auto
      show ?thesis
        by (rule that(2) [of W2 "line_se E W2" o' t l, OF f(2,4) p w(5) t l])
          (use assms(3) s1 s2 False o' l parsed_session(1) [OF p] w(4) go in
            \<open>auto simp: token_refresh_locked_def split: option.splits bool.splits if_splits\<close>)
    qed
  qed
qed

text \<open>While a reply is saved and not committed, a run asks for nothing.\<close>

lemma saved_recovers:
  assumes "refresh_world J pr E" and "saved_login J path s d W" and "reply_saved J path d reply W"
    and "enil_session_parse e (Some d) = Some o'" "sj e = J" "refreshToken o' = Some t" "refresh_string J (Some d) ''loginId'' = Some l"
  shows "recover_refresh E (pending_of path) o' W = (Stop, W) \<or>
    (\<exists>i. recover_refresh E (pending_of path) o' W = (Replay reply i, W) \<and> dup_str_field J d ''refreshJournalId'' \<noteq> Some i)"
proof -
  note w = refresh_worldD [OF assms(1)]
  note o' = parsed_session [OF assms(4), unfolded assms(5)]
  obtain j where j: "sfiles (lw_files W) (pending_of path) = Some j"
    "\<And>p. parseText J (cstr j) = Some p \<Longrightarrow>
       refresh_string J (Some p) ''loginId'' = Some l \<and>
       refresh_string J (Some p) ''refreshId'' \<noteq> None \<and>
       refresh_string J (Some p) ''refreshId'' \<noteq> refreshJournalId o' \<and>
       refresh_string J (Some p) ''previousRefreshToken'' = Some t \<and>
       refresh_string J (Some p) ''responseBody'' = Some reply"
    using assms(3,6,7) o' by (auto simp: reply_saved_def)
  show ?thesis
  proof (cases "enil_session_read (line_se E W) (lw_files W) (Some (pending_of path))")
    case None
    then show ?thesis using j(1) by (simp add: recover_refresh_def Let_def refresh_string_def jstr_def jget_def)
  next
    case (Some p)
    then have "parseText J (cstr j) = Some p" using j(1) w(5) by (auto simp: enil_session_read_def split: if_splits)
    note p = j(2) [OF this]
    then obtain i where i: "refresh_string J (Some p) ''refreshId'' = Some i" by blast
    have l: "refresh_string J (snapshot o') ''loginId'' = Some l" using o'(1) assms(7) by simp
    show ?thesis using p i l Some j(1) assms(6) o'(4) by (auto simp: recover_refresh_def Let_def w(4))
  qed
qed

lemma saved_run:
  assumes "token_refresh_locked E (Some path) W = (out, W')" and "refresh_world J pr E"
    and "saved_login J path s d W" and "reply_saved J path d reply W"
  shows "lw_asked W' = lw_asked W"
    and "committed J path reply W' \<or> (saved_login J path s d W' \<and> reply_saved J path d reply W')"
proof -
  have "lw_asked W' = lw_asked W \<and> (committed J path reply W' \<or> (saved_login J path s d W' \<and> reply_saved J path d reply W'))"
  proof (rule run_starts [OF assms(2,3,1)])
    assume "sfiles (lw_files W') = sfiles (lw_files W)" "lw_asked W' = lw_asked W"
    then show ?thesis using assms(3,4) by (simp add: saved_login_def reply_saved_def)
  next
    fix W2 o' l t e
    assume same: "sfiles (lw_files W2) = sfiles (lw_files W)" "lw_asked W2 = lw_asked W"
      and o': "enil_session_parse e (Some d) = Some o'" "sj e = J" "refreshToken o' = Some t" "refresh_string J (Some d) ''loginId'' = Some l"
      and run: "(case recover_refresh E (pending_of path) o' W2 of
          (Stop, W3) \<Rightarrow> ((None, 0), W3)
        | (Committed, W3) \<Rightarrow> ((accessToken o', 0), W3)
        | (Replay reply i, W3) \<Rightarrow> (case commit_refresh E path l o' reply i W3 of (token, W4) \<Rightarrow> ((token, 0), W4))
        | (Fresh, W3) \<Rightarrow>
            (case request_refresh E o' W3 of
               (Inl code, W4) \<Rightarrow> ((None, code), W4)
             | (Inr (reply, i), W4) \<Rightarrow> (case commit_refresh E path l o' reply i W4 of (token, W5) \<Rightarrow> ((token, 0), W5)))) = (out, W')"
    have W2: "saved_login J path s d W2" "reply_saved J path d reply W2"
      using assms(3,4) same by (simp_all add: saved_login_def reply_saved_def)
    from saved_recovers [OF assms(2) W2 o'] show ?thesis
    proof (elim disjE exE conjE)
      assume "recover_refresh E (pending_of path) o' W2 = (Stop, W2)"
      then show ?thesis using run same W2 by simp
    next
      fix i
      assume i: "recover_refresh E (pending_of path) o' W2 = (Replay reply i, W2)" "dup_str_field J d ''refreshJournalId'' \<noteq> Some i"
      obtain token where c: "commit_refresh E path l o' reply i W2 = (token, W')" using run i(1) by (auto split: prod.splits)
      note cc = commit_cases [OF c assms(2) W2(1) o'(1,2,4) i(2) o'(3)]
      show ?thesis using cc same W2(2) reply_kept [OF W2(2), of W'] by auto
    qed
  qed
  then show "lw_asked W' = lw_asked W" "committed J path reply W' \<or> (saved_login J path s d W' \<and> reply_saved J path d reply W')"
    by blast+
qed

lemma requested:
  assumes "request_refresh E o' W = (ans, W')" and "refresh_world J pr E"
  shows "lw_files W' = lw_files W"
    and "(\<exists>code. ans = Inl code \<and> (W' = W \<or> (\<exists>q. lw_asked W' = lw_asked W @ [(refresh_path, q)] \<and> (status q \<noteq> 200 \<or> body q = None)))) \<or>
       (\<exists>b i q n. ans = Inr (b, i) \<and> lw_asked W' = lw_asked W @ [(refresh_path, q)] \<and> body q = Some b \<and>
          enil_session_new_id (le_se E n) = Some i)"
proof -
  have post: "lw_files V = lw_files W \<and> lw_asked V = lw_asked W @ [(refresh_path, q)]"
    if "post E refresh_path c tok W = (q, V)" for c tok q V
    using that refresh_worldD(7) [OF assms(2), of c tok W] by (auto simp: post_def split: prod.splits)
  show "lw_files W' = lw_files W"
    using assms(1) by (auto simp: request_refresh_def Let_def refresh_path_def [symmetric] split: option.splits prod.splits if_splits dest!: post)
  show "(\<exists>code. ans = Inl code \<and> (W' = W \<or> (\<exists>q. lw_asked W' = lw_asked W @ [(refresh_path, q)] \<and> (status q \<noteq> 200 \<or> body q = None)))) \<or>
       (\<exists>b i q n. ans = Inr (b, i) \<and> lw_asked W' = lw_asked W @ [(refresh_path, q)] \<and> body q = Some b \<and>
          enil_session_new_id (le_se E n) = Some i)"
    using assms(1) by (auto simp: request_refresh_def Let_def refresh_path_def [symmetric] split: option.splits prod.splits if_splits dest!: post)
qed

text \<open>The run that gets the reply saves it, or reports that it could not.\<close>

lemma asking_run:
  assumes "token_refresh_locked E (Some path) W = (out, W')" and "refresh_world J pr E" and "saved_login J path s d W"
    and fresh: "\<And>n i. enil_session_new_id (le_se E n) = Some i \<Longrightarrow> dup_str_field J d ''refreshJournalId'' \<noteq> Some i"
    and asked: "lw_asked W' = lw_asked W @ [(refresh_path, r)]" "status r = 200" "body r = Some reply"
  shows "committed J path reply W' \<or> (saved_login J path s d W' \<and> reply_saved J path d reply W') \<or>
    journal_unwritten E path reply W W'"
proof (rule run_starts [OF assms(2,3,1)])
  assume "lw_asked W' = lw_asked W"
  then show ?thesis using asked(1) by simp
next
  fix W2 o' l t e
  assume same: "sfiles (lw_files W2) = sfiles (lw_files W)" "lw_asked W2 = lw_asked W"
    and o': "enil_session_parse e (Some d) = Some o'" "sj e = J" "refreshToken o' = Some t" "refresh_string J (Some d) ''loginId'' = Some l"
    and run: "(case recover_refresh E (pending_of path) o' W2 of
        (Stop, W3) \<Rightarrow> ((None, 0), W3)
      | (Committed, W3) \<Rightarrow> ((accessToken o', 0), W3)
      | (Replay reply i, W3) \<Rightarrow> (case commit_refresh E path l o' reply i W3 of (token, W4) \<Rightarrow> ((token, 0), W4))
      | (Fresh, W3) \<Rightarrow>
          (case request_refresh E o' W3 of
             (Inl code, W4) \<Rightarrow> ((None, code), W4)
           | (Inr (reply, i), W4) \<Rightarrow> (case commit_refresh E path l o' reply i W4 of (token, W5) \<Rightarrow> ((token, 0), W5)))) = (out, W')"
  note w = refresh_worldD [OF assms(2)]
  obtain res W3 where rc: "recover_refresh E (pending_of path) o' W2 = (res, W3)" by fastforce
  note keep = recover_keeps [OF rc]
  have W3: "saved_login J path s d W3" using assms(3) same keep by (simp add: saved_login_def)
  have none: ?thesis if "lw_asked W' = lw_asked W3" using that asked(1) same keep by simp
  have replay: "lw_asked W' = lw_asked V" if "commit_refresh E path l o' b i V = (token, W')" for b i V token
    using that by (auto simp: commit_refresh_def Let_def session_persist_def line_failure_def
        split: bool.splits option.splits prod.splits if_splits dest!: store_parts(2))
  show ?thesis
  proof (cases res)
    case Fresh
    obtain ans W4 where rq: "request_refresh E o' W3 = (ans, W4)" by fastforce
    have W4: "lw_files W4 = lw_files W3"
      "(\<exists>code. ans = Inl code \<and> (W4 = W3 \<or> (\<exists>q. lw_asked W4 = lw_asked W3 @ [(refresh_path, q)] \<and> (status q \<noteq> 200 \<or> body q = None)))) \<or>
       (\<exists>b i q n. ans = Inr (b, i) \<and> lw_asked W4 = lw_asked W3 @ [(refresh_path, q)] \<and> body q = Some b \<and>
          enil_session_new_id (le_se E n) = Some i)"
      using requested [OF rq assms(2)] by blast+
    show ?thesis
    proof (cases ans)
      case (Inl code)
      then show ?thesis using run rc Fresh rq W4(2) asked same keep by auto
    next
      case (Inr bi)
      obtain b i where bi: "bi = (b, i)" by (cases bi)
      obtain q n where q: "lw_asked W4 = lw_asked W3 @ [(refresh_path, q)]" "body q = Some b" "enil_session_new_id (le_se E n) = Some i"
        using W4(2) Inr bi by auto
      obtain token where c: "commit_refresh E path l o' b i W4 = (token, W')"
        using run rc Fresh rq Inr bi by (auto split: prod.splits)
      have "b = reply" using replay [OF c] q asked same keep by simp
      moreover have "saved_login J path s d W4" using W3 W4(1) by (simp add: saved_login_def)
      moreover have "sfiles (lw_files W4) (pending_of path) \<in> {sfiles (lw_files W) (pending_of path), None}"
        using keep(3) W4(1) same(1) by simp
      ultimately show ?thesis
        using commit_cases(2) [OF c assms(2) _ o'(1,2,4) fresh [OF q(3)] o'(3)] journal_unwritten_from [of E path reply W4 W' W] by blast
    qed
  qed (use none replay run rc in \<open>auto split: prod.splits\<close>)
qed

section \<open>Many runs\<close>

definition refresh_all ::
  "string \<Rightarrow> ('t, 'h, 'j) line_env list \<Rightarrow> ('t, 'h) line_world \<Rightarrow> ('t, 'h) line_world" where
  "refresh_all path Es W = foldl (\<lambda>W E. snd (enil_line_token_refresh E (Some path) W)) W Es"

lemma saved_runs:
  assumes "\<forall>E \<in> set Es. refresh_world J pr E" and "saved_login J path s d W" and "reply_saved J path d reply W"
  shows "(\<exists>m \<le> length Es. committed J path reply (refresh_all path (take m Es) W)) \<or>
    lw_asked (refresh_all path Es W) = lw_asked W"
  using assms
proof (induction Es arbitrary: W)
  case (Cons E Es)
  obtain out W1 where r: "enil_line_token_refresh E (Some path) W = (out, W1)" by fastforce
  have all: "refresh_all path (E # Fs) W = refresh_all path Fs W1" for Fs by (simp add: refresh_all_def r)
  have "refresh_world J pr E" using Cons.prems(1) by simp
  note one = saved_run [OF r [unfolded enil_line_token_refresh_def] this Cons.prems(2,3)]
  show ?case
  proof (cases "committed J path reply W1")
    case True
    then have "committed J path reply (refresh_all path (take 1 (E # Es)) W)" using all [of "[]"] by (simp add: refresh_all_def)
    then show ?thesis by (metis One_nat_def Suc_leI length_Cons zero_less_Suc)
  next
    case False
    with one have "(\<exists>m \<le> length Es. committed J path reply (refresh_all path (take m Es) W1)) \<or>
        lw_asked (refresh_all path Es W1) = lw_asked W1"
      using Cons.IH [of W1] Cons.prems(1) by auto
    then show ?thesis
    proof
      assume "\<exists>m \<le> length Es. committed J path reply (refresh_all path (take m Es) W1)"
      then obtain m where "m \<le> length Es" "committed J path reply (refresh_all path (take (Suc m) (E # Es)) W)"
        using all by auto
      then show ?thesis by (metis Suc_le_mono length_Cons)
    qed (use all one(1) in simp)
  qed
qed (simp add: refresh_all_def)

section \<open>Property\<close>

text \<open>C4: The answer to a refresh is never lost.  When a run sends the refresh token and gets an answer, then
  unless that run's own write of the journal fails (then the run ends there, reports it, and leaves the journal
  file as it found it or retired), no later run on this login, whatever fails in it, sends a request before the
  session file holds the answer's access token: the answer is taken from the journal instead.  In particular
  this holds when the journal is written and saving the session then fails.  Assumed: transports that leave the
  files alone during the request, a JSON library that keeps strings, a fresh identifier for the request, and a
  session document with a login identifier and an access token.\<close>

theorem refresh_reply_never_lost:
  assumes "\<forall>E \<in> set (E0 # Es). refresh_world J pr E" and "saved_login J path s d W"
    and "\<forall>n i. enil_session_new_id (le_se E0 n) = Some i \<longrightarrow> dup_str_field J d ''refreshJournalId'' \<noteq> Some i"
    and "lw_asked (snd (enil_line_token_refresh E0 (Some path) W)) = lw_asked W @ [(refresh_path, r)]"
    and "status r = 200" and "body r = Some reply"
  shows "let W1 = snd (enil_line_token_refresh E0 (Some path) W) in
    journal_unwritten E0 path reply W W1 \<or>
    (\<exists>m \<le> length Es. committed J path reply (refresh_all path (take m Es) W1)) \<or>
    lw_asked (refresh_all path Es W1) = lw_asked W1"
proof -
  obtain out W1 where run: "token_refresh_locked E0 (Some path) W = (out, W1)" by fastforce
  have W1: "snd (enil_line_token_refresh E0 (Some path) W) = W1" by (simp add: enil_line_token_refresh_def run)
  have "committed J path reply W1 \<or> (saved_login J path s d W1 \<and> reply_saved J path d reply W1) \<or>
      journal_unwritten E0 path reply W W1"
    by (rule asking_run [OF run]) (use assms W1 in auto)
  then show ?thesis
    using saved_runs [of Es J pr path s d W1 reply] assms(1) unfolding W1 Let_def
    by (metis list.set_intros(2) refresh_all_def foldl_Nil take_0 zero_le)
qed

text \<open>
  A server whose answer has no access token.  The answer stays in the journal, and two more runs, in which every
  write succeeds, send nothing.
\<close>

definition demo_saved :: json where
  "demo_saved = JObj [(''loginId'', JStr ''L''), (''accessToken'', JStr ''a''), (''refreshToken'', JStr ''r''),
     (''clientIdentity'', the (enil_identity_to_json (tree (\<lambda>s. None) (\<lambda>j. [])) (Some windows_identity)))]"

definition demo_journal :: json where
  "demo_journal = JObj [(''loginId'', JStr ''L''), (''refreshId'', JStr ''00000000000000000000000000000000''),
     (''previousRefreshToken'', JStr ''r''), (''responseBody'', JStr ''R'')]"

definition demo_text :: "json \<Rightarrow> string" where
  "demo_text d = (if d = demo_journal then ''P'' else ''?'')"

definition demo_lib :: "json cjson" where
  "demo_lib = tree (\<lambda>s. if s = ''S'' then Some demo_saved else if s = ''P'' then Some demo_journal
     else if s = ''R'' then Some (JObj [(''data'', JObj [])]) else None) demo_text"

definition demo_calls :: "json session_env" where
  "demo_calls = \<lparr>sj = demo_lib, pretty = demo_text, of_i64 = of_int, strtod10 = (\<lambda>_. 0), rand16 = Some (replicate 16 0),
     rd_ok = (\<lambda>_. True), acc_ok = (\<lambda>_. True), regular = (\<lambda>_. True), dir_ok = (\<lambda>_. True),
     wr = \<lparr>wc_letters = Some ''x'', wc_fdopen = True, wc_write = True, wc_fclose = True, wc_rename = True\<rparr>,
     rt = \<lparr>rt_letters = Some ''y'', rt_rename = True\<rparr>, binding_ready = True, spec_ok = (\<lambda>_. True), ident_ok = (\<lambda>_. (True, True, True))\<rparr>"

definition demo_online :: "(nat, nat, json) line_env" where
  "demo_online = \<lparr>le_ne = (demo_net_env (\<lambda>_. (0, [])))\<lparr>njson := demo_lib\<rparr>, le_thread = 0, le_se = (\<lambda>n. demo_calls),
     le_post = (\<lambda>path content token hs t W. (\<lparr>status = 200, body = Some ''R''\<rparr>, W)), le_language = ''en'', le_time = (\<lambda>_. 0), le_unlink = True\<rparr>"

definition demo_before :: "(nat, nat) line_world" where
  "demo_before = \<lparr>lw_files = \<lparr>sfiles = [''/s'' \<mapsto> ''S''], sbinding = (\<lambda>_. None), sident = \<lparr>key_ready = True, current = (\<lambda>_. None)\<rparr>\<rparr>,
     lw_net = demo_net, lw_ops = 0, lw_asked = []\<rparr>"

definition demo_answer :: "string \<times> ENILLineResponse" where
  "demo_answer = (refresh_path, \<lparr>status = 200, body = Some ''R''\<rparr>)"

lemma demo_asked: "lw_asked (snd (enil_line_token_refresh demo_online (Some ''/s'') demo_before)) = [demo_answer]"
  by code_simp

lemma demo_saved_login: "saved_login demo_lib ''/s'' ''S'' demo_saved demo_before"
proof -
  have "isObject demo_lib demo_saved" "refresh_string demo_lib (Some demo_saved) ''loginId'' = Some ''L''"
    "refresh_string demo_lib (Some demo_saved) ''accessToken'' = Some ''a''" "parseText demo_lib (cstr ''S'') = Some demo_saved"
    "distinct (map (\<lambda>(k, v). map lower_char k) (children demo_lib demo_saved))"
    by code_simp+
  then show ?thesis by (simp add: saved_login_def clean_doc_def demo_before_def)
qed

lemma demo_refresh_world: "refresh_world demo_lib demo_text demo_online"
proof -
  have "parseText demo_lib (cstr ''?'') = None" "parseText demo_lib (cstr ''P'') = Some demo_journal" by code_simp+
  then have "keeps_strings demo_lib demo_text" by (auto simp: keeps_strings_def demo_text_def)
  moreover have "cjson_name_laws demo_lib" unfolding demo_lib_def by (rule tree_names.cjson_name_laws_axioms)
  ultimately show ?thesis by (simp add: refresh_world_def demo_online_def demo_calls_def)
qed

theorem refresh_reply_never_lost_witness:
  "lw_asked (refresh_all ''/s'' [demo_online, demo_online] (snd (enil_line_token_refresh demo_online (Some ''/s'') demo_before))) = [demo_answer]"
proof -
  define W1 where "W1 = snd (enil_line_token_refresh demo_online (Some ''/s'') demo_before)"
  have new: "\<forall>n i. enil_session_new_id (le_se demo_online n) = Some i \<longrightarrow> dup_str_field demo_lib demo_saved ''refreshJournalId'' \<noteq> Some i"
  proof -
    have "dup_str_field demo_lib demo_saved ''refreshJournalId'' = None" by code_simp
    then show ?thesis by simp
  qed
  have empty: "refresh_string demo_lib (issued_tokens demo_lib (parseText demo_lib ''R'')) ''accessToken'' = None" by code_simp
  have "journal_unwritten demo_online ''/s'' ''R'' demo_before W1 \<or>
      (\<exists>m \<le> length [demo_online, demo_online]. committed demo_lib ''/s'' ''R'' (refresh_all ''/s'' (take m [demo_online, demo_online]) W1)) \<or>
      lw_asked (refresh_all ''/s'' [demo_online, demo_online] W1) = lw_asked W1"
    using refresh_reply_never_lost [of demo_online "[demo_online, demo_online]" demo_lib demo_text "''/s''" "''S''" demo_saved demo_before
        "snd demo_answer" "''R''"] demo_refresh_world demo_saved_login new demo_asked
    by (simp add: Let_def W1_def demo_answer_def demo_before_def)
  moreover have "\<not> journal_unwritten demo_online ''/s'' ''R'' demo_before W1"
    by (simp add: journal_unwritten_def store_def enil_session_write_def session_write_locked_eq Let_def demo_online_def demo_calls_def
        sync_parent_directory_def)
  moreover have "\<not> committed demo_lib ''/s'' ''R'' V" for V :: "(nat, nat) line_world" using empty by (simp add: committed_def)
  ultimately show ?thesis using demo_asked by (simp add: W1_def)
qed

end
