(* ===== verification/ENIL_Obs.thy ===== *)
theory ENIL_Obs
  imports ENIL_LineRefresh ENIL_Transport ENIL_Crypto
begin

text \<open>
  \<open>source/shared/enil_obs.c\<close>: upload and download of media.  Requests move the network of the world, files its
  file system.  \<open>ob_headers\<close> gives the header lines of a reply, \<open>ob_ms\<close> the clock in milliseconds and \<open>ob_file\<close>
  how writing a download ends.  Waiting between attempts only lets time pass, and the content type that is
  read back is used nowhere.
\<close>

record ('t, 'h, 'j) obs_env =
  ob_le :: "('t, 'h, 'j) line_env"
  ob_headers :: "curl_handle list \<Rightarrow> string list"
  ob_ms :: "('t, 'h) line_world \<Rightarrow> int"
  ob_file :: "('t, 'h) line_world \<Rightarrow> write_calls"
  ob_evp_encode :: "byte list \<Rightarrow> string"
  ob_evp_decode :: "string \<Rightarrow> byte list option"
  ob_hmac :: "byte list \<Rightarrow> byte list \<Rightarrow> byte list"
  ob_ctr :: "byte list \<Rightarrow> byte list \<Rightarrow> byte list \<Rightarrow> byte list option"

abbreviation ob_identity :: "('t, 'h, 'j) obs_env \<Rightarrow> ('t, 'h) line_world \<Rightarrow> enil_identity_t option" where
  "ob_identity E W \<equiv> enil_identity_current (sident (lw_files W)) (le_thread (ob_le E))"

definition OBS_BASE :: string where "OBS_BASE = ''https://obs.line-apps.com''"

section \<open>Addresses\<close>

definition is_unreserved :: "char \<Rightarrow> bool" where
  "is_unreserved c \<longleftrightarrow>
     (let n = of_char c :: nat in (48 \<le> n \<and> n \<le> 57) \<or> (65 \<le> n \<and> n \<le> 90) \<or> (97 \<le> n \<and> n \<le> 122)) \<or>
     c \<in> {CHR ''-'', CHR ''_'', CHR ''.'', CHR ''~''}"

definition url_encode :: "string \<Rightarrow> string" where
  "url_encode value =
     concat (map (\<lambda>c. if is_unreserved c then [c]
       else [CHR ''%'', hex_upper (of_char c div 16), hex_upper (of_char c mod 16)]) value)"

text \<open>An address that does not fit in \<open>url_len\<close> bytes with its NUL is refused.\<close>

definition build_obs_url ::
  "nat \<Rightarrow> string option \<Rightarrow> string option \<Rightarrow> string \<Rightarrow> string option \<Rightarrow> string \<Rightarrow> string option" where
  "build_obs_url url_len sid oid message_id obs_pop tail_part =
     (let sid_value = (if nonempty sid then the sid else ''m'');
          oid_value = (if nonempty oid then the oid else message_id);
          url = OBS_BASE @ ''/r/talk/'' @ sid_value @ ''/'' @ oid_value @ tail_part @
            (if nonempty obs_pop then ''?p='' @ url_encode (the obs_pop) else [])
      in if url_len \<le> length url then None else Some url)"

section \<open>Fetching\<close>

text \<open>
  Status 202 means that the server is not ready: the request is repeated, at most four times.  The result is
  the body of the first reply with status 200.
\<close>

fun obs_get_rounds ::
  "('t, 'h, 'j) obs_env \<Rightarrow> enil_identity_t \<Rightarrow> string \<Rightarrow> string list \<Rightarrow> nat \<Rightarrow> ('t, 'h) line_world \<Rightarrow>
   string option \<times> ('t, 'h) line_world" where
  "obs_get_rounds E i url hs 0 W = (None, W)"
| "obs_get_rounds E i url hs (Suc n) W =
     (let ne = le_ne (ob_le E)
      in case enil_curl_new (s_cainfo ne) (curl_init ne (wire (lw_net W))) of
           None \<Rightarrow> (None, W)
         | Some c \<Rightarrow>
             (case transfer ne (c\<lparr>opt_url := url, opt_user_agent := Some (user_agent i), opt_headers := hs\<rparr>) (lw_net W) of
                (r, N) \<Rightarrow>
                  if rc r = CURLE_OK \<and> http_status r = 200 then (Some (received r), W\<lparr>lw_net := N\<rparr>)
                  else if rc r = CURLE_OK \<and> http_status r = 202 then obs_get_rounds E i url hs n (W\<lparr>lw_net := N\<rparr>)
                  else (None, W\<lparr>lw_net := N\<rparr>)))"

definition obs_get ::
  "('t, 'h, 'j) obs_env \<Rightarrow> string \<Rightarrow> string \<Rightarrow> string option \<Rightarrow> string \<Rightarrow> ('t, 'h) line_world \<Rightarrow>
   string option \<times> ('t, 'h) line_world" where
  "obs_get E url access_hdr meta_hdr app_hdr W =
     (case ob_identity E W of
        None \<Rightarrow> (None, W)
      | Some i \<Rightarrow>
          obs_get_rounds E i url ([access_hdr] @ (case meta_hdr of None \<Rightarrow> [] | Some h \<Rightarrow> [h]) @ [app_hdr]) 5 W)"

text \<open>The message id as a Thrift struct, in base64, in JSON, in base64.\<close>

definition talk_meta_bytes :: "string \<Rightarrow> byte list" where
  "talk_meta_bytes message_id =
     (let n = length message_id
      in [11, 0, 4, word_of_nat (n div 2 ^ 24), word_of_nat (n div 2 ^ 16), word_of_nat (n div 2 ^ 8), word_of_nat n] @
         bytes_of message_id @ [15, 0, 27, 12, 0, 0, 0, 0, 0])"

definition build_talk_meta :: "('t, 'h, 'j) obs_env \<Rightarrow> string \<Rightarrow> string" where
  "build_talk_meta E message_id =
     enil_b64_encode (ob_evp_encode E)
       (bytes_of (''{\"message\":\"'' @ enil_b64_encode (ob_evp_encode E) (talk_meta_bytes message_id) @ ''\"}''))"

text \<open>A file is written beside its place and renamed.\<close>

definition write_bytes ::
  "('t, 'h, 'j) obs_env \<Rightarrow> string \<Rightarrow> string \<Rightarrow> ('t, 'h) line_world \<Rightarrow> bool \<times> ('t, 'h) line_world" where
  "write_bytes E path content W =
     (let wc = ob_file E W; files = (\<lambda>f. W\<lparr>lw_files := f (lw_files W)\<rparr>)
      in if content = [] then (False, W)
         else
           (case wc_letters wc of
              None \<Rightarrow> (False, W)
            | Some letters \<Rightarrow>
                (let temporary = path @ ''.download-'' @ letters
                 in if wc_fdopen wc \<and> wc_write wc \<and> wc_fclose wc \<and> wc_rename wc
                    then (True, files (\<lambda>F. put_file path content (remove_file temporary (put_file temporary content F))))
                    else (False, files (\<lambda>F. remove_file temporary (put_file temporary [] F))))))"

definition decrypt_payload :: "('t, 'h, 'j) obs_env \<Rightarrow> string \<Rightarrow> byte list \<Rightarrow> byte list option" where
  "decrypt_payload E enc_km encrypted =
     (case enil_b64_decode (ob_evp_decode E) (Some enc_km) of
        None \<Rightarrow> None
      | Some (km_buf, km_len) \<Rightarrow>
          if km_len \<le> 0 then None
          else enil_crypto_file_decrypt (ob_hmac E) (ob_ctr E) (Some (take (nat km_len) km_buf)) (Some encrypted))"

section \<open>Uploading\<close>

definition load_obs_token :: "('t, 'h, 'j) obs_env \<Rightarrow> string \<Rightarrow> ('t, 'h) line_world \<Rightarrow> string option" where
  "load_obs_token E path W =
     (let J = lj (ob_le E); session = enil_session_read (line_se (ob_le E) W) (lw_files W) (Some path)
      in jstr J (jgeti J (jgeti J session ''encryptedAccessTokens'') ''2''))"

definition hex_pair :: "byte \<Rightarrow> string" where
  "hex_pair b = [hex_digit (unat b div 16), hex_digit (unat b mod 16)]"

definition gen_reqid_uuid :: "byte list option \<Rightarrow> string option" where
  "gen_reqid_uuid rand =
     map_option (\<lambda>b. (let part = (\<lambda>i n. concat (map hex_pair (take n (drop i b))))
        in part 0 4 @ ''-'' @ part 4 2 @ ''-'' @ part 6 2 @ ''-'' @ part 8 2 @ ''-'' @ part 10 6)) rand"

definition obs_type_for_sid :: "string \<Rightarrow> string" where
  "obs_type_for_sid sid = (if sid = ''m'' then ''image'' else ''file'')"

definition build_obs_params :: "('t, 'h, 'j) obs_env \<Rightarrow> string \<Rightarrow> ('t, 'h) line_world \<Rightarrow> string option" where
  "build_obs_params E obs_type W =
     (let json = ''{\"ver\":\"2.0\",\"name\":\"'' @ show_int (ob_ms E W) @ ''\",\"type\":\"'' @ obs_type @ ''\"}''
      in if 160 \<le> length json then None else Some (enil_b64_encode (ob_evp_encode E) (bytes_of json)))"

text \<open>One header line of the reply; the last \<open>x-obs-oid\<close> that has a value counts.\<close>

definition oid_header_cb :: "string \<Rightarrow> string option \<Rightarrow> string option" where
  "oid_header_cb buffer slot =
     (if length buffer \<le> 10 \<or> map lower_char (take 10 buffer) \<noteq> ''x-obs-oid:'' then slot
      else
        (let blank = (\<lambda>c. c = CHR '' '' \<or> c = CHR 0x09);
             value = rev (dropWhile (\<lambda>c. blank c \<or> c = CHR 0x0D \<or> c = CHR 0x0A) (rev (dropWhile blank (drop 10 buffer))))
         in if value = [] then slot else Some value))"

definition captured_oid :: "string list \<Rightarrow> string option" where
  "captured_oid headers = foldl (\<lambda>slot line. oid_header_cb line slot) None headers"

text \<open>With \<open>want_oid\<close> a reply that names no object is a failure.\<close>

definition obs_post ::
  "('t, 'h, 'j) obs_env \<Rightarrow> string \<Rightarrow> byte list \<Rightarrow> string \<Rightarrow> string \<Rightarrow> bool \<Rightarrow> ('t, 'h) line_world \<Rightarrow>
   (bool \<times> string option) \<times> ('t, 'h) line_world" where
  "obs_post E url content obs_token obs_params_b64 want_oid W =
     (let ne = le_ne (ob_le E)
      in case (ob_identity E W, enil_curl_new (s_cainfo ne) (curl_init ne (wire (lw_net W)))) of
           (Some i, Some c) \<Rightarrow>
             (case transfer ne (c\<lparr>opt_url := url, opt_user_agent := Some (user_agent i),
                  opt_headers := [make_header ''X-Line-Access'' obs_token, make_header ''X-Line-Application'' (application i),
                    ''x-lal: en_US'', ''Content-Type: application/octet-stream'', make_header ''X-Obs-Params'' obs_params_b64],
                  opt_post := Some (string_of content)\<rparr>) (lw_net W) of
                (r, N) \<Rightarrow>
                  (let oid = captured_oid (ob_headers E (wire N));
                       ok = (rc r = CURLE_OK \<and> (http_status r = 200 \<or> http_status r = 201) \<and> (want_oid \<longrightarrow> oid \<noteq> None))
                   in ((ok, if ok \<and> want_oid then oid else None), W\<lparr>lw_net := N\<rparr>)))
         | _ \<Rightarrow> ((False, None), W))"

text \<open>Both uploads: under the account's identity, with its media token, to an address that fits.\<close>

definition with_token ::
  "('t, 'h, 'j) obs_env \<Rightarrow> string \<Rightarrow> (('t, 'h) line_world \<Rightarrow> string option) \<Rightarrow> string \<Rightarrow>
   (string \<Rightarrow> string \<Rightarrow> string \<Rightarrow> ('t, 'h) line_world \<Rightarrow> 'a \<times> ('t, 'h) line_world) \<Rightarrow> 'a \<Rightarrow> ('t, 'h) line_world \<Rightarrow> 'a \<times> ('t, 'h) line_world" where
  "with_token E session_path address sid send failed W =
     (case store (ob_le E) (\<lambda>e F. enil_session_continue_identity e F (le_thread (ob_le E)) (Some session_path)) W of
        (False, W1) \<Rightarrow> (failed, W1)
      | (True, W1) \<Rightarrow>
          (case (load_obs_token E session_path W1, address W1, build_obs_params E (obs_type_for_sid sid) W1) of
             (Some token, Some url, Some params) \<Rightarrow> if 1024 \<le> length url then (failed, W1) else send url token params W1
           | _ \<Rightarrow> (failed, W1)))"

definition enil_obs_upload ::
  "('t, 'h, 'j) obs_env \<Rightarrow> string \<Rightarrow> byte list \<Rightarrow> string \<Rightarrow> ('t, 'h) line_world \<Rightarrow> string option \<times> ('t, 'h) line_world" where
  "enil_obs_upload E session_path content sid W =
     with_token E session_path
       (\<lambda>W. map_option (\<lambda>reqid. OBS_BASE @ ''/r/talk/'' @ sid @ ''/reqid-'' @ reqid) (gen_reqid_uuid (rand16 (line_se (ob_le E) W)))) sid
       (\<lambda>url token params W1. case obs_post E url content token params True W1 of ((ok, oid), W2) \<Rightarrow> (if ok then oid else None, W2))
       None W"

fun post_attempts ::
  "('t, 'h, 'j) obs_env \<Rightarrow> string \<Rightarrow> byte list \<Rightarrow> string \<Rightarrow> string \<Rightarrow> nat \<Rightarrow> ('t, 'h) line_world \<Rightarrow> bool \<times> ('t, 'h) line_world" where
  "post_attempts E url content token params 0 W = (False, W)"
| "post_attempts E url content token params (Suc n) W =
     (case obs_post E url content token params False W of
        ((True, _), W1) \<Rightarrow> (True, W1)
      | ((False, _), W1) \<Rightarrow> post_attempts E url content token params n W1)"

definition preview_suffix :: string where "preview_suffix = ''__ud-preview''"

definition is_preview :: "string \<Rightarrow> bool" where
  "is_preview oid \<longleftrightarrow> length preview_suffix \<le> length oid \<and> drop (length oid - length preview_suffix) oid = preview_suffix"

text \<open>Only a preview is tried again, at most twice.\<close>

definition enil_obs_upload_with_oid ::
  "('t, 'h, 'j) obs_env \<Rightarrow> string \<Rightarrow> byte list \<Rightarrow> string \<Rightarrow> string \<Rightarrow> ('t, 'h) line_world \<Rightarrow> bool \<times> ('t, 'h) line_world" where
  "enil_obs_upload_with_oid E session_path content sid oid W =
     with_token E session_path (\<lambda>W. Some (OBS_BASE @ ''/r/talk/'' @ sid @ ''/'' @ oid)) sid
       (\<lambda>url token params W1. post_attempts E url content token params (if is_preview oid then 3 else 1) W1) False W"

section \<open>Downloading\<close>

text \<open>The message an attachment belongs to, as the caller describes it.\<close>

record attachment =
  at_message_id :: string
  at_sid :: "string option"
  at_oid :: "string option"
  at_obs_pop :: "string option"
  at_e2ee_version :: "string option"
  at_enc_km :: "string option"
  at_plain_size :: nat

definition at_url :: "nat \<Rightarrow> attachment \<Rightarrow> string \<Rightarrow> string option" where
  "at_url n a tail_part = build_obs_url n (at_sid a) (at_oid a) (at_message_id a) (at_obs_pop a) tail_part"

text \<open>What goes to the file: the body, cut to its announced size, or the plaintext of an encrypted one.\<close>

definition save_attachment ::
  "('t, 'h, 'j) obs_env \<Rightarrow> attachment \<Rightarrow> string \<Rightarrow> string \<Rightarrow> ('t, 'h) line_world \<Rightarrow> bool \<times> ('t, 'h) line_world" where
  "save_attachment E a dest_path content W =
     (if nonempty (at_enc_km a) then
        (case decrypt_payload E (the (at_enc_km a)) (bytes_of content) of
           None \<Rightarrow> (False, W)
         | Some plain \<Rightarrow> write_bytes E dest_path (string_of plain) W)
      else
        write_bytes E dest_path
          (if 0 < at_plain_size a \<and> at_plain_size a \<le> length content then take (at_plain_size a) content else content) W)"

definition enil_obs_download_message ::
  "('t, 'h, 'j) obs_env \<Rightarrow> string \<Rightarrow> attachment \<Rightarrow> string \<Rightarrow> ('t, 'h) line_world \<Rightarrow> bool \<times> ('t, 'h) line_world" where
  "enil_obs_download_message E session_path a dest_path W =
     (case store (ob_le E) (\<lambda>e F. enil_session_continue_identity e F (le_thread (ob_le E)) (Some session_path)) W of
        (False, W1) \<Rightarrow> (False, W1)
      | (True, W1) \<Rightarrow>
          (case (load_obs_token E session_path W1, at_url 1024 a [], ob_identity E W1) of
             (Some token, Some url, Some i) \<Rightarrow>
               (let access_hdr = make_header ''X-Line-Access'' (take 4095 token);
                    meta_hdr = (if nonempty (at_enc_km a) \<or> nonempty (at_e2ee_version a)
                      then Some (make_header ''X-Talk-Meta'' (build_talk_meta E (at_message_id a))) else None);
                    app_hdr = make_header ''X-Line-Application'' (application i)
                in case (if nonempty (at_e2ee_version a) then
                           (case at_url 1060 a ''/object_info.obs'' of
                              None \<Rightarrow> (None, W1)
                            | Some info \<Rightarrow> obs_get E info access_hdr meta_hdr app_hdr W1)
                         else (Some [], W1)) of
                     (None, W2) \<Rightarrow> (False, W2)
                   | (Some _, W2) \<Rightarrow>
                       (case obs_get E url access_hdr meta_hdr app_hdr W2 of
                          (None, W3) \<Rightarrow> (False, W3)
                        | (Some content, W3) \<Rightarrow> save_attachment E a dest_path content W3))
           | _ \<Rightarrow> (False, W1)))"

end
