(* ===== verification/ENIL_ObsFacts.thy ===== *)
theory ENIL_ObsFacts
  imports ENIL_Obs ENIL_LineRefreshFacts
begin

text \<open>What a download of an encrypted attachment leaves on the disk, and how often the code asks for it.\<close>

section \<open>Requests\<close>

text \<open>A round of requests: all but the last are answered 202, and the body comes from the last one.\<close>

definition rounds_made ::
  "('t, 'h, 'j) obs_env \<Rightarrow> nat \<Rightarrow> string option \<Rightarrow> ('t, 'h) line_world \<Rightarrow> ('t, 'h) line_world \<Rightarrow> bool" where
  "rounds_made E n x W W' \<longleftrightarrow>
     lw_files W' = lw_files W \<and>
     (\<exists>cs. wire (lw_net W') = wire (lw_net W) @ cs \<and> length cs \<le> n \<and>
        (\<forall>k < length cs - 1. http_status (answer (le_ne (ob_le E)) (wire (lw_net W) @ take (Suc k) cs)) = 202) \<and>
        (\<forall>content. x = Some content \<longrightarrow> cs \<noteq> [] \<and>
           http_status (answer (le_ne (ob_le E)) (wire (lw_net W'))) = 200 \<and>
           received (answer (le_ne (ob_le E)) (wire (lw_net W'))) = content))"

lemma rounds_none: "rounds_made E n None W W"
  by (simp add: rounds_made_def)

lemma obs_get_rounds_made:
  "obs_get_rounds E i url hs n W = (x, W') \<Longrightarrow> rounds_made E n x W W'"
proof (induction n arbitrary: W)
  case (Suc n)
  let ?ne = "le_ne (ob_le E)"
  show ?case
  proof (cases "enil_curl_new (s_cainfo ?ne) (curl_init ?ne (wire (lw_net W)))")
    case None
    then show ?thesis using Suc.prems by (auto simp: rounds_none)
  next
    case (Some c)
    define c' where "c' = c\<lparr>opt_url := url, opt_user_agent := Some (user_agent i), opt_headers := hs\<rparr>"
    define r where "r = answer ?ne (wire (lw_net W) @ [c'])"
    define V where "V = W\<lparr>lw_net := lw_net W\<lparr>wire := wire (lw_net W) @ [c']\<rparr>\<rparr>"
    have run: "(if rc r = CURLE_OK \<and> http_status r = 200 then (Some (received r), V)
        else if rc r = CURLE_OK \<and> http_status r = 202 then obs_get_rounds E i url hs n V else (None, V)) = (x, W')"
      using Suc.prems Some by (auto simp: transfer_def Let_def c'_def r_def V_def split: if_splits)
    have V: "lw_files V = lw_files W" "wire (lw_net V) = wire (lw_net W) @ [c']" by (simp_all add: V_def)
    consider (good) "rc r = CURLE_OK" "http_status r = 200" | (again) "rc r = CURLE_OK" "http_status r = 202"
      | (bad) "\<not> (rc r = CURLE_OK \<and> (http_status r = 200 \<or> http_status r = 202))" by blast
    then show ?thesis
    proof cases
      case again
      with run have "obs_get_rounds E i url hs n V = (x, W')" by simp
      then have "rounds_made E n x V W'" by (rule Suc.IH)
      then obtain cs where cs: "lw_files W' = lw_files V" "wire (lw_net W') = wire (lw_net V) @ cs" "length cs \<le> n"
          "\<forall>k < length cs - 1. http_status (answer ?ne (wire (lw_net V) @ take (Suc k) cs)) = 202"
          "\<forall>content. x = Some content \<longrightarrow> cs \<noteq> [] \<and> http_status (answer ?ne (wire (lw_net W'))) = 200 \<and>
             received (answer ?ne (wire (lw_net W'))) = content"
        unfolding rounds_made_def by blast
      have "http_status (answer ?ne (wire (lw_net W) @ take (Suc k) (c' # cs))) = 202" if "k < length (c' # cs) - 1" for k
        using that again(2) cs(4) V(2) by (cases k) (simp_all add: r_def)
      then show ?thesis
        unfolding rounds_made_def using cs V by (intro conjI exI [of _ "c' # cs"]) auto
    qed (use run V in \<open>auto simp: rounds_made_def r_def intro!: exI [of _ "[c']"]\<close>)
  qed
qed (simp add: rounds_none)

lemma obs_get_made: "obs_get E url h1 h2 h3 W = (x, W') \<Longrightarrow> rounds_made E 5 x W W'"
  by (auto simp: obs_get_def rounds_none intro: obs_get_rounds_made split: option.splits)

section \<open>Files\<close>

lemma continue_files:
  assumes "store le (\<lambda>e F. enil_session_continue_identity e F t path) W = (ok, W')"
  shows "sfiles (lw_files W') = sfiles (lw_files W)" "lw_net W' = lw_net W"
proof -
  have "sfiles (fst (enil_session_continue_identity e F t path)) = sfiles F" for e :: "'c session_env" and F :: "'a session_world"
    by (auto simp: enil_session_continue_identity_def bind_keeps_files split: option.splits)
  then show "sfiles (lw_files W') = sfiles (lw_files W)" "lw_net W' = lw_net W"
    using assms by (auto simp: store_def split: prod.splits) (metis fst_conv)
qed

lemma write_bytes_result:
  assumes "write_bytes E path content W = (ok, W')"
  shows "lw_net W' = lw_net W" "sfiles (lw_files W') path = (if ok then Some content else sfiles (lw_files W) path)"
    "ok \<Longrightarrow> content \<noteq> []"
  using assms by (auto simp: write_bytes_def Let_def put_file_def remove_file_def split: option.splits if_splits)

lemma saved_plain:
  assumes "save_attachment E a dest content W = (ok, W')" and "at_enc_km a = Some km" "km \<noteq> []"
    and "openssl (ob_hmac E) (ob_ctr E)" and key: "enil_b64_decode (ob_evp_decode E) (Some km) = Some (buf, 32)" "32 \<le> length buf"
  shows "lw_net W' = lw_net W" "\<not> ok \<Longrightarrow> sfiles (lw_files W') dest = sfiles (lw_files W) dest"
    "ok \<Longrightarrow> \<exists>plain. sfiles (lw_files W') dest = Some (string_of plain) \<and>
       enil_crypto_file_encrypt_with_km (ob_hmac E) (ob_ctr E) (Some plain) (length plain) (Some (take 32 buf)) = Some (bytes_of content)"
proof -
  let ?dec = "enil_crypto_file_decrypt (ob_hmac E) (ob_ctr E) (Some (take 32 buf)) (Some (bytes_of content))"
  have run: "(case ?dec of None \<Rightarrow> (False, W) | Some plain \<Rightarrow> write_bytes E dest (string_of plain) W) = (ok, W')"
    using assms(1-3) key by (simp add: save_attachment_def nonempty_def decrypt_payload_def)
  show "lw_net W' = lw_net W" "\<not> ok \<Longrightarrow> sfiles (lw_files W') dest = sfiles (lw_files W) dest"
    using run by (auto dest: write_bytes_result split: option.splits)
  assume ok
  then obtain plain where p: "?dec = Some plain" "write_bytes E dest (string_of plain) W = (True, W')"
    using run by (cases ?dec) auto
  have "length (take 32 buf) = 32" using key(2) by simp
  from openssl.decrypt_only_encrypted [OF assms(4) p(1) this] write_bytes_result(2) [OF p(2)]
  show "\<exists>plain. sfiles (lw_files W') dest = Some (string_of plain) \<and>
       enil_crypto_file_encrypt_with_km (ob_hmac E) (ob_ctr E) (Some plain) (length plain) (Some (take 32 buf)) = Some (bytes_of content)"
    by auto
qed

section \<open>Properties\<close>

text \<open>The statuses of the requests between two worlds: at most \<open>n\<close>, and only 200 or 202 before the last.\<close>

definition asked_patiently :: "('t, 'h, 'j) obs_env \<Rightarrow> nat \<Rightarrow> ('t, 'h) line_world \<Rightarrow> ('t, 'h) line_world \<Rightarrow> bool" where
  "asked_patiently E n W W' \<longleftrightarrow>
     (\<exists>cs. wire (lw_net W') = wire (lw_net W) @ cs \<and> length cs \<le> n \<and>
        (\<forall>k < length cs - 1. http_status (answer (le_ne (ob_le E)) (wire (lw_net W) @ take (Suc k) cs)) \<in> {200, 202}))"

lemma patient_none: "lw_net W' = lw_net W \<Longrightarrow> asked_patiently E n W W'"
  by (simp add: asked_patiently_def)

lemma rounds_patient: "rounds_made E n x W W' \<Longrightarrow> asked_patiently E n W W'"
  by (auto simp: rounds_made_def asked_patiently_def)

lemma patient_then:
  assumes "rounds_made E m (Some content) W V" and "asked_patiently E n V W'"
  shows "asked_patiently E (m + n) W W'"
proof -
  let ?s = "\<lambda>w. http_status (answer (le_ne (ob_le E)) w)" and ?w = "wire (lw_net W)"
  obtain cs where cs: "wire (lw_net V) = ?w @ cs" "length cs \<le> m" "cs \<noteq> []" "?s (?w @ cs) = 200"
      "\<forall>k < length cs - 1. ?s (?w @ take (Suc k) cs) = 202"
    using assms(1) by (auto simp: rounds_made_def)
  obtain ds where ds: "wire (lw_net W') = wire (lw_net V) @ ds" "length ds \<le> n"
      "\<forall>k < length ds - 1. ?s (wire (lw_net V) @ take (Suc k) ds) \<in> {200, 202}"
    using assms(2) by (auto simp: asked_patiently_def)
  have "?s (?w @ take (Suc k) (cs @ ds)) \<in> {200, 202}" if k: "k < length (cs @ ds) - 1" for k
  proof -
    consider "k < length cs - 1" | "k = length cs - 1" | "length cs \<le> k" by linarith
    then show ?thesis
    proof cases
      case 3
      then have "k - length cs < length ds - 1" using k by simp
      moreover have "take (Suc k) (cs @ ds) = cs @ take (Suc (k - length cs)) ds" using 3 by (simp add: Suc_diff_le)
      ultimately show ?thesis using ds(3) cs(1) by simp
    qed (use cs in auto)
  qed
  then show ?thesis
    unfolding asked_patiently_def using cs ds by (intro exI [of _ "cs @ ds"]) auto
qed

lemma patient_net: "lw_net V = lw_net W \<Longrightarrow> lw_net V' = lw_net W' \<Longrightarrow> asked_patiently E n V V' \<Longrightarrow> asked_patiently E n W W'"
  by (simp add: asked_patiently_def)

lemma patient_more: "asked_patiently E m W W' \<Longrightarrow> m \<le> n \<Longrightarrow> asked_patiently E n W W'"
  by (auto simp: asked_patiently_def)

text \<open>A download: refused before anything is asked, failed while asking, or saved from the last answer.\<close>

lemma download_cases:
  assumes "enil_obs_download_message E path a dest W = (ok, W')"
  obtains (asked) "\<not> ok" "sfiles (lw_files W') = sfiles (lw_files W)" "asked_patiently E 10 W W'"
  | (got) content V where "save_attachment E a dest content V = (ok, W')" "sfiles (lw_files V) = sfiles (lw_files W)"
      "asked_patiently E 10 W V" "http_status (answer (le_ne (ob_le E)) (wire (lw_net V))) = 200"
      "received (answer (le_ne (ob_le E)) (wire (lw_net V))) = content"
proof -
  obtain bound W1 where b: "store (ob_le E) (\<lambda>e F. enil_session_continue_identity e F (le_thread (ob_le E)) (Some path)) W = (bound, W1)"
    by fastforce
  note keep = continue_files [OF b]
  have refused: thesis if "\<not> ok \<and> W' = W1" using that keep asked patient_none [OF keep(2), of E 10] by simp
  have step: thesis
    if "(case obs_get E url ah mh ph W2 of (None, W3) \<Rightarrow> (False, W3) | (Some content, W3) \<Rightarrow> save_attachment E a dest content W3) = (ok, W')"
      and pre: "sfiles (lw_files W2) = sfiles (lw_files W)" "\<And>V. asked_patiently E 5 W2 V \<Longrightarrow> asked_patiently E 10 W V" for url ah mh ph W2
  proof -
    obtain x W3 where g: "obs_get E url ah mh ph W2 = (x, W3)" by fastforce
    note made = obs_get_made [OF g]
    have f: "sfiles (lw_files W3) = sfiles (lw_files W)" using made pre(1) by (simp add: rounds_made_def)
    note patient = pre(2) [OF rounds_patient [OF made]]
    show thesis
    proof (cases x)
      case None
      then show thesis using that(1) g f patient asked by simp
    next
      case (Some content)
      then show thesis using that(1) g f patient made got [of content W3] by (auto simp: rounds_made_def)
    qed
  qed
  have direct: "asked_patiently E 10 W V" if "asked_patiently E 5 W1 V" for V
    by (rule patient_more [OF patient_net [OF keep(2) refl that]]) simp
  show thesis
  proof (cases "bound \<and> load_obs_token E path W1 \<noteq> None \<and> at_url 1024 a [] \<noteq> None \<and> ob_identity E W1 \<noteq> None")
    case False
    then have "\<not> ok \<and> W' = W1" using assms b by (auto simp: enil_obs_download_message_def split: option.splits bool.splits)
    then show thesis using refused by simp
  next
    case True
    then obtain token url i where env: "load_obs_token E path W1 = Some token" "at_url 1024 a [] = Some url" "ob_identity E W1 = Some i"
      by auto
    define ah where "ah = make_header ''X-Line-Access'' (take 4095 token)"
    define mh where "mh = (if nonempty (at_enc_km a) \<or> nonempty (at_e2ee_version a)
      then Some (make_header ''X-Talk-Meta'' (build_talk_meta E (at_message_id a))) else None)"
    define ph where "ph = make_header ''X-Line-Application'' (application i)"
    have run: "(case (if nonempty (at_e2ee_version a) then
                 (case at_url 1060 a ''/object_info.obs'' of None \<Rightarrow> (None, W1) | Some info \<Rightarrow> obs_get E info ah mh ph W1)
               else (Some [], W1)) of
           (None, W2) \<Rightarrow> (False, W2)
         | (Some _, W2) \<Rightarrow>
             (case obs_get E url ah mh ph W2 of (None, W3) \<Rightarrow> (False, W3) | (Some content, W3) \<Rightarrow> save_attachment E a dest content W3)) = (ok, W')"
      using assms True
      unfolding enil_obs_download_message_def b env prod.case option.case Let_def ah_def [symmetric] mh_def [symmetric] ph_def [symmetric]
      by (simp only: bool.case simp_thms)
    show thesis
    proof (cases "nonempty (at_e2ee_version a)")
      case False
      then show thesis using run by (intro step [OF _ keep(1) direct]) simp_all
    next
      case e2ee: True
      show thesis
      proof (cases "at_url 1060 a ''/object_info.obs''")
        case None
        then show thesis using run e2ee refused by simp
      next
        case (Some info)
        obtain x W2 where g: "obs_get E info ah mh ph W1 = (x, W2)" by fastforce
        note made = obs_get_made [OF g]
        have f: "sfiles (lw_files W2) = sfiles (lw_files W)" using made keep(1) by (simp add: rounds_made_def)
        show thesis
        proof (cases x)
          case None
          then show thesis using run e2ee Some g f direct [OF rounds_patient [OF made]] asked by simp
        next
          case (Some y)
          have "asked_patiently E 10 W V" if "asked_patiently E 5 W2 V" for V
            using patient_net [OF keep(2) refl patient_then [OF made [unfolded Some] that]] by simp
          then show thesis using run e2ee \<open>at_url 1060 a _ = _\<close> g Some by (intro step [OF _ f]) auto
        qed
      qed
    qed
  qed
qed

text \<open>C8: An encrypted download is all or nothing.  The destination holds, after a success, exactly the
  plaintext whose encryption under the attachment's key is the body of the last reply, which had status 200;
  after any failure, a wrong tag among them, it is as it was.  Either way there are at most ten requests
  in all, for the object's description and the object together, and after any answer but 200 and 202 the
  code asks no more.\<close>

theorem obs_download_authentic:
  assumes "enil_obs_download_message E path a dest W = (ok, W')"
    and "at_enc_km a = Some km" and "km \<noteq> []" and "openssl (ob_hmac E) (ob_ctr E)"
    and "enil_b64_decode (ob_evp_decode E) (Some km) = Some (buf, 32)" and "32 \<le> length buf"
  shows "asked_patiently E 10 W W' \<and>
    (if ok then \<exists>plain. sfiles (lw_files W') dest = Some (string_of plain) \<and>
       enil_crypto_file_encrypt_with_km (ob_hmac E) (ob_ctr E) (Some plain) (length plain) (Some (take 32 buf)) =
         Some (bytes_of (received (answer (le_ne (ob_le E)) (wire (lw_net W'))))) \<and>
       http_status (answer (le_ne (ob_le E)) (wire (lw_net W'))) = 200
     else sfiles (lw_files W') dest = sfiles (lw_files W) dest)"
  using assms(1)
proof (cases rule: download_cases)
  case (got content V)
  note saved = saved_plain [OF got(1) assms(2-6)]
  have "asked_patiently E 10 W W'" by (rule patient_net [OF refl saved(1) [symmetric] got(3)])
  then show ?thesis using saved got by (cases ok) auto
qed simp

text \<open>An attachment of two bytes, ready at the second request.\<close>

definition media_key :: "byte list" where "media_key = replicate 32 7"

definition media_body :: string where "media_body = ''hi'' @ replicate 32 CHR 0x00"

definition media_lib :: "json cjson" where
  "media_lib = tree (\<lambda>s. Some (JObj [(''loginId'', JStr ''L''), (''encryptedAccessTokens'', JObj [(''2'', JStr ''m'')]),
     (''clientIdentity'', the (enil_identity_to_json (tree (\<lambda>s. None) (\<lambda>j. [])) (Some windows_identity)))])) (\<lambda>j. [])"

definition media_env :: "(nat, nat, json) obs_env" where
  "media_env = \<lparr>ob_le = demo_online\<lparr>le_ne := (demo_net_env (\<lambda>w. if length w = 1 then (202, []) else (200, media_body)))\<lparr>njson := media_lib\<rparr>,
       le_se := (\<lambda>n. demo_calls\<lparr>sj := media_lib\<rparr>)\<rparr>,
     ob_headers = (\<lambda>_. []), ob_ms = (\<lambda>_. 0), ob_file = (\<lambda>_. wr demo_calls), ob_evp_encode = (\<lambda>b. ''x''), ob_evp_decode = (\<lambda>s. Some (media_key @ [0])),
     ob_hmac = (\<lambda>k m. replicate 32 0), ob_ctr = (\<lambda>k iv m. Some m)\<rparr>"

definition media_message :: attachment where
  "media_message = \<lparr>at_message_id = ''1'', at_sid = None, at_oid = None, at_obs_pop = None, at_e2ee_version = None,
     at_enc_km = Some ''BwcHBwcHBwcHBwcHBwcHBwcHBwcHBwcHBwcHBwcHBwc='', at_plain_size = 0\<rparr>"

abbreviation media_bound :: "bool \<times> (nat, nat) line_world" where
  "media_bound \<equiv> store (ob_le media_env) (\<lambda>e F. enil_session_continue_identity e F (le_thread (ob_le media_env)) (Some ''/s'')) demo_before"

lemma media_binds:
  "fst media_bound" "load_obs_token media_env ''/s'' (snd media_bound) = Some ''m''"
  "ob_identity media_env (snd media_bound) = Some windows_identity" "wire (lw_net (snd media_bound)) = []"
  by code_simp+

lemma media_url: "at_url 1024 media_message [] = Some ''https://obs.line-apps.com/r/talk/m/1''"
  by (simp add: at_url_def build_obs_url_def media_message_def nonempty_def OBS_BASE_def)

lemma media_answers:
  assumes "wire (lw_net W) = []" and "ob_identity media_env W = Some i"
  shows "fst (obs_get media_env u a m h W) = Some media_body"
  using assms
  by (simp add: obs_get_def eval_nat_numeral media_env_def demo_online_def demo_net_env_def transfer_def Let_def enil_curl_new_def enil_curl_new_raw_def)

lemma media_saves: "fst (save_attachment media_env media_message ''/d'' media_body W)"
proof -
  have "decrypt_payload media_env ''BwcHBwcHBwcHBwcHBwcHBwcHBwcHBwcHBwcHBwcHBwc='' (bytes_of media_body) = Some [104, 105]"
    by code_simp
  then show ?thesis
    by (simp add: save_attachment_def media_message_def nonempty_def write_bytes_def media_env_def demo_calls_def Let_def)
qed

lemma media_run: "fst (enil_obs_download_message media_env ''/s'' media_message ''/d'' demo_before)"
proof -
  obtain W1 where W1: "media_bound = (True, W1)" using media_binds(1) by (cases media_bound) auto
  note b = media_binds(2-4) [unfolded W1 snd_conv]
  have e: "nonempty (at_e2ee_version media_message) = False" by (simp add: media_message_def nonempty_def)
  have fst_some: "fst x = Some y \<Longrightarrow> \<exists>z. x = (Some y, z)" for x :: "string option \<times> (nat, nat) line_world" and y by (cases x) simp
  obtain ah mh ph url where u: "enil_obs_download_message media_env ''/s'' media_message ''/d'' demo_before =
      (case obs_get media_env url ah mh ph W1 of
         (None, W3) \<Rightarrow> (False, W3) | (Some content, W3) \<Rightarrow> save_attachment media_env media_message ''/d'' content W3)"
    unfolding enil_obs_download_message_def W1 prod.case bool.case b media_url option.case Let_def e if_False by blast
  obtain W3 where "obs_get media_env url ah mh ph W1 = (Some media_body, W3)"
    using fst_some [OF media_answers [OF b(3,2)]] by blast
  then show ?thesis using media_saves unfolding u by simp
qed

theorem obs_download_authentic_witness:
  "enil_crypto_file_encrypt_with_km (ob_hmac media_env) (ob_ctr media_env) (Some [104, 105]) 2 (Some media_key) = Some (bytes_of media_body) \<and>
   fst (enil_obs_download_message media_env ''/s'' media_message ''/d'' demo_before) \<and>
   asked_patiently media_env 10 demo_before (snd (enil_obs_download_message media_env ''/s'' media_message ''/d'' demo_before))"
proof -
  obtain W' where run: "enil_obs_download_message media_env ''/s'' media_message ''/d'' demo_before = (True, W')"
    using media_run by (cases "enil_obs_download_message media_env ''/s'' media_message ''/d'' demo_before") auto
  have laws: "openssl (ob_hmac media_env) (ob_ctr media_env)" by unfold_locales (auto simp: media_env_def)
  have km: "at_enc_km media_message = Some ''BwcHBwcHBwcHBwcHBwcHBwcHBwcHBwcHBwcHBwcHBwc=''" by (simp add: media_message_def)
  have key: "enil_b64_decode (ob_evp_decode media_env) (Some ''BwcHBwcHBwcHBwcHBwcHBwcHBwcHBwcHBwcHBwcHBwc='') = Some (media_key @ [0], 32)"
    by code_simp
  have "enil_crypto_file_encrypt_with_km (ob_hmac media_env) (ob_ctr media_env) (Some [104, 105]) 2 (Some media_key) = Some (bytes_of media_body)"
    by code_simp
  then show ?thesis
    using obs_download_authentic [OF run km _ laws key] media_run by (simp add: run media_key_def)
qed

end
