(* ===== verification/ENIL_LineSend.thy ===== *)
theory ENIL_LineSend
  imports ENIL_Obs ENIL_MessageFormat
begin

text \<open>
  Sending in \<open>source/shared/enil_line.c\<close>: text, stickers, images and sticons, encrypted end to end through the
  worker, and the removal of a chat.  The spans of sticons in a draft are found in \<open>ENIL_MessageFormat\<close>.  The environment is that of \<open>ENIL_Obs\<close>; \<open>rand\<close> gives the key material
  of a file.  A session that is changed in memory is freed at the end of the call, so only what is saved of
  it remains.
\<close>

abbreviation oj :: "('t, 'h, 'j) obs_env \<Rightarrow> 'j cjson" where
  "oj E \<equiv> lj (ob_le E)"

definition on_net :: "(('t, 'h) net \<Rightarrow> 'a \<times> ('t, 'h) net) \<Rightarrow> ('t, 'h) line_world \<Rightarrow> 'a \<times> ('t, 'h) line_world" where
  "on_net op W = (case op (lw_net W) of (x, N) \<Rightarrow> (x, W\<lparr>lw_net := N\<rparr>))"

section \<open>Keys and counters\<close>

definition find_e2ee_key :: "'j cjson \<Rightarrow> 'j session_t \<Rightarrow> int \<Rightarrow> string option" where
  "find_e2ee_key J session key_id =
     Option.bind
       (List.find (\<lambda>entry. enil_json_coerce_int64 J (getItem J entry ''keyId'') = key_id \<and>
          jis (isString J) (getItem J entry ''exportedKey''))
        (map snd (jkids J (keep_if (isArray J) (e2eeKeys session)))))
       (\<lambda>entry. jstr J (getItem J entry ''exportedKey''))"

text \<open>The remainder of C: it has the sign of the dividend.\<close>

definition c_rem :: "int \<Rightarrow> int \<Rightarrow> int" where
  "c_rem a b = (if a < 0 then - ((- a) mod b) else a mod b)"

definition next_req_seq :: "('t, 'h, 'j) obs_env \<Rightarrow> 'j session_t \<Rightarrow> ('t, 'h) line_world \<Rightarrow> int" where
  "next_req_seq E session W =
     (let cur = (if reqSeq session \<noteq> 0 then reqSeq session else c_rem (le_time (ob_le E) W) 2147483648 - 1)
      in c_rem (cur + 1) 2147483648)"

section \<open>The encrypted payload\<close>

definition encode_json :: "('t, 'h, 'j) obs_env \<Rightarrow> 'j \<Rightarrow> string" where
  "encode_json E obj = enil_b64_encode (ob_evp_encode E) (bytes_of (printText (oj E) obj))"

definition encode_plaintext :: "('t, 'h, 'j) obs_env \<Rightarrow> string \<Rightarrow> string" where
  "encode_plaintext E content = encode_json E (object_of (oj E) [(''text'', mkString (oj E) content)])"

definition key_bytes :: "int \<Rightarrow> byte list" where
  "key_bytes k = [word_of_int (k div 2 ^ 24), word_of_int (k div 2 ^ 16), word_of_int (k div 2 ^ 8), word_of_int k]"

text \<open>Salt, ciphertext with tag, nonce, and the two key ids.\<close>

definition split_v2_ciphertext :: "('t, 'h, 'j) obs_env \<Rightarrow> string \<Rightarrow> int \<Rightarrow> int \<Rightarrow> string list option" where
  "split_v2_ciphertext E b64 sender_key_id receiver_key_id =
     (case enil_b64_decode_alloc (ob_evp_decode E) (Some b64) of
        None \<Rightarrow> None
      | Some raw \<Rightarrow>
          if length raw < 29 then None
          else Some (map (enil_b64_encode (ob_evp_encode E))
            [take 16 raw, drop 28 raw, take 12 (drop 16 raw), key_bytes sender_key_id, key_bytes receiver_key_id]))"

section \<open>Calls\<close>

text \<open>The data of a reply with status 200.\<close>

definition line_response_data :: "'j cjson \<Rightarrow> ENILLineResponse \<Rightarrow> 'j option" where
  "line_response_data J r =
     (if status r \<noteq> 200 then None
      else Option.bind (Option.bind (body r) (parseText J)) (\<lambda>root. getItem J root ''data''))"

definition fetch_public_key ::
  "('t, 'h, 'j) obs_env \<Rightarrow> string \<Rightarrow> string \<Rightarrow> int \<Rightarrow> ('t, 'h) line_world \<Rightarrow> string option \<times> ('t, 'h) line_world" where
  "fetch_public_key E access_token m key_id W =
     (case post (ob_le E) ''/api/talk/thrift/Talk/TalkService/getE2EEPublicKey''
             (take 511 (''[\"'' @ m @ ''\",1,'' @ show_int key_id @ '']'')) (Some access_token) W of
        (r, W1) \<Rightarrow> (jstr (oj E) (jgeti (oj E) (line_response_data (oj E) r) ''keyData''), W1))"

definition last_group_key ::
  "('t, 'h, 'j) obs_env \<Rightarrow> string \<Rightarrow> string \<Rightarrow> ('t, 'h) line_world \<Rightarrow> 'j talk_e2ee_group_shared_key_t option \<times> ('t, 'h) line_world" where
  "last_group_key E access_token group_mid W =
     talk_get_last_e2ee_group_shared_key (talk_of (ob_le E)) (Some access_token) (Some group_mid) W"

definition fetch_last_e2ee_public_keys ::
  "('t, 'h, 'j) obs_env \<Rightarrow> string \<Rightarrow> string \<Rightarrow> ('t, 'h) line_world \<Rightarrow> 'j option \<times> ('t, 'h) line_world" where
  "fetch_last_e2ee_public_keys E access_token group_mid W =
     (case post (ob_le E) ''/api/talk/thrift/Talk/TalkService/getLastE2EEPublicKeys''
             (take 511 (''[\"'' @ group_mid @ ''\"]'')) (Some access_token) W of
        (r, W1) \<Rightarrow> (line_response_data (oj E) r, W1))"

definition register_group_key ::
  "('t, 'h, 'j) obs_env \<Rightarrow> string \<Rightarrow> string \<Rightarrow> 'j \<Rightarrow> ('t, 'h) line_world \<Rightarrow>
   'j talk_e2ee_group_shared_key_t option \<times> ('t, 'h) line_world" where
  "register_group_key E access_token group_mid enc_keys W =
     talk_register_e2ee_group_key (talk_of (ob_le E)) (Some access_token) (Some group_mid) (Some enc_keys) W"

text \<open>
  The members with a usable key, the sender's own entry first.  The keys come as an object named by mid; an
  array, whose items have no names, would be compared through a null pointer.
\<close>

definition key_members :: "'j cjson \<Rightarrow> string \<Rightarrow> 'j \<Rightarrow> 'j list" where
  "key_members J my_mid pub_keys =
     foldl (\<lambda>ms (m, entry).
       (case (getItem J entry ''keyId'', getItem J entry ''keyData'') of
          (Some kid, Some kdat) \<Rightarrow>
            if isNumber J kid \<and> isString J kdat then
              (let o' = object_of J [(''mid'', mkString J m), (''keyId'', mkNumber J (valuedouble J kid)),
                   (''publicKey'', mkString J (valuestring J kdat))]
               in if m = my_mid then o' # ms else ms @ [o'])
            else ms
        | _ \<Rightarrow> ms)) [] (children J pub_keys)"

definition keep_restore :: "'j cjson \<Rightarrow> string option \<Rightarrow> 'j session_t \<Rightarrow> 'j session_t" where
  "keep_restore J state session =
     (case Option.bind state (parseText J) of None \<Rightarrow> session | Some r \<Rightarrow> session\<lparr>workerRestoreState := Some r\<rparr>)"

definition restore_text :: "'j cjson \<Rightarrow> 'j session_t \<Rightarrow> string option" where
  "restore_text J session = map_option (printText J) (workerRestoreState session)"

definition create_and_register_group_key ::
  "('t, 'h, 'j) obs_env \<Rightarrow> 'j session_t \<Rightarrow> string \<Rightarrow> string \<Rightarrow> string \<Rightarrow> ('t, 'h) line_world \<Rightarrow>
   ('j talk_e2ee_group_shared_key_t option \<times> 'j session_t) \<times> ('t, 'h) line_world" where
  "create_and_register_group_key E session access_token my_mid group_mid W =
     (let J = oj E; le = ob_le E
      in case fetch_last_e2ee_public_keys E access_token group_mid W of
           (None, W1) \<Rightarrow> ((None, session), W1)
         | (Some pub_keys, W1) \<Rightarrow>
             (case find_e2ee_key J session (e2eeLatestKeyId session) of
                None \<Rightarrow> ((None, session), W1)
              | Some my_private_key \<Rightarrow>
                  (let members = key_members J my_mid pub_keys
                   in if members = [] then ((None, session), W1)
                      else
                        (case on_net (enil_worker_create_group_key (le_ne le) (le_thread le) (restore_text J session)
                                (Some my_private_key) (wrap32 (e2eeLatestKeyId session)) (Some (array_of J members))) W1 of
                           (None, W2) \<Rightarrow> ((None, session), W2)
                         | (Some (state, enc_keys), W2) \<Rightarrow>
                             (case register_group_key E access_token group_mid enc_keys W2 of
                                (gk, W3) \<Rightarrow> ((gk, keep_restore J (Some state) session), W3))))))"

section \<open>Messages\<close>

definition build_local_outgoing ::
  "('t, 'h, 'j) obs_env \<Rightarrow> string \<Rightarrow> string \<Rightarrow> int \<Rightarrow> ('t, 'h) line_world \<Rightarrow> 'j talk_message_t" where
  "build_local_outgoing E from_mid to_mid req_seq W =
     \<lparr>m_id = Some (''local-'' @ show_int req_seq), m_from_mid = Some from_mid, m_to_mid = Some to_mid,
      m_toType = enil_mid_to_type to_mid, m_sessionId = 0, m_createdTime = le_time (ob_le E) W * 1000,
      m_contentType = 0, m_hasContent = False, m_text = None, m_relatedMessageId = None, m_messageRelationType = 0,
      m_relatedMessageServiceCode = 0, m_contentMetadata = None, m_chunks = None, m_chat_id = None, m_raw = None\<rparr>"

definition wire_message :: "'j cjson \<Rightarrow> 'j talk_message_t \<Rightarrow> bool \<Rightarrow> 'j talk_message_t" where
  "wire_message J m e2ee =
     (if e2ee then m\<lparr>m_text := None, m_contentMetadata := map_option (\<lambda>j. delete_ci J j ''REPLACE'') (m_contentMetadata m)\<rparr>
      else m\<lparr>m_chunks := None, m_contentMetadata := None\<rparr>)"

definition build_wire_body :: "'j cjson \<Rightarrow> int \<Rightarrow> 'j talk_message_t \<Rightarrow> bool \<Rightarrow> string option" where
  "build_wire_body J req_seq m e2ee =
     talk_send_message_body_build J (Some \<lparr>sr_reqSeq = req_seq, sr_message = wire_message J m e2ee\<rparr>)"

definition send_path :: string where "send_path = ''/api/talk/thrift/Talk/TalkService/sendMessage''"

definition post_send_message ::
  "('t, 'h, 'j) obs_env \<Rightarrow> string \<Rightarrow> string \<Rightarrow> ('t, 'h) line_world \<Rightarrow> 'j option \<times> ('t, 'h) line_world" where
  "post_send_message E access_token content W =
     (case post (ob_le E) send_path content (Some access_token) W of (r, W1) \<Rightarrow> (line_response_data (oj E) r, W1))"

definition update_send_state ::
  "('t, 'h, 'j) obs_env \<Rightarrow> string \<Rightarrow> 'j session_t \<Rightarrow> int \<Rightarrow> int option \<Rightarrow> string option \<Rightarrow> ('t, 'h) line_world \<Rightarrow> ('t, 'h) line_world" where
  "update_send_state E path session req_seq e2ee_seq restore_state W =
     (let s = session\<lparr>reqSeq := req_seq, e2eeSequenceNumber := (case e2ee_seq of None \<Rightarrow> e2eeSequenceNumber session | Some n \<Rightarrow> n)\<rparr>
      in snd (session_persist (ob_le E) path (keep_restore (oj E) restore_state s) W))"

record 'j ENILLineSendResult =
  ls_message_id :: string
  ls_created_at :: int
  ls_message :: "'j talk_message_t"

text \<open>The server's id, time, session and content flag replace the local ones.\<close>

definition overlay_send_result :: "'j cjson \<Rightarrow> 'j \<Rightarrow> 'j talk_message_t \<Rightarrow> 'j ENILLineSendResult option" where
  "overlay_send_result J resp m =
     (case talk_send_message_response_parse J (Some resp) of
        None \<Rightarrow> None
      | Some server \<Rightarrow>
          (case m_id server of
             None \<Rightarrow> None
           | Some i \<Rightarrow>
               Some \<lparr>ls_message_id = i, ls_created_at = m_createdTime server,
                     ls_message = m\<lparr>m_id := Some i, m_createdTime := m_createdTime server, m_sessionId := m_sessionId server,
                       m_hasContent := m_hasContent server\<rparr>\<rparr>))"

definition attach_chunks_to_local :: "'j cjson \<Rightarrow> 'j talk_message_t \<Rightarrow> string list \<Rightarrow> 'j talk_message_t" where
  "attach_chunks_to_local J m chunks = m\<lparr>m_chunks := Some (array_of J (map (mkString J) chunks))\<rparr>"

text \<open>Post a body and take the result; the state is saved only when the answer is understood.\<close>

definition deliver ::
  "('t, 'h, 'j) obs_env \<Rightarrow> string \<Rightarrow> 'j session_t \<Rightarrow> string \<Rightarrow> int \<Rightarrow> int option \<Rightarrow> string option \<Rightarrow> string option \<Rightarrow>
   'j talk_message_t \<Rightarrow> ('t, 'h) line_world \<Rightarrow> 'j ENILLineSendResult option \<times> ('t, 'h) line_world" where
  "deliver E path session access_token req_seq e2ee_seq restore_state content m W =
     (case content of
        None \<Rightarrow> (None, W)
      | Some b \<Rightarrow>
          (case post_send_message E access_token b W of
             (None, W1) \<Rightarrow> (None, W1)
           | (Some resp, W1) \<Rightarrow>
               (case overlay_send_result (oj E) resp m of
                  None \<Rightarrow> (None, W1)
                | Some out \<Rightarrow> (Some out, update_send_state E path session req_seq e2ee_seq restore_state W1))))"

definition finish_e2ee_send ::
  "('t, 'h, 'j) obs_env \<Rightarrow> string \<Rightarrow> 'j session_t \<Rightarrow> string \<Rightarrow> int \<Rightarrow> string \<Rightarrow> int \<Rightarrow> int \<Rightarrow> int option \<Rightarrow> string \<Rightarrow>
   'j talk_message_t \<Rightarrow> ('t, 'h) line_world \<Rightarrow> 'j ENILLineSendResult option \<times> ('t, 'h) line_world" where
  "finish_e2ee_send E path session access_token req_seq cipher key_id_a key_id_b e2ee_seq restore_state m W =
     (case split_v2_ciphertext E cipher key_id_a key_id_b of
        None \<Rightarrow> (None, W)
      | Some chunks \<Rightarrow>
          (let sealed = attach_chunks_to_local (oj E) m chunks
           in deliver E path session access_token req_seq e2ee_seq (Some restore_state) (build_wire_body (oj E) req_seq sealed True)
                sealed W))"

section \<open>One recipient and groups\<close>

definition send_1on1 ::
  "('t, 'h, 'j) obs_env \<Rightarrow> string \<Rightarrow> 'j session_t \<Rightarrow> string \<Rightarrow> string \<Rightarrow> string \<Rightarrow> int \<Rightarrow> string \<Rightarrow> int \<Rightarrow>
   'j talk_message_t \<Rightarrow> ('t, 'h) line_world \<Rightarrow> 'j ENILLineSendResult option \<times> ('t, 'h) line_world" where
  "send_1on1 E path session access_token my_mid chat_mid req_seq plaintext_b64 content_type m W =
     (let J = oj E; le = ob_le E; key_id = e2eeLatestKeyId session; seq = e2eeSequenceNumber session
      in case find_e2ee_key J session key_id of
           None \<Rightarrow> (None, W)
         | Some private_key \<Rightarrow>
             (case talk_negotiate_e2ee_public_key (talk_of le) (Some access_token) (Some chat_mid) W of
                (None, W1) \<Rightarrow> (None, W1)
              | (Some peer, W1) \<Rightarrow>
                  (case on_net (enil_worker_encrypt_user (le_ne le) (le_thread le)
                          (Some \<lparr>eu_restore_state = restore_text J session, eu_private_key = Some private_key,
                             eu_private_key_id = wrap32 key_id, eu_peer_mid = Some chat_mid, eu_peer_public_key = Some (pk_publicKey peer),
                             eu_peer_key_id = wrap32 (pk_keyId peer), eu_from_mid = Some my_mid, eu_to_mid = Some chat_mid,
                             eu_sender_key_id = wrap32 key_id, eu_content_type = content_type, eu_sequence_number = seq,
                             eu_plaintext = Some plaintext_b64\<rparr>)) W1 of
                     (None, W2) \<Rightarrow> (None, W2)
                   | (Some enc, W2) \<Rightarrow>
                       finish_e2ee_send E path session access_token req_seq (ciphertext enc) (wrap32 key_id)
                         (wrap32 (pk_keyId peer)) (Some (seq + 1)) (wr_restore_state enc) m W2)))"

text \<open>Without a group key a message that has a text goes in the clear.\<close>

definition send_plain ::
  "('t, 'h, 'j) obs_env \<Rightarrow> string \<Rightarrow> 'j session_t \<Rightarrow> string \<Rightarrow> int \<Rightarrow> 'j talk_message_t \<Rightarrow> ('t, 'h) line_world \<Rightarrow>
   'j ENILLineSendResult option \<times> ('t, 'h) line_world" where
  "send_plain E path session access_token req_seq m W =
     (let J = oj E; bare = (\<lambda>n. n\<lparr>m_contentMetadata := map_option (\<lambda>j. delete_ci J (delete_ci J j ''e2eeVersion'') ''REPLACE'') (m_contentMetadata n)\<rparr>)
      in if m_text m = None then (None, W)
         else
           (case deliver E path session access_token req_seq None None (build_wire_body J req_seq m False) m W of
              (out, W1) \<Rightarrow> (map_option (\<lambda>r. r\<lparr>ls_message := bare (ls_message r)\<rparr>) out, W1)))"

definition send_sealed ::
  "('t, 'h, 'j) obs_env \<Rightarrow> string \<Rightarrow> 'j session_t \<Rightarrow> string \<Rightarrow> string \<Rightarrow> string \<Rightarrow> int \<Rightarrow> string \<Rightarrow> int \<Rightarrow> 'j talk_message_t \<Rightarrow>
   'j talk_e2ee_group_shared_key_t \<Rightarrow> ('t, 'h) line_world \<Rightarrow> 'j ENILLineSendResult option \<times> ('t, 'h) line_world" where
  "send_sealed E path session access_token my_mid chat_mid req_seq plaintext_b64 content_type m gk W =
     (let J = oj E; le = ob_le E; key_id = e2eeLatestKeyId session; seq = e2eeSequenceNumber session
      in case (gk_creator gk, find_e2ee_key J session (gk_receiverKeyId gk)) of
           (Some creator, Some private_key) \<Rightarrow>
             (case fetch_public_key E access_token creator (wrap32 (gk_creatorKeyId gk)) W of
                (None, W1) \<Rightarrow> (None, W1)
              | (Some creator_pub, W1) \<Rightarrow>
             (case fetch_public_key E access_token my_mid (wrap32 key_id) W1 of
                (None, W2) \<Rightarrow> (None, W2)
              | (Some sender_pub, W2) \<Rightarrow>
                  (case on_net (enil_worker_encrypt_group (le_ne le) (le_thread le)
                          (Some \<lparr>eg_restore_state = restore_text J session, eg_group_mid = Some chat_mid, eg_group_key = Some (gk_raw gk),
                             eg_my_private_key = Some private_key, eg_my_private_key_id = wrap32 (gk_receiverKeyId gk),
                             eg_sender_mid = Some my_mid, eg_sender_key_id = wrap32 key_id, eg_group_key_id = wrap32 (gk_groupKeyId gk),
                             eg_creator_public_key = Some creator_pub, eg_sender_public_key = Some sender_pub,
                             eg_from_mid = Some my_mid, eg_to_mid = Some chat_mid, eg_content_type = content_type,
                             eg_sequence_number = seq, eg_plaintext = Some plaintext_b64\<rparr>)) W2 of
                     (None, W3) \<Rightarrow> (None, W3)
                   | (Some enc, W3) \<Rightarrow>
                       finish_e2ee_send E path session access_token req_seq (ciphertext enc) (wrap32 key_id)
                         (wrap32 (gk_groupKeyId gk)) None (wr_restore_state enc) m W3)))
         | _ \<Rightarrow> (None, W))"

definition send_group ::
  "('t, 'h, 'j) obs_env \<Rightarrow> string \<Rightarrow> 'j session_t \<Rightarrow> string \<Rightarrow> string \<Rightarrow> string \<Rightarrow> int \<Rightarrow> string \<Rightarrow> int \<Rightarrow>
   'j talk_message_t \<Rightarrow> ('t, 'h) line_world \<Rightarrow> 'j ENILLineSendResult option \<times> ('t, 'h) line_world" where
  "send_group E path session access_token my_mid chat_mid req_seq plaintext_b64 content_type m W =
     (case last_group_key E access_token chat_mid W of
        (Some gk, W1) \<Rightarrow> send_sealed E path session access_token my_mid chat_mid req_seq plaintext_b64 content_type m gk W1
      | (None, W1) \<Rightarrow>
          (case create_and_register_group_key E session access_token my_mid chat_mid W1 of
             ((Some gk, session'), W2) \<Rightarrow>
               send_sealed E path session' access_token my_mid chat_mid req_seq plaintext_b64 content_type m gk W2
           | ((None, session'), W2) \<Rightarrow> send_plain E path session' access_token req_seq m W2))"

text \<open>The two kinds of chat a message can be sent to, and the session it needs.\<close>

definition chat_prefix :: "string \<Rightarrow> char" where
  "chat_prefix m = (case m of [] \<Rightarrow> CHR 0x00 | c # _ \<Rightarrow> lower_char c)"

definition sendable :: "string \<Rightarrow> bool" where
  "sendable m \<longleftrightarrow> chat_prefix m = CHR ''u'' \<or> chat_prefix m = CHR ''c''"

definition send_encrypted ::
  "('t, 'h, 'j) obs_env \<Rightarrow> string \<Rightarrow> 'j session_t \<Rightarrow> string \<Rightarrow> string \<Rightarrow> string \<Rightarrow> int \<Rightarrow> string \<Rightarrow> int \<Rightarrow>
   'j talk_message_t \<Rightarrow> ('t, 'h) line_world \<Rightarrow> 'j ENILLineSendResult option \<times> ('t, 'h) line_world" where
  "send_encrypted E path session access_token my_mid chat_mid req_seq plaintext_b64 content_type m W =
     (if chat_prefix chat_mid = CHR ''u''
      then send_1on1 E path session access_token my_mid chat_mid req_seq plaintext_b64 content_type m W
      else send_group E path session access_token my_mid chat_mid req_seq plaintext_b64 content_type m W)"

definition sending_session ::
  "('t, 'h, 'j) obs_env \<Rightarrow> string \<Rightarrow> ('t, 'h) line_world \<Rightarrow> ('j session_t \<times> string \<times> string) option" where
  "sending_session E path W =
     (case load_session (ob_le E) path W of
        None \<Rightarrow> None
      | Some session \<Rightarrow>
          (case (accessToken session, mid session) of (Some token, Some me) \<Rightarrow> Some (session, token, me) | _ \<Rightarrow> None))"

section \<open>Text and stickers\<close>

definition enil_line_send_text ::
  "('t, 'h, 'j) obs_env \<Rightarrow> string \<Rightarrow> string \<Rightarrow> string \<Rightarrow> ('t, 'h) line_world \<Rightarrow>
   'j ENILLineSendResult option \<times> ('t, 'h) line_world" where
  "enil_line_send_text E path chat_mid content W =
     (if \<not> sendable chat_mid then (None, W)
      else
        (case sending_session E path W of
           None \<Rightarrow> (None, W)
         | Some (session, token, me) \<Rightarrow>
             (let J = oj E; req_seq = next_req_seq E session W;
                  m = (build_local_outgoing E me chat_mid req_seq W)
                    \<lparr>m_text := Some content, m_contentMetadata := Some (object_of J [(''e2eeVersion'', mkString J ''2'')])\<rparr>
              in send_encrypted E path session token me chat_mid req_seq (encode_plaintext E content) 0 m W)))"

record ENILLineSendStickerParams =
  st_package_id :: string
  st_sticker_id :: string
  st_version :: "string option"
  st_option :: "string option"
  st_hash :: "string option"

definition if_nonempty :: "'j cjson \<Rightarrow> string \<Rightarrow> string option \<Rightarrow> (string \<times> 'j) list" where
  "if_nonempty J k v = (if nonempty v then [(k, mkString J (the v))] else [])"

definition enil_line_send_sticker ::
  "('t, 'h, 'j) obs_env \<Rightarrow> string \<Rightarrow> string \<Rightarrow> ENILLineSendStickerParams \<Rightarrow> ('t, 'h) line_world \<Rightarrow>
   'j ENILLineSendResult option \<times> ('t, 'h) line_world" where
  "enil_line_send_sticker E path chat_mid sticker W =
     (if \<not> sendable chat_mid then (None, W)
      else
        (case sending_session E path W of
           None \<Rightarrow> (None, W)
         | Some (session, token, me) \<Rightarrow>
             (let J = oj E; req_seq = next_req_seq E session W;
                  meta = object_of J ([(''STKPKGID'', mkString J (st_package_id sticker)), (''STKID'', mkString J (st_sticker_id sticker))] @
                    if_nonempty J ''STKVER'' (st_version sticker) @ if_nonempty J ''STKOPT'' (st_option sticker) @
                    if_nonempty J ''STKHASH'' (st_hash sticker));
                  m = (build_local_outgoing E me chat_mid req_seq W)
                    \<lparr>m_contentType := 7, m_hasContent := True, m_contentMetadata := Some meta\<rparr>
              in deliver E path session token req_seq None None
                   (talk_send_message_body_build J (Some \<lparr>sr_reqSeq = req_seq, sr_message = m\<rparr>)) m W)))"

section \<open>Images\<close>

text \<open>A thumbnail of null is \<open>None\<close>.\<close>

record ENILLineSendImageParams =
  im_jpeg :: "byte list"
  im_thumb :: "byte list option"
  im_thumb_width :: int
  im_thumb_height :: int
  im_file_name :: "string option"

definition thumb_info :: "'j cjson \<Rightarrow> ENILLineSendImageParams \<Rightarrow> (string \<times> 'j) list" where
  "thumb_info J p =
     (if im_thumb p \<noteq> None \<and> 0 < im_thumb_width p \<and> 0 < im_thumb_height p
      then [(''MEDIA_THUMB_INFO'', mkString J (''{\"width\":'' @ show_int (im_thumb_width p) @ '',\"height\":'' @ show_int (im_thumb_height p) @ ''}''))]
      else [])"

definition content_info :: "'j cjson \<Rightarrow> nat \<Rightarrow> string \<times> 'j" where
  "content_info J n =
     (''MEDIA_CONTENT_INFO'', mkString J (''{\"category\":\"original\",\"fileSize\":'' @ show_int (int n) @ '',\"extension\":\"jpg\"}''))"

definition image_name :: "ENILLineSendImageParams \<Rightarrow> string" where
  "image_name p = (if nonempty (im_file_name p) then the (im_file_name p) else ''image.jpg'')"

definition build_plain_image_metadata :: "'j cjson \<Rightarrow> ENILLineSendImageParams \<Rightarrow> string \<Rightarrow> 'j" where
  "build_plain_image_metadata J p file_name =
     object_of J ([(''FILE_SIZE'', mkString J (show_int (int (length (im_jpeg p))))), (''FILE_NAME'', mkString J file_name),
       (''contentType'', mkString J ''1''), content_info J (length (im_jpeg p))] @ thumb_info J p)"

definition build_e2ee_image_metadata ::
  "'j cjson \<Rightarrow> ENILLineSendImageParams \<Rightarrow> string \<Rightarrow> string \<Rightarrow> string \<Rightarrow> nat \<Rightarrow> 'j" where
  "build_e2ee_image_metadata J p file_name oid enc_km_b64 enc_len =
     object_of J ([(''OID'', mkString J oid), (''SID'', mkString J ''emi''), (''ENC_KM'', mkString J enc_km_b64),
       (''FILE_NAME'', mkString J file_name), (''contentType'', mkString J ''1''), (''e2eeVersion'', mkString J ''2''),
       (''FILE_SIZE'', mkString J (show_int (int enc_len))), content_info J enc_len] @ thumb_info J p)"

text \<open>The image goes up after the message is accepted, and the message stays sent whatever the uploads do.\<close>

definition enil_line_send_image_plain ::
  "('t, 'h, 'j) obs_env \<Rightarrow> string \<Rightarrow> string \<Rightarrow> ENILLineSendImageParams \<Rightarrow> ('t, 'h) line_world \<Rightarrow>
   'j ENILLineSendResult option \<times> ('t, 'h) line_world" where
  "enil_line_send_image_plain E path chat_mid p W =
     (if im_jpeg p = [] \<or> \<not> sendable chat_mid then (None, W)
      else
        (case sending_session E path W of
           None \<Rightarrow> (None, W)
         | Some (session, token, me) \<Rightarrow>
             (let J = oj E; req_seq = next_req_seq E session W;
                  m = (build_local_outgoing E me chat_mid req_seq W)
                    \<lparr>m_contentType := 1, m_hasContent := True,
                     m_contentMetadata := Some (build_plain_image_metadata J p (image_name p))\<rparr>
              in case deliver E path session token req_seq None None
                       (talk_send_message_body_build J (Some \<lparr>sr_reqSeq = req_seq, sr_message = m\<rparr>)) m W of
                   (None, W1) \<Rightarrow> (None, W1)
                 | (Some out, W1) \<Rightarrow>
                     (case enil_obs_upload_with_oid E path (im_jpeg p) ''m'' (ls_message_id out) W1 of
                        (False, W2) \<Rightarrow> (Some out, W2)
                      | (True, W2) \<Rightarrow>
                          (case im_thumb p of
                             None \<Rightarrow> (Some out, W2)
                           | Some t \<Rightarrow>
                               (Some out, if t = [] then W2
                                  else snd (enil_obs_upload_with_oid E path t ''m'' (ls_message_id out @ ''__ud-preview'') W2)))))))"

definition encode_keymaterial_plaintext :: "('t, 'h, 'j) obs_env \<Rightarrow> string \<Rightarrow> string" where
  "encode_keymaterial_plaintext E km_b64 = encode_json E (object_of (oj E) [(''keyMaterial'', mkString (oj E) km_b64)])"

definition enil_line_send_image_e2ee ::
  "('t, 'h, 'j) obs_env \<Rightarrow> (nat \<Rightarrow> byte list option) \<Rightarrow> string \<Rightarrow> ENILLineSendImageParams \<Rightarrow> string \<Rightarrow> ('t, 'h) line_world \<Rightarrow>
   'j ENILLineSendResult option \<times> ('t, 'h) line_world" where
  "enil_line_send_image_e2ee E rand path p chat_mid W =
     (case sending_session E path W of
        None \<Rightarrow> (None, W)
      | Some (session, token, me) \<Rightarrow>
          (case enil_crypto_file_encrypt (ob_hmac E) (ob_ctr E) rand (Some (im_jpeg p)) (length (im_jpeg p)) of
             None \<Rightarrow> (None, W)
           | Some (km, enc_main) \<Rightarrow>
               (let enc_km_b64 = enil_b64_encode (ob_evp_encode E) km
                in case enil_obs_upload E path enc_main ''emi'' W of
                     (None, W1) \<Rightarrow> (None, W1)
                   | (Some oid, W1) \<Rightarrow>
                       (let W2 = (case im_thumb p of
                               None \<Rightarrow> W1
                             | Some t \<Rightarrow>
                                 (case enil_crypto_file_encrypt_with_km (ob_hmac E) (ob_ctr E) (Some t) (length t) (Some km) of
                                    None \<Rightarrow> W1
                                  | Some enc_thumb \<Rightarrow>
                                      if t = [] then W1
                                      else snd (enil_obs_upload_with_oid E path enc_thumb ''emi'' (oid @ ''__ud-preview'') W1)));
                            req_seq = next_req_seq E session W2;
                            m = (build_local_outgoing E me chat_mid req_seq W2)
                              \<lparr>m_contentType := 1, m_hasContent := True,
                               m_contentMetadata := Some (build_e2ee_image_metadata (oj E) p (image_name p) oid enc_km_b64 (length enc_main))\<rparr>
                        in send_encrypted E path session token me chat_mid req_seq (encode_keymaterial_plaintext E enc_km_b64) 1 m W2))))"

text \<open>Flow 2 is encrypted; when the flow cannot be learned the image goes in the clear.\<close>

definition enil_line_send_image ::
  "('t, 'h, 'j) obs_env \<Rightarrow> (nat \<Rightarrow> byte list option) \<Rightarrow> string \<Rightarrow> string \<Rightarrow> ENILLineSendImageParams \<Rightarrow> ('t, 'h) line_world \<Rightarrow>
   'j ENILLineSendResult option \<times> ('t, 'h) line_world" where
  "enil_line_send_image E rand path chat_mid p W =
     (if im_jpeg p = [] then (None, W)
      else
        (let J = oj E;
             token = Option.bind (load_session (ob_le E) path W) accessToken;
             (flow, W1) = (if nonempty token then talk_determine_media_message_flow (talk_of (ob_le E)) token (Some chat_mid) W else (None, W));
             entry = Option.bind flow (\<lambda>f. getItem J (mf_flowMap f) ''1'');
             image_flow = (if jis (isNumber J) entry then trunc (valuedouble J (the entry)) else 1)
         in if image_flow = 2 then enil_line_send_image_e2ee E rand path p chat_mid W1
            else enil_line_send_image_plain E path chat_mid p W1))"

section \<open>Sticons\<close>

definition sticon_object :: "'j cjson \<Rightarrow> ENILLineSticonResource \<Rightarrow> 'j" where
  "sticon_object J r =
     object_of J [(''S'', mkNumber J (of_int (res_S r))), (''E'', mkNumber J (of_int (res_E r))),
       (''productId'', mkString J (res_package_id r)), (''sticonId'', mkString J (res_sticon_id r)),
       (''version'', if res_version r = [] then mkString J [] else mkNumber J (double_of_int (fst (strtoll10 (res_version r))))),
       (''resourceType'', mkString J (if res_resource_type r = [] then ''STATIC'' else res_resource_type r))]"

definition build_replace_sticon_obj :: "'j cjson \<Rightarrow> ENILLineSticonResource list \<Rightarrow> 'j" where
  "build_replace_sticon_obj J res =
     object_of J [(''sticon'', object_of J [(''resources'', array_of J (map (sticon_object J) res))])]"

definition encode_sticon_plaintext :: "('t, 'h, 'j) obs_env \<Rightarrow> string \<Rightarrow> ENILLineSticonResource list \<Rightarrow> string" where
  "encode_sticon_plaintext E content res =
     encode_json E (object_of (oj E) [(''text'', mkString (oj E) content), (''REPLACE'', build_replace_sticon_obj (oj E) res)])"

text \<open>Every package once, in the order of its first use.\<close>

definition build_sticon_ownership :: "'j cjson \<Rightarrow> ENILLineSticonResource list \<Rightarrow> string" where
  "build_sticon_ownership J res =
     printText J (array_of J (map (mkString J) (rev (remdups (rev (map res_package_id res))))))"

definition enil_line_send_inline_sticon ::
  "('t, 'h, 'j) obs_env \<Rightarrow> string \<Rightarrow> string \<Rightarrow> string \<Rightarrow> ENILLineSticonResource list \<Rightarrow> ('t, 'h) line_world \<Rightarrow>
   'j ENILLineSendResult option \<times> ('t, 'h) line_world" where
  "enil_line_send_inline_sticon E path chat_mid content res W =
     (if res = [] \<or> \<not> sendable chat_mid then (None, W)
      else
        (case sending_session E path W of
           None \<Rightarrow> (None, W)
         | Some (session, token, me) \<Rightarrow>
             (let J = oj E; req_seq = next_req_seq E session W;
                  meta = object_of J [(''e2eeVersion'', mkString J ''2''), (''STICON_OWNERSHIP'', mkString J (build_sticon_ownership J res)),
                    (''REPLACE'', mkString J (printText J (build_replace_sticon_obj J res)))];
                  m = (build_local_outgoing E me chat_mid req_seq W)\<lparr>m_text := Some content, m_contentMetadata := Some meta\<rparr>
              in send_encrypted E path session token me chat_mid req_seq (encode_sticon_plaintext E content res) 0 m W)))"

section \<open>Removing a chat\<close>

definition enil_line_send_chat_removed ::
  "('t, 'h, 'j) obs_env \<Rightarrow> string \<Rightarrow> string \<Rightarrow> string option \<Rightarrow> int \<Rightarrow> ('t, 'h) line_world \<Rightarrow> bool \<times> ('t, 'h) line_world" where
  "enil_line_send_chat_removed E path chat_mid last_read_id last_read_time W =
     (case load_session (ob_le E) path W of
        None \<Rightarrow> (False, W)
      | Some session \<Rightarrow>
          (case accessToken session of
             None \<Rightarrow> (False, W)
           | Some token \<Rightarrow>
               (let req_seq = next_req_seq E session W
                in case talk_send_chat_removed (talk_of (ob_le E)) (Some token) req_seq (Some chat_mid) last_read_id last_read_time W of
                     (False, W1) \<Rightarrow> (False, W1)
                   | (True, W1) \<Rightarrow> (True, update_send_state E path session req_seq None None W1))))"

end
