(* ===== verification/ENIL_LineSendFacts.thy ===== *)
theory ENIL_LineSendFacts
  imports ENIL_LineSend ENIL_ObsFacts ENIL_E2eeFacts ENIL_TalkFacts
begin

text \<open>
  What sending guarantees: the chunks of a sealed message are read back by the receiving side of
  \<open>ENIL_E2ee\<close>, and a readable message goes to the server only where a group has no key.
\<close>

section \<open>Chunks\<close>

lemma word_byte: "unat (word_of_int n :: byte) = nat (n mod 256)"
  by (simp add: unat_eq_nat_uint uint_word_of_int)

lemma key_bytes_value:
  assumes "0 \<le> k" and "k < 2 ^ 31"
  shows "foldl (\<lambda>acc b. wrap64 (acc * 256 + int (unat b))) 0 (key_bytes k) = k"
proof -
  have small: "wrap64 n = n" if "0 \<le> n" "n < 2 ^ 63" for n
    using that by (simp add: wrap64_def sint_sbintrunc' signed_take_bit_int_eq_self)
  define b3 where "b3 = k div 2 ^ 24 mod 256"
  define b2 where "b2 = k div 2 ^ 16 mod 256"
  define b1 where "b1 = k div 2 ^ 8 mod 256"
  define b0 where "b0 = k mod 256"
  note bs = b3_def b2_def b1_def b0_def
  have r: "0 \<le> b3" "b3 < 256" "0 \<le> b2" "b2 < 256" "0 \<le> b1" "b1 < 256" "0 \<le> b0" "b0 < 256" by (simp_all add: bs)
  have k: "((b3 * 256 + b2) * 256 + b1) * 256 + b0 = k"
  proof -
    have "k div 2 ^ 24 < 256" "0 \<le> k div 2 ^ 24" using assms by simp_all
    then have "b3 = k div 2 ^ 24" by (simp add: b3_def)
    moreover have "k div 2 ^ 24 * 256 + b2 = k div 2 ^ 16" unfolding b2_def
      using div_mult_mod_eq [of "k div 2 ^ 16" 256] by (simp add: zdiv_zmult2_eq [symmetric])
    moreover have "k div 2 ^ 16 * 256 + b1 = k div 2 ^ 8" unfolding b1_def
      using div_mult_mod_eq [of "k div 2 ^ 8" 256] by (simp add: zdiv_zmult2_eq [symmetric])
    moreover have "k div 2 ^ 8 * 256 + b0 = k" unfolding b0_def using div_mult_mod_eq [of k 256] by simp
    ultimately show ?thesis by simp
  qed
  have "int (unat (word_of_int n :: byte)) = n mod 256" for n by (simp add: word_byte)
  then have "foldl (\<lambda>acc b. wrap64 (acc * 256 + int (unat b))) 0 (key_bytes k) =
      wrap64 (wrap64 (wrap64 (wrap64 b3 * 256 + b2) * 256 + b1) * 256 + b0)"
    by (simp add: key_bytes_def bs)
  also have "\<dots> = ((b3 * 256 + b2) * 256 + b1) * 256 + b0" using r by (simp add: small)
  finally show ?thesis using k by simp
qed

context evp_codec
begin

lemma chunk_decodes:
  obtains out where "enil_b64_decode decode (Some (enil_b64_encode encode d)) = Some (out, int (length d))"
    "take (length d) out = d" "length d \<le> length out"
proof -
  obtain out where o': "enil_b64_decode decode (Some (enil_b64_encode encode d)) = Some (out, int (length d))" "take (length d) out = d"
    using decode_encode_prefix by blast
  then have "length d \<le> length out" by (metis length_take min.cobounded1)
  then show thesis using o' that by blast
qed

lemma key_chunk:
  assumes "0 \<le> k" and "k < 2 ^ 31"
  shows "parse_key_id decode (Some (enil_b64_encode encode (key_bytes k))) = k"
proof -
  obtain out where o': "enil_b64_decode decode (Some (enil_b64_encode encode (key_bytes k))) = Some (out, int (length (key_bytes k)))"
    "take (length (key_bytes k)) out = key_bytes k" by (rule chunk_decodes)
  then show ?thesis using key_bytes_value [OF assms]
    by (simp add: parse_key_id_def KEY_ID_ROOM_def) (simp add: key_bytes_def)
qed

text \<open>Version 2 puts three encoded chunks together in the order 0, 2, 1.\<close>

lemma three_chunks:
  "\<exists>ws. cipher_writes decode (enil_b64_encode encode x) (enil_b64_encode encode z) (enil_b64_encode encode y) 2 =
       ((int (length x), int (length z), int (length y)), ws) \<and>
     map (cell ws) [0..int (length x) + int (length z) + int (length y) - 1] = x @ y @ z"
proof -
  obtain ox where x: "enil_b64_decode decode (Some (enil_b64_encode encode x)) = Some (ox, int (length x))" "take (length x) ox = x" "length x \<le> length ox"
    by (rule chunk_decodes)
  obtain oy where y: "enil_b64_decode decode (Some (enil_b64_encode encode y)) = Some (oy, int (length y))" "take (length y) oy = y" "length y \<le> length oy"
    by (rule chunk_decodes)
  obtain oz where z: "enil_b64_decode decode (Some (enil_b64_encode encode z)) = Some (oz, int (length z))" "take (length z) oz = z" "length z \<le> length oz"
    by (rule chunk_decodes)
  have "map (cell [(int (length x) + int (length y), oz), (int (length x), oy), (0, ox)])
      [0..int (length x) + int (length y) + int (length z) - 1] = x @ y @ z"
    using cells_of_three [of "int (length x)" ox "int (length y)" oy "int (length z)" oz] x y z by simp
  then show ?thesis using x(1) y(1) z(1) by (simp add: cipher_writes_def decode_at_def add.commute add.left_commute)
qed

end

text \<open>C34: A sealed message can be read by the code that receives it.  The five chunks made from a ciphertext,
  attached to the message, give the receiving side the same ciphertext and the two key ids, when the ids are
  below \<open>2 ^ 31\<close>.\<close>

theorem sealed_message_reads_back:
  assumes "cjson_laws (oj E)" and "evp_codec (ob_evp_encode E) (ob_evp_decode E)"
    and "tj (et D) = oj E" and "evp_decode D = ob_evp_decode E" and "evp_encode D = ob_evp_encode E"
    and "enil_b64_decode_alloc (ob_evp_decode E) (Some cipher) = Some raw"
    and "split_v2_ciphertext E cipher a b = Some pieces" and "a \<in> {0..<2 ^ 31}" and "b \<in> {0..<2 ^ 31}"
    and "m_chunks (attach_chunks_to_local (oj E) m pieces) = Some packed"
  shows "build_ciphertext D packed 2 = Some (enil_b64_encode (ob_evp_encode E) raw) \<and>
    chunk_key_id D packed 3 = a \<and> chunk_key_id D packed 4 = b"
proof -
  let ?enc = "enil_b64_encode (ob_evp_encode E)" and ?J = "oj E"
  have pieces: "pieces = map ?enc [take 16 raw, drop 28 raw, take 12 (drop 16 raw), key_bytes a, key_bytes b]" and long: "29 \<le> length raw"
    using assms(6,7) by (auto simp: split_v2_ciphertext_def split: if_splits)
  have packed: "packed = array_of ?J (map (mkString ?J) pieces)" using assms(10) by (simp add: attach_chunks_to_local_def)
  note arr = cjson_laws.array_of [OF assms(1)]
  have kids: "map snd (children ?J packed) = map (mkString ?J) pieces" by (simp add: packed arr comp_def)
  have "take 12 (drop 16 raw) @ drop 28 raw = drop 16 raw"
    using append_take_drop_id [of 12 "drop 16 raw"] by (simp add: add.commute)
  then have whole: "take 16 raw @ take 12 (drop 16 raw) @ drop 28 raw = raw" by simp
  obtain n0 n1 n2 ws where ws: "cipher_writes (ob_evp_decode E) (?enc (take 16 raw)) (?enc (drop 28 raw)) (?enc (take 12 (drop 16 raw))) 2 =
      ((n0, n1, n2), ws)" "0 \<le> n0" "0 \<le> n1" "0 \<le> n2" "map (cell ws) [0..n0 + n1 + n2 - 1] = raw"
    using evp_codec.three_chunks [OF assms(2), of "take 16 raw" "drop 28 raw" "take 12 (drop 16 raw)"] unfolding whole
    by (metis of_nat_0_le_iff)
  have arr': "isArray ?J packed" by (simp add: packed arr)
  have "build_ciphertext D packed 2 = Some (?enc raw)"
    unfolding build_ciphertext_def assms(3-5) Let_def kids
    using arr' ws by (simp add: pieces jstr_def cjson_laws.string_new [OF assms(1)])
  moreover have "chunk_key_id D packed 3 = a" "chunk_key_id D packed 4 = b"
    using evp_codec.key_chunk [OF assms(2)] assms(8,9) unfolding chunk_key_id_def assms(3,4) kids
    by (simp_all add: pieces jstr_def cjson_laws.string_new [OF assms(1)])
  ultimately show ?thesis by blast
qed

definition sealing_env :: "(nat, nat, json) obs_env" where
  "sealing_env = media_env\<lparr>ob_evp_encode := rfc_encode, ob_evp_decode := rfc_decode\<rparr>"

definition opening_env :: "(nat, json) e2ee_env" where
  "opening_env = demo_e2ee\<lparr>et := (et demo_e2ee)\<lparr>tj := oj sealing_env\<rparr>, evp_decode := rfc_decode, evp_encode := rfc_encode\<rparr>"

theorem sealed_message_reads_back_witness:
  "\<exists>pieces packed. split_v2_ciphertext sealing_env (enil_b64_encode rfc_encode (replicate 29 5)) 3 70000 = Some pieces \<and>
     m_chunks (attach_chunks_to_local (oj sealing_env) (build_local_outgoing sealing_env ''u1'' ''u2'' 1 demo_before) pieces) = Some packed \<and>
     build_ciphertext opening_env packed 2 = Some (enil_b64_encode rfc_encode (replicate 29 5)) \<and> chunk_key_id opening_env packed 4 = 70000"
proof -
  let ?raw = "replicate 29 5 :: byte list"
  have codec: "evp_codec (ob_evp_encode sealing_env) (ob_evp_decode sealing_env)"
    using rfc4648.evp_codec_axioms by (simp add: sealing_env_def)
  have laws: "cjson_laws (oj sealing_env)"
    by (simp add: sealing_env_def media_env_def demo_online_def demo_net_env_def media_lib_def tree.cjson_laws_axioms)
  have raw: "enil_b64_decode_alloc (ob_evp_decode sealing_env) (Some (enil_b64_encode rfc_encode ?raw)) = Some ?raw"
    using rfc4648.decode_alloc_encode by (simp add: sealing_env_def)
  then obtain pieces where pieces: "split_v2_ciphertext sealing_env (enil_b64_encode rfc_encode ?raw) 3 70000 = Some pieces"
    by (simp add: split_v2_ciphertext_def)
  obtain packed where packed: "m_chunks (attach_chunks_to_local (oj sealing_env) (build_local_outgoing sealing_env ''u1'' ''u2'' 1 demo_before) pieces) = Some packed"
    by (simp add: attach_chunks_to_local_def)
  have "build_ciphertext opening_env packed 2 = Some (enil_b64_encode (ob_evp_encode sealing_env) ?raw) \<and>
      chunk_key_id opening_env packed 3 = 3 \<and> chunk_key_id opening_env packed 4 = 70000"
    by (rule sealed_message_reads_back [OF laws codec _ _ _ raw pieces _ _ packed]) (simp_all add: opening_env_def sealing_env_def)
  then show ?thesis using pieces packed by (auto simp: sealing_env_def)
qed

section \<open>In the clear\<close>

text \<open>A \<open>sendMessage\<close> body whose message has neither a text nor the sticons of one.\<close>

definition sealed_body :: "'j cjson \<Rightarrow> string \<Rightarrow> bool" where
  "sealed_body J b \<longleftrightarrow>
     (\<exists>n doc. b = printText J (array_of J [n, doc]) \<and> getItemCS J doc ''text'' = None \<and>
        (\<forall>meta. getItemCS J doc ''contentMetadata'' = Some meta \<longrightarrow> getItem J meta ''REPLACE'' = None))"

text \<open>Two servers that answer alike, except perhaps to a send that is not sealed.\<close>

type_synonym ('t, 'h) answers = "string \<Rightarrow> string \<Rightarrow> string option \<Rightarrow> string list \<Rightarrow> int \<Rightarrow> ('t, 'h) line_world \<Rightarrow>
  ENILLineResponse \<times> ('t, 'h) line_world"

definition differ_on_open_sends :: "'j cjson \<Rightarrow> ('t, 'h) answers \<Rightarrow> ('t, 'h) answers \<Rightarrow> bool" where
  "differ_on_open_sends J p q \<longleftrightarrow>
     (\<forall>path b tok hs t W. (path = send_path \<longrightarrow> sealed_body J b) \<longrightarrow> p path b tok hs t W = q path b tok hs t W)"

abbreviation with_server :: "('t, 'h) answers \<Rightarrow> ('t, 'h, 'j) obs_env \<Rightarrow> ('t, 'h, 'j) obs_env" where
  "with_server q E \<equiv> E\<lparr>ob_le := (ob_le E)\<lparr>le_post := q\<rparr>\<rparr>"

lemma same_post:
  assumes "differ_on_open_sends (oj E) (le_post (ob_le E)) q" and "path \<noteq> send_path \<or> sealed_body (oj E) b"
  shows "post (ob_le (with_server q E)) path b tok W = post (ob_le E) path b tok W"
  using assms by (simp add: post_def differ_on_open_sends_def)

lemma same_typed_call:
  assumes "differ_on_open_sends (oj E) (le_post (ob_le E)) q" and "epath ep \<noteq> send_path"
  shows "typed_call (talk_of (ob_le (with_server q E))) ep tok req build parse W = typed_call (talk_of (ob_le E)) ep tok req build parse W"
  using same_post [OF assms(1)] assms(2)
  by (simp add: typed_call_def talk_of_def enil_api_call_def split: option.splits)

lemma wire_body_sealed:
  assumes L: "cjson_name_laws J" and meta: "\<And>j. m_contentMetadata m = Some j \<Longrightarrow> clean_doc J j"
  shows "build_wire_body J n m True = Some b \<Longrightarrow> sealed_body J b"
proof -
  assume b: "build_wire_body J n m True = Some b"
  note J = cjson_name_laws.axioms(1) [OF L]
  let ?w = "wire_message J m True"
  have doc: "b = printText J (array_of J [mkNumber J (double_of_int n), send_message_object J ?w])"
    using b by (simp add: build_wire_body_def talk_send_message_body_build_def)
  have "getItemCS J (send_message_object J ?w) ''text'' = None"
    unfolding send_message_object_def cjson_laws.get_object_of [OF J] by (simp add: wire_message_def opt_str_def split: option.splits)
  moreover have "getItem J meta ''REPLACE'' = None" if "getItemCS J (send_message_object J ?w) ''contentMetadata'' = Some meta" for meta
  proof (cases "m_contentMetadata m")
    case None
    then have "meta = mkObject J" using that
      unfolding send_message_object_def cjson_laws.get_object_of [OF J] by (simp add: wire_message_def opt_str_def split: option.splits)
    then show ?thesis by (simp add: cjson_name_laws.get_ci [OF L] cjson_laws.object_new [OF J])
  next
    case (Some j)
    then have "meta = delete_ci J j ''REPLACE''" using that
      unfolding send_message_object_def cjson_laws.get_object_of [OF J] by (simp add: wire_message_def opt_str_def split: option.splits)
    then show ?thesis using cjson_name_laws.get_delete_ci [OF L meta [OF Some], of "''REPLACE''" "''REPLACE''"] by simp
  qed
  ultimately show ?thesis unfolding sealed_body_def doc by blast
qed

lemma same_json:
  "oj (with_server q E) = oj E" "le_ne (ob_le (with_server q E)) = le_ne (ob_le E)" "le_thread (ob_le (with_server q E)) = le_thread (ob_le E)"
  by simp_all

lemma same_deliver:
  assumes "differ_on_open_sends (oj E) (le_post (ob_le E)) q" and "\<And>b. content = Some b \<Longrightarrow> sealed_body (oj E) b"
  shows "deliver (with_server q E) path session token n e2ee_seq state content m W = deliver E path session token n e2ee_seq state content m W"
proof -
  have upd: "update_send_state (with_server q E) path session n e2ee_seq state V = update_send_state E path session n e2ee_seq state V" for V
    by (simp add: update_send_state_def session_persist_def store_def)
  moreover have "post_send_message (with_server q E) token b W = post_send_message E token b W" if "content = Some b" for b
    unfolding post_send_message_def same_json same_post [OF assms(1) disjI2 [OF assms(2) [OF that]]] ..
  ultimately show ?thesis unfolding deliver_def same_json upd by (simp split: option.split)
qed

lemma same_finish:
  assumes "cjson_name_laws (oj E)" and "differ_on_open_sends (oj E) (le_post (ob_le E)) q"
    and "\<forall>j. m_contentMetadata m = Some j \<longrightarrow> clean_doc (oj E) j"
  shows "finish_e2ee_send (with_server q E) path session token n cipher a b e2ee_seq state m W =
    finish_e2ee_send E path session token n cipher a b e2ee_seq state m W"
proof -
  have "sealed_body (oj E) body"
    if "build_wire_body (oj E) n (attach_chunks_to_local (oj E) m pieces) True = Some body" for pieces body
    using that by (rule wire_body_sealed [OF assms(1), rotated]) (use assms(3) in \<open>simp add: attach_chunks_to_local_def\<close>)
  then show ?thesis
    using same_deliver [OF assms(2)] by (simp add: finish_e2ee_send_def split_v2_ciphertext_def split: option.split)
qed

lemmas call_paths = TALK_REGISTER_E2EE_GROUP_KEY_def TALK_NEGOTIATE_E2EE_PUBLIC_KEY_def TALK_GET_LAST_E2EE_GROUP_SHARED_KEY_def talk_endpoint_def send_path_def

lemma same_keys_asked:
  assumes "differ_on_open_sends (oj E) (le_post (ob_le E)) q"
  shows "talk_negotiate_e2ee_public_key (talk_of (ob_le (with_server q E))) tok peer W =
      talk_negotiate_e2ee_public_key (talk_of (ob_le E)) tok peer W"
    and "last_group_key (with_server q E) token g W = last_group_key E token g W"
    and "fetch_public_key (with_server q E) token g k W = fetch_public_key E token g k W"
    and "fetch_last_e2ee_public_keys (with_server q E) token g W = fetch_last_e2ee_public_keys E token g W"
    and "register_group_key (with_server q E) token g keys W = register_group_key E token g keys W"
proof -
  have tj: "tj (talk_of (ob_le (with_server q E))) = oj E" "tj (talk_of (ob_le E)) = oj E" by (simp_all add: talk_of_def)
  have paths: "epath TALK_NEGOTIATE_E2EE_PUBLIC_KEY \<noteq> send_path" "epath TALK_GET_LAST_E2EE_GROUP_SHARED_KEY \<noteq> send_path"
    "''/api/talk/thrift/Talk/TalkService/getE2EEPublicKey'' \<noteq> send_path"
    "''/api/talk/thrift/Talk/TalkService/getLastE2EEPublicKeys'' \<noteq> send_path" "epath TALK_REGISTER_E2EE_GROUP_KEY \<noteq> send_path"
    by (simp_all add: call_paths)
  show "talk_negotiate_e2ee_public_key (talk_of (ob_le (with_server q E))) tok peer W =
      talk_negotiate_e2ee_public_key (talk_of (ob_le E)) tok peer W"
    unfolding talk_negotiate_e2ee_public_key_def tj same_typed_call [OF assms paths(1)] ..
  show "last_group_key (with_server q E) token g W = last_group_key E token g W"
    unfolding last_group_key_def talk_get_last_e2ee_group_shared_key_def tj same_typed_call [OF assms paths(2)] ..
  show "fetch_public_key (with_server q E) token g k W = fetch_public_key E token g k W"
    unfolding fetch_public_key_def same_json same_post [OF assms disjI1 [OF paths(3)]] ..
  show "fetch_last_e2ee_public_keys (with_server q E) token g W = fetch_last_e2ee_public_keys E token g W"
    unfolding fetch_last_e2ee_public_keys_def same_json same_post [OF assms disjI1 [OF paths(4)]] ..
  show "register_group_key (with_server q E) token g keys W = register_group_key E token g keys W"
    unfolding register_group_key_def talk_register_e2ee_group_key_def tj same_typed_call [OF assms paths(5)] ..
qed

lemma same_created:
  assumes "differ_on_open_sends (oj E) (le_post (ob_le E)) q"
  shows "create_and_register_group_key (with_server q E) session token me g W = create_and_register_group_key E session token me g W"
  unfolding create_and_register_group_key_def Let_def same_json same_keys_asked [OF assms] ..

lemma same_1on1:
  assumes "cjson_name_laws (oj E)" and "differ_on_open_sends (oj E) (le_post (ob_le E)) q"
    and "\<forall>j. m_contentMetadata m = Some j \<longrightarrow> clean_doc (oj E) j"
  shows "send_1on1 (with_server q E) path session token me chat_mid n payload kind m W =
    send_1on1 E path session token me chat_mid n payload kind m W"
  unfolding send_1on1_def Let_def same_json same_keys_asked [OF assms(2)] same_finish [OF assms] ..

lemma same_sealed:
  assumes "cjson_name_laws (oj E)" and "differ_on_open_sends (oj E) (le_post (ob_le E)) q"
    and "\<forall>j. m_contentMetadata m = Some j \<longrightarrow> clean_doc (oj E) j"
  shows "send_sealed (with_server q E) path session token me chat_mid n payload kind m gk W =
    send_sealed E path session token me chat_mid n payload kind m gk W"
  unfolding send_sealed_def Let_def same_json same_keys_asked [OF assms(2)] same_finish [OF assms] ..

text \<open>This send asks for the group's key and gets none, tries to make one, and gets none either.\<close>

definition group_key_refused :: "('t, 'h, 'j) obs_env \<Rightarrow> string \<Rightarrow> string \<Rightarrow> ('t, 'h) line_world \<Rightarrow> bool" where
  "group_key_refused E path chat_mid W \<longleftrightarrow>
     (\<exists>session token me. sending_session E path W = Some (session, token, me) \<and>
        fst (last_group_key E token chat_mid W) = None \<and>
        fst (fst (create_and_register_group_key E session token me chat_mid (snd (last_group_key E token chat_mid W)))) = None)"

lemma same_encrypted:
  assumes "cjson_name_laws (oj E)" and "differ_on_open_sends (oj E) (le_post (ob_le E)) q"
    and "chat_prefix chat_mid = CHR ''u'' \<or> \<not> group_key_refused E path chat_mid W"
    and "sending_session E path W = Some (session, token, me)"
    and "\<forall>j. m_contentMetadata m = Some j \<longrightarrow> clean_doc (oj E) j"
  shows "send_encrypted (with_server q E) path session token me chat_mid n payload kind m W =
    send_encrypted E path session token me chat_mid n payload kind m W"
proof (cases "chat_prefix chat_mid = CHR ''u''")
  case True
  then show ?thesis using same_1on1 [OF assms(1,2,5)] by (simp add: send_encrypted_def)
next
  case False
  obtain gk W1 where gk: "last_group_key E token chat_mid W = (gk, W1)" by fastforce
  obtain new s' W2 where new: "create_and_register_group_key E session token me chat_mid W1 = ((new, s'), W2)" by (metis prod.exhaust)
  have "gk \<noteq> None \<or> new \<noteq> None" using False assms(3,4) gk new by (auto simp: group_key_refused_def)
  then show ?thesis
    using False gk new unfolding send_encrypted_def send_group_def same_keys_asked(2) [OF assms(2)] same_created [OF assms(2)]
      same_sealed [OF assms(1,2,5)]
    by (cases gk) auto
qed

lemma clean_object:
  assumes "cjson_laws J" and "distinct (map (\<lambda>(k, v). map lower_char k) kvs)"
  shows "clean_doc J (object_of J kvs)"
  using assms(2) cjson_laws.object_of [OF assms(1), of kvs] by (simp add: clean_doc_def)

lemma same_setup:
  shows "oj (with_server q E) = oj E" "sending_session (with_server q E) path W = sending_session E path W"
    "next_req_seq (with_server q E) session W = next_req_seq E session W"
    "build_local_outgoing (with_server q E) a b n W = build_local_outgoing E a b n W"
    "encode_plaintext (with_server q E) content = encode_plaintext E content"
    "encode_sticon_plaintext (with_server q E) content res = encode_sticon_plaintext E content res"
  by (simp_all add: sending_session_def load_session_def next_req_seq_def build_local_outgoing_def encode_plaintext_def
      encode_sticon_plaintext_def encode_json_def)

text \<open>C5: A text or a message of sticons goes to the server in the clear in one case only: the chat is a group, this
  send's request for the group's key gave none, and its attempt to make and register one gave none either.  In every
  other run, of a chat with one recipient always, the send and all that it leaves behind are the same whatever the
  server does with a \<open>sendMessage\<close> whose message has a text or the sticons' metadata: no such request is made.\<close>

theorem nothing_sent_in_clear:
  assumes "cjson_name_laws (oj E)" and "differ_on_open_sends (oj E) (le_post (ob_le E)) q"
  shows "(enil_line_send_text (with_server q E) path chat_mid content W = enil_line_send_text E path chat_mid content W \<and>
      enil_line_send_inline_sticon (with_server q E) path chat_mid content res W = enil_line_send_inline_sticon E path chat_mid content res W) \<or>
    (chat_prefix chat_mid = CHR ''c'' \<and> group_key_refused E path chat_mid W)"
proof (cases "chat_prefix chat_mid = CHR ''c'' \<and> group_key_refused E path chat_mid W")
  case False
  note J = cjson_name_laws.axioms(1) [OF assms(1)]
  have "clean_doc (oj E) (object_of (oj E) [(''e2eeVersion'', a)])"
    "clean_doc (oj E) (object_of (oj E) [(''e2eeVersion'', a), (''STICON_OWNERSHIP'', b), (''REPLACE'', c)])" for a b c
    by (rule clean_object [OF J], simp)+
  moreover have "chat_prefix chat_mid = CHR ''u'' \<or> \<not> group_key_refused E path chat_mid W" if "ENIL_LineSend.sendable chat_mid"
    using False that by (auto simp: ENIL_LineSend.sendable_def)
  ultimately show ?thesis
    unfolding enil_line_send_text_def enil_line_send_inline_sticon_def same_setup Let_def
    using same_encrypted [OF assms, of chat_mid path W] by (auto split: option.split)
qed simp

text \<open>A chat with one recipient: its key is negotiated, the worker seals the text, and the message is sent.\<close>

definition chat_saved :: json where
  "chat_saved = JObj [(''loginId'', JStr ''L''), (''accessToken'', JStr ''a''), (''mid'', JStr ''u1''),
     (''e2eeKeys'', JArr [JObj [(''exportedKey'', JStr ''k'')]]),
     (''clientIdentity'', the (enil_identity_to_json (tree (\<lambda>s. None) (\<lambda>j. [])) (Some windows_identity)))]"

definition chat_lib :: "json cjson" where
  "chat_lib = tree (\<lambda>s. if s = ''S'' then Some chat_saved
     else if s = ''K'' then Some (JObj [(''message'', JStr ''OK''), (''data'', JObj [(''publicKey'', JObj [(''keyData'', JStr ''p''), (''keyId'', JStr ''7'')])])])
     else if s = ''C'' then Some (JObj [(''ciphertext'', JStr (replicate 40 CHR ''c'')), (''workerRestoreState'', JObj [])])
     else None) (\<lambda>j. ''?'')"

definition chat_answers :: "(nat, nat) line_world \<Rightarrow> string \<Rightarrow> ENILLineResponse" where
  "chat_answers W path = \<lparr>status = 200, body = Some (if path = epath TALK_NEGOTIATE_E2EE_PUBLIC_KEY then ''K'' else ''R'')\<rparr>"

definition chat_env :: "(nat, nat, json) obs_env" where
  "chat_env = media_env\<lparr>ob_le := (ob_le media_env)\<lparr>le_ne := (demo_net_env (\<lambda>_. (200, ''C'')))\<lparr>njson := chat_lib\<rparr>,
     le_se := (\<lambda>n. demo_calls\<lparr>sj := chat_lib\<rparr>), le_post := (\<lambda>path b tok hs t W. (chat_answers W path, W))\<rparr>,
     ob_evp_decode := (\<lambda>s. Some (replicate 30 0))\<rparr>"

lemma chat_session:
  "\<exists>s. sending_session chat_env ''/s'' demo_before = Some (s, ''a'', ''u1'') \<and> find_e2ee_key chat_lib s (e2eeLatestKeyId s) = Some ''k'' \<and>
     restore_text chat_lib s = None"
proof -
  have "map_option (\<lambda>(s, t, me). (t, me, find_e2ee_key chat_lib s (e2eeLatestKeyId s), restore_text chat_lib s))
      (sending_session chat_env ''/s'' demo_before) = Some (''a'', ''u1'', Some ''k'', None)"
    by code_simp
  then show ?thesis by (auto simp: map_option_case split: option.splits)
qed

lemma chat_post:
  "post (ob_le chat_env) path b tok W = (chat_answers W path, W\<lparr>lw_asked := lw_asked W @ [(path, chat_answers W path)]\<rparr>)"
  by (simp add: post_def chat_env_def)

lemma chat_peer:
  "\<exists>pk W1. talk_negotiate_e2ee_public_key (talk_of (ob_le chat_env)) (Some ''a'') (Some ''u2'') demo_before = (Some pk, W1) \<and> lw_net W1 = demo_net"
proof -
  have "fst (talk_negotiate_e2ee_public_key (talk_of (ob_le chat_env)) (Some ''a'') (Some ''u2'') demo_before) \<noteq> None" by code_simp
  moreover have "lw_net (snd (talk_negotiate_e2ee_public_key (talk_of (ob_le chat_env)) (Some ''a'') (Some ''u2'') demo_before)) = demo_net"
    by (simp add: talk_negotiate_e2ee_public_key_def typed_call_def enil_api_call_def talk_of_def chat_post demo_before_def
        split: prod.split option.split)
  ultimately show ?thesis by (metis option.collapse prod.collapse)
qed

lemma chat_seals:
  assumes "eu_restore_state p = None"
  shows "\<exists>N. enil_worker_encrypt_user (le_ne (ob_le chat_env)) (le_thread (ob_le chat_env)) (Some p) demo_net =
    (Some \<lparr>ciphertext = replicate 40 CHR ''c'', wr_restore_state = ''?''\<rparr>, N)"
proof -
  have lib: "njson (le_ne (ob_le chat_env)) = chat_lib" by (simp add: chat_env_def)
  have answer: "Option.bind (parseText chat_lib ''C'') (extract_encrypt_result chat_lib) = Some \<lparr>ciphertext = replicate 40 CHR ''c'', wr_restore_state = ''?''\<rparr>"
    by code_simp
  have "\<exists>N. worker_post (le_ne (ob_le chat_env)) (le_thread (ob_le chat_env)) path r None demo_net = (Some ''C'', N)" for path r
    by (simp add: worker_post_def worker_credentials_copy_def demo_net_def raised_def chat_env_def demo_net_env_def enil_curl_new_def
        enil_curl_new_raw_def transfer_def Let_def buffered_def demo_online_def media_env_def)
  then obtain N where "worker_post (le_ne (ob_le chat_env)) (le_thread (ob_le chat_env)) ''/e2ee/encrypt-user-v2''
      (printText chat_lib (encrypt_user_request chat_lib (mkObject chat_lib) p)) None demo_net = (Some ''C'', N)" by blast
  then show ?thesis
    using answer by (simp add: enil_worker_encrypt_user_def parse_restore_state_def worker_call_def lib assms)
qed

lemma chat_posts:
  "\<exists>r. (send_path, r) \<in> set (lw_asked (snd (finish_e2ee_send chat_env path s t n (replicate 40 CHR ''c'') a b e2ee_seq state m W)))"
proof -
  have lib: "oj chat_env = chat_lib" by (simp add: chat_env_def)
  have "enil_b64_decode_alloc (ob_evp_decode chat_env) (Some (replicate 40 CHR ''c'')) = Some (replicate 30 0)" by code_simp
  then obtain pieces where "split_v2_ciphertext chat_env (replicate 40 CHR ''c'') a b = Some pieces" by (simp add: split_v2_ciphertext_def)
  moreover have "parseText chat_lib ''R'' = None" by code_simp
  moreover have "send_path \<noteq> epath TALK_NEGOTIATE_E2EE_PUBLIC_KEY" by code_simp
  ultimately show ?thesis
    by (simp add: finish_e2ee_send_def deliver_def post_send_message_def chat_post chat_answers_def line_response_data_def lib
        build_wire_body_def talk_send_message_body_build_def) blast
qed

lemma chat_sends: "\<exists>r. (send_path, r) \<in> set (lw_asked (snd (enil_line_send_text chat_env ''/s'' ''u2'' ''hi'' demo_before)))"
proof -
  have lib: "oj chat_env = chat_lib" by (simp add: chat_env_def)
  obtain s where s: "sending_session chat_env ''/s'' demo_before = Some (s, ''a'', ''u1'')"
    "find_e2ee_key chat_lib s (e2eeLatestKeyId s) = Some ''k''" "restore_text chat_lib s = None"
    using chat_session by blast
  obtain pk W1 where pk: "talk_negotiate_e2ee_public_key (talk_of (ob_le chat_env)) (Some ''a'') (Some ''u2'') demo_before = (Some pk, W1)"
    "lw_net W1 = demo_net" using chat_peer by blast
  have chat: "(\<not> ENIL_LineSend.sendable ''u2'') = False" "chat_prefix ''u2'' = CHR ''u''" by code_simp+
  have seals: "fst (enil_worker_encrypt_user (le_ne (ob_le chat_env)) (le_thread (ob_le chat_env))
      (Some \<lparr>eu_restore_state = None, eu_private_key = k, eu_private_key_id = i, eu_peer_mid = c, eu_peer_public_key = d,
         eu_peer_key_id = e, eu_from_mid = f, eu_to_mid = g, eu_sender_key_id = h, eu_content_type = l,
         eu_sequence_number = q, eu_plaintext = u\<rparr>) demo_net) = Some \<lparr>ciphertext = replicate 40 CHR ''c'', wr_restore_state = ''?''\<rparr>"
    for k i c d e f g h l q u
    using chat_seals by (metis (no_types, lifting) ENILWorkerEncryptUserParams.select_convs(1) fst_conv)
  show ?thesis
    unfolding enil_line_send_text_def send_encrypted_def send_1on1_def Let_def lib s on_net_def option.case if_True chat prod.case pk
      simp_thms if_False case_prod_beta seals fst_conv snd_conv ENILWorkerEncryptResult.select_convs
    by (rule chat_posts)
qed

text \<open>A server that refuses every send that is not sealed.\<close>

definition strict_server :: "(nat, nat) answers" where
  "strict_server path b tok hs t W =
     (if path = send_path \<and> \<not> sealed_body (oj chat_env) b then (\<lparr>status = 400, body = None\<rparr>, W)
      else le_post (ob_le chat_env) path b tok hs t W)"

theorem nothing_sent_in_clear_witness:
  "fst (strict_server send_path ''hi'' None [] 0 demo_before) \<noteq> fst (le_post (ob_le chat_env) send_path ''hi'' None [] 0 demo_before) \<and>
   enil_line_send_text (with_server strict_server chat_env) ''/s'' ''u2'' ''hi'' demo_before =
     enil_line_send_text chat_env ''/s'' ''u2'' ''hi'' demo_before \<and>
   (\<exists>r. (send_path, r) \<in> set (lw_asked (snd (enil_line_send_text chat_env ''/s'' ''u2'' ''hi'' demo_before))))"
proof -
  have lib: "oj chat_env = chat_lib" by (simp add: chat_env_def)
  have "cjson_name_laws (oj chat_env)" unfolding lib chat_lib_def by (rule tree_names.cjson_name_laws_axioms)
  moreover have "differ_on_open_sends (oj chat_env) (le_post (ob_le chat_env)) strict_server"
    by (simp add: differ_on_open_sends_def strict_server_def)
  moreover have "chat_prefix ''u2'' \<noteq> CHR ''c''" by (simp add: chat_prefix_def)
  moreover have "\<not> sealed_body (oj chat_env) ''hi''" by (simp add: sealed_body_def lib chat_lib_def tree_def)
  then have "fst (strict_server send_path ''hi'' None [] 0 demo_before) \<noteq> fst (le_post (ob_le chat_env) send_path ''hi'' None [] 0 demo_before)"
    by (simp add: strict_server_def chat_env_def chat_answers_def)
  ultimately show ?thesis
    using nothing_sent_in_clear [of chat_env strict_server "''/s''" "''u2''" "''hi''" demo_before] chat_sends by blast
qed

end
