(* ===== verification/Spec2Isabelle.thy ===== *)
theory Spec2Isabelle
  imports ENIL_StrBuf ENIL_Json ENIL_Base64 ENIL_Crypto ENIL_Image ENIL_Thrift_Roundtrip
    ENIL_Identity ENIL_Health ENIL_Sse ENIL_NativePoll ENIL_MessageFormat ENIL_Transport ENIL_SessionRun ENIL_TalkFacts ENIL_DbPages ENIL_E2eeFacts ENIL_SyncPhaseFacts ENIL_NativeLoginFacts
    ENIL_LineRefreshFacts ENIL_ObsFacts ENIL_LineSendFacts
begin

text \<open>
  A verification library for ENIL, a LINE client whose portable core is the C code under \<open>src/source/shared/\<close>.
  The Cocoa application calls the core, the core talks to LINE's servers directly or through the user's own
  Cloudflare worker, and keeps what it learns in a SQLite file and in directories beside it.  Each theory
  names the C file it models; its definitions carry the C names where Isabelle allows it.

  The program's parts and how they meet.

  \<^item> Ground: \<open>ENIL_Prelude\<close> (bytes, C strings, C integer conversions), \<open>ENIL_StrBuf\<close> (\<open>enil_strbuf.c\<close>: the growable
    buffer and the HTML, JavaScript and URL escapers), \<open>ENIL_Json\<close> (\<open>enil_api_json.c\<close>, \<open>enil_api_call.c\<close> over cJSON),
    \<open>ENIL_Base64\<close> (\<open>enil_b64.c\<close>), \<open>ENIL_Crypto\<close> (\<open>enil_crypto.c\<close>: attachments), \<open>ENIL_Image\<close> (\<open>enil_png.c\<close>, \<open>enil_jpeg.c\<close>,
    \<open>enil_asset_cache.c\<close>).
  \<^item> Wire: \<open>ENIL_Thrift\<close>, \<open>ENIL_Thrift_Reader\<close>, \<open>ENIL_Thrift_Roundtrip\<close> (\<open>enil_thrift.c\<close>: compact Thrift driven by a schema),
    \<open>ENIL_Http\<close> (\<open>enil_http.c\<close>), \<open>ENIL_Worker\<close> (\<open>enil_worker.c\<close>: requests to the user's worker), \<open>ENIL_Transport\<close> (the routing of
    \<open>enil_line.c\<close>, the Chrome gateway \<open>enil_chrome_gateway.c\<close> and the native endpoint \<open>enil_native.c\<close>), \<open>ENIL_Sse\<close> (\<open>enil_sse.c\<close>: the event
    stream), \<open>ENIL_NativePoll\<close> (\<open>enil_native_poll.c\<close>: the long poll) \<open>ENIL_Obs\<close>,
    \<open>ENIL_ObsFacts\<close> (\<open>enil_obs.c\<close>: media) and \<open>ENIL_LineSend\<close>, \<open>ENIL_LineSendFacts\<close> (the sends of \<open>enil_line.c\<close>).
  \<^item> Identity and gate: \<open>ENIL_Identity\<close> (\<open>enil_identity.c\<close>) and \<open>ENIL_Health\<close> (\<open>enil_health.c\<close>).  Every request asks the gate first;
    a failure the gate remembers stops later ones.
  \<^item> Saved login: \<open>ENIL_Session\<close>, \<open>ENIL_SessionData\<close>, \<open>ENIL_SessionFacts\<close>, \<open>ENIL_SessionMerge\<close>, \<open>ENIL_SessionRun\<close> (\<open>enil_session.c\<close>),
    \<open>ENIL_LoginStore\<close>, \<open>ENIL_LoginFacts\<close> (\<open>enil_login_store.c\<close>), \<open>ENIL_NativeLogin\<close>, \<open>ENIL_NativeLoginFacts\<close> (\<open>enil_native_login.c\<close>),
    \<open>ENIL_LineRefresh\<close>, \<open>ENIL_LineRefreshFacts\<close> (the tokens of \<open>enil_line.c\<close>).
  \<^item> Server data: \<open>ENIL_TalkTypes\<close> (\<open>enil_api_types.h\<close> and its parsers), \<open>ENIL_Talk\<close>, \<open>ENIL_TalkSend\<close>, \<open>ENIL_TalkFacts\<close>
    (\<open>enil_talkserv.c\<close>).
  \<^item> Storage: \<open>ENIL_Table\<close>, \<open>ENIL_Db\<close>, \<open>ENIL_DbMessages\<close>, \<open>ENIL_DbReads\<close> (\<open>enil_db.c\<close>) with \<open>ENIL_DbFacts\<close>, \<open>ENIL_DbRows\<close>, and
    \<open>ENIL_DbPages\<close> (the paging of \<open>enil_account.c\<close>).
  \<^item> Synchronisation: \<open>ENIL_E2ee\<close>, \<open>ENIL_E2eeFacts\<close> (decryption), \<open>ENIL_SyncAssets\<close> (downloads), \<open>ENIL_Sync\<close>, \<open>ENIL_SyncKeeps\<close>,
    \<open>ENIL_SyncFacts\<close> (a server event), \<open>ENIL_SyncPhases\<close>, \<open>ENIL_SyncPhaseFacts\<close> (the full sync), all of \<open>enil_sync.c\<close>.
  \<^item> View: \<open>ENIL_MessageFormat\<close> (\<open>enil_message_format.c\<close>: message text to HTML).

  How the state of the code appears.  A C struct is a record, a file-scope variable a field of the record its
  component threads through, and an operation a function from the state before to the state after and a
  result.  The files of a directory are a map from paths to contents; a database is a list of rows for each
  table, in a state with its open transactions; the network is the list of requests sent so far, so that a
  server may answer each from the whole history.  Threads appear where the code shares state between them: the
  gate, the identity binding and the session store are run by any interleaving of their operations
  (\<open>health_gate_stands\<close>, \<open>session_store_invariant\<close>).  An operation on a gate is atomic under the lock the code
  takes; a write of a session is the sequence of its file-system calls (\<open>write_steps\<close>: create, fill, rename, or
  unlink on failure), and the claim about the store holds after each of them.

  What is a parameter.  Code outside the repository is an argument, with what the code relies on stated as
  the laws of a locale or named hypotheses: cJSON (locale \<open>cjson_laws\<close>, interpreted by the tree of JSON
  values \<open>tree\<close>), OpenSSL's base64 blocks, HMAC and AES, the answers of libcurl to each request, the answers of
  system calls, and which SQL statements fail.  A parameter that may fail is asked at every use, so each theorem
  covers every combination of failures.  Some theories reach a component modelled elsewhere through such a
  parameter too: the sync engine asks for identity and sessions through its environment, over a world of its
  own, because those components are verified over their own state.

  What the groups of lemmas show.

  \<^item> Codecs are inverse and bounded: base64, attachments, Thrift replies, identities, sessions, messages sent
    and read back; the reader never leaves its buffer, whatever bytes arrive.
  \<^item> Streams: the event stream means the same however the network cuts it; cursors follow only what was
    acknowledged, never move back, and move past a full sync only when all of it succeeded.
  \<^item> Storage: whatever statements fail, stored history only grows; a message delivered again is neither counted
    nor rewritten; a chat is deleted whole or not at all; paging shows every message once.
  \<^item> Sessions and logins: a save is a three-way merge under its own login, a superseded login is never
    touched, an attempt is used once, the request that issues tokens is sent at most once, and the answer to a
    refresh is never lost.
  \<^item> Sending: a sealed message can be read back by the receiving code, and its text and sticons go to
    the server in the clear only in a group whose key could be neither fetched nor created, as the code falls
    back to.
  \<^item> Output: escaped text cannot leave its place in HTML, and no message text is lost in formatting.

  Bounds and fuel.  Loops over lists and indices are recursions over them.  The stream of \<open>ENIL_Sse\<close> recurses over
  the transfers that happen and the poll of \<open>ENIL_NativePoll\<close> over a number of turns, since only the world ends
  them; their claims hold for every such run, and \<open>native_poll_gives_up\<close> shows that five turns end it on a dead
  connection.  The paging of the message boxes may go on for ever with a bad server and is a partial function;
  \<open>message_boxes_complete\<close> shows that it returns with a server that pages in order.  The Thrift reader descends at
  most the 40 levels the code allows and has fuel for one round per remaining byte, which \<open>struct_loop_enough\<close>
  shows to be enough.  C integers are words, or integers with the conversions of \<open>ENIL_Prelude\<close>; sizes are
  compared with the limits of the code (the 8 MB Thrift message, the 2 MB login reply, the fixed buffers).

  Not modelled, and why.

  \<^item> Memory: allocation fails only where a definition takes such a parameter (a copy of a cached group key, for
    one, always succeeds here), and functions that only release
    memory have no counterpart.
  \<^item> \<open>enil_html.c\<close>, the JavaScript built after an event (\<open>js_for_sse_*\<close> in \<open>enil_sync.c\<close>) and most of \<open>enil_account.c\<close>:
    templates of the view and its glue.  The escapers and the formatter they use are modelled.
  \<^item> \<open>enil_qrlogin.c\<close>: the login of the Chrome client.
  \<^item> In \<open>enil_db.c\<close>: opening the file, the schema and its migrations, the roster's own connection and the
    picker lists, which are SQL text rather than code.
  \<^item> Downloads of a batch run in parallel threads in the code and in sequence here.
  \<^item> \<open>enil_log.c\<close>, the Cocoa application, the Cloudflare worker and the tests.
\<close>

end
